(* ===== verification/Prelude.thy ===== *)
theory Prelude
  imports Main "HOL-Library.Word"
begin

unbundle bit_operations_syntax

text \<open>
  Shared vocabulary of the development: the C integer types as words, the result
  type of operations that may stop the emulator, bit fields, and little-endian
  byte sequences with their round-trip laws.
\<close>

section \<open>C integer types\<close>

type_synonym u8 = "8 word"
type_synonym u16 = "16 word"
type_synonym u32 = "32 word"
type_synonym u64 = "64 word"

section \<open>Results\<close>

text \<open>
  An operation of the emulator either returns or stops the process: a failed
  \<open>assert\<close> (named after the function that contains it), an operation whose
  behaviour C leaves undefined (an access outside an array, a shift by at least
  the width, a division overflow), a wait that no pending event ends, or
  the fuel of a bounded recursion of the model.
\<close>

datatype abort =
    Assert_failed string
  | Undefined string
  | Blocked string
  | Out_of_fuel

type_synonym 'a res = "abort + 'a"

definition bindE :: "'a res \<Rightarrow> ('a \<Rightarrow> 'b res) \<Rightarrow> 'b res" where
  "bindE m f = (case m of Inl e \<Rightarrow> Inl e | Inr x \<Rightarrow> f x)"

definition assertE :: "string \<Rightarrow> bool \<Rightarrow> 'a res \<Rightarrow> 'a res" where
  "assertE msg b k = (if b then k else Inl (Assert_failed msg))"

definition definedE :: "string \<Rightarrow> bool \<Rightarrow> 'a res \<Rightarrow> 'a res" where
  "definedE msg b k = (if b then k else Inl (Undefined msg))"

named_theorems res_simps \<open>evaluation of results\<close>

lemma bindE_Inr [simp, res_simps]: "bindE (Inr x) f = f x"
  by (simp add: bindE_def)

lemma bindE_Inl [simp, res_simps]: "bindE (Inl e) f = Inl e"
  by (simp add: bindE_def)

lemma bindE_assoc: "bindE (bindE m f) g = bindE m (\<lambda>x. bindE (f x) g)"
  by (simp add: bindE_def split: sum.splits)

lemma bindE_eq_Inr: "bindE m f = Inr y \<longleftrightarrow> (\<exists>x. m = Inr x \<and> f x = Inr y)"
  by (auto simp: bindE_def split: sum.splits)

lemma bindE_InrE:
  assumes "bindE m f = Inr y"
  obtains x where "m = Inr x" and "f x = Inr y"
  using assms by (auto simp: bindE_eq_Inr)

lemma bindE_cong [fundef_cong]:
  "m = m' \<Longrightarrow> (\<And>x. m' = Inr x \<Longrightarrow> f x = g x) \<Longrightarrow> bindE m f = bindE m' g"
  by (auto simp: bindE_def split: sum.splits)

lemma assertE_True [simp, res_simps]: "b \<Longrightarrow> assertE msg b k = k"
  by (simp add: assertE_def)

lemma assertE_False [simp, res_simps]: "\<not> b \<Longrightarrow> assertE msg b k = Inl (Assert_failed msg)"
  by (simp add: assertE_def)

lemma assertE_eq_Inr: "assertE msg b k = Inr y \<longleftrightarrow> b \<and> k = Inr y"
  by (simp add: assertE_def)

lemma definedE_True [simp, res_simps]: "b \<Longrightarrow> definedE msg b k = k"
  by (simp add: definedE_def)

lemma definedE_False [simp, res_simps]: "\<not> b \<Longrightarrow> definedE msg b k = Inl (Undefined msg)"
  by (simp add: definedE_def)

lemma definedE_eq_Inr: "definedE msg b k = Inr y \<longleftrightarrow> b \<and> k = Inr y"
  by (simp add: definedE_def)

lemmas res_eq_Inr = bindE_eq_Inr assertE_eq_Inr definedE_eq_Inr

section \<open>Bit fields\<close>

text \<open>
  C bit fields of a 32-bit union: \<open>field lo n w\<close> reads \<open>n\<close> bits from bit \<open>lo\<close> up,
  \<open>put_bit n b w\<close> writes a one-bit field.
\<close>

definition field :: "nat \<Rightarrow> nat \<Rightarrow> 'a::len word \<Rightarrow> 'a word" where
  "field lo n w = take_bit n (drop_bit lo w)"

definition put_bit :: "nat \<Rightarrow> bool \<Rightarrow> 'a::len word \<Rightarrow> 'a word" where
  "put_bit n b w = (if b then set_bit n w else unset_bit n w)"

lemma bit_put_bit [simp]:
  "bit (put_bit n b w) m = (if m = n then b \<and> n < LENGTH('a) else bit w m)"
  for w :: "'a::len word"
  by (auto simp: put_bit_def bit_set_bit_iff bit_unset_bit_iff dest: bit_imp_le_length)

lemma bit_field: "bit (field lo n w) m \<longleftrightarrow> m < n \<and> bit w (lo + m)"
  for w :: "'a::len word"
  by (auto simp: field_def bit_take_bit_iff bit_drop_bit_eq dest: bit_imp_le_length)

lemma field_less: "n < LENGTH('a) \<Longrightarrow> unat (field lo n w) < 2 ^ n"
  for w :: "'a::len word"
  by (simp add: field_def unsigned_take_bit_eq)

section \<open>Little-endian byte sequences\<close>

text \<open>
  \<open>memcpy\<close> of \<open>n\<close> bytes into a zeroed \<open>uint32_t\<close> reads them little-endian;
  \<open>byte_of i d\<close> is byte \<open>i\<close> of the representation of \<open>d\<close>.
\<close>

fun le_read :: "(nat \<Rightarrow> u8) \<Rightarrow> nat \<Rightarrow> u32" where
  "le_read f 0 = 0"
| "le_read f (Suc n) = ucast (f 0) OR push_bit 8 (le_read (\<lambda>i. f (Suc i)) n)"

definition byte_of :: "nat \<Rightarrow> u32 \<Rightarrow> u8" where
  "byte_of i d = ucast (drop_bit (8 * i) d)"

lemma bit_byte_of: "bit (byte_of i d) k \<longleftrightarrow> k < 8 \<and> bit d (8 * i + k)"
  by (auto simp: byte_of_def bit_ucast_iff bit_drop_bit_eq dest: bit_imp_le_length)

lemma bit_le_read:
  "bit (le_read f n) k \<longleftrightarrow> k < 32 \<and> k < 8 * n \<and> bit (f (k div 8)) (k mod 8)"
proof (induction n arbitrary: f k)
  case 0
  then show ?case by simp
next
  case (Suc n)
  show ?case
  proof (cases "k < 8")
    case True
    then show ?thesis by (auto simp: bit_or_iff bit_ucast_iff bit_push_bit_iff)
  next
    case False
    then have "k div 8 = Suc ((k - 8) div 8)" and "k mod 8 = (k - 8) mod 8"
      by (simp_all add: le_div_geq le_mod_geq)
    with False show ?thesis
      by (auto simp: bit_or_iff bit_ucast_iff bit_push_bit_iff Suc.IH
               dest: bit_imp_le_length)
  qed
qed

lemma le_read_cong: "(\<And>i. i < n \<Longrightarrow> f i = g i) \<Longrightarrow> le_read f n = le_read g n"
  by (rule bit_word_eqI) (auto simp: bit_le_read less_mult_imp_div_less mult.commute)

lemma byte_of_le_read: "i < n \<Longrightarrow> i < 4 \<Longrightarrow> byte_of i (le_read f n) = f i"
  by (rule bit_word_eqI) (auto simp: bit_byte_of bit_le_read)

lemma le_read_byte_of: "le_read (\<lambda>i. byte_of i d) n = take_bit (8 * n) d"
  by (rule bit_word_eqI)
    (auto simp: bit_le_read bit_byte_of bit_take_bit_iff)

lemma le_read_byte_of_4 [simp]: "le_read (\<lambda>i. byte_of i d) 4 = d"
  by (rule bit_word_eqI) (auto simp: bit_le_read bit_byte_of)

lemma le_read_append:
  "m + n \<le> 4 \<Longrightarrow>
   le_read f (m + n) = push_bit (8 * m) (le_read (\<lambda>i. f (m + i)) n) OR le_read f m"
  by (rule bit_word_eqI)
    (auto simp: bit_le_read bit_or_iff bit_push_bit_iff div_mult_self1 not_less
          elim!: le_Suc_ex [elim_format])

text \<open>\<open>memcpy\<close> of the first \<open>len\<close> bytes of \<open>d\<close> to address \<open>a\<close>.\<close>

definition store_bytes :: "(nat \<Rightarrow> u8) \<Rightarrow> nat \<Rightarrow> nat \<Rightarrow> u32 \<Rightarrow> nat \<Rightarrow> u8" where
  "store_bytes f a len d = (\<lambda>i. if a \<le> i \<and> i < a + len then byte_of (i - a) d else f i)"

lemma store_bytes_same: "i < len \<Longrightarrow> store_bytes f a len d (a + i) = byte_of i d"
  by (simp add: store_bytes_def)

lemma store_bytes_other: "i < a \<or> a + len \<le> i \<Longrightarrow> store_bytes f a len d i = f i"
  by (auto simp: store_bytes_def)

lemma le_read_store_same:
  "le_read (\<lambda>i. store_bytes f a len d (a + i)) len = take_bit (8 * len) d"
  using le_read_cong [of len "\<lambda>i. store_bytes f a len d (a + i)" "\<lambda>i. byte_of i d"]
  by (simp add: store_bytes_same le_read_byte_of)

lemma le_read_store_other:
  "b + n \<le> a \<or> a + len \<le> b \<Longrightarrow>
   le_read (\<lambda>i. store_bytes f a len d (b + i)) n = le_read (\<lambda>i. f (b + i)) n"
  by (rule le_read_cong) (auto simp: store_bytes_def)

end
