(* ===== verification/Reg.thy ===== *)
theory Reg
  imports Prelude
begin

text \<open>
  The register file of \<open>nemu/include/cpu/reg.h\<close>: the unions over the general purpose
  registers, the bit fields of EFLAGS, CR0 and CR3, and the segment registers with
  their cached descriptors. A union is kept as its \<open>val\<close> member; its other members
  are the accessors below.
\<close>

section \<open>Register state\<close>

record SegReg =
  sr_val :: u16
  sr_base :: u32
  sr_limit :: u32
  sr_type :: u32
  sr_privilege_level :: u32
  sr_soft_use :: u32

text \<open>
  \<open>gpr\<close> has eight entries and \<open>segReg\<close> six; every index the code uses is a three-bit
  field or a constant, and \<open>operand_read\<close> checks the rest.
\<close>

record CPU_STATE =
  gpr :: "nat \<Rightarrow> u32"
  eip :: u32
  eflags :: u32
  gdtr_limit :: u32
  gdtr_base :: u32
  idtr_limit :: u32
  idtr_base :: u32
  segReg :: "nat \<Rightarrow> SegReg"
  cr0 :: u32
  cr3 :: u32
  intr :: u8

abbreviation (input) "REG_EAX \<equiv> 0 :: nat"
abbreviation (input) "REG_ECX \<equiv> 1 :: nat"
abbreviation (input) "REG_EDX \<equiv> 2 :: nat"
abbreviation (input) "REG_EBX \<equiv> 3 :: nat"
abbreviation (input) "REG_ESP \<equiv> 4 :: nat"
abbreviation (input) "REG_EBP \<equiv> 5 :: nat"
abbreviation (input) "REG_ESI \<equiv> 6 :: nat"
abbreviation (input) "REG_EDI \<equiv> 7 :: nat"

abbreviation (input) "SREG_ES \<equiv> 0 :: nat"
abbreviation (input) "SREG_CS \<equiv> 1 :: nat"
abbreviation (input) "SREG_SS \<equiv> 2 :: nat"
abbreviation (input) "SREG_DS \<equiv> 3 :: nat"

section \<open>EFLAGS, CR0 and CR3 bit fields\<close>

abbreviation fl_CF :: "u32 \<Rightarrow> bool" where "fl_CF fl \<equiv> bit fl 0"
abbreviation fl_PF :: "u32 \<Rightarrow> bool" where "fl_PF fl \<equiv> bit fl 2"
abbreviation fl_ZF :: "u32 \<Rightarrow> bool" where "fl_ZF fl \<equiv> bit fl 6"
abbreviation fl_SF :: "u32 \<Rightarrow> bool" where "fl_SF fl \<equiv> bit fl 7"
abbreviation fl_IF :: "u32 \<Rightarrow> bool" where "fl_IF fl \<equiv> bit fl 9"
abbreviation fl_DF :: "u32 \<Rightarrow> bool" where "fl_DF fl \<equiv> bit fl 10"
abbreviation fl_OF :: "u32 \<Rightarrow> bool" where "fl_OF fl \<equiv> bit fl 11"

abbreviation put_CF :: "bool \<Rightarrow> u32 \<Rightarrow> u32" where "put_CF \<equiv> put_bit 0"
abbreviation put_PF :: "bool \<Rightarrow> u32 \<Rightarrow> u32" where "put_PF \<equiv> put_bit 2"
abbreviation put_ZF :: "bool \<Rightarrow> u32 \<Rightarrow> u32" where "put_ZF \<equiv> put_bit 6"
abbreviation put_SF :: "bool \<Rightarrow> u32 \<Rightarrow> u32" where "put_SF \<equiv> put_bit 7"
abbreviation put_IF :: "bool \<Rightarrow> u32 \<Rightarrow> u32" where "put_IF \<equiv> put_bit 9"
abbreviation put_DF :: "bool \<Rightarrow> u32 \<Rightarrow> u32" where "put_DF \<equiv> put_bit 10"
abbreviation put_OF :: "bool \<Rightarrow> u32 \<Rightarrow> u32" where "put_OF \<equiv> put_bit 11"

definition cr0_pe :: "u32 \<Rightarrow> bool" where "cr0_pe v = bit v 0"
definition cr0_pg :: "u32 \<Rightarrow> bool" where "cr0_pg v = bit v 31"
definition cr3_pdbr :: "u32 \<Rightarrow> u32" where "cr3_pdbr v = field 12 20 v"

text \<open>The selector's \<open>index\<close> field, bits 3 to 15 of the visible part.\<close>

definition sel_index :: "u16 \<Rightarrow> u32" where
  "sel_index v = ucast (field 3 13 v)"

section \<open>Views of a general purpose register\<close>

text \<open>\<open>gpr[a % 4]._8[a / 4]\<close> and \<open>gpr[a]._16\<close>, reading and writing.\<close>

definition gpr8 :: "nat \<Rightarrow> CPU_STATE \<Rightarrow> u8" where
  "gpr8 a c = ucast (drop_bit (8 * (a div 4)) (gpr c (a mod 4)))"

definition gpr16 :: "nat \<Rightarrow> CPU_STATE \<Rightarrow> u16" where
  "gpr16 a c = ucast (gpr c a)"

definition put8 :: "nat \<Rightarrow> u8 \<Rightarrow> u32 \<Rightarrow> u32" where
  "put8 k v w = (w AND NOT (push_bit (8 * k) (mask 8))) OR push_bit (8 * k) (ucast v)"

definition put16 :: "u16 \<Rightarrow> u32 \<Rightarrow> u32" where
  "put16 v w = (w AND NOT (mask 16)) OR ucast v"

definition set_gpr8 :: "nat \<Rightarrow> u8 \<Rightarrow> CPU_STATE \<Rightarrow> CPU_STATE" where
  "set_gpr8 a v c = c\<lparr>gpr := (gpr c)(a mod 4 := put8 (a div 4) v (gpr c (a mod 4)))\<rparr>"

definition set_gpr16 :: "nat \<Rightarrow> u16 \<Rightarrow> CPU_STATE \<Rightarrow> CPU_STATE" where
  "set_gpr16 a v c = c\<lparr>gpr := (gpr c)(a := put16 v (gpr c a))\<rparr>"

definition set_gpr :: "nat \<Rightarrow> u32 \<Rightarrow> CPU_STATE \<Rightarrow> CPU_STATE" where
  "set_gpr a v c = c\<lparr>gpr := (gpr c)(a := v)\<rparr>"

lemma bit_put8:
  "k < 2 \<Longrightarrow> bit (put8 k v w) i = (if 8 * k \<le> i \<and> i < 8 * k + 8 then bit v (i - 8 * k) else bit w i)"
  by (auto simp: put8_def bit_or_iff bit_and_iff bit_not_iff bit_push_bit_iff bit_ucast_iff bit_mask_iff
      dest: bit_imp_le_length)

lemma bit_put16: "bit (put16 v w) i = (if i < 16 then bit v i else bit w i)"
  by (auto simp: put16_def bit_or_iff bit_and_iff bit_not_iff bit_mask_iff bit_ucast_iff
      dest: bit_imp_le_length)

lemma ucast_put16 [simp]: "(ucast (put16 v w) :: u16) = v"
  by (rule bit_word_eqI) (simp add: bit_ucast_iff bit_put16)

lemma gpr8_set_gpr8 [simp]:
  assumes "a < 8"
  shows "gpr8 a (set_gpr8 a v c) = v"
proof -
  have "a div 4 < 2" using assms by simp
  then show ?thesis
    by (intro bit_word_eqI)
      (auto simp: gpr8_def set_gpr8_def bit_ucast_iff bit_drop_bit_eq bit_put8)
qed

lemma gpr8_set_gpr8_other:
  assumes "a < 8" and "b < 8" and "a \<noteq> b"
  shows "gpr8 b (set_gpr8 a v c) = gpr8 b c"
proof (cases "a mod 4 = b mod 4")
  case True
  have a: "a div 4 < 2" and b: "b div 4 < 2" using assms by simp_all
  from True assms have "a div 4 \<noteq> b div 4" by (metis div_mult_mod_eq)
  with a b have "8 * (a div 4) + 8 \<le> 8 * (b div 4) \<or> 8 * (b div 4) + 8 \<le> 8 * (a div 4)"
    by linarith
  with a True show ?thesis
    by (intro bit_word_eqI)
      (auto simp: gpr8_def set_gpr8_def bit_ucast_iff bit_drop_bit_eq bit_put8)
next
  case False
  then show ?thesis by (simp add: gpr8_def set_gpr8_def)
qed

end
