(* ===== verification/Alu.thy ===== *)
theory Alu
  imports Reg "HOL-Library.Signed_Division"
begin

text \<open>
  The arithmetic unit, \<open>nemu/src/cpu/alu.c\<close> and the sign extensions of
  \<open>nemu/include/cpu/alu.h\<close>. Every operation takes the operands and EFLAGS and returns the
  result with the new EFLAGS, \<open>cpu.eflags\<close> being the only state the file touches.
  A shift of C by at least the width of its operand, a division by zero and the one
  overflowing signed division are undefined in C and end as \<open>Undefined\<close>.
\<close>

section \<open>Definitions\<close>

definition sign :: "u32 \<Rightarrow> u32" where
  "sign x = drop_bit 31 x"

definition sign_ext :: "u32 \<Rightarrow> nat \<Rightarrow> u32 res" where
  "sign_ext x data_size =
     assertE ''sign_ext'' (data_size = 16 \<or> data_size = 8 \<or> data_size = 32)
       (Inr (if data_size = 8 then scast (ucast x :: u8)
             else if data_size = 16 then scast (ucast x :: u16)
             else x))"

definition sign_ext_64 :: "u32 \<Rightarrow> nat \<Rightarrow> u64 res" where
  "sign_ext_64 x data_size =
     assertE ''sign_ext_64'' (data_size = 16 \<or> data_size = 8 \<or> data_size = 32)
       (Inr (if data_size = 8 then scast (ucast x :: u8)
             else if data_size = 16 then scast (ucast x :: u16)
             else scast x))"

definition set_CF_add :: "u32 \<Rightarrow> u32 \<Rightarrow> u32 \<Rightarrow> u32" where
  "set_CF_add result src fl = put_CF (result < src) fl"

definition set_CF_adc :: "u32 \<Rightarrow> u32 \<Rightarrow> u32 \<Rightarrow> u32 \<Rightarrow> u32" where
  "set_CF_adc result src dest fl =
     (let cf = of_bool (fl_CF fl) in
      if dest + cf < dest \<or> dest + cf < cf then put_CF True fl
      else if result < src \<or> result < src + cf then put_CF True fl
      else put_CF False fl)"

definition set_CF_sub :: "u32 \<Rightarrow> u32 \<Rightarrow> u32 \<Rightarrow> u32" where
  "set_CF_sub result dest fl = put_CF (result > dest) fl"

definition set_CF_sbb :: "u32 \<Rightarrow> u32 \<Rightarrow> u32 \<Rightarrow> u32 \<Rightarrow> u32" where
  "set_CF_sbb result src dest fl =
     (let cf = of_bool (fl_CF fl) in
      if dest - cf > dest then put_CF True fl
      else if result > dest - cf then put_CF True fl
      else put_CF False fl)"

text \<open>The \<open>while\<close> loop of \<open>set_PF\<close>: the bits shifted out are accumulated by xor.\<close>

lemma drop_bit_1_less: "w \<noteq> 0 \<Longrightarrow> unat (drop_bit (Suc 0) w) < unat w"
  for w :: "'a::len word"
proof -
  assume "w \<noteq> 0"
  then have "0 < unat w" by (simp add: unat_gt_0)
  then show "unat (drop_bit (Suc 0) w) < unat w"
    by (simp only: unat_drop_bit_eq) (simp add: drop_bit_Suc)
qed

function parity_loop :: "u32 \<Rightarrow> u32 \<Rightarrow> u32" where
  "parity_loop temp val =
     (if temp \<noteq> 0 then parity_loop (drop_bit (Suc 0) temp) (temp XOR val) else val)"
  by pat_completeness auto
termination
  by (relation "measure (\<lambda>(temp, val). unat temp)")
    (simp_all del: drop_bit_Suc add: drop_bit_1_less)

declare parity_loop.simps [simp del]

definition set_PF :: "u32 \<Rightarrow> u32 \<Rightarrow> u32" where
  "set_PF result fl = put_PF (parity_loop (push_bit 24 result) 0 AND 1 = 0) fl"

definition set_ZF :: "u32 \<Rightarrow> u32 \<Rightarrow> u32" where
  "set_ZF result fl = put_ZF (result = 0) fl"

definition set_SF :: "u32 \<Rightarrow> u32 \<Rightarrow> u32" where
  "set_SF result fl = put_SF (sign result \<noteq> 0) fl"

definition set_OF_add :: "u32 \<Rightarrow> u32 \<Rightarrow> u32 \<Rightarrow> u32 \<Rightarrow> u32" where
  "set_OF_add result src dest fl =
     (if sign src = sign dest
      then if sign src \<noteq> sign result then put_OF True fl else put_OF False fl
      else put_OF False fl)"

definition set_OF_sub :: "u32 \<Rightarrow> u32 \<Rightarrow> u32 \<Rightarrow> u32 \<Rightarrow> u32" where
  "set_OF_sub result src dest fl =
     (if sign dest \<noteq> sign src
      then if sign result = sign src then put_OF True fl else put_OF False fl
      else put_OF False fl)"

definition alu_add :: "u32 \<Rightarrow> u32 \<Rightarrow> u32 \<Rightarrow> u32 \<times> u32" where
  "alu_add src dest fl =
     (let res = dest + src;
          fl = set_CF_add res src fl;
          fl = set_PF res fl;
          fl = set_ZF res fl;
          fl = set_SF res fl;
          fl = set_OF_add res src dest fl
      in (res, fl))"

definition alu_adc :: "u32 \<Rightarrow> u32 \<Rightarrow> u32 \<Rightarrow> u32 \<times> u32" where
  "alu_adc src dest fl =
     (let res = src + dest + of_bool (fl_CF fl);
          fl = (if \<not> fl_CF fl then set_OF_add res src dest fl else fl);
          fl = (if fl_CF fl then set_OF_add res (src + 1) dest fl else fl);
          fl = set_CF_adc res src dest fl;
          fl = set_PF res fl;
          fl = set_ZF res fl;
          fl = set_SF res fl
      in (res, fl))"

definition alu_sub :: "u32 \<Rightarrow> u32 \<Rightarrow> u32 \<Rightarrow> u32 \<times> u32" where
  "alu_sub src dest fl =
     (let res = dest - src;
          fl = set_CF_sub res dest fl;
          fl = set_PF res fl;
          fl = set_ZF res fl;
          fl = set_SF res fl;
          fl = set_OF_sub res src dest fl
      in (res, fl))"

definition alu_sbb :: "u32 \<Rightarrow> u32 \<Rightarrow> u32 \<Rightarrow> u32 \<times> u32" where
  "alu_sbb src dest fl =
     (let res = dest - src - of_bool (fl_CF fl);
          fl = (if \<not> fl_CF fl then set_OF_sub res src dest fl else fl);
          fl = (if fl_CF fl then set_OF_sub res (src + 1) dest fl else fl);
          fl = set_CF_sbb res src dest fl;
          fl = set_PF res fl;
          fl = set_ZF res fl;
          fl = set_SF res fl
      in (res, fl))"

text \<open>
  \<open>alu_mul\<close>: one block per operand size; the 16 and 8 bit products are computed in
  \<open>uint32_t\<close>. A size that is none of the three leaves result 0 and the flags alone.
\<close>

definition alu_mul :: "u32 \<Rightarrow> u32 \<Rightarrow> nat \<Rightarrow> u32 \<Rightarrow> u64 \<times> u32" where
  "alu_mul src dest data_size fl =
     (if data_size = 32 then
        let res = (ucast src :: u64) * ucast dest;
            high_32 = take_bit 32 (drop_bit 32 res);
            fl = put_OF (high_32 \<noteq> 0) (put_CF (high_32 \<noteq> 0) fl);
            fl = set_PF (ucast res) fl;
            fl = put_SF (bit res 63) fl;
            fl = put_ZF (res = 0) fl
        in (res, fl)
      else if data_size = 16 then
        let res = ucast (src * dest) :: u64;
            high_16 = take_bit 16 (drop_bit 16 res);
            fl = put_OF (high_16 \<noteq> 0) (put_CF (high_16 \<noteq> 0) fl);
            fl = set_SF (ucast res) (set_ZF (ucast res) (set_PF (ucast res) fl))
        in (res, fl)
      else if data_size = 8 then
        let res = ucast (src * dest) :: u64;
            high_8 = take_bit 8 (drop_bit 8 res);
            fl = put_OF (high_8 \<noteq> 0) (put_CF (high_8 \<noteq> 0) fl);
            fl = set_SF (ucast res) (set_ZF (ucast res) (set_PF (ucast res) fl))
        in (res, fl)
      else (0, fl))"

definition alu_imul :: "u32 \<Rightarrow> u32 \<Rightarrow> nat \<Rightarrow> u64" where
  "alu_imul src dest data_size = scast src * scast dest"

definition alu_div :: "u64 \<Rightarrow> u64 \<Rightarrow> nat \<Rightarrow> u32 \<Rightarrow> (u32 \<times> u32) res" where
  "alu_div src dest data_size fl =
     assertE ''alu_div'' (src \<noteq> 0)
       (let res = ucast (dest div src) :: u32
        in Inr (res, set_SF res (set_ZF res (set_PF res fl))))"

definition alu_idiv :: "u64 \<Rightarrow> u64 \<Rightarrow> nat \<Rightarrow> u32 \<Rightarrow> (u32 \<times> u32) res" where
  "alu_idiv src dest data_size fl =
     assertE ''alu_idiv'' (src \<noteq> 0)
      (definedE ''alu_idiv'' (\<not> (sint dest = - (2 ^ 63) \<and> sint src = -1))
       (let res = word_of_int (sint dest sdiv sint src) :: u32
        in Inr (res, set_SF res (set_ZF res (set_PF res fl)))))"

definition alu_mod :: "u64 \<Rightarrow> u64 \<Rightarrow> u32 res" where
  "alu_mod src dest = definedE ''alu_mod'' (src \<noteq> 0) (Inr (ucast (dest mod src)))"

definition alu_imod :: "u64 \<Rightarrow> u64 \<Rightarrow> u32 res" where
  "alu_imod src dest =
     definedE ''alu_imod'' (src \<noteq> 0 \<and> \<not> (sint dest = - (2 ^ 63) \<and> sint src = -1))
       (Inr (word_of_int (sint dest smod sint src)))"

definition alu_and :: "u32 \<Rightarrow> u32 \<Rightarrow> u32 \<Rightarrow> u32 \<times> u32" where
  "alu_and src dest fl =
     (let res = dest AND src; fl = put_OF False (put_CF False fl)
      in (res, set_ZF res (set_SF res (set_PF res fl))))"

definition alu_xor :: "u32 \<Rightarrow> u32 \<Rightarrow> u32 \<Rightarrow> u32 \<times> u32" where
  "alu_xor src dest fl =
     (let res = dest XOR src; fl = put_OF False (put_CF False fl)
      in (res, set_ZF res (set_SF res (set_PF res fl))))"

definition alu_or :: "u32 \<Rightarrow> u32 \<Rightarrow> u32 \<Rightarrow> u32 \<times> u32" where
  "alu_or src dest fl =
     (let res = dest OR src; fl = put_OF False (put_CF False fl)
      in (res, set_ZF res (set_SF res (set_PF res fl))))"

text \<open>
  Shifts. \<open>temp\<close> is promoted to \<open>int\<close> before it is shifted, so the 8 and 16 bit shifts
  by up to 31 are defined; \<open>dest >> (32 - 0)\<close> and \<open>temp >> (0 - 1)\<close> are not.
\<close>

definition shl_small :: "nat \<Rightarrow> nat \<Rightarrow> u32 \<Rightarrow> u32 \<Rightarrow> u32 \<times> u32" where
  "shl_small n src temp fl =
     (if src < n then
        let temp_res = take_bit n (push_bit src temp);
            fl = set_PF temp_res fl;
            fl = put_SF (bit temp_res (n - 1)) fl;
            fl = put_ZF (temp_res = 0) fl;
            fl = put_CF (bit temp (n - src)) fl;
            fl = (if src = 1 \<and> sign temp \<noteq> sign (push_bit 1 temp) then put_OF True fl else fl)
        in (temp_res, fl)
      else (0, fl))"

definition alu_shl :: "u32 \<Rightarrow> u32 \<Rightarrow> nat \<Rightarrow> u32 \<Rightarrow> (u32 \<times> u32) res" where
  "alu_shl src dest data_size fl =
     (if data_size = 8 then
        let (temp_res, fl) = shl_small 8 (unat src) (take_bit 8 dest) fl
        in Inr (temp_res + (dest AND 0xffffff00), fl)
      else if data_size = 16 then
        let (temp_res, fl) = shl_small 16 (unat src) (take_bit 16 dest) fl
        in Inr (temp_res + (dest AND 0xffff0000), fl)
      else if data_size = 32 then
        bindE (if src < 32 then
                 definedE ''alu_shl'' (src \<noteq> 0)
                  (let res = push_bit (unat src) dest;
                       fl = put_CF (bit dest (32 - unat src)) fl;
                       fl = (if src = 1 \<and> sign dest \<noteq> sign (push_bit 1 dest)
                             then put_OF True fl else fl)
                   in Inr (res, fl))
               else Inr (0, fl))
          (\<lambda>(res, fl). Inr (res, set_ZF res (set_SF res (set_PF res fl))))
      else Inr (0, fl))"

definition shr_small :: "nat \<Rightarrow> u32 \<Rightarrow> u32 \<Rightarrow> u32 \<Rightarrow> u32 \<Rightarrow> (u32 \<times> u32) res" where
  "shr_small n src temp shifted fl =
     (if unat src < n then
        definedE ''alu_shr'' (src \<noteq> 0)
         (let temp_res = take_bit n shifted;
              fl = put_CF (bit temp (unat src - 1)) fl;
              fl = set_PF temp_res fl;
              fl = put_SF (bit temp_res (n - 1)) fl;
              fl = put_ZF (temp_res = 0) fl
          in Inr (temp_res, fl))
      else Inr (0, fl))"

definition shr_32 :: "u32 \<Rightarrow> u32 \<Rightarrow> u32 \<Rightarrow> u32 \<Rightarrow> (u32 \<times> u32) res" where
  "shr_32 src dest res fl =
     (if src < 32 then
        definedE ''alu_shr'' (src \<noteq> 0)
         (let fl = put_CF (bit dest (unat src - 1)) fl
          in Inr (res, set_ZF res (set_SF res (set_PF res fl))))
      else Inr (0, fl))"

definition alu_shr :: "u32 \<Rightarrow> u32 \<Rightarrow> nat \<Rightarrow> u32 \<Rightarrow> (u32 \<times> u32) res" where
  "alu_shr src dest data_size fl =
     (if data_size = 8 then
        let temp = take_bit 8 dest in
        bindE (shr_small 8 src temp (drop_bit (unat src) temp) fl)
          (\<lambda>(temp_res, fl). Inr (temp_res + (dest AND 0xffffff00), fl))
      else if data_size = 16 then
        let temp = take_bit 16 dest in
        bindE (shr_small 16 src temp (drop_bit (unat src) temp) fl)
          (\<lambda>(temp_res, fl). Inr (temp_res + (dest AND 0xffff0000), fl))
      else if data_size = 32 then shr_32 src dest (drop_bit (unat src) dest) fl
      else Inr (0, fl))"

definition alu_sar :: "u32 \<Rightarrow> u32 \<Rightarrow> nat \<Rightarrow> u32 \<Rightarrow> (u32 \<times> u32) res" where
  "alu_sar src dest data_size fl =
     (if data_size = 8 then
        let temp = take_bit 8 dest in
        bindE (shr_small 8 src temp
                 (signed_drop_bit (unat src) (scast (ucast temp :: u8) :: u32)) fl)
          (\<lambda>(temp_res, fl). Inr (temp_res + (dest AND 0xffffff00), fl))
      else if data_size = 16 then
        let temp = take_bit 16 dest in
        bindE (shr_small 16 src temp
                 (signed_drop_bit (unat src) (scast (ucast temp :: u16) :: u32)) fl)
          (\<lambda>(temp_res, fl). Inr (temp_res + (dest AND 0xffff0000), fl))
      else if data_size = 32 then shr_32 src dest (signed_drop_bit (unat src) dest) fl
      else Inr (0, fl))"

definition alu_sal :: "u32 \<Rightarrow> u32 \<Rightarrow> nat \<Rightarrow> u32 \<Rightarrow> (u32 \<times> u32) res" where
  "alu_sal src dest data_size fl = alu_shl src dest data_size fl"

lemmas flag_defs =
  set_CF_add_def set_CF_adc_def set_CF_sub_def set_CF_sbb_def set_PF_def set_ZF_def
  set_SF_def set_OF_add_def set_OF_sub_def

end
