(* ===== verification/AluCorrect.thy ===== *)
theory AluCorrect
  imports Alu
begin

text \<open>
  What the arithmetic unit computes: results and flags of \<open>alu.c\<close> against integer
  arithmetic on the unsigned and two's complement readings of the operands.
\<close>

section \<open>Integer readings\<close>

lemma bit_31_iff: "bit w 31 \<longleftrightarrow> sint w < 0" for w :: u32
  using bit_last_iff [of w] by simp

lemma sign_eq: "sign w = of_bool (sint w < 0)"
proof (rule bit_word_eqI)
  fix n
  show "bit (sign w) n = bit (of_bool (sint w < 0) :: u32) n"
    using bit_imp_le_length [of w "31 + n"]
    by (cases n) (auto simp: sign_def bit_drop_bit_eq bit_31_iff [symmetric] bit_1_iff)
qed

lemma uint_range: "0 \<le> uint w" "uint w < 4294967296" for w :: u32
  using uint_range_size [of w] by (simp_all add: word_size)

lemma sint_if:
  "sint w = (if 2147483648 \<le> uint w then uint w - 4294967296 else uint w)" for w :: u32
proof -
  have "sint w = signed_take_bit 31 (uint w)" by (simp add: sint_uint)
  then have *: "sint w = (uint w + 2147483648) mod 4294967296 - 2147483648"
    by (simp only: signed_take_bit_eq_take_bit_shift take_bit_eq_mod) simp
  show ?thesis
  proof (cases "2147483648 \<le> uint w")
    case True
    have "(uint w + 2147483648) mod 4294967296 = (uint w - 2147483648) mod 4294967296"
      using mod_add_self2 [of "uint w - 2147483648" 4294967296]
      by (simp add: algebra_simps)
    also have "\<dots> = uint w - 2147483648"
      using True uint_range [of w] by (intro mod_pos_pos_trivial) simp_all
    finally show ?thesis using True * by simp
  next
    case False
    then have "(uint w + 2147483648) mod 4294967296 = uint w + 2147483648"
      using uint_range [of w] by (intro mod_pos_pos_trivial) simp_all
    then show ?thesis using False * by simp
  qed
qed

lemma sint_range32: "-2147483648 \<le> sint w" "sint w < 2147483648" for w :: u32
  using sint_range_size [of w] by (simp_all add: word_size)

lemma uint_add_if:
  "uint (x + y) =
     (if uint x + uint y < 4294967296 then uint x + uint y else uint x + uint y - 4294967296)"
  for x y :: u32
  by (simp add: uint_plus_if')

lemma uint_sub_if:
  "uint (x - y) = (if uint y \<le> uint x then uint x - uint y else uint x - uint y + 4294967296)"
  for x y :: u32
  by (simp add: uint_sub_if')

lemmas u32_arith = word_less_def word_le_def uint_add_if uint_sub_if sint_if

abbreviation in_s32 :: "int \<Rightarrow> bool" where
  "in_s32 i \<equiv> -2147483648 \<le> i \<and> i < 2147483648"

lemma add_carry: "x + y < y \<longleftrightarrow> 4294967296 \<le> uint x + uint y" for x y :: u32
  using uint_range [of x] uint_range [of y] by (simp add: u32_arith)

lemma sub_borrow: "x < x - y \<longleftrightarrow> uint x < uint y" for x y :: u32
  using uint_range [of x] uint_range [of y] by (simp add: u32_arith)

lemma add_overflow:
  "(sint x < 0) = (sint y < 0) \<and> (sint x < 0) \<noteq> (sint (y + x) < 0) \<longleftrightarrow>
   \<not> in_s32 (sint x + sint y)" for x y :: u32
proof -
  obtain a b where ab: "a = uint x" "b = uint y" by blast
  have "0 \<le> a" "a < 4294967296" "0 \<le> b" "b < 4294967296"
    using uint_range unfolding ab by blast+
  then show ?thesis
    unfolding u32_arith ab [symmetric] by (auto split: if_split_asm)
qed

lemma sub_overflow:
  "(sint y < 0) \<noteq> (sint x < 0) \<and> (sint (y - x) < 0) = (sint x < 0) \<longleftrightarrow>
   \<not> in_s32 (sint y - sint x)" for x y :: u32
  using uint_range [of x] uint_range [of y] unfolding u32_arith by (smt (verit))

lemma sub_less:
  "(sint (y - x) < 0) \<noteq> (\<not> in_s32 (sint y - sint x)) \<longleftrightarrow> sint y < sint x" for x y :: u32
  using uint_range [of x] uint_range [of y] unfolding u32_arith by (smt (verit))

section \<open>The parity loop and the result flags\<close>

lemma card_bits_Suc:
  "card {i. bit w i} = of_bool (bit w 0) + card {i. bit (drop_bit (Suc 0) w) i}" for w :: u32
proof -
  have fin: "finite {i. bit (drop_bit (Suc 0) w) i}"
    by (rule finite_subset [of _ "{..<32}"]) (auto dest: bit_imp_le_length)
  have "{i. bit w i} = (if bit w 0 then {0} else {}) \<union> Suc ` {i. bit (drop_bit (Suc 0) w) i}"
    by (auto simp: bit_drop_bit_eq image_iff simp del: drop_bit_Suc split: if_splits)
      (metis not0_implies_Suc)+
  then show ?thesis
    using fin by (auto simp: card_image card_insert_if simp del: drop_bit_Suc)
qed

lemma bit_parity_loop:
  "bit (parity_loop temp val) 0 \<longleftrightarrow> bit val 0 \<noteq> odd (card {i. bit temp i})"
proof (induction temp val rule: parity_loop.induct)
  case (1 temp val)
  show ?case
  proof (cases "temp = 0")
    case True
    then show ?thesis by (simp add: parity_loop.simps [of 0 val])
  next
    case False
    then show ?thesis
      using 1 by (simp add: parity_loop.simps [of temp val] card_bits_Suc [of temp] bit_xor_iff
          del: drop_bit_Suc) blast
  qed
qed

definition even_parity :: "u32 \<Rightarrow> bool" where
  "even_parity w = even (card {i. i < 8 \<and> bit w i})"

lemma set_PF_eq: "set_PF r fl = put_PF (even_parity r) fl"
proof -
  have "{i. bit (push_bit 24 r) i} = (\<lambda>i. i + 24) ` {i. i < 8 \<and> bit r i}"
  proof (intro set_eqI iffI)
    fix i assume "i \<in> {i. bit (push_bit 24 r) i}"
    then have "24 \<le> i" "i < 32" "bit r (i - 24)" by (auto simp: bit_push_bit_iff)
    then show "i \<in> (\<lambda>i. i + 24) ` {i. i < 8 \<and> bit r i}"
      by (intro image_eqI [of _ _ "i - 24"]) auto
  qed (auto simp: bit_push_bit_iff)
  then have "card {i. bit (push_bit 24 r) i} = card {i. i < 8 \<and> bit r i}"
    by (simp add: card_image)
  moreover have "v AND 1 = 0 \<longleftrightarrow> \<not> bit v 0" for v :: u32
    by (simp add: and_one_eq bit_0 even_iff_mod_2_eq_zero)
  ultimately show ?thesis
    by (simp add: set_PF_def bit_parity_loop even_parity_def)
qed

text \<open>ZF, SF and PF describe the result \<open>r\<close>; bits other than the six status flags are kept.\<close>

definition result_flags :: "u32 \<Rightarrow> u32 \<Rightarrow> bool" where
  "result_flags r fl \<longleftrightarrow>
     fl_ZF fl = (r = 0) \<and> fl_SF fl = (sint r < 0) \<and> fl_PF fl = even_parity r"

definition only_status :: "u32 \<Rightarrow> u32 \<Rightarrow> bool" where
  "only_status fl fl' \<longleftrightarrow> (\<forall>i. i \<notin> {0, 2, 6, 7, 11} \<longrightarrow> bit fl' i = bit fl i)"

lemmas flag_specs = result_flags_def only_status_def set_PF_eq set_ZF_def set_SF_def sign_eq

section \<open>Addition and subtraction\<close>

text \<open>
  \<open>alu_add\<close> returns the sum modulo \<open>2 ^ 32\<close>; CF is the unsigned and OF the
  signed overflow, ZF, SF and PF describe the result, and no other bit of EFLAGS changes.
\<close>

lemma alu_add_correct:
  "case alu_add src dest fl of (r, fl') \<Rightarrow>
     uint r = (uint dest + uint src) mod 2 ^ 32 \<and>
     fl_CF fl' = (2 ^ 32 \<le> uint dest + uint src) \<and>
     fl_OF fl' = (\<not> in_s32 (sint dest + sint src)) \<and>
     result_flags r fl' \<and> only_status fl fl'"
proof -
  have "set_OF_add (dest + src) src dest fl0 = put_OF (\<not> in_s32 (sint dest + sint src)) fl0" for fl0
    using add_overflow [of src dest]
    by (auto simp: set_OF_add_def sign_eq add.commute)
  then show ?thesis
    using add_carry [of dest src]
    by (simp add: alu_add_def Let_def set_CF_add_def flag_specs uint_word_ariths
        take_bit_eq_mod)
qed

lemma adc_carry:
  fixes x y c :: u32
  assumes "c = 0 \<or> c = 1"
  shows "(y + c < y \<or> y + c < c \<or> x + y + c < x \<or> x + y + c < x + c) \<longleftrightarrow>
    4294967296 \<le> uint x + uint y + uint c"
proof -
  obtain a b where ab: "a = uint x" "b = uint y" by blast
  have "0 \<le> a" "a < 4294967296" "0 \<le> b" "b < 4294967296"
    using uint_range unfolding ab by blast+
  then show ?thesis
    using assms unfolding word_less_def uint_add_if ab [symmetric] by (auto split: if_split_asm)
qed

lemma adc_overflow:
  "(sint (x + 1) < 0) = (sint y < 0) \<and> (sint (x + 1) < 0) \<noteq> (sint (x + y + 1) < 0) \<longleftrightarrow>
   (sint x = 2147483647) \<noteq> (\<not> in_s32 (sint y + sint x + 1))" for x y :: u32
proof -
  obtain a b where ab: "a = uint x" "b = uint y" by blast
  have "0 \<le> a" "a < 4294967296" "0 \<le> b" "b < 4294967296"
    using uint_range unfolding ab by blast+
  then show ?thesis
    unfolding u32_arith ab [symmetric] by (auto split: if_split_asm)
qed

lemma sbb_borrow:
  fixes x y c :: u32
  assumes "c = 0 \<or> c = 1"
  shows "(y < y - c \<or> y - c < y - x - c) \<longleftrightarrow> uint y < uint x + uint c"
proof -
  obtain a b where ab: "a = uint x" "b = uint y" by blast
  have "0 \<le> a" "a < 4294967296" "0 \<le> b" "b < 4294967296"
    using uint_range unfolding ab by blast+
  then show ?thesis
    using assms unfolding word_less_def uint_sub_if ab [symmetric] by (auto split: if_split_asm)
qed

lemma sbb_overflow:
  "(sint y < 0) \<noteq> (sint (x + 1) < 0) \<and> (sint (y - x - 1) < 0) = (sint (x + 1) < 0) \<longleftrightarrow>
   (sint x = 2147483647) \<noteq> (\<not> in_s32 (sint y - sint x - 1))" for x y :: u32
proof -
  obtain a b where ab: "a = uint x" "b = uint y" by blast
  have "0 \<le> a" "a < 4294967296" "0 \<le> b" "b < 4294967296"
    using uint_range unfolding ab by blast+
  then show ?thesis
    unfolding u32_arith ab [symmetric] by (auto split: if_split_asm)
qed

text \<open>
  \<open>alu_adc\<close> returns the sum with the incoming carry modulo \<open>2 ^ 32\<close>, CF is
  its unsigned overflow, and OF its signed overflow except when CF was set and the
  source is \<open>0x7fffffff\<close>: there \<open>src + 1\<close> has the wrong sign and OF is exactly inverted.
\<close>

lemma alu_adc_spec:
  "case alu_adc src dest fl of (r, fl') \<Rightarrow>
     let c = of_bool (fl_CF fl) in
     uint r = (uint dest + uint src + c) mod 2 ^ 32 \<and>
     fl_CF fl' = (2 ^ 32 \<le> uint dest + uint src + c) \<and>
     fl_OF fl' = ((fl_CF fl \<and> sint src = 0x7fffffff) \<noteq> (\<not> in_s32 (sint dest + sint src + c))) \<and>
     result_flags r fl' \<and> only_status fl fl'"
proof -
  have "set_OF_add (src + dest) src dest fl0 = put_OF (\<not> in_s32 (sint dest + sint src)) fl0" for fl0
    using add_overflow [of src dest]
    by (auto simp: set_OF_add_def sign_eq add.commute)
  moreover have "set_OF_add (src + dest + 1) (src + 1) dest fl0 =
      put_OF ((sint src = 0x7fffffff) \<noteq> (\<not> in_s32 (sint dest + sint src + 1))) fl0" for fl0
    using adc_overflow [of src dest] by (auto simp: set_OF_add_def sign_eq)
  moreover have "set_CF_adc (src + dest + 1) src dest fl0 =
      put_CF (2 ^ 32 \<le> uint dest + uint src + 1) fl0" if "fl_CF fl0" for fl0
    using adc_carry [of 1 dest src] that by (auto simp: set_CF_adc_def Let_def)
  moreover have "set_CF_adc (src + dest) src dest fl0 = put_CF (2 ^ 32 \<le> uint dest + uint src) fl0"
    if "\<not> fl_CF fl0" for fl0
    using adc_carry [of 0 dest src] that by (auto simp: set_CF_adc_def Let_def)
  ultimately show ?thesis
    by (cases "fl_CF fl")
      (simp_all add: alu_adc_def Let_def flag_specs uint_word_ariths take_bit_eq_mod mod_simps
        add.commute [of "uint src"])
qed

text \<open>
  \<open>alu_sub\<close>, the operation of \<open>sub\<close> and \<open>cmp\<close>: the difference modulo
  \<open>2 ^ 32\<close>, CF the unsigned borrow, OF the signed overflow; so ZF, CF and SF xor OF decide
  equality, the unsigned and the signed order of the operands.
\<close>

lemma alu_sub_correct:
  "case alu_sub src dest fl of (r, fl') \<Rightarrow>
     uint r = (uint dest - uint src) mod 2 ^ 32 \<and>
     fl_CF fl' = (uint dest < uint src) \<and>
     fl_OF fl' = (\<not> in_s32 (sint dest - sint src)) \<and>
     fl_ZF fl' = (dest = src) \<and>
     (fl_SF fl' \<noteq> fl_OF fl') = (sint dest < sint src) \<and>
     result_flags r fl' \<and> only_status fl fl'"
proof -
  have "set_OF_sub (dest - src) src dest fl0 = put_OF (\<not> in_s32 (sint dest - sint src)) fl0" for fl0
    using sub_overflow [of dest src] by (auto simp: set_OF_sub_def sign_eq)
  then show ?thesis
    using sub_borrow [of dest src] sub_less [of dest src]
    by (simp add: alu_sub_def Let_def set_CF_sub_def flag_specs uint_word_ariths take_bit_eq_mod)
qed

text \<open>
  \<open>alu_sbb\<close> returns the difference with the incoming borrow, CF is its unsigned
  borrow, and OF its signed overflow except when CF was set and the source is
  \<open>0x7fffffff\<close>, where it is inverted.
\<close>

lemma alu_sbb_spec:
  "case alu_sbb src dest fl of (r, fl') \<Rightarrow>
     let c = of_bool (fl_CF fl) in
     uint r = (uint dest - uint src - c) mod 2 ^ 32 \<and>
     fl_CF fl' = (uint dest < uint src + c) \<and>
     fl_OF fl' = ((fl_CF fl \<and> sint src = 0x7fffffff) \<noteq> (\<not> in_s32 (sint dest - sint src - c))) \<and>
     result_flags r fl' \<and> only_status fl fl'"
proof -
  have "set_OF_sub (dest - src) src dest fl0 = put_OF (\<not> in_s32 (sint dest - sint src)) fl0" for fl0
    using sub_overflow [of dest src] by (auto simp: set_OF_sub_def sign_eq)
  moreover have "set_OF_sub (dest - src - 1) (src + 1) dest fl0 =
      put_OF ((sint src = 0x7fffffff) \<noteq> (\<not> in_s32 (sint dest - sint src - 1))) fl0" for fl0
    using sbb_overflow [of dest src] by (auto simp: set_OF_sub_def sign_eq)
  moreover have "set_CF_sbb (dest - src - 1) src dest fl0 = put_CF (uint dest < uint src + 1) fl0"
    if "fl_CF fl0" for fl0
    using sbb_borrow [of 1 dest src] that by (auto simp: set_CF_sbb_def Let_def)
  moreover have "set_CF_sbb (dest - src) src dest fl0 = put_CF (uint dest < uint src) fl0"
    if "\<not> fl_CF fl0" for fl0
    using sbb_borrow [of 0 dest src] that by (auto simp: set_CF_sbb_def Let_def)
  ultimately show ?thesis
    by (cases "fl_CF fl")
      (simp_all add: alu_sbb_def Let_def flag_specs uint_word_ariths take_bit_eq_mod mod_simps)
qed

text \<open>
  \<open>alu_adc\<close> and \<open>alu_sbb\<close> with a carry \<open>c\<close>: sum and difference modulo \<open>2^32\<close>, exact carry and
  borrow; \<open>OF\<close> is the signed overflow, inverted exactly when the carry is set and \<open>src\<close> is the largest
  signed number, where \<open>src + 1\<close> wraps.
\<close>

lemma alu_adc_sbb_correct:
  "(case alu_adc src dest fl of (r, fl') \<Rightarrow>
     let c = of_bool (fl_CF fl) in
     uint r = (uint dest + uint src + c) mod 2 ^ 32 \<and>
     fl_CF fl' = (2 ^ 32 \<le> uint dest + uint src + c) \<and>
     fl_OF fl' = ((fl_CF fl \<and> sint src = 0x7fffffff) \<noteq> (\<not> in_s32 (sint dest + sint src + c))) \<and>
     result_flags r fl' \<and> only_status fl fl') \<and>
   (case alu_sbb src dest fl of (r, fl') \<Rightarrow>
     let c = of_bool (fl_CF fl) in
     uint r = (uint dest - uint src - c) mod 2 ^ 32 \<and>
     fl_CF fl' = (uint dest < uint src + c) \<and>
     fl_OF fl' = ((fl_CF fl \<and> sint src = 0x7fffffff) \<noteq> (\<not> in_s32 (sint dest - sint src - c))) \<and>
     result_flags r fl' \<and> only_status fl fl')"
  by (rule conjI [OF alu_adc_spec alu_sbb_spec])

lemma uint_add_carry:
  "uint (x + y + of_bool c) + 4294967296 * of_bool (4294967296 \<le> uint y + uint x + of_bool c) =
   uint y + uint x + of_bool c" for x y :: u32
proof -
  obtain a b where ab: "a = uint x" "b = uint y" by blast
  have "0 \<le> a" "a < 4294967296" "0 \<le> b" "b < 4294967296"
    using uint_range unfolding ab by blast+
  then show ?thesis
    by (cases c) (auto simp: uint_add_if ab [symmetric])
qed

lemma alu_add_parts:
  "fst (alu_add src dest fl) = dest + src"
  "fl_CF (snd (alu_add src dest fl)) = (4294967296 \<le> uint dest + uint src)"
  using add_carry [of dest src]
  by (simp_all add: alu_add_def Let_def flag_specs set_CF_add_def set_OF_add_def)

lemma alu_adc_parts:
  "fst (alu_adc src dest fl) = src + dest + of_bool (fl_CF fl)"
  "fl_CF (snd (alu_adc src dest fl)) =
     (4294967296 \<le> uint dest + uint src + of_bool (fl_CF fl))"
proof -
  show "fl_CF (snd (alu_adc src dest fl)) =
     (4294967296 \<le> uint dest + uint src + of_bool (fl_CF fl))"
    using adc_carry [of "of_bool (fl_CF fl)" dest src]
    by (auto simp: alu_adc_def Let_def flag_specs set_CF_adc_def set_OF_add_def)
qed (simp add: alu_adc_def Let_def)

text \<open>
  Chained as the compilers chain them for 64-bit values, \<open>alu_add\<close> on the low
  and \<open>alu_adc\<close> on the high words compute the 64-bit sum with its carry out.
\<close>

lemma alu_add_adc_64:
  "case alu_add slo dlo fl of (lo, fl1) \<Rightarrow> case alu_adc shi dhi fl1 of (hi, fl2) \<Rightarrow>
     let s = uint shi * 2 ^ 32 + uint slo; d = uint dhi * 2 ^ 32 + uint dlo in
     uint hi * 2 ^ 32 + uint lo = (d + s) mod 2 ^ 64 \<and>
     fl_CF fl2 = (2 ^ 64 \<le> d + s)"
proof -
  obtain lo fl1 where 1: "alu_add slo dlo fl = (lo, fl1)" by fastforce
  obtain hi fl2 where 2: "alu_adc shi dhi fl1 = (hi, fl2)" by fastforce
  have eqs: "lo = dlo + slo" "fl_CF fl1 = (4294967296 \<le> uint dlo + uint slo)"
    "hi = shi + dhi + of_bool (fl_CF fl1)"
    "fl_CF fl2 = (4294967296 \<le> uint dhi + uint shi + of_bool (fl_CF fl1))"
    using alu_add_parts [of slo dlo fl] alu_adc_parts [of shi dhi fl1] by (simp_all add: 1 2)
  have lo: "uint lo + 4294967296 * of_bool (fl_CF fl1) = uint dlo + uint slo"
    using uint_add_if [of dlo slo] eqs(1,2) by auto
  have hi: "uint hi + 4294967296 * of_bool (fl_CF fl2) = uint dhi + uint shi + of_bool (fl_CF fl1)"
    using uint_add_carry [of shi dhi "fl_CF fl1"] eqs(3,4) by simp
  let ?t = "(uint dhi * 4294967296 + uint dlo) + (uint shi * 4294967296 + uint slo)"
  let ?r = "uint hi * 4294967296 + uint lo"
  have t: "?t = ?r + 18446744073709551616 * of_bool (fl_CF fl2)"
    using lo hi by simp
  have r: "0 \<le> ?r" "?r < 18446744073709551616"
    using uint_range [of hi] uint_range [of lo] by simp_all
  have "?t mod 18446744073709551616 = ?r"
    unfolding t using r by (simp add: mod_pos_pos_trivial)
  moreover have "fl_CF fl2 = (18446744073709551616 \<le> ?t)"
    unfolding t using r by (cases "fl_CF fl2") simp_all
  ultimately show ?thesis
    by (simp add: 1 2 Let_def)
qed

section \<open>Multiplication and division\<close>

lemma high_half_zero:
  fixes w :: "'a::len word"
  assumes "unat w < 2 ^ n * 2 ^ n"
  shows "take_bit n (drop_bit n w) = 0 \<longleftrightarrow> unat w < 2 ^ n"
proof -
  have "unat w div 2 ^ n < 2 ^ n"
    using assms by (simp add: less_mult_imp_div_less)
  then have "unat (take_bit n (drop_bit n w)) = unat w div 2 ^ n"
    by (simp only: unsigned_take_bit_eq unat_drop_bit_eq) (simp add: drop_bit_eq_div take_bit_eq_mod)
  moreover have "take_bit n (drop_bit n w) = 0 \<longleftrightarrow> unat (take_bit n (drop_bit n w)) = 0"
    by (simp only: unat_eq_0)
  ultimately show ?thesis by (simp only: div_eq_0_iff) auto
qed

lemma unat_ucast_u32_u64 [simp]: "unat (ucast w :: u64) = unat w" for w :: u32
proof -
  have "unat w < 2 ^ 32" using unsigned_less [of w, where 'a = nat] by simp
  then show ?thesis by (simp add: unsigned_ucast_eq take_bit_nat_eq_self_iff)
qed

lemma sint_scast_u32_u64 [simp]: "sint (scast w :: u64) = sint w" for w :: u32
proof -
  have "signed_take_bit 63 (sint w) = sint w"
    using sint_range32 [of w] by (intro signed_take_bit_int_eq_self) simp_all
  then show ?thesis by (simp add: signed_scast_eq)
qed

lemma unat_product:
  fixes src dest :: u32
  assumes "n \<le> 32" and "unat src < 2 ^ n" and "unat dest < 2 ^ n"
  shows "unat src * unat dest < 2 ^ n * 2 ^ n"
  and "unat ((ucast src :: u64) * ucast dest) = unat src * unat dest"
  and "n \<le> 16 \<Longrightarrow> unat (src * dest) = unat src * unat dest"
proof -
  show p: "unat src * unat dest < 2 ^ n * 2 ^ n"
    using assms by (intro mult_strict_mono) auto
  have "2 ^ n * 2 ^ n \<le> (2 ^ 64 :: nat)"
    using power_increasing [of "n + n" 64 "2 :: nat"] assms by (simp add: power_add)
  with p show "unat ((ucast src :: u64) * ucast dest) = unat src * unat dest"
    by (simp add: unat_word_ariths)
  assume "n \<le> 16"
  then have "2 ^ n * 2 ^ n \<le> (2 ^ 32 :: nat)"
    using power_increasing [of "n + n" 32 "2 :: nat"] by (simp add: power_add)
  with p show "unat (src * dest) = unat src * unat dest"
    by (simp add: unat_word_ariths)
qed

text \<open>
  \<open>alu_mul\<close> of 32-bit operands is the exact 64-bit product, and CF and OF say
  whether its upper half is nonzero; 8 and 16-bit operands, zero-extended, give their exact
  product too.
\<close>

lemma alu_mul_correct:
  assumes "n \<in> {8, 16, 32}" and "unat src < 2 ^ n" and "unat dest < 2 ^ n"
  shows "case alu_mul src dest n fl of (r, fl') \<Rightarrow>
     unat r = unat src * unat dest \<and>
     fl_CF fl' = (2 ^ n \<le> unat src * unat dest) \<and> fl_OF fl' = fl_CF fl' \<and>
     fl_ZF fl' = (unat src * unat dest = 0) \<and> only_status fl fl'"
proof -
  let ?p = "unat src * unat dest"
  have p: "?p < 2 ^ n * 2 ^ n"
    using assms by (intro unat_product(1)) auto
  show ?thesis
  proof (cases "n = 32")
    case True
    define r where "r = (ucast src :: u64) * ucast dest"
    have r: "unat r = ?p"
      unfolding r_def using unat_product(2) [of 32 src dest] assms True by simp
    have z: "(r = 0) = (?p = 0)"
      unfolding r [symmetric] by (rule unat_eq_0 [symmetric])
    have h: "(take_bit 32 (drop_bit 32 r) \<noteq> 0) = (2 ^ n \<le> ?p)"
      using high_half_zero [of r 32] p True r by (simp add: not_less)
    show ?thesis
      unfolding alu_mul_def r_def [symmetric] using True r z h
      by (simp only: Let_def flag_specs) simp
  next
    case False
    with assms(1) have n: "n = 8 \<or> n = 16" by blast
    define q where "q = src * dest"
    define r where "r = (ucast q :: u64)"
    have q: "unat q = ?p"
      unfolding q_def using unat_product(3) [of n src dest] assms n by auto
    have r: "unat r = ?p" by (simp add: r_def q)
    have u: "ucast r = q" by (rule bit_word_eqI) (simp add: r_def bit_ucast_iff)
    have z: "(q = 0) = (?p = 0)"
      unfolding q [symmetric] by (rule unat_eq_0 [symmetric])
    have h: "(take_bit n (drop_bit n r) \<noteq> 0) = (2 ^ n \<le> ?p)"
      using high_half_zero [of r n] p r by (simp add: not_less)
    show ?thesis
      unfolding alu_mul_def q_def [symmetric] r_def [symmetric] using n r z h u
      by (elim disjE) (simp_all only: Let_def flag_specs, simp_all)
  qed
qed

text \<open>\<open>alu_imul\<close> is the exact signed product.\<close>

lemma alu_imul_correct: "sint (alu_imul src dest n) = sint src * sint dest"
proof -
  have b: "\<bar>sint w\<bar> \<le> 2147483648" for w :: u32
    using uint_range [of w] by (simp add: sint_if)
  have "\<bar>sint src * sint dest\<bar> \<le> 2147483648 * 2147483648"
    unfolding abs_mult by (intro mult_mono b) auto
  then have "signed_take_bit 63 (sint src * sint dest) = sint src * sint dest"
    by (intro signed_take_bit_int_eq_self) (auto simp: abs_le_iff)
  then show ?thesis
    by (simp add: alu_imul_def sint_word_mult)
qed

text \<open>
  \<open>alu_div\<close> and \<open>alu_mod\<close> together are Euclidean division whenever
  the quotient fits the 32-bit result, and \<open>alu_idiv\<close> and \<open>alu_imod\<close> truncated
  signed division.
\<close>

lemma alu_div_mod_spec:
  assumes "src \<noteq> 0" and "unat src < 2 ^ 32" and "unat dest div unat src < 2 ^ 32"
  shows "\<exists>q fl' r. alu_div src dest n fl = Inr (q, fl') \<and> alu_mod src dest = Inr r \<and>
    unat dest = unat q * unat src + unat r \<and> unat r < unat src \<and>
    result_flags q fl'"
proof -
  let ?q = "ucast (dest div src) :: u32" and ?r = "ucast (dest mod src) :: u32"
  have s: "0 < unat src" using assms(1) by (simp add: unat_gt_0)
  have "unat dest mod unat src < 2 ^ 32"
    using s assms(2) by (rule order_less_trans [OF mod_less_divisor])
  then have r: "unat ?r = unat dest mod unat src"
    by (simp add: unsigned_ucast_eq unat_mod take_bit_nat_eq_self)
  have q: "unat ?q = unat dest div unat src"
    using assms(3) by (simp add: unsigned_ucast_eq unat_div take_bit_nat_eq_self)
  have "unat dest = unat ?q * unat src + unat ?r" "unat ?r < unat src"
    unfolding q r using s by simp_all
  then show ?thesis
    using assms(1) by (simp add: alu_div_def alu_mod_def Let_def flag_specs)
qed

lemma sint_word_of_int32: "in_s32 i \<Longrightarrow> sint (word_of_int i :: u32) = i"
  by (simp add: sint_sbintrunc' signed_take_bit_int_eq_self)

lemma smod_bound: "l \<noteq> 0 \<Longrightarrow> \<bar>k smod l\<bar> < \<bar>l\<bar>" for k l :: int
  by (cases "k = 0") (simp_all add: smod_int_alt_def abs_mult)

lemma sgn_smod: "k smod l = 0 \<or> sgn (k smod l) = sgn k" for k l :: int
proof (cases "\<bar>k\<bar> mod \<bar>l\<bar> = 0")
  case False
  moreover have "0 \<le> \<bar>k\<bar> mod \<bar>l\<bar>"
    by (cases "l = 0") simp_all
  ultimately have "0 < \<bar>k\<bar> mod \<bar>l\<bar>" by linarith
  then show ?thesis by (simp add: smod_int_alt_def sgn_mult)
qed (simp add: smod_int_alt_def)

text \<open>
  \<open>alu_idiv\<close> and \<open>alu_imod\<close>: when divisor and quotient fit 32 bits, the
  quotient truncates toward zero and the remainder has the sign of the dividend.
\<close>

lemma alu_idiv_imod_spec:
  assumes "src \<noteq> 0" and "in_s32 (sint src)" and "in_s32 (sint dest sdiv sint src)"
  shows "\<exists>q fl' r. alu_idiv src dest n fl = Inr (q, fl') \<and> alu_imod src dest = Inr r \<and>
    sint dest = sint q * sint src + sint r \<and> \<bar>sint r\<bar> < \<bar>sint src\<bar> \<and>
    (sint r = 0 \<or> sgn (sint r) = sgn (sint dest)) \<and> result_flags q fl'"
proof -
  let ?q = "word_of_int (sint dest sdiv sint src) :: u32"
  let ?r = "word_of_int (sint dest smod sint src) :: u32"
  have s: "sint src \<noteq> 0" using assms(1) by (simp add: signed_eq_0_iff)
  then have m: "\<bar>sint dest smod sint src\<bar> < \<bar>sint src\<bar>"
    by (rule smod_bound)
  then have r: "sint ?r = sint dest smod sint src"
    using assms(2) by (intro sint_word_of_int32) (auto simp: abs_less_iff)
  have q: "sint ?q = sint dest sdiv sint src"
    by (rule sint_word_of_int32) (rule assms(3))
  have "sint dest = sint ?q * sint src + sint ?r"
    unfolding q r by (simp add: sdiv_mult_smod_eq)
  moreover have "\<not> (sint dest = - (2 ^ 63) \<and> sint src = -1)"
    using assms(3) by (auto simp: signed_divide_int_def)
  moreover have "sint ?r = 0 \<or> sgn (sint ?r) = sgn (sint dest)"
    unfolding r by (rule sgn_smod)
  ultimately show ?thesis
    using assms(1) m r by (simp add: alu_idiv_def alu_imod_def Let_def flag_specs)
qed

text \<open>
  Division of a 64-bit dividend when divisor and quotient fit 32 bits: \<open>alu_div\<close> and \<open>alu_mod\<close>
  are Euclidean, \<open>alu_idiv\<close> truncates toward zero and the remainder of \<open>alu_imod\<close> has the sign of the
  dividend.
\<close>

lemma alu_division_correct:
  assumes "src \<noteq> 0"
  shows "(unat src < 2 ^ 32 \<and> unat dest div unat src < 2 ^ 32 \<longrightarrow>
      (\<exists>q fl' r. alu_div src dest n fl = Inr (q, fl') \<and> alu_mod src dest = Inr r \<and>
        unat dest = unat q * unat src + unat r \<and> unat r < unat src \<and> result_flags q fl')) \<and>
    (in_s32 (sint src) \<and> in_s32 (sint dest sdiv sint src) \<longrightarrow>
      (\<exists>q fl' r. alu_idiv src dest n fl = Inr (q, fl') \<and> alu_imod src dest = Inr r \<and>
        sint dest = sint q * sint src + sint r \<and> \<bar>sint r\<bar> < \<bar>sint src\<bar> \<and>
        (sint r = 0 \<or> sgn (sint r) = sgn (sint dest)) \<and> result_flags q fl'))"
  using alu_div_mod_spec [OF assms] alu_idiv_imod_spec [OF assms] by blast

lemma alu_division_correct_witness:
  "(\<exists>q fl' r. alu_div 7 100 32 0 = Inr (q, fl') \<and> alu_mod 7 100 = Inr r \<and>
      unat (100 :: u64) = unat q * unat (7 :: u64) + unat r \<and> unat r < unat (7 :: u64) \<and> result_flags q fl') \<and>
   (\<exists>q fl' r. alu_idiv 7 (- 100) 32 0 = Inr (q, fl') \<and> alu_imod 7 (- 100) = Inr r \<and>
      sint (- 100 :: u64) = sint q * sint (7 :: u64) + sint r \<and> \<bar>sint r\<bar> < \<bar>sint (7 :: u64)\<bar> \<and>
      (sint r = 0 \<or> sgn (sint r) = sgn (sint (- 100 :: u64))) \<and> result_flags q fl')"
proof
  have nz: "(7 :: u64) \<noteq> 0" by simp
  have "unat (7 :: u64) < 2 ^ 32 \<and> unat (100 :: u64) div unat (7 :: u64) < 2 ^ 32" by simp
  with alu_division_correct [OF nz, of 100 32 0, THEN conjunct1]
  show "\<exists>q fl' r. alu_div 7 100 32 0 = Inr (q, fl') \<and> alu_mod 7 100 = Inr r \<and>
      unat (100 :: u64) = unat q * unat (7 :: u64) + unat r \<and> unat r < unat (7 :: u64) \<and> result_flags q fl'"
    by (rule mp)
  have "in_s32 (sint (7 :: u64)) \<and> in_s32 (sint (- 100 :: u64) sdiv sint (7 :: u64))"
    by (simp add: signed_divide_int_def)
  with alu_division_correct [OF nz, of "- 100" 32 0, THEN conjunct2]
  show "\<exists>q fl' r. alu_idiv 7 (- 100) 32 0 = Inr (q, fl') \<and> alu_imod 7 (- 100) = Inr r \<and>
      sint (- 100 :: u64) = sint q * sint (7 :: u64) + sint r \<and> \<bar>sint r\<bar> < \<bar>sint (7 :: u64)\<bar> \<and>
      (sint r = 0 \<or> sgn (sint r) = sgn (sint (- 100 :: u64))) \<and> result_flags q fl'"
    by (rule mp)
qed

section \<open>Shifts\<close>

text \<open>The bit pattern assembled by the 8 and 16-bit cases: new low part, old high part.\<close>

lemma merge_low:
  fixes t w :: u32
  assumes "take_bit n t = t"
  shows "take_bit n (t + (w AND NOT (mask n))) = t"
    and "drop_bit n (t + (w AND NOT (mask n))) = drop_bit n w"
proof -
  have t: "bit t i \<Longrightarrow> i < n" for i
    using assms by (metis bit_take_bit_iff)
  then have "t AND (w AND NOT (mask n)) = 0"
    by (intro bit_word_eqI) (auto simp: bit_and_iff bit_not_iff bit_mask_iff)
  then have eq: "t + (w AND NOT (mask n)) = t OR (w AND NOT (mask n))"
    by (rule disjunctive_add_eq_or)
  show "take_bit n (t + (w AND NOT (mask n))) = t"
    unfolding eq using t by (intro bit_word_eqI)
      (auto simp: bit_take_bit_iff bit_or_iff bit_and_iff bit_not_iff bit_mask_iff)
  show "drop_bit n (t + (w AND NOT (mask n))) = drop_bit n w"
    unfolding eq using t by (intro bit_word_eqI)
      (auto simp: bit_drop_bit_eq bit_or_iff bit_and_iff bit_not_iff bit_mask_iff
        dest: bit_imp_le_length)
qed

lemma hi_masks: "(0xffffff00 :: u32) = NOT (mask 8)" "(0xffff0000 :: u32) = NOT (mask 16)"
  by (simp_all add: mask_eq_exp_minus_1 not_eq_complement)

lemma take_bit_32 [simp]: "take_bit 32 w = w" for w :: u32
  by (simp add: take_bit_word_eq_self)

lemma drop_bit_32 [simp]: "drop_bit 32 w = 0" for w :: u32
  by (rule bit_word_eqI) (simp add: bit_drop_bit_eq)

lemma unat_take_push:
  "n \<le> 32 \<Longrightarrow> unat (take_bit n (push_bit k w)) = unat w * 2 ^ k mod 2 ^ n" for w :: u32
  by (simp only: unsigned_take_bit_eq unsigned_push_bit_eq take_bit_take_bit)
    (simp add: push_bit_eq_mult take_bit_eq_mod min_def)

lemma unat_drop_take:
  "unat (drop_bit k (take_bit n w)) = unat w mod 2 ^ n div 2 ^ k" for w :: u32
  by (simp only: unat_drop_bit_eq unsigned_take_bit_eq) (simp add: drop_bit_eq_div take_bit_eq_mod)

lemma shl_small_spec:
  assumes "0 < k" and "k < n"
  shows "fst (shl_small n k (take_bit n dest) fl) = take_bit n (push_bit k dest)"
    and "fl_CF (snd (shl_small n k (take_bit n dest) fl)) = bit dest (n - k)"
    and "fl_ZF (snd (shl_small n k (take_bit n dest) fl)) = (take_bit n (push_bit k dest) = 0)"
    and "only_status fl (snd (shl_small n k (take_bit n dest) fl))"
proof -
  have "take_bit n (push_bit k (take_bit n dest)) = take_bit n (push_bit k dest)"
    by (rule bit_word_eqI) (auto simp: bit_take_bit_iff bit_push_bit_iff)
  then show "fst (shl_small n k (take_bit n dest) fl) = take_bit n (push_bit k dest)"
    and "fl_CF (snd (shl_small n k (take_bit n dest) fl)) = bit dest (n - k)"
    and "fl_ZF (snd (shl_small n k (take_bit n dest) fl)) = (take_bit n (push_bit k dest) = 0)"
    and "only_status fl (snd (shl_small n k (take_bit n dest) fl))"
    using assms by (simp_all add: shl_small_def Let_def flag_specs bit_take_bit_iff)
qed

lemma shr_small_spec:
  assumes "0 < k" and "k < n" and "unat src = k"
  shows "\<exists>fl'. shr_small n src (take_bit n dest) v fl = Inr (take_bit n v, fl') \<and>
    fl_CF fl' = bit dest (k - 1) \<and> fl_ZF fl' = (take_bit n v = 0) \<and> only_status fl fl'"
proof -
  have "src \<noteq> 0" using assms by auto
  with assms show ?thesis by (auto simp: shr_small_def Let_def flag_specs bit_take_bit_iff)
qed

lemma signed_take_div:
  fixes v :: u32
  assumes "sint v = signed_take_bit m x div 2 ^ k" and "m < 32"
  shows "signed_take_bit m (uint v) = signed_take_bit m x div 2 ^ k"
proof -
  let ?x = "signed_take_bit m x"
  have x: "- (2 ^ m) \<le> ?x" "?x < 2 ^ m" by simp_all
  have "- (2 ^ m) \<le> ?x div 2 ^ k \<and> ?x div 2 ^ k < 2 ^ m"
  proof (cases "0 \<le> ?x")
    case True
    then have "0 \<le> ?x div 2 ^ k" "?x div 2 ^ k \<le> ?x"
      using zdiv_mono2 [of ?x 1 "2 ^ k"] by (simp_all add: pos_imp_zdiv_nonneg_iff)
    moreover have "- (2 ^ m) \<le> (0 :: int)" by simp
    ultimately show ?thesis using x(2) by linarith
  next
    case False
    then have "?x div 2 ^ k < 0" "?x \<le> ?x div 2 ^ k"
      using zdiv_mono2_neg [of ?x 1 "2 ^ k"] by (simp_all add: pos_imp_zdiv_neg_iff)
    moreover have "(0 :: int) < 2 ^ m" by simp
    ultimately show ?thesis using x(1) by linarith
  qed
  then have "- (2 ^ m) \<le> ?x div 2 ^ k" "?x div 2 ^ k < 2 ^ m" by auto
  then have "signed_take_bit m (?x div 2 ^ k) = ?x div 2 ^ k"
    by (rule signed_take_bit_int_eq_self)
  moreover have "signed_take_bit m (uint v) = signed_take_bit m (sint v)"
    using assms(2) by (simp add: sint_uint)
  ultimately show ?thesis
    by (simp add: assms(1))
qed

text \<open>
  \<open>alu_shl\<close> by \<open>0 < k < n\<close>: the \<open>n\<close>-bit operand is multiplied by
  \<open>2 ^ k\<close>, the rest of the word is kept, and CF is the last bit shifted out.
\<close>

lemma alu_shl_correct:
  assumes "n \<in> {8, 16, 32}" and "0 < k" and "k < n"
  shows "\<exists>r fl'. alu_shl (of_nat k) dest n fl = Inr (r, fl') \<and>
    unat (take_bit n r) = unat dest * 2 ^ k mod 2 ^ n \<and> drop_bit n r = drop_bit n dest \<and>
    fl_CF fl' = bit dest (n - k) \<and> fl_ZF fl' = (take_bit n r = 0) \<and> only_status fl fl'"
proof -
  have k: "unat (of_nat k :: u32) = k"
    using assms by (auto simp: unat_of_nat)
  then have nz: "of_nat k \<noteq> (0 :: u32)"
    using assms(2) by (metis unat_0 less_numeral_extra(3))
  have "\<exists>r fl'. alu_shl (of_nat k) dest n fl = Inr (r, fl') \<and>
    take_bit n r = take_bit n (push_bit k dest) \<and> drop_bit n r = drop_bit n dest \<and>
    fl_CF fl' = bit dest (n - k) \<and> fl_ZF fl' = (take_bit n r = 0) \<and> only_status fl fl'"
  proof (cases "n = 32")
    case True
    then show ?thesis
      using assms k nz by (simp add: alu_shl_def Let_def flag_specs word_less_nat_alt)
  next
    case False
    obtain t fl' where t: "shl_small n k (take_bit n dest) fl = (t, fl')" by fastforce
    note small = shl_small_spec [where dest = dest and fl = fl, OF assms(2,3), unfolded t]
    from small(1) have "take_bit n t = t" by simp
    note merge = merge_low [OF this, of dest]
    from False assms(1) have "n = 8 \<or> n = 16" by blast
    then show ?thesis
    proof
      assume "n = 8"
      then show ?thesis
        using merge small t by (simp add: alu_shl_def k hi_masks)
    next
      assume "n = 16"
      then show ?thesis
        using merge small t by (simp add: alu_shl_def k hi_masks)
    qed
  qed
  then show ?thesis
    using unat_take_push [of n k dest] assms(1) by force
qed

lemma alu_shl_correct_witness:
  "\<exists>r fl'. alu_shl (of_nat 3) 0x12345678 16 0 = Inr (r, fl') \<and>
    unat (take_bit 16 r) = unat (0x12345678 :: u32) * 2 ^ 3 mod 2 ^ 16 \<and>
    drop_bit 16 r = drop_bit 16 0x12345678 \<and>
    fl_CF fl' = bit (0x12345678 :: u32) (16 - 3) \<and> fl_ZF fl' = (take_bit 16 r = 0) \<and>
    only_status 0 fl'"
  by (rule alu_shl_correct) simp_all

lemma sint_sar_8:
  "sint (signed_drop_bit k (scast (ucast (take_bit 8 w) :: u8) :: u32)) =
   signed_take_bit 7 (uint w) div 2 ^ k" for w :: u32
  by (simp add: sint_signed_drop_bit_eq drop_bit_eq_div signed_scast_eq)
    (simp add: sint_uint unsigned_ucast_eq unsigned_take_bit_eq signed_take_bit_take_bit)

lemma sint_sar_16:
  "sint (signed_drop_bit k (scast (ucast (take_bit 16 w) :: u16) :: u32)) =
   signed_take_bit 15 (uint w) div 2 ^ k" for w :: u32
  by (simp add: sint_signed_drop_bit_eq drop_bit_eq_div signed_scast_eq)
    (simp add: sint_uint unsigned_ucast_eq unsigned_take_bit_eq signed_take_bit_take_bit)

text \<open>
  \<open>alu_shr\<close> and \<open>alu_sar\<close> by \<open>0 < k < n\<close>: the \<open>n\<close>-bit operand
  is divided by \<open>2 ^ k\<close>, read as unsigned by the one and as two's complement (rounding
  down) by the other; the rest of the word is kept and CF is the last bit shifted out.
\<close>

lemma alu_shr_sar_correct:
  assumes "n \<in> {8, 16, 32}" and "0 < k" and "k < n"
  shows "(\<exists>r fl'. alu_shr (of_nat k) dest n fl = Inr (r, fl') \<and>
      unat (take_bit n r) = unat (take_bit n dest) div 2 ^ k \<and>
      drop_bit n r = drop_bit n dest \<and> fl_CF fl' = bit dest (k - 1) \<and>
      fl_ZF fl' = (take_bit n r = 0) \<and> only_status fl fl') \<and>
    (\<exists>r fl'. alu_sar (of_nat k) dest n fl = Inr (r, fl') \<and>
      signed_take_bit (n - 1) (uint r) = signed_take_bit (n - 1) (uint dest) div 2 ^ k \<and>
      drop_bit n r = drop_bit n dest \<and> fl_CF fl' = bit dest (k - 1) \<and>
      fl_ZF fl' = (take_bit n r = 0) \<and> only_status fl fl')"
proof -
  have k: "unat (of_nat k :: u32) = k"
    using assms by (auto simp: unat_of_nat)
  then have nz: "of_nat k \<noteq> (0 :: u32)"
    using assms(2) by (metis unat_0 less_numeral_extra(3))
  have shr: "\<exists>r fl'. alu_shr (of_nat k) dest n fl = Inr (r, fl') \<and>
      take_bit n r = drop_bit k (take_bit n dest) \<and>
      drop_bit n r = drop_bit n dest \<and> fl_CF fl' = bit dest (k - 1) \<and>
      fl_ZF fl' = (take_bit n r = 0) \<and> only_status fl fl'"
  proof (cases "n = 32")
    case True
    then show ?thesis
      using assms k nz by (simp add: alu_shr_def shr_32_def Let_def flag_specs word_less_nat_alt)
  next
    case False
    define v where "v = drop_bit k (take_bit n dest)"
    have v: "take_bit n v = v"
      unfolding v_def by (rule bit_word_eqI) (auto simp: bit_take_bit_iff bit_drop_bit_eq)
    from shr_small_spec [OF assms(2,3) k, of dest v fl] obtain fl' where
      fl': "shr_small n (of_nat k) (take_bit n dest) v fl = Inr (v, fl')"
        "fl_CF fl' = bit dest (k - 1)" "fl_ZF fl' = (v = 0)" "only_status fl fl'"
      unfolding v by blast
    have "n = 8 \<or> n = 16" using False assms(1) by blast
    then show ?thesis
      using fl' merge_low [OF v, of dest]
      by (elim disjE) (simp_all add: alu_shr_def Let_def k hi_masks v_def)
  qed
  have sar: "\<exists>r fl' v. alu_sar (of_nat k) dest n fl = Inr (r, fl') \<and>
      take_bit n r = take_bit n v \<and> sint v = signed_take_bit (n - 1) (uint dest) div 2 ^ k \<and>
      drop_bit n r = drop_bit n dest \<and> fl_CF fl' = bit dest (k - 1) \<and>
      fl_ZF fl' = (take_bit n r = 0) \<and> only_status fl fl'"
  proof -
    consider "n = 8" | "n = 16" | "n = 32" using assms(1) by blast
    then show ?thesis
    proof cases
      case 1
      define v :: u32 where "v = signed_drop_bit k (scast (ucast (take_bit 8 dest) :: u8))"
      have sv: "sint v = signed_take_bit 7 (uint dest) div 2 ^ k"
        unfolding v_def by (rule sint_sar_8)
      from shr_small_spec [OF assms(2,3) k, of dest v fl] 1 obtain fl' where
        fl': "shr_small 8 (of_nat k) (take_bit 8 dest) v fl = Inr (take_bit 8 v, fl')"
          "fl_CF fl' = bit dest (k - 1)" "fl_ZF fl' = (take_bit 8 v = 0)" "only_status fl fl'"
        by blast
      then show ?thesis
        using sv 1 merge_low [of 8 "take_bit 8 v" dest]
        by (intro exI [of _ "take_bit 8 v + (dest AND NOT (mask 8))"] exI [of _ fl'] exI [of _ v])
          (simp add: alu_sar_def Let_def k hi_masks flip: v_def)
    next
      case 2
      define v :: u32 where "v = signed_drop_bit k (scast (ucast (take_bit 16 dest) :: u16))"
      have sv: "sint v = signed_take_bit 15 (uint dest) div 2 ^ k"
        unfolding v_def by (rule sint_sar_16)
      from shr_small_spec [OF assms(2,3) k, of dest v fl] 2 obtain fl' where
        fl': "shr_small 16 (of_nat k) (take_bit 16 dest) v fl = Inr (take_bit 16 v, fl')"
          "fl_CF fl' = bit dest (k - 1)" "fl_ZF fl' = (take_bit 16 v = 0)" "only_status fl fl'"
        by blast
      then show ?thesis
        using sv 2 merge_low [of 16 "take_bit 16 v" dest]
        by (intro exI [of _ "take_bit 16 v + (dest AND NOT (mask 16))"] exI [of _ fl'] exI [of _ v])
          (simp add: alu_sar_def Let_def k hi_masks flip: v_def)
    next
      case 3
      have "sint (signed_drop_bit k dest) = signed_take_bit 31 (uint dest) div 2 ^ k"
        by (simp only: sint_signed_drop_bit_eq drop_bit_eq_div) (simp add: sint_uint)
      then show ?thesis
        using assms k nz 3
        by (intro exI [of _ "signed_drop_bit k dest"]
            exI [of _ "snd (projr (alu_sar (of_nat k) dest n fl))"])
          (auto simp: alu_sar_def shr_32_def Let_def flag_specs word_less_nat_alt)
    qed
  qed
  from sar obtain r fl' v where r: "alu_sar (of_nat k) dest n fl = Inr (r, fl')"
    "take_bit n r = take_bit n v" "sint v = signed_take_bit (n - 1) (uint dest) div 2 ^ k"
    "drop_bit n r = drop_bit n dest \<and> fl_CF fl' = bit dest (k - 1) \<and>
      fl_ZF fl' = (take_bit n r = 0) \<and> only_status fl fl'" by blast
  have "signed_take_bit (n - 1) (uint r) = signed_take_bit (n - 1) (uint v)"
    using arg_cong [OF r(2), of uint] assms
    by (intro iffD2 [OF signed_take_bit_eq_iff_take_bit_eq]) (simp add: unsigned_take_bit_eq)
  also have "\<dots> = signed_take_bit (n - 1) (uint dest) div 2 ^ k"
    using assms by (intro signed_take_div r(3)) auto
  finally have sar': "signed_take_bit (n - 1) (uint r) = signed_take_bit (n - 1) (uint dest) div 2 ^ k" .
  have "unat (drop_bit k (take_bit n dest)) = unat (take_bit n dest) div 2 ^ k"
    by (simp only: unat_drop_bit_eq) (simp add: drop_bit_eq_div)
  with shr have "\<exists>r fl'. alu_shr (of_nat k) dest n fl = Inr (r, fl') \<and>
      unat (take_bit n r) = unat (take_bit n dest) div 2 ^ k \<and>
      drop_bit n r = drop_bit n dest \<and> fl_CF fl' = bit dest (k - 1) \<and>
      fl_ZF fl' = (take_bit n r = 0) \<and> only_status fl fl'"
    by metis
  then show ?thesis
    using r(1,4) sar' by blast
qed

lemma alu_shr_sar_correct_witness:
  "(\<exists>r fl'. alu_shr (of_nat 3) 0x1234f678 16 0 = Inr (r, fl') \<and>
      unat (take_bit 16 r) = unat (take_bit 16 (0x1234f678 :: u32)) div 2 ^ 3 \<and>
      drop_bit 16 r = drop_bit 16 0x1234f678 \<and> fl_CF fl' = bit (0x1234f678 :: u32) (3 - 1) \<and>
      fl_ZF fl' = (take_bit 16 r = 0) \<and> only_status 0 fl') \<and>
    (\<exists>r fl'. alu_sar (of_nat 3) 0x1234f678 16 0 = Inr (r, fl') \<and>
      signed_take_bit (16 - 1) (uint r) = signed_take_bit (16 - 1) (uint (0x1234f678 :: u32)) div 2 ^ 3 \<and>
      drop_bit 16 r = drop_bit 16 0x1234f678 \<and> fl_CF fl' = bit (0x1234f678 :: u32) (3 - 1) \<and>
      fl_ZF fl' = (take_bit 16 r = 0) \<and> only_status 0 fl')"
  by (rule alu_shr_sar_correct) simp_all

end
