(* ===== verification/Cache.thy ===== *)
theory Cache
  imports Prelude
begin

text \<open>
  Physical memory and the L1 data cache: \<open>hw_mem_read\<close>/\<open>hw_mem_write\<close> of
  \<open>nemu/src/memory/memory.c\<close> and \<open>nemu/src/memory/cache.c\<close>, 1024 lines of 64
  bytes in 128 groups of 8 ways, write-through. An access outside \<open>hw_mem\<close> or
  \<open>L1_dcache\<close> is undefined in C and ends as \<open>Undefined\<close>.
\<close>

section \<open>State\<close>

record CacheLine =
  valid_bit :: u8
  tag :: u32
  data :: "nat \<Rightarrow> u8"

record cmem =
  hw_mem :: "nat \<Rightarrow> u8"
  L1_dcache :: "nat \<Rightarrow> CacheLine"

definition MEM_SIZE_B :: nat where
  "MEM_SIZE_B = 128 * 1024 * 1024"

section \<open>Operations\<close>

definition hw_mem_read :: "u32 \<Rightarrow> nat \<Rightarrow> cmem \<Rightarrow> u32 res" where
  "hw_mem_read paddr len m =
     definedE ''hw_mem_read'' (unat paddr + len \<le> MEM_SIZE_B)
       (Inr (le_read (\<lambda>i. hw_mem m (unat paddr + i)) len))"

definition hw_mem_write :: "u32 \<Rightarrow> nat \<Rightarrow> u32 \<Rightarrow> cmem \<Rightarrow> cmem res" where
  "hw_mem_write paddr len d m =
     definedE ''hw_mem_write'' (unat paddr + len \<le> MEM_SIZE_B)
       (Inr (m\<lparr>hw_mem := store_bytes (hw_mem m) (unat paddr) len d\<rparr>))"

definition init_cache :: "cmem \<Rightarrow> cmem" where
  "init_cache m = m\<lparr>L1_dcache := (\<lambda>i. if i < 1024 then (L1_dcache m i)\<lparr>valid_bit := 0\<rparr>
                                      else L1_dcache m i)\<rparr>"

definition block_num :: "u32 \<Rightarrow> nat" where "block_num paddr = unat (field 0 6 paddr)"
definition group_num :: "u32 \<Rightarrow> nat" where "group_num paddr = unat (field 6 7 paddr)"
definition tag_of :: "u32 \<Rightarrow> u32" where "tag_of paddr = field 13 19 paddr"

definition set_line :: "nat \<Rightarrow> CacheLine \<Rightarrow> cmem \<Rightarrow> cmem" where
  "set_line k l m = m\<lparr>L1_dcache := (L1_dcache m)(k := l)\<rparr>"

text \<open>\<open>memcpy(line.data, hw_mem + base, 64)\<close>.\<close>

definition copy_block :: "nat \<Rightarrow> cmem \<Rightarrow> nat \<Rightarrow> u8" where
  "copy_block base m = (\<lambda>j. hw_mem m (base + j))"

text \<open>
  The first loop of \<open>cache_read\<close> over the ways of a group. It returns from the function on
  a hit inside one line and otherwise falls through with \<open>ret\<close> and \<open>hit\<close>.
  \<open>rec\<close> is the recursive call for the parts of an access that straddles two lines.
\<close>

datatype ('a, 'b) exit = Returned 'a | Fell_through 'b

fun read_ways :: "(u32 \<Rightarrow> nat \<Rightarrow> cmem \<Rightarrow> (u32 \<times> cmem) res) \<Rightarrow> u32 \<Rightarrow> nat \<Rightarrow> nat list \<Rightarrow> u32 \<Rightarrow> bool \<Rightarrow>
    cmem \<Rightarrow> (u32 \<times> cmem, u32 \<times> bool \<times> cmem) exit res" where
  "read_ways rec paddr len [] ret hit m = Inr (Fell_through (ret, hit, m))"
| "read_ways rec paddr len (i # is) ret hit m =
     (let b = block_num paddr; k = group_num paddr * 8 + i; l = L1_dcache m k in
      if tag l = tag_of paddr then
        if valid_bit l = 1 then
          if len + b \<le> 64 then
            Inr (Returned (le_read (\<lambda>j. data l (b + j)) len, m))
          else if len = 2 then
            bindE (rec (paddr + 1) 1 m) (\<lambda>(temp1, m).
              read_ways rec paddr len is
                (push_bit 8 temp1 OR ucast (data (L1_dcache m k) b)) True m)
          else
            bindE (rec (paddr + of_nat (64 - b)) (b - 60) m) (\<lambda>(temp1, m).
            bindE (rec paddr (64 - b) m) (\<lambda>(temp2, m).
              read_ways rec paddr len is
                (push_bit (8 * (64 - b)) temp1 OR temp2) True m))
        else read_ways rec paddr len is ret False m
      else read_ways rec paddr len is ret hit m)"

definition fill_line :: "u32 \<Rightarrow> nat \<Rightarrow> cmem \<Rightarrow> cmem" where
  "fill_line paddr k m =
     set_line k \<lparr>valid_bit = 1, tag = tag_of paddr,
                 data = (\<lambda>j. if j < 64 then copy_block (unat (paddr AND NOT (mask 6))) m j
                             else data (L1_dcache m k) j)\<rparr> m"

text \<open>The first invalid way of the group, way 0 when all are valid.\<close>

definition victim :: "nat \<Rightarrow> cmem \<Rightarrow> nat" where
  "victim g m = (case find (\<lambda>i. valid_bit (L1_dcache m (g * 8 + i)) = 0) [0..<8] of
                   Some i \<Rightarrow> i | None \<Rightarrow> 0)"

definition cache_miss :: "u32 \<Rightarrow> nat \<Rightarrow> cmem \<Rightarrow> (u32 \<times> cmem) res" where
  "cache_miss paddr len m =
     bindE (hw_mem_read paddr len m) (\<lambda>ret.
       Inr (ret, fill_line paddr (group_num paddr * 8 + victim (group_num paddr) m) m))"

text \<open>
  \<open>cache_read\<close>; the recursive calls are on parts inside one line, so a call depth of
  two is enough (shown below).
\<close>

fun cache_read_fuel :: "nat \<Rightarrow> u32 \<Rightarrow> nat \<Rightarrow> cmem \<Rightarrow> (u32 \<times> cmem) res" where
  "cache_read_fuel 0 paddr len m = Inl Out_of_fuel"
| "cache_read_fuel (Suc n) paddr len m =
     bindE (read_ways (cache_read_fuel n) paddr len [0..<8] 0 False m) (\<lambda>r.
       case r of
         Returned (ret, m) \<Rightarrow> Inr (ret, m)
       | Fell_through (ret, hit, m) \<Rightarrow> if hit then Inr (ret, m) else cache_miss paddr len m)"

definition cache_read :: "u32 \<Rightarrow> nat \<Rightarrow> cmem \<Rightarrow> (u32 \<times> cmem) res" where
  "cache_read paddr len m = cache_read_fuel 2 paddr len m"

text \<open>
  \<open>cache_write\<close>: the loop over the ways refreshes every valid copy of the line from
  \<open>hw_mem + p\<close>; after a straddling access \<open>p\<close> has moved to the next line. The inner
  loop indexes \<open>group_num * 8 + 8 + j\<close>, past the array for the last group.
\<close>

definition refresh_line :: "nat \<Rightarrow> u32 \<Rightarrow> cmem \<Rightarrow> cmem res" where
  "refresh_line k p m =
     definedE ''cache_write'' (unat p + 64 \<le> MEM_SIZE_B)
       (Inr (set_line k ((L1_dcache m k)\<lparr>data := (\<lambda>j. if j < 64 then copy_block (unat p) m j
                                                     else data (L1_dcache m k) j)\<rparr>) m))"

fun write_next :: "nat \<Rightarrow> u32 \<Rightarrow> u32 \<Rightarrow> nat list \<Rightarrow> cmem \<Rightarrow> cmem res" where
  "write_next g t p [] m = Inr m"
| "write_next g t p (j # js) m =
     (let k = g * 8 + 8 + j in
      definedE ''cache_write'' (k < 1024)
       (if tag (L1_dcache m k) = t \<and> valid_bit (L1_dcache m k) = 1
        then bindE (refresh_line k p m) (write_next g t p js)
        else write_next g t p js m))"

fun write_ways :: "u32 \<Rightarrow> nat \<Rightarrow> nat list \<Rightarrow> u32 \<Rightarrow> cmem \<Rightarrow> cmem res" where
  "write_ways paddr len [] p m = Inr m"
| "write_ways paddr len (i # is) p m =
     (let g = group_num paddr; k = g * 8 + i in
      if tag (L1_dcache m k) = tag_of paddr \<and> valid_bit (L1_dcache m k) = 1 then
        bindE (refresh_line k p m) (\<lambda>m.
          if len + block_num paddr \<le> 64 then write_ways paddr len is p m
          else bindE (write_next g (tag_of paddr) (p + 0x40) [0..<8] m)
                 (write_ways paddr len is (p + 0x40)))
      else write_ways paddr len is p m)"

definition cache_write :: "u32 \<Rightarrow> nat \<Rightarrow> u32 \<Rightarrow> cmem \<Rightarrow> cmem res" where
  "cache_write paddr len d m =
     bindE (hw_mem_write paddr len d m)
       (write_ways paddr len [0..<8] (paddr - of_nat (block_num paddr)))"

end
