(* ===== verification/Mmio.thy ===== *)
theory Mmio
  imports Prelude
begin

text \<open>
  Memory-mapped I/O, \<open>nemu/src/device/io/mm_io.c\<close>: a table of at most eight address
  ranges backed by one pool of bytes, each with a callback. The one callback of the
  program, \<open>vga_vmem_io_handler\<close> of \<open>nemu/src/device/dev/vga.c\<close>, marks the
  written line of video memory dirty. Function pointers are a datatype of their targets.
\<close>

section \<open>State\<close>

datatype mmio_callback = Vga_vmem_io_handler

record MMIO_t =
  low :: u32
  high :: u32
  mmio_space :: nat
  callback :: mmio_callback

text \<open>
  \<open>maps\<close> holds the first \<open>nr_map\<close> entries of the array, \<open>mmio_space\<close> is an
  index into the pool.
\<close>

record mmio =
  mmio_space_pool :: "nat \<Rightarrow> u8"
  mmio_space_free_index :: nat
  maps :: "MMIO_t list"
  line_dirty :: "nat \<Rightarrow> bool"
  vmem_dirty :: bool

abbreviation (input) "MMIO_SPACE_MAX \<equiv> 256 * 1024 :: nat"
abbreviation (input) "NR_MAP \<equiv> 8 :: nat"
abbreviation (input) "CTR_ROW \<equiv> 200 :: nat"
abbreviation (input) "CTR_COL \<equiv> 320 :: nat"

section \<open>Operations\<close>

definition vga_vmem_io_handler :: "u32 \<Rightarrow> nat \<Rightarrow> bool \<Rightarrow> mmio \<Rightarrow> mmio" where
  "vga_vmem_io_handler addr len is_write s =
     (if is_write then
        let line = unat (addr - 0xa0000) div CTR_COL in
        if line < CTR_ROW then s\<lparr>line_dirty := (line_dirty s)(line := True), vmem_dirty := True\<rparr>
        else s
      else s)"

definition run_callback :: "mmio_callback \<Rightarrow> u32 \<Rightarrow> nat \<Rightarrow> bool \<Rightarrow> mmio \<Rightarrow> mmio" where
  "run_callback c = (case c of Vga_vmem_io_handler \<Rightarrow> vga_vmem_io_handler)"

definition add_mmio_map :: "u32 \<Rightarrow> nat \<Rightarrow> mmio_callback \<Rightarrow> mmio \<Rightarrow> (nat \<times> mmio) res" where
  "add_mmio_map addr len c s =
     assertE ''add_mmio_map'' (length (maps s) < NR_MAP)
    (assertE ''add_mmio_map'' (mmio_space_free_index s + len \<le> MMIO_SPACE_MAX)
      (let space_base = mmio_space_free_index s in
       Inr (space_base,
         s\<lparr>maps := maps s @ [\<lparr>low = addr, high = addr + of_nat len - 1,
                               mmio_space = space_base, callback = c\<rparr>],
           mmio_space_free_index := mmio_space_free_index s + len\<rparr>)))"

definition clear_mmio_map :: "mmio \<Rightarrow> mmio" where
  "clear_mmio_map s = s\<lparr>maps := [], mmio_space_free_index := 0\<rparr>"

text \<open>\<open>is_mmio\<close> returns the index of the first range that holds the address, \<open>-1\<close> as
  \<open>None\<close>.\<close>

fun find_map :: "u32 \<Rightarrow> nat \<Rightarrow> MMIO_t list \<Rightarrow> nat option" where
  "find_map addr i [] = None"
| "find_map addr i (m # ms) =
     (if addr \<ge> low m \<and> addr \<le> high m then Some i else find_map addr (Suc i) ms)"

definition is_mmio :: "u32 \<Rightarrow> mmio \<Rightarrow> nat option" where
  "is_mmio addr s = find_map addr 0 (maps s)"

text \<open>\<open>~0u >> ((4 - len) << 3)\<close>.\<close>

definition len_mask :: "nat \<Rightarrow> u32" where
  "len_mask len = drop_bit ((4 - len) * 8) (NOT 0)"

text \<open>The 32-bit load reads four bytes of the pool whatever \<open>len\<close> is.\<close>

definition mmio_read :: "u32 \<Rightarrow> nat \<Rightarrow> nat \<Rightarrow> mmio \<Rightarrow> (u32 \<times> mmio) res" where
  "mmio_read addr len map_NO s =
     assertE ''mmio_read'' (len = 1 \<or> len = 2 \<or> len = 4)
      (let m = maps s ! map_NO; a = mmio_space m + unat (addr - low m) in
       definedE ''mmio_read'' (map_NO < length (maps s) \<and> a + 4 \<le> MMIO_SPACE_MAX)
        (let d = le_read (\<lambda>i. mmio_space_pool s (a + i)) 4
                   AND len_mask len
         in Inr (d, run_callback (callback m) addr len False s)))"

text \<open>\<open>memcpy_with_mask\<close> of \<open>nemu/include/nemu.h\<close>, its loop from \<open>i\<close> for \<open>n\<close>
  more bytes.\<close>

fun memcpy_with_mask :: "nat \<Rightarrow> nat \<Rightarrow> nat \<Rightarrow> u32 \<Rightarrow> u32 \<Rightarrow> (nat \<Rightarrow> u8) \<Rightarrow> nat \<Rightarrow> u8" where
  "memcpy_with_mask dest i 0 src msk f = f"
| "memcpy_with_mask dest i (Suc n) src msk f =
     memcpy_with_mask dest (Suc i) n src msk
       (if byte_of i msk \<noteq> 0 then f(dest + i := byte_of i src) else f)"

definition mmio_write :: "u32 \<Rightarrow> nat \<Rightarrow> u32 \<Rightarrow> nat \<Rightarrow> mmio \<Rightarrow> mmio res" where
  "mmio_write addr len d map_NO s =
     assertE ''mmio_write'' (len = 1 \<or> len = 2 \<or> len = 4)
      (let m = maps s ! map_NO; a = mmio_space m + unat (addr - low m);
           msk = len_mask len in
       definedE ''mmio_write'' (map_NO < length (maps s) \<and> a + len \<le> MMIO_SPACE_MAX)
        (Inr (run_callback (callback m) addr len True
          (s\<lparr>mmio_space_pool := memcpy_with_mask a 0 len d msk (mmio_space_pool s)\<rparr>))))"

section \<open>Properties\<close>

lemma run_callback_pool [simp]:
  "mmio_space_pool (run_callback c addr len w s) = mmio_space_pool s"
  "maps (run_callback c addr len w s) = maps s"
  "mmio_space_free_index (run_callback c addr len w s) = mmio_space_free_index s"
  by (cases c; simp add: run_callback_def vga_vmem_io_handler_def Let_def)+

lemma bit_len_mask: "len \<le> 4 \<Longrightarrow> bit (len_mask len) i \<longleftrightarrow> i < 8 * len"
  unfolding len_mask_def bit_drop_bit_eq by (auto simp: bit_not_iff bit_mask_iff minus_1_eq_mask)

lemma full_mask_byte:
  assumes "len \<le> 4" and "i < len"
  shows "byte_of i (len_mask len) \<noteq> 0"
proof -
  have "bit (byte_of i (len_mask len)) 0"
    using assms by (simp add: bit_byte_of bit_len_mask)
  then show ?thesis by auto
qed

lemma memcpy_with_mask_full:
  assumes "len \<le> 4" and "i + n = len"
  shows "memcpy_with_mask a i n d (len_mask len) f =
    (\<lambda>k. if a + i \<le> k \<and> k < a + len then byte_of (k - a) d else f k)"
  using assms
proof (induction n arbitrary: i f)
  case 0
  then show ?case by (auto simp: fun_eq_iff)
next
  case (Suc n)
  then show ?case
    using full_mask_byte [of len i] by (auto simp: fun_eq_iff)
qed

lemma memcpy_with_mask_store:
  "len \<le> 4 \<Longrightarrow>
   memcpy_with_mask a 0 len d (len_mask len) f = store_bytes f a len d"
  by (simp add: memcpy_with_mask_full store_bytes_def)

lemma low_mask: "len \<le> 4 \<Longrightarrow> w AND len_mask len = take_bit (8 * len) w"
  for w :: u32
  by (rule bit_word_eqI) (auto simp: bit_and_iff bit_len_mask bit_take_bit_iff)

text \<open>
  \<open>mmio_inv\<close>: the entries' pool areas are consecutive, end at the free index, and lie in
  the pool; \<open>add_mmio_map\<close> keeps it.
\<close>

fun areas_from :: "nat \<Rightarrow> MMIO_t list \<Rightarrow> nat \<Rightarrow> bool" where
  "areas_from a [] e = (a = e)"
| "areas_from a (m # ms) e =
     (mmio_space m = a \<and> low m \<le> high m \<and>
      areas_from (a + unat (high m) - unat (low m) + 1) ms e)"

definition mmio_inv :: "mmio \<Rightarrow> bool" where
  "mmio_inv s \<longleftrightarrow> length (maps s) \<le> NR_MAP \<and> mmio_space_free_index s \<le> MMIO_SPACE_MAX \<and>
     areas_from 0 (maps s) (mmio_space_free_index s)"

lemma areas_from_snoc:
  "areas_from a (ms @ [m]) e' \<longleftrightarrow>
   (\<exists>e. areas_from a ms e \<and> mmio_space m = e \<and> low m \<le> high m \<and>
        e' = e + unat (high m) - unat (low m) + 1)"
  by (induction ms arbitrary: a) auto

lemma areas_from_le: "areas_from a ms e \<Longrightarrow> a \<le> e"
proof (induction ms arbitrary: a)
  case (Cons m ms)
  then have "low m \<le> high m" "a + unat (high m) - unat (low m) + 1 \<le> e" by auto
  then show ?case by (simp add: word_le_nat_alt)
qed simp

lemma clear_mmio_map_inv: "mmio_inv (clear_mmio_map s)"
  by (simp add: mmio_inv_def clear_mmio_map_def)

lemma areas_from_nth:
  "areas_from a ms e \<Longrightarrow> k < length ms \<Longrightarrow>
   a \<le> mmio_space (ms ! k) \<and> low (ms ! k) \<le> high (ms ! k) \<and>
   mmio_space (ms ! k) + unat (high (ms ! k)) - unat (low (ms ! k)) + 1 \<le> e"
proof (induction ms arbitrary: a k)
  case (Cons m ms)
  from Cons.prems(1) have m: "mmio_space m = a" "low m \<le> high m"
    and r: "areas_from (a + unat (high m) - unat (low m) + 1) ms e" by auto
  show ?case
  proof (cases k)
    case 0
    then show ?thesis using m areas_from_le [OF r] by simp
  next
    case (Suc j)
    then show ?thesis
      using Cons.IH [OF r, of j] Cons.prems(2) m(2) by (auto simp: word_le_nat_alt)
  qed
qed simp

lemma areas_from_disjoint:
  "areas_from a ms e \<Longrightarrow> j < k \<Longrightarrow> k < length ms \<Longrightarrow>
   mmio_space (ms ! j) + unat (high (ms ! j)) - unat (low (ms ! j)) + 1 \<le> mmio_space (ms ! k)"
proof (induction ms arbitrary: a j k)
  case (Cons m ms)
  from Cons.prems(1) have m: "mmio_space m = a"
    and r: "areas_from (a + unat (high m) - unat (low m) + 1) ms e" by auto
  obtain k' where k: "k = Suc k'" using Cons.prems(2) by (cases k) auto
  show ?case
  proof (cases j)
    case 0
    then show ?thesis using m areas_from_nth [OF r, of k'] k Cons.prems(3) by simp
  next
    case (Suc j')
    then show ?thesis using Cons.IH [OF r, of j' k'] k Cons.prems(2,3) by simp
  qed
qed simp

text \<open>
  \<open>add_mmio_map\<close> of a nonempty range that does not wrap keeps the
  allocation invariant (at most eight maps, their pool areas consecutive and inside the
  pool), and fails its assertion exactly when the table or the pool is full.
\<close>

lemma add_mmio_map_inv:
  assumes "mmio_inv s" and "0 < len" and "unat addr + len \<le> 2 ^ 32"
  shows "case add_mmio_map addr len c s of
      Inr (b, s') \<Rightarrow> mmio_inv s' \<and> b = mmio_space_free_index s \<and>
        (\<forall>a. is_mmio a s = None \<longrightarrow>
           is_mmio a s' = (if unat addr \<le> unat a \<and> unat a < unat addr + len
                           then Some (length (maps s)) else None))
    | Inl e \<Rightarrow> e = Assert_failed ''add_mmio_map'' \<and>
        (length (maps s) = NR_MAP \<or> MMIO_SPACE_MAX < mmio_space_free_index s + len)"
proof (cases "length (maps s) < NR_MAP \<and> mmio_space_free_index s + len \<le> MMIO_SPACE_MAX")
  case True
  have h: "unat (addr + of_nat len - 1) = unat addr + len - 1"
  proof -
    obtain n where n: "len = Suc n" using assms(2) by (cases len) auto
    have "unat addr + n < 2 ^ 32" using assms(3) n by simp
    then have "unat (addr + of_nat n) = unat addr + n"
      by (simp add: unat_word_ariths unat_of_nat)
    then show ?thesis using n by simp
  qed
  have find: "find_map a i (ms @ [m]) =
      (case find_map a i ms of Some k \<Rightarrow> Some k
       | None \<Rightarrow> if low m \<le> a \<and> a \<le> high m then Some (i + length ms) else None)" for a i ms m
    by (induction ms arbitrary: i) (auto split: option.split)
  show ?thesis
    using True assms h
    by (auto simp: add_mmio_map_def mmio_inv_def Let_def areas_from_snoc word_le_nat_alt
        is_mmio_def find)
next
  case False
  then show ?thesis
    using assms(1) by (auto simp: add_mmio_map_def mmio_inv_def assertE_def)
qed

abbreviation vga_map :: mmio where
  "vga_map \<equiv> \<lparr>mmio_space_pool = \<lambda>_. 0, mmio_space_free_index = 0x20000,
     maps = [\<lparr>low = 0xa0000, high = 0xbffff, mmio_space = 0, callback = Vga_vmem_io_handler\<rparr>],
     line_dirty = \<lambda>_. False, vmem_dirty = False\<rparr>"

lemma add_mmio_map_inv_witness:
  "case add_mmio_map 0xa0000 0x20000 Vga_vmem_io_handler (clear_mmio_map vga_map) of
      Inr (b, s') \<Rightarrow> mmio_inv s' \<and> b = mmio_space_free_index (clear_mmio_map vga_map) \<and>
        (\<forall>a. is_mmio a (clear_mmio_map vga_map) = None \<longrightarrow>
           is_mmio a s' = (if unat (0xa0000 :: u32) \<le> unat a \<and> unat a < unat (0xa0000 :: u32) + 0x20000
                           then Some (length (maps (clear_mmio_map vga_map))) else None))
    | Inl e \<Rightarrow> e = Assert_failed ''add_mmio_map'' \<and>
        (length (maps (clear_mmio_map vga_map)) = NR_MAP \<or>
         MMIO_SPACE_MAX < mmio_space_free_index (clear_mmio_map vga_map) + 0x20000)"
  by (rule add_mmio_map_inv [OF clear_mmio_map_inv]) simp_all

text \<open>
  A device write inside one map is read back from it, truncated to its
  length, and changes no byte of the pool area of any other map.
\<close>

lemma mmio_write_read:
  assumes "mmio_inv s" and "k < length (maps s)" and "len \<in> {1, 2, 4}"
    and "low (maps s ! k) \<le> addr" and "unat addr + len \<le> unat (high (maps s ! k)) + 1"
    and "mmio_space (maps s ! k) + unat (addr - low (maps s ! k)) + 4 \<le> MMIO_SPACE_MAX"
  shows "\<exists>s'. mmio_write addr len d k s = Inr s' \<and>
    (\<exists>s''. mmio_read addr len k s' = Inr (take_bit (8 * len) d, s'')) \<and>
    (\<forall>j < length (maps s). j \<noteq> k \<longrightarrow>
       (\<forall>b. mmio_space (maps s ! j) \<le> b \<and>
            b \<le> mmio_space (maps s ! j) + unat (high (maps s ! j)) - unat (low (maps s ! j)) \<longrightarrow>
            mmio_space_pool s' b = mmio_space_pool s b))"
proof -
  let ?m = "maps s ! k"
  let ?a = "mmio_space ?m + unat (addr - low ?m)"
  have len: "len \<le> 4" "len = 1 \<or> len = 2 \<or> len = 4" using assms(3) by auto
  have sub: "unat (addr - low ?m) = unat addr - unat (low ?m)"
    using assms(4) by (simp add: unat_sub)
  define s' where "s' = run_callback (callback ?m) addr len True
      (s\<lparr>mmio_space_pool := store_bytes (mmio_space_pool s) ?a len d\<rparr>)"
  have w: "mmio_write addr len d k s = Inr s'"
    using assms(2,6) len
    by (simp add: mmio_write_def Let_def memcpy_with_mask_store s'_def)
  have maps': "maps s' = maps s" and pool': "mmio_space_pool s' = store_bytes (mmio_space_pool s) ?a len d"
    by (simp_all add: s'_def)
  have "take_bit (8 * len) (le_read (\<lambda>i. mmio_space_pool s' (?a + i)) 4) =
      le_read (\<lambda>i. mmio_space_pool s' (?a + i)) len"
    using len by (intro bit_word_eqI) (auto simp: bit_take_bit_iff bit_le_read)
  also have "\<dots> = take_bit (8 * len) d"
    unfolding pool' by (rule le_read_store_same)
  finally have r: "\<exists>s''. mmio_read addr len k s' = Inr (take_bit (8 * len) d, s'')"
    using assms(2,6) len by (simp add: mmio_read_def Let_def maps' low_mask)
  have ar: "areas_from 0 (maps s) (mmio_space_free_index s)"
    using assms(1) by (simp add: mmio_inv_def)
  have "b < ?a \<or> ?a + len \<le> b"
    if "j < length (maps s)" "j \<noteq> k" "mmio_space (maps s ! j) \<le> b"
      "b \<le> mmio_space (maps s ! j) + unat (high (maps s ! j)) - unat (low (maps s ! j))" for j b
  proof (cases "j < k")
    case True
    from areas_from_disjoint [OF ar True assms(2)] that(4) show ?thesis by linarith
  next
    case False
    with that(2) have "k < j" by simp
    from areas_from_disjoint [OF ar this that(1)] that(3) assms(4,5) sub
    show ?thesis unfolding word_le_nat_alt by linarith
  qed
  then show ?thesis
    using w r pool' by (intro exI [of _ s']) (auto simp: store_bytes_other)
qed

lemma mmio_write_read_witness:
  "\<exists>s'. mmio_write 0xa0140 2 0x1234 0 vga_map = Inr s' \<and>
    (\<exists>s''. mmio_read 0xa0140 2 0 s' = Inr (take_bit (8 * 2) 0x1234, s'')) \<and>
    (\<forall>j < length (maps vga_map). j \<noteq> 0 \<longrightarrow>
       (\<forall>b. mmio_space (maps vga_map ! j) \<le> b \<and>
            b \<le> mmio_space (maps vga_map ! j) + unat (high (maps vga_map ! j)) -
                 unat (low (maps vga_map ! j)) \<longrightarrow>
            mmio_space_pool s' b = mmio_space_pool vga_map b))"
  by (rule mmio_write_read) (simp_all add: mmio_inv_def)

end
