(* ===== verification/Machine.thy ===== *)
theory Machine
  imports Reg Cache Mmio
begin

text \<open>
  The global variables of the emulator as one record: registers, FPU, memory with its
  cache, TLB, memory-mapped I/O, ports and devices, and the decoder's globals. The C
  library and SDL appear as inputs: \<open>rand_seq\<close> is the sequence \<open>rand()\<close> returns,
  \<open>pending\<close> the events the SDL thread delivers while the CPU waits in \<open>hlt\<close>.
\<close>

section \<open>FPU registers, \<open>nemu/include/cpu/reg_fpu.h\<close>\<close>

record FPU =
  regStack :: "nat \<Rightarrow> u32"
  status :: u16
  control :: u16

section \<open>Translation lookaside buffer, \<open>nemu/src/memory/mmu/tlb.c\<close>\<close>

text \<open>\<open>make_tlb(&tlb, 6)\<close>: 64 entries.\<close>

record TLB =
  tlb_size :: nat
  tlb_size_width :: nat
  tlb_key :: "nat \<Rightarrow> u32"
  tlb_pte :: "nat \<Rightarrow> u32"

section \<open>Devices\<close>

record IDE =
  disk_idx :: u32
  sector :: u32
  byte_cnt :: u32
  ide_write :: bool
  disk :: "u8 list"
  disk_pos :: nat

text \<open>
  \<open>palette\<close> as its bytes, four per colour; \<open>color_ptr\<close> as an offset into it, null
  before the first index write.
\<close>

record VGA =
  vga_crtc_regs :: "nat \<Rightarrow> u8"
  palette :: "nat \<Rightarrow> u8"
  color_ptr :: "nat option"
  vmem_base :: nat
  pixel_buf :: "nat \<Rightarrow> nat \<Rightarrow> u8"

datatype sdl_event = SDL_tick | SDL_KEYDOWN u32 | SDL_KEYUP u32 | SDL_QUIT

section \<open>Operands, \<open>nemu/include/cpu/operand.h\<close>\<close>

datatype opr_type = OPR_IMM | OPR_REG | OPR_MEM | OPR_CREG | OPR_SREG

record MEM_ADDR =
  ma_disp :: u32
  ma_base :: u32
  ma_index :: u32
  ma_scale :: u32

record OPERAND =
  otype :: opr_type
  oaddr :: u32
  osreg :: nat
  oval :: u32
  osize :: nat
  omem_addr :: MEM_ADDR

text \<open>
  Local operands of the C code start uninitialised; every field the code reads is
  assigned before, so the model starts them all from one fixed value.
\<close>

definition OPERAND_0 :: OPERAND where
  "OPERAND_0 = \<lparr>otype = OPR_IMM, oaddr = 0, osreg = 0, oval = 0, osize = 0,
     omem_addr = \<lparr>ma_disp = 0, ma_base = 0, ma_index = 0, ma_scale = 0\<rparr>\<rparr>"

section \<open>The machine\<close>

datatype nemu_state_t = NEMU_STOP | NEMU_RUN | NEMU_READY | NEMU_BREAK

record mach =
  cpu :: CPU_STATE
  fpu :: FPU
  mem :: cmem
  mmio_st :: mmio
  tlb :: TLB
  rand_seq :: "nat \<Rightarrow> u32"
  rand_pos :: nat
  io_port :: "nat \<Rightarrow> u8"
  pic_intr_no :: u8
  scan_code_buf :: u8
  ide :: IDE
  vga :: VGA
  serial_out :: "u8 list"
  opr_src :: OPERAND
  opr_dest :: OPERAND
  data_size :: nat
  nemu_state :: nemu_state_t
  verbose :: bool
  pending :: "sdl_event list"

section \<open>Updates of nested components\<close>

definition upd_cpu :: "(CPU_STATE \<Rightarrow> CPU_STATE) \<Rightarrow> mach \<Rightarrow> mach" where
  "upd_cpu f s = s\<lparr>cpu := f (cpu s)\<rparr>"

abbreviation fl :: "mach \<Rightarrow> u32" where "fl s \<equiv> eflags (cpu s)"

definition set_fl :: "u32 \<Rightarrow> mach \<Rightarrow> mach" where
  "set_fl w s = s\<lparr>cpu := (cpu s)\<lparr>eflags := w\<rparr>\<rparr>"

definition set_eip :: "u32 \<Rightarrow> mach \<Rightarrow> mach" where
  "set_eip w s = s\<lparr>cpu := (cpu s)\<lparr>eip := w\<rparr>\<rparr>"

definition reg :: "nat \<Rightarrow> mach \<Rightarrow> u32" where
  "reg r s = gpr (cpu s) r"

definition set_reg :: "nat \<Rightarrow> u32 \<Rightarrow> mach \<Rightarrow> mach" where
  "set_reg r w s = s\<lparr>cpu := set_gpr r w (cpu s)\<rparr>"

definition sreg_val :: "nat \<Rightarrow> mach \<Rightarrow> u16" where
  "sreg_val r s = sr_val (segReg (cpu s) r)"

definition upd_sreg :: "nat \<Rightarrow> (SegReg \<Rightarrow> SegReg) \<Rightarrow> mach \<Rightarrow> mach" where
  "upd_sreg r f s = s\<lparr>cpu := (cpu s)\<lparr>segReg := (segReg (cpu s))(r := f (segReg (cpu s) r))\<rparr>\<rparr>"

lemma reg_set_reg [simp]: "reg r (set_reg r' w s) = (if r = r' then w else reg r s)"
  by (simp add: reg_def set_reg_def set_gpr_def)

lemma fl_set_fl [simp]: "fl (set_fl w s) = w"
  by (simp add: set_fl_def)

lemma reg_set_fl [simp]: "reg r (set_fl w s) = reg r s"
  by (simp add: reg_def set_fl_def)

lemma fl_set_reg [simp]: "fl (set_reg r w s) = fl s"
  by (simp add: set_reg_def set_gpr_def)

section \<open>The machine before initialisation\<close>

text \<open>Static storage: every byte zero, no device map, no interrupt pending.\<close>

definition zero_CPU :: CPU_STATE where
  "zero_CPU = \<lparr>gpr = \<lambda>_. 0, eip = 0, eflags = 0, gdtr_limit = 0, gdtr_base = 0,
     idtr_limit = 0, idtr_base = 0,
     segReg = \<lambda>_. \<lparr>sr_val = 0, sr_base = 0, sr_limit = 0, sr_type = 0,
       sr_privilege_level = 0, sr_soft_use = 0\<rparr>,
     cr0 = 0, cr3 = 0, intr = 0\<rparr>"

definition zero_mach :: mach where
  "zero_mach = \<lparr>cpu = zero_CPU, fpu = \<lparr>regStack = \<lambda>_. 0, status = 0, control = 0\<rparr>,
     mem = \<lparr>hw_mem = \<lambda>_. 0, L1_dcache = \<lambda>_. \<lparr>valid_bit = 0, tag = 0, data = \<lambda>_. 0\<rparr>\<rparr>,
     mmio_st = \<lparr>mmio_space_pool = \<lambda>_. 0, mmio_space_free_index = 0, maps = [],
       line_dirty = \<lambda>_. False, vmem_dirty = False\<rparr>,
     tlb = \<lparr>tlb_size = 0, tlb_size_width = 0, tlb_key = \<lambda>_. 0, tlb_pte = \<lambda>_. 0\<rparr>,
     rand_seq = \<lambda>_. 0, rand_pos = 0, io_port = \<lambda>_. 0, pic_intr_no = 0xff, scan_code_buf = 0,
     ide = \<lparr>disk_idx = 0, sector = 0, byte_cnt = 0, ide_write = False, disk = [], disk_pos = 0\<rparr>,
     vga = \<lparr>vga_crtc_regs = \<lambda>_. 0, palette = \<lambda>_. 0, color_ptr = None, vmem_base = 0,
       pixel_buf = \<lambda>_ _. 0\<rparr>,
     serial_out = [], opr_src = OPERAND_0, opr_dest = OPERAND_0, data_size = 0,
     nemu_state = NEMU_STOP, verbose = False, pending = []\<rparr>"

end
