(* ===== verification/Fpu.thy ===== *)
theory Fpu
  imports Machine
begin

text \<open>
  The FPU emulation of \<open>nemu/src/cpu/fpu.c\<close>: addition, subtraction, multiplication and
  division of single precision numbers on their bit patterns, and the register stack.
  The language's own operations on \<open>float\<close> and \<open>double\<close> are the IEEE 754 ones, rounding
  to nearest with ties to even, written as functions of the bit patterns.
\<close>

section \<open>The union \<open>FLOAT\<close>\<close>

definition f_fraction :: "u32 \<Rightarrow> u32" where "f_fraction v = field 0 23 v"
definition f_exponent :: "u32 \<Rightarrow> u32" where "f_exponent v = field 23 8 v"
definition f_sign :: "u32 \<Rightarrow> u32" where "f_sign v = field 31 1 v"

definition mk_float :: "u32 \<Rightarrow> u32 \<Rightarrow> u32 \<Rightarrow> u32" where
  "mk_float sign exponent fraction =
     push_bit 31 (sign AND 1) OR push_bit 23 (exponent AND mask 8) OR (fraction AND mask 23)"

abbreviation (input) "P_ZERO_F \<equiv> 0x0 :: u32"
abbreviation (input) "N_ZERO_F \<equiv> 0x80000000 :: u32"
abbreviation (input) "P_INF_F \<equiv> 0x7f800000 :: u32"
abbreviation (input) "N_INF_F \<equiv> 0xff800000 :: u32"
abbreviation (input) "P_NAN_F \<equiv> 0x7fc00000 :: u32"
abbreviation (input) "N_NAN_F \<equiv> 0xffc00000 :: u32"

section \<open>Normalisation and rounding\<close>

text \<open>
  One right shift that keeps the bits shifted out in the lowest bit: the body of the loops
  with \<open>sticky\<close>. Once set, \<open>sticky\<close> stays set.
\<close>

definition shr_sticky :: "u64 \<times> u64 \<Rightarrow> u64 \<times> u64" where
  "shr_sticky = (\<lambda>(sticky, sig). let st = sticky OR (sig AND 1) in (st, drop_bit 1 sig OR st))"

text \<open>
  The loops of \<open>internal_normalize\<close>. Each ends after at most 1000 rounds for the exponents its
  callers give, or the model reports \<open>Out_of_fuel\<close>.
\<close>

fun norm_right :: "nat \<Rightarrow> int \<Rightarrow> u64 \<times> u64 \<Rightarrow> (int \<times> u64 \<times> u64) res" where
  "norm_right fuel e ss =
     (if (drop_bit 26 (snd ss) > 1 \<and> e < 0xff) \<or> (snd ss > 4 \<and> e < 0) then
        (case fuel of 0 \<Rightarrow> Inl Out_of_fuel
         | Suc fuel' \<Rightarrow> norm_right fuel' (e + 1) (shr_sticky ss))
      else Inr (e, ss))"

fun norm_left :: "nat \<Rightarrow> int \<Rightarrow> u64 \<Rightarrow> (int \<times> u64) res" where
  "norm_left fuel e sig =
     (if drop_bit 26 sig = 0 \<and> e > 0 then
        (case fuel of 0 \<Rightarrow> Inl Out_of_fuel
         | Suc fuel' \<Rightarrow> norm_left fuel' (e - 1) (push_bit 1 sig))
      else Inr (e, sig))"

fun norm_carry :: "nat \<Rightarrow> int \<Rightarrow> u64 \<Rightarrow> (int \<times> u64) res" where
  "norm_carry fuel e sig =
     (if drop_bit 23 sig > 1 \<and> e < 0xff then
        (case fuel of 0 \<Rightarrow> Inl Out_of_fuel
         | Suc fuel' \<Rightarrow> norm_carry fuel' (e + 1) (drop_bit 1 sig))
      else Inr (e, sig))"

declare norm_right.simps [simp del] norm_left.simps [simp del] norm_carry.simps [simp del]

abbreviation (input) "norm_fuel \<equiv> 1000 :: nat"

text \<open>The first \<open>if\<close> of the function; the Boolean is \<open>overflow\<close>.\<close>

definition norm_shift :: "int \<Rightarrow> u64 \<Rightarrow> (bool \<times> int \<times> u64) res" where
  "norm_shift e sig =
     (if drop_bit 26 sig > 1 \<or> e < 0 then
        bindE (norm_right norm_fuel e (0, sig)) (\<lambda>(e, st, sig).
          let (ovf, e, sig) = (if e \<ge> 0xff then (True, 0xff, 0) else (False, e, sig));
              sig = (if e = 0 then snd (shr_sticky (st, sig)) else sig);
              (ovf, e, sig) = (if e < 0 then (True, 0, 0) else (ovf, e, sig)) in
          Inr (ovf, e, sig))
      else if drop_bit 26 sig = 0 \<and> e > 0 then
        bindE (norm_left norm_fuel e sig) (\<lambda>(e, sig).
          Inr (False, e, if e = 0 then snd (shr_sticky (0, sig)) else sig))
      else if e = 0 \<and> drop_bit 26 sig = 1 then Inr (False, e + 1, sig)
      else Inr (False, e, sig))"

text \<open>Rounding to nearest, ties to even, removing the three low bits.\<close>

definition round_grs :: "u64 \<Rightarrow> u64" where
  "round_grs sig =
     (if sig AND 7 > 4 then drop_bit 3 sig + 1
      else if sig AND 7 < 4 then drop_bit 3 sig
      else if sig AND 8 = 0 then drop_bit 3 sig
      else drop_bit 3 sig + 1)"

definition norm_round :: "int \<Rightarrow> u64 \<Rightarrow> (int \<times> u64) res" where
  "norm_round e sig =
     (let sig = round_grs sig in
      if drop_bit 23 sig > 1 then
        bindE (norm_carry norm_fuel e sig) (\<lambda>(e, sig).
          let (e, sig) = (if e \<ge> 0xff then (0xff, 0) else (e, sig));
              sig = (if e = 0 then drop_bit 1 sig else sig) in
          Inr (if e < 0 then (0, 0) else (e, sig)))
      else Inr (e, sig))"

definition internal_normalize :: "u32 \<Rightarrow> int \<Rightarrow> u64 \<Rightarrow> u32 res" where
  "internal_normalize sign e sig_grs =
     bindE (norm_shift e sig_grs) (\<lambda>(ovf, e, sig).
     bindE (if ovf then Inr (e, sig) else norm_round e sig) (\<lambda>(e, sig).
       Inr (mk_float sign (of_int e) (ucast sig))))"

section \<open>Addition and subtraction\<close>

type_synonym corner_case_rule = "(u32 \<times> u32) \<times> u32"

definition corner_add :: "corner_case_rule list" where
  "corner_add =
    [((P_ZERO_F, P_ZERO_F), P_ZERO_F),
     ((N_ZERO_F, P_ZERO_F), P_ZERO_F),
     ((P_ZERO_F, N_ZERO_F), P_ZERO_F),
     ((N_ZERO_F, N_ZERO_F), N_ZERO_F),
     ((P_INF_F, N_INF_F), N_NAN_F),
     ((N_INF_F, P_INF_F), N_NAN_F),
     ((P_INF_F, P_NAN_F), P_NAN_F),
     ((P_INF_F, N_NAN_F), N_NAN_F),
     ((N_INF_F, P_NAN_F), P_NAN_F),
     ((N_INF_F, N_NAN_F), N_NAN_F),
     ((N_NAN_F, P_NAN_F), P_NAN_F)]"

text \<open>The significand with the hidden 1.\<close>

definition f_sig :: "u32 \<Rightarrow> u32" where
  "f_sig v = (if f_exponent v \<noteq> 0 then f_fraction v OR 0x800000 else f_fraction v)"

text \<open>\<open>fa.exponent == 0 ? fa.exponent + 1 : fa.exponent\<close>.\<close>

definition f_exp1 :: "u32 \<Rightarrow> u32" where
  "f_exp1 v = (if f_exponent v = 0 then 1 else f_exponent v)"

definition shr_sticky32 :: "u32 \<times> u32 \<Rightarrow> u32 \<times> u32" where
  "shr_sticky32 = (\<lambda>(sticky, sig). let st = sticky OR (sig AND 1) in (st, drop_bit 1 sig OR st))"

definition neg_if :: "u32 \<Rightarrow> u32 \<Rightarrow> u32" where
  "neg_if sign sig = (if sign \<noteq> 0 then sig * (- 1) else sig)"

definition add_core :: "u32 \<Rightarrow> u32 \<Rightarrow> u32 res" where
  "add_core a b =
     (let (fa, fb) = (if f_exponent a > f_exponent b then (b, a) else (a, b));
          shift = f_exp1 fb - f_exp1 fa;
          sig_a = snd ((shr_sticky32 ^^ unat shift) (0, push_bit 3 (f_sig fa)));
          sig_b = push_bit 3 (f_sig fb);
          sig_res = neg_if (f_sign fa) sig_a + neg_if (f_sign fb) sig_b;
          (sign, sig_res) = (if bit sig_res 31 then (1, sig_res * (- 1)) else (0, sig_res)) in
      internal_normalize sign (uint (f_exponent fb)) (ucast sig_res))"

definition internal_float_add :: "u32 \<Rightarrow> u32 \<Rightarrow> u32 res" where
  "internal_float_add b a =
     (case map_of corner_add (a, b) of
        Some r \<Rightarrow> Inr r
      | None \<Rightarrow>
          if a = P_ZERO_F \<or> a = N_ZERO_F then Inr b
          else if b = P_ZERO_F \<or> b = N_ZERO_F then Inr a
          else if f_exponent a = 0xff then Inr a
          else if f_exponent b = 0xff then Inr b
          else add_core a b)"

definition corner_sub :: "corner_case_rule list" where
  "corner_sub =
    [((P_ZERO_F, P_ZERO_F), P_ZERO_F),
     ((N_ZERO_F, P_ZERO_F), N_ZERO_F),
     ((P_ZERO_F, N_ZERO_F), P_ZERO_F),
     ((N_ZERO_F, N_ZERO_F), P_ZERO_F),
     ((P_NAN_F, P_NAN_F), P_NAN_F),
     ((N_NAN_F, P_NAN_F), P_NAN_F),
     ((P_NAN_F, N_NAN_F), P_NAN_F),
     ((N_NAN_F, N_NAN_F), N_NAN_F)]"

definition internal_float_sub :: "u32 \<Rightarrow> u32 \<Rightarrow> u32 res" where
  "internal_float_sub b a =
     (case map_of corner_sub (a, b) of
        Some r \<Rightarrow> Inr r
      | None \<Rightarrow>
          if a = P_NAN_F \<or> a = N_NAN_F then Inr a
          else if b = P_NAN_F \<or> b = N_NAN_F then Inr b
          else internal_float_add (b XOR N_ZERO_F) a)"

section \<open>Multiplication and division\<close>

definition corner_mul :: "corner_case_rule list" where
  "corner_mul =
    [((P_ZERO_F, P_INF_F), N_NAN_F),
     ((P_ZERO_F, N_INF_F), N_NAN_F),
     ((N_ZERO_F, P_INF_F), N_NAN_F),
     ((N_ZERO_F, N_INF_F), N_NAN_F),
     ((P_INF_F, P_ZERO_F), N_NAN_F),
     ((P_INF_F, N_ZERO_F), N_NAN_F),
     ((N_INF_F, P_ZERO_F), N_NAN_F),
     ((N_INF_F, N_ZERO_F), N_NAN_F)]"

definition is_zero_f :: "u32 \<Rightarrow> bool" where "is_zero_f v = (v = P_ZERO_F \<or> v = N_ZERO_F)"
definition is_inf_f :: "u32 \<Rightarrow> bool" where "is_inf_f v = (v = P_INF_F \<or> v = N_INF_F)"
definition is_nan_f :: "u32 \<Rightarrow> bool" where "is_nan_f v = (v = P_NAN_F \<or> v = N_NAN_F)"

definition mul_core :: "u32 \<Rightarrow> u32 \<Rightarrow> u32 res" where
  "mul_core a b =
     (let sig_res = ucast (f_sig a) * ucast (f_sig b);
          exp_res = f_exp1 a + f_exp1 b - 127 - 20 in
      internal_normalize (f_sign a XOR f_sign b) (sint exp_res) sig_res)"

definition internal_float_mul :: "u32 \<Rightarrow> u32 \<Rightarrow> u32 res" where
  "internal_float_mul b a =
     (case map_of corner_mul (a, b) of
        Some r \<Rightarrow> Inr r
      | None \<Rightarrow>
          let neg = f_sign a XOR f_sign b \<noteq> 0 in
          if is_nan_f a \<or> is_nan_f b then
            Inr (if a = P_NAN_F \<or> b = P_NAN_F then P_NAN_F else N_NAN_F)
          else if is_zero_f a then Inr (if neg then N_ZERO_F else P_ZERO_F)
          else if is_zero_f b then Inr (if neg then N_ZERO_F else P_ZERO_F)
          else if is_inf_f a then Inr (if neg then N_INF_F else P_INF_F)
          else if is_inf_f b then Inr (if neg then N_INF_F else P_INF_F)
          else mul_core a b)"

definition corner_div :: "corner_case_rule list" where
  "corner_div =
    [((P_ZERO_F, P_ZERO_F), N_NAN_F),
     ((N_ZERO_F, P_ZERO_F), N_NAN_F),
     ((P_ZERO_F, N_ZERO_F), N_NAN_F),
     ((N_ZERO_F, N_ZERO_F), N_NAN_F),
     ((P_INF_F, P_ZERO_F), P_INF_F),
     ((N_INF_F, P_ZERO_F), N_INF_F),
     ((P_INF_F, N_ZERO_F), N_INF_F),
     ((N_INF_F, N_ZERO_F), P_INF_F),
     ((P_INF_F, P_INF_F), N_NAN_F),
     ((N_INF_F, P_INF_F), N_NAN_F),
     ((P_INF_F, N_INF_F), N_NAN_F),
     ((N_INF_F, N_INF_F), N_NAN_F)]"

text \<open>
  The two shifting loops of the division count the positions; a zero significand, which the
  callers exclude, would not end.
\<close>

fun shl_to_top :: "nat \<Rightarrow> u64 \<Rightarrow> nat \<Rightarrow> (u64 \<times> nat) res" where
  "shl_to_top fuel sig shift =
     (if drop_bit 63 sig = 0 then
        (case fuel of 0 \<Rightarrow> Inl Out_of_fuel
         | Suc fuel' \<Rightarrow> shl_to_top fuel' (push_bit 1 sig) (shift + 1))
      else Inr (sig, shift))"

fun shr_to_odd :: "nat \<Rightarrow> u64 \<Rightarrow> nat \<Rightarrow> (u64 \<times> nat) res" where
  "shr_to_odd fuel sig shift =
     (if sig AND 1 = 0 then
        (case fuel of 0 \<Rightarrow> Inl Out_of_fuel
         | Suc fuel' \<Rightarrow> shr_to_odd fuel' (drop_bit 1 sig) (shift + 1))
      else Inr (sig, shift))"

declare shl_to_top.simps [simp del] shr_to_odd.simps [simp del]

definition div_core :: "u32 \<Rightarrow> u32 \<Rightarrow> u32 res" where
  "div_core a b =
     bindE (shl_to_top 64 (ucast (f_sig a)) 0) (\<lambda>(sig_a, shift).
     bindE (shr_to_odd 64 (ucast (f_sig b)) shift) (\<lambda>(sig_b, shift).
       internal_normalize (f_sign a XOR f_sign b)
         (uint (f_exp1 a) - uint (f_exp1 b) + 127 - (int shift - 23 - 3)) (sig_a div sig_b)))"

definition internal_float_div :: "u32 \<Rightarrow> u32 \<Rightarrow> u32 res" where
  "internal_float_div b a =
     (case map_of corner_div (a, b) of
        Some r \<Rightarrow> Inr r
      | None \<Rightarrow>
          let neg = f_sign a XOR f_sign b \<noteq> 0 in
          if is_nan_f a \<or> is_nan_f b then
            Inr (if a = P_NAN_F \<or> b = P_NAN_F then P_NAN_F else N_NAN_F)
          else if is_inf_f a then Inr (if neg then N_INF_F else P_INF_F)
          else if is_zero_f b then Inr (if neg then N_INF_F else P_INF_F)
          else if is_zero_f a then
            Inr (mk_float (f_sign a XOR f_sign b) (f_exponent a) (f_fraction a))
          else if is_inf_f b then Inr (if neg then N_ZERO_F else P_ZERO_F)
          else div_core a b)"

section \<open>Operations of the language on \<open>float\<close> and \<open>double\<close>\<close>

text \<open>\<open>rne x n\<close>: \<open>x / 2\<^sup>n\<close> rounded to the nearest integer, ties to even.\<close>

definition rne :: "nat \<Rightarrow> nat \<Rightarrow> nat" where
  "rne x n = (let q = x div 2 ^ n; r = x mod 2 ^ n in
     if 2 * r > 2 ^ n \<or> (2 * r = 2 ^ n \<and> odd q) then q + 1 else q)"

fun bit_len :: "nat \<Rightarrow> nat" where
  "bit_len n = (if n = 0 then 0 else Suc (bit_len (n div 2)))"

declare bit_len.simps [simp del]

text \<open>
  The number \<open>m * 2\<^sup>e\<close> rounded to single precision: \<open>q\<close> is the exponent of its last place,
  at least that of a denormal, and a result of more than 24 bits carries into the exponent.
\<close>

definition round_float :: "bool \<Rightarrow> nat \<Rightarrow> int \<Rightarrow> u32" where
  "round_float neg m e =
     (let q = max (e + int (bit_len m) - 24) (- 149);
          mant = (if q \<le> e then m * 2 ^ nat (e - q) else rne m (nat (q - e)));
          w = (q + 149) * 2 ^ 23 + int mant in
      (if neg then N_ZERO_F else 0) OR
      (if m = 0 then 0 else of_int (min w (uint P_INF_F))))"

definition isnan_f :: "u32 \<Rightarrow> bool" where
  "isnan_f v = (f_exponent v = 0xff \<and> f_fraction v \<noteq> 0)"

text \<open>The order of the floats that are not NaN, as integers; both zeros are 0.\<close>

definition f_key :: "u32 \<Rightarrow> int" where
  "f_key v = (if f_sign v \<noteq> 0 then - uint (field 0 31 v) else uint (field 0 31 v))"

definition f_less :: "u32 \<Rightarrow> u32 \<Rightarrow> bool" where
  "f_less a b = (\<not> isnan_f a \<and> \<not> isnan_f b \<and> f_key a < f_key b)"

text \<open>\<open>f2u((float) (int) v)\<close>, \<open>f2u((float) d)\<close>, \<open>(double) u2f(v)\<close> and \<open>(int) u2f(v)\<close>.\<close>

definition int_to_float :: "u32 \<Rightarrow> u32" where
  "int_to_float v = round_float (sint v < 0) (nat \<bar>sint v\<bar>) 0"

definition double_to_float :: "u64 \<Rightarrow> u32" where
  "double_to_float d =
     (let neg = bit d 63; ex = uint (field 52 11 d); fr = field 0 52 d;
          top = (if neg then N_ZERO_F else 0) in
      if ex = 0x7ff then
        (if fr = 0 then top OR P_INF_F else top OR P_NAN_F OR ucast (drop_bit 29 fr))
      else if ex = 0 then round_float neg (unat fr) (- 1074)
      else round_float neg (unat fr + 2 ^ 52) (ex - 1075))"

definition float_to_double :: "u32 \<Rightarrow> u64" where
  "float_to_double v =
     (let top = push_bit 63 (ucast (f_sign v)); ex = uint (f_exponent v); fr = unat (f_fraction v);
          n = bit_len fr in
      if ex = 0xff then
        top OR push_bit 52 (mask 11) OR push_bit 29 (ucast (f_fraction v)) OR
        (if fr = 0 then 0 else push_bit 51 1)
      else if ex \<noteq> 0 then top OR of_int ((ex - 127 + 1023) * 2 ^ 52 + int fr * 2 ^ 29)
      else if fr = 0 then top
      else top OR of_int ((int n - 150 + 1023) * 2 ^ 52 + (int fr - 2 ^ (n - 1)) * 2 ^ (53 - n)))"

definition float_to_int :: "u32 \<Rightarrow> u32 res" where
  "float_to_int v =
     (let ex = uint (f_exponent v) - 150; m = unat (f_sig v);
          k = int (if ex \<ge> 0 then m * 2 ^ nat ex else m div 2 ^ nat (- ex));
          k = (if f_sign v \<noteq> 0 then - k else k) in
      definedE ''float_to_int'' (f_exponent v \<noteq> 0xff \<and> - (2 ^ 31) \<le> k \<and> k < 2 ^ 31) (Inr (of_int k)))"

section \<open>The register stack\<close>

abbreviation upd_fpu :: "(FPU \<Rightarrow> FPU) \<Rightarrow> mach \<Rightarrow> mach" where
  "upd_fpu f s \<equiv> s\<lparr>fpu := f (fpu s)\<rparr>"

definition st_top :: "FPU \<Rightarrow> nat" where "st_top f = unat (field 11 3 (status f))"

definition set_top :: "nat \<Rightarrow> FPU \<Rightarrow> FPU" where
  "set_top t f = f\<lparr>status := (status f AND NOT (push_bit 11 (mask 3))) OR
                             push_bit 11 (of_nat t AND mask 3)\<rparr>"

text \<open>\<open>ST(i)\<close>, counted from the top of the stack.\<close>

definition st_reg :: "nat \<Rightarrow> FPU \<Rightarrow> u32" where
  "st_reg i f = regStack f ((st_top f + i) mod 8)"

definition set_st_reg :: "nat \<Rightarrow> u32 \<Rightarrow> FPU \<Rightarrow> FPU" where
  "set_st_reg i v f = f\<lparr>regStack := (regStack f)((st_top f + i) mod 8 := v)\<rparr>"

definition fpu_load :: "u32 \<Rightarrow> FPU \<Rightarrow> FPU" where
  "fpu_load v f =
     (let f = set_top (if st_top f = 0 then 7 else st_top f - 1) f in
      f\<lparr>regStack := (regStack f)(st_top f := v)\<rparr>)"

definition fpu_store :: "FPU \<Rightarrow> u32 \<times> FPU" where
  "fpu_store f = (regStack f (st_top f), set_top ((st_top f + 1) mod 8) f)"

definition fpu_peek :: "FPU \<Rightarrow> u32" where "fpu_peek f = regStack f (st_top f)"

definition fpu_add :: "u32 \<Rightarrow> FPU \<Rightarrow> FPU res" where
  "fpu_add v f = bindE (internal_float_add v (st_reg 0 f)) (\<lambda>r. Inr (set_st_reg 0 r f))"

definition fpu_add_idx :: "nat \<Rightarrow> nat \<Rightarrow> FPU \<Rightarrow> FPU res" where
  "fpu_add_idx idx store_idx f =
     bindE (internal_float_add (st_reg idx f) (st_reg 0 f)) (\<lambda>r. Inr (set_st_reg store_idx r f))"

definition fpu_sub :: "u32 \<Rightarrow> FPU \<Rightarrow> FPU res" where
  "fpu_sub v f = bindE (internal_float_sub v (st_reg 0 f)) (\<lambda>r. Inr (set_st_reg 0 r f))"

definition fpu_mul :: "u32 \<Rightarrow> FPU \<Rightarrow> FPU res" where
  "fpu_mul v f = bindE (internal_float_mul v (st_reg 0 f)) (\<lambda>r. Inr (set_st_reg 0 r f))"

definition fpu_mul_idx :: "nat \<Rightarrow> nat \<Rightarrow> FPU \<Rightarrow> FPU res" where
  "fpu_mul_idx idx store_idx f =
     bindE (internal_float_mul (st_reg idx f) (st_reg 0 f)) (\<lambda>r. Inr (set_st_reg store_idx r f))"

definition fpu_div :: "u32 \<Rightarrow> FPU \<Rightarrow> FPU res" where
  "fpu_div v f = bindE (internal_float_div v (st_reg 0 f)) (\<lambda>r. Inr (set_st_reg 0 r f))"

definition fpu_xch :: "nat \<Rightarrow> FPU \<Rightarrow> FPU" where
  "fpu_xch idx f = (let temp = st_reg 0 f in set_st_reg idx temp (set_st_reg 0 (st_reg idx f) f))"

definition fpu_copy :: "nat \<Rightarrow> FPU \<Rightarrow> FPU" where
  "fpu_copy idx f = set_st_reg idx (st_reg 0 f) f"

definition set_c023 :: "bool \<Rightarrow> bool \<Rightarrow> bool \<Rightarrow> FPU \<Rightarrow> FPU" where
  "set_c023 c0 c2 c3 f = f\<lparr>status := put_bit 8 c0 (put_bit 10 c2 (put_bit 14 c3 (status f)))\<rparr>"

definition fpu_cmp :: "nat \<Rightarrow> FPU \<Rightarrow> FPU" where
  "fpu_cmp idx f =
     (let a = st_reg 0 f; b = st_reg idx f in
      if f_less b a then set_c023 False False False f
      else if f_less a b then set_c023 True False False f
      else set_c023 False False True f)"

definition fpu_cmpi :: "nat \<Rightarrow> mach \<Rightarrow> mach" where
  "fpu_cmpi idx s =
     (let a = st_reg 0 (fpu s); b = st_reg idx (fpu s) in
      if f_less b a then set_fl (put_ZF False (put_PF False (put_CF False (fl s)))) s
      else if f_less a b then set_fl (put_CF True (put_ZF False (put_PF False (fl s)))) s
      else set_fl (put_ZF True (put_CF False (put_PF False (fl s)))) s)"

end
