(* ===== verification/FpuRound.thy ===== *)
theory FpuRound
  imports Fpu
begin

text \<open>
  Rounding in the FPU. The specification is \<open>round_float\<close>, the nearest single precision number
  with ties to even. The shifts with a sticky bit are rounding to odd, \<open>rto\<close>, which keeps what
  every later rounding to nearest sees.
\<close>

section \<open>Rounding to odd\<close>

definition rto :: "nat \<Rightarrow> nat" where
  "rto m = (if odd m \<and> even (m div 2) then m div 2 + 1 else m div 2)"

lemma rto_double [simp]: "rto (2 * m) = m"
  by (simp add: rto_def)

lemma rto_add:
  assumes "even c"
  shows "rto (x + 2 * c) = c + rto x"
  using assms by (auto simp: rto_def)

lemma rto_diff:
  assumes "even c" and "x \<le> 2 * c"
  shows "rto (2 * c - x) = c - rto x"
proof (cases "even x")
  case True
  then obtain k where "x = 2 * k" by blast
  moreover then have "2 * c - x = 2 * (c - k)" by simp
  ultimately show ?thesis by (simp del: diff_mult_distrib2)
next
  case False
  then obtain k where x: "x = 2 * k + 1" by (rule oddE)
  then have "2 * c - x = 2 * (c - k - 1) + 1" using assms(2) by simp
  moreover have "k < c" using x assms(2) by simp
  ultimately show ?thesis using assms(1) x by (auto simp: rto_def)
qed

lemma rto_less: "m < 2 * c \<Longrightarrow> even c \<Longrightarrow> rto m < c"
  unfolding rto_def by presburger

lemma rto_ge: "m div 2 \<le> rto m"
  by (simp add: rto_def)

abbreviation rtos :: "nat \<Rightarrow> nat \<Rightarrow> nat" where "rtos d \<equiv> rto ^^ d"

lemma rtos_exact: "rtos d (m * 2 ^ d) = m"
proof (induction d arbitrary: m)
  case (Suc d)
  have "rtos (Suc d) (m * 2 ^ Suc d) = rtos d (rto (2 * (m * 2 ^ d)))"
    by (simp add: funpow_swap1 mult.left_commute)
  then show ?case using Suc by simp
qed simp

lemma rtos_add:
  assumes "even c"
  shows "rtos d (x + c * 2 ^ d) = c + rtos d x"
  using assms
proof (induction d arbitrary: x)
  case (Suc d)
  have "rtos (Suc d) (x + c * 2 ^ Suc d) = rtos d (rto (x + 2 * (c * 2 ^ d)))"
    by (simp add: funpow_swap1 mult.left_commute)
  also have "\<dots> = rtos d (rto x + c * 2 ^ d)"
    using Suc.prems by (subst rto_add) (simp_all add: add.commute)
  also have "\<dots> = c + rtos d (rto x)" by (rule Suc)  (rule Suc.prems)
  finally show ?case by (simp add: funpow_swap1)
qed simp

lemma rtos_diff:
  assumes "even c" and "x \<le> c * 2 ^ d"
  shows "rtos d (c * 2 ^ d - x) = c - rtos d x"
  using assms
proof (induction d arbitrary: x)
  case (Suc d)
  have x: "x \<le> 2 * (c * 2 ^ d)" using Suc.prems(2) by (simp add: mult.left_commute)
  then have "rto x \<le> c * 2 ^ d"
    using Suc.prems(1) by (auto simp: rto_def elim!: evenE oddE)
  have "rtos (Suc d) (c * 2 ^ Suc d - x) = rtos d (rto (2 * (c * 2 ^ d) - x))"
    by (simp add: funpow_swap1 mult.left_commute)
  also have "\<dots> = rtos d (c * 2 ^ d - rto x)"
    using Suc.prems(1) x by (subst rto_diff) simp_all
  also have "\<dots> = c - rtos d (rto x)" by (rule Suc.IH [OF Suc.prems(1)]) fact
  finally show ?case by (simp add: funpow_swap1)
qed simp

lemma rtos_less: "y < c * 2 ^ d \<Longrightarrow> even c \<Longrightarrow> rtos d y < c"
proof (induction d arbitrary: y)
  case (Suc d)
  then have "rto y < c * 2 ^ d" by (intro rto_less) simp_all
  then show ?case using Suc by (simp add: funpow_swap1)
qed simp

lemma rtos_ge: "c * 2 ^ d \<le> y \<Longrightarrow> c \<le> rtos d y"
proof (induction d arbitrary: y)
  case (Suc d)
  then have "c * 2 ^ d \<le> y div 2" by (simp add: less_eq_div_iff_mult_less_eq mult.commute mult.left_commute)
  then have "c * 2 ^ d \<le> rto y" using rto_ge le_trans by blast
  then show ?case using Suc by (simp add: funpow_swap1)
qed simp

lemma rtos_bounds:
  assumes "0 < a" and "2 ^ (a + d) \<le> m" and "m < 2 ^ (Suc a + d)"
  shows "2 ^ a \<le> rtos d m \<and> rtos d m < 2 ^ Suc a"
  using rtos_ge [of "2 ^ a" d m] rtos_less [of m "2 ^ Suc a" d] assms by (simp add: power_add)

section \<open>Rounding to nearest after rounding to odd\<close>

lemma rne_rto:
  assumes "2 \<le> k"
  shows "rne (rto m) k = rne m (Suc k)"
proof -
  obtain j where "k = Suc (Suc j)" using assms by (metis add_2_eq_Suc le_Suc_ex)
  then obtain c where c: "2 ^ k = 4 * (c :: nat)" "0 < c" by simp
  define q r where "q = m div 2 ^ Suc k" and "r = m mod 2 ^ Suc k"
  have m: "m = r + 2 * (4 * c * q)" and r: "r < 2 * (4 * c)"
    using div_mult_mod_eq [of m "2 ^ Suc k"] mod_less_divisor [of "2 ^ Suc k" m] c
    by (auto simp: q_def r_def algebra_simps)
  have rm: "rto m = 4 * c * q + rto r" unfolding m by (rule rto_add) simp
  have rr: "rto r < 4 * c" using r by (rule rto_less) simp
  have "rto m div 2 ^ k = q" "rto m mod 2 ^ k = rto r"
    unfolding rm c(1) using rr c(2) by simp_all
  moreover have "2 * rto r > 4 * c \<longleftrightarrow> 2 * r > 2 * (4 * c)" "2 * rto r = 4 * c \<longleftrightarrow> 2 * r = 2 * (4 * c)"
    by (auto simp: rto_def elim!: evenE oddE) presburger+
  moreover have "m div (8 * c) = q" "m mod (8 * c) = r" using c by (simp_all add: q_def r_def)
  ultimately show ?thesis
    unfolding rne_def Let_def using c(1) by simp
qed

lemma rne_rtos:
  assumes "2 \<le> k"
  shows "rne (rtos d m) k = rne m (k + d)"
  using assms
proof (induction d arbitrary: m k)
  case (Suc d)
  have "rne (rtos (Suc d) m) k = rne (rto (rtos d m)) k" by simp
  also have "\<dots> = rne (rtos d m) (Suc k)" by (rule rne_rto) (rule Suc.prems)
  also have "\<dots> = rne m (Suc k + d)" using Suc.prems by (intro Suc.IH) simp
  finally show ?case by simp
qed simp

lemma rne_scale: "rne (x * 2 ^ a) (a + b) = rne x b"
proof -
  have "x * 2 ^ a div 2 ^ (a + b) = x div 2 ^ b"
    by (simp add: power_add div_mult2_eq)
  moreover have "x * 2 ^ a mod 2 ^ (a + b) = 2 ^ a * (x mod 2 ^ b)"
    by (simp add: power_add mult.commute mod_mult_mult2)
  ultimately show ?thesis
    by (simp add: rne_def Let_def power_add mult.left_commute)
qed

lemma rne_0 [simp]: "rne x 0 = x"
  by (simp add: rne_def)

lemma rne_exact: "rne (x * 2 ^ a) a = x"
  using rne_scale [of x a 0] by simp

lemma rne_bounds:
  assumes "2 ^ (n + k) \<le> x" and "x < 2 ^ (Suc n + k)"
  shows "2 ^ n \<le> rne x k" and "rne x k \<le> 2 ^ Suc n"
proof -
  have "2 ^ n \<le> x div 2 ^ k" "x div 2 ^ k < 2 ^ Suc n"
    using assms by (simp_all add: power_add less_eq_div_iff_mult_less_eq div_less_iff_less_mult mult.commute)
  then show "2 ^ n \<le> rne x k" "rne x k \<le> 2 ^ Suc n"
    by (auto simp: rne_def Let_def)
qed

section \<open>Bit lengths\<close>

lemma bit_len_0 [simp]: "bit_len 0 = 0"
  by (simp add: bit_len.simps)

lemma bit_len_bounds: "0 < m \<Longrightarrow> 2 ^ (bit_len m - 1) \<le> m \<and> m < 2 ^ bit_len m \<and> 0 < bit_len m"
proof (induction m rule: bit_len.induct)
  case (1 m)
  show ?case
  proof (cases "m div 2 = 0")
    case True
    then have "m = 1" using 1 by presburger
    then show ?thesis by (simp add: bit_len.simps [of "Suc 0"])
  next
    case False
    then have "2 ^ (bit_len (m div 2) - 1) \<le> m div 2" "m div 2 < 2 ^ bit_len (m div 2)"
      "0 < bit_len (m div 2)" using 1 by auto
    moreover then have "(2::nat) * 2 ^ (bit_len (m div 2) - 1) = 2 ^ bit_len (m div 2)"
      by (metis Suc_pred' power_Suc)
    ultimately show ?thesis using 1(2)
      by (simp add: bit_len.simps [of m]) linarith
  qed
qed

lemma bit_len_eq:
  assumes "2 ^ n \<le> m" and "m < 2 ^ Suc n"
  shows "bit_len m = Suc n"
proof -
  have "0 < m" using assms(1) by (metis gr0I not_le zero_less_numeral zero_less_power)
  note b = bit_len_bounds [OF this]
  have "n < bit_len m" using assms(1) b by (metis le_less_trans nat_power_less_imp_less zero_less_numeral)
  moreover have "bit_len m - 1 < Suc n" using assms(2) b
    by (metis le_less_trans nat_power_less_imp_less zero_less_numeral)
  ultimately show ?thesis by simp
qed

section \<open>The loops of \<open>internal_normalize\<close>\<close>

text \<open>The sticky bit never adds to a number whose lowest bit already is 1.\<close>

definition sticky_ok :: "'a::len word \<times> 'a word \<Rightarrow> bool" where
  "sticky_ok ss \<longleftrightarrow> fst ss = 0 \<or> fst ss = 1 \<and> odd (unat (snd ss))"

lemma nat_and_1: "(n :: nat) AND 1 = of_bool (odd n)"
  by (simp add: and_one_eq mod_2_eq_odd)

lemma nat_or_bool: "(n :: nat) OR of_bool b = (if b \<and> even n then n + 1 else n)"
  by (auto simp: or_one_eq simp del: One_nat_def)

lemma sticky_step:
  fixes st sig :: "'a::len word"
  assumes "sticky_ok (st, sig)"
  defines "st' \<equiv> st OR (sig AND 1)"
  shows "unat (drop_bit 1 sig OR st') = rto (unat sig)" and "sticky_ok (st', drop_bit 1 sig OR st')"
proof -
  have one: "unat (1 :: 'a word) = 1" by simp
  have st: "st' = of_bool (odd (unat sig))"
  proof -
    have "sig AND 1 = of_bool (odd (unat sig))"
      by (simp add: word_unat_eq_iff unsigned_and_eq nat_and_1 del: One_nat_def)
    then show ?thesis using assms(1) by (auto simp: st'_def sticky_ok_def)
  qed
  have "unat (of_bool b :: 'a word) = of_bool b" for b by simp
  then show r: "unat (drop_bit 1 sig OR st') = rto (unat sig)"
    unfolding st unsigned_or_eq unsigned_drop_bit_eq
    by (simp add: nat_or_bool rto_def drop_bit_eq_div unsigned_drop_bit_eq take_bit_nat_eq_self)
  show "sticky_ok (st', drop_bit 1 sig OR st')"
    unfolding sticky_ok_def fst_conv snd_conv r unfolding st by (simp add: rto_def)
qed

lemma unat_shr_sticky:
  assumes "sticky_ok ss"
  shows "unat (snd (shr_sticky ss)) = rto (unat (snd ss))" and "sticky_ok (shr_sticky ss)"
  using sticky_step [of "fst ss" "snd ss"] assms
  by (simp_all add: shr_sticky_def case_prod_beta Let_def del: One_nat_def)

lemma unat_shr_sticky32:
  assumes "sticky_ok ss"
  shows "unat (snd (shr_sticky32 ss)) = rto (unat (snd ss))" and "sticky_ok (shr_sticky32 ss)"
  using sticky_step [of "fst ss" "snd ss"] assms
  by (simp_all add: shr_sticky32_def case_prod_beta Let_def del: One_nat_def)

lemma unat_shr_sticky32_pow:
  assumes "sticky_ok ss"
  shows "unat (snd ((shr_sticky32 ^^ d) ss)) = rtos d (unat (snd ss)) \<and> sticky_ok ((shr_sticky32 ^^ d) ss)"
  by (induction d) (simp_all add: assms unat_shr_sticky32)

lemma drop_gt:
  fixes w :: u64
  shows "drop_bit n w > 1 \<longleftrightarrow> 2 ^ Suc n \<le> unat w" and "drop_bit n w = 0 \<longleftrightarrow> unat w < 2 ^ n"
proof -
  have d: "unat (drop_bit n w) = unat w div 2 ^ n" for n and w :: u64
  proof -
    have "unat w < 2 ^ LENGTH(64)" by (rule unsigned_less)
    then show ?thesis
      unfolding unsigned_drop_bit_eq by (simp add: drop_bit_eq_div take_bit_nat_eq_self)
  qed
  show "drop_bit n w > 1 \<longleftrightarrow> 2 ^ Suc n \<le> unat w"
    by (simp add: word_less_nat_alt d less_eq_div_iff_mult_less_eq mult.commute
        less_eq_Suc_le numeral_2_eq_2 [symmetric])
  show "drop_bit n w = 0 \<longleftrightarrow> unat w < 2 ^ n"
    unfolding word_unat_eq_iff d by (simp add: div_eq_0_iff)
qed

lemma gt_4: "(w :: u64) > 4 \<longleftrightarrow> unat w > 4"
  by (simp add: word_less_nat_alt)

lemma norm_right_run:
  assumes "sticky_ok ss" and "2 ^ (26 + j) \<le> unat (snd ss)" and "unat (snd ss) < 2 ^ (27 + j)"
    and "j \<le> fuel" and "1 \<le> e + int j"
  obtains e' ss' where "norm_right fuel e ss = Inr (e', ss')"
    and "e + int j < 255 \<Longrightarrow> e' = e + int j \<and> unat (snd ss') = rtos j (unat (snd ss))"
    and "255 \<le> e + int j \<Longrightarrow> 255 \<le> e'"
proof -
  have "\<exists>e' ss'. norm_right fuel e ss = Inr (e', ss') \<and>
     (e + int j < 255 \<longrightarrow> e' = e + int j \<and> unat (snd ss') = rtos j (unat (snd ss))) \<and>
     (255 \<le> e + int j \<longrightarrow> 255 \<le> e')"
    using assms
  proof (induction j arbitrary: fuel e ss)
    case 0
    then have "\<not> drop_bit 26 (snd ss) > 1" "\<not> e < 0" unfolding drop_gt by simp_all
    then show ?case by (simp add: norm_right.simps [of fuel])
  next
    case (Suc j)
    have "2 ^ 27 \<le> (2 :: nat) ^ (26 + Suc j)" by (rule power_increasing) simp_all
    then have big: "drop_bit 26 (snd ss) > 1" "snd ss > 4"
      unfolding drop_gt gt_4 using Suc.prems(2) by simp_all
    obtain f where fuel: "fuel = Suc f" "j \<le> f" using Suc.prems(4) by (cases fuel) auto
    show ?case
    proof (cases "e < 255")
      case True
      let ?t = "shr_sticky ss"
      have u: "unat (snd ?t) = rto (unat (snd ss))" "sticky_ok ?t"
        using unat_shr_sticky [OF Suc.prems(1)] by simp_all
      have "unat (snd ss) < 2 * 2 ^ (27 + j)" using Suc.prems(3) by (simp add: power_add)
      then have lt: "unat (snd ?t) < 2 ^ (27 + j)" unfolding u by (rule rto_less) simp
      have "2 ^ (26 + j) \<le> unat (snd ss) div 2" using Suc.prems(2)
        by (simp add: less_eq_div_iff_mult_less_eq power_add)
      then have ge: "2 ^ (26 + j) \<le> unat (snd ?t)"
        unfolding u using rto_ge le_trans by blast
      from Suc.IH [OF u(2) ge lt fuel(2), of "e + 1"] Suc.prems(5) obtain e' ss' where
        "norm_right f (e + 1) ?t = Inr (e', ss')"
        "e + 1 + int j < 255 \<longrightarrow> e' = e + 1 + int j \<and> unat (snd ss') = rtos j (unat (snd ?t))"
        "255 \<le> e + 1 + int j \<longrightarrow> 255 \<le> e'" by auto
      then show ?thesis
        using big True unfolding fuel(1)
        by (subst norm_right.simps) (auto simp: u(1) funpow_swap1 algebra_simps)
    next
      case False
      then show ?thesis using big by (simp add: norm_right.simps [of fuel])
    qed
  qed
  then show ?thesis using that by blast
qed


lemma norm_left_run:
  assumes "unat sig * 2 ^ j < 2 ^ 27" and "int j = e \<or> 2 ^ 26 \<le> unat sig * 2 ^ j" and "int j \<le> e"
    and "j \<le> fuel"
  obtains sig' where "norm_left fuel e sig = Inr (e - int j, sig')" and "unat sig' = unat sig * 2 ^ j"
proof -
  have "\<exists>sig'. norm_left fuel e sig = Inr (e - int j, sig') \<and> unat sig' = unat sig * 2 ^ j"
    using assms
  proof (induction j arbitrary: fuel e sig)
    case 0
    have "\<not> (drop_bit 26 sig = 0 \<and> e > 0)" unfolding drop_gt using "0.prems" by auto
    then show ?case by (subst norm_left.simps) auto
  next
    case (Suc j)
    have "unat sig * 2 \<le> unat sig * 2 ^ Suc j" by simp
    then have "unat sig * 2 < 2 ^ 27" using Suc.prems(1) by (rule le_less_trans)
    then have lt: "unat sig < 2 ^ 26" by simp
    obtain f where fuel: "fuel = Suc f" "j \<le> f" using Suc.prems(4) by (cases fuel) auto
    have u: "unat (push_bit 1 sig) = unat sig * 2"
      using lt by (simp add: push_bit_eq_mult unat_word_ariths)
    have "drop_bit 26 sig = 0" unfolding drop_gt by (rule lt)
    moreover have "e > 0" using Suc.prems(3) by simp
    moreover have "\<exists>sig'. norm_left f (e - 1) (push_bit 1 sig) = Inr (e - 1 - int j, sig') \<and>
        unat sig' = unat (push_bit 1 sig) * 2 ^ j"
      using Suc.prems fuel by (intro Suc.IH) (auto simp: u u [simplified] mult.assoc)
    ultimately show ?case
      unfolding fuel(1) by (subst norm_left.simps) (simp add: u u [simplified] algebra_simps)
  qed
  then show ?thesis using that by blast
qed

lemma unat_round_grs:
  assumes "unat sig < 2 ^ 63"
  shows "unat (round_grs sig) = rne (unat sig) 3"
proof -
  have d: "unat (drop_bit 3 sig) = unat sig div 8"
    using assms unfolding unsigned_drop_bit_eq by (simp add: drop_bit_eq_div take_bit_nat_eq_self)
  have "sig AND 7 = take_bit 3 sig" by (simp add: take_bit_eq_mask mask_eq_exp_minus_1)
  then have t: "unat (sig AND 7) = unat sig mod 8"
    by (simp add: take_bit_eq_mod unat_mod)
  have "sig AND 8 = 0 \<longleftrightarrow> \<not> bit sig 3"
    using and_exp_eq_0_iff_not_bit [of sig 3] by simp
  also have "bit sig 3 \<longleftrightarrow> odd (unat sig div 8)"
  proof -
    have "bit sig 3 \<longleftrightarrow> bit (unat sig) 3" by (simp add: bit_unsigned_iff)
    then show ?thesis by (simp add: bit_iff_odd)
  qed
  finally have b: "sig AND 8 = 0 \<longleftrightarrow> even (unat sig div 8)" by simp
  have "unat (drop_bit 3 sig + 1) = unat sig div 8 + 1"
    using assms d by (subst unat_add_lem [THEN iffD1]) (simp_all add: d)
  then show ?thesis
    unfolding round_grs_def rne_def Let_def
    by (simp add: word_less_nat_alt d t b)
qed


section \<open>\<open>internal_normalize\<close> rounds correctly\<close>

lemma mk_float_value:
  assumes "0 \<le> e" and "e < 256" and "f < 2 ^ 23"
  shows "mk_float sign (of_int e) (of_nat f) =
           (if odd sign then N_ZERO_F else 0) OR of_int (e * 2 ^ 23 + int f)"
proof -
  have "push_bit 23 (of_int e AND mask 8 :: u32) OR (of_nat f AND mask 23) =
      push_bit 23 (of_int e AND mask 8) + (of_nat f AND mask 23)"
    by (rule disjunctive_add [symmetric]) (auto simp: bit_push_bit_iff bit_and_iff bit_mask_iff)
  moreover have "of_int e AND mask 8 = (of_int e :: u32)"
    using assms(1,2) by (simp add: take_bit_eq_mask [symmetric] take_bit_of_int take_bit_int_eq_self)
  moreover have "of_nat f AND mask 23 = (of_nat f :: u32)"
    using assms(3) by (simp add: take_bit_eq_mask [symmetric] take_bit_of_nat take_bit_nat_eq_self)
  ultimately have "push_bit 23 (of_int e AND mask 8 :: u32) OR (of_nat f AND mask 23) =
      of_int (e * 2 ^ 23 + int f)"
    by (simp add: push_bit_eq_mult)
  moreover have "push_bit 31 (sign AND 1) = (if odd sign then N_ZERO_F else 0)"
    by (cases "odd sign") (auto simp: and_one_eq mod_2_eq_odd)
  ultimately show ?thesis by (simp add: mk_float_def or.assoc)
qed


abbreviation with_sign :: "bool \<Rightarrow> int \<Rightarrow> u32" where
  "with_sign neg v \<equiv> (if neg then N_ZERO_F else 0) OR of_int v"

abbreviation pack :: "u32 \<Rightarrow> int \<times> u64 \<Rightarrow> u32 res" where
  "pack sign \<equiv> \<lambda>(e, sig). Inr (mk_float sign (of_int e) (ucast sig))"

lemma pack_value:
  assumes "0 \<le> e" and "e < 256" and "unat sig < 2 ^ 23"
  shows "pack sign (e, sig) = Inr (with_sign (odd sign) (e * 2 ^ 23 + int (unat sig)))"
  using mk_float_value [OF assms] by simp

lemma mk_float_hidden:
  assumes "2 ^ 23 \<le> unat sig" and "unat sig < 2 ^ 24"
  shows "mk_float sign x (ucast sig) = mk_float sign x (of_nat (unat sig - 2 ^ 23))"
proof -
  have *: "take_bit 23 (of_nat n :: u32) = take_bit 23 (of_nat (n - 2 ^ 23))"
    if "2 ^ 23 \<le> n" and "n < 2 ^ 24" for n
  proof -
    have "take_bit 23 n = n - 2 ^ 23" using that by (simp add: take_bit_eq_mod le_mod_geq)
    then show ?thesis using that by (simp only: take_bit_of_nat) (simp add: take_bit_nat_eq_self)
  qed
  show ?thesis
    using * [OF assms] assms by (simp add: mk_float_def take_bit_eq_mask [symmetric])
qed

lemma norm_round_normal:
  assumes "2 ^ 26 \<le> unat sig" and "unat sig < 2 ^ 27" and "1 \<le> e" and "e < 255"
  shows "bindE (norm_round e sig) (pack sign) =
           Inr (with_sign (odd sign) (min ((e - 1) * 2 ^ 23 + int (rne (unat sig) 3)) (uint P_INF_F)))"
proof -
  have r: "unat (round_grs sig) = rne (unat sig) 3" using assms(2) by (simp add: unat_round_grs)
  have b: "2 ^ 23 \<le> rne (unat sig) 3" "rne (unat sig) 3 \<le> 2 ^ Suc 23"
    by (rule rne_bounds [where n = 23]; use assms(1,2) in simp)+
  show ?thesis
  proof (cases "rne (unat sig) 3 = 2 ^ 24")
    case True
    have c: "round_grs sig = 0x1000000" using r True by (simp add: word_unat_eq_iff)
    have "norm_carry norm_fuel e 0x1000000 = Inr (e + 1, 0x800000)"
      using assms(4) by (simp add: norm_carry.simps)
    then have "norm_round e sig = Inr (if e + 1 \<ge> 255 then (255, 0) else (e + 1, 0x800000))"
      using assms(3) by (simp add: norm_round_def c)
    moreover have "mk_float sign (of_int 255) 0 = with_sign (odd sign) (255 * 2 ^ 23)"
      using mk_float_value [of 255 0 sign] by simp
    moreover have "mk_float sign (of_int (e + 1)) 0x800000 = with_sign (odd sign) ((e + 1) * 2 ^ 23)"
    proof -
      have "mk_float sign (of_int (e + 1)) 0x800000 = mk_float sign (of_int (e + 1)) (of_nat 0)"
        using mk_float_hidden [of "0x800000 :: u64" sign "of_int (e + 1)"] by simp
      then show ?thesis using mk_float_value [of "e + 1" 0 sign] assms(3,4) by simp
    qed
    moreover have "min ((e - 1) * 2 ^ 23 + int (rne (unat sig) 3)) (uint P_INF_F) =
        (if e + 1 \<ge> 255 then 255 * 2 ^ 23 else (e + 1) * 2 ^ 23)"
      using assms(4) by (simp add: True)
    ultimately show ?thesis by (simp only: bindE_Inr split: if_split) simp
  next
    case False
    then have lt: "rne (unat sig) 3 < 2 ^ 24" using b(2) by simp
    then have "norm_round e sig = Inr (e, round_grs sig)"
      by (simp add: norm_round_def drop_gt(1) r)
    moreover have "mk_float sign (of_int e) (ucast (round_grs sig)) =
        mk_float sign (of_int e) (of_nat (rne (unat sig) 3 - 2 ^ 23))"
      using mk_float_hidden [of "round_grs sig" sign "of_int e"] b(1) lt by (simp add: r)
    moreover have "\<dots> = with_sign (odd sign) ((e - 1) * 2 ^ 23 + int (rne (unat sig) 3))"
      using mk_float_value [of e "rne (unat sig) 3 - 2 ^ 23" sign] b(1) lt assms(3,4)
      by (simp add: algebra_simps)
    moreover have "(e - 1) * 2 ^ 23 + int (rne (unat sig) 3) \<le> uint P_INF_F"
      using lt assms(4) by simp
    ultimately show ?thesis by (simp add: min_def)
  qed
qed

lemma norm_round_denormal:
  assumes "unat sig = 8 * q" and "q < 2 ^ 23"
  shows "bindE (norm_round 0 sig) (pack sign) = Inr (with_sign (odd sign) (int q))"
proof -
  have "unat (round_grs sig) = q"
    using assms rne_exact [of q 3] by (simp add: unat_round_grs mult.commute)
  moreover then have "norm_round 0 sig = Inr (0, round_grs sig)"
    using assms(2) by (simp add: norm_round_def drop_gt(1))
  ultimately show ?thesis using pack_value [of 0 "round_grs sig" sign] assms(2) by simp
qed


text \<open>
  The significand \<open>m\<close> with exponent \<open>e\<close> stands for \<open>m * 2 ^ (e - 153)\<close>. When the result is normal,
  it is the correctly rounded number.
\<close>

lemma round_float_normal:
  assumes "0 < m" and "1 \<le> e + int (bit_len m) - 27"
  shows "round_float neg m (e - 153) = with_sign neg
    (min ((e + int (bit_len m) - 28) * 2 ^ 23 +
          int (if bit_len m \<le> 24 then m * 2 ^ (24 - bit_len m) else rne m (bit_len m - 24)))
       (uint P_INF_F))"
proof -
  define b where "b = bit_len m"
  have q: "max (e - 153 + int b - 24) (- 149) = e + int b - 177"
    using assms(2) by (simp add: b_def)
  have n: "nat (e - 153 - (e + int b - 177)) = 24 - b" "nat (e + int b - 177 - (e - 153)) = b - 24"
    by simp_all
  have c: "e + int b - 177 \<le> e - 153 \<longleftrightarrow> b \<le> 24" by auto
  have w: "e + int b - 177 + 149 = e + int b - 28" by simp
  show ?thesis
    using assms(1) unfolding round_float_def Let_def b_def [symmetric] q n c w by simp
qed

lemma internal_normalize_normal:
  assumes "0 < unat sig" and "1 \<le> e + int (bit_len (unat sig)) - 27"
    and "27 < bit_len (unat sig) \<or> e < 255" and "e \<le> 500"
  shows "internal_normalize sign e sig = Inr (round_float (odd sign) (unat sig) (e - 153))"
proof -
  let ?m = "unat sig"
  define b where "b = bit_len ?m"
  have m: "2 ^ (b - 1) \<le> ?m" "?m < 2 ^ b" "0 < b"
    using bit_len_bounds [OF assms(1)] by (simp_all add: b_def)
  note R = round_float_normal [OF assms(1,2), folded b_def, of "odd sign"]
  have E: "1 \<le> e + int b - 27" using assms(2) by (simp add: b_def)
  consider (right) "28 \<le> b" | (same) "b = 27" | (left) "b \<le> 26" by linarith
  then show ?thesis
  proof cases
    case right
    define j where "j = b - 27"
    have j: "b = 27 + j" using right by (simp add: j_def)
    have "(2 :: nat) ^ (b - 1) < 2 ^ LENGTH(64)" using m(1) unsigned_less [of sig] by (rule le_less_trans)
    then have "b - 1 < LENGTH(64)" by (rule power_less_imp_less_exp [rotated]) simp
    then have fuel: "j \<le> norm_fuel" using j by simp
    have m': "2 ^ (26 + j) \<le> ?m" "?m < 2 ^ (27 + j)" using m j by simp_all
    obtain e' ss where n: "norm_right norm_fuel e (0, sig) = Inr (e', ss)"
      and fin: "e + int j < 255 \<Longrightarrow> e' = e + int j \<and> unat (snd ss) = rtos j ?m"
      and inf: "255 \<le> e + int j \<Longrightarrow> 255 \<le> e'"
      using norm_right_run [of "(0, sig)" j norm_fuel e] m' fuel E j by (auto simp: sticky_ok_def)
    have "(2 :: nat) ^ 27 \<le> 2 ^ (b - 1)" using right by (intro power_increasing) simp_all
    then have big: "drop_bit 26 sig > 1" unfolding drop_gt using m(1) by simp
    show ?thesis
    proof (cases "e + int j < 255")
      case True
      note f = fin [OF True]
      have "norm_shift e sig = Inr (False, e + int j, snd ss)"
        using big n f E True j by (simp add: norm_shift_def case_prod_beta Let_def)
      then have "internal_normalize sign e sig = bindE (norm_round (e + int j) (snd ss)) (pack sign)"
        by (simp add: internal_normalize_def)
      also have "\<dots> = Inr (with_sign (odd sign)
          (min ((e + int j - 1) * 2 ^ 23 + int (rne (rtos j ?m) 3)) (uint P_INF_F)))"
        using rtos_bounds [of 26 j ?m] m' f True E j by (subst norm_round_normal) simp_all
      also have "rne (rtos j ?m) 3 = rne ?m (b - 24)" using rne_rtos [of 3 j ?m] j by simp
      finally show ?thesis unfolding R using j right by (simp add: algebra_simps)
    next
      case False
      then have "norm_shift e sig = Inr (True, 255, 0)"
        using big n inf by (simp add: norm_shift_def case_prod_beta Let_def)
      then have "internal_normalize sign e sig = Inr (mk_float sign (of_int 255) (of_nat 0))"
        by (simp add: internal_normalize_def)
      moreover have "2 ^ 23 \<le> rne ?m (b - 24)"
        using rne_bounds(1) [of 23 "b - 24" ?m] m right by simp
      ultimately show ?thesis
        unfolding R using mk_float_value [of 255 0 sign] False j by simp
    qed
  next
    case same
    then have "norm_shift e sig = Inr (False, e, sig)"
      using m E by (simp add: norm_shift_def drop_gt)
    then have "internal_normalize sign e sig = bindE (norm_round e sig) (pack sign)"
      by (simp add: internal_normalize_def)
    also have "\<dots> = Inr (round_float (odd sign) ?m (e - 153))"
      using m E assms(3) unfolding R same b_def [symmetric] by (subst norm_round_normal) simp_all
    finally show ?thesis .
  next
    case left
    define j where "j = 27 - b"
    have j: "?m * 2 ^ j < 2 ^ 27" "2 ^ 26 \<le> ?m * 2 ^ j" 
    proof -
      have "?m * 2 ^ j < 2 ^ b * 2 ^ j" "2 ^ (b - 1) * 2 ^ j \<le> ?m * 2 ^ j" using m by simp_all
      moreover have "b + j = 27" "b - 1 + j = 26" using left m(3) by (simp_all add: j_def)
      ultimately show "?m * 2 ^ j < 2 ^ 27" "2 ^ 26 \<le> ?m * 2 ^ j"
        by (simp_all only: power_add [symmetric])
    qed
    obtain sig' where n: "norm_left norm_fuel e sig = Inr (e - int j, sig')" and u: "unat sig' = ?m * 2 ^ j"
    proof (rule norm_left_run [of sig j e norm_fuel])
      show "j \<le> norm_fuel" by (simp add: j_def)
    qed (use j E left in \<open>auto simp: j_def\<close>)
    have "?m < 2 ^ 26" using m(2) left by (meson le_trans less_le_trans one_le_numeral power_increasing)
    then have "norm_shift e sig = Inr (False, e - int j, sig')"
      using E left n by (simp add: norm_shift_def drop_gt j_def)
    then have "internal_normalize sign e sig = bindE (norm_round (e - int j) sig') (pack sign)"
      by (simp add: internal_normalize_def)
    also have "\<dots> = Inr (with_sign (odd sign)
        (min ((e - int j - 1) * 2 ^ 23 + int (rne (?m * 2 ^ j) 3)) (uint P_INF_F)))"
      using norm_round_normal [of sig' "e - int j" sign] j E left assms(3) u by (simp add: j_def b_def)
    also have "rne (?m * 2 ^ j) 3 = (if b \<le> 24 then ?m * 2 ^ (24 - b) else rne ?m (b - 24))"
    proof (cases "b \<le> 24")
      case True
      then have "j = (24 - b) + 3" by (simp add: j_def)
      then have "?m * 2 ^ j = ?m * 2 ^ (24 - b) * 2 ^ 3" by (simp only: power_add mult.assoc)
      then show ?thesis using True rne_exact [of "?m * 2 ^ (24 - b)" 3] by (simp only: if_True)
    next
      case False
      then have "j + (b - 24) = 3" using left by (simp add: j_def)
      then show ?thesis using False rne_scale [of ?m j "b - 24"] by simp
    qed
    also have "e - int j - 1 = e + int b - 28" using left by (simp add: j_def)
    finally show ?thesis unfolding R .
  qed
qed


text \<open>A denormal result is exact when the significand, in units of \<open>2 ^ -152\<close>, is divisible by 8.\<close>

lemma internal_normalize_denormal:
  assumes "unat sig * 2 ^ (nat e - 1) = 8 * q" and "q < 2 ^ 23" and "0 \<le> e" and "e \<le> 500"
  shows "internal_normalize sign e sig = Inr (with_sign (odd sign) (int q))"
proof (cases "e = 0")
  case True
  then have lt: "unat sig < 2 ^ 26" and q: "unat sig = 8 * q" using assms(1,2) by simp_all
  then have "norm_shift e sig = Inr (False, 0, sig)"
  proof -
    have "drop_bit 26 sig = 0" unfolding drop_gt by (rule lt)
    then show ?thesis using True by (simp add: norm_shift_def)
  qed
  then have "internal_normalize sign e sig = bindE (norm_round 0 sig) (pack sign)"
    by (simp add: internal_normalize_def)
  then show ?thesis using norm_round_denormal [OF q assms(2)] by simp
next
  case False
  then obtain j where e: "e = int (Suc j)" using assms(3)
    by (metis gr0_implies_Suc le_less of_nat_0_less_iff pos_int_cases)
  have "nat e = Suc j" using e by (simp del: of_nat_Suc)
  then have m: "unat sig * 2 ^ j = 8 * q" using assms(1) by simp
  then have lt: "unat sig * 2 ^ Suc j < 2 ^ 27" using assms(2) by simp
  have "unat sig * 2 ^ 0 \<le> unat sig * 2 ^ j" by simp
  then have sm: "unat sig < 2 ^ 26" using m assms(2) by simp
  obtain sig' where n: "norm_left norm_fuel e sig = Inr (0, sig')" and u: "unat sig' = 2 * (8 * q)"
  proof (rule norm_left_run [of sig "Suc j" e norm_fuel])
    show "unat sig * 2 ^ Suc j < 2 ^ 27" by (rule lt)
    show "Suc j \<le> norm_fuel" using assms(4) e by simp
  qed (use e m in auto)
  have r: "unat (snd (shr_sticky (0, sig'))) = 8 * q"
    using unat_shr_sticky(1) [of "(0, sig')"] rto_double [of "8 * q"] u by (simp add: sticky_ok_def)
  have "norm_shift e sig = Inr (False, 0, snd (shr_sticky (0, sig')))"
    using sm e n by (simp add: norm_shift_def drop_gt)
  then have "internal_normalize sign e sig =
      bindE (norm_round 0 (snd (shr_sticky (0, sig')))) (pack sign)"
    by (simp add: internal_normalize_def)
  then show ?thesis using norm_round_denormal [OF r assms(2)] by simp
qed

section \<open>Scaling\<close>

lemma bit_len_scale: "0 < m \<Longrightarrow> bit_len (m * 2 ^ k) = bit_len m + k"
proof -
  assume "0 < m"
  from bit_len_bounds [OF this] obtain n where n: "bit_len m = Suc n" "2 ^ n \<le> m" "m < 2 ^ Suc n"
    by (metis diff_Suc_1 gr0_implies_Suc)
  have "2 ^ n * 2 ^ k \<le> m * 2 ^ k" "m * 2 ^ k < 2 ^ Suc n * 2 ^ k"
    using n(2,3) by simp_all
  then show "bit_len (m * 2 ^ k) = bit_len m + k"
    using bit_len_eq [of "n + k" "m * 2 ^ k"] by (simp add: n(1) power_add)
qed

lemma round_float_scale: "round_float neg (m * 2 ^ k) e = round_float neg m (e + int k)"
proof (cases "m = 0")
  case False
  define q where "q = max (e + int k + int (bit_len m) - 24) (- 149)"
  have q': "max (e + int (bit_len (m * 2 ^ k)) - 24) (- 149) = q"
    using False by (simp add: q_def bit_len_scale algebra_simps)
  have "(if q \<le> e then m * 2 ^ k * 2 ^ nat (e - q) else rne (m * 2 ^ k) (nat (q - e))) =
      (if q \<le> e + int k then m * 2 ^ nat (e + int k - q) else rne m (nat (q - (e + int k))))"
  proof -
    consider "q \<le> e" | "e < q" "q \<le> e + int k" | "e + int k < q" by linarith
    then show ?thesis
    proof cases
      case 1
      then have "nat (e + int k - q) = k + nat (e - q)" by simp
      then show ?thesis using 1 by (simp add: power_add)
    next
      case 2
      define a where "a = nat (q - e)"
      then have "nat (e + int k - q) + a = k" using 2 by simp
      then have "m * 2 ^ k = m * 2 ^ nat (e + int k - q) * 2 ^ a"
        by (simp only: mult.assoc power_add [symmetric])
      then have "rne (m * 2 ^ k) a = m * 2 ^ nat (e + int k - q)" by (simp only: rne_exact)
      then show ?thesis using 2 by (simp add: a_def [symmetric])
    next
      case 3
      then have "nat (q - e) = k + nat (q - (e + int k))" by simp
      then show ?thesis using 3 by (simp add: rne_scale)
    qed
  qed
  then show ?thesis
    using False unfolding round_float_def Let_def q' q_def [symmetric] by simp
qed (simp add: round_float_def)

text \<open>Rounding to odd first does not change the rounded number if two more bits are kept.\<close>

lemma round_float_rtos:
  assumes "2 ^ 25 \<le> rtos d y"
  shows "round_float neg (rtos d y) (e + int d) = round_float neg y e"
proof -
  let ?z = "rtos d y"
  have "0 < ?z" using assms by (rule less_le_trans [rotated]) simp
  from bit_len_bounds [OF this] obtain n where n: "bit_len ?z = Suc n" "2 ^ n \<le> ?z" "?z < 2 ^ Suc n"
    by (metis diff_Suc_1 gr0_implies_Suc)
  have "(2 :: nat) ^ 25 < 2 ^ Suc n" using assms n(3) by (rule le_less_trans)
  then have n25: "25 \<le> n" using power_less_imp_less_exp [of "2 :: nat" 25 "Suc n"] by simp
  have "2 ^ n * 2 ^ d \<le> y"
    using rtos_less [of y "2 ^ n" d] n(2) n25 by (cases "y < 2 ^ n * 2 ^ d") auto
  moreover have "y < 2 ^ Suc n * 2 ^ d"
    using rtos_ge [of "2 ^ Suc n" d y] n(3) by (cases "y < 2 ^ Suc n * 2 ^ d") auto
  ultimately have y: "bit_len y = Suc n + d" "0 < y"
    using bit_len_eq [of "n + d" y] by (auto simp: power_add intro: gr0I)
  define q where "q = max (e + int d + int (Suc n) - 24) (- 149)"
  have q': "max (e + int (bit_len y) - 24) (- 149) = q"
    unfolding q_def y by (simp add: algebra_simps)
  have k: "e + int d + 2 \<le> q" using n25 by (simp add: q_def)
  then have "nat (q - e) = nat (q - (e + int d)) + d" by simp
  then have "rne ?z (nat (q - (e + int d))) = rne y (nat (q - e))"
    using rne_rtos [of "nat (q - (e + int d))" d y] k by simp
  moreover have "\<not> q \<le> e" "\<not> q \<le> e + int d" using k by simp_all
  ultimately show ?thesis
    using y(2) \<open>0 < ?z\<close> unfolding round_float_def Let_def q' n(1) q_def [symmetric] by simp
qed

end
