(* ===== verification/FpuCorrect.thy ===== *)
theory FpuCorrect
  imports FpuRound
begin

text \<open>
  The arithmetic of the FPU against IEEE 754 rounding: addition and subtraction of finite
  numbers are correctly rounded, multiplication is when its result is a normal number, and
  the inputs on which multiplication and division are not.
\<close>

section \<open>The value of a finite number\<close>

lemma unat_bit_field: "unat (field lo n (w :: u32)) = unat w div 2 ^ lo mod 2 ^ n"
proof -
  have "unat w < 2 ^ LENGTH(32)" by (rule unsigned_less)
  then show ?thesis
    unfolding field_def unsigned_take_bit_eq unsigned_drop_bit_eq
    by (simp add: take_bit_eq_mod drop_bit_eq_div take_bit_nat_eq_self)
qed

lemma f_fraction_less: "unat (f_fraction v) < 2 ^ 23"
  by (simp add: f_fraction_def unat_bit_field)

lemma f_exponent_less: "unat (f_exponent v) < 256"
  by (simp add: f_exponent_def unat_bit_field)

lemma f_sign_cases: "f_sign v = 0 \<or> f_sign v = 1"
  by (simp add: f_sign_def word_unat_eq_iff unat_bit_field) presburger

lemma unat_or_disjoint:
  fixes v w :: u32
  assumes "v AND w = 0" and "unat v + unat w < 2 ^ 32"
  shows "unat (v OR w) = unat v + unat w"
proof -
  have "v OR w = v + w"
  proof (rule disjunctive_add [symmetric])
    show "\<not> bit v n \<or> \<not> bit w n" for n
      using arg_cong [OF assms(1), of "\<lambda>x. bit x n"] by (simp add: bit_and_iff)
  qed
  then show ?thesis using assms(2) by (simp add: unat_word_ariths)
qed

lemma unat_f_sig:
  "unat (f_sig v) = (if f_exponent v \<noteq> 0 then 2 ^ 23 else 0) + unat (f_fraction v)"
proof -
  have "f_fraction v AND 0x800000 = 0"
    using and_exp_eq_0_iff_not_bit [of "f_fraction v" 23] by (simp add: f_fraction_def bit_field)
  then show ?thesis
    using f_fraction_less [of v] by (simp add: f_sig_def unat_or_disjoint)
qed

lemma f_sig_less: "unat (f_sig v) < 2 ^ 24"
  using f_fraction_less [of v] by (simp add: unat_f_sig)

lemma unat_f_exp1: "unat (f_exp1 v) = max 1 (unat (f_exponent v))"
  by (auto simp: f_exp1_def word_unat_eq_iff max_def)

lemma unat_parts:
  "unat v = unat (f_sign v) * 2 ^ 31 + unat (f_exponent v) * 2 ^ 23 + unat (f_fraction v)"
proof -
  have "unat v < 2 ^ LENGTH(32)" by (rule unsigned_less)
  then have "unat v div 2 ^ 31 mod 2 = unat v div 2 ^ 31" by simp
  moreover have "unat v div 2 ^ 31 = unat v div 2 ^ 23 div 256" by (simp add: div_mult2_eq [symmetric])
  ultimately have "unat (f_sign v) * 2 ^ 8 + unat (f_exponent v) = unat v div 2 ^ 23"
    by (simp add: f_sign_def f_exponent_def unat_bit_field)
  moreover have "unat (f_fraction v) = unat v mod 2 ^ 23" by (simp add: f_fraction_def unat_bit_field)
  ultimately have "(unat (f_sign v) * 2 ^ 8 + unat (f_exponent v)) * 2 ^ 23 + unat (f_fraction v) = unat v"
    by (simp only: div_mult_mod_eq)
  then show ?thesis by simp
qed

lemma unat_with_sign:
  assumes "k < 2 ^ 31"
  shows "unat (with_sign neg (int k)) = (if neg then 2 ^ 31 else 0) + k"
proof -
  have u: "unat (of_nat k :: u32) = k" using assms by (simp add: unsigned_of_nat take_bit_nat_eq_self)
  have "bit (of_nat k :: u32) 31 \<longleftrightarrow> bit (unat (of_nat k :: u32)) 31"
    by (simp add: bit_unsigned_iff del: unsigned_of_nat)
  then have "\<not> bit (of_nat k :: u32) 31"
    unfolding u using assms by (simp add: bit_iff_odd)
  then have "0x80000000 AND (of_nat k :: u32) = 0"
    using and_exp_eq_0_iff_not_bit [of "of_nat k :: u32" 31] by (simp add: and.commute)
  then show ?thesis using u assms by (auto simp: unat_or_disjoint)
qed

lemma f_parts: "v = with_sign (f_sign v \<noteq> 0) (int (unat (f_exponent v) * 2 ^ 23 + unat (f_fraction v)))"
proof -
  have "unat (f_exponent v) * 2 ^ 23 + unat (f_fraction v) < 2 ^ 31"
    using f_exponent_less [of v] f_fraction_less [of v] by simp
  from unat_with_sign [OF this] show ?thesis
    using unat_parts [of v] f_sign_cases [of v] by (auto simp only: word_unat_eq_iff) auto
qed

text \<open>A finite number as an integer, in units of \<open>2 ^ -149\<close>, the last place of a denormal.\<close>

definition f_abs :: "u32 \<Rightarrow> nat" where
  "f_abs v = unat (f_sig v) * 2 ^ (unat (f_exp1 v) - 1)"

definition f_units :: "u32 \<Rightarrow> int" where
  "f_units v = (if f_sign v \<noteq> 0 then - int (f_abs v) else int (f_abs v))"

definition f_round :: "int \<Rightarrow> u32" where
  "f_round x = round_float (x < 0) (nat \<bar>x\<bar>) (- 149)"

definition f_finite :: "u32 \<Rightarrow> bool" where
  "f_finite v = (f_exponent v \<noteq> 0xff)"

lemma f_abs_0: "f_abs v = 0 \<longleftrightarrow> v = P_ZERO_F \<or> v = N_ZERO_F"
proof
  assume "f_abs v = 0"
  then have "f_exponent v = 0" "unat (f_fraction v) = 0"
    by (simp_all add: f_abs_def unat_f_sig split: if_splits)
  then have "v = with_sign (f_sign v \<noteq> 0) 0" using f_parts [of v] by simp
  then show "v = P_ZERO_F \<or> v = N_ZERO_F" by (simp split: if_splits)
qed (auto simp: f_abs_def f_sig_def f_exponent_def f_fraction_def field_def)

lemma round_float_denormal:
  assumes "0 < m" and "m < 2 ^ 23"
  shows "round_float neg m (- 149) = with_sign neg (int m)"
proof -
  have "2 ^ (bit_len m - 1) < (2 :: nat) ^ 23" using bit_len_bounds [OF assms(1)] assms(2) by linarith
  then have "bit_len m \<le> 23" using power_less_imp_less_exp [of "2 :: nat" "bit_len m - 1" 23] by simp
  then show ?thesis using assms by (simp add: round_float_def max_def min_def)
qed

lemma round_float_24:
  assumes "k < 2 ^ 23" and "0 < e" and "e < 255"
  shows "round_float neg (2 ^ 23 + k) (int e - 150) = with_sign neg (int (e * 2 ^ 23 + k))"
proof -
  have b: "bit_len (2 ^ 23 + k) = 24" using bit_len_eq [of 23 "2 ^ 23 + k"] assms(1) by simp
  have "min ((int e + 3 + int 24 - 28) * 2 ^ 23 + int ((2 ^ 23 + k) * 2 ^ 0)) (uint P_INF_F) =
      int (e * 2 ^ 23 + k)"
    using assms by simp
  then show ?thesis
    using round_float_normal [of "2 ^ 23 + k" "int e + 3" neg, unfolded b] assms(2) by simp
qed

lemma f_round_units:
  assumes "f_finite v" and "f_abs v \<noteq> 0"
  shows "f_round (f_units v) = v"
proof -
  define e f m where "e = unat (f_exponent v)" and "f = unat (f_fraction v)" and "m = unat (f_sig v)"
  have "f_exponent v \<noteq> 255" using assms(1) by (simp add: f_finite_def)
  then have e: "e < 255" using f_exponent_less [of v] by (simp add: word_unat_eq_iff e_def)
  have f: "f < 2 ^ 23" using f_fraction_less by (simp add: f_def)
  have m: "m = (if e \<noteq> 0 then 2 ^ 23 else 0) + f" "0 < m"
    using assms(2) by (simp_all add: f_abs_def unat_f_sig m_def e_def f_def word_unat_eq_iff)
  have neg: "(f_units v < 0) = (f_sign v \<noteq> 0)" "nat \<bar>f_units v\<bar> = f_abs v"
    using assms(2) by (auto simp: f_units_def)
  have s: "f_round (f_units v) = round_float (f_sign v \<noteq> 0) m (- 149 + int (max 1 e - 1))"
    unfolding f_round_def neg f_abs_def e_def m_def unat_f_exp1 by (rule round_float_scale)
  have r: "round_float (f_sign v \<noteq> 0) m (- 149 + int (max 1 e - 1)) =
      with_sign (f_sign v \<noteq> 0) (int (e * 2 ^ 23 + f))"
  proof (cases "e = 0")
    case True
    then show ?thesis using f m round_float_denormal [of m "f_sign v \<noteq> 0"] by simp
  next
    case False
    then have "- 149 + int (max 1 e - 1) = int e - 150" by simp
    then show ?thesis using f m e False round_float_24 [of f e "f_sign v \<noteq> 0"] by simp
  qed
  show ?thesis unfolding s r unfolding e_def f_def by (rule f_parts [symmetric])
qed


section \<open>Addition\<close>

abbreviation sg :: "bool \<Rightarrow> nat \<Rightarrow> int" where
  "sg neg n \<equiv> (if neg then - int n else int n)"

text \<open>Shifting the smaller operand with the sticky bit rounds the exact sum to odd.\<close>

lemma aligned_sum:
  assumes "even c" and "d = 0 \<or> x < c * 2 ^ d"
  shows "nat \<bar>sg sa (rtos d x) + sg sb c\<bar> = rtos d (nat \<bar>sg sa x + sg sb (c * 2 ^ d)\<bar>)"
    and "sg sa (rtos d x) + sg sb c < 0 \<longleftrightarrow> sg sa x + sg sb (c * 2 ^ d) < 0"
proof -
  have "nat \<bar>sg sa (rtos d x) + sg sb c\<bar> = rtos d (nat \<bar>sg sa x + sg sb (c * 2 ^ d)\<bar>) \<and>
    (sg sa (rtos d x) + sg sb c < 0 \<longleftrightarrow> sg sa x + sg sb (c * 2 ^ d) < 0)"
  proof (cases "d = 0")
    case False
    define C where "C = c * 2 ^ d"
    have lt: "x < C" using assms(2) False by (simp add: C_def)
    then have r: "rtos d x < c" using assms(1) by (intro rtos_less) (simp_all add: C_def)
    have "rtos d (x + C) = c + rtos d x" "rtos d (C - x) = c - rtos d x"
      using rtos_add [OF assms(1), of d x] rtos_diff [OF assms(1), of x d] lt by (simp_all add: C_def)
    moreover have "nat \<bar>sg sa x + sg sb C\<bar> = (if sa = sb then x + C else C - x)"
      "nat \<bar>sg sa (rtos d x) + sg sb c\<bar> = (if sa = sb then c + rtos d x else c - rtos d x)"
      using lt r by (cases sa; cases sb; simp)+
    moreover have "sg sa (rtos d x) + sg sb c < 0 \<longleftrightarrow> sb" "sg sa x + sg sb C < 0 \<longleftrightarrow> sb"
      using lt r by (cases sa; cases sb; simp)+
    ultimately show ?thesis unfolding C_def [symmetric] by presburger
  qed simp
  then show "nat \<bar>sg sa (rtos d x) + sg sb c\<bar> = rtos d (nat \<bar>sg sa x + sg sb (c * 2 ^ d)\<bar>)"
    and "sg sa (rtos d x) + sg sb c < 0 \<longleftrightarrow> sg sa x + sg sb (c * 2 ^ d) < 0" by blast+
qed

lemma sign_split:
  assumes "\<bar>z\<bar> < 2 ^ 31"
  shows "(if bit (of_int z :: u32) 31 then (1, of_int z * (- 1)) else (0, of_int z :: u32)) =
           (of_bool (z < 0) :: u32, of_nat (nat \<bar>z\<bar>))"
proof -
  have "bit (of_int z :: u32) 31 \<longleftrightarrow> bit z 31" by (simp add: bit_of_int_iff)
  also have "\<dots> \<longleftrightarrow> z < 0"
  proof (cases "z < 0")
    case True
    then have "z div 2 ^ 31 = - 1" using assms by (intro int_div_pos_eq [where r = "z + 2 ^ 31"]) auto
    then show ?thesis using True by (simp add: bit_iff_odd)
  next
    case False
    then have "z div 2 ^ 31 = 0" using assms by simp
    then show ?thesis using False by (simp add: bit_iff_odd)
  qed
  finally show ?thesis by simp
qed

lemma normalize_exp_0:
  assumes "2 ^ 26 \<le> unat sig" and "unat sig < 2 ^ 27"
  shows "internal_normalize sign 0 sig = internal_normalize sign 1 sig"
proof -
  have "\<not> drop_bit 26 sig > 1" "drop_bit 26 sig \<noteq> 0" unfolding drop_gt using assms by simp_all
  moreover then have "drop_bit 26 sig = 1"
    by (metis linorder_cases unsigned_eq_0_iff word_less_1)
  ultimately have "norm_shift 0 sig = norm_shift 1 sig" by (simp add: norm_shift_def)
  then show ?thesis by (simp add: internal_normalize_def)
qed

text \<open>The normalised sum is the rounded exact sum \<open>y * 2 ^ (ea - 1) / 8\<close>.\<close>

lemma normalize_sum:
  assumes "unat sig = rtos d y" and "y * 2 ^ (ea - 1) = 8 * n" and "e1 = ea + d" and "0 < ea"
    and "e1 = max 1 e" and "e < 255"
    and "d \<le> 3 \<and> 2 ^ d dvd y \<or> 4 \<le> d \<and> 2 ^ 25 \<le> rtos d y"
    and "e = 0 \<longrightarrow> unat sig < 2 ^ 27" and "n = 0 \<longrightarrow> even sign"
  shows "internal_normalize sign (int e) sig = Inr (round_float (odd sign) n (- 149))"
proof -
  let ?m = "unat sig"
  have n: "round_float (odd sign) n (- 149) = round_float (odd sign) y (int ea - 153)"
  proof -
    have "round_float (odd sign) n (- 149) = round_float (odd sign) (y * 2 ^ (ea - 1)) (- 152)"
      unfolding assms(2) using round_float_scale [of "odd sign" n 3 "- 152"] by (simp add: mult.commute)
    then show ?thesis using assms(4) by (simp add: round_float_scale of_nat_diff)
  qed
  have norm: ?thesis if big: "27 \<le> e1 + bit_len ?m - 1" "0 < ?m" "round_float (odd sign) ?m (int e1 - 153) = round_float (odd sign) y (int ea - 153)"
  proof -
    have "internal_normalize sign (int e) sig = internal_normalize sign (int e1) sig"
    proof (cases "e = 0")
      case True
      then have "e1 = 1" using assms(5) by simp
      then have "2 ^ 26 \<le> (2 :: nat) ^ (bit_len ?m - 1)" using big by (intro power_increasing) simp_all
      then have "2 ^ 26 \<le> ?m" using bit_len_bounds [OF big(2)] by linarith
      then show ?thesis using normalize_exp_0 [of sig sign] assms(8) True \<open>e1 = 1\<close> by simp
    qed (use assms(5) in simp)
    also have "\<dots> = Inr (round_float (odd sign) ?m (int e1 - 153))"
      using big assms(5,6) by (intro internal_normalize_normal) auto
    finally show ?thesis using n big(3) by simp
  qed
  from assms(7) show ?thesis
  proof
    assume d: "4 \<le> d \<and> 2 ^ 25 \<le> rtos d y"
    then have m: "0 < ?m" "2 ^ 25 \<le> ?m" unfolding assms(1) by (auto intro: less_le_trans [rotated])
    have "25 < bit_len ?m"
      using bit_len_bounds [OF m(1)] m(2) power_less_imp_less_exp [of "2 :: nat" 25 "bit_len ?m"]
      by linarith
    then show ?thesis
      using m d assms(3) round_float_rtos [of d y "odd sign" "int ea - 153"]
      by (intro norm) (simp_all add: assms(1) algebra_simps)
  next
    assume d: "d \<le> 3 \<and> 2 ^ d dvd y"
    then obtain k where "y = k * 2 ^ d" by (metis dvdE mult.commute)
    then have y: "y = ?m * 2 ^ d" using assms(1) rtos_exact by simp
    have "d + (ea - 1) = e1 - 1" using assms(3,4) by simp
    then have "?m * 2 ^ (e1 - 1) = y * 2 ^ (ea - 1)"
      by (simp only: y mult.assoc power_add [symmetric])
    then have mn: "?m * 2 ^ (e1 - 1) = 8 * n" using assms(2) by simp
    show ?thesis
    proof (cases "n < 2 ^ 23")
      case True
      have "internal_normalize sign (int e) sig = Inr (with_sign (odd sign) (int n))"
        using mn True assms(5,6) by (intro internal_normalize_denormal) (auto simp: max_def split: if_splits)
      then show ?thesis
        using True assms(9) round_float_denormal [of n "odd sign"] by (cases "n = 0") (auto simp: round_float_def)
    next
      case False
      then have m: "0 < ?m" using mn by (intro gr0I) simp
      have "?m * 2 ^ (e1 - 1) < 2 ^ bit_len ?m * 2 ^ (e1 - 1)" using bit_len_bounds [OF m] by simp
      moreover have "2 ^ 26 \<le> ?m * 2 ^ (e1 - 1)" using mn False by simp
      ultimately have "(2 :: nat) ^ 26 < 2 ^ (bit_len ?m + (e1 - 1))" unfolding power_add by (rule le_less_trans [rotated])
      then have "26 < bit_len ?m + (e1 - 1)" by (rule power_less_imp_less_exp [rotated]) simp
      then show ?thesis
        using m round_float_scale [of "odd sign" ?m d "int ea - 153"] assms(3,5)
        by (intro norm) (simp_all add: y [symmetric] algebra_simps)
    qed
  qed
qed


definition add_ordered :: "u32 \<Rightarrow> u32 \<Rightarrow> u32 res" where
  "add_ordered fa fb =
     (let shift = f_exp1 fb - f_exp1 fa;
          sig_a = snd ((shr_sticky32 ^^ unat shift) (0, push_bit 3 (f_sig fa)));
          sig_b = push_bit 3 (f_sig fb);
          sig_res = neg_if (f_sign fa) sig_a + neg_if (f_sign fb) sig_b;
          (sign, sig_res) = (if bit sig_res 31 then (1, sig_res * (- 1)) else (0, sig_res)) in
      internal_normalize sign (uint (f_exponent fb)) (ucast sig_res))"

lemma add_core_ordered:
  "add_core a b = (if f_exponent a > f_exponent b then add_ordered b a else add_ordered a b)"
  by (simp add: add_core_def add_ordered_def)

lemma neg_if_value: "neg_if s w = of_int (sg (s \<noteq> 0) (unat w))"
  by (simp add: neg_if_def)

lemma unat_of_nat_28: "k < 2 ^ 28 \<Longrightarrow> unat (of_nat k :: u64) = k"
  by (simp add: unsigned_of_nat take_bit_nat_eq_self)

lemma ucast_of_nat_28: "k < 2 ^ 28 \<Longrightarrow> ucast (of_nat k :: u32) = (of_nat k :: u64)"
  by (simp add: word_unat_eq_iff unsigned_ucast_eq unsigned_of_nat take_bit_nat_eq_self)

lemma add_ordered_correct:
  assumes "f_exponent fa \<le> f_exponent fb" and "f_finite fb"
  shows "add_ordered fa fb = Inr (f_round (f_units fa + f_units fb))"
proof -
  define ea e1 e d where "ea = unat (f_exp1 fa)" and "e1 = unat (f_exp1 fb)"
    and "e = unat (f_exponent fb)" and "d = e1 - ea"
  define x c sa sb where "x = 8 * unat (f_sig fa)" and "c = 8 * unat (f_sig fb)"
    and "sa = (f_sign fa \<noteq> 0)" and "sb = (f_sign fb \<noteq> 0)"
  define z y where "z = sg sa (rtos d x) + sg sb c" and "y = sg sa x + sg sb (c * 2 ^ d)"
  have "ea \<le> e1" using assms(1) unfolding ea_def e1_def unat_f_exp1 by (auto simp: word_le_nat_alt)
  then have d: "e1 = ea + d" by (simp add: d_def)
  have x: "x < 2 ^ 27" "c < 2 ^ 27" using f_sig_less [of fa] f_sig_less [of fb] by (simp_all add: x_def c_def)
  have rx: "rtos d x < 2 ^ 27" using x(1) by (intro rtos_less) (simp_all add: less_le_trans)
  have e: "e1 = max 1 e" by (simp add: e1_def e_def unat_f_exp1)
  have "f_exponent fb \<noteq> 255" using assms(2) by (simp add: f_finite_def)
  then have e255: "e < 255" using f_exponent_less [of fb] by (simp add: word_unat_eq_iff e_def)
  have c_big: "2 ^ 26 \<le> c" if "0 < d"
  proof -
    have "e \<noteq> 0" using that d e ea_def unat_f_exp1 [of fa] by auto
    then show ?thesis by (simp add: c_def unat_f_sig e_def word_unat_eq_iff)
  qed
  define S where "S = f_units fa + f_units fb"
  have S: "8 * S = y * 2 ^ (ea - 1)"
  proof -
    have "d + (ea - 1) = e1 - 1" using d unfolding ea_def unat_f_exp1 by simp
    then have "c * 2 ^ d * 2 ^ (ea - 1) = c * 2 ^ (e1 - 1)" by (simp only: mult.assoc power_add [symmetric])
    moreover have "8 * f_abs fb = c * 2 ^ (e1 - 1)" by (simp add: f_abs_def c_def e1_def)
    ultimately have "int (8 * f_abs fb) = int (c * 2 ^ d * 2 ^ (ea - 1))" by (simp only:)
    then have "8 * f_units fb = sg sb (c * 2 ^ d) * 2 ^ (ea - 1)"
      by (cases sb) (simp_all add: f_units_def sb_def)
    moreover have "8 * f_units fa = sg sa x * 2 ^ (ea - 1)"
      by (auto simp: f_units_def f_abs_def x_def sa_def ea_def)
    ultimately show ?thesis by (simp add: S_def y_def algebra_simps)
  qed
  have al: "nat \<bar>z\<bar> = rtos d (nat \<bar>y\<bar>)" "z < 0 \<longleftrightarrow> y < 0"
  proof -
    have "x < c * 2 ^ d" if "0 < d"
    proof -
      have "(2 :: nat) ^ 26 * 2 ^ 1 \<le> c * 2 ^ d" using c_big that by (intro mult_le_mono power_increasing) simp_all
      then show ?thesis using x(1) by simp
    qed
    then have "d = 0 \<or> x < c * 2 ^ d" by blast
    moreover have "even c" by (simp add: c_def)
    ultimately show "nat \<bar>z\<bar> = rtos d (nat \<bar>y\<bar>)" "z < 0 \<longleftrightarrow> y < 0"
      unfolding z_def y_def by (rule aligned_sum [rotated])+
  qed
  have neg: "z < 0 \<longleftrightarrow> S < 0"
    unfolding al(2) using S by (smt (verit) zero_less_power mult_less_0_iff)
  define sig :: u64 where "sig = of_nat (nat \<bar>z\<bar>)"
  have z_less: "\<bar>z\<bar> < 2 ^ 28" using x(2) rx by (auto simp: z_def)
  then have z28: "nat \<bar>z\<bar> < 2 ^ 28" by simp
  have sig: "unat sig = rtos d (nat \<bar>y\<bar>)"
    unfolding sig_def al(1) [symmetric] by (rule unat_of_nat_28 [OF z28])
  have run: "add_ordered fa fb = internal_normalize (of_bool (S < 0)) (int e) sig"
  proof -
    have sh: "unat (f_exp1 fb - f_exp1 fa) = d"
      using \<open>ea \<le> e1\<close> by (simp add: unat_sub word_le_nat_alt d_def e1_def ea_def)
    have p: "unat (push_bit 3 (f_sig fa)) = x" "unat (push_bit 3 (f_sig fb)) = c"
      using x by (simp_all add: push_bit_eq_mult unat_word_ariths x_def c_def)
    have "unat (snd ((shr_sticky32 ^^ d) (0, push_bit 3 (f_sig fa)))) = rtos d x"
      using unat_shr_sticky32_pow [of "(0, push_bit 3 (f_sig fa))" d] p by (simp add: sticky_ok_def)
    then have r: "neg_if (f_sign fa) (snd ((shr_sticky32 ^^ d) (0, push_bit 3 (f_sig fa)))) +
        neg_if (f_sign fb) (push_bit 3 (f_sig fb)) = of_int z"
      unfolding neg_if_value p by (simp only: of_int_add z_def sa_def sb_def)
    have u: "ucast (of_nat (nat \<bar>z\<bar>) :: u32) = sig"
      unfolding sig_def by (rule ucast_of_nat_28 [OF z28])
    have i: "uint (f_exponent fb) = int e" by (simp add: e_def)
    have "\<bar>z\<bar> < 2 ^ 31" using z_less by simp
    note sp = sign_split [OF this]
    show ?thesis
      unfolding add_ordered_def sh Let_def r i sp prod.case u neg ..
  qed
  have "internal_normalize (of_bool (S < 0)) (int e) sig =
      Inr (round_float (odd (of_bool (S < 0) :: u32)) (nat \<bar>S\<bar>) (- 149))"
  proof (rule normalize_sum [OF sig _ d])
    show "nat \<bar>y\<bar> * 2 ^ (ea - 1) = 8 * nat \<bar>S\<bar>"
    proof -
      have "\<bar>8 * S\<bar> = \<bar>y\<bar> * 2 ^ (ea - 1)" unfolding S by (simp add: abs_mult)
      then have "int (8 * nat \<bar>S\<bar>) = int (nat \<bar>y\<bar> * 2 ^ (ea - 1))" by (simp add: abs_mult)
      then show ?thesis by (simp only: of_nat_eq_iff)
    qed
    show "0 < ea" by (simp add: ea_def unat_f_exp1)
    show "d \<le> 3 \<and> 2 ^ d dvd nat \<bar>y\<bar> \<or> 4 \<le> d \<and> 2 ^ 25 \<le> rtos d (nat \<bar>y\<bar>)"
    proof (cases "d \<le> 3")
      case True
      have "(8 :: nat) = 2 ^ d * 2 ^ (3 - d)" using True by (simp add: power_add [symmetric])
      then have "2 ^ d dvd x" unfolding x_def by (metis dvd_triv_left dvd_mult2)
      then have "int (2 ^ d) dvd sg sa x" "int (2 ^ d) dvd sg sb (c * 2 ^ d)" by auto
      then have "int (2 ^ d) dvd y" unfolding y_def by (rule dvd_add)
      then have "2 ^ d dvd nat \<bar>y\<bar>" by (simp add: dvd_nat_abs_iff)
      then show ?thesis using True by blast
    next
      case False
      have "(2 :: nat) ^ 23 * 2 ^ 4 \<le> 2 ^ 23 * 2 ^ d" using False by (intro mult_le_mono power_increasing) simp_all
      then have "rtos d x < 2 ^ 23" using x(1) by (intro rtos_less) simp_all
      then have "2 ^ 25 \<le> nat \<bar>z\<bar>" using c_big False by (auto simp: z_def)
      then show ?thesis using False al(1) by simp
    qed
    show "e = 0 \<longrightarrow> unat sig < 2 ^ 27"
    proof
      assume "e = 0"
      then have "unat (f_sig fa) < 2 ^ 23" "unat (f_sig fb) < 2 ^ 23" "d = 0"
        using assms(1) f_fraction_less [of fa] f_fraction_less [of fb]
        by (simp_all add: unat_f_sig e_def d_def e1_def ea_def unat_f_exp1 word_le_nat_alt word_unat_eq_iff)
      then have "x < 2 ^ 26" "c < 2 ^ 26" by (simp_all add: x_def c_def)
      then have "nat \<bar>z\<bar> < 2 ^ 27" using \<open>d = 0\<close> by (auto simp: z_def)
      then show "unat sig < 2 ^ 27" unfolding sig al(1) .
    qed
  qed (use e e255 in auto)
  then show ?thesis unfolding run f_round_def S_def by simp
qed


lemma corner_finite:
  assumes "f_finite a" and "f_finite b" and "f_abs a \<noteq> 0 \<or> f_abs b \<noteq> 0"
  shows "map_of corner_add (a, b) = None"
proof -
  have "a \<noteq> v \<and> b \<noteq> v" if "f_exponent v = 0xff" for v
    using assms(1,2) that by (auto simp: f_finite_def)
  then have n: "a \<noteq> P_INF_F \<and> b \<noteq> P_INF_F" "a \<noteq> N_INF_F \<and> b \<noteq> N_INF_F"
    "a \<noteq> P_NAN_F \<and> b \<noteq> P_NAN_F" "a \<noteq> N_NAN_F \<and> b \<noteq> N_NAN_F"
    by (simp_all add: f_exponent_def field_def drop_bit_eq_div take_bit_eq_mod)
  have "a \<noteq> P_ZERO_F \<and> a \<noteq> N_ZERO_F \<or> b \<noteq> P_ZERO_F \<and> b \<noteq> N_ZERO_F"
    using assms(3) by (simp add: f_abs_0)
  then show ?thesis using n by (auto simp: corner_add_def)
qed

lemma float_add_finite:
  assumes "f_finite a" and "f_finite b" and "f_abs a \<noteq> 0 \<or> f_abs b \<noteq> 0"
  shows "internal_float_add b a = Inr (f_round (f_units a + f_units b))"
proof -
  have z: "f_units v = 0" if "f_abs v = 0" for v using that by (simp add: f_units_def)
  then have "f_round (f_units a + f_units b) = b" if "f_abs a = 0"
    using that assms(2,3) by (simp add: f_round_units)
  moreover have "f_round (f_units a + f_units b) = a" if "f_abs b = 0"
    using that assms(1,3) by (simp add: f_round_units z)
  moreover have "add_core a b = Inr (f_round (f_units a + f_units b))"
    using add_ordered_correct [of a b] add_ordered_correct [of b a] assms(1,2)
    by (auto simp: add_core_ordered add.commute)
  ultimately show ?thesis
    using assms(1,2) corner_finite [OF assms]
    by (auto simp: internal_float_add_def f_finite_def f_abs_0)
qed

lemma flip_sign:
  shows "f_exponent (v XOR N_ZERO_F) = f_exponent v" and "f_fraction (v XOR N_ZERO_F) = f_fraction v"
    and "f_sign (v XOR N_ZERO_F) \<noteq> 0 \<longleftrightarrow> f_sign v = 0"
proof -
  have b: "bit (2147483648 :: int) n \<longleftrightarrow> n = 31" for n
    using bit_exp_iff [where 'a = int, of 31 n] by auto
  show "f_exponent (v XOR N_ZERO_F) = f_exponent v" "f_fraction (v XOR N_ZERO_F) = f_fraction v"
    by (auto intro!: bit_word_eqI simp: f_exponent_def f_fraction_def bit_field bit_xor_iff b)
  have "f_sign w = 0 \<longleftrightarrow> \<not> bit w 31" for w
  proof -
    have "bit w 31 \<longleftrightarrow> bit (unat w) 31" by (simp add: bit_unsigned_iff)
    also have "\<dots> \<longleftrightarrow> unat (f_sign w) \<noteq> 0"
      by (simp add: bit_iff_odd f_sign_def unat_bit_field odd_iff_mod_2_eq_one)
    finally show ?thesis by (simp add: word_unat_eq_iff)
  qed
  then show "f_sign (v XOR N_ZERO_F) \<noteq> 0 \<longleftrightarrow> f_sign v = 0" by (simp add: bit_xor_iff b)
qed

lemma flip_units:
  shows "f_units (v XOR N_ZERO_F) = - f_units v" and "f_abs (v XOR N_ZERO_F) = f_abs v"
    and "f_finite (v XOR N_ZERO_F) = f_finite v"
  using flip_sign [of v] by (auto simp: f_units_def f_abs_def f_sig_def f_exp1_def f_finite_def)

lemma corner_sub_finite:
  assumes "f_finite a" and "f_finite b" and "f_abs a \<noteq> 0 \<or> f_abs b \<noteq> 0"
  shows "map_of corner_sub (a, b) = None" and "\<not> (a = P_NAN_F \<or> a = N_NAN_F)"
    and "\<not> (b = P_NAN_F \<or> b = N_NAN_F)"
proof -
  have "f_exponent P_NAN_F = 0xff" "f_exponent N_NAN_F = 0xff"
    by (simp_all add: f_exponent_def field_def drop_bit_eq_div take_bit_eq_mod)
  then show n: "\<not> (a = P_NAN_F \<or> a = N_NAN_F)" "\<not> (b = P_NAN_F \<or> b = N_NAN_F)"
    using assms(1,2) by (auto simp: f_finite_def)
  show "map_of corner_sub (a, b) = None"
    using assms(3) n by (auto simp: corner_sub_def f_abs_0)
qed

text \<open>
  \<^bold>\<open>C6\<close> The sum and the difference of two finite numbers that are not both zero are the exact
  results rounded to the nearest representable number, ties to even, too large ones to
  infinity; denormal operands and results and cancellation are included.
\<close>

theorem float_add_sub_correct:
  assumes "f_finite a" and "f_finite b" and "f_abs a \<noteq> 0 \<or> f_abs b \<noteq> 0"
  shows "internal_float_add b a = Inr (f_round (f_units a + f_units b)) \<and>
         internal_float_sub b a = Inr (f_round (f_units a - f_units b))"
  using float_add_finite [OF assms] float_add_finite [of a "b XOR N_ZERO_F"] corner_sub_finite [OF assms]
    assms by (simp add: internal_float_sub_def flip_units)

theorem float_add_sub_correct_witness:
  "f_finite 0x3f800000 \<and> f_finite 0x00000001 \<and>
   internal_float_add 0x00000001 0x3f800000 = Inr (f_round (f_units 0x3f800000 + f_units 0x00000001)) \<and>
   internal_float_sub 0x00000001 0x3f800000 = Inr (f_round (f_units 0x3f800000 - f_units 0x00000001))"
proof -
  have f: "f_finite 0x3f800000" "f_finite 0x00000001" "f_abs 0x00000001 \<noteq> 0"
    by (simp_all add: f_finite_def f_exponent_def field_def drop_bit_eq_div take_bit_eq_mod f_abs_0)
  then show ?thesis using float_add_sub_correct [of "0x3f800000" "0x00000001"] by blast
qed


section \<open>Multiplication\<close>

lemma f_abs_product:
  "f_abs a * f_abs b =
     unat (f_sig a) * unat (f_sig b) * 2 ^ (unat (f_exp1 a) + unat (f_exp1 b) - 2)"
proof -
  have "1 \<le> unat (f_exp1 a)" "1 \<le> unat (f_exp1 b)" by (simp_all add: unat_f_exp1)
  then have "unat (f_exp1 a) - 1 + (unat (f_exp1 b) - 1) = unat (f_exp1 a) + unat (f_exp1 b) - 2"
    by simp
  then show ?thesis unfolding f_abs_def by (simp only: power_add [symmetric] ac_simps)
qed

lemma mul_core_normal:
  assumes "f_finite a" and "f_finite b" and "2 ^ 172 \<le> f_abs a * f_abs b"
  shows "mul_core a b =
           Inr (round_float ((f_sign a \<noteq> 0) \<noteq> (f_sign b \<noteq> 0)) (f_abs a * f_abs b) (- 298))"
proof -
  define ea eb A B where "ea = unat (f_exp1 a)" and "eb = unat (f_exp1 b)"
    and "A = unat (f_sig a)" and "B = unat (f_sig b)"
  define m where "m = A * B"
  define k where "k = ea + eb - 2"
  have e: "0 < ea" "ea < 255" "0 < eb" "eb < 255"
    using assms(1,2) f_exponent_less [of a] f_exponent_less [of b]
    by (simp_all add: ea_def eb_def unat_f_exp1 f_finite_def word_unat_eq_iff)
  have AB: "A < 2 ^ 24" "B < 2 ^ 24" using f_sig_less by (simp_all add: A_def B_def)
  have p: "f_abs a * f_abs b = m * 2 ^ k"
    using f_abs_product [of a b] by (simp add: m_def A_def B_def k_def ea_def eb_def)
  have "m < 2 ^ 24 * 2 ^ 24" unfolding m_def using AB by (intro mult_strict_mono) simp_all
  then have m48: "m < 2 ^ 48" by simp
  define sig :: u64 where "sig = ucast (f_sig a) * ucast (f_sig b)"
  have sig: "unat sig = m"
    using m48 AB
    by (simp add: sig_def unat_word_ariths unsigned_ucast_eq take_bit_nat_eq_self
        A_def [symmetric] B_def [symmetric] m_def)
  have x: "sint (f_exp1 a + f_exp1 b - 127 - 20) = int ea + int eb - 147"
  proof -
    have "f_exp1 a + f_exp1 b - 127 - 20 = of_int (int ea + int eb - 147)"
      by (simp add: ea_def eb_def)
    then show ?thesis
      using e by (simp only: signed_of_int) (simp add: signed_take_bit_int_eq_self)
  qed
  have pos: "0 < m" using assms(3) p by (intro gr0I) simp
  have "m * 2 ^ k < 2 ^ bit_len m * 2 ^ k" using bit_len_bounds [OF pos] by simp
  then have "(2 :: nat) ^ 172 < 2 ^ (bit_len m + k)"
    using assms(3) unfolding p power_add by (rule le_less_trans [rotated])
  then have big: "172 < bit_len m + k" by (rule power_less_imp_less_exp [rotated]) simp
  have small: "27 < bit_len m \<or> int ea + int eb - 147 < 255"
  proof (cases "ea = 1 \<or> eb = 1")
    case False
    then have "2 ^ 23 \<le> A" "2 ^ 23 \<le> B"
      by (auto simp: ea_def eb_def A_def B_def unat_f_sig f_exp1_def)
    then have "2 ^ 23 * 2 ^ 23 \<le> m" unfolding m_def by (rule mult_le_mono)
    then have "(2 :: nat) ^ 46 < 2 ^ bit_len m" using bit_len_bounds [OF pos] by simp
    then have "46 < bit_len m" by (rule power_less_imp_less_exp [rotated]) simp
    then show ?thesis by simp
  qed (use e in auto)
  have "odd (f_sign a XOR f_sign b) = ((f_sign a \<noteq> 0) \<noteq> (f_sign b \<noteq> 0))"
    using f_sign_cases [of a] f_sign_cases [of b] by auto
  then have "mul_core a b = Inr (round_float ((f_sign a \<noteq> 0) \<noteq> (f_sign b \<noteq> 0)) m (int ea + int eb - 147 - 153))"
    unfolding mul_core_def Let_def x sig_def [symmetric] using pos big small e
    by (subst internal_normalize_normal) (auto simp: sig k_def)
  moreover have "int ea + int eb - 147 - 153 = - 298 + int k" using e by (simp add: k_def)
  ultimately show ?thesis unfolding p round_float_scale by simp
qed


lemma corner_mul_finite:
  assumes "f_finite a" and "f_finite b"
  shows "map_of corner_mul (a, b) = None" and "\<not> is_nan_f a" and "\<not> is_inf_f a"
    and "\<not> is_nan_f b" and "\<not> is_inf_f b"
proof -
  have "f_exponent P_NAN_F = 0xff" "f_exponent N_NAN_F = 0xff" "f_exponent P_INF_F = 0xff"
    "f_exponent N_INF_F = 0xff"
    by (simp_all add: f_exponent_def field_def drop_bit_eq_div take_bit_eq_mod)
  then show *: "\<not> is_nan_f a" "\<not> is_inf_f a" "\<not> is_nan_f b" "\<not> is_inf_f b"
    using assms by (auto simp: f_finite_def is_nan_f_def is_inf_f_def)
  then show "map_of corner_mul (a, b) = None" by (auto simp: corner_mul_def is_inf_f_def)
qed

text \<open>
  \<^bold>\<open>C7\<close> The product of two finite numbers is the exact product rounded to the nearest
  representable number, ties to even, with the sign rule, whenever it is at least \<open>2 ^ -126\<close>, the least
  normal number; one operand may be denormal and too large products become infinite.
\<close>

theorem float_mul_correct:
  assumes "f_finite a" and "f_finite b" and "2 ^ 172 \<le> f_abs a * f_abs b"
  shows "internal_float_mul b a =
           Inr (round_float ((f_sign a \<noteq> 0) \<noteq> (f_sign b \<noteq> 0)) (f_abs a * f_abs b) (- 298))"
proof -
  have "f_abs a \<noteq> 0" "f_abs b \<noteq> 0" using assms(3) by (cases "f_abs a = 0"; cases "f_abs b = 0"; simp)+
  then have "\<not> is_zero_f a" "\<not> is_zero_f b" by (simp_all add: f_abs_0 is_zero_f_def)
  then show ?thesis
    using corner_mul_finite [OF assms(1,2)] mul_core_normal [OF assms]
    by (simp add: internal_float_mul_def Let_def)
qed

theorem float_mul_correct_witness:
  "f_finite 0x40400000 \<and> 2 ^ 172 \<le> f_abs 0x40400000 * f_abs 0x40400000 \<and>
   internal_float_mul 0x40400000 0x40400000 =
     Inr (round_float False (f_abs 0x40400000 * f_abs 0x40400000) (- 298))"
proof -
  have x: "f_exponent 0x40400000 = 128" "f_fraction 0x40400000 = 0x400000" "f_sign 0x40400000 = 0"
    by (simp_all add: f_exponent_def f_fraction_def f_sign_def field_def drop_bit_eq_div take_bit_eq_mod)
  then have f: "f_finite 0x40400000" and a: "f_abs 0x40400000 = 0xc00000 * 2 ^ 127"
    by (simp_all add: f_finite_def f_abs_def unat_f_sig unat_f_exp1)
  have big: "2 ^ 172 \<le> f_abs 0x40400000 * f_abs 0x40400000" unfolding a by simp
  from float_mul_correct [OF f f big] f big show ?thesis by (simp add: x)
qed

text \<open>
  A product below the normal range can come out twice too large: \<open>2 ^ -149 * 2 ^ 19\<close>
  is the denormal \<open>0x00080000\<close>, the code returns \<open>0x00100000\<close>.
\<close>

lemma float_mul_denormal:
  "internal_float_mul 0x49000000 0x00000001 = Inr 0x00100000 \<and>
   round_float False (f_abs 0x49000000 * f_abs 0x00000001) (- 298) = 0x00080000"
proof -
  let ?a = "0x00000001 :: u32" and ?b = "0x49000000 :: u32"
  have x: "f_exponent ?a = 0" "f_fraction ?a = 1" "f_sign ?a = 0"
    "f_exponent ?b = 146" "f_fraction ?b = 0" "f_sign ?b = 0"
    by (simp_all add: f_exponent_def f_fraction_def f_sign_def field_def drop_bit_eq_div take_bit_eq_mod)
  have sig: "f_sig ?a = 1" "f_sig ?b = 0x800000" "f_exp1 ?a = 1" "f_exp1 ?b = 146"
    by (simp_all add: f_sig_def f_exp1_def x)
  have "f_finite ?a" "f_finite ?b" by (simp_all add: f_finite_def x)
  then have "internal_float_mul ?b ?a = mul_core ?a ?b"
    using corner_mul_finite [of ?a ?b]
    by (simp add: internal_float_mul_def is_zero_f_def)
  also have "\<dots> = internal_normalize 0 0 0x800000"
    by (simp add: mul_core_def Let_def sig x)
  also have "\<dots> = Inr 0x00100000"
    using internal_normalize_denormal [of "0x800000" 0 "2 ^ 20" 0] by simp
  finally have m: "internal_float_mul ?b ?a = Inr 0x00100000" .
  have "f_abs ?b * f_abs ?a = 2 ^ 19 * 2 ^ 149"
    by (simp add: f_abs_def sig)
  then show ?thesis using m round_float_scale [of False "2 ^ 19" 149 "- 298"]
      round_float_denormal [of "2 ^ 19" False] by simp
qed

section \<open>Division\<close>

lemma shl_to_top_run:
  assumes "2 ^ 63 \<le> unat sig * 2 ^ j" and "unat sig * 2 ^ j < 2 ^ 64" and "j \<le> fuel"
  shows "shl_to_top fuel sig n = Inr (of_nat (unat sig * 2 ^ j), n + j)"
  using assms
proof (induction j arbitrary: fuel sig n)
  case 0
  then have "drop_bit 63 sig \<noteq> 0" unfolding drop_gt by simp
  then show ?case by (subst shl_to_top.simps) simp
next
  case (Suc j)
  obtain f where fuel: "fuel = Suc f" "j \<le> f" using Suc.prems(3) by (cases fuel) auto
  have "unat sig * 2 \<le> unat sig * 2 ^ Suc j" by simp
  then have "unat sig * 2 < 2 ^ 64" using Suc.prems(2) by (rule le_less_trans)
  then have u: "unat (push_bit 1 sig) = unat sig * 2" and "unat sig < 2 ^ 63"
    by (simp_all add: push_bit_eq_mult unat_word_ariths)
  then have "drop_bit 63 sig = 0" unfolding drop_gt by simp
  moreover have "shl_to_top f (push_bit 1 sig) (n + 1) =
      Inr (of_nat (unat (push_bit 1 sig) * 2 ^ j), n + 1 + j)"
    using Suc.prems fuel(2) by (intro Suc.IH) (simp_all only: u mult.assoc power_Suc [symmetric])
  ultimately show ?case
    unfolding fuel(1) by (subst shl_to_top.simps) (simp add: u [unfolded One_nat_def] mult.assoc)
qed

lemma shr_to_odd_run:
  assumes "unat sig = q * 2 ^ t" and "odd q" and "t \<le> fuel"
  shows "shr_to_odd fuel sig n = Inr (of_nat q, n + t)"
  using assms
proof (induction t arbitrary: fuel sig n)
  case 0
  then have "sig = of_nat q" by (metis mult_1_right of_nat_unat power_0 ucast_id)
  moreover have "sig AND 1 \<noteq> 0"
    using 0 by (simp add: word_unat_eq_iff unsigned_and_eq nat_and_1 [unfolded One_nat_def] mod_2_eq_odd)
  ultimately show ?case by (subst shr_to_odd.simps) simp
next
  case (Suc t)
  obtain f where fuel: "fuel = Suc f" "t \<le> f" using Suc.prems(3) by (cases fuel) auto
  have "sig AND 1 = 0"
    using Suc.prems(1) by (simp add: word_unat_eq_iff unsigned_and_eq nat_and_1 [unfolded One_nat_def])
  moreover have "unat (drop_bit 1 sig) = q * 2 ^ t"
    using Suc.prems(1) unsigned_less [of sig, where 'a = nat]
    unfolding unsigned_drop_bit_eq by (simp add: drop_bit_eq_div take_bit_nat_eq_self)
  then have "shr_to_odd f (drop_bit 1 sig) (n + 1) = Inr (of_nat q, n + 1 + t)"
    using Suc.prems(2) fuel(2) by (intro Suc.IH)
  ultimately show ?case unfolding fuel(1) by (subst shr_to_odd.simps) simp
qed


text \<open>
  The quotient \<open>div_core\<close> computes: the dividend's significand moved to the top of 64 bits,
  divided by the odd part of the divisor's, and rounded down.
\<close>

definition div_quotient :: "u32 \<Rightarrow> nat \<Rightarrow> nat" where
  "div_quotient a q = unat (f_sig a) * 2 ^ (64 - bit_len (unat (f_sig a))) div q"

lemma top_bits:
  assumes "0 < m" and "m < 2 ^ 24"
  shows "2 ^ 63 \<le> m * 2 ^ (64 - bit_len m)" and "m * 2 ^ (64 - bit_len m) < 2 ^ 64"
    and "bit_len m \<le> 24"
proof -
  have b: "2 ^ (bit_len m - 1) \<le> m" "m < 2 ^ bit_len m" "0 < bit_len m"
    using bit_len_bounds [OF assms(1)] by simp_all
  have "2 ^ (bit_len m - 1) < (2 :: nat) ^ 24" using b(1) assms(2) by (rule le_less_trans)
  then have "bit_len m - 1 < 24" by (rule power_less_imp_less_exp [rotated]) simp
  then show l: "bit_len m \<le> 24" by simp
  have "2 ^ (bit_len m - 1) * 2 ^ (64 - bit_len m) \<le> m * 2 ^ (64 - bit_len m)"
    "m * 2 ^ (64 - bit_len m) < 2 ^ bit_len m * 2 ^ (64 - bit_len m)" using b by simp_all
  moreover have "bit_len m - 1 + (64 - bit_len m) = 63" "bit_len m + (64 - bit_len m) = 64"
    using b(3) l by simp_all
  ultimately show "2 ^ 63 \<le> m * 2 ^ (64 - bit_len m)" "m * 2 ^ (64 - bit_len m) < 2 ^ 64"
    by (simp_all only: power_add [symmetric])
qed

lemma div_core_normal:
  assumes "f_finite a" and "f_finite b" and "f_abs a \<noteq> 0" and "unat (f_sig b) = q * 2 ^ t" and "odd q"
  defines "e \<equiv> int (unat (f_exp1 a)) - int (unat (f_exp1 b)) + int (bit_len (unat (f_sig a))) - 64 - int t"
  assumes "- 126 \<le> e + int (bit_len (div_quotient a q)) - 1"
  shows "div_core a b = Inr (round_float ((f_sign a \<noteq> 0) \<noteq> (f_sign b \<noteq> 0)) (div_quotient a q) e)"
proof -
  define A j where "A = unat (f_sig a)" and "j = 64 - bit_len A"
  have A: "0 < A" "A < 2 ^ 24" using assms(3) f_sig_less by (simp_all add: A_def f_abs_def)
  note top = top_bits [OF A, folded j_def]
  have q: "0 < q" "q * 2 ^ t < 2 ^ 24" using assms(4,5) f_sig_less [of b] by (auto intro: gr0I)
  have "1 * 2 ^ t \<le> q * 2 ^ t" "q * 1 \<le> q * 2 ^ t" using q(1) by (intro mult_le_mono; simp)+
  then have t: "2 ^ t < (2 :: nat) ^ 24" "q < 2 ^ 24" using q(2) by linarith+
  have "t < 24" by (rule power_less_imp_less_exp [OF _ t(1)]) simp
  define Q where "Q = div_quotient a q"
  have Q: "Q = A * 2 ^ j div q" by (simp add: Q_def div_quotient_def A_def j_def)
  have "2 ^ 39 * q \<le> A * 2 ^ j" using t(2) top(1) by (intro order.trans [OF _ top(1)]) simp
  then have Q39: "2 ^ 39 \<le> Q" unfolding Q using q(1) by (simp add: less_eq_div_iff_mult_less_eq)
  have Q64: "Q < 2 ^ 64" unfolding Q using top(2) by (rule le_less_trans [OF div_le_dividend])
  have pos: "0 < Q" using Q39 by (rule less_le_trans [rotated]) simp
  have "(2 :: nat) ^ 39 < 2 ^ bit_len Q" using Q39 bit_len_bounds [OF pos] by linarith
  then have big: "39 < bit_len Q" by (rule power_less_imp_less_exp [rotated]) simp
  define sig :: u64 where "sig = of_nat (A * 2 ^ j) div of_nat q"
  have of64: "unat (of_nat k :: u64) = k" if "k < 2 ^ 64" for k
    using that by (simp add: unsigned_of_nat take_bit_nat_eq_self)
  have "q < 2 ^ 64" using t(2) by simp
  then have sig: "unat sig = Q"
    unfolding sig_def Q unat_div of64 [OF top(2)] by (simp only: of64)
  have fl: "f_exp1 v = f_exp1 v \<and> unat (f_exp1 v) < 255 \<and> 0 < unat (f_exp1 v)" if "f_finite v" for v
    using that f_exponent_less [of v] by (simp add: f_finite_def unat_f_exp1 word_unat_eq_iff)
  have ex: "uint (f_exp1 a) - uint (f_exp1 b) + 127 - (int (j + t) - 23 - 3) = e + 153"
    using top(3) by (simp add: e_def j_def A_def [symmetric] of_nat_diff)
  have odd: "odd (f_sign a XOR f_sign b) = ((f_sign a \<noteq> 0) \<noteq> (f_sign b \<noteq> 0))"
    using f_sign_cases [of a] f_sign_cases [of b] by auto
  have u: "unat (ucast v :: u64) = unat v" for v :: u32
  proof -
    have "unat v < 2 ^ LENGTH(32)" by (rule unsigned_less)
    then show ?thesis by (simp add: unsigned_ucast_eq take_bit_nat_eq_self)
  qed
  have "shl_to_top 64 (ucast (f_sig a)) 0 = Inr (of_nat (A * 2 ^ j), 0 + j)"
    using shl_to_top_run [of "ucast (f_sig a)" j 64 0] top by (simp only: u A_def j_def)
  moreover have "shr_to_odd 64 (ucast (f_sig b)) j = Inr (of_nat q, j + t)"
    using assms(4,5) \<open>t < 24\<close> by (intro shr_to_odd_run) (simp_all add: u)
  ultimately have "div_core a b = internal_normalize (f_sign a XOR f_sign b) (e + 153) sig"
    by (simp only: div_core_def bindE_Inr prod.case add_0 ex sig_def)
  also have "\<dots> = Inr (round_float (odd (f_sign a XOR f_sign b)) (unat sig) (e + 153 - 153))"
  proof (rule internal_normalize_normal)
    show "e + 153 \<le> 500"
      unfolding e_def using fl [OF assms(1)] top(3) [unfolded A_def] by linarith
    show "27 < bit_len (unat sig) \<or> e + 153 < 255" using big by (simp add: sig)
  qed (use assms(7) pos in \<open>simp_all add: sig Q_def\<close>)
  finally show ?thesis by (simp add: odd sig Q_def)
qed


lemma corner_div_finite:
  assumes "f_finite a" and "f_finite b" and "f_abs a \<noteq> 0" and "f_abs b \<noteq> 0"
  shows "internal_float_div b a = div_core a b"
proof -
  have z: "\<not> is_zero_f a" "\<not> is_zero_f b" using assms(3,4) by (simp_all add: f_abs_0 is_zero_f_def)
  moreover have "map_of corner_div (a, b) = None"
    using z corner_mul_finite [OF assms(1,2)] by (auto simp: corner_div_def is_inf_f_def is_zero_f_def)
  ultimately show ?thesis
    using corner_mul_finite [OF assms(1,2)] by (simp add: internal_float_div_def Let_def)
qed

text \<open>
  \<^bold>\<open>C8\<close> With a normal quotient, \<open>internal_float_div\<close> rounds, correctly, the quotient of the significands
  rounded down to at least 40 bits: \<open>q\<close> is the odd part of the divisor's significand.
  The result is the correctly rounded quotient whenever that division is exact.
\<close>

theorem float_div_correct:
  assumes "f_finite a" and "f_finite b" and "f_abs a \<noteq> 0"
    and "unat (f_sig b) = q * 2 ^ t" and "odd q"
    and "e = int (unat (f_exp1 a)) - int (unat (f_exp1 b)) + int (bit_len (unat (f_sig a))) - 64 - int t"
    and "- 126 \<le> e + int (bit_len (div_quotient a q)) - 1"
  shows "internal_float_div b a =
           Inr (round_float ((f_sign a \<noteq> 0) \<noteq> (f_sign b \<noteq> 0)) (div_quotient a q) e)"
proof -
  have "0 < q" using assms(5) by (rule odd_pos)
  then have "f_abs b \<noteq> 0" using assms(4) by (simp add: f_abs_def)
  then show ?thesis
    using div_core_normal [OF assms(1-5)] assms(6,7) corner_div_finite [OF assms(1-3)] by simp
qed

text \<open>
  The division \<open>8 / 1.9999999\<close>: the significands \<open>2 ^ 63\<close> and \<open>2 ^ 24 - 1\<close> have the quotient
  \<open>2 ^ 39 + 2 ^ 15\<close> and a remainder that is dropped.
\<close>

lemma f_parts_8:
  shows "f_exponent 0x41000000 = 130" "f_fraction 0x41000000 = 0" "f_sign 0x41000000 = 0"
    "f_exponent 0x3fffffff = 127" "f_fraction 0x3fffffff = 0x7fffff" "f_sign 0x3fffffff = 0"
    "f_exponent 0x40800000 = 129" "f_fraction 0x40800000 = 0"
    "f_exponent 0x40800001 = 129" "f_fraction 0x40800001 = 1"
  by (simp_all add: f_exponent_def f_fraction_def f_sign_def field_def drop_bit_eq_div take_bit_eq_mod)

lemma div_8:
  shows "f_finite 0x41000000" "f_finite 0x3fffffff" "f_abs 0x41000000 = 2 ^ 23 * 2 ^ 129"
    "unat (f_sig 0x3fffffff) = 0xffffff * 2 ^ 0" "odd (0xffffff :: nat)"
    "div_quotient 0x41000000 0xffffff = 2 ^ 39 + 2 ^ 15"
    "bit_len (unat (f_sig 0x41000000)) = 24"
    "unat (f_exp1 0x41000000) = 130" "unat (f_exp1 0x3fffffff) = 127"
proof -
  show b: "bit_len (unat (f_sig 0x41000000)) = 24"
    using bit_len_eq [of 23 "2 ^ 23"] by (simp add: unat_f_sig f_parts_8)
  show "div_quotient 0x41000000 0xffffff = 2 ^ 39 + 2 ^ 15"
    unfolding div_quotient_def b by (simp add: unat_f_sig f_parts_8)
qed (simp_all add: f_finite_def f_abs_def unat_f_sig unat_f_exp1 f_parts_8)

lemma bit_len_40: "bit_len (2 ^ 39 + 2 ^ 15) = 40"
  by (rule bit_len_eq [of 39, simplified]) simp_all

theorem float_div_correct_witness:
  "f_finite 0x41000000 \<and> f_abs 0x41000000 \<noteq> 0 \<and>
   internal_float_div 0x3fffffff 0x41000000 = Inr (round_float False (2 ^ 39 + 2 ^ 15) (- 37))"
  using float_div_correct [OF div_8(1,2) _ div_8(4,5), of "- 37"]
  by (simp add: div_8 bit_len_40 [simplified] f_parts_8)

text \<open>
  Without the dropped remainder the quotient looks like a tie and is rounded to the even neighbour
  \<open>0x40800000\<close>, although the exact quotient lies above the midpoint to \<open>0x40800001\<close>.
\<close>

lemma float_div_tie_lost:
  "internal_float_div 0x3fffffff 0x41000000 = Inr 0x40800000 \<and>
   (f_abs 0x40800000 + f_abs 0x40800001) * f_abs 0x3fffffff < 2 * f_abs 0x41000000 * 2 ^ 149 \<and>
   f_abs 0x41000000 * 2 ^ 149 < f_abs 0x40800001 * f_abs 0x3fffffff"
proof -
  have "round_float False (2 ^ 39 + 2 ^ 15) (- 37) = 0x40800000"
    by (simp add: round_float_def bit_len_40 [simplified] rne_def)
  moreover have "div_core 0x41000000 0x3fffffff = Inr (round_float False (2 ^ 39 + 2 ^ 15) (- 37))"
    using div_core_normal [OF div_8(1,2) _ div_8(4,5)] by (simp add: div_8 bit_len_40 [simplified] f_parts_8)
  ultimately show ?thesis
    using corner_div_finite [OF div_8(1,2)]
    by (simp add: div_8 f_abs_def unat_f_sig unat_f_exp1 f_parts_8)
qed

text \<open>
  Two inputs on which the FPU is not correctly rounded. The denormal product
  \<open>2^-149 * 2^19\<close> comes out twice too large. For \<open>8 / 1.9999999\<close> the division drops a remainder, the
  quotient looks like a tie and is rounded to the even neighbour \<open>0x40800000\<close>, although the exact
  quotient lies above the midpoint to \<open>0x40800001\<close>.
\<close>

lemma float_mul_div_misround:
  "internal_float_mul 0x49000000 0x00000001 = Inr 0x00100000 \<and>
   round_float False (f_abs 0x49000000 * f_abs 0x00000001) (- 298) = 0x00080000 \<and>
   internal_float_div 0x3fffffff 0x41000000 = Inr 0x40800000 \<and>
   (f_abs 0x40800000 + f_abs 0x40800001) * f_abs 0x3fffffff < 2 * f_abs 0x41000000 * 2 ^ 149 \<and>
   f_abs 0x41000000 * 2 ^ 149 < f_abs 0x40800001 * f_abs 0x3fffffff"
  using float_mul_denormal float_div_tie_lost by blast

end
