(* ===== verification/CacheCorrect.thy ===== *)
theory CacheCorrect
  imports Cache
begin

text \<open>
  The cache is transparent: from a coherent cache every access of one, two or four bytes
  returns what physical memory holds, straddling or not, and keeps coherence; a write
  inside one line keeps it too. The last section shows how a straddling write does not.
\<close>

section \<open>Address arithmetic\<close>

lemma unat_field: "unat (field lo n w) = unat w div 2 ^ lo mod 2 ^ n"
  by (simp only: field_def unsigned_take_bit_eq unat_drop_bit_eq)
    (simp add: take_bit_eq_mod drop_bit_eq_div)

lemma block_num_eq: "block_num p = unat p mod 64"
  by (simp add: block_num_def unat_field)

lemma group_num_eq: "group_num p = unat p div 64 mod 128"
  by (simp add: group_num_def unat_field)

lemma unat_u32_less: "unat w < 4294967296" for w :: u32
  using unsigned_less [of w, where 'a = nat] by simp

lemma unat_tag_of: "unat (tag_of p) = unat p div 8192"
  using unat_u32_less [of p] by (simp add: tag_of_def unat_field less_mult_imp_div_less)

lemma block_less [simp]: "block_num p < 64" and group_less [simp]: "group_num p < 128"
  by (simp_all add: block_num_eq group_num_eq)

lemma tag_of_eq_iff: "tag_of p = tag_of q \<longleftrightarrow> unat p div 8192 = unat q div 8192"
  by (metis unat_tag_of word_unat_eq_iff)

definition line_base :: "nat \<Rightarrow> u32 \<Rightarrow> nat" where
  "line_base g t = unat t * 8192 + g * 64"

lemma addr_split: "unat p = line_base (group_num p) (tag_of p) + block_num p"
proof -
  have "unat p div 8192 = unat p div 64 div 128" by (simp add: div_mult2_eq [symmetric])
  moreover have "unat p div 64 = unat p div 64 div 128 * 128 + unat p div 64 mod 128" by simp
  moreover have "unat p = unat p div 64 * 64 + unat p mod 64" by simp
  ultimately show ?thesis
    unfolding line_base_def unat_tag_of group_num_eq block_num_eq by linarith
qed

lemma line_base_of: "line_base (group_num p) (tag_of p) = unat p - block_num p"
  using addr_split [of p] by simp

lemma unat_align: "unat (p AND NOT (mask 6)) = unat p - block_num p" for p :: u32
proof -
  have "p = (p AND NOT (mask 6)) OR take_bit 6 p"
    by (rule bit_word_eqI) (auto simp: bit_or_iff bit_and_iff bit_not_iff bit_mask_iff bit_take_bit_iff)
  moreover have "(p AND NOT (mask 6)) AND take_bit 6 p = 0"
    by (rule bit_word_eqI) (auto simp: bit_and_iff bit_not_iff bit_mask_iff bit_take_bit_iff)
  ultimately have *: "p = (p AND NOT (mask 6)) + take_bit 6 p"
    by (metis disjunctive_add_eq_or)
  have "block_num p = unat (take_bit 6 p)" by (simp add: block_num_def field_def)
  moreover have "p AND NOT (mask 6) \<le> p" by (rule word_and_le2)
  ultimately show ?thesis
    using * by (metis add_diff_cancel_left' unat_sub word_le_nat_alt diff_diff_cancel unat_sub_if')
qed

lemma line_in_mem:
  assumes "unat p < MEM_SIZE_B"
  shows "unat p - block_num p + 64 \<le> MEM_SIZE_B"
proof -
  have "unat p div 64 < 2097152"
    using assms by (simp add: MEM_SIZE_B_def less_mult_imp_div_less)
  moreover have "unat p - block_num p = unat p div 64 * 64"
    unfolding block_num_eq by (rule minus_mod_eq_div_mult)
  ultimately show ?thesis by (simp add: MEM_SIZE_B_def)
qed

lemma line_base_inj:
  assumes "line_base g t = line_base g' t'" and "g < 128" and "g' < 128"
  shows "g = g' \<and> t = t'"
proof -
  have "line_base h s div 8192 = unat s \<and> line_base h s mod 8192 = h * 64" if "h < 128" for h s
    using that by (simp add: line_base_def)
  then have "unat t = unat t'" "g * 64 = g' * 64"
    using assms by metis+
  then show ?thesis by (simp add: word_unat_eq_iff)
qed

lemma line_base_disjoint:
  assumes "line_base g t \<noteq> line_base g' t'"
  shows "line_base g t + 64 \<le> line_base g' t' \<or> line_base g' t' + 64 \<le> line_base g t"
proof -
  have e: "line_base h s = (unat s * 128 + h) * 64" for h s by (simp add: line_base_def)
  have "x * 64 + 64 \<le> y * 64 \<or> y * 64 + 64 \<le> x * 64" if "x * 64 \<noteq> y * 64" for x y :: nat
  proof (cases "x < y")
    case True
    then have "(x + 1) * 64 \<le> y * 64" by (intro mult_le_mono1) simp
    then show ?thesis by simp
  next
    case False
    with that have "y + 1 \<le> x" by (metis Suc_eq_plus1 Suc_leI linorder_neqE_nat)
    then have "(y + 1) * 64 \<le> x * 64" by (intro mult_le_mono1)
    then show ?thesis by simp
  qed
  from this [OF assms [unfolded e]] show ?thesis unfolding e .
qed

section \<open>Coherence\<close>

definition line_ok :: "cmem \<Rightarrow> nat \<Rightarrow> bool" where
  "line_ok m k \<longleftrightarrow>
     (let l = L1_dcache m k; a = line_base (k div 8) (tag l) in
      valid_bit l = 0 \<or>
      (valid_bit l = 1 \<and> a + 64 \<le> MEM_SIZE_B \<and> (\<forall>j<64. data l j = hw_mem m (a + j))))"

definition coherent :: "cmem \<Rightarrow> bool" where
  "coherent m \<longleftrightarrow> (\<forall>k<1024. line_ok m k)"

definition mem_val :: "cmem \<Rightarrow> u32 \<Rightarrow> nat \<Rightarrow> u32" where
  "mem_val m p len = le_read (\<lambda>i. hw_mem m (unat p + i)) len"

lemma coherent_way:
  assumes "coherent m" and "g < 128" and "i < 8"
  shows "line_ok m (g * 8 + i)"
  using assms by (simp add: coherent_def)

lemma way_hit:
  assumes "coherent m" and "i < 8" and "tag (L1_dcache m (group_num p * 8 + i)) = tag_of p"
    and "valid_bit (L1_dcache m (group_num p * 8 + i)) = 1" and "block_num p + j < 64"
  shows "data (L1_dcache m (group_num p * 8 + i)) (block_num p + j) = hw_mem m (unat p + j)"
  using coherent_way [OF assms(1) group_less assms(2), of p] assms(2-5) addr_split [of p]
  by (simp add: line_ok_def Let_def add.assoc)

lemma init_cache_coherent: "coherent (init_cache m)"
  by (simp add: coherent_def line_ok_def init_cache_def Let_def)

lemma set_line_coherent:
  assumes "coherent m" and "line_ok (set_line k l m) k"
  shows "coherent (set_line k l m)"
  using assms by (auto simp: coherent_def line_ok_def set_line_def Let_def)

lemma hw_mem_set_line [simp]: "hw_mem (set_line k l m) = hw_mem m"
  by (simp add: set_line_def)

lemma victim_less: "victim g m < 8"
  by (auto simp: victim_def find_Some_iff split: option.split)

text \<open>Reads change no byte of memory, and lines of the accessed group only.\<close>

definition same_mem :: "u32 \<Rightarrow> cmem \<Rightarrow> cmem \<Rightarrow> bool" where
  "same_mem p m m' \<longleftrightarrow> hw_mem m' = hw_mem m \<and>
     (\<forall>k. k div 8 \<noteq> group_num p \<longrightarrow> L1_dcache m' k = L1_dcache m k)"

lemma same_mem_refl [simp]: "same_mem p m m"
  by (simp add: same_mem_def)

lemma cache_miss_spec:
  assumes "coherent m" and "0 < len" and "unat p + len \<le> MEM_SIZE_B"
  shows "\<exists>m'. cache_miss p len m = Inr (mem_val m p len, m') \<and> coherent m' \<and> same_mem p m m'"
proof -
  let ?k = "group_num p * 8 + victim (group_num p) m"
  have k: "?k div 8 = group_num p" using victim_less [of "group_num p" m] by simp
  have "unat p - block_num p + 64 \<le> MEM_SIZE_B"
    using assms(2,3) by (intro line_in_mem) simp
  then have "line_ok (fill_line p ?k m) ?k"
    unfolding line_ok_def Let_def fill_line_def set_line_def using k
    by (simp add: line_base_of unat_align copy_block_def)
  then have "coherent (fill_line p ?k m)"
    using assms(1) unfolding fill_line_def by (intro set_line_coherent)
  then show ?thesis
    using assms(3) k
    by (auto simp: cache_miss_def hw_mem_read_def mem_val_def fill_line_def same_mem_def set_line_def)
qed

section \<open>Reading\<close>

lemma unat_plus_small: "unat p + n \<le> MEM_SIZE_B \<Longrightarrow> unat (p + of_nat n) = unat p + n" for p :: u32
proof -
  assume a: "unat p + n \<le> MEM_SIZE_B"
  then have "n < 4294967296" "unat p + n < 4294967296" by (simp_all add: MEM_SIZE_B_def)
  then show ?thesis by (simp add: unat_word_ariths unat_of_nat)
qed

lemma mem_val_plus: "unat p + n \<le> MEM_SIZE_B \<Longrightarrow>
    mem_val m (p + of_nat n) len = le_read (\<lambda>i. hw_mem m (unat p + (n + i))) len"
  by (simp add: mem_val_def unat_plus_small add.assoc)

lemma mem_val_split:
  assumes "k + n \<le> 4" and "unat p + k \<le> MEM_SIZE_B"
  shows "mem_val m p (k + n) = push_bit (8 * k) (mem_val m (p + of_nat k) n) OR mem_val m p k"
  unfolding mem_val_plus [OF assms(2)]
  using le_read_append [OF assms(1), of "\<lambda>i. hw_mem m (unat p + i)"]
  by (simp add: mem_val_def)

lemma hit_value:
  assumes "coherent m" and "i < 8" and "tag (L1_dcache m (group_num p * 8 + i)) = tag_of p"
    and "valid_bit (L1_dcache m (group_num p * 8 + i)) = 1" and "len + block_num p \<le> 64"
  shows "le_read (\<lambda>j. data (L1_dcache m (group_num p * 8 + i)) (block_num p + j)) len = mem_val m p len"
  unfolding mem_val_def using assms by (intro le_read_cong way_hit) simp_all

lemma read_ways_inline:
  assumes "coherent m" and "len + block_num p \<le> 64" and "set is \<subseteq> {..<8}"
  shows "read_ways rec p len is ret False m = Inr (Returned (mem_val m p len, m)) \<or>
         read_ways rec p len is ret False m = Inr (Fell_through (ret, False, m))"
  using assms(3)
proof (induction "is")
  case Nil
  then show ?case by simp
next
  case (Cons i "is")
  then show ?case
    using assms(1,2) hit_value [of m i p len] by (simp add: Let_def)
qed

lemma ways: "set [0..<8] \<subseteq> {..<8 :: nat}"
  by auto

text \<open>A reader returns the bytes of memory and leaves memory and coherence alone.\<close>

definition reads :: "(u32 \<Rightarrow> nat \<Rightarrow> cmem \<Rightarrow> (u32 \<times> cmem) res) \<Rightarrow> u32 \<Rightarrow> nat \<Rightarrow> bool" where
  "reads rd p len \<longleftrightarrow> (\<forall>m. coherent m \<longrightarrow>
     (\<exists>m'. rd p len m = Inr (mem_val m p len, m') \<and> coherent m' \<and> same_mem p m m'))"

lemma cache_read_inline:
  assumes "0 < len" and "len + block_num p \<le> 64" and "unat p + len \<le> MEM_SIZE_B"
  shows "reads (cache_read_fuel (Suc n)) p len"
  unfolding reads_def
proof (intro allI impI)
  fix m assume m: "coherent m"
  show "\<exists>m'. cache_read_fuel (Suc n) p len m = Inr (mem_val m p len, m') \<and> coherent m' \<and>
        same_mem p m m'"
    using read_ways_inline [OF m assms(2) ways, of "cache_read_fuel n" 0]
      cache_miss_spec [OF m assms(1,3)] m
    by auto
qed

text \<open>The pieces of a straddling access of two or four bytes lie inside one line each.\<close>

lemma straddle_parts:
  assumes "len = 2 \<or> len = 4" and "64 < len + block_num p" and "unat p + len \<le> MEM_SIZE_B"
  shows "reads (cache_read_fuel (Suc n)) (p + of_nat (64 - block_num p)) (block_num p + len - 64)"
    and "reads (cache_read_fuel (Suc n)) p (64 - block_num p)"
proof -
  let ?k = "64 - block_num p"
  have k: "unat (p + of_nat ?k) = unat p + ?k"
    using assms(2,3) block_less [of p] by (intro unat_plus_small) linarith
  then have "block_num (p + of_nat ?k) = (unat p + (64 - unat p mod 64)) mod 64"
    by (simp add: block_num_eq)
  also have "\<dots> = 0"
    by (metis add.commute block_less block_num_eq le_add_diff_inverse2 less_imp_le mod_add_left_eq mod_self)
  finally have b: "block_num (p + of_nat ?k) = 0" .
  show "reads (cache_read_fuel (Suc n)) (p + of_nat ?k) (block_num p + len - 64)"
  proof (rule cache_read_inline)
    show "0 < block_num p + len - 64" "block_num p + len - 64 + block_num (p + of_nat ?k) \<le> 64"
      using assms(1,2) block_less [of p] unfolding b by linarith+
    show "unat (p + of_nat ?k) + (block_num p + len - 64) \<le> MEM_SIZE_B"
      using assms(1-3) block_less [of p] unfolding k by linarith
  qed
  show "reads (cache_read_fuel (Suc n)) p ?k"
    using assms block_less [of p] by (intro cache_read_inline; linarith)
qed

lemma next_group:
  assumes "block_num p + k = 64" and "unat p + k \<le> MEM_SIZE_B"
  shows "group_num (p + of_nat k) \<noteq> group_num p"
proof -
  have "unat p + k = 64 + unat p div 64 * 64"
    using assms(1) div_mult_mod_eq [of "unat p" 64] unfolding block_num_eq by linarith
  then have "(unat p + k) div 64 = unat p div 64 + 1" by simp
  moreover have "(x + 1) mod 128 \<noteq> x mod 128" for x :: nat by (simp add: mod_Suc)
  ultimately show ?thesis
    by (simp add: group_num_eq unat_plus_small [OF assms(2)])
qed

lemma readsD:
  assumes "reads rd p len" and "coherent m"
  obtains m' where "rd p len m = Inr (mem_val m p len, m')" and "coherent m'" and "same_mem p m m'"
  using assms unfolding reads_def by blast

lemma mem_val_hw: "hw_mem m' = hw_mem m \<Longrightarrow> mem_val m' p len = mem_val m p len"
  by (simp add: mem_val_def)

lemma read_ways_straddle:
  assumes "len = 2 \<or> len = 4" and "64 < len + block_num p" and "unat p + len \<le> MEM_SIZE_B"
    and "coherent m" and "hit \<Longrightarrow> ret = mem_val m p len" and "set is \<subseteq> {..<8}"
  shows "\<exists>ret' hit' m'. read_ways (cache_read_fuel (Suc n)) p len is ret hit m =
      Inr (Fell_through (ret', hit', m')) \<and> coherent m' \<and> hw_mem m' = hw_mem m \<and>
      (hit' \<longrightarrow> ret' = mem_val m p len)"
  using assms(4-6)
proof (induction "is" arbitrary: ret hit m)
  case Nil
  then show ?case by auto
next
  case (Cons i "is")
  let ?b = "block_num p" and ?l = "L1_dcache m (group_num p * 8 + i)"
  note parts = straddle_parts [OF assms(1-3), of n]
  have i: "i < 8" "set is \<subseteq> {..<8}" using Cons.prems(3) by auto
  consider (hit2) "tag ?l = tag_of p" "valid_bit ?l = 1" "len = 2"
    | (hit4) "tag ?l = tag_of p" "valid_bit ?l = 1" "len = 4"
    | (no) "\<not> (tag ?l = tag_of p \<and> valid_bit ?l = 1)"
    using assms(1) by blast
  then show ?case
  proof cases
    case hit2
    have b: "?b = 63" using assms(2) hit2(3) block_less [of p] by linarith
    have r1: "reads (cache_read_fuel (Suc n)) (p + 1) 1"
      using parts(1) hit2(3) b by simp
    from readsD [OF r1 Cons.prems(1)] obtain m1 where
      m1: "cache_read_fuel (Suc n) (p + 1) 1 m = Inr (mem_val m (p + 1) 1, m1)"
      "coherent m1" "same_mem (p + 1) m m1" by blast
    have "group_num (p + 1) \<noteq> group_num p"
      using next_group [of p 1] assms(3) hit2(3) b by simp
    then have l: "L1_dcache m1 (group_num p * 8 + i) = ?l"
      using m1(3) i(1) by (simp add: same_mem_def)
    have "data ?l ?b = hw_mem m (unat p)"
      using way_hit [OF Cons.prems(1) i(1) hit2(1,2), of 0] by simp
    then have "push_bit 8 (mem_val m (p + 1) 1) OR ucast (data ?l ?b) = mem_val m p 2"
      using mem_val_split [of 1 1 p m] assms(3) hit2(3) by (simp add: mem_val_def numeral_2_eq_2)
    then have "read_ways (cache_read_fuel (Suc n)) p len (i # is) ret hit m =
        read_ways (cache_read_fuel (Suc n)) p len is (mem_val m p len) True m1"
      unfolding read_ways.simps Let_def using hit2 m1(1) b l by (simp del: cache_read_fuel.simps)
    moreover have hw: "hw_mem m1 = hw_mem m" using m1(3) by (simp add: same_mem_def)
    ultimately show ?thesis
      using Cons.IH [OF m1(2) mem_val_hw [OF hw, symmetric] i(2), of True] by (simp only: mem_val_hw [OF hw] hw)
  next
    case hit4
    have b: "60 < ?b" "?b < 64" using assms(2) hit4(3) block_less [of p] by linarith+
    have r: "reads (cache_read_fuel (Suc n)) (p + of_nat (64 - ?b)) (?b - 60)"
      using parts(1) hit4(3) by simp
    from readsD [OF r Cons.prems(1)] obtain m1 where
      m1: "cache_read_fuel (Suc n) (p + of_nat (64 - ?b)) (?b - 60) m =
         Inr (mem_val m (p + of_nat (64 - ?b)) (?b - 60), m1)"
      "coherent m1" "same_mem (p + of_nat (64 - ?b)) m m1" by blast
    from readsD [OF parts(2) m1(2)] obtain m2 where
      m2: "cache_read_fuel (Suc n) p (64 - ?b) m1 = Inr (mem_val m1 p (64 - ?b), m2)"
      "coherent m2" "same_mem p m1 m2" by blast
    have hw: "hw_mem m1 = hw_mem m" "hw_mem m2 = hw_mem m"
      using m1(3) m2(3) by (simp_all add: same_mem_def)
    have eq: "64 - ?b + (?b - 60) = 4" and le: "unat p + (64 - ?b) \<le> MEM_SIZE_B"
      using b assms(3) hit4(3) by linarith+
    have "push_bit (8 * (64 - ?b)) (mem_val m (p + of_nat (64 - ?b)) (?b - 60)) OR
        mem_val m1 p (64 - ?b) = mem_val m p 4"
      unfolding mem_val_hw [OF hw(1)]
      by (rule mem_val_split [OF _ le, of "?b - 60" m, unfolded eq, OF order_refl, symmetric])
    then have "read_ways (cache_read_fuel (Suc n)) p len (i # is) ret hit m =
        read_ways (cache_read_fuel (Suc n)) p len is (mem_val m p len) True m2"
      unfolding read_ways.simps Let_def using hit4 m1(1) m2(1) b
      by (simp del: cache_read_fuel.simps of_nat_diff)
    then show ?thesis
      using Cons.IH [OF m2(2) mem_val_hw [OF hw(2), symmetric] i(2), of True]
      by (simp only: mem_val_hw [OF hw(2)] hw)
  next
    case no
    then show ?thesis
      using Cons.IH [OF Cons.prems(1,2) i(2)] Cons.IH [OF Cons.prems(1) _ i(2), of False ret]
      by (auto simp: Let_def)
  qed
qed

text \<open>
  \<^bold>\<open>C1\<close>. From a coherent cache, \<open>cache_read\<close> of 1, 2 or 4 bytes in physical
  memory returns the bytes of \<open>hw_mem\<close>, hit or miss, inside a line or across two, leaves
  memory unchanged and the cache coherent; its recursion ends at the fuel given.
\<close>

theorem cache_read_transparent:
  assumes "coherent m" and "len \<in> {1, 2, 4}" and "unat paddr + len \<le> MEM_SIZE_B"
  shows "\<exists>m'. cache_read paddr len m = Inr (mem_val m paddr len, m') \<and>
    coherent m' \<and> hw_mem m' = hw_mem m"
proof (cases "len + block_num paddr \<le> 64")
  case True
  have "0 < len" using assms(2) by auto
  from readsD [OF cache_read_inline [OF this True assms(3), of 1] assms(1)] show ?thesis
    by (metis One_nat_def Suc_1 cache_read_def same_mem_def)
next
  case False
  then have l: "len = 2 \<or> len = 4" "64 < len + block_num paddr"
    using assms(2) block_less [of paddr] by (auto simp del: block_less)
  from read_ways_straddle [OF l assms(3,1), of False 0 "[0..<8]" 0] ways obtain ret' hit' m' where
    r: "read_ways (cache_read_fuel (Suc 0)) paddr len [0..<8] 0 False m =
        Inr (Fell_through (ret', hit', m'))" "coherent m'" "hw_mem m' = hw_mem m"
      "hit' \<longrightarrow> ret' = mem_val m paddr len"
    by blast
  have e: "cache_read paddr len m = (if hit' then Inr (ret', m') else cache_miss paddr len m')"
    unfolding cache_read_def numeral_2_eq_2 cache_read_fuel.simps(2) [of "Suc 0"]
    by (simp only: r(1) bindE_Inr exit.case prod.case)
  show ?thesis
  proof (cases hit')
    case True
    then show ?thesis using r e by simp
  next
    case False
    have "0 < len" using assms(2) by auto
    from cache_miss_spec [OF r(2) this assms(3)] False e r(3) show ?thesis
      by (auto simp: same_mem_def mem_val_hw [OF r(3)])
  qed
qed

abbreviation empty_cache :: "(nat \<Rightarrow> u8) \<Rightarrow> cmem" where
  "empty_cache f \<equiv> init_cache \<lparr>hw_mem = f, L1_dcache = \<lambda>_. \<lparr>valid_bit = 0, tag = 0, data = \<lambda>_. 0\<rparr>\<rparr>"

lemma cache_read_transparent_witness:
  "\<exists>m'. cache_read 0x3e 4 (empty_cache of_nat) = Inr (mem_val (empty_cache of_nat) 0x3e 4, m') \<and>
    coherent m' \<and> hw_mem m' = hw_mem (empty_cache of_nat)"
  by (rule cache_read_transparent [OF init_cache_coherent]) (simp_all add: MEM_SIZE_B_def)

section \<open>Writing\<close>

lemma line_ok_cong:
  "L1_dcache m' k = L1_dcache m k \<Longrightarrow> hw_mem m' = hw_mem m \<Longrightarrow> line_ok m' k = line_ok m k"
  by (simp add: line_ok_def)

lemma refresh_line_spec:
  assumes "unat p = line_base (k div 8) (tag (L1_dcache m k))" and "unat p + 64 \<le> MEM_SIZE_B"
    and "valid_bit (L1_dcache m k) = 1"
  shows "\<exists>m'. refresh_line k p m = Inr m' \<and> hw_mem m' = hw_mem m \<and> line_ok m' k \<and>
    (\<forall>k'. k' \<noteq> k \<longrightarrow> L1_dcache m' k' = L1_dcache m k') \<and>
    tag (L1_dcache m' k) = tag (L1_dcache m k) \<and> valid_bit (L1_dcache m' k) = 1"
  using assms by (simp add: refresh_line_def set_line_def line_ok_def copy_block_def)

text \<open>
  Inside one line the loop refreshes every copy of the line: good lines stay good, and a
  way of the group holding the written line is good afterwards.
\<close>

lemma write_ways_inline:
  assumes "len + block_num paddr \<le> 64" and "unat p = line_base (group_num paddr) (tag_of paddr)"
    and "unat p + 64 \<le> MEM_SIZE_B" and "set is \<subseteq> {..<8}"
  shows "\<exists>m'. write_ways paddr len is p m = Inr m' \<and> hw_mem m' = hw_mem m \<and>
    (\<forall>k. line_ok m k \<longrightarrow> line_ok m' k) \<and>
    (\<forall>i\<in>set is. let l = L1_dcache m (group_num paddr * 8 + i) in
       tag l = tag_of paddr \<and> valid_bit l = 1 \<longrightarrow> line_ok m' (group_num paddr * 8 + i))"
  using assms(4)
proof (induction "is" arbitrary: m)
  case Nil
  then show ?case by simp
next
  case (Cons i "is")
  let ?g = "group_num paddr" let ?k = "?g * 8 + i" let ?l = "L1_dcache m ?k"
  have i: "i < 8" "set is \<subseteq> {..<8}" using Cons.prems by auto
  show ?case
  proof (cases "tag ?l = tag_of paddr \<and> valid_bit ?l = 1")
    case True
    have "unat p = line_base (?k div 8) (tag ?l)" using True assms(2) i(1) by simp
    from refresh_line_spec [OF this assms(3)] True obtain m1 where m1:
      "refresh_line ?k p m = Inr m1" "hw_mem m1 = hw_mem m" "line_ok m1 ?k"
      "\<forall>k'. k' \<noteq> ?k \<longrightarrow> L1_dcache m1 k' = L1_dcache m k'"
      "tag (L1_dcache m1 ?k) = tag ?l" "valid_bit (L1_dcache m1 ?k) = 1" by blast
    from Cons.IH [OF i(2), of m1] obtain m2 where m2:
      "write_ways paddr len is p m1 = Inr m2" "hw_mem m2 = hw_mem m1"
      "\<forall>k. line_ok m1 k \<longrightarrow> line_ok m2 k"
      "\<forall>j\<in>set is. tag (L1_dcache m1 (?g * 8 + j)) = tag_of paddr \<and>
         valid_bit (L1_dcache m1 (?g * 8 + j)) = 1 \<longrightarrow> line_ok m2 (?g * 8 + j)"
      unfolding Let_def by blast
    have "line_ok m k \<Longrightarrow> line_ok m1 k" for k
      using m1(3) line_ok_cong [OF m1(4) [rule_format] m1(2), of k] by (cases "k = ?k") auto
    moreover have "line_ok m2 (?g * 8 + j)"
      if "j \<in> set (i # is)" "tag (L1_dcache m (?g * 8 + j)) = tag_of paddr"
         "valid_bit (L1_dcache m (?g * 8 + j)) = 1" for j
      using that m2(3,4) m1(3,4) by (cases "j = i") auto
    moreover have "write_ways paddr len (i # is) p m = Inr m2"
      using True m1(1) m2(1) assms(1) by (simp add: Let_def)
    ultimately show ?thesis
      using m1(2) m2(2,3) unfolding Let_def by (intro exI [of _ m2]) metis
  next
    case False
    then have "write_ways paddr len (i # is) p m = write_ways paddr len is p m"
      by (auto simp: Let_def)
    then show ?thesis
      using Cons.IH [OF i(2), of m] False by (simp only: Let_def list.set ball_simps) blast
  qed
qed

lemma cache_write_inline:
  assumes "coherent m" and "0 < len" and "len + block_num paddr \<le> 64"
    and "unat paddr + len \<le> MEM_SIZE_B"
  shows "\<exists>m'. cache_write paddr len d m = Inr m' \<and> coherent m' \<and>
    hw_mem m' = store_bytes (hw_mem m) (unat paddr) len d"
proof -
  let ?p = "paddr - of_nat (block_num paddr)" and ?g = "group_num paddr"
  define m0 where "m0 = m\<lparr>hw_mem := store_bytes (hw_mem m) (unat paddr) len d\<rparr>"
  have p: "unat ?p = line_base ?g (tag_of paddr)"
  proof -
    have "unat (of_nat (block_num paddr) :: u32) = block_num paddr"
      using block_less [of paddr] by (simp add: unat_of_nat del: block_less)
    then show ?thesis
      using addr_split [of paddr] by (simp add: unat_sub word_le_nat_alt)
  qed
  have le: "unat ?p + 64 \<le> MEM_SIZE_B"
    unfolding p line_base_of using assms(2,4) by (intro line_in_mem) simp
  from write_ways_inline [OF assms(3) p le ways, of m0] obtain m' where m':
    "write_ways paddr len [0..<8] ?p m0 = Inr m'" "hw_mem m' = hw_mem m0"
    "\<forall>k. line_ok m0 k \<longrightarrow> line_ok m' k"
    "\<forall>i\<in>set [0..<8]. tag (L1_dcache m0 (?g * 8 + i)) = tag_of paddr \<and>
       valid_bit (L1_dcache m0 (?g * 8 + i)) = 1 \<longrightarrow> line_ok m' (?g * 8 + i)"
    unfolding Let_def by blast
  have "line_ok m' k" if k: "k < 1024" for k
  proof (cases "k div 8 = ?g \<and> tag (L1_dcache m k) = tag_of paddr \<and> valid_bit (L1_dcache m k) = 1")
    case True
    then have "k = ?g * 8 + k mod 8" "k mod 8 \<in> set [0..<8]"
      using div_mult_mod_eq [of k 8] by auto
    then show ?thesis using m'(4) True by (metis cmem.select_convs(2) cmem.surjective cmem.update_convs(1) m0_def)
  next
    case False
    have ok: "line_ok m k" using assms(1) k by (simp add: coherent_def)
    have kk: "k div 8 < 128" using k by (simp add: less_mult_imp_div_less)
    let ?l = "L1_dcache m k" let ?a = "line_base (k div 8) (tag ?l)"
    have "\<forall>j<64. \<not> (unat paddr \<le> ?a + j \<and> ?a + j < unat paddr + len)" if v: "valid_bit ?l = 1"
    proof -
      have "?a \<noteq> line_base ?g (tag_of paddr)"
        using False v kk line_base_inj [of "k div 8" "tag ?l" ?g "tag_of paddr"] by auto
      from line_base_disjoint [OF this] show ?thesis
        using assms(3) addr_split [of paddr] by (intro allI impI; linarith)
    qed
    then have "line_ok m0 k"
      using ok by (auto simp: line_ok_def Let_def m0_def store_bytes_def)
    then show ?thesis using m'(3) by blast
  qed
  then show ?thesis
    using m'(1,2) assms(4)
    by (auto simp: cache_write_def hw_mem_write_def coherent_def m0_def)
qed

text \<open>
  \<^bold>\<open>C2\<close>. From a coherent cache, \<open>cache_write\<close> of an access inside one line
  stores exactly its bytes in \<open>hw_mem\<close> and keeps the cache coherent.
\<close>

theorem cache_write_coherent:
  assumes "coherent m" and "0 < len" and "len + block_num paddr \<le> 64"
    and "unat paddr + len \<le> MEM_SIZE_B"
  shows "\<exists>m'. cache_write paddr len d m = Inr m' \<and> coherent m' \<and>
    hw_mem m' = store_bytes (hw_mem m) (unat paddr) len d"
  using assms by (rule cache_write_inline)

lemma cache_write_coherent_witness:
  "\<exists>m'. cache_write 0x1000 4 0xdeadbeef (empty_cache of_nat) = Inr m' \<and> coherent m' \<and>
    hw_mem m' = store_bytes (hw_mem (empty_cache of_nat)) (unat (0x1000 :: u32)) 4 0xdeadbeef"
  by (rule cache_write_coherent [OF init_cache_coherent])
    (simp_all add: MEM_SIZE_B_def block_num_eq)

section \<open>Straddling writes\<close>

lemma tag_of_eq: "tag_of p = of_nat (unat p div 8192)"
  unfolding unat_tag_of [symmetric] by simp

lemma cache_read_unfold: "cache_read p len m =
    bindE (read_ways (cache_read_fuel (Suc 0)) p len [0..<8] 0 False m) (\<lambda>r.
       case r of
         Returned (ret, m) \<Rightarrow> Inr (ret, m)
       | Fell_through (ret, hit, m) \<Rightarrow> if hit then Inr (ret, m) else cache_miss p len m)"
  unfolding cache_read_def numeral_2_eq_2 by (rule cache_read_fuel.simps(2))

text \<open>A cache whose only valid line holds the second line of zeroed memory.\<close>

definition second_line_cached :: cmem where
  "second_line_cached =
     \<lparr>hw_mem = \<lambda>_. 0,
      L1_dcache = (\<lambda>_. \<lparr>valid_bit = 0, tag = 0, data = \<lambda>_. 0\<rparr>)
        (8 := \<lparr>valid_bit = 1, tag = 0, data = \<lambda>_. 0\<rparr>)\<rparr>"

lemma second_line_cached_coherent: "coherent second_line_cached"
  by (simp add: coherent_def line_ok_def second_line_cached_def Let_def line_base_def MEM_SIZE_B_def)

text \<open>
  \<open>cache_write\<close> looks for copies of the second line of a straddling
  access only when the first line is cached, so the copy goes stale: after storing
  \<open>0xffffffff\<close> at \<open>0x3e\<close> in a coherent cache that holds the line of \<open>0x40\<close>
  only, memory at \<open>0x40\<close> is \<open>0xff\<close> and \<open>cache_read\<close> still returns 0.
\<close>

lemma cache_write_straddle_stale:
  "coherent second_line_cached \<and>
   (\<exists>m'. cache_write 0x3e 4 0xffffffff second_line_cached = Inr m' \<and>
      hw_mem m' 0x40 = 0xff \<and> cache_read 0x40 1 m' = Inr (0, m') \<and> \<not> coherent m')"
proof -
  let ?m = "second_line_cached\<lparr>hw_mem := store_bytes (hw_mem second_line_cached) 0x3e 4 0xffffffff\<rparr>"
  have ways: "[0..<8] = [0 :: nat, 1, 2, 3, 4, 5, 6, 7]" by (simp add: upt_rec)
  have a: "block_num 0x3e = 62" "group_num 0x3e = 0" "tag_of 0x3e = 0"
    "block_num 0x40 = 0" "group_num 0x40 = 1" "tag_of 0x40 = 0"
    by (simp_all add: block_num_eq group_num_eq tag_of_eq)
  have w: "cache_write 0x3e 4 0xffffffff second_line_cached = Inr ?m"
    unfolding cache_write_def hw_mem_write_def ways
    by (simp add: MEM_SIZE_B_def second_line_cached_def a Let_def)
  have h: "hw_mem ?m 0x40 = 0xff"
    by (simp add: store_bytes_def byte_of_def drop_bit_eq_div)
  have r: "cache_read 0x40 1 ?m = Inr (0, ?m)"
    unfolding cache_read_unfold ways by (simp add: second_line_cached_def a Let_def)
  have "\<not> line_ok ?m 8"
    using h by (auto simp: line_ok_def Let_def second_line_cached_def line_base_def
        intro!: exI [of _ 0])
  then have "\<not> coherent ?m" by (auto simp: coherent_def intro!: exI [of _ 8])
  with w h r second_line_cached_coherent show ?thesis by blast
qed

end
