(* ===== verification/Memory.thy ===== *)
theory Memory
  imports Machine
begin

text \<open>
  The memory system above the cache: physical accesses dispatched to memory or devices,
  the two-level page walk and the TLB (\<open>nemu/src/memory/mmu/tlb.c\<close>,
  \<open>page.c\<close>), segmentation (\<open>segment.c\<close>) and the linear and virtual accesses of
  \<open>nemu/src/memory/memory.c\<close>, with CACHE_ENABLED, IA32_SEG, IA32_PAGE and
  TLB_ENABLED as \<open>include/config.h\<close> sets them.
\<close>

section \<open>Physical addresses\<close>

definition paddr_read :: "u32 \<Rightarrow> nat \<Rightarrow> mach \<Rightarrow> (u32 \<times> mach) res" where
  "paddr_read paddr len s =
     (case is_mmio paddr (mmio_st s) of
        None \<Rightarrow> bindE (cache_read paddr len (mem s)) (\<lambda>(ret, m). Inr (ret, s\<lparr>mem := m\<rparr>))
      | Some k \<Rightarrow> bindE (mmio_read paddr len k (mmio_st s)) (\<lambda>(ret, d). Inr (ret, s\<lparr>mmio_st := d\<rparr>)))"

definition paddr_write :: "u32 \<Rightarrow> nat \<Rightarrow> u32 \<Rightarrow> mach \<Rightarrow> mach res" where
  "paddr_write paddr len d s =
     (case is_mmio paddr (mmio_st s) of
        None \<Rightarrow> bindE (cache_write paddr len d (mem s)) (\<lambda>m. Inr (s\<lparr>mem := m\<rparr>))
      | Some k \<Rightarrow> bindE (mmio_write paddr len d k (mmio_st s)) (\<lambda>dev. Inr (s\<lparr>mmio_st := dev\<rparr>)))"

section \<open>Paging\<close>

abbreviation PAGE_MASK :: u32 where "PAGE_MASK \<equiv> mask 12"

definition pde_present :: "u32 \<Rightarrow> bool" where "pde_present e = bit e 0"
definition pt_idx :: "u32 \<Rightarrow> u32" where "pt_idx a = field 12 10 a"
definition pdir_idx :: "u32 \<Rightarrow> u32" where "pdir_idx a = field 22 10 a"

definition page_walk :: "u32 \<Rightarrow> mach \<Rightarrow> (u32 \<times> mach) res" where
  "page_walk laddr s =
     (let pdir_base = cr3 (cpu s) AND NOT PAGE_MASK in
      bindE (paddr_read (pdir_base + pdir_idx laddr * 4) 4 s) (\<lambda>(pde, s).
      assertE ''page_walk'' (pde_present pde)
       (let pt_base = pde AND NOT PAGE_MASK in
        bindE (paddr_read (pt_base + pt_idx laddr * 4) 4 s) (\<lambda>(pte, s).
        assertE ''page_walk'' (pde_present pte) (Inr (pte, s))))))"

text \<open>\<open>rand()\<close> of the C library: the next element of an arbitrary sequence.\<close>

definition c_rand :: "mach \<Rightarrow> u32 \<times> mach" where
  "c_rand s = (rand_seq s (rand_pos s), s\<lparr>rand_pos := Suc (rand_pos s)\<rparr>)"

text \<open>
  \<open>tlb_query\<close>: \<open>repne scasl\<close> compares the key with \<open>size + 1\<close> words from
  \<open>key[0]\<close> and leaves in \<open>ecx\<close> how many it did not look at. A match at the word behind
  the array leaves the same \<open>idx = size\<close> as no match, so only the entries decide.
\<close>

definition tlb_query :: "u32 \<Rightarrow> mach \<Rightarrow> (bool \<times> nat) \<times> mach" where
  "tlb_query lnaddr s =
     (let k = (lnaddr AND NOT PAGE_MASK) OR 1 in
      case find (\<lambda>i. tlb_key (tlb s) i = k) [0..<tlb_size (tlb s)] of
        Some idx \<Rightarrow> ((True, idx), s)
      | None \<Rightarrow> let (r, s) = c_rand s in
          ((False, unat (r AND mask (tlb_size_width (tlb s)))), s))"

definition set_tlb_key :: "nat \<Rightarrow> u32 \<Rightarrow> mach \<Rightarrow> mach" where
  "set_tlb_key i v s = s\<lparr>tlb := (tlb s)\<lparr>tlb_key := (tlb_key (tlb s))(i := v)\<rparr>\<rparr>"

definition set_tlb_pte :: "nat \<Rightarrow> u32 \<Rightarrow> mach \<Rightarrow> mach" where
  "set_tlb_pte i v s = s\<lparr>tlb := (tlb s)\<lparr>tlb_pte := (tlb_pte (tlb s))(i := v)\<rparr>\<rparr>"

definition tlb_fetch :: "u32 \<Rightarrow> mach \<Rightarrow> (nat \<times> mach) res" where
  "tlb_fetch lnaddr s =
     (let ((hit, idx), s) = tlb_query lnaddr s in
      if hit then Inr (idx, s)
      else
        let s = set_tlb_key idx ((lnaddr AND NOT PAGE_MASK) OR 1) s in
        bindE (page_walk lnaddr s) (\<lambda>(pte, s). Inr (idx, set_tlb_pte idx pte s)))"

definition tlb_read :: "u32 \<Rightarrow> mach \<Rightarrow> (u32 \<times> mach) res" where
  "tlb_read lnaddr s =
     bindE (tlb_fetch lnaddr s) (\<lambda>(idx, s). Inr (tlb_pte (tlb s) idx AND NOT PAGE_MASK, s))"

definition init_tlb :: "TLB \<Rightarrow> TLB" where
  "init_tlb t = t\<lparr>tlb_key := (\<lambda>i. if i < tlb_size t then 0 else tlb_key t i)\<rparr>"

definition make_tlb :: "TLB \<Rightarrow> nat \<Rightarrow> TLB" where
  "make_tlb t size_width = t\<lparr>tlb_size_width := size_width, tlb_size := 2 ^ size_width\<rparr>"

definition make_all_tlb :: "mach \<Rightarrow> mach" where
  "make_all_tlb s = s\<lparr>tlb := make_tlb (tlb s) 6\<rparr>"

definition init_all_tlb :: "mach \<Rightarrow> mach" where
  "init_all_tlb s = s\<lparr>tlb := init_tlb (tlb s)\<rparr>"

definition page_translate :: "u32 \<Rightarrow> mach \<Rightarrow> (u32 \<times> mach) res" where
  "page_translate laddr s =
     bindE (tlb_read laddr s) (\<lambda>(frame, s). Inr (frame OR (laddr AND PAGE_MASK), s))"

section \<open>Linear and virtual addresses\<close>

abbreviation (input) "len_ok len \<equiv> len = 1 \<or> len = 2 \<or> len = (4 :: nat)"

definition laddr_read :: "u32 \<Rightarrow> nat \<Rightarrow> mach \<Rightarrow> (u32 \<times> mach) res" where
  "laddr_read laddr len s =
     assertE ''laddr_read'' (len_ok len)
       (if cr0_pg (cr0 (cpu s)) then
          bindE (page_translate laddr s) (\<lambda>(paddr, s). paddr_read paddr len s)
        else paddr_read laddr len s)"

definition laddr_write :: "u32 \<Rightarrow> nat \<Rightarrow> u32 \<Rightarrow> mach \<Rightarrow> mach res" where
  "laddr_write laddr len d s =
     assertE ''laddr_write'' (len_ok len)
       (if cr0_pg (cr0 (cpu s)) then
          bindE (page_translate laddr s) (\<lambda>(paddr, s). paddr_write paddr len d s)
        else paddr_write laddr len d s)"

definition segment_translate :: "u32 \<Rightarrow> nat \<Rightarrow> mach \<Rightarrow> u32" where
  "segment_translate offset sreg s = sr_base (segReg (cpu s) sreg) + offset"

definition vaddr_read :: "u32 \<Rightarrow> nat \<Rightarrow> nat \<Rightarrow> mach \<Rightarrow> (u32 \<times> mach) res" where
  "vaddr_read vaddr sreg len s =
     assertE ''vaddr_read'' (len_ok len)
       (laddr_read (if cr0_pe (cr0 (cpu s)) then segment_translate vaddr sreg s else vaddr) len s)"

definition vaddr_write :: "u32 \<Rightarrow> nat \<Rightarrow> nat \<Rightarrow> u32 \<Rightarrow> mach \<Rightarrow> mach res" where
  "vaddr_write vaddr sreg len d s =
     assertE ''vaddr_write'' (len_ok len)
       (laddr_write (if cr0_pe (cr0 (cpu s)) then segment_translate vaddr sreg s else vaddr) len d s)"

definition init_mem :: "mach \<Rightarrow> mach" where
  "init_mem s =
     init_all_tlb (make_all_tlb
       (s\<lparr>mem := init_cache ((mem s)\<lparr>hw_mem := (\<lambda>i. if i < MEM_SIZE_B then 0 else hw_mem (mem s) i)\<rparr>)\<rparr>))"

definition instr_fetch :: "u32 \<Rightarrow> nat \<Rightarrow> mach \<Rightarrow> (u32 \<times> mach) res" where
  "instr_fetch vaddr len s =
     assertE ''instr_fetch'' (len_ok len) (vaddr_read vaddr SREG_CS len s)"

section \<open>Segment registers\<close>

text \<open>
  \<open>load_sreg\<close>: the descriptor fields of the two words \<open>v0\<close>, \<open>v1\<close> of the GDT
  entry. The asserts sit between the assignments, as in the code.
\<close>

definition load_sreg :: "nat \<Rightarrow> mach \<Rightarrow> mach res" where
  "load_sreg sreg s =
     (let index = sel_index (sreg_val sreg s) in
      bindE (laddr_read (gdtr_base (cpu s) + 8 * index) 4 s) (\<lambda>(v0, s).
      bindE (laddr_read (gdtr_base (cpu s) + 8 * index + 4) 4 s) (\<lambda>(v1, s).
      let base = field 16 16 v0 + push_bit 16 (field 0 8 v1) + push_bit 24 (field 24 8 v1);
          limit = field 0 16 v0 + push_bit 16 (field 16 4 v1);
          s = upd_sreg sreg (\<lambda>r. r\<lparr>sr_base := base\<rparr>) s in
      assertE ''load_sreg'' (base = 0)
       (let s = upd_sreg sreg (\<lambda>r. r\<lparr>sr_limit := limit\<rparr>) s in
        assertE ''load_sreg'' (limit = 0xfffff)
       (assertE ''load_sreg'' (bit v1 23)
         (Inr (upd_sreg sreg (\<lambda>r. r\<lparr>sr_type := field 8 4 v1,
                 sr_privilege_level := field 13 2 v1,
                 sr_soft_use := field 20 1 v1\<rparr>) s)))))))"

end
