(* ===== verification/ByteMem.thy ===== *)
theory ByteMem
  imports CacheCorrect Memory
begin

text \<open>
  The interface the instruction set relies on: a byte-addressed memory with reads and
  writes of a few bytes. \<open>ok\<close> says which accesses the provider supports in a state,
  \<open>contents\<close> is the memory the client sees, \<open>core\<close> the rest of the state, which
  accesses leave alone. The clients are stacks: words stored downwards are loaded back
  upwards. The providers are the cache below and the virtual address space.
\<close>

locale byte_memory =
  fixes rd :: "u32 \<Rightarrow> nat \<Rightarrow> 's \<Rightarrow> (u32 \<times> 's) res"
    and wr :: "u32 \<Rightarrow> nat \<Rightarrow> u32 \<Rightarrow> 's \<Rightarrow> 's res"
    and inv :: "'s \<Rightarrow> bool"
    and ok :: "'s \<Rightarrow> u32 \<Rightarrow> nat \<Rightarrow> bool"
    and contents :: "'s \<Rightarrow> nat \<Rightarrow> u8"
    and core :: "'s \<Rightarrow> 'c"
  assumes rd_law: "inv s \<Longrightarrow> ok s a n \<Longrightarrow>
      \<exists>s'. rd a n s = Inr (le_read (\<lambda>i. contents s (unat a + i)) n, s') \<and>
        inv s' \<and> contents s' = contents s \<and> core s' = core s"
    and wr_law: "inv s \<Longrightarrow> ok s a n \<Longrightarrow>
      \<exists>s'. wr a n d s = Inr s' \<and> inv s' \<and>
        contents s' = store_bytes (contents s) (unat a) n d \<and> core s' = core s"
    and ok_core: "core s' = core s \<Longrightarrow> ok s' a n = ok s a n"
begin

lemma write_read:
  assumes "inv s" and "ok s a n"
  shows "\<exists>s' s''. wr a n d s = Inr s' \<and> rd a n s' = Inr (take_bit (8 * n) d, s'')"
proof -
  from wr_law [OF assms] obtain s' where s': "wr a n d s = Inr s'" "inv s'"
    "contents s' = store_bytes (contents s) (unat a) n d" "core s' = core s" by blast
  have "ok s' a n" using ok_core [OF s'(4)] assms(2) by simp
  from rd_law [OF s'(2) this] s'(1,3) show ?thesis
    by (auto simp: le_read_store_same)
qed

lemma write_read_other:
  assumes "inv s" and "ok s a n" and "ok s b k" and "unat b + k \<le> unat a \<or> unat a + n \<le> unat b"
  shows "\<exists>s' s''. wr a n d s = Inr s' \<and>
    rd b k s' = Inr (le_read (\<lambda>i. contents s (unat b + i)) k, s'')"
proof -
  from wr_law [OF assms(1,2)] obtain s' where s': "wr a n d s = Inr s'" "inv s'"
    "contents s' = store_bytes (contents s) (unat a) n d" "core s' = core s" by blast
  have "ok s' b k" using ok_core [OF s'(4)] assms(3) by simp
  from rd_law [OF s'(2) this] s'(1,3) assms(4) show ?thesis
    by (auto simp: le_read_store_other)
qed

text \<open>\<open>words_at s a ws\<close>: the little-endian words \<open>ws\<close> lie in memory from address
  \<open>a\<close> up.\<close>

definition word_at :: "'s \<Rightarrow> nat \<Rightarrow> u32" where
  "word_at s a = le_read (\<lambda>i. contents s (a + i)) 4"

fun words_at :: "'s \<Rightarrow> nat \<Rightarrow> u32 list \<Rightarrow> bool" where
  "words_at s a [] = True"
| "words_at s a (w # ws) = (word_at s a = w \<and> words_at s (a + 4) ws)"

lemma words_at_cong: "contents s' = contents s \<Longrightarrow> words_at s' a ws = words_at s a ws"
  by (induction ws arbitrary: a) (simp_all add: word_at_def)

lemma word_at_store_other:
  "contents s' = store_bytes (contents s) a n d \<Longrightarrow> b + 4 \<le> a \<or> a + n \<le> b \<Longrightarrow>
   word_at s' b = word_at s b"
  by (simp add: word_at_def le_read_store_other)

lemma words_at_store_below:
  "contents s' = store_bytes (contents s) a n d \<Longrightarrow> a + n \<le> b \<Longrightarrow>
   words_at s' b ws = words_at s b ws"
  by (induction ws arbitrary: b) (simp_all add: word_at_store_other)

text \<open>A push adds its word in front of the words the stack holds.\<close>

lemma push_words:
  assumes "inv s" and "ok s a 4" and "words_at s (unat a + 4) ws"
  obtains s' where "wr a 4 d s = Inr s'" and "inv s'" and "core s' = core s"
    and "words_at s' (unat a) (d # ws)"
    and "\<And>b. unat a + 4 \<le> b \<or> b < unat a \<Longrightarrow> contents s' b = contents s b"
proof -
  from wr_law [OF assms(1,2)] obtain s' where s': "wr a 4 d s = Inr s'" "inv s'"
    "contents s' = store_bytes (contents s) (unat a) 4 d" "core s' = core s" by blast
  have "take_bit 32 d = d" by (rule bit_word_eqI) (simp add: bit_take_bit_iff)
  then have "word_at s' (unat a) = d"
    using le_read_store_same [of "contents s" "unat a" 4 d] by (simp add: word_at_def s'(3))
  moreover have "words_at s' (unat a + 4) ws"
    using words_at_store_below [OF s'(3), of "unat a + 4" ws] assms(3) by simp
  ultimately show ?thesis
    using s' by (intro that [of s']) (auto simp: store_bytes_other)
qed

text \<open>A pop returns the first word and leaves the rest.\<close>

lemma pop_words:
  assumes "inv s" and "ok s a 4" and "words_at s (unat a) (w # ws)"
  obtains s' where "rd a 4 s = Inr (w, s')" and "inv s'" and "core s' = core s"
    and "contents s' = contents s" and "words_at s' (unat a + 4) ws"
proof -
  from rd_law [OF assms(1,2)] obtain s' where s':
    "rd a 4 s = Inr (le_read (\<lambda>i. contents s (unat a + i)) 4, s')"
    "inv s'" "contents s' = contents s" "core s' = core s" by blast
  moreover have "le_read (\<lambda>i. contents s (unat a + i)) 4 = w"
    using assms(3) by (simp add: word_at_def)
  moreover have "words_at s' (unat a + 4) ws"
    using words_at_cong [OF s'(3)] assms(3) by simp
  ultimately show ?thesis by (intro that [of s']) simp_all
qed

end

section \<open>The cache as a provider\<close>

text \<open>An access the cache serves inside one line of physical memory.\<close>

definition cache_ok :: "u32 \<Rightarrow> nat \<Rightarrow> bool" where
  "cache_ok p len \<longleftrightarrow> len \<in> {1, 2, 4} \<and> len + block_num p \<le> 64 \<and> unat p + len \<le> MEM_SIZE_B"

lemma cache_read_ok:
  assumes "coherent m" and "len \<in> {1, 2, 4}" and "len + block_num p \<le> 64" and "unat p + len \<le> MEM_SIZE_B"
  shows "\<exists>m'. cache_read p len m = Inr (le_read (\<lambda>i. hw_mem m (unat p + i)) len, m') \<and>
    coherent m' \<and> hw_mem m' = hw_mem m"
proof -
  have "0 < len" using assms(2) by auto
  from readsD [OF cache_read_inline [OF this assms(3,4), of 1] assms(1)] show ?thesis
    unfolding cache_read_def mem_val_def same_mem_def by (metis One_nat_def Suc_1)
qed

lemma cache_ok_aligned:
  assumes "len \<in> {1, 2, 4}" and "unat p mod len = 0" and "unat p + len \<le> MEM_SIZE_B"
  shows "cache_ok p len"
proof -
  have "unat p mod 64 mod len = 0"
    using assms(1,2) by (auto simp: mod_mod_cancel)
  then obtain q where q: "unat p mod 64 = len * q"
    using mod_0_imp_dvd by blast
  moreover have "unat p mod 64 < 64" by simp
  ultimately have "len * q < 64" by simp
  then have "len + len * q \<le> 64"
    using assms(1) by auto
  then show ?thesis using assms q by (simp add: cache_ok_def block_num_eq)
qed

interpretation cm: byte_memory cache_read cache_write coherent "\<lambda>m. cache_ok" hw_mem "\<lambda>m. ()"
proof unfold_locales
  show "\<exists>s'. cache_read a n s = Inr (le_read (\<lambda>i. hw_mem s (unat a + i)) n, s') \<and>
      coherent s' \<and> hw_mem s' = hw_mem s \<and> () = ()" if "coherent s" "cache_ok a n" for s a n
    using cache_read_ok [of s n a] that by (simp add: cache_ok_def)
  show "\<exists>s'. cache_write a n d s = Inr s' \<and> coherent s' \<and>
      hw_mem s' = store_bytes (hw_mem s) (unat a) n d \<and> () = ()"
    if "coherent s" "cache_ok a n" for s a n d
    using cache_write_inline [of s n a d] that by (auto simp: cache_ok_def)
qed simp

section \<open>Physical and virtual addresses as providers\<close>

text \<open>\<open>ram\<close>: an access to physical memory inside one cache line, outside every device map.\<close>

definition ram :: "mach \<Rightarrow> u32 \<Rightarrow> nat \<Rightarrow> bool" where
  "ram s p len \<longleftrightarrow> is_mmio p (mmio_st s) = None \<and> cache_ok p len"

text \<open>Everything but the memory and the cache.\<close>

definition sans_mem :: "mach \<Rightarrow> mach" where
  "sans_mem s = s\<lparr>mem := \<lparr>hw_mem = \<lambda>_. 0, L1_dcache = \<lambda>_. \<lparr>valid_bit = 0, tag = 0, data = \<lambda>_. 0\<rparr>\<rparr>\<rparr>"

lemma sans_mem_upd [simp]: "sans_mem (s\<lparr>mem := m\<rparr>) = sans_mem s"
  by (simp add: sans_mem_def)

lemma sans_memD:
  assumes "sans_mem s' = sans_mem s"
  shows "cpu s' = cpu s" and "mmio_st s' = mmio_st s" and "tlb s' = tlb s"
    and "s' = s\<lparr>mem := mem s'\<rparr>"
proof -
  let ?m = "\<lparr>hw_mem = \<lambda>_. 0, L1_dcache = \<lambda>_. \<lparr>valid_bit = 0, tag = 0, data = \<lambda>_. 0\<rparr>\<rparr> :: cmem"
  have e: "s'\<lparr>mem := ?m\<rparr> = s\<lparr>mem := ?m\<rparr>" using assms by (simp add: sans_mem_def)
  show "cpu s' = cpu s" using arg_cong [OF e, of cpu] by simp
  show "mmio_st s' = mmio_st s" using arg_cong [OF e, of mmio_st] by simp
  show "tlb s' = tlb s" using arg_cong [OF e, of tlb] by simp
  show "s' = s\<lparr>mem := mem s'\<rparr>"
    using arg_cong [OF e, of "\<lambda>x. x\<lparr>mem := mem s'\<rparr>"] by simp
qed

interpretation pm: byte_memory paddr_read paddr_write "\<lambda>s. coherent (mem s)" ram
  "\<lambda>s. hw_mem (mem s)" sans_mem
proof unfold_locales
  show "\<exists>s'. paddr_read a n s = Inr (le_read (\<lambda>i. hw_mem (mem s) (unat a + i)) n, s') \<and>
      coherent (mem s') \<and> hw_mem (mem s') = hw_mem (mem s) \<and> sans_mem s' = sans_mem s"
    if "coherent (mem s)" "ram s a n" for s a n
    using cm.rd_law [of "mem s" a n] that by (auto simp: ram_def paddr_read_def)
  show "\<exists>s'. paddr_write a n d s = Inr s' \<and> coherent (mem s') \<and>
      hw_mem (mem s') = store_bytes (hw_mem (mem s)) (unat a) n d \<and> sans_mem s' = sans_mem s"
    if "coherent (mem s)" "ram s a n" for s a n d
    using cm.wr_law [of "mem s" a n d] that by (auto simp: ram_def paddr_write_def)
  show "ram s' a n = ram s a n" if "sans_mem s' = sans_mem s" for s s' a n
    using sans_memD(2) [OF that] by (simp add: ram_def)
qed

text \<open>
  With paging off and a segment of base 0 (or real mode), a virtual access is a physical
  one: \<open>flat\<close> states the condition on the state.
\<close>

definition flat :: "nat \<Rightarrow> mach \<Rightarrow> bool" where
  "flat sreg s \<longleftrightarrow> coherent (mem s) \<and> \<not> cr0_pg (cr0 (cpu s)) \<and>
     (cr0_pe (cr0 (cpu s)) \<longrightarrow> sr_base (segReg (cpu s) sreg) = 0)"

lemma flat_core: "sans_mem s' = sans_mem s \<Longrightarrow> coherent (mem s') \<Longrightarrow> flat sreg s \<Longrightarrow> flat sreg s'"
  using sans_memD(1) [of s' s] by (simp add: flat_def)

lemma vaddr_flat:
  assumes "flat sreg s" and "len_ok len"
  shows "vaddr_read a sreg len s = paddr_read a len s"
    and "vaddr_write a sreg len d s = paddr_write a len d s"
    and "laddr_read a len s = paddr_read a len s"
    and "laddr_write a len d s = paddr_write a len d s"
  using assms
  by (simp_all add: vaddr_read_def vaddr_write_def laddr_read_def laddr_write_def flat_def
      segment_translate_def)

interpretation vm: byte_memory "\<lambda>a n s. vaddr_read a sreg n s" "\<lambda>a n d s. vaddr_write a sreg n d s"
  "flat sreg" ram "\<lambda>s. hw_mem (mem s)" sans_mem for sreg
proof unfold_locales
  have len: "len_ok n" if "ram s a n" for s a n
    using that by (auto simp: ram_def cache_ok_def)
  show "\<exists>s'. vaddr_read a sreg n s = Inr (le_read (\<lambda>i. hw_mem (mem s) (unat a + i)) n, s') \<and>
      flat sreg s' \<and> hw_mem (mem s') = hw_mem (mem s) \<and> sans_mem s' = sans_mem s"
    if "flat sreg s" "ram s a n" for s a n
    using pm.rd_law [of s a n] that flat_core vaddr_flat(1) [OF that(1) len [OF that(2)]]
    by (metis flat_def)
  show "\<exists>s'. vaddr_write a sreg n d s = Inr s' \<and> flat sreg s' \<and>
      hw_mem (mem s') = store_bytes (hw_mem (mem s)) (unat a) n d \<and> sans_mem s' = sans_mem s"
    if "flat sreg s" "ram s a n" for s a n d
    using pm.wr_law [of s a n d] that flat_core vaddr_flat(2) [OF that(1) len [OF that(2)]]
    by (metis flat_def)
  show "ram s' a n = ram s a n" if "sans_mem s' = sans_mem s" for s s' a n
    by (rule pm.ok_core [OF that])
qed

end
