(* ===== verification/MmuCorrect.thy ===== *)
theory MmuCorrect
  imports ByteMem
begin

text \<open>
  Address translation: the TLB against the page tables in memory. \<open>pte_of\<close> is the page
  walk as a pure function of physical memory and CR3; a TLB whose valid entries agree
  with it translates every mapped address to the walk's frame, on a hit and on a miss.
\<close>

section \<open>The page walk\<close>

definition word_in :: "mach \<Rightarrow> u32 \<Rightarrow> u32" where
  "word_in s a = le_read (\<lambda>i. hw_mem (mem s) (unat a + i)) 4"

definition pde_addr :: "mach \<Rightarrow> u32 \<Rightarrow> u32" where
  "pde_addr s a = (cr3 (cpu s) AND NOT PAGE_MASK) + pdir_idx a * 4"

definition pte_addr :: "mach \<Rightarrow> u32 \<Rightarrow> u32" where
  "pte_addr s a = (word_in s (pde_addr s a) AND NOT PAGE_MASK) + pt_idx a * 4"

definition pte_of :: "mach \<Rightarrow> u32 \<Rightarrow> u32" where
  "pte_of s a = word_in s (pte_addr s a)"

text \<open>Both entries lie in RAM and are present.\<close>

definition walkable :: "mach \<Rightarrow> u32 \<Rightarrow> bool" where
  "walkable s a \<longleftrightarrow>
     is_mmio (pde_addr s a) (mmio_st s) = None \<and> unat (pde_addr s a) + 4 \<le> MEM_SIZE_B \<and>
     is_mmio (pte_addr s a) (mmio_st s) = None \<and> unat (pte_addr s a) + 4 \<le> MEM_SIZE_B \<and>
     pde_present (word_in s (pde_addr s a)) \<and> pde_present (pte_of s a)"

lemma entry_aligned: "unat ((x AND NOT PAGE_MASK) + y * 4) mod 4 = 0"
proof -
  have x: "take_bit 2 (x AND NOT PAGE_MASK) = 0"
    by (rule bit_word_eqI) (auto simp: bit_take_bit_iff bit_and_iff bit_not_iff bit_mask_iff)
  have "take_bit 2 (push_bit 2 y) = 0"
    by (rule bit_word_eqI) (auto simp: bit_take_bit_iff bit_push_bit_iff)
  moreover have "push_bit 2 y = y * 4" unfolding push_bit_eq_mult by simp
  ultimately have y: "take_bit 2 (y * 4) = 0" by simp
  have m: "unat w mod 4 = unat (take_bit 2 w)" for w :: u32
    by (simp add: take_bit_eq_mod unat_mod)
  have "unat ((x AND NOT PAGE_MASK) + y * 4) mod 4 =
      (unat (x AND NOT PAGE_MASK) + unat (y * 4)) mod 4"
    unfolding unat_word_ariths(1) by (simp add: mod_mod_cancel)
  also have "\<dots> = (unat (x AND NOT PAGE_MASK) mod 4 + unat (y * 4) mod 4) mod 4"
    by (rule mod_add_eq [symmetric])
  also have "\<dots> = 0" unfolding m x y by simp
  finally show ?thesis .
qed

lemma word_in_cong: "hw_mem (mem s') = hw_mem (mem s) \<Longrightarrow> word_in s' a = word_in s a"
  by (simp add: word_in_def)

lemma walk_cong:
  assumes "hw_mem (mem s') = hw_mem (mem s)" and "cr3 (cpu s') = cr3 (cpu s)"
    and "mmio_st s' = mmio_st s"
  shows "pde_addr s' a = pde_addr s a" and "pte_addr s' a = pte_addr s a"
    and "pte_of s' a = pte_of s a" and "walkable s' a = walkable s a"
proof -
  note w = word_in_cong [OF assms(1)]
  show 1: "pde_addr s' a = pde_addr s a" by (simp add: pde_addr_def assms(2))
  show 2: "pte_addr s' a = pte_addr s a" by (simp add: pte_addr_def w 1)
  show 3: "pte_of s' a = pte_of s a" by (simp add: pte_of_def w 2)
  show "walkable s' a = walkable s a" by (simp add: walkable_def w 1 2 3 assms(3))
qed

text \<open>The offset within the page does not matter.\<close>

abbreviation page_key :: "u32 \<Rightarrow> u32" where
  "page_key a \<equiv> (a AND NOT PAGE_MASK) OR 1"

lemma idx_page_key [simp]: "pdir_idx (page_key a) = pdir_idx a" "pt_idx (page_key a) = pt_idx a"
  by (rule bit_word_eqI;
      auto simp: pdir_idx_def pt_idx_def bit_field bit_or_iff bit_and_iff bit_not_iff bit_mask_iff
        bit_1_iff dest: bit_imp_le_length)+

lemma walk_page_key [simp]:
  "pte_of s (page_key a) = pte_of s a" "walkable s (page_key a) = walkable s a"
  by (simp_all add: pte_of_def pte_addr_def pde_addr_def walkable_def)

lemma page_walk_spec:
  assumes "coherent (mem s)" and "walkable s a"
  shows "\<exists>s'. page_walk a s = Inr (pte_of s a, s') \<and> coherent (mem s') \<and>
    hw_mem (mem s') = hw_mem (mem s) \<and> sans_mem s' = sans_mem s"
proof -
  have r1: "ram s (pde_addr s a) 4"
    using assms(2) cache_ok_aligned [of 4 "pde_addr s a"] entry_aligned
    by (simp add: ram_def walkable_def pde_addr_def)
  from pm.rd_law [OF assms(1) r1] obtain s1 where s1:
    "paddr_read (pde_addr s a) 4 s = Inr (word_in s (pde_addr s a), s1)"
    "coherent (mem s1)" "hw_mem (mem s1) = hw_mem (mem s)" "sans_mem s1 = sans_mem s"
    unfolding word_in_def by blast
  have "ram s (pte_addr s a) 4"
    using assms(2) cache_ok_aligned [of 4 "pte_addr s a"] entry_aligned
    by (simp add: ram_def walkable_def pte_addr_def)
  with pm.ok_core [OF s1(4)] have "ram s1 (pte_addr s a) 4" by simp
  from pm.rd_law [OF s1(2) this] obtain s2 where s2:
    "paddr_read (pte_addr s a) 4 s1 = Inr (pte_of s a, s2)"
    "coherent (mem s2)" "hw_mem (mem s2) = hw_mem (mem s)" "sans_mem s2 = sans_mem s"
    using s1(3,4) unfolding pte_of_def word_in_def by auto
  show ?thesis
    using s1(1) s2 assms(2)
    by (auto simp: page_walk_def walkable_def pde_addr_def [symmetric] pte_addr_def [symmetric])
qed

section \<open>The TLB\<close>

definition tlb_ok :: "mach \<Rightarrow> bool" where
  "tlb_ok s \<longleftrightarrow> tlb_size (tlb s) = 64 \<and> tlb_size_width (tlb s) = 6 \<and>
     (\<forall>i<64. bit (tlb_key (tlb s) i) 0 \<longrightarrow>
        tlb_pte (tlb s) i = pte_of s (tlb_key (tlb s) i))"

lemma tlb_ok_init: "tlb_ok (init_all_tlb (make_all_tlb s))"
  by (simp add: tlb_ok_def init_all_tlb_def make_all_tlb_def init_tlb_def make_tlb_def)

text \<open>\<open>trans\<close>: the physical address the page tables give.\<close>

definition trans :: "mach \<Rightarrow> u32 \<Rightarrow> u32" where
  "trans s a = (pte_of s a AND NOT PAGE_MASK) OR (a AND PAGE_MASK)"

lemma tlb_miss_spec:
  assumes "coherent (mem s)" and "tlb_ok s" and "walkable s a" and "idx < 64"
  shows "\<exists>s'. page_walk a (set_tlb_key idx (page_key a) s) = Inr (pte_of s a, s') \<and>
    coherent (mem s') \<and> hw_mem (mem s') = hw_mem (mem s) \<and> cpu s' = cpu s \<and> mmio_st s' = mmio_st s \<and>
    tlb_ok (set_tlb_pte idx (pte_of s a) s')"
proof -
  let ?s = "set_tlb_key idx (page_key a) s"
  have e: "mem ?s = mem s" "cpu ?s = cpu s" "mmio_st ?s = mmio_st s"
    by (simp_all add: set_tlb_key_def)
  note c = walk_cong [of ?s s, unfolded e, OF refl refl refl]
  from page_walk_spec [of ?s a] assms(1,3) obtain s' where s':
    "page_walk a ?s = Inr (pte_of s a, s')" "coherent (mem s')"
    "hw_mem (mem s') = hw_mem (mem s)" "sans_mem s' = sans_mem ?s"
    unfolding c e by blast
  note same = sans_memD(1-3) [OF s'(4), unfolded e]
  let ?t = "set_tlb_pte idx (pte_of s a) s'"
  have t: "mem ?t = mem s'" "cpu ?t = cpu s" "mmio_st ?t = mmio_st s"
    using same by (simp_all add: set_tlb_pte_def)
  have "pte_of ?t k = pte_of s k" for k
    by (rule walk_cong(3)) (simp_all add: t s'(3))
  then have "tlb_ok ?t"
    using assms(2) same(3) by (auto simp: tlb_ok_def set_tlb_pte_def set_tlb_key_def)
  then show ?thesis using s' same by blast
qed

text \<open>
  \<^bold>\<open>C3\<close>. With a coherent cache and a TLB that agrees with the page tables,
  \<open>page_translate\<close> of a mapped address, hit or miss and whatever \<open>rand()\<close> returns,
  gives the frame of the two-level walk with the page offset, and keeps both invariants.
\<close>

theorem page_translate_correct:
  assumes "coherent (mem s)" and "tlb_ok s" and "walkable s laddr"
  shows "\<exists>s'. page_translate laddr s = Inr (trans s laddr, s') \<and> coherent (mem s') \<and> tlb_ok s' \<and>
    hw_mem (mem s') = hw_mem (mem s) \<and> cpu s' = cpu s \<and> mmio_st s' = mmio_st s"
proof (cases "find (\<lambda>i. tlb_key (tlb s) i = page_key laddr) [0..<64]")
  case (Some i)
  then have i: "i < 64" "tlb_key (tlb s) i = page_key laddr"
    by (auto simp: find_Some_iff)
  then have "bit (tlb_key (tlb s) i) 0" by (simp add: bit_or_iff)
  then have "tlb_pte (tlb s) i = pte_of s laddr"
    using assms(2) i by (simp add: tlb_ok_def)
  then show ?thesis
    using Some assms(1,2)
    by (simp add: page_translate_def tlb_read_def tlb_fetch_def tlb_query_def tlb_ok_def trans_def)
next
  case None
  let ?s = "snd (c_rand s)" let ?idx = "unat (fst (c_rand s) AND mask 6)"
  have s: "mem ?s = mem s" "cpu ?s = cpu s" "mmio_st ?s = mmio_st s" "tlb ?s = tlb s"
    by (simp_all add: c_rand_def)
  note c = walk_cong [of ?s s, unfolded s, OF refl refl refl]
  have "tlb_ok ?s" using assms(2) by (simp add: tlb_ok_def s c)
  have "?idx < 64"
    by (simp only: take_bit_eq_mask [symmetric] take_bit_eq_mod unat_mod) simp
  from tlb_miss_spec [of ?s laddr ?idx, unfolded s c, OF assms(1) \<open>tlb_ok ?s\<close> assms(3) this]
  obtain s' where s': "page_walk laddr (set_tlb_key ?idx (page_key laddr) ?s) = Inr (pte_of s laddr, s')"
    "coherent (mem s')" "hw_mem (mem s') = hw_mem (mem s)" "cpu s' = cpu s" "mmio_st s' = mmio_st s"
    "tlb_ok (set_tlb_pte ?idx (pte_of s laddr) s')" by blast
  then show ?thesis
    using None assms(2)
    by (auto simp: page_translate_def tlb_read_def tlb_fetch_def tlb_query_def tlb_ok_def trans_def
        c_rand_def set_tlb_pte_def)
qed

text \<open>One page mapped: directory at \<open>0x1000\<close>, table at \<open>0x2000\<close>, frame \<open>0x3000\<close>.\<close>

definition one_page :: mach where
  "one_page = (let s = init_all_tlb (make_all_tlb zero_mach) in
     s\<lparr>cpu := (cpu s)\<lparr>cr3 := 0x1000\<rparr>,
       mem := (mem s)\<lparr>hw_mem := store_bytes (store_bytes (\<lambda>_. 0) 0x1000 4 0x2001) 0x2000 4 0x3001\<rparr>\<rparr>)"

lemma one_page_walk: "walkable one_page 0x123" "pte_of one_page 0x123 = 0x3001"
proof -
  have m: "hw_mem (mem one_page) = store_bytes (store_bytes (\<lambda>_. 0) 0x1000 4 0x2001) 0x2000 4 0x3001"
    and c: "cr3 (cpu one_page) = 0x1000" and d: "maps (mmio_st one_page) = []"
    by (simp_all add: one_page_def Let_def init_all_tlb_def make_all_tlb_def zero_mach_def)
  have i: "pdir_idx 0x123 = 0" "pt_idx 0x123 = 0"
    by (simp_all add: pdir_idx_def pt_idx_def field_def)
  have t: "take_bit 32 w = w" for w :: u32 by (rule bit_word_eqI) (simp add: bit_take_bit_iff)
  have 1: "pde_addr one_page 0x123 = 0x1000" by (simp add: pde_addr_def c i mask_eq_exp_minus_1)
  have 2: "word_in one_page 0x1000 = 0x2001"
    using le_read_store_other [where b = "0x1000" and n = 4 and a = "0x2000" and len = 4 and d = "0x3001"
          and f = "store_bytes (\<lambda>_. 0) 0x1000 4 0x2001"]
      le_read_store_same [where f = "\<lambda>_. 0" and a = "0x1000" and len = 4 and d = "0x2001"]
    by (simp add: word_in_def m t)
  have 3: "pte_addr one_page 0x123 = 0x2000"
    by (simp add: pte_addr_def 1 2 i mask_eq_exp_minus_1)
  have 4: "word_in one_page 0x2000 = 0x3001"
    using le_read_store_same [where a = "0x2000" and len = 4 and d = "0x3001"
          and f = "store_bytes (\<lambda>_. 0) 0x1000 4 0x2001"]
    by (simp add: word_in_def m t)
  show 5: "pte_of one_page 0x123 = 0x3001" by (simp add: pte_of_def 3 4)
  show "walkable one_page 0x123"
    unfolding walkable_def 5 1 2 3
    by (simp add: is_mmio_def d MEM_SIZE_B_def pde_present_def)
qed

lemma one_page_ok: "coherent (mem one_page)" "tlb_ok one_page"
  using tlb_ok_init [of zero_mach]
  by (simp_all add: one_page_def Let_def coherent_def line_ok_def zero_mach_def init_all_tlb_def
      make_all_tlb_def init_tlb_def make_tlb_def tlb_ok_def)

lemma page_translate_correct_witness:
  "\<exists>s'. page_translate 0x123 one_page = Inr (trans one_page 0x123, s') \<and> coherent (mem s') \<and>
    tlb_ok s' \<and> hw_mem (mem s') = hw_mem (mem one_page) \<and> cpu s' = cpu one_page \<and>
    mmio_st s' = mmio_st one_page"
  by (rule page_translate_correct [OF one_page_ok one_page_walk(1)])

text \<open>
  Nothing invalidates the TLB when CR3 is loaded: an address whose page
  hits in the TLB is translated by the entry filled under the old tables, whatever CR3 holds.
\<close>

lemma tlb_stale_after_cr3:
  assumes "tlb_size (tlb s) = 64" and "i < 64" and "tlb_key (tlb s) i = page_key laddr"
    and "\<forall>j<i. tlb_key (tlb s) j \<noteq> page_key laddr"
  shows "page_translate laddr (upd_cpu (\<lambda>c. c\<lparr>cr3 := v\<rparr>) s) =
    Inr ((tlb_pte (tlb s) i AND NOT PAGE_MASK) OR (laddr AND PAGE_MASK),
         upd_cpu (\<lambda>c. c\<lparr>cr3 := v\<rparr>) s)"
proof -
  have "find (\<lambda>i. tlb_key (tlb s) i = page_key laddr) [0..<64] = Some i"
    using assms by (auto simp: find_Some_iff intro!: exI [of _ i])
  then show ?thesis
    using assms(1)
    by (simp add: page_translate_def tlb_read_def tlb_fetch_def tlb_query_def upd_cpu_def)
qed

lemma tlb_stale_after_cr3_witness:
  "page_translate 0x5123 (upd_cpu (\<lambda>c. c\<lparr>cr3 := 0x9000\<rparr>)
     (set_tlb_pte 3 0x7001 (set_tlb_key 3 (page_key 0x5123) one_page))) =
   Inr ((tlb_pte (tlb (set_tlb_pte 3 0x7001 (set_tlb_key 3 (page_key 0x5123) one_page))) 3
           AND NOT PAGE_MASK) OR (0x5123 AND PAGE_MASK),
        upd_cpu (\<lambda>c. c\<lparr>cr3 := 0x9000\<rparr>)
          (set_tlb_pte 3 0x7001 (set_tlb_key 3 (page_key 0x5123) one_page)))"
proof (rule tlb_stale_after_cr3)
  have "(0 :: u32) \<noteq> page_key 0x5123" using bit_or_iff [of "0x5123 AND NOT PAGE_MASK" "1 :: u32" 0] by auto
  then show "\<forall>j<3. tlb_key (tlb (set_tlb_pte 3 0x7001 (set_tlb_key 3 (page_key 0x5123) one_page))) j \<noteq>
      page_key 0x5123"
    by (simp add: set_tlb_key_def set_tlb_pte_def one_page_def Let_def init_all_tlb_def
        make_all_tlb_def init_tlb_def make_tlb_def zero_mach_def)
qed (simp_all add: set_tlb_key_def set_tlb_pte_def one_page_def Let_def init_all_tlb_def
    make_all_tlb_def init_tlb_def make_tlb_def)

end
