(* ===== verification/Decode.thy ===== *)
theory Decode
  imports Memory
begin

text \<open>
  Operand access and instruction decoding: \<open>nemu/src/cpu/decode/operand.c\<close>,
  \<open>modrm.c\<close>, \<open>sib.c\<close> and \<open>debug.c\<close>. A pointer argument \<open>OPERAND *\<close> is
  passed and returned by value.
\<close>

section \<open>Operands\<close>

definition trunc_size :: "nat \<Rightarrow> u32 \<Rightarrow> u32 res" where
  "trunc_size n v =
     (if n = 8 then Inr (v AND mask 8)
      else if n = 16 then Inr (v AND mask 16)
      else if n = 32 then Inr v
      else Inl (Assert_failed ''operand_read''))"

definition operand_read :: "OPERAND \<Rightarrow> mach \<Rightarrow> (OPERAND \<times> mach) res" where
  "operand_read opr s =
     bindE
       (case otype opr of
          OPR_MEM \<Rightarrow> vaddr_read (oaddr opr) (osreg opr) 4 s
        | OPR_IMM \<Rightarrow> vaddr_read (oaddr opr) SREG_CS 4 s
        | OPR_REG \<Rightarrow>
            definedE ''operand_read'' (oaddr opr < 8)
             (if osize opr = 8 then Inr (ucast (gpr8 (unat (oaddr opr)) (cpu s)), s)
              else Inr (reg (unat (oaddr opr)) s, s))
        | OPR_CREG \<Rightarrow>
            if oaddr opr = 0 then Inr (cr0 (cpu s), s)
            else if oaddr opr = 3 then Inr (cr3 (cpu s), s)
            else Inl (Assert_failed ''operand_read'')
        | OPR_SREG \<Rightarrow>
            definedE ''operand_read'' (oaddr opr < 6)
             (Inr (ucast (sreg_val (unat (oaddr opr)) s), s)))
       (\<lambda>(v, s). bindE (trunc_size (osize opr) v) (\<lambda>v. Inr (opr\<lparr>oval := v\<rparr>, s)))"

text \<open>The case of a control register has no \<open>break\<close> and runs into the segment case.\<close>

definition write_sreg :: "OPERAND \<Rightarrow> mach \<Rightarrow> mach res" where
  "write_sreg opr s =
     definedE ''operand_write'' (oaddr opr < 6)
       (Inr (upd_sreg (unat (oaddr opr)) (\<lambda>r. r\<lparr>sr_val := ucast (oval opr)\<rparr>) s))"

definition operand_write :: "OPERAND \<Rightarrow> mach \<Rightarrow> mach res" where
  "operand_write opr s =
     (case otype opr of
        OPR_MEM \<Rightarrow> vaddr_write (oaddr opr) (osreg opr) (osize opr div 8) (oval opr) s
      | OPR_REG \<Rightarrow>
          definedE ''operand_write'' (oaddr opr < 8)
           (let a = unat (oaddr opr) in
            if osize opr = 8 then Inr (s\<lparr>cpu := set_gpr8 a (ucast (oval opr)) (cpu s)\<rparr>)
            else if osize opr = 16 then Inr (s\<lparr>cpu := set_gpr16 a (ucast (oval opr)) (cpu s)\<rparr>)
            else if osize opr = 32 then Inr (s\<lparr>cpu := set_gpr a (oval opr) (cpu s)\<rparr>)
            else Inl (Assert_failed ''operand_write''))
      | OPR_IMM \<Rightarrow> Inl (Assert_failed ''operand_write'')
      | OPR_CREG \<Rightarrow>
          if oaddr opr = 0 then write_sreg opr (upd_cpu (\<lambda>c. c\<lparr>cr0 := oval opr\<rparr>) s)
          else if oaddr opr = 3 then write_sreg opr (upd_cpu (\<lambda>c. c\<lparr>cr3 := oval opr\<rparr>) s)
          else Inl (Assert_failed ''operand_write'')
      | OPR_SREG \<Rightarrow> write_sreg opr s)"

abbreviation MEM_ADDR_NA :: u32 where "MEM_ADDR_NA \<equiv> 0xffffffff"

definition clear_operand_mem_addr :: "OPERAND \<Rightarrow> OPERAND" where
  "clear_operand_mem_addr opr =
     opr\<lparr>omem_addr := \<lparr>ma_disp = MEM_ADDR_NA, ma_base = MEM_ADDR_NA, ma_index = MEM_ADDR_NA,
                        ma_scale = MEM_ADDR_NA\<rparr>\<rparr>"

section \<open>ModR/M and SIB\<close>

definition modrm_rm_bits :: "u8 \<Rightarrow> nat" where "modrm_rm_bits b = unat (field 0 3 b)"
definition modrm_reg :: "u8 \<Rightarrow> nat" where "modrm_reg b = unat (field 3 3 b)"
definition modrm_mod :: "u8 \<Rightarrow> nat" where "modrm_mod b = unat (field 6 2 b)"
definition sib_base :: "u8 \<Rightarrow> nat" where "sib_base b = unat (field 0 3 b)"
definition sib_index :: "u8 \<Rightarrow> nat" where "sib_index b = unat (field 3 3 b)"
definition sib_ss :: "u8 \<Rightarrow> nat" where "sib_ss b = unat (field 6 2 b)"

abbreviation set_base :: "u32 \<Rightarrow> OPERAND \<Rightarrow> OPERAND" where
  "set_base b opr \<equiv> opr\<lparr>omem_addr := (omem_addr opr)\<lparr>ma_base := b\<rparr>\<rparr>"
abbreviation set_disp :: "u32 \<Rightarrow> OPERAND \<Rightarrow> OPERAND" where
  "set_disp d opr \<equiv> opr\<lparr>omem_addr := (omem_addr opr)\<lparr>ma_disp := d\<rparr>\<rparr>"

definition fetch8 :: "u32 \<Rightarrow> mach \<Rightarrow> (u8 \<times> mach) res" where
  "fetch8 pc s = bindE (instr_fetch pc 1 s) (\<lambda>(w, s). Inr (ucast w, s))"

definition parse_sib :: "u32 \<Rightarrow> nat \<Rightarrow> OPERAND \<Rightarrow> mach \<Rightarrow> (nat \<times> OPERAND \<times> mach) res" where
  "parse_sib pc md opr s =
     bindE (fetch8 pc s) (\<lambda>(b, s).
       let base = sib_base b; index = sib_index b; ss = sib_ss b;
           opr = opr\<lparr>osreg := (if base = 5 \<or> base = 4 then SREG_SS else SREG_DS)\<rparr>;
           idx = (if index \<noteq> 4 then reg index s * 2 ^ ss else 0);
           opr = (if index \<noteq> 4
                  then opr\<lparr>omem_addr := (omem_addr opr)\<lparr>ma_index := of_nat index, ma_scale := 2 ^ ss\<rparr>\<rparr>
                  else opr) in
       if md = 0 \<and> base = 5 then
         bindE (instr_fetch (pc + 1) 4 s) (\<lambda>(disp32, s).
           Inr (5, set_disp disp32 (opr\<lparr>oaddr := idx + disp32\<rparr>), s))
       else if md \<le> 2 then
         Inr (1, set_base (of_nat base) (opr\<lparr>oaddr := reg base s + idx\<rparr>), s)
       else Inl (Assert_failed ''parse_sib''))"

definition case_mod_00 :: "u32 \<Rightarrow> u8 \<Rightarrow> OPERAND \<Rightarrow> mach \<Rightarrow> (nat \<times> OPERAND \<times> mach) res" where
  "case_mod_00 pc modrm opr s =
     (let rm = modrm_rm_bits modrm; opr = opr\<lparr>otype := OPR_MEM\<rparr> in
      if rm = 4 then parse_sib (pc + 1) (modrm_mod modrm) opr s
      else if rm = 5 then
        bindE (instr_fetch (pc + 1) 4 s) (\<lambda>(d, s).
          Inr (4, set_disp d (opr\<lparr>osreg := SREG_DS, oaddr := d\<rparr>), s))
      else Inr (0, set_base (of_nat rm) (opr\<lparr>osreg := SREG_DS, oaddr := reg rm s\<rparr>), s))"

text \<open>\<open>case_mod_01\<close> and \<open>case_mod_10\<close> add a sign-extended byte or a word.\<close>

definition case_mod_01 :: "u32 \<Rightarrow> u8 \<Rightarrow> OPERAND \<Rightarrow> mach \<Rightarrow> (nat \<times> OPERAND \<times> mach) res" where
  "case_mod_01 pc modrm opr s =
     (let rm = modrm_rm_bits modrm; opr = opr\<lparr>otype := OPR_MEM\<rparr> in
      bindE
       (if rm = 4 then
          bindE (parse_sib (pc + 1) (modrm_mod modrm) opr s) (\<lambda>(len, opr, s).
          bindE (fetch8 (pc + 2) s) (\<lambda>(d, s). Inr (len + 1, opr, d, s)))
        else
          let opr = set_base (of_nat rm) (opr\<lparr>oaddr := reg rm s\<rparr>) in
          bindE (fetch8 (pc + 1) s) (\<lambda>(d, s).
            Inr (1, opr\<lparr>osreg := (if rm = 5 then SREG_SS else SREG_DS)\<rparr>, d, s)))
       (\<lambda>(len, opr, disp8, s).
          Inr (len, set_disp (scast disp8) (opr\<lparr>oaddr := scast disp8 + oaddr opr\<rparr>), s)))"

definition case_mod_10 :: "u32 \<Rightarrow> u8 \<Rightarrow> OPERAND \<Rightarrow> mach \<Rightarrow> (nat \<times> OPERAND \<times> mach) res" where
  "case_mod_10 pc modrm opr s =
     (let rm = modrm_rm_bits modrm; opr = opr\<lparr>otype := OPR_MEM\<rparr> in
      bindE
       (if rm = 4 then
          bindE (parse_sib (pc + 1) (modrm_mod modrm) opr s) (\<lambda>(len, opr, s).
          bindE (instr_fetch (pc + 2) 4 s) (\<lambda>(d, s). Inr (len + 4, opr, d, s)))
        else
          let opr = set_base (of_nat rm) (opr\<lparr>oaddr := reg rm s\<rparr>) in
          bindE (instr_fetch (pc + 1) 4 s) (\<lambda>(d, s).
            Inr (4, opr\<lparr>osreg := (if rm = 5 then SREG_SS else SREG_DS)\<rparr>, d, s)))
       (\<lambda>(len, opr, disp32, s).
          Inr (len, set_disp disp32 (opr\<lparr>oaddr := disp32 + oaddr opr\<rparr>), s)))"

definition case_mod_11 :: "u32 \<Rightarrow> u8 \<Rightarrow> OPERAND \<Rightarrow> mach \<Rightarrow> (nat \<times> OPERAND \<times> mach) res" where
  "case_mod_11 pc modrm opr s =
     Inr (0, opr\<lparr>otype := OPR_REG, oaddr := of_nat (modrm_rm_bits modrm)\<rparr>, s)"

definition parse_rm_32 :: "u32 \<Rightarrow> u8 \<Rightarrow> OPERAND \<Rightarrow> mach \<Rightarrow> (nat \<times> OPERAND \<times> mach) res" where
  "parse_rm_32 pc modrm opr s =
     (let opr = (if verbose s then clear_operand_mem_addr opr else opr) in
      bindE
       (if modrm_mod modrm = 0 then case_mod_00 pc modrm opr s
        else if modrm_mod modrm = 1 then case_mod_01 pc modrm opr s
        else if modrm_mod modrm = 2 then case_mod_10 pc modrm opr s
        else case_mod_11 pc modrm opr s)
       (\<lambda>(len, opr, s). Inr (1 + len, opr, s)))"

definition modrm_r_rm ::
    "u32 \<Rightarrow> OPERAND \<Rightarrow> OPERAND \<Rightarrow> mach \<Rightarrow> (nat \<times> OPERAND \<times> OPERAND \<times> mach) res" where
  "modrm_r_rm pc r rm s =
     bindE (fetch8 pc s) (\<lambda>(b, s).
       let r = r\<lparr>otype := OPR_REG, oaddr := of_nat (modrm_reg b)\<rparr> in
       bindE (parse_rm_32 pc b rm s) (\<lambda>(len, rm, s). Inr (len, r, rm, s)))"

definition modrm_opcode_rm :: "u32 \<Rightarrow> OPERAND \<Rightarrow> mach \<Rightarrow> (nat \<times> u8 \<times> OPERAND \<times> mach) res" where
  "modrm_opcode_rm pc rm s =
     bindE (fetch8 pc s) (\<lambda>(b, s).
     bindE (parse_rm_32 pc b rm s) (\<lambda>(len, rm, s). Inr (len, of_nat (modrm_reg b), rm, s)))"

definition modrm_opcode :: "u32 \<Rightarrow> mach \<Rightarrow> (nat \<times> u8 \<times> mach) res" where
  "modrm_opcode pc s =
     bindE (fetch8 pc s) (\<lambda>(b, s). Inr (1, of_nat (modrm_reg b), s))"

definition modrm_rm :: "u32 \<Rightarrow> OPERAND \<Rightarrow> mach \<Rightarrow> (nat \<times> OPERAND \<times> mach) res" where
  "modrm_rm pc rm s = bindE (fetch8 pc s) (\<lambda>(b, s). parse_rm_32 pc b rm s)"

section \<open>Disassembly\<close>

text \<open>
  The printing functions matter through what they do besides printing when
  \<open>verbose\<close> is set: they read an immediate operand, index the register names and
  fetch the bytes of the instruction again. The text they print is not modelled.
\<close>

definition parse_operand_address :: "OPERAND \<Rightarrow> mach \<Rightarrow> (OPERAND \<times> mach) res" where
  "parse_operand_address opr s =
     (case otype opr of
        OPR_REG \<Rightarrow>
          if osize opr = 8 \<or> osize opr = 16 \<or> osize opr = 32 then
            definedE ''parse_operand_address'' (oaddr opr < 8) (Inr (opr, s))
          else Inl (Assert_failed ''parse_operand_address'')
      | OPR_IMM \<Rightarrow> operand_read opr s
      | OPR_CREG \<Rightarrow> Inr (opr, s)
      | OPR_SREG \<Rightarrow> definedE ''parse_operand_address'' (oaddr opr < 6) (Inr (opr, s))
      | OPR_MEM \<Rightarrow> Inr (opr, s))"

fun print_bytes :: "u32 \<Rightarrow> nat \<Rightarrow> nat \<Rightarrow> mach \<Rightarrow> mach res" where
  "print_bytes pc i 0 s = Inr s"
| "print_bytes pc i (Suc n) s =
     bindE (instr_fetch (pc + of_nat i) 1 s) (\<lambda>(_, s). print_bytes pc (Suc i) n s)"

abbreviation (input) "MAX_INSTR_BYTES \<equiv> 13 :: nat"

definition print_asm_0 :: "nat \<Rightarrow> mach \<Rightarrow> mach res" where
  "print_asm_0 len s =
     (if verbose s then print_bytes (eip (cpu s)) 0 (min len MAX_INSTR_BYTES) s else Inr s)"

definition print_asm_1 :: "nat \<Rightarrow> OPERAND \<Rightarrow> mach \<Rightarrow> (OPERAND \<times> mach) res" where
  "print_asm_1 len o1 s =
     (if verbose s then
        bindE (parse_operand_address o1 s) (\<lambda>(o1, s).
        bindE (print_bytes (eip (cpu s)) 0 (min len MAX_INSTR_BYTES) s) (\<lambda>s. Inr (o1, s)))
      else Inr (o1, s))"

definition print_asm_2 ::
    "nat \<Rightarrow> OPERAND \<Rightarrow> OPERAND \<Rightarrow> mach \<Rightarrow> (OPERAND \<times> OPERAND \<times> mach) res" where
  "print_asm_2 len o1 o2 s =
     (if verbose s then
        bindE (parse_operand_address o1 s) (\<lambda>(o1, s).
        bindE (parse_operand_address o2 s) (\<lambda>(o2, s).
        bindE (print_bytes (eip (cpu s)) 0 (min len MAX_INSTR_BYTES) s) (\<lambda>s. Inr (o1, o2, s))))
      else Inr (o1, o2, s))"

definition print_asm_3 :: "nat \<Rightarrow> OPERAND \<Rightarrow> OPERAND \<Rightarrow> OPERAND \<Rightarrow> mach \<Rightarrow>
    (OPERAND \<times> OPERAND \<times> OPERAND \<times> mach) res" where
  "print_asm_3 len o1 o2 o3 s =
     (if verbose s then
        bindE (parse_operand_address o1 s) (\<lambda>(o1, s).
        bindE (parse_operand_address o2 s) (\<lambda>(o2, s).
        bindE (parse_operand_address o3 s) (\<lambda>(o3, s).
        bindE (print_bytes (eip (cpu s)) 0 (min len MAX_INSTR_BYTES) s)
          (\<lambda>s. Inr (o1, o2, o3, s)))))
      else Inr (o1, o2, o3, s))"

end
