(* ===== verification/InstrHelper.thy ===== *)
theory InstrHelper
  imports Decode Alu
begin

text \<open>
  The macros of \<open>nemu/include/cpu/instr_helper.h\<close> that make instruction handlers:
  operand sizes, operand decoders, conditions and the skeletons. A handler maps the
  address of its opcode byte, the opcode and the machine to the length \<open>exec\<close> adds to
  EIP; a skeleton takes the \<open>instr_execute\<close> function of the file that uses it.
\<close>

type_synonym instr_func = "u32 \<Rightarrow> u8 \<Rightarrow> mach \<Rightarrow> (nat \<times> mach) res"
type_synonym decoder = "u32 \<Rightarrow> u8 \<Rightarrow> nat \<Rightarrow> mach \<Rightarrow> (nat \<times> mach) res"

section \<open>The operands \<open>opr_src\<close> and \<open>opr_dest\<close>\<close>

definition upd_src :: "(OPERAND \<Rightarrow> OPERAND) \<Rightarrow> mach \<Rightarrow> mach" where
  "upd_src f s = s\<lparr>opr_src := f (opr_src s)\<rparr>"

definition upd_dest :: "(OPERAND \<Rightarrow> OPERAND) \<Rightarrow> mach \<Rightarrow> mach" where
  "upd_dest f s = s\<lparr>opr_dest := f (opr_dest s)\<rparr>"

definition read_src :: "mach \<Rightarrow> mach res" where
  "read_src s = bindE (operand_read (opr_src s) s) (\<lambda>(opr, s). Inr (s\<lparr>opr_src := opr\<rparr>))"

definition read_dest :: "mach \<Rightarrow> mach res" where
  "read_dest s = bindE (operand_read (opr_dest s) s) (\<lambda>(opr, s). Inr (s\<lparr>opr_dest := opr\<rparr>))"

text \<open>\<open>opr.val = v; operand_write(&opr)\<close>.\<close>

definition write_src :: "u32 \<Rightarrow> mach \<Rightarrow> mach res" where
  "write_src v s = (let s = upd_src (\<lambda>opr. opr\<lparr>oval := v\<rparr>) s in operand_write (opr_src s) s)"

definition write_dest :: "u32 \<Rightarrow> mach \<Rightarrow> mach res" where
  "write_dest v s = (let s = upd_dest (\<lambda>opr. opr\<lparr>oval := v\<rparr>) s in operand_write (opr_dest s) s)"

section \<open>Operand sizes\<close>

datatype suffix = B | W | L | V | BV | SHORT | NEAR

definition decode_data_size :: "suffix \<Rightarrow> mach \<Rightarrow> mach" where
  "decode_data_size sf s =
     (let (n_src, n_dest) =
        (case sf of B \<Rightarrow> (8, 8) | W \<Rightarrow> (16, 16) | L \<Rightarrow> (32, 32)
         | V \<Rightarrow> (data_size s, data_size s) | BV \<Rightarrow> (8, data_size s)
         | SHORT \<Rightarrow> (8, 8) | NEAR \<Rightarrow> (32, 32)) in
      upd_src (\<lambda>opr. opr\<lparr>osize := n_src\<rparr>) (upd_dest (\<lambda>opr. opr\<lparr>osize := n_dest\<rparr>) s))"

section \<open>Operand decoders\<close>

definition decode_operand_rm :: decoder where
  "decode_operand_rm pc opcode len s =
     bindE (modrm_rm (pc + 1) (opr_src s) s) (\<lambda>(n, opr, s). Inr (len + n, s\<lparr>opr_src := opr\<rparr>))"

definition decode_operand_r :: decoder where
  "decode_operand_r pc opcode len s =
     Inr (len, upd_src (\<lambda>opr. opr\<lparr>otype := OPR_REG, oaddr := ucast (opcode AND 7)\<rparr>) s)"

definition decode_operand_a :: decoder where
  "decode_operand_a pc opcode len s =
     Inr (len, upd_src (\<lambda>opr. opr\<lparr>otype := OPR_REG, oaddr := 0\<rparr>) s)"

definition imm_src :: "u32 \<Rightarrow> mach \<Rightarrow> mach" where
  "imm_src a s = upd_src (\<lambda>opr. opr\<lparr>otype := OPR_IMM, osreg := SREG_CS, oaddr := a\<rparr>) s"

definition decode_operand_i :: decoder where
  "decode_operand_i pc opcode len s =
     (let s = imm_src (pc + 1) s in Inr (len + osize (opr_src s) div 8, s))"

definition decode_operand_r2rm :: decoder where
  "decode_operand_r2rm pc opcode len s =
     bindE (modrm_r_rm (pc + 1) (opr_src s) (opr_dest s) s) (\<lambda>(n, r, rm, s).
       Inr (len + n, s\<lparr>opr_src := r, opr_dest := rm\<rparr>))"

definition decode_operand_rm2r :: decoder where
  "decode_operand_rm2r pc opcode len s =
     bindE (modrm_r_rm (pc + 1) (opr_dest s) (opr_src s) s) (\<lambda>(n, r, rm, s).
       Inr (len + n, s\<lparr>opr_dest := r, opr_src := rm\<rparr>))"

definition decode_operand_i2rm :: decoder where
  "decode_operand_i2rm pc opcode len s =
     bindE (modrm_rm (pc + 1) (opr_dest s) s) (\<lambda>(n, opr, s).
       let len = len + n; s = imm_src (pc + of_nat len) (s\<lparr>opr_dest := opr\<rparr>) in
       Inr (len + osize (opr_src s) div 8, s))"

definition decode_operand_i2r :: decoder where
  "decode_operand_i2r pc opcode len s =
     (let s = imm_src (pc + 1) s;
          s = upd_dest (\<lambda>opr. opr\<lparr>otype := OPR_REG, oaddr := ucast (opcode AND 7)\<rparr>) s in
      Inr (len + osize (opr_src s) div 8, s))"

definition decode_operand_i2a :: decoder where
  "decode_operand_i2a pc opcode len s =
     (let s = imm_src (pc + 1) s;
          s = upd_dest (\<lambda>opr. opr\<lparr>otype := OPR_REG, oaddr := 0\<rparr>) s in
      Inr (len + osize (opr_src s) div 8, s))"

definition decode_operand_c2rm :: decoder where
  "decode_operand_c2rm pc opcode len s =
     bindE (modrm_rm (pc + 1) (opr_dest s) s) (\<lambda>(n, opr, s).
       Inr (len + n, upd_src (\<lambda>opr. opr\<lparr>otype := OPR_REG, oaddr := 1\<rparr>) (s\<lparr>opr_dest := opr\<rparr>)))"

text \<open>The absolute address of \<open>mov\<close> between the accumulator and memory.\<close>

definition moffs :: "u32 \<Rightarrow> OPERAND \<Rightarrow> mach \<Rightarrow> (OPERAND \<times> mach) res" where
  "moffs pc opr s =
     (let opr = opr\<lparr>otype := OPR_MEM, osreg := SREG_DS\<rparr>;
          opr = (if verbose s then clear_operand_mem_addr opr else opr) in
      bindE (instr_fetch (pc + 1) 4 s) (\<lambda>(a, s).
        let opr = opr\<lparr>oaddr := a\<rparr> in
        Inr (if verbose s then set_disp a opr else opr, s)))"

definition decode_operand_o2a :: decoder where
  "decode_operand_o2a pc opcode len s =
     bindE (moffs pc (opr_src s) s) (\<lambda>(opr, s).
       Inr (len + 4, upd_dest (\<lambda>opr. opr\<lparr>otype := OPR_REG, oaddr := 0\<rparr>) (s\<lparr>opr_src := opr\<rparr>)))"

definition decode_operand_a2o :: decoder where
  "decode_operand_a2o pc opcode len s =
     bindE (moffs pc (opr_dest s) s) (\<lambda>(opr, s).
       Inr (len + 4, upd_src (\<lambda>opr. opr\<lparr>otype := OPR_REG, oaddr := 0\<rparr>) (s\<lparr>opr_dest := opr\<rparr>)))"

section \<open>Conditions\<close>

datatype cc = CC_e | CC_a | CC_ae | CC_b | CC_be | CC_o | CC_p | CC_s | CC_ne | CC_na | CC_no | CC_np
  | CC_ns | CC_g | CC_ge | CC_l | CC_le | CC_ecxz | CC_c

fun condition :: "cc \<Rightarrow> mach \<Rightarrow> bool" where
  "condition CC_e s = fl_ZF (fl s)"
| "condition CC_a s = (\<not> fl_CF (fl s) \<and> \<not> fl_ZF (fl s))"
| "condition CC_ae s = (\<not> fl_CF (fl s))"
| "condition CC_b s = fl_CF (fl s)"
| "condition CC_be s = (fl_CF (fl s) \<or> fl_ZF (fl s))"
| "condition CC_o s = fl_OF (fl s)"
| "condition CC_p s = fl_PF (fl s)"
| "condition CC_s s = fl_SF (fl s)"
| "condition CC_ne s = (\<not> fl_ZF (fl s))"
| "condition CC_na s = (fl_CF (fl s) \<or> fl_ZF (fl s))"
| "condition CC_no s = (\<not> fl_OF (fl s))"
| "condition CC_np s = (\<not> fl_PF (fl s))"
| "condition CC_ns s = (\<not> fl_SF (fl s))"
| "condition CC_g s = (\<not> fl_ZF (fl s) \<and> fl_OF (fl s) = fl_SF (fl s))"
| "condition CC_ge s = (fl_SF (fl s) = fl_OF (fl s))"
| "condition CC_l s = (fl_SF (fl s) \<noteq> fl_OF (fl s))"
| "condition CC_le s = (fl_ZF (fl s) \<or> fl_SF (fl s) \<noteq> fl_OF (fl s))"
| "condition CC_ecxz s = (reg REG_ECX s = 0)"
| "condition CC_c s = fl_CF (fl s)"

section \<open>Skeletons\<close>

definition print_src :: "nat \<Rightarrow> mach \<Rightarrow> mach res" where
  "print_src len s = bindE (print_asm_1 len (opr_src s) s) (\<lambda>(opr, s). Inr (s\<lparr>opr_src := opr\<rparr>))"

definition print_src_dest :: "nat \<Rightarrow> mach \<Rightarrow> mach res" where
  "print_src_dest len s =
     bindE (print_asm_2 len (opr_src s) (opr_dest s) s) (\<lambda>(o1, o2, s).
       Inr (s\<lparr>opr_src := o1, opr_dest := o2\<rparr>))"

definition make_instr_impl_1op :: "(mach \<Rightarrow> mach res) \<Rightarrow> decoder \<Rightarrow> suffix \<Rightarrow> instr_func" where
  "make_instr_impl_1op execute decode sf pc opcode s =
     bindE (decode pc opcode 1 (decode_data_size sf s)) (\<lambda>(len, s).
     bindE (print_src len s) (\<lambda>s.
     bindE (execute s) (\<lambda>s. Inr (len, s))))"

definition make_instr_impl_1op_cc ::
    "(mach \<Rightarrow> mach res) \<Rightarrow> (mach \<Rightarrow> mach res) \<Rightarrow> decoder \<Rightarrow> suffix \<Rightarrow> cc \<Rightarrow> instr_func" where
  "make_instr_impl_1op_cc pass fail decode sf c pc opcode s =
     bindE (decode pc opcode 1 (decode_data_size sf s)) (\<lambda>(len, s).
     bindE (print_src len s) (\<lambda>s.
     bindE (if condition c s then pass s else fail s) (\<lambda>s. Inr (len, s))))"

definition make_instr_impl_2op :: "(mach \<Rightarrow> mach res) \<Rightarrow> decoder \<Rightarrow> suffix \<Rightarrow> instr_func" where
  "make_instr_impl_2op execute decode sf pc opcode s =
     bindE (decode pc opcode 1 (decode_data_size sf s)) (\<lambda>(len, s).
     bindE (print_src_dest len s) (\<lambda>s.
     bindE (execute s) (\<lambda>s. Inr (len, s))))"

definition make_instr_impl_2op_cc ::
    "(mach \<Rightarrow> mach res) \<Rightarrow> (mach \<Rightarrow> mach res) \<Rightarrow> decoder \<Rightarrow> suffix \<Rightarrow> cc \<Rightarrow> instr_func" where
  "make_instr_impl_2op_cc pass fail decode sf c pc opcode s =
     bindE (decode pc opcode 1 (decode_data_size sf s)) (\<lambda>(len, s).
     bindE (print_src_dest len s) (\<lambda>s.
     bindE (if condition c s then pass s else fail s) (\<lambda>s. Inr (len, s))))"

end
