(* ===== verification/InstrArith.thy ===== *)
theory InstrArith
  imports InstrHelper
begin

text \<open>
  The arithmetic and logic handlers of \<open>nemu/src/cpu/instr/\<close>: one group per C file,
  its \<open>instr_execute\<close> functions first, then the handlers its macros make. Local
  operands are built from \<open>OPERAND_0\<close>.
\<close>

section \<open>Local operands\<close>

definition opr_reg :: "nat \<Rightarrow> u32 \<Rightarrow> OPERAND" where
  "opr_reg n a = OPERAND_0\<lparr>otype := OPR_REG, osize := n, oaddr := a\<rparr>"

definition opr_imm :: "nat \<Rightarrow> u32 \<Rightarrow> OPERAND" where
  "opr_imm n a = OPERAND_0\<lparr>otype := OPR_IMM, osize := n, oaddr := a\<rparr>"

definition opr_mem :: "nat \<Rightarrow> u32 \<Rightarrow> nat \<Rightarrow> OPERAND" where
  "opr_mem n a sr = OPERAND_0\<lparr>otype := OPR_MEM, osize := n, oaddr := a, osreg := sr\<rparr>"

definition opr_size :: "nat \<Rightarrow> OPERAND" where
  "opr_size n = OPERAND_0\<lparr>osize := n\<rparr>"

section \<open>Two-operand operations through the ALU\<close>

text \<open>\<open>alu_2op\<close> writes the result back, \<open>alu_2op_flags\<close> keeps the flags only.\<close>

definition alu_2op :: "(u32 \<Rightarrow> u32 \<Rightarrow> u32 \<Rightarrow> u32 \<times> u32) \<Rightarrow> mach \<Rightarrow> mach res" where
  "alu_2op f s =
     bindE (read_src s) (\<lambda>s.
     bindE (read_dest s) (\<lambda>s.
       let (v, w) = f (oval (opr_src s)) (oval (opr_dest s)) (fl s) in write_dest v (set_fl w s)))"

definition alu_2op_flags :: "(u32 \<Rightarrow> u32 \<Rightarrow> u32 \<Rightarrow> u32 \<times> u32) \<Rightarrow> mach \<Rightarrow> mach res" where
  "alu_2op_flags f s =
     bindE (read_src s) (\<lambda>s.
     bindE (read_dest s) (\<lambda>s.
       Inr (set_fl (snd (f (oval (opr_src s)) (oval (opr_dest s)) (fl s))) s)))"

text \<open>
  The sign-extended byte forms read the immediate at \<open>eip + len\<close> and the operand \<open>rm\<close>
  after \<open>fix\<close> has changed it the way the handler does, and return \<open>len + 1\<close>.
\<close>

definition si_operands :: "(OPERAND \<Rightarrow> OPERAND) \<Rightarrow> OPERAND \<Rightarrow> u32 \<Rightarrow> mach \<Rightarrow>
    (nat \<times> u32 \<times> OPERAND \<times> mach) res" where
  "si_operands fix_rm rm pc s =
     bindE (modrm_rm (pc + 1) rm s) (\<lambda>(n, rm, s).
       let len = 1 + n; rm = fix_rm rm in
       bindE (operand_read (opr_imm 8 (pc + of_nat len)) s) (\<lambda>(imm, s).
       bindE (operand_read rm s) (\<lambda>(rm, s).
       bindE (sign_ext (oval imm) 8) (\<lambda>v. Inr (len + 1, v, rm, s)))))"

definition si2rm :: "(OPERAND \<Rightarrow> OPERAND) \<Rightarrow> (u32 \<Rightarrow> u32 \<Rightarrow> u32 \<Rightarrow> u32 \<times> u32) \<Rightarrow> OPERAND \<Rightarrow> u32 \<Rightarrow>
    mach \<Rightarrow> (nat \<times> mach) res" where
  "si2rm fix_rm f rm pc s =
     bindE (si_operands fix_rm rm pc s) (\<lambda>(len, v, rm, s).
       let (r, w) = f v (oval rm) (fl s) in
       bindE (operand_write (rm\<lparr>oval := r\<rparr>) (set_fl w s)) (\<lambda>s. Inr (len, s)))"

abbreviation in_ss :: "OPERAND \<Rightarrow> OPERAND" where "in_ss rm \<equiv> rm\<lparr>osreg := SREG_SS\<rparr>"

section \<open>\<open>add.c\<close>\<close>

definition add_execute_2op :: "mach \<Rightarrow> mach res" where "add_execute_2op = alu_2op alu_add"

definition add_i2rm_v :: instr_func where
  "add_i2rm_v = make_instr_impl_2op add_execute_2op decode_operand_i2rm V"
definition add_r2rm_v :: instr_func where
  "add_r2rm_v = make_instr_impl_2op add_execute_2op decode_operand_r2rm V"
definition add_r2rm_b :: instr_func where
  "add_r2rm_b = make_instr_impl_2op add_execute_2op decode_operand_r2rm B"
definition add_rm2r_v :: instr_func where
  "add_rm2r_v = make_instr_impl_2op add_execute_2op decode_operand_rm2r V"

definition add_si2rm_v :: instr_func where
  "add_si2rm_v pc opcode s = si2rm in_ss alu_add (opr_size (data_size s)) pc s"

definition add_i2a_v :: instr_func where
  "add_i2a_v pc opcode s =
     bindE (operand_read (opr_imm (data_size s) (pc + 1)) s) (\<lambda>(imm, s).
       let s' =
         (if data_size s = 16 then
            let res = ucast (oval imm) + ucast (reg REG_EAX s) :: u16 in
            set_reg REG_EAX (push_bit 16 (drop_bit 16 (reg REG_EAX s)) + ucast res) s
          else if data_size s = 32 then
            let (v, w) = alu_add (oval imm) (reg REG_EAX s) (fl s) in set_reg REG_EAX v (set_fl w s)
          else s) in
       Inr (1 + data_size s div 8, s'))"

section \<open>\<open>adc.c\<close>, \<open>sub.c\<close>, \<open>sbb.c\<close>\<close>

definition adc_execute_2op :: "mach \<Rightarrow> mach res" where "adc_execute_2op = alu_2op alu_adc"

definition adc_r2rm_v :: instr_func where
  "adc_r2rm_v = make_instr_impl_2op adc_execute_2op decode_operand_r2rm V"

definition adc_si2rm_v :: instr_func where
  "adc_si2rm_v pc opcode s =
     si2rm (\<lambda>rm. rm\<lparr>otype := OPR_MEM, osreg := SREG_SS\<rparr>) alu_adc (opr_size (data_size s)) pc s"

definition sub_execute_2op :: "mach \<Rightarrow> mach res" where "sub_execute_2op = alu_2op alu_sub"

definition sub_i2rm_v :: instr_func where
  "sub_i2rm_v = make_instr_impl_2op sub_execute_2op decode_operand_i2rm V"
definition sub_rm2r_v :: instr_func where
  "sub_rm2r_v = make_instr_impl_2op sub_execute_2op decode_operand_rm2r V"
definition sub_r2rm_v :: instr_func where
  "sub_r2rm_v = make_instr_impl_2op sub_execute_2op decode_operand_r2rm V"
definition sub_i2a_v :: instr_func where
  "sub_i2a_v = make_instr_impl_2op sub_execute_2op decode_operand_i2a V"

text \<open>\<open>sub_si2rm_v\<close> reads the operand before the immediate.\<close>

definition sub_si2rm_v :: instr_func where
  "sub_si2rm_v pc opcode s =
     bindE (modrm_rm (pc + 1) (opr_size (data_size s)) s) (\<lambda>(n, rm, s).
       let len = 1 + n in
       bindE (operand_read (in_ss rm) s) (\<lambda>(rm, s).
       bindE (operand_read (opr_imm 8 (pc + of_nat len)) s) (\<lambda>(imm, s).
       bindE (sign_ext (oval imm) 8) (\<lambda>v.
         let (r, w) = alu_sub v (oval rm) (fl s) in
         bindE (operand_write (rm\<lparr>oval := r\<rparr>) (set_fl w s)) (\<lambda>s. Inr (len + 1, s))))))"

definition sbb_execute_2op :: "mach \<Rightarrow> mach res" where "sbb_execute_2op = alu_2op alu_sbb"

definition sbb_rm2r_v :: instr_func where
  "sbb_rm2r_v = make_instr_impl_2op sbb_execute_2op decode_operand_rm2r V"

section \<open>\<open>and.c\<close>, \<open>or.c\<close>, \<open>xor.c\<close>\<close>

definition and_execute_2op :: "mach \<Rightarrow> mach res" where "and_execute_2op = alu_2op alu_and"

definition and_rm2r_b :: instr_func where
  "and_rm2r_b = make_instr_impl_2op and_execute_2op decode_operand_rm2r B"
definition and_r2rm_v :: instr_func where
  "and_r2rm_v = make_instr_impl_2op and_execute_2op decode_operand_r2rm V"
definition and_i2rm_v :: instr_func where
  "and_i2rm_v = make_instr_impl_2op and_execute_2op decode_operand_i2rm V"
definition and_i2rm_b :: instr_func where
  "and_i2rm_b = make_instr_impl_2op and_execute_2op decode_operand_i2rm B"
definition and_i2a_v :: instr_func where
  "and_i2a_v = make_instr_impl_2op and_execute_2op decode_operand_i2a V"

definition and_si2rm_v :: instr_func where
  "and_si2rm_v pc opcode s = si2rm in_ss alu_and (opr_size (data_size s)) pc s"

definition or_execute_2op :: "mach \<Rightarrow> mach res" where "or_execute_2op = alu_2op alu_or"

definition or_r2rm_v :: instr_func where
  "or_r2rm_v = make_instr_impl_2op or_execute_2op decode_operand_r2rm V"
definition or_rm2r_b :: instr_func where
  "or_rm2r_b = make_instr_impl_2op or_execute_2op decode_operand_rm2r B"
definition or_i2rm_b :: instr_func where
  "or_i2rm_b = make_instr_impl_2op or_execute_2op decode_operand_i2rm B"
definition or_i2rm_v :: instr_func where
  "or_i2rm_v = make_instr_impl_2op or_execute_2op decode_operand_i2rm V"

definition or_si2rm_v :: instr_func where
  "or_si2rm_v pc opcode s = si2rm (\<lambda>rm. rm) alu_or (opr_mem (data_size s) 0 SREG_SS) pc s"

definition xor_execute_2op :: "mach \<Rightarrow> mach res" where "xor_execute_2op = alu_2op alu_xor"

definition xor_r2rm_v :: instr_func where
  "xor_r2rm_v = make_instr_impl_2op xor_execute_2op decode_operand_r2rm V"

section \<open>\<open>cmp.c\<close>, \<open>test.c\<close>\<close>

definition cmp_execute_2op :: "mach \<Rightarrow> mach res" where "cmp_execute_2op = alu_2op_flags alu_sub"

definition cmp_r2rm_v :: instr_func where
  "cmp_r2rm_v = make_instr_impl_2op cmp_execute_2op decode_operand_r2rm V"
definition cmp_i2rm_v :: instr_func where
  "cmp_i2rm_v = make_instr_impl_2op cmp_execute_2op decode_operand_i2rm V"
definition cmp_rm2r_v :: instr_func where
  "cmp_rm2r_v = make_instr_impl_2op cmp_execute_2op decode_operand_rm2r V"
definition cmp_i2rm_b :: instr_func where
  "cmp_i2rm_b = make_instr_impl_2op cmp_execute_2op decode_operand_i2rm B"
definition cmp_rm2r_b :: instr_func where
  "cmp_rm2r_b = make_instr_impl_2op cmp_execute_2op decode_operand_rm2r B"
definition cmp_i2a_v :: instr_func where
  "cmp_i2a_v = make_instr_impl_2op cmp_execute_2op decode_operand_i2a V"

definition cmp_si2rm_v :: instr_func where
  "cmp_si2rm_v pc opcode s =
     bindE (si_operands (\<lambda>rm. rm) (opr_mem (data_size s) 0 SREG_SS) pc s) (\<lambda>(len, v, rm, s).
     bindE (sign_ext (oval rm) (data_size s)) (\<lambda>d.
       Inr (len, set_fl (snd (alu_sub v d (fl s))) s)))"

definition cmp_i2a_b :: instr_func where
  "cmp_i2a_b pc opcode s =
     bindE (operand_read (opr_imm 8 (pc + 1)) s) (\<lambda>(imm, s).
       Inr (2, set_fl (snd (alu_sub (oval imm) (ucast (gpr8 0 (cpu s))) (fl s))) s))"

definition test_execute_2op :: "mach \<Rightarrow> mach res" where "test_execute_2op = alu_2op_flags alu_and"

definition test_r2rm_v :: instr_func where
  "test_r2rm_v = make_instr_impl_2op test_execute_2op decode_operand_r2rm V"
definition test_r2rm_b :: instr_func where
  "test_r2rm_b = make_instr_impl_2op test_execute_2op decode_operand_r2rm B"
definition test_i2rm_v :: instr_func where
  "test_i2rm_v = make_instr_impl_2op test_execute_2op decode_operand_i2rm V"
definition test_i2rm_b :: instr_func where
  "test_i2rm_b = make_instr_impl_2op test_execute_2op decode_operand_i2rm B"

definition test_i2a_v :: instr_func where
  "test_i2a_v pc opcode s =
     bindE (operand_read (opr_imm (data_size s) (pc + 1)) s) (\<lambda>(imm, s).
       Inr (1 + data_size s div 8, set_fl (snd (alu_and (oval imm) (reg REG_EAX s) (fl s))) s))"

definition test_i2a_b :: instr_func where
  "test_i2a_b pc opcode s =
     bindE (operand_read (opr_imm 8 (pc + 1)) s) (\<lambda>(imm, s).
       Inr (2, set_fl (snd (alu_and (oval imm) (reg REG_EAX s) (fl s))) s))"

section \<open>One-operand files\<close>

definition inc_execute_1op :: "mach \<Rightarrow> mach res" where
  "inc_execute_1op s = bindE (read_src s) (\<lambda>s. write_src (oval (opr_src s) + 1) s)"

definition inc_rm_v :: instr_func where
  "inc_rm_v = make_instr_impl_1op inc_execute_1op decode_operand_rm V"
definition inc_r_v :: instr_func where
  "inc_r_v = make_instr_impl_1op inc_execute_1op decode_operand_r V"

definition dec_execute_1op :: "mach \<Rightarrow> mach res" where
  "dec_execute_1op s = bindE (read_src s) (\<lambda>s. write_src (oval (opr_src s) - 1) s)"

definition dec_r_v :: instr_func where
  "dec_r_v = make_instr_impl_1op dec_execute_1op decode_operand_r V"
definition dec_rm_v :: instr_func where
  "dec_rm_v = make_instr_impl_1op dec_execute_1op decode_operand_rm V"

definition neg_execute_1op :: "mach \<Rightarrow> mach res" where
  "neg_execute_1op s =
     bindE (read_src s) (\<lambda>s.
       write_src (- oval (opr_src s)) (set_fl (put_CF (oval (opr_src s) \<noteq> 0) (fl s)) s))"

definition neg_rm_v :: instr_func where
  "neg_rm_v = make_instr_impl_1op neg_execute_1op decode_operand_rm V"

definition not_execute_1op :: "mach \<Rightarrow> mach res" where
  "not_execute_1op s = bindE (read_src s) (\<lambda>s. write_src (NOT (oval (opr_src s))) s)"

definition not_rm_v :: instr_func where
  "not_rm_v = make_instr_impl_1op not_execute_1op decode_operand_rm V"

text \<open>\<open>bt.c\<close> shifts by the whole source, undefined in C from 32 on.\<close>

definition bt_execute_2op :: "mach \<Rightarrow> mach res" where
  "bt_execute_2op s =
     bindE (read_src s) (\<lambda>s.
     bindE (read_dest s) (\<lambda>s.
     definedE ''bt'' (oval (opr_src s) < 32)
       (Inr (set_fl (put_CF (bit (oval (opr_dest s)) (unat (oval (opr_src s)))) (fl s)) s))))"

definition bt_r2rm_v :: instr_func where
  "bt_r2rm_v = make_instr_impl_2op bt_execute_2op decode_operand_r2rm V"

definition cltd :: instr_func where
  "cltd pc opcode s =
     bindE (operand_read (opr_reg (data_size s) 0) s) (\<lambda>(ax, s).
     let dxval = (if sint (oval ax) < 0 then NOT 0 else 0) in
     bindE (operand_write ((opr_reg (data_size s) 2)\<lparr>oval := dxval\<rparr>) s) (\<lambda>s.
     bindE (print_asm_0 1 s) (\<lambda>s. Inr (1, s))))"

definition cbw_execute_1op :: "mach \<Rightarrow> mach res" where
  "cbw_execute_1op s =
     bindE (read_src s) (\<lambda>s.
     bindE (sign_ext (oval (opr_src s)) (if osize (opr_src s) = 16 then 8 else 16)) (\<lambda>v.
       write_src v s))"

definition cbw_a_v :: instr_func where
  "cbw_a_v = make_instr_impl_1op cbw_execute_1op decode_operand_a V"

section \<open>Shifts\<close>

definition shift_2op :: "(u32 \<Rightarrow> u32 \<Rightarrow> nat \<Rightarrow> u32 \<Rightarrow> (u32 \<times> u32) res) \<Rightarrow> mach \<Rightarrow> mach res" where
  "shift_2op f s =
     bindE (read_src s) (\<lambda>s.
     bindE (read_dest s) (\<lambda>s.
     bindE (f (oval (opr_src s)) (oval (opr_dest s)) (osize (opr_dest s)) (fl s)) (\<lambda>(v, w).
       write_dest v (set_fl w s))))"

definition shift_1op :: "(u32 \<Rightarrow> u32 \<Rightarrow> nat \<Rightarrow> u32 \<Rightarrow> (u32 \<times> u32) res) \<Rightarrow> mach \<Rightarrow> mach res" where
  "shift_1op f s =
     bindE (read_src s) (\<lambda>s.
     bindE (f 1 (oval (opr_src s)) (osize (opr_src s)) (fl s)) (\<lambda>(v, w).
       write_src v (set_fl w s)))"

definition shl_i2rm_b :: instr_func where
  "shl_i2rm_b = make_instr_impl_2op (shift_2op alu_shl) decode_operand_i2rm B"
definition shl_i2rm_bv :: instr_func where
  "shl_i2rm_bv = make_instr_impl_2op (shift_2op alu_shl) decode_operand_i2rm BV"
definition shl_c2rm_b :: instr_func where
  "shl_c2rm_b = make_instr_impl_2op (shift_2op alu_shl) decode_operand_c2rm B"
definition shl_c2rm_bv :: instr_func where
  "shl_c2rm_bv = make_instr_impl_2op (shift_2op alu_shl) decode_operand_c2rm BV"
definition shl_rm_b :: instr_func where
  "shl_rm_b = make_instr_impl_1op (shift_1op alu_shl) decode_operand_rm B"
definition shl_rm_v :: instr_func where
  "shl_rm_v = make_instr_impl_1op (shift_1op alu_shl) decode_operand_rm V"

definition shr_i2rm_b :: instr_func where
  "shr_i2rm_b = make_instr_impl_2op (shift_2op alu_shr) decode_operand_i2rm B"
definition shr_i2rm_bv :: instr_func where
  "shr_i2rm_bv = make_instr_impl_2op (shift_2op alu_shr) decode_operand_i2rm BV"
definition shr_c2rm_b :: instr_func where
  "shr_c2rm_b = make_instr_impl_2op (shift_2op alu_shr) decode_operand_c2rm B"
definition shr_c2rm_bv :: instr_func where
  "shr_c2rm_bv = make_instr_impl_2op (shift_2op alu_shr) decode_operand_c2rm BV"
definition shr_rm_b :: instr_func where
  "shr_rm_b = make_instr_impl_1op (shift_1op alu_shr) decode_operand_rm B"
definition shr_rm_v :: instr_func where
  "shr_rm_v = make_instr_impl_1op (shift_1op alu_shr) decode_operand_rm V"

definition sar_i2rm_b :: instr_func where
  "sar_i2rm_b = make_instr_impl_2op (shift_2op alu_sar) decode_operand_i2rm B"
definition sar_i2rm_bv :: instr_func where
  "sar_i2rm_bv = make_instr_impl_2op (shift_2op alu_sar) decode_operand_i2rm BV"
definition sar_c2rm_b :: instr_func where
  "sar_c2rm_b = make_instr_impl_2op (shift_2op alu_sar) decode_operand_c2rm B"
definition sar_c2rm_bv :: instr_func where
  "sar_c2rm_bv = make_instr_impl_2op (shift_2op alu_sar) decode_operand_c2rm BV"
definition sar_rm_b :: instr_func where
  "sar_rm_b = make_instr_impl_1op (shift_1op alu_sar) decode_operand_rm B"
definition sar_rm_v :: instr_func where
  "sar_rm_v = make_instr_impl_1op (shift_1op alu_sar) decode_operand_rm V"

end
