(* ===== verification/InstrMov.thy ===== *)
theory InstrMov
  imports InstrArith
begin

text \<open>
  Data movement: \<open>mov.c\<close>, \<open>cmov.c\<close>, \<open>lea.c\<close>, \<open>xchg.c\<close>, \<open>setcc.c\<close>,
  the string instructions and the stack instructions \<open>push.c\<close>, \<open>pop.c\<close>,
  \<open>leave.c\<close>.
\<close>

section \<open>\<open>mov.c\<close>\<close>

definition mov_execute_2op :: "mach \<Rightarrow> mach res" where
  "mov_execute_2op s = bindE (read_src s) (\<lambda>s. write_dest (oval (opr_src s)) s)"

definition mov_r2rm_b :: instr_func where
  "mov_r2rm_b = make_instr_impl_2op mov_execute_2op decode_operand_r2rm B"
definition mov_r2rm_v :: instr_func where
  "mov_r2rm_v = make_instr_impl_2op mov_execute_2op decode_operand_r2rm V"
definition mov_rm2r_b :: instr_func where
  "mov_rm2r_b = make_instr_impl_2op mov_execute_2op decode_operand_rm2r B"
definition mov_rm2r_v :: instr_func where
  "mov_rm2r_v = make_instr_impl_2op mov_execute_2op decode_operand_rm2r V"
definition mov_i2rm_b :: instr_func where
  "mov_i2rm_b = make_instr_impl_2op mov_execute_2op decode_operand_i2rm B"
definition mov_i2rm_v :: instr_func where
  "mov_i2rm_v = make_instr_impl_2op mov_execute_2op decode_operand_i2rm V"
definition mov_i2r_b :: instr_func where
  "mov_i2r_b = make_instr_impl_2op mov_execute_2op decode_operand_i2r B"
definition mov_i2r_v :: instr_func where
  "mov_i2r_v = make_instr_impl_2op mov_execute_2op decode_operand_i2r V"
definition mov_a2o_b :: instr_func where
  "mov_a2o_b = make_instr_impl_2op mov_execute_2op decode_operand_a2o B"
definition mov_a2o_v :: instr_func where
  "mov_a2o_v = make_instr_impl_2op mov_execute_2op decode_operand_a2o V"
definition mov_o2a_b :: instr_func where
  "mov_o2a_b = make_instr_impl_2op mov_execute_2op decode_operand_o2a B"
definition mov_o2a_v :: instr_func where
  "mov_o2a_v = make_instr_impl_2op mov_execute_2op decode_operand_o2a V"

definition mov_cr2r :: instr_func where
  "mov_cr2r pc opcode s =
     bindE (modrm_r_rm (pc + 1) (opr_size 32) (opr_reg 32 0) s) (\<lambda>(n, cr, r, s).
     bindE (operand_read (cr\<lparr>otype := OPR_CREG\<rparr>) s) (\<lambda>(cr, s).
     bindE (operand_write (r\<lparr>oval := oval cr\<rparr>) s) (\<lambda>s. Inr (2, s))))"

definition mov_r2cr :: instr_func where
  "mov_r2cr pc opcode s =
     bindE (modrm_r_rm (pc + 1) (opr_size 32) (opr_reg 32 0) s) (\<lambda>(n, cr, r, s).
     bindE (operand_read r s) (\<lambda>(r, s).
     bindE (operand_write (cr\<lparr>otype := OPR_CREG, oval := oval r\<rparr>) s) (\<lambda>s. Inr (2, s))))"

definition mov_rm2sr_v :: instr_func where
  "mov_rm2sr_v pc opcode s =
     bindE (modrm_r_rm (pc + 1) (opr_size 16) (opr_mem 16 0 SREG_SS) s) (\<lambda>(n, sr, rm, s).
     bindE (operand_read rm s) (\<lambda>(rm, s).
     bindE (operand_write (sr\<lparr>otype := OPR_SREG, oval := oval rm\<rparr>) s) (\<lambda>s.
     bindE (load_sreg (unat (oaddr sr)) s) (\<lambda>s. Inr (1 + n, s)))))"

text \<open>
  The four extending moves: destination of \<open>n_r\<close> bits, source of \<open>n_rm\<close>, extended
  with sign or with zeros.
\<close>

definition mov_extend :: "nat \<Rightarrow> nat \<Rightarrow> bool \<Rightarrow> u32 \<Rightarrow> mach \<Rightarrow> (nat \<times> mach) res" where
  "mov_extend n_r n_rm sx pc s =
     bindE (modrm_r_rm (pc + 1) (opr_size n_r) (opr_size n_rm) s) (\<lambda>(n, r, rm, s).
     bindE (operand_read rm s) (\<lambda>(rm, s).
     bindE (if sx then sign_ext (oval rm) n_rm else Inr (oval rm)) (\<lambda>v.
       let r = r\<lparr>oval := v\<rparr> in
       bindE (operand_write r s) (\<lambda>s.
       bindE (print_asm_2 (1 + n) rm r s) (\<lambda>(_, _, s). Inr (1 + n, s))))))"

definition mov_zrm82r_v :: instr_func where
  "mov_zrm82r_v pc opcode s = mov_extend (data_size s) 8 False pc s"
definition mov_zrm162r_l :: instr_func where
  "mov_zrm162r_l pc opcode s = mov_extend 32 16 False pc s"
definition mov_srm82r_v :: instr_func where
  "mov_srm82r_v pc opcode s = mov_extend (data_size s) 8 True pc s"
definition mov_srm162r_l :: instr_func where
  "mov_srm162r_l pc opcode s = mov_extend 32 16 True pc s"

section \<open>\<open>cmov.c\<close>, \<open>setcc.c\<close>, \<open>lea.c\<close>, \<open>xchg.c\<close>\<close>

definition cmov_pass :: "mach \<Rightarrow> mach res" where
  "cmov_pass s = bindE (read_src s) (\<lambda>s. write_dest (oval (opr_src s)) s)"

definition cmov :: "cc \<Rightarrow> instr_func" where
  "cmov c = make_instr_impl_2op_cc cmov_pass Inr decode_operand_rm2r V c"

definition setcc_pass :: "mach \<Rightarrow> mach res" where "setcc_pass s = write_src 1 s"
definition setcc_fail :: "mach \<Rightarrow> mach res" where "setcc_fail s = write_src 0 s"

definition setcc :: "cc \<Rightarrow> instr_func" where
  "setcc c = make_instr_impl_1op_cc setcc_pass setcc_fail decode_operand_rm B c"

definition lea_rm2r_v :: instr_func where
  "lea_rm2r_v pc opcode s =
     bindE (modrm_r_rm (pc + 1) (opr_reg (data_size s) 0) (opr_mem (data_size s) 0 0) s)
      (\<lambda>(n, r, rm, s).
        bindE (operand_write (r\<lparr>oval := oaddr rm\<rparr>) s) (\<lambda>s. Inr (1 + n, s)))"

definition xchg_esp :: instr_func where
  "xchg_esp pc opcode s =
     (let temp = reg REG_ESP s in
      Inr (1, set_reg REG_EAX temp (set_reg REG_ESP (reg REG_EAX s) s)))"

section \<open>String instructions\<close>

text \<open>\<open>DF == 0 ? n / 8 : -n / 8\<close>; the division of the negative number is exact.\<close>

definition inc_dec :: "nat \<Rightarrow> mach \<Rightarrow> u32" where
  "inc_dec n s = (if fl_DF (fl s) then - of_nat (n div 8) else of_nat (n div 8))"

definition movs :: "nat \<Rightarrow> mach \<Rightarrow> (nat \<times> mach) res" where
  "movs n s =
     (let mdi = opr_mem n (reg REG_EDI s) SREG_DS in
      bindE (operand_read (opr_mem n (reg REG_ESI s) SREG_DS) s) (\<lambda>(msi, s).
      bindE (operand_write (mdi\<lparr>oval := oval msi\<rparr>) s) (\<lambda>s.
        let d = inc_dec n s;
            s = set_reg REG_ESI (reg REG_ESI s + d) s;
            s = set_reg REG_EDI (reg REG_EDI s + d) s in
        bindE (print_asm_0 1 s) (\<lambda>s. Inr (1, s)))))"

definition movs_v :: instr_func where "movs_v pc opcode s = movs (data_size s) s"
definition movs_b :: instr_func where "movs_b pc opcode s = movs 8 s"

definition cmps :: "nat \<Rightarrow> mach \<Rightarrow> (nat \<times> mach) res" where
  "cmps n s =
     (let mdi = opr_mem n (reg REG_EDI s) SREG_DS in
      bindE (operand_read (opr_mem n (reg REG_ESI s) SREG_DS) s) (\<lambda>(msi, s).
      bindE (operand_read mdi s) (\<lambda>(mdi, s).
        let s = set_fl (snd (alu_sub (oval mdi) (oval msi) (fl s))) s;
            d = inc_dec n s;
            s = set_reg REG_ESI (reg REG_ESI s + d) s;
            s = set_reg REG_EDI (reg REG_EDI s + d) s in
        bindE (print_asm_0 1 s) (\<lambda>s. Inr (1, s)))))"

definition cmps_v :: instr_func where "cmps_v pc opcode s = cmps (data_size s) s"
definition cmps_b :: instr_func where "cmps_b pc opcode s = cmps 8 s"

definition stos :: "nat \<Rightarrow> mach \<Rightarrow> (nat \<times> mach) res" where
  "stos n s =
     (let mdi = opr_mem n (reg REG_EDI s) SREG_ES in
      bindE (operand_read (opr_reg n 0) s) (\<lambda>(al, s).
        let s = set_reg REG_EDI (reg REG_EDI s + inc_dec n s) s in
        bindE (operand_write (mdi\<lparr>oval := oval al\<rparr>) s) (\<lambda>s.
        bindE (print_asm_0 1 s) (\<lambda>s. Inr (1, s)))))"

definition stos_b :: instr_func where "stos_b pc opcode s = stos 8 s"
definition stos_v :: instr_func where "stos_v pc opcode s = stos (data_size s) s"

section \<open>Stack instructions\<close>

definition sub_esp :: "u32 \<Rightarrow> mach \<Rightarrow> mach" where
  "sub_esp n s = set_reg REG_ESP (reg REG_ESP s - n) s"

definition add_esp :: "u32 \<Rightarrow> mach \<Rightarrow> mach" where
  "add_esp n s = set_reg REG_ESP (reg REG_ESP s + n) s"

text \<open>\<open>cpu.esp -= 4\<close>, then a write of \<open>n\<close> bits there.\<close>

definition push_val :: "nat \<Rightarrow> u32 \<Rightarrow> mach \<Rightarrow> mach res" where
  "push_val n v s =
     (let s = sub_esp 4 s in operand_write ((opr_mem n (reg REG_ESP s) SREG_SS)\<lparr>oval := v\<rparr>) s)"

text \<open>A read of \<open>n\<close> bits at ESP; the callers add 4 to ESP.\<close>

definition read_top :: "nat \<Rightarrow> mach \<Rightarrow> (u32 \<times> mach) res" where
  "read_top n s =
     bindE (operand_read (opr_mem n (reg REG_ESP s) SREG_SS) s) (\<lambda>(rm, s). Inr (oval rm, s))"

definition push_r_v :: instr_func where
  "push_r_v pc opcode s =
     (let ds = data_size s in
      bindE (operand_read (opr_reg ds (ucast (opcode AND 7))) s) (\<lambda>(r, s).
      bindE (push_val ds (oval r) s) (\<lambda>s. Inr (1, s))))"

definition push_rm_v :: instr_func where
  "push_rm_v pc opcode s =
     (let s = sub_esp 4 s in
      bindE (modrm_rm (pc + 1) OPERAND_0 s) (\<lambda>(n, rm, s).
        let src = rm\<lparr>osize := data_size s, otype := OPR_MEM, osreg := SREG_SS\<rparr>;
            dest = opr_mem 32 (reg REG_ESP s) SREG_SS in
        bindE (operand_read src s) (\<lambda>(src, s).
        bindE (operand_write (dest\<lparr>oval := oval src\<rparr>) s) (\<lambda>s. Inr (1 + n, s)))))"

text \<open>\<open>push_i_b\<close> and \<open>push_i_v\<close> push a sign-extended immediate of \<open>n\<close> bits.\<close>

definition push_i :: "nat \<Rightarrow> u32 \<Rightarrow> mach \<Rightarrow> (nat \<times> mach) res" where
  "push_i n pc s =
     (let s = sub_esp 4 s; rm = opr_mem 32 (reg REG_ESP s) SREG_SS in
      bindE (operand_read (opr_imm n (pc + 1)) s) (\<lambda>(imm, s).
      bindE (sign_ext (oval imm) n) (\<lambda>v.
      bindE (operand_write (rm\<lparr>oval := v\<rparr>) s) (\<lambda>s. Inr (1 + n div 8, s)))))"

definition push_i_b :: instr_func where "push_i_b pc opcode s = push_i 8 pc s"
definition push_i_v :: instr_func where "push_i_v pc opcode s = push_i (data_size s) pc s"

definition pusha :: instr_func where
  "pusha pc opcode s =
     (let temp = reg REG_ESP s in
      bindE (push_val 32 (reg REG_EAX s) s) (\<lambda>s.
      bindE (push_val 32 (reg REG_ECX s) s) (\<lambda>s.
      bindE (push_val 32 (reg REG_EDX s) s) (\<lambda>s.
      bindE (push_val 32 (reg REG_EBX s) s) (\<lambda>s.
      bindE (push_val 32 temp s) (\<lambda>s.
      bindE (push_val 32 (reg REG_EBP s) s) (\<lambda>s.
      bindE (push_val 32 (reg REG_ESI s) s) (\<lambda>s.
      bindE (push_val 32 (reg REG_EDI s) s) (\<lambda>s. Inr (1, s))))))))))"

definition pop_2r_v :: instr_func where
  "pop_2r_v pc opcode s =
     (let ds = data_size s in
      bindE (read_top ds s) (\<lambda>(v, s).
      bindE (operand_write ((opr_reg ds (ucast (opcode AND 7)))\<lparr>oval := v\<rparr>) s) (\<lambda>s.
        Inr (1, add_esp 4 s))))"

definition pop_reg :: "nat \<Rightarrow> mach \<Rightarrow> mach res" where
  "pop_reg r s = bindE (read_top 32 s) (\<lambda>(v, s). Inr (add_esp 4 (set_reg r v s)))"

definition popa :: instr_func where
  "popa pc opcode s =
     bindE (pop_reg REG_EDI s) (\<lambda>s.
     bindE (pop_reg REG_ESI s) (\<lambda>s.
     bindE (pop_reg REG_EBP s) (\<lambda>s.
     bindE (pop_reg REG_EBX (add_esp 4 s)) (\<lambda>s.
     bindE (pop_reg REG_EDX s) (\<lambda>s.
     bindE (pop_reg REG_ECX s) (\<lambda>s.
     bindE (pop_reg REG_EAX s) (\<lambda>s. Inr (1, s))))))))"

definition leave_v :: instr_func where
  "leave_v pc opcode s =
     (let s = set_reg REG_ESP (reg REG_EBP s) s; ds = data_size s in
      bindE (read_top ds s) (\<lambda>(v, s).
        let s = (if ds = 16 then s\<lparr>cpu := set_gpr16 REG_EBP (ucast v) (cpu s)\<rparr>
                 else if ds = 32 then set_reg REG_EBP v s else s) in
        Inr (1, add_esp 4 s)))"

end
