(* ===== verification/Devices.thy ===== *)
theory Devices
  imports Machine
begin

text \<open>
  The devices and the port I/O bus: \<open>nemu/src/device/i8259_pic.c\<close>, \<open>io/port_io.c\<close>
  and \<open>dev/*.c\<close>. A handler is a function of the port, the length and the direction, as
  \<open>make_pio_handler\<close> declares it; the handler table is a list of ports and handler names.
  The disk file is its bytes with a position; it is opened for reading, so writing to it
  changes nothing. Calls into SDL that only show the picture are left out.
\<close>

section \<open>Interrupt controller\<close>

abbreviation (input) "IRQ_BASE \<equiv> 32 :: u8"
abbreviation (input) "I8259_NO_INTR \<equiv> 0xff :: u8"

definition i8259_query_intr_no :: "mach \<Rightarrow> u8" where
  "i8259_query_intr_no s = pic_intr_no s"

definition i8259_raise_intr :: "u8 \<Rightarrow> mach \<Rightarrow> mach" where
  "i8259_raise_intr irq_no s = upd_cpu (\<lambda>c. c\<lparr>intr := 1\<rparr>) (s\<lparr>pic_intr_no := irq_no + IRQ_BASE\<rparr>)"

definition i8259_ack_intr :: "mach \<Rightarrow> mach" where
  "i8259_ack_intr s = upd_cpu (\<lambda>c. c\<lparr>intr := 0\<rparr>) (s\<lparr>pic_intr_no := I8259_NO_INTR\<rparr>)"

section \<open>Ports\<close>

definition write_io_port :: "u16 \<Rightarrow> nat \<Rightarrow> u32 \<Rightarrow> mach \<Rightarrow> mach res" where
  "write_io_port port len d s =
     definedE ''write_io_port'' (unat port + len \<le> 65536)
       (Inr (s\<lparr>io_port := store_bytes (io_port s) (unat port) len d\<rparr>))"

definition read_io_port :: "u16 \<Rightarrow> nat \<Rightarrow> mach \<Rightarrow> u32 res" where
  "read_io_port port len s =
     definedE ''read_io_port'' (unat port + len \<le> 65536)
       (Inr (le_read (\<lambda>i. io_port s (unat port + i)) len))"

text \<open>One byte of a constant port.\<close>

abbreviation port8 :: "u16 \<Rightarrow> mach \<Rightarrow> u8" where
  "port8 port s \<equiv> io_port s (unat port)"

section \<open>Timer, keyboard, serial line\<close>

definition timer_intr :: "mach \<Rightarrow> mach" where
  "timer_intr s = (if nemu_state s = NEMU_RUN then i8259_raise_intr 0 s else s)"

definition handler_timer :: "u16 \<Rightarrow> nat \<Rightarrow> bool \<Rightarrow> mach \<Rightarrow> mach res" where
  "handler_timer port len is_write s = Inr s"

definition sym2scancode :: "u8 list list" where
  "sym2scancode =
    [[0, 0, 0, 0, 0, 0, 0, 0, 14, 15, 0, 0, 0, 28, 0, 0,
      0, 0, 0, 0, 0, 0, 0, 0, 0, 0, 0, 1, 0, 0, 0, 0,
      57, 0, 0, 0, 0, 0, 0, 40, 0, 0, 0, 0, 51, 12, 52, 53,
      11, 2, 3, 4, 5, 6, 7, 8, 9, 10, 0, 39, 0, 13, 0, 0,
      0, 0, 0, 0, 0, 0, 0, 0, 0, 0, 0, 0, 0, 0, 0, 0,
      0, 0, 0, 0, 0, 0, 0, 0, 0, 0, 0, 26, 43, 27, 0, 0,
      41, 30, 48, 46, 32, 18, 33, 34, 35, 23, 36, 37, 38, 50, 49, 24,
      25, 16, 19, 31, 20, 22, 47, 17, 45, 21, 44, 0, 0, 0, 0, 83],
     [0, 0, 0, 0, 0, 0, 0, 0, 0, 0, 0, 0, 0, 0, 0, 0,
      0, 72, 80, 77, 75, 82, 71, 79, 73, 81, 59, 60, 61, 62, 63, 64,
      65, 66, 67, 68, 87, 88, 0, 0, 0, 0, 0, 0, 69, 58, 70, 54,
      42, 29, 29, 56, 56, 0, 0, 0, 0, 0, 0, 0, 0, 0, 0, 0] @ replicate 64 0]"

definition scancode_of :: "u32 \<Rightarrow> u8 res" where
  "scancode_of ksym =
     (let hi = unat (drop_bit 8 ksym); lo = unat (ksym AND mask 8) in
      definedE ''sym2scancode'' (hi < 2 \<and> lo < 128) (Inr (sym2scancode ! hi ! lo)))"

definition keyboard_down :: "u32 \<Rightarrow> mach \<Rightarrow> mach res" where
  "keyboard_down ksym s =
     bindE (scancode_of ksym) (\<lambda>c. Inr (i8259_raise_intr 1 (s\<lparr>scan_code_buf := c\<rparr>)))"

definition keyboard_up :: "u32 \<Rightarrow> mach \<Rightarrow> mach res" where
  "keyboard_up ksym s =
     bindE (scancode_of ksym) (\<lambda>c. Inr (i8259_raise_intr 1 (s\<lparr>scan_code_buf := c OR 0x80\<rparr>)))"

definition handler_keyboard_data :: "u16 \<Rightarrow> nat \<Rightarrow> bool \<Rightarrow> mach \<Rightarrow> mach res" where
  "handler_keyboard_data port len is_write s =
     (if \<not> is_write then write_io_port port len (ucast (scan_code_buf s)) s else Inr s)"

abbreviation (input) "SERIAL_PORT \<equiv> 0x3F8 :: u16"

definition handler_serial :: "u16 \<Rightarrow> nat \<Rightarrow> bool \<Rightarrow> mach \<Rightarrow> mach res" where
  "handler_serial port len is_write s =
     (if is_write then
        assertE ''handler_serial'' (len = 1)
          (if port = SERIAL_PORT then
             bindE (read_io_port port 1 s) (\<lambda>c. Inr (s\<lparr>serial_out := serial_out s @ [ucast c]\<rparr>))
           else Inr s)
      else Inr s)"

definition init_serial :: "mach \<Rightarrow> mach res" where
  "init_serial s = write_io_port (SERIAL_PORT + 5) 1 0x20 s"

section \<open>Disk\<close>

abbreviation (input) "IDE_PORT_BASE \<equiv> 0x1F0 :: u16"

definition upd_ide :: "(IDE \<Rightarrow> IDE) \<Rightarrow> mach \<Rightarrow> mach" where
  "upd_ide f s = s\<lparr>ide := f (ide s)\<rparr>"

definition init_ide :: "u8 list \<Rightarrow> mach \<Rightarrow> mach res" where
  "init_ide file s =
     write_io_port (IDE_PORT_BASE + 7) 1 0x40
       (upd_ide (\<lambda>d. d\<lparr>disk := file, disk_pos := 0, disk_idx := 0\<rparr>) s)"

text \<open>\<open>byte_cnt += 4\<close>, with the status port set when a sector is complete.\<close>

definition count_word :: "mach \<Rightarrow> mach res" where
  "count_word s =
     (let s = upd_ide (\<lambda>d. d\<lparr>byte_cnt := byte_cnt d + 4\<rparr>) s in
      if byte_cnt (ide s) = 512 then write_io_port (IDE_PORT_BASE + 7) 1 0x40 s else Inr s)"

definition ide_command :: "mach \<Rightarrow> mach res" where
  "ide_command s =
     bindE (read_io_port (IDE_PORT_BASE + 7) 1 s) (\<lambda>cmd.
       if cmd = 0x20 \<or> cmd = 0x30 then
         bindE (read_io_port (IDE_PORT_BASE + 6) 1 s) (\<lambda>p6.
         bindE (read_io_port (IDE_PORT_BASE + 5) 1 s) (\<lambda>p5.
         bindE (read_io_port (IDE_PORT_BASE + 4) 1 s) (\<lambda>p4.
         bindE (read_io_port (IDE_PORT_BASE + 3) 1 s) (\<lambda>p3.
           let sec = push_bit 24 (p6 AND 0x1f) OR push_bit 16 p5 OR push_bit 8 p4 OR p3;
               s = upd_ide (\<lambda>d. d\<lparr>sector := sec, disk_idx := push_bit 9 sec,
                                   disk_pos := unat (push_bit 9 sec), byte_cnt := 0\<rparr>) s in
           if cmd = 0x20 then
             bindE (write_io_port (IDE_PORT_BASE + 7) 1 0x40 (upd_ide (\<lambda>d. d\<lparr>ide_write := False\<rparr>) s))
               (\<lambda>s. Inr (i8259_raise_intr 14 s))
           else Inr (upd_ide (\<lambda>d. d\<lparr>ide_write := True\<rparr>) s)))))
       else if cmd = 0xc8 then Inr s
       else Inl (Assert_failed ''handler_ide''))"

text \<open>
  \<open>fread\<close> past the end of the file leaves \<open>buf\<close> (partly) uninitialised and is kept as
  \<open>Undefined\<close>.
\<close>

definition handler_ide :: "u16 \<Rightarrow> nat \<Rightarrow> bool \<Rightarrow> mach \<Rightarrow> mach res" where
  "handler_ide port len is_write s =
     assertE ''handler_ide'' (byte_cnt (ide s) \<le> 512)
      (if is_write then
         if port = IDE_PORT_BASE \<and> len = 4 then
           assertE ''handler_ide'' (ide_write (ide s)) (count_word s)
         else if port = IDE_PORT_BASE + 7 then ide_command s
         else Inr s
       else
         if port = IDE_PORT_BASE \<and> len = 4 then
           assertE ''handler_ide'' (\<not> ide_write (ide s))
            (let d = ide s; p = disk_pos d in
             definedE ''handler_ide'' (p + 4 \<le> length (disk d))
              (bindE (write_io_port IDE_PORT_BASE 4 (le_read (\<lambda>i. disk d ! (p + i)) 4)
                        (upd_ide (\<lambda>d. d\<lparr>disk_pos := p + 4\<rparr>) s))
                count_word))
         else Inr s)"

section \<open>Video\<close>

definition upd_vga :: "(VGA \<Rightarrow> VGA) \<Rightarrow> mach \<Rightarrow> mach" where
  "upd_vga f s = s\<lparr>vga := f (vga s)\<rparr>"

text \<open>
  The palette index and data ports. \<open>color_ptr\<close> skips every fourth byte of the palette;
  the skip test of the code compares addresses that are both multiples of four, so it
  looks at the offset modulo four.
\<close>

definition vga_dac_io_handler :: "u16 \<Rightarrow> nat \<Rightarrow> bool \<Rightarrow> mach \<Rightarrow> mach res" where
  "vga_dac_io_handler port len is_write s =
     (if port = 0x3C8 \<and> is_write then
        bindE (read_io_port port 1 s) (\<lambda>i. Inr (upd_vga (\<lambda>v. v\<lparr>color_ptr := Some (4 * unat i)\<rparr>) s))
      else if port = 0x3C9 \<and> is_write then
        (case color_ptr (vga s) of
           None \<Rightarrow> Inl (Undefined ''vga_dac_io_handler'')
         | Some p \<Rightarrow>
             definedE ''vga_dac_io_handler'' (p < 1024)
              (bindE (read_io_port port 1 s) (\<lambda>c.
                Inr (upd_vga (\<lambda>v. v\<lparr>palette := (palette v)(p := ucast (push_bit 2 c)),
                       color_ptr := Some (if (p + 1) mod 4 = 3 then p + 2 else p + 1)\<rparr>) s))))
      else Inr s)"

definition vga_crtc_io_handler :: "u16 \<Rightarrow> nat \<Rightarrow> bool \<Rightarrow> mach \<Rightarrow> mach res" where
  "vga_crtc_io_handler port len is_write s =
     (if port = 0x3D4 \<and> is_write then
        bindE (read_io_port port 1 s) (\<lambda>i.
        definedE ''vga_crtc_io_handler'' (unat i < 19)
          (write_io_port (port + 1) 1 (ucast (vga_crtc_regs (vga s) (unat i))) s))
      else if port = 0x3D5 \<and> is_write then
        bindE (read_io_port 0x3D4 1 s) (\<lambda>i.
        bindE (read_io_port 0x3D5 1 s) (\<lambda>d.
        definedE ''vga_crtc_io_handler'' (unat i < 19)
          (Inr (upd_vga (\<lambda>v. v\<lparr>vga_crtc_regs := (vga_crtc_regs v)(unat i := ucast d)\<rparr>) s))))
      else Inr s)"

definition init_vga :: "mach \<Rightarrow> mach res" where
  "init_vga s =
     bindE (add_mmio_map 0xa0000 0x20000 Vga_vmem_io_handler (mmio_st s)) (\<lambda>(base, m).
       Inr (upd_vga (\<lambda>v. v\<lparr>vmem_base := base\<rparr>) (s\<lparr>mmio_st := m\<rparr>)))"

definition close_vga :: "mach \<Rightarrow> mach" where
  "close_vga s = s\<lparr>mmio_st := clear_mmio_map ((mmio_st s)\<lparr>vmem_dirty := False\<rparr>)\<rparr>"

abbreviation (input) "SCREEN_ROW \<equiv> 400 :: nat"
abbreviation (input) "SCREEN_COL \<equiv> 640 :: nat"

definition draw_pixel :: "nat \<Rightarrow> nat \<Rightarrow> u8 \<Rightarrow> (nat \<Rightarrow> nat \<Rightarrow> u8) \<Rightarrow> (nat \<Rightarrow> nat \<Rightarrow> u8) res" where
  "draw_pixel x y c buf =
     assertE ''draw_pixel'' (x < SCREEN_COL \<and> y < SCREEN_ROW) (Inr (buf(y := (buf y)(x := c))))"

fun draw_line :: "(nat \<Rightarrow> u8) \<Rightarrow> nat \<Rightarrow> nat list \<Rightarrow> (nat \<Rightarrow> nat \<Rightarrow> u8) \<Rightarrow> (nat \<Rightarrow> nat \<Rightarrow> u8) res" where
  "draw_line row i [] buf = Inr buf"
| "draw_line row i (j # js) buf =
     bindE (draw_pixel (2 * j) (2 * i) (row j) buf) (\<lambda>buf.
     bindE (draw_pixel (2 * j) (2 * i + 1) (row j) buf) (\<lambda>buf.
     bindE (draw_pixel (2 * j + 1) (2 * i) (row j) buf) (\<lambda>buf.
     bindE (draw_pixel (2 * j + 1) (2 * i + 1) (row j) buf) (\<lambda>buf.
       draw_line row i js buf))))"

fun draw_dirty :: "mmio \<Rightarrow> nat \<Rightarrow> nat list \<Rightarrow> (nat \<Rightarrow> nat \<Rightarrow> u8) \<Rightarrow> (nat \<Rightarrow> nat \<Rightarrow> u8) res" where
  "draw_dirty m base [] buf = Inr buf"
| "draw_dirty m base (i # is) buf =
     (if line_dirty m i then
        bindE (draw_line (\<lambda>j. mmio_space_pool m (base + i * CTR_COL + j)) i [0..<CTR_COL] buf)
          (draw_dirty m base is)
      else draw_dirty m base is buf)"

definition do_update_screen_graphic_mode :: "mach \<Rightarrow> mach res" where
  "do_update_screen_graphic_mode s =
     bindE (draw_dirty (mmio_st s) (vmem_base (vga s)) [0..<CTR_ROW] (pixel_buf (vga s)))
       (\<lambda>buf. Inr (upd_vga (\<lambda>v. v\<lparr>pixel_buf := buf\<rparr>) s))"

definition update_screen :: "mach \<Rightarrow> mach res" where
  "update_screen s =
     (if vmem_dirty (mmio_st s) then
        bindE (do_update_screen_graphic_mode s) (\<lambda>s.
          Inr (s\<lparr>mmio_st := (mmio_st s)\<lparr>vmem_dirty := False,
                   line_dirty := (\<lambda>i. if i < CTR_ROW then False else line_dirty (mmio_st s) i)\<rparr>\<rparr>))
      else Inr s)"

section \<open>The port bus\<close>

datatype pio_handler = Handler_ide | Handler_keyboard_data | Handler_serial | Handler_timer
  | Vga_dac_io_handler | Vga_crtc_io_handler

definition pio_handler_table :: "(u16 \<times> pio_handler) list" where
  "pio_handler_table =
     [(IDE_PORT_BASE + 0, Handler_ide), (IDE_PORT_BASE + 1, Handler_ide),
      (IDE_PORT_BASE + 2, Handler_ide), (IDE_PORT_BASE + 3, Handler_ide),
      (IDE_PORT_BASE + 4, Handler_ide), (IDE_PORT_BASE + 5, Handler_ide),
      (IDE_PORT_BASE + 6, Handler_ide), (IDE_PORT_BASE + 7, Handler_ide),
      (0x60, Handler_keyboard_data),
      (SERIAL_PORT + 0, Handler_serial), (SERIAL_PORT + 1, Handler_serial),
      (SERIAL_PORT + 2, Handler_serial), (SERIAL_PORT + 3, Handler_serial),
      (SERIAL_PORT + 4, Handler_serial), (SERIAL_PORT + 5, Handler_serial),
      (SERIAL_PORT + 6, Handler_serial), (SERIAL_PORT + 7, Handler_serial),
      (0x40, Handler_timer), (0x41, Handler_timer), (0x42, Handler_timer), (0x43, Handler_timer),
      (0x3C7, Vga_dac_io_handler), (0x3C8, Vga_dac_io_handler), (0x3C9, Vga_dac_io_handler),
      (0x3D4, Vga_crtc_io_handler), (0x3D5, Vga_crtc_io_handler)]"

definition run_handler :: "pio_handler \<Rightarrow> u16 \<Rightarrow> nat \<Rightarrow> bool \<Rightarrow> mach \<Rightarrow> mach res" where
  "run_handler h =
     (case h of Handler_ide \<Rightarrow> handler_ide | Handler_keyboard_data \<Rightarrow> handler_keyboard_data
      | Handler_serial \<Rightarrow> handler_serial | Handler_timer \<Rightarrow> handler_timer
      | Vga_dac_io_handler \<Rightarrow> vga_dac_io_handler | Vga_crtc_io_handler \<Rightarrow> vga_crtc_io_handler)"

abbreviation (input) "pio_len_ok len \<equiv> len = 1 \<or> len = 2 \<or> len = (4 :: nat)"

definition pio_write :: "u16 \<Rightarrow> nat \<Rightarrow> u32 \<Rightarrow> mach \<Rightarrow> mach res" where
  "pio_write port len d s =
     assertE ''pio_write'' (pio_len_ok len)
      (bindE (write_io_port port len d s) (\<lambda>s.
        case map_of pio_handler_table port of
          Some h \<Rightarrow> run_handler h port len True s
        | None \<Rightarrow> Inl (Assert_failed ''pio_write'')))"

definition pio_read :: "u16 \<Rightarrow> nat \<Rightarrow> mach \<Rightarrow> (u32 \<times> mach) res" where
  "pio_read port len s =
     assertE ''pio_read'' (pio_len_ok len)
      (case map_of pio_handler_table port of
         Some h \<Rightarrow>
           bindE (run_handler h port len False s) (\<lambda>s.
           bindE (read_io_port port len s) (\<lambda>d. Inr (d, s)))
       | None \<Rightarrow> Inl (Assert_failed ''pio_read''))"

section \<open>Events of the SDL thread\<close>

definition deliver :: "sdl_event \<Rightarrow> mach \<Rightarrow> mach res" where
  "deliver e s =
     (case e of SDL_tick \<Rightarrow> Inr (timer_intr s)
      | SDL_KEYDOWN ksym \<Rightarrow> keyboard_down ksym s
      | SDL_KEYUP ksym \<Rightarrow> keyboard_up ksym s
      | SDL_QUIT \<Rightarrow> Inr (s\<lparr>nemu_state := NEMU_STOP\<rparr>))"

text \<open>\<open>HLT_Thread\<close>: events are delivered until one raises an interrupt.\<close>

fun wait_intr :: "sdl_event list \<Rightarrow> mach \<Rightarrow> mach res" where
  "wait_intr es s =
     (if intr (cpu s) \<noteq> 0 then Inr (s\<lparr>pending := es\<rparr>)
      else case es of
        [] \<Rightarrow> Inl (Blocked ''hlt'')
      | e # es' \<Rightarrow> bindE (deliver e s) (wait_intr es'))"

declare wait_intr.simps [simp del]

end
