(* ===== verification/Intr.thy ===== *)
theory Intr
  imports InstrMov Devices
begin

text \<open>
  Interrupt entry, \<open>nemu/src/cpu/intr.c\<close>, and the interrupt check \<open>do_intr\<close> of
  \<open>nemu/src/cpu/cpu.c\<close>. A gate descriptor is its two words.
\<close>

section \<open>Gate descriptors\<close>

definition gate_type :: "u32 \<Rightarrow> u32" where "gate_type v1 = field 8 4 v1"
definition gate_selector :: "u32 \<Rightarrow> u32" where "gate_selector v0 = field 16 16 v0"

definition gate_offset :: "u32 \<Rightarrow> u32 \<Rightarrow> u32" where
  "gate_offset v0 v1 = field 0 16 v0 + push_bit 16 (field 16 16 v1)"

section \<open>Raising an interrupt\<close>

definition read_gate :: "u8 \<Rightarrow> mach \<Rightarrow> (u32 \<times> u32 \<times> mach) res" where
  "read_gate intr_no s =
     (let a = idtr_base (cpu s) + 8 * ucast intr_no in
      bindE (laddr_read a 4 s) (\<lambda>(v0, s).
      bindE (laddr_read (a + 4) 4 s) (\<lambda>(v1, s). Inr (v0, v1, s))))"

definition raise_intr :: "u8 \<Rightarrow> mach \<Rightarrow> mach res" where
  "raise_intr intr_no s =
     bindE (push_val 32 (fl s) s) (\<lambda>s.
     bindE (sign_ext (ucast (sreg_val SREG_CS s)) 16) (\<lambda>cs.
     bindE (push_val 32 cs s) (\<lambda>s.
     bindE (push_val 32 (eip (cpu s)) s) (\<lambda>s.
     bindE (read_gate intr_no s) (\<lambda>(v0, v1, s).
       let s = (if gate_type v1 = 0xe then set_fl (put_IF False (fl s)) s else s);
           s = upd_sreg SREG_CS (\<lambda>r. r\<lparr>sr_val := ucast (gate_selector v0)\<rparr>) s in
       Inr (set_eip (gate_offset v0 v1) s))))))"

definition raise_sw_intr :: "u8 \<Rightarrow> mach \<Rightarrow> mach res" where
  "raise_sw_intr intr_no s = raise_intr intr_no (set_eip (eip (cpu s) + 2) s)"

text \<open>
  The assertion of \<open>do_intr\<close> compares an 8-bit number with \<open>I8259_NO_INTR\<close>, the
  integer \<open>-1\<close>, and never fails.
\<close>

definition do_intr :: "mach \<Rightarrow> mach res" where
  "do_intr s =
     (if intr (cpu s) \<noteq> 0 \<and> fl_IF (fl s) then
        let intr_no = i8259_query_intr_no s in
        assertE ''do_intr'' (sint (ucast intr_no :: u32) \<noteq> - 1)
          (raise_intr intr_no (i8259_ack_intr s))
      else Inr s)"

end
