(* ===== verification/InstrControl.thy ===== *)
theory InstrControl
  imports Intr
begin

text \<open>
  Control transfer and system instructions: \<open>jmp.c\<close>, \<open>jcc.c\<close>, \<open>call.c\<close>,
  \<open>ret.c\<close>, \<open>flags.c\<close>, \<open>cli.c\<close>, \<open>sti.c\<close>, \<open>int.c\<close>, \<open>in.c\<close>,
  \<open>out.c\<close>, \<open>lgdt.c\<close>, \<open>lidt.c\<close>, \<open>hlt.c\<close>, \<open>nop.c\<close>, \<open>inv.c\<close> and
  \<open>nemu_trap.c\<close>. A handler that returns 0 has set EIP itself.
\<close>

section \<open>\<open>jmp.c\<close> and \<open>jcc.c\<close>\<close>

definition add_eip :: "u32 \<Rightarrow> mach \<Rightarrow> mach" where
  "add_eip off s = set_eip (eip (cpu s) + off) s"

definition jmp_near :: instr_func where
  "jmp_near pc opcode s =
     (let ds = data_size s in
      bindE (operand_read ((opr_imm ds (pc + 1))\<lparr>osreg := SREG_CS\<rparr>) s) (\<lambda>(imm, s).
      bindE (sign_ext (oval imm) ds) (\<lambda>off.
      bindE (print_asm_1 (1 + ds div 8) imm s) (\<lambda>(_, s).
        Inr (1 + ds div 8, add_eip off s)))))"

definition jmp_short :: instr_func where
  "jmp_short pc opcode s =
     bindE (operand_read ((opr_imm 8 (pc + 1))\<lparr>osreg := SREG_CS\<rparr>) s) (\<lambda>(imm, s).
     bindE (sign_ext (oval imm) 8) (\<lambda>off. Inr (2, add_eip off s)))"

definition jmp_near_in :: instr_func where
  "jmp_near_in pc opcode s =
     bindE (modrm_rm (pc + 1) (opr_mem (data_size s) 0 SREG_SS) s) (\<lambda>(n, rm, s).
     bindE (operand_read (in_ss rm) s) (\<lambda>(rm, s). Inr (0, set_eip (oval rm) s)))"

definition jmp_long :: instr_func where
  "jmp_long pc opcode s =
     bindE (operand_read (opr_imm 32 (pc + 1)) s) (\<lambda>(imm1, s).
     bindE (operand_read (opr_imm 16 (pc + 5)) s) (\<lambda>(imm2, s).
     bindE (load_sreg SREG_CS (upd_sreg SREG_CS (\<lambda>r. r\<lparr>sr_val := ucast (oval imm2)\<rparr>) s)) (\<lambda>s.
       Inr (0, set_eip (oval imm1) s))))"

definition jcc_pass :: "mach \<Rightarrow> mach res" where
  "jcc_pass s =
     bindE (read_src s) (\<lambda>s.
     bindE (sign_ext (oval (opr_src s)) (osize (opr_src s))) (\<lambda>off. Inr (add_eip off s)))"

definition jcc_near :: "cc \<Rightarrow> instr_func" where
  "jcc_near = make_instr_impl_1op_cc jcc_pass Inr decode_operand_i NEAR"

definition jcc_short :: "cc \<Rightarrow> instr_func" where
  "jcc_short = make_instr_impl_1op_cc jcc_pass Inr decode_operand_i SHORT"

section \<open>\<open>call.c\<close> and \<open>ret.c\<close>\<close>

text \<open>The relative call finds its operand at \<open>cpu.eip + 1\<close>, through SS.\<close>

definition call_rel_v :: instr_func where
  "call_rel_v pc opcode s =
     (let s = sub_esp 4 s; ds = data_size s; rm1 = opr_mem ds (reg REG_ESP s) SREG_SS in
      bindE (operand_read (opr_mem ds (eip (cpu s) + 1) SREG_SS) s) (\<lambda>(rm2, s).
      bindE
       (if ds = 16 then
          bindE (operand_write (rm1\<lparr>oval := (eip (cpu s) + 1 + of_nat (ds div 8)) AND mask 16\<rparr>) s) (\<lambda>s.
            let (r, w) = alu_and (mask 16) (eip (cpu s) + oval rm2) (fl s) in
            Inr (set_eip r (set_fl w s)))
        else if ds = 32 then
          bindE (operand_write (rm1\<lparr>oval := eip (cpu s) + 1 + of_nat (ds div 8)\<rparr>) s) (\<lambda>s.
            Inr (add_eip (oval rm2) s))
        else Inr s)
       (\<lambda>s. Inr (1 + ds div 8, s))))"

definition call_rm_near_v :: instr_func where
  "call_rm_near_v pc opcode s =
     (let s = sub_esp 4 s; ds = data_size s; rm2 = opr_mem 32 (reg REG_ESP s) SREG_SS in
      bindE (modrm_rm (pc + 1) (opr_mem ds 0 SREG_SS) s) (\<lambda>(n, rm1, s).
        let len = 1 + n in
        bindE (operand_read rm1 s) (\<lambda>(rm1, s).
        bindE
         (if ds = 16 then
            bindE (sign_ext ((eip (cpu s) + of_nat len) AND mask 16) ds) (\<lambda>v.
            bindE (operand_write (rm2\<lparr>oval := v\<rparr>) s) (\<lambda>s.
              Inr (set_eip (oval rm1 AND mask 16) s)))
          else if ds = 32 then
            bindE (operand_write (rm2\<lparr>oval := eip (cpu s) + of_nat len\<rparr>) s) (\<lambda>s.
              Inr (set_eip (oval rm1) s))
          else Inr s)
         (\<lambda>s. Inr (0, s)))))"

text \<open>The returns read their operand as an immediate, that is through CS.\<close>

definition ret_near :: instr_func where
  "ret_near pc opcode s =
     bindE (operand_read (opr_imm (data_size s) (reg REG_ESP s)) s) (\<lambda>(imm, s).
       Inr (0, add_esp 4 (set_eip (oval imm) s)))"

definition ret_near_i :: instr_func where
  "ret_near_i pc opcode s =
     bindE (operand_read (opr_imm (data_size s) (reg REG_ESP s)) s) (\<lambda>(imm1, s).
     bindE (operand_read (opr_imm 16 (pc + 1)) s) (\<lambda>(imm2, s).
       Inr (0, add_esp (oval imm2) (add_esp 4 (set_eip (oval imm1) s)))))"

definition iret :: instr_func where
  "iret pc opcode s =
     bindE (read_top 32 s) (\<lambda>(v, s). let s = add_esp 4 (set_eip v s) in
     bindE (read_top 32 s) (\<lambda>(v, s).
       let s = add_esp 4 (upd_sreg SREG_CS (\<lambda>r. r\<lparr>sr_val := ucast v\<rparr>) s) in
     bindE (read_top 32 s) (\<lambda>(v, s). Inr (0, add_esp 4 (set_fl v s)))))"

section \<open>Flags and interrupts\<close>

definition cld :: instr_func where
  "cld pc opcode s =
     bindE (print_asm_0 1 (set_fl (put_DF False (fl s)) s)) (\<lambda>s. Inr (1, s))"

definition clc :: instr_func where
  "clc pc opcode s =
     bindE (print_asm_0 1 (set_fl (put_CF False (fl s)) s)) (\<lambda>s. Inr (1, s))"

definition sahf :: instr_func where
  "sahf pc opcode s =
     bindE (print_asm_0 1 (set_fl ((fl s AND NOT (mask 16)) OR ucast (gpr8 4 (cpu s))) s))
       (\<lambda>s. Inr (1, s))"

definition cli :: instr_func where "cli pc opcode s = Inr (1, set_fl (put_IF False (fl s)) s)"
definition sti :: instr_func where "sti pc opcode s = Inr (1, set_fl (put_IF True (fl s)) s)"

definition instr_int :: instr_func where
  "instr_int pc opcode s =
     bindE (fetch8 (pc + 1) s) (\<lambda>(intr_no, s).
     bindE (raise_sw_intr intr_no s) (\<lambda>s. Inr (0, s)))"

section \<open>Ports and descriptor tables\<close>

definition dx :: "mach \<Rightarrow> u16" where "dx s = ucast (reg REG_EDX s)"

definition in_d2a_b :: instr_func where
  "in_d2a_b pc opcode s =
     bindE (pio_read (dx s) 1 s) (\<lambda>(d, s). Inr (1, upd_cpu (set_gpr8 0 (ucast d)) s))"

definition in_d2a_v :: instr_func where
  "in_d2a_v pc opcode s =
     bindE (pio_read (dx s) 4 s) (\<lambda>(d, s). Inr (1, set_reg REG_EAX d s))"

definition out_a2d_b :: instr_func where
  "out_a2d_b pc opcode s =
     bindE (pio_write (dx s) 1 (ucast (gpr8 0 (cpu s))) s) (\<lambda>s. Inr (1, s))"

text \<open>The limit and base words behind a memory operand, which is also read as a whole.\<close>

definition read_pseudo_desc :: "u32 \<Rightarrow> mach \<Rightarrow> (nat \<times> u32 \<times> u32 \<times> mach) res" where
  "read_pseudo_desc pc s =
     bindE (modrm_rm (pc + 1) (opr_mem 32 0 SREG_SS) s) (\<lambda>(n, rm, s).
     bindE (operand_read rm s) (\<lambda>(rm, s).
     bindE (laddr_read (oaddr rm) 2 s) (\<lambda>(limit, s).
     bindE (laddr_read (oaddr rm + 2) 4 s) (\<lambda>(base, s). Inr (1 + n, limit, base, s)))))"

definition lgdt :: instr_func where
  "lgdt pc opcode s =
     bindE (read_pseudo_desc pc s) (\<lambda>(len, limit, base, s).
       Inr (len, upd_cpu (\<lambda>c. c\<lparr>gdtr_limit := limit AND mask 16, gdtr_base := base\<rparr>) s))"

definition lidt :: instr_func where
  "lidt pc opcode s =
     bindE (read_pseudo_desc pc s) (\<lambda>(len, limit, base, s).
       Inr (len, upd_cpu (\<lambda>c. c\<lparr>idtr_limit := limit AND mask 16, idtr_base := base\<rparr>) s))"

section \<open>\<open>hlt.c\<close>, \<open>nop.c\<close>, \<open>inv.c\<close>, \<open>nemu_trap.c\<close>\<close>

text \<open>\<open>hlt\<close> joins a thread that waits until a device raises an interrupt.\<close>

definition hlt :: instr_func where
  "hlt pc opcode s =
     bindE (print_asm_0 1 s) (\<lambda>s.
     bindE (wait_intr (pending s) s) (\<lambda>s. Inr (1, s)))"

definition nop :: instr_func where
  "nop pc opcode s = bindE (print_asm_0 1 s) (\<lambda>s. Inr (1, s))"

definition inv_opcode :: instr_func where
  "inv_opcode pc opcode s =
     bindE (instr_fetch pc 4 s) (\<lambda>(_, s).
     bindE (instr_fetch (pc + 4) 4 s) (\<lambda>(_, s). Inl (Assert_failed ''inv'')))"

fun trap_output :: "u32 \<Rightarrow> nat \<Rightarrow> mach \<Rightarrow> mach res" where
  "trap_output a 0 s = Inr s"
| "trap_output a (Suc n) s =
     bindE (vaddr_read a SREG_DS 1 s) (\<lambda>(c, s).
       trap_output (a + 1) n (s\<lparr>serial_out := serial_out s @ [ucast c]\<rparr>))"

text \<open>
  The loop counter is a signed \<open>int\<close> compared as unsigned, so it runs \<open>edx\<close> times. The
  standard output is the list \<open>serial_out\<close>, shared with the serial line.
\<close>

definition nemu_trap :: instr_func where
  "nemu_trap pc opcode s =
     (if reg REG_EAX s = 4 then
        bindE (trap_output (reg REG_ECX s) (unat (reg REG_EDX s)) s) (\<lambda>s. Inr (1, s))
      else Inr (1, s\<lparr>nemu_state := NEMU_STOP\<rparr>))"

definition break_point :: instr_func where
  "break_point pc opcode s = Inr (1, s\<lparr>nemu_state := NEMU_BREAK\<rparr>)"

end
