(* ===== verification/StackSpace.thy ===== *)
theory StackSpace
  imports ByteMem InstrControl
begin

text \<open>
  The stack instructions and the interrupt entry over any address space a stack can live in: the locale
  \<open>stack_space\<close> is a \<open>byte_memory\<close> reached through SS that does not depend on the registers. In it pushing and
  popping words, \<open>pusha\<close> with \<open>popa\<close>, and \<open>raise_intr\<close> with \<open>iret\<close> are run once; its instances are flat memory
  and the kernel's address space behind paging.
\<close>

abbreviation esp :: "mach \<Rightarrow> u32" where "esp s \<equiv> reg REG_ESP s"

section \<open>Operands and updates\<close>

lemma operand_read_mem32:
  assumes "vaddr_read a sr 4 s = Inr (v, s')"
  shows "operand_read (opr_mem 32 a sr) s = Inr ((opr_mem 32 a sr)\<lparr>oval := v\<rparr>, s')"
  using assms by (simp add: operand_read_def opr_mem_def trunc_size_def)

lemma operand_write_mem32:
  "operand_write ((opr_mem 32 a sr)\<lparr>oval := v\<rparr>) s = vaddr_write a sr 4 v s"
  by (simp add: operand_write_def opr_mem_def)

definition set_cs :: "u16 \<Rightarrow> mach \<Rightarrow> mach" where
  "set_cs v s = upd_sreg SREG_CS (\<lambda>r. r\<lparr>sr_val := v\<rparr>) s"

lemma updates:
  "set_reg r v s = upd_cpu (set_gpr r v) s"
  "set_eip v s = upd_cpu (\<lambda>c. c\<lparr>eip := v\<rparr>) s"
  "set_fl v s = upd_cpu (\<lambda>c. c\<lparr>eflags := v\<rparr>) s"
  "set_cs w s = upd_cpu (\<lambda>c. c\<lparr>segReg := (segReg c)(SREG_CS := (segReg c SREG_CS)\<lparr>sr_val := w\<rparr>)\<rparr>) s"
  by (simp_all add: set_reg_def set_eip_def set_fl_def set_cs_def upd_sreg_def upd_cpu_def)

lemma set_reg_twice [simp]: "set_reg r v (set_reg r w s) = set_reg r v s"
  by (simp add: set_reg_def set_gpr_def)

lemma add_esp_set:
  "add_esp k (set_eip v s) = set_eip v (add_esp k s)"
  "add_esp k (set_fl v s) = set_fl v (add_esp k s)"
  "add_esp k (set_cs c s) = set_cs c (add_esp k s)"
  "add_esp k (add_esp j s) = add_esp (j + k) s"
  by (simp_all add: set_eip_def set_fl_def set_cs_def upd_sreg_def add_esp_def set_reg_def
      set_gpr_def reg_def add.assoc)

lemma sign_ext_cs:
  obtains w where "sign_ext (ucast (v :: u16)) 16 = Inr w" and "(ucast w :: u16) = v"
proof -
  have "(ucast (scast v :: u32) :: u16) = v"
    by (rule bit_word_eqI) (simp add: bit_ucast_iff bit_signed_iff)
  moreover have "(ucast (ucast v :: u32) :: u16) = v"
    by (rule bit_word_eqI) (auto simp: bit_ucast_iff)
  ultimately show ?thesis by (intro that [of "scast v"]) (simp_all add: sign_ext_def assertE_def)
qed

section \<open>Room on a stack\<close>

text \<open>Below ESP there is room for \<open>n\<close> words and above it there are \<open>m\<close>, all of them aligned and accessible.\<close>

definition stack_room :: "(mach \<Rightarrow> u32 \<Rightarrow> nat \<Rightarrow> bool) \<Rightarrow> mach \<Rightarrow> nat \<Rightarrow> nat \<Rightarrow> bool" where
  "stack_room ok s n m \<longleftrightarrow>
     unat (esp s) mod 4 = 0 \<and> 4 * n \<le> unat (esp s) \<and> unat (esp s) + 4 * m < 2 ^ 32 \<and>
     (\<forall>a. unat a mod 4 = 0 \<and> unat (esp s) - 4 * n \<le> unat a \<and> unat a < unat (esp s) + 4 * m \<longrightarrow> ok s a 4)"

lemma unat_sub4:
  fixes x :: u32
  assumes "4 \<le> unat x"
  shows "unat (x - 4) = unat x - 4"
  using assms by (subst unat_sub) (simp_all add: word_le_nat_alt)

lemma room_push:
  assumes "stack_room ok s (Suc n) m" and "esp s' = esp s - 4" and "\<And>a. ok s' a 4 = ok s a 4"
  shows "stack_room ok s' n (Suc m)" and "unat (esp s') = unat (esp s) - 4"
proof -
  from assms(1) have "4 \<le> unat (esp s)" by (simp add: stack_room_def)
  with assms(2) show e: "unat (esp s') = unat (esp s) - 4" by (simp add: unat_sub4)
  from assms(1) \<open>4 \<le> unat (esp s)\<close> show "stack_room ok s' n (Suc m)"
    unfolding stack_room_def e assms(3) by (auto simp: mod_diff_eq mod_if le_mod_geq [symmetric])
qed

lemma room_pop:
  assumes "stack_room ok s n (Suc m)" and "esp s' = esp s + 4" and "\<And>a. ok s' a 4 = ok s a 4"
  shows "stack_room ok s' (Suc n) m" and "unat (esp s') = unat (esp s) + 4"
proof -
  from assms(1) have "unat (esp s) + 4 < 2 ^ 32" by (simp add: stack_room_def)
  with assms(2) show e: "unat (esp s') = unat (esp s) + 4"
    by (simp add: unat_word_ariths)
  from assms(1) show "stack_room ok s' (Suc n) m"
    unfolding stack_room_def e assms(3) by (auto simp: mod_add_eq [symmetric])
qed

lemma room_top:
  assumes "stack_room ok s n (Suc m)"
  shows "ok s (esp s) 4"
  using assms by (auto simp: stack_room_def)

section \<open>Gates\<close>

text \<open>The gate of an interrupt number is accessible, away from the words \<open>raise_intr\<close> pushes.\<close>

definition gate_addr :: "u8 \<Rightarrow> mach \<Rightarrow> u32" where
  "gate_addr no s = idtr_base (cpu s) + 8 * ucast no"

definition gate_in :: "(mach \<Rightarrow> u32 \<Rightarrow> nat \<Rightarrow> bool) \<Rightarrow> u8 \<Rightarrow> mach \<Rightarrow> bool" where
  "gate_in ok no s \<longleftrightarrow> (\<forall>k\<in>{0, 4}. let a = gate_addr no s + k in
     ok s a 4 \<and> (unat a + 4 \<le> unat (esp s) - 12 \<or> unat (esp s) \<le> unat a))"

text \<open>The words \<open>pusha\<close> leaves, from ESP up.\<close>

definition pusha_words :: "mach \<Rightarrow> u32 list" where
  "pusha_words s = map (\<lambda>r. reg r s) [7, 6, 5, 4, 3, 2, 1, 0]"

section \<open>The interface\<close>

locale stack_space =
  byte_memory "\<lambda>a n s. vaddr_read a SREG_SS n s" "\<lambda>a n d s. vaddr_write a SREG_SS n d s" inv ok contents core
  for inv :: "mach \<Rightarrow> bool" and ok :: "mach \<Rightarrow> u32 \<Rightarrow> nat \<Rightarrow> bool"
    and contents :: "mach \<Rightarrow> nat \<Rightarrow> u8" and core :: "mach \<Rightarrow> mach" +
  assumes linear: "inv s \<Longrightarrow> ok s a 4 \<Longrightarrow> laddr_read a 4 s = vaddr_read a SREG_SS 4 s"
    and core_cpu: "cpu (core s) = cpu s"
    and upd_core: "core (upd_cpu f s) = upd_cpu f (core s)"
    and upd_contents: "contents (upd_cpu f s) = contents s"
    and upd_ok: "ok (upd_cpu f s) a n = ok s a n"
    and upd_inv: "inv s \<Longrightarrow> cr0 (f (cpu s)) = cr0 (cpu s) \<Longrightarrow> cr3 (f (cpu s)) = cr3 (cpu s) \<Longrightarrow>
      (\<And>r. sr_base (segReg (f (cpu s)) r) = sr_base (segReg (cpu s) r)) \<Longrightarrow> inv (upd_cpu f s)"
begin

text \<open>\<open>stk s n ws\<close>: the stack holds the words \<open>ws\<close> and has room for \<open>n\<close> more.\<close>

definition stk :: "mach \<Rightarrow> nat \<Rightarrow> u32 list \<Rightarrow> bool" where
  "stk s n ws \<longleftrightarrow> inv s \<and> stack_room ok s n (length ws) \<and> words_at s (unat (esp s)) ws"

lemma core_set [simp]:
  "core (set_reg r v s) = set_reg r v (core s)" "core (set_eip v s) = set_eip v (core s)"
  "core (set_fl v s) = set_fl v (core s)" "core (set_cs w s) = set_cs w (core s)"
  unfolding updates by (rule upd_core)+

lemma reg_core [simp]: "reg r (core s) = reg r s" by (simp add: reg_def core_cpu)

lemma core_esp [simp]: "core (add_esp k s) = add_esp k (core s)" "core (sub_esp k s) = sub_esp k (core s)"
  by (simp_all add: add_esp_def sub_esp_def)

lemma core_reg: "core s' = core s \<Longrightarrow> reg r s' = reg r s" by (metis reg_core)

lemma core_step: "core s' = set_reg q v (core s) \<Longrightarrow> reg r s' = (if r = q then v else reg r s)"
  by (metis reg_core reg_set_reg)

lemma ok_set [simp]: "ok (set_reg r v s) a n = ok s a n"
  unfolding updates by (rule upd_ok)

lemma ok_esp [simp]: "ok (add_esp k s) a n = ok s a n" "ok (sub_esp k s) a n = ok s a n"
  by (simp_all add: add_esp_def sub_esp_def)

lemma inv_set [simp]: "inv s \<Longrightarrow> inv (set_reg r v s)"
  unfolding updates by (rule upd_inv) (simp_all add: set_gpr_def)

lemma inv_esp: "inv s \<Longrightarrow> inv (add_esp k s)" "inv s \<Longrightarrow> inv (sub_esp k s)"
  by (simp_all add: add_esp_def sub_esp_def)

lemma contents_set [simp]:
  "contents (set_reg r v s) = contents s" "contents (set_eip v s) = contents s"
  "contents (set_fl v s) = contents s" "contents (set_cs w s) = contents s"
  unfolding updates by (rule upd_contents)+

lemma contents_esp [simp]: "contents (add_esp k s) = contents s" "contents (sub_esp k s) = contents s"
  by (simp_all add: add_esp_def sub_esp_def)

text \<open>A stack survives every update that leaves ESP and the address space alone.\<close>

lemma stk_upd:
  assumes "stk s n ws" and "gpr (f (cpu s)) REG_ESP = gpr (cpu s) REG_ESP" and "cr0 (f (cpu s)) = cr0 (cpu s)"
    and "cr3 (f (cpu s)) = cr3 (cpu s)" and "\<And>r. sr_base (segReg (f (cpu s)) r) = sr_base (segReg (cpu s) r)"
  shows "stk (upd_cpu f s) n ws"
proof -
  have "reg REG_ESP (upd_cpu f s) = esp s" using assms(2) by (simp add: reg_def upd_cpu_def)
  moreover have "words_at (upd_cpu f s) a ws = words_at s a ws" for a by (rule words_at_cong) (rule upd_contents)
  ultimately show ?thesis
    using assms(1) upd_inv [of s f, OF _ assms(3-5)] by (simp add: stk_def stack_room_def upd_ok)
qed

lemma stk_set:
  assumes "stk s n ws"
  shows "stk (set_eip v s) n ws" and "stk (set_fl v s) n ws" and "stk (set_cs w s) n ws"
    and "r \<noteq> REG_ESP \<Longrightarrow> stk (set_reg r v s) n ws"
  unfolding updates by (rule stk_upd [OF assms]; simp add: set_gpr_def)+

section \<open>Pushing and popping a word\<close>

lemma push_stk:
  assumes "stk s (Suc n) ws"
  obtains s' where "push_val 32 v s = Inr s'" and "stk s' n (v # ws)"
    and "core s' = set_reg REG_ESP (esp s - 4) (core s)"
    and "\<And>b. unat (esp s) \<le> b \<or> b < unat (esp s) - 4 \<Longrightarrow> contents s' b = contents s b"
proof -
  let ?t = "sub_esp 4 s"
  have t: "esp ?t = esp s - 4" "core ?t = set_reg REG_ESP (esp s - 4) (core s)"
    by (simp_all add: sub_esp_def)
  from assms have fl: "inv ?t" and fr: "stack_room ok s (Suc n) (length ws)" and ws: "words_at s (unat (esp s)) ws"
    by (simp_all add: stk_def inv_esp)
  have ft: "stack_room ok ?t n (Suc (length ws))" "unat (esp ?t) = unat (esp s) - 4"
    by (rule room_push [OF fr t(1)]; simp)+
  from fr have "4 \<le> unat (esp s)" by (simp add: stack_room_def)
  with ft(2) have e: "unat (esp ?t) + 4 = unat (esp s)" by simp
  have "words_at ?t (unat (esp ?t) + 4) ws"
    using ws words_at_cong [of ?t s] e by simp
  from push_words [OF fl room_top [OF ft(1)] this, of v] obtain s' where s':
    "vaddr_write (esp ?t) SREG_SS 4 v ?t = Inr s'" "inv s'" "core s' = core ?t"
    "words_at s' (unat (esp ?t)) (v # ws)"
    "\<And>b. unat (esp ?t) + 4 \<le> b \<or> b < unat (esp ?t) \<Longrightarrow> contents s' b = contents ?t b"
    by metis
  have "esp s' = esp ?t" by (rule core_reg) (rule s'(3))
  then have "stk s' n (v # ws)"
    using s'(2,4) ft(1) ok_core [OF s'(3)] by (simp add: stk_def stack_room_def)
  moreover have "push_val 32 v s = Inr s'"
    using s'(1) by (simp add: push_val_def Let_def operand_write_mem32)
  moreover have "contents s' b = contents s b" if b: "unat (esp s) \<le> b \<or> b < unat (esp s) - 4" for b
  proof -
    have "unat (esp ?t) + 4 \<le> b \<or> b < unat (esp ?t)" using b e by linarith
    from s'(5) [OF this] show ?thesis by simp
  qed
  ultimately show ?thesis
    using s'(3) t(2) by (intro that [of s']) auto
qed

lemma stk_skip:
  assumes "stk s n (w # ws)"
  shows "stk (add_esp 4 s) (Suc n) ws"
proof -
  from assms have fr: "stack_room ok s n (Suc (length ws))" by (simp add: stk_def)
  have e: "esp (add_esp 4 s) = esp s + 4" by (simp add: add_esp_def)
  have "stack_room ok (add_esp 4 s) (Suc n) (length ws)" "unat (esp (add_esp 4 s)) = unat (esp s) + 4"
    by (rule room_pop [OF fr e]; simp)+
  then show ?thesis using assms words_at_cong [of "add_esp 4 s" s] by (simp add: stk_def inv_esp)
qed

lemma stk_read:
  assumes "stk s n ws" and "core s' = core s" and "contents s' = contents s" and "inv s'"
  shows "stk s' n ws"
  using assms(1,4) core_reg [OF assms(2)] ok_core [OF assms(2)] words_at_cong [OF assms(3)]
  by (simp add: stk_def stack_room_def)

lemma read_top_stk:
  assumes "stk s n (w # ws)"
  obtains s' where "read_top 32 s = Inr (w, s')" and "core s' = core s" and "contents s' = contents s"
    and "stk (add_esp 4 s') (Suc n) ws"
proof -
  from assms have i: "inv s" "ok s (esp s) 4" "words_at s (unat (esp s)) (w # ws)"
    using room_top [of ok s n "length ws"] by (simp_all add: stk_def)
  from pop_words [OF i] obtain s' where s': "vaddr_read (esp s) SREG_SS 4 s = Inr (w, s')" "inv s'"
    "core s' = core s" "contents s' = contents s" by metis
  have "stk s' n (w # ws)" by (rule stk_read [OF assms s'(3,4,2)])
  from stk_skip [OF this] s' show ?thesis
    by (intro that [of s']) (simp_all add: read_top_def operand_read_mem32)
qed

section \<open>\<open>pusha\<close> and \<open>popa\<close>\<close>

lemma pop_reg_stk:
  assumes "stk s n (w # ws)" and "r \<noteq> REG_ESP"
  obtains s' where "pop_reg r s = Inr s'" and "stk s' (Suc n) ws"
    and "core s' = set_reg REG_ESP (esp s + 4) (set_reg r w (core s))" and "contents s' = contents s"
proof -
  from read_top_stk [OF assms(1)] obtain s' where s': "read_top 32 s = Inr (w, s')"
    "core s' = core s" "contents s' = contents s" "stk (add_esp 4 s') (Suc n) ws" .
  let ?t = "add_esp 4 (set_reg r w s')"
  have "?t = set_reg r w (add_esp 4 s')"
    using assms(2) by (simp add: add_esp_def set_reg_def set_gpr_def reg_def fun_upd_twist)
  then have "stk ?t (Suc n) ws" using stk_set(4) [OF s'(4) assms(2)] by simp
  moreover have "core ?t = set_reg REG_ESP (esp s + 4) (set_reg r w (core s))"
    using assms(2) core_reg [OF s'(2)] by (simp add: add_esp_def s'(2))
  ultimately show ?thesis
    using s'(1,3) by (intro that [of ?t]) (simp_all add: pop_reg_def)
qed

lemma push_next:
  assumes "stk s1 (Suc k) us" and "core s1 = set_reg REG_ESP (e - d) (core s)"
  shows "\<exists>s2. push_val 32 v s1 = Inr s2 \<and> stk s2 k (v # us) \<and> core s2 = set_reg REG_ESP (e - (d + 4)) (core s)"
  using push_stk [OF assms(1), of v] assms(2) core_step [OF assms(2), of REG_ESP]
  by (metis diff_diff_eq set_reg_twice)

lemma pusha_stk:
  assumes "stk s (n + 8) ws"
  obtains s' where "pusha pc opcode s = Inr (1, s')" and "stk s' n (pusha_words s @ ws)"
    and "core s' = set_reg REG_ESP (esp s - 32) (core s)"
proof -
  note st = push_next [where s = s and e = "esp s"]
  have z: "core s = set_reg REG_ESP (esp s - 0) (core s)"
    using core_cpu [of s] by (simp add: set_reg_def set_gpr_def reg_def)
  have s8: "stk s (Suc (Suc (Suc (Suc (Suc (Suc (Suc (Suc n)))))))) ws"
    using assms by (simp add: numeral_eq_Suc)
  obtain s1 where 1: "push_val 32 (reg 0 s) s = Inr s1" "stk s1 (Suc (Suc (Suc (Suc (Suc (Suc (Suc n))))))) (reg 0 s # ws)"
    "core s1 = set_reg REG_ESP (esp s - (0 + 4)) (core s)" using st [OF s8 z] by blast
  obtain s2 where 2: "push_val 32 (reg 1 s) s1 = Inr s2" "stk s2 (Suc (Suc (Suc (Suc (Suc (Suc n)))))) (reg 1 s # reg 0 s # ws)"
    "core s2 = set_reg REG_ESP (esp s - (0 + 4 + 4)) (core s)" using st [OF 1(2,3)] by blast
  obtain s3 where 3: "push_val 32 (reg 2 s) s2 = Inr s3" "stk s3 (Suc (Suc (Suc (Suc (Suc n))))) (reg 2 s # reg 1 s # reg 0 s # ws)"
    "core s3 = set_reg REG_ESP (esp s - (0 + 4 + 4 + 4)) (core s)" using st [OF 2(2,3)] by blast
  obtain s4 where 4: "push_val 32 (reg 3 s) s3 = Inr s4" "stk s4 (Suc (Suc (Suc (Suc n)))) (reg 3 s # reg 2 s # reg 1 s # reg 0 s # ws)"
    "core s4 = set_reg REG_ESP (esp s - (0 + 4 + 4 + 4 + 4)) (core s)" using st [OF 3(2,3)] by blast
  obtain s5 where 5: "push_val 32 (esp s) s4 = Inr s5" "stk s5 (Suc (Suc (Suc n))) (esp s # reg 3 s # reg 2 s # reg 1 s # reg 0 s # ws)"
    "core s5 = set_reg REG_ESP (esp s - (0 + 4 + 4 + 4 + 4 + 4)) (core s)" using st [OF 4(2,3)] by blast
  obtain s6 where 6: "push_val 32 (reg 5 s) s5 = Inr s6" "stk s6 (Suc (Suc n)) (reg 5 s # esp s # reg 3 s # reg 2 s # reg 1 s # reg 0 s # ws)"
    "core s6 = set_reg REG_ESP (esp s - (0 + 4 + 4 + 4 + 4 + 4 + 4)) (core s)" using st [OF 5(2,3)] by blast
  obtain s7 where 7: "push_val 32 (reg 6 s) s6 = Inr s7" "stk s7 (Suc n) (reg 6 s # reg 5 s # esp s # reg 3 s # reg 2 s # reg 1 s # reg 0 s # ws)"
    "core s7 = set_reg REG_ESP (esp s - (0 + 4 + 4 + 4 + 4 + 4 + 4 + 4)) (core s)" using st [OF 6(2,3)] by blast
  obtain s' where 8: "push_val 32 (reg 7 s) s7 = Inr s'" "stk s' n (reg 7 s # reg 6 s # reg 5 s # esp s # reg 3 s # reg 2 s # reg 1 s # reg 0 s # ws)"
    "core s' = set_reg REG_ESP (esp s - (0 + 4 + 4 + 4 + 4 + 4 + 4 + 4 + 4)) (core s)" using st [OF 7(2,3)] by blast
  have "pusha pc opcode s = Inr (1, s')"
    using 1(1) 2(1) 3(1) 4(1) 5(1) 6(1) 7(1) 8(1)
    by (simp add: pusha_def Let_def core_step [OF 1(3)] core_step [OF 2(3)] core_step [OF 3(3)]
        core_step [OF 5(3)] core_step [OF 6(3)] core_step [OF 7(3)])
  with 8 show ?thesis by (intro that [of s']) (simp_all add: pusha_words_def)
qed

lemma pop_next:
  "stk s n (w # ws) \<Longrightarrow> r \<noteq> REG_ESP \<Longrightarrow> \<exists>s'. pop_reg r s = Inr s' \<and> stk s' (Suc n) ws \<and>
     core s' = set_reg REG_ESP (esp s + 4) (set_reg r w (core s))"
  by (metis pop_reg_stk)

lemma popa_stk:
  assumes "stk s n ([w7, w6, w5, w4, w3, w2, w1, w0] @ ws)"
  obtains s' where "popa pc opcode s = Inr (1, s')" and "stk s' (n + 8) ws"
    and "core s' = set_reg REG_ESP (esp s + 32) (set_reg 0 w0 (set_reg 1 w1 (set_reg 2 w2
           (set_reg 3 w3 (set_reg 5 w5 (set_reg 6 w6 (set_reg 7 w7 (core s))))))))"
proof -
  have n8: "Suc (Suc (Suc (Suc (Suc (Suc (Suc (Suc n))))))) = n + 8" by simp
  have "stk s n (w7 # w6 # w5 # w4 # w3 # w2 # w1 # w0 # ws)" using assms by simp
  from pop_next [OF this, of 7] obtain a where a: "pop_reg 7 s = Inr a"
    "stk a (Suc n) (w6 # w5 # w4 # w3 # w2 # w1 # w0 # ws)"
    "core a = set_reg REG_ESP (esp s + 4) (set_reg 7 w7 (core s))" by auto
  from pop_next [OF a(2), of 6] obtain b where b: "pop_reg 6 a = Inr b"
    "stk b (Suc (Suc n)) (w5 # w4 # w3 # w2 # w1 # w0 # ws)"
    "core b = set_reg REG_ESP (esp a + 4) (set_reg 6 w6 (core a))" by auto
  from pop_next [OF b(2), of 5] obtain c where c: "pop_reg 5 b = Inr c"
    "stk c (Suc (Suc (Suc n))) (w4 # w3 # w2 # w1 # w0 # ws)"
    "core c = set_reg REG_ESP (esp b + 4) (set_reg 5 w5 (core b))" by auto
  note d = stk_skip [OF c(2)]
  from pop_next [OF d, of 3] obtain e where e: "pop_reg 3 (add_esp 4 c) = Inr e"
    "stk e (Suc (Suc (Suc (Suc (Suc n))))) (w2 # w1 # w0 # ws)"
    "core e = set_reg REG_ESP (esp (add_esp 4 c) + 4) (set_reg 3 w3 (core (add_esp 4 c)))" by auto
  from pop_next [OF e(2), of 2] obtain f where f: "pop_reg 2 e = Inr f"
    "stk f (Suc (Suc (Suc (Suc (Suc (Suc n)))))) (w1 # w0 # ws)"
    "core f = set_reg REG_ESP (esp e + 4) (set_reg 2 w2 (core e))" by auto
  from pop_next [OF f(2), of 1] obtain g where g: "pop_reg 1 f = Inr g"
    "stk g (Suc (Suc (Suc (Suc (Suc (Suc (Suc n))))))) (w0 # ws)"
    "core g = set_reg REG_ESP (esp f + 4) (set_reg 1 w1 (core f))" by auto
  from pop_next [OF g(2), of 0] obtain h where h: "pop_reg 0 g = Inr h"
    "stk h (Suc (Suc (Suc (Suc (Suc (Suc (Suc (Suc n)))))))) ws"
    "core h = set_reg REG_ESP (esp g + 4) (set_reg 0 w0 (core g))" by auto
  have esp: "esp x = v" if "core x = set_reg REG_ESP v t" for x v t
    using that by (metis reg_core reg_set_reg)
  have swap: "set_reg r v (set_reg 4 w t) = set_reg 4 w (set_reg r v t)" if "r \<noteq> 4" for r v w t
    using that by (simp add: set_reg_def set_gpr_def fun_upd_twist)
  have "popa pc opcode s = Inr (1, h)"
    using a(1) b(1) c(1) e(1) f(1) g(1) h(1) by (simp add: popa_def)
  moreover have "core h = set_reg REG_ESP (esp s + 32) (set_reg 0 w0 (set_reg 1 w1 (set_reg 2 w2
           (set_reg 3 w3 (set_reg 5 w5 (set_reg 6 w6 (set_reg 7 w7 (core s))))))))"
    using a(3) b(3) c(3) e(3) f(3) g(3) h(3)
      esp [OF a(3)] esp [OF b(3)] esp [OF c(3)] esp [OF e(3)] esp [OF f(3)] esp [OF g(3)]
    by (simp add: swap add_esp_def add.commute [of "esp s" 32])
  ultimately show ?thesis using h(2) unfolding n8 by (intro that [of h]) simp_all
qed

section \<open>Interrupts\<close>

lemma iret_stk:
  assumes "stk s n ([w0, w1, w2] @ ws)"
  obtains s' where "iret pc opcode s = Inr (0, s')" and "stk s' (n + 3) ws"
    and "core s' = add_esp 12 (set_fl w2 (set_cs (ucast w1) (set_eip w0 (core s))))"
proof -
  from assms have "stk s n (w0 # [w1, w2] @ ws)" by simp
  from read_top_stk [OF this] obtain a where a: "read_top 32 s = Inr (w0, a)" "core a = core s"
    "stk (add_esp 4 a) (Suc n) ([w1, w2] @ ws)" .
  let ?a = "add_esp 4 (set_eip w0 a)"
  from stk_set(1) [OF a(3)] have "stk ?a (Suc n) (w1 # [w2] @ ws)" by (simp add: add_esp_set)
  from read_top_stk [OF this] obtain b where b: "read_top 32 ?a = Inr (w1, b)" "core b = core ?a"
    "stk (add_esp 4 b) (Suc (Suc n)) ([w2] @ ws)" .
  let ?b = "add_esp 4 (set_cs (ucast w1) b)"
  from stk_set(3) [OF b(3)] have "stk ?b (Suc (Suc n)) (w2 # ws)" by (simp add: add_esp_set)
  from read_top_stk [OF this] obtain c where c: "read_top 32 ?b = Inr (w2, c)" "core c = core ?b"
    "stk (add_esp 4 c) (Suc (Suc (Suc n))) ws" .
  let ?c = "add_esp 4 (set_fl w2 c)"
  have "iret pc opcode s = Inr (0, ?c)"
    using a(1) b(1) c(1) by (simp add: iret_def Let_def set_cs_def)
  moreover have "stk ?c (n + 3) ws" using stk_set(2) [OF c(3)] by (simp add: add_esp_set numeral_3_eq_3)
  moreover have "core ?c = add_esp 12 (set_fl w2 (set_cs (ucast w1) (set_eip w0 (core s))))"
    by (simp add: a(2) b(2) c(2) add_esp_set)
  ultimately show ?thesis by (rule that)
qed

definition gate_word_at :: "u8 \<Rightarrow> u32 \<Rightarrow> mach \<Rightarrow> u32" where
  "gate_word_at no k s = word_at s (unat (gate_addr no s + k))"

text \<open>The state in which the handler starts, up to memory.\<close>

definition entry_state :: "u8 \<Rightarrow> mach \<Rightarrow> mach" where
  "entry_state no s =
     set_eip (gate_offset (gate_word_at no 0 s) (gate_word_at no 4 s))
      (set_cs (ucast (gate_selector (gate_word_at no 0 s)))
       ((if gate_type (gate_word_at no 4 s) = 0xe then set_fl (put_IF False (fl s)) else id)
        (set_reg REG_ESP (esp s - 12) (core s))))"

lemma laddr_read_word:
  assumes "inv s" and "ok s a 4"
  obtains s' where "laddr_read a 4 s = Inr (word_at s (unat a), s')" and "inv s'"
    and "contents s' = contents s" and "core s' = core s"
  using rd_law [OF assms] linear [OF assms] unfolding word_at_def by auto

lemma read_gate_ok:
  assumes "inv s" and "ok s (gate_addr no s) 4" and "ok s (gate_addr no s + 4) 4"
  obtains s' where "read_gate no s = Inr (gate_word_at no 0 s, gate_word_at no 4 s, s')"
    and "core s' = core s" and "contents s' = contents s" and "inv s'"
proof -
  from laddr_read_word [OF assms(1,2)] obtain a where a:
    "laddr_read (gate_addr no s) 4 s = Inr (word_at s (unat (gate_addr no s)), a)"
    "inv a" "contents a = contents s" "core a = core s" .
  have "ok a (gate_addr no s + 4) 4" using ok_core [OF a(4)] assms(3) by simp
  from laddr_read_word [OF a(2) this] obtain b where b:
    "laddr_read (gate_addr no s + 4) 4 a = Inr (word_at a (unat (gate_addr no s + 4)), b)"
    "inv b" "contents b = contents a" "core b = core a" .
  have "word_at a (unat (gate_addr no s + 4)) = gate_word_at no 4 s"
    using a(3) by (simp add: gate_word_at_def word_at_def)
  with a b show ?thesis
    by (intro that [of b])
      (simp_all add: read_gate_def Let_def gate_word_at_def [of no 0] flip: gate_addr_def)
qed

text \<open>The pushes leave the gate alone.\<close>

lemma gate_pushed:
  assumes "gate_in ok no s" and "k \<in> {0, 4}" and "idtr_base (cpu s') = idtr_base (cpu s)"
    and "\<And>b. unat (esp s) \<le> b \<or> b < unat (esp s) - 12 \<Longrightarrow> contents s' b = contents s b"
  shows "gate_word_at no k s' = gate_word_at no k s"
proof -
  have g: "gate_addr no s' = gate_addr no s" by (simp add: gate_addr_def assms(3))
  have "unat (gate_addr no s + k) + 4 \<le> unat (esp s) - 12 \<or> unat (esp s) \<le> unat (gate_addr no s + k)"
    using assms(1,2) unfolding gate_in_def Let_def by blast
  then show ?thesis
    unfolding gate_word_at_def word_at_def g using assms(4) by (intro le_read_cong) auto
qed

lemma core_push:
  assumes "core s' = set_reg r v (core s)"
  shows "eip (cpu s') = eip (cpu s)" and "segReg (cpu s') = segReg (cpu s)"
    and "idtr_base (cpu s') = idtr_base (cpu s)" and "fl s' = fl s" and "ok s' a n = ok s a n"
proof -
  have "cpu s' = set_gpr r v (cpu s)"
    using arg_cong [OF assms, of cpu] by (simp add: core_cpu set_reg_def)
  then show "eip (cpu s') = eip (cpu s)" "segReg (cpu s') = segReg (cpu s)"
    "idtr_base (cpu s') = idtr_base (cpu s)" "fl s' = fl s" by (simp_all add: set_gpr_def)
  have "core s' = core (set_reg r v s)" using assms by simp
  from ok_core [OF this] show "ok s' a n = ok s a n" by simp
qed

lemma raise_intr_stk:
  assumes "stk s (n + 3) ws" and "gate_in ok no s"
  obtains s' cs where "raise_intr no s = Inr s'" and "stk s' n ([eip (cpu s), cs, fl s] @ ws)"
    and "(ucast cs :: u16) = sreg_val SREG_CS s" and "core s' = entry_state no s"
proof -
  have n3: "stk s (Suc (Suc (Suc n))) ws" using assms(1) by (simp add: numeral_3_eq_3)
  have room: "12 \<le> unat (esp s)" using n3 by (simp add: stk_def stack_room_def)
  from push_stk [OF n3, of "fl s"] obtain a where a: "push_val 32 (fl s) s = Inr a"
    "stk a (Suc (Suc n)) (fl s # ws)" "core a = set_reg REG_ESP (esp s - 4) (core s)"
    "\<And>b. unat (esp s) \<le> b \<or> b < unat (esp s) - 4 \<Longrightarrow> contents a b = contents s b" by blast
  have ea: "esp a = esp s - 4" by (simp add: core_step [OF a(3)])
  have ua: "unat (esp a) = unat (esp s) - 4" unfolding ea using room by (intro unat_sub4) simp
  obtain cs where cs: "sign_ext (ucast (sreg_val SREG_CS s)) 16 = Inr cs"
    "(ucast cs :: u16) = sreg_val SREG_CS s" by (rule sign_ext_cs)
  from push_stk [OF a(2), of cs] obtain b where b: "push_val 32 cs a = Inr b"
    "stk b (Suc n) (cs # fl s # ws)" "core b = set_reg REG_ESP (esp a - 4) (core a)"
    "\<And>c. unat (esp a) \<le> c \<or> c < unat (esp a) - 4 \<Longrightarrow> contents b c = contents a c" by blast
  have eb: "esp b = esp a - 4" by (simp add: core_step [OF b(3)])
  have ub: "unat (esp b) = unat (esp s) - 8" unfolding eb using room ua by (subst unat_sub4) simp_all
  from push_stk [OF b(2), of "eip (cpu s)"] obtain c where c: "push_val 32 (eip (cpu s)) b = Inr c"
    "stk c n (eip (cpu s) # cs # fl s # ws)" "core c = set_reg REG_ESP (esp b - 4) (core b)"
    "\<And>d. unat (esp b) \<le> d \<or> d < unat (esp b) - 4 \<Longrightarrow> contents c d = contents b d" by blast
  have sc: "core c = set_reg REG_ESP (esp s - 12) (core s)"
    using a(3) b(3) c(3) by (simp add: ea eb)
  note pc = core_push [OF sc] and pa = core_push [OF a(3)] and pb = core_push [OF b(3)]
  have hw: "contents c d = contents s d" if "unat (esp s) \<le> d \<or> d < unat (esp s) - 12" for d
  proof -
    have "unat (esp s) \<le> d \<or> d < unat (esp s) - 4" "unat (esp a) \<le> d \<or> d < unat (esp a) - 4"
      "unat (esp b) \<le> d \<or> d < unat (esp b) - 4" using that room ua ub by auto
    then show ?thesis using a(4) b(4) c(4) by simp
  qed
  have gw: "gate_word_at no 0 c = gate_word_at no 0 s" "gate_word_at no 4 c = gate_word_at no 4 s"
    by (rule gate_pushed [OF assms(2) _ pc(3) hw]; simp)+
  have ga: "gate_addr no c = gate_addr no s" by (simp add: gate_addr_def pc(3))
  have "inv c" using c(2) by (simp add: stk_def)
  moreover have "ok c (gate_addr no c) 4" "ok c (gate_addr no c + 4) 4"
    using assms(2) by (simp_all add: gate_in_def Let_def ga pc(5))
  ultimately obtain d where d: "read_gate no c = Inr (gate_word_at no 0 s, gate_word_at no 4 s, d)"
    "core d = core c" "contents d = contents c" "inv d"
    using read_gate_ok gw by metis
  let ?v0 = "gate_word_at no 0 s" and ?v1 = "gate_word_at no 4 s"
  let ?f = "if gate_type ?v1 = 0xe then set_fl (put_IF False (fl d)) d else d"
  let ?e = "set_eip (gate_offset ?v0 ?v1) (set_cs (ucast (gate_selector ?v0)) ?f)"
  have run: "raise_intr no s = Inr ?e"
    using a(1) cs(1) b(1) c(1) d(1) pa(1,2) pb(1)
    by (simp add: raise_intr_def sreg_val_def Let_def set_cs_def)
  have "stk d n (eip (cpu s) # cs # fl s # ws)"
    by (rule stk_read [OF c(2) d(2,3,4)])
  then have st: "stk ?e n ([eip (cpu s), cs, fl s] @ ws)" by (simp add: stk_set)
  have "fl d = fl s" using arg_cong [OF d(2), of fl] pc(4) by (simp add: core_cpu)
  then have "core ?e = entry_state no s"
    by (simp add: entry_state_def d(2) sc)
  with run st cs(2) show ?thesis by (intro that [of ?e cs])
qed

lemma entry_state_fields:
  assumes "core a = entry_state no s"
  shows "reg r a = (if r = REG_ESP then esp s - 12 else reg r s)"
    and "fl a = (if gate_type (gate_word_at no 4 s) = 0xe then put_IF False (fl s) else fl s)"
proof -
  have "reg r (entry_state no s) = (if r = REG_ESP then esp s - 12 else reg r s)"
    by (auto simp: entry_state_def set_eip_def set_cs_def upd_sreg_def set_fl_def set_reg_def set_gpr_def reg_def core_cpu)
  then show "reg r a = (if r = REG_ESP then esp s - 12 else reg r s)" using assms by (metis reg_core)
  have "fl (entry_state no s) = (if gate_type (gate_word_at no 4 s) = 0xe then put_IF False (fl s) else fl s)"
    by (simp add: entry_state_def set_eip_def set_cs_def upd_sreg_def core_cpu)
  then show "fl a = (if gate_type (gate_word_at no 4 s) = 0xe then put_IF False (fl s) else fl s)"
    using assms core_cpu [of a] by simp
qed

lemma entry_state_undo:
  "add_esp 12 (set_fl (fl s) (set_cs (sreg_val SREG_CS s) (set_eip (eip (cpu s)) (entry_state no s)))) = core s"
proof -
  have c: "cpu (core s) = cpu s" by (rule core_cpu)
  have undo: "add_esp 12 (set_fl (fl s) (set_cs (sreg_val SREG_CS s) (set_eip (eip (cpu s))
      (set_eip x (set_cs y (set_fl z (set_reg REG_ESP (esp s - 12) (core s)))))))) = core s" for x y z
    using c by (simp add: set_eip_def set_fl_def set_cs_def upd_sreg_def add_esp_def set_reg_def set_gpr_def
        reg_def sreg_val_def)
  have e: "set_fl (fl s) (set_reg REG_ESP w (core s)) = set_reg REG_ESP w (core s)" for w
    using c by (simp add: set_fl_def set_reg_def set_gpr_def)
  have "entry_state no s = set_eip (gate_offset (gate_word_at no 0 s) (gate_word_at no 4 s))
      (set_cs (ucast (gate_selector (gate_word_at no 0 s)))
       (set_fl (if gate_type (gate_word_at no 4 s) = 0xe then put_IF False (fl s) else fl s)
        (set_reg REG_ESP (esp s - 12) (core s))))"
    by (cases "gate_type (gate_word_at no 4 s) = 0xe") (simp_all add: entry_state_def e)
  then show ?thesis using undo by simp
qed

end

end
