(* ===== verification/StackCorrect.thy ===== *)
theory StackCorrect
  imports StackSpace
begin

text \<open>
  The stack instructions and the interrupt entry over flat memory, the first instance of \<open>stack_space\<close>:
  \<open>pusha\<close> with \<open>popa\<close>, and \<open>raise_intr\<close> with \<open>iret\<close>.
\<close>

section \<open>Stack frames\<close>

text \<open>
  Below ESP there is room for \<open>n\<close> words and above it there are \<open>m\<close>, all of them aligned words
  of physical memory outside the device maps.
\<close>

definition frame :: "mach \<Rightarrow> nat \<Rightarrow> nat \<Rightarrow> bool" where
  "frame s n m \<longleftrightarrow> unat (esp s) mod 4 = 0 \<and> 4 * n \<le> unat (esp s) \<and> unat (esp s) + 4 * m \<le> MEM_SIZE_B \<and>
     (\<forall>a. unat (esp s) - 4 * n \<le> unat a \<and> unat a < unat (esp s) + 4 * m \<longrightarrow>
        is_mmio a (mmio_st s) = None)"

text \<open>\<open>stack s n ws\<close>: a flat stack that holds the words \<open>ws\<close>, with room for \<open>n\<close> more.\<close>

definition stack :: "mach \<Rightarrow> nat \<Rightarrow> u32 list \<Rightarrow> bool" where
  "stack s n ws \<longleftrightarrow> flat SREG_SS s \<and> frame s n (length ws) \<and> vm.words_at s (unat (esp s)) ws"

lemma flat_sub_esp [simp]:
  "flat sr (sub_esp k s) = flat sr s" "flat sr (add_esp k s) = flat sr s"
  "flat sr (set_reg r v s) = flat sr s"
  by (simp_all add: flat_def sub_esp_def add_esp_def set_reg_def set_gpr_def)

lemma mem_set_reg [simp]:
  "mem (set_reg r v s) = mem s" "mmio_st (set_reg r v s) = mmio_st s"
  "sans_mem (set_reg r v s) = set_reg r v (sans_mem s)"
  by (simp_all add: set_reg_def sans_mem_def)

lemma reg_sans_mem [simp]: "reg r (sans_mem s) = reg r s"
  by (simp add: reg_def sans_mem_def)

lemma sans_mem_reg: "sans_mem s' = sans_mem s \<Longrightarrow> reg r s' = reg r s"
  by (metis reg_sans_mem)

interpretation fs: stack_space "flat SREG_SS" ram "\<lambda>s. hw_mem (mem s)" sans_mem
proof unfold_locales
  show "laddr_read a 4 s = vaddr_read a SREG_SS 4 s" if "flat SREG_SS s" "ram s a 4" for s a
    using vaddr_flat(1,3) [OF that(1), of 4 a] by simp
qed (simp_all add: upd_cpu_def sans_mem_def ram_def flat_def)

lemma frame_room:
  assumes "frame s n m"
  shows "stack_room ram s n m"
proof -
  have "ram s a 4" if "unat a mod 4 = 0" "unat (esp s) - 4 * n \<le> unat a" "unat a < unat (esp s) + 4 * m" for a
  proof -
    have "4 dvd unat a" "4 dvd unat (esp s) + 4 * m" using that(1) assms by (auto simp: frame_def)
    then have "unat a + 4 \<le> unat (esp s) + 4 * m" using that(3) by (auto elim!: dvdE)
    then show ?thesis using assms that by (auto simp: frame_def ram_def intro!: cache_ok_aligned)
  qed
  then show ?thesis using assms by (auto simp: frame_def stack_room_def MEM_SIZE_B_def)
qed

lemma stack_stk: "stack s n ws \<Longrightarrow> fs.stk s n ws"
  by (simp add: stack_def fs.stk_def frame_room)

text \<open>The bounds of a stack move with ESP.\<close>

lemma stk_stack:
  assumes "stack s (n + k) ws" and "fs.stk s' n vs" and "length vs = length ws + k"
    and "mmio_st s' = mmio_st s" and "esp s' = esp s - of_nat (4 * k)"
  shows "stack s' n vs"
proof -
  have f: "frame s (n + k) (length ws)" using assms(1) by (simp add: stack_def)
  then have "4 * k \<le> unat (esp s)" by (simp add: frame_def)
  moreover from this have "unat (of_nat (4 * k) :: u32) = 4 * k"
    using unsigned_less [of "esp s", where 'a = nat] by (simp add: unsigned_of_nat take_bit_nat_eq_self del: of_nat_mult)
  ultimately have "unat (esp s') = unat (esp s) - 4 * k"
    unfolding assms(5) by (subst unat_sub) (simp_all add: word_le_nat_alt)
  then have "frame s' n (length vs)"
    using f \<open>4 * k \<le> unat (esp s)\<close> assms(3,4) by (auto simp: frame_def)
  then show ?thesis using assms(2) by (simp add: stack_def fs.stk_def)
qed

lemma stack_again:
  assumes "stack s n ws" and "fs.stk s' n ws" and "mmio_st s' = mmio_st s" and "esp s' = esp s"
  shows "stack s' n ws"
  using stk_stack [of s n 0 ws s' ws] assms by simp

lemma stack_cong:
  assumes "mem s' = mem s" and "mmio_st s' = mmio_st s" and "esp s' = esp s"
    and "cr0 (cpu s') = cr0 (cpu s)" and "sr_base (segReg (cpu s') 2) = sr_base (segReg (cpu s) 2)"
  shows "stack s' n ws = stack s n ws"
  using assms vm.words_at_cong [of s' s] by (simp add: stack_def frame_def flat_def)

lemma mmio_core: "sans_mem s' = t \<Longrightarrow> mmio_st s' = mmio_st t"
  by (auto simp: sans_mem_def)

section \<open>\<open>pusha\<close> and \<open>popa\<close>\<close>

text \<open>The machine without memory and general purpose registers.\<close>

definition sans_gpr :: "mach \<Rightarrow> mach" where
  "sans_gpr s = upd_cpu (\<lambda>c. c\<lparr>gpr := \<lambda>_. 0\<rparr>) (sans_mem s)"

lemma sans_gpr_set_reg [simp]: "sans_gpr (set_reg r v s) = sans_gpr s"
  by (simp add: sans_gpr_def upd_cpu_def set_reg_def set_gpr_def sans_mem_def)

lemma sans_gpr_sans_mem [simp]: "sans_gpr (sans_mem s) = sans_gpr s"
  by (simp add: sans_gpr_def sans_mem_def)

lemma sans_gpr_step: "sans_mem s' = set_reg r v (sans_mem s) \<Longrightarrow> sans_gpr s' = sans_gpr s"
  by (metis sans_gpr_sans_mem sans_gpr_set_reg)

text \<open>
  \<^bold>\<open>C5\<close>. \<open>pusha\<close> saves the eight registers below ESP, and \<open>popa\<close> with the same ESP brings
  them all back whatever the registers hold in between; nothing else of the machine but the
  memory below the old ESP changes.
\<close>

theorem pusha_popa_round_trip:
  assumes "stack s (n + 8) ws"
  shows "\<exists>s1. pusha pc opcode s = Inr (1, s1) \<and> esp s1 = esp s - 32 \<and>
    stack s1 n (pusha_words s @ ws) \<and> sans_gpr s1 = sans_gpr s \<and>
    (\<forall>g. g REG_ESP = esp s1 \<longrightarrow>
      (\<exists>s2. popa pc' opcode' (upd_cpu (\<lambda>c. c\<lparr>gpr := g\<rparr>) s1) = Inr (1, s2) \<and>
         (\<forall>r<8. reg r s2 = reg r s) \<and> sans_gpr s2 = sans_gpr s \<and> stack s2 (n + 8) ws))"
proof -
  from fs.pusha_stk [OF stack_stk [OF assms]] obtain s1 where s1: "pusha pc opcode s = Inr (1, s1)"
    "fs.stk s1 n (pusha_words s @ ws)" "sans_mem s1 = set_reg REG_ESP (esp s - 32) (sans_mem s)" .
  have e1: "esp s1 = esp s - 32" by (simp add: fs.core_step [OF s1(3)])
  have m1: "mmio_st s1 = mmio_st s" using mmio_core [OF s1(3)] by (simp add: sans_mem_def)
  have g1: "sans_gpr s1 = sans_gpr s" by (rule sans_gpr_step [OF s1(3)])
  have st1: "stack s1 n (pusha_words s @ ws)"
    by (rule stk_stack [OF assms s1(2) _ m1]) (simp_all add: pusha_words_def e1)
  have "\<exists>s2. popa pc' opcode' (upd_cpu (\<lambda>c. c\<lparr>gpr := g\<rparr>) s1) = Inr (1, s2) \<and>
      (\<forall>r<8. reg r s2 = reg r s) \<and> sans_gpr s2 = sans_gpr s \<and> stack s2 (n + 8) ws"
    if "g REG_ESP = esp s1" for g
  proof -
    let ?t = "upd_cpu (\<lambda>c. c\<lparr>gpr := g\<rparr>) s1"
    have "fs.stk ?t n ([reg 7 s, reg 6 s, reg 5 s, reg 4 s, reg 3 s, reg 2 s, reg 1 s, reg 0 s] @ ws)"
      using fs.stk_upd [OF s1(2), of "\<lambda>c. c\<lparr>gpr := g\<rparr>"] that by (simp add: pusha_words_def reg_def)
    from fs.popa_stk [OF this] obtain s2 where s2: "popa pc' opcode' ?t = Inr (1, s2)"
      "fs.stk s2 (n + 8) ws"
      "sans_mem s2 = set_reg REG_ESP (esp ?t + 32) (set_reg 0 (reg 0 s) (set_reg 1 (reg 1 s)
         (set_reg 2 (reg 2 s) (set_reg 3 (reg 3 s) (set_reg 5 (reg 5 s) (set_reg 6 (reg 6 s)
         (set_reg 7 (reg 7 s) (sans_mem ?t))))))))" by blast
    have et: "esp ?t = esp s - 32" using that e1 by (simp add: reg_def upd_cpu_def)
    have r: "reg r s2 = reg r s" if "r < 8" for r
    proof -
      have "r \<in> {0, 1, 2, 3, 4, 5, 6, 7}" using that by auto
      then show ?thesis
        unfolding reg_sans_mem [of r s2, symmetric] s2(3) by (auto simp: et)
    qed
    have "sans_gpr s2 = sans_gpr (sans_mem s2)" by simp
    also have "\<dots> = sans_gpr ?t" unfolding s2(3) by simp
    also have "\<dots> = sans_gpr s1" by (simp add: sans_gpr_def upd_cpu_def sans_mem_def)
    finally have "sans_gpr s2 = sans_gpr s" using g1 by simp
    moreover have "mmio_st s2 = mmio_st s"
      using mmio_core [OF s2(3)] m1 by (simp add: sans_mem_def upd_cpu_def)
    then have "stack s2 (n + 8) ws" using stack_again [OF assms s2(2)] r [of 4] by simp
    ultimately show ?thesis using s2(1) r by blast
  qed
  with s1(1) st1 e1 g1 show ?thesis by blast
qed

lemma zero_mach_stack:
  "stack (set_reg REG_ESP 0x1000 zero_mach) 8 []"
proof -
  have "coherent (mem (set_reg REG_ESP 0x1000 zero_mach))"
    by (simp add: coherent_def line_ok_def zero_mach_def set_reg_def)
  then show ?thesis
    by (simp add: stack_def frame_def flat_def is_mmio_def
        zero_mach_def set_reg_def set_gpr_def reg_def zero_CPU_def cr0_pg_def cr0_pe_def MEM_SIZE_B_def)
qed

lemma pusha_popa_round_trip_witness:
  "\<exists>s1. pusha 0 0x60 (set_reg REG_ESP 0x1000 zero_mach) = Inr (1, s1) \<and> esp s1 = 0x1000 - 32"
  using pusha_popa_round_trip [of "set_reg REG_ESP 0x1000 zero_mach" 0 "[]" 0 "0x60" 0 "0x61"]
    zero_mach_stack by auto

section \<open>Interrupts\<close>

text \<open>The gate of an interrupt number lies in memory, away from the words \<open>raise_intr\<close> pushes.\<close>

definition gate_word :: "u8 \<Rightarrow> u32 \<Rightarrow> mach \<Rightarrow> u32" where
  "gate_word no k s = vm.word_at s (unat (gate_addr no s + k))"

definition gate_ok :: "u8 \<Rightarrow> mach \<Rightarrow> bool" where
  "gate_ok no s \<longleftrightarrow> (\<forall>k\<in>{0, 4}. let a = gate_addr no s + k in
     ram s a 4 \<and> (unat a + 4 \<le> unat (esp s) - 12 \<or> unat (esp s) \<le> unat a))"

text \<open>The state in which the handler starts, up to memory.\<close>

definition intr_entry :: "u8 \<Rightarrow> mach \<Rightarrow> mach" where
  "intr_entry no s =
     set_eip (gate_offset (gate_word no 0 s) (gate_word no 4 s))
      (set_cs (ucast (gate_selector (gate_word no 0 s)))
       ((if gate_type (gate_word no 4 s) = 0xe then set_fl (put_IF False (fl s)) else id)
        (set_reg REG_ESP (esp s - 12) (sans_mem s))))"

lemma gates_flat:
  "gate_ok no s = gate_in ram no s" "intr_entry no s = fs.entry_state no s" "gate_word no k s = fs.gate_word_at no k s"
  by (simp_all add: gate_ok_def gate_in_def intr_entry_def fs.entry_state_def gate_word_def fs.gate_word_at_def)

lemma sans_mem_fl: "fl (sans_mem s) = fl s"
  by (simp add: sans_mem_def)

text \<open>
  \<^bold>\<open>C4\<close>. \<open>raise_intr\<close> enters the handler its gate names, with interrupts off exactly for an
  interrupt gate, and \<open>iret\<close> from the same ESP brings back the interrupted machine: EIP, CS,
  EFLAGS with IF, ESP and everything else but the memory below ESP.
\<close>

theorem raise_intr_iret:
  assumes "stack s (n + 3) ws" and "gate_ok no s"
  shows "\<exists>s1 s2. raise_intr no s = Inr s1 \<and> sans_mem s1 = intr_entry no s \<and>
    (fl_IF (fl s1) \<longleftrightarrow> fl_IF (fl s) \<and> gate_type (gate_word no 4 s) \<noteq> 0xe) \<and>
    iret pc opcode s1 = Inr (0, s2) \<and> sans_mem s2 = sans_mem s \<and> stack s2 (n + 3) ws"
proof -
  from fs.raise_intr_stk [OF stack_stk [OF assms(1)]] assms(2) obtain s1 cs where s1: "raise_intr no s = Inr s1"
    "fs.stk s1 n ([eip (cpu s), cs, fl s] @ ws)" "(ucast cs :: u16) = sreg_val SREG_CS s"
    "sans_mem s1 = intr_entry no s" unfolding gates_flat by blast
  from fs.iret_stk [OF s1(2)] obtain s2 where s2: "iret pc opcode s1 = Inr (0, s2)" "fs.stk s2 (n + 3) ws"
    "sans_mem s2 = add_esp 12 (set_fl (fl s) (set_cs (ucast cs) (set_eip (eip (cpu s)) (sans_mem s1))))" .
  have c: "sans_mem s2 = sans_mem s"
    unfolding s2(3) s1(3,4) gates_flat by (rule fs.entry_state_undo)
  have "fl_IF (fl s1) \<longleftrightarrow> fl_IF (fl s) \<and> gate_type (gate_word no 4 s) \<noteq> 0xe"
    unfolding fs.entry_state_fields(2) [OF s1(4) [unfolded gates_flat]] gates_flat by simp
  moreover have "stack s2 (n + 3) ws"
    by (rule stack_again [OF assms(1) s2(2) sans_memD(2) [OF c] sans_mem_reg [OF c]])
  ultimately show ?thesis using s1(1,4) s2(1) c by blast
qed

definition idle :: mach where
  "idle = upd_cpu (\<lambda>c. c\<lparr>idtr_base := 0x2000\<rparr>) (set_reg REG_ESP 0x1000 zero_mach)"

lemma idle_stack: "stack idle 8 []"
  using stack_cong [of idle "set_reg REG_ESP 0x1000 zero_mach" 8 "[]"] zero_mach_stack
  by (simp add: idle_def upd_cpu_def reg_def)

lemma idle_gate: "gate_ok 32 idle"
proof -
  have "cache_ok 0x2100 4" "cache_ok 0x2104 4"
    by (rule cache_ok_aligned; simp add: MEM_SIZE_B_def)+
  then show ?thesis
    by (simp add: gate_ok_def ram_def gate_addr_def idle_def upd_cpu_def is_mmio_def zero_mach_def
        set_reg_def set_gpr_def reg_def Let_def)
qed

lemma raise_intr_iret_witness:
  "\<exists>s1 s2. raise_intr 32 idle = Inr s1 \<and> iret 0 0xcf s1 = Inr (0, s2) \<and> sans_mem s2 = sans_mem idle"
  using raise_intr_iret [of idle 5 "[]" 32 0 "0xcf"] idle_stack idle_gate by auto

end
