(* ===== verification/KMem.thy ===== *)
theory KMem
  imports MmuCorrect StackCorrect
begin

text \<open>
  The kernel's memory management, \<open>kernel/src/memory/kvm.c\<close>, \<open>mm.c\<close> and \<open>vmem.c\<close>, as it runs on
  the emulated memory: its page tables are what the emulator's page walk reads.
\<close>

section \<open>Accesses of the kernel\<close>

abbreviation (input) "KOFFSET \<equiv> 0xC0000000 :: u32"
abbreviation (input) "PHY_MEM \<equiv> 128 * 1024 * 1024 :: nat"
abbreviation (input) "PAGE_SIZE \<equiv> 4096 :: nat"
abbreviation (input) "NR_PDE \<equiv> 1024 :: nat"
abbreviation (input) "NR_PTE \<equiv> 1024 :: nat"
abbreviation (input) "PT_SIZE \<equiv> NR_PTE * PAGE_SIZE"

definition va_to_pa :: "u32 \<Rightarrow> u32" where "va_to_pa addr = addr - KOFFSET"
definition make_pde :: "u32 \<Rightarrow> u32" where "make_pde addr = (addr AND 0xfffff000) OR 0x7"
definition make_pte :: "u32 \<Rightarrow> u32" where "make_pte addr = (addr AND 0xfffff000) OR 0x7"

abbreviation ds_read :: "u32 \<Rightarrow> nat \<Rightarrow> mach \<Rightarrow> (u32 \<times> mach) res" where
  "ds_read a n s \<equiv> vaddr_read a SREG_DS n s"

abbreviation ds_write :: "u32 \<Rightarrow> nat \<Rightarrow> u32 \<Rightarrow> mach \<Rightarrow> mach res" where
  "ds_write a n d s \<equiv> vaddr_write a SREG_DS n d s"

abbreviation k_load :: "u32 \<Rightarrow> mach \<Rightarrow> (u32 \<times> mach) res" where
  "k_load a s \<equiv> vaddr_read a SREG_DS 4 s"

abbreviation k_store :: "u32 \<Rightarrow> u32 \<Rightarrow> mach \<Rightarrow> mach res" where
  "k_store a d s \<equiv> vaddr_write a SREG_DS 4 d s"

text \<open>\<open>memset\<close> and \<open>memcpy\<close> of the C library, byte by byte, over the accesses of any memory.\<close>

fun memset :: "(u32 \<Rightarrow> nat \<Rightarrow> u32 \<Rightarrow> 's \<Rightarrow> 's res) \<Rightarrow> u32 \<Rightarrow> u8 \<Rightarrow> nat \<Rightarrow> 's \<Rightarrow> 's res" where
  "memset wr a v 0 s = Inr s"
| "memset wr a v (Suc n) s = bindE (wr a 1 (ucast v) s) (memset wr (a + 1) v n)"

fun memcpy :: "(u32 \<Rightarrow> nat \<Rightarrow> 's \<Rightarrow> (u32 \<times> 's) res) \<Rightarrow> (u32 \<Rightarrow> nat \<Rightarrow> u32 \<Rightarrow> 's \<Rightarrow> 's res) \<Rightarrow>
    u32 \<Rightarrow> u32 \<Rightarrow> nat \<Rightarrow> 's \<Rightarrow> 's res" where
  "memcpy rd wr dst src 0 s = Inr s"
| "memcpy rd wr dst src (Suc n) s =
     bindE (rd src 1 s) (\<lambda>(v, s). bindE (wr dst 1 v s) (memcpy rd wr (dst + 1) (src + 1) n))"

lemma unat_offset:
  fixes a :: u32
  assumes "unat a + k < 4294967296"
  shows "unat (a + of_nat k) = unat a + k"
proof -
  have "unat (of_nat k :: u32) = k"
    using assms by (simp only: unsigned_of_nat) (simp add: take_bit_nat_eq_self)
  then show ?thesis using assms by (simp add: unat_word_ariths(1))
qed

lemma byte_of_ucast [simp]: "byte_of 0 (ucast v) = v" for v :: u8
  by (rule bit_word_eqI) (auto simp: bit_byte_of bit_ucast_iff dest: bit_imp_le_length)

lemma le_read_byte: "le_read f (Suc 0) = ucast (f 0)"
  by simp

context byte_memory begin

text \<open>Reads that keep the invariant, whether or not the client may write there.\<close>

definition readable :: "'s \<Rightarrow> u32 \<Rightarrow> nat \<Rightarrow> bool" where
  "readable s a n \<longleftrightarrow> (\<forall>s1. inv s1 \<and> core s1 = core s \<longrightarrow>
     (\<exists>s2. rd a n s1 = Inr (le_read (\<lambda>i. contents s1 (unat a + i)) n, s2) \<and> inv s2 \<and>
        contents s2 = contents s1 \<and> core s2 = core s1))"

lemma ok_readable: "ok s a n \<Longrightarrow> readable s a n"
  unfolding readable_def
proof (intro allI impI)
  fix s1
  assume "ok s a n" and s1: "inv s1 \<and> core s1 = core s"
  then have "ok s1 a n" using ok_core [of s1 s a n] by simp
  with s1 show "\<exists>s2. rd a n s1 = Inr (le_read (\<lambda>i. contents s1 (unat a + i)) n, s2) \<and> inv s2 \<and>
      contents s2 = contents s1 \<and> core s2 = core s1"
    by (intro rd_law) simp_all
qed

lemma readable_core: "core s' = core s \<Longrightarrow> readable s' a n = readable s a n"
  by (simp only: readable_def)

lemma memset_law:
  assumes "inv s" and "\<forall>k<n. ok s (a + of_nat k) 1" and "unat a + n < 4294967296"
  shows "\<exists>s'. memset wr a v n s = Inr s' \<and> inv s' \<and> core s' = core s \<and>
    contents s' = (\<lambda>i. if unat a \<le> i \<and> i < unat a + n then v else contents s i)"
  using assms
proof (induction n arbitrary: a s)
  case 0
  then show ?case by (auto simp: fun_eq_iff)
next
  case (Suc n)
  have "ok s a 1" using Suc.prems(2) by (auto dest: spec [of _ 0])
  from wr_law [OF Suc.prems(1) this, of "ucast v"] obtain s1 where s1: "wr a 1 (ucast v) s = Inr s1"
    "inv s1" "contents s1 = store_bytes (contents s) (unat a) 1 (ucast v)" "core s1 = core s" by blast
  have u: "unat (a + 1) = unat a + 1" using unat_offset [of a 1] Suc.prems(3) by simp
  have "\<forall>k<n. ok s1 (a + 1 + of_nat k) 1"
    using Suc.prems(2) [rule_format, of "Suc k" for k] ok_core [OF s1(4)] by (simp add: add.assoc)
  moreover have "unat (a + 1) + n < 4294967296" using Suc.prems(3) u by simp
  ultimately obtain s' where s': "memset wr (a + 1) v n s1 = Inr s'" "inv s'" "core s' = core s1"
    "contents s' = (\<lambda>i. if unat (a + 1) \<le> i \<and> i < unat (a + 1) + n then v else contents s1 i)"
    using Suc.IH [OF s1(2), of "a + 1"] by blast
  have "contents s' = (\<lambda>i. if unat a \<le> i \<and> i < unat a + Suc n then v else contents s i)"
    using s'(4) s1(3) by (auto simp: store_bytes_def fun_eq_iff u)
  then show ?case using s1 s' by simp
qed

lemma memcpy_law:
  assumes "inv s" and "\<forall>k<n. ok s (dst + of_nat k) 1" and "\<forall>k<n. readable s (src + of_nat k) 1"
    and "unat dst + n < 4294967296" and "unat src + n < 4294967296"
    and "unat src + n \<le> unat dst \<or> unat dst + n \<le> unat src"
  shows "\<exists>s'. memcpy rd wr dst src n s = Inr s' \<and> inv s' \<and> core s' = core s \<and>
    contents s' = (\<lambda>i. if unat dst \<le> i \<and> i < unat dst + n then contents s (unat src + (i - unat dst)) else contents s i)"
  using assms
proof (induction n arbitrary: dst src s)
  case 0
  then show ?case by (auto simp: fun_eq_iff)
next
  case (Suc n)
  have o: "ok s dst 1" "readable s src 1" using Suc.prems(2,3) by (auto dest: spec [of _ 0])
  obtain s1 where s1:
    "rd src 1 s = Inr (le_read (\<lambda>i. contents s (unat src + i)) 1, s1)" "inv s1" "contents s1 = contents s"
    "core s1 = core s" using o(2) Suc.prems(1) unfolding readable_def by blast
  have "ok s1 dst 1" using o(1) ok_core [OF s1(4)] by simp
  from wr_law [OF s1(2) this] obtain s2 where s2:
    "wr dst 1 (le_read (\<lambda>i. contents s (unat src + i)) 1) s1 = Inr s2" "inv s2"
    "contents s2 = store_bytes (contents s1) (unat dst) 1 (le_read (\<lambda>i. contents s (unat src + i)) 1)"
    "core s2 = core s1" by blast
  have u: "unat (dst + 1) = unat dst + 1" "unat (src + 1) = unat src + 1"
    using unat_offset [of dst 1] unat_offset [of src 1] Suc.prems(4,5) by simp_all
  have c: "core s2 = core s" using s1(4) s2(4) by simp
  have "\<forall>k<n. ok s2 (dst + 1 + of_nat k) 1" "\<forall>k<n. readable s2 (src + 1 + of_nat k) 1"
    using Suc.prems(2,3) [rule_format, of "Suc k" for k] ok_core [OF c] readable_core [OF c] by (simp_all add: add.assoc)
  moreover have "unat (dst + 1) + n < 4294967296" "unat (src + 1) + n < 4294967296"
    "unat (src + 1) + n \<le> unat (dst + 1) \<or> unat (dst + 1) + n \<le> unat (src + 1)"
    using Suc.prems(4-6) u by auto
  ultimately obtain s' where s': "memcpy rd wr (dst + 1) (src + 1) n s2 = Inr s'" "inv s'" "core s' = core s2"
    "contents s' = (\<lambda>i. if unat (dst + 1) \<le> i \<and> i < unat (dst + 1) + n
       then contents s2 (unat (src + 1) + (i - unat (dst + 1))) else contents s2 i)"
    using Suc.IH [OF s2(2), of "dst + 1" "src + 1"] by blast
  have "contents s' = (\<lambda>i. if unat dst \<le> i \<and> i < unat dst + Suc n
      then contents s (unat src + (i - unat dst)) else contents s i)"
    unfolding s'(4) s2(3) s1(3) u using Suc.prems(6)
    by (auto simp: store_bytes_def fun_eq_iff Suc_diff_Suc not_less_eq_eq dest!: le_antisym)
  then show ?case using s1 s2 s' by simp
qed

end

text \<open>The instruction \<open>mov\<close> to a control register, as the emulator performs it.\<close>

definition write_cr :: "u32 \<Rightarrow> u32 \<Rightarrow> mach \<Rightarrow> mach res" where
  "write_cr i v s = operand_write (OPERAND_0\<lparr>otype := OPR_CREG, oaddr := i, osize := 32, oval := v\<rparr>) s"

definition write_cr0 :: "u32 \<Rightarrow> mach \<Rightarrow> mach res" where "write_cr0 v = write_cr 0 v"
definition write_cr3 :: "u32 \<Rightarrow> mach \<Rightarrow> mach res" where "write_cr3 v = write_cr 3 v"
definition read_cr0 :: "mach \<Rightarrow> u32" where "read_cr0 s = cr0 (cpu s)"

section \<open>\<open>kvm.c\<close>\<close>

text \<open>The inner loop fills one table, the outer loop enters it in both halves of the directory.\<close>

fun fill_table :: "nat \<Rightarrow> u32 \<Rightarrow> u32 \<Rightarrow> mach \<Rightarrow> ((u32 \<times> u32) \<times> mach) res" where
  "fill_table 0 ptable pframe_idx s = Inr ((ptable, pframe_idx), s)"
| "fill_table (Suc n) ptable pframe_idx s =
     bindE (k_store ptable (make_pte (push_bit 12 pframe_idx)) s)
       (fill_table n (ptable + 4) (pframe_idx + 1))"

fun fill_dir :: "nat \<Rightarrow> u32 \<Rightarrow> nat \<Rightarrow> u32 \<Rightarrow> u32 \<Rightarrow> mach \<Rightarrow> mach res" where
  "fill_dir 0 pdir idx ptable pframe_idx s = Inr s"
| "fill_dir (Suc n) pdir idx ptable pframe_idx s =
     bindE (k_store (pdir + 4 * of_nat idx) (make_pde ptable) s) (\<lambda>s.
     bindE (k_store (pdir + 4 * of_nat (idx + 0xC0000000 div PT_SIZE)) (make_pde ptable) s) (\<lambda>s.
     bindE (fill_table NR_PTE ptable pframe_idx s) (\<lambda>((ptable, pframe_idx), s).
       fill_dir n pdir (Suc idx) ptable pframe_idx s)))"

text \<open>\<open>kpdir\<close> and \<open>kptable\<close> are the addresses the linker gives the arrays.\<close>

definition init_page :: "u32 \<Rightarrow> u32 \<Rightarrow> mach \<Rightarrow> mach res" where
  "init_page kpdir kptable s =
     (let pdir = va_to_pa kpdir; ptable = va_to_pa kptable in
      bindE (memset ds_write pdir 0 (NR_PDE * 4) s) (\<lambda>s.
      bindE (fill_dir (PHY_MEM div PT_SIZE) pdir 0 ptable 0 s) (\<lambda>s.
      bindE (write_cr3 (push_bit 12 (drop_bit 12 pdir)) s) (\<lambda>s.
        write_cr0 (put_bit 31 True (read_cr0 s)) s))))"

section \<open>Words in memory\<close>

definition mword :: "(nat \<Rightarrow> u8) \<Rightarrow> nat \<Rightarrow> u32" where
  "mword m a = le_read (\<lambda>i. m (a + i)) 4"

lemma word_in_mword: "word_in s a = mword (hw_mem (mem s)) (unat a)"
  by (simp add: word_in_def mword_def)

lemma mword_store_same [simp]: "mword (store_bytes m a 4 d) a = d"
proof -
  have "take_bit 32 d = d" by (rule bit_word_eqI) (simp add: bit_take_bit_iff)
  then show ?thesis using le_read_store_same [of m a 4 d] by (simp add: mword_def)
qed

lemma mword_store_other: "b + 4 \<le> a \<or> a + 4 \<le> b \<Longrightarrow> mword (store_bytes m a 4 d) b = mword m b"
  by (simp add: mword_def le_read_store_other)

lemma aligned_less: "a mod 4 = 0 \<Longrightarrow> b mod 4 = 0 \<Longrightarrow> b < a \<Longrightarrow> b + 4 \<le> a" for a b :: nat
  by (auto simp: mod_eq_0_iff_dvd elim!: dvdE)

lemma aligned_disjoint: "a mod 4 = 0 \<Longrightarrow> b mod 4 = 0 \<Longrightarrow> a \<noteq> b \<Longrightarrow> b + 4 \<le> a \<or> a + 4 \<le> b" for a b :: nat
  using aligned_less [of a b] aligned_less [of b a] by linarith

lemma aligned_plus: "a mod 4 = 0 \<Longrightarrow> (a + 4 * k) mod 4 = 0" for a :: nat
  by simp

text \<open>A page-aligned array in memory, outside every device map.\<close>

definition region :: "mach \<Rightarrow> u32 \<Rightarrow> nat \<Rightarrow> bool" where
  "region s a n \<longleftrightarrow> unat a + n \<le> MEM_SIZE_B \<and> unat a mod 4096 = 0 \<and>
     (\<forall>x. unat a \<le> unat x \<and> unat x < unat a + n \<longrightarrow> is_mmio x (mmio_st s) = None)"

lemma region_ram:
  assumes "region s a n" and "k + len \<le> n" and "len \<in> {1, 2, 4}" and "k mod len = 0"
  shows "ram s (a + of_nat k) len" and "unat (a + of_nat k) = unat a + k"
proof -
  have b: "unat a + n \<le> MEM_SIZE_B" "unat a mod 4096 = 0" using assms(1) by (simp_all add: region_def)
  show u: "unat (a + of_nat k) = unat a + k"
    using b assms(2) by (intro unat_offset) (simp add: MEM_SIZE_B_def)
  have "unat a mod len = 0"
    using b(2) assms(3) by (auto intro: mod_mod_cancel [THEN subst])
  then have "(unat a + k) mod len = 0" using assms(4) by (simp add: mod_add_eq [symmetric])
  then show "ram s (a + of_nat k) len"
    using assms b u cache_ok_aligned [OF assms(3), of "a + of_nat k"]
    by (auto simp: ram_def region_def)
qed

lemma region_core: "sans_mem s' = sans_mem s \<Longrightarrow> region s' a n = region s a n"
  using sans_memD(2) [of s' s] by (simp add: region_def)

text \<open>What a piece of kernel code keeps: the flat mode and everything but the memory.\<close>

definition only_mem :: "mach \<Rightarrow> mach \<Rightarrow> bool" where
  "only_mem s s' \<longleftrightarrow> flat SREG_DS s' \<and> sans_mem s' = sans_mem s"

abbreviation hw :: "mach \<Rightarrow> nat \<Rightarrow> u8" where "hw s \<equiv> hw_mem (mem s)"

lemma store_ok:
  assumes "flat SREG_DS s" and "ram s a n"
  obtains s' where "vaddr_write a SREG_DS n d s = Inr s'" and "only_mem s s'"
    and "hw s' = store_bytes (hw s) (unat a) n d"
  using vm.wr_law [OF assms, of d] that by (auto simp: only_mem_def)

lemma fill_table_ok:
  assumes "flat SREG_DS s" and "region s t N" and "4 * (k + n) \<le> N"
  shows "\<exists>s'. fill_table n (t + of_nat (4 * k)) f s =
      Inr ((t + of_nat (4 * (k + n)), f + of_nat n), s') \<and> only_mem s s' \<and>
    (\<forall>j<n. mword (hw s') (unat t + 4 * (k + j)) = make_pte (push_bit 12 (f + of_nat j))) \<and>
    (\<forall>b. b + 4 \<le> unat t + 4 * k \<or> unat t + 4 * (k + n) \<le> b \<longrightarrow> mword (hw s') b = mword (hw s) b)"
  using assms
proof (induction n arbitrary: k f s)
  case 0
  then show ?case by (simp add: only_mem_def)
next
  case (Suc n)
  have r: "ram s (t + of_nat (4 * k)) 4" "unat (t + of_nat (4 * k)) = unat t + 4 * k"
    using region_ram [OF Suc.prems(2), of "4 * k" 4] Suc.prems(3) by simp_all
  obtain s1 where s1: "k_store (t + of_nat (4 * k)) (make_pte (push_bit 12 f)) s = Inr s1" "only_mem s s1"
    "hw s1 = store_bytes (hw s) (unat t + 4 * k) 4 (make_pte (push_bit 12 f))"
    using store_ok [OF Suc.prems(1) r(1)] r(2) by metis
  have "\<exists>s'. fill_table n (t + of_nat (4 * Suc k)) (f + 1) s1 =
      Inr ((t + of_nat (4 * (Suc k + n)), f + 1 + of_nat n), s') \<and> only_mem s1 s' \<and>
    (\<forall>j<n. mword (hw s') (unat t + 4 * (Suc k + j)) = make_pte (push_bit 12 (f + 1 + of_nat j))) \<and>
    (\<forall>b. b + 4 \<le> unat t + 4 * Suc k \<or> unat t + 4 * (Suc k + n) \<le> b \<longrightarrow> mword (hw s') b = mword (hw s1) b)"
    using Suc.prems s1(2) by (intro Suc.IH) (simp_all add: only_mem_def region_core [of s1 s])
  then obtain s' where s': "fill_table n (t + of_nat (4 * Suc k)) (f + 1) s1 =
      Inr ((t + of_nat (4 * (Suc k + n)), f + 1 + of_nat n), s')" "only_mem s1 s'"
    "\<forall>j<n. mword (hw s') (unat t + 4 * (Suc k + j)) = make_pte (push_bit 12 (f + 1 + of_nat j))"
    "\<forall>b. b + 4 \<le> unat t + 4 * Suc k \<or> unat t + 4 * (Suc k + n) \<le> b \<longrightarrow> mword (hw s') b = mword (hw s1) b"
    by blast
  have "mword (hw s') (unat t + 4 * (k + j)) = make_pte (push_bit 12 (f + of_nat j))" if "j < Suc n" for j
  proof (cases j)
    case 0
    then show ?thesis using s'(4) s1(3) by simp
  next
    case (Suc i)
    then show ?thesis using s'(3) that by (auto simp: add.commute add.left_commute)
  qed
  moreover have "mword (hw s') b = mword (hw s) b"
    if "b + 4 \<le> unat t + 4 * k \<or> unat t + 4 * (k + Suc n) \<le> b" for b
    using s'(4) s1(3) that mword_store_other [of b "unat t + 4 * k"] by auto
  ultimately show ?case
    using s1(1,2) s'(1,2) by (simp add: only_mem_def algebra_simps)
qed

text \<open>The words that the outer loop writes from its \<open>i\<close>-th round on.\<close>

definition dir_words :: "nat \<Rightarrow> nat \<Rightarrow> nat \<Rightarrow> nat \<Rightarrow> nat set" where
  "dir_words P T i n = {P + 4 * i..<P + 4 * (i + n)} \<union> {P + 4 * (768 + i)..<P + 4 * (768 + i + n)} \<union>
     {T + 4096 * i..<T + 4096 * (i + n)}"

lemma fill_dir_ok:
  assumes "flat SREG_DS s" and "region s p 4096" and "region s t N" and "4096 * (i + n) \<le> N" and "i + n \<le> 32"
    and "unat p + 4096 \<le> unat t \<or> unat t + N \<le> unat p"
  shows "\<exists>s'. fill_dir n p i (t + of_nat (4096 * i)) (of_nat (1024 * i)) s = Inr s' \<and> only_mem s s' \<and>
    (\<forall>j. i \<le> j \<and> j < i + n \<longrightarrow> mword (hw s') (unat p + 4 * j) = make_pde (t + of_nat (4096 * j)) \<and>
       mword (hw s') (unat p + 4 * (768 + j)) = make_pde (t + of_nat (4096 * j))) \<and>
    (\<forall>k. 1024 * i \<le> k \<and> k < 1024 * (i + n) \<longrightarrow>
       mword (hw s') (unat t + 4 * k) = make_pte (push_bit 12 (of_nat k))) \<and>
    (\<forall>b. b mod 4 = 0 \<and> b \<notin> dir_words (unat p) (unat t) i n \<longrightarrow> mword (hw s') b = mword (hw s) b)"
  using assms
proof (induction n arbitrary: i s)
  case 0
  then show ?case by (auto simp: only_mem_def)
next
  case (Suc n)
  let ?e = "make_pde (t + of_nat (4096 * i))"
  note prems = Suc.prems
  have al: "unat p mod 4 = 0" "unat t mod 4 = 0"
    using prems(2,3) by (auto simp: region_def intro: mod_mod_cancel [THEN subst])
  have r1: "ram s (p + of_nat (4 * i)) 4" "unat (p + of_nat (4 * i)) = unat p + 4 * i"
    using region_ram [OF prems(2), of "4 * i" 4] prems(5) by simp_all
  obtain s1 where s1: "k_store (p + of_nat (4 * i)) ?e s = Inr s1" "only_mem s s1"
    "hw s1 = store_bytes (hw s) (unat p + 4 * i) 4 ?e"
    using store_ok [OF prems(1) r1(1)] r1(2) by metis
  have f1: "flat SREG_DS s1" "region s1 p 4096" using s1(2) prems by (simp_all add: only_mem_def region_core [of s1 s])
  have r2: "ram s1 (p + of_nat (4 * (i + 768))) 4" "unat (p + of_nat (4 * (i + 768))) = unat p + 4 * (768 + i)"
    using region_ram [OF f1(2), of "4 * (i + 768)" 4] prems(5) by simp_all
  obtain s2 where s2: "k_store (p + of_nat (4 * (i + 768))) ?e s1 = Inr s2" "only_mem s1 s2"
    "hw s2 = store_bytes (hw s1) (unat p + 4 * (768 + i)) 4 ?e"
    using store_ok [OF f1(1) r2(1)] r2(2) by metis
  have f2: "flat SREG_DS s2" "region s2 t N"
    using s1(2) s2(2) prems by (simp_all add: only_mem_def region_core [of s2 s])
  obtain s3 where s3: "fill_table 1024 (t + of_nat (4096 * i)) (of_nat (1024 * i)) s2 =
      Inr ((t + of_nat (4096 * Suc i), of_nat (1024 * Suc i)), s3)" "only_mem s2 s3"
    "\<forall>j<1024. mword (hw s3) (unat t + 4 * (1024 * i + j)) = make_pte (push_bit 12 (of_nat (1024 * i) + of_nat j))"
    "\<forall>b. b + 4 \<le> unat t + 4096 * i \<or> unat t + 4096 * Suc i \<le> b \<longrightarrow> mword (hw s3) b = mword (hw s2) b"
    using fill_table_ok [OF f2, of "1024 * i" 1024 "of_nat (1024 * i)"] prems(4)
    by (auto simp: algebra_simps)
  have f3: "flat SREG_DS s3" "region s3 p 4096" "region s3 t N"
    using s1(2) s2(2) s3(2) prems by (simp_all add: only_mem_def region_core [of s3 s])
  have b3: "mword (hw s3) b = mword (hw s) b"
    if "b mod 4 = 0" "b \<noteq> unat p + 4 * i" "b \<noteq> unat p + 4 * (768 + i)"
      "\<not> (unat t + 4096 * i \<le> b \<and> b < unat t + 4096 * Suc i)" for b
  proof -
    have "b + 4 \<le> unat t + 4096 * i \<or> unat t + 4096 * Suc i \<le> b"
      using that(4) aligned_less [OF aligned_plus [OF al(2)] that(1), of "1024 * i"] by linarith
    then have "mword (hw s3) b = mword (hw s2) b" using s3(4) by blast
    moreover have "b + 4 \<le> unat p + 4 * i \<or> unat p + 4 * i + 4 \<le> b"
      "b + 4 \<le> unat p + 4 * (768 + i) \<or> unat p + 4 * (768 + i) + 4 \<le> b"
      using aligned_disjoint [OF aligned_plus [OF al(1)] that(1)] that(2,3) by metis+
    ultimately show ?thesis using s1(3) s2(3) by (simp add: mword_store_other)
  qed
  have e3: "mword (hw s3) (unat p + 4 * i) = ?e" "mword (hw s3) (unat p + 4 * (768 + i)) = ?e"
    using s3(4) s1(3) s2(3) prems(4,5,6) by (auto simp: mword_store_other)
  obtain s' where s': "fill_dir n p (Suc i) (t + of_nat (4096 * Suc i)) (of_nat (1024 * Suc i)) s3 = Inr s'"
    "only_mem s3 s'"
    "\<And>j. Suc i \<le> j \<Longrightarrow> j < Suc i + n \<Longrightarrow> mword (hw s') (unat p + 4 * j) = make_pde (t + of_nat (4096 * j)) \<and>
       mword (hw s') (unat p + 4 * (768 + j)) = make_pde (t + of_nat (4096 * j))"
    "\<And>k. 1024 * Suc i \<le> k \<Longrightarrow> k < 1024 * (Suc i + n) \<Longrightarrow>
       mword (hw s') (unat t + 4 * k) = make_pte (push_bit 12 (of_nat k))"
    "\<And>b. b mod 4 = 0 \<Longrightarrow> b \<notin> dir_words (unat p) (unat t) (Suc i) n \<Longrightarrow> mword (hw s') b = mword (hw s3) b"
    using Suc.IH [OF f3, of "Suc i"] prems(4-6) by auto
  have run: "fill_dir (Suc n) p i (t + of_nat (4096 * i)) (of_nat (1024 * i)) s = Inr s'"
    using s1(1) s2(1) s3(1) s'(1) by (simp add: algebra_simps)
  have om: "only_mem s s'" using s1(2) s2(2) s3(2) s'(2) by (simp add: only_mem_def)
  have d: "mword (hw s') (unat p + 4 * j) = make_pde (t + of_nat (4096 * j)) \<and>
      mword (hw s') (unat p + 4 * (768 + j)) = make_pde (t + of_nat (4096 * j))"
    if "i \<le> j" "j < i + Suc n" for j
  proof (cases "j = i")
    case True
    have "mword (hw s') (unat p + 4 * i) = mword (hw s3) (unat p + 4 * i)"
      "mword (hw s') (unat p + 4 * (768 + i)) = mword (hw s3) (unat p + 4 * (768 + i))"
      using prems(4-6) al by (intro s'(5); auto simp: dir_words_def)+
    then show ?thesis using e3 True by simp
  next
    case False
    then show ?thesis using s'(3) that by simp
  qed
  have e: "mword (hw s') (unat t + 4 * k) = make_pte (push_bit 12 (of_nat k))"
    if "1024 * i \<le> k" "k < 1024 * (i + Suc n)" for k
  proof (cases "k < 1024 * Suc i")
    case True
    define j where "j = k - 1024 * i"
    have j: "k = 1024 * i + j" "j < 1024" using that(1) True by (simp_all add: j_def)
    have "mword (hw s') (unat t + 4 * k) = mword (hw s3) (unat t + 4 * k)"
      using prems(4-6) al True that by (intro s'(5); auto simp: dir_words_def)
    then show ?thesis using s3(3) j by simp
  next
    case False
    then show ?thesis using s'(4) that by simp
  qed
  have o: "mword (hw s') b = mword (hw s) b"
    if "b mod 4 = 0" "b \<notin> dir_words (unat p) (unat t) i (Suc n)" for b
  proof -
    have "mword (hw s') b = mword (hw s3) b" using that by (intro s'(5)) (auto simp: dir_words_def)
    also have "\<dots> = mword (hw s) b" using that by (intro b3) (auto simp: dir_words_def)
    finally show ?thesis .
  qed
  have "\<forall>j. i \<le> j \<and> j < i + Suc n \<longrightarrow> mword (hw s') (unat p + 4 * j) = make_pde (t + of_nat (4096 * j)) \<and>
       mword (hw s') (unat p + 4 * (768 + j)) = make_pde (t + of_nat (4096 * j))"
    "\<forall>k. 1024 * i \<le> k \<and> k < 1024 * (i + Suc n) \<longrightarrow>
       mword (hw s') (unat t + 4 * k) = make_pte (push_bit 12 (of_nat k))"
    "\<forall>b. b mod 4 = 0 \<and> b \<notin> dir_words (unat p) (unat t) i (Suc n) \<longrightarrow> mword (hw s') b = mword (hw s) b"
    using d e o by simp_all
  then show ?case using run om by (intro exI [of _ s'] conjI)
qed

section \<open>The kernel's mapping\<close>

text \<open>Both \<open>a\<close> and \<open>a + KOFFSET\<close> are mapped to the frame of \<open>a\<close>, for all physical memory.\<close>

definition kernel_map :: "mach \<Rightarrow> bool" where
  "kernel_map s \<longleftrightarrow> (\<forall>a. unat a < PHY_MEM \<longrightarrow>
     walkable s a \<and> trans s a = a \<and> walkable s (a + KOFFSET) \<and> trans s (a + KOFFSET) = a)"

lemma frame_bits [simp]:
  "pde_present (make_pde e)" "pde_present (make_pte e)"
  "make_pde e AND NOT PAGE_MASK = e AND NOT PAGE_MASK" "make_pte e AND NOT PAGE_MASK = e AND NOT PAGE_MASK"
proof -
  have 1: "(0xfffff000 :: u32) = NOT PAGE_MASK" and 2: "(7 :: u32) = mask 3"
    by (simp_all add: mask_eq_exp_minus_1)
  show "pde_present (make_pde e)" "pde_present (make_pte e)"
    by (simp_all add: pde_present_def make_pde_def make_pte_def bit_or_iff)
  show "make_pde e AND NOT PAGE_MASK = e AND NOT PAGE_MASK"
    unfolding make_pde_def 1 2 by (rule bit_word_eqI) (auto simp: bit_or_iff bit_and_iff bit_not_iff bit_mask_iff)
  then show "make_pte e AND NOT PAGE_MASK = e AND NOT PAGE_MASK" by (simp add: make_pte_def make_pde_def)
qed

lemma aligned_frame:
  fixes e :: u32
  assumes "unat e mod 4096 = 0"
  shows "e AND NOT PAGE_MASK = e"
proof -
  have "unat (take_bit 12 e) = 0" using assms by (simp only: unsigned_take_bit_eq) (simp add: take_bit_eq_mod)
  then have 0: "take_bit 12 e = 0" by (simp only: unat_eq_zero)
  have "bit e n \<Longrightarrow> 12 \<le> n" for n
    using arg_cong [OF 0, of "\<lambda>w. bit w n"] by (auto simp: bit_take_bit_iff)
  then show ?thesis
    by (intro bit_word_eqI) (auto simp: bit_and_iff bit_not_iff bit_mask_iff not_less)
qed

lemma koffset_fields:
  assumes "unat a < PHY_MEM"
  shows "unat (pdir_idx (a + KOFFSET)) = 768 + unat a div 4194304" and "pt_idx (a + KOFFSET) = pt_idx a"
    and "(a + KOFFSET) AND PAGE_MASK = a AND PAGE_MASK" and "unat (pdir_idx a) = unat a div 4194304"
proof -
  have u: "unat (a + KOFFSET) = unat a + 3221225472"
    using unat_offset [of a 3221225472] assms by simp
  show "unat (pdir_idx (a + KOFFSET)) = 768 + unat a div 4194304" "unat (pdir_idx a) = unat a div 4194304"
    using assms by (simp_all add: pdir_idx_def unat_field u)
  have k: "unat a + 3221225472 = unat a + 786432 * 4096" by simp
  then have "(unat a + 3221225472) div 4096 = unat a div 4096 + 768 * 1024"
    by (simp only: div_mult_self1)
  then have "(unat a + 3221225472) div 4096 mod 1024 = unat a div 4096 mod 1024"
    by (simp only: mod_mult_self1)
  then have "unat (pt_idx (a + KOFFSET)) = unat (pt_idx a)"
    by (simp add: pt_idx_def unat_field u)
  then show "pt_idx (a + KOFFSET) = pt_idx a" by (simp only: word_unat_eq_iff)
  have m: "(unat a + 3221225472) mod 2 ^ 12 = unat a mod 2 ^ 12"
    using mod_mult_self1 [of "unat a" 786432 4096] by simp
  have "unat (take_bit 12 (a + KOFFSET)) = unat (take_bit 12 a)"
    unfolding unsigned_take_bit_eq u unfolding take_bit_eq_mod by (rule m)
  then show "(a + KOFFSET) AND PAGE_MASK = a AND PAGE_MASK"
    by (simp only: word_unat_eq_iff take_bit_eq_mask)
qed

text \<open>The directory \<open>p\<close> and the tables \<open>t\<close> after the loops.\<close>

definition tables_built :: "mach \<Rightarrow> u32 \<Rightarrow> u32 \<Rightarrow> bool" where
  "tables_built s p t \<longleftrightarrow> region s p 4096 \<and> region s t 131072 \<and>
    (\<forall>j<32. word_in s (p + of_nat (4 * j)) = make_pde (t + of_nat (4096 * j)) \<and>
       word_in s (p + of_nat (4 * (768 + j))) = make_pde (t + of_nat (4096 * j))) \<and>
    (\<forall>k<32768. word_in s (t + of_nat (4 * k)) = make_pte (push_bit 12 (of_nat k)))"

lemma offset_idx: "x + y * 4 = x + of_nat (4 * unat y)" for x y :: u32
  by simp

lemma entry_walk:
  assumes r: "region s p 4096" "region s t 131072" and c: "cr3 (cpu s) = p" and a: "unat a < PHY_MEM"
    and w: "word_in s (p + of_nat (4 * unat (pdir_idx x))) = make_pde (t + of_nat (4096 * (unat a div 4194304)))"
    and tab: "\<forall>k<32768. word_in s (t + of_nat (4 * k)) = make_pte (push_bit 12 (of_nat k))"
    and x: "pt_idx x = pt_idx a" "x AND PAGE_MASK = a AND PAGE_MASK"
  shows "walkable s x" and "trans s x = a"
    and "pte_of s x = make_pte (push_bit 12 (of_nat (unat a div 4096)))"
proof -
  let ?i = "unat a div 4194304" and ?k = "unat a div 4096"
  have i: "?i < 32" using a by simp
  have p: "p AND NOT PAGE_MASK = p" using r(1) by (intro aligned_frame) (simp add: region_def)
  have pde: "pde_addr s x = p + of_nat (4 * unat (pdir_idx x))"
    unfolding pde_addr_def c p by (rule offset_idx)
  have ix: "unat (pdir_idx x) < 1024" by (simp add: pdir_idx_def unat_field)
  have ut: "unat (t + of_nat (4096 * ?i)) = unat t + 4096 * ?i"
    using region_ram(2) [OF r(2), of "4096 * ?i" 4] i by simp
  have "(t + of_nat (4096 * ?i)) AND NOT PAGE_MASK = t + of_nat (4096 * ?i)"
    using r(2) by (intro aligned_frame) (simp only: ut region_def, simp)
  then have pt: "pte_addr s x = t + of_nat (4096 * ?i) + pt_idx a * 4"
    unfolding pte_addr_def pde w x(1) by (simp only: frame_bits)
  have "unat (pt_idx a) = ?k mod 1024" by (simp add: pt_idx_def unat_field)
  moreover have "?k = 1024 * ?i + ?k mod 1024"
    using mult_div_mod_eq [of 1024 ?k] by (simp add: div_mult2_eq [symmetric])
  ultimately have "4096 * ?i + 4 * unat (pt_idx a) = 4 * ?k" by simp
  then have "of_nat (4096 * ?i) + of_nat (4 * unat (pt_idx a)) = (of_nat (4 * ?k) :: u32)"
    by (simp only: of_nat_add [symmetric])
  then have pte: "pte_addr s x = t + of_nat (4 * ?k)"
    by (simp only: pt offset_idx add.assoc)
  have k: "?k < 32768" using a by simp
  then show wp: "pte_of s x = make_pte (push_bit 12 (of_nat ?k))"
    using tab unfolding pte_of_def pte by blast
  have "ram s (pde_addr s x) 4 \<and> ram s (pte_addr s x) 4"
    using region_ram(1) [OF r(1), of "4 * unat (pdir_idx x)" 4] ix
      region_ram(1) [OF r(2), of "4 * ?k" 4] k unfolding pde pte by simp
  moreover have "word_in s (pde_addr s x) = make_pde (t + of_nat (4096 * ?i))" unfolding pde by (rule w)
  ultimately show "walkable s x"
    by (simp add: walkable_def wp ram_def cache_ok_def)
  have "unat (drop_bit 12 a) = ?k" by (simp only: unat_drop_bit_eq) (simp add: drop_bit_eq_div)
  moreover have "of_nat (unat w) = w" for w :: u32 by simp
  ultimately have "of_nat ?k = drop_bit 12 a" by metis
  then show "trans s x = a"
    unfolding trans_def wp x(2)
    by (intro bit_word_eqI) (auto simp: bit_or_iff bit_and_iff bit_not_iff bit_mask_iff bit_push_bit_iff bit_drop_bit_eq)
qed

lemma tables_walk:
  assumes "tables_built s p t" and "cr3 (cpu s) = p" and "unat a < PHY_MEM"
    and "unat (pdir_idx x) \<in> {unat a div 4194304, 768 + unat a div 4194304}"
    and "pt_idx x = pt_idx a" and "x AND PAGE_MASK = a AND PAGE_MASK"
  shows "walkable s x" and "trans s x = a"
    and "pte_of s x = make_pte (push_bit 12 (of_nat (unat a div 4096)))"
proof -
  let ?i = "unat a div 4194304"
  have i: "?i < 32" using assms(3) by simp
  have "word_in s (p + of_nat (4 * n)) = make_pde (t + of_nat (4096 * ?i))" if "n \<in> {?i, 768 + ?i}" for n
    using assms(1) i that unfolding tables_built_def by auto
  then have w: "word_in s (p + of_nat (4 * unat (pdir_idx x))) = make_pde (t + of_nat (4096 * ?i))"
    using assms(4) by blast
  have r: "region s p 4096" "region s t 131072"
    and tab: "\<forall>k<32768. word_in s (t + of_nat (4 * k)) = make_pte (push_bit 12 (of_nat k))"
    using assms(1) by (simp_all add: tables_built_def)
  show "walkable s x" "trans s x = a" "pte_of s x = make_pte (push_bit 12 (of_nat (unat a div 4096)))"
    by (rule entry_walk [OF r assms(2,3) w tab assms(5,6)])+
qed

lemma tables_kernel_map:
  assumes "tables_built s p t" and "cr3 (cpu s) = p"
  shows "kernel_map s"
  unfolding kernel_map_def
  using tables_walk [OF assms] koffset_fields by auto

lemma write_cr0: "write_cr0 v s = Inr (upd_sreg 0 (\<lambda>r. r\<lparr>sr_val := ucast v\<rparr>) (upd_cpu (\<lambda>c. c\<lparr>cr0 := v\<rparr>) s))"
  by (simp add: write_cr0_def write_cr_def operand_write_def write_sreg_def OPERAND_0_def)

lemma write_cr3: "write_cr3 v s = Inr (upd_sreg 3 (\<lambda>r. r\<lparr>sr_val := ucast v\<rparr>) (upd_cpu (\<lambda>c. c\<lparr>cr3 := v\<rparr>) s))"
  by (simp add: write_cr3_def write_cr_def operand_write_def write_sreg_def OPERAND_0_def)

lemma page_shift: "unat p mod 4096 = 0 \<Longrightarrow> push_bit 12 (drop_bit 12 p) = p" for p :: u32
proof -
  assume "unat p mod 4096 = 0"
  moreover have "push_bit 12 (drop_bit 12 p) = p AND NOT PAGE_MASK"
    by (rule bit_word_eqI) (auto simp: bit_and_iff bit_not_iff bit_mask_iff bit_push_bit_iff bit_drop_bit_eq)
  ultimately show "push_bit 12 (drop_bit 12 p) = p" by (simp only: aligned_frame)
qed

lemma word_in_region:
  assumes "region s a n" and "k + 4 \<le> n" and "k mod 4 = 0"
  shows "word_in s' (a + of_nat k) = mword (hw s') (unat a + k)"
  unfolding word_in_mword using region_ram(2) [OF assms(1,2) _ assms(3)] by simp

text \<open>A TLB without entries, as \<open>init_mem\<close> leaves it.\<close>

definition tlb_empty :: "mach \<Rightarrow> bool" where
  "tlb_empty s \<longleftrightarrow> tlb_size (tlb s) = 64 \<and> tlb_size_width (tlb s) = 6 \<and> (\<forall>i<64. \<not> bit (tlb_key (tlb s) i) 0)"

lemma init_page_run:
  assumes "flat SREG_DS s" and "region s (va_to_pa kpdir) 4096" and "region s (va_to_pa kptable) 131072"
    and "unat (va_to_pa kpdir) + 4096 \<le> unat (va_to_pa kptable) \<or>
      unat (va_to_pa kptable) + 131072 \<le> unat (va_to_pa kpdir)"
  shows "\<exists>s'. init_page kpdir kptable s = Inr s' \<and> tables_built s' (va_to_pa kpdir) (va_to_pa kptable) \<and>
    cr3 (cpu s') = va_to_pa kpdir \<and> cr0 (cpu s') = put_bit 31 True (cr0 (cpu s)) \<and>
    sr_base (segReg (cpu s') SREG_DS) = sr_base (segReg (cpu s) SREG_DS) \<and>
    coherent (mem s') \<and> tlb s' = tlb s \<and> mmio_st s' = mmio_st s \<and>
    (\<forall>b. b mod 4 = 0 \<and> b \<notin> {unat (va_to_pa kpdir)..<unat (va_to_pa kpdir) + 4096} \<and>
      b \<notin> {unat (va_to_pa kptable)..<unat (va_to_pa kptable) + 131072} \<longrightarrow> mword (hw s') b = mword (hw s) b)"
proof -
  let ?p = "va_to_pa kpdir" and ?t = "va_to_pa kptable"
  have "\<forall>k<4096. ram s (?p + of_nat k) 1" using region_ram(1) [OF assms(2), of _ 1] by simp
  from vm.memset_law [OF assms(1) this] obtain s1 where s1: "memset ds_write ?p 0 (NR_PDE * 4) s = Inr s1" "only_mem s s1"
    "hw s1 = (\<lambda>i. if unat ?p \<le> i \<and> i < unat ?p + 4096 then 0 else hw s i)"
    using assms(2) by (auto simp: region_def MEM_SIZE_B_def only_mem_def)
  have f1: "flat SREG_DS s1" "region s1 ?p 4096" "region s1 ?t 131072"
    using s1(2) assms by (simp_all add: only_mem_def region_core [of s1 s])
  obtain s2 where s2: "fill_dir 32 ?p 0 ?t 0 s1 = Inr s2" "only_mem s1 s2"
    "\<forall>j<32. mword (hw s2) (unat ?p + 4 * j) = make_pde (?t + of_nat (4096 * j)) \<and>
       mword (hw s2) (unat ?p + 4 * (768 + j)) = make_pde (?t + of_nat (4096 * j))"
    "\<forall>k<32768. mword (hw s2) (unat ?t + 4 * k) = make_pte (push_bit 12 (of_nat k))"
    "\<forall>b. b mod 4 = 0 \<and> b \<notin> dir_words (unat ?p) (unat ?t) 0 32 \<longrightarrow> mword (hw s2) b = mword (hw s1) b"
    using fill_dir_ok [OF f1, of 0 32] assms(4) by auto
  have om: "sans_mem s2 = sans_mem s" "coherent (mem s2)"
    using s1(2) s2(2) by (simp_all add: only_mem_def flat_def)
  define s' where "s' = upd_sreg 0 (\<lambda>r. r\<lparr>sr_val := ucast (put_bit 31 True (cr0 (cpu s)))\<rparr>)
    (upd_cpu (\<lambda>c. c\<lparr>cr0 := put_bit 31 True (cr0 (cpu s))\<rparr>)
      (upd_sreg 3 (\<lambda>r. r\<lparr>sr_val := ucast ?p\<rparr>) (upd_cpu (\<lambda>c. c\<lparr>cr3 := ?p\<rparr>) s2)))"
  have al: "unat ?p mod 4096 = 0" using assms(2) by (simp add: region_def)
  have run: "init_page kpdir kptable s = Inr s'"
    using s1(1) s2(1) sans_memD(1) [OF om(1)]
    by (simp add: init_page_def Let_def page_shift [OF al] write_cr0 write_cr3 read_cr0_def s'_def
        upd_cpu_def upd_sreg_def)
  have k: "mem s' = mem s2" "mmio_st s' = mmio_st s2" "tlb s' = tlb s2" "cr3 (cpu s') = ?p"
    "cr0 (cpu s') = put_bit 31 True (cr0 (cpu s))"
    "sr_base (segReg (cpu s') SREG_DS) = sr_base (segReg (cpu s) SREG_DS)"
    using sans_memD(1) [OF om(1)] by (simp_all add: s'_def upd_cpu_def upd_sreg_def)
  have r': "region s' ?p 4096" "region s' ?t 131072"
    using assms(2,3) sans_memD(2) [OF om(1)] by (simp_all add: region_def k(2))
  have "word_in s' (?p + of_nat (4 * j)) = make_pde (?t + of_nat (4096 * j)) \<and>
      word_in s' (?p + of_nat (4 * (768 + j))) = make_pde (?t + of_nat (4096 * j))" if "j < 32" for j
    using word_in_region [OF assms(2), of "4 * j" s'] word_in_region [OF assms(2), of "4 * (768 + j)" s'] s2(3) that
    by (simp add: k(1))
  moreover have "word_in s' (?t + of_nat (4 * i)) = make_pte (push_bit 12 (of_nat i))" if "i < 32768" for i
    using word_in_region [OF assms(3), of "4 * i" s'] s2(4) that by (simp add: k(1))
  ultimately have "tables_built s' ?p ?t" unfolding tables_built_def using r' by blast
  moreover have "mword (hw s') b = mword (hw s) b" if b: "b mod 4 = 0" "b \<notin> {unat ?p..<unat ?p + 4096}"
    "b \<notin> {unat ?t..<unat ?t + 131072}" for b
  proof -
    have "b \<notin> dir_words (unat ?p) (unat ?t) 0 32" using b by (auto simp: dir_words_def)
    moreover have "unat ?p mod 4 = 0" using al by (auto intro: mod_mod_cancel [THEN subst])
    then have "b + 4 \<le> unat ?p \<or> unat ?p + 4096 \<le> b" using aligned_less [of "unat ?p" b] b by auto
    then have "mword (hw s1) b = mword (hw s) b" unfolding mword_def s1(3) by (intro le_read_cong) auto
    ultimately show ?thesis using s2(4,5) b(1) k(1) by simp
  qed
  ultimately show ?thesis
    using run k om(2) sans_memD(2,3) [OF om(1)] by (intro exI [of _ s']) simp
qed

text \<open>
  \<^bold>\<open>C13\<close> After \<open>init_page\<close> has run on the emulator with paging off and an empty TLB, paging is
  on and the emulator translates every physical address \<open>a\<close> and its kernel address
  \<open>a + KOFFSET\<close> to \<open>a\<close>; of the memory only the directory and the tables have changed.
\<close>

theorem init_page_correct:
  assumes "flat SREG_DS s" and "region s (va_to_pa kpdir) 4096" and "region s (va_to_pa kptable) 131072"
    and "unat (va_to_pa kpdir) + 4096 \<le> unat (va_to_pa kptable) \<or>
      unat (va_to_pa kptable) + 131072 \<le> unat (va_to_pa kpdir)"
    and "tlb_empty s"
  shows "\<exists>s'. init_page kpdir kptable s = Inr s' \<and> cr0_pg (cr0 (cpu s')) \<and> kernel_map s' \<and>
    (\<forall>a. unat a < PHY_MEM \<longrightarrow>
      (\<exists>s1. page_translate a s' = Inr (a, s1)) \<and> (\<exists>s2. page_translate (a + KOFFSET) s' = Inr (a, s2))) \<and>
    (\<forall>b. b mod 4 = 0 \<and> b \<notin> {unat (va_to_pa kpdir)..<unat (va_to_pa kpdir) + 4096} \<and>
      b \<notin> {unat (va_to_pa kptable)..<unat (va_to_pa kptable) + 131072} \<longrightarrow> mword (hw s') b = mword (hw s) b)"
proof -
  obtain s' where s': "init_page kpdir kptable s = Inr s'" "tables_built s' (va_to_pa kpdir) (va_to_pa kptable)"
    "cr3 (cpu s') = va_to_pa kpdir" "cr0 (cpu s') = put_bit 31 True (cr0 (cpu s))" "coherent (mem s')" "tlb s' = tlb s"
    and frame: "\<forall>b. b mod 4 = 0 \<and> b \<notin> {unat (va_to_pa kpdir)..<unat (va_to_pa kpdir) + 4096} \<and>
      b \<notin> {unat (va_to_pa kptable)..<unat (va_to_pa kptable) + 131072} \<longrightarrow> mword (hw s') b = mword (hw s) b"
    using init_page_run [OF assms(1-4)] by blast
  have tlb: "tlb_ok s'" using assms(5) by (auto simp: tlb_ok_def tlb_empty_def s'(6))
  have km: "kernel_map s'" by (rule tables_kernel_map [OF s'(2,3)])
  have "\<exists>s1. page_translate x s' = Inr (trans s' x, s1)" if "walkable s' x" for x
    using page_translate_correct [OF s'(5) tlb that] by auto
  then show ?thesis
    using s' km frame unfolding kernel_map_def by (fastforce simp: cr0_pg_def)
qed

text \<open>A machine after \<open>init_mem\<close>, its directory at 1 MB.\<close>

definition boot_mach :: mach where
  "boot_mach = init_all_tlb (make_all_tlb zero_mach)"

lemma boot_mach_ok:
  "flat SREG_DS boot_mach" "region boot_mach (va_to_pa 0xC0100000) 4096"
  "region boot_mach (va_to_pa 0xC0101000) 131072"
  "unat (va_to_pa 0xC0100000) + 4096 \<le> unat (va_to_pa 0xC0101000) \<or>
     unat (va_to_pa 0xC0101000) + 131072 \<le> unat (va_to_pa 0xC0100000)"
  "tlb_empty boot_mach"
proof -
  have v: "va_to_pa 0xC0100000 = 0x100000" "va_to_pa 0xC0101000 = 0x101000" by (simp_all add: va_to_pa_def)
  show "flat SREG_DS boot_mach"
    by (simp add: flat_def coherent_def line_ok_def boot_mach_def init_all_tlb_def make_all_tlb_def
        zero_mach_def zero_CPU_def cr0_pg_def cr0_pe_def)
  show "region boot_mach (va_to_pa 0xC0100000) 4096" "region boot_mach (va_to_pa 0xC0101000) 131072"
    by (simp_all add: v region_def is_mmio_def boot_mach_def init_all_tlb_def make_all_tlb_def zero_mach_def
        MEM_SIZE_B_def)
  show "tlb_empty boot_mach"
    by (simp add: tlb_empty_def boot_mach_def init_all_tlb_def make_all_tlb_def init_tlb_def make_tlb_def)
  show "unat (va_to_pa 0xC0100000) + 4096 \<le> unat (va_to_pa 0xC0101000) \<or>
      unat (va_to_pa 0xC0101000) + 131072 \<le> unat (va_to_pa 0xC0100000)" by (simp add: v)
qed

theorem init_page_correct_witness:
  "\<exists>s'. init_page 0xC0100000 0xC0101000 boot_mach = Inr s' \<and> kernel_map s' \<and>
     (\<exists>s2. page_translate 0xC0345678 s' = Inr (0x345678, s2))"
proof -
  obtain s' where "init_page 0xC0100000 0xC0101000 boot_mach = Inr s'" "kernel_map s'"
    "\<forall>a. unat a < 128 * 1024 * 1024 \<longrightarrow> (\<exists>s2. page_translate (a + 0xC0000000) s' = Inr (a, s2))"
    using init_page_correct [OF boot_mach_ok] by blast
  then show ?thesis by (auto dest: spec [of _ "0x345678"])
qed

end
