(* ===== verification/InstrMulDiv.thy ===== *)
theory InstrMulDiv
  imports InstrArith
begin

text \<open>
  \<open>mul.c\<close>, \<open>imul.c\<close>, \<open>div.c\<close> and \<open>idiv.c\<close>: the handlers that work
  on the register pair of the accumulator and EDX.
\<close>

definition put_CF_OF :: "bool \<Rightarrow> mach \<Rightarrow> mach" where
  "put_CF_OF b s = set_fl (put_OF b (put_CF b (fl s))) s"

section \<open>\<open>mul.c\<close>\<close>

definition mul_rm2a_b :: instr_func where
  "mul_rm2a_b pc opcode s =
     bindE (modrm_rm (pc + 1) (opr_size 8) s) (\<lambda>(n, rm, s).
     bindE (operand_read (opr_reg 8 0) s) (\<lambda>(al, s).
     bindE (operand_read rm s) (\<lambda>(rm, s).
       let len = 1 + n; (r64, w) = alu_mul (oval rm) (oval al) 8 (fl s); r = ucast r64 :: u32 in
       bindE (operand_write ((opr_reg 16 0)\<lparr>oval := r\<rparr>) (set_fl w s)) (\<lambda>s.
       let s = put_CF_OF (drop_bit 8 r AND 0xff \<noteq> 0) s in
       bindE (print_asm_2 len rm al s) (\<lambda>(_, _, s). Inr (len, s))))))"

definition mul_rm2a_v :: instr_func where
  "mul_rm2a_v pc opcode s =
     (let ds = data_size s in
      bindE (modrm_rm (pc + 1) (opr_size ds) s) (\<lambda>(n, rm, s).
      bindE (operand_read (opr_reg ds 0) s) (\<lambda>(a, s).
      bindE (operand_read rm s) (\<lambda>(rm, s).
        let len = 1 + n; sz = (if ds = 16 then 16 else 32);
            (r, w) = alu_mul (oval rm) (oval a) sz (fl s);
            ax = (opr_reg sz 0)\<lparr>oval := (if ds = 16 then ucast r AND mask 16 else ucast r)\<rparr>;
            dx = (opr_reg sz 2)\<lparr>oval := (if ds = 16 then drop_bit 16 (ucast r) AND mask 16
                                         else ucast (drop_bit 32 r))\<rparr> in
        bindE (print_asm_3 len rm dx ax (set_fl w s)) (\<lambda>(_, _, _, s).
        bindE (operand_write ax s) (\<lambda>s.
        bindE (operand_write dx s) (\<lambda>s.
          Inr (len, put_CF_OF (oval dx \<noteq> 0) s))))))))"

section \<open>\<open>imul.c\<close>\<close>

definition imul_ext :: "u32 \<Rightarrow> nat \<Rightarrow> u32 \<Rightarrow> nat \<Rightarrow> nat \<Rightarrow> u64 res" where
  "imul_ext x nx y ny ds =
     bindE (sign_ext x nx) (\<lambda>x. bindE (sign_ext y ny) (\<lambda>y. Inr (alu_imul x y ds)))"

definition imul_rm2r_v :: instr_func where
  "imul_rm2r_v pc opcode s =
     (let ds = data_size s in
      bindE (modrm_r_rm (pc + 1) (opr_size ds) (opr_size ds) s) (\<lambda>(n, r, rm, s).
      bindE (operand_read r s) (\<lambda>(r, s).
      bindE (operand_read rm s) (\<lambda>(rm, s).
      bindE (imul_ext (oval rm) ds (oval r) ds ds) (\<lambda>p.
        let r = r\<lparr>oval := ucast p\<rparr> in
        bindE (operand_write r s) (\<lambda>s.
        bindE (print_asm_2 (1 + n) rm r s) (\<lambda>(_, _, s). Inr (1 + n, s))))))))"

definition imul_rm2a_b :: instr_func where
  "imul_rm2a_b pc opcode s =
     bindE (modrm_rm (pc + 1) (opr_size 8) s) (\<lambda>(n, rm, s).
     bindE (operand_read (opr_reg 8 0) s) (\<lambda>(al, s).
     bindE (operand_read rm s) (\<lambda>(rm, s).
     bindE (imul_ext (oval rm) 8 (oval al) 8 8) (\<lambda>p.
       let ax = (opr_reg 16 0)\<lparr>oval := ucast p\<rparr> in
       bindE (operand_write ax s) (\<lambda>s.
       bindE (print_asm_3 (1 + n) rm al ax s) (\<lambda>(_, _, _, s). Inr (1 + n, s)))))))"

definition imul_rm2a_v :: instr_func where
  "imul_rm2a_v pc opcode s =
     (let ds = data_size s in
      bindE (modrm_rm (pc + 1) (opr_size ds) s) (\<lambda>(n, rm, s).
      bindE (operand_read (opr_reg ds 0) s) (\<lambda>(a, s).
      bindE (operand_read rm s) (\<lambda>(rm, s).
        let sz = (if ds = 16 then 16 else 32) in
        bindE (imul_ext (oval rm) sz (oval a) sz sz) (\<lambda>p.
        let ax = (opr_reg sz 0)\<lparr>oval := (if ds = 16 then ucast p AND mask 16 else ucast p)\<rparr>;
            dx = (opr_reg sz 2)\<lparr>oval := (if ds = 16 then signed_drop_bit 16 (ucast p :: u32) AND mask 16
                                         else ucast (drop_bit 32 p))\<rparr> in
        bindE (print_asm_3 (1 + n) rm dx ax s) (\<lambda>(_, _, _, s).
        bindE (operand_write ax s) (\<lambda>s.
        bindE (operand_write dx s) (\<lambda>s. Inr (1 + n, s)))))))))"

text \<open>The three-operand forms; the immediate is a word of the operand size or a byte.\<close>

definition imul_irm2r :: "nat \<Rightarrow> u32 \<Rightarrow> mach \<Rightarrow> (nat \<times> mach) res" where
  "imul_irm2r isz pc s =
     (let ds = data_size s in
      bindE (modrm_r_rm (pc + 1) (opr_size ds) (opr_size ds) s) (\<lambda>(n, r, rm, s).
        let len = 1 + n in
        bindE (operand_read rm s) (\<lambda>(rm, s).
        bindE (operand_read (opr_imm isz (pc + of_nat len)) s) (\<lambda>(imm, s).
        bindE (imul_ext (oval imm) isz (oval rm) ds ds) (\<lambda>p.
          let r = r\<lparr>oval := ucast p\<rparr> in
          bindE (operand_write r s) (\<lambda>s.
          bindE (print_asm_3 (len + isz div 8) imm rm r s) (\<lambda>(_, _, _, s).
            Inr (len + isz div 8, s))))))))"

definition imul_irm2r_v :: instr_func where
  "imul_irm2r_v pc opcode s = imul_irm2r (data_size s) pc s"

definition imul_i8rm2r_v :: instr_func where
  "imul_i8rm2r_v pc opcode s = imul_irm2r 8 pc s"

section \<open>\<open>div.c\<close>\<close>

definition div_mod :: "u64 \<Rightarrow> u64 \<Rightarrow> nat \<Rightarrow> mach \<Rightarrow> (u32 \<times> u32 \<times> mach) res" where
  "div_mod src dest ds s =
     bindE (alu_div src dest ds (fl s)) (\<lambda>(q, w).
     bindE (alu_mod src dest) (\<lambda>r. Inr (q, r, set_fl w s)))"

definition div_rm2a_b :: instr_func where
  "div_rm2a_b pc opcode s =
     bindE (operand_read (opr_reg 16 0) s) (\<lambda>(ax, s).
     bindE (modrm_rm (pc + 1) (opr_size 8) s) (\<lambda>(n, rm, s).
     bindE (operand_read rm s) (\<lambda>(rm, s).
     bindE (div_mod (ucast (oval rm)) (ucast (oval ax)) 8 s) (\<lambda>(q, r, s).
     bindE (operand_write ((opr_reg 8 4)\<lparr>oval := r\<rparr>) s) (\<lambda>s.
     bindE (operand_write ((opr_reg 8 0)\<lparr>oval := q\<rparr>) s) (\<lambda>s.
     bindE (print_asm_2 (1 + n) rm ax s) (\<lambda>(_, _, s). Inr (1 + n, s))))))))"

definition div_rm2a_v :: instr_func where
  "div_rm2a_v pc opcode s =
     (let ds = data_size s in
      bindE (operand_read (opr_reg ds 0) s) (\<lambda>(a, s).
      bindE (operand_read (opr_reg ds 2) s) (\<lambda>(d, s).
      bindE (modrm_rm (pc + 1) (opr_size ds) s) (\<lambda>(n, rm, s).
      bindE (operand_read rm s) (\<lambda>(rm, s).
        let dividend = (if ds = 16 then ucast (push_bit 16 (oval d) OR oval a)
                        else push_bit 32 (ucast (oval d)) OR ucast (oval a)) in
        bindE (div_mod (ucast (oval rm)) dividend ds s) (\<lambda>(q, r, s).
        bindE (print_asm_3 (1 + n) rm d a s) (\<lambda>(_, d, a, s).
        bindE (operand_write (a\<lparr>oval := q\<rparr>) s) (\<lambda>s.
        bindE (operand_write (d\<lparr>oval := r\<rparr>) s) (\<lambda>s. Inr (1 + n, s))))))))))"

section \<open>\<open>idiv.c\<close>\<close>

definition idiv_mod :: "u64 \<Rightarrow> u64 \<Rightarrow> nat \<Rightarrow> mach \<Rightarrow> (u32 \<times> u32 \<times> mach) res" where
  "idiv_mod src dest ds s =
     bindE (alu_idiv src dest ds (fl s)) (\<lambda>(q, w).
     bindE (alu_imod src dest) (\<lambda>r. Inr (q, r, set_fl w s)))"

definition idiv_rm2a_b :: instr_func where
  "idiv_rm2a_b pc opcode s =
     bindE (operand_read (opr_reg 16 0) s) (\<lambda>(ax, s).
     bindE (modrm_rm (pc + 1) (opr_size 8) s) (\<lambda>(n, rm, s).
     bindE (operand_read rm s) (\<lambda>(rm, s).
     bindE (sign_ext_64 (oval rm) 8) (\<lambda>x.
     bindE (sign_ext_64 (oval ax) 16) (\<lambda>y.
     bindE (idiv_mod x y 8 s) (\<lambda>(q, r, s).
     bindE (operand_write ((opr_reg 8 4)\<lparr>oval := r\<rparr>) s) (\<lambda>s.
     bindE (operand_write ((opr_reg 8 0)\<lparr>oval := q\<rparr>) s) (\<lambda>s.
     bindE (print_asm_2 (1 + n) rm ax s) (\<lambda>(_, _, s). Inr (1 + n, s))))))))))"

definition idiv_rm2a_v :: instr_func where
  "idiv_rm2a_v pc opcode s =
     (let ds = data_size s in
      bindE (operand_read (opr_reg ds 0) s) (\<lambda>(a, s).
      bindE (operand_read (opr_reg ds 2) s) (\<lambda>(d, s).
      bindE (modrm_rm (pc + 1) (opr_size ds) s) (\<lambda>(n, rm, s).
      bindE (operand_read rm s) (\<lambda>(rm, s).
      bindE (sign_ext_64 (oval rm) (if ds = 16 then 16 else 32)) (\<lambda>x.
      bindE (if ds = 16 then sign_ext_64 (push_bit 16 (oval d) OR oval a) 32
             else Inr (push_bit 32 (ucast (oval d)) OR ucast (oval a))) (\<lambda>y.
      bindE (idiv_mod x y ds s) (\<lambda>(q, r, s).
      bindE (print_asm_3 (1 + n) rm d a s) (\<lambda>(_, d, a, s).
      bindE (operand_write (a\<lparr>oval := q\<rparr>) s) (\<lambda>s.
      bindE (operand_write (d\<lparr>oval := r\<rparr>) s) (\<lambda>s. Inr (1 + n, s))))))))))))"

end
