(* ===== verification/X87.thy ===== *)
theory X87
  imports InstrControl Fpu
begin

text \<open>
  The x87 handlers of \<open>nemu/src/cpu/instr/x87.c\<close>. They use the global operands
  \<open>opr_src\<close> and \<open>opr_dest\<close>; a second ModR/M byte from 0xc0 on selects a stack register
  in the handlers that say so.
\<close>

section \<open>Operands\<close>

text \<open>\<open>opr_src.data_size = n; len += modrm_rm(eip + 1, &opr_src)\<close>, and the same with
  \<open>opr_dest\<close>.\<close>

definition x87_src :: "nat \<Rightarrow> u32 \<Rightarrow> mach \<Rightarrow> (nat \<times> mach) res" where
  "x87_src n pc s =
     bindE (modrm_rm (pc + 1) ((opr_src s)\<lparr>osize := n\<rparr>) s) (\<lambda>(k, opr, s).
       Inr (1 + k, s\<lparr>opr_src := opr\<rparr>))"

definition x87_dest :: "nat \<Rightarrow> u32 \<Rightarrow> mach \<Rightarrow> (nat \<times> mach) res" where
  "x87_dest n pc s =
     bindE (modrm_rm (pc + 1) ((opr_dest s)\<lparr>osize := n\<rparr>) s) (\<lambda>(k, opr, s).
       Inr (1 + k, s\<lparr>opr_dest := opr\<rparr>))"

definition x87_end :: "nat \<Rightarrow> mach \<Rightarrow> (nat \<times> mach) res" where
  "x87_end len s = bindE (print_asm_0 len s) (\<lambda>s. Inr (len, s))"

definition on_fpu :: "(FPU \<Rightarrow> FPU res) \<Rightarrow> mach \<Rightarrow> mach res" where
  "on_fpu f s = bindE (f (fpu s)) (\<lambda>x. Inr (s\<lparr>fpu := x\<rparr>))"

definition pop_fpu :: "mach \<Rightarrow> u32 \<times> mach" where
  "pop_fpu s = (let (v, f) = fpu_store (fpu s) in (v, s\<lparr>fpu := f\<rparr>))"

text \<open>A single precision operand, and a double precision operand read as two words.\<close>

definition read_m32 :: "u32 \<Rightarrow> mach \<Rightarrow> (nat \<times> u32 \<times> mach) res" where
  "read_m32 pc s =
     bindE (x87_src 32 pc s) (\<lambda>(len, s).
     bindE (read_src s) (\<lambda>s. Inr (len, oval (opr_src s), s)))"

definition read_m64 :: "u32 \<Rightarrow> mach \<Rightarrow> (nat \<times> u64 \<times> mach) res" where
  "read_m64 pc s =
     bindE (read_m32 pc s) (\<lambda>(len, lo, s).
     bindE (read_src (upd_src (\<lambda>opr. opr\<lparr>oaddr := oaddr opr + 4\<rparr>) s)) (\<lambda>s.
       Inr (len, push_bit 32 (ucast (oval (opr_src s))) OR ucast lo, s)))"

definition write_m64 :: "u64 \<Rightarrow> mach \<Rightarrow> mach res" where
  "write_m64 d s =
     bindE (write_dest (ucast d) s) (\<lambda>s.
       write_dest (ucast (drop_bit 32 d)) (upd_dest (\<lambda>opr. opr\<lparr>oaddr := oaddr opr + 4\<rparr>) s))"

text \<open>\<open>switch(instr_fetch(eip + 1, 1))\<close> over the eight register forms from \<open>b\<close>.\<close>

definition reg_form :: "u8 \<Rightarrow> u32 \<Rightarrow> mach \<Rightarrow> (nat \<Rightarrow> mach \<Rightarrow> (nat \<times> mach) res) \<Rightarrow>
    (mach \<Rightarrow> (nat \<times> mach) res) \<Rightarrow> (nat \<times> mach) res" where
  "reg_form b pc s on_reg on_mem =
     bindE (fetch8 (pc + 1) s) (\<lambda>(m, s).
       if m AND 0xf8 = b then bindE (fetch8 (pc + 1) s) (\<lambda>(m, s). on_reg (unat (m AND 7)) s)
       else on_mem s)"

definition fetch_idx :: "u32 \<Rightarrow> mach \<Rightarrow> (nat \<times> mach) res" where
  "fetch_idx pc s = bindE (fetch8 (pc + 1) s) (\<lambda>(m, s). Inr (unat (m AND 7), s))"

section \<open>Loads\<close>

definition x87_fldl :: instr_func where
  "x87_fldl pc opcode s =
     bindE (read_m64 pc s) (\<lambda>(len, d, s).
     bindE (print_asm_0 len s) (\<lambda>s. Inr (len, upd_fpu (fpu_load (double_to_float d)) s)))"

definition x87_flds :: instr_func where
  "x87_flds pc opcode s =
     bindE (read_m32 pc s) (\<lambda>(len, v, s).
     bindE (print_asm_0 len s) (\<lambda>s. Inr (len, upd_fpu (fpu_load v) s)))"

definition x87_fildl :: instr_func where
  "x87_fildl pc opcode s =
     bindE (read_m32 pc s) (\<lambda>(len, v, s). x87_end len (upd_fpu (fpu_load (int_to_float v)) s))"

definition x87_fldx :: instr_func where
  "x87_fldx pc opcode s =
     bindE (fetch8 (pc + 1) s) (\<lambda>(m, s).
       if m = 0xE8 then Inr (2, upd_fpu (fpu_load 0x3f800000) s)
       else if m \<in> {0xE9, 0xEA, 0xEB, 0xEC, 0xED} then Inl (Assert_failed ''x87_fldx'')
       else if m = 0xEE then Inr (2, upd_fpu (fpu_load 0) s)
       else
         bindE (x87_dest 16 pc s) (\<lambda>(len, s).
         bindE (read_dest s) (\<lambda>s.
           x87_end len (upd_fpu (\<lambda>f. f\<lparr>control := ucast (oval (opr_dest s))\<rparr>) s))))"

section \<open>Arithmetic\<close>

definition x87_fadds :: instr_func where
  "x87_fadds pc opcode s =
     reg_form 0xC0 pc s
       (\<lambda>idx s. bindE (on_fpu (fpu_add_idx idx 0) s) (x87_end 2))
       (\<lambda>s. bindE (read_m32 pc s) (\<lambda>(len, v, s). bindE (on_fpu (fpu_add v) s) (x87_end len)))"

text \<open>The 16-bit integer operand is extended with zeros.\<close>

definition x87_faddx :: instr_func where
  "x87_faddx pc opcode s =
     reg_form 0xC0 pc s
       (\<lambda>idx s. bindE (on_fpu (fpu_add_idx idx idx) s) (\<lambda>s. x87_end 2 (snd (pop_fpu s))))
       (\<lambda>s.
         bindE (x87_src 16 pc s) (\<lambda>(len, s).
         bindE (read_src s) (\<lambda>s.
         bindE (on_fpu (fpu_add (int_to_float (oval (opr_src s)))) s) (x87_end len))))"

definition x87_faddlx :: instr_func where
  "x87_faddlx pc opcode s =
     reg_form 0xC0 pc s
       (\<lambda>idx s. bindE (on_fpu (fpu_add_idx idx idx) s) (x87_end 2))
       (\<lambda>s. bindE (read_m64 pc s) (\<lambda>(len, d, s).
              bindE (on_fpu (fpu_add (double_to_float d)) s) (x87_end len)))"

definition x87_fsubs :: instr_func where
  "x87_fsubs pc opcode s =
     bindE (read_m32 pc s) (\<lambda>(len, v, s). bindE (on_fpu (fpu_sub v) s) (x87_end len))"

definition x87_fmuls :: instr_func where
  "x87_fmuls pc opcode s =
     bindE (read_m32 pc s) (\<lambda>(len, v, s). bindE (on_fpu (fpu_mul v) s) (x87_end len))"

definition x87_fmullx :: instr_func where
  "x87_fmullx pc opcode s =
     reg_form 0xC8 pc s
       (\<lambda>idx s. bindE (on_fpu (fpu_mul_idx idx idx) s) (x87_end 2))
       (\<lambda>s. bindE (read_m64 pc s) (\<lambda>(len, d, s).
              bindE (on_fpu (fpu_mul (double_to_float d)) s) (x87_end len)))"

definition x87_fdivs :: instr_func where
  "x87_fdivs pc opcode s =
     bindE (read_m32 pc s) (\<lambda>(len, v, s). bindE (on_fpu (fpu_div v) s) (x87_end len))"

section \<open>Stores\<close>

definition x87_fstps :: instr_func where
  "x87_fstps pc opcode s =
     bindE (x87_dest 32 pc s) (\<lambda>(len, s).
       let (v, s) = pop_fpu s in bindE (write_dest v s) (x87_end len))"

definition x87_fsts :: instr_func where
  "x87_fsts pc opcode s =
     bindE (x87_dest 32 pc s) (\<lambda>(len, s). bindE (write_dest (fpu_peek (fpu s)) s) (x87_end len))"

definition x87_fstpx :: instr_func where
  "x87_fstpx pc opcode s =
     reg_form 0xD8 pc s
       (\<lambda>idx s. x87_end 2 (snd (pop_fpu (upd_fpu (fpu_copy idx) s))))
       (\<lambda>s. bindE (x87_dest 32 pc s) (\<lambda>(len, s).
              let (v, s) = pop_fpu s in bindE (write_m64 (float_to_double v) s) (x87_end len)))"

definition x87_fstx :: instr_func where
  "x87_fstx pc opcode s =
     reg_form 0xD0 pc s
       (\<lambda>idx s. x87_end 2 (upd_fpu (fpu_copy idx) s))
       (\<lambda>s. bindE (x87_dest 32 pc s) (\<lambda>(len, s).
              bindE (write_m64 (float_to_double (fpu_peek (fpu s))) s) (x87_end len)))"

definition x87_fistpl :: instr_func where
  "x87_fistpl pc opcode s =
     bindE (x87_dest 32 pc s) (\<lambda>(len, s).
       let (u, s) = pop_fpu s in
       bindE (float_to_int u) (\<lambda>i. bindE (write_dest i s) (x87_end len)))"

definition x87_fnstcw :: instr_func where
  "x87_fnstcw pc opcode s =
     bindE (x87_dest 16 pc s) (\<lambda>(len, s).
       bindE (write_dest (ucast (control (fpu s))) s) (x87_end len))"

definition x87_fnstsw :: instr_func where
  "x87_fnstsw pc opcode s = x87_end 2 (upd_cpu (set_gpr16 0 (status (fpu s))) s)"

section \<open>Exchange and comparison\<close>

definition x87_fxch :: instr_func where
  "x87_fxch pc opcode s =
     bindE (fetch_idx pc s) (\<lambda>(idx, s). x87_end 2 (upd_fpu (fpu_xch idx) s))"

definition x87_fucompp :: instr_func where
  "x87_fucompp pc opcode s =
     x87_end 2 (snd (pop_fpu (snd (pop_fpu (upd_fpu (fpu_cmp 1) s)))))"

definition x87_fucom :: instr_func where
  "x87_fucom pc opcode s =
     bindE (fetch_idx pc s) (\<lambda>(idx, s). x87_end 2 (upd_fpu (fpu_cmp idx) s))"

definition x87_fucomi :: instr_func where
  "x87_fucomi pc opcode s =
     bindE (fetch_idx pc s) (\<lambda>(idx, s). x87_end 2 (fpu_cmpi idx s))"

definition x87_fucomip :: instr_func where
  "x87_fucomip pc opcode s =
     bindE (fetch_idx pc s) (\<lambda>(idx, s). x87_end 2 (snd (pop_fpu (fpu_cmpi idx s))))"

definition x87_fucomp :: instr_func where
  "x87_fucomp pc opcode s =
     bindE (fetch_idx pc s) (\<lambda>(idx, s). x87_end 2 (snd (pop_fpu (upd_fpu (fpu_cmp idx) s))))"

end
