(* ===== verification/Opcode.thy ===== *)
theory Opcode
  imports InstrMulDiv X87
begin

text \<open>
  The opcode tables of \<open>nemu/src/cpu/decode/opcode.c\<close> and the handlers that dispatch
  through them: \<open>group.c\<close>, \<open>opcode_2_byte.c\<close>, \<open>data_size.c\<close> and \<open>rep_repe.c\<close>. A
  prefix enters the main table again, so dispatch carries fuel: one unit for the opcode and
  one for each prefix byte, and for \<open>rep\<close> one for each iteration.
\<close>

section \<open>Groups\<close>

definition make_group_impl :: "instr_func list \<Rightarrow> instr_func" where
  "make_group_impl entries pc opcode s =
     bindE (modrm_opcode (pc + 1) s) (\<lambda>(_, op_code, s). (entries ! unat op_code) pc op_code s)"

definition group_1_b_entry :: "instr_func list" where
  "group_1_b_entry =
    [inv_opcode, or_i2rm_b, inv_opcode, inv_opcode, and_i2rm_b, inv_opcode, inv_opcode,
     cmp_i2rm_b]"

definition group_1_v_entry :: "instr_func list" where
  "group_1_v_entry =
    [add_i2rm_v, or_i2rm_v, inv_opcode, inv_opcode, and_i2rm_v, sub_i2rm_v, inv_opcode,
     cmp_i2rm_v]"

definition group_1_bv_entry :: "instr_func list" where
  "group_1_bv_entry =
    [add_si2rm_v, or_si2rm_v, adc_si2rm_v, inv_opcode, and_si2rm_v, sub_si2rm_v, inv_opcode,
     cmp_si2rm_v]"

definition group_2_b_entry :: "instr_func list" where
  "group_2_b_entry =
    [inv_opcode, inv_opcode, inv_opcode, inv_opcode, shl_i2rm_b, shr_i2rm_b, inv_opcode,
     sar_i2rm_b]"

definition group_2_v_entry :: "instr_func list" where
  "group_2_v_entry =
    [inv_opcode, inv_opcode, inv_opcode, inv_opcode, shl_i2rm_bv, shr_i2rm_bv, inv_opcode,
     sar_i2rm_bv]"

definition group_2_1b_entry :: "instr_func list" where
  "group_2_1b_entry =
    [inv_opcode, inv_opcode, inv_opcode, inv_opcode, shl_rm_b, shr_rm_b, inv_opcode, sar_rm_b]"

definition group_2_1v_entry :: "instr_func list" where
  "group_2_1v_entry =
    [inv_opcode, inv_opcode, inv_opcode, inv_opcode, shl_rm_v, shr_rm_v, inv_opcode, sar_rm_v]"

definition group_2_cb_entry :: "instr_func list" where
  "group_2_cb_entry =
    [inv_opcode, inv_opcode, inv_opcode, inv_opcode, shl_c2rm_b, inv_opcode, shr_c2rm_b,
     sar_c2rm_b]"

definition group_2_cv_entry :: "instr_func list" where
  "group_2_cv_entry =
    [inv_opcode, inv_opcode, inv_opcode, inv_opcode, shl_c2rm_bv, inv_opcode, shr_c2rm_bv,
     sar_c2rm_bv]"

definition group_3_b_entry :: "instr_func list" where
  "group_3_b_entry =
    [test_i2rm_b, inv_opcode, inv_opcode, inv_opcode, inv_opcode, imul_rm2a_b, inv_opcode,
     inv_opcode]"

definition group_3_v_entry :: "instr_func list" where
  "group_3_v_entry =
    [test_i2rm_v, inv_opcode, not_rm_v, neg_rm_v, mul_rm2a_v, imul_rm2a_v, inv_opcode,
     idiv_rm2a_v]"

definition group_5_indirect_entry :: "instr_func list" where
  "group_5_indirect_entry =
    [inc_rm_v, dec_rm_v, call_rm_near_v, inv_opcode, jmp_near_in, inv_opcode, push_rm_v,
     inv_opcode]"

definition group_7_entry :: "instr_func list" where
  "group_7_entry =
    [inv_opcode, inv_opcode, lgdt, lidt, inv_opcode, inv_opcode, inv_opcode, inv_opcode]"

definition group_x87_d8_entry :: "instr_func list" where
  "group_x87_d8_entry =
    [x87_fadds, x87_fmuls, inv_opcode, inv_opcode, x87_fsubs, inv_opcode, x87_fdivs, inv_opcode]"

definition group_x87_d9_entry :: "instr_func list" where
  "group_x87_d9_entry =
    [x87_flds, x87_fxch, x87_fsts, x87_fstps, inv_opcode, x87_fldx, inv_opcode, x87_fnstcw]"

definition group_x87_da_entry :: "instr_func list" where
  "group_x87_da_entry =
    [inv_opcode, inv_opcode, inv_opcode, inv_opcode, inv_opcode, x87_fucompp, inv_opcode,
     inv_opcode]"

definition group_x87_db_entry :: "instr_func list" where
  "group_x87_db_entry =
    [x87_fildl, inv_opcode, inv_opcode, x87_fistpl, inv_opcode, x87_fucomi, inv_opcode,
     inv_opcode]"

definition group_x87_dc_entry :: "instr_func list" where
  "group_x87_dc_entry =
    [x87_faddlx, x87_fmullx, inv_opcode, inv_opcode, inv_opcode, inv_opcode, inv_opcode,
     inv_opcode]"

definition group_x87_dd_entry :: "instr_func list" where
  "group_x87_dd_entry =
    [x87_fldl, inv_opcode, x87_fstx, x87_fstpx, x87_fucom, x87_fucomp, inv_opcode, inv_opcode]"

definition group_x87_de_entry :: "instr_func list" where
  "group_x87_de_entry =
    [x87_faddx, inv_opcode, inv_opcode, inv_opcode, inv_opcode, inv_opcode, inv_opcode,
     inv_opcode]"

definition group_x87_df_entry :: "instr_func list" where
  "group_x87_df_entry =
    [inv_opcode, inv_opcode, inv_opcode, inv_opcode, x87_fnstsw, x87_fucomip, inv_opcode,
     inv_opcode]"

definition group_1_b :: instr_func where "group_1_b = make_group_impl group_1_b_entry"
definition group_1_v :: instr_func where "group_1_v = make_group_impl group_1_v_entry"
definition group_1_bv :: instr_func where "group_1_bv = make_group_impl group_1_bv_entry"
definition group_2_b :: instr_func where "group_2_b = make_group_impl group_2_b_entry"
definition group_2_v :: instr_func where "group_2_v = make_group_impl group_2_v_entry"
definition group_2_1b :: instr_func where "group_2_1b = make_group_impl group_2_1b_entry"
definition group_2_1v :: instr_func where "group_2_1v = make_group_impl group_2_1v_entry"
definition group_2_cb :: instr_func where "group_2_cb = make_group_impl group_2_cb_entry"
definition group_2_cv :: instr_func where "group_2_cv = make_group_impl group_2_cv_entry"
definition group_3_b :: instr_func where "group_3_b = make_group_impl group_3_b_entry"
definition group_3_v :: instr_func where "group_3_v = make_group_impl group_3_v_entry"
definition group_5_indirect :: instr_func where "group_5_indirect = make_group_impl group_5_indirect_entry"
definition group_7 :: instr_func where "group_7 = make_group_impl group_7_entry"
definition group_x87_d8 :: instr_func where "group_x87_d8 = make_group_impl group_x87_d8_entry"
definition group_x87_d9 :: instr_func where "group_x87_d9 = make_group_impl group_x87_d9_entry"
definition group_x87_da :: instr_func where "group_x87_da = make_group_impl group_x87_da_entry"
definition group_x87_db :: instr_func where "group_x87_db = make_group_impl group_x87_db_entry"
definition group_x87_dc :: instr_func where "group_x87_dc = make_group_impl group_x87_dc_entry"
definition group_x87_dd :: instr_func where "group_x87_dd = make_group_impl group_x87_dd_entry"
definition group_x87_de :: instr_func where "group_x87_de = make_group_impl group_x87_de_entry"
definition group_x87_df :: instr_func where "group_x87_df = make_group_impl group_x87_df_entry"

section \<open>Two-byte opcodes\<close>

definition opcode_2_byte_entry :: "instr_func list" where
  "opcode_2_byte_entry =
    [inv_opcode, group_7, inv_opcode, inv_opcode,
     inv_opcode, inv_opcode, inv_opcode, inv_opcode,
     inv_opcode, inv_opcode, inv_opcode, inv_opcode,
     inv_opcode, inv_opcode, inv_opcode, inv_opcode,
     inv_opcode, inv_opcode, inv_opcode, inv_opcode,
     inv_opcode, inv_opcode, inv_opcode, inv_opcode,
     inv_opcode, inv_opcode, inv_opcode, inv_opcode,
     inv_opcode, inv_opcode, inv_opcode, inv_opcode,
     mov_cr2r, inv_opcode, mov_r2cr, inv_opcode,
     inv_opcode, inv_opcode, inv_opcode, inv_opcode,
     inv_opcode, inv_opcode, inv_opcode, inv_opcode,
     inv_opcode, inv_opcode, inv_opcode, inv_opcode,
     inv_opcode, inv_opcode, inv_opcode, inv_opcode,
     inv_opcode, inv_opcode, inv_opcode, inv_opcode,
     inv_opcode, inv_opcode, inv_opcode, inv_opcode,
     inv_opcode, inv_opcode, inv_opcode, inv_opcode,
     inv_opcode, inv_opcode, inv_opcode, inv_opcode,
     cmov CC_e, cmov CC_ne, inv_opcode, cmov CC_a,
     cmov CC_s, cmov CC_ns, inv_opcode, inv_opcode,
     inv_opcode, cmov CC_ge, inv_opcode, inv_opcode,
     inv_opcode, inv_opcode, inv_opcode, inv_opcode,
     inv_opcode, inv_opcode, inv_opcode, inv_opcode,
     inv_opcode, inv_opcode, inv_opcode, inv_opcode,
     inv_opcode, inv_opcode, inv_opcode, inv_opcode,
     inv_opcode, inv_opcode, inv_opcode, inv_opcode,
     inv_opcode, inv_opcode, inv_opcode, inv_opcode,
     inv_opcode, inv_opcode, inv_opcode, inv_opcode,
     inv_opcode, inv_opcode, inv_opcode, inv_opcode,
     inv_opcode, inv_opcode, inv_opcode, inv_opcode,
     inv_opcode, inv_opcode, inv_opcode, inv_opcode,
     inv_opcode, inv_opcode, inv_opcode, inv_opcode,
     inv_opcode, inv_opcode, inv_opcode, inv_opcode,
     inv_opcode, inv_opcode, jcc_near CC_b, jcc_near CC_ae,
     jcc_near CC_e, jcc_near CC_ne, jcc_near CC_na, jcc_near CC_a,
     jcc_near CC_s, jcc_near CC_ns, jcc_near CC_p, jcc_near CC_np,
     jcc_near CC_l, inv_opcode, jcc_near CC_le, jcc_near CC_g,
     inv_opcode, inv_opcode, inv_opcode, inv_opcode,
     setcc CC_e, setcc CC_ne, inv_opcode, inv_opcode,
     inv_opcode, inv_opcode, inv_opcode, inv_opcode,
     inv_opcode, inv_opcode, inv_opcode, inv_opcode,
     inv_opcode, inv_opcode, inv_opcode, bt_r2rm_v,
     inv_opcode, inv_opcode, inv_opcode, inv_opcode,
     inv_opcode, inv_opcode, inv_opcode, inv_opcode,
     inv_opcode, inv_opcode, inv_opcode, imul_rm2r_v,
     inv_opcode, inv_opcode, inv_opcode, inv_opcode,
     inv_opcode, inv_opcode, mov_zrm82r_v, mov_zrm162r_l,
     inv_opcode, inv_opcode, inv_opcode, inv_opcode,
     inv_opcode, inv_opcode, mov_srm82r_v, mov_srm162r_l,
     inv_opcode, inv_opcode, inv_opcode, inv_opcode,
     inv_opcode, inv_opcode, inv_opcode, inv_opcode,
     inv_opcode, inv_opcode, inv_opcode, inv_opcode,
     inv_opcode, inv_opcode, inv_opcode, inv_opcode,
     inv_opcode, inv_opcode, inv_opcode, inv_opcode,
     inv_opcode, inv_opcode, inv_opcode, inv_opcode,
     inv_opcode, inv_opcode, inv_opcode, inv_opcode,
     inv_opcode, inv_opcode, inv_opcode, inv_opcode,
     inv_opcode, inv_opcode, inv_opcode, inv_opcode,
     inv_opcode, inv_opcode, inv_opcode, inv_opcode,
     inv_opcode, inv_opcode, inv_opcode, inv_opcode,
     inv_opcode, inv_opcode, inv_opcode, inv_opcode,
     inv_opcode, inv_opcode, inv_opcode, inv_opcode,
     inv_opcode, inv_opcode, inv_opcode, inv_opcode,
     inv_opcode, inv_opcode, inv_opcode, inv_opcode,
     inv_opcode, inv_opcode, inv_opcode, inv_opcode]"

definition opcode_2_byte :: instr_func where
  "opcode_2_byte pc opcode s =
     bindE (fetch8 (pc + 1) s) (\<lambda>(op, s).
     bindE ((opcode_2_byte_entry ! unat op) (pc + 1) op s) (\<lambda>(len, s). Inr (1 + len, s)))"

section \<open>Prefixes\<close>

text \<open>\<open>entry\<close> is the dispatch through \<open>opcode_entry\<close>.\<close>

definition data_size_16 :: "instr_func \<Rightarrow> instr_func" where
  "data_size_16 entry pc opcode s =
     bindE (fetch8 (pc + 1) (s\<lparr>data_size := 16\<rparr>)) (\<lambda>(op_code, s).
     bindE (entry (pc + 1) op_code s) (\<lambda>(len, s). Inr (1 + len, s\<lparr>data_size := 32\<rparr>)))"

definition rep_breaks :: "u8 \<Rightarrow> mach \<Rightarrow> bool" where
  "rep_breaks op s = ((op = 0xA6 \<or> op = 0xA7 \<or> op = 0xAE \<or> op = 0xAF) \<and> fl_ZF (fl s))"

fun rep_loop :: "nat \<Rightarrow> instr_func \<Rightarrow> u32 \<Rightarrow> u8 \<Rightarrow> mach \<Rightarrow> mach res" where
  "rep_loop fuel entry pc op s =
     (if reg REG_ECX s = 0 then Inr s
      else case fuel of
        0 \<Rightarrow> Inl Out_of_fuel
      | Suc fuel' \<Rightarrow>
          bindE (entry (pc + 1) op s) (\<lambda>(_, s).
            let s = set_reg REG_ECX (reg REG_ECX s - 1) s in
            if rep_breaks op s then Inr s else rep_loop fuel' entry pc op s))"

declare rep_loop.simps [simp del]

definition rep_repe :: "nat \<Rightarrow> instr_func \<Rightarrow> instr_func" where
  "rep_repe fuel entry pc opcode s =
     bindE (fetch8 (pc + 1) s) (\<lambda>(op, s).
     bindE (print_asm_0 2 s) (\<lambda>s.
       if op = 0xc3 then bindE (entry (pc + 1) op s) (\<lambda>(_, s). Inr (0, s))
       else bindE (rep_loop fuel entry pc op s) (\<lambda>s. Inr (2, s))))"

section \<open>The main table\<close>

definition opcode_entry :: "instr_func \<Rightarrow> instr_func \<Rightarrow> instr_func list" where
  "opcode_entry prefix_66 prefix_f3 =
    [add_r2rm_b, add_r2rm_v, inv_opcode, add_rm2r_v,
     inv_opcode, add_i2a_v, inv_opcode, inv_opcode,
     inv_opcode, or_r2rm_v, or_rm2r_b, inv_opcode,
     inv_opcode, inv_opcode, inv_opcode, opcode_2_byte,
     inv_opcode, adc_r2rm_v, inv_opcode, inv_opcode,
     inv_opcode, inv_opcode, inv_opcode, inv_opcode,
     inv_opcode, inv_opcode, inv_opcode, sbb_rm2r_v,
     inv_opcode, inv_opcode, inv_opcode, inv_opcode,
     inv_opcode, and_r2rm_v, and_rm2r_b, inv_opcode,
     inv_opcode, and_i2a_v, inv_opcode, inv_opcode,
     inv_opcode, sub_r2rm_v, inv_opcode, sub_rm2r_v,
     inv_opcode, sub_i2a_v, inv_opcode, inv_opcode,
     inv_opcode, xor_r2rm_v, inv_opcode, inv_opcode,
     inv_opcode, inv_opcode, inv_opcode, inv_opcode,
     inv_opcode, cmp_r2rm_v, cmp_rm2r_b, cmp_rm2r_v,
     cmp_i2a_b, cmp_i2a_v, inv_opcode, inv_opcode,
     inc_r_v, inc_r_v, inc_r_v, inc_r_v,
     inc_r_v, inc_r_v, inc_r_v, inc_r_v,
     dec_r_v, dec_r_v, dec_r_v, dec_r_v,
     dec_r_v, dec_r_v, dec_r_v, dec_r_v,
     push_r_v, push_r_v, push_r_v, push_r_v,
     push_r_v, push_r_v, push_r_v, push_r_v,
     pop_2r_v, pop_2r_v, pop_2r_v, pop_2r_v,
     pop_2r_v, pop_2r_v, pop_2r_v, pop_2r_v,
     pusha, popa, inv_opcode, inv_opcode,
     inv_opcode, inv_opcode, prefix_66, inv_opcode,
     push_i_v, imul_irm2r_v, push_i_b, imul_i8rm2r_v,
     inv_opcode, inv_opcode, inv_opcode, inv_opcode,
     inv_opcode, inv_opcode, jcc_short CC_b, jcc_short CC_ae,
     jcc_short CC_e, jcc_short CC_ne, jcc_short CC_na, jcc_short CC_a,
     jcc_short CC_s, jcc_short CC_ns, jcc_short CC_p, jcc_short CC_np,
     jcc_short CC_l, jcc_short CC_ge, jcc_short CC_le, jcc_short CC_g,
     group_1_b, group_1_v, nemu_trap, group_1_bv,
     test_r2rm_b, test_r2rm_v, inv_opcode, inv_opcode,
     mov_r2rm_b, mov_r2rm_v, mov_rm2r_b, mov_rm2r_v,
     inv_opcode, lea_rm2r_v, mov_rm2sr_v, inv_opcode,
     nop, inv_opcode, inv_opcode, inv_opcode,
     xchg_esp, inv_opcode, inv_opcode, inv_opcode,
     cbw_a_v, cltd, inv_opcode, inv_opcode,
     inv_opcode, inv_opcode, sahf, inv_opcode,
     mov_o2a_b, mov_o2a_v, mov_a2o_b, mov_a2o_v,
     movs_b, movs_v, cmps_b, cmps_v,
     test_i2a_b, test_i2a_v, stos_b, stos_v,
     inv_opcode, inv_opcode, inv_opcode, inv_opcode,
     mov_i2r_b, mov_i2r_b, mov_i2r_b, mov_i2r_b,
     mov_i2r_b, mov_i2r_b, mov_i2r_b, mov_i2r_b,
     mov_i2r_v, mov_i2r_v, mov_i2r_v, mov_i2r_v,
     mov_i2r_v, mov_i2r_v, mov_i2r_v, mov_i2r_v,
     group_2_b, group_2_v, ret_near_i, ret_near,
     inv_opcode, inv_opcode, mov_i2rm_b, mov_i2rm_v,
     inv_opcode, leave_v, inv_opcode, inv_opcode,
     inv_opcode, instr_int, inv_opcode, iret,
     group_2_1b, group_2_1v, group_2_cb, group_2_cv,
     inv_opcode, inv_opcode, inv_opcode, inv_opcode,
     group_x87_d8, group_x87_d9, group_x87_da, group_x87_db,
     group_x87_dc, group_x87_dd, group_x87_de, group_x87_df,
     inv_opcode, inv_opcode, inv_opcode, inv_opcode,
     inv_opcode, inv_opcode, inv_opcode, inv_opcode,
     call_rel_v, jmp_near, jmp_long, jmp_short,
     in_d2a_b, in_d2a_v, out_a2d_b, inv_opcode,
     inv_opcode, break_point, inv_opcode, prefix_f3,
     hlt, inv_opcode, group_3_b, group_3_v,
     clc, inv_opcode, cli, sti,
     cld, inv_opcode, inv_opcode, group_5_indirect]"

fun run_opcode :: "nat \<Rightarrow> instr_func" where
  "run_opcode 0 pc opcode s = Inl Out_of_fuel"
| "run_opcode (Suc fuel) pc opcode s =
     (opcode_entry (data_size_16 (run_opcode fuel)) (rep_repe fuel (run_opcode fuel)) ! unat opcode)
       pc opcode s"

section \<open>\<open>exec_inst\<close>\<close>

definition exec_inst :: "nat \<Rightarrow> mach \<Rightarrow> (nat \<times> mach) res" where
  "exec_inst fuel s =
     bindE (fetch8 (eip (cpu s)) s) (\<lambda>(opcode, s). run_opcode fuel (eip (cpu s)) opcode s)"

end
