(* ===== verification/KDisk.thy ===== *)
theory KDisk
  imports Opcode
begin

text \<open>
  The kernel's disk driver, \<open>kernel/src/driver/ide/disk.c\<close> with the interrupt flag of
  \<open>ide.c\<close>, running on the emulated port bus. Between any two port accesses a timer tick may
  arrive, and a pending interrupt is taken after the access when the CPU allows it; the
  handlers behind the interrupt table are an argument \<open>h\<close> of the operations. Reading a sector works as
  long as no tick arrives in the instant of the read command; a tick there overwrites the drive's interrupt in
  the controller. Writing stops the emulator, which has no 4-byte \<open>out\<close>.
\<close>

section \<open>Port accesses and interrupts of the guest\<close>

text \<open>\<open>ticks\<close>: whether the timer ticks during each of the coming port accesses.\<close>

record kdisk =
  dev :: mach
  has_ide_intr :: bool
  ticks :: "bool list"

type_synonym irq_handler = "u8 \<Rightarrow> kdisk \<Rightarrow> kdisk res"

definition ide_intr :: "kdisk \<Rightarrow> kdisk" where
  "ide_intr k = k\<lparr>has_ide_intr := True\<rparr>"

definition clear_ide_intr :: "kdisk \<Rightarrow> kdisk" where
  "clear_ide_intr k = k\<lparr>has_ide_intr := False\<rparr>"

definition arrive :: "kdisk \<Rightarrow> kdisk" where
  "arrive k =
     (case ticks k of [] \<Rightarrow> k
      | t # ts \<Rightarrow> k\<lparr>ticks := ts, dev := (if t then timer_intr (dev k) else dev k)\<rparr>)"

text \<open>Interrupt gates clear the interrupt flag, the return restores it.\<close>

definition irq_point :: "irq_handler \<Rightarrow> kdisk \<Rightarrow> kdisk res" where
  "irq_point h k =
     (let k = arrive k; m = dev k in
      if intr (cpu m) \<noteq> 0 \<and> fl_IF (fl m) then
        bindE (h (i8259_query_intr_no m)
                (k\<lparr>dev := set_fl (put_IF False (fl m)) (i8259_ack_intr m)\<rparr>))
          (\<lambda>k. Inr (k\<lparr>dev := set_fl (fl m) (dev k)\<rparr>))
      else Inr k)"

text \<open>
  One byte goes out by opcode \<open>0xEE\<close>. \<open>out_long\<close> is opcode \<open>0xEF\<close>, which the emulator dispatches to \<open>inv\<close>.
\<close>

definition k_out :: "irq_handler \<Rightarrow> u16 \<Rightarrow> nat \<Rightarrow> u32 \<Rightarrow> kdisk \<Rightarrow> kdisk res" where
  "k_out h port len d k =
     bindE (if len = 1 then pio_write port 1 d (dev k)
            else bindE (inv_opcode (eip (cpu (dev k))) 0xEF (dev k)) (\<lambda>(_, m). Inr m))
       (\<lambda>m. irq_point h (k\<lparr>dev := m\<rparr>))"

lemma out_opcodes: "opcode_entry p q ! 0xEE = out_a2d_b" "opcode_entry p q ! 0xEF = inv_opcode"
  by (simp_all add: opcode_entry_def)

lemma inv_opcode_stops: "\<exists>e. inv_opcode pc opcode m = Inl e"
  by (auto simp: inv_opcode_def bindE_def split: sum.splits)

definition k_in :: "irq_handler \<Rightarrow> u16 \<Rightarrow> nat \<Rightarrow> kdisk \<Rightarrow> (u32 \<times> kdisk) res" where
  "k_in h port len k =
     bindE (pio_read port len (dev k)) (\<lambda>(d, m).
     bindE (irq_point h (k\<lparr>dev := m\<rparr>)) (\<lambda>k. Inr (d, k)))"

text \<open>The instruction \<open>hlt\<close>, waking up with an interrupt.\<close>

definition k_hlt :: "irq_handler \<Rightarrow> kdisk \<Rightarrow> kdisk res" where
  "k_hlt h k = bindE (wait_intr (pending (dev k)) (dev k)) (\<lambda>m. irq_point h (k\<lparr>dev := m\<rparr>))"

section \<open>\<open>disk.c\<close>\<close>

text \<open>The two waiting loops poll up to \<open>wait_fuel\<close> times.\<close>

abbreviation (input) "wait_fuel \<equiv> 1000 :: nat"

fun waitdisk :: "nat \<Rightarrow> irq_handler \<Rightarrow> kdisk \<Rightarrow> kdisk res" where
  "waitdisk fuel h k =
     bindE (k_in h (IDE_PORT_BASE + 7) 1 k) (\<lambda>(d, k).
       if d AND (0x80 OR 0x40) \<noteq> 0x40 then
         (case fuel of 0 \<Rightarrow> Inl Out_of_fuel | Suc fuel' \<Rightarrow> waitdisk fuel' h k)
       else Inr k)"

fun wait_ide_loop :: "nat \<Rightarrow> irq_handler \<Rightarrow> kdisk \<Rightarrow> kdisk res" where
  "wait_ide_loop fuel h k =
     (if \<not> has_ide_intr k then
        (case fuel of 0 \<Rightarrow> Inl Out_of_fuel
         | Suc fuel' \<Rightarrow> bindE (k_hlt h k) (wait_ide_loop fuel' h))
      else Inr k)"

declare waitdisk.simps [simp del] wait_ide_loop.simps [simp del]

definition wait_ide_intr :: "irq_handler \<Rightarrow> kdisk \<Rightarrow> kdisk res" where
  "wait_ide_intr h k = bindE (wait_ide_loop wait_fuel h k) (\<lambda>k. Inr (clear_ide_intr k))"

definition ide_prepare :: "irq_handler \<Rightarrow> u32 \<Rightarrow> kdisk \<Rightarrow> kdisk res" where
  "ide_prepare h sec k =
     bindE (waitdisk wait_fuel h k) (\<lambda>k.
     bindE (k_out h (IDE_PORT_BASE + 1) 1 0 k) (\<lambda>k.
     bindE (k_out h (IDE_PORT_BASE + 2) 1 1 k) (\<lambda>k.
     bindE (k_out h (IDE_PORT_BASE + 3) 1 (sec AND 0xFF) k) (\<lambda>k.
     bindE (k_out h (IDE_PORT_BASE + 4) 1 (drop_bit 8 sec AND 0xFF) k) (\<lambda>k.
     bindE (k_out h (IDE_PORT_BASE + 5) 1 (drop_bit 16 sec AND 0xFF) k) (\<lambda>k.
       k_out h (IDE_PORT_BASE + 6) 1 (0xE0 OR (drop_bit 24 sec AND 0xFF)) k))))))"

definition issue_read :: "irq_handler \<Rightarrow> kdisk \<Rightarrow> kdisk res" where
  "issue_read h k = k_out h (IDE_PORT_BASE + 7) 1 0x20 k"

definition issue_write :: "irq_handler \<Rightarrow> kdisk \<Rightarrow> kdisk res" where
  "issue_write h k = k_out h (IDE_PORT_BASE + 7) 1 0x30 k"

fun read_words :: "irq_handler \<Rightarrow> nat list \<Rightarrow> (nat \<Rightarrow> u8) \<Rightarrow> kdisk \<Rightarrow> ((nat \<Rightarrow> u8) \<times> kdisk) res" where
  "read_words h [] buf k = Inr (buf, k)"
| "read_words h (i # is) buf k =
     bindE (k_in h IDE_PORT_BASE 4 k) (\<lambda>(d, k). read_words h is (store_bytes buf (4 * i) 4 d) k)"

fun write_words :: "irq_handler \<Rightarrow> nat list \<Rightarrow> (nat \<Rightarrow> u8) \<Rightarrow> kdisk \<Rightarrow> kdisk res" where
  "write_words h [] buf k = Inr k"
| "write_words h (i # is) buf k =
     bindE (k_out h IDE_PORT_BASE 4 (le_read (\<lambda>j. buf (4 * i + j)) 4) k) (write_words h is buf)"

definition disk_do_read :: "irq_handler \<Rightarrow> (nat \<Rightarrow> u8) \<Rightarrow> u32 \<Rightarrow> kdisk \<Rightarrow> ((nat \<Rightarrow> u8) \<times> kdisk) res" where
  "disk_do_read h buf sec k =
     bindE (ide_prepare h sec (clear_ide_intr k)) (\<lambda>k.
     bindE (issue_read h k) (\<lambda>k.
     bindE (wait_ide_intr h k) (\<lambda>k.
       read_words h [0..<512 div 4] buf k)))"

definition disk_do_write :: "irq_handler \<Rightarrow> (nat \<Rightarrow> u8) \<Rightarrow> u32 \<Rightarrow> kdisk \<Rightarrow> kdisk res" where
  "disk_do_write h buf sec k =
     bindE (ide_prepare h sec k) (\<lambda>k.
     bindE (issue_write h k) (\<lambda>k.
       write_words h [0..<512 div 4] buf k))"

section \<open>Port accesses without interrupts\<close>

definition quiet :: "kdisk \<Rightarrow> bool" where
  "quiet k \<longleftrightarrow> ticks k = [] \<and> intr (cpu (dev k)) = 0"

lemma irq_point_quiet [simp]: "quiet k \<Longrightarrow> irq_point h k = Inr k"
  by (simp add: irq_point_def arrive_def quiet_def)

section \<open>Port accesses with timer ticks\<close>

text \<open>
  A tick is taken at once and its handlers leave driver and drive alone: the access consumes one entry of
  \<open>ticks\<close> and the controller's number may be cleared.
\<close>

definition timer_served :: "irq_handler \<Rightarrow> bool" where
  "timer_served h \<longleftrightarrow> (\<forall>k. h 32 k = Inr k)"

definition settle :: "kdisk \<Rightarrow> kdisk" where
  "settle k = k\<lparr>ticks := tl (ticks k),
     dev := (if ticks k \<noteq> [] \<and> hd (ticks k) \<and> nemu_state (dev k) = NEMU_RUN then (dev k)\<lparr>pic_intr_no := 0xff\<rparr> else dev k)\<rparr>"

lemma settle_simps [simp]:
  "ticks (settle k) = tl (ticks k)" "has_ide_intr (settle k) = has_ide_intr k"
  "ide (dev (settle k)) = ide (dev k)" "cpu (dev (settle k)) = cpu (dev k)" "io_port (dev (settle k)) = io_port (dev k)"
  "nemu_state (dev (settle k)) = nemu_state (dev k)" "pending (dev (settle k)) = pending (dev k)"
  by (simp_all add: settle_def)

lemma irq_point_settle:
  assumes "intr (cpu (dev k)) = 0" and "fl_IF (fl (dev k))" and "timer_served h"
  shows "irq_point h k = Inr (settle k)"
proof (cases "ticks k")
  case Nil
  then show ?thesis using assms by (simp add: irq_point_def arrive_def settle_def)
next
  case (Cons t ts)
  have c: "(cpu m)\<lparr>intr := 0, eflags := eflags (cpu m)\<rparr> = cpu m" if "intr (cpu m) = 0" for m
    using that by (cases "cpu m") simp
  show ?thesis
    using assms c [OF assms(1)] Cons
    by (auto simp: irq_point_def arrive_def settle_def timer_intr_def timer_served_def Let_def
        i8259_raise_intr_def i8259_ack_intr_def i8259_query_intr_no_def upd_cpu_def set_fl_def)
qed

text \<open>The driver may start a command: the drive is ready and the disk small enough to address.\<close>

definition drive_ready :: "kdisk \<Rightarrow> bool" where
  "drive_ready k \<longleftrightarrow> intr (cpu (dev k)) = 0 \<and> fl_IF (fl (dev k)) \<and> byte_cnt (ide (dev k)) \<le> 512 \<and>
     io_port (dev k) 0x1F7 AND 0xC0 = 0x40 \<and> length (disk (ide (dev k))) \<le> 2 ^ 32"

lemma le_read_1: "le_read f 1 = ucast (f 0)"
  by (simp add: le_read.simps numeral_eq_Suc)

definition set_port8 :: "nat \<Rightarrow> u32 \<Rightarrow> kdisk \<Rightarrow> kdisk" where
  "set_port8 p d k = k\<lparr>dev := (dev k)\<lparr>io_port := (io_port (dev k))(p := ucast d)\<rparr>\<rparr>"

lemma store_byte: "store_bytes f a 1 d = f(a := ucast d)"
proof
  show "store_bytes f a 1 d i = (f(a := ucast d)) i" for i
    by (cases "i = a") (auto simp: store_bytes_def byte_of_def)
qed

lemma ide_port:
  "port \<in> {0x1F0, 0x1F1, 0x1F2, 0x1F3, 0x1F4, 0x1F5, 0x1F6, 0x1F7} \<Longrightarrow>
   map_of pio_handler_table port = Some Handler_ide"
  by (elim insertE) (simp_all add: pio_handler_table_def)

lemma set_port8_simps [simp]:
  "quiet (set_port8 p d k) = quiet k" "ticks (set_port8 p d k) = ticks k" "ide (dev (set_port8 p d k)) = ide (dev k)"
  "has_ide_intr (set_port8 p d k) = has_ide_intr k" "cpu (dev (set_port8 p d k)) = cpu (dev k)"
  "io_port (dev (set_port8 p d k)) q = (if p = q then ucast d else io_port (dev k) q)"
  "nemu_state (dev (set_port8 p d k)) = nemu_state (dev k)" "pending (dev (set_port8 p d k)) = pending (dev k)"
  by (simp_all add: quiet_def set_port8_def)

lemma k_out_param:
  assumes "intr (cpu (dev k)) = 0" and "fl_IF (fl (dev k))" and "byte_cnt (ide (dev k)) \<le> 512" and "timer_served h"
    and "port \<in> {0x1F1, 0x1F2, 0x1F3, 0x1F4, 0x1F5, 0x1F6}"
  shows "k_out h port 1 d k = Inr (settle (set_port8 (unat port) d k))"
proof -
  have p: "map_of pio_handler_table port = Some Handler_ide" using assms(5) by (intro ide_port) auto
  have "port \<noteq> 0x1F0" "port \<noteq> 0x1F7" "unat port + 1 \<le> 65536" using assms(5) by (elim insertE; simp)+
  then have "pio_write port 1 d (dev k) = Inr (dev (set_port8 (unat port) d k))"
    using assms(3) by (simp add: pio_write_def write_io_port_def p run_handler_def handler_ide_def
        store_byte [unfolded One_nat_def] set_port8_def)
  moreover have "irq_point h (set_port8 (unat port) d k) = Inr (settle (set_port8 (unat port) d k))"
    using assms(1,2,4) by (intro irq_point_settle) simp_all
  ultimately show ?thesis by (simp add: k_out_def set_port8_def)
qed

lemma port_7: "map_of pio_handler_table 0x1F7 = Some Handler_ide" by (rule ide_port) simp
lemma port_0: "map_of pio_handler_table 0x1F0 = Some Handler_ide" by (rule ide_port) simp

lemma waitdisk_ready:
  assumes "drive_ready k" and "timer_served h"
  shows "waitdisk fuel h k = Inr (settle k)"
proof -
  have k: "intr (cpu (dev k)) = 0" "fl_IF (fl (dev k))" "byte_cnt (ide (dev k)) \<le> 512" "io_port (dev k) 0x1F7 AND 0xC0 = 0x40"
    using assms(1) by (simp_all add: drive_ready_def)
  have "ucast (io_port (dev k) 0x1F7) AND (0xC0 :: u32) = ucast (io_port (dev k) 0x1F7 AND 0xC0)"
    by (simp add: unsigned_and_eq)
  then have "ucast (io_port (dev k) 0x1F7) AND (0xC0 :: u32) = 0x40" by (simp add: k(4))
  moreover have "k_in h 0x1F7 1 k = Inr (ucast (io_port (dev k) 0x1F7), settle k)"
    using k irq_point_settle [OF k(1,2) assms(2)]
    by (simp add: k_in_def pio_read_def port_7 run_handler_def handler_ide_def read_io_port_def
        le_read_1 [unfolded One_nat_def])
  ultimately show ?thesis by (subst waitdisk.simps) simp
qed

text \<open>The state after \<open>ide_prepare\<close>: the sector number in the four ports, seven accesses later.\<close>

definition prepared :: "u32 \<Rightarrow> kdisk \<Rightarrow> kdisk" where
  "prepared sec k =
     settle (set_port8 0x1F6 (0xE0 OR (drop_bit 24 sec AND 0xFF)) (settle (set_port8 0x1F5 (drop_bit 16 sec AND 0xFF)
       (settle (set_port8 0x1F4 (drop_bit 8 sec AND 0xFF) (settle (set_port8 0x1F3 (sec AND 0xFF)
         (settle (set_port8 0x1F2 1 (settle (set_port8 0x1F1 0 (settle k))))))))))))"

lemma prepared_simps [simp]:
  "ticks (prepared sec k) = drop 7 (ticks k)" "ide (dev (prepared sec k)) = ide (dev k)"
  "has_ide_intr (prepared sec k) = has_ide_intr k" "cpu (dev (prepared sec k)) = cpu (dev k)"
  "nemu_state (dev (prepared sec k)) = nemu_state (dev k)" "pending (dev (prepared sec k)) = pending (dev k)"
  by (simp_all add: prepared_def drop_Suc numeral_eq_Suc)

lemma ide_prepare_ready:
  assumes "drive_ready k" and "timer_served h"
  shows "ide_prepare h sec k = Inr (prepared sec k)"
proof -
  have k: "intr (cpu (dev k)) = 0" "fl_IF (fl (dev k))" "byte_cnt (ide (dev k)) \<le> 512"
    using assms(1) by (simp_all add: drive_ready_def)
  show ?thesis
    unfolding ide_prepare_def waitdisk_ready [OF assms] prepared_def
    by (simp add: k assms(2) k_out_param [unfolded One_nat_def])
qed


section \<open>Reading a sector\<close>

definition port_sector :: "mach \<Rightarrow> u32" where
  "port_sector m =
     push_bit 24 (ucast (io_port m 0x1F6) AND 0x1F) OR push_bit 16 (ucast (io_port m 0x1F5)) OR
     push_bit 8 (ucast (io_port m 0x1F4)) OR ucast (io_port m 0x1F3)"

lemma and_FF: "x AND 0xFF = take_bit 8 x" for x :: u32
  by (simp add: take_bit_eq_mask mask_eq_exp_minus_1)

lemma and_1F: "x AND 0x1F = take_bit 5 x" for x :: u32
  by (simp add: take_bit_eq_mask mask_eq_exp_minus_1)

lemma low_byte: "(ucast (x AND 0xFF) :: u8) = ucast x" for x :: u32
  unfolding and_FF by (rule bit_word_eqI) (simp add: bit_ucast_iff bit_take_bit_iff)

lemma port_sector_prepared:
  fixes sec :: u32
  assumes "unat sec < 2 ^ 29"
  shows "port_sector (dev (prepared sec k)) = sec"
proof -
  let ?b = "\<lambda>i. byte_of i sec"
  have hi: "n < 29" if "bit sec n" for n
  proof -
    have "take_bit 29 sec = sec"
      using assms by (simp add: word_unat_eq_iff unsigned_take_bit_eq take_bit_nat_eq_self)
    then show ?thesis using that by (metis bit_take_bit_iff)
  qed
  have "ucast (?b 3) AND (0x1F :: u32) = ucast (?b 3)"
    unfolding and_1F
    by (rule bit_word_eqI) (auto simp: bit_take_bit_iff bit_ucast_iff bit_byte_of dest: hi)
  moreover have "(0xE0 :: u32) AND 0x1F = 0" by simp
  ultimately have "ucast (0xE0 OR ?b 3) AND (0x1F :: u32) = ucast (?b 3)"
    by (simp add: unsigned_or_eq bit.conj_disj_distrib2)
  then have "port_sector (dev (prepared sec k)) =
      push_bit 24 (ucast (?b 3)) OR push_bit 16 (ucast (?b 2)) OR push_bit 8 (ucast (?b 1)) OR ucast (?b 0)"
    by (simp add: port_sector_def prepared_def low_byte unsigned_or_eq byte_of_def)
  also have "\<dots> = le_read ?b 4"
    by (simp add: le_read.simps numeral_eq_Suc push_bit_or ac_simps)
  finally show ?thesis by simp
qed

definition sector_ok :: "u32 \<Rightarrow> kdisk \<Rightarrow> bool" where
  "sector_ok sec k \<longleftrightarrow> 512 * (unat sec + 1) \<le> length (disk (ide (dev k)))"

text \<open>In the middle of a transfer, after \<open>j\<close> words.\<close>

definition transfer :: "u8 list \<Rightarrow> nat \<Rightarrow> nat \<Rightarrow> kdisk \<Rightarrow> bool" where
  "transfer d p j k \<longleftrightarrow>
     intr (cpu (dev k)) = 0 \<and> fl_IF (fl (dev k)) \<and> disk (ide (dev k)) = d \<and> length d \<le> 2 ^ 32 \<and>
     byte_cnt (ide (dev k)) = of_nat (4 * j) \<and> \<not> ide_write (ide (dev k)) \<and>
     disk_pos (ide (dev k)) = p + 4 * j \<and> io_port (dev k) 0x1F7 AND 0xC0 = 0x40"

lemma sector_small:
  assumes "drive_ready k" and "sector_ok sec k"
  shows "unat sec < 2 ^ 23" and "unat (push_bit 9 sec) = 512 * unat sec"
proof -
  have "512 * (unat sec + 1) \<le> 2 ^ 32" using assms unfolding drive_ready_def sector_ok_def by linarith
  then show s: "unat sec < 2 ^ 23" by simp
  then show "unat (push_bit 9 sec) = 512 * unat sec"
    by (simp add: push_bit_eq_mult unat_word_ariths)
qed


definition seek :: "u32 \<Rightarrow> bool \<Rightarrow> IDE \<Rightarrow> IDE" where
  "seek sec wr d = d\<lparr>sector := sec, disk_idx := push_bit 9 sec, disk_pos := unat (push_bit 9 sec),
                     byte_cnt := 0, ide_write := wr\<rparr>"

lemma ide_command_read:
  assumes "io_port m 0x1F7 = 0x20"
  shows "ide_command m = Inr (i8259_raise_intr 14
           (m\<lparr>ide := seek (port_sector m) False (ide m), io_port := (io_port m)(0x1F7 := 0x40)\<rparr>))"
  using assms
  by (simp add: ide_command_def read_io_port_def le_read_1 [unfolded One_nat_def] write_io_port_def
      store_byte [unfolded One_nat_def] upd_ide_def seek_def port_sector_def Let_def)

lemma ide_command_write:
  assumes "io_port m 0x1F7 = 0x30"
  shows "ide_command m = Inr (m\<lparr>ide := seek (port_sector m) True (ide m)\<rparr>)"
  using assms
  by (simp add: ide_command_def read_io_port_def le_read_1 [unfolded One_nat_def]
      upd_ide_def seek_def port_sector_def Let_def)

lemma pio_write_command:
  assumes "byte_cnt (ide (dev k)) \<le> 512"
  shows "pio_write 0x1F7 1 c (dev k) = ide_command (dev (set_port8 0x1F7 c k))"
  using assms
  by (simp add: pio_write_def write_io_port_def port_7 run_handler_def handler_ide_def
      store_byte [unfolded One_nat_def] set_port8_def)

lemma port_sector_set_7 [simp]: "port_sector (dev (set_port8 0x1F7 c k)) = port_sector (dev k)"
  by (simp add: port_sector_def)

text \<open>Vector 46, the disk's interrupt, runs \<open>ide_intr\<close>.\<close>

definition ide_served :: "irq_handler \<Rightarrow> bool" where
  "ide_served h \<longleftrightarrow> (\<forall>k. h 46 k = Inr (ide_intr k))"

text \<open>The interrupt table after \<open>init_ide\<close>; \<open>other\<close> handles the remaining vectors.\<close>

definition with_ide_intr :: "irq_handler \<Rightarrow> irq_handler" where
  "with_ide_intr other no k = (if no = 46 then Inr (ide_intr k) else other no k)"

lemma ide_served_table [simp]: "ide_served (with_ide_intr other)"
  by (simp add: ide_served_def with_ide_intr_def)

lemma timer_served_table [simp]: "timer_served (with_ide_intr other) = timer_served other"
  by (simp add: timer_served_def with_ide_intr_def)

text \<open>The next access is not disturbed by a tick.\<close>

abbreviation tick_next :: "kdisk \<Rightarrow> bool" where
  "tick_next k \<equiv> ticks k \<noteq> [] \<and> hd (ticks k)"

lemma irq_point_ide:
  assumes "\<not> tick_next k" and "intr (cpu (dev k)) \<noteq> 0" and "fl_IF (fl (dev k))"
    and "pic_intr_no (dev k) = 46" and "ide_served h"
  shows "irq_point h k = Inr (ide_intr (k\<lparr>ticks := tl (ticks k), dev := i8259_ack_intr (dev k)\<rparr>))"
  using assms
  by (cases "ticks k") (simp_all add: ide_served_def irq_point_def arrive_def Let_def i8259_query_intr_no_def
      ide_intr_def i8259_ack_intr_def set_fl_def upd_cpu_def)

text \<open>The drive after the command, with its interrupt raised in the controller.\<close>

definition commanded :: "u32 \<Rightarrow> kdisk \<Rightarrow> mach" where
  "commanded sec k = (let m = dev (set_port8 0x1F7 0x20 (prepared sec k)) in
     i8259_raise_intr 14 (m\<lparr>ide := seek sec False (ide (dev k)), io_port := (io_port m)(0x1F7 := 0x40)\<rparr>))"

lemma read_command:
  assumes "drive_ready k" and "sector_ok sec k"
  shows "issue_read h (prepared sec k) = irq_point h ((prepared sec k)\<lparr>dev := commanded sec k\<rparr>)"
proof -
  have "port_sector (dev (prepared sec k)) = sec"
    using sector_small(1) [OF assms] by (intro port_sector_prepared) simp
  then have "pio_write 0x1F7 1 0x20 (dev (prepared sec k)) = Inr (commanded sec k)"
    using assms(1) ide_command_read [of "dev (set_port8 0x1F7 0x20 (prepared sec k))"]
    by (simp add: pio_write_command [unfolded One_nat_def] drive_ready_def commanded_def Let_def)
  then show ?thesis by (simp add: issue_read_def k_out_def)
qed

lemma issue_read_ready:
  assumes "drive_ready k" and "sector_ok sec k" and h: "ide_served h" and "\<not> (7 < length (ticks k) \<and> ticks k ! 7)"
  obtains k' where "issue_read h (prepared sec k) = Inr k'" and "has_ide_intr k'" and "ticks k' = drop 8 (ticks k)"
    and "transfer (disk (ide (dev k))) (512 * unat sec) 0 k'"
proof -
  note sec = sector_small [OF assms(1,2)]
  have k: "fl_IF (fl (dev k))" "length (disk (ide (dev k))) \<le> 2 ^ 32"
    using assms(1) by (simp_all add: drive_ready_def)
  let ?k = "(prepared sec k)\<lparr>dev := commanded sec k\<rparr>"
  have "\<not> tick_next ?k" using assms(4) by (auto simp: hd_drop_conv_nth)
  then have "issue_read h (prepared sec k) =
      Inr (ide_intr (?k\<lparr>ticks := tl (ticks ?k), dev := i8259_ack_intr (commanded sec k)\<rparr>))"
    using k h irq_point_ide [of ?k h]
    by (simp add: read_command [OF assms(1,2)] commanded_def Let_def i8259_raise_intr_def upd_cpu_def)
  moreover have "transfer (disk (ide (dev k))) (512 * unat sec) 0
      (ide_intr (?k\<lparr>ticks := tl (ticks ?k), dev := i8259_ack_intr (commanded sec k)\<rparr>))"
    using k sec(2)
    by (simp add: transfer_def ide_intr_def i8259_ack_intr_def i8259_raise_intr_def commanded_def
        upd_cpu_def seek_def Let_def)
  ultimately show thesis using that by (simp add: ide_intr_def tl_drop drop_Suc numeral_eq_Suc)
qed

lemma unat_count: "j \<le> 128 \<Longrightarrow> unat (of_nat (4 * j) :: u32) = 4 * j"
  by (simp only: unsigned_of_nat) (simp add: take_bit_nat_eq_self)

lemma count_simps:
  assumes "j < 128"
  shows "(of_nat (4 * j) :: u32) \<le> 512" and "(of_nat (4 * Suc j) :: u32) = 512 \<longleftrightarrow> Suc j = 128"
    and "(of_nat (4 * j) :: u32) + 4 = of_nat (4 * Suc j)"
proof -
  show "(of_nat (4 * j) :: u32) \<le> 512" "(of_nat (4 * Suc j) :: u32) = 512 \<longleftrightarrow> Suc j = 128"
    using assms unat_count [of j] unat_count [of "Suc j"]
    by (simp_all only: word_le_nat_alt word_unat_eq_iff) simp_all
qed simp

text \<open>Counting a word changes the status port at most.\<close>

lemma count_word_run:
  assumes "byte_cnt (ide m) = of_nat (4 * j)" and "j < 128"
  shows "count_word m = Inr (m\<lparr>ide := (ide m)\<lparr>byte_cnt := of_nat (4 * Suc j)\<rparr>,
           io_port := (if Suc j = 128 then (io_port m)(0x1F7 := 0x40) else io_port m)\<rparr>)"
  using assms(1) count_simps [OF assms(2)]
  by (simp add: count_word_def upd_ide_def write_io_port_def store_byte [unfolded One_nat_def] del: of_nat_mult)

lemma pio_read_word:
  assumes "transfer d p j k" and "j < 128" and "p + 512 \<le> length d"
  obtains m' where "pio_read 0x1F0 4 (dev k) = Inr (le_read (\<lambda>i. d ! (p + 4 * j + i)) 4, m')"
    and "transfer d p (Suc j) (k\<lparr>dev := m'\<rparr>)"
proof -
  let ?m = "dev k" and ?w = "le_read (\<lambda>i. d ! (p + 4 * j + i)) 4"
  define m where "m = ?m\<lparr>ide := (ide ?m)\<lparr>disk_pos := p + 4 * j + 4\<rparr>,
    io_port := store_bytes (io_port ?m) 0x1F0 4 ?w\<rparr>"
  define m' where "m' = m\<lparr>ide := (ide m)\<lparr>byte_cnt := of_nat (4 * Suc j)\<rparr>,
    io_port := (if Suc j = 128 then (io_port m)(0x1F7 := 0x40) else io_port m)\<rparr>"
  have t: "intr (cpu ?m) = 0" "fl_IF (fl ?m)" "disk (ide ?m) = d" "length d \<le> 2 ^ 32"
    "byte_cnt (ide ?m) = of_nat (4 * j)" "\<not> ide_write (ide ?m)" "disk_pos (ide ?m) = p + 4 * j"
    "io_port ?m 0x1F7 AND 0xC0 = 0x40"
    using assms(1) by (simp_all only: transfer_def) simp_all
  have "count_word m = Inr m'" unfolding m'_def using t(5) assms(2) by (intro count_word_run) (simp_all add: m_def)
  then have "handler_ide 0x1F0 4 False ?m = Inr m'"
    using t assms(2,3) count_simps(1) [OF assms(2)]
    by (simp add: handler_ide_def Let_def write_io_port_def upd_ide_def m_def del: of_nat_mult)
  moreover have "le_read (\<lambda>i. io_port m' (0x1F0 + i)) 4 = ?w"
  proof -
    have "io_port m' (0x1F0 + i) = byte_of i ?w" if "i < 4" for i
      using that by (simp add: m'_def m_def store_bytes_def)
    then show ?thesis using le_read_cong [of 4 "\<lambda>i. io_port m' (0x1F0 + i)" "\<lambda>i. byte_of i ?w"] by simp
  qed
  ultimately have "pio_read 0x1F0 4 ?m = Inr (?w, m')"
    by (simp add: pio_read_def port_0 run_handler_def read_io_port_def)
  moreover have "transfer d p (Suc j) (k\<lparr>dev := m'\<rparr>)"
    using t by (simp add: transfer_def m'_def m_def store_bytes_def)
  ultimately show thesis using that by blast
qed

lemma k_in_word:
  assumes "transfer d p j k" and "j < 128" and "p + 512 \<le> length d" and h: "timer_served h"
  obtains k' where "k_in h 0x1F0 4 k = Inr (le_read (\<lambda>i. d ! (p + 4 * j + i)) 4, k')"
    and "transfer d p (Suc j) k'" and "ticks k' = tl (ticks k)"
proof -
  obtain m' where m: "pio_read 0x1F0 4 (dev k) = Inr (le_read (\<lambda>i. d ! (p + 4 * j + i)) 4, m')"
    "transfer d p (Suc j) (k\<lparr>dev := m'\<rparr>)"
    using pio_read_word [OF assms(1-3)] by blast
  let ?k = "settle (k\<lparr>dev := m'\<rparr>)"
  have "irq_point h (k\<lparr>dev := m'\<rparr>) = Inr ?k" using m(2) h by (intro irq_point_settle) (simp_all add: transfer_def)
  moreover have "transfer d p (Suc j) ?k" using m(2) by (simp add: transfer_def)
  ultimately show thesis using that [of ?k] m by (simp add: k_in_def)
qed

lemma read_words_run:
  assumes "transfer d p j k" and "j \<le> 128" and "p + 512 \<le> length d" and h: "timer_served h"
  shows "\<exists>k'. read_words h [j..<128] buf k =
           Inr ((\<lambda>i. if 4 * j \<le> i \<and> i < 512 then d ! (p + i) else buf i), k') \<and>
         transfer d p 128 k' \<and> ticks k' = drop (128 - j) (ticks k)"
  using assms(1,2)
proof (induction "128 - j" arbitrary: j k buf)
  case 0
  then have "j = 128" by simp
  then show ?case using 0 by (auto simp: fun_eq_iff)
next
  case (Suc n)
  then have j: "j < 128" by simp
  let ?w = "le_read (\<lambda>i. d ! (p + 4 * j + i)) 4"
  obtain k1 where k1: "k_in h 0x1F0 4 k = Inr (?w, k1)" "transfer d p (Suc j) k1" "ticks k1 = tl (ticks k)"
    using k_in_word [OF Suc.prems(1) j assms(3) h] by blast
  have b: "(\<lambda>i. if 4 * Suc j \<le> i \<and> i < 512 then d ! (p + i) else store_bytes buf (4 * j) 4 ?w i) =
      (\<lambda>i. if 4 * j \<le> i \<and> i < 512 then d ! (p + i) else buf i)"
  proof
    fix i
    show "(if 4 * Suc j \<le> i \<and> i < 512 then d ! (p + i) else store_bytes buf (4 * j) 4 ?w i) =
        (if 4 * j \<le> i \<and> i < 512 then d ! (p + i) else buf i)"
    proof (cases "4 * j \<le> i \<and> i < 4 * Suc j")
      case True
      then have "byte_of (i - 4 * j) ?w = d ! (p + 4 * j + (i - 4 * j))"
        by (intro byte_of_le_read) auto
      then show ?thesis using True j by (simp add: store_bytes_def)
    qed (auto simp: store_bytes_def)
  qed
  have n: "n = 128 - Suc j" using Suc.hyps(2) by simp
  from Suc.hyps(1) [OF n k1(2), of "store_bytes buf (4 * j) 4 ?w"] j obtain k' where
    "read_words h [Suc j..<128] (store_bytes buf (4 * j) 4 ?w) k1 =
      Inr ((\<lambda>i. if 4 * j \<le> i \<and> i < 512 then d ! (p + i) else buf i), k')"
    "transfer d p 128 k'" "ticks k' = drop n (ticks k1)"
    unfolding b by (auto simp: n)
  then show ?case using j k1 Suc.hyps(2) by (auto simp: upt_conv_Cons drop_Suc [symmetric])
qed

lemma transfer_done:
  assumes "transfer d p 128 k"
  shows "drive_ready k" and "disk (ide (dev k)) = d"
proof -
  have "byte_cnt (ide (dev k)) = 512" using assms by (simp add: transfer_def)
  then show "drive_ready k" "disk (ide (dev k)) = d"
    using assms by (auto simp: transfer_def drive_ready_def)
qed

text \<open>Reading a sector takes 136 port accesses; the command is the eighth.\<close>

lemma disk_do_read_run:
  assumes "drive_ready k" and "sector_ok sec k" and h: "ide_served h" "timer_served h"
    and "\<not> (7 < length (ticks k) \<and> ticks k ! 7)"
  obtains k' where "disk_do_read h buf sec k =
      Inr ((\<lambda>i. if i < 512 then disk (ide (dev k)) ! (512 * unat sec + i) else buf i), k')"
    and "drive_ready k'" and "disk (ide (dev k')) = disk (ide (dev k))" and "ticks k' = drop 136 (ticks k)"
proof -
  let ?k = "clear_ide_intr k"
  have k: "drive_ready ?k" "sector_ok sec ?k" "dev ?k = dev k" "ticks ?k = ticks k"
    using assms(1,2) by (simp_all add: clear_ide_intr_def drive_ready_def sector_ok_def)
  obtain k1 where k1: "issue_read h (prepared sec ?k) = Inr k1" "has_ide_intr k1" "ticks k1 = drop 8 (ticks k)"
    "transfer (disk (ide (dev k))) (512 * unat sec) 0 k1"
    using issue_read_ready [OF k(1,2) h(1)] assms(5) k(3,4) by auto
  have w: "wait_ide_intr h k1 = Inr (clear_ide_intr k1)"
    using k1(2) by (simp add: wait_ide_intr_def wait_ide_loop.simps)
  have t: "transfer (disk (ide (dev k))) (512 * unat sec) 0 (clear_ide_intr k1)" "ticks (clear_ide_intr k1) = drop 8 (ticks k)"
    using k1(3,4) by (simp_all add: transfer_def clear_ide_intr_def)
  obtain k2 where "read_words h [0..<128] buf (clear_ide_intr k1) =
      Inr ((\<lambda>i. if 4 * 0 \<le> i \<and> i < 512 then disk (ide (dev k)) ! (512 * unat sec + i) else buf i), k2)"
    "transfer (disk (ide (dev k))) (512 * unat sec) 128 k2" "ticks k2 = drop 128 (drop 8 (ticks k))"
    using read_words_run [OF t(1) _ _ h(2), of buf] assms(2) t(2) by (auto simp: sector_ok_def)
  moreover then have "drive_ready k2" "disk (ide (dev k2)) = disk (ide (dev k))"
    using transfer_done by blast+
  ultimately show thesis
    using that ide_prepare_ready [OF k(1) h(2), of sec] k1(1) w by (simp add: disk_do_read_def)
qed

section \<open>A lost interrupt\<close>

text \<open>Waiting for a drive that has no interrupt pending: ticks wake the processor, then it waits on.\<close>

lemma wait_without_interrupt:
  assumes "timer_served h" and "intr (cpu (dev k)) = 0" and "fl_IF (fl (dev k))" and "\<not> has_ide_intr k"
    and "nemu_state (dev k) = NEMU_RUN" and "pending (dev k) = replicate n SDL_tick"
  shows "wait_ide_loop fuel h k = Inl (if n < fuel then Blocked ''hlt'' else Out_of_fuel)"
  using assms(2-)
proof (induction n arbitrary: fuel k)
  case 0
  then show ?case
    by (cases fuel) (simp_all add: wait_ide_loop.simps [of _ _ k] k_hlt_def wait_intr.simps)
next
  case (Suc n)
  show ?case
  proof (cases fuel)
    case 0
    then show ?thesis using Suc.prems by (simp add: wait_ide_loop.simps [of _ _ k])
  next
    case (Suc fuel')
    let ?m = "(i8259_raise_intr 0 (dev k))\<lparr>pending := replicate n SDL_tick\<rparr>"
    have "wait_intr (pending (dev k)) (dev k) = Inr ?m"
      using Suc.prems by (simp add: wait_intr.simps deliver_def timer_intr_def i8259_raise_intr_def upd_cpu_def)
    moreover have "(cpu m)\<lparr>intr := 0, eflags := eflags (cpu m)\<rparr> = cpu m" if "intr (cpu m) = 0" for m
      using that by (cases "cpu m") simp
    then have "irq_point h (k\<lparr>dev := ?m\<rparr>) =
        Inr (k\<lparr>ticks := tl (ticks k), dev := (dev k)\<lparr>pending := replicate n SDL_tick, pic_intr_no := 0xff\<rparr>\<rparr>)"
      using Suc.prems assms(1)
      by (cases "ticks k") (auto simp: irq_point_def arrive_def timer_intr_def timer_served_def Let_def
        i8259_raise_intr_def i8259_ack_intr_def i8259_query_intr_no_def upd_cpu_def set_fl_def)
    ultimately have "k_hlt h k =
        Inr (k\<lparr>ticks := tl (ticks k), dev := (dev k)\<lparr>pending := replicate n SDL_tick, pic_intr_no := 0xff\<rparr>\<rparr>)"
      by (simp add: k_hlt_def)
    then show ?thesis
      using Suc.IH [of _ fuel'] Suc.prems \<open>fuel = Suc fuel'\<close> by (simp add: wait_ide_loop.simps [of _ _ k])
  qed
qed

text \<open>
  \<^bold>\<open>C28\<close> When a timer tick arrives in the instant of the read command, its number overwrites the drive's in the
  controller: the timer is served and \<open>disk_do_read\<close> waits for an interrupt that never comes, however many ticks
  wake it.
\<close>

theorem tick_loses_disk_interrupt:
  assumes "drive_ready k" and "sector_ok sec k" and h: "timer_served h" and "7 < length (ticks k)" and "ticks k ! 7"
    and "nemu_state (dev k) = NEMU_RUN" and "pending (dev k) = replicate n SDL_tick"
  shows "disk_do_read h buf sec k = Inl (if n < wait_fuel then Blocked ''hlt'' else Out_of_fuel)"
proof -
  let ?k = "clear_ide_intr k"
  have k: "drive_ready ?k" "sector_ok sec ?k" "dev ?k = dev k" "ticks ?k = ticks k" "\<not> has_ide_intr ?k"
    using assms(1,2) by (simp_all add: clear_ide_intr_def drive_ready_def sector_ok_def)
  have r: "intr (cpu (dev k)) = 0" "fl_IF (fl (dev k))" using assms(1) by (simp_all add: drive_ready_def)
  let ?p = "(prepared sec ?k)\<lparr>dev := commanded sec ?k\<rparr>"
  have "ticks ?p \<noteq> []" "hd (ticks ?p)" using assms(4,5) k(4) by (simp_all add: hd_drop_conv_nth)
  then obtain ts where ts: "ticks ?p = True # ts" by (cases "ticks ?p") auto
  define k1 where "k1 = ?p\<lparr>ticks := ts, dev := (commanded sec ?k)\<lparr>cpu := cpu (dev k), pic_intr_no := 0xff\<rparr>\<rparr>"
  have c: "(cpu m)\<lparr>intr := 0, eflags := eflags (cpu m)\<rparr> = cpu m" if "intr (cpu m) = 0" for m
    using that by (cases "cpu m") simp
  have "irq_point h ?p = Inr k1"
    using r c [OF r(1)] h ts assms(6) k(3)
    by (simp add: irq_point_def arrive_def timer_intr_def timer_served_def Let_def commanded_def k1_def
        i8259_raise_intr_def i8259_ack_intr_def i8259_query_intr_no_def upd_cpu_def set_fl_def)
  then have "issue_read h (prepared sec ?k) = Inr k1" by (simp add: read_command [OF k(1,2)])
  moreover have "wait_ide_loop wait_fuel h k1 = Inl (if n < wait_fuel then Blocked ''hlt'' else Out_of_fuel)"
    using r assms(6,7) k(3,5)
    by (intro wait_without_interrupt [OF h])
      (simp_all add: k1_def commanded_def Let_def i8259_raise_intr_def upd_cpu_def)
  ultimately show ?thesis
    using ide_prepare_ready [OF k(1) h, of sec] by (simp add: disk_do_read_def wait_ide_intr_def)
qed

definition reading_mach :: mach where
  "reading_mach =
     zero_mach\<lparr>cpu := zero_CPU\<lparr>eflags := 0x200\<rparr>, io_port := (\<lambda>_. 0)(0x1F7 := 0x40),
       ide := (ide zero_mach)\<lparr>disk := replicate 1024 7\<rparr>, nemu_state := NEMU_RUN\<rparr>"

lemma reading_mach_ready:
  "drive_ready \<lparr>dev = reading_mach\<lparr>ide := (ide reading_mach)\<lparr>disk := replicate n 7\<rparr>\<rparr>, has_ide_intr = f, ticks = ts\<rparr>"
  if "n \<le> 2 ^ 32"
proof -
  have "put_bit 9 True 0 = (0x200 :: u32)" by (simp add: put_bit_def set_bit_eq)
  then show ?thesis using that by (simp add: drive_ready_def reading_mach_def zero_mach_def zero_CPU_def)
qed

theorem tick_loses_disk_interrupt_witness:
  "disk_do_read (with_ide_intr (\<lambda>_. Inr)) (\<lambda>_. 0) 1
     \<lparr>dev = reading_mach, has_ide_intr = False, ticks = replicate 7 False @ [True]\<rparr> = Inl (Blocked ''hlt'')"
proof -
  let ?k = "\<lparr>dev = reading_mach, has_ide_intr = False, ticks = replicate 7 False @ [True]\<rparr>"
  have "ide reading_mach = (ide reading_mach)\<lparr>disk := replicate 1024 7\<rparr>" by (simp add: reading_mach_def)
  then have "reading_mach = reading_mach\<lparr>ide := (ide reading_mach)\<lparr>disk := replicate 1024 7\<rparr>\<rparr>" by simp
  then have ready: "drive_ready ?k" using reading_mach_ready [of 1024] by simp
  have ok: "sector_ok 1 ?k" by (simp add: sector_ok_def reading_mach_def)
  have t: "timer_served (with_ide_intr (\<lambda>_. Inr))" by (simp add: timer_served_def with_ide_intr_def)
  show ?thesis
    using tick_loses_disk_interrupt [OF ready ok t, of 0 "\<lambda>_. 0"]
    by (simp add: nth_append) (simp add: reading_mach_def zero_mach_def)
qed

section \<open>Writing a sector\<close>

text \<open>
  The command is accepted, but the first word is sent by an instruction the emulator does not have.
\<close>

lemma issue_write_ready:
  assumes "drive_ready k" and h: "timer_served h"
  obtains k' where "issue_write h (prepared sec k) = Inr k'"
proof -
  let ?m = "dev (set_port8 0x1F7 0x30 (prepared sec k))"
  define m where "m = ?m\<lparr>ide := seek (port_sector ?m) True (ide ?m)\<rparr>"
  have "pio_write 0x1F7 1 0x30 (dev (prepared sec k)) = Inr m"
    using assms(1) ide_command_write [of ?m]
    by (simp add: pio_write_command [unfolded One_nat_def] m_def drive_ready_def)
  moreover have "irq_point h ((prepared sec k)\<lparr>dev := m\<rparr>) = Inr (settle ((prepared sec k)\<lparr>dev := m\<rparr>))"
    using assms(1) by (intro irq_point_settle h) (simp_all add: m_def drive_ready_def)
  ultimately show thesis using that by (simp add: issue_write_def k_out_def)
qed

lemma disk_do_write_stops:
  assumes "drive_ready k" and "timer_served h"
  shows "\<exists>e m. disk_do_write h buf sec k = Inl e \<and> inv_opcode (eip (cpu m)) 0xEF m = Inl e"
proof -
  obtain k1 where k1: "issue_write h (prepared sec k) = Inr k1" by (rule issue_write_ready [OF assms])
  obtain e where e: "inv_opcode (eip (cpu (dev k1))) 0xEF (dev k1) = Inl e" using inv_opcode_stops by blast
  have "[0..<512 div 4] = 0 # [Suc 0..<128]" by (simp add: upt_conv_Cons)
  then have "write_words h [0..<512 div 4] buf k1 = Inl e" using e by (simp add: k_out_def)
  then have "disk_do_write h buf sec k = Inl e"
    using ide_prepare_ready [OF assms, of sec] k1 by (simp add: disk_do_write_def)
  with e show ?thesis by blast
qed

end
