(* ===== verification/RepCorrect.thy ===== *)
theory RepCorrect
  imports KMem KDisk Opcode
begin

text \<open>
  The repeated string instructions of the emulator against the block operations they implement:
  \<open>rep movsl\<close> copies and \<open>rep stosb\<close> fills memory, in as many rounds as \<open>ECX\<close> says, through the dispatch
  table of the opcodes.
\<close>

section \<open>The loop of the prefix\<close>

definition dec_ecx :: "mach \<Rightarrow> mach" where
  "dec_ecx s = set_reg REG_ECX (reg REG_ECX s - 1) s"

text \<open>\<open>I k\<close> holds after \<open>k\<close> rounds.\<close>

lemma rep_loop_rounds:
  assumes step: "\<And>k s. k < n \<Longrightarrow> I k s \<Longrightarrow>
      \<exists>l s'. entry (pc + 1) op s = Inr (l, s') \<and> I (Suc k) (dec_ecx s') \<and> \<not> rep_breaks op (dec_ecx s')"
    and ecx: "\<And>k s. k \<le> n \<Longrightarrow> I k s \<Longrightarrow> unat (reg REG_ECX s) = n - k"
    and "k \<le> n" and "I k s" and "n - k \<le> fuel"
  shows "\<exists>s'. rep_loop fuel entry pc op s = Inr s' \<and> I n s'"
  using assms(3-5)
proof (induction "n - k" arbitrary: k s fuel)
  case 0
  then have "k = n" by simp
  with ecx [of n s] 0 have "reg REG_ECX s = 0" by (simp add: unat_eq_0)
  with 0 \<open>k = n\<close> show ?case by (subst rep_loop.simps) simp
next
  case (Suc d)
  then have lt: "k < n" by simp
  with ecx [of k s] Suc.prems have nz: "reg REG_ECX s \<noteq> 0" by (auto simp: unat_eq_0)
  from Suc.prems lt obtain f where f: "fuel = Suc f" "n - Suc k \<le> f" by (cases fuel) auto
  from step [OF lt Suc.prems(2)] obtain l s1 where s1: "entry (pc + 1) op s = Inr (l, s1)"
    "I (Suc k) (dec_ecx s1)" "\<not> rep_breaks op (dec_ecx s1)" by blast
  have "d = n - Suc k" "Suc k \<le> n" using Suc.hyps(2) lt by simp_all
  from Suc.hyps(1) [OF this s1(2) f(2)]
  obtain s' where "rep_loop f entry pc op (dec_ecx s1) = Inr s'" "I n s'" by blast
  then show ?case using nz s1 by (subst rep_loop.simps) (simp add: f(1) dec_ecx_def)
qed

section \<open>Registers\<close>

lemma set_reg_same: "reg r s = v \<Longrightarrow> set_reg r v s = s"
  by (auto simp: reg_def set_reg_def set_gpr_def)

lemma set_reg_commute: "q \<noteq> r \<Longrightarrow> set_reg q v (set_reg r w s) = set_reg r w (set_reg q v s)"
  by (simp add: set_reg_def set_gpr_def fun_upd_twist)

lemma set_string_regs:
  "set_reg REG_ECX c (set_reg REG_EDI d (set_reg REG_ESI e (set_reg REG_ECX c' (set_reg REG_EDI d' (set_reg REG_ESI e' s))))) =
    set_reg REG_ECX c (set_reg REG_EDI d (set_reg REG_ESI e s))"
  by (simp add: set_reg_def set_gpr_def fun_upd_twist)

lemma set_stos_regs:
  "set_reg REG_ECX c (set_reg REG_EDI d (set_reg REG_ECX c' (set_reg REG_EDI d' s))) =
    set_reg REG_ECX c (set_reg REG_EDI d s)"
  by (simp add: set_reg_def set_gpr_def fun_upd_twist)

definition string_ready :: "mach \<Rightarrow> bool" where
  "string_ready s \<longleftrightarrow> \<not> verbose s \<and> \<not> fl_DF (fl s) \<and> data_size s = 32"

lemma string_ready_core: "sans_mem s' = sans_mem s \<Longrightarrow> string_ready s' = string_ready s"
proof -
  assume *: "sans_mem s' = sans_mem s"
  show ?thesis
    using arg_cong [OF *, of verbose] arg_cong [OF *, of data_size] arg_cong [OF *, of fl]
    by (simp add: string_ready_def sans_mem_fl) (simp add: sans_mem_def)
qed

lemma string_ready_set_reg [simp]: "string_ready (set_reg r v s) = string_ready s"
  by (simp add: string_ready_def) (simp add: set_reg_def)

lemma string_ready_sans_mem [simp]: "string_ready (sans_mem s) = string_ready s"
  by (rule string_ready_core) (simp add: sans_mem_def)

section \<open>One round\<close>

lemma movs_round:
  assumes "flat SREG_DS s" and "string_ready s" and "ram s (reg REG_ESI s) 4" "ram s (reg REG_EDI s) 4"
  shows "\<exists>s'. movs_v pc opcode s = Inr (1, s') \<and> flat SREG_DS s' \<and>
    sans_mem s' = set_reg REG_EDI (reg REG_EDI s + 4) (set_reg REG_ESI (reg REG_ESI s + 4) (sans_mem s)) \<and>
    hw s' = store_bytes (hw s) (unat (reg REG_EDI s)) 4 (mword (hw s) (unat (reg REG_ESI s)))"
proof -
  let ?src = "reg REG_ESI s" and ?dst = "reg REG_EDI s"
  from vm.rd_law [OF assms(1,3)] obtain s1 where s1:
    "vaddr_read ?src SREG_DS 4 s = Inr (mword (hw s) (unat ?src), s1)" "flat SREG_DS s1" "hw s1 = hw s"
    "sans_mem s1 = sans_mem s" by (auto simp: mword_def)
  have "ram s1 ?dst 4" using vm.ok_core [OF s1(4)] assms(4) by simp
  from vm.wr_law [OF s1(2) this, of "mword (hw s) (unat ?src)"] obtain s2 where s2:
    "vaddr_write ?dst SREG_DS 4 (mword (hw s) (unat ?src)) s1 = Inr s2" "flat SREG_DS s2"
    "hw s2 = store_bytes (hw s1) (unat ?dst) 4 (mword (hw s) (unat ?src))" "sans_mem s2 = sans_mem s1" by blast
  have core: "sans_mem s2 = sans_mem s" using s1(4) s2(4) by simp
  have r2: "string_ready s2" using string_ready_core [OF core] assms(2) by simp
  have regs: "reg r s2 = reg r s" for r by (rule sans_mem_reg [OF core])
  let ?s = "set_reg REG_EDI (?dst + 4) (set_reg REG_ESI (?src + 4) s2)"
  have vb: "verbose (set_reg r v x) = verbose x" for r v x by (simp add: set_reg_def)
  have "movs_v pc opcode s = Inr (1, ?s)"
    using assms(2) r2 operand_read_mem32 [OF s1(1)] s2(1)
    by (simp add: movs_v_def movs_def Let_def string_ready_def operand_write_mem32 inc_dec_def regs print_asm_0_def vb)
  then show ?thesis using s2(2,3) s1(3) by (intro exI [of _ ?s]) (simp add: core)
qed

lemma byte_down_up: "(ucast (ucast v :: u32) :: u8) = v"
  by (rule bit_word_eqI) (auto simp: bit_ucast_iff dest: bit_imp_le_length)

lemma trunc_byte: "trunc_size 8 (ucast v) = Inr (ucast v)" for v :: u8
proof -
  have "ucast v AND mask 8 = (ucast v :: u32)"
    by (rule bit_word_eqI) (auto simp: bit_and_iff bit_mask_iff bit_ucast_iff dest: bit_imp_le_length)
  then show ?thesis unfolding trunc_size_def by (simp only: if_True refl)
qed

lemma stos_round:
  assumes "flat SREG_ES s" and "string_ready s" and "ram s (reg REG_EDI s) 1"
  shows "\<exists>s'. stos_b pc opcode s = Inr (1, s') \<and> flat SREG_ES s' \<and>
    sans_mem s' = set_reg REG_EDI (reg REG_EDI s + 1) (sans_mem s) \<and>
    hw s' = (hw s)(unat (reg REG_EDI s) := gpr8 0 (cpu s))"
proof -
  let ?dst = "reg REG_EDI s"
  let ?s1 = "set_reg REG_EDI (?dst + 1) s" and ?v = "ucast (gpr8 0 (cpu s)) :: u32"
  have vb: "verbose ?s1 = verbose s" by (simp add: set_reg_def)
  have "flat SREG_ES ?s1" "ram ?s1 ?dst 1" using assms(1,3) by (simp_all add: ram_def)
  from vm.wr_law [OF this, of ?v] obtain s2 where s2: "vaddr_write ?dst SREG_ES 1 ?v ?s1 = Inr s2" "flat SREG_ES s2"
    "hw s2 = store_bytes (hw ?s1) (unat ?dst) 1 ?v" "sans_mem s2 = sans_mem ?s1" by blast
  have "string_ready s2" using string_ready_core [OF s2(4)] assms(2) by simp
  moreover have "operand_read (opr_reg 8 0) s = Inr ((opr_reg 8 0)\<lparr>oval := ?v\<rparr>, s)"
    by (simp add: operand_read_def opr_reg_def trunc_byte)
  ultimately have "stos_b pc opcode s = Inr (1, s2)"
    using assms(2) s2(1)
    by (simp add: stos_b_def stos_def Let_def string_ready_def inc_dec_def operand_write_def opr_mem_def print_asm_0_def)
  then show ?thesis using s2(2-4) store_byte [of "hw s" "unat ?dst" ?v] by (simp add: byte_down_up)
qed

section \<open>\<open>rep movsl\<close>\<close>

definition copied :: "nat \<Rightarrow> nat \<Rightarrow> nat \<Rightarrow> (nat \<Rightarrow> u8) \<Rightarrow> nat \<Rightarrow> u8" where
  "copied n src dst m = (\<lambda>i. if dst \<le> i \<and> i < dst + n then m (src + (i - dst)) else m i)"

lemma copied_0: "copied 0 src dst m = m"
  by (rule ext) (auto simp: copied_def)

lemma copied_step:
  assumes "dst \<le> src \<or> src + 4 * n \<le> dst" and "k < n"
  shows "store_bytes (copied (4 * k) src dst m) (dst + 4 * k) 4 (mword (copied (4 * k) src dst m) (src + 4 * k)) =
    copied (4 * Suc k) src dst m" (is "?l = ?r")
proof
  fix i
  have src: "copied (4 * k) src dst m (src + 4 * k + j) = m (src + 4 * k + j)" if "j < 4" for j
    using assms that by (auto simp: copied_def)
  show "?l i = ?r i"
  proof (cases "dst + 4 * k \<le> i \<and> i < dst + 4 * k + 4")
    case True
    then obtain j where j: "i = dst + 4 * k + j" "j < 4" by (metis le_Suc_ex nat_add_left_cancel_less)
    then have "?l i = m (src + 4 * k + j)"
      by (simp add: store_bytes_def mword_def byte_of_le_read src)
    with j show ?thesis by (simp add: copied_def add.assoc)
  next
    case False
    then show ?thesis by (auto simp: store_bytes_def copied_def)
  qed
qed

lemma entry_movs: "opcode_entry p q ! 0xA5 = movs_v"
  by (simp add: opcode_entry_def)

lemma entry_stos: "opcode_entry p q ! 0xAA = stos_b"
  by (simp add: opcode_entry_def)

lemma entry_rep: "opcode_entry p q ! 0xF3 = q"
  by (simp add: opcode_entry_def)

lemma fetch8_flat:
  assumes "flat SREG_CS s" and "ram s a 1"
  shows "\<exists>s'. fetch8 a s = Inr (hw s (unat a), s') \<and> flat SREG_CS s' \<and> hw s' = hw s \<and> sans_mem s' = sans_mem s"
  using vm.rd_law [OF assms] by (auto simp: fetch8_def instr_fetch_def le_read_byte byte_down_up)

lemma rep_movs_loop:
  fixes s :: mach
  defines "src \<equiv> reg REG_ESI s" and "dst \<equiv> reg REG_EDI s" and "n \<equiv> unat (reg REG_ECX s)"
  assumes fl: "flat SREG_DS s" and ready: "string_ready s"
    and ram: "\<forall>k < n. ram s (src + of_nat (4 * k)) 4 \<and> ram s (dst + of_nat (4 * k)) 4"
    and bound: "unat src + 4 * n < 4294967296" "unat dst + 4 * n < 4294967296"
    and apart: "unat dst \<le> unat src \<or> unat src + 4 * n \<le> unat dst"
    and entry: "\<And>t pc. n \<noteq> 0 \<Longrightarrow> entry pc 0xA5 t = movs_v pc 0xA5 t" and fuel: "n \<le> fuel"
  shows "\<exists>s'. rep_loop fuel entry pc 0xA5 s = Inr s' \<and> flat SREG_DS s' \<and>
    hw s' = copied (4 * n) (unat src) (unat dst) (hw s) \<and>
    sans_mem s' = set_reg REG_ECX 0 (set_reg REG_EDI (dst + of_nat (4 * n))
      (set_reg REG_ESI (src + of_nat (4 * n)) (sans_mem s)))"
proof -
  define I where "I k t \<longleftrightarrow> flat SREG_DS t \<and> hw t = copied (4 * k) (unat src) (unat dst) (hw s) \<and>
    sans_mem t = set_reg REG_ECX (of_nat (n - k)) (set_reg REG_EDI (dst + of_nat (4 * k))
      (set_reg REG_ESI (src + of_nat (4 * k)) (sans_mem s)))" for k t
  have regs: "reg REG_ECX t = of_nat (n - k)" "reg REG_EDI t = dst + of_nat (4 * k)"
    "reg REG_ESI t = src + of_nat (4 * k)" "mmio_st t = mmio_st s" "string_ready t" if "I k t" for k t
  proof -
    from that have core: "sans_mem t = sans_mem (set_reg REG_ECX (of_nat (n - k)) (set_reg REG_EDI (dst + of_nat (4 * k))
      (set_reg REG_ESI (src + of_nat (4 * k)) s)))" by (simp add: I_def)
    show "reg REG_ECX t = of_nat (n - k)" "reg REG_EDI t = dst + of_nat (4 * k)"
      "reg REG_ESI t = src + of_nat (4 * k)"
      using sans_mem_reg [OF core] by simp_all
    show "mmio_st t = mmio_st s" using sans_memD(2) [OF core] by simp
    show "string_ready t" using string_ready_core [OF core] ready by simp
  qed
  have small: "n < 4294967296" using bound(1) by simp
  have unat_n: "unat (of_nat m :: u32) = m" if "m \<le> n" for m
    using that small by (simp only: unsigned_of_nat) (simp add: take_bit_nat_eq_self)
  have step: "\<exists>l t'. entry (pc + 1) 0xA5 t = Inr (l, t') \<and> I (Suc k) (dec_ecx t') \<and> \<not> rep_breaks 0xA5 (dec_ecx t')"
    if k: "k < n" and t: "I k t" for k t
  proof -
    note tr = regs [OF t]
    have "ram t (reg REG_ESI t) 4" "ram t (reg REG_EDI t) 4"
      using ram k unfolding tr(2,3) by (auto simp: ram_def tr(4))
    from movs_round [OF _ tr(5) this] t obtain t1 where t1: "movs_v (pc + 1) 0xA5 t = Inr (1, t1)" "flat SREG_DS t1"
      "sans_mem t1 = set_reg REG_EDI (reg REG_EDI t + 4) (set_reg REG_ESI (reg REG_ESI t + 4) (sans_mem t))"
      "hw t1 = store_bytes (hw t) (unat (reg REG_EDI t)) 4 (mword (hw t) (unat (reg REG_ESI t)))"
      by (auto simp: I_def)
    have u: "unat (src + of_nat (4 * k)) = unat src + 4 * k" "unat (dst + of_nat (4 * k)) = unat dst + 4 * k"
      using bound k by (simp_all only: unat_offset)
    have "hw t1 = copied (4 * Suc k) (unat src) (unat dst) (hw s)"
      using t unfolding t1(4) tr(2,3) u by (simp only: I_def copied_step [OF apart k])
    moreover have "reg REG_ECX t1 = of_nat (n - k)"
      using sans_mem_reg [of t1 "set_reg REG_EDI (reg REG_EDI t + 4) (set_reg REG_ESI (reg REG_ESI t + 4) t)" REG_ECX]
        t1(3) tr(1) by simp
    moreover have "(of_nat (n - k) :: u32) - 1 = of_nat (n - Suc k)"
      using k by (simp add: Suc_diff_Suc [symmetric] of_nat_diff)
    moreover have "dst + of_nat (4 * k) + 4 = dst + of_nat (4 * Suc k)" "src + of_nat (4 * k) + 4 = src + of_nat (4 * Suc k)"
      by simp_all
    ultimately have "I (Suc k) (dec_ecx t1)"
      using t t1(2) unfolding I_def dec_ecx_def mem_set_reg flat_sub_esp t1(3) tr(2,3)
      by (simp only: set_string_regs simp_thms)
    moreover have "\<not> rep_breaks 0xA5 u" for u by (simp add: rep_breaks_def)
    ultimately show ?thesis using entry t1(1) k by auto
  qed
  have "I 0 s"
    unfolding I_def using fl
    by (simp add: set_reg_same src_def dst_def n_def copied_0)
  moreover have "unat (reg REG_ECX t) = n - k" if "k \<le> n" "I k t" for k t
    unfolding regs(1) [OF that(2)] by (rule unat_n) simp
  ultimately
  have "\<exists>s'. rep_loop fuel entry pc 0xA5 s = Inr s' \<and> I n s'"
    using fuel by (intro rep_loop_rounds [of n I entry pc "0xA5" 0 s fuel, OF step]) simp_all
  then
  obtain s' where "rep_loop fuel entry pc 0xA5 s = Inr s'" "I n s'" by auto
  then show ?thesis by (auto simp: I_def)
qed

section \<open>\<open>rep stosb\<close>\<close>

definition filled :: "nat \<Rightarrow> nat \<Rightarrow> u8 \<Rightarrow> (nat \<Rightarrow> u8) \<Rightarrow> nat \<Rightarrow> u8" where
  "filled n dst v m = (\<lambda>i. if dst \<le> i \<and> i < dst + n then v else m i)"

lemma filled_0: "filled 0 dst v m = m"
  by (rule ext) (auto simp: filled_def)

lemma filled_step: "(filled k dst v m)(dst + k := v) = filled (Suc k) dst v m"
  by (auto simp: filled_def)

lemma rep_stos_loop:
  fixes s :: mach
  defines "dst \<equiv> reg REG_EDI s" and "n \<equiv> unat (reg REG_ECX s)"
  assumes fl: "flat SREG_ES s" and ready: "string_ready s"
    and ram: "\<forall>k < n. ram s (dst + of_nat k) 1"
    and bound: "unat dst + n < 4294967296"
    and entry: "\<And>t pc. n \<noteq> 0 \<Longrightarrow> entry pc 0xAA t = stos_b pc 0xAA t" and fuel: "n \<le> fuel"
  shows "\<exists>s'. rep_loop fuel entry pc 0xAA s = Inr s' \<and> flat SREG_ES s' \<and>
    hw s' = filled n (unat dst) (gpr8 0 (cpu s)) (hw s) \<and>
    sans_mem s' = set_reg REG_ECX 0 (set_reg REG_EDI (dst + of_nat n) (sans_mem s))"
proof -
  define I where "I k t \<longleftrightarrow> flat SREG_ES t \<and> hw t = filled k (unat dst) (gpr8 0 (cpu s)) (hw s) \<and>
    sans_mem t = set_reg REG_ECX (of_nat (n - k)) (set_reg REG_EDI (dst + of_nat k) (sans_mem s))" for k t
  have regs: "reg REG_ECX t = of_nat (n - k)" "reg REG_EDI t = dst + of_nat k" "gpr8 0 (cpu t) = gpr8 0 (cpu s)"
    "mmio_st t = mmio_st s" "string_ready t" if "I k t" for k t
  proof -
    from that have core: "sans_mem t = sans_mem (set_reg REG_ECX (of_nat (n - k)) (set_reg REG_EDI (dst + of_nat k) s))"
      by (simp add: I_def)
    show "reg REG_ECX t = of_nat (n - k)" "reg REG_EDI t = dst + of_nat k"
      using sans_mem_reg [OF core] by simp_all
    show "gpr8 0 (cpu t) = gpr8 0 (cpu s)" using sans_memD(1) [OF core] by (simp add: gpr8_def set_reg_def set_gpr_def)
    show "mmio_st t = mmio_st s" using sans_memD(2) [OF core] by simp
    show "string_ready t" using string_ready_core [OF core] ready by simp
  qed
  have small: "n < 4294967296" using bound by simp
  have unat_n: "unat (of_nat m :: u32) = m" if "m \<le> n" for m
    using that small by (simp only: unsigned_of_nat) (simp add: take_bit_nat_eq_self)
  have step: "\<exists>l t'. entry (pc + 1) 0xAA t = Inr (l, t') \<and> I (Suc k) (dec_ecx t') \<and> \<not> rep_breaks 0xAA (dec_ecx t')"
    if k: "k < n" and t: "I k t" for k t
  proof -
    note tr = regs [OF t]
    have "ram t (reg REG_EDI t) 1"
      using ram k unfolding tr(2) by (auto simp: ram_def tr(4))
    from stos_round [OF _ tr(5) this] t obtain t1 where t1: "stos_b (pc + 1) 0xAA t = Inr (1, t1)" "flat SREG_ES t1"
      "sans_mem t1 = set_reg REG_EDI (reg REG_EDI t + 1) (sans_mem t)"
      "hw t1 = (hw t)(unat (reg REG_EDI t) := gpr8 0 (cpu t))"
      by (auto simp: I_def)
    have u: "unat (dst + of_nat k) = unat dst + k"
      using bound k by (simp only: unat_offset)
    have "hw t1 = filled (Suc k) (unat dst) (gpr8 0 (cpu s)) (hw s)"
      using t unfolding t1(4) tr(2,3) u by (simp only: I_def filled_step)
    moreover have "reg REG_ECX t1 = of_nat (n - k)"
      using sans_mem_reg [of t1 "set_reg REG_EDI (reg REG_EDI t + 1) t" REG_ECX] t1(3) tr(1) by simp
    moreover have "(of_nat (n - k) :: u32) - 1 = of_nat (n - Suc k)"
      using k by (simp add: Suc_diff_Suc [symmetric] of_nat_diff)
    moreover have "dst + of_nat k + 1 = dst + of_nat (Suc k)"
      by simp
    ultimately have "I (Suc k) (dec_ecx t1)"
      using t t1(2) unfolding I_def dec_ecx_def mem_set_reg flat_sub_esp t1(3) tr(2,3)
      by (simp only: set_stos_regs simp_thms)
    moreover have "\<not> rep_breaks 0xAA u" for u by (simp add: rep_breaks_def)
    ultimately show ?thesis using entry t1(1) k by auto
  qed
  have "I 0 s"
    unfolding I_def using fl
    by (simp add: set_reg_same dst_def n_def filled_0)
  moreover have "unat (reg REG_ECX t) = n - k" if "k \<le> n" "I k t" for k t
    unfolding regs(1) [OF that(2)] by (rule unat_n) simp
  ultimately
  have "\<exists>s'. rep_loop fuel entry pc 0xAA s = Inr s' \<and> I n s'"
    using fuel by (intro rep_loop_rounds [of n I entry pc "0xAA" 0 s fuel, OF step]) simp_all
  then
  obtain s' where "rep_loop fuel entry pc 0xAA s = Inr s'" "I n s'" by auto
  then show ?thesis by (auto simp: I_def)
qed

section \<open>Through the dispatch\<close>

lemma exec_rep:
  assumes "flat SREG_CS s" and "string_ready s"
    and "ram s (eip (cpu s)) 1" "ram s (eip (cpu s) + 1) 1"
    and "hw s (unat (eip (cpu s))) = 0xF3" "hw s (unat (eip (cpu s) + 1)) = op" "op \<noteq> 0xC3"
  shows "\<exists>s1. flat SREG_CS s1 \<and> hw s1 = hw s \<and> sans_mem s1 = sans_mem s \<and>
    (\<forall>s2. rep_loop fuel (run_opcode fuel) (eip (cpu s)) op s1 = Inr s2 \<longrightarrow> exec_inst (Suc fuel) s = Inr (2, s2))"
proof -
  let ?pc = "eip (cpu s)"
  from fetch8_flat [OF assms(1,3)] obtain s1 where s1: "fetch8 ?pc s = Inr (0xF3, s1)" "flat SREG_CS s1"
    "hw s1 = hw s" "sans_mem s1 = sans_mem s" unfolding assms(5) by blast
  have "ram s1 (?pc + 1) 1" using vm.ok_core [OF s1(4)] assms(4) by simp
  from fetch8_flat [OF s1(2) this] obtain s2 where s2: "fetch8 (?pc + 1) s1 = Inr (op, s2)" "flat SREG_CS s2"
    "hw s2 = hw s1" "sans_mem s2 = sans_mem s1" unfolding s1(3) assms(6) by blast
  have "\<not> verbose s2" using assms(2) string_ready_core [of s2 s] s1(4) s2(4) by (simp add: string_ready_def)
  then have "exec_inst (Suc fuel) s = Inr (2, s3)" if "rep_loop fuel (run_opcode fuel) ?pc op s2 = Inr s3" for s3
    using that s1(1) s2(1) assms(7) sans_memD(1) [OF s1(4)] by (simp add: exec_inst_def entry_rep rep_repe_def print_asm_0_def)
  then show ?thesis using s1 s2 by (intro exI [of _ s2]) simp
qed

text \<open>
  \<^bold>\<open>C19\<close> Equivalence of \<open>rep movsl\<close> (\<open>F3 A5\<close>) with a block copy: on a machine with flat segments, paging
  off and the direction flag clear, one \<open>exec_inst\<close> through the dispatch table, the prefix loop and \<open>movs_v\<close>
  ends normally and its memory is the one in which the \<open>4 * ECX\<close> bytes from \<open>ESI\<close> have been copied to \<open>EDI\<close> at
  once; \<open>ESI\<close> and \<open>EDI\<close> stand behind the blocks, \<open>ECX\<close> is 0 and no other register changes. The blocks may
  overlap when the destination is the lower one.
\<close>
theorem exec_inst_rep_movsl:
  fixes s :: mach
  defines "src \<equiv> reg REG_ESI s" and "dst \<equiv> reg REG_EDI s" and "n \<equiv> unat (reg REG_ECX s)"
  assumes "flat SREG_CS s" and "flat SREG_DS s" and "string_ready s"
    and "ram s (eip (cpu s)) 1" "ram s (eip (cpu s) + 1) 1"
    and "hw s (unat (eip (cpu s))) = 0xF3" "hw s (unat (eip (cpu s) + 1)) = 0xA5"
    and "\<forall>k < n. ram s (src + of_nat (4 * k)) 4 \<and> ram s (dst + of_nat (4 * k)) 4"
    and "unat src + 4 * n < 4294967296" "unat dst + 4 * n < 4294967296"
    and "unat dst \<le> unat src \<or> unat src + 4 * n \<le> unat dst"
    and "n < fuel"
  shows "\<exists>s'. exec_inst fuel s = Inr (2, s') \<and>
    hw s' = (\<lambda>i. if unat dst \<le> i \<and> i < unat dst + 4 * n then hw s (unat src + (i - unat dst)) else hw s i) \<and>
    sans_mem s' = set_reg REG_ECX 0 (set_reg REG_EDI (dst + of_nat (4 * n))
      (set_reg REG_ESI (src + of_nat (4 * n)) (sans_mem s)))"
proof -
  from assms(15) obtain f where f: "fuel = Suc f" "n \<le> f" by (cases fuel) auto
  have ne: "(0xA5 :: u8) \<noteq> 0xC3" by simp
  from exec_rep [OF assms(4,6,7,8,9,10) ne, of f] obtain s1 where s1: "flat SREG_CS s1" "hw s1 = hw s"
    "sans_mem s1 = sans_mem s"
    "\<And>s2. rep_loop f (run_opcode f) (eip (cpu s)) 0xA5 s1 = Inr s2 \<Longrightarrow> exec_inst fuel s = Inr (2, s2)"
    unfolding f(1) by blast
  have e: "src = reg REG_ESI s1" "dst = reg REG_EDI s1" "n = unat (reg REG_ECX s1)"
    by (simp_all add: src_def dst_def n_def sans_mem_reg [OF s1(3)])
  have fl: "flat SREG_DS s1" using flat_core [OF s1(3) _ assms(5)] s1(1) by (simp add: flat_def)
  have ready: "string_ready s1" using string_ready_core [OF s1(3)] assms(6) by simp
  have ok: "\<forall>k < n. ram s1 (src + of_nat (4 * k)) 4 \<and> ram s1 (dst + of_nat (4 * k)) 4"
    using assms(11) by (simp add: vm.ok_core [OF s1(3)])
  have "run_opcode f pc 0xA5 t = movs_v pc 0xA5 t" if "n \<noteq> 0" for pc t
    using that f(2) by (cases f) (simp_all add: entry_movs)
  note loop = rep_movs_loop [where entry = "run_opcode f", OF fl ready, folded e, OF ok assms(12-14) this f(2)]
  from loop [of "eip (cpu s)"] obtain s' where s': "rep_loop f (run_opcode f) (eip (cpu s)) 0xA5 s1 = Inr s'"
    "hw s' = copied (4 * n) (unat src) (unat dst) (hw s)"
    "sans_mem s' = set_reg REG_ECX 0 (set_reg REG_EDI (dst + of_nat (4 * n))
      (set_reg REG_ESI (src + of_nat (4 * n)) (sans_mem s)))" unfolding s1(2,3) by blast
  from s1(4) [OF s'(1)] s'(2,3) show ?thesis unfolding copied_def by blast
qed

text \<open>A program of one instruction: two rounds, from \<open>0x100\<close> to \<open>0x200\<close>.\<close>

definition rep_mach :: "u8 \<Rightarrow> mach" where
  "rep_mach op = set_reg REG_ECX 2 (set_reg REG_EDI 0x200 (set_reg REG_ESI 0x100 (set_reg REG_EAX 0x61
     (zero_mach\<lparr>mem := (mem zero_mach)\<lparr>hw_mem := (\<lambda>i. if i < 8 then 0 else 7)(0 := 0xF3, 1 := op)\<rparr>, data_size := 32\<rparr>))))"

lemma rep_mach_ready:
  "flat r (rep_mach op)" "string_ready (rep_mach op)" "eip (cpu (rep_mach op)) = 0"
  "hw (rep_mach op) 0 = 0xF3" "hw (rep_mach op) 1 = op"
  "ram (rep_mach op) a n = cache_ok a n"
  "reg REG_ECX (rep_mach op) = 2" "reg REG_EDI (rep_mach op) = 0x200" "reg REG_ESI (rep_mach op) = 0x100"
  "gpr8 0 (cpu (rep_mach op)) = 0x61"
  by (simp_all add: rep_mach_def flat_def coherent_def line_ok_def zero_mach_def set_reg_def set_gpr_def zero_CPU_def
      cr0_pg_def cr0_pe_def string_ready_def ram_def is_mmio_def reg_def gpr8_def)

lemma below_2: "(\<forall>k < 2. P k) \<longleftrightarrow> P 0 \<and> P (Suc 0)"
  by (auto simp: less_2_cases_iff)

theorem exec_inst_rep_movsl_witness:
  "\<exists>s'. exec_inst 9 (rep_mach 0xA5) = Inr (2, s') \<and> hw s' 0x204 = hw (rep_mach 0xA5) 0x104 \<and> hw s' 1 = 0xA5 \<and>
    reg REG_EDI s' = 0x208"
proof -
  note r = rep_mach_ready [where op = "0xA5"]
  have "\<exists>s'. exec_inst 9 (rep_mach 0xA5) = Inr (2, s') \<and>
    hw s' = (\<lambda>i. if 0x200 \<le> i \<and> i < 0x208 then hw (rep_mach 0xA5) (0x100 + (i - 0x200)) else hw (rep_mach 0xA5) i) \<and>
    sans_mem s' = set_reg REG_ECX 0 (set_reg REG_EDI 0x208 (set_reg REG_ESI 0x108 (sans_mem (rep_mach 0xA5))))"
    using exec_inst_rep_movsl [where s = "rep_mach 0xA5" and fuel = 9, unfolded r(7-9)]
    by (simp add: r r [unfolded One_nat_def] below_2 cache_ok_def block_num_eq MEM_SIZE_B_def cong: if_cong)
  then obtain s' where s': "exec_inst 9 (rep_mach 0xA5) = Inr (2, s')"
    "hw s' = (\<lambda>i. if 0x200 \<le> i \<and> i < 0x208 then hw (rep_mach 0xA5) (0x100 + (i - 0x200)) else hw (rep_mach 0xA5) i)"
    "sans_mem s' = set_reg REG_ECX 0 (set_reg REG_EDI 0x208 (set_reg REG_ESI 0x108 (sans_mem (rep_mach 0xA5))))" by blast
  have "sans_mem s' = sans_mem (set_reg REG_ECX 0 (set_reg REG_EDI 0x208 (set_reg REG_ESI 0x108 (rep_mach 0xA5))))" using s'(3) by simp
  from sans_mem_reg [OF this, of REG_EDI] have "reg REG_EDI s' = 0x208" by simp
  with s'(1) show ?thesis using r(5) by (intro exI [of _ s']) (simp add: s'(2))
qed

text \<open>
  \<^bold>\<open>C20\<close> Equivalence of \<open>rep stosb\<close> (\<open>F3 AA\<close>) with a fill: on a machine with flat code and extra segments,
  paging off and the direction flag clear, one \<open>exec_inst\<close> ends normally, the \<open>ECX\<close> bytes from \<open>EDI\<close> all hold
  \<open>AL\<close> and the rest of the memory is as before; \<open>EDI\<close> stands behind the block, \<open>ECX\<close> is 0 and no other
  register changes.
\<close>
theorem exec_inst_rep_stosb:
  fixes s :: mach
  defines "dst \<equiv> reg REG_EDI s" and "n \<equiv> unat (reg REG_ECX s)"
  assumes "flat SREG_CS s" and "flat SREG_ES s" and "string_ready s"
    and "ram s (eip (cpu s)) 1" "ram s (eip (cpu s) + 1) 1"
    and "hw s (unat (eip (cpu s))) = 0xF3" "hw s (unat (eip (cpu s) + 1)) = 0xAA"
    and "\<forall>k < n. ram s (dst + of_nat k) 1"
    and "unat dst + n < 4294967296" and "n < fuel"
  shows "\<exists>s'. exec_inst fuel s = Inr (2, s') \<and>
    hw s' = (\<lambda>i. if unat dst \<le> i \<and> i < unat dst + n then gpr8 0 (cpu s) else hw s i) \<and>
    sans_mem s' = set_reg REG_ECX 0 (set_reg REG_EDI (dst + of_nat n) (sans_mem s))"
proof -
  from assms(12) obtain f where f: "fuel = Suc f" "n \<le> f" by (cases fuel) auto
  have ne: "(0xAA :: u8) \<noteq> 0xC3" by simp
  from exec_rep [OF assms(3,5,6,7,8,9) ne, of f] obtain s1 where s1: "flat SREG_CS s1" "hw s1 = hw s"
    "sans_mem s1 = sans_mem s"
    "\<And>s2. rep_loop f (run_opcode f) (eip (cpu s)) 0xAA s1 = Inr s2 \<Longrightarrow> exec_inst fuel s = Inr (2, s2)"
    unfolding f(1) by blast
  have e: "dst = reg REG_EDI s1" "n = unat (reg REG_ECX s1)"
    by (simp_all add: dst_def n_def sans_mem_reg [OF s1(3)])
  have fl: "flat SREG_ES s1" using flat_core [OF s1(3) _ assms(4)] s1(1) by (simp add: flat_def)
  have ready: "string_ready s1" using string_ready_core [OF s1(3)] assms(5) by simp
  have ok: "\<forall>k < n. ram s1 (dst + of_nat k) 1"
    using assms(10) by (simp add: vm.ok_core [OF s1(3)])
  have "run_opcode f pc 0xAA t = stos_b pc 0xAA t" if "n \<noteq> 0" for pc t
    using that f(2) by (cases f) (simp_all add: entry_stos)
  note loop = rep_stos_loop [where entry = "run_opcode f", OF fl ready, folded e, OF ok assms(11) this f(2)]
  from loop [of "eip (cpu s)"] obtain s' where s': "rep_loop f (run_opcode f) (eip (cpu s)) 0xAA s1 = Inr s'"
    "hw s' = filled n (unat dst) (gpr8 0 (cpu s)) (hw s)"
    "sans_mem s' = set_reg REG_ECX 0 (set_reg REG_EDI (dst + of_nat n) (sans_mem s))"
    unfolding s1(2,3) sans_memD(1) [OF s1(3)] by blast
  from s1(4) [OF s'(1)] s'(2,3) show ?thesis unfolding filled_def by blast
qed

theorem exec_inst_rep_stosb_witness:
  "\<exists>s'. exec_inst 9 (rep_mach 0xAA) = Inr (2, s') \<and> hw s' 0x201 = 0x61 \<and> hw s' 0x202 = hw (rep_mach 0xAA) 0x202 \<and>
    reg REG_EDI s' = 0x202"
proof -
  note r = rep_mach_ready [where op = "0xAA"]
  have "\<exists>s'. exec_inst 9 (rep_mach 0xAA) = Inr (2, s') \<and>
    hw s' = (\<lambda>i. if 0x200 \<le> i \<and> i < 0x202 then 0x61 else hw (rep_mach 0xAA) i) \<and>
    sans_mem s' = set_reg REG_ECX 0 (set_reg REG_EDI 0x202 (sans_mem (rep_mach 0xAA)))"
    using exec_inst_rep_stosb [where s = "rep_mach 0xAA" and fuel = 9, unfolded r(7-10)]
    by (simp add: r r [unfolded One_nat_def] below_2 cache_ok_def block_num_eq MEM_SIZE_B_def cong: if_cong)
  then obtain s' where s': "exec_inst 9 (rep_mach 0xAA) = Inr (2, s')"
    "hw s' = (\<lambda>i. if 0x200 \<le> i \<and> i < 0x202 then 0x61 else hw (rep_mach 0xAA) i)"
    "sans_mem s' = set_reg REG_ECX 0 (set_reg REG_EDI 0x202 (sans_mem (rep_mach 0xAA)))" by blast
  have "sans_mem s' = sans_mem (set_reg REG_ECX 0 (set_reg REG_EDI 0x202 (rep_mach 0xAA)))" using s'(3) by simp
  from sans_mem_reg [OF this, of REG_EDI] have "reg REG_EDI s' = 0x202" by simp
  with s'(1) show ?thesis using r(5) by (intro exI [of _ s']) (simp add: s'(2))
qed

end
