(* ===== verification/KSpace.thy ===== *)
theory KSpace
  imports KMem
begin

text \<open>
  The kernel's address space: under the mapping of \<open>init_page\<close>, memory from \<open>KOFFSET\<close> up is a
  \<open>byte_memory\<close> again, with paging, TLB and cache below it. On it run \<open>init_segment\<close> of \<open>kvm.c\<close>,
  \<open>mm.c\<close> and \<open>vmem.c\<close>.
\<close>

section \<open>What a translation does to the TLB\<close>

text \<open>Everything but memory, cache and TLB.\<close>

definition sans_mmu :: "mach \<Rightarrow> mach" where
  "sans_mmu s = (sans_mem s)\<lparr>tlb := \<lparr>tlb_size = 0, tlb_size_width = 0, tlb_key = \<lambda>_. 0, tlb_pte = \<lambda>_. 0\<rparr>, rand_pos := 0\<rparr>"

lemma sans_mmuD:
  assumes "sans_mmu s' = sans_mmu s"
  shows "cpu s' = cpu s" and "mmio_st s' = mmio_st s"
proof -
  show "cpu s' = cpu s" using arg_cong [OF assms, of cpu] by (simp add: sans_mmu_def sans_mem_def)
  show "mmio_st s' = mmio_st s" using arg_cong [OF assms, of mmio_st] by (simp add: sans_mmu_def sans_mem_def)
qed

lemma sans_mmu_upd [simp]:
  "sans_mmu (set_tlb_key i k s) = sans_mmu s" "sans_mmu (set_tlb_pte i k s) = sans_mmu s"
  "sans_mmu (snd (c_rand s)) = sans_mmu s"
  by (simp_all add: sans_mmu_def sans_mem_def set_tlb_key_def set_tlb_pte_def c_rand_def)

lemma sans_mem_mmu: "sans_mem s' = sans_mem s \<Longrightarrow> sans_mmu s' = sans_mmu s"
  by (simp add: sans_mmu_def)

lemma page_translate_frame:
  assumes "coherent (mem s)" and "walkable s a" and "page_translate a s = Inr (p, s')"
    and "tlb_size (tlb s) = 64"
  shows "sans_mmu s' = sans_mmu s" and "\<forall>i. tlb_key (tlb s') i \<in> {tlb_key (tlb s) i, page_key a}"
proof -
  have "sans_mmu s' = sans_mmu s \<and> (\<forall>i. tlb_key (tlb s') i \<in> {tlb_key (tlb s) i, page_key a})"
  proof (cases "find (\<lambda>i. tlb_key (tlb s) i = page_key a) [0..<64]")
    case (Some i)
    then show ?thesis
      using assms(3,4) by (auto simp: page_translate_def tlb_read_def tlb_fetch_def tlb_query_def)
  next
    case None
    let ?s = "snd (c_rand s)" let ?idx = "unat (fst (c_rand s) AND mask (tlb_size_width (tlb s)))"
    let ?t = "set_tlb_key ?idx (page_key a) ?s"
    have t: "mem ?t = mem s" "cpu ?t = cpu s" "mmio_st ?t = mmio_st s" "tlb ?s = tlb s"
      by (simp_all add: c_rand_def set_tlb_key_def)
    have w: "walkable ?t a" using assms(2) walk_cong(4) [of ?t s] by (simp add: t)
    obtain s2 where s2: "page_walk a ?t = Inr (pte_of ?t a, s2)" "sans_mem s2 = sans_mem ?t"
      using page_walk_spec [of ?t a] w assms(1) t(1) by auto
    have "s' = set_tlb_pte ?idx (pte_of ?t a) s2"
      using assms(3) None s2(1) assms(4)
      by (simp add: t(4) page_translate_def tlb_read_def tlb_fetch_def tlb_query_def split_beta)
    moreover have "tlb s2 = tlb ?t" by (rule sans_memD(3) [OF s2(2)])
    ultimately show ?thesis
      using sans_mem_mmu [OF s2(2)] by (auto simp: set_tlb_pte_def set_tlb_key_def c_rand_def)
        (simp_all add: sans_mmu_def sans_mem_def)
  qed
  then show "sans_mmu s' = sans_mmu s" "\<forall>i. tlb_key (tlb s') i \<in> {tlb_key (tlb s) i, page_key a}" by simp_all
qed

section \<open>The interface\<close>

text \<open>The TLB holds pages of the kernel's mapping only.\<close>

definition kernel_page :: "u32 \<Rightarrow> bool" where
  "kernel_page k \<longleftrightarrow> (\<exists>a. unat a < PHY_MEM \<and> (k = page_key a \<or> k = page_key (a + KOFFSET)))"

definition kinv :: "u32 \<Rightarrow> u32 \<Rightarrow> mach \<Rightarrow> bool" where
  "kinv p t s \<longleftrightarrow> coherent (mem s) \<and> tlb_ok s \<and> (\<forall>i<64. bit (tlb_key (tlb s) i) 0 \<longrightarrow> kernel_page (tlb_key (tlb s) i)) \<and>
     cr0_pg (cr0 (cpu s)) \<and> (cr0_pe (cr0 (cpu s)) \<longrightarrow> sr_base (segReg (cpu s) SREG_DS) = 0) \<and>
     cr3 (cpu s) = p \<and> tables_built s p t"

text \<open>The kernel reads all of memory but writes outside the page tables.\<close>

definition kread :: "mach \<Rightarrow> u32 \<Rightarrow> nat \<Rightarrow> bool" where
  "kread s a n \<longleftrightarrow> KOFFSET \<le> a \<and> ram s (a - KOFFSET) n"

definition kok :: "u32 \<Rightarrow> u32 \<Rightarrow> mach \<Rightarrow> u32 \<Rightarrow> nat \<Rightarrow> bool" where
  "kok p t s a n \<longleftrightarrow> kread s a n \<and>
     (unat (a - KOFFSET) + n \<le> unat p \<or> unat p + 4096 \<le> unat (a - KOFFSET)) \<and>
     (unat (a - KOFFSET) + n \<le> unat t \<or> unat t + 131072 \<le> unat (a - KOFFSET))"

definition kcontents :: "mach \<Rightarrow> nat \<Rightarrow> u8" where
  "kcontents s = (\<lambda>i. if 0xC0000000 \<le> i then hw s (i - 0xC0000000) else 0)"

lemma kcontents_mem: "mem s' = mem s \<Longrightarrow> kcontents s' = kcontents s"
  by (simp only: kcontents_def)

lemma pte_kernel:
  assumes "tables_built s p t" and "cr3 (cpu s) = p" and "kernel_page k" and "tables_built s' p t" and "cr3 (cpu s') = p"
  shows "pte_of s' k = pte_of s k"
proof -
  obtain a where a: "unat a < PHY_MEM" "k = page_key a \<or> k = page_key (a + KOFFSET)"
    using assms(3) by (auto simp: kernel_page_def)
  have *: "pte_of s x = make_pte (push_bit 12 (of_nat (unat a div 4096)))"
    if "tables_built s p t" "cr3 (cpu s) = p" "x \<in> {a, a + KOFFSET}" for x s
    using tables_walk(3) [OF that(1,2) a(1), of x] koffset_fields [OF a(1)] that(3) by auto
  show ?thesis
    using a(2) * [OF assms(1,2), of a] * [OF assms(4,5), of a] * [OF assms(1,2), of "a + KOFFSET"]
      * [OF assms(4,5), of "a + KOFFSET"] by (elim disjE) simp_all
qed

lemma tlb_ok_kernel:
  assumes "tlb_ok s" and "\<forall>i<64. bit (tlb_key (tlb s) i) 0 \<longrightarrow> kernel_page (tlb_key (tlb s) i)"
    and "tables_built s p t" and "cr3 (cpu s) = p" and "tables_built s' p t" and "cr3 (cpu s') = p" and "tlb s' = tlb s"
  shows "tlb_ok s'"
  using assms(1,2) pte_kernel [OF assms(3,4) _ assms(5,6)] by (auto simp: tlb_ok_def assms(7))

lemma tables_built_cong:
  assumes "tables_built s p t" and "mmio_st s' = mmio_st s"
    and "\<And>b. b \<in> {unat p..<unat p + 4096} \<union> {unat t..<unat t + 131072} \<Longrightarrow> hw s' b = hw s b"
  shows "tables_built s' p t"
proof -
  have r: "region s p 4096" "region s t 131072" using assms(1) by (simp_all add: tables_built_def)
  have e: "word_in s' (p + of_nat (4 * j)) = word_in s (p + of_nat (4 * j))" if "j < 1024" for j
    using word_in_region [OF r(1), of "4 * j"] that assms(3) by (auto simp: mword_def intro!: le_read_cong)
  have "word_in s' (p + of_nat (4 * j)) = make_pde (t + of_nat (4096 * j)) \<and>
      word_in s' (p + of_nat (4 * (768 + j))) = make_pde (t + of_nat (4096 * j))" if "j < 32" for j
  proof -
    have "j < 1024" "768 + j < 1024" using that by simp_all
    then show ?thesis using assms(1) that unfolding tables_built_def e [OF \<open>j < 1024\<close>] e [OF \<open>768 + j < 1024\<close>] by blast
  qed
  moreover have "word_in s' (t + of_nat (4 * k)) = make_pte (push_bit 12 (of_nat k))" if "k < 32768" for k
  proof -
    have "word_in s' (t + of_nat (4 * k)) = word_in s (t + of_nat (4 * k))"
      using word_in_region [OF r(2), of "4 * k"] that assms(3) by (auto simp: mword_def intro!: le_read_cong)
    then show ?thesis using assms(1) that unfolding tables_built_def by presburger
  qed
  moreover have "region s' p 4096" "region s' t 131072" using r assms(2) by (simp_all add: region_def)
  ultimately show ?thesis unfolding tables_built_def by blast
qed

text \<open>A kernel address is translated and the invariant survives.\<close>

lemma translate_kernel:
  assumes "kinv p t s" and "kread s a n"
  obtains s1 where "page_translate a s = Inr (a - KOFFSET, s1)" and "kinv p t s1" and "hw s1 = hw s"
    and "sans_mmu s1 = sans_mmu s" and "ram s1 (a - KOFFSET) n"
proof -
  note k = assms(1) [unfolded kinv_def]
  have b: "unat (a - KOFFSET) < PHY_MEM" "a - KOFFSET + KOFFSET = a"
    using assms(2) by (auto simp: kok_def kread_def ram_def cache_ok_def MEM_SIZE_B_def)
  have w: "walkable s a" "trans s a = a - KOFFSET"
    using tables_kernel_map [of s p t] k b unfolding kernel_map_def by metis+
  obtain s1 where s1: "page_translate a s = Inr (trans s a, s1)" "coherent (mem s1)" "tlb_ok s1"
    "hw s1 = hw s" "cpu s1 = cpu s" "mmio_st s1 = mmio_st s"
    using page_translate_correct [OF _ _ w(1)] k by blast
  note f = page_translate_frame [OF _ w(1) s1(1)]
  have "kernel_page (page_key a)" using b unfolding kernel_page_def by metis
  then have "kinv p t s1"
    using k s1 f tables_built_cong [of s p t s1] unfolding kinv_def by (metis (no_types, lifting) insert_iff tlb_ok_def empty_iff)
  moreover have "ram s1 (a - KOFFSET) n" using assms(2) s1(6) by (simp add: kok_def kread_def ram_def)
  ultimately show ?thesis using that s1 w(2) f(1) k by (auto simp: tlb_ok_def)
qed

lemma kernel_access:
  assumes "kinv p t s" and "len_ok n"
  shows "vaddr_read a SREG_DS n s = bindE (page_translate a s) (\<lambda>(paddr, s). paddr_read paddr n s)"
    and "vaddr_write a SREG_DS n d s = bindE (page_translate a s) (\<lambda>(paddr, s). paddr_write paddr n d s)"
    and "laddr_read a n s = bindE (page_translate a s) (\<lambda>(paddr, s). paddr_read paddr n s)"
  using assms
  by (simp_all add: kinv_def vaddr_read_def vaddr_write_def laddr_read_def laddr_write_def segment_translate_def)

lemma kinv_same:
  assumes "kinv p t s" and "sans_mem s' = sans_mem s" and "coherent (mem s')" and "tables_built s' p t"
  shows "kinv p t s'"
proof -
  note c = sans_memD(1,3) [OF assms(2)]
  have "tlb_ok s'" by (rule tlb_ok_kernel [of s p t]) (use assms(1,4) c in \<open>simp_all add: kinv_def\<close>)
  then show ?thesis using assms(1,3,4) by (simp add: kinv_def c)
qed

lemma kok_core: "sans_mmu s' = sans_mmu s \<Longrightarrow> kok p t s' a n = kok p t s a n"
  using sans_mmuD(2) [of s' s] by (simp add: kok_def kread_def ram_def)

lemma kernel_read:
  assumes "kinv p t s" and "kread s a n"
  shows "\<exists>s'. vaddr_read a SREG_DS n s = Inr (le_read (\<lambda>i. kcontents s (unat a + i)) n, s') \<and>
    kinv p t s' \<and> kcontents s' = kcontents s \<and> sans_mmu s' = sans_mmu s"
proof -
  obtain s1 where s1: "page_translate a s = Inr (a - KOFFSET, s1)" "kinv p t s1" "hw s1 = hw s"
    "sans_mmu s1 = sans_mmu s" "ram s1 (a - KOFFSET) n"
    by (rule translate_kernel [OF assms])
  have c: "coherent (mem s1)" using s1(2) by (simp add: kinv_def)
  from pm.rd_law [OF c s1(5)] obtain s2 where s2:
    "paddr_read (a - KOFFSET) n s1 = Inr (le_read (\<lambda>i. hw s1 (unat (a - KOFFSET) + i)) n, s2)"
    "coherent (mem s2)" "hw s2 = hw s1" "sans_mem s2 = sans_mem s1" by blast
  have "tables_built s2 p t"
    using tables_built_cong [of s1 p t s2] s1(2) s2(3) sans_memD(2) [OF s2(4)] by (simp add: kinv_def)
  then have "kinv p t s2" by (rule kinv_same [OF s1(2) s2(4,2)])
  moreover have "unat (a - KOFFSET) = unat a - 0xC0000000"
    using assms(2) by (simp add: kok_def kread_def unat_sub word_le_nat_alt)
  moreover have "unat a \<ge> 0xC0000000" using assms(2) by (simp add: kok_def kread_def word_le_nat_alt)
  moreover have "len_ok n" using s1(5) by (auto simp: ram_def cache_ok_def)
  moreover have "kcontents s2 = kcontents s" by (simp add: kcontents_def s1(3) s2(3) fun_eq_iff)
  moreover have "le_read (\<lambda>i. hw s1 (unat (a - KOFFSET) + i)) n = le_read (\<lambda>i. kcontents s (unat a + i)) n"
    using calculation(2,3) by (simp add: kcontents_def s1(3))
  ultimately show ?thesis
    using s1 s2 sans_mem_mmu [OF s2(4)] kernel_access(1) [OF assms(1)] by simp
qed

lemma kernel_write:
  assumes "kinv p t s" and "kok p t s a n"
  shows "\<exists>s'. vaddr_write a SREG_DS n d s = Inr s' \<and> kinv p t s' \<and>
    kcontents s' = store_bytes (kcontents s) (unat a) n d \<and> sans_mmu s' = sans_mmu s"
proof -
  have kr: "kread s a n" using assms(2) by (simp add: kok_def)
  obtain s1 where s1: "page_translate a s = Inr (a - KOFFSET, s1)" "kinv p t s1" "hw s1 = hw s"
    "sans_mmu s1 = sans_mmu s" "ram s1 (a - KOFFSET) n"
    by (rule translate_kernel [OF assms(1) kr])
  have c: "coherent (mem s1)" using s1(2) by (simp add: kinv_def)
  from pm.wr_law [OF c s1(5)] obtain s2 where s2: "paddr_write (a - KOFFSET) n d s1 = Inr s2"
    "coherent (mem s2)" "hw s2 = store_bytes (hw s1) (unat (a - KOFFSET)) n d" "sans_mem s2 = sans_mem s1" by blast
  have "tables_built s2 p t"
    using s1(2) s2(3) assms(2) sans_memD(2) [OF s2(4)]
    by (intro tables_built_cong [of s1 p t s2]) (auto simp: kinv_def kok_def kread_def store_bytes_def)
  then have "kinv p t s2" by (rule kinv_same [OF s1(2) s2(4,2)])
  moreover have u: "unat (a - KOFFSET) = unat a - 0xC0000000" "unat a \<ge> 0xC0000000"
    using assms(2) by (simp_all add: kok_def kread_def unat_sub word_le_nat_alt)
  moreover have "kcontents s2 = store_bytes (kcontents s) (unat a) n d"
    using u s2(3) s1(3) by (auto simp: kcontents_def store_bytes_def fun_eq_iff)
  moreover have "len_ok n" using s1(5) by (auto simp: ram_def cache_ok_def)
  ultimately show ?thesis
    using s1 s2 sans_mem_mmu [OF s2(4)] kernel_access(2) [OF assms(1)] by simp
qed

interpretation kv: byte_memory "\<lambda>a n s. vaddr_read a SREG_DS n s" "\<lambda>a n d s. vaddr_write a SREG_DS n d s"
  "kinv p t" "kok p t" kcontents sans_mmu for p t
proof unfold_locales
  show "\<exists>s'. vaddr_read a SREG_DS n s = Inr (le_read (\<lambda>i. kcontents s (unat a + i)) n, s') \<and>
      kinv p t s' \<and> kcontents s' = kcontents s \<and> sans_mmu s' = sans_mmu s"
    if "kinv p t s" "kok p t s a n" for s a n
    using that by (intro kernel_read) (simp_all add: kok_def)
qed (rule kernel_write kok_core; assumption)+

lemma kernel_readable: "kread s a n \<Longrightarrow> kv.readable p t s a n"
  unfolding kv.readable_def
proof (intro allI impI)
  fix s1
  assume "kread s a n" and s1: "kinv p t s1 \<and> sans_mmu s1 = sans_mmu s"
  then have "kread s1 a n" using sans_mmuD(2) [of s1 s] by (simp add: kread_def ram_def)
  with s1 show "\<exists>s2. vaddr_read a SREG_DS n s1 = Inr (le_read (\<lambda>i. kcontents s1 (unat a + i)) n, s2) \<and>
      kinv p t s2 \<and> kcontents s2 = kcontents s1 \<and> sans_mmu s2 = sans_mmu s1"
    by (intro kernel_read) simp_all
qed

text \<open>An array of the kernel, outside the page tables and every device map.\<close>

definition kregion :: "u32 \<Rightarrow> u32 \<Rightarrow> mach \<Rightarrow> u32 \<Rightarrow> nat \<Rightarrow> bool" where
  "kregion p t s a n \<longleftrightarrow> KOFFSET \<le> a \<and> unat a mod 4 = 0 \<and> unat (a - KOFFSET) + n \<le> MEM_SIZE_B \<and>
     (\<forall>x. unat (a - KOFFSET) \<le> unat x \<and> unat x < unat (a - KOFFSET) + n \<longrightarrow> is_mmio x (mmio_st s) = None) \<and>
     (unat (a - KOFFSET) + n \<le> unat p \<or> unat p + 4096 \<le> unat (a - KOFFSET)) \<and>
     (unat (a - KOFFSET) + n \<le> unat t \<or> unat t + 131072 \<le> unat (a - KOFFSET))"

lemma kregion_ok:
  assumes "kregion p t s a n" and "k + len \<le> n" and "len \<in> {1, 2, 4}" and "k mod len = 0"
  shows "kok p t s (a + of_nat k) len" and "unat (a + of_nat k) = unat a + k"
proof -
  let ?b = "a - KOFFSET"
  note r = assms(1) [unfolded kregion_def]
  have b: "unat ?b = unat a - 0xC0000000" "0xC0000000 \<le> unat a"
    using r by (simp_all add: unat_sub word_le_nat_alt)
  have lim: "unat ?b + n \<le> 134217728" using r by (simp add: MEM_SIZE_B_def)
  have ub: "unat (?b + of_nat k) = unat ?b + k"
    using lim assms(2) by (intro unat_offset) linarith
  show ua: "unat (a + of_nat k) = unat a + k"
    using lim b assms(2) by (intro unat_offset) linarith
  have "unat a mod len = 0"
    using r assms(3) by (auto intro: mod_mod_cancel [THEN subst])
  moreover have "(0xC0000000 :: nat) mod len = 0" using assms(3) by auto
  ultimately have "(unat a - 0xC0000000) mod len = 0" using b(2) by (simp add: mod_eq_0_iff_dvd)
  then have "(unat ?b + k) mod len = 0" using assms(4) b(1) by (simp add: mod_eq_0_iff_dvd)
  then have "ram s (?b + of_nat k) len"
    using r ub assms(2) cache_ok_aligned [OF assms(3), of "?b + of_nat k"] assms(3)
    by (auto simp: ram_def)
  moreover have e: "a + of_nat k - KOFFSET = ?b + of_nat k" by simp
  moreover have "KOFFSET \<le> a + of_nat k" using ua b(2) by (simp add: word_le_nat_alt)
  ultimately show "kok p t s (a + of_nat k) len"
    using r ub assms(2) unfolding kok_def kread_def e by linarith
qed

lemma kregion_lim:
  assumes "kregion p t s a n"
  shows "unat a + n < 4294967296"
proof -
  have "unat (a - KOFFSET) = unat a - 0xC0000000" "unat (a - KOFFSET) + n \<le> 134217728"
    using assms by (auto simp: kregion_def unat_sub word_le_nat_alt MEM_SIZE_B_def)
  then show ?thesis by linarith
qed

lemma kregion_core: "sans_mmu s' = sans_mmu s \<Longrightarrow> kregion p t s' a n = kregion p t s a n"
  using sans_mmuD(2) [of s' s] by (simp add: kregion_def)

section \<open>\<open>init_segment\<close>\<close>

text \<open>The assignments to the bit fields of a descriptor make up its two words.\<close>

definition set_segment :: "u32 \<Rightarrow> u32 \<Rightarrow> u32 \<Rightarrow> mach \<Rightarrow> mach res" where
  "set_segment ptr pl ty s =
     bindE (k_store ptr 0xFFFF s) (\<lambda>s.
       k_store (ptr + 4)
         (push_bit 8 (ty AND mask 4) OR push_bit 12 1 OR push_bit 13 (pl AND mask 2) OR push_bit 15 1 OR
          push_bit 16 0xF OR push_bit 22 1 OR push_bit 23 1) s)"

text \<open>\<open>desc\<close> is the address of the static array; \<open>lgdt\<close> reads it back through the linear address.\<close>

definition write_gdtr :: "u32 \<Rightarrow> u32 \<Rightarrow> u32 \<Rightarrow> mach \<Rightarrow> mach res" where
  "write_gdtr desc addr sz s =
     bindE (ds_write desc 2 (sz - 1) s) (\<lambda>s.
     bindE (ds_write (desc + 2) 2 addr s) (\<lambda>s.
     bindE (ds_write (desc + 4) 2 (drop_bit 16 addr) s) (\<lambda>s.
     bindE (laddr_read desc 2 s) (\<lambda>(limit, s).
     bindE (laddr_read (desc + 2) 4 s) (\<lambda>(base, s).
       Inr (upd_cpu (\<lambda>c. c\<lparr>gdtr_limit := limit AND mask 16, gdtr_base := base\<rparr>) s))))))"

definition init_segment :: "u32 \<Rightarrow> u32 \<Rightarrow> mach \<Rightarrow> mach res" where
  "init_segment gdt desc s =
     bindE (memset ds_write gdt 0 (3 * 8) s) (\<lambda>s.
     bindE (set_segment (gdt + 8 * 1) 0 (0x8 OR 0x2) s) (\<lambda>s.
     bindE (set_segment (gdt + 8 * 2) 0 0x2 s) (\<lambda>s.
       write_gdtr desc gdt (3 * 8) s)))"

lemma kinv_cpu:
  assumes "kinv p t s" and "mem s' = mem s" and "tlb s' = tlb s" and "mmio_st s' = mmio_st s"
    and "cr0 (cpu s') = cr0 (cpu s)" and "cr3 (cpu s') = cr3 (cpu s)"
    and "sr_base (segReg (cpu s') SREG_DS) = sr_base (segReg (cpu s) SREG_DS)"
  shows "kinv p t s'"
proof -
  have b: "tables_built s' p t" using assms(1,2,4) tables_built_cong [of s p t s'] by (simp add: kinv_def)
  have "tlb_ok s'" by (rule tlb_ok_kernel [of s p t]) (use assms(1,3,6) b in \<open>simp_all add: kinv_def\<close>)
  then show ?thesis using assms b by (simp add: kinv_def)
qed

lemma mword_other: "b + 4 \<le> a \<or> a + n \<le> b \<Longrightarrow> mword (store_bytes m a n d) b = mword m b"
  by (simp add: mword_def le_read_store_other)

abbreviation kword :: "mach \<Rightarrow> u32 \<Rightarrow> u32" where
  "kword s a \<equiv> mword (kcontents s) (unat a)"

lemma kernel_laddr:
  assumes "kinv p t s" and "kok p t s a n"
  shows "\<exists>s'. laddr_read a n s = Inr (le_read (\<lambda>i. kcontents s (unat a + i)) n, s') \<and> kinv p t s' \<and>
    kcontents s' = kcontents s \<and> sans_mmu s' = sans_mmu s"
proof -
  have "len_ok n" using assms(2) by (auto simp: kok_def kread_def ram_def cache_ok_def)
  then show ?thesis using kv.rd_law [OF assms] kernel_access(1,3) [OF assms(1)] by simp
qed

lemma kernel_laddr_read:
  assumes "kinv p t s" and "kok p t s a 4"
  shows "\<exists>s'. laddr_read a 4 s = Inr (kword s a, s') \<and> kinv p t s' \<and> kcontents s' = kcontents s \<and> sans_mmu s' = sans_mmu s"
  using kernel_laddr [OF assms] by (simp add: mword_def)

text \<open>The emulator accepts a flat descriptor and loads its fields.\<close>

lemma load_flat_desc:
  assumes "kinv p t s" and "gdtr_base (cpu s) = gdt" and "kregion p t s gdt 24" and "i \<in> {1, 2}"
    and "sel_index (sreg_val r s) = i" and "kword s (gdt + 8 * i) = 0xFFFF"
    and "kword s (gdt + 8 * i + 4) = 0xCF9000 OR push_bit 8 ty" and "ty \<in> {0xA, 2}"
  shows "\<exists>s'. load_sreg r s = Inr s' \<and> sr_base (segReg (cpu s') r) = 0 \<and> sr_limit (segReg (cpu s') r) = 0xfffff \<and>
    sr_type (segReg (cpu s') r) = ty \<and> sr_privilege_level (segReg (cpu s') r) = 0"
proof -
  have o: "kok p t s (gdt + 8 * i) 4" "kok p t s (gdt + 8 * i + 4) 4"
    using kregion_ok(1) [OF assms(3), of 8 4] kregion_ok(1) [OF assms(3), of 12 4]
      kregion_ok(1) [OF assms(3), of 16 4] kregion_ok(1) [OF assms(3), of 20 4] assms(4)
    by (auto simp: add.commute add.left_commute)
  obtain s1 where s1: "laddr_read (gdt + 8 * i) 4 s = Inr (0xFFFF, s1)" "kinv p t s1" "kcontents s1 = kcontents s"
    "sans_mmu s1 = sans_mmu s" using kernel_laddr_read [OF assms(1) o(1)] assms(6) by auto
  have "kok p t s1 (gdt + 8 * i + 4) 4" using o(2) kok_core [OF s1(4)] by simp
  from kernel_laddr_read [OF s1(2) this] obtain s2 where
    s2: "laddr_read (gdt + 8 * i + 4) 4 s1 = Inr (0xCF9000 OR push_bit 8 ty, s2)"
    using s1(3) assms(7) by auto
  have c: "cpu s1 = cpu s" by (rule sans_mmuD(1) [OF s1(4)])
  show ?thesis
    using s1(1) s2 assms(2,5,8) c
    by (auto simp: load_sreg_def Let_def field_def upd_sreg_def)
qed

lemma kernel_store:
  assumes "kinv p t s" and "sans_mmu s = sans_mmu s0" and "kok p t s0 a n"
    and "\<And>s'. ds_write a n d s = Inr s' \<Longrightarrow> kinv p t s' \<Longrightarrow> sans_mmu s' = sans_mmu s0 \<Longrightarrow>
      kcontents s' = store_bytes (kcontents s) (unat a) n d \<Longrightarrow> thesis"
  shows thesis
  using kernel_write [OF assms(1), of a n d] assms(2,3,4) kok_core [OF assms(2)] by auto

lemma set_segment_ok:
  assumes "kinv p t s" and "kok p t s ptr 4" and "kok p t s (ptr + 4) 4" and "unat (ptr + 4) = unat ptr + 4"
  obtains s' where "set_segment ptr pl ty s = Inr s'" and "kinv p t s'" and "sans_mmu s' = sans_mmu s"
    and "kword s' ptr = 0xFFFF"
    and "kword s' (ptr + 4) = 0xCF9000 OR push_bit 8 (ty AND mask 4) OR push_bit 13 (pl AND mask 2)"
    and "\<And>b. b + 4 \<le> unat ptr \<or> unat ptr + 8 \<le> b \<Longrightarrow> mword (kcontents s') b = mword (kcontents s) b"
proof -
  let ?hi = "push_bit 8 (ty AND mask 4) OR push_bit 12 1 OR push_bit 13 (pl AND mask 2) OR push_bit 15 1 OR
      push_bit 16 0xF OR push_bit 22 1 OR push_bit 23 1 :: u32"
  have hi: "?hi = 0xCF9000 OR push_bit 8 (ty AND mask 4) OR push_bit 13 (pl AND mask 2)"
  proof -
    have "(0xCF9000 :: u32) = push_bit 12 1 OR push_bit 15 1 OR push_bit 16 0xF OR push_bit 22 1 OR push_bit 23 1"
      by simp
    then show ?thesis by (simp only: or.assoc or.left_commute or.commute)
  qed
  obtain s1 where s1: "k_store ptr 0xFFFF s = Inr s1" "kinv p t s1" "sans_mmu s1 = sans_mmu s"
    "kcontents s1 = store_bytes (kcontents s) (unat ptr) 4 0xFFFF"
    by (rule kernel_store [OF assms(1) refl assms(2)])
  obtain s2 where s2: "k_store (ptr + 4) ?hi s1 = Inr s2" "kinv p t s2" "sans_mmu s2 = sans_mmu s"
    "kcontents s2 = store_bytes (kcontents s1) (unat ptr + 4) 4 ?hi"
    by (rule kernel_store [OF s1(2,3) assms(3)]) (simp add: assms(4))
  show ?thesis
  proof (rule that)
    show "set_segment ptr pl ty s = Inr s2" using s1(1) s2(1) by (simp add: set_segment_def)
    show "kword s2 (ptr + 4) = 0xCF9000 OR push_bit 8 (ty AND mask 4) OR push_bit 13 (pl AND mask 2)"
      by (simp only: s2(4) assms(4) mword_store_same hi)
  qed (use s1 s2 in \<open>auto simp: mword_other\<close>)
qed

lemma write_gdtr_ok:
  assumes "kinv p t s" and "kregion p t s desc 6" and "kok p t s (desc + 2) 4"
  obtains s' where "write_gdtr desc addr sz s = Inr s'" and "kinv p t s'" and "mmio_st s' = mmio_st s"
    and "gdtr_base (cpu s') = addr" and "gdtr_limit (cpu s') = take_bit 16 (sz - 1)"
    and "\<And>b. b + 4 \<le> unat desc \<or> unat desc + 6 \<le> b \<Longrightarrow> mword (kcontents s') b = mword (kcontents s) b"
proof -
  let ?C = "kcontents s" and ?d = "unat desc"
  note ds = kregion_ok [OF assms(2)]
  have u: "unat (desc + 2) = ?d + 2" "unat (desc + 4) = ?d + 4" using ds(2) [of 2 2] ds(2) [of 4 2] by simp_all
  have o: "kok p t s desc 2" "kok p t s (desc + 2) 2" "kok p t s (desc + 4) 2"
    using ds(1) [of 0 2] ds(1) [of 2 2] ds(1) [of 4 2] by simp_all
  obtain s1 where s1: "ds_write desc 2 (sz - 1) s = Inr s1" "kinv p t s1" "sans_mmu s1 = sans_mmu s"
    "kcontents s1 = store_bytes ?C ?d 2 (sz - 1)"
    by (rule kernel_store [OF assms(1) refl o(1)])
  obtain s2 where s2: "ds_write (desc + 2) 2 addr s1 = Inr s2" "kinv p t s2" "sans_mmu s2 = sans_mmu s"
    "kcontents s2 = store_bytes (kcontents s1) (?d + 2) 2 addr"
    by (rule kernel_store [OF s1(2,3) o(2)]) (simp add: u)
  obtain s3 where s3: "ds_write (desc + 4) 2 (drop_bit 16 addr) s2 = Inr s3" "kinv p t s3" "sans_mmu s3 = sans_mmu s"
    "kcontents s3 = store_bytes (kcontents s2) (?d + 4) 2 (drop_bit 16 addr)"
    by (rule kernel_store [OF s2(2,3) o(3)]) (simp add: u)
  have C: "kcontents s3 = store_bytes (store_bytes (store_bytes ?C ?d 2 (sz - 1)) (?d + 2) 2 addr) (?d + 4) 2 (drop_bit 16 addr)"
    by (simp only: s1(4) s2(4) s3(4))
  have half: "le_read (\<lambda>i. kcontents s3 (?d + i)) 2 = take_bit 16 (sz - 1)"
    using le_read_store_same [of ?C ?d 2 "sz - 1"] unfolding C by (simp add: le_read_store_other)
  have "le_read (\<lambda>i. kcontents s3 (?d + 2 + i)) 2 =
      le_read (\<lambda>i. store_bytes (store_bytes ?C ?d 2 (sz - 1)) (?d + 2) 2 addr (?d + 2 + i)) 2"
    unfolding C by (rule le_read_store_other) simp
  also have "\<dots> = take_bit 16 addr"
    using le_read_store_same [of "store_bytes ?C ?d 2 (sz - 1)" "?d + 2" 2 addr] by simp
  finally have "le_read (\<lambda>i. kcontents s3 (?d + 2 + i)) 2 = take_bit 16 addr" .
  moreover have "?d + 2 + (2 + i) = ?d + 4 + i" for i by simp
  then have "le_read (\<lambda>i. kcontents s3 (?d + 2 + (2 + i))) 2 = take_bit (8 * 2) (drop_bit 16 addr)"
    unfolding C by (simp only: le_read_store_same)
  ultimately have "kword s3 (desc + 2) = push_bit 16 (take_bit 16 (drop_bit 16 addr)) OR take_bit 16 addr"
    using le_read_append [of 2 2 "\<lambda>i. kcontents s3 (?d + 2 + i)"] by (simp add: mword_def u)
  also have "\<dots> = addr"
    by (rule bit_word_eqI) (auto simp: bit_or_iff bit_push_bit_iff bit_take_bit_iff bit_drop_bit_eq)
  finally have full: "kword s3 (desc + 2) = addr" .
  have d: "kok p t s3 desc 2" using o(1) kok_core [OF s3(3)] by simp
  obtain s4 where s4: "laddr_read desc 2 s3 = Inr (take_bit 16 (sz - 1), s4)" "kinv p t s4" "kcontents s4 = kcontents s3"
    "sans_mmu s4 = sans_mmu s"
    using kernel_laddr [OF s3(2) d] half s3(3) by auto
  have d: "kok p t s4 (desc + 2) 4" using assms(3) kok_core [OF s4(4)] by simp
  obtain s5 where s5: "laddr_read (desc + 2) 4 s4 = Inr (addr, s5)" "kinv p t s5" "kcontents s5 = kcontents s3"
    "sans_mmu s5 = sans_mmu s"
    using kernel_laddr_read [OF s4(2) d] full s4(3,4) by (auto simp: mword_def)
  define s' where "s' = upd_cpu (\<lambda>c. c\<lparr>gdtr_limit := take_bit 16 (sz - 1), gdtr_base := addr\<rparr>) s5"
  have "take_bit 16 (sz - 1) AND mask 16 = take_bit 16 (sz - 1)"
    by (rule bit_word_eqI) (auto simp: bit_take_bit_iff bit_and_iff bit_mask_iff)
  then have run: "write_gdtr desc addr sz s = Inr s'"
    using s1(1) s2(1) s3(1) s4(1) s5(1) by (simp add: write_gdtr_def s'_def)
  have "kinv p t s'" by (rule kinv_cpu [OF s5(2)]) (simp_all add: s'_def upd_cpu_def)
  moreover have "kcontents s' = kcontents s3" using s5(3) kcontents_mem [of s' s5] by (simp add: s'_def upd_cpu_def)
  moreover have "mmio_st s' = mmio_st s" using sans_mmuD(2) [OF s5(4)] by (simp add: s'_def upd_cpu_def)
  moreover have "mword (kcontents s3) b = mword ?C b" if "b + 4 \<le> ?d \<or> ?d + 6 \<le> b" for b
    using that unfolding C by (auto simp: mword_other)
  ultimately show ?thesis using run by (intro that [of s']) (simp_all add: s'_def upd_cpu_def)
qed

lemma init_segment_run:
  assumes "kinv p t s" and "kregion p t s gdt 24" and "kregion p t s desc 6"
    and "unat gdt + 24 \<le> unat desc \<or> unat desc + 6 \<le> unat gdt" and "kok p t s (desc + 2) 4"
  obtains s' where "init_segment gdt desc s = Inr s'" and "kinv p t s'" and "gdtr_base (cpu s') = gdt"
    and "gdtr_limit (cpu s') = 23" and "mmio_st s' = mmio_st s"
    and "kword s' (gdt + 8) = 0xFFFF" and "kword s' (gdt + 12) = 0xCF9A00"
    and "kword s' (gdt + 16) = 0xFFFF" and "kword s' (gdt + 20) = 0xCF9200"
proof -
  note gs = kregion_ok [OF assms(2)]
  have u: "unat (gdt + 8) = unat gdt + 8" "unat (gdt + 12) = unat gdt + 12" "unat (gdt + 16) = unat gdt + 16"
    "unat (gdt + 20) = unat gdt + 20"
    using gs(2) [of 8 4] gs(2) [of 12 4] gs(2) [of 16 4] gs(2) [of 20 4] by simp_all
  have o: "kok p t s (gdt + 8) 4" "kok p t s (gdt + 12) 4" "kok p t s (gdt + 16) 4" "kok p t s (gdt + 20) 4"
    using gs(1) [of 8 4] gs(1) [of 12 4] gs(1) [of 16 4] gs(1) [of 20 4] by simp_all
  have a: "gdt + 8 + 4 = gdt + 12" "gdt + 16 + 4 = gdt + 20" by simp_all
  have "\<forall>k<24. kok p t s (gdt + of_nat k) 1" using gs(1) [of _ 1] by simp
  from kv.memset_law [OF assms(1) this kregion_lim [OF assms(2)]] obtain s0 where
    s0: "memset ds_write gdt 0 24 s = Inr s0" "kinv p t s0" "sans_mmu s0 = sans_mmu s" by blast
  note k0 = kok_core [OF s0(3)]
  obtain s1 where s1: "set_segment (gdt + 8) 0 0xA s0 = Inr s1" "kinv p t s1" "sans_mmu s1 = sans_mmu s0"
    "kword s1 (gdt + 8) = 0xFFFF"
    "kword s1 (gdt + 8 + 4) = 0xCF9000 OR push_bit 8 (0xA AND mask 4) OR push_bit 13 (0 AND mask 2)"
    by (rule set_segment_ok [OF s0(2), where ptr = "gdt + 8" and pl = 0 and ty = "0xA"])
      (use o k0 u in \<open>simp_all add: add.assoc\<close>)
  have c1: "sans_mmu s1 = sans_mmu s" using s1(3) s0(3) by simp
  obtain s2 where s2: "set_segment (gdt + 16) 0 2 s1 = Inr s2" "kinv p t s2" "sans_mmu s2 = sans_mmu s1"
    "kword s2 (gdt + 16) = 0xFFFF"
    "kword s2 (gdt + 16 + 4) = 0xCF9000 OR push_bit 8 (2 AND mask 4) OR push_bit 13 (0 AND mask 2)"
    "\<And>b. b + 4 \<le> unat (gdt + 16) \<or> unat (gdt + 16) + 8 \<le> b \<Longrightarrow> mword (kcontents s2) b = mword (kcontents s1) b"
    by (rule set_segment_ok [OF s1(2), where ptr = "gdt + 16" and pl = 0 and ty = 2])
      (use o kok_core [OF c1] u in \<open>simp_all add: add.assoc\<close>)
  have v: "0xCF9000 OR push_bit 8 (0xA AND mask 4) OR push_bit 13 (0 AND mask 2) = (0xCF9A00 :: u32)"
    "0xCF9000 OR push_bit 8 (2 AND mask 4) OR push_bit 13 (0 AND mask 2) = (0xCF9200 :: u32)"
    by (simp_all add: mask_eq_exp_minus_1)
  have c2: "sans_mmu s2 = sans_mmu s" using s2(3) c1 by simp
  obtain s' where s': "write_gdtr desc gdt 24 s2 = Inr s'" "kinv p t s'" "mmio_st s' = mmio_st s2" "gdtr_base (cpu s') = gdt"
    "gdtr_limit (cpu s') = take_bit 16 (24 - 1)"
    "\<And>b. b + 4 \<le> unat desc \<or> unat desc + 6 \<le> b \<Longrightarrow> mword (kcontents s') b = mword (kcontents s2) b"
    using write_gdtr_ok [OF s2(2), of desc gdt 24] assms(3,5) kok_core [OF c2] kregion_core [OF c2] by metis
  have run: "init_segment gdt desc s = Inr s'"
    using s0(1) s1(1) s2(1) s'(1) by (simp add: init_segment_def)
  have "mmio_st s' = mmio_st s" using s'(3) sans_mmuD(2) [OF c2] by simp
  moreover have "kword s' (gdt + n) = kword s2 (gdt + n)" if "n \<in> {8, 12, 16, 20}" for n
    using that assms(4) u by (intro s'(6)) auto
  moreover have "kword s2 (gdt + n) = kword s1 (gdt + n)" if "n \<in> {8, 12}" for n
    using that u by (intro s2(6)) auto
  ultimately show ?thesis
    using run s'(2,4,5) s1(4,5) s2(4,5) unfolding a v by (intro that [of s']) simp_all
qed

text \<open>
  The table that \<open>init_segment\<close> builds in kernel space, behind paging, is accepted by the
  emulator: GDTR points to it and loading any segment register with the kernel's code or data
  selector succeeds with base 0, limit \<open>0xfffff\<close>, the segment's type and privilege level 0.
\<close>

lemma init_segment_loads:
  assumes "kinv p t s" and "kregion p t s gdt 24" and "kregion p t s desc 6"
    and "unat gdt + 24 \<le> unat desc \<or> unat desc + 6 \<le> unat gdt" and "kok p t s (desc + 2) 4"
  shows "\<exists>s'. init_segment gdt desc s = Inr s' \<and> kinv p t s' \<and> gdtr_base (cpu s') = gdt \<and> gdtr_limit (cpu s') = 23 \<and>
    (\<forall>r sel. sel_index sel \<in> {1, 2} \<longrightarrow>
      (\<exists>s''. load_sreg r (upd_sreg r (\<lambda>x. x\<lparr>sr_val := sel\<rparr>) s') = Inr s'' \<and>
        sr_base (segReg (cpu s'') r) = 0 \<and> sr_limit (segReg (cpu s'') r) = 0xfffff \<and>
        sr_type (segReg (cpu s'') r) = (if sel_index sel = 1 then 0xA else 2) \<and>
        sr_privilege_level (segReg (cpu s'') r) = 0))"
proof -
  obtain s' where s': "init_segment gdt desc s = Inr s'" "kinv p t s'" "gdtr_base (cpu s') = gdt" "gdtr_limit (cpu s') = 23"
    and m: "mmio_st s' = mmio_st s"
    and w: "kword s' (gdt + 8) = 0xFFFF" "kword s' (gdt + 12) = 0xCF9A00"
      "kword s' (gdt + 16) = 0xFFFF" "kword s' (gdt + 20) = 0xCF9200"
    by (rule init_segment_run [OF assms])
  have "\<exists>s''. load_sreg r (upd_sreg r (\<lambda>x. x\<lparr>sr_val := sel\<rparr>) s') = Inr s'' \<and>
        sr_base (segReg (cpu s'') r) = 0 \<and> sr_limit (segReg (cpu s'') r) = 0xfffff \<and>
        sr_type (segReg (cpu s'') r) = (if sel_index sel = 1 then 0xA else 2) \<and>
        sr_privilege_level (segReg (cpu s'') r) = 0" if "sel_index sel \<in> {1, 2}" for r sel
  proof -
    let ?s = "upd_sreg r (\<lambda>x. x\<lparr>sr_val := sel\<rparr>) s'"
    have c: "kcontents ?s = kcontents s'" using kcontents_mem [of ?s s'] by (simp add: upd_sreg_def)
    have "kinv p t ?s" by (rule kinv_cpu [OF s'(2)]) (simp_all add: upd_sreg_def)
    moreover have "gdtr_base (cpu ?s) = gdt" using s'(3) by (simp add: upd_sreg_def)
    moreover have "kregion p t ?s gdt 24" using assms(2) m by (simp add: kregion_def upd_sreg_def)
    moreover have "sel_index (sreg_val r ?s) = sel_index sel" by (simp add: sreg_val_def upd_sreg_def)
    moreover have "kword ?s (gdt + 8 * sel_index sel) = 0xFFFF"
      "kword ?s (gdt + 8 * sel_index sel + 4) = 0xCF9000 OR push_bit 8 (if sel_index sel = 1 then 0xA else 2)"
      using that w unfolding c by (auto simp: add.assoc)
    ultimately show ?thesis using load_flat_desc [of p t ?s gdt "sel_index sel" r] that by simp
  qed
  then show ?thesis using s' by blast
qed

text \<open>The kernel's address space is set up by \<open>init_page\<close>.\<close>

lemma init_page_kinv:
  assumes "flat SREG_DS s" and "region s (va_to_pa kpdir) 4096" and "region s (va_to_pa kptable) 131072"
    and "unat (va_to_pa kpdir) + 4096 \<le> unat (va_to_pa kptable) \<or>
      unat (va_to_pa kptable) + 131072 \<le> unat (va_to_pa kpdir)"
    and "tlb_empty s"
  shows "\<exists>s'. init_page kpdir kptable s = Inr s' \<and> kinv (va_to_pa kpdir) (va_to_pa kptable) s' \<and> mmio_st s' = mmio_st s"
proof -
  obtain s' where s': "init_page kpdir kptable s = Inr s'" "tables_built s' (va_to_pa kpdir) (va_to_pa kptable)"
    "cr3 (cpu s') = va_to_pa kpdir" "cr0 (cpu s') = put_bit 31 True (cr0 (cpu s))"
    "sr_base (segReg (cpu s') SREG_DS) = sr_base (segReg (cpu s) SREG_DS)"
    "coherent (mem s')" "tlb s' = tlb s" "mmio_st s' = mmio_st s"
    using init_page_run [OF assms(1-4)] by blast
  then have "kinv (va_to_pa kpdir) (va_to_pa kptable) s'"
    using assms(1,5) by (auto simp: kinv_def flat_def tlb_ok_def tlb_empty_def cr0_pg_def cr0_pe_def)
  then show ?thesis using s' by blast
qed

theorem init_segment_loads_witness:
  "\<exists>s s'. init_page 0xC0100000 0xC0101000 boot_mach = Inr s \<and> init_segment 0xC0200000 0xC0200040 s = Inr s' \<and>
     gdtr_base (cpu s') = 0xC0200000"
proof -
  obtain s where s: "init_page 0xC0100000 0xC0101000 boot_mach = Inr s" "kinv 0x100000 0x101000 s" "mmio_st s = mmio_st boot_mach"
    using init_page_kinv [OF boot_mach_ok] by (auto simp: va_to_pa_def)
  have m: "is_mmio x (mmio_st s) = None" for x
    by (simp add: s(3) is_mmio_def boot_mach_def init_all_tlb_def make_all_tlb_def zero_mach_def)
  have r: "kregion 0x100000 0x101000 s 0xC0200000 24" "kregion 0x100000 0x101000 s 0xC0200040 6"
    by (simp_all add: kregion_def m MEM_SIZE_B_def)
  have k: "kok 0x100000 0x101000 s (0xC0200040 + 2) 4"
    by (simp add: kok_def kread_def ram_def m cache_ok_def block_num_eq MEM_SIZE_B_def)
  have "unat (0xC0200000 :: u32) + 24 \<le> unat (0xC0200040 :: u32) \<or> unat (0xC0200040 :: u32) + 6 \<le> unat (0xC0200000 :: u32)"
    by simp
  from init_segment_loads [OF s(2) r this k] s(1) show ?thesis by blast
qed

end
