(* ===== verification/KUser.thy ===== *)
theory KUser
  imports KSpace
begin

text \<open>
  The address space of the user program, \<open>kernel/src/memory/mm.c\<close> and \<open>vmem.c\<close>: a page directory
  of its own that shares the kernel's half of the mapping.
\<close>

section \<open>\<open>mm.c\<close>\<close>

text \<open>The result is \<open>ucr3\<close>.\<close>

definition init_mm :: "u32 \<Rightarrow> u32 \<Rightarrow> mach \<Rightarrow> (u32 \<times> mach) res" where
  "init_mm updir kpdir s =
     bindE (memset ds_write updir 0 (NR_PDE * 4) s) (\<lambda>s.
     bindE (memcpy ds_read ds_write (updir + 4 * 768) (kpdir + 4 * 768) (PHY_MEM div PT_SIZE * 4) s) (\<lambda>s.
       Inr (va_to_pa updir AND NOT 0x3ff, s)))"

text \<open>
  \<open>mm_malloc\<close> is linked from a binary object; it is an argument. \<open>brk\<close> is the program break before
  the call, the result is the new one.
\<close>

type_synonym malloc = "u32 \<Rightarrow> u32 \<Rightarrow> mach \<Rightarrow> (u32 \<times> mach) res"

definition mm_brk :: "malloc \<Rightarrow> u32 \<Rightarrow> u32 \<Rightarrow> mach \<Rightarrow> (u32 \<times> mach) res" where
  "mm_brk mm_malloc new_brk brk s =
     bindE (if new_brk > brk then bindE (mm_malloc brk (new_brk - brk) s) (\<lambda>(_, s). Inr s) else Inr s)
       (\<lambda>s. Inr (new_brk, s))"

section \<open>\<open>vmem.c\<close>\<close>

abbreviation (input) "VMEM_ADDR \<equiv> 0xa0000 :: u32"
abbreviation (input) "SCR_SIZE \<equiv> 320 * 200 :: nat"
abbreviation (input) "NR_PT \<equiv> (SCR_SIZE + PT_SIZE - 1) div PT_SIZE"

fun video_dir :: "nat \<Rightarrow> u32 \<Rightarrow> nat \<Rightarrow> u32 \<Rightarrow> u32 \<Rightarrow> mach \<Rightarrow> mach res" where
  "video_dir 0 updir i uptable pframe_idx s = Inr s"
| "video_dir (Suc n) updir i uptable pframe_idx s =
     bindE (k_store (updir + 4 * of_nat i) (make_pde uptable) s) (\<lambda>s.
     bindE (fill_table 1024 uptable pframe_idx s) (\<lambda>((uptable, pframe_idx), s).
       video_dir n updir (Suc i) uptable pframe_idx s))"

definition create_video_mapping :: "u32 \<Rightarrow> u32 \<Rightarrow> mach \<Rightarrow> mach res" where
  "create_video_mapping updir ptable s =
     video_dir NR_PT (va_to_pa updir) 0 (va_to_pa ptable) 0 s"

fun video_write :: "nat \<Rightarrow> nat \<Rightarrow> mach \<Rightarrow> mach res" where
  "video_write 0 i s = Inr s"
| "video_write (Suc n) i s =
     bindE (k_store (VMEM_ADDR + 4 * of_nat i) (of_nat i) s) (video_write n (Suc i))"

definition video_mapping_write_test :: "mach \<Rightarrow> mach res" where
  "video_mapping_write_test s = video_write (SCR_SIZE div 4) 0 s"

fun video_read :: "nat \<Rightarrow> nat \<Rightarrow> mach \<Rightarrow> mach res" where
  "video_read 0 i s = Inr s"
| "video_read (Suc n) i s =
     bindE (k_load (VMEM_ADDR + 4 * of_nat i) s) (\<lambda>(v, s).
     assertE ''video_mapping_read_test'' (v = of_nat i) (video_read n (Suc i) s))"

definition video_mapping_read_test :: "mach \<Rightarrow> mach res" where
  "video_mapping_read_test s = video_read (SCR_SIZE div 4) 0 s"

definition video_mapping_clear :: "mach \<Rightarrow> mach res" where
  "video_mapping_clear s = memset ds_write VMEM_ADDR 0 SCR_SIZE s"

section \<open>The shared half\<close>

text \<open>An aligned array of the kernel is one of physical memory.\<close>

lemma kregion_region:
  assumes "kregion p t s a n" and "unat a mod 4096 = 0"
  shows "region s (va_to_pa a) n" and "unat (va_to_pa a) = unat a - 0xC0000000" and "0xC0000000 \<le> unat a"
proof -
  show u: "unat (va_to_pa a) = unat a - 0xC0000000" "0xC0000000 \<le> unat a"
    using assms(1) by (simp_all add: va_to_pa_def kregion_def unat_sub word_le_nat_alt)
  have "(unat a - 786432 * 4096) mod 4096 = 0"
    using assms(2) u(2) by (simp add: mod_eq_0_iff_dvd)
  then show "region s (va_to_pa a) n"
    using assms(1) u by (simp add: region_def kregion_def va_to_pa_def)
qed

lemma mword_kcontents: "mword (hw s) a = mword (kcontents s) (a + 0xC0000000)"
  by (simp add: mword_def kcontents_def)

lemma init_mm_run:
  assumes "kinv p t s" and "kregion p t s updir 4096" and "unat updir mod 4096 = 0"
  shows "\<exists>s'. init_mm updir (p + KOFFSET) s = Inr (va_to_pa updir, s') \<and> kinv p t s' \<and> sans_mmu s' = sans_mmu s \<and>
    (\<forall>k<3072. kcontents s' (unat updir + k) = 0) \<and>
    (\<forall>k<128. kcontents s' (unat updir + 3072 + k) = kcontents s (unat p + 0xC0000000 + 3072 + k))"
proof -
  note ds = kregion_ok [OF assms(2)] and q = kregion_region [OF assms(2,3)]
  have rp: "region s p 4096" using assms(1) by (simp add: kinv_def tables_built_def)
  have up: "unat (p + KOFFSET + of_nat k) = unat p + 0xC0000000 + k" if "k < 4096" for k
    using unat_offset [of p "0xC0000000 + k"] rp that by (simp add: region_def MEM_SIZE_B_def add.assoc)
  have "\<forall>k<4096. kok p t s (updir + of_nat k) 1" using ds(1) [of _ 1] by simp
  from kv.memset_law [OF assms(1) this kregion_lim [OF assms(2)]] obtain s1 where
    s1: "memset ds_write updir 0 4096 s = Inr s1" "kinv p t s1" "sans_mmu s1 = sans_mmu s"
    "kcontents s1 = (\<lambda>i. if unat updir \<le> i \<and> i < unat updir + 4096 then 0 else kcontents s i)" by blast
  have u: "unat (updir + 3072) = unat updir + 3072" "unat (p + KOFFSET + 3072) = unat p + 0xC0000000 + 3072"
    using ds(2) [of 3072 4] up [of 3072] by simp_all
  have "\<forall>k<128. kok p t s1 (updir + 3072 + of_nat k) 1"
    using ds(1) [of "3072 + k" 1 for k] kok_core [OF s1(3)] by (simp add: add.assoc)
  moreover have "kread s1 (p + KOFFSET + 3072 + of_nat k) 1" if "k < 128" for k
  proof -
    have e: "p + KOFFSET + 3072 + of_nat k = p + KOFFSET + of_nat (3072 + k)" by simp
    have "ram s (p + of_nat (3072 + k)) 1" using region_ram(1) [OF rp, of "3072 + k" 1] that by simp
    moreover have "KOFFSET \<le> p + KOFFSET + of_nat (3072 + k)"
      using up [of "3072 + k"] that unfolding word_le_nat_alt by simp
    moreover have "p + KOFFSET + of_nat (3072 + k) - KOFFSET = p + of_nat (3072 + k)" by simp
    ultimately show ?thesis
      unfolding e kread_def using sans_mmuD(2) [OF s1(3)] by (simp only: ram_def)
  qed
  then have "\<forall>k<128. kv.readable p t s1 (p + KOFFSET + 3072 + of_nat k) 1" using kernel_readable by blast
  moreover have "unat (updir + 3072) + 128 < 4294967296" "unat (p + KOFFSET + 3072) + 128 < 4294967296"
    "unat (p + KOFFSET + 3072) + 128 \<le> unat (updir + 3072) \<or> unat (updir + 3072) + 128 \<le> unat (p + KOFFSET + 3072)"
    using assms(2) rp q(2,3) kregion_lim [OF assms(2)] u
    by (auto simp: kregion_def region_def MEM_SIZE_B_def va_to_pa_def)
  ultimately obtain s2 where s2: "memcpy ds_read ds_write (updir + 3072) (p + KOFFSET + 3072) 128 s1 = Inr s2"
    "kinv p t s2" "sans_mmu s2 = sans_mmu s1"
    "kcontents s2 = (\<lambda>i. if unat updir + 3072 \<le> i \<and> i < unat updir + 3072 + 128
       then kcontents s1 (unat p + 0xC0000000 + 3072 + (i - (unat updir + 3072))) else kcontents s1 i)"
    using kv.memcpy_law [OF s1(2), of 128 "updir + 3072" "p + KOFFSET + 3072"] unfolding u by blast
  have f: "va_to_pa updir AND NOT PAGE_MASK = va_to_pa updir"
    using q(1) by (intro aligned_frame) (simp add: region_def)
  have "(va_to_pa updir AND NOT PAGE_MASK) AND NOT (mask 10) = va_to_pa updir AND NOT PAGE_MASK"
    by (rule bit_word_eqI) (auto simp: bit_and_iff bit_not_iff bit_mask_iff)
  then have "va_to_pa updir AND NOT (mask 10) = va_to_pa updir" unfolding f .
  then have "va_to_pa updir AND NOT 0x3ff = va_to_pa updir" by (simp add: mask_eq_exp_minus_1)
  then have run: "init_mm updir (p + KOFFSET) s = Inr (va_to_pa updir, s2)"
    using s1(1) s2(1) by (simp add: init_mm_def)
  have "kcontents s2 (unat updir + k) = 0" if "k < 3072" for k
    using that by (simp add: s2(4) s1(4))
  moreover have "kcontents s2 (unat updir + 3072 + k) = kcontents s (unat p + 0xC0000000 + 3072 + k)" if "k < 128" for k
    using that assms(2) q(2,3) unfolding s2(4) s1(4) kregion_def va_to_pa_def by auto
  ultimately show ?thesis using run s2(2,3) s1(3) by auto
qed

text \<open>
  \<^bold>\<open>C14\<close> After \<open>init_mm\<close>, loading its \<open>ucr3\<close> keeps the kernel where it was, every address from
  \<open>KOFFSET\<close> up is still translated to its frame, and maps nothing below \<open>KOFFSET\<close>.
\<close>

theorem init_mm_shares_kernel:
  assumes "kinv p t s" and "kregion p t s updir 4096" and "unat updir mod 4096 = 0"
  shows "\<exists>ucr3 s' u. init_mm updir (p + KOFFSET) s = Inr (ucr3, s') \<and> kinv p t s' \<and>
    u = upd_cpu (\<lambda>c. c\<lparr>cr3 := ucr3\<rparr>) s' \<and>
    (\<forall>a. unat a < PHY_MEM \<longrightarrow> walkable u (a + KOFFSET) \<and> trans u (a + KOFFSET) = a) \<and>
    (\<forall>x < KOFFSET. \<not> pde_present (word_in u (pde_addr u x)))"
proof -
  let ?q = "va_to_pa updir"
  note q = kregion_region [OF assms(2,3)]
  obtain s' where s': "init_mm updir (p + KOFFSET) s = Inr (?q, s')" "kinv p t s'" "sans_mmu s' = sans_mmu s"
    "\<forall>k<3072. kcontents s' (unat updir + k) = 0"
    "\<forall>k<128. kcontents s' (unat updir + 3072 + k) = kcontents s (unat p + 0xC0000000 + 3072 + k)"
    using init_mm_run [OF assms] by blast
  define u where "u = upd_cpu (\<lambda>c. c\<lparr>cr3 := ?q\<rparr>) s'"
  have m: "mem u = mem s'" "mmio_st u = mmio_st s'" "cr3 (cpu u) = ?q" by (simp_all add: u_def upd_cpu_def)
  have rq: "region u ?q 4096" using q(1) sans_mmuD(2) [OF s'(3)] by (simp add: region_def m(2))
  note tb = s'(2) [unfolded kinv_def tables_built_def]
  have rt: "region u t 131072" using tb by (simp add: region_def m(2))
  have tab: "\<forall>k<32768. word_in u (t + of_nat (4 * k)) = make_pte (push_bit 12 (of_nat k))"
    using tb by (simp add: word_in_def m(1))
  have dir: "word_in u (?q + of_nat k) = mword (kcontents s') (unat updir + k)" if "k + 4 \<le> 4096" "k mod 4 = 0" for k
    using word_in_region [OF rq that] q(2,3) kcontents_mem [OF m(1)] by (simp add: mword_kcontents)
  have kern: "word_in u (?q + of_nat (4 * (768 + j))) = make_pde (t + of_nat (4096 * j))" if j: "j < 32" for j
  proof -
    have "word_in u (?q + of_nat (4 * (768 + j))) = mword (kcontents s') (unat updir + 3072 + 4 * j)"
      using dir [of "4 * (768 + j)"] j by (simp add: add.assoc)
    also have "\<dots> = mword (kcontents s) (unat p + 0xC0000000 + 3072 + 4 * j)"
      unfolding mword_def
    proof (rule le_read_cong)
      fix i assume "i < (4 :: nat)"
      then show "kcontents s' (unat updir + 3072 + 4 * j + i) = kcontents s (unat p + 0xC0000000 + 3072 + 4 * j + i)"
        using s'(5) [rule_format, of "4 * j + i"] j by (simp only: add.assoc)
    qed
    also have "\<dots> = mword (hw s) (unat p + 4 * (768 + j))"
    proof -
      have "unat p + 0xC0000000 + 3072 + 4 * j = unat p + 4 * (768 + j) + 0xC0000000" by simp
      then show ?thesis by (simp only: mword_kcontents)
    qed
    also have "\<dots> = word_in s (p + of_nat (4 * (768 + j)))"
      using word_in_region [of s p 4096 "4 * (768 + j)" s] assms(1) j by (simp add: kinv_def tables_built_def)
    also have "\<dots> = make_pde (t + of_nat (4096 * j))"
      using assms(1) j unfolding kinv_def tables_built_def by blast
    finally show ?thesis .
  qed
  have "walkable u (a + KOFFSET) \<and> trans u (a + KOFFSET) = a" if a: "unat a < PHY_MEM" for a
  proof -
    note k = koffset_fields [OF a]
    have "unat a div 4194304 < 32" using a by simp
    then have "word_in u (?q + of_nat (4 * unat (pdir_idx (a + KOFFSET)))) = make_pde (t + of_nat (4096 * (unat a div 4194304)))"
      unfolding k(1) by (rule kern)
    from entry_walk [OF rq rt m(3) a this tab k(2,3)] show ?thesis by simp
  qed
  moreover have "\<not> pde_present (word_in u (pde_addr u x))" if "x < KOFFSET" for x
  proof -
    have "unat (pdir_idx x) < 768" using that by (simp add: pdir_idx_def unat_field word_less_nat_alt)
    moreover have "?q AND NOT PAGE_MASK = ?q" using rq by (intro aligned_frame) (simp add: region_def)
    then have "pde_addr u x = ?q + of_nat (4 * unat (pdir_idx x))" unfolding pde_addr_def m(3) by (simp only: offset_idx)
    ultimately have "word_in u (pde_addr u x) = le_read (\<lambda>i. kcontents s' (unat updir + (4 * unat (pdir_idx x) + i))) 4"
      using dir [of "4 * unat (pdir_idx x)"] by (simp only: mword_def add.assoc) simp
    also have "\<dots> = le_read (\<lambda>i. byte_of i 0) 4"
      using s'(4) \<open>unat (pdir_idx x) < 768\<close> by (intro le_read_cong) (simp add: byte_of_def)
    also have "\<dots> = 0" by (rule le_read_byte_of_4)
    finally show ?thesis by (simp add: pde_present_def)
  qed
  ultimately show ?thesis using s'(1,2) u_def by blast
qed

theorem init_mm_shares_kernel_witness:
  "\<exists>s ucr3 s' u. init_page 0xC0100000 0xC0101000 boot_mach = Inr s \<and>
     init_mm 0xC0200000 0xC0100000 s = Inr (ucr3, s') \<and> u = upd_cpu (\<lambda>c. c\<lparr>cr3 := ucr3\<rparr>) s' \<and>
     trans u 0xC0345678 = 0x345678"
proof -
  obtain s where s: "init_page 0xC0100000 0xC0101000 boot_mach = Inr s" "kinv 0x100000 0x101000 s" "mmio_st s = mmio_st boot_mach"
    using init_page_kinv [OF boot_mach_ok] by (auto simp: va_to_pa_def)
  have m: "is_mmio x (mmio_st s) = None" for x
    by (simp add: s(3) is_mmio_def boot_mach_def init_all_tlb_def make_all_tlb_def zero_mach_def)
  have r: "kregion 0x100000 0x101000 s 0xC0200000 4096" by (simp add: kregion_def m MEM_SIZE_B_def)
  have a: "unat (0xC0200000 :: u32) mod 4096 = 0" by simp
  obtain ucr3 s' u where i: "init_mm 0xC0200000 (0x100000 + 0xC0000000) s = Inr (ucr3, s')"
    "u = upd_cpu (\<lambda>c. c\<lparr>cr3 := ucr3\<rparr>) s'"
    and t: "\<forall>a. unat a < 128 * 1024 * 1024 \<longrightarrow> walkable u (a + 0xC0000000) \<and> trans u (a + 0xC0000000) = a"
    using init_mm_shares_kernel [OF s(2) r a] by (elim exE conjE)
  have "trans u (0x345678 + 0xC0000000) = 0x345678" by (rule t [rule_format, THEN conjunct2]) simp
  then show ?thesis using s(1) i by auto
qed

end
