(* ===== verification/KIde.thy ===== *)
theory KIde
  imports KDisk
begin

text \<open>
  The kernel's sector cache and byte interface to the disk, \<open>kernel/src/driver/ide/cache.c\<close>
  and \<open>ide.c\<close>. The cache calls \<open>disk_do_read\<close> and \<open>disk_do_write\<close>, here the arguments \<open>rd\<close> and
  \<open>wr\<close>; what it relies on when it reads is the locale \<open>sector_source\<close>, which the driver of the emulated disk
  provides. Writing never reaches the disk, because \<open>disk_do_write\<close> stops the emulator.
\<close>

section \<open>\<open>cache.c\<close>\<close>

abbreviation (input) "NR_SEC_CACHE \<equiv> 128 :: nat"

record SectorCache =
  sc_sector :: u32
  sc_used :: bool
  sc_dirty :: bool
  sc_content :: "nat \<Rightarrow> u8"

record 'd kcache =
  lines :: "nat \<Rightarrow> SectorCache"
  drive :: 'd
  wb_counter :: u32

type_synonym 'd reader = "(nat \<Rightarrow> u8) \<Rightarrow> u32 \<Rightarrow> 'd \<Rightarrow> ((nat \<Rightarrow> u8) \<times> 'd) res"
type_synonym 'd writer = "(nat \<Rightarrow> u8) \<Rightarrow> u32 \<Rightarrow> 'd \<Rightarrow> 'd res"

definition set_sec_line :: "nat \<Rightarrow> SectorCache \<Rightarrow> 'd kcache \<Rightarrow> 'd kcache" where
  "set_sec_line i l c = c\<lparr>lines := (lines c)(i := l)\<rparr>"

definition k_cache_init :: "'d kcache \<Rightarrow> 'd kcache" where
  "k_cache_init c =
     c\<lparr>lines := (\<lambda>i. if i < NR_SEC_CACHE then (lines c i)\<lparr>sc_used := False\<rparr> else lines c i)\<rparr>"

fun writeback_lines :: "'d writer \<Rightarrow> nat list \<Rightarrow> 'd kcache \<Rightarrow> 'd kcache res" where
  "writeback_lines wr [] c = Inr c"
| "writeback_lines wr (i # is) c =
     (if sc_dirty (lines c i) then
        bindE (wr (sc_content (lines c i)) (sc_sector (lines c i)) (drive c)) (\<lambda>d.
          writeback_lines wr is
            (set_sec_line i ((lines c i)\<lparr>sc_dirty := False\<rparr>) (c\<lparr>drive := d\<rparr>)))
      else writeback_lines wr is c)"

definition cache_writeback :: "'d writer \<Rightarrow> 'd kcache \<Rightarrow> 'd kcache res" where
  "cache_writeback wr = writeback_lines wr [0..<NR_SEC_CACHE]"

text \<open>\<open>cache_fetch\<close> returns the index of the line.\<close>

definition cache_fetch :: "'d reader \<Rightarrow> 'd writer \<Rightarrow> u32 \<Rightarrow> 'd kcache \<Rightarrow> (nat \<times> 'd kcache) res" where
  "cache_fetch rd wr sec c =
     (let i = unat sec mod NR_SEC_CACHE; l = lines c i in
      if sc_used l \<and> sc_sector l = sec then Inr (i, c)
      else
        bindE (if sc_used l \<and> sc_dirty l then wr (sc_content l) (sc_sector l) (drive c)
               else Inr (drive c)) (\<lambda>d.
        bindE (rd (sc_content l) sec d) (\<lambda>(b, d).
          Inr (i, set_sec_line i \<lparr>sc_sector = sec, sc_used = True, sc_dirty = False, sc_content = b\<rparr>
                    (c\<lparr>drive := d\<rparr>)))))"

definition k_read_byte :: "'d reader \<Rightarrow> 'd writer \<Rightarrow> u32 \<Rightarrow> 'd kcache \<Rightarrow> (u8 \<times> 'd kcache) res" where
  "k_read_byte rd wr offset c =
     bindE (cache_fetch rd wr (drop_bit 9 offset) c) (\<lambda>(i, c).
       Inr (sc_content (lines c i) (unat (offset AND 511)), c))"

definition k_write_byte :: "'d reader \<Rightarrow> 'd writer \<Rightarrow> u32 \<Rightarrow> u8 \<Rightarrow> 'd kcache \<Rightarrow> 'd kcache res" where
  "k_write_byte rd wr offset v c =
     bindE (cache_fetch rd wr (drop_bit 9 offset) c) (\<lambda>(i, c).
       let l = lines c i in
       Inr (set_sec_line i (l\<lparr>sc_content := (sc_content l)(unat (offset AND 511) := v), sc_dirty := True\<rparr>) c))"

definition clean :: "'d kcache \<Rightarrow> bool" where
  "clean c \<longleftrightarrow> (\<forall>i < 128. \<not> sc_dirty (lines c i))"

section \<open>\<open>ide.c\<close>\<close>

text \<open>The loops over the buffer, from \<open>offset\<close> for the remaining bytes.\<close>

fun ide_read :: "'d reader \<Rightarrow> 'd writer \<Rightarrow> u32 \<Rightarrow> nat \<Rightarrow> 'd kcache \<Rightarrow> (u8 list \<times> 'd kcache) res" where
  "ide_read rd wr offset 0 c = Inr ([], c)"
| "ide_read rd wr offset (Suc len) c =
     bindE (k_read_byte rd wr offset c) (\<lambda>(b, c).
     bindE (ide_read rd wr (offset + 1) len c) (\<lambda>(bs, c). Inr (b # bs, c)))"

fun ide_write_bytes :: "'d reader \<Rightarrow> 'd writer \<Rightarrow> u8 list \<Rightarrow> u32 \<Rightarrow> 'd kcache \<Rightarrow> 'd kcache res" where
  "ide_write_bytes rd wr [] offset c = Inr c"
| "ide_write_bytes rd wr (b # bs) offset c =
     bindE (k_write_byte rd wr offset b c) (ide_write_bytes rd wr bs (offset + 1))"

definition ide_writeback :: "'d writer \<Rightarrow> 'd kcache \<Rightarrow> 'd kcache res" where
  "ide_writeback wr c =
     (let c = c\<lparr>wb_counter := wb_counter c + 1\<rparr> in
      if wb_counter c = 1 * 100 then
        bindE (cache_writeback wr c) (\<lambda>c. Inr (c\<lparr>wb_counter := 0\<rparr>))
      else Inr c)"

lemma writeback_clean: "clean c \<Longrightarrow> set is \<subseteq> {..<128} \<Longrightarrow> writeback_lines wr is c = Inr c"
  by (induction "is") (auto simp: clean_def)

text \<open>With nothing to write back the handler of the timer only counts.\<close>

lemma ide_writeback_clean:
  assumes "clean c"
  shows "ide_writeback wr c = Inr (c\<lparr>wb_counter := (if wb_counter c + 1 = 100 then 0 else wb_counter c + 1)\<rparr>)"
proof -
  have "clean (c\<lparr>wb_counter := n\<rparr>)" for n using assms by (simp add: clean_def)
  then have "cache_writeback wr (c\<lparr>wb_counter := n\<rparr>) = Inr (c\<lparr>wb_counter := n\<rparr>)" for n
    unfolding cache_writeback_def by (rule writeback_clean) auto
  then show ?thesis by (simp add: ide_writeback_def Let_def)
qed

section \<open>What the cache relies on\<close>

text \<open>A source of sectors: reading fills the buffer with the sector and changes nothing.\<close>

locale sector_source =
  fixes rd :: "'d reader" and inv :: "'d \<Rightarrow> bool" and ok :: "u32 \<Rightarrow> 'd \<Rightarrow> bool" and contents :: "'d \<Rightarrow> nat \<Rightarrow> u8"
  assumes rd_law: "inv d \<Longrightarrow> ok sec d \<Longrightarrow>
      \<exists>b' d'. rd b sec d = Inr (b', d') \<and> inv d' \<and> contents d' = contents d \<and>
        (\<forall>x. ok x d' = ok x d) \<and> (\<forall>i < 512. b' i = contents d (512 * unat sec + i))"

text \<open>The bytes of the disk as the kernel sees them, through the cache.\<close>

definition logical :: "('d \<Rightarrow> nat \<Rightarrow> u8) \<Rightarrow> 'd kcache \<Rightarrow> nat \<Rightarrow> u8" where
  "logical contents c k =
     (let l = lines c (k div 512 mod 128) in
      if sc_used l \<and> unat (sc_sector l) = k div 512 then sc_content l (k mod 512)
      else contents (drive c) k)"

text \<open>A line holds a sector of its group, and the sector's bytes unless it is dirty.\<close>

definition line_inv :: "('d \<Rightarrow> nat \<Rightarrow> u8) \<Rightarrow> (u32 \<Rightarrow> 'd \<Rightarrow> bool) \<Rightarrow> 'd \<Rightarrow> nat \<Rightarrow> SectorCache \<Rightarrow> bool" where
  "line_inv contents ok d i l \<longleftrightarrow>
     (sc_dirty l \<longrightarrow> sc_used l) \<and>
     (sc_used l \<longrightarrow> unat (sc_sector l) mod 128 = i \<and> ok (sc_sector l) d \<and>
        (\<not> sc_dirty l \<longrightarrow> (\<forall>j < 512. sc_content l j = contents d (512 * unat (sc_sector l) + j))))"

definition cache_inv :: "('d \<Rightarrow> nat \<Rightarrow> u8) \<Rightarrow> ('d \<Rightarrow> bool) \<Rightarrow> (u32 \<Rightarrow> 'd \<Rightarrow> bool) \<Rightarrow> 'd kcache \<Rightarrow> bool" where
  "cache_inv contents iv ok c \<longleftrightarrow>
     iv (drive c) \<and> (\<forall>i < 128. line_inv contents ok (drive c) i (lines c i))"

text \<open>
  \<open>resident lo c\<close>: every dirty line holds one of the 128 consecutive sectors from \<open>lo\<close> up. No two of them share
  a line, so none is replaced by another.
\<close>

definition resident :: "nat \<Rightarrow> 'd kcache \<Rightarrow> bool" where
  "resident lo c \<longleftrightarrow> (\<forall>i < 128. sc_dirty (lines c i) \<longrightarrow>
     lo \<le> unat (sc_sector (lines c i)) \<and> unat (sc_sector (lines c i)) < lo + 128)"

text \<open>A run of bytes that lies in these sectors.\<close>

definition within :: "nat \<Rightarrow> u32 \<Rightarrow> nat \<Rightarrow> bool" where
  "within lo off len \<longleftrightarrow> lo \<le> unat off div 512 \<and> unat off + len \<le> 512 * (lo + 128)"

lemma same_line:
  fixes a b :: nat
  assumes "a mod 128 = b mod 128" and "lo \<le> a" "a < lo + 128" and "lo \<le> b" "b < lo + 128"
  shows "a = b"
proof -
  have "a = b" if "x mod 128 = y mod 128" "x \<le> y" "y < x + 128" "{x, y} = {a, b}" for x y
  proof -
    have "128 dvd y - x" using that(1,2) by (metis mod_eq_dvd_iff_nat)
    moreover have "y - x < 128" using that(2,3) by simp
    ultimately have "y - x = 0" by (metis dvd_imp_le not_le neq0_conv)
    then show ?thesis using that(2,4) by auto
  qed
  from this [of a b] this [of b a] show ?thesis using assms by fastforce
qed

lemma clean_resident: "clean c \<Longrightarrow> resident lo c" by (simp add: clean_def resident_def)

context sector_source
begin

abbreviation "c_inv \<equiv> cache_inv contents inv ok"

text \<open>A fetch that replaces no dirty line changes nothing that can be seen.\<close>

lemma fetch_ok:
  assumes "c_inv c" and "ok sec (drive c)"
    and keep: "sc_dirty (lines c (unat sec mod 128)) \<Longrightarrow> sc_sector (lines c (unat sec mod 128)) = sec"
  shows "\<exists>c'. cache_fetch rd wr sec c = Inr (unat sec mod 128, c') \<and> c_inv c' \<and>
     sc_used (lines c' (unat sec mod 128)) \<and> sc_sector (lines c' (unat sec mod 128)) = sec \<and>
     logical contents c' = logical contents c \<and> (\<forall>x. ok x (drive c') = ok x (drive c)) \<and>
     contents (drive c') = contents (drive c) \<and>
     (\<forall>j. sc_dirty (lines c' j) = sc_dirty (lines c j) \<and> (sc_dirty (lines c j) \<longrightarrow> lines c' j = lines c j))"
proof -
  define i l d where "i = unat sec mod 128" and "l = lines c i" and "d = drive c"
  have i: "i < 128" by (simp add: i_def)
  have inv: "inv d" and li: "line_inv contents ok d j (lines c j)" if "j < 128" for j
    using assms(1) that by (auto simp: cache_inv_def d_def)
  have l: "line_inv contents ok d i l" using li [OF i] by (simp add: l_def)
  show ?thesis
  proof (cases "sc_used l \<and> sc_sector l = sec")
    case True
    then have "cache_fetch rd wr sec c = Inr (i, c)"
      by (simp add: cache_fetch_def i_def [symmetric] l_def [symmetric])
    then show ?thesis using assms(1) True by (auto simp: i_def l_def)
  next
    case False
    then have nd: "\<not> sc_dirty l" using keep l by (auto simp: i_def [symmetric] l_def [symmetric] line_inv_def)
    obtain b d2 where d2: "rd (sc_content l) sec d = Inr (b, d2)" "inv d2"
      "contents d2 = contents d" "\<And>x. ok x d2 = ok x d" "\<And>j. j < 512 \<Longrightarrow> b j = contents d (512 * unat sec + j)"
      using rd_law [OF inv [OF i], of sec "sc_content l"] assms(2) by (auto simp: d_def)
    define c' where "c' = set_sec_line i \<lparr>sc_sector = sec, sc_used = True, sc_dirty = False, sc_content = b\<rparr>
      (c\<lparr>drive := d2\<rparr>)"
    have f: "cache_fetch rd wr sec c = Inr (i, c')"
      using False nd
      unfolding cache_fetch_def Let_def i_def [symmetric] l_def [symmetric] d_def [symmetric]
      by (auto simp: d2(1) c'_def)
    have "line_inv contents ok d2 j (lines c' j)" if "j < 128" for j
      using li [OF that] d2(3-5) assms(2) by (auto simp: line_inv_def c'_def set_sec_line_def i_def d_def)
    then have "c_inv c'" using d2(2) by (simp add: cache_inv_def c'_def set_sec_line_def)
    moreover have "logical contents c' k = logical contents c k" for k
    proof (cases "k div 512 mod 128 = i")
      case True
      have k: "512 * (k div 512) + k mod 512 = k" by simp
      have new: "logical contents c' k = (if k div 512 = unat sec then b (k mod 512) else contents d k)"
        using True d2(3) by (auto simp: logical_def c'_def set_sec_line_def)
      have old: "logical contents c k = (if sc_used l \<and> unat (sc_sector l) = k div 512
          then sc_content l (k mod 512) else contents d k)"
        using True by (simp add: logical_def l_def d_def Let_def)
      have "sc_content l (k mod 512) = contents d k" if "sc_used l" "unat (sc_sector l) = k div 512"
        using l that nd k by (simp add: line_inv_def)
      moreover have "b (k mod 512) = contents d k" if "k div 512 = unat sec"
        using d2(5) [of "k mod 512"] k that by simp
      ultimately show ?thesis by (simp add: new old)
    next
      case False
      then show ?thesis using d2(3) by (auto simp: logical_def c'_def set_sec_line_def d_def Let_def)
    qed
    ultimately show ?thesis
      using f d2(3,4) nd by (auto simp: c'_def set_sec_line_def i_def d_def l_def)
  qed
qed

lemma offset_parts:
  fixes off :: u32
  shows "unat off div 512 = unat (drop_bit 9 off)" and "unat off mod 512 = unat (off AND 511)"
proof -
  have "unat off < 2 ^ LENGTH(32)" by (rule unsigned_less)
  then show "unat off div 512 = unat (drop_bit 9 off)"
    unfolding unsigned_drop_bit_eq by (simp add: drop_bit_eq_div take_bit_nat_eq_self)
  have "off AND 511 = take_bit 9 off" by (simp add: take_bit_eq_mask mask_eq_exp_minus_1)
  then show "unat off mod 512 = unat (off AND 511)"
    by (simp add: take_bit_eq_mod unat_mod)
qed

text \<open>The access at \<open>off\<close> replaces no dirty line.\<close>

definition near :: "u32 \<Rightarrow> 'd kcache \<Rightarrow> bool" where
  "near off c \<longleftrightarrow> c_inv c \<and> ok (drop_bit 9 off) (drive c) \<and>
     (let l = lines c (unat (drop_bit 9 off) mod 128) in sc_dirty l \<longrightarrow> sc_sector l = drop_bit 9 off)"

lemma near_fetch:
  assumes "near off c"
  obtains c' i where "i = unat (drop_bit 9 off) mod 128" and "cache_fetch rd wr (drop_bit 9 off) c = Inr (i, c')"
    and "c_inv c'" and "sc_used (lines c' i)" and "sc_sector (lines c' i) = drop_bit 9 off"
    and "logical contents c' = logical contents c" and "\<forall>x. ok x (drive c') = ok x (drive c)"
    and "contents (drive c') = contents (drive c)"
    and "\<forall>j. sc_dirty (lines c' j) = sc_dirty (lines c j) \<and> (sc_dirty (lines c j) \<longrightarrow> lines c' j = lines c j)"
  using fetch_ok [of c "drop_bit 9 off" wr] assms that unfolding near_def Let_def by blast

lemma near_clean: "c_inv c \<Longrightarrow> ok (drop_bit 9 off) (drive c) \<Longrightarrow> clean c \<Longrightarrow> near off c"
  by (simp add: near_def clean_def Let_def)

lemma near_window:
  assumes "c_inv c" and "ok (drop_bit 9 off) (drive c)" and "resident lo c"
    and "lo \<le> unat (drop_bit 9 off)" and "unat (drop_bit 9 off) < lo + 128"
  shows "near off c"
proof -
  let ?i = "unat (drop_bit 9 off) mod 128"
  have i: "?i < 128" by simp
  have l: "line_inv contents ok (drive c) ?i (lines c ?i)" using assms(1) i by (auto simp: cache_inv_def)
  have "sc_sector (lines c ?i) = drop_bit 9 off" if "sc_dirty (lines c ?i)"
  proof -
    have "unat (sc_sector (lines c ?i)) mod 128 = ?i" using l that by (simp add: line_inv_def)
    moreover have "lo \<le> unat (sc_sector (lines c ?i))" "unat (sc_sector (lines c ?i)) < lo + 128"
      using assms(3) that i by (auto simp: resident_def)
    ultimately have "unat (sc_sector (lines c ?i)) = unat (drop_bit 9 off)"
      using assms(4,5) same_line by auto
    then show ?thesis by (simp add: word_unat_eq_iff)
  qed
  then show ?thesis using assms(1,2) by (simp add: near_def Let_def)
qed

lemma read_ok:
  assumes "near off c"
  shows "\<exists>c'. k_read_byte rd wr off c = Inr (logical contents c (unat off), c') \<and> c_inv c' \<and>
     logical contents c' = logical contents c \<and> (\<forall>x. ok x (drive c') = ok x (drive c)) \<and>
     contents (drive c') = contents (drive c) \<and> (clean c \<longrightarrow> clean c') \<and> (resident lo c \<longrightarrow> resident lo c')"
proof -
  obtain c' i where i: "i = unat (drop_bit 9 off) mod 128"
    and c: "cache_fetch rd wr (drop_bit 9 off) c = Inr (i, c')" "c_inv c'"
    "sc_used (lines c' i)" "sc_sector (lines c' i) = drop_bit 9 off"
    "logical contents c' = logical contents c" "\<forall>x. ok x (drive c') = ok x (drive c)"
    "contents (drive c') = contents (drive c)"
    "\<forall>j. sc_dirty (lines c' j) = sc_dirty (lines c j) \<and> (sc_dirty (lines c j) \<longrightarrow> lines c' j = lines c j)"
    by (rule near_fetch [OF assms])
  have "sc_content (lines c' i) (unat (off AND 511)) = logical contents c' (unat off)"
    using c(3,4) i by (simp add: logical_def offset_parts Let_def)
  moreover have "resident lo c \<longrightarrow> resident lo c'" "clean c \<longrightarrow> clean c'"
    using c(8) unfolding resident_def clean_def by metis+
  ultimately show ?thesis using c by (auto simp: k_read_byte_def)
qed

lemma write_ok:
  assumes "near off c" and "resident lo c" and "lo \<le> unat (drop_bit 9 off)" and "unat (drop_bit 9 off) < lo + 128"
  shows "\<exists>c'. k_write_byte rd wr off v c = Inr c' \<and> c_inv c' \<and> resident lo c' \<and>
     logical contents c' = (logical contents c)(unat off := v) \<and> (\<forall>x. ok x (drive c') = ok x (drive c)) \<and>
     contents (drive c') = contents (drive c) \<and> \<not> clean c'"
proof -
  let ?s = "drop_bit 9 off"
  obtain c1 i where i': "i = unat ?s mod 128"
    and c: "cache_fetch rd wr ?s c = Inr (i, c1)" "c_inv c1"
    "sc_used (lines c1 i)" "sc_sector (lines c1 i) = ?s"
    "logical contents c1 = logical contents c" "\<forall>x. ok x (drive c1) = ok x (drive c)"
    "contents (drive c1) = contents (drive c)"
    "\<forall>j. sc_dirty (lines c1 j) = sc_dirty (lines c j) \<and> (sc_dirty (lines c j) \<longrightarrow> lines c1 j = lines c j)"
    by (rule near_fetch [OF assms(1)])
  have i: "i < 128" by (simp add: i')
  define l where "l = lines c1 i"
  define c' where "c' = set_sec_line i
    (l\<lparr>sc_content := (sc_content l)(unat (off AND 511) := v), sc_dirty := True\<rparr>) c1"
  have l: "line_inv contents ok (drive c1) i l" using c(2) i by (simp add: cache_inv_def l_def)
  have "c_inv c'"
    using c(2,3,4) l by (auto simp: cache_inv_def c'_def set_sec_line_def line_inv_def l_def)
  moreover have "logical contents c' k = ((logical contents c1)(unat off := v)) k" for k
  proof (cases "k div 512 mod 128 = i")
    case True
    have eq: "k = unat off \<longleftrightarrow> k div 512 = unat ?s \<and> k mod 512 = unat (off AND 511)"
      unfolding offset_parts [symmetric] by (metis div_mult_mod_eq)
    show ?thesis
      using True c(3,4) eq by (auto simp: logical_def c'_def set_sec_line_def l_def Let_def)
  next
    case False
    then have "k \<noteq> unat off" by (auto simp: i' offset_parts)
    then show ?thesis using False by (simp add: logical_def c'_def set_sec_line_def Let_def)
  qed
  moreover have "k_write_byte rd wr off v c = Inr c'"
    by (simp add: k_write_byte_def c(1) c'_def l_def Let_def)
  moreover have "resident lo c'"
    using assms(2-4) c(4,8) by (auto simp: resident_def c'_def set_sec_line_def l_def)
  moreover have "drive c' = drive c1" "\<not> clean c'"
    using i by (auto simp: clean_def c'_def set_sec_line_def)
  ultimately show ?thesis using c(5,6,7) by auto
qed

text \<open>Runs of bytes that stay in reach: any run of a clean cache, a run in the window otherwise.\<close>

definition in_reach :: "nat \<Rightarrow> u32 \<Rightarrow> nat \<Rightarrow> 'd kcache \<Rightarrow> bool" where
  "in_reach lo off len c \<longleftrightarrow> c_inv c \<and> unat off + len \<le> 2 ^ 32 \<and>
     (\<forall>i < len. ok (drop_bit 9 (off + of_nat i)) (drive c)) \<and> (clean c \<or> resident lo c \<and> within lo off len)"

lemma within_sector:
  "within lo off (Suc n) \<Longrightarrow> lo \<le> unat (drop_bit 9 off) \<and> unat (drop_bit 9 off) < lo + 128"
  unfolding offset_parts(1) [symmetric] within_def by auto

lemma reach_near:
  assumes "in_reach lo off (Suc n) c"
  shows "near off c"
proof -
  have "ok (drop_bit 9 off) (drive c)" using assms by (auto simp: in_reach_def dest: spec [of _ 0])
  then show ?thesis
    using assms near_clean near_window within_sector unfolding in_reach_def by blast
qed

lemma reach_next:
  assumes "in_reach lo off (Suc n) c" and "c_inv c'" and "clean c \<longrightarrow> clean c' \<or> resident lo c' \<and> within lo off (Suc n)"
    and "resident lo c \<longrightarrow> resident lo c'" and "\<forall>x. ok x (drive c') = ok x (drive c)" and "0 < n"
  shows "in_reach lo (off + 1) n c'" and "unat (off + 1) = unat off + 1"
    and "within lo off (Suc n) \<Longrightarrow> within lo (off + 1) n"
proof -
  show u: "unat (off + 1) = unat off + 1"
    using assms(1,6) by (simp add: in_reach_def unat_word_ariths)
  show w: "within lo (off + 1) n" if "within lo off (Suc n)"
    using that u le_trans [OF _ div_le_mono [of "unat off" "Suc (unat off)" 512]] by (simp add: within_def)
  have "ok (drop_bit 9 (off + 1 + of_nat i)) (drive c')" if "i < n" for i
    using assms(1,5) that unfolding in_reach_def
    by (metis Suc_mono add.assoc of_nat_Suc)
  then show "in_reach lo (off + 1) n c'" using assms(1-4) u w by (auto simp: in_reach_def)
qed

lemma ide_read_ok:
  assumes "in_reach lo off len c"
  shows "\<exists>c'. ide_read rd wr off len c = Inr (map (\<lambda>i. logical contents c (unat off + i)) [0..<len], c') \<and>
     c_inv c' \<and> contents (drive c') = contents (drive c) \<and> (clean c \<longrightarrow> clean c')"
  using assms
proof (induction len arbitrary: off c)
  case 0
  then show ?case by (simp add: in_reach_def)
next
  case (Suc n)
  obtain c1 where c1: "k_read_byte rd wr off c = Inr (logical contents c (unat off), c1)" "c_inv c1"
    "logical contents c1 = logical contents c" "\<forall>x. ok x (drive c1) = ok x (drive c)"
    "contents (drive c1) = contents (drive c)" "clean c \<longrightarrow> clean c1" "resident lo c \<longrightarrow> resident lo c1"
    using read_ok [OF reach_near [OF Suc.prems]] by blast
  show ?case
  proof (cases "n = 0")
    case True
    then show ?thesis using c1 by auto
  next
    case False
    have nxt: "in_reach lo (off + 1) n c1" "unat (off + 1) = unat off + 1"
      using reach_next(1,2) [OF Suc.prems c1(2) _ c1(7,4)] False c1(6) by auto
    from Suc.IH [OF nxt(1)] nxt(2) c1(3) obtain c' where c': "ide_read rd wr (off + 1) n c1 =
        Inr (map (\<lambda>i. logical contents c (unat off + 1 + i)) [0..<n], c')" "c_inv c'"
      "contents (drive c') = contents (drive c1)" "clean c1 \<longrightarrow> clean c'" by auto
    have "map (\<lambda>i. logical contents c (unat off + i)) [0..<Suc n] =
        logical contents c (unat off) # map (\<lambda>i. logical contents c (unat off + 1 + i)) [0..<n]"
      by (simp add: upt_conv_Cons map_Suc_upt [symmetric] del: upt_Suc)
    then show ?thesis using c1 c' by auto
  qed
qed

lemma ide_write_ok:
  assumes "in_reach lo off (length bs) c" and "resident lo c" and "within lo off (length bs)"
  shows "\<exists>c'. ide_write_bytes rd wr bs off c = Inr c' \<and> c_inv c' \<and> resident lo c' \<and>
     (\<forall>x. ok x (drive c') = ok x (drive c)) \<and> contents (drive c') = contents (drive c) \<and>
     (bs \<noteq> [] \<longrightarrow> \<not> clean c') \<and>
     logical contents c' = (\<lambda>k. if unat off \<le> k \<and> k < unat off + length bs then bs ! (k - unat off)
                                else logical contents c k)"
  using assms
proof (induction bs arbitrary: off c)
  case Nil
  then show ?case by (auto simp: in_reach_def fun_eq_iff)
next
  case (Cons b bs)
  have p: "in_reach lo off (Suc (length bs)) c" "within lo off (Suc (length bs))" using Cons.prems by simp_all
  obtain c1 where c1: "k_write_byte rd wr off b c = Inr c1" "c_inv c1" "resident lo c1"
    "logical contents c1 = (logical contents c)(unat off := b)" "\<forall>x. ok x (drive c1) = ok x (drive c)"
    "contents (drive c1) = contents (drive c)" "\<not> clean c1"
    using write_ok [OF reach_near [OF p(1)] Cons.prems(2)] within_sector [OF p(2)] by blast
  show ?case
  proof (cases "bs = []")
    case True
    then show ?thesis using c1 by (auto simp: fun_eq_iff)
  next
    case False
    have nxt: "in_reach lo (off + 1) (length bs) c1" "unat (off + 1) = unat off + 1"
      "within lo (off + 1) (length bs)"
      using reach_next [OF p(1) c1(2) _ _ c1(5)] False c1(3) p(2) by auto
    from Cons.IH [OF nxt(1) c1(3) nxt(3)] False obtain c' where c': "ide_write_bytes rd wr bs (off + 1) c1 = Inr c'"
      "c_inv c'" "resident lo c'" "\<forall>x. ok x (drive c') = ok x (drive c1)" "contents (drive c') = contents (drive c1)"
      "\<not> clean c'" "logical contents c' = (\<lambda>k. if unat (off + 1) \<le> k \<and> k < unat (off + 1) + length bs
          then bs ! (k - unat (off + 1)) else logical contents c1 k)" by auto
    have "logical contents c' = (\<lambda>k. if unat off \<le> k \<and> k < unat off + length (b # bs)
        then (b # bs) ! (k - unat off) else logical contents c k)"
      unfolding c'(7) c1(4) using nxt(2) False by (auto simp: fun_eq_iff nth_Cons')
    then show ?thesis using c1 c' by auto
  qed
qed

lemma clean_logical:
  assumes "c_inv c" and "clean c"
  shows "logical contents c = contents (drive c)"
proof
  fix k
  define l where "l = lines c (k div 512 mod 128)"
  have "line_inv contents ok (drive c) (k div 512 mod 128) l" "\<not> sc_dirty l"
    using assms by (simp_all add: cache_inv_def clean_def l_def)
  moreover have "512 * (k div 512) + k mod 512 = k" by simp
  ultimately show "logical contents c k = contents (drive c) k"
    by (auto simp: logical_def line_inv_def l_def [symmetric] Let_def)
qed

lemma cache_init_inv:
  assumes "inv (drive c)" and "clean c"
  shows "c_inv (k_cache_init c) \<and> clean (k_cache_init c)"
  using assms by (auto simp: cache_inv_def clean_def line_inv_def k_cache_init_def)

end


section \<open>The emulated disk under the kernel's driver\<close>

text \<open>Every read takes 136 port accesses, of which the eighth gives the command: no tick in that instant.\<close>

definition commands_undisturbed :: "bool list \<Rightarrow> bool" where
  "commands_undisturbed ts \<longleftrightarrow> (\<forall>i < length ts. i mod 136 = 7 \<longrightarrow> \<not> ts ! i)"

lemma commands_undisturbed_drop:
  assumes "commands_undisturbed ts"
  shows "commands_undisturbed (drop 136 ts)"
  unfolding commands_undisturbed_def
proof (intro allI impI)
  fix i
  assume "i < length (drop 136 ts)" "i mod 136 = 7"
  then have "136 + i < length ts" "(136 + i) mod 136 = 7" by simp_all
  then show "\<not> drop 136 ts ! i" using assms by (simp add: commands_undisturbed_def)
qed

definition readable :: "irq_handler \<Rightarrow> kdisk \<Rightarrow> bool" where
  "readable other k \<longleftrightarrow> timer_served other \<and> drive_ready k \<and> commands_undisturbed (ticks k)"

interpretation kd: sector_source "disk_do_read (with_ide_intr other)" "readable other" sector_ok
  "\<lambda>k. (!) (disk (ide (dev k)))" for other
proof unfold_locales
  fix d :: kdisk and sec and b :: "nat \<Rightarrow> u8"
  assume d: "readable other d" "sector_ok sec d"
  then have r: "drive_ready d" "timer_served (with_ide_intr other)" "\<not> (7 < length (ticks d) \<and> ticks d ! 7)"
    by (auto simp: readable_def commands_undisturbed_def)
  obtain d1 where "disk_do_read (with_ide_intr other) b sec d =
      Inr ((\<lambda>i. if i < 512 then disk (ide (dev d)) ! (512 * unat sec + i) else b i), d1)"
    "drive_ready d1" "disk (ide (dev d1)) = disk (ide (dev d))" "ticks d1 = drop 136 (ticks d)"
    using disk_do_read_run [OF r(1) d(2) ide_served_table r(2,3)] by blast
  then show "\<exists>b' d'. disk_do_read (with_ide_intr other) b sec d = Inr (b', d') \<and> readable other d' \<and>
      (!) (disk (ide (dev d'))) = (!) (disk (ide (dev d))) \<and> (\<forall>x. sector_ok x d' = sector_ok x d) \<and>
      (\<forall>i < 512. b' i = disk (ide (dev d)) ! (512 * unat sec + i))"
    using d(1) commands_undisturbed_drop by (auto simp: sector_ok_def readable_def)
qed

lemma sectors_in_range:
  assumes "unat off + len \<le> length (disk (ide (dev k)))" and "length (disk (ide (dev k))) = 512 * n"
    and "length (disk (ide (dev k))) \<le> 2 ^ 32" and "i < len"
  shows "sector_ok (drop_bit 9 (off + of_nat i)) k"
proof -
  have lt: "unat off + i < 2 ^ 32" using assms by simp
  then have "unat (of_nat i :: u32) = i" by (simp add: unsigned_of_nat take_bit_nat_eq_self)
  then have "unat (off + of_nat i) = unat off + i" using lt by (simp add: unat_word_ariths)
  then have "unat (drop_bit 9 (off + of_nat i)) = (unat off + i) div 512"
    by (simp add: kd.offset_parts(1) [symmetric])
  moreover have "(unat off + i) div 512 < n"
    using assms(1,2,4) by (simp add: div_less_iff_less_mult mult.commute)
  ultimately show ?thesis using assms(2) by (simp add: sector_ok_def)
qed

text \<open>A fresh cache over a readable drive.\<close>

lemma fresh_cache:
  assumes "readable other (drive c)" and "clean c"
    and "unat off + len \<le> length (disk (ide (dev (drive c))))"
    and "length (disk (ide (dev (drive c)))) = 512 * n"
  shows "kd.in_reach other lo off len (k_cache_init c)" and "clean (k_cache_init c)"
    and "logical (\<lambda>k. (!) (disk (ide (dev k)))) (k_cache_init c) = (!) (disk (ide (dev (drive c))))"
    and "drive (k_cache_init c) = drive c"
proof -
  have l: "length (disk (ide (dev (drive c)))) \<le> 2 ^ 32" using assms(1) by (simp add: readable_def drive_ready_def)
  have inv: "kd.c_inv other (k_cache_init c)" "clean (k_cache_init c)"
    using kd.cache_init_inv [OF assms(1,2)] by simp_all
  show d: "drive (k_cache_init c) = drive c" by (simp add: k_cache_init_def)
  show "clean (k_cache_init c)" by (rule inv)
  show "logical (\<lambda>k. (!) (disk (ide (dev k)))) (k_cache_init c) = (!) (disk (ide (dev (drive c))))"
    using kd.clean_logical [OF inv] d by simp
  show "kd.in_reach other lo off len (k_cache_init c)"
    using inv d l assms(3) sectors_in_range [OF assms(3,4) l] by (auto simp: kd.in_reach_def)
qed

lemma map_nth_take:
  "off + len \<le> length xs \<Longrightarrow> map (\<lambda>i. xs ! (off + i)) [0..<len] = take len (drop off xs)"
  by (intro nth_equalityI) auto

text \<open>
  \<^bold>\<open>C9\<close> Reading through the kernel: from a ready drive and a fresh cache, \<open>ide_read\<close> returns exactly
  the bytes of the emulated disk at the offset; the commands, the interrupt, the port
  transfers and the cache are all executed and terminate. Timer ticks may arrive during the port accesses, except in
  the instant of a read command, and are served by handlers that leave the driver alone.
\<close>

theorem kernel_reads_disk:
  assumes "drive_ready (drive c)" and "commands_undisturbed (ticks (drive c))" and "timer_served other" and "clean c"
    and "unat off + len \<le> length (disk (ide (dev (drive c))))"
    and "length (disk (ide (dev (drive c)))) = 512 * n"
  shows "\<exists>c'. ide_read (disk_do_read (with_ide_intr other)) (disk_do_write (with_ide_intr other)) off len
      (k_cache_init c) = Inr (take len (drop (unat off) (disk (ide (dev (drive c))))), c') \<and>
    drive_ready (drive c') \<and> clean c'"
proof -
  have r: "readable other (drive c)" using assms(1-3) by (simp add: readable_def)
  note c = fresh_cache [OF r assms(4-6)]
  show ?thesis
    using kd.ide_read_ok [OF c(1), of "disk_do_write (with_ide_intr other)"] c(2,3) map_nth_take [OF assms(5)]
    by (auto simp: cache_inv_def readable_def)
qed

definition idle_cache :: "bool list \<Rightarrow> kdisk kcache" where
  "idle_cache ts =
     \<lparr>lines = \<lambda>_. \<lparr>sc_sector = 0, sc_used = False, sc_dirty = False, sc_content = \<lambda>_. 0\<rparr>,
      drive = \<lparr>dev = reading_mach\<lparr>ide := (ide reading_mach)\<lparr>disk := replicate (512 * 129) 7\<rparr>\<rparr>,
        has_ide_intr = False, ticks = ts\<rparr>, wb_counter = 0\<rparr>"

lemma idle_cache_ok:
  "drive_ready (drive (idle_cache ts))" "clean (idle_cache ts)" "ticks (drive (idle_cache ts)) = ts"
  "disk (ide (dev (drive (idle_cache ts)))) = replicate (512 * 129) 7"
  using reading_mach_ready [of "512 * 129"] by (simp_all add: idle_cache_def clean_def)

text \<open>A tick with each of the first seven accesses, and two while the words are read.\<close>

theorem kernel_reads_disk_witness:
  "\<exists>c'. ide_read (disk_do_read (with_ide_intr (\<lambda>_. Inr))) (disk_do_write (with_ide_intr (\<lambda>_. Inr))) 510 4
      (k_cache_init (idle_cache (replicate 7 True @ [False, True, True]))) = Inr (replicate 4 7, c')"
proof -
  have "commands_undisturbed (replicate 7 True @ [False, True, True])"
    by (auto simp: commands_undisturbed_def nth_append)
  moreover have "timer_served (\<lambda>_. Inr)" by (simp add: timer_served_def)
  ultimately show ?thesis
    using kernel_reads_disk [OF idle_cache_ok(1) _ _ idle_cache_ok(2),
        of "replicate 7 True @ [False, True, True]" "\<lambda>_. Inr" 510 4 129]
    by (simp add: idle_cache_ok(3,4)) blast
qed

section \<open>Writing\<close>

lemma writeback_stops:
  assumes "\<And>b sec. \<exists>e m. disk_do_write h b sec (drive c) = Inl e \<and> inv_opcode (eip (cpu m)) 0xEF m = Inl e"
    and "\<exists>i \<in> set is. sc_dirty (lines c i)"
  shows "\<exists>e m. writeback_lines (disk_do_write h) is c = Inl e \<and> inv_opcode (eip (cpu m)) 0xEF m = Inl e"
  using assms(2)
proof (induction "is")
  case (Cons i "is")
  then show ?case
    using assms(1) [of "sc_content (lines c i)" "sc_sector (lines c i)"]
    by (cases "sc_dirty (lines c i)") auto
qed simp

text \<open>
  \<^bold>\<open>C10\<close> Bytes written through the kernel stay in its cache: within 127 sectors \<open>ide_read\<close> finds them again and the
  disk is unchanged, and the next write-back of the cache stops the emulator, because \<open>disk_do_write\<close> sends its
  words with the opcode \<open>0xEF\<close>.
\<close>

theorem kernel_write_stops:
  assumes "drive_ready (drive c)" and "commands_undisturbed (ticks (drive c))" and "timer_served other" and "clean c"
    and "unat off + length bs \<le> length (disk (ide (dev (drive c))))"
    and "length (disk (ide (dev (drive c)))) = 512 * n" and "length bs \<le> 127 * 512" and "bs \<noteq> []"
    and "rd = disk_do_read (with_ide_intr other)" and "wr = disk_do_write (with_ide_intr other)"
  shows "\<exists>c1. ide_write_bytes rd wr bs off (k_cache_init c) = Inr c1 \<and>
    (\<exists>c2. ide_read rd wr off (length bs) c1 = Inr (bs, c2)) \<and>
    (!) (disk (ide (dev (drive c1)))) = (!) (disk (ide (dev (drive c)))) \<and>
    (\<exists>e m. cache_writeback wr c1 = Inl e \<and> inv_opcode (eip (cpu m)) 0xEF m = Inl e)"
proof -
  let ?lo = "unat off div 512" and ?c = "k_cache_init c" and ?cont = "\<lambda>k. (!) (disk (ide (dev k)))"
  have r: "readable other (drive c)" using assms(1-3) by (simp add: readable_def)
  note c = fresh_cache [OF r assms(4-6)]
  have "unat off < 512 * ?lo + 512" using mult_div_mod_eq [of 512 "unat off"] mod_less_divisor [of 512 "unat off"] by linarith
  then have w: "within ?lo off (length bs)" using assms(7) by (simp add: within_def)
  obtain c1 where c1: "ide_write_bytes rd wr bs off ?c = Inr c1" "kd.c_inv other c1" "resident ?lo c1"
    "\<forall>x. sector_ok x (drive c1) = sector_ok x (drive ?c)" "?cont (drive c1) = ?cont (drive ?c)" "\<not> clean c1"
    "logical ?cont c1 = (\<lambda>k. if unat off \<le> k \<and> k < unat off + length bs then bs ! (k - unat off)
                             else logical ?cont ?c k)"
    using kd.ide_write_ok [OF c(1) clean_resident [OF c(2)] w, of wr] assms(8,9) by auto
  have "kd.in_reach other ?lo off (length bs) c1" using c(1) c1(2-4) w by (simp add: kd.in_reach_def)
  from kd.ide_read_ok [OF this, of wr] obtain c2 where "ide_read rd wr off (length bs) c1 =
      Inr (map (\<lambda>i. logical ?cont c1 (unat off + i)) [0..<length bs], c2)" unfolding assms(9) by blast
  moreover have "map (\<lambda>i. logical ?cont c1 (unat off + i)) [0..<length bs] = bs"
    unfolding c1(7) by (rule nth_equalityI) auto
  moreover have "drive_ready (drive c1)" "timer_served (with_ide_intr other)"
    using c1(2) assms(3) by (simp_all add: cache_inv_def readable_def)
  then have "\<exists>e m. cache_writeback wr c1 = Inl e \<and> inv_opcode (eip (cpu m)) 0xEF m = Inl e"
    unfolding cache_writeback_def assms(10) using c1(6) disk_do_write_stops
    by (intro writeback_stops) (auto simp: clean_def)
  ultimately show ?thesis using c1(1,5) c(4) by auto
qed

theorem kernel_write_stops_witness:
  "\<exists>c1 c2 e. ide_write_bytes (disk_do_read (with_ide_intr (\<lambda>_. Inr))) (disk_do_write (with_ide_intr (\<lambda>_. Inr)))
      [1, 2, 3] 511 (k_cache_init (idle_cache [])) = Inr c1 \<and>
    ide_read (disk_do_read (with_ide_intr (\<lambda>_. Inr))) (disk_do_write (with_ide_intr (\<lambda>_. Inr))) 511 3 c1 =
      Inr ([1, 2, 3], c2) \<and>
    cache_writeback (disk_do_write (with_ide_intr (\<lambda>_. Inr))) c1 = Inl e"
proof -
  have "commands_undisturbed (ticks (drive (idle_cache [])))" "timer_served (\<lambda>_. Inr)"
    by (simp_all add: commands_undisturbed_def timer_served_def idle_cache_ok(3))
  from kernel_write_stops [OF idle_cache_ok(1) this idle_cache_ok(2) _ _ _ _ refl refl, of 511 "[1, 2, 3]" 129]
  moreover have "length [1, 2, 3 :: u8] = 3" by simp
  ultimately show ?thesis
    unfolding idle_cache_ok(4) length_replicate by (auto simp: numeral_3_eq_3 simp del: ide_read.simps ide_write_bytes.simps)
qed

end
