(* ===== verification/KIrq.thy ===== *)
theory KIrq
  imports KSpace KIde
begin

text \<open>
  Interrupts in the kernel: the interrupt descriptor table of \<open>kernel/src/irq/idt.c\<close>, the entry
  stub \<open>do_irq.S\<close> as the emulator runs it, the handler lists and \<open>irq_handle\<close> of
  \<open>irq_handle.c\<close>, and \<open>i8259.c\<close>.
\<close>

section \<open>Gates\<close>

text \<open>A gate as its two words. The fields not named are zero.\<close>

definition set_gate :: "u32 \<Rightarrow> u32 \<Rightarrow> u32 \<Rightarrow> u32 \<Rightarrow> u32 \<times> u32" where
  "set_gate ty selector offset dpl =
     ((offset AND mask 16) OR push_bit 16 (selector AND mask 16),
      push_bit 8 (ty AND mask 4) OR push_bit 13 (dpl AND mask 2) OR push_bit 15 1 OR
      push_bit 16 (drop_bit 16 offset AND mask 16))"

definition set_intr :: "u32 \<Rightarrow> u32 \<Rightarrow> u32 \<Rightarrow> u32 \<times> u32" where
  "set_intr selector offset dpl = set_gate 0xE selector offset dpl"

definition set_trap :: "u32 \<Rightarrow> u32 \<Rightarrow> u32 \<Rightarrow> u32 \<times> u32" where
  "set_trap selector offset dpl = set_gate 0xF selector offset dpl"

text \<open>The addresses of the entry stubs, chosen by the linker.\<close>

record stubs =
  vec :: "nat \<Rightarrow> u32"
  vecsys :: u32
  irq_stub :: "nat \<Rightarrow> u32"
  irq_empty :: u32

abbreviation (input) "KERNEL_CODE \<equiv> push_bit 3 1 :: u32"

definition init_idt :: "stubs \<Rightarrow> (nat \<Rightarrow> u32 \<times> u32) \<Rightarrow> nat \<Rightarrow> u32 \<times> u32" where
  "init_idt e idt =
     (let idt = (\<lambda>i. if i < 256 then set_trap KERNEL_CODE (irq_empty e) 0 else idt i);
          idt = (\<lambda>i. if i < 15 then set_trap KERNEL_CODE (vec e i) 0 else idt i);
          idt = idt(0x80 := set_trap KERNEL_CODE (vecsys e) 3);
          idt = idt(32 + 0 := set_intr KERNEL_CODE (irq_stub e 0) 0);
          idt = idt(32 + 1 := set_intr KERNEL_CODE (irq_stub e 1) 0) in
      idt(32 + 14 := set_intr KERNEL_CODE (irq_stub e 14) 0))"

lemma gate_fields:
  shows "gate_offset (fst (set_gate ty sel offset dpl)) (snd (set_gate ty sel offset dpl)) = offset"
    and "gate_selector (fst (set_gate ty sel offset dpl)) = sel AND mask 16"
    and "gate_type (snd (set_gate ty sel offset dpl)) = ty AND mask 4"
proof -
  let ?v0 = "fst (set_gate ty sel offset dpl)" and ?v1 = "snd (set_gate ty sel offset dpl)"
  have b15: "bit (32768 :: int) n \<longleftrightarrow> n = 15" for n
    using bit_exp_iff [where 'a = int, of 15 n] by auto
  show "gate_selector ?v0 = sel AND mask 16"
    by (rule bit_word_eqI) (auto simp: gate_selector_def set_gate_def bit_field bit_or_iff bit_and_iff
        bit_push_bit_iff bit_mask_iff dest: bit_imp_le_length)
  show "gate_type ?v1 = ty AND mask 4"
    by (rule bit_word_eqI) (auto simp: gate_type_def set_gate_def bit_field bit_or_iff bit_and_iff
        bit_push_bit_iff bit_mask_iff b15 dest: bit_imp_le_length)
  have "field 0 16 ?v0 + push_bit 16 (field 16 16 ?v1) = field 0 16 ?v0 OR push_bit 16 (field 16 16 ?v1)"
    by (rule disjunctive_add) (auto simp: bit_field bit_push_bit_iff)
  also have "\<dots> = offset"
    by (rule bit_word_eqI) (auto simp: set_gate_def bit_field bit_or_iff bit_and_iff
        bit_push_bit_iff bit_mask_iff bit_drop_bit_eq b15 dest: bit_imp_le_length)
  finally show "gate_offset ?v0 ?v1 = offset" by (simp add: gate_offset_def)
qed

text \<open>The entry point and the kind of each vector.\<close>

definition entry_of :: "stubs \<Rightarrow> nat \<Rightarrow> u32" where
  "entry_of e n =
     (if n < 15 then vec e n else if n = 0x80 then vecsys e
      else if n \<in> {32, 33, 46} then irq_stub e (n - 32) else irq_empty e)"

text \<open>
  \<^bold>\<open>C12\<close> The emulator decodes every gate of the table \<open>init_idt\<close> builds to the right stub in the
  kernel's code segment; exactly the three hardware vectors are interrupt gates, which turn
  interrupts off.
\<close>

theorem init_idt_decodes:
  assumes "n < 256" and "init_idt e idt n = (v0, v1)"
  shows "gate_offset v0 v1 = entry_of e n \<and> gate_selector v0 = 8 \<and>
    (gate_type v1 = 0xE \<longleftrightarrow> n \<in> {32, 33, 46})"
proof -
  have k: "push_bit 3 1 AND mask 16 = (8 :: u32)" by (simp add: take_bit_eq_mask [symmetric])
  have t: "0xE AND mask 4 = (0xE :: u32)" "0xF AND mask 4 = (0xF :: u32)"
    by (simp_all add: take_bit_eq_mask [symmetric])
  define ty where "ty = (if n \<in> {32, 33, 46} then 0xE else 0xF :: u32)"
  have "(v0, v1) = set_gate ty KERNEL_CODE (entry_of e n) (if n = 0x80 then 3 else 0)"
    using assms by (auto simp: init_idt_def set_intr_def set_trap_def entry_of_def ty_def split: if_splits)
  then have "v0 = fst (set_gate ty KERNEL_CODE (entry_of e n) (if n = 0x80 then 3 else 0))"
    "v1 = snd (set_gate ty KERNEL_CODE (entry_of e n) (if n = 0x80 then 3 else 0))"
    by (metis fst_conv snd_conv)+
  then show ?thesis using gate_fields k t by (simp add: ty_def)
qed

theorem init_idt_decodes_witness:
  "gate_offset (fst (init_idt \<lparr>vec = \<lambda>_. 1, vecsys = 2, irq_stub = \<lambda>n. 0xc0031000 + of_nat n, irq_empty = 3\<rparr> (\<lambda>_. (0, 0)) 46))
     (snd (init_idt \<lparr>vec = \<lambda>_. 1, vecsys = 2, irq_stub = \<lambda>n. 0xc0031000 + of_nat n, irq_empty = 3\<rparr> (\<lambda>_. (0, 0)) 46)) =
   0xc003100e"
  using init_idt_decodes [of 46 "\<lparr>vec = \<lambda>_. 1, vecsys = 2, irq_stub = \<lambda>n. 0xc0031000 + of_nat n, irq_empty = 3\<rparr>"
      "\<lambda>_. (0, 0)", OF _ surjective_pairing]
  by (simp add: entry_of_def)

section \<open>The kernel's stack\<close>







section \<open>The entry stubs\<close>














section \<open>Handler lists\<close>

abbreviation (input) "NR_IRQ_HANDLE \<equiv> 32 :: nat"
abbreviation (input) "NR_HARD_INTR \<equiv> 16 :: int"

text \<open>The functions registered in the kernel, and those of user programs.\<close>

datatype routine = Ide_writeback | Ide_intr | User_routine u32

record IRQ_t =
  irq_routine :: routine
  irq_next :: "nat option"

record irq_table =
  handle_pool :: "nat \<Rightarrow> IRQ_t"
  handles :: "nat \<Rightarrow> nat option"
  handle_count :: nat

definition add_irq_handle :: "int \<Rightarrow> routine \<Rightarrow> irq_table \<Rightarrow> irq_table res" where
  "add_irq_handle irq func t =
     assertE ''add_irq_handle'' (irq < NR_HARD_INTR)
      (assertE ''add_irq_handle'' (handle_count t \<le> NR_IRQ_HANDLE)
       (definedE ''add_irq_handle'' (0 \<le> irq \<and> handle_count t < NR_IRQ_HANDLE)
        (let p = handle_count t; q = nat irq in
         Inr (t\<lparr>handle_count := p + 1,
                handle_pool := (handle_pool t)(p := \<lparr>irq_routine = func, irq_next = handles t q\<rparr>),
                handles := (handles t)(q := Some p)\<rparr>))))"

text \<open>The loop of \<open>irq_handle\<close> over a list; 32 rounds reach the end of every list.\<close>

fun run_chain :: "nat \<Rightarrow> (routine \<Rightarrow> 'w \<Rightarrow> 'w res) \<Rightarrow> irq_table \<Rightarrow> nat option \<Rightarrow> 'w \<Rightarrow> 'w res" where
  "run_chain fuel run t None w = Inr w"
| "run_chain 0 run t (Some i) w = Inl Out_of_fuel"
| "run_chain (Suc fuel) run t (Some i) w =
     bindE (run (irq_routine (handle_pool t i)) w) (run_chain fuel run t (irq_next (handle_pool t i)))"

text \<open>\<open>run\<close> calls a handler, \<open>syscall\<close> is \<open>do_syscall\<close>; a panic stops the kernel.\<close>

definition irq_handle :: "(routine \<Rightarrow> 'w \<Rightarrow> 'w res) \<Rightarrow> ('w \<Rightarrow> 'w res) \<Rightarrow> irq_table \<Rightarrow> int \<Rightarrow> 'w \<Rightarrow> 'w res" where
  "irq_handle run syscall t irq w =
     (if irq < 0 then Inl (Assert_failed ''panic'')
      else if irq = 0x80 then syscall w
      else if irq < 1000 then Inl (Assert_failed ''panic'')
      else let irq_id = irq - 1000 in
        assertE ''irq_handle'' (irq_id < NR_HARD_INTR)
          (run_chain NR_IRQ_HANDLE run t (handles t (nat irq_id)) w))"

text \<open>Used entries point to older entries, so every list ends.\<close>

definition table_inv :: "irq_table \<Rightarrow> bool" where
  "table_inv t \<longleftrightarrow> handle_count t \<le> NR_IRQ_HANDLE \<and>
     (\<forall>q i. handles t q = Some i \<longrightarrow> i < handle_count t) \<and>
     (\<forall>i j. i < handle_count t \<and> irq_next (handle_pool t i) = Some j \<longrightarrow> j < i)"

fun chain :: "nat \<Rightarrow> irq_table \<Rightarrow> nat option \<Rightarrow> routine list" where
  "chain fuel t None = []"
| "chain 0 t (Some i) = []"
| "chain (Suc fuel) t (Some i) = irq_routine (handle_pool t i) # chain fuel t (irq_next (handle_pool t i))"

definition handlers :: "irq_table \<Rightarrow> nat \<Rightarrow> routine list" where
  "handlers t q = chain NR_IRQ_HANDLE t (handles t q)"

fun run_all :: "('r \<Rightarrow> 'w \<Rightarrow> 'w res) \<Rightarrow> 'r list \<Rightarrow> 'w \<Rightarrow> 'w res" where
  "run_all run [] w = Inr w"
| "run_all run (r # rs) w = bindE (run r w) (run_all run rs)"

abbreviation below :: "nat option \<Rightarrow> nat \<Rightarrow> bool" where
  "below p n \<equiv> (case p of None \<Rightarrow> True | Some i \<Rightarrow> i < n)"

lemma next_below: "table_inv t \<Longrightarrow> i < handle_count t \<Longrightarrow> below (irq_next (handle_pool t i)) i"
  by (auto simp: table_inv_def split: option.splits)

lemma chain_fuel:
  assumes "table_inv t"
  shows "below p n \<Longrightarrow> n \<le> handle_count t \<Longrightarrow> n \<le> k \<Longrightarrow> chain k t p = chain n t p"
proof (induction n arbitrary: p k)
  case 0
  then show ?case by (cases p) simp_all
next
  case (Suc n)
  show ?case
  proof (cases p)
    case (Some i)
    then obtain k' where k: "k = Suc k'" using Suc.prems(3) by (cases k) auto
    have "below (irq_next (handle_pool t i)) n"
      using next_below [OF assms, of i] Suc.prems Some by (auto split: option.splits)
    then have "chain k' t (irq_next (handle_pool t i)) = chain n t (irq_next (handle_pool t i))"
      using Suc.prems(2,3) k by (intro Suc.IH) simp_all
    then show ?thesis by (simp add: Some k)
  qed simp
qed

lemma run_chain_all:
  assumes "table_inv t"
  shows "below p n \<Longrightarrow> below p (handle_count t) \<Longrightarrow> run_chain n run t p w = run_all run (chain n t p) w"
proof (induction n arbitrary: p w)
  case 0
  then show ?case by (cases p) simp_all
next
  case (Suc n)
  show ?case
  proof (cases p)
    case (Some i)
    have "below (irq_next (handle_pool t i)) n \<and> below (irq_next (handle_pool t i)) (handle_count t)"
      using next_below [OF assms, of i] Suc.prems Some by (auto split: option.splits)
    then have "run_chain n run t (irq_next (handle_pool t i)) =
        run_all run (chain n t (irq_next (handle_pool t i)))"
      by (intro ext Suc.IH) simp_all
    then show ?thesis by (simp add: Some)
  qed simp
qed

lemma chain_upd:
  assumes "table_inv t" and "t' = t\<lparr>handle_count := c, handle_pool := (handle_pool t)(handle_count t := x), handles := h\<rparr>"
  shows "below p n \<Longrightarrow> n \<le> handle_count t \<Longrightarrow> chain n t' p = chain n t p"
proof (induction n arbitrary: p)
  case 0
  then show ?case by (cases p) simp_all
next
  case (Suc n)
  show ?case
  proof (cases p)
    case (Some i)
    have "below (irq_next (handle_pool t i)) n"
      using next_below [OF assms(1), of i] Suc.prems Some by (auto split: option.splits)
    then have "chain n t' (irq_next (handle_pool t i)) = chain n t (irq_next (handle_pool t i))"
      using Suc.prems(2) by (intro Suc.IH) simp_all
    moreover have "i \<noteq> handle_count t" using Suc.prems Some by simp
    ultimately show ?thesis by (simp add: Some assms(2))
  qed simp
qed

lemma handlers_below: "table_inv t \<Longrightarrow> below (handles t q) (handle_count t)"
  by (auto simp: table_inv_def split: option.splits)

lemma handlers_count:
  assumes "table_inv t" and "handle_count t \<le> k"
  shows "chain k t (handles t q) = handlers t q"
proof -
  note c = chain_fuel [OF assms(1) handlers_below [OF assms(1)] le_refl]
  have "handle_count t \<le> NR_IRQ_HANDLE" using assms(1) by (simp add: table_inv_def)
  then show ?thesis unfolding handlers_def using c [OF assms(2)] c by metis
qed

lemma add_inv:
  assumes "table_inv t" and "handle_count t < NR_IRQ_HANDLE"
  shows "table_inv (t\<lparr>handle_count := Suc (handle_count t),
     handle_pool := (handle_pool t)(handle_count t := \<lparr>irq_routine = func, irq_next = handles t q\<rparr>),
     handles := (handles t)(q := Some (handle_count t))\<rparr>)"
  using assms by (auto simp: table_inv_def less_Suc_eq)

lemma add_handlers:
  assumes inv: "table_inv t" and lt: "handle_count t < NR_IRQ_HANDLE"
    and t': "t' = t\<lparr>handle_count := Suc (handle_count t),
     handle_pool := (handle_pool t)(handle_count t := \<lparr>irq_routine = func, irq_next = handles t q\<rparr>),
     handles := (handles t)(q := Some (handle_count t))\<rparr>"
  shows "handlers t' r = (if r = q then func # handlers t q else handlers t r)"
proof -
  have inv': "table_inv t'" unfolding t' by (rule add_inv [OF inv lt])
  have old: "chain (handle_count t) t' (handles t r) = handlers t r" for r
    using chain_upd [OF inv t' handlers_below [OF inv]] handlers_count [OF inv] by simp
  have *: "handlers t' r = chain (Suc (handle_count t)) t' (handles t' r)"
    using handlers_count [OF inv', of "Suc (handle_count t)"] by (simp add: t')
  show ?thesis
  proof (cases "r = q")
    case True
    then show ?thesis using old [of q] * by (simp add: t')
  next
    case False
    have "chain (Suc (handle_count t)) t' (handles t r) = chain (handle_count t) t' (handles t r)"
      using handlers_below [OF inv] by (intro chain_fuel [OF inv']) (simp_all add: t')
    then show ?thesis using old [of r] * False by (simp add: t')
  qed
qed

text \<open>
  Registering a handler puts it in front of its interrupt's list and leaves the others
  alone; a number of 16 or more fails the assertion, and the 33rd registration passes it and writes past the pool.
\<close>

lemma add_irq_handle_correct:
  assumes "table_inv t" and "0 \<le> irq"
  shows "(irq \<ge> 16 \<longrightarrow> add_irq_handle irq func t = Inl (Assert_failed ''add_irq_handle'')) \<and>
    (irq < 16 \<and> handle_count t = 32 \<longrightarrow> add_irq_handle irq func t = Inl (Undefined ''add_irq_handle'')) \<and>
    (irq < 16 \<and> handle_count t < 32 \<longrightarrow>
      (\<exists>t'. add_irq_handle irq func t = Inr t' \<and> table_inv t' \<and>
        (\<forall>q. handlers t' q = (if q = nat irq then func # handlers t q else handlers t q))))"
proof (intro conjI impI)
  assume "irq < 16 \<and> handle_count t < 32"
  then show "\<exists>t'. add_irq_handle irq func t = Inr t' \<and> table_inv t' \<and>
        (\<forall>q. handlers t' q = (if q = nat irq then func # handlers t q else handlers t q))"
    using assms add_inv [OF assms(1)] add_handlers [OF assms(1) _ refl]
    by (simp add: add_irq_handle_def Let_def assertE_def definedE_def)
qed (use assms in \<open>simp_all add: add_irq_handle_def assertE_def definedE_def\<close>)

abbreviation (input) "empty_table \<equiv>
  \<lparr>handle_pool = \<lambda>_. \<lparr>irq_routine = Ide_intr, irq_next = None\<rparr>, handles = \<lambda>_. None, handle_count = 0\<rparr>"

theorem add_irq_handle_correct_witness:
  "\<exists>t'. add_irq_handle 14 Ide_intr empty_table = Inr t' \<and> table_inv t' \<and> handlers t' 14 = [Ide_intr]"
proof -
  have "table_inv empty_table" by (simp add: table_inv_def)
  from add_irq_handle_correct [OF this, of 14 Ide_intr] show ?thesis
    by (fastforce simp: handlers_def)
qed

text \<open>
  A hardware interrupt calls the handlers registered for it, each once, the last
  registered first; other interrupt numbers reach the system call or panic.
\<close>

lemma irq_handle_correct:
  assumes "table_inv t"
  shows "irq_handle run syscall t irq w =
    (if irq = 0x80 then syscall w
     else if irq < 1000 then Inl (Assert_failed ''panic'')
     else if 1016 \<le> irq then Inl (Assert_failed ''irq_handle'')
     else run_all run (handlers t (nat (irq - 1000))) w)"
proof -
  have "run_chain NR_IRQ_HANDLE run t (handles t q) w = run_all run (handlers t q) w" for q
    unfolding handlers_def using assms handlers_below [OF assms, of q]
    by (intro run_chain_all) (auto simp: table_inv_def split: option.splits dest: less_le_trans)
  then show ?thesis by (simp add: irq_handle_def assertE_def Let_def)
qed

text \<open>Two handlers of interrupt 14, run by a body that collects their names.\<close>

theorem irq_handle_correct_witness:
  "\<exists>t. table_inv t \<and> irq_handle (\<lambda>r w. Inr (w @ [r])) Inr t 1014 [] = Inr [Ide_intr, Ide_writeback]"
proof -
  let ?t = "\<lparr>handle_pool = \<lambda>i. if i = 0 then \<lparr>irq_routine = Ide_writeback, irq_next = None\<rparr>
      else \<lparr>irq_routine = Ide_intr, irq_next = Some 0\<rparr>,
    handles = \<lambda>q. if q = 14 then Some 1 else None, handle_count = 2\<rparr>"
  have "table_inv ?t" by (auto simp: table_inv_def split: if_splits)
  from irq_handle_correct [OF this, of "\<lambda>r w. Inr (w @ [r])" Inr 1014 "[]"] this show ?thesis
    by (intro exI [of _ ?t]) (simp add: handlers_def numeral_eq_Suc)
qed

end
