(* ===== verification/KSys.thy ===== *)
theory KSys
  imports KUser KIrq
begin

text \<open>
  The services of the kernel: the serial line (\<open>kernel/src/lib/serial.c\<close>), files (\<open>fs.c\<close>), system
  calls (\<open>do_syscall.c\<close>), the loader (\<open>elf.c\<close>) and start-up (\<open>main.c\<close>). Memory is that of the
  machine behind the driver, \<open>dev\<close>.
\<close>

section \<open>\<open>serial.c\<close>, \<open>printk.c\<close>, \<open>misc.c\<close>\<close>

definition serial_idle :: "irq_handler \<Rightarrow> kdisk \<Rightarrow> (bool \<times> kdisk) res" where
  "serial_idle h k = bindE (k_in h (SERIAL_PORT + 5) 1 k) (\<lambda>(d, k). Inr (d AND 0x20 \<noteq> 0, k))"

fun serial_wait :: "nat \<Rightarrow> irq_handler \<Rightarrow> kdisk \<Rightarrow> kdisk res" where
  "serial_wait fuel h k =
     bindE (serial_idle h k) (\<lambda>(idle, k).
       if idle then Inr k
       else case fuel of 0 \<Rightarrow> Inl Out_of_fuel | Suc fuel' \<Rightarrow> serial_wait fuel' h k)"

declare serial_wait.simps [simp del]

definition serial_printc :: "irq_handler \<Rightarrow> u8 \<Rightarrow> kdisk \<Rightarrow> kdisk res" where
  "serial_printc h ch k =
     bindE (serial_wait wait_fuel h k) (k_out h SERIAL_PORT 1 (ucast ch))"

definition sbrk :: "int \<Rightarrow> kdisk \<Rightarrow> (u32 \<times> kdisk) res" where
  "sbrk incr k = Inl (Assert_failed ''sbrk'')"

section \<open>\<open>fs.c\<close>\<close>

fun print_buf :: "irq_handler \<Rightarrow> u32 \<Rightarrow> nat \<Rightarrow> kdisk \<Rightarrow> kdisk res" where
  "print_buf h buf 0 k = Inr k"
| "print_buf h buf (Suc n) k =
     bindE (ds_read buf 1 (dev k)) (\<lambda>(v, m).
     bindE (serial_printc h (ucast v) (k\<lparr>dev := m\<rparr>)) (print_buf h (buf + 1) n))"

definition fs_write :: "irq_handler \<Rightarrow> u32 \<Rightarrow> u32 \<Rightarrow> u32 \<Rightarrow> kdisk \<Rightarrow> (u32 \<times> kdisk) res" where
  "fs_write h fd buf len k =
     assertE ''fs_write'' (sint fd \<le> 2)
       (bindE (print_buf h buf (unat len) k) (\<lambda>k. Inr (len, k)))"

definition panic :: "'a res" where "panic = Inl (Assert_failed ''panic'')"

definition fs_open :: "u32 \<Rightarrow> u32 \<Rightarrow> kdisk \<Rightarrow> (u32 \<times> kdisk) res" where
  "fs_open pathname flags k = panic"

definition fs_read :: "u32 \<Rightarrow> u32 \<Rightarrow> u32 \<Rightarrow> kdisk \<Rightarrow> (u32 \<times> kdisk) res" where
  "fs_read fd buf len k = assertE ''fs_read'' (2 < sint fd) panic"

definition fs_lseek :: "u32 \<Rightarrow> u32 \<Rightarrow> u32 \<Rightarrow> kdisk \<Rightarrow> (u32 \<times> kdisk) res" where
  "fs_lseek fd offset whence k = panic"

definition fs_close :: "u32 \<Rightarrow> kdisk \<Rightarrow> (u32 \<times> kdisk) res" where
  "fs_close fd k = panic"

section \<open>\<open>do_syscall.c\<close>\<close>

text \<open>The registers of the trap frame a system call looks at, and the state it changes.\<close>

record sys_frame =
  tf_eax :: u32
  tf_ebx :: u32
  tf_ecx :: u32
  tf_edx :: u32

record ksys =
  drv :: kdisk
  irqs :: irq_table
  brk :: u32

definition sys_result :: "sys_frame \<Rightarrow> ksys \<Rightarrow> (u32 \<times> kdisk) res \<Rightarrow> (sys_frame \<times> ksys) res" where
  "sys_result tf s r = bindE r (\<lambda>(v, k). Inr (tf\<lparr>tf_eax := v\<rparr>, s\<lparr>drv := k\<rparr>))"

definition sys_brk :: "malloc \<Rightarrow> sys_frame \<Rightarrow> ksys \<Rightarrow> (sys_frame \<times> ksys) res" where
  "sys_brk mm_malloc tf s =
     bindE (mm_brk mm_malloc (tf_ebx tf) (brk s) (dev (drv s))) (\<lambda>(b, m).
       Inr (tf\<lparr>tf_eax := 0\<rparr>, s\<lparr>drv := (drv s)\<lparr>dev := m\<rparr>, brk := b\<rparr>))"

definition sys_open :: "sys_frame \<Rightarrow> ksys \<Rightarrow> (sys_frame \<times> ksys) res" where
  "sys_open tf s = sys_result tf s (fs_open (tf_ebx tf) (tf_ecx tf) (drv s))"

definition sys_read :: "sys_frame \<Rightarrow> ksys \<Rightarrow> (sys_frame \<times> ksys) res" where
  "sys_read tf s = sys_result tf s (fs_read (tf_ebx tf) (tf_ecx tf) (tf_edx tf) (drv s))"

definition sys_write :: "irq_handler \<Rightarrow> sys_frame \<Rightarrow> ksys \<Rightarrow> (sys_frame \<times> ksys) res" where
  "sys_write h tf s = sys_result tf s (fs_write h (tf_ebx tf) (tf_ecx tf) (tf_edx tf) (drv s))"

definition sys_lseek :: "sys_frame \<Rightarrow> ksys \<Rightarrow> (sys_frame \<times> ksys) res" where
  "sys_lseek tf s = sys_result tf s (fs_lseek (tf_ebx tf) (tf_ecx tf) (tf_edx tf) (drv s))"

definition sys_close :: "sys_frame \<Rightarrow> ksys \<Rightarrow> (sys_frame \<times> ksys) res" where
  "sys_close tf s = sys_result tf s (fs_close (tf_ebx tf) (drv s))"

definition set_IF :: "bool \<Rightarrow> ksys \<Rightarrow> ksys" where
  "set_IF b s = s\<lparr>drv := (drv s)\<lparr>dev := set_fl (put_IF b (fl (dev (drv s)))) (dev (drv s))\<rparr>\<rparr>"

text \<open>The numbers of \<open>sys/syscall.h\<close>.\<close>

definition do_syscall :: "irq_handler \<Rightarrow> malloc \<Rightarrow> sys_frame \<Rightarrow> ksys \<Rightarrow> (sys_frame \<times> ksys) res" where
  "do_syscall h mm_malloc tf s =
     (if tf_eax tf = 0 then
        bindE (add_irq_handle (sint (tf_ebx tf)) (User_routine (tf_ecx tf)) (irqs (set_IF False s)))
          (\<lambda>t. Inr (tf, set_IF True ((set_IF False s)\<lparr>irqs := t\<rparr>)))
      else if tf_eax tf = 45 then sys_brk mm_malloc tf s
      else if tf_eax tf = 5 then sys_open tf s
      else if tf_eax tf = 3 then sys_read tf s
      else if tf_eax tf = 4 then sys_write h tf s
      else if tf_eax tf = 19 then sys_lseek tf s
      else if tf_eax tf = 6 then sys_close tf s
      else panic)"

section \<open>Output\<close>

text \<open>No interrupt is pending and the serial line reports that it can take a byte.\<close>

definition serial_ready :: "kdisk \<Rightarrow> bool" where
  "serial_ready k \<longleftrightarrow> quiet k \<and> (ucast (io_port (dev k) 0x3FD) :: u32) AND 0x20 \<noteq> 0"

definition printed :: "u8 \<Rightarrow> kdisk \<Rightarrow> kdisk" where
  "printed ch k = k\<lparr>dev := (dev k)\<lparr>io_port := (io_port (dev k))(0x3F8 := ch), serial_out := serial_out (dev k) @ [ch]\<rparr>\<rparr>"

lemma ucast_u8 [simp]: "(ucast (ucast ch :: u32) :: u8) = ch"
  by (rule bit_word_eqI) (auto simp: bit_ucast_iff dest: bit_imp_le_length)

lemma serial_ports:
  "map_of pio_handler_table 0x3F8 = Some Handler_serial" "map_of pio_handler_table 0x3FD = Some Handler_serial"
  by (simp_all add: pio_handler_table_def)

lemma serial_printc_ready:
  assumes "serial_ready k"
  shows "serial_printc h ch k = Inr (printed ch k)" and "serial_ready (printed ch k)"
proof -
  have q: "quiet k" "(ucast (io_port (dev k) 0x3FD) :: u32) AND 0x20 \<noteq> 0"
    using assms by (simp_all add: serial_ready_def)
  show "serial_ready (printed ch k)" using q by (simp add: serial_ready_def printed_def quiet_def)
  have "pio_read 0x3FD 1 (dev k) = Inr (ucast (io_port (dev k) 0x3FD), dev k)"
    by (simp add: pio_read_def serial_ports run_handler_def handler_serial_def read_io_port_def)
  then have "serial_wait wait_fuel h k = Inr k"
    using q by (simp add: serial_wait.simps serial_idle_def k_in_def)
  moreover have "store_bytes f 0x3F8 1 (ucast ch) = f(0x3F8 := ch)" for f
    by (simp only: store_byte ucast_u8)
  then have "pio_write 0x3F8 1 (ucast ch) (dev k) = Inr (dev (printed ch k))"
    by (simp add: pio_write_def serial_ports run_handler_def handler_serial_def read_io_port_def
        write_io_port_def printed_def)
  moreover have "quiet (printed ch k)" using q by (simp add: printed_def quiet_def)
  moreover have "k\<lparr>dev := dev (printed ch k)\<rparr> = printed ch k" by (simp add: printed_def)
  ultimately show "serial_printc h ch k = Inr (printed ch k)"
    by (simp add: serial_printc_def k_out_def)
qed

lemma printed_kernel:
  "kinv p t (dev (printed ch k)) = kinv p t (dev k)" "kcontents (dev (printed ch k)) = kcontents (dev k)"
  "kread (dev (printed ch k)) a n = kread (dev k) a n"
proof -
  have *: "kinv p t m' = kinv p t m" if "m' = m\<lparr>io_port := f, serial_out := out\<rparr>" for m m' f out
    using that kinv_cpu [of p t m m'] kinv_cpu [of p t m' m] by auto
  show "kinv p t (dev (printed ch k)) = kinv p t (dev k)" by (rule *) (simp add: printed_def)
  show "kcontents (dev (printed ch k)) = kcontents (dev k)" by (rule kcontents_mem) (simp add: printed_def)
  show "kread (dev (printed ch k)) a n = kread (dev k) a n" by (simp add: kread_def ram_def printed_def)
qed

lemma print_buf_ok:
  assumes "kinv p t (dev k)" and "serial_ready k" and "\<forall>i<n. kread (dev k) (buf + of_nat i) 1" and "unat buf + n < 4294967296"
  shows "\<exists>k'. print_buf h buf n k = Inr k' \<and> kinv p t (dev k') \<and> serial_ready k' \<and>
    kcontents (dev k') = kcontents (dev k) \<and>
    serial_out (dev k') = serial_out (dev k) @ map (\<lambda>i. kcontents (dev k) (unat buf + i)) [0..<n]"
  using assms
proof (induction n arbitrary: buf k)
  case 0
  then show ?case by simp
next
  case (Suc n)
  have "kread (dev k) buf 1" using Suc.prems(3) by (auto dest: spec [of _ 0])
  from kernel_read [OF Suc.prems(1) this] obtain m where m:
    "ds_read buf 1 (dev k) = Inr (ucast (kcontents (dev k) (unat buf)), m)" "kinv p t m"
    "kcontents m = kcontents (dev k)" "sans_mmu m = sans_mmu (dev k)" by (auto simp: le_read_1)
  let ?k = "k\<lparr>dev := m\<rparr>" let ?c = "kcontents (dev k) (unat buf)" let ?k1 = "printed ?c ?k"
  have io: "io_port m = io_port (dev k)" "serial_out m = serial_out (dev k)" "cpu m = cpu (dev k)" "mmio_st m = mmio_st (dev k)"
    using arg_cong [OF m(4), of io_port] arg_cong [OF m(4), of serial_out] sans_mmuD [OF m(4)]
    by (simp_all add: sans_mmu_def sans_mem_def)
  have sr: "serial_ready ?k" using Suc.prems(2) by (simp add: serial_ready_def quiet_def io)
  have u: "unat (buf + 1) = unat buf + 1" using unat_offset [of buf 1] Suc.prems(4) by simp
  have "kread (dev ?k1) a l = kread (dev k) a l" for a l
    by (simp only: printed_kernel) (simp add: kread_def ram_def io)
  then have "\<forall>i<n. kread (dev ?k1) (buf + 1 + of_nat i) 1"
    using Suc.prems(3) [rule_format, of "Suc i" for i] by (simp add: add.assoc)
  moreover have "unat (buf + 1) + n < 4294967296" using Suc.prems(4) u by simp
  ultimately obtain k' where k': "print_buf h (buf + 1) n ?k1 = Inr k'" "kinv p t (dev k')" "serial_ready k'"
    "kcontents (dev k') = kcontents (dev ?k1)"
    "serial_out (dev k') = serial_out (dev ?k1) @ map (\<lambda>i. kcontents (dev ?k1) (unat (buf + 1) + i)) [0..<n]"
    using Suc.IH [of ?k1 "buf + 1"] m(2) serial_printc_ready(2) [OF sr] by (auto simp: printed_kernel)
  have "serial_out (dev k') = serial_out (dev k) @ map (\<lambda>i. kcontents (dev k) (unat buf + i)) [0..<Suc n]"
    unfolding k'(5) map_upt_Suc by (simp add: printed_kernel m(3) u) (simp add: printed_def io)
  then show ?case
    using m(1,3) k'(1-4) serial_printc_ready(1) [OF sr] by (simp add: printed_kernel)
qed

text \<open>
  The system call \<open>write\<close> on descriptors up to 2 puts exactly the bytes of the buffer, in
  order, on the serial line and returns their number; on any other descriptor it fails.
\<close>

lemma sys_write_prints:
  assumes "kinv p t (dev (drv s))" and "serial_ready (drv s)" and "tf_eax tf = 4"
    and "\<forall>i < unat (tf_edx tf). kread (dev (drv s)) (tf_ecx tf + of_nat i) 1"
    and "unat (tf_ecx tf) + unat (tf_edx tf) < 4294967296"
  shows "(sint (tf_ebx tf) \<le> 2 \<longrightarrow>
      (\<exists>k. do_syscall h mm_malloc tf s = Inr (tf\<lparr>tf_eax := tf_edx tf\<rparr>, s\<lparr>drv := k\<rparr>) \<and>
        serial_out (dev k) = serial_out (dev (drv s)) @
          map (\<lambda>i. kcontents (dev (drv s)) (unat (tf_ecx tf) + i)) [0..<unat (tf_edx tf)])) \<and>
    (2 < sint (tf_ebx tf) \<longrightarrow> do_syscall h mm_malloc tf s = Inl (Assert_failed ''fs_write''))"
  using print_buf_ok [OF assms(1,2,4,5), of h] assms(3)
  by (auto simp: do_syscall_def sys_write_def sys_result_def fs_write_def)

theorem sys_write_prints_witness:
  "\<exists>s k. serial_out (dev (drv s)) = [] \<and> length (serial_out (dev k)) = 3 \<and>
     do_syscall (\<lambda>_. Inr) (\<lambda>_ _ m. Inr (0, m)) \<lparr>tf_eax = 4, tf_ebx = 1, tf_ecx = 0xC0345678, tf_edx = 3\<rparr> s =
     Inr (\<lparr>tf_eax = 3, tf_ebx = 1, tf_ecx = 0xC0345678, tf_edx = 3\<rparr>, s\<lparr>drv := k\<rparr>)"
proof -
  obtain m where m: "kinv 0x100000 0x101000 m" "mmio_st m = mmio_st boot_mach"
    using init_page_kinv [OF boot_mach_ok] by (auto simp: va_to_pa_def)
  define m' where "m' = m\<lparr>cpu := (cpu m)\<lparr>intr := 0\<rparr>, io_port := \<lambda>_. 0x20, serial_out := []\<rparr>"
  define s where "s = \<lparr>drv = \<lparr>dev = m', has_ide_intr = False, ticks = []\<rparr>,
    irqs = \<lparr>handle_pool = \<lambda>_. undefined, handles = \<lambda>_. None, handle_count = 0\<rparr>, brk = 0\<rparr>"
  let ?tf = "\<lparr>tf_eax = 4, tf_ebx = 1, tf_ecx = 0xC0345678, tf_edx = 3\<rparr> :: sys_frame"
  have n: "is_mmio x (mmio_st m') = None" for x
    by (simp add: m'_def m(2) is_mmio_def boot_mach_def init_all_tlb_def make_all_tlb_def zero_mach_def)
  have "kinv 0x100000 0x101000 (dev (drv s))"
    using kinv_cpu [OF m(1), of m'] by (simp add: s_def m'_def)
  moreover have "serial_ready (drv s)" by (simp add: serial_ready_def quiet_def s_def m'_def)
  moreover have "tf_eax ?tf = 4" by simp
  moreover have "\<forall>i < unat (tf_edx ?tf). kread (dev (drv s)) (tf_ecx ?tf + of_nat i) 1"
  proof (intro allI impI)
    fix i
    assume "i < unat (tf_edx ?tf)"
    then have "i = 0 \<or> i = 1 \<or> i = 2" by auto
    then show "kread (dev (drv s)) (tf_ecx ?tf + of_nat i) 1"
      by (elim disjE) (simp_all add: s_def kread_def ram_def n cache_ok_def block_num_eq MEM_SIZE_B_def)
  qed
  moreover have "unat (tf_ecx ?tf) + unat (tf_edx ?tf) < 4294967296" by simp
  moreover have "sint (tf_ebx ?tf) \<le> 2" by simp
  ultimately obtain k where "do_syscall (\<lambda>_. Inr) (\<lambda>_ _ m. Inr (0, m)) ?tf s = Inr (?tf\<lparr>tf_eax := tf_edx ?tf\<rparr>, s\<lparr>drv := k\<rparr>)"
    "serial_out (dev k) = serial_out (dev (drv s)) @
       map (\<lambda>i. kcontents (dev (drv s)) (unat (tf_ecx ?tf) + i)) [0..<unat (tf_edx ?tf)]"
    using sys_write_prints [of "0x100000" "0x101000" s ?tf "\<lambda>_. Inr" "\<lambda>_ _ m. Inr (0, m)"] by blast
  then show ?thesis by (intro exI [of _ s] exI [of _ k]) (simp add: s_def m'_def)
qed

end
