(* ===== verification/KLoad.thy ===== *)
theory KLoad
  imports KSys
begin

text \<open>
  The loader (\<open>kernel/src/elf/elf.c\<close>) and start-up (\<open>main.c\<close>, \<open>init_ide\<close> of \<open>ide.c\<close>): the pieces of
  the kernel in the order they run. The addresses the linker gives the kernel's arrays are
  arguments.
\<close>

section \<open>State of the running kernel\<close>

text \<open>The sector cache with the machine behind its drive, the handler lists and the program break.\<close>

record kboot =
  kc :: "kdisk kcache"
  k_irqs :: irq_table
  k_brk :: u32

abbreviation (input) k_mach :: "kboot \<Rightarrow> mach" where
  "k_mach s \<equiv> dev (drive (kc s))"

definition set_mach :: "mach \<Rightarrow> kboot \<Rightarrow> kboot" where
  "set_mach m s = s\<lparr>kc := (kc s)\<lparr>drive := (drive (kc s))\<lparr>dev := m\<rparr>\<rparr>\<rparr>"

text \<open>A step of the machine alone.\<close>

definition on_mach :: "(mach \<Rightarrow> mach res) \<Rightarrow> kboot \<Rightarrow> kboot res" where
  "on_mach f s = bindE (f (k_mach s)) (\<lambda>m. Inr (set_mach m s))"

definition on_mach_val :: "(mach \<Rightarrow> ('v \<times> mach) res) \<Rightarrow> kboot \<Rightarrow> ('v \<times> kboot) res" where
  "on_mach_val f s = bindE (f (k_mach s)) (\<lambda>(v, m). Inr (v, set_mach m s))"

definition k_ide_read :: "irq_handler \<Rightarrow> u32 \<Rightarrow> nat \<Rightarrow> kboot \<Rightarrow> (u8 list \<times> kboot) res" where
  "k_ide_read h offset n s =
     bindE (ide_read (disk_do_read h) (disk_do_write h) offset n (kc s)) (\<lambda>(bs, c). Inr (bs, s\<lparr>kc := c\<rparr>))"

section \<open>\<open>elf.c\<close>\<close>

definition elf_word :: "u8 list \<Rightarrow> nat \<Rightarrow> u32 res" where
  "elf_word buf off =
     definedE ''loader'' (off + 4 \<le> length buf) (Inr (le_read (\<lambda>i. buf ! (off + i)) 4))"

record Elf32_Phdr =
  p_type :: u32
  p_offset :: u32
  p_vaddr :: u32
  p_filesz :: u32
  p_memsz :: u32

definition read_phdr :: "u8 list \<Rightarrow> nat \<Rightarrow> Elf32_Phdr res" where
  "read_phdr buf off =
     bindE (elf_word buf off) (\<lambda>ty.
     bindE (elf_word buf (off + 4)) (\<lambda>pos.
     bindE (elf_word buf (off + 8)) (\<lambda>vaddr.
     bindE (elf_word buf (off + 16)) (\<lambda>filesz.
     bindE (elf_word buf (off + 20)) (\<lambda>memsz.
       Inr \<lparr>p_type = ty, p_offset = pos, p_vaddr = vaddr, p_filesz = filesz, p_memsz = memsz\<rparr>)))))"

fun put_bytes :: "u32 \<Rightarrow> u8 list \<Rightarrow> mach \<Rightarrow> mach res" where
  "put_bytes a [] m = Inr m"
| "put_bytes a (b # bs) m = bindE (ds_write a 1 (ucast b) m) (put_bytes (a + 1) bs)"

text \<open>One loadable segment: room for it, its bytes from the file, zeros behind them, the new break.\<close>

definition load_segment :: "irq_handler \<Rightarrow> malloc \<Rightarrow> Elf32_Phdr \<Rightarrow> kboot \<Rightarrow> kboot res" where
  "load_segment h mm_malloc ph s =
     bindE (on_mach_val (mm_malloc (p_vaddr ph) (p_memsz ph)) s) (\<lambda>(addr, s).
     bindE (k_ide_read h (p_offset ph) (unat (p_filesz ph)) s) (\<lambda>(bs, s).
     bindE (on_mach (put_bytes addr bs) s) (\<lambda>s.
     bindE (on_mach (memset ds_write (addr + p_filesz ph) 0 (unat (p_memsz ph) - unat (p_filesz ph))) s) (\<lambda>s.
       let new_brk = p_vaddr ph + p_memsz ph - 1 in
       Inr (if k_brk s < new_brk then s\<lparr>k_brk := new_brk\<rparr> else s)))))"

fun load_segments :: "irq_handler \<Rightarrow> malloc \<Rightarrow> u8 list \<Rightarrow> nat \<Rightarrow> nat \<Rightarrow> kboot \<Rightarrow> kboot res" where
  "load_segments h mm_malloc buf off 0 s = Inr s"
| "load_segments h mm_malloc buf off (Suc n) s =
     bindE (read_phdr buf off) (\<lambda>ph.
     bindE (if p_type ph = 1 then load_segment h mm_malloc ph s else Inr s)
       (load_segments h mm_malloc buf (off + 32) n))"

abbreviation (input) "STACK_SIZE \<equiv> 0x100000 :: u32"

text \<open>\<open>updir\<close>, \<open>ptable\<close> and \<open>ucr3\<close> are variables of \<open>mm.c\<close> and \<open>vmem.c\<close>. The entry point is the result.\<close>

definition loader :: "irq_handler \<Rightarrow> malloc \<Rightarrow> u32 \<Rightarrow> u32 \<Rightarrow> u32 \<Rightarrow> kboot \<Rightarrow> (u32 \<times> kboot) res" where
  "loader h mm_malloc updir ptable ucr3 s =
     bindE (k_ide_read h 0 4096 s) (\<lambda>(buf, s).
     bindE (elf_word buf 28) (\<lambda>e_phoff.
     bindE (elf_word buf 44) (\<lambda>e_phnum.
     bindE (load_segments h mm_malloc buf (unat e_phoff) (unat (e_phnum AND mask 16)) s) (\<lambda>s.
     bindE (elf_word buf 24) (\<lambda>entry.
     bindE (on_mach_val (mm_malloc (KOFFSET - STACK_SIZE) STACK_SIZE) s) (\<lambda>(_, s).
     bindE (on_mach (create_video_mapping updir ptable) s) (\<lambda>s.
     bindE (on_mach (write_cr3 ucr3) s) (\<lambda>s. Inr (entry, s)))))))))"

section \<open>\<open>init_ide\<close>, \<open>init_idt\<close> in memory\<close>

definition k_init_ide :: "kboot \<Rightarrow> kboot res" where
  "k_init_ide s =
     bindE (add_irq_handle 0 Ide_writeback (k_irqs s)) (\<lambda>t.
     bindE (add_irq_handle 14 Ide_intr t) (\<lambda>t.
       Inr (s\<lparr>kc := k_cache_init (kc s), k_irqs := t\<rparr>)))"

fun store_gates :: "u32 \<Rightarrow> (nat \<Rightarrow> u32 \<times> u32) \<Rightarrow> nat \<Rightarrow> nat \<Rightarrow> mach \<Rightarrow> mach res" where
  "store_gates idt g i 0 m = Inr m"
| "store_gates idt g i (Suc n) m =
     bindE (k_store (idt + 8 * of_nat i) (fst (g i)) m) (\<lambda>m.
     bindE (k_store (idt + 8 * of_nat i + 4) (snd (g i)) m) (store_gates idt g (Suc i) n))"

definition write_idtr :: "u32 \<Rightarrow> u32 \<Rightarrow> u32 \<Rightarrow> mach \<Rightarrow> mach res" where
  "write_idtr desc addr sz m =
     bindE (ds_write desc 2 (sz - 1) m) (\<lambda>m.
     bindE (ds_write (desc + 2) 2 addr m) (\<lambda>m.
     bindE (ds_write (desc + 4) 2 (drop_bit 16 addr) m) (\<lambda>m.
     bindE (laddr_read desc 2 m) (\<lambda>(limit, m).
     bindE (laddr_read (desc + 2) 4 m) (\<lambda>(base, m).
       Inr (upd_cpu (\<lambda>c. c\<lparr>idtr_limit := limit AND mask 16, idtr_base := base\<rparr>) m))))))"

section \<open>\<open>main.c\<close>\<close>

record kernel_vars =
  v_gdt :: u32
  v_gdt_desc :: u32
  v_idt :: u32
  v_idt_desc :: u32
  v_kpdir :: u32
  v_kptable :: u32
  v_updir :: u32
  v_ptable :: u32
  v_stubs :: stubs

text \<open>
  Phase 2; \<open>log\<close> stands for the text written by \<open>Log\<close>. The gates, \<open>write_idtr\<close> and the first \<open>sti\<close> are
  \<open>init_idt\<close> of the source; the second \<open>sti\<close> follows at once and changes nothing. The result is the entry point the kernel
  jumps to, with the stack pointer at \<open>KOFFSET\<close>.
\<close>

definition init_cond :: "irq_handler \<Rightarrow> malloc \<Rightarrow> (kboot \<Rightarrow> kboot res) \<Rightarrow> kernel_vars \<Rightarrow> kboot \<Rightarrow> (u32 \<times> kboot) res" where
  "init_cond h mm_malloc log v s =
     bindE (on_mach (init_segment (v_gdt v) (v_gdt_desc v)) s) (\<lambda>s.
     bindE (on_mach (store_gates (v_idt v) (init_idt (v_stubs v) (\<lambda>_. (0, 0))) 0 256) s) (\<lambda>s.
     bindE (on_mach (write_idtr (v_idt_desc v) (v_idt v) (256 * 8)) s) (\<lambda>s.
     bindE (on_mach (\<lambda>m. Inr (set_fl (put_IF True (fl m)) m)) s) (\<lambda>s.
     bindE (k_init_ide s) (\<lambda>s.
     bindE (on_mach_val (init_mm (v_updir v) (v_kpdir v)) s) (\<lambda>(ucr3, s).
     bindE (log s) (\<lambda>s.
     bindE (on_mach video_mapping_write_test s) (\<lambda>s.
     bindE (loader h mm_malloc (v_updir v) (v_ptable v) ucr3 s) (\<lambda>(eip, s).
     bindE (on_mach video_mapping_read_test s) (\<lambda>s.
     bindE (on_mach video_mapping_clear s) (\<lambda>s.
     bindE (on_mach (\<lambda>m. Inr (set_reg REG_ESP KOFFSET m)) s) (\<lambda>s.
       Inr (eip, s)))))))))))))"

text \<open>Phase 1, up to the jump to \<open>init_cond\<close>.\<close>

definition k_init :: "kernel_vars \<Rightarrow> mach \<Rightarrow> mach res" where
  "k_init v m =
     bindE (init_page (v_kpdir v) (v_kptable v) m) (\<lambda>m.
       Inr (set_reg REG_ESP (reg REG_ESP m + KOFFSET) m))"

end
