(* ===== verification/Symtab.thy ===== *)
theory Symtab
  imports Prelude
begin

text \<open>
  The symbol table of the debugged program, \<open>nemu/src/monitor/elf.c\<close>: reading it from
  the bytes of an ELF file and looking names up in it. Offsets are those of the 32-bit ELF
  structures. \<open>fread\<close> past the end of the file leaves uninitialised memory, which the model
  reports as undefined.
\<close>

section \<open>Bytes of a file\<close>

definition rd :: "u8 list \<Rightarrow> nat \<Rightarrow> nat \<Rightarrow> u32 res" where
  "rd file off n =
     definedE ''fread'' (off + n \<le> length file) (Inr (le_read (\<lambda>i. file ! (off + i)) n))"

definition rd_block :: "u8 list \<Rightarrow> nat \<Rightarrow> nat \<Rightarrow> u8 list res" where
  "rd_block file off n =
     definedE ''fread'' (off + n \<le> length file) (Inr (take n (drop off file)))"

text \<open>The C string at an offset of a table.\<close>

definition c_string :: "u8 list \<Rightarrow> nat \<Rightarrow> string res" where
  "c_string tab off =
     definedE ''strcmp'' (0 \<in> set (drop off tab))
       (Inr (map (\<lambda>b. char_of (unat b)) (takeWhile (\<lambda>b. b \<noteq> 0) (drop off tab))))"

section \<open>Tables\<close>

record Elf32_Sym =
  st_name :: u32
  st_value :: u32
  st_size :: u32
  st_info :: u8

record symtab =
  strtab :: "u8 list"
  symbols :: "Elf32_Sym list"

definition read_sym :: "u8 list \<Rightarrow> nat \<Rightarrow> Elf32_Sym res" where
  "read_sym b i =
     bindE (rd b (16 * i) 4) (\<lambda>n. bindE (rd b (16 * i + 4) 4) (\<lambda>v.
     bindE (rd b (16 * i + 8) 4) (\<lambda>z. bindE (rd b (16 * i + 12) 1) (\<lambda>f.
       Inr \<lparr>st_name = n, st_value = v, st_size = z, st_info = ucast f\<rparr>))))"

fun mapE :: "('a \<Rightarrow> 'b res) \<Rightarrow> 'a list \<Rightarrow> 'b list res" where
  "mapE f [] = Inr []"
| "mapE f (x # xs) = bindE (f x) (\<lambda>y. bindE (mapE f xs) (\<lambda>ys. Inr (y # ys)))"

definition check_elf_header :: "u8 list \<Rightarrow> bool" where
  "check_elf_header b =
     (take 4 b = [0x7f, 0x45, 0x4c, 0x46] \<and> b ! 4 = 1 \<and> b ! 5 = 1 \<and> b ! 6 = 1 \<and>
      (b ! 7 = 0 \<or> b ! 7 = 3) \<and> b ! 8 = 0 \<and>
      le_read (\<lambda>i. b ! (16 + i)) 2 = 2 \<and> le_read (\<lambda>i. b ! (18 + i)) 2 = 3 \<and>
      le_read (\<lambda>i. b ! (20 + i)) 4 = 1)"

text \<open>One round of the loop over the section headers \<open>sh\<close> with the names \<open>shstrtab\<close>.\<close>

definition load_section ::
    "u8 list \<Rightarrow> nat \<Rightarrow> u8 list \<Rightarrow> nat \<Rightarrow> u8 list option \<times> Elf32_Sym list option \<Rightarrow>
     (u8 list option \<times> Elf32_Sym list option) res" where
  "load_section file shoff shstrtab i tabs =
     (let h = shoff + 40 * i in
      bindE (rd file h 4) (\<lambda>name. bindE (rd file (h + 4) 4) (\<lambda>ty.
      bindE (rd file (h + 16) 4) (\<lambda>off. bindE (rd file (h + 20) 4) (\<lambda>sz.
      bindE (if ty = 2 \<or> ty = 3 then c_string shstrtab (unat name) else Inr '''') (\<lambda>nm.
        if ty = 2 \<and> nm = ''.symtab'' then
          bindE (rd_block file (unat off) (unat sz)) (\<lambda>b.
          bindE (mapE (read_sym b) [0..<unat sz div 16]) (\<lambda>syms. Inr (fst tabs, Some syms)))
        else if ty = 3 \<and> nm = ''.strtab'' then
          bindE (rd_block file (unat off) (unat sz)) (\<lambda>b. Inr (Some b, snd tabs))
        else Inr tabs))))))"

fun load_sections ::
    "u8 list \<Rightarrow> nat \<Rightarrow> u8 list \<Rightarrow> nat list \<Rightarrow> u8 list option \<times> Elf32_Sym list option \<Rightarrow>
     (u8 list option \<times> Elf32_Sym list option) res" where
  "load_sections file shoff shstrtab [] tabs = Inr tabs"
| "load_sections file shoff shstrtab (i # is) tabs =
     bindE (load_section file shoff shstrtab i tabs) (load_sections file shoff shstrtab is)"

text \<open>
  The tables loaded before stay where the file has no such section; the section header
  table must lie inside the file.
\<close>

definition load_elf_tables :: "u8 list \<Rightarrow> u8 list option \<times> Elf32_Sym list option \<Rightarrow> symtab res" where
  "load_elf_tables file tabs =
     definedE ''fread'' (52 \<le> length file)
      (assertE ''load_elf_tables'' (check_elf_header file)
       (bindE (rd file 32 4) (\<lambda>shoff. bindE (rd file 46 2) (\<lambda>entsize.
        bindE (rd file 48 2) (\<lambda>shnum. bindE (rd file 50 2) (\<lambda>strndx.
        bindE (rd_block file (unat shoff) (unat entsize * unat shnum)) (\<lambda>_.
        bindE (rd file (unat shoff + 40 * unat strndx + 16) 4) (\<lambda>off.
        bindE (rd file (unat shoff + 40 * unat strndx + 20) 4) (\<lambda>sz.
        bindE (rd_block file (unat off) (unat sz)) (\<lambda>shstrtab.
        bindE (load_sections file (unat shoff) shstrtab [0..<unat shnum] tabs) (\<lambda>tabs.
          case tabs of (Some str, Some syms) \<Rightarrow> Inr \<lparr>strtab = str, symbols = syms\<rparr>
          | _ \<Rightarrow> Inl (Assert_failed ''load_elf_tables''))))))))))))"

section \<open>Looking up\<close>

abbreviation (input) "STT_OBJECT \<equiv> 1 :: u8"
abbreviation (input) "STT_FUNC \<equiv> 2 :: u8"

definition sym_type :: "Elf32_Sym \<Rightarrow> u8" where "sym_type e = st_info e AND 0xf"

fun find_sym :: "u8 list \<Rightarrow> (u8 \<Rightarrow> bool) \<Rightarrow> string \<Rightarrow> Elf32_Sym list \<Rightarrow> u32 option res" where
  "find_sym tab ok name [] = Inr None"
| "find_sym tab ok name (e # es) =
     (if ok (sym_type e) then
        bindE (c_string tab (unat (st_name e))) (\<lambda>nm.
          if nm = name then Inr (Some (st_value e)) else find_sym tab ok name es)
      else find_sym tab ok name es)"

text \<open>The lookups return \<open>None\<close> where the C functions clear \<open>*success\<close> and return 0.\<close>

definition look_up_fun_symtab :: "symtab \<Rightarrow> string \<Rightarrow> u32 option res" where
  "look_up_fun_symtab t name = find_sym (strtab t) (\<lambda>ty. ty = STT_FUNC) name (symbols t)"

definition look_up_symtab :: "symtab \<Rightarrow> string \<Rightarrow> u32 option res" where
  "look_up_symtab t name =
     find_sym (strtab t) (\<lambda>ty. ty = STT_FUNC \<or> ty = STT_OBJECT) name (symbols t)"

definition find_fun_name :: "symtab \<Rightarrow> u32 \<Rightarrow> string res" where
  "find_fun_name t pc =
     (case find (\<lambda>e. sym_type e = STT_FUNC \<and> st_value e \<le> pc \<and> pc < st_value e + st_size e)
             (symbols t) of
        Some e \<Rightarrow> c_string (strtab t) (unat (st_name e))
      | None \<Rightarrow> Inr ''???'')"

end
