(* ===== verification/Expr.thy ===== *)
theory Expr
  imports Symtab Decode
begin

text \<open>
  The debugger's expression evaluator, \<open>nemu/src/monitor/expr.c\<close>. The regular expressions of
  the token rules are matched by hand: each rule matches the longest prefix of the rest of the
  input, and the first rule that matches wins. \<open>elements\<close> is a global array that keeps its
  contents from one call to the next.
\<close>

section \<open>Tokens\<close>

text \<open>The token types 10, 16, 0, 2, \<open>EQ\<close> and the operator characters.\<close>

datatype token = Tok_dec string | Tok_hex string | Tok_reg string | Tok_var string
  | Tok_eq | Tok_op char

definition in_range :: "char \<Rightarrow> char \<Rightarrow> char \<Rightarrow> bool" where
  "in_range lo hi c = ((of_char lo :: nat) \<le> of_char c \<and> (of_char c :: nat) \<le> of_char hi)"

definition is_digit :: "char \<Rightarrow> bool" where
  "is_digit c = (in_range CHR ''0'' CHR ''9'' c)"

definition is_alpha :: "char \<Rightarrow> bool" where
  "is_alpha c = (in_range CHR ''a'' CHR ''z'' c \<or> in_range CHR ''A'' CHR ''Z'' c \<or> c = CHR ''_'')"

definition is_xdigit :: "char \<Rightarrow> bool" where
  "is_xdigit c = (is_digit c \<or> in_range CHR ''a'' CHR ''f'' c \<or> in_range CHR ''A'' CHR ''F'' c)"

definition reg_names :: "string list" where
  "reg_names = [''eax'', ''ecx'', ''edx'', ''ebx'', ''esp'', ''ebp'', ''esi'', ''edi'', ''eip'']"

datatype rule = NOTYPE | R_char char | EQ | DEC_NUM | HEX_NUM | REG | VAR

definition rules :: "rule list" where
  "rules = [NOTYPE, R_char CHR ''+'', R_char CHR ''-'', R_char CHR ''*'', R_char CHR ''/'',
     R_char CHR ''('', R_char CHR '')'', EQ, DEC_NUM, HEX_NUM, REG, VAR]"

text \<open>The length of the match, 0 for none.\<close>

definition match_len :: "rule \<Rightarrow> string \<Rightarrow> nat" where
  "match_len r e =
     (case r of
        NOTYPE \<Rightarrow> length (takeWhile (\<lambda>c. c = CHR '' '') e)
      | R_char c \<Rightarrow> if take 1 e = [c] then 1 else 0
      | EQ \<Rightarrow> if take 2 e = ''=='' then 2 else 0
      | DEC_NUM \<Rightarrow> (case e of c # cs \<Rightarrow>
            if is_digit c \<and> c \<noteq> CHR ''0'' then 1 + length (takeWhile is_digit cs) else 0
          | [] \<Rightarrow> 0)
      | HEX_NUM \<Rightarrow>
          if (take 2 e = ''0x'' \<or> take 2 e = ''0X'') \<and> takeWhile is_xdigit (drop 2 e) \<noteq> []
          then 2 + length (takeWhile is_xdigit (drop 2 e)) else 0
      | REG \<Rightarrow> if take 1 e = ''$'' \<and> take 3 (drop 1 e) \<in> set reg_names then 4 else 0
      | VAR \<Rightarrow> (case e of c # cs \<Rightarrow>
            if is_alpha c then 1 + length (takeWhile (\<lambda>c. is_alpha c \<or> is_digit c) cs) else 0
          | [] \<Rightarrow> 0))"

definition mk_token :: "rule \<Rightarrow> string \<Rightarrow> token list" where
  "mk_token r str =
     (case r of NOTYPE \<Rightarrow> [] | R_char c \<Rightarrow> [Tok_op c] | EQ \<Rightarrow> [Tok_eq] | DEC_NUM \<Rightarrow> [Tok_dec str]
      | HEX_NUM \<Rightarrow> [Tok_hex str] | REG \<Rightarrow> [Tok_reg str] | VAR \<Rightarrow> [Tok_var str])"

lemma find_rule_len: "find (\<lambda>r. 0 < match_len r e) rules = Some r \<Longrightarrow> 0 < match_len r e"
  by (auto simp: find_Some_iff)

text \<open>
  \<open>make_token\<close>: the tokens, or \<open>None\<close> where no rule matches. The arrays hold 32 tokens of
  at most 31 characters.
\<close>

function make_token :: "string \<Rightarrow> token list \<Rightarrow> token list option res" where
  "make_token e toks =
     (if e = [] then Inr (Some toks)
      else case find (\<lambda>r. 0 < match_len r e) rules of
        None \<Rightarrow> Inr None
      | Some r \<Rightarrow>
          let n = match_len r e; t = mk_token r (take n e) in
          definedE ''make_token''
            (length (toks @ t) \<le> 32 \<and> (r \<in> {DEC_NUM, HEX_NUM, REG, VAR} \<longrightarrow> n < 32))
            (make_token (drop n e) (toks @ t)))"
  by pat_completeness auto
termination
  by (relation "measure (\<lambda>(e, _). length e)") (auto dest: find_rule_len)

declare make_token.simps [simp del]

section \<open>Elements\<close>

text \<open>
  \<open>type\<close> 1 is an operand, 2 an operator; the operators are numbered 1 plus, 2 minus, 3 times,
  4 divide, 5 and 6 the parentheses, 7 negation, 8 dereference.
\<close>

record Element =
  etype :: nat
  num :: u32
  priority :: nat

definition is_op :: "nat \<Rightarrow> Element \<Rightarrow> bool" where
  "is_op n el = (etype el = 2 \<and> num el = of_nat n)"

definition operand :: "u32 \<Rightarrow> Element" where
  "operand v = \<lparr>etype = 1, num = v, priority = 0\<rparr>"

definition operator :: "nat \<Rightarrow> nat \<Rightarrow> Element" where
  "operator n p = \<lparr>etype = 2, num = of_nat n, priority = p\<rparr>"

definition digit_val :: "char \<Rightarrow> nat" where
  "digit_val c = of_char c - of_char CHR ''0''"

definition dec_val :: "string \<Rightarrow> nat" where
  "dec_val str = foldl (\<lambda>n c. 10 * n + digit_val c) 0 str"

definition hex_digit_val :: "char \<Rightarrow> nat" where
  "hex_digit_val c =
     (if is_digit c then digit_val c
      else if in_range CHR ''a'' CHR ''z'' c then of_char c - of_char CHR ''a'' + 10
      else of_char c + 10 - of_char CHR ''A'')"

definition hex_val :: "string \<Rightarrow> u32" where
  "hex_val str = foldl (\<lambda>n c. n * 16 + of_nat (hex_digit_val c)) 0 (drop 2 str)"

definition reg_val :: "string \<Rightarrow> mach \<Rightarrow> u32 option" where
  "reg_val str s =
     map_of [(''ax'', reg REG_EAX s), (''cx'', reg REG_ECX s), (''dx'', reg REG_EDX s),
             (''bx'', reg REG_EBX s), (''sp'', reg REG_ESP s), (''bp'', reg REG_EBP s),
             (''si'', reg REG_ESI s), (''di'', reg REG_EDI s), (''ip'', eip (cpu s))]
       (take 2 (drop 2 str))"

text \<open>
  The element a token becomes, \<open>None\<close> where the switch leaves \<open>elements[i]\<close> alone, with
  \<open>*success\<close> after it. \<open>atoi\<close> is undefined for a number that does not fit.
\<close>

definition op_element :: "char \<Rightarrow> Element option" where
  "op_element c =
     map_of [(CHR ''+'', operator 1 1), (CHR ''-'', operator 2 1), (CHR ''*'', operator 3 2),
             (CHR ''/'', operator 4 2), (CHR ''('', operator 5 0), (CHR '')'', operator 6 0)] c"

definition token_element :: "symtab \<Rightarrow> mach \<Rightarrow> token \<Rightarrow> bool \<Rightarrow> (Element option \<times> bool) res" where
  "token_element tab s t ok =
     (case t of
        Tok_dec str \<Rightarrow>
          definedE ''atoi'' (dec_val str < 2 ^ 31) (Inr (Some (operand (of_nat (dec_val str))), ok))
      | Tok_hex str \<Rightarrow> Inr (Some (operand (hex_val str)), ok)
      | Tok_reg str \<Rightarrow> Inr (map_option operand (reg_val str s), ok)
      | Tok_var str \<Rightarrow>
          bindE (look_up_symtab tab str) (\<lambda>v. Inr (map_option operand v, v \<noteq> None))
      | Tok_eq \<Rightarrow> Inr (None, ok)
      | Tok_op c \<Rightarrow> Inr (op_element c, ok))"

fun token_elements ::
    "symtab \<Rightarrow> mach \<Rightarrow> token list \<Rightarrow> nat \<Rightarrow> (nat \<Rightarrow> Element) \<Rightarrow> bool \<Rightarrow> ((nat \<Rightarrow> Element) \<times> bool) res" where
  "token_elements tab s [] i els ok = Inr (els, ok)"
| "token_elements tab s (t # ts) i els ok =
     bindE (token_element tab s t ok) (\<lambda>(el, ok).
       token_elements tab s ts (Suc i) (case el of None \<Rightarrow> els | Some x \<Rightarrow> els(i := x)) ok)"

text \<open>Minus and star are unary at the start, after a parenthesis, and star after an operator.\<close>

definition unary_at :: "(nat \<Rightarrow> Element) \<Rightarrow> nat \<Rightarrow> nat \<Rightarrow> bool" where
  "unary_at els i n =
     (i = 0 \<or> is_op 5 (els (i - 1)) \<or>
      n = 3 \<and> (is_op 1 (els (i - 1)) \<or> is_op 2 (els (i - 1)) \<or> is_op 3 (els (i - 1)) \<or>
               is_op 4 (els (i - 1))))"

definition fix_unary :: "nat \<Rightarrow> (nat \<Rightarrow> Element) \<Rightarrow> (nat \<Rightarrow> Element)" where
  "fix_unary i els =
     (if is_op 2 (els i) then if unary_at els i 2 then els(i := operator 7 3) else els
      else if is_op 3 (els i) then if unary_at els i 3 then els(i := operator 8 3) else els
      else els)"

definition fix_unaries :: "nat \<Rightarrow> (nat \<Rightarrow> Element) \<Rightarrow> (nat \<Rightarrow> Element)" where
  "fix_unaries n els = fold fix_unary [0..<n] els"

section \<open>Parentheses\<close>

fun count_parentheses :: "Element list \<Rightarrow> int \<Rightarrow> bool" where
  "count_parentheses [] c = (c = 0)"
| "count_parentheses (el # els) c =
     (let c = (if is_op 5 el then c + 1 else if is_op 6 el then c - 1 else c) in
      if c < 0 then False else count_parentheses els c)"

definition check_parentheses :: "Element list \<Rightarrow> bool" where
  "check_parentheses els = count_parentheses els 0"

text \<open>
  The loop of \<open>check_priority\<close>; it runs after \<open>check_parentheses\<close>, which keeps the count
  from going below zero.
\<close>

fun raise_priority :: "nat \<Rightarrow> Element list \<Rightarrow> Element list" where
  "raise_priority left_count [] = []"
| "raise_priority left_count (el # els) =
     (if is_op 5 el then el # raise_priority (left_count + 1) els
      else if is_op 6 el then el # raise_priority (left_count - 1) els
      else if etype el = 2 then el\<lparr>priority := priority el + left_count * 3\<rparr> # raise_priority left_count els
      else el # raise_priority left_count els)"

definition check_priority :: "Element list \<Rightarrow> Element list" where
  "check_priority els = raise_priority 0 els"

text \<open>
  The array after \<open>remove_parentheses\<close> and the new \<open>nr_token\<close>; each removal shifts the rest of
  the tokens down by one.
\<close>

function remove_from :: "nat \<Rightarrow> nat \<Rightarrow> (nat \<Rightarrow> Element) \<Rightarrow> nat \<times> (nat \<Rightarrow> Element)" where
  "remove_from i n els =
     (if i < n then
        if is_op 5 (els i) \<or> is_op 6 (els i)
        then remove_from i (n - 1) (\<lambda>j. if i \<le> j \<and> j < n - 1 then els (j + 1) else els j)
        else remove_from (i + 1) n els
      else (n, els))"
  by pat_completeness auto
termination
  by (relation "measure (\<lambda>(i, n, _). n - i)") auto

declare remove_from.simps [simp del]

definition remove_parentheses :: "nat \<Rightarrow> (nat \<Rightarrow> Element) \<Rightarrow> nat \<times> (nat \<Rightarrow> Element)" where
  "remove_parentheses n els = remove_from 0 n els"

section \<open>Evaluation\<close>

text \<open>The operator the loop of \<open>eval\<close> picks: the last one of the lowest priority, or index 0.\<close>

fun min_op :: "(nat \<Rightarrow> Element) \<Rightarrow> nat list \<Rightarrow> nat \<Rightarrow> nat \<Rightarrow> nat" where
  "min_op els [] min_prio m = m"
| "min_op els (i # is) min_prio m =
     (if etype (els i) = 2 \<and> priority (els i) \<le> min_prio then min_op els is (priority (els i)) i
      else min_op els is min_prio m)"

definition prefix_op :: "Element \<Rightarrow> bool" where
  "prefix_op el = (is_op 7 el \<or> is_op 8 el)"

definition apply_prefix :: "nat \<Rightarrow> u32 \<Rightarrow> mach \<Rightarrow> (u32 \<times> mach) res" where
  "apply_prefix n v s = (if n = 7 then Inr (- v, s) else vaddr_read v SREG_ES 4 s)"

text \<open>The loop that goes down from \<open>j\<close> over a chain of prefix operators.\<close>

fun prefix_chain :: "(nat \<Rightarrow> Element) \<Rightarrow> nat \<Rightarrow> u32 \<Rightarrow> mach \<Rightarrow> (u32 \<times> mach) res" where
  "prefix_chain els 0 v s = Inr (v, s)"
| "prefix_chain els (Suc j) v s =
     (if prefix_op (els j) then
        bindE (apply_prefix (if is_op 7 (els j) then 7 else 8) v s) (\<lambda>(v, s). prefix_chain els j v s)
      else Inr (v, s))"

text \<open>
  \<open>eval(s, e)\<close> with the bounds as integers. The recursion need not end: where a range holds no
  operator the code falls back to element 0, which may lie outside the range, so the model has
  fuel. The operands of an addition are evaluated left to right.
\<close>

fun eval :: "nat \<Rightarrow> (nat \<Rightarrow> Element) \<Rightarrow> int \<Rightarrow> int \<Rightarrow> mach \<Rightarrow> (u32 \<times> mach) res" where
  "eval 0 els lo hi s = Inl Out_of_fuel"
| "eval (Suc fuel) els lo hi s =
     (if lo > hi then Inr (- 1, s)
      else if lo = hi then Inr (num (els (nat hi)), s)
      else
        let m = min_op els [nat lo..<nat hi + 1] 100 0; el = els m;
            binop = (\<lambda>f. bindE (eval fuel els lo (int m - 1) s) (\<lambda>(a, s).
                         bindE (eval fuel els (int m + 1) hi s) (\<lambda>(b, s). Inr (f a b, s)))) in
        if is_op 1 el then binop (+)
        else if is_op 2 el then binop (-)
        else if is_op 3 el then binop (*)
        else if is_op 4 el then binop (+)
        else if prefix_op el then
          bindE (eval fuel els (int m + 1) hi s) (\<lambda>(v, s).
          bindE (apply_prefix (if is_op 7 el then 7 else 8) v s) (\<lambda>(v, s).
            if m = 0 \<or> \<not> prefix_op (els (m - 1)) \<or> priority (els (m - 1)) \<noteq> priority el
            then Inr (v, s)
            else prefix_chain els m v s))
        else Inr (- 1, s))"

text \<open>
  \<open>expr\<close>: the value, \<open>*success\<close> and the array afterwards. \<open>*success\<close> is only written by a
  failed tokenisation or by a variable, so its value before the call matters.
\<close>

definition load_list :: "Element list \<Rightarrow> (nat \<Rightarrow> Element) \<Rightarrow> (nat \<Rightarrow> Element)" where
  "load_list xs els = (\<lambda>i. if i < length xs then xs ! i else els i)"

definition expr :: "nat \<Rightarrow> symtab \<Rightarrow> string \<Rightarrow> bool \<Rightarrow> (nat \<Rightarrow> Element) \<Rightarrow> mach \<Rightarrow>
    (u32 \<times> bool \<times> (nat \<Rightarrow> Element) \<times> mach) res" where
  "expr fuel tab e ok els s =
     bindE (make_token e []) (\<lambda>toks. case toks of
       None \<Rightarrow> Inr (0, False, els, s)
     | Some toks \<Rightarrow>
         bindE (token_elements tab s toks 0 els ok) (\<lambda>(els, ok).
           let n = length toks; els = fix_unaries n els; xs = map els [0..<n] in
           if check_parentheses xs then
             let (k, els) = remove_parentheses n (load_list (check_priority xs) els) in
             bindE (eval fuel els 0 (int k - 1) s) (\<lambda>(v, s). Inr (v, ok, els, s))
           else Inr (- 1, ok, els, s)))"

end
