(* ===== verification/Breakpoint.thy ===== *)
theory Breakpoint
  imports Expr
begin

text \<open>
  Breakpoints and watchpoints, \<open>nemu/src/monitor/breakpoint.c\<close>: a pool of 32 records linked
  into a list of used and a list of free ones. Pointers into the pool are indices. The list
  loops carry fuel: a list of the pool has at most 32 nodes.
\<close>

section \<open>The pool\<close>

text \<open>The union of \<open>addr\<close> with \<open>expr\<close>, \<open>old_val\<close> and \<open>new_val\<close>, tagged by \<open>type\<close>.\<close>

datatype bp_kind = BREAKPOINT u32 | WATCHPOINT string u32 u32

record BP =
  ori_byte :: u8
  enable :: bool
  in_use :: bool
  bp_NO :: nat
  kind :: bp_kind
  next_bp :: "nat option"

record bp_pool =
  bp_list :: "nat \<Rightarrow> BP"
  head_bp :: "nat option"
  free_bp :: "nat option"

abbreviation (input) "NR_BP \<equiv> 32 :: nat"
abbreviation (input) "INT3_CODE \<equiv> 0xf1 :: u32"

definition upd_bp :: "nat \<Rightarrow> (BP \<Rightarrow> BP) \<Rightarrow> bp_pool \<Rightarrow> bp_pool" where
  "upd_bp i f b = b\<lparr>bp_list := (bp_list b)(i := f (bp_list b i))\<rparr>"

definition init_bp_list :: "bp_pool \<Rightarrow> bp_pool" where
  "init_bp_list b =
     \<lparr>bp_list = (\<lambda>i. if i < NR_BP then (bp_list b i)\<lparr>in_use := False, bp_NO := i,
                       next_bp := (if i = NR_BP - 1 then None else Some (i + 1))\<rparr>
                     else bp_list b i),
      head_bp = None, free_bp = Some 0\<rparr>"

definition new_BP :: "bp_pool \<Rightarrow> (nat \<times> bp_pool) res" where
  "new_BP b =
     (case free_bp b of
        None \<Rightarrow> Inl (Assert_failed ''new_BP'')
      | Some p \<Rightarrow>
          let b = b\<lparr>free_bp := next_bp (bp_list b p)\<rparr> in
          assertE ''new_BP'' (\<not> in_use (bp_list b p)) (Inr (p, upd_bp p (\<lambda>x. x\<lparr>in_use := True\<rparr>) b)))"

definition free_BP :: "nat \<Rightarrow> bp_pool \<Rightarrow> bp_pool res" where
  "free_BP p b =
     assertE ''free_BP'' (p < NR_BP \<and> in_use (bp_list b p))
       (Inr ((upd_bp p (\<lambda>x. x\<lparr>in_use := False, next_bp := free_bp b\<rparr>) b)\<lparr>free_bp := Some p\<rparr>))"

text \<open>\<open>p->next = head; head = p\<close>.\<close>

definition push_head :: "nat \<Rightarrow> bp_pool \<Rightarrow> bp_pool" where
  "push_head p b = (upd_bp p (\<lambda>x. x\<lparr>next_bp := head_bp b\<rparr>) b)\<lparr>head_bp := Some p\<rparr>"

definition set_breakpoint :: "u32 \<Rightarrow> bp_pool \<Rightarrow> mach \<Rightarrow> (nat \<times> bp_pool \<times> mach) res" where
  "set_breakpoint addr b s =
     bindE (new_BP b) (\<lambda>(p, b).
     bindE (fetch8 addr s) (\<lambda>(byte, s).
     bindE (vaddr_write addr SREG_CS 1 INT3_CODE s) (\<lambda>s.
       let b = upd_bp p (\<lambda>x. x\<lparr>kind := BREAKPOINT addr, ori_byte := byte, enable := True\<rparr>) b in
       Inr (bp_NO (bp_list b p), push_head p b, s))))"

text \<open>\<open>ok\<close> is the initial value of the local \<open>success\<close>; \<open>None\<close> is the result \<open>-1\<close>.\<close>

definition set_watchpoint :: "nat \<Rightarrow> symtab \<Rightarrow> bool \<Rightarrow> string \<Rightarrow> (nat \<Rightarrow> Element) \<Rightarrow> bp_pool \<Rightarrow> mach \<Rightarrow>
    (nat option \<times> (nat \<Rightarrow> Element) \<times> bp_pool \<times> mach) res" where
  "set_watchpoint fuel tab ok e els b s =
     bindE (expr fuel tab e ok els s) (\<lambda>(v, ok, els, s).
       if \<not> ok then Inr (None, els, b, s)
       else
         bindE (new_BP b) (\<lambda>(p, b).
           let b = upd_bp p (\<lambda>x. x\<lparr>kind := WATCHPOINT e v 0, enable := True\<rparr>) b in
           Inr (Some (bp_NO (bp_list b p)), els, push_head p b, s)))"

section \<open>Walking the list of used records\<close>

text \<open>The first record from \<open>p\<close> on that satisfies \<open>P\<close>, with its predecessor.\<close>

fun find_bp :: "nat \<Rightarrow> (BP \<Rightarrow> bool) \<Rightarrow> bp_pool \<Rightarrow> nat option \<Rightarrow> nat option \<Rightarrow>
    (nat option \<times> nat option) res" where
  "find_bp fuel P b prev p =
     (case p of None \<Rightarrow> Inr (None, prev)
      | Some i \<Rightarrow>
          if P (bp_list b i) then Inr (Some i, prev)
          else (case fuel of 0 \<Rightarrow> Inl Out_of_fuel
                | Suc fuel' \<Rightarrow> find_bp fuel' P b (Some i) (next_bp (bp_list b i))))"

declare find_bp.simps [simp del]

definition delete_breakpoint :: "nat \<Rightarrow> bp_pool \<Rightarrow> (bool \<times> bp_pool) res" where
  "delete_breakpoint NO b =
     bindE (find_bp NR_BP (\<lambda>x. bp_NO x = NO) b None (head_bp b)) (\<lambda>(p, prev).
       case p of None \<Rightarrow> Inr (False, b)
       | Some i \<Rightarrow>
           let nx = next_bp (bp_list b i);
               b = (case prev of None \<Rightarrow> b\<lparr>head_bp := nx\<rparr>
                    | Some j \<Rightarrow> upd_bp j (\<lambda>x. x\<lparr>next_bp := nx\<rparr>) b) in
           bindE (free_BP i b) (\<lambda>b. Inr (True, b)))"

fun delete_all_breakpoint_recursively :: "nat \<Rightarrow> nat option \<Rightarrow> bp_pool \<Rightarrow> bp_pool res" where
  "delete_all_breakpoint_recursively fuel p b =
     (case p of None \<Rightarrow> Inr b
      | Some i \<Rightarrow>
          (case fuel of 0 \<Rightarrow> Inl Out_of_fuel
           | Suc fuel' \<Rightarrow>
               bindE (delete_all_breakpoint_recursively fuel' (next_bp (bp_list b i)) b) (free_BP i)))"

declare delete_all_breakpoint_recursively.simps [simp del]

definition delete_all_breakpoint :: "bp_pool \<Rightarrow> bp_pool res" where
  "delete_all_breakpoint b =
     bindE (delete_all_breakpoint_recursively NR_BP (head_bp b) b) (\<lambda>b. Inr (b\<lparr>head_bp := None\<rparr>))"

text \<open>The loops of the other functions: \<open>step\<close> at each record, after checking \<open>in_use\<close>.\<close>

fun walk_bp :: "nat \<Rightarrow> (nat \<Rightarrow> bp_pool \<times> 's \<Rightarrow> (bool \<times> bp_pool \<times> 's) res) \<Rightarrow> nat option \<Rightarrow>
    bp_pool \<times> 's \<Rightarrow> (nat option \<times> bp_pool \<times> 's) res" where
  "walk_bp fuel step p bs =
     (case p of None \<Rightarrow> Inr (None, bs)
      | Some i \<Rightarrow>
          assertE ''breakpoint'' (in_use (bp_list (fst bs) i))
           (bindE (step i bs) (\<lambda>(stop, bs).
             if stop then Inr (Some i, bs)
             else case fuel of 0 \<Rightarrow> Inl Out_of_fuel
               | Suc fuel' \<Rightarrow> walk_bp fuel' step (next_bp (bp_list (fst bs) i)) bs)))"

declare walk_bp.simps [simp del]

definition find_breakpoint :: "u32 \<Rightarrow> bp_pool \<Rightarrow> nat option res" where
  "find_breakpoint addr b =
     bindE (walk_bp NR_BP (\<lambda>i bs. Inr (kind (bp_list (fst bs) i) = BREAKPOINT addr, bs))
              (head_bp b) (b, ()))
       (\<lambda>(p, _). Inr p)"

definition resume_step :: "nat \<Rightarrow> bp_pool \<times> mach \<Rightarrow> (bool \<times> bp_pool \<times> mach) res" where
  "resume_step i = (\<lambda>(b, s).
     case kind (bp_list b i) of
       BREAKPOINT addr \<Rightarrow>
         bindE (fetch8 addr s) (\<lambda>(byte, s).
         bindE (vaddr_write addr SREG_CS 1 INT3_CODE s) (\<lambda>s.
           Inr (False, upd_bp i (\<lambda>x. x\<lparr>ori_byte := byte, enable := True\<rparr>) b, s)))
     | WATCHPOINT _ _ _ \<Rightarrow> Inr (False, b, s))"

definition resume_breakpoints :: "bp_pool \<Rightarrow> mach \<Rightarrow> (bp_pool \<times> mach) res" where
  "resume_breakpoints b s =
     bindE (walk_bp NR_BP resume_step (head_bp b) (b, s)) (\<lambda>(_, bs). Inr bs)"

definition mask_step :: "nat \<Rightarrow> bp_pool \<times> mach \<Rightarrow> (bool \<times> bp_pool \<times> mach) res" where
  "mask_step i = (\<lambda>(b, s).
     case kind (bp_list b i) of
       BREAKPOINT addr \<Rightarrow>
         bindE (vaddr_write addr SREG_CS 1 (ucast (ori_byte (bp_list b i))) s) (\<lambda>s. Inr (False, b, s))
     | WATCHPOINT _ _ _ \<Rightarrow> Inr (False, b, s))"

definition mask_breakpoints :: "bp_pool \<Rightarrow> mach \<Rightarrow> (bp_pool \<times> mach) res" where
  "mask_breakpoints b s = bindE (walk_bp NR_BP mask_step (head_bp b) (b, s)) (\<lambda>(_, bs). Inr bs)"

definition scan_step :: "nat \<Rightarrow> symtab \<Rightarrow> nat \<Rightarrow> bp_pool \<times> (nat \<Rightarrow> Element) \<times> mach \<Rightarrow>
    (bool \<times> bp_pool \<times> (nat \<Rightarrow> Element) \<times> mach) res" where
  "scan_step fuel tab i = (\<lambda>(b, els, s).
     case kind (bp_list b i) of
       WATCHPOINT e old_val _ \<Rightarrow>
         bindE (expr fuel tab e False els s) (\<lambda>(new_val, _, els, s).
           Inr (old_val \<noteq> new_val, upd_bp i (\<lambda>x. x\<lparr>kind := WATCHPOINT e old_val new_val\<rparr>) b, els, s))
     | BREAKPOINT _ \<Rightarrow> Inr (False, b, els, s))"

definition scan_watchpoint :: "nat \<Rightarrow> symtab \<Rightarrow> (nat \<Rightarrow> Element) \<Rightarrow> bp_pool \<Rightarrow> mach \<Rightarrow>
    (nat option \<times> bp_pool \<times> (nat \<Rightarrow> Element) \<times> mach) res" where
  "scan_watchpoint fuel tab els b s =
     walk_bp NR_BP (scan_step fuel tab) (head_bp b) (b, els, s)"

end
