(* ===== verification/Exec.thy ===== *)
theory Exec
  imports Opcode Breakpoint
begin

text \<open>
  Running the machine: \<open>nemu/src/cpu/cpu.c\<close>, the start-up of \<open>nemu/src/main.c\<close> and the SDL
  thread of \<open>nemu/src/device/sdl.c\<close>. The CPU thread alone is the function \<open>exec\<close>; with the
  SDL thread beside it the emulator is the step relation \<open>nemu_step\<close>.
\<close>

section \<open>The emulator with its debugger\<close>

record nemu =
  machine :: mach
  bps :: bp_pool
  els :: "nat \<Rightarrow> Element"
  tab :: symtab

definition init_cpu :: "u32 \<Rightarrow> mach \<Rightarrow> mach" where
  "init_cpu init_eip s =
     s\<lparr>fpu := (fpu s)\<lparr>status := 0, regStack := (\<lambda>i. if i < 8 then 0 else regStack (fpu s) i)\<rparr>,
       cpu := (cpu s)
        \<lparr>eflags := 0,
         gpr := (\<lambda>i. if i = REG_ESP then push_bit 20 128 - 16 else if i < 8 then 0 else gpr (cpu s) i),
         eip := init_eip, cr0 := 0, gdtr_limit := 0, gdtr_base := 0,
         segReg := (\<lambda>i. if i < 6 then \<lparr>sr_val = 0, sr_base = 0, sr_limit = 0, sr_type = 0,
             sr_privilege_level = 0, sr_soft_use = 0\<rparr> else segReg (cpu s) i),
         intr := 0\<rparr>\<rparr>"

text \<open>\<open>restart\<close> without SDL, whose threads are \<open>sdl_step\<close> below, and without \<open>init_regex\<close>.\<close>

definition restart :: "u32 \<Rightarrow> nemu \<Rightarrow> nemu res" where
  "restart init_eip st =
     bindE (init_vga (init_mem (init_cpu init_eip (machine st)))) (\<lambda>s.
     bindE (init_serial s) (\<lambda>s.
       Inr (st\<lparr>machine := s, bps := init_bp_list (bps st)\<rparr>)))"

definition load_image :: "u8 list \<Rightarrow> nat \<Rightarrow> mach \<Rightarrow> mach res" where
  "load_image file load_off s =
     assertE ''load_image'' (file \<noteq> [])
      (definedE ''load_image'' (load_off + length file \<le> MEM_SIZE_B)
        (Inr (s\<lparr>mem := (mem s)\<lparr>hw_mem := (\<lambda>i. if load_off \<le> i \<and> i < load_off + length file
            then file ! (i - load_off) else hw_mem (mem s) i)\<rparr>\<rparr>)))"

definition single_run :: "u8 list \<Rightarrow> u8 list \<Rightarrow> nemu \<Rightarrow> nemu res" where
  "single_run img elf st =
     bindE (restart 0x30000 st) (\<lambda>st.
     bindE (load_image img 0x30000 (machine st)) (\<lambda>s.
     bindE (init_ide elf s) (\<lambda>s.
     bindE (load_elf_tables elf (Some (strtab (tab st)), Some (symbols (tab st)))) (\<lambda>t.
       Inr (st\<lparr>machine := s\<lparr>nemu_state := NEMU_READY\<rparr>, tab := t\<rparr>)))))"

section \<open>\<open>exec\<close>\<close>

definition clear_operands :: "mach \<Rightarrow> mach" where
  "clear_operands s =
     (if verbose s then upd_dest clear_operand_mem_addr (upd_src clear_operand_mem_addr s) else s)"

text \<open>A hit breakpoint gets its original opcode back.\<close>

definition restore_opcode :: "nemu \<Rightarrow> nemu res" where
  "restore_opcode st =
     (let s = machine st in
      if nemu_state s = NEMU_BREAK then
        bindE (find_breakpoint (eip (cpu s) - 1) (bps st)) (\<lambda>bp.
          case bp of None \<Rightarrow> Inr st
          | Some i \<Rightarrow>
              let x = bp_list (bps st) i in
              bindE (vaddr_write (eip (cpu s) - 1) SREG_CS 1 (ucast (ori_byte x)) s) (\<lambda>s.
                Inr (st\<lparr>machine := set_eip (eip (cpu s) - 1) s\<rparr>)))
      else Inr st)"

text \<open>A changed watchpoint takes the new value; the Boolean is the \<open>break\<close>.\<close>

definition check_watchpoints :: "nat \<Rightarrow> nemu \<Rightarrow> (bool \<times> nemu) res" where
  "check_watchpoints fuel st =
     bindE (scan_watchpoint fuel (tab st) (els st) (bps st) (machine st)) (\<lambda>(wp, b, e, s).
       let st = st\<lparr>machine := s, bps := b, els := e\<rparr> in
       case wp of None \<Rightarrow> Inr (False, st)
       | Some i \<Rightarrow>
           Inr (True, st\<lparr>bps := upd_bp i (\<lambda>x. case kind x of
                    WATCHPOINT ex old new \<Rightarrow> x\<lparr>kind := WATCHPOINT ex new new\<rparr>
                  | BREAKPOINT a \<Rightarrow> x) b,
                machine := s\<lparr>nemu_state := NEMU_READY\<rparr>\<rparr>))"

text \<open>One round of the loop; the Boolean result is \<open>break\<close>.\<close>

definition exec_step :: "nat \<Rightarrow> bool \<Rightarrow> nemu \<Rightarrow> (bool \<times> nemu) res" where
  "exec_step fuel hit_break_rerun st =
     bindE (exec_inst fuel (clear_operands (machine st))) (\<lambda>(instr_len, s).
       let st = st\<lparr>machine := set_eip (eip (cpu s) + of_nat instr_len) s\<rparr> in
     bindE (if hit_break_rerun then
              bindE (resume_breakpoints (bps st) (machine st)) (\<lambda>(b, s).
                Inr (st\<lparr>machine := s, bps := b\<rparr>))
            else Inr st) (\<lambda>st.
     bindE (restore_opcode st) (\<lambda>st.
     bindE (check_watchpoints fuel st) (\<lambda>(stop, st).
       if stop then Inr (True, st)
       else bindE (do_intr (machine st)) (\<lambda>s. Inr (False, st\<lparr>machine := s\<rparr>))))))"

fun exec_loop :: "nat \<Rightarrow> nat \<Rightarrow> bool \<Rightarrow> nemu \<Rightarrow> (nat \<times> nemu) res" where
  "exec_loop fuel 0 rerun st = Inr (0, st)"
| "exec_loop fuel (Suc n) rerun st =
     (if nemu_state (machine st) \<noteq> NEMU_RUN then Inr (Suc n, st)
      else bindE (exec_step fuel rerun st) (\<lambda>(stop, st).
        if stop then Inr (n, st) else exec_loop fuel n False st))"

text \<open>\<open>exec(n)\<close>; an argument of \<open>-1\<close> runs \<open>2\<^sup>3\<^sup>2 - 1\<close> instructions at most.\<close>

definition exec :: "nat \<Rightarrow> u32 \<Rightarrow> nemu \<Rightarrow> nemu res" where
  "exec fuel n st =
     (let s = (machine st)\<lparr>verbose := n \<le> 100000\<rparr>; rerun = (nemu_state s = NEMU_BREAK) in
      bindE (exec_loop fuel (unat n) rerun (st\<lparr>machine := s\<lparr>nemu_state := NEMU_RUN\<rparr>\<rparr>)) (\<lambda>(n, st).
        Inr (if nemu_state (machine st) \<noteq> NEMU_STOP \<and> n = 0
             then st\<lparr>machine := (machine st)\<lparr>nemu_state := NEMU_READY\<rparr>\<rparr> else st)))"

section \<open>The two threads\<close>

text \<open>
  The SDL thread delivers timer ticks, key events and the closing of the window, and redraws
  the screen, between any two instructions.
\<close>

inductive sdl_step :: "mach \<Rightarrow> mach \<Rightarrow> bool" where
  event: "deliver e s = Inr s' \<Longrightarrow> sdl_step s s'"
| screen: "update_screen s = Inr s' \<Longrightarrow> sdl_step s s'"

inductive nemu_step :: "nat \<Rightarrow> nemu \<Rightarrow> nemu \<Rightarrow> bool" for fuel where
  cpu_thread: "nemu_state (machine st) = NEMU_RUN \<Longrightarrow> exec_step fuel rerun st = Inr (stop, st') \<Longrightarrow>
     nemu_step fuel st st'"
| sdl_thread: "sdl_step (machine st) s' \<Longrightarrow> nemu_step fuel st (st\<lparr>machine := s'\<rparr>)"

inductive_cases sdl_stepE: "sdl_step s s'"
inductive_cases nemu_stepE: "nemu_step fuel st st'"

end
