(* ===== verification/Ui.thy ===== *)
theory Ui
  imports Exec
begin

text \<open>
  The command line of the debugger, \<open>nemu/src/monitor/ui.c\<close>, and \<open>list_breakpoint\<close>: the line as a
  buffer that \<open>strtok\<close> cuts in place, one definition per command, the command table and the main
  loop. What a command prints is a list of messages, one constructor per \<open>printf\<close>. The lines of
  \<open>readline\<close> and the characters of \<open>scanf\<close> are arguments.
\<close>

section \<open>Strings in the line\<close>

definition NUL :: char where "NUL = CHR 0x00"

definition str_at :: "string \<Rightarrow> nat \<Rightarrow> string" where
  "str_at buf i = takeWhile (\<lambda>c. c \<noteq> NUL) (drop i buf)"

text \<open>\<open>strspn(s, " ")\<close>.\<close>

definition spaces :: "string \<Rightarrow> nat" where
  "spaces s = length (takeWhile (\<lambda>c. c = CHR '' '') s)"

text \<open>
  \<open>strtok(NULL, " ")\<close> from the position it kept: the index of the token, the new position and the
  buffer with the byte behind the token overwritten.
\<close>

definition strtok :: "nat \<Rightarrow> string \<Rightarrow> nat option \<times> nat \<times> string" where
  "strtok pos buf =
     (let s = str_at buf pos; i = pos + spaces s in
      if i \<ge> pos + length s then (None, i, buf)
      else let j = i + length (takeWhile (\<lambda>c. c \<noteq> CHR '' '') (str_at buf i)) in
        if j < pos + length s then (Some i, j + 1, buf[j := NUL]) else (Some i, j, buf))"

definition is_space :: "char \<Rightarrow> bool" where
  "is_space c = (c = CHR '' '' \<or> in_range CHR 0x09 CHR 0x0D c)"

text \<open>\<open>sscanf(s, "%d", &n)\<close>: \<open>None\<close> without a number; a number that does not fit is undefined.\<close>

definition scan_int :: "string \<Rightarrow> int option res" where
  "scan_int s =
     (let s = dropWhile is_space s;
          neg = (take 1 s = ''-'');
          ds = takeWhile is_digit (if take 1 s = ''-'' \<or> take 1 s = ''+'' then drop 1 s else s);
          v = (if neg then - int (dec_val ds) else int (dec_val ds)) in
      if ds = [] then Inr None
      else definedE ''sscanf'' (- 2147483648 \<le> v \<and> v \<le> 2147483647) (Inr (Some v)))"

section \<open>The state\<close>

datatype message =
    Usage string
  | Bad_number string
  | Undefined_info_args
  | Registers "(string \<times> u32) list"
  | No_breakpoints
  | Breakpoints "(nat \<times> bp_kind \<times> bool) list"
  | Invalid_expression string
  | Value u32
  | Function_not_found string
  | Breakpoint_set nat u32
  | Watchpoint_set nat
  | Delete_all_question
  | Answer_y_or_n
  | Bad_breakpoint_number string
  | Scan_arguments int "string option"
  | Memory_words u32 "u32 list"
  | Command_help string string
  | Unknown_command string

record ui =
  emu :: nemu
  user_cmd :: string
  tok_pos :: nat
  answers :: string
  printed :: "message list"

definition print_out :: "message \<Rightarrow> ui \<Rightarrow> ui" where
  "print_out m u = u\<lparr>printed := printed u @ [m]\<rparr>"

definition next_tok :: "ui \<Rightarrow> string option \<times> ui" where
  "next_tok u =
     (let (t, p, b) = strtok (tok_pos u) (user_cmd u); u = u\<lparr>tok_pos := p, user_cmd := b\<rparr> in
      (map_option (str_at b) t, u))"

definition run :: "nat \<Rightarrow> u32 \<Rightarrow> ui \<Rightarrow> ui res" where
  "run fuel n u = bindE (exec fuel n (emu u)) (\<lambda>st. Inr (u\<lparr>emu := st\<rparr>))"

text \<open>\<open>expr\<close> on the emulator; \<open>ok\<close> is what the uninitialised \<open>success\<close> holds.\<close>

definition ui_expr :: "nat \<Rightarrow> bool \<Rightarrow> string \<Rightarrow> ui \<Rightarrow> (u32 option \<times> ui) res" where
  "ui_expr fuel ok e u =
     (let st = emu u in
      bindE (expr fuel (tab st) e ok (els st) (machine st)) (\<lambda>(v, ok, es, s).
        Inr (if ok then Some v else None, u\<lparr>emu := st\<lparr>machine := s, els := es\<rparr>\<rparr>)))"

section \<open>The commands\<close>

text \<open>The argument is the position of the arguments in the line, the result whether to go on.\<close>

definition cmd_c :: "nat \<Rightarrow> ui \<Rightarrow> (bool \<times> ui) res" where
  "cmd_c fuel u = bindE (run fuel (- 1) u) (\<lambda>u. Inr (True, u))"

definition cmd_q :: "ui \<Rightarrow> (bool \<times> ui) res" where
  "cmd_q u = Inr (False, u)"

text \<open>The number behind \<open>si\<close>.\<close>

definition run_steps :: "nat \<Rightarrow> string \<Rightarrow> ui \<Rightarrow> ui res" where
  "run_steps fuel t u =
     bindE (scan_int t) (\<lambda>n.
       if n \<noteq> None \<and> the n > 0 then run fuel (of_int (the n)) u else Inr (print_out (Bad_number t) u))"

definition cmd_si :: "nat \<Rightarrow> nat option \<Rightarrow> ui \<Rightarrow> (bool \<times> ui) res" where
  "cmd_si fuel args u =
     (if args = None then bindE (run fuel 1 u) (\<lambda>u. Inr (True, u))
      else let (steps, u) = next_tok u in
        case steps of None \<Rightarrow> bindE (run fuel 1 u) (\<lambda>u. Inr (True, u))
        | Some t \<Rightarrow> bindE (run_steps fuel t u) (\<lambda>u. Inr (True, u)))"

definition print_reg :: "mach \<Rightarrow> (string \<times> u32) list" where
  "print_reg s =
     [(''eax'', reg REG_EAX s), (''ecx'', reg REG_ECX s), (''edx'', reg REG_EDX s), (''ebx'', reg REG_EBX s),
      (''esp'', reg REG_ESP s), (''ebp'', reg REG_EBP s), (''esi'', reg REG_ESI s), (''edi'', reg REG_EDI s),
      (''eip'', eip (cpu s))]"

text \<open>The rows of \<open>list_breakpoint\<close>: a watchpoint prints its old value.\<close>

fun bp_rows :: "nat \<Rightarrow> bp_pool \<Rightarrow> nat option \<Rightarrow> (nat \<times> bp_kind \<times> bool) list res" where
  "bp_rows fuel b p =
     (case p of None \<Rightarrow> Inr []
      | Some i \<Rightarrow>
          (case fuel of 0 \<Rightarrow> Inl Out_of_fuel
           | Suc fuel' \<Rightarrow> let x = bp_list b i in
               bindE (bp_rows fuel' b (next_bp x)) (\<lambda>rows. Inr ((bp_NO x, kind x, enable x) # rows))))"

declare bp_rows.simps [simp del]

definition list_breakpoint :: "bp_pool \<Rightarrow> message res" where
  "list_breakpoint b =
     (if head_bp b = None then Inr No_breakpoints
      else bindE (bp_rows NR_BP b (head_bp b)) (\<lambda>rows. Inr (Breakpoints rows)))"

definition cmd_info :: "ui \<Rightarrow> (bool \<times> ui) res" where
  "cmd_info u =
     (let (arg, u) = next_tok u in
      if arg = Some ''r'' then Inr (True, print_out (Registers (print_reg (machine (emu u)))) u)
      else if arg = Some ''w'' then
        bindE (list_breakpoint (bps (emu u))) (\<lambda>m. Inr (True, print_out m u))
      else Inr (True, print_out Undefined_info_args u))"

definition cmd_p :: "nat \<Rightarrow> bool \<Rightarrow> nat option \<Rightarrow> ui \<Rightarrow> (bool \<times> ui) res" where
  "cmd_p fuel ok args u =
     (case args of None \<Rightarrow> Inr (True, print_out (Usage ''p EXPR'') u)
      | Some a \<Rightarrow>
          let e = str_at (user_cmd u) a in
          bindE (ui_expr fuel ok e u) (\<lambda>(v, u).
            Inr (True, print_out (case v of None \<Rightarrow> Invalid_expression e | Some v \<Rightarrow> Value v) u)))"

definition ui_set_breakpoint :: "u32 \<Rightarrow> ui \<Rightarrow> (bool \<times> ui) res" where
  "ui_set_breakpoint addr u =
     (let st = emu u in
      bindE (set_breakpoint addr (bps st) (machine st)) (\<lambda>(no, b, s).
        Inr (True, print_out (Breakpoint_set no addr) (u\<lparr>emu := st\<lparr>machine := s, bps := b\<rparr>\<rparr>))))"

definition cmd_b :: "nat \<Rightarrow> bool \<Rightarrow> nat option \<Rightarrow> ui \<Rightarrow> (bool \<times> ui) res" where
  "cmd_b fuel ok args u =
     (case args of None \<Rightarrow> Inr (True, print_out (Usage ''b *ADDR or b FUN'') u)
      | Some a \<Rightarrow>
          let e = dropWhile (\<lambda>c. c = CHR '' '') (str_at (user_cmd u) a);
              fun_name = take 80 (takeWhile (\<lambda>c. is_alpha c \<or> is_digit c) e) in
          if take 1 e = ''*'' then
            bindE (ui_expr fuel ok (drop 1 e) u) (\<lambda>(v, u).
              case v of None \<Rightarrow> Inr (True, print_out (Invalid_expression (drop 1 e)) u)
              | Some addr \<Rightarrow> ui_set_breakpoint addr u)
          else if fun_name \<noteq> [] then
            bindE (look_up_fun_symtab (tab (emu u)) fun_name) (\<lambda>v.
              case v of None \<Rightarrow> Inr (True, print_out (Function_not_found fun_name) u)
              | Some addr \<Rightarrow> ui_set_breakpoint addr u)
          else Inr (True, print_out (Usage ''b *ADDR or b FUN'') u))"

definition cmd_w :: "nat \<Rightarrow> bool \<Rightarrow> nat option \<Rightarrow> ui \<Rightarrow> (bool \<times> ui) res" where
  "cmd_w fuel ok args u =
     (case args of None \<Rightarrow> Inr (True, print_out (Usage ''w EXPR'') u)
      | Some a \<Rightarrow>
          let e = dropWhile (\<lambda>c. c = CHR '' '') (str_at (user_cmd u) a); st = emu u in
          bindE (set_watchpoint fuel (tab st) ok e (els st) (bps st) (machine st)) (\<lambda>(no, es, b, s).
            let u = u\<lparr>emu := st\<lparr>machine := s, els := es, bps := b\<rparr>\<rparr> in
            Inr (True, print_out (case no of None \<Rightarrow> Invalid_expression e | Some n \<Rightarrow> Watchpoint_set n) u)))"

text \<open>The question of \<open>d\<close>; without another character it waits.\<close>

fun ask_delete_all :: "string \<Rightarrow> ui \<Rightarrow> ui res" where
  "ask_delete_all [] u = Inl (Blocked ''scanf'')"
| "ask_delete_all (c # cs) u =
     (let u = (print_out Delete_all_question u)\<lparr>answers := cs\<rparr> in
      if c = CHR ''y'' then
        bindE (delete_all_breakpoint (bps (emu u))) (\<lambda>b. Inr (u\<lparr>emu := (emu u)\<lparr>bps := b\<rparr>\<rparr>))
      else if c = CHR ''n'' then Inr u
      else ask_delete_all cs (print_out Answer_y_or_n u))"

lemma strtok_progress:
  assumes "strtok pos buf = (Some i, pos', buf')"
  shows "pos < length buf" "pos < pos'" "length buf' = length buf"
proof -
  let ?s = "str_at buf pos"
  have len: "pos + length ?s \<le> length buf \<or> ?s = []"
    using length_takeWhile_le [of "\<lambda>c. c \<noteq> NUL" "drop pos buf"]
    by (cases "pos < length buf") (auto simp: str_at_def)
  have i: "i = pos + spaces ?s" "\<not> i \<ge> pos + length ?s" "length buf' = length buf"
    and p: "pos' = i + length (takeWhile (\<lambda>c. c \<noteq> CHR '' '') (str_at buf i)) + 1 \<or>
      pos' = i + length (takeWhile (\<lambda>c. c \<noteq> CHR '' '') (str_at buf i)) \<and> pos' \<ge> pos + length ?s"
    using assms by (auto simp: strtok_def Let_def split: if_splits)
  show "pos < length buf" "pos < pos'" "length buf' = length buf" using len i p by auto
qed

text \<open>\<open>delete_breakpoint\<close> with the \<open>int\<close> it takes: no record has a negative number.\<close>

definition delete_number :: "int \<Rightarrow> ui \<Rightarrow> ui res" where
  "delete_number no u =
     (if no < 0 then Inr u
      else bindE (delete_breakpoint (nat no) (bps (emu u))) (\<lambda>(_, b). Inr (u\<lparr>emu := (emu u)\<lparr>bps := b\<rparr>\<rparr>)))"

lemma delete_number_line: "delete_number no u = Inr u' \<Longrightarrow> tok_pos u' = tok_pos u \<and> user_cmd u' = user_cmd u"
  by (auto simp: delete_number_def res_eq_Inr split: if_splits)

function delete_tokens :: "string option \<Rightarrow> ui \<Rightarrow> ui res" where
  "delete_tokens p u =
     (case p of None \<Rightarrow> Inr u
      | Some t \<Rightarrow>
          bindE (scan_int t) (\<lambda>n. case n of
            None \<Rightarrow> Inr (print_out (Bad_breakpoint_number t) u)
          | Some no \<Rightarrow>
              (case delete_number no u of Inl e \<Rightarrow> Inl e
               | Inr u \<Rightarrow> delete_tokens (fst (next_tok u)) (snd (next_tok u)))))"
  by pat_completeness auto
termination
proof (relation "measure (\<lambda>(p, u). if p = None then 0 else Suc (length (user_cmd u) - tok_pos u))", goal_cases)
  case 1 show ?case by simp
next
  case (2 p u t n no u')
  show ?case
    using strtok_progress [of "tok_pos u" "user_cmd u"] 2 delete_number_line [of no u u']
    by (auto simp: next_tok_def split: prod.splits)
qed

declare delete_tokens.simps [simp del]

definition cmd_d :: "ui \<Rightarrow> (bool \<times> ui) res" where
  "cmd_d u =
     (let (p, u) = next_tok u in
      if p = None then bindE (ask_delete_all (answers u) u) (\<lambda>u. Inr (True, u))
      else bindE (delete_tokens p u) (\<lambda>u. Inr (True, u)))"

fun show_words :: "nat \<Rightarrow> u32 \<Rightarrow> mach \<Rightarrow> (u32 list \<times> mach) res" where
  "show_words 0 addr s = Inr ([], s)"
| "show_words (Suc k) addr s =
     bindE (vaddr_read addr SREG_DS 4 s) (\<lambda>(w, s).
     bindE (show_words k (addr + 4) s) (\<lambda>(ws, s). Inr (w # ws, s)))"

text \<open>Four words on a line.\<close>

fun scan_memory :: "nat \<Rightarrow> u32 \<Rightarrow> ui \<Rightarrow> ui res" where
  "scan_memory n addr u =
     (if n = 0 then Inr u
      else bindE (show_words (min 4 n) addr (machine (emu u))) (\<lambda>(ws, s).
        scan_memory (n - 4) (addr + 16) (print_out (Memory_words addr ws) (u\<lparr>emu := (emu u)\<lparr>machine := s\<rparr>\<rparr>))))"

declare scan_memory.simps [simp del]

text \<open>The rest of \<open>x\<close> once the expression has been cut off.\<close>

definition scan_expr :: "nat \<Rightarrow> bool \<Rightarrow> int \<Rightarrow> string option \<Rightarrow> ui \<Rightarrow> ui res" where
  "scan_expr fuel ok n e u =
     (case e of None \<Rightarrow> Inr (print_out (Usage ''x/Nx ADDR'') u)
      | Some e \<Rightarrow>
          bindE (ui_expr fuel ok e u) (\<lambda>(v, u).
            case v of None \<Rightarrow> Inr (print_out (Invalid_expression e) u)
            | Some addr \<Rightarrow> scan_memory (nat n) addr u))"

definition cmd_x :: "nat \<Rightarrow> bool \<Rightarrow> nat option \<Rightarrow> ui \<Rightarrow> (bool \<times> ui) res" where
  "cmd_x fuel ok args u =
     (case args of None \<Rightarrow> Inr (True, print_out (Usage ''x/Nx ADDR'') u)
      | Some a \<Rightarrow>
          bindE (scan_int (str_at (user_cmd u) a)) (\<lambda>n. case n of
            None \<Rightarrow> Inr (True, print_out (Usage ''x/Nx ADDR'') u)
          | Some n \<Rightarrow>
              let u = snd (next_tok u); e = fst (next_tok u); u = print_out (Scan_arguments n e) (snd (next_tok u)) in
              bindE (scan_expr fuel ok n e u) (\<lambda>u. Inr (True, u))))"

section \<open>The command table\<close>

datatype handler = H_help | H_c | H_q | H_p | H_b | H_w | H_d | H_x | H_si | H_info

definition cmd_table :: "(string \<times> string \<times> handler) list" where
  "cmd_table =
     [(''help'', ''Display informations about all supported commands'', H_help),
      (''c'', ''Continue the execution of the program'', H_c),
      (''q'', ''Exit NEMU'', H_q),
      (''p'', ''Evaluate an expression'', H_p),
      (''b'', ''Set breakpoint'', H_b),
      (''w'', ''Set watchpoint'', H_w),
      (''d'', ''Delete breakpoint(s).'', H_d),
      (''x'', ''Scan memory.'', H_x),
      (''exit'', ''Exit NEMU'', H_q),
      (''si'', ''Single Step Execution'', H_si),
      (''info'', ''Print register and watch point info'', H_info)]"

definition cmd_help :: "ui \<Rightarrow> (bool \<times> ui) res" where
  "cmd_help u =
     (let (arg, u) = next_tok u in
      Inr (True, case arg of
        None \<Rightarrow> u\<lparr>printed := printed u @ map (\<lambda>(name, desc, _). Command_help name desc) cmd_table\<rparr>
      | Some a \<Rightarrow>
          (case filter (\<lambda>(name, _). name = a) cmd_table of
             [] \<Rightarrow> print_out (Unknown_command a) u
           | (name, desc, _) # _ \<Rightarrow> print_out (Command_help name desc) u)))"

definition run_cmd :: "nat \<Rightarrow> bool \<Rightarrow> handler \<Rightarrow> nat option \<Rightarrow> ui \<Rightarrow> (bool \<times> ui) res" where
  "run_cmd fuel ok h args u =
     (case h of H_help \<Rightarrow> cmd_help u | H_c \<Rightarrow> cmd_c fuel u | H_q \<Rightarrow> cmd_q u | H_p \<Rightarrow> cmd_p fuel ok args u
      | H_b \<Rightarrow> cmd_b fuel ok args u | H_w \<Rightarrow> cmd_w fuel ok args u | H_d \<Rightarrow> cmd_d u
      | H_x \<Rightarrow> cmd_x fuel ok args u | H_si \<Rightarrow> cmd_si fuel args u | H_info \<Rightarrow> cmd_info u)"

section \<open>The main loop\<close>

text \<open>
  One line: \<open>strtok\<close> cuts the command off, the arguments start behind it and its spaces; the
  Boolean says whether the loop goes on.
\<close>

definition ui_line :: "nat \<Rightarrow> bool \<Rightarrow> string \<Rightarrow> ui \<Rightarrow> (bool \<times> ui) res" where
  "ui_line fuel ok line u =
     (let (cmd, u) = next_tok (u\<lparr>user_cmd := line, tok_pos := 0\<rparr>) in
      case cmd of None \<Rightarrow> Inr (True, u)
      | Some cmd \<Rightarrow>
          let a = length cmd + 1; a = a + spaces (str_at (user_cmd u) a);
              args = (if a \<ge> length line then None else Some a) in
          bindE (case filter (\<lambda>(name, _). name = cmd) cmd_table of
                   [] \<Rightarrow> Inr (True, print_out (Unknown_command (str_at (user_cmd u) 0)) u)
                 | (_, _, h) # _ \<Rightarrow> run_cmd fuel ok h args u) (\<lambda>(on, u).
            Inr (on \<and> nemu_state (machine (emu u)) \<noteq> NEMU_STOP, u)))"

text \<open>\<open>rl_gets\<close> skips empty lines; with no line left the loop waits for the next one.\<close>

fun ui_lines :: "nat \<Rightarrow> bool \<Rightarrow> string list \<Rightarrow> ui \<Rightarrow> ui res" where
  "ui_lines fuel ok [] u = Inr u"
| "ui_lines fuel ok (line # rest) u =
     (if line = [] then ui_lines fuel ok rest u
      else bindE (ui_line fuel ok line u) (\<lambda>(on, u).
        if on then ui_lines fuel ok rest u else Inr u))"

definition ui_mainloop :: "nat \<Rightarrow> bool \<Rightarrow> bool \<Rightarrow> string list \<Rightarrow> ui \<Rightarrow> ui res" where
  "ui_mainloop fuel ok autorun input u =
     (if autorun then
        bindE (run fuel (- 1) u) (\<lambda>u.
          if nemu_state (machine (emu u)) = NEMU_STOP then Inr u else ui_lines fuel ok input u)
      else ui_lines fuel ok input u)"

section \<open>\<open>main\<close>\<close>

text \<open>With paging configured the first two programs of the list are left out.\<close>

definition testcases :: "string list" where
  "testcases =
    [''mov-c'', ''mov-jcc'', ''add'', ''add-longlong'', ''if-else'', ''fib'',
     ''bubble-sort'', ''quick-sort'', ''select-sort'', ''max'', ''min3'', ''pascal'', ''bit'', ''movsx'',
     ''sub-longlong'', ''fact'', ''gotbaha'', ''leap-year'', ''matrix-mul-small'', ''matrix-mul'',
     ''mul-longlong'', ''prime'', ''shuixianhua'', ''sum'', ''wanshu'', ''struct'', ''string'',
     ''hello-str'', ''test-float'', ''hello-inline'', ''echo'']"

definition bin_path :: "string \<Rightarrow> string" where
  "bin_path name = ''./testcase/bin/'' @ name"

text \<open>
  The arguments behind the program name: the exit code, \<open>autorun\<close>, and the image and disk of every
  \<open>single_run\<close>. Without arguments \<open>main\<close> runs the unit tests only.
\<close>

definition main_plan :: "string list \<Rightarrow> nat \<times> bool \<times> (string \<times> string) list" where
  "main_plan args =
     (case args of
        [] \<Rightarrow> (0, False, [])
      | [a, name] \<Rightarrow> if a = ''-run'' then (0, False, [(bin_path name @ ''.img'', bin_path name)]) else (0, False, [])
      | [a] \<Rightarrow>
          let kernel = (a = ''-kernel-test'' \<or> a = ''-game''); game = (a = ''-game'');
              autorun = (a = ''-autorun'' \<or> kernel) in
          (0, autorun,
           if autorun \<and> \<not> game then
             map (\<lambda>t. (if kernel then ''./kernel/kernel.img'' else bin_path t @ ''.img'', bin_path t)) testcases
           else if autorun \<and> game then [(''./kernel/kernel.img'', ''./game/game'')] else [])
      | _ \<Rightarrow> (1, False, []))"

text \<open>\<open>files\<close> is the file system, \<open>input\<close> the lines typed in each run.\<close>

fun run_programs :: "nat \<Rightarrow> bool \<Rightarrow> bool \<Rightarrow> (string \<Rightarrow> u8 list) \<Rightarrow> string list list \<Rightarrow> (string \<times> string) list \<Rightarrow>
    ui \<Rightarrow> ui res" where
  "run_programs fuel ok autorun files input [] u = Inr u"
| "run_programs fuel ok autorun files input ((img, elf) # rest) u =
     bindE (single_run (files img) (files elf) (emu u)) (\<lambda>st.
     bindE (ui_mainloop fuel ok autorun (if input = [] then [] else hd input) (u\<lparr>emu := st\<rparr>))
       (run_programs fuel ok autorun files (tl input) rest))"

definition nemu_main :: "nat \<Rightarrow> bool \<Rightarrow> (string \<Rightarrow> u8 list) \<Rightarrow> string list list \<Rightarrow> string list \<Rightarrow> ui \<Rightarrow> (nat \<times> ui) res" where
  "nemu_main fuel ok files input args u =
     (let (code, autorun, runs) = main_plan args in
      bindE (run_programs fuel ok autorun files input runs u) (\<lambda>u. Inr (code, u)))"

end
