(* ===== verification/DebugCorrect.thy ===== *)
theory DebugCorrect
  imports Ui RepCorrect
begin

text \<open>
  The breakpoints of the debugger: the pool as two lists, kept by every command and by the
  running emulator.
\<close>

section \<open>The pool as two lists\<close>

fun bp_chain :: "bp_pool \<Rightarrow> nat option \<Rightarrow> nat list \<Rightarrow> bool" where
  "bp_chain b p [] \<longleftrightarrow> p = None"
| "bp_chain b p (i # is) \<longleftrightarrow> p = Some i \<and> bp_chain b (next_bp (bp_list b i)) is"

definition bp_ok :: "bp_pool \<Rightarrow> nat list \<Rightarrow> nat list \<Rightarrow> bool" where
  "bp_ok b used free \<longleftrightarrow>
     bp_chain b (head_bp b) used \<and> bp_chain b (free_bp b) free \<and>
     distinct (used @ free) \<and> set (used @ free) = {..<NR_BP} \<and>
     (\<forall>i \<in> set used. in_use (bp_list b i)) \<and> (\<forall>i \<in> set free. \<not> in_use (bp_list b i)) \<and>
     (\<forall>i < NR_BP. bp_NO (bp_list b i) = i)"

lemma bp_okD:
  assumes "bp_ok b used free"
  shows "bp_chain b (head_bp b) used" "bp_chain b (free_bp b) free" "distinct used" "distinct free"
    "set used \<inter> set free = {}" "set used \<union> set free = {..<NR_BP}"
    "\<And>i. i \<in> set used \<Longrightarrow> in_use (bp_list b i)" "\<And>i. i \<in> set free \<Longrightarrow> \<not> in_use (bp_list b i)"
    "\<And>i. i < NR_BP \<Longrightarrow> bp_NO (bp_list b i) = i"
  using assms by (auto simp: bp_ok_def)

lemma bp_ok_bounds:
  assumes "bp_ok b used free"
  shows "i \<in> set used \<Longrightarrow> i < NR_BP" "i \<in> set free \<Longrightarrow> i < NR_BP" "length used \<le> NR_BP"
proof -
  have u: "set used \<union> set free = {..<NR_BP}" by (rule bp_okD(6) [OF assms])
  then show "i \<in> set used \<Longrightarrow> i < NR_BP" "i \<in> set free \<Longrightarrow> i < NR_BP" by blast+
  have "length used = card (set used)" by (simp add: distinct_card bp_okD(3) [OF assms])
  also have "\<dots> \<le> card {..<NR_BP}" using u by (intro card_mono) auto
  finally show "length used \<le> NR_BP" by simp
qed

lemma bp_chain_cong:
  "\<forall>i \<in> set is. next_bp (bp_list b' i) = next_bp (bp_list b i) \<Longrightarrow> bp_chain b' p is = bp_chain b p is"
  by (induction "is" arbitrary: p) simp_all

lemma bp_chain_upd [simp]: "i \<notin> set is \<Longrightarrow> bp_chain (upd_bp i f b) p is = bp_chain b p is"
  by (rule bp_chain_cong) (auto simp: upd_bp_def)

lemma bp_chain_heads [simp]:
  "bp_chain (b\<lparr>head_bp := q\<rparr>) p is = bp_chain b p is" "bp_chain (b\<lparr>free_bp := q\<rparr>) p is = bp_chain b p is"
  by (rule bp_chain_cong; simp)+

lemma upd_bp_sel [simp]:
  "bp_list (upd_bp i f b) j = (if j = i then f (bp_list b i) else bp_list b j)"
  "head_bp (upd_bp i f b) = head_bp b" "free_bp (upd_bp i f b) = free_bp b"
  by (simp_all add: upd_bp_def)

lemma init_bp_list_ok: "bp_ok (init_bp_list b) [] [0..<NR_BP]"
proof -
  have "bp_chain (init_bp_list b) (if k < NR_BP then Some k else None) [k..<NR_BP]" if "k \<le> NR_BP" for k
    using that
  proof (induction "NR_BP - k" arbitrary: k)
    case (Suc d)
    have "bp_chain (init_bp_list b) (if Suc k < NR_BP then Some (Suc k) else None) [Suc k..<NR_BP]"
      using Suc.hyps(2) by (intro Suc.hyps(1)) simp_all
    then show ?case using Suc.hyps(2) by (subst upt_conv_Cons) (simp_all add: init_bp_list_def split: if_splits)
  qed simp
  from this [of 0] show ?thesis by (auto simp: bp_ok_def init_bp_list_def)
qed

section \<open>The operations\<close>

lemma new_BP_ok:
  assumes "bp_ok b used (p # free)"
  shows "\<exists>b'. new_BP b = Inr (p, b') \<and> head_bp b' = head_bp b \<and> bp_NO (bp_list b' p) = p \<and>
    (\<forall>f. (\<forall>x. in_use (f x) = in_use x \<and> bp_NO (f x) = bp_NO x \<and> next_bp (f x) = next_bp x) \<longrightarrow>
      bp_ok (push_head p (upd_bp p f b')) (p # used) free)"
proof -
  let ?b = "upd_bp p (\<lambda>x. x\<lparr>in_use := True\<rparr>) (b\<lparr>free_bp := next_bp (bp_list b p)\<rparr>)"
  note ok = bp_okD [OF assms]
  have f: "free_bp b = Some p" "\<not> in_use (bp_list b p)" "p < NR_BP" "p \<notin> set used" "p \<notin> set free"
    using ok(2,4,5) ok(8) [of p] bp_ok_bounds(2) [OF assms, of p] by auto
  then have "new_BP b = Inr (p, ?b)" by (simp add: new_BP_def)
  moreover have "bp_ok (push_head p (upd_bp p f ?b)) (p # used) free"
    if "\<forall>x. in_use (f x) = in_use x \<and> bp_NO (f x) = bp_NO x \<and> next_bp (f x) = next_bp x" for f
    using that f ok by (auto simp: bp_ok_def push_head_def)
  ultimately show ?thesis using ok(9) [OF f(3)] by (intro exI [of _ ?b]) auto
qed

lemma new_BP_full:
  assumes "bp_ok b used []"
  shows "new_BP b = Inl (Assert_failed ''new_BP'')"
  using bp_okD(2) [OF assms] by (simp add: new_BP_def)

lemma find_bp_split:
  assumes "bp_chain b p (xs @ i # ys)" and "\<forall>x \<in> set xs. \<not> P (bp_list b x)" and "P (bp_list b i)" and "length xs \<le> fuel"
  shows "find_bp fuel P b prev p = Inr (Some i, if xs = [] then prev else Some (last xs))"
  using assms
proof (induction xs arbitrary: p prev fuel)
  case Nil
  then show ?case by (subst find_bp.simps) simp
next
  case (Cons x xs)
  then obtain f where "fuel = Suc f" by (cases fuel) auto
  with Cons show ?case by (subst find_bp.simps) simp
qed

lemma find_bp_none:
  assumes "bp_chain b p xs" and "\<forall>x \<in> set xs. \<not> P (bp_list b x)" and "length xs \<le> fuel"
  shows "\<exists>q. find_bp fuel P b prev p = Inr (None, q)"
  using assms
proof (induction xs arbitrary: p prev fuel)
  case Nil
  then show ?case by (subst find_bp.simps) simp
next
  case (Cons x xs)
  then obtain f where "fuel = Suc f" by (cases fuel) auto
  with Cons show ?case by (subst find_bp.simps) simp
qed

lemma bp_chain_skip:
  assumes "bp_chain b p (xs @ i # ys)" and "distinct (xs @ i # ys)" and "xs \<noteq> []"
  shows "bp_chain (upd_bp (last xs) (\<lambda>x. x\<lparr>next_bp := next_bp (bp_list b i)\<rparr>) b) p (xs @ ys)"
  using assms
proof (induction xs arbitrary: p)
  case (Cons x xs)
  show ?case
  proof (cases "xs = []")
    case True
    with Cons.prems show ?thesis by simp
  next
    case False
    then have "last xs \<noteq> x" using Cons.prems(2) last_in_set [of xs] by auto
    with Cons False show ?thesis by simp
  qed
qed simp

lemma bp_chain_tail: "bp_chain b p (xs @ i # ys) \<Longrightarrow> bp_chain b (next_bp (bp_list b i)) ys"
  by (induction xs arbitrary: p) auto

lemma free_BP_eq:
  assumes "i < NR_BP" "in_use (bp_list b i)"
  shows "free_BP i b = Inr ((upd_bp i (\<lambda>x. x\<lparr>in_use := False, next_bp := free_bp b\<rparr>) b)\<lparr>free_bp := Some i\<rparr>)"
  using assms by (simp add: free_BP_def)

lemma delete_breakpoint_used:
  assumes "bp_ok b (xs @ i # ys) free"
  shows "\<exists>b'. delete_breakpoint i b = Inr (True, b') \<and> bp_ok b' (xs @ ys) (i # free)"
proof -
  note ok = bp_okD [OF assms]
  have no: "bp_NO (bp_list b x) = x" if "x \<in> set (xs @ i # ys)" for x
    using ok(9) bp_ok_bounds(1) [OF assms that] by blast
  have "find_bp NR_BP (\<lambda>x. bp_NO x = i) b None (head_bp b) = Inr (Some i, if xs = [] then None else Some (last xs))"
    using ok(3) bp_ok_bounds(3) [OF assms] no by (intro find_bp_split [OF ok(1)]) auto
  moreover define b1 where "b1 = (if xs = [] then b\<lparr>head_bp := next_bp (bp_list b i)\<rparr>
    else upd_bp (last xs) (\<lambda>x. x\<lparr>next_bp := next_bp (bp_list b i)\<rparr>) b)"
  moreover have i: "i < NR_BP" "in_use (bp_list b1 i)"
    using bp_ok_bounds(1) [OF assms] ok(7) [of i] by (auto simp: b1_def)
  ultimately have "delete_breakpoint i b =
      Inr (True, (upd_bp i (\<lambda>x. x\<lparr>in_use := False, next_bp := free_bp b1\<rparr>) b1)\<lparr>free_bp := Some i\<rparr>)" (is "_ = Inr (True, ?b')")
    using free_BP_eq [OF i] by (auto simp: delete_breakpoint_def Let_def)
  moreover have "bp_ok ?b' (xs @ ys) (i # free)"
  proof -
    have l: "last xs \<in> set xs" if "xs \<noteq> []" using that by simp
    have fr: "free_bp b1 = free_bp b" by (simp add: b1_def)
    have nf: "last xs \<notin> set free" if "xs \<noteq> []" using l [OF that] ok(5) by auto
    have "bp_chain b1 (head_bp b1) (xs @ ys)"
      using bp_chain_skip [OF ok(1,3)] bp_chain_tail [OF ok(1)] ok(1) by (cases "xs = []") (auto simp: b1_def)
    moreover have "bp_chain b1 (free_bp b) free" using ok(2) nf by (simp add: b1_def)
    moreover have "head_bp ?b' = head_bp b1" by simp
    moreover have "in_use (bp_list b1 x) = in_use (bp_list b x)" "bp_NO (bp_list b1 x) = bp_NO (bp_list b x)" for x
      by (auto simp: b1_def)
    ultimately show ?thesis using ok i unfolding bp_ok_def fr by (auto simp: Un_commute)
  qed
  ultimately show ?thesis by blast
qed

lemma delete_breakpoint_unused:
  assumes "bp_ok b used free" and "i \<notin> set used"
  shows "delete_breakpoint i b = Inr (False, b)"
proof -
  note ok = bp_okD [OF assms(1)]
  have "\<exists>q. find_bp NR_BP (\<lambda>x. bp_NO x = i) b None (head_bp b) = Inr (None, q)"
    using ok(9) bp_ok_bounds [OF assms(1)] assms(2) by (intro find_bp_none [OF ok(1)]) auto
  then show ?thesis by (auto simp: delete_breakpoint_def)
qed

lemma delete_recursively_ok:
  assumes "bp_chain b p us" "distinct (us @ fs)" "length us \<le> fuel" "bp_chain b (free_bp b) fs"
    and "\<forall>i \<in> set us. i < NR_BP \<and> in_use (bp_list b i)"
  shows "\<exists>b'. delete_all_breakpoint_recursively fuel p b = Inr b' \<and> bp_chain b' (free_bp b') (us @ fs) \<and>
    (\<forall>i. bp_NO (bp_list b' i) = bp_NO (bp_list b i)) \<and> (\<forall>i. i \<notin> set us \<longrightarrow> bp_list b' i = bp_list b i) \<and>
    (\<forall>i \<in> set us. \<not> in_use (bp_list b' i))"
  using assms
proof (induction us arbitrary: p fuel)
  case Nil
  then show ?case by (subst delete_all_breakpoint_recursively.simps) simp
next
  case (Cons x us)
  then obtain f where f: "fuel = Suc f" by (cases fuel) auto
  obtain b1 where b1: "delete_all_breakpoint_recursively f (next_bp (bp_list b x)) b = Inr b1"
    "bp_chain b1 (free_bp b1) (us @ fs)" "\<forall>i. bp_NO (bp_list b1 i) = bp_NO (bp_list b i)"
    "\<forall>i. i \<notin> set us \<longrightarrow> bp_list b1 i = bp_list b i" "\<forall>i \<in> set us. \<not> in_use (bp_list b1 i)"
    using Cons.IH [of "next_bp (bp_list b x)" f] Cons.prems f by auto
  have x: "x < NR_BP" "in_use (bp_list b1 x)" "x \<notin> set us" "x \<notin> set fs" using Cons.prems b1(4) by auto
  show ?case
    using Cons.prems(1) f b1 x by (subst delete_all_breakpoint_recursively.simps) (auto simp: free_BP_eq)
qed

lemma delete_all_breakpoint_ok:
  assumes "bp_ok b used free"
  shows "\<exists>b'. delete_all_breakpoint b = Inr b' \<and> bp_ok b' [] (used @ free)"
proof -
  note ok = bp_okD [OF assms]
  obtain b1 where b1: "delete_all_breakpoint_recursively NR_BP (head_bp b) b = Inr b1"
    "bp_chain b1 (free_bp b1) (used @ free)" "\<forall>i. bp_NO (bp_list b1 i) = bp_NO (bp_list b i)"
    "\<forall>i. i \<notin> set used \<longrightarrow> bp_list b1 i = bp_list b i" "\<forall>i \<in> set used. \<not> in_use (bp_list b1 i)"
    using delete_recursively_ok [OF ok(1) _ _ ok(2), of NR_BP] ok bp_ok_bounds [OF assms] by auto
  have "\<not> in_use (bp_list b1 i)" if "i \<in> set used \<union> set free" for i
    using that b1(4,5) ok(8) [of i] by (cases "i \<in> set used") auto
  then have "bp_ok (b1\<lparr>head_bp := None\<rparr>) [] (used @ free)"
    using b1(2,3) ok(3-6,9) unfolding bp_ok_def by simp
  with b1(1) show ?thesis by (simp add: delete_all_breakpoint_def)
qed

section \<open>What the running emulator does to the pool\<close>

text \<open>The walks change the data of the records and leave the lists alone.\<close>

definition same_links :: "bp_pool \<Rightarrow> bp_pool \<Rightarrow> bool" where
  "same_links b b' \<longleftrightarrow> head_bp b' = head_bp b \<and> free_bp b' = free_bp b \<and>
     (\<forall>i. next_bp (bp_list b' i) = next_bp (bp_list b i) \<and> in_use (bp_list b' i) = in_use (bp_list b i) \<and>
       bp_NO (bp_list b' i) = bp_NO (bp_list b i))"

lemma same_links_refl [simp]: "same_links b b"
  by (simp add: same_links_def)

lemma same_links_trans: "same_links a b \<Longrightarrow> same_links b c \<Longrightarrow> same_links a c"
  by (simp add: same_links_def)

lemma same_links_upd:
  "next_bp (f (bp_list b i)) = next_bp (bp_list b i) \<Longrightarrow> in_use (f (bp_list b i)) = in_use (bp_list b i) \<Longrightarrow>
   bp_NO (f (bp_list b i)) = bp_NO (bp_list b i) \<Longrightarrow> same_links b (upd_bp i f b)"
  by (simp add: same_links_def)

lemma same_links_ok: "same_links b b' \<Longrightarrow> bp_ok b used free \<Longrightarrow> bp_ok b' used free"
proof -
  assume l: "same_links b b'" and ok: "bp_ok b used free"
  have "bp_chain b' p is = bp_chain b p is" for p "is"
    using l by (intro bp_chain_cong) (simp add: same_links_def)
  with l ok show ?thesis by (simp add: bp_ok_def same_links_def)
qed

lemma walk_bp_links:
  assumes "walk_bp fuel step p (b, st) = Inr (q, b', st')"
    and "\<And>i b st stop b' st'. step i (b, st) = Inr (stop, b', st') \<Longrightarrow> same_links b b'"
  shows "same_links b b'"
  using assms(1)
proof (induction fuel arbitrary: p b st)
  case 0
  then show ?case using assms(2)
    by (subst (asm) walk_bp.simps) (auto simp: res_eq_Inr split: option.splits if_splits)
next
  case (Suc fuel)
  from Suc.prems show ?case
    by (subst (asm) walk_bp.simps)
      (auto simp: res_eq_Inr split: option.splits if_splits dest!: assms(2) Suc.IH elim: same_links_trans)
qed

lemma resume_breakpoints_links: "resume_breakpoints b s = Inr (b', s') \<Longrightarrow> same_links b b'"
  unfolding resume_breakpoints_def res_eq_Inr
  by (auto elim!: walk_bp_links simp: resume_step_def res_eq_Inr split: bp_kind.splits intro!: same_links_upd)

lemma scan_watchpoint_links: "scan_watchpoint fuel t e b s = Inr (q, b', x) \<Longrightarrow> same_links b b'"
  unfolding scan_watchpoint_def
  by (cases x) (auto elim!: walk_bp_links simp: scan_step_def res_eq_Inr split: bp_kind.splits intro!: same_links_upd)

lemma restore_opcode_bps: "restore_opcode st = Inr st' \<Longrightarrow> bps st' = bps st"
  by (auto simp: restore_opcode_def Let_def res_eq_Inr split: if_splits option.splits)

lemma acknowledge_links [simp]:
  "same_links b (upd_bp i (\<lambda>x. case kind x of
     WATCHPOINT ex old new \<Rightarrow> x\<lparr>kind := WATCHPOINT ex new new\<rparr> | BREAKPOINT a \<Rightarrow> x) b)"
  by (rule same_links_upd) (simp_all split: bp_kind.splits)

lemma check_watchpoints_links: "check_watchpoints fuel st = Inr (stop, st') \<Longrightarrow> same_links (bps st) (bps st')"
  by (auto simp: check_watchpoints_def Let_def res_eq_Inr split: option.splits dest!: scan_watchpoint_links
      elim!: same_links_trans intro: acknowledge_links)

lemma exec_step_links: "exec_step fuel rerun st = Inr (stop, st') \<Longrightarrow> same_links (bps st) (bps st')"
proof -
  let ?resume = "\<lambda>st. if rerun then bindE (resume_breakpoints (bps st) (machine st)) (\<lambda>(b, s). Inr (st\<lparr>machine := s, bps := b\<rparr>))
    else Inr st"
  assume "exec_step fuel rerun st = Inr (stop, st')"
  then obtain s st1 st2 st3 stop' where st1: "?resume (st\<lparr>machine := s\<rparr>) = Inr st1"
    and st2: "restore_opcode st1 = Inr st2" and st3: "check_watchpoints fuel st2 = Inr (stop', st3)"
    and last: "(if stop' then Inr (True, st3) else bindE (do_intr (machine st3)) (\<lambda>s. Inr (False, st3\<lparr>machine := s\<rparr>))) =
      Inr (stop, st')"
    by (clarsimp simp: exec_step_def Let_def bindE_eq_Inr split del: if_split)
  have st': "bps st' = bps st3" using last by (auto simp: res_eq_Inr split: if_splits)
  have st1: "same_links (bps st) (bps st1)"
    using st1 by (auto simp: res_eq_Inr split: if_splits dest: resume_breakpoints_links)
  have "same_links (bps st1) (bps st3)"
    using check_watchpoints_links [OF st3] unfolding restore_opcode_bps [OF st2] .
  with st1 show ?thesis unfolding st' by (rule same_links_trans)
qed

lemma exec_links: "exec fuel n st = Inr st' \<Longrightarrow> same_links (bps st) (bps st')"
proof -
  have loop: "exec_loop fuel k rerun st = Inr (m, st') \<Longrightarrow> same_links (bps st) (bps st')" for k rerun st m st'
  proof (induction k arbitrary: rerun st)
    case (Suc k)
    show ?case
    proof (cases "nemu_state (machine st) = NEMU_RUN")
      case True
      with Suc.prems obtain stop st1 where s: "exec_step fuel rerun st = Inr (stop, st1)"
        "(if stop then Inr (k, st1) else exec_loop fuel k False st1) = Inr (m, st')"
        by (clarsimp simp: bindE_eq_Inr split del: if_split)
      have "same_links (bps st1) (bps st')" using s(2) Suc.IH by (cases stop) auto
      with exec_step_links [OF s(1)] show ?thesis by (rule same_links_trans)
    qed (use Suc.prems in simp)
  qed simp
  assume "exec fuel n st = Inr st'"
  then obtain k st1 where "exec_loop fuel (unat n) (nemu_state (machine st) = NEMU_BREAK)
      (st\<lparr>machine := (machine st)\<lparr>verbose := n \<le> 100000, nemu_state := NEMU_RUN\<rparr>\<rparr>) = Inr (k, st1)"
    and "bps st' = bps st1"
    by (clarsimp simp: exec_def Let_def bindE_eq_Inr)
  with loop show ?thesis by fastforce
qed

section \<open>The commands keep the pool\<close>

definition pool_ok :: "bp_pool \<Rightarrow> bool" where
  "pool_ok b \<longleftrightarrow> (\<exists>used free. bp_ok b used free)"

lemma pool_ok_links: "same_links b b' \<Longrightarrow> pool_ok b \<Longrightarrow> pool_ok b'"
  unfolding pool_ok_def using same_links_ok by blast

lemma pool_ok_new:
  assumes "pool_ok b" and "new_BP b = Inr (p, b')"
    and "\<forall>x. in_use (f x) = in_use x \<and> bp_NO (f x) = bp_NO x \<and> next_bp (f x) = next_bp x"
  shows "pool_ok (push_head p (upd_bp p f b'))"
proof -
  obtain used free where ok: "bp_ok b used free" using assms(1) by (auto simp: pool_ok_def)
  with assms(2) obtain q fs where free: "free = q # fs" by (cases free) (auto simp: new_BP_full)
  from new_BP_ok [OF ok [unfolded free]] assms(2,3) show ?thesis unfolding pool_ok_def by auto
qed

lemma pool_ok_set: "set_breakpoint addr b s = Inr (no, b', s') \<Longrightarrow> pool_ok b \<Longrightarrow> pool_ok b'"
  by (auto simp: set_breakpoint_def Let_def res_eq_Inr intro!: pool_ok_new)

lemma pool_ok_watch: "set_watchpoint fuel t ok e es b s = Inr (no, es', b', s') \<Longrightarrow> pool_ok b \<Longrightarrow> pool_ok b'"
  by (auto simp: set_watchpoint_def Let_def res_eq_Inr split: if_splits intro!: pool_ok_new)

lemma pool_ok_delete: "delete_breakpoint i b = Inr (r, b') \<Longrightarrow> pool_ok b \<Longrightarrow> pool_ok b'"
proof -
  assume d: "delete_breakpoint i b = Inr (r, b')" and "pool_ok b"
  then obtain used free where ok: "bp_ok b used free" by (auto simp: pool_ok_def)
  show ?thesis
  proof (cases "i \<in> set used")
    case True
    then obtain xs ys where "used = xs @ i # ys" by (metis split_list)
    with delete_breakpoint_used [of b xs i ys free] ok d show ?thesis unfolding pool_ok_def by auto
  qed (use delete_breakpoint_unused [OF ok] d \<open>pool_ok b\<close> in auto)
qed

lemma pool_ok_delete_all: "delete_all_breakpoint b = Inr b' \<Longrightarrow> pool_ok b \<Longrightarrow> pool_ok b'"
  using delete_all_breakpoint_ok unfolding pool_ok_def by fastforce

abbreviation ui_ok :: "ui \<Rightarrow> bool" where "ui_ok u \<equiv> pool_ok (bps (emu u))"

lemma ui_ok_next_tok [simp]: "emu (snd (next_tok u)) = emu u"
  by (simp add: next_tok_def split: prod.splits)

lemma next_tok_emu: "next_tok u = (t, u') \<Longrightarrow> emu u' = emu u"
  using ui_ok_next_tok [of u] by simp

lemma print_out_emu [simp]: "emu (print_out m u) = emu u"
  by (simp add: print_out_def)

lemma ui_ok_run: "run fuel n u = Inr u' \<Longrightarrow> ui_ok u \<Longrightarrow> ui_ok u'"
  by (auto simp: run_def res_eq_Inr dest!: exec_links elim: pool_ok_links)

lemma ui_ok_expr: "ui_expr fuel ok e u = Inr (v, u') \<Longrightarrow> bps (emu u') = bps (emu u)"
  by (auto simp: ui_expr_def Let_def res_eq_Inr)

lemma ui_ok_set: "ui_set_breakpoint addr u = Inr (r, u') \<Longrightarrow> ui_ok u \<Longrightarrow> ui_ok u'"
  by (auto simp: ui_set_breakpoint_def Let_def res_eq_Inr dest: pool_ok_set)

lemma ui_ok_ask: "ask_delete_all cs u = Inr u' \<Longrightarrow> ui_ok u \<Longrightarrow> ui_ok u'"
  by (induction cs arbitrary: u) (auto simp: Let_def res_eq_Inr split: if_splits dest: pool_ok_delete_all)

lemma ui_ok_number: "delete_number no u = Inr u' \<Longrightarrow> ui_ok u \<Longrightarrow> ui_ok u'"
  by (auto simp: delete_number_def res_eq_Inr split: if_splits dest: pool_ok_delete)

lemma ui_ok_delete: "delete_tokens p u = Inr u' \<Longrightarrow> ui_ok u \<Longrightarrow> ui_ok u'"
proof (induction p u rule: delete_tokens.induct)
  case (1 p u)
  note d = "1.prems"(1) [unfolded delete_tokens.simps [of p u]]
  show ?case
  proof (cases p)
    case (Some t)
    then obtain n where n: "scan_int t = Inr n" using d by (auto simp: res_eq_Inr)
    show ?thesis
    proof (cases n)
      case (Some no)
      then obtain u1 where u1: "delete_number no u = Inr u1" using d n \<open>p = Some t\<close> by (auto split: sum.splits)
      show ?thesis
        using d n Some u1 \<open>p = Some t\<close> ui_ok_number [OF u1 "1.prems"(2)]
        by (intro "1.IH" [OF \<open>p = Some t\<close> n Some u1]) auto
    qed (use d n "1.prems"(2) \<open>p = Some t\<close> in auto)
  qed (use d "1.prems"(2) in auto)
qed

lemma ui_ok_scan: "scan_memory n addr u = Inr u' \<Longrightarrow> ui_ok u \<Longrightarrow> ui_ok u'"
proof (induction n arbitrary: addr u rule: less_induct)
  case (less n)
  note d = less.prems(1) [unfolded scan_memory.simps [of n addr u]]
  show ?case
  proof (cases "n = 0")
    case False
    then obtain ws s where "scan_memory (n - 4) (addr + 16)
        (print_out (Memory_words addr ws) (u\<lparr>emu := (emu u)\<lparr>machine := s\<rparr>\<rparr>)) = Inr u'"
      using d by (auto simp: res_eq_Inr)
    from less.IH [OF _ this] False less.prems(2) show ?thesis by simp
  qed (use d less.prems(2) in simp)
qed

lemma ui_ok_help: "cmd_help u = Inr (go, u') \<Longrightarrow> ui_ok u \<Longrightarrow> ui_ok u'"
  by (auto simp: cmd_help_def Let_def split: prod.splits option.splits list.splits dest!: next_tok_emu)

lemma ui_ok_steps: "run_steps fuel t u = Inr u' \<Longrightarrow> ui_ok u \<Longrightarrow> ui_ok u'"
  by (auto simp: run_steps_def res_eq_Inr split: if_splits dest: ui_ok_run)

lemma ui_ok_si: "cmd_si fuel args u = Inr (go, u') \<Longrightarrow> ui_ok u \<Longrightarrow> ui_ok u'"
  by (auto simp: cmd_si_def Let_def res_eq_Inr split: prod.splits option.splits if_splits
      dest!: next_tok_emu ui_ok_run ui_ok_steps)

lemma ui_ok_info: "cmd_info u = Inr (go, u') \<Longrightarrow> ui_ok u \<Longrightarrow> ui_ok u'"
  by (auto simp: cmd_info_def Let_def res_eq_Inr split: prod.splits if_splits dest!: next_tok_emu)

lemma ui_ok_b: "cmd_b fuel ok args u = Inr (go, u') \<Longrightarrow> ui_ok u \<Longrightarrow> ui_ok u'"
  by (auto simp: cmd_b_def Let_def res_eq_Inr split: option.splits if_splits
      dest!: ui_ok_expr ui_ok_set)

lemma ui_ok_w: "cmd_w fuel ok args u = Inr (go, u') \<Longrightarrow> ui_ok u \<Longrightarrow> ui_ok u'"
  by (auto simp: cmd_w_def Let_def res_eq_Inr split: option.splits dest!: pool_ok_watch)

lemma ui_ok_p: "cmd_p fuel ok args u = Inr (go, u') \<Longrightarrow> ui_ok u \<Longrightarrow> ui_ok u'"
  by (auto simp: cmd_p_def Let_def res_eq_Inr split: option.splits dest!: ui_ok_expr)

lemma ui_ok_d: "cmd_d u = Inr (go, u') \<Longrightarrow> ui_ok u \<Longrightarrow> ui_ok u'"
  by (auto simp: cmd_d_def Let_def res_eq_Inr split: prod.splits if_splits
      dest!: next_tok_emu ui_ok_ask ui_ok_delete)

lemma ui_ok_scan_expr: "scan_expr fuel ok n e u = Inr u' \<Longrightarrow> ui_ok u \<Longrightarrow> ui_ok u'"
  by (auto simp: scan_expr_def res_eq_Inr split: option.splits dest!: ui_ok_expr ui_ok_scan)

lemma ui_ok_x: "cmd_x fuel ok args u = Inr (go, u') \<Longrightarrow> ui_ok u \<Longrightarrow> ui_ok u'"
  by (auto simp: cmd_x_def Let_def res_eq_Inr split: option.splits dest!: ui_ok_scan_expr)

lemma ui_ok_cmd: "run_cmd fuel ok h args u = Inr (go, u') \<Longrightarrow> ui_ok u \<Longrightarrow> ui_ok u'"
  by (cases h) (auto simp: run_cmd_def cmd_c_def cmd_q_def res_eq_Inr
      dest: ui_ok_help ui_ok_si ui_ok_info ui_ok_b ui_ok_w ui_ok_p ui_ok_d ui_ok_x ui_ok_run)

lemma ui_ok_line: "ui_line fuel ok line u = Inr (go, u') \<Longrightarrow> ui_ok u \<Longrightarrow> ui_ok u'"
  by (auto simp: ui_line_def Let_def res_eq_Inr split: prod.splits option.splits list.splits if_splits
      dest!: next_tok_emu ui_ok_cmd)

lemma ui_ok_lines: "ui_lines fuel ok input u = Inr u' \<Longrightarrow> ui_ok u \<Longrightarrow> ui_ok u'"
  by (induction input arbitrary: u) (auto simp: res_eq_Inr split: if_splits dest: ui_ok_line)

section \<open>Walking the used records\<close>

lemma find_breakpoint_eq:
  assumes "bp_ok b used free"
  shows "find_breakpoint addr b = Inr (find (\<lambda>i. kind (bp_list b i) = BREAKPOINT addr) used)"
proof -
  have "walk_bp fuel (\<lambda>i bs. Inr (kind (bp_list (fst bs) i) = BREAKPOINT addr, bs)) p (b, ()) =
      Inr (find (\<lambda>i. kind (bp_list b i) = BREAKPOINT addr) us, b, ())"
    if "bp_chain b p us" "\<forall>i \<in> set us. in_use (bp_list b i)" "length us \<le> fuel" for p us fuel
    using that
  proof (induction us arbitrary: p fuel)
    case Nil
    then show ?case by (subst walk_bp.simps) simp
  next
    case (Cons i us)
    show ?case
    proof (cases "kind (bp_list b i) = BREAKPOINT addr")
      case True
      with Cons.prems show ?thesis by (subst walk_bp.simps) simp
    next
      case False
      from Cons.prems obtain f where "fuel = Suc f" by (cases fuel) auto
      with Cons False show ?thesis by (subst walk_bp.simps) simp
    qed
  qed
  from this [OF bp_okD(1) [OF assms] _ bp_ok_bounds(3) [OF assms]] bp_okD(7) [OF assms]
  show ?thesis by (simp add: find_breakpoint_def)
qed

lemma scan_no_watchpoint:
  assumes "bp_ok b used free" and "\<forall>i \<in> set used. \<exists>a. kind (bp_list b i) = BREAKPOINT a"
  shows "scan_watchpoint fuel t e b s = Inr (None, b, e, s)"
proof -
  have "walk_bp n (scan_step fuel t) p (b, e, s) = Inr (None, b, e, s)"
    if "bp_chain b p us" "\<forall>i \<in> set us. in_use (bp_list b i) \<and> (\<exists>a. kind (bp_list b i) = BREAKPOINT a)" "length us \<le> n" for p us n
    using that
  proof (induction us arbitrary: p n)
    case Nil
    then show ?case by (subst walk_bp.simps) simp
  next
    case (Cons i us)
    from Cons.prems obtain f where "n = Suc f" by (cases n) auto
    moreover have "scan_step fuel t i (b, e, s) = Inr (False, b, e, s)"
      using Cons.prems(2) by (auto simp: scan_step_def)
    ultimately show ?case using Cons by (subst walk_bp.simps) simp
  qed
  from this [OF bp_okD(1) [OF assms(1)] _ bp_ok_bounds(3) [OF assms(1)]] bp_okD(7) [OF assms(1)] assms(2)
  show ?thesis by (simp add: scan_watchpoint_def)
qed

text \<open>The addresses of the breakpoints in a list of records.\<close>

definition bp_addrs :: "bp_pool \<Rightarrow> nat list \<Rightarrow> nat set" where
  "bp_addrs b us = {unat a |a i. i \<in> set us \<and> kind (bp_list b i) = BREAKPOINT a}"

definition separate :: "bp_pool \<Rightarrow> nat list \<Rightarrow> bool" where
  "separate b us \<longleftrightarrow>
     (\<forall>i \<in> set us. \<forall>j \<in> set us. \<forall>a. kind (bp_list b i) = BREAKPOINT a \<longrightarrow> kind (bp_list b j) = BREAKPOINT a \<longrightarrow> i = j)"

lemma int3_byte:
  assumes "flat SREG_CS s" "ram s a 1"
  shows "\<exists>s1 s2. fetch8 a s = Inr (hw s (unat a), s1) \<and> vaddr_write a SREG_CS 1 d s1 = Inr s2 \<and>
    flat SREG_CS s2 \<and> hw s2 = (hw s)(unat a := ucast d) \<and> sans_mem s2 = sans_mem s"
proof -
  from fetch8_flat [OF assms] obtain s1 where s1: "fetch8 a s = Inr (hw s (unat a), s1)" "flat SREG_CS s1"
    "hw s1 = hw s" "sans_mem s1 = sans_mem s" by blast
  have "ram s1 a 1" using vm.ok_core [OF s1(4)] assms(2) by simp
  from vm.wr_law [OF s1(2) this, of d] s1 store_byte [of "hw s" "unat a" d] show ?thesis by auto
qed

lemma resume_walk:
  assumes "bp_chain b p us" "distinct us" "length us \<le> fuel" "\<forall>i \<in> set us. in_use (bp_list b i)"
    and "flat SREG_CS s" "\<forall>i \<in> set us. \<forall>a. kind (bp_list b i) = BREAKPOINT a \<longrightarrow> ram s a 1" "separate b us"
  shows "\<exists>b' s'. walk_bp fuel resume_step p (b, s) = Inr (None, b', s') \<and> flat SREG_CS s' \<and>
    sans_mem s' = sans_mem s \<and> hw s' = (\<lambda>x. if x \<in> bp_addrs b us then 0xF1 else hw s x) \<and>
    (\<forall>i. kind (bp_list b' i) = kind (bp_list b i)) \<and>
    (\<forall>i. ori_byte (bp_list b' i) = (case kind (bp_list b i) of
       BREAKPOINT a \<Rightarrow> if i \<in> set us then hw s (unat a) else ori_byte (bp_list b i)
     | WATCHPOINT _ _ _ \<Rightarrow> ori_byte (bp_list b i)))"
  using assms
proof (induction us arbitrary: p fuel b s)
  case Nil
  then show ?case by (subst walk_bp.simps) (auto simp: bp_addrs_def split: bp_kind.split)
next
  case (Cons i us)
  from Cons.prems obtain f where f: "fuel = Suc f" by (cases fuel) auto
  have sep: "separate b us" using Cons.prems(7) by (auto simp: separate_def)
  show ?case
  proof (cases "kind (bp_list b i)")
    case (WATCHPOINT e v w)
    have a: "bp_addrs b (i # us) = bp_addrs b us" using WATCHPOINT by (auto simp: bp_addrs_def)
    from Cons.IH [OF _ _ _ _ Cons.prems(5) _ sep, of "next_bp (bp_list b i)" f] Cons.prems f
    obtain b' s' where "walk_bp f resume_step (next_bp (bp_list b i)) (b, s) = Inr (None, b', s')"
      "flat SREG_CS s'" "sans_mem s' = sans_mem s" "hw s' = (\<lambda>x. if x \<in> bp_addrs b us then 0xF1 else hw s x)"
      "\<forall>i. kind (bp_list b' i) = kind (bp_list b i)"
      "\<forall>i. ori_byte (bp_list b' i) = (case kind (bp_list b i) of
         BREAKPOINT a \<Rightarrow> if i \<in> set us then hw s (unat a) else ori_byte (bp_list b i)
       | WATCHPOINT _ _ _ \<Rightarrow> ori_byte (bp_list b i))" by auto
    then show ?thesis
      using Cons.prems(1,4) f WATCHPOINT a
      by (subst walk_bp.simps) (auto simp: resume_step_def split: bp_kind.split)
  next
    case (BREAKPOINT a)
    have "ram s a 1" using Cons.prems(6) BREAKPOINT by simp
    from int3_byte [OF Cons.prems(5) this, of "0xF1"] obtain s1 s2 where s2: "fetch8 a s = Inr (hw s (unat a), s1)"
      "vaddr_write a SREG_CS 1 0xF1 s1 = Inr s2" "flat SREG_CS s2" "hw s2 = (hw s)(unat a := 0xF1)"
      "sans_mem s2 = sans_mem s" by auto
    define b1 where "b1 = upd_bp i (\<lambda>x. x\<lparr>ori_byte := hw s (unat a), enable := True\<rparr>) b"
    have kinds: "kind (bp_list b1 j) = kind (bp_list b j)" for j by (simp add: b1_def)
    have ex: "\<exists>b' s'. walk_bp f resume_step (next_bp (bp_list b i)) (b1, s2) = Inr (None, b', s') \<and> flat SREG_CS s' \<and>
      sans_mem s' = sans_mem s2 \<and> hw s' = (\<lambda>x. if x \<in> bp_addrs b1 us then 0xF1 else hw s2 x) \<and>
      (\<forall>i. kind (bp_list b' i) = kind (bp_list b1 i)) \<and>
      (\<forall>i. ori_byte (bp_list b' i) = (case kind (bp_list b1 i) of
         BREAKPOINT a \<Rightarrow> if i \<in> set us then hw s2 (unat a) else ori_byte (bp_list b1 i)
       | WATCHPOINT _ _ _ \<Rightarrow> ori_byte (bp_list b1 i)))"
    proof (rule Cons.IH)
      show "bp_chain b1 (next_bp (bp_list b i)) us" using Cons.prems(1,2) by (simp add: b1_def)
      show "\<forall>j \<in> set us. in_use (bp_list b1 j)" using Cons.prems(4) by (simp add: b1_def)
      show "\<forall>j \<in> set us. \<forall>a. kind (bp_list b1 j) = BREAKPOINT a \<longrightarrow> ram s2 a 1"
        using Cons.prems(6) by (simp add: kinds vm.ok_core [OF s2(5)])
      show "separate b1 us" using sep by (simp add: separate_def kinds)
    qed (use Cons.prems f s2(3) in auto)
    then obtain b' s' where r: "walk_bp f resume_step (next_bp (bp_list b i)) (b1, s2) = Inr (None, b', s')"
      "flat SREG_CS s'" "sans_mem s' = sans_mem s2" "hw s' = (\<lambda>x. if x \<in> bp_addrs b1 us then 0xF1 else hw s2 x)"
      "\<forall>i. kind (bp_list b' i) = kind (bp_list b1 i)"
      "\<forall>i. ori_byte (bp_list b' i) = (case kind (bp_list b1 i) of
         BREAKPOINT a \<Rightarrow> if i \<in> set us then hw s2 (unat a) else ori_byte (bp_list b1 i)
       | WATCHPOINT _ _ _ \<Rightarrow> ori_byte (bp_list b1 i))" by blast
    have w: "walk_bp fuel resume_step p (b, s) = Inr (None, b', s')"
      using Cons.prems(1,4) f BREAKPOINT s2 r(1)
      by (subst walk_bp.simps) (simp add: resume_step_def b1_def)
    have addrs: "bp_addrs b (i # us) = insert (unat a) (bp_addrs b1 us)"
      using BREAKPOINT by (auto simp: bp_addrs_def kinds)
    have other: "unat c \<noteq> unat a" if "j \<in> set us" "kind (bp_list b j) = BREAKPOINT c" for j c
    proof
      assume "unat c = unat a"
      then have "c = a" by (rule unsigned_word_eqI)
      with that BREAKPOINT Cons.prems(2,7) show False by (auto simp: separate_def)
    qed
    have ori: "ori_byte (bp_list b' j) = (case kind (bp_list b j) of
         BREAKPOINT a \<Rightarrow> if j \<in> set (i # us) then hw s (unat a) else ori_byte (bp_list b j)
       | WATCHPOINT _ _ _ \<Rightarrow> ori_byte (bp_list b j))" for j
      using r(6) [rule_format, of j] BREAKPOINT Cons.prems(2) other [of j]
      by (auto simp: kinds s2(4) b1_def split: bp_kind.splits)
    have "hw s' = (\<lambda>x. if x \<in> bp_addrs b (i # us) then 0xF1 else hw s x)"
      unfolding r(4) addrs s2(4) by auto
    with w r(2,3,5) s2(5) ori kinds show ?thesis by auto
  qed
qed

section \<open>Hitting a breakpoint\<close>

lemma entry_int3: "opcode_entry p q ! 0xF1 = break_point"
  by (simp add: opcode_entry_def)

lemma flat_irrelevant [simp]:
  "flat r (s\<lparr>nemu_state := x\<rparr>) = flat r s" "flat r (set_eip e s) = flat r s" "flat r (clear_operands s) = flat r s"
  "ram (s\<lparr>nemu_state := x\<rparr>) = ram s" "ram (set_eip e s) = ram s" "ram (clear_operands s) = ram s"
  "mem (s\<lparr>nemu_state := x\<rparr>) = mem s" "mem (set_eip e s) = mem s" "mem (clear_operands s) = mem s"
  "cpu (clear_operands s) = cpu s"
  by (simp_all add: flat_def ram_def fun_eq_iff set_eip_def upd_cpu_def clear_operands_def upd_dest_def upd_src_def)

lemma sans_mem_irrelevant [simp]:
  "sans_mem (s\<lparr>nemu_state := x\<rparr>) = (sans_mem s)\<lparr>nemu_state := x\<rparr>" "sans_mem (set_eip e s) = set_eip e (sans_mem s)"
  by (simp_all add: sans_mem_def set_eip_def upd_cpu_def)

lemma cpu_sans_mem [simp]: "cpu (sans_mem s) = cpu s"
  by (simp add: sans_mem_def)

lemma breakpoint_hit:
  fixes st :: nemu
  defines "s \<equiv> machine st" and "b \<equiv> bps st"
  assumes ok: "bp_ok b used free" and i: "find (\<lambda>i. kind (bp_list b i) = BREAKPOINT (eip (cpu s))) used = Some i"
    and bp: "\<forall>i \<in> set used. \<exists>a. kind (bp_list b i) = BREAKPOINT a"
    and fl: "flat SREG_CS s" and ram: "ram s (eip (cpu s)) 1" and int3: "hw s (unat (eip (cpu s))) = 0xF1"
    and quiet: "intr (cpu s) = 0 \<or> \<not> fl_IF (fl s)" and fuel: "0 < fuel"
  shows "\<exists>s'. exec_step fuel False st = Inr (False, st\<lparr>machine := s'\<rparr>) \<and> flat SREG_CS s' \<and>
    hw s' = (hw s)(unat (eip (cpu s)) := ori_byte (bp_list b i)) \<and>
    sans_mem s' = (sans_mem (clear_operands s))\<lparr>nemu_state := NEMU_BREAK\<rparr>"
proof -
  let ?a = "eip (cpu s)" and ?s0 = "clear_operands s"
  have "flat SREG_CS ?s0" "ram ?s0 ?a 1" using fl ram by simp_all
  from fetch8_flat [OF this] obtain s1 where s1: "fetch8 ?a ?s0 = Inr (0xF1, s1)" "flat SREG_CS s1"
    "hw s1 = hw s" "sans_mem s1 = sans_mem ?s0" unfolding flat_irrelevant int3 by blast
  have cpu1: "cpu s1 = cpu s" using sans_memD(1) [OF s1(4)] by simp
  define s2 where "s2 = set_eip (?a + 1) (s1\<lparr>nemu_state := NEMU_BREAK\<rparr>)"
  have e: "exec_inst fuel ?s0 = Inr (1, s1\<lparr>nemu_state := NEMU_BREAK\<rparr>)"
    using s1(1) fuel cpu1 by (cases fuel) (simp_all add: exec_inst_def entry_int3 break_point_def)
  have eip2: "eip (cpu s2) - 1 = ?a" "nemu_state s2 = NEMU_BREAK"
    by (simp_all add: s2_def set_eip_def upd_cpu_def)
  have "ram s1 ?a 1" using vm.ok_core [OF s1(4)] ram by simp
  then have "flat SREG_CS s2" "ram s2 ?a 1" using s1(2) by (simp_all add: s2_def)
  from vm.wr_law [OF this, of "ucast (ori_byte (bp_list b i))"] obtain s3 where
    s3: "vaddr_write ?a SREG_CS 1 (ucast (ori_byte (bp_list b i))) s2 = Inr s3" "flat SREG_CS s3"
    "hw s3 = store_bytes (hw s2) (unat ?a) 1 (ucast (ori_byte (bp_list b i)))" "sans_mem s3 = sans_mem s2" by blast
  define s4 where "s4 = set_eip ?a s3"
  have eip3: "eip (cpu s3) - 1 = ?a" using sans_memD(1) [OF s3(4)] eip2(1) by simp
  have r: "restore_opcode (st\<lparr>machine := s2\<rparr>) = Inr (st\<lparr>machine := s4\<rparr>)"
    using s3(1) eip2 eip3 find_breakpoint_eq [OF ok, of ?a] i
    by (simp add: restore_opcode_def Let_def b_def [symmetric] s4_def)
  have w: "check_watchpoints fuel (st\<lparr>machine := s4\<rparr>) = Inr (False, st\<lparr>machine := s4\<rparr>)"
    using scan_no_watchpoint [OF ok bp] by (simp add: check_watchpoints_def Let_def b_def [symmetric])
  have core: "sans_mem s4 = (sans_mem ?s0)\<lparr>nemu_state := NEMU_BREAK\<rparr>"
  proof -
    have "sans_mem s4 = set_eip ?a (set_eip (?a + 1) ((sans_mem ?s0)\<lparr>nemu_state := NEMU_BREAK\<rparr>))"
      by (simp add: s4_def s3(4) s2_def s1(4))
    also have "\<dots> = (sans_mem ?s0)\<lparr>nemu_state := NEMU_BREAK\<rparr>"
      by (simp add: set_eip_def upd_cpu_def)
    finally show ?thesis .
  qed
  have "cpu s4 = cpu s" using arg_cong [OF core, of cpu] by simp
  then have d: "do_intr s4 = Inr s4" using quiet by (auto simp: do_intr_def)
  have "exec_step fuel False st = Inr (False, st\<lparr>machine := s4\<rparr>)"
    using e r w d cpu1 by (simp add: exec_step_def Let_def s_def [symmetric] s2_def)
  moreover have "hw s4 = (hw s)(unat ?a := ori_byte (bp_list b i))"
    using store_byte [of "hw s" "unat ?a" "ucast (ori_byte (bp_list b i))"] s1(3)
    by (simp add: s4_def s3(3) s2_def byte_down_up)
  ultimately show ?thesis using core s3(2) by (auto simp: s4_def)
qed

section \<open>The properties\<close>

text \<open>
  \<^bold>\<open>C24\<close> Refinement of two lists of numbers by the pool of breakpoints: deleting a used number takes it
  out of the used list and puts it in front of the free one, deleting another number changes nothing,
  deleting all empties the used list, and in no case does an assertion fail; a new record comes from the
  front of the free list, and the assertion of \<open>new_BP\<close> fails exactly when all 32 are in use.
\<close>
theorem breakpoint_pool_refines:
  assumes "bp_ok b used free"
  shows "(\<exists>b'. delete_breakpoint i b = Inr (i \<in> set used, b') \<and>
      bp_ok b' (remove1 i used) (if i \<in> set used then i # free else free)) \<and>
    (\<exists>b'. delete_all_breakpoint b = Inr b' \<and> bp_ok b' [] (used @ free)) \<and>
    (if length used = NR_BP then new_BP b = Inl (Assert_failed ''new_BP'')
     else \<exists>b'. new_BP b = Inr (hd free, b') \<and> bp_ok (push_head (hd free) b') (hd free # used) (tl free))"
proof (intro conjI)
  show "\<exists>b'. delete_breakpoint i b = Inr (i \<in> set used, b') \<and>
      bp_ok b' (remove1 i used) (if i \<in> set used then i # free else free)"
  proof (cases "i \<in> set used")
    case True
    then obtain xs ys where used: "used = xs @ i # ys" "i \<notin> set xs" by (metis split_list_first)
    then show ?thesis using delete_breakpoint_used [of b xs i ys free] assms by (simp add: remove1_append)
  qed (use assms delete_breakpoint_unused [OF assms] in \<open>simp add: remove1_idem\<close>)
  show "\<exists>b'. delete_all_breakpoint b = Inr b' \<and> bp_ok b' [] (used @ free)"
    by (rule delete_all_breakpoint_ok [OF assms])
  have "length used + length free = NR_BP"
    using distinct_card [of "used @ free"] assms by (simp add: bp_ok_def)
  moreover have "bp_ok (push_head p b') (p # used) fs"
    if "free = p # fs" "new_BP b = Inr (p, b')" for p fs b'
    using new_BP_ok [OF assms [unfolded that(1)]] that(2) by (auto dest: spec [of _ "\<lambda>x. x"] simp: upd_bp_def)
  ultimately show "if length used = NR_BP then new_BP b = Inl (Assert_failed ''new_BP'')
      else \<exists>b'. new_BP b = Inr (hd free, b') \<and> bp_ok (push_head (hd free) b') (hd free # used) (tl free)"
    using new_BP_full [of b used] new_BP_ok [of b used "hd free" "tl free"] assms by (cases free) auto
qed

theorem breakpoint_pool_refines_witness:
  "\<exists>b b'. bp_ok b [0] [1..<NR_BP] \<and> delete_breakpoint 0 b = Inr (True, b') \<and> bp_ok b' [] [0..<NR_BP]"
proof -
  have l: "[0..<NR_BP] = 0 # [1..<NR_BP]" by (simp add: upt_rec)
  from breakpoint_pool_refines [OF init_bp_list_ok] obtain b where "bp_ok b [0] [1..<NR_BP]"
    unfolding l by auto
  with breakpoint_pool_refines [OF this, of 0] l show ?thesis by auto
qed

text \<open>
  \<^bold>\<open>C23\<close> Invariant of the debugger: whatever lines are typed and however long the program runs in between,
  the breakpoint records stay partitioned into the used and the free list, numbered 0 to 31, with \<open>in_use\<close>
  set exactly in the used ones; \<open>init_bp_list\<close> establishes it.
\<close>
theorem debugger_keeps_pool:
  assumes "ui_mainloop fuel ok autorun input u = Inr u'"
    and "bps (emu u) = init_bp_list b"
  shows "\<exists>used free. bp_ok (bps (emu u')) used free"
proof -
  have "ui_ok u" unfolding assms(2) pool_ok_def using init_bp_list_ok by blast
  then have "ui_ok u'"
    using assms(1) by (auto simp: ui_mainloop_def res_eq_Inr split: if_splits dest!: ui_ok_run ui_ok_lines)
  then show ?thesis by (simp add: pool_ok_def)
qed

text \<open>A debugger that has just started.\<close>

definition fresh_ui :: ui where
  "fresh_ui = \<lparr>emu = \<lparr>machine = zero_mach\<lparr>nemu_state := NEMU_READY\<rparr>,
       bps = init_bp_list \<lparr>bp_list = \<lambda>_. \<lparr>ori_byte = 0, enable = False, in_use = False, bp_NO = 0, kind = BREAKPOINT 0,
         next_bp = None\<rparr>, head_bp = None, free_bp = None\<rparr>,
       els = \<lambda>_. operand 0, tab = \<lparr>strtab = [], symbols = []\<rparr>\<rparr>,
     user_cmd = [], tok_pos = 0, answers = [], printed = []\<rparr>"

theorem debugger_keeps_pool_witness:
  "\<exists>u' used free. ui_mainloop 0 False False [''info w'', ''d 3'', ''q''] fresh_ui = Inr u' \<and> bp_ok (bps (emu u')) used free"
proof -
  have "\<exists>u'. ui_mainloop 0 False False [''info w'', ''d 3'', ''q''] fresh_ui = Inr u'"
    by (simp add: fresh_ui_def ui_mainloop_def ui_line_def next_tok_def strtok_def str_at_def spaces_def NUL_def
      cmd_table_def run_cmd_def cmd_info_def list_breakpoint_def init_bp_list_def print_out_def cmd_d_def delete_tokens.simps
      scan_int_def is_space_def in_range_def is_digit_def delete_number_def delete_breakpoint_def find_bp.simps cmd_q_def
      dec_val_def digit_val_def zero_mach_def)
  then obtain u' where u': "ui_mainloop 0 False False [''info w'', ''d 3'', ''q''] fresh_ui = Inr u'" ..
  from debugger_keeps_pool [OF this] have "\<exists>used free. bp_ok (bps (emu u')) used free" unfolding fresh_ui_def by simp
  with u' show ?thesis by blast
qed

text \<open>
  \<^bold>\<open>C21\<close> When the program runs into the byte of a breakpoint, one step of the emulator, from the fetch through
  the dispatch to \<open>restore_opcode\<close>, stops it as if it had never been there: \<open>EIP\<close> is back on the
  instruction, the byte holds what the record saved, the state is \<open>NEMU_BREAK\<close> and nothing else has changed
  but the operand trace that \<open>exec\<close> clears.
\<close>
theorem breakpoint_hit_restores:
  assumes "bp_ok (bps st) used free"
    and "find (\<lambda>i. kind (bp_list (bps st) i) = BREAKPOINT (eip (cpu (machine st)))) used = Some i"
    and "\<forall>i \<in> set used. \<exists>a. kind (bp_list (bps st) i) = BREAKPOINT a"
    and "flat SREG_CS (machine st)" and "ram (machine st) (eip (cpu (machine st))) 1"
    and "hw (machine st) (unat (eip (cpu (machine st)))) = 0xF1"
    and "intr (cpu (machine st)) = 0 \<or> \<not> fl_IF (fl (machine st))" and "0 < fuel"
  shows "\<exists>s'. exec_step fuel False st = Inr (False, st\<lparr>machine := s'\<rparr>) \<and>
    hw s' = (hw (machine st))(unat (eip (cpu (machine st))) := ori_byte (bp_list (bps st) i)) \<and>
    sans_mem s' = (sans_mem (clear_operands (machine st)))\<lparr>nemu_state := NEMU_BREAK\<rparr>"
  using breakpoint_hit [OF assms] by blast

text \<open>
  \<^bold>\<open>C22\<close> A second breakpoint is lost when the program goes on from the first: \<open>resume_breakpoints\<close> reads the
  original byte of every breakpoint again although only the one that was hit has been restored, so record
  \<open>j\<close> saves the \<open>int3\<close> itself; and from then on a program that runs into it stays there for ever: the
  step writes \<open>int3\<close> back and leaves \<open>EIP\<close> on it.
\<close>
theorem second_breakpoint_lost:
  assumes "bp_ok b used free" and "separate b used"
    and "flat SREG_CS s" and "\<forall>i \<in> set used. \<exists>a. kind (bp_list b i) = BREAKPOINT a \<and> ram s a 1"
    and "j \<in> set used" and "kind (bp_list b j) = BREAKPOINT c" and "hw s (unat c) = 0xF1"
  shows "\<exists>b' s'. resume_breakpoints b s = Inr (b', s') \<and> ori_byte (bp_list b' j) = 0xF1 \<and>
    (\<forall>st fuel. bps st = b' \<and> eip (cpu (machine st)) = c \<and> flat SREG_CS (machine st) \<and> ram (machine st) c 1 \<and>
        hw (machine st) (unat c) = 0xF1 \<and> intr (cpu (machine st)) = 0 \<and> 0 < fuel \<longrightarrow>
      (\<exists>s''. exec_step fuel False st = Inr (False, st\<lparr>machine := s''\<rparr>) \<and> hw s'' = hw (machine st) \<and> eip (cpu s'') = c))"
proof -
  note ok = bp_okD [OF assms(1)]
  have "\<exists>b' s'. walk_bp NR_BP resume_step (head_bp b) (b, s) = Inr (None, b', s') \<and> flat SREG_CS s' \<and>
    sans_mem s' = sans_mem s \<and> hw s' = (\<lambda>x. if x \<in> bp_addrs b used then 0xF1 else hw s x) \<and>
    (\<forall>i. kind (bp_list b' i) = kind (bp_list b i)) \<and>
    (\<forall>i. ori_byte (bp_list b' i) = (case kind (bp_list b i) of
       BREAKPOINT a \<Rightarrow> if i \<in> set used then hw s (unat a) else ori_byte (bp_list b i)
     | WATCHPOINT _ _ _ \<Rightarrow> ori_byte (bp_list b i)))"
    using assms(2-4) ok(3,7) bp_ok_bounds(3) [OF assms(1)] by (intro resume_walk [OF ok(1)]) auto
  then obtain b' s' where w: "walk_bp NR_BP resume_step (head_bp b) (b, s) = Inr (None, b', s')"
    and kinds: "\<forall>i. kind (bp_list b' i) = kind (bp_list b i)"
    and ori: "\<forall>i. ori_byte (bp_list b' i) = (case kind (bp_list b i) of
       BREAKPOINT a \<Rightarrow> if i \<in> set used then hw s (unat a) else ori_byte (bp_list b i)
     | WATCHPOINT _ _ _ \<Rightarrow> ori_byte (bp_list b i))" by blast
  have r: "resume_breakpoints b s = Inr (b', s')" using w by (simp add: resume_breakpoints_def)
  have ok': "bp_ok b' used free" by (rule same_links_ok [OF resume_breakpoints_links [OF r] assms(1)])
  have byte: "ori_byte (bp_list b' j) = 0xF1" using ori assms(5-7) by simp
  have first: "find (\<lambda>i. kind (bp_list b' i) = BREAKPOINT c) used = Some j"
  proof -
    have "find (\<lambda>i. kind (bp_list b' i) = BREAKPOINT c) used \<noteq> None"
      using assms(5,6) kinds by (auto simp: find_None_iff)
    then obtain i where i: "find (\<lambda>i. kind (bp_list b' i) = BREAKPOINT c) used = Some i" by blast
    then have "i \<in> set used" "kind (bp_list b i) = BREAKPOINT c" using kinds by (auto simp: find_Some_iff)
    with assms(2,5,6) have "i = j" by (auto simp: separate_def)
    with i show ?thesis by simp
  qed
  have "\<exists>s''. exec_step fuel False st = Inr (False, st\<lparr>machine := s''\<rparr>) \<and> hw s'' = hw (machine st) \<and> eip (cpu s'') = c"
    if st: "bps st = b'" "eip (cpu (machine st)) = c" "flat SREG_CS (machine st)" "ram (machine st) c 1"
      "hw (machine st) (unat c) = 0xF1" "intr (cpu (machine st)) = 0" "0 < fuel" for st fuel
  proof -
    have bp: "\<forall>i \<in> set used. \<exists>a. kind (bp_list b' i) = BREAKPOINT a" using assms(4) kinds by auto
    obtain s'' where s'': "exec_step fuel False st = Inr (False, st\<lparr>machine := s''\<rparr>)"
      "hw s'' = (hw (machine st))(unat c := 0xF1)"
      "sans_mem s'' = (sans_mem (clear_operands (machine st)))\<lparr>nemu_state := NEMU_BREAK\<rparr>"
      using breakpoint_hit [of st used free j fuel] ok' first bp st byte by auto
    have "cpu s'' = cpu (machine st)" using arg_cong [OF s''(3), of cpu] by simp
    moreover have "hw s'' = hw (machine st)" unfolding s''(2) using st(5) by (metis fun_upd_triv)
    ultimately show ?thesis using s''(1) st(2) by auto
  qed
  with r byte show ?thesis by blast
qed

text \<open>Two breakpoints, at \<open>0x100\<close> and \<open>0x200\<close>; the program has stopped at the first.\<close>

definition add_bp :: "u32 \<Rightarrow> bp_pool \<Rightarrow> bp_pool" where
  "add_bp a b = (case new_BP b of Inl _ \<Rightarrow> b
     | Inr (p, b') \<Rightarrow> push_head p (upd_bp p (\<lambda>x. x\<lparr>kind := BREAKPOINT a, ori_byte := 0x90\<rparr>) b'))"

definition two_bps :: bp_pool where
  "two_bps = add_bp 0x200 (add_bp 0x100 (bps (emu fresh_ui)))"

lemma new_BP_kind: "new_BP b = Inr (p, b') \<Longrightarrow> kind (bp_list b' i) = kind (bp_list b i)"
  by (auto simp: new_BP_def res_eq_Inr split: option.splits)

lemma add_bp_ok:
  assumes "bp_ok b used (p # free)"
  shows "bp_ok (add_bp a b) (p # used) free"
    and "kind (bp_list (add_bp a b) i) = (if i = p then BREAKPOINT a else kind (bp_list b i))"
proof -
  from new_BP_ok [OF assms] obtain b' where b': "new_BP b = Inr (p, b')"
    "\<forall>f. (\<forall>x. in_use (f x) = in_use x \<and> bp_NO (f x) = bp_NO x \<and> next_bp (f x) = next_bp x) \<longrightarrow>
      bp_ok (push_head p (upd_bp p f b')) (p # used) free" by blast
  show "bp_ok (add_bp a b) (p # used) free" using b' by (simp add: add_bp_def)
  show "kind (bp_list (add_bp a b) i) = (if i = p then BREAKPOINT a else kind (bp_list b i))"
    using b'(1) new_BP_kind [OF b'(1), of i] by (simp add: add_bp_def push_head_def)
qed

definition stopped_mach :: mach where
  "stopped_mach = zero_mach\<lparr>mem := (mem zero_mach)\<lparr>hw_mem := (\<lambda>_. 0x90)(0x200 := 0xF1)\<rparr>\<rparr>"

lemma stopped_mach_flat: "flat SREG_CS stopped_mach" "ram stopped_mach a 1 = cache_ok a 1"
  by (simp_all add: stopped_mach_def flat_def coherent_def line_ok_def zero_mach_def zero_CPU_def cr0_pe_def cr0_pg_def
      ram_def is_mmio_def)

lemma two_bps_ok: "bp_ok two_bps [1, 0] [2..<NR_BP]" "separate two_bps [1, 0]"
  "kind (bp_list two_bps 0) = BREAKPOINT 0x100" "kind (bp_list two_bps 1) = BREAKPOINT 0x200"
proof -
  let ?b = "bps (emu fresh_ui)"
  have l: "[0..<NR_BP] = 0 # 1 # [2..<NR_BP]" by (simp add: upt_rec)
  have ok0: "bp_ok ?b [] (0 # 1 # [2..<NR_BP])"
    using init_bp_list_ok unfolding l by (simp add: fresh_ui_def)
  note ok1 = add_bp_ok [OF ok0, of "0x100"]
  note ok2 = add_bp_ok [OF ok1(1), of "0x200", folded two_bps_def]
  show "bp_ok two_bps [1, 0] [2..<NR_BP]" by (rule ok2(1))
  show "kind (bp_list two_bps 0) = BREAKPOINT 0x100" "kind (bp_list two_bps 1) = BREAKPOINT 0x200"
    by (simp_all add: ok2(2) ok1(2))
  then show "separate two_bps [1, 0]" by (simp add: separate_def)
qed

theorem breakpoint_hit_restores_witness:
  "\<exists>s'. exec_step 1 False ((emu fresh_ui)\<lparr>bps := two_bps, machine := set_eip 0x200 stopped_mach\<rparr>) =
      Inr (False, (emu fresh_ui)\<lparr>bps := two_bps, machine := s'\<rparr>) \<and> hw s' 0x200 = ori_byte (bp_list two_bps 1)"
proof -
  let ?m = "set_eip 0x200 stopped_mach"
  let ?st = "(emu fresh_ui)\<lparr>bps := two_bps, machine := ?m\<rparr>"
  have eip: "eip (cpu ?m) = 0x200" by (simp add: set_eip_def upd_cpu_def)
  have bp: "\<forall>i \<in> set [1, 0]. \<exists>a. kind (bp_list two_bps i) = BREAKPOINT a" and
    first: "find (\<lambda>i. kind (bp_list two_bps i) = BREAKPOINT 0x200) [1, 0] = Some 1"
    using two_bps_ok(3,4) by simp_all
  have m: "flat SREG_CS ?m" "ram ?m 0x200 1" "hw ?m 0x200 = 0xF1" "intr (cpu ?m) = 0"
    using stopped_mach_flat(2) [of "0x200"]
    by (simp_all only: flat_irrelevant stopped_mach_flat)
      (simp_all add: cache_ok_def block_num_eq MEM_SIZE_B_def stopped_mach_def set_eip_def upd_cpu_def
        zero_mach_def zero_CPU_def)
  have "\<exists>s'. exec_step 1 False ?st = Inr (False, ?st\<lparr>machine := s'\<rparr>) \<and>
    hw s' = (hw ?m)(0x200 := ori_byte (bp_list two_bps 1)) \<and>
    sans_mem s' = (sans_mem (clear_operands ?m))\<lparr>nemu_state := NEMU_BREAK\<rparr>"
    using breakpoint_hit_restores [of ?st "[1, 0]" "[2..<NR_BP]" 1 1] two_bps_ok(1) bp first m by (simp add: eip)
  then show ?thesis by auto
qed

theorem second_breakpoint_lost_witness:
  "\<exists>b' s'. resume_breakpoints two_bps stopped_mach = Inr (b', s') \<and> ori_byte (bp_list b' 1) = 0xF1"
proof -
  have "\<forall>i \<in> set [1, 0]. \<exists>a. kind (bp_list two_bps i) = BREAKPOINT a \<and> ram stopped_mach a 1"
    using two_bps_ok(3,4) by (simp add: stopped_mach_flat(2) [unfolded One_nat_def] cache_ok_def block_num_eq MEM_SIZE_B_def)
  from second_breakpoint_lost [OF two_bps_ok(1,2) stopped_mach_flat(1) this _ two_bps_ok(4)]
  show ?thesis by (auto simp: stopped_mach_def)
qed

end
