(* ===== verification/Linklist.thy ===== *)
theory Linklist
  imports Prelude
begin

text \<open>
  The pooled, doubly linked lists of \<open>game/include/adt/linklist.h\<close>: \<open>LINKLIST_IMPL(NAME, SIZE)\<close>
  makes a static array of \<open>SIZE + 1\<close> structures, a list of free ones and the operations on them.
  A pointer into the array is its index, \<open>NULL\<close> is \<open>None\<close>. The interface of the list, a sequence
  of structures that the caller owns, is the locale \<open>linked_pool\<close>.
\<close>

section \<open>The pool and its operations\<close>

record 'd list_node =
  payload :: 'd
  prev_link :: "nat option"
  next_link :: "nat option"

record 'd node_pool =
  nodes :: "nat \<Rightarrow> 'd list_node"
  free_nodes :: "nat option"

definition set_next :: "nat \<Rightarrow> nat option \<Rightarrow> 'd node_pool \<Rightarrow> 'd node_pool" where
  "set_next i q p = p\<lparr>nodes := (nodes p)(i := (nodes p i)\<lparr>next_link := q\<rparr>)\<rparr>"

definition set_prev :: "nat \<Rightarrow> nat option \<Rightarrow> 'd node_pool \<Rightarrow> 'd node_pool" where
  "set_prev i q p = p\<lparr>nodes := (nodes p)(i := (nodes p i)\<lparr>prev_link := q\<rparr>)\<rparr>"

definition set_payload :: "nat \<Rightarrow> ('d \<Rightarrow> 'd) \<Rightarrow> 'd node_pool \<Rightarrow> 'd node_pool" where
  "set_payload i f p = p\<lparr>nodes := (nodes p)(i := (nodes p i)\<lparr>payload := f (payload (nodes p i))\<rparr>)\<rparr>"

text \<open>\<open>for (i = 1; i <= SIZE; i ++) pool[i - 1]._next = pool + i\<close>.\<close>

fun link_pool :: "nat \<Rightarrow> 'd node_pool \<Rightarrow> 'd node_pool" where
  "link_pool 0 p = p"
| "link_pool (Suc n) p = set_next n (Some (Suc n)) (link_pool n p)"

definition list_new :: "nat \<Rightarrow> 'd node_pool \<Rightarrow> (nat \<times> 'd node_pool) res" where
  "list_new sz p =
     (let (free, p1) = (case free_nodes p of None \<Rightarrow> (0, link_pool sz p) | Some h \<Rightarrow> (h, p))
      in assertE ''new'' (next_link (nodes p1 free) \<noteq> None)
        (let p2 = p1\<lparr>free_nodes := next_link (nodes p1 free)\<rparr>
         in Inr (free, set_prev free None (set_next free None p2))))"

definition list_prev :: "nat option \<Rightarrow> 'd node_pool \<Rightarrow> nat option res" where
  "list_prev n p = (case n of None \<Rightarrow> Inl (Assert_failed ''prev'') | Some i \<Rightarrow> Inr (prev_link (nodes p i)))"

definition list_next :: "nat option \<Rightarrow> 'd node_pool \<Rightarrow> nat option res" where
  "list_next n p = (case n of None \<Rightarrow> Inl (Assert_failed ''next'') | Some i \<Rightarrow> Inr (next_link (nodes p i)))"

definition list_insert :: "nat option \<Rightarrow> nat option \<Rightarrow> nat \<Rightarrow> 'd node_pool \<Rightarrow> 'd node_pool res" where
  "list_insert prev nxt obj p =
     assertE ''insert'' (prev \<noteq> None \<or> nxt \<noteq> None)
       (let p1 = set_next obj nxt (set_prev obj prev p);
            p2 = (case prev of None \<Rightarrow> p1 | Some i \<Rightarrow> set_next i (Some obj) p1);
            p3 = (case nxt of None \<Rightarrow> p2 | Some i \<Rightarrow> set_prev i (Some obj) p2)
        in Inr p3)"

definition list_remove :: "nat \<Rightarrow> 'd node_pool \<Rightarrow> 'd node_pool" where
  "list_remove node p =
     (let prev = prev_link (nodes p node); nxt = next_link (nodes p node);
          p1 = (case prev of None \<Rightarrow> p | Some i \<Rightarrow> set_next i nxt p)
      in case nxt of None \<Rightarrow> p1 | Some i \<Rightarrow> set_prev i prev p1)"

definition list_free :: "nat \<Rightarrow> 'd node_pool \<Rightarrow> 'd node_pool" where
  "list_free node p = (set_next node (free_nodes p) p)\<lparr>free_nodes := Some node\<rparr>"

text \<open>The array before the program starts: all zero.\<close>

definition init_pool :: "'d \<Rightarrow> 'd node_pool" where
  "init_pool d = \<lparr>nodes = (\<lambda>i. \<lparr>payload = d, prev_link = None, next_link = None\<rparr>), free_nodes = None\<rparr>"

section \<open>What a pool represents\<close>

text \<open>\<open>segment p q h xs e\<close>: from \<open>h\<close>, the links lead through \<open>xs\<close> to \<open>e\<close>, and back from the first of
  them to \<open>q\<close>.\<close>

fun segment :: "'d node_pool \<Rightarrow> nat option \<Rightarrow> nat option \<Rightarrow> nat list \<Rightarrow> nat option \<Rightarrow> bool" where
  "segment p q h [] e \<longleftrightarrow> h = e"
| "segment p q h (x # xs) e \<longleftrightarrow>
     h = Some x \<and> prev_link (nodes p x) = q \<and> segment p (Some x) (next_link (nodes p x)) xs e"

fun link_chain :: "'d node_pool \<Rightarrow> nat option \<Rightarrow> nat list \<Rightarrow> bool" where
  "link_chain p h [] \<longleftrightarrow> h = None"
| "link_chain p h (x # xs) \<longleftrightarrow> h = Some x \<and> link_chain p (next_link (nodes p x)) xs"

text \<open>
  \<open>pool_items sz p h xs own\<close>: the caller's list starts at \<open>h\<close> and consists of the structures \<open>xs\<close>,
  linked in both directions; \<open>own\<close> are structures taken from the pool and in no list; the others
  are free. Before the first \<open>new\<close> the free list is not built yet.
\<close>

definition pool_free :: "nat \<Rightarrow> 'd node_pool \<Rightarrow> nat list \<Rightarrow> bool" where
  "pool_free sz p used \<longleftrightarrow>
     (if free_nodes p = None then used = [] \<and> next_link (nodes p sz) = None
      else \<exists>fs. fs \<noteq> [] \<and> link_chain p (free_nodes p) fs \<and> distinct (used @ fs) \<and>
             set (used @ fs) = {0..sz})"

definition pool_items :: "nat \<Rightarrow> 'd node_pool \<Rightarrow> nat option \<Rightarrow> nat list \<Rightarrow> nat list \<Rightarrow> bool" where
  "pool_items sz p h xs own \<longleftrightarrow> segment p None h xs None \<and> pool_free sz p (xs @ own)"

definition last_or :: "'a option \<Rightarrow> 'a list \<Rightarrow> 'a option" where
  "last_or q xs = (if xs = [] then q else Some (last xs))"

definition first :: "'a list \<Rightarrow> 'a option" where
  "first xs = (case xs of [] \<Rightarrow> None | x # _ \<Rightarrow> Some x)"

lemma first_simps [simp]: "first [] = None" "first (x # xs) = Some x"
  by (simp_all add: first_def)

lemma last_or_simps [simp]: "last_or q [] = q" "last_or q (x # xs) = last_or (Some x) xs"
  by (simp_all add: last_or_def)

named_theorems link_simps \<open>field updates of the pool\<close>

lemma links_set [link_simps]:
  "nodes (set_next i q p) = (nodes p)(i := (nodes p i)\<lparr>next_link := q\<rparr>)"
  "nodes (set_prev i q p) = (nodes p)(i := (nodes p i)\<lparr>prev_link := q\<rparr>)"
  "nodes (set_payload i f p) = (nodes p)(i := (nodes p i)\<lparr>payload := f (payload (nodes p i))\<rparr>)"
  "free_nodes (set_next i q p) = free_nodes p"
  "free_nodes (set_prev i q p) = free_nodes p"
  "free_nodes (set_payload i f p) = free_nodes p"
  by (simp_all add: set_next_def set_prev_def set_payload_def)

lemma segment_append:
  "segment p q h (xs @ ys) e \<longleftrightarrow> (\<exists>m. segment p q h xs m \<and> segment p (last_or q xs) m ys e)"
  by (induction xs arbitrary: q h) auto

lemma segment_cong:
  "(\<And>x. x \<in> set xs \<Longrightarrow> prev_link (nodes p' x) = prev_link (nodes p x) \<and>
     next_link (nodes p' x) = next_link (nodes p x)) \<Longrightarrow>
   segment p' q h xs e = segment p q h xs e"
  by (induction xs arbitrary: q h) auto

lemma chain_cong:
  "(\<And>x. x \<in> set xs \<Longrightarrow> next_link (nodes p' x) = next_link (nodes p x)) \<Longrightarrow>
   link_chain p' h xs = link_chain p h xs"
  by (induction xs arbitrary: h) auto

lemma segment_first: "segment p q h xs None \<Longrightarrow> h = first xs"
  by (cases xs) auto

lemma segment_other [link_simps]:
  "i \<notin> set xs \<Longrightarrow> segment (set_next i r p) q h xs e = segment p q h xs e"
  "i \<notin> set xs \<Longrightarrow> segment (set_prev i r p) q h xs e = segment p q h xs e"
  "segment (set_payload i f p) q h xs e = segment p q h xs e"
  "segment (p\<lparr>free_nodes := r\<rparr>) q h xs e = segment p q h xs e"
  by (rule segment_cong; auto simp: links_set)+

lemma chain_other [link_simps]:
  "i \<notin> set xs \<Longrightarrow> link_chain (set_next i r p) h xs = link_chain p h xs"
  "link_chain (set_prev i r p) h xs = link_chain p h xs"
  "link_chain (set_payload i f p) h xs = link_chain p h xs"
  "link_chain (p\<lparr>free_nodes := r\<rparr>) h xs = link_chain p h xs"
  by (rule chain_cong; auto simp: links_set)+

lemma segment_relink_end:
  "segment p q h xs e \<Longrightarrow> xs \<noteq> [] \<Longrightarrow> distinct xs \<Longrightarrow>
   segment (set_next (last xs) e' p) q h xs e'"
proof (induction xs arbitrary: q h)
  case (Cons x xs)
  show ?case
  proof (cases "xs = []")
    case False
    with Cons.prems have "x \<noteq> last xs" by auto
    with Cons False show ?thesis by (simp add: link_simps)
  qed (use Cons.prems in \<open>simp add: link_simps\<close>)
qed simp

lemma segment_relink_start:
  "segment p q h (y # ys) e \<Longrightarrow> distinct (y # ys) \<Longrightarrow>
   segment (set_prev y q' p) q' h (y # ys) e"
  by (simp add: link_simps)

text \<open>The free list depends on the links of its own structures only.\<close>

lemma pool_free_cong:
  assumes "pool_free sz p used" and "free_nodes p' = free_nodes p" and "used \<noteq> []"
    and "\<And>x. x \<notin> set used \<Longrightarrow> next_link (nodes p' x) = next_link (nodes p x)"
  shows "pool_free sz p' used"
proof -
  from assms(1,3) obtain fs where fs: "free_nodes p \<noteq> None" "fs \<noteq> []" "link_chain p (free_nodes p) fs"
    "distinct (used @ fs)" "set (used @ fs) = {0..sz}"
    by (auto simp: pool_free_def split: if_splits)
  from fs(4) have "\<And>x. x \<in> set fs \<Longrightarrow> x \<notin> set used" by auto
  with assms(4) have "link_chain p' (free_nodes p) fs = link_chain p (free_nodes p) fs"
    by (intro chain_cong) blast
  with fs assms(2) show ?thesis by (auto simp: pool_free_def)
qed

section \<open>The operations on represented pools\<close>

lemma pool_free_perm:
  "pool_free sz p used \<Longrightarrow> distinct used' \<Longrightarrow> set used' = set used \<Longrightarrow> pool_free sz p used'"
  by (cases "free_nodes p = None") (auto simp: pool_free_def)

lemma chain_link_pool_aux:
  "n \<le> sz \<Longrightarrow> (\<forall>i < n. next_link (nodes (link_pool n p) i) = Some (Suc i)) \<and>
   (\<forall>i \<ge> n. next_link (nodes (link_pool n p) i) = next_link (nodes p i)) \<and>
   (\<forall>i. prev_link (nodes (link_pool n p) i) = prev_link (nodes p i) \<and>
     payload (nodes (link_pool n p) i) = payload (nodes p i)) \<and>
   free_nodes (link_pool n p) = free_nodes p"
  by (induction n) (auto simp: link_simps less_Suc_eq)

lemma chain_upt:
  "(\<And>i. k \<le> i \<Longrightarrow> i < n \<Longrightarrow> next_link (nodes p i) = Some (Suc i)) \<Longrightarrow> next_link (nodes p n) = None \<Longrightarrow>
   k \<le> n \<Longrightarrow> link_chain p (Some k) [k..<Suc n]"
proof (induction "n - k" arbitrary: k)
  case 0
  then show ?case by simp
next
  case (Suc d)
  then have "k < n" by simp
  with Suc have "link_chain p (Some (Suc k)) [Suc k..<Suc n]" by simp
  moreover have "[k..<Suc n] = k # [Suc k..<Suc n]" using \<open>k < n\<close> by (simp add: upt_rec)
  ultimately show ?case using Suc.prems(1) [of k] \<open>k < n\<close> by simp
qed

lemma pool_free_used_bound:
  assumes "pool_free sz p used" and "free_nodes p \<noteq> None"
  obtains fs where "fs \<noteq> []" and "link_chain p (free_nodes p) fs" and "distinct (used @ fs)"
    and "set (used @ fs) = {0..sz}" and "length used + length fs = Suc sz"
proof -
  from assms obtain fs where fs: "fs \<noteq> []" "link_chain p (free_nodes p) fs" "distinct (used @ fs)"
    "set (used @ fs) = {0..sz}" by (auto simp: pool_free_def)
  from distinct_card [OF fs(3)] fs(4) have "length used + length fs = Suc sz" by simp
  with fs show ?thesis by (rule that)
qed

lemma list_new_step:
  assumes p: "link_chain p (Some i) (i # fs)" and fs: "fs \<noteq> []"
    and all: "distinct (used @ i # fs)" "set (used @ i # fs) = {0..sz}"
    and seg: "segment p None h xs None" and used: "set xs \<subseteq> set used"
  defines "p' \<equiv> set_prev i None (set_next i None (p\<lparr>free_nodes := next_link (nodes p i)\<rparr>))"
  shows "next_link (nodes p i) \<noteq> None \<and> segment p' None h xs None \<and> pool_free sz p' (i # used)"
proof -
  from p fs have nxt: "next_link (nodes p i) = Some (hd fs)" "link_chain p (Some (hd fs)) fs"
    by (cases fs; simp)+
  from all(1) used have i: "i \<notin> set fs" "i \<notin> set xs" by auto
  have "link_chain p' (Some (hd fs)) fs" "free_nodes p' = Some (hd fs)"
    using i nxt by (simp_all add: p'_def link_simps)
  then have "pool_free sz p' (i # used)"
    using all fs by (auto simp: pool_free_def intro!: exI [of _ fs])
  with nxt i seg show ?thesis by (simp add: p'_def link_simps)
qed

lemma list_new_items:
  assumes items: "pool_items sz p h xs own" and room: "length xs + length own < sz"
  shows "\<exists>i p'. list_new sz p = Inr (i, p') \<and> i \<notin> set xs \<and> pool_items sz p' h xs (i # own) \<and>
    (\<forall>j. payload (nodes p' j) = payload (nodes p j))"
proof (cases "free_nodes p")
  case None
  from items None have empty: "xs = []" "own = []" "h = None" "next_link (nodes p sz) = None"
    by (auto simp: pool_items_def pool_free_def)
  let ?q = "link_pool sz p"
  note aux = chain_link_pool_aux [of sz sz p, simplified]
  have ch: "link_chain ?q (Some 0) [0..<Suc sz]"
    using aux empty(4) by (intro chain_upt) auto
  obtain fs where fs: "[0..<Suc sz] = 0 # fs" "fs = [1..<Suc sz]" by (simp add: upt_rec)
  have fs3: "fs \<noteq> []" "distinct ([] @ 0 # fs)" "set ([] @ 0 # fs) = {0..sz}"
    using room fs by auto
  from list_new_step [OF ch [unfolded fs(1)] fs3, of None "[]"]
  have "next_link (nodes ?q 0) \<noteq> None \<and>
    pool_free sz (set_prev 0 None (set_next 0 None (?q\<lparr>free_nodes := next_link (nodes ?q 0)\<rparr>))) [0]"
    by simp
  then show ?thesis
    using aux empty None by (simp add: list_new_def Let_def pool_items_def link_simps)
next
  case (Some i)
  from items have free: "pool_free sz p (xs @ own)" and seg: "segment p None h xs None"
    by (simp_all add: pool_items_def)
  from pool_free_used_bound [OF free] Some obtain fs where fs: "fs \<noteq> []" "link_chain p (Some i) fs"
    "distinct ((xs @ own) @ fs)" "set ((xs @ own) @ fs) = {0..sz}"
    "length (xs @ own) + length fs = Suc sz" by auto
  then obtain fs' where fs': "fs = i # fs'" by (cases fs) auto
  with fs(5) room have "fs' \<noteq> []" by auto
  from list_new_step [OF fs(2) [unfolded fs'] this fs(3,4) [unfolded fs'] seg]
  have new: "next_link (nodes p i) \<noteq> None"
    "segment (set_prev i None (set_next i None (p\<lparr>free_nodes := next_link (nodes p i)\<rparr>))) None h xs None"
    "pool_free sz (set_prev i None (set_next i None (p\<lparr>free_nodes := next_link (nodes p i)\<rparr>))) (i # xs @ own)"
    by auto
  from fs(3) fs' have "i \<notin> set xs" "distinct (xs @ i # own)" by auto
  with new Some pool_free_perm [OF new(3), of "xs @ i # own"] show ?thesis
    by (simp add: list_new_def Let_def pool_items_def link_simps)
qed

text \<open>The last free structure is never handed out.\<close>

lemma list_new_full:
  assumes items: "pool_items sz p h xs own" and full: "length xs + length own = sz" "0 < sz"
  shows "list_new sz p = Inl (Assert_failed ''new'')"
proof -
  have free: "pool_free sz p (xs @ own)" using items by (simp add: pool_items_def)
  with full have nf: "free_nodes p \<noteq> None" by (cases "free_nodes p") (auto simp: pool_free_def)
  obtain fs where fs: "fs \<noteq> []" "link_chain p (free_nodes p) fs" "distinct ((xs @ own) @ fs)"
    "set ((xs @ own) @ fs) = {0..sz}" "length (xs @ own) + length fs = Suc sz"
    by (rule pool_free_used_bound [OF free nf]) (rule that)
  with full have "length fs = 1" by simp
  then obtain i where "fs = [i]" by (auto simp: length_Suc_conv)
  with fs(2) show ?thesis by (auto simp: list_new_def Let_def)
qed

text \<open>A fresh structure has no neighbours: alone it is a list.\<close>

lemma list_new_single:
  assumes "list_new sz p = Inr (i, p')" and "pool_items sz p' None [] (i # own)"
  shows "pool_items sz p' (Some i) [i] own"
  using assms
  by (auto simp: list_new_def Let_def assertE_eq_Inr pool_items_def link_simps split: option.splits)

lemma list_insert_front:
  assumes items: "pool_items sz p (Some h) xs (i # own)"
  shows "\<exists>p'. list_insert None (Some h) i p = Inr p' \<and> pool_items sz p' (Some i) (i # xs) own \<and>
    (\<forall>j. payload (nodes p' j) = payload (nodes p j))"
proof -
  from items have seg: "segment p None (Some h) xs None" and free: "pool_free sz p (xs @ i # own)"
    by (simp_all add: pool_items_def)
  from seg obtain ys where xs: "xs = h # ys" by (cases xs) auto
  have dist: "distinct (xs @ i # own)" using free by (auto simp: pool_free_def split: if_splits)
  let ?p1 = "set_next i (Some h) (set_prev i None p)"
  let ?p2 = "set_prev h (Some i) ?p1"
  from dist xs have "i \<noteq> h" "i \<notin> set xs" by auto
  then have "segment ?p1 None (Some h) (h # ys) None" using seg xs by (simp add: link_simps)
  from segment_relink_start [OF this] dist xs \<open>i \<noteq> h\<close>
  have "segment ?p2 None (Some i) (i # xs) None" by (simp add: link_simps)
  moreover have "pool_free sz ?p2 (i # xs @ own)"
    by (rule pool_free_cong [OF pool_free_perm [OF free, of "i # xs @ own"]])
      (use dist xs in \<open>auto simp: link_simps\<close>)
  ultimately show ?thesis by (simp add: list_insert_def pool_items_def link_simps)
qed

lemma list_remove_items:
  assumes items: "pool_items sz p h (xs @ i # ys) own"
  shows "pool_items sz (list_remove i p) (first (xs @ ys)) (xs @ ys) (i # own) \<and>
    payload (nodes (list_remove i p) j) = payload (nodes p j)"
proof -
  from items have free: "pool_free sz p ((xs @ i # ys) @ own)" and
    seg: "segment p None h xs (Some i)" "prev_link (nodes p i) = last_or None xs"
      "segment p (Some i) (next_link (nodes p i)) ys None"
    by (auto simp: pool_items_def segment_append)
  have dist: "distinct ((xs @ i # ys) @ own)" using free by (auto simp: pool_free_def split: if_splits)
  have nxt: "next_link (nodes p i) = first ys" using segment_first [OF seg(3)] .
  define p1 where "p1 = (case last_or None xs of None \<Rightarrow> p | Some k \<Rightarrow> set_next k (first ys) p)"
  define p2 where "p2 = (case first ys of None \<Rightarrow> p1 | Some k \<Rightarrow> set_prev k (last_or None xs) p1)"
  have rem: "list_remove i p = p2"
    unfolding p2_def p1_def by (simp add: list_remove_def Let_def seg(2) nxt)
  have left: "segment p1 None (first (xs @ ys)) xs (first ys)"
  proof (cases "xs = []")
    case False
    from segment_relink_end [OF seg(1) this] dist False have "segment p1 None h xs (first ys)"
      by (simp add: p1_def last_or_def)
    with False show ?thesis by (cases xs) auto
  qed simp
  have right: "segment p1 (Some i) (first ys) ys None"
  proof (cases "xs = []")
    case False
    with dist have "last xs \<notin> set ys" using last_in_set by fastforce
    with False seg(3) nxt show ?thesis by (simp add: p1_def last_or_def link_simps)
  qed (use seg(3) nxt in \<open>simp add: p1_def\<close>)
  have "segment p2 None (first (xs @ ys)) xs (first ys)"
    using left dist by (cases ys) (auto simp: p2_def link_simps)
  moreover have "segment p2 (last_or None xs) (first ys) ys None"
    using right dist segment_relink_start [of p1 "Some i" "first ys"] 
    by (cases ys) (auto simp: p2_def)
  ultimately have "segment p2 None (first (xs @ ys)) (xs @ ys) None"
    by (auto simp: segment_append)
  moreover have "pool_free sz p2 ((xs @ ys) @ i # own)"
    by (rule pool_free_cong [OF pool_free_perm [OF free, of "(xs @ ys) @ i # own"]])
      (use dist in \<open>auto simp: p2_def p1_def link_simps last_or_def first_def split: list.split\<close>)
  ultimately have "pool_items sz p2 (first (xs @ ys)) (xs @ ys) (i # own)"
    by (simp add: pool_items_def)
  then show ?thesis
    by (auto simp: rem p2_def p1_def link_simps split: option.split)
qed

lemma list_free_items:
  assumes items: "pool_items sz p h xs (i # own)"
  shows "pool_items sz (list_free i p) h xs own \<and>
    payload (nodes (list_free i p) j) = payload (nodes p j)"
proof -
  from items have free: "pool_free sz p (xs @ i # own)" and seg: "segment p None h xs None"
    by (simp_all add: pool_items_def)
  from free have nf: "free_nodes p \<noteq> None" by (auto simp: pool_free_def split: if_splits)
  obtain fs where fs: "link_chain p (free_nodes p) fs"
    "distinct ((xs @ i # own) @ fs)" "set ((xs @ i # own) @ fs) = {0..sz}"
    by (rule pool_free_used_bound [OF free nf]) blast
  from fs(1,2) have "link_chain (list_free i p) (Some i) (i # fs)"
    by (simp add: list_free_def link_simps)
  moreover have "distinct ((xs @ own) @ i # fs)" "set ((xs @ own) @ i # fs) = {0..sz}"
    using fs(2,3) by auto
  ultimately have "pool_free sz (list_free i p) (xs @ own)"
    by (auto simp: pool_free_def list_free_def intro!: exI [of _ "i # fs"])
  moreover have "segment (list_free i p) None h xs None"
    using seg fs(2) by (simp add: list_free_def link_simps)
  ultimately show ?thesis by (simp add: pool_items_def list_free_def link_simps)
qed

lemma pool_items_shape:
  assumes "pool_items sz p h xs own"
  shows "h = first xs" and "distinct (xs @ own)"
  using assms by (auto simp: pool_items_def pool_free_def split: if_splits intro: segment_first)

lemma next_link_items:
  "pool_items sz p h (xs @ i # ys) own \<Longrightarrow> next_link (nodes p i) = first ys"
  by (auto simp: pool_items_def segment_append intro: segment_first)

lemma next_set_payload: "next_link (nodes (set_payload i f p) j) = next_link (nodes p j)"
  by (simp add: links_set)

lemma set_payload_items:
  "pool_items sz (set_payload i f p) h xs own = pool_items sz p h xs own"
  by (simp only: pool_items_def pool_free_def next_set_payload segment_other(3) chain_other(3) links_set(6))

lemma init_pool_items: "pool_items sz (init_pool d) None [] []"
  by (simp add: pool_items_def pool_free_def init_pool_def)

section \<open>The interface\<close>

text \<open>
  \<open>items s h xs own\<close>: in state \<open>s\<close> the list at \<open>h\<close> is \<open>xs\<close> and \<open>own\<close> are structures taken and in no
  list. Structures beyond these are none of the client's concern.
\<close>

locale linked_pool =
  fixes items :: "'s \<Rightarrow> nat option \<Rightarrow> nat list \<Rightarrow> nat list \<Rightarrow> bool"
    and capacity :: nat
    and content :: "'s \<Rightarrow> nat \<Rightarrow> 'd"
    and alloc :: "'s \<Rightarrow> (nat \<times> 's) res"
    and ins :: "nat option \<Rightarrow> nat option \<Rightarrow> nat \<Rightarrow> 's \<Rightarrow> 's res"
    and del :: "nat \<Rightarrow> 's \<Rightarrow> 's"
    and give :: "nat \<Rightarrow> 's \<Rightarrow> 's"
    and nxt :: "'s \<Rightarrow> nat \<Rightarrow> nat option"
    and put :: "nat \<Rightarrow> ('d \<Rightarrow> 'd) \<Rightarrow> 's \<Rightarrow> 's"
  assumes items_head: "items s h xs own \<Longrightarrow> h = first xs"
    and items_distinct: "items s h xs own \<Longrightarrow> distinct (xs @ own)"
    and alloc_law: "items s h xs own \<Longrightarrow> length xs + length own < capacity \<Longrightarrow>
      \<exists>i s'. alloc s = Inr (i, s') \<and> i \<notin> set xs \<and> items s' h xs (i # own) \<and> content s' = content s"
    and single_law: "alloc s = Inr (i, s') \<Longrightarrow> items s' None [] (i # own) \<Longrightarrow> items s' (Some i) [i] own"
    and ins_law: "items s (Some k) xs (i # own) \<Longrightarrow>
      \<exists>s'. ins None (Some k) i s = Inr s' \<and> items s' (Some i) (i # xs) own \<and> content s' = content s"
    and del_law: "items s h (xs @ i # ys) own \<Longrightarrow>
      items (del i s) (first (xs @ ys)) (xs @ ys) (i # own) \<and> content (del i s) = content s"
    and give_law: "items s h xs (i # own) \<Longrightarrow>
      items (give i s) h xs own \<and> content (give i s) = content s"
    and nxt_law: "items s h (xs @ i # ys) own \<Longrightarrow> nxt s i = first ys"
    and put_law: "items s h xs own \<Longrightarrow>
      items (put i f s) h xs own \<and> content (put i f s) = (content s)(i := f (content s i))"
begin

text \<open>Taking a structure and putting it in front, the way \<open>create_new_letter\<close> does.\<close>

lemma push:
  assumes "items s h xs []" and "length xs < capacity"
  obtains i s' where "alloc s = Inr (i, s')" and "i \<notin> set xs" and "content s' = content s"
    and "h = None \<Longrightarrow> xs = [] \<and> items s' (Some i) [i] []"
    and "\<And>k. h = Some k \<Longrightarrow> \<exists>s''. ins None (Some k) i s' = Inr s'' \<and>
           items s'' (Some i) (i # xs) [] \<and> content s'' = content s"
proof -
  from alloc_law [OF assms(1)] assms(2) obtain i s' where
    i: "alloc s = Inr (i, s')" "i \<notin> set xs" "items s' h xs [i]" "content s' = content s" by auto
  have "h = None \<Longrightarrow> xs = [] \<and> items s' (Some i) [i] []"
    using items_head [OF i(3)] i(3) single_law [OF i(1)] by (cases xs) auto
  moreover have "\<exists>s''. ins None (Some k) i s' = Inr s'' \<and> items s'' (Some i) (i # xs) [] \<and>
      content s'' = content s" if "h = Some k" for k
    using ins_law [of s' k xs i "[]"] i(3,4) that by simp
  ultimately show ?thesis using i by (intro that) auto
qed

text \<open>Taking a structure out of the list and giving it back.\<close>

lemma drop_item:
  assumes "items s h (xs @ i # ys) []"
  shows "items (give i (del i s)) (first (xs @ ys)) (xs @ ys) [] \<and>
    content (give i (del i s)) = content s"
  using give_law [of "del i s" "first (xs @ ys)" "xs @ ys" i "[]"] del_law [OF assms] by simp

lemma put_other:
  assumes "items s h xs own" and "i \<notin> set ys"
  shows "map (content (put i f s)) ys = map (content s) ys"
  using put_law [OF assms(1)] assms(2) by (auto intro!: map_cong)

end

interpretation lp: linked_pool "pool_items sz" sz "\<lambda>p i. payload (nodes p i)" "list_new sz" list_insert
  list_remove list_free "\<lambda>p i. next_link (nodes p i)" set_payload
proof (unfold_locales, goal_cases)
  case (3 p h xs own)
  from list_new_items [OF this] show ?case by (auto simp: fun_eq_iff)
next
  case (4 p i p' own)
  then show ?case by (rule list_new_single)
next
  case (5 p h xs i own)
  from list_insert_front [OF this] show ?case by (auto simp: fun_eq_iff)
next
  case (6 p h xs i ys own)
  from list_remove_items [OF this] show ?case by (auto simp: fun_eq_iff)
next
  case (7 p h xs i own)
  from list_free_items [OF this] show ?case by (auto simp: fun_eq_iff)
next
  case (8 p h xs i ys own)
  then show ?case by (rule next_link_items)
next
  case (9 p h xs own i f)
  then show ?case by (auto simp: set_payload_items link_simps)
qed (blast dest: pool_items_shape)+

end
