(* ===== verification/GameVideo.thy ===== *)
theory GameVideo
  imports Linklist Complex_Main
begin

text \<open>
  Drawing of the guest program: the font (\<open>game/src/common/device/font.c\<close>), the frame buffer
  (\<open>include/device/video.h\<close>, \<open>common/device/video.c\<close>). The buffer of 320 x 200 bytes is a function on
  its indices; an access beyond it never happens, because \<open>draw_pixel\<close> asserts its arguments.
\<close>

section \<open>The font\<close>

definition font8x8_basic :: "u8 list list" where
  "font8x8_basic =
    [[0, 0, 0, 0, 0, 0, 0, 0],
     [0, 0, 0, 0, 0, 0, 0, 0],
     [0, 0, 0, 0, 0, 0, 0, 0],
     [0, 0, 0, 0, 0, 0, 0, 0],
     [0, 0, 0, 0, 0, 0, 0, 0],
     [0, 0, 0, 0, 0, 0, 0, 0],
     [0, 0, 0, 0, 0, 0, 0, 0],
     [0, 0, 0, 0, 0, 0, 0, 0],
     [0, 0, 0, 0, 0, 0, 0, 0],
     [0, 0, 0, 0, 0, 0, 0, 0],
     [0, 0, 0, 0, 0, 0, 0, 0],
     [0, 0, 0, 0, 0, 0, 0, 0],
     [0, 0, 0, 0, 0, 0, 0, 0],
     [0, 0, 0, 0, 0, 0, 0, 0],
     [0, 0, 0, 0, 0, 0, 0, 0],
     [0, 0, 0, 0, 0, 0, 0, 0],
     [0, 0, 0, 0, 0, 0, 0, 0],
     [0, 0, 0, 0, 0, 0, 0, 0],
     [0, 0, 0, 0, 0, 0, 0, 0],
     [0, 0, 0, 0, 0, 0, 0, 0],
     [0, 0, 0, 0, 0, 0, 0, 0],
     [0, 0, 0, 0, 0, 0, 0, 0],
     [0, 0, 0, 0, 0, 0, 0, 0],
     [0, 0, 0, 0, 0, 0, 0, 0],
     [0, 0, 0, 0, 0, 0, 0, 0],
     [0, 0, 0, 0, 0, 0, 0, 0],
     [0, 0, 0, 0, 0, 0, 0, 0],
     [0, 0, 0, 0, 0, 0, 0, 0],
     [0, 0, 0, 0, 0, 0, 0, 0],
     [0, 0, 0, 0, 0, 0, 0, 0],
     [0, 0, 0, 0, 0, 0, 0, 0],
     [0, 0, 0, 0, 0, 0, 0, 0],
     [0, 0, 0, 0, 0, 0, 0, 0],
     [0x18, 0x3c, 0x3c, 0x18, 0x18, 0, 0x18, 0],
     [0x36, 0x36, 0, 0, 0, 0, 0, 0],
     [0x36, 0x36, 0x7f, 0x36, 0x7f, 0x36, 0x36, 0],
     [0xc, 0x3e, 0x3, 0x1e, 0x30, 0x1f, 0xc, 0],
     [0, 0x63, 0x33, 0x18, 0xc, 0x66, 0x63, 0],
     [0x1c, 0x36, 0x1c, 0x6e, 0x3b, 0x33, 0x6e, 0],
     [0x6, 0x6, 0x3, 0, 0, 0, 0, 0],
     [0x18, 0xc, 0x6, 0x6, 0x6, 0xc, 0x18, 0],
     [0x6, 0xc, 0x18, 0x18, 0x18, 0xc, 0x6, 0],
     [0, 0x66, 0x3c, 0xff, 0x3c, 0x66, 0, 0],
     [0, 0xc, 0xc, 0x3f, 0xc, 0xc, 0, 0],
     [0, 0, 0, 0, 0, 0xc, 0xc, 0x6],
     [0, 0, 0, 0x3f, 0, 0, 0, 0],
     [0, 0, 0, 0, 0, 0xc, 0xc, 0],
     [0x60, 0x30, 0x18, 0xc, 0x6, 0x3, 0x1, 0],
     [0x3e, 0x63, 0x73, 0x7b, 0x6f, 0x67, 0x3e, 0],
     [0xc, 0xe, 0xc, 0xc, 0xc, 0xc, 0x3f, 0],
     [0x1e, 0x33, 0x30, 0x1c, 0x6, 0x33, 0x3f, 0],
     [0x1e, 0x33, 0x30, 0x1c, 0x30, 0x33, 0x1e, 0],
     [0x38, 0x3c, 0x36, 0x33, 0x7f, 0x30, 0x78, 0],
     [0x3f, 0x3, 0x1f, 0x30, 0x30, 0x33, 0x1e, 0],
     [0x1c, 0x6, 0x3, 0x1f, 0x33, 0x33, 0x1e, 0],
     [0x3f, 0x33, 0x30, 0x18, 0xc, 0xc, 0xc, 0],
     [0x1e, 0x33, 0x33, 0x1e, 0x33, 0x33, 0x1e, 0],
     [0x1e, 0x33, 0x33, 0x3e, 0x30, 0x18, 0xe, 0],
     [0, 0xc, 0xc, 0, 0, 0xc, 0xc, 0],
     [0, 0xc, 0xc, 0, 0, 0xc, 0xc, 0x6],
     [0x18, 0xc, 0x6, 0x3, 0x6, 0xc, 0x18, 0],
     [0, 0, 0x3f, 0, 0, 0x3f, 0, 0],
     [0x6, 0xc, 0x18, 0x30, 0x18, 0xc, 0x6, 0],
     [0x1e, 0x33, 0x30, 0x18, 0xc, 0, 0xc, 0],
     [0x3e, 0x63, 0x7b, 0x7b, 0x7b, 0x3, 0x1e, 0],
     [0xc, 0x1e, 0x33, 0x33, 0x3f, 0x33, 0x33, 0],
     [0x3f, 0x66, 0x66, 0x3e, 0x66, 0x66, 0x3f, 0],
     [0x3c, 0x66, 0x3, 0x3, 0x3, 0x66, 0x3c, 0],
     [0x1f, 0x36, 0x66, 0x66, 0x66, 0x36, 0x1f, 0],
     [0x7f, 0x46, 0x16, 0x1e, 0x16, 0x46, 0x7f, 0],
     [0x7f, 0x46, 0x16, 0x1e, 0x16, 0x6, 0xf, 0],
     [0x3c, 0x66, 0x3, 0x3, 0x73, 0x66, 0x7c, 0],
     [0x33, 0x33, 0x33, 0x3f, 0x33, 0x33, 0x33, 0],
     [0x1e, 0xc, 0xc, 0xc, 0xc, 0xc, 0x1e, 0],
     [0x78, 0x30, 0x30, 0x30, 0x33, 0x33, 0x1e, 0],
     [0x67, 0x66, 0x36, 0x1e, 0x36, 0x66, 0x67, 0],
     [0xf, 0x6, 0x6, 0x6, 0x46, 0x66, 0x7f, 0],
     [0x63, 0x77, 0x7f, 0x7f, 0x6b, 0x63, 0x63, 0],
     [0x63, 0x67, 0x6f, 0x7b, 0x73, 0x63, 0x63, 0],
     [0x1c, 0x36, 0x63, 0x63, 0x63, 0x36, 0x1c, 0],
     [0x3f, 0x66, 0x66, 0x3e, 0x6, 0x6, 0xf, 0],
     [0x1e, 0x33, 0x33, 0x33, 0x3b, 0x1e, 0x38, 0],
     [0x3f, 0x66, 0x66, 0x3e, 0x36, 0x66, 0x67, 0],
     [0x1e, 0x33, 0x7, 0xe, 0x38, 0x33, 0x1e, 0],
     [0x3f, 0x2d, 0xc, 0xc, 0xc, 0xc, 0x1e, 0],
     [0x33, 0x33, 0x33, 0x33, 0x33, 0x33, 0x3f, 0],
     [0x33, 0x33, 0x33, 0x33, 0x33, 0x1e, 0xc, 0],
     [0x63, 0x63, 0x63, 0x6b, 0x7f, 0x77, 0x63, 0],
     [0x63, 0x63, 0x36, 0x1c, 0x1c, 0x36, 0x63, 0],
     [0x33, 0x33, 0x33, 0x1e, 0xc, 0xc, 0x1e, 0],
     [0x7f, 0x63, 0x31, 0x18, 0x4c, 0x66, 0x7f, 0],
     [0x1e, 0x6, 0x6, 0x6, 0x6, 0x6, 0x1e, 0],
     [0x3, 0x6, 0xc, 0x18, 0x30, 0x60, 0x40, 0],
     [0x1e, 0x18, 0x18, 0x18, 0x18, 0x18, 0x1e, 0],
     [0x8, 0x1c, 0x36, 0x63, 0, 0, 0, 0],
     [0, 0, 0, 0, 0, 0, 0, 0xff],
     [0xc, 0xc, 0x18, 0, 0, 0, 0, 0],
     [0, 0, 0x1e, 0x30, 0x3e, 0x33, 0x6e, 0],
     [0x7, 0x6, 0x6, 0x3e, 0x66, 0x66, 0x3b, 0],
     [0, 0, 0x1e, 0x33, 0x3, 0x33, 0x1e, 0],
     [0x38, 0x30, 0x30, 0x3e, 0x33, 0x33, 0x6e, 0],
     [0, 0, 0x1e, 0x33, 0x3f, 0x3, 0x1e, 0],
     [0x1c, 0x36, 0x6, 0xf, 0x6, 0x6, 0xf, 0],
     [0, 0, 0x6e, 0x33, 0x33, 0x3e, 0x30, 0x1f],
     [0x7, 0x6, 0x36, 0x6e, 0x66, 0x66, 0x67, 0],
     [0xc, 0, 0xe, 0xc, 0xc, 0xc, 0x1e, 0],
     [0x30, 0, 0x30, 0x30, 0x30, 0x33, 0x33, 0x1e],
     [0x7, 0x6, 0x66, 0x36, 0x1e, 0x36, 0x67, 0],
     [0xe, 0xc, 0xc, 0xc, 0xc, 0xc, 0x1e, 0],
     [0, 0, 0x33, 0x7f, 0x7f, 0x6b, 0x63, 0],
     [0, 0, 0x1f, 0x33, 0x33, 0x33, 0x33, 0],
     [0, 0, 0x1e, 0x33, 0x33, 0x33, 0x1e, 0],
     [0, 0, 0x3b, 0x66, 0x66, 0x3e, 0x6, 0xf],
     [0, 0, 0x6e, 0x33, 0x33, 0x3e, 0x30, 0x78],
     [0, 0, 0x3b, 0x6e, 0x66, 0x6, 0xf, 0],
     [0, 0, 0x3e, 0x3, 0x1e, 0x30, 0x1f, 0],
     [0x8, 0xc, 0x3e, 0xc, 0xc, 0x2c, 0x18, 0],
     [0, 0, 0x33, 0x33, 0x33, 0x33, 0x6e, 0],
     [0, 0, 0x33, 0x33, 0x33, 0x1e, 0xc, 0],
     [0, 0, 0x63, 0x6b, 0x7f, 0x7f, 0x36, 0],
     [0, 0, 0x63, 0x36, 0x1c, 0x36, 0x63, 0],
     [0, 0, 0x33, 0x33, 0x33, 0x3e, 0x30, 0x1f],
     [0, 0, 0x3f, 0x19, 0xc, 0x26, 0x3f, 0],
     [0x38, 0xc, 0xc, 0x7, 0xc, 0xc, 0x38, 0],
     [0x18, 0x18, 0x18, 0, 0x18, 0x18, 0x18, 0],
     [0x7, 0xc, 0xc, 0x38, 0xc, 0xc, 0x7, 0],
     [0x6e, 0x3b, 0, 0, 0, 0, 0, 0],
     [0, 0, 0, 0, 0, 0, 0, 0]]"

section \<open>Frame buffer\<close>

definition SCR_WIDTH :: int where "SCR_WIDTH = 320"

definition SCR_HEIGHT :: int where "SCR_HEIGHT = 200"

record video =
  vbuf :: "nat \<Rightarrow> u8"
  screen :: "nat \<Rightarrow> u8"

definition g_draw_pixel :: "int \<Rightarrow> int \<Rightarrow> int \<Rightarrow> 'a video_scheme \<Rightarrow> 'a video_scheme res" where
  "g_draw_pixel x y color g =
     assertE ''draw_pixel'' (0 \<le> x \<and> 0 \<le> y \<and> x < SCR_HEIGHT \<and> y < SCR_WIDTH)
       (Inr (g\<lparr>vbuf := (vbuf g)(nat (push_bit 8 x + push_bit 6 x + y) := word_of_int color)\<rparr>))"

definition prepare_buffer :: "'a video_scheme \<Rightarrow> 'a video_scheme" where
  "prepare_buffer g = g\<lparr>vbuf := (\<lambda>i. if i < nat (SCR_WIDTH * SCR_HEIGHT) then 0 else vbuf g i)\<rparr>"

text \<open>\<open>rep movsl\<close> of a quarter of the size to \<open>VMEM_ADDR\<close>; \<open>screen\<close> is video memory.\<close>

definition display_buffer :: "'a video_scheme \<Rightarrow> 'a video_scheme" where
  "display_buffer g =
     g\<lparr>screen := (\<lambda>i. if i < nat (SCR_WIDTH * SCR_HEIGHT) div 4 * 4 then vbuf g i else screen g i)\<rparr>"

fun for_each :: "('x \<Rightarrow> 's \<Rightarrow> 's res) \<Rightarrow> 'x list \<Rightarrow> 's \<Rightarrow> 's res" where
  "for_each f [] s = Inr s"
| "for_each f (x # xs) s = bindE (f x s) (for_each f xs)"

definition draw_character :: "char \<Rightarrow> int \<Rightarrow> int \<Rightarrow> int \<Rightarrow> 'a video_scheme \<Rightarrow> 'a video_scheme res" where
  "draw_character ch x y color g =
     assertE ''draw_character'' ((of_char ch :: u8) AND 0x80 = 0)
       (let p = font8x8_basic ! of_char ch
        in for_each (\<lambda>i. for_each (\<lambda>j g.
             if drop_bit j (p ! i) AND 1 = 0 then Inr g
             else g_draw_pixel (x + int i) (y + int j) color g) [0..<8]) [0..<8] g)"

fun draw_string :: "string \<Rightarrow> int \<Rightarrow> int \<Rightarrow> int \<Rightarrow> 'a video_scheme \<Rightarrow> 'a video_scheme res" where
  "draw_string [] x y color g = Inr g"
| "draw_string (ch # str) x y color g =
     bindE (draw_character ch x y color g) (\<lambda>g.
       if y + 8 \<ge> SCR_WIDTH then draw_string str (x + 8) 0 color g
       else draw_string str x (y + 8) color g)"

section \<open>What drawing changes\<close>

definition pixel :: "int \<Rightarrow> int \<Rightarrow> nat" where
  "pixel r c = nat (320 * r + c)"

definition glyph_bit :: "char \<Rightarrow> nat \<Rightarrow> nat \<Rightarrow> bool" where
  "glyph_bit ch i j = bit (font8x8_basic ! of_char ch ! i) j"

lemma g_draw_pixel_inside:
  "0 \<le> x \<Longrightarrow> x < 200 \<Longrightarrow> 0 \<le> y \<Longrightarrow> y < 320 \<Longrightarrow>
   g_draw_pixel x y color g = Inr (g\<lparr>vbuf := (vbuf g)(pixel x y := word_of_int color)\<rparr>)"
  by (simp add: g_draw_pixel_def SCR_WIDTH_def SCR_HEIGHT_def pixel_def push_bit_eq_mult algebra_simps)

lemma for_each_append:
  "for_each f (xs @ ys) s = bindE (for_each f xs s) (for_each f ys)"
proof (induction xs arbitrary: s)
  case (Cons x xs)
  then have "for_each f (xs @ ys) = (\<lambda>s. bindE (for_each f xs s) (for_each f ys))" by blast
  then show ?case by (simp add: bindE_assoc)
qed simp

lemma drop_bit_and_1: "(drop_bit j w AND 1 = 0) = (\<not> bit w j)" for w :: u8
  by (simp add: bit_iff_odd_drop_bit and_one_eq even_iff_mod_2_eq_zero)

text \<open>Setting a set of pixels to one colour.\<close>

definition fill :: "(nat \<Rightarrow> bool) \<Rightarrow> int \<Rightarrow> 'a video_scheme \<Rightarrow> 'a video_scheme" where
  "fill P color g = g\<lparr>vbuf := (\<lambda>k. if P k then word_of_int color else vbuf g k)\<rparr>"

lemma fill_fill: "fill Q color (fill P color g) = fill (\<lambda>k. P k \<or> Q k) color g"
  by (auto simp: fill_def fun_eq_iff)

lemma fill_none: "fill (\<lambda>k. False) color g = g"
  by (simp add: fill_def)

lemma fill_one: "g\<lparr>vbuf := (vbuf g)(i := word_of_int color)\<rparr> = fill (\<lambda>k. k = i) color g"
  by (auto simp: fill_def fun_eq_iff)

lemma draw_row:
  fixes w :: u8
  assumes "0 \<le> x" "x < 200" "0 \<le> y"
  shows "y + int n \<le> 320 \<Longrightarrow>
    for_each (\<lambda>j g. if drop_bit j w AND 1 = 0 then Inr g else g_draw_pixel x (y + int j) color g) [0..<n] g =
    Inr (fill (\<lambda>k. \<exists>j < n. k = pixel x (y + int j) \<and> bit w j) color g)"
proof (induction n)
  case 0
  then show ?case by (simp add: fill_none)
next
  case (Suc n)
  have eq: "(\<lambda>k. \<exists>j < Suc n. k = pixel x (y + int j) \<and> bit w j) =
    (\<lambda>k. (\<exists>j < n. k = pixel x (y + int j) \<and> bit w j) \<or> k = pixel x (y + int n) \<and> bit w n)"
    by (auto simp: less_Suc_eq)
  from Suc show ?case
    using assms by (simp add: for_each_append g_draw_pixel_inside drop_bit_and_1 fill_one eq)
      (simp add: fill_fill)
qed

lemma draw_rows:
  fixes p :: "u8 list" and g :: "'a video_scheme"
  assumes "0 \<le> x" "0 \<le> y" "y + 8 \<le> 320"
  shows "x + int n \<le> 200 \<Longrightarrow>
    for_each (\<lambda>i. for_each (\<lambda>j g. if drop_bit j (p ! i) AND 1 = 0 then Inr g
        else g_draw_pixel (x + int i) (y + int j) color g) [0..<8]) [0..<n] g =
    Inr (fill (\<lambda>k. \<exists>i < n. \<exists>j < 8. k = pixel (x + int i) (y + int j) \<and> bit (p ! i) j) color g)"
proof (induction n)
  case 0
  then show ?case by (simp add: fill_none)
next
  case (Suc n)
  have "\<And>g :: 'a video_scheme. for_each (\<lambda>j g. if drop_bit j (p ! n) AND 1 = 0 then Inr g
        else g_draw_pixel (x + int n) (y + int j) color g) [0..<8] g =
    Inr (fill (\<lambda>k. \<exists>j < 8. k = pixel (x + int n) (y + int j) \<and> bit (p ! n) j) color g)"
    using Suc.prems assms draw_row [of "x + int n" y 8 "p ! n" color] by simp
  moreover have "(\<lambda>k. \<exists>i < Suc n. \<exists>j < 8. k = pixel (x + int i) (y + int j) \<and> bit (p ! i) j) =
    (\<lambda>k. (\<exists>i < n. \<exists>j < 8. k = pixel (x + int i) (y + int j) \<and> bit (p ! i) j) \<or>
      (\<exists>j < 8. k = pixel (x + int n) (y + int j) \<and> bit (p ! n) j))"
    by (auto simp: less_Suc_eq)
  ultimately show ?case using Suc
    by (simp only: upt_Suc_append for_each_append for_each.simps bindE_Inr fill_fill)
qed

text \<open>The pixels of a text whose first character has its corner at row \<open>x\<close> and column \<open>y\<close>.\<close>

definition painted :: "string \<Rightarrow> int \<Rightarrow> int \<Rightarrow> nat \<Rightarrow> bool" where
  "painted str x y k \<longleftrightarrow> (\<exists>m < length str. \<exists>i < 8. \<exists>j < 8.
     k = pixel (x + int i) (y + 8 * int m + int j) \<and> glyph_bit (str ! m) i j)"

definition ascii :: "char \<Rightarrow> bool" where
  "ascii ch \<longleftrightarrow> (of_char ch :: u8) AND 0x80 = 0"

definition paint :: "string \<Rightarrow> int \<Rightarrow> int \<Rightarrow> int \<Rightarrow> 'a video_scheme \<Rightarrow> 'a video_scheme" where
  "paint str x y = fill (painted str x y)"

lemma draw_character_paints:
  assumes "0 \<le> x" "x + 8 \<le> 200" "0 \<le> y" "y + 8 \<le> 320" "ascii ch"
  shows "draw_character ch x y color g = Inr (paint [ch] x y color g)"
  using assms draw_rows [of x y 8 "font8x8_basic ! of_char ch" color g]
  by (simp add: draw_character_def ascii_def paint_def painted_def [abs_def] glyph_bit_def Let_def)

lemma painted_Cons:
  "painted (ch # str) x y k \<longleftrightarrow> painted [ch] x y k \<or> painted str x (y + 8) k"
proof -
  have split: "(\<exists>m < Suc n. P m) \<longleftrightarrow> P 0 \<or> (\<exists>m < n. P (Suc m))" for n and P :: "nat \<Rightarrow> bool"
    by (auto simp: less_Suc_eq_0_disj)
  show ?thesis by (simp add: painted_def split algebra_simps)
qed

lemma draw_string_paints:
  assumes "0 \<le> x" "x + 8 \<le> 200"
  shows "0 \<le> y \<Longrightarrow> y + 8 * int (length str) \<le> 320 \<Longrightarrow> list_all ascii str \<Longrightarrow>
    draw_string str x y color g = Inr (paint str x y color g)"
proof (induction str arbitrary: y g)
  case Nil
  then show ?case by (simp add: paint_def painted_def [abs_def] fill_none)
next
  case (Cons ch str)
  have ch: "draw_character ch x y color g = Inr (paint [ch] x y color g)"
    using Cons.prems assms by (intro draw_character_paints) auto
  have eq: "paint str x (y + 8) color (paint [ch] x y color g) = paint (ch # str) x y color g"
    unfolding paint_def fill_fill by (simp only: painted_Cons [of ch str, abs_def])
  show ?case
  proof (cases "y + 8 \<ge> SCR_WIDTH")
    case True
    with Cons.prems have "str = []" by (cases str) (simp_all add: SCR_WIDTH_def)
    with ch show ?thesis by simp
  next
    case False
    with Cons ch eq show ?thesis by simp
  qed
qed

lemma pixel_in_buffer:
  assumes "painted str x y k" "0 \<le> x" "x + 8 \<le> 200" "0 \<le> y" "y + 8 * int (length str) \<le> 320"
  shows "k < 64000"
proof -
  from assms(1) obtain m i j where k: "m < length str" "i < 8" "j < 8"
    "k = pixel (x + int i) (y + 8 * int m + int j)" by (auto simp: painted_def)
  from k(1) have "int m + 1 \<le> int (length str)" by linarith
  with k assms show ?thesis by (simp add: pixel_def)
qed

lemma pixel_inj:
  "0 \<le> r \<Longrightarrow> 0 \<le> c \<Longrightarrow> c < 320 \<Longrightarrow> 0 \<le> r' \<Longrightarrow> 0 \<le> c' \<Longrightarrow> c' < 320 \<Longrightarrow>
   pixel r c = pixel r' c' \<longleftrightarrow> r = r' \<and> c = c'"
proof -
  assume *: "0 \<le> r" "0 \<le> c" "c < 320" "0 \<le> r'" "0 \<le> c'" "c' < 320"
  then have "(320 * r + c) div 320 = r" "(320 * r' + c') div 320 = r'"
    by (simp_all add: div_add1_eq [of "320 * _"])
  then have "320 * r + c = 320 * r' + c' \<Longrightarrow> r = r'" by metis
  then have "320 * r + c = 320 * r' + c' \<longleftrightarrow> r = r' \<and> c = c'" by auto
  with * show ?thesis by (simp add: pixel_def eq_nat_nat_iff)
qed

text \<open>
  A text of ASCII characters that starts in the picture and fits between its column and the
  right edge is drawn without a failing assertion. Exactly the pixels of its glyphs get the colour, at
  the 8 x 8 cells that follow each other from the given corner, and all of them lie in the buffer.
\<close>

lemma draw_string_in_buffer:
  assumes "0 \<le> x" "x + 8 \<le> 200" "0 \<le> y" "y + 8 * int (length str) \<le> 320" "list_all ascii str"
  shows "\<exists>g'. draw_string str x y color g = Inr g' \<and> screen g' = screen g \<and>
    (\<forall>k. vbuf g' k = (if painted str x y k then word_of_int color else vbuf g k)) \<and>
    (\<forall>k. painted str x y k \<longrightarrow> k < 64000)"
  using draw_string_paints [OF assms(1,2,3,4,5), of color g] pixel_in_buffer [OF _ assms(1-4)]
  by (auto simp: paint_def fill_def)

theorem draw_string_in_buffer_witness:
  "\<exists>g'. draw_string ''FPS'' 192 296 14 \<lparr>vbuf = (\<lambda>_. 0), screen = (\<lambda>_. 0)\<rparr> = Inr g' \<and>
    (\<forall>k. painted ''FPS'' 192 296 k \<longrightarrow> k < 64000)"
  using draw_string_in_buffer [of 192 296 "''FPS''" 14 "\<lparr>vbuf = (\<lambda>_. 0), screen = (\<lambda>_. 0)\<rparr>"]
  by (auto simp: ascii_def)

end
