(* ===== verification/Game.thy ===== *)
theory Game
  imports GameVideo "HOL-Library.Signed_Division"
begin

text \<open>
  The typing game, the guest program of \<open>game/src/typing\<close>: letters fall down the screen, a key press
  sends the lowest matching letter back up (\<open>effect.c\<close>), the main loop catches up with the timer
  (\<open>game.c\<close>), the keyboard (\<open>keyboard.c\<close>) and the picture (\<open>draw.c\<close>). \<open>x\<close> and \<open>v\<close> of a letter are
  exact rationals: all values that occur are multiples of 1/2 below 512, which single precision
  represents exactly. \<open>rand\<close> is an argument, the sequence of values the library returns. The counters
  are 32-bit words read as signed numbers; they wrap around like the \<open>add\<close> of the compiled code (in C the
  overflow of an \<open>int\<close> is undefined). Only \<open>tick\<close> ever gets that far.
\<close>

section \<open>State\<close>

text \<open>\<open>struct fly_t\<close> of \<open>include/game.h\<close> without its links.\<close>

record letter =
  lx :: rat
  ly :: int
  ltext :: int
  lv :: rat

definition HZ :: int where "HZ = 100"
definition FPS :: int where "FPS = 30"
definition CHARACTER_PER_SECOND :: int where "CHARACTER_PER_SECOND = 3"
definition UPDATE_PER_SECOND :: int where "UPDATE_PER_SECOND = 100"

type_synonym i32 = "32 word"

record game = video +
  fly_pool :: "letter node_pool"
  head :: "nat option"
  hit :: i32
  miss :: i32
  letter_pressed :: "bool list"
  key_code :: int
  tick :: i32
  real_fps :: i32
  intr_on :: bool
  rand_calls :: nat

definition fly_size :: nat where "fly_size = 1000"

definition init_game :: game where
  "init_game = \<lparr>vbuf = (\<lambda>_. 0), screen = (\<lambda>_. 0),
     fly_pool = init_pool \<lparr>lx = 0, ly = 0, ltext = 0, lv = 0\<rparr>, head = None, hit = 0, miss = 0,
     letter_pressed = replicate 26 False, key_code = 0, tick = 0, real_fps = 0, intr_on = True,
     rand_calls = 0\<rparr>"

definition next_rand :: "(nat \<Rightarrow> int) \<Rightarrow> game \<Rightarrow> int \<times> game" where
  "next_rand rand g = (rand (rand_calls g), g\<lparr>rand_calls := Suc (rand_calls g)\<rparr>)"

definition the_letter :: "nat \<Rightarrow> game \<Rightarrow> letter" where
  "the_letter i g = payload (nodes (fly_pool g) i)"

definition set_letter :: "nat \<Rightarrow> (letter \<Rightarrow> letter) \<Rightarrow> game \<Rightarrow> game" where
  "set_letter i f g = g\<lparr>fly_pool := set_payload i f (fly_pool g)\<rparr>"

section \<open>\<open>keyboard.c\<close>\<close>

definition letter_code :: "int list" where
  "letter_code =
    [30, 48, 46, 32, 18, 33, 34, 35, 23, 36,
     37, 38, 50, 49, 24, 25, 16, 19, 31, 20,
     22, 47, 17, 45, 21, 44]"

definition press_key :: "int \<Rightarrow> game \<Rightarrow> game" where
  "press_key scan_code g =
     g\<lparr>letter_pressed := map (\<lambda>i. if letter_code ! i = scan_code then True else letter_pressed g ! i) [0..<26]\<rparr>"

definition release_key :: "int \<Rightarrow> game \<Rightarrow> game res" where
  "release_key index g =
     assertE ''release_key'' (0 \<le> index \<and> index < 26)
       (Inr (g\<lparr>letter_pressed := (letter_pressed g)[nat index := False]\<rparr>))"

definition query_key :: "int \<Rightarrow> game \<Rightarrow> bool res" where
  "query_key index g =
     assertE ''query_key'' (0 \<le> index \<and> index < 26) (Inr (letter_pressed g ! nat index))"

text \<open>\<open>in_byte(0x60)\<close> returns the scan code of the event.\<close>

definition keyboard_event :: "u8 \<Rightarrow> game \<Rightarrow> game" where
  "keyboard_event code g = press_key (uint code) (g\<lparr>key_code := uint code\<rparr>)"

section \<open>\<open>effect.c\<close>\<close>

definition create_new_letter :: "(nat \<Rightarrow> int) \<Rightarrow> game \<Rightarrow> game res" where
  "create_new_letter rand g =
     bindE (case head g of
         None \<Rightarrow> bindE (list_new fly_size (fly_pool g)) (\<lambda>(i, p).
           Inr (i, g\<lparr>fly_pool := p, head := Some i\<rparr>))
       | Some h \<Rightarrow> bindE (list_new fly_size (fly_pool g)) (\<lambda>(new, p).
           bindE (list_insert None (Some h) new p) (\<lambda>p. Inr (new, g\<lparr>fly_pool := p, head := Some new\<rparr>))))
       (\<lambda>(h, g).
         let (r1, g) = next_rand rand g; (r2, g) = next_rand rand g; (r3, g) = next_rand rand g;
             g = set_letter h (\<lambda>l. l\<lparr>lx := 0, ly := r1 smod (SCR_WIDTH sdiv 8 - 2) * 8 + 8,
                   lv := of_int ((r2 smod 1000) sdiv 2000) + 1/2, ltext := r3 smod 26\<rparr>) g
         in release_key (ltext (the_letter h g)) g)"

definition off_screen :: "letter \<Rightarrow> bool" where
  "off_screen l \<longleftrightarrow> lx l < 0 \<or> lx l + 79/10 > of_int SCR_HEIGHT"

definition score :: "letter \<Rightarrow> game \<Rightarrow> game" where
  "score l g = (if lx l < 0 then g\<lparr>hit := hit g + 1\<rparr> else g\<lparr>miss := miss g + 1\<rparr>)"

fun update_letters :: "nat \<Rightarrow> nat option \<Rightarrow> game \<Rightarrow> game res" where
  "update_letters fuel None g = Inr g"
| "update_letters 0 (Some it) g = Inl Out_of_fuel"
| "update_letters (Suc fuel) (Some it) g =
     (let nxt = next_link (nodes (fly_pool g) it);
          g = set_letter it (\<lambda>l. l\<lparr>lx := lx l + lv l\<rparr>) g;
          g = (if off_screen (the_letter it g) then
                 (let g = score (the_letter it g) g;
                      g = g\<lparr>fly_pool := list_free it (list_remove it (fly_pool g))\<rparr>
                  in if head g = Some it then g\<lparr>head := nxt\<rparr> else g)
               else g)
      in update_letters fuel nxt g)"

definition update_letter_pos :: "game \<Rightarrow> game res" where
  "update_letter_pos g = update_letters (Suc fly_size) (head g) g"

text \<open>The loop of \<open>update_keypress\<close>: the pressed, falling letter with the largest \<open>x\<close>.\<close>

fun find_target :: "nat \<Rightarrow> nat option \<Rightarrow> rat \<Rightarrow> nat option \<Rightarrow> game \<Rightarrow> nat option res" where
  "find_target fuel None best target g = Inr target"
| "find_target 0 (Some it) best target g = Inl Out_of_fuel"
| "find_target (Suc fuel) (Some it) best target g =
     (let l = the_letter it g; nxt = next_link (nodes (fly_pool g) it)
      in assertE ''update_keypress'' (0 \<le> ltext l \<and> ltext l < 26)
        (if lv l > 0 \<and> lx l > best then
           bindE (query_key (ltext l) g) (\<lambda>pressed.
             if pressed then find_target fuel nxt (lx l) (Some it) g
             else find_target fuel nxt best target g)
         else find_target fuel nxt best target g))"

definition update_keypress :: "game \<Rightarrow> (bool \<times> game) res" where
  "update_keypress g =
     (let g = g\<lparr>intr_on := False\<rparr>
      in bindE (find_target (Suc fly_size) (head g) (- 100) None g) (\<lambda>target.
        case target of
          Some it \<Rightarrow> bindE (release_key (ltext (the_letter it g)) g) (\<lambda>g.
            Inr (True, set_letter it (\<lambda>l. l\<lparr>lv := - 3\<rparr>) g))
        | None \<Rightarrow> Inr (False, g\<lparr>intr_on := True\<rparr>)))"

text \<open>\<open>while (update_keypress());\<close> with fuel.\<close>

fun key_loop :: "nat \<Rightarrow> game \<Rightarrow> game res" where
  "key_loop fuel g = bindE (update_keypress g) (\<lambda>(again, g).
     if again then (case fuel of 0 \<Rightarrow> Inl Out_of_fuel | Suc fuel' \<Rightarrow> key_loop fuel' g) else Inr g)"

declare key_loop.simps [simp del]

section \<open>\<open>draw.c\<close>\<close>

fun dec_digits :: "nat \<Rightarrow> string" where
  "dec_digits n = (if n < 10 then [char_of (48 + n)] else dec_digits (n div 10) @ [char_of (48 + n mod 10)])"

declare dec_digits.simps [simp del]

text \<open>\<open>snprintf(buf, 30, "%d", a)\<close>.\<close>

definition itoa :: "int \<Rightarrow> string" where
  "itoa a = take 29 (if a < 0 then CHR ''-'' # dec_digits (nat (- a)) else dec_digits (nat a))"

text \<open>The conversion of a \<open>float\<close> to \<open>int\<close>, toward zero.\<close>

definition to_int :: "rat \<Rightarrow> int" where
  "to_int r = (if r < 0 then \<lceil>r\<rceil> else \<lfloor>r\<rfloor>)"

fun draw_letters :: "nat \<Rightarrow> nat option \<Rightarrow> game \<Rightarrow> game res" where
  "draw_letters fuel None g = Inr g"
| "draw_letters 0 (Some it) g = Inl Out_of_fuel"
| "draw_letters (Suc fuel) (Some it) g =
     (let l = the_letter it g
      in bindE (draw_string [char_of (ltext l + 65)] (to_int (lx l)) (ly l) 15 g)
           (draw_letters fuel (next_link (nodes (fly_pool g) it))))"

definition redraw_screen :: "game \<Rightarrow> game res" where
  "redraw_screen g =
     (let g = prepare_buffer g
      in bindE (draw_letters (Suc fly_size) (head g) g) (\<lambda>g.
         bindE (draw_string (itoa (key_code g)) (SCR_HEIGHT - 8) 0 48 g) (\<lambda>g.
         let h = itoa (sint (hit g))
         in bindE (draw_string h 0 (SCR_WIDTH - int (length h) * 8) 10 g) (\<lambda>g.
         let m = itoa (sint (miss g))
         in bindE (draw_string m (SCR_HEIGHT - 8) (SCR_WIDTH - int (length m) * 8) 12 g) (\<lambda>g.
         bindE (draw_string (itoa (sint (real_fps g))) 0 0 14 g) (\<lambda>g.
         bindE (draw_string ''FPS'' 0 (int (length (itoa (sint (real_fps g)))) * 8) 14 g) (\<lambda>g.
           Inr (display_buffer g))))))))"

section \<open>\<open>game.c\<close>\<close>

definition timer_event :: "game \<Rightarrow> game" where
  "timer_event g = g\<lparr>tick := tick g + 1\<rparr>"

definition set_fps :: "i32 \<Rightarrow> game \<Rightarrow> game" where
  "set_fps fps g = g\<lparr>real_fps := fps\<rparr>"

text \<open>The locals of \<open>main_loop\<close> and the place where it is.\<close>

datatype phase = Waiting | Pressing | Catching | Drawing

record loop =
  pc :: phase
  now :: i32
  target :: i32
  num_draw :: i32
  redraw :: bool
  world :: game

definition init_loop :: loop where
  "init_loop = \<lparr>pc = Waiting, now = 0, target = 0, num_draw = 0, redraw = False, world = init_game\<rparr>"

text \<open>The body of \<open>while (now < target)\<close>.\<close>

definition logic_tick :: "(nat \<Rightarrow> int) \<Rightarrow> loop \<Rightarrow> loop res" where
  "logic_tick rand s =
     bindE (if sint (now s) smod (HZ sdiv CHARACTER_PER_SECOND) = 0 then create_new_letter rand (world s)
            else Inr (world s)) (\<lambda>g.
     bindE (if sint (now s) smod (HZ sdiv UPDATE_PER_SECOND) = 0 then update_letter_pos g else Inr g) (\<lambda>g.
     let s = s\<lparr>world := g\<rparr>;
         s = (if sint (now s) smod (HZ sdiv FPS) = 0 then s\<lparr>redraw := True\<rparr> else s);
         s = (if sint (now s) smod (HZ sdiv 2) = 0 then
                (let now_fps = num_draw s * 2 + 1
                 in s\<lparr>world := set_fps (if sint now_fps > FPS then word_of_int FPS else now_fps) (world s), num_draw := 0\<rparr>)
              else s)
     in Inr (s\<lparr>now := now s + 1\<rparr>)))"

definition main_step :: "(nat \<Rightarrow> int) \<Rightarrow> loop \<Rightarrow> loop res" where
  "main_step rand s = (case pc s of
     Waiting \<Rightarrow>
       if now s = tick (world s) then Inr (s\<lparr>world := (world s)\<lparr>intr_on := True\<rparr>\<rparr>)
       else assertE ''main_loop'' (sint (now s) < sint (tick (world s)))
         (Inr (s\<lparr>target := tick (world s), world := (world s)\<lparr>intr_on := True\<rparr>, redraw := False,
                 pc := Pressing\<rparr>))
   | Pressing \<Rightarrow> bindE (key_loop 26 (world s)) (\<lambda>g. Inr (s\<lparr>world := g, pc := Catching\<rparr>))
   | Catching \<Rightarrow> if sint (now s) < sint (target s) then logic_tick rand s else Inr (s\<lparr>pc := Drawing\<rparr>)
   | Drawing \<Rightarrow>
       if redraw s then
         bindE (redraw_screen (world s)) (\<lambda>g.
           Inr (s\<lparr>num_draw := num_draw s + 1, world := g, pc := Waiting\<rparr>))
       else Inr (s\<lparr>pc := Waiting\<rparr>))"

text \<open>
  The interrupts of timer and keyboard come between the steps of the main loop. Within a step they
  either are masked (\<open>update_keypress\<close>) or touch only what the step uses at one place, so that the
  interrupt can as well come before or after the step.
\<close>

inductive game_step :: "(nat \<Rightarrow> int) \<Rightarrow> loop \<Rightarrow> loop \<Rightarrow> bool" for rand where
  Main: "main_step rand s = Inr s' \<Longrightarrow> game_step rand s s'"
| Timer: "intr_on (world s) \<Longrightarrow> game_step rand s (s\<lparr>world := timer_event (world s)\<rparr>)"
| Key: "intr_on (world s) \<Longrightarrow> game_step rand s (s\<lparr>world := keyboard_event code (world s)\<rparr>)"

inductive reachable :: "(nat \<Rightarrow> int) \<Rightarrow> loop \<Rightarrow> bool" for rand where
  Start: "reachable rand init_loop"
| Step: "reachable rand s \<Longrightarrow> game_step rand s s' \<Longrightarrow> reachable rand s'"

text \<open>The same with the number of timer interrupts so far.\<close>

inductive after_ticks :: "(nat \<Rightarrow> int) \<Rightarrow> nat \<Rightarrow> loop \<Rightarrow> bool" for rand where
  Start_0: "after_ticks rand 0 init_loop"
| Main_n: "after_ticks rand n s \<Longrightarrow> main_step rand s = Inr s' \<Longrightarrow> after_ticks rand n s'"
| Timer_n: "after_ticks rand n s \<Longrightarrow> intr_on (world s) \<Longrightarrow>
    after_ticks rand (Suc n) (s\<lparr>world := timer_event (world s)\<rparr>)"
| Key_n: "after_ticks rand n s \<Longrightarrow> intr_on (world s) \<Longrightarrow>
    after_ticks rand n (s\<lparr>world := keyboard_event code (world s)\<rparr>)"

lemma after_ticks_reachable: "after_ticks rand n s \<Longrightarrow> reachable rand s"
  by (induction rule: after_ticks.induct) (auto intro: Start Step Main Timer Key)

inductive_cases game_stepE: "game_step rand s s'"

end
