(* ===== verification/GameCorrect.thy ===== *)
theory GameCorrect
  imports Game
begin

text \<open>
  Correctness of the typing game: its operations on the linked pool against operations on the list
  of letters, the invariant of the reachable states, the bound on the letters in flight (so that the
  assertion of the pool never fails), and that every letter is scored.
\<close>

section \<open>Small arithmetic\<close>

lemma sdiv_nonneg: "0 \<le> k \<Longrightarrow> 0 < l \<Longrightarrow> k sdiv l = k div l" for k l :: int
  by (cases k rule: int_cases2) (auto simp: signed_divide_int_def)

lemma smod_nonneg: "0 \<le> k \<Longrightarrow> 0 < l \<Longrightarrow> k smod l = k mod l" for k l :: int
  by (cases k rule: int_cases2) (auto simp: signed_modulo_int_def)

lemma smod_sdiv_small: "(r smod 1000) sdiv 2000 = 0" for r :: int
proof -
  have "\<bar>r smod 1000\<bar> < 1000"
    using smod_int_range [of 1000 r] by (simp add: abs_less_iff)
  then show ?thesis by (simp add: signed_divide_int_def)
qed

section \<open>The letters of a game\<close>

definition letters_at :: "game \<Rightarrow> nat list \<Rightarrow> letter list" where
  "letters_at g xs = map (\<lambda>i. the_letter i g) xs"

definition shows_at :: "game \<Rightarrow> nat list \<Rightarrow> letter list \<Rightarrow> bool" where
  "shows_at g xs ls \<longleftrightarrow> pool_items fly_size (fly_pool g) (head g) xs [] \<and> letters_at g xs = ls"

lemma letters_at_simps [simp]:
  "letters_at g [] = []" "letters_at g (i # xs) = the_letter i g # letters_at g xs"
  "letters_at g (xs @ ys) = letters_at g xs @ letters_at g ys"
  "length (letters_at g xs) = length xs"
  by (simp_all add: letters_at_def)

lemma letters_at_cong:
  "(\<And>i. i \<in> set xs \<Longrightarrow> the_letter i g' = the_letter i g) \<Longrightarrow> letters_at g' xs = letters_at g xs"
  by (simp add: letters_at_def)

definition on_screen_list :: "game \<Rightarrow> letter list \<Rightarrow> bool" where
  "on_screen_list g ls \<longleftrightarrow> (\<exists>xs. shows_at g xs ls)"

text \<open>One step of flight, and the effect of a step on the list.\<close>

definition fly_on :: "letter \<Rightarrow> letter" where
  "fly_on l = l\<lparr>lx := lx l + lv l\<rparr>"

definition flown :: "letter list \<Rightarrow> letter list" where
  "flown ls = filter (\<lambda>l. \<not> off_screen l) (map fly_on ls)"

definition hits :: "letter list \<Rightarrow> int" where
  "hits ls = int (length (filter (\<lambda>l. off_screen l \<and> lx l < 0) (map fly_on ls)))"

definition misses :: "letter list \<Rightarrow> int" where
  "misses ls = int (length (filter (\<lambda>l. off_screen l \<and> \<not> lx l < 0) (map fly_on ls)))"

lemma list_simps [simp]:
  "flown [] = []" "hits [] = 0" "misses [] = 0"
  "flown (l # ls) = (if off_screen (fly_on l) then flown ls else fly_on l # flown ls)"
  "hits (l # ls) = (if off_screen (fly_on l) \<and> lx (fly_on l) < 0 then 1 else 0) + hits ls"
  "misses (l # ls) = (if off_screen (fly_on l) \<and> \<not> lx (fly_on l) < 0 then 1 else 0) + misses ls"
  by (simp_all add: flown_def hits_def misses_def)

lemma the_letter_set [simp]:
  "the_letter j (set_letter i f g) = (if j = i then f (the_letter i g) else the_letter j g)"
  by (simp add: the_letter_def set_letter_def link_simps)

lemma set_letter_fields [simp]:
  "head (set_letter i f g) = head g" "hit (set_letter i f g) = hit g"
  "miss (set_letter i f g) = miss g"
  "fly_pool (set_letter i f g) = set_payload i f (fly_pool g)"
  by (simp_all add: set_letter_def)

lemma score_fields [simp]: "head (score l g) = head g" "fly_pool (score l g) = fly_pool g"
  by (simp_all add: score_def)

lemma letters_room: "pool_items sz p h xs own \<Longrightarrow> length xs + length own \<le> sz"
proof -
  assume "pool_items sz p h xs own"
  then have free: "pool_free sz p (xs @ own)" by (simp add: pool_items_def)
  show ?thesis
  proof (cases "free_nodes p")
    case None
    with free show ?thesis by (simp add: pool_free_def)
  next
    case (Some k)
    then have "free_nodes p \<noteq> None" by simp
    from pool_free_used_bound [OF free this] obtain fs
      where "fs \<noteq> []" "link_chain p (free_nodes p) fs" "distinct ((xs @ own) @ fs)"
        "set ((xs @ own) @ fs) = {0..sz}" "length (xs @ own) + length fs = Suc sz" .
    then show ?thesis by (cases fs) auto
  qed
qed

lemma letters_at_pool: "fly_pool g' = fly_pool g \<Longrightarrow> letters_at g' xs = letters_at g xs"
  by (simp add: letters_at_def the_letter_def)

section \<open>Moving the letters\<close>

lemma update_letters_step:
  assumes items: "pool_items fly_size (fly_pool g) (head g) (done @ it # rest) []"
  defines "g1 \<equiv> set_letter it fly_on g" and "l \<equiv> fly_on (the_letter it g)"
  defines "p \<equiv> list_free it (list_remove it (fly_pool g1))"
  shows "update_letters (Suc fuel) (Some it) g = update_letters fuel (first rest)
    (if off_screen l then (score l g1)\<lparr>fly_pool := p, head := first (done @ rest)\<rparr> else g1)"
    and "pool_items fly_size (fly_pool g1) (head g1) (done @ it # rest) []"
    and "pool_items fly_size p (first (done @ rest)) (done @ rest) []"
    and "payload (nodes p i) = the_letter i g1"
proof -
  have fl: "fly_on = (\<lambda>l. l\<lparr>lx := lx l + lv l\<rparr>)" by (simp add: fly_on_def fun_eq_iff)
  show g1: "pool_items fly_size (fly_pool g1) (head g1) (done @ it # rest) []"
    using items by (simp add: g1_def set_payload_items)
  from lp.drop_item [OF this]
  show p: "pool_items fly_size p (first (done @ rest)) (done @ rest) []"
    and "payload (nodes p i) = the_letter i g1"
    by (simp_all add: fun_eq_iff the_letter_def p_def)
  from lp.items_distinct [OF items] have "it \<notin> set done" by auto
  then have head: "(if head x = Some it then x\<lparr>head := first rest\<rparr> else x) = x\<lparr>head := first (done @ rest)\<rparr>"
    if "head x = head g" for x :: game
    using lp.items_head [OF items] that by (cases "done") auto
  have nxt: "next_link (nodes (fly_pool g) it) = first rest"
    by (rule lp.nxt_law [OF items])
  have head': "(if head g = Some it then y\<lparr>fly_pool := q, head := first rest\<rparr> else y\<lparr>fly_pool := q\<rparr>) =
    y\<lparr>fly_pool := q, head := first (done @ rest)\<rparr>" if "head y = head g" for y :: game and q
    using head [of "y\<lparr>fly_pool := q\<rparr>"] that by simp
  have sc: "head g1 = head g" by (simp add: g1_def)
  have "the_letter it g1 = l" by (simp add: g1_def l_def)
  with head nxt
  show "update_letters (Suc fuel) (Some it) g = update_letters fuel (first rest)
    (if off_screen l then (score l g1)\<lparr>fly_pool := p, head := first (done @ rest)\<rparr> else g1)"
    by (simp add: Let_def fl [symmetric] g1_def [symmetric] p_def head' sc)
qed

lemma update_letters_list:
  "pool_items fly_size (fly_pool g) (head g) (done @ rest) [] \<Longrightarrow> length rest \<le> fuel \<Longrightarrow>
   \<exists>kept p h. update_letters fuel (first rest) g = Inr (g\<lparr>fly_pool := p, head := h,
       hit := hit g + word_of_int (hits (letters_at g rest)), miss := miss g + word_of_int (misses (letters_at g rest))\<rparr>) \<and>
     pool_items fly_size p h (done @ kept) [] \<and>
     letters_at (g\<lparr>fly_pool := p\<rparr>) done = letters_at g done \<and>
     letters_at (g\<lparr>fly_pool := p\<rparr>) kept = flown (letters_at g rest)"
proof (induction rest arbitrary: "done" g fuel)
  case Nil
  then show ?case
    by (intro exI [of _ "[]"] exI [of _ "fly_pool g"] exI [of _ "head g"]) simp
next
  case (Cons it rest)
  then obtain fuel' where fuel: "fuel = Suc fuel'" "length rest \<le> fuel'" by (cases fuel) auto
  let ?g1 = "set_letter it fly_on g" and ?l = "fly_on (the_letter it g)"
  let ?p = "list_free it (list_remove it (fly_pool ?g1))"
  let ?g2 = "(score ?l ?g1)\<lparr>fly_pool := ?p, head := first (done @ rest)\<rparr>"
  note step = update_letters_step [OF Cons.prems(1)]
  from lp.items_distinct [OF Cons.prems(1)] have dist: "it \<notin> set done" "it \<notin> set rest" by auto
  show ?case
  proof (cases "off_screen ?l")
    case False
    have same: "letters_at ?g1 rest = letters_at g rest" "letters_at ?g1 done = letters_at g done"
      using dist by (auto intro: letters_at_cong)
    have eq: "g\<lparr>fly_pool := p, head := h, hit := a, miss := b\<rparr> = ?g1\<lparr>fly_pool := p, head := h, hit := a, miss := b\<rparr>"
      "g\<lparr>fly_pool := p\<rparr> = ?g1\<lparr>fly_pool := p\<rparr>" for p h a b
      by (simp_all add: set_letter_def)
    from Cons.IH [of ?g1 "done @ [it]" fuel'] step(2) fuel(2) obtain kept p h where IH:
      "update_letters fuel' (first rest) ?g1 = Inr (?g1\<lparr>fly_pool := p, head := h,
         hit := hit g + word_of_int (hits (letters_at g rest)), miss := miss g + word_of_int (misses (letters_at g rest))\<rparr>)"
      "pool_items fly_size p h (done @ it # kept) []"
      "letters_at (?g1\<lparr>fly_pool := p\<rparr>) done = letters_at g done"
      "the_letter it (?g1\<lparr>fly_pool := p\<rparr>) = ?l"
      "letters_at (?g1\<lparr>fly_pool := p\<rparr>) kept = flown (letters_at g rest)"
      by (auto simp: same)
    show ?thesis unfolding fuel eq
      by (rule exI [of _ "it # kept"], rule exI [of _ p], rule exI [of _ h])
        (use IH False step(1) in \<open>simp add: same\<close>)
  next
    case True
    have tl: "the_letter i ?g2 = the_letter i ?g1" for i
      using step(4) [of i] by (simp add: the_letter_def)
    have same: "letters_at ?g2 rest = letters_at g rest" "letters_at ?g2 done = letters_at g done"
      using dist tl by (auto intro!: letters_at_cong)
    have eq: "g\<lparr>fly_pool := p, head := h, hit := a, miss := b\<rparr> = ?g2\<lparr>fly_pool := p, head := h, hit := a, miss := b\<rparr>"
      "letters_at (g\<lparr>fly_pool := p\<rparr>) xs = letters_at (?g2\<lparr>fly_pool := p\<rparr>) xs" for p h a b xs
      by (simp_all add: set_letter_def score_def letters_at_def the_letter_def)
    have "pool_items fly_size (fly_pool ?g2) (head ?g2) (done @ rest) []"
      using step(3) by simp
    from Cons.IH [OF this fuel(2), unfolded same] obtain kept p h where IH:
      "update_letters fuel' (first rest) ?g2 = Inr (?g2\<lparr>fly_pool := p, head := h,
         hit := hit ?g2 + word_of_int (hits (letters_at g rest)), miss := miss ?g2 + word_of_int (misses (letters_at g rest))\<rparr>)"
      "pool_items fly_size p h (done @ kept) []"
      "letters_at (?g2\<lparr>fly_pool := p\<rparr>) done = letters_at g done"
      "letters_at (?g2\<lparr>fly_pool := p\<rparr>) kept = flown (letters_at g rest)"
      by blast
    have sc: "hit ?g2 = hit g + (if lx ?l < 0 then 1 else 0)"
      "miss ?g2 = miss g + (if lx ?l < 0 then 0 else 1)"
      by (simp_all add: score_def)
    show ?thesis unfolding fuel eq
      by (rule exI [of _ kept], rule exI [of _ p], rule exI [of _ h])
        (use IH True step(1) sc in \<open>simp add: add.assoc\<close>)
  qed
qed

theorem update_letter_pos_list:
  assumes "shows_at g xs ls"
  shows "\<exists>ys p h. update_letter_pos g = Inr (g\<lparr>fly_pool := p, head := h,
      hit := hit g + word_of_int (hits ls), miss := miss g + word_of_int (misses ls)\<rparr>) \<and>
    shows_at (g\<lparr>fly_pool := p, head := h\<rparr>) ys (flown ls)"
proof -
  from assms have items: "pool_items fly_size (fly_pool g) (head g) ([] @ xs) []"
    and ls: "letters_at g xs = ls" by (simp_all add: shows_at_def)
  from lp.items_head [OF items] letters_room [OF items]
  have "head g = first xs" "length xs \<le> Suc fly_size" by simp_all
  with update_letters_list [OF items this(2)] ls obtain kept p h where
    "update_letter_pos g = Inr (g\<lparr>fly_pool := p, head := h, hit := hit g + word_of_int (hits ls), miss := miss g + word_of_int (misses ls)\<rparr>)"
    "pool_items fly_size p h kept []" "letters_at (g\<lparr>fly_pool := p\<rparr>) kept = flown ls"
    by (auto simp: update_letter_pos_def)
  then show ?thesis
    by (intro exI [of _ kept] exI [of _ p] exI [of _ h])
      (simp add: shows_at_def letters_at_pool [of "g\<lparr>fly_pool := p, head := h\<rparr>" "g\<lparr>fly_pool := p\<rparr>"])
qed

section \<open>New letters\<close>

text \<open>The C library promises values from 0 to \<open>RAND_MAX\<close>.\<close>

definition rand_ok :: "(nat \<Rightarrow> int) \<Rightarrow> bool" where
  "rand_ok rand \<longleftrightarrow> (\<forall>n. 0 \<le> rand n)"

definition newborn :: "(nat \<Rightarrow> int) \<Rightarrow> nat \<Rightarrow> letter" where
  "newborn rand n = \<lparr>lx = 0, ly = rand n mod 38 * 8 + 8, ltext = rand (n + 2) mod 26, lv = 1/2\<rparr>"

lemma create_new_letter_list:
  assumes sh: "shows_at g xs ls" and room: "length ls < fly_size" and rand_ok: "rand_ok rand"
  defines "b \<equiv> newborn rand (rand_calls g)"
  shows "\<exists>i p. create_new_letter rand g = Inr (g\<lparr>fly_pool := p, head := Some i,
      rand_calls := rand_calls g + 3, letter_pressed := (letter_pressed g)[nat (ltext b) := False]\<rparr>) \<and>
    shows_at (g\<lparr>fly_pool := p, head := Some i\<rparr>) (i # xs) (b # ls)"
proof -
  have rand: "0 \<le> rand n" for n using rand_ok by (simp add: rand_ok_def)
  from sh have items: "pool_items fly_size (fly_pool g) (head g) xs []" and ls: "letters_at g xs = ls"
    by (simp_all add: shows_at_def)
  from room ls have "length xs < fly_size" by auto
  obtain i p where new: "list_new fly_size (fly_pool g) = Inr (i, p)" "i \<notin> set xs"
    and eq: "(\<lambda>i. payload (nodes p i)) = (\<lambda>i. payload (nodes (fly_pool g) i))"
    and none: "head g = None \<Longrightarrow> xs = [] \<and> pool_items fly_size p (Some i) [i] []"
    and some: "\<And>k. head g = Some k \<Longrightarrow> \<exists>q. list_insert None (Some k) i p = Inr q \<and>
      pool_items fly_size q (Some i) (i # xs) [] \<and>
      (\<lambda>i. payload (nodes q i)) = (\<lambda>i. payload (nodes (fly_pool g) i))"
    by (rule lp.push [OF items \<open>length xs < fly_size\<close>]) (rule that)
  have "\<exists>q. (case head g of
         None \<Rightarrow> bindE (list_new fly_size (fly_pool g)) (\<lambda>(i, p).
           Inr (i, g\<lparr>fly_pool := p, head := Some i\<rparr>))
       | Some h \<Rightarrow> bindE (list_new fly_size (fly_pool g)) (\<lambda>(new, p).
           bindE (list_insert None (Some h) new p) (\<lambda>p. Inr (new, g\<lparr>fly_pool := p, head := Some new\<rparr>))))
      = Inr (i, g\<lparr>fly_pool := q, head := Some i\<rparr>) \<and> pool_items fly_size q (Some i) (i # xs) [] \<and>
      (\<forall>j. payload (nodes q j) = the_letter j g)"
    using none some new(1) fun_cong [OF eq]
    by (cases "head g") (fastforce simp: the_letter_def dest: fun_cong)+
  then obtain q where q: "(case head g of
         None \<Rightarrow> bindE (list_new fly_size (fly_pool g)) (\<lambda>(i, p).
           Inr (i, g\<lparr>fly_pool := p, head := Some i\<rparr>))
       | Some h \<Rightarrow> bindE (list_new fly_size (fly_pool g)) (\<lambda>(new, p).
           bindE (list_insert None (Some h) new p) (\<lambda>p. Inr (new, g\<lparr>fly_pool := p, head := Some new\<rparr>))))
      = Inr (i, g\<lparr>fly_pool := q, head := Some i\<rparr>)"
    "pool_items fly_size q (Some i) (i # xs) []" "\<And>j. payload (nodes q j) = the_letter j g" by blast
  let ?p = "set_payload i (\<lambda>l. b) q"
  have bt: "0 \<le> ltext b" "ltext b < 26" by (simp_all add: b_def newborn_def)
  have tb: "rand (Suc (Suc (rand_calls g))) smod 26 = ltext b"
    using rand by (simp add: b_def newborn_def smod_nonneg)
  have full: "l\<lparr>lx := 0, ly := rand n smod (SCR_WIDTH sdiv 8 - 2) * 8 + 8,
      lv := of_int ((k smod 1000) sdiv 2000) + 1/2, ltext := rand (Suc (Suc n)) smod 26\<rparr> = newborn rand n"
    for l :: letter and n k
    using rand by (simp add: newborn_def smod_sdiv_small smod_nonneg sdiv_nonneg SCR_WIDTH_def)
  have "create_new_letter rand g = Inr (g\<lparr>fly_pool := ?p, head := Some i,
      rand_calls := rand_calls g + 3, letter_pressed := (letter_pressed g)[nat (ltext b) := False]\<rparr>)"
    unfolding create_new_letter_def q(1)
    using bt by (simp add: Let_def next_rand_def full b_def [symmetric] release_key_def
      set_letter_def the_letter_def link_simps numeral_3_eq_3 tb)
  moreover have "shows_at (g\<lparr>fly_pool := ?p, head := Some i\<rparr>) (i # xs) (b # ls)"
  proof -
    have "letters_at (g\<lparr>fly_pool := ?p, head := Some i\<rparr>) xs = letters_at g xs"
      using new(2) q(3) by (auto intro!: letters_at_cong simp: the_letter_def link_simps)
    with q(2) ls show ?thesis
      by (simp add: shows_at_def set_payload_items the_letter_def link_simps)
  qed
  ultimately show ?thesis by blast
qed

section \<open>Key presses\<close>

definition wanted :: "bool list \<Rightarrow> letter \<Rightarrow> bool" where
  "wanted ps l \<longleftrightarrow> 0 < lv l \<and> ps ! nat (ltext l)"

lemma find_target_list:
  "pool_items fly_size (fly_pool g) (head g) (done @ rest) [] \<Longrightarrow> length rest \<le> fuel \<Longrightarrow>
   \<forall>i \<in> set rest. 0 \<le> ltext (the_letter i g) \<and> ltext (the_letter i g) < 26 \<Longrightarrow>
   \<exists>t. find_target fuel (first rest) best tgt g = Inr t \<and>
     (t = tgt \<and> (\<forall>i \<in> set rest. wanted (letter_pressed g) (the_letter i g) \<longrightarrow> lx (the_letter i g) \<le> best) \<or>
      (\<exists>i \<in> set rest. t = Some i \<and> wanted (letter_pressed g) (the_letter i g) \<and> best < lx (the_letter i g) \<and>
        (\<forall>j \<in> set rest. wanted (letter_pressed g) (the_letter j g) \<longrightarrow>
           lx (the_letter j g) \<le> lx (the_letter i g))))"
proof (induction rest arbitrary: "done" best tgt fuel)
  case Nil
  then show ?case by simp
next
  case (Cons it rest)
  then obtain fuel' where fuel: "fuel = Suc fuel'" "length rest \<le> fuel'" by (cases fuel) auto
  let ?l = "the_letter it g"
  have nxt: "next_link (nodes (fly_pool g) it) = first rest"
    by (rule lp.nxt_law [OF Cons.prems(1)])
  have items: "pool_items fly_size (fly_pool g) (head g) ((done @ [it]) @ rest) []"
    using Cons.prems(1) by simp
  note IH = Cons.IH [OF items fuel(2)]
  show ?case
  proof (cases "wanted (letter_pressed g) ?l \<and> best < lx ?l")
    case True
    with Cons.prems(3) nxt fuel
    have step: "find_target fuel (first (it # rest)) best tgt g = find_target fuel' (first rest) (lx ?l) (Some it) g"
      by (simp add: wanted_def query_key_def Let_def)
    from IH [of "lx ?l" "Some it"] Cons.prems(3) obtain t where
      t: "find_target fuel' (first rest) (lx ?l) (Some it) g = Inr t" and
      "t = Some it \<and> (\<forall>i \<in> set rest. wanted (letter_pressed g) (the_letter i g) \<longrightarrow> lx (the_letter i g) \<le> lx ?l) \<or>
       (\<exists>i \<in> set rest. t = Some i \<and> wanted (letter_pressed g) (the_letter i g) \<and> lx ?l < lx (the_letter i g) \<and>
        (\<forall>j \<in> set rest. wanted (letter_pressed g) (the_letter j g) \<longrightarrow>
           lx (the_letter j g) \<le> lx (the_letter i g)))" by auto
    with True show ?thesis unfolding step by (auto 4 4 intro: less_imp_le)
  next
    case False
    with Cons.prems(3) nxt fuel
    have step: "find_target fuel (first (it # rest)) best tgt g = find_target fuel' (first rest) best tgt g"
      by (auto simp: wanted_def query_key_def Let_def)
    from IH [of best tgt] Cons.prems(3) obtain t where
      t: "find_target fuel' (first rest) best tgt g = Inr t" and
      "t = tgt \<and> (\<forall>i \<in> set rest. wanted (letter_pressed g) (the_letter i g) \<longrightarrow> lx (the_letter i g) \<le> best) \<or>
       (\<exists>i \<in> set rest. t = Some i \<and> wanted (letter_pressed g) (the_letter i g) \<and> best < lx (the_letter i g) \<and>
        (\<forall>j \<in> set rest. wanted (letter_pressed g) (the_letter j g) \<longrightarrow>
           lx (the_letter j g) \<le> lx (the_letter i g)))" by auto
    with False show ?thesis unfolding step by (auto 4 4 simp: not_less)
  qed
qed

definition strike :: "letter \<Rightarrow> letter" where
  "strike l = l\<lparr>lv := - 3\<rparr>"

text \<open>A letter as the game keeps it: \<open>hp\<close> is its height in half pixels.\<close>

definition hp :: "letter \<Rightarrow> int" where
  "hp l = \<lfloor>2 * lx l\<rfloor>"

definition letter_ok :: "letter \<Rightarrow> bool" where
  "letter_ok l \<longleftrightarrow> lx l = of_int (hp l) / 2 \<and> 0 \<le> hp l \<and> hp l \<le> 384 \<and> 0 \<le> ltext l \<and> ltext l < 26 \<and>
     8 \<le> ly l \<and> ly l \<le> 304 \<and> (lv l = 1/2 \<or> lv l = - 3)"

lemma update_keypress_list:
  assumes sh: "shows_at g xs ls" and ok: "list_all letter_ok ls"
  shows "(\<forall>l \<in> set ls. \<not> wanted (letter_pressed g) l) \<and>
      update_keypress g = Inr (False, g\<lparr>intr_on := True\<rparr>) \<or>
    (\<exists>k < length ls. \<exists>p. wanted (letter_pressed g) (ls ! k) \<and>
      (\<forall>l \<in> set ls. wanted (letter_pressed g) l \<longrightarrow> lx l \<le> lx (ls ! k)) \<and>
      update_keypress g = Inr (True, g\<lparr>fly_pool := p, intr_on := False,
        letter_pressed := (letter_pressed g)[nat (ltext (ls ! k)) := False]\<rparr>) \<and>
      shows_at (g\<lparr>fly_pool := p\<rparr>) xs (ls[k := strike (ls ! k)]))"
proof -
  from sh have items: "pool_items fly_size (fly_pool g) (head g) ([] @ xs) []" and
    ls: "ls = map (\<lambda>i. the_letter i g) xs"
    by (simp_all add: shows_at_def letters_at_def)
  let ?g = "g\<lparr>intr_on := False\<rparr>"
  have same: "the_letter i ?g = the_letter i g" for i by (simp add: the_letter_def)
  have fuel: "length xs \<le> Suc fly_size" using letters_room [OF items] by simp
  have hd: "head g = first xs" using lp.items_head [OF items] by simp
  have texts: "\<forall>i \<in> set xs. 0 \<le> ltext (the_letter i ?g) \<and> ltext (the_letter i ?g) < 26"
    using ok by (auto simp: ls list_all_iff letter_ok_def same)
  have pos: "- 100 < lx (the_letter i g)" if "i \<in> set xs" for i
  proof -
    from ok that have "letter_ok (the_letter i g)" by (auto simp: ls list_all_iff)
    then have "0 \<le> lx (the_letter i g)" by (auto simp: letter_ok_def)
    then show ?thesis by simp
  qed
  from find_target_list [of ?g "[]" xs "Suc fly_size" "- 100" None] items fuel texts
  obtain t where t: "find_target (Suc fly_size) (head g) (- 100) None ?g = Inr t"
    "t = None \<and> (\<forall>i \<in> set xs. wanted (letter_pressed g) (the_letter i g) \<longrightarrow> lx (the_letter i g) \<le> - 100) \<or>
      (\<exists>i \<in> set xs. t = Some i \<and> wanted (letter_pressed g) (the_letter i g) \<and>
        (\<forall>j \<in> set xs. wanted (letter_pressed g) (the_letter j g) \<longrightarrow>
           lx (the_letter j g) \<le> lx (the_letter i g)))"
    by (auto simp: same hd)
  from t(2) show ?thesis
  proof
    assume none: "t = None \<and> (\<forall>i \<in> set xs. wanted (letter_pressed g) (the_letter i g) \<longrightarrow> lx (the_letter i g) \<le> - 100)"
    with pos have "\<forall>i \<in> set xs. \<not> wanted (letter_pressed g) (the_letter i g)" by fastforce
    with none t(1) show ?thesis by (auto simp: update_keypress_def ls)
  next
    assume "\<exists>i \<in> set xs. t = Some i \<and> wanted (letter_pressed g) (the_letter i g) \<and>
        (\<forall>j \<in> set xs. wanted (letter_pressed g) (the_letter j g) \<longrightarrow>
           lx (the_letter j g) \<le> lx (the_letter i g))"
    then obtain k where k: "k < length xs" "t = Some (xs ! k)"
      "wanted (letter_pressed g) (the_letter (xs ! k) g)"
      "\<forall>j \<in> set xs. wanted (letter_pressed g) (the_letter j g) \<longrightarrow>
         lx (the_letter j g) \<le> lx (the_letter (xs ! k) g)"
      by (auto simp: in_set_conv_nth)
    let ?i = "xs ! k" let ?p = "set_payload ?i strike (fly_pool g)"
    have lsk: "ls ! k = the_letter ?i g" using k(1) by (simp add: ls)
    have "update_keypress g = Inr (True, g\<lparr>fly_pool := ?p, intr_on := False,
        letter_pressed := (letter_pressed g)[nat (ltext (ls ! k)) := False]\<rparr>)"
      using t(1) k(1,2) texts
      by (simp add: update_keypress_def same release_key_def set_letter_def lsk strike_def [abs_def])
    moreover have "shows_at (g\<lparr>fly_pool := ?p\<rparr>) xs (ls[k := strike (ls ! k)])"
    proof -
      from lp.items_distinct [OF items] have "distinct xs" by simp
      then have "letters_at (g\<lparr>fly_pool := ?p\<rparr>) xs = ls[k := strike (ls ! k)]"
        using k(1) by (auto intro!: nth_equalityI
          simp: letters_at_def ls the_letter_def link_simps nth_list_update nth_eq_iff_index_eq)
      with items show ?thesis by (simp add: shows_at_def set_payload_items)
    qed
    ultimately show ?thesis using k lsk by (intro disjI2 exI [of _ k]) (auto simp: ls)
  qed
qed

lemma strike_simps [simp]:
  "lx (strike l) = lx l" "ly (strike l) = ly l" "ltext (strike l) = ltext l" "lv (strike l) = - 3"
  "hp (strike l) = hp l"
  by (simp_all add: strike_def hp_def)

lemma strike_ok: "letter_ok l \<Longrightarrow> letter_ok (strike l)"
  by (simp add: letter_ok_def)

lemma length_filter_update:
  "i < length ps \<Longrightarrow> ps ! i \<Longrightarrow> Suc (length (filter (\<lambda>b. b) (ps[i := False]))) = length (filter (\<lambda>b. b) ps)"
proof (induction ps arbitrary: i)
  case (Cons p ps)
  then show ?case by (cases i) auto
qed simp

text \<open>Every pressed key strikes at most one letter, and afterwards no falling letter is pressed.\<close>

definition struck :: "letter list \<Rightarrow> letter list \<Rightarrow> bool" where
  "struck = list_all2 (\<lambda>l l'. l' = l \<or> 0 < lv l \<and> l' = strike l)"

lemma struck_refl: "struck ls ls"
  by (simp add: struck_def list_all2_refl)

lemma struck_step: "k < length ls \<Longrightarrow> 0 < lv (ls ! k) \<Longrightarrow> struck (ls[k := strike (ls ! k)]) ms \<Longrightarrow> struck ls ms"
  by (auto simp: struck_def list_all2_conv_all_nth nth_list_update split: if_splits)

lemma key_loop_stop:
  assumes "update_keypress g = Inr (False, g\<lparr>intr_on := True\<rparr>)" and "shows_at g xs ls"
    and "length (letter_pressed g) = 26" and "\<forall>l \<in> set ls. \<not> wanted (letter_pressed g) l"
  shows "\<exists>p ps ms. key_loop fuel g = Inr (g\<lparr>fly_pool := p, intr_on := True, letter_pressed := ps\<rparr>) \<and>
     shows_at (g\<lparr>fly_pool := p\<rparr>) xs ms \<and> struck ls ms \<and> length ps = 26 \<and>
     (\<forall>l \<in> set ms. \<not> wanted ps l)"
proof -
  have "key_loop fuel g = Inr (g\<lparr>fly_pool := fly_pool g, intr_on := True, letter_pressed := letter_pressed g\<rparr>)"
    by (simp add: key_loop.simps assms(1))
  moreover have "g\<lparr>fly_pool := fly_pool g\<rparr> = g" by simp
  ultimately show ?thesis using assms(2-4) struck_refl by metis
qed

lemma key_loop_list:
  "shows_at g xs ls \<Longrightarrow> list_all letter_ok ls \<Longrightarrow> length (letter_pressed g) = 26 \<Longrightarrow>
   length (filter (\<lambda>b. b) (letter_pressed g)) \<le> fuel \<Longrightarrow>
   \<exists>p ps ms. key_loop fuel g = Inr (g\<lparr>fly_pool := p, intr_on := True, letter_pressed := ps\<rparr>) \<and>
     shows_at (g\<lparr>fly_pool := p\<rparr>) xs ms \<and> struck ls ms \<and> length ps = 26 \<and>
     (\<forall>l \<in> set ms. \<not> wanted ps l)"
proof (induction fuel arbitrary: g ls)
  case 0
  then have none: "\<forall>b \<in> set (letter_pressed g). \<not> b" by (simp add: filter_empty_conv)
  have "\<not> wanted (letter_pressed g) l" if "l \<in> set ls" for l
  proof -
    from that 0(2) have "letter_ok l" by (simp add: list_all_iff)
    then have "nat (ltext l) < length (letter_pressed g)" using 0(3) by (auto simp: letter_ok_def)
    with none show ?thesis unfolding wanted_def by (meson nth_mem)
  qed
  with update_keypress_list [OF 0(1,2)] have "update_keypress g = Inr (False, g\<lparr>intr_on := True\<rparr>)"
    "\<forall>l \<in> set ls. \<not> wanted (letter_pressed g) l" by auto
  from key_loop_stop [OF this(1) 0(1,3) this(2)] show ?case .
next
  case (Suc fuel)
  show ?case using update_keypress_list [OF Suc.prems(1,2)]
  proof (elim disjE exE conjE)
    assume "\<forall>l \<in> set ls. \<not> wanted (letter_pressed g) l" "update_keypress g = Inr (False, g\<lparr>intr_on := True\<rparr>)"
    from key_loop_stop [OF this(2) Suc.prems(1,3) this(1)] show ?case .
  next
    fix k p
    let ?i = "nat (ltext (ls ! k))" and ?ls = "ls[k := strike (ls ! k)]"
    let ?g = "g\<lparr>fly_pool := p, intr_on := False, letter_pressed := (letter_pressed g)[?i := False]\<rparr>"
    assume k: "k < length ls" "wanted (letter_pressed g) (ls ! k)"
      and step: "update_keypress g = Inr (True, ?g)" and sh: "shows_at (g\<lparr>fly_pool := p\<rparr>) xs ?ls"
    from k(1) Suc.prems(2) have okk: "letter_ok (ls ! k)" by (simp add: list_all_length)
    then have "?i < 26" by (auto simp: letter_ok_def)
    then have "length (filter (\<lambda>b. b) (letter_pressed ?g)) \<le> fuel"
      using length_filter_update [of ?i "letter_pressed g"] Suc.prems(3,4) k(2)
      by (simp add: wanted_def)
    moreover have "list_all letter_ok ?ls"
      using Suc.prems(2) strike_ok [OF okk] k(1) by (auto simp: list_all_length nth_list_update)
    moreover have "shows_at ?g xs ?ls"
      using sh letters_at_pool [of ?g "g\<lparr>fly_pool := p\<rparr>"] by (simp add: shows_at_def)
    ultimately obtain q ps ms where IH:
      "key_loop fuel ?g = Inr (?g\<lparr>fly_pool := q, intr_on := True, letter_pressed := ps\<rparr>)"
      "shows_at (?g\<lparr>fly_pool := q\<rparr>) xs ms" "struck ?ls ms" "length ps = 26" "\<forall>l \<in> set ms. \<not> wanted ps l"
      using Suc.IH [of ?g ?ls] Suc.prems(3) by auto
    have "struck ls ms" using struck_step [OF k(1) _ IH(3)] k(2) by (simp add: wanted_def)
    moreover have "shows_at (g\<lparr>fly_pool := q\<rparr>) xs ms"
      using IH(2) letters_at_pool [of "?g\<lparr>fly_pool := q\<rparr>" "g\<lparr>fly_pool := q\<rparr>"] by (simp add: shows_at_def)
    ultimately show ?case using IH(1,4,5) step
      by (intro exI [of _ q] exI [of _ ps] exI [of _ ms])
        (simp add: key_loop.simps [of "Suc fuel"])
  qed
qed

section \<open>Flight\<close>

lemma off_screen_hp: "lx l = of_int k / 2 \<Longrightarrow> off_screen l \<longleftrightarrow> k < 0 \<or> 384 < k"
proof -
  assume l: "lx l = of_int k / 2"
  have "off_screen l \<longleftrightarrow> of_int k < (0 :: rat) \<or> of_int 1921 < (of_int (5 * k) :: rat)"
    by (auto simp: off_screen_def l SCR_HEIGHT_def)
  also have "\<dots> \<longleftrightarrow> k < 0 \<or> 1921 < 5 * k" by (simp only: of_int_less_iff of_int_less_0_iff)
  finally show ?thesis by auto
qed

lemma fly_on_simps [simp]:
  "ly (fly_on l) = ly l" "ltext (fly_on l) = ltext l" "lv (fly_on l) = lv l" "lx (fly_on l) = lx l + lv l"
  by (simp_all add: fly_on_def)

lemma fly_on_hp:
  assumes "letter_ok l"
  shows "hp (fly_on l) = (if 0 < lv l then hp l + 1 else hp l - 6)"
    and "lx (fly_on l) = of_int (hp (fly_on l)) / 2"
proof -
  from assms have l: "lx l = of_int (hp l) / 2" "lv l = 1/2 \<or> lv l = - 3"
    by (simp_all add: letter_ok_def)
  have "2 * lx (fly_on l) = of_int (if 0 < lv l then hp l + 1 else hp l - 6)"
    using l by auto
  then show "hp (fly_on l) = (if 0 < lv l then hp l + 1 else hp l - 6)"
    unfolding hp_def [of "fly_on l"] by (simp only: floor_of_int)
  with \<open>2 * lx (fly_on l) = _\<close> show "lx (fly_on l) = of_int (hp (fly_on l)) / 2" by simp
qed

text \<open>The updates a letter survives at most, if it is struck as late as possible.\<close>

definition life :: "letter \<Rightarrow> int" where
  "life l = (if 0 < lv l then 450 - hp l else hp l div 6 + 1)"

lemma fly_on_ok:
  assumes "letter_ok l" and "\<not> off_screen (fly_on l)"
  shows "letter_ok (fly_on l)" and "life (fly_on l) = life l - 1"
proof -
  from fly_on_hp(2) [OF assms(1)] assms(2) have "0 \<le> hp (fly_on l)" "hp (fly_on l) \<le> 384"
    by (simp_all add: off_screen_hp)
  with assms(1) fly_on_hp [OF assms(1)] show "letter_ok (fly_on l)"
    by (simp add: letter_ok_def)
  have "(hp l - 6) div 6 = hp l div 6 - 1" by simp
  with fly_on_hp(1) [OF assms(1)] show "life (fly_on l) = life l - 1"
    by (simp add: life_def)
qed

lemma life_pos: "letter_ok l \<Longrightarrow> 1 \<le> life l"
  by (auto simp: life_def letter_ok_def)

lemma life_strike: "letter_ok l \<Longrightarrow> life (strike l) \<le> life l"
  unfolding life_def letter_ok_def by auto

text \<open>Letters are created 33 ticks apart: the \<open>i\<close>-th from the front is older by 33 \<open>i\<close>.\<close>

fun spaced :: "int \<Rightarrow> letter list \<Rightarrow> bool" where
  "spaced e [] \<longleftrightarrow> True"
| "spaced e (l # ls) \<longleftrightarrow> life l + e \<le> 450 \<and> spaced (e + 33) ls"

lemma spaced_mono: "spaced e ls \<Longrightarrow> e' \<le> e \<Longrightarrow> spaced e' ls"
  by (induction ls arbitrary: e e') force+

lemma spaced_flown:
  "spaced e ls \<Longrightarrow> list_all letter_ok ls \<Longrightarrow> spaced (e + 1) (flown ls) \<and> list_all letter_ok (flown ls)"
proof (induction ls arbitrary: e)
  case (Cons l ls)
  have eq: "e + 1 + 33 = e + 33 + 1" by simp
  have IH: "spaced (e + 33 + 1) (flown ls)" "list_all letter_ok (flown ls)"
    using Cons.IH [of "e + 33"] Cons.prems by simp_all
  with Cons.prems fly_on_ok [of l] spaced_mono [OF IH(1), of "e + 1"] show ?case
    by (auto simp: eq)
qed simp

lemma spaced_struck:
  "struck ls ms \<Longrightarrow> spaced e ls \<Longrightarrow> list_all letter_ok ls \<Longrightarrow> spaced e ms \<and> list_all letter_ok ms"
  unfolding struck_def
proof (induction ls ms arbitrary: e rule: list_all2_induct)
  case (Cons l ls m ms)
  then show ?case using life_strike [of l] strike_ok [of l] by force
qed simp

lemma spaced_length:
  "spaced e ls \<Longrightarrow> list_all letter_ok ls \<Longrightarrow> ls \<noteq> [] \<Longrightarrow> 33 * int (length ls) + e \<le> 482"
proof (induction ls arbitrary: e)
  case (Cons l ls)
  show ?case
  proof (cases "ls = []")
    case True
    with Cons.prems life_pos [of l] show ?thesis by simp
  next
    case False
    with Cons.IH [of "e + 33"] Cons.prems show ?thesis by simp
  qed
qed simp

lemma flown_count: "hits ls + misses ls + int (length (flown ls)) = int (length ls)"
  by (induction ls) auto


end
