(* ===== verification/GameLoop.thy ===== *)
theory GameLoop
  imports GameCorrect
begin

text \<open>
  The picture of the typing game and its main loop: the invariant of all states that steps of the
  loop and interrupts reach, and what follows from it.
\<close>

section \<open>The picture\<close>

lemma ascii_char_of: "n < 128 \<Longrightarrow> ascii (char_of n)" for n :: nat
proof -
  assume n: "n < 128"
  then have "of_char (char_of n :: char) = (of_nat n :: u8)"
    using of_nat_of_char [of "char_of n", where 'a = u8] by simp
  moreover have "\<not> bit (of_nat n :: u8) 7"
  proof -
    have "\<not> bit n 7" using n by (simp add: bit_nat_iff bit_iff_odd)
    then show ?thesis by (simp add: bit_of_nat_iff)
  qed
  moreover have "(w AND 0x80 = 0) = (\<not> bit w 7)" for w :: u8
  proof -
    have "(0x80 :: u8) = 2 ^ 7" by simp
    then show ?thesis by (simp only: and_exp_eq_0_iff_not_bit)
  qed
  ultimately show ?thesis by (simp add: ascii_def)
qed

lemma ascii_char_of_int: "0 \<le> k \<Longrightarrow> k < 128 \<Longrightarrow> ascii (char_of k)" for k :: int
  using ascii_char_of [of "nat k"] char_of_nat [of "nat k", where 'a = int] by simp

declare draw_string.simps [simp del]

lemma dec_digits_ascii: "list_all ascii (dec_digits n)"
  by (induction n rule: dec_digits.induct) (subst dec_digits.simps, simp add: ascii_char_of)

lemma itoa_props: "list_all ascii (itoa a)" "length (itoa a) \<le> 29"
proof -
  have "list_all ascii (if a < 0 then CHR ''-'' # dec_digits (nat (- a)) else dec_digits (nat a))"
    using dec_digits_ascii by (simp add: ascii_def)
  then show "list_all ascii (itoa a)" unfolding itoa_def by (auto simp: list_all_iff dest: in_set_takeD)
qed (simp add: itoa_def)

text \<open>Painting touches only the buffer.\<close>

definition paint_letter :: "letter \<Rightarrow> game \<Rightarrow> game" where
  "paint_letter l = paint [char_of (ltext l + 65)] (hp l div 2) (ly l) 15"

lemma paint_fields [simp]:
  "head (paint str x y c g) = head g" "fly_pool (paint str x y c g) = fly_pool g"
  "hit (paint str x y c g) = hit g" "miss (paint str x y c g) = miss g"
  "key_code (paint str x y c g) = key_code g" "real_fps (paint str x y c g) = real_fps g"
  by (simp_all add: paint_def fill_def)

lemma paint_letters_fields [simp]:
  "head (fold paint_letter ls g) = head g" "fly_pool (fold paint_letter ls g) = fly_pool g"
  "hit (fold paint_letter ls g) = hit g" "miss (fold paint_letter ls g) = miss g"
  "key_code (fold paint_letter ls g) = key_code g" "real_fps (fold paint_letter ls g) = real_fps g"
  by (induction ls arbitrary: g) (simp_all add: paint_letter_def)

lemma prepare_fields [simp]:
  "head (prepare_buffer g) = head g" "fly_pool (prepare_buffer g) = fly_pool g"
  "hit (prepare_buffer g) = hit g" "miss (prepare_buffer g) = miss g"
  "key_code (prepare_buffer g) = key_code g" "real_fps (prepare_buffer g) = real_fps g"
  by (simp_all add: prepare_buffer_def)

lemma to_int_half: "0 \<le> k \<Longrightarrow> to_int (of_int k / 2) = k div 2"
  using floor_divide_of_int_eq [of k 2, where 'a = rat] by (simp add: to_int_def)

lemma draw_letters_list:
  "pool_items fly_size (fly_pool g) (head g) (done @ rest) [] \<Longrightarrow> length rest \<le> fuel \<Longrightarrow>
   list_all letter_ok (letters_at g rest) \<Longrightarrow>
   draw_letters fuel (first rest) g = Inr (fold paint_letter (letters_at g rest) g)"
proof (induction rest arbitrary: "done" g fuel)
  case (Cons it rest)
  then obtain fuel' where fuel: "fuel = Suc fuel'" "length rest \<le> fuel'" by (cases fuel) auto
  let ?l = "the_letter it g" let ?g = "paint_letter ?l g"
  have nxt: "next_link (nodes (fly_pool g) it) = first rest"
    by (rule lp.nxt_law [OF Cons.prems(1)])
  from Cons.prems(3) have ok: "letter_ok ?l" by simp
  then have lx: "to_int (lx ?l) = hp ?l div 2" by (metis letter_ok_def to_int_half)
  from ok have "draw_string [char_of (ltext ?l + 65)] (hp ?l div 2) (ly ?l) 15 g = Inr ?g"
    unfolding paint_letter_def letter_ok_def
    by (intro draw_string_paints) (auto simp: ascii_char_of_int)
  moreover have "pool_items fly_size (fly_pool ?g) (head ?g) ((done @ [it]) @ rest) []"
    using Cons.prems(1) by (simp add: paint_letter_def)
  moreover have same: "letters_at ?g rest = letters_at g rest"
    by (rule letters_at_pool) (simp add: paint_letter_def)
  ultimately show ?case
    using Cons.IH [of ?g "done @ [it]" fuel'] Cons.prems(3) fuel(2) nxt
    by (simp add: fuel(1) Let_def lx)
qed simp

text \<open>The picture of a game with the letters \<open>ls\<close>.\<close>

definition picture :: "letter list \<Rightarrow> game \<Rightarrow> game" where
  "picture ls g =
     (let fps = itoa (sint (real_fps g)); h = itoa (sint (hit g)); m = itoa (sint (miss g));
          g = prepare_buffer g;
          g = fold paint_letter ls g;
          g = paint (itoa (key_code g)) 192 0 48 g;
          g = paint h 0 (320 - int (length h) * 8) 10 g;
          g = paint m 192 (320 - int (length m) * 8) 12 g;
          g = paint fps 0 0 14 g;
          g = paint ''FPS'' 0 (int (length fps) * 8) 14 g
      in display_buffer g)"

lemma itoa_fits: "8 * int (length (itoa a)) \<le> 232"
  using itoa_props(2) [of a] by linarith

theorem redraw_screen_list:
  assumes sh: "shows_at g xs ls" and ok: "list_all letter_ok ls"
  shows "redraw_screen g = Inr (picture ls g)"
proof -
  from sh have items: "pool_items fly_size (fly_pool g) (head g) xs []" and ls: "letters_at g xs = ls"
    by (simp_all add: shows_at_def)
  let ?g = "prepare_buffer g"
  have same: "letters_at ?g xs = ls" using ls letters_at_pool [of ?g g] by simp
  have letters: "draw_letters (Suc fly_size) (head g) ?g = Inr (fold paint_letter ls ?g)"
    using draw_letters_list [of ?g "[]" xs "Suc fly_size"] items ok letters_room [OF items]
      lp.items_head [OF items] by (simp add: same)
  have str: "0 \<le> x \<Longrightarrow> x + 8 \<le> 200 \<Longrightarrow> 0 \<le> y \<Longrightarrow> y + 8 * int (length (itoa a)) \<le> 320 \<Longrightarrow>
    draw_string (itoa a) x y c w = Inr (paint (itoa a) x y c w)" for a x y c and w :: game
    by (rule draw_string_paints) (simp_all add: itoa_props)
  have fps: "draw_string ''FPS'' 0 (int (length (itoa a)) * 8) 14 w =
    Inr (paint ''FPS'' 0 (int (length (itoa a)) * 8) 14 w)" for a and w :: game
    using itoa_fits [of a] by (intro draw_string_paints) (simp_all add: ascii_def)
  show ?thesis
    unfolding redraw_screen_def picture_def Let_def letters bindE_Inr prepare_fields
    using itoa_fits [of "key_code g"] itoa_fits [of "sint (hit g)"] itoa_fits [of "sint (miss g)"]
      itoa_fits [of "sint (real_fps g)"]
    by (simp add: SCR_WIDTH_def SCR_HEIGHT_def str fps)
qed

text \<open>All of the game but the frame buffer and the screen.\<close>

definition but_video :: "game \<Rightarrow> game" where
  "but_video g = g\<lparr>vbuf := (\<lambda>_. 0), screen := (\<lambda>_. 0)\<rparr>"

lemma but_video_paint [simp]:
  "but_video (paint str x y c g) = but_video g" "but_video (prepare_buffer g) = but_video g"
  "but_video (display_buffer g) = but_video g"
  by (simp_all add: but_video_def paint_def fill_def prepare_buffer_def display_buffer_def)

lemma but_video_fold [simp]: "but_video (fold paint_letter ls g) = but_video g"
  by (induction ls arbitrary: g) (simp_all add: paint_letter_def)

lemma picture_but_video: "but_video (picture ls g) = but_video g"
  by (simp add: picture_def Let_def)

lemma but_video_fields:
  assumes "but_video g' = but_video g"
  shows "fly_pool g' = fly_pool g" "head g' = head g" "hit g' = hit g" "miss g' = miss g"
    "letter_pressed g' = letter_pressed g" "tick g' = tick g" "intr_on g' = intr_on g"
    "rand_calls g' = rand_calls g"
  using arg_cong [OF assms, of fly_pool] arg_cong [OF assms, of head] arg_cong [OF assms, of hit]
    arg_cong [OF assms, of miss] arg_cong [OF assms, of letter_pressed] arg_cong [OF assms, of tick]
    arg_cong [OF assms, of intr_on] arg_cong [OF assms, of rand_calls]
  by (simp_all add: but_video_def)

section \<open>The invariant of the main loop\<close>

lemma sint_add_small:
  fixes w :: i32
  assumes "0 \<le> sint w" and "0 \<le> k" and "sint w + k < 2 ^ 31"
  shows "sint (w + word_of_int k) = sint w + k"
proof -
  have "sint (word_of_int k :: i32) = k"
    using assms by (simp add: sint_sbintrunc' signed_take_bit_int_eq_self)
  then show ?thesis
    using assms by (simp add: sint_word_ariths signed_take_bit_int_eq_self)
qed

lemma sint_eq: "sint a = sint b \<longleftrightarrow> a = b" for a b :: i32
  by (auto intro: signed_word_eqI)

lemma sint_upper: "sint w < 2 ^ 31" for w :: i32
  using sint_less [of w] by simp

definition world_inv :: "game \<Rightarrow> int \<Rightarrow> int \<Rightarrow> letter list \<Rightarrow> bool" where
  "world_inv g e made ls \<longleftrightarrow> on_screen_list g ls \<and> list_all letter_ok ls \<and> length (letter_pressed g) = 26 \<and>
     intr_on g \<and> spaced e ls \<and> sint (hit g) + sint (miss g) + int (length ls) = made \<and>
     0 \<le> sint (hit g) \<and> 0 \<le> sint (miss g)"

text \<open>
  The first letter is made at tick 0 and then one every 33 ticks. \<open>now\<close> stays behind a target, so it
  never overflows, whatever \<open>tick\<close> does.
\<close>

definition loop_inv :: "loop \<Rightarrow> bool" where
  "loop_inv s \<longleftrightarrow> 0 \<le> sint (now s) \<and>
     (pc s = Pressing \<longrightarrow> sint (now s) < sint (target s)) \<and>
     (pc s = Catching \<longrightarrow> sint (now s) \<le> sint (target s)) \<and>
     (\<exists>ls. world_inv (world s) ((sint (now s) - 1) mod 33 + 1) ((sint (now s) + 32) div 33) ls)"

text \<open>The next step passes the assertion of the main loop.\<close>

definition in_time :: "loop \<Rightarrow> bool" where
  "in_time s \<longleftrightarrow> (pc s = Waiting \<longrightarrow> sint (now s) \<le> sint (tick (world s)))"

lemma world_inv_room: "world_inv g e made ls \<Longrightarrow> 0 \<le> e \<Longrightarrow> length ls \<le> 14"
  using spaced_length [of e ls] by (cases "ls = []") (auto simp: world_inv_def)

lemma world_inv_cong:
  assumes "world_inv g e made ls" and "fly_pool g' = fly_pool g" "head g' = head g" "hit g' = hit g"
    "miss g' = miss g" "length (letter_pressed g') = 26" "intr_on g'"
  shows "world_inv g' e made ls"
  using assms letters_at_pool [of g' g]
  by (auto simp: world_inv_def on_screen_list_def shows_at_def)

lemma newborn_ok: "rand_ok rand \<Longrightarrow> letter_ok (newborn rand n)"
proof -
  assume "rand_ok rand"
  have "hp (newborn rand n) = 0" by (simp add: newborn_def hp_def)
  moreover have "0 \<le> rand n mod 38" "rand n mod 38 \<le> 37" using pos_mod_bound [of 38 "rand n"] by auto
  ultimately show ?thesis unfolding letter_ok_def by (simp add: newborn_def)
qed

lemma world_inv_create:
  assumes inv: "world_inv g 33 made ls" and rand: "rand_ok rand"
  shows "\<exists>g' ls'. create_new_letter rand g = Inr g' \<and> world_inv g' 0 (made + 1) ls' \<and> tick g' = tick g"
proof -
  from inv obtain xs where sh: "shows_at g xs ls" by (auto simp: world_inv_def on_screen_list_def)
  let ?b = "newborn rand (rand_calls g)"
  from world_inv_room [OF inv] have "length ls < fly_size" by (simp add: fly_size_def)
  from create_new_letter_list [OF sh this rand] obtain i p where
    new: "create_new_letter rand g = Inr (g\<lparr>fly_pool := p, head := Some i,
      rand_calls := rand_calls g + 3, letter_pressed := (letter_pressed g)[nat (ltext ?b) := False]\<rparr>)"
      (is "_ = Inr ?g") and
    sh': "shows_at (g\<lparr>fly_pool := p, head := Some i\<rparr>) (i # xs) (?b # ls)" by blast
  have hp: "hp ?b = 0" by (simp add: newborn_def hp_def)
  have "letter_ok ?b" by (rule newborn_ok [OF rand])
  moreover have "life ?b = 450" unfolding life_def hp by (simp add: newborn_def)
  moreover have "on_screen_list ?g (?b # ls)"
    using sh' letters_at_pool [of ?g "g\<lparr>fly_pool := p, head := Some i\<rparr>"]
    by (auto simp: on_screen_list_def shows_at_def)
  ultimately have "world_inv ?g 0 (made + 1) (?b # ls)"
    using inv by (simp add: world_inv_def)
  with new show ?thesis by (intro exI [of _ ?g] exI [of _ "?b # ls"]) simp
qed

lemma world_inv_update:
  assumes "world_inv g e made ls" and "made < 2 ^ 31"
  shows "\<exists>g' ls'. update_letter_pos g = Inr g' \<and> world_inv g' (e + 1) made ls' \<and> tick g' = tick g"
proof -
  from assms(1) obtain xs where sh: "shows_at g xs ls" by (auto simp: world_inv_def on_screen_list_def)
  from update_letter_pos_list [OF sh] obtain ys p h where
    upd: "update_letter_pos g = Inr (g\<lparr>fly_pool := p, head := h,
      hit := hit g + word_of_int (hits ls), miss := miss g + word_of_int (misses ls)\<rparr>)" (is "_ = Inr ?g") and
    sh': "shows_at (g\<lparr>fly_pool := p, head := h\<rparr>) ys (flown ls)" by blast
  have "on_screen_list ?g (flown ls)"
    using sh' letters_at_pool [of ?g "g\<lparr>fly_pool := p, head := h\<rparr>"]
    by (auto simp: on_screen_list_def shows_at_def)
  moreover have n: "0 \<le> hits ls" "0 \<le> misses ls" by (simp_all add: hits_def misses_def)
  moreover have "sint (hit ?g) = sint (hit g) + hits ls" "sint (miss ?g) = sint (miss g) + misses ls"
    using assms n flown_count [of ls] by (simp_all add: world_inv_def sint_add_small)
  ultimately have "world_inv ?g (e + 1) made (flown ls)"
    using assms spaced_flown [of e ls] flown_count [of ls] by (simp add: world_inv_def)
  with upd show ?thesis by (intro exI [of _ ?g] exI [of _ "flown ls"]) simp
qed

lemma world_inv_keys:
  assumes "world_inv g e made ls"
  shows "\<exists>g' ls'. key_loop 26 g = Inr g' \<and> world_inv g' e made ls' \<and> tick g' = tick g"
proof -
  from assms obtain xs where sh: "shows_at g xs ls" by (auto simp: world_inv_def on_screen_list_def)
  have len: "length (letter_pressed g) = 26" and ok: "list_all letter_ok ls"
    using assms by (simp_all add: world_inv_def)
  have "length (filter (\<lambda>b. b) (letter_pressed g)) \<le> 26"
    using length_filter_le [of "\<lambda>b. b" "letter_pressed g"] len by simp
  from key_loop_list [OF sh ok len this] obtain p ps ms where
    run: "key_loop 26 g = Inr (g\<lparr>fly_pool := p, intr_on := True, letter_pressed := ps\<rparr>)" (is "_ = Inr ?g")
    and sh': "shows_at (g\<lparr>fly_pool := p\<rparr>) xs ms" and st: "struck ls ms" "length ps = 26" by blast
  have "on_screen_list ?g ms"
    using sh' letters_at_pool [of ?g "g\<lparr>fly_pool := p\<rparr>"] by (auto simp: on_screen_list_def shows_at_def)
  moreover have "length ms = length ls" using st(1) by (simp add: struck_def list_all2_lengthD)
  ultimately have "world_inv ?g e made ms"
    using assms spaced_struck [OF st(1)] st(2) by (auto simp: world_inv_def)
  with run show ?thesis by (intro exI [of _ ?g] exI [of _ ms]) simp
qed

lemma rates:
  "0 \<le> k \<Longrightarrow> k smod (HZ sdiv CHARACTER_PER_SECOND) = k mod 33"
  "0 \<le> k \<Longrightarrow> k smod (HZ sdiv UPDATE_PER_SECOND) = 0"
  by (simp_all add: HZ_def CHARACTER_PER_SECOND_def UPDATE_PER_SECOND_def sdiv_nonneg smod_nonneg)

lemma ticks_33:
  fixes k :: int
  shows "k mod 33 = 0 \<Longrightarrow> (k - 1) mod 33 + 1 = 33"
    and "k mod 33 = 0 \<Longrightarrow> (k + 33) div 33 = (k + 32) div 33 + 1"
    and "k mod 33 \<noteq> 0 \<Longrightarrow> (k - 1) mod 33 + 1 = k mod 33"
    and "k mod 33 \<noteq> 0 \<Longrightarrow> (k + 33) div 33 = (k + 32) div 33"
proof -
  define q r where "q = k div 33" and "r = k mod 33"
  then have k: "k = r + 33 * q" and r: "0 \<le> r" "r < 33" by simp_all
  have m: "(k - 1) mod 33 = (r - 1) mod 33" "(k + 32) div 33 = (r + 32) div 33 + q" "(k + 33) div 33 = q + 1"
    using mod_mult_self2 [of "r - 1" 33 q] div_mult_self2 [of 33 "r + 32" q] div_mult_self2 [of 33 "r + 33" q] r
    by (simp_all add: k algebra_simps)
  show "k mod 33 = 0 \<Longrightarrow> (k - 1) mod 33 + 1 = 33"
    and "k mod 33 = 0 \<Longrightarrow> (k + 33) div 33 = (k + 32) div 33 + 1"
    using m by (simp_all flip: r_def)
  assume "k mod 33 \<noteq> 0"
  then have "1 \<le> r" using r by (simp add: r_def)
  then have "(r - 1) mod 33 = r - 1" "(r + 32) div 33 = 1"
    using r div_mult_self2 [of 33 "r - 1" 1] by simp_all
  with m show "(k - 1) mod 33 + 1 = k mod 33" "(k + 33) div 33 = (k + 32) div 33"
    by (simp_all flip: r_def)
qed

lemma made_small: "k < 2 ^ 31 \<Longrightarrow> (k + 33) div 33 < (2 ^ 31 :: int)" and made_small': "k < 2 ^ 31 \<Longrightarrow> (k + 32) div 33 < (2 ^ 31 :: int)"
  by simp_all

lemma logic_tick_world:
  assumes "0 \<le> k" and k: "k < 2 ^ 31" and inv: "world_inv g ((k - 1) mod 33 + 1) ((k + 32) div 33) ls"
    and rand: "rand_ok rand"
  shows "\<exists>g' ls'. bindE (if k smod (HZ sdiv CHARACTER_PER_SECOND) = 0 then create_new_letter rand g else Inr g)
       (\<lambda>g. if k smod (HZ sdiv UPDATE_PER_SECOND) = 0 then update_letter_pos g else Inr g) = Inr g' \<and>
     world_inv g' (k mod 33 + 1) ((k + 33) div 33) ls' \<and> tick g' = tick g"
proof (cases "k mod 33 = 0")
  case True
  note t = ticks_33(1,2) [OF True]
  from world_inv_create [OF _ rand, of g "(k + 32) div 33" ls] inv obtain g1 ls1 where
    g: "create_new_letter rand g = Inr g1" "world_inv g1 0 ((k + 33) div 33) ls1" "tick g1 = tick g"
    by (auto simp: t)
  with world_inv_update [OF g(2) made_small [OF k]] True assms(1) show ?thesis by (auto simp: rates)
next
  case False
  from world_inv_update [OF inv made_small' [OF k]] obtain g' ls' where "update_letter_pos g = Inr g'"
    "world_inv g' (k mod 33 + 1) ((k + 33) div 33) ls'" "tick g' = tick g"
    by (auto simp: ticks_33(3,4) [OF False])
  with False assms(1) show ?thesis by (simp add: rates) blast
qed

lemma logic_tick_inv:
  assumes inv: "loop_inv s" and "pc s = Catching" "sint (now s) < sint (target s)" and rand: "rand_ok rand"
  shows "\<exists>s'. logic_tick rand s = Inr s' \<and> loop_inv s' \<and> pc s' = Catching \<and> target s' = target s \<and>
    sint (now s') = sint (now s) + 1 \<and> tick (world s') = tick (world s)"
proof -
  from inv obtain ls where ls: "0 \<le> sint (now s)"
    "world_inv (world s) ((sint (now s) - 1) mod 33 + 1) ((sint (now s) + 32) div 33) ls"
    by (auto simp: loop_inv_def)
  from logic_tick_world [OF ls(1) sint_upper ls(2) rand] obtain g ls' where
    g: "bindE (if sint (now s) smod (HZ sdiv CHARACTER_PER_SECOND) = 0 then create_new_letter rand (world s)
            else Inr (world s)) (\<lambda>g. if sint (now s) smod (HZ sdiv UPDATE_PER_SECOND) = 0 then update_letter_pos g else Inr g) = Inr g"
    "world_inv g (sint (now s) mod 33 + 1) ((sint (now s) + 33) div 33) ls'" "tick g = tick (world s)" by blast
  from g(1) obtain g1 where g1: "(if sint (now s) smod (HZ sdiv CHARACTER_PER_SECOND) = 0 then create_new_letter rand (world s)
      else Inr (world s)) = Inr g1"
    "(if sint (now s) smod (HZ sdiv UPDATE_PER_SECOND) = 0 then update_letter_pos g1 else Inr g1) = Inr g"
    by (rule bindE_InrE)
  have "world_inv (set_fps k g) (sint (now s) mod 33 + 1) ((sint (now s) + 33) div 33) ls'" for k
    by (rule world_inv_cong [OF g(2)]) (use g(2) in \<open>simp_all add: set_fps_def world_inv_def\<close>)
  moreover have "tick (set_fps k g) = tick (world s)" for k using g(3) by (simp add: set_fps_def)
  moreover have "sint (now s + 1) = sint (now s) + 1"
    using sint_add_small [OF ls(1), of 1] assms(3) sint_upper [of "target s"] by simp
  ultimately show ?thesis
    unfolding logic_tick_def g1 bindE_Inr Let_def
    using g assms(2,3) inv ls(1) by (auto simp: loop_inv_def)
qed

lemma main_step_inv:
  assumes inv: "loop_inv s" and rand: "rand_ok rand" and time: "in_time s"
  shows "\<exists>s'. main_step rand s = Inr s' \<and> loop_inv s' \<and> tick (world s') = tick (world s) \<and>
    (case pc s of
       Waiting \<Rightarrow> now s' = now s \<and> (if now s = tick (world s) then pc s' = Waiting
                   else pc s' = Pressing \<and> target s' = tick (world s))
     | Pressing \<Rightarrow> pc s' = Catching \<and> now s' = now s \<and> target s' = target s
     | Catching \<Rightarrow> target s' = target s \<and>
         (if sint (now s) < sint (target s) then pc s' = Catching \<and> sint (now s') = sint (now s) + 1
          else pc s' = Drawing \<and> now s' = now s)
     | Drawing \<Rightarrow> pc s' = Waiting \<and> now s' = now s)"
proof (cases "pc s")
  case Waiting
  from inv obtain ls where ls: "world_inv (world s) ((sint (now s) - 1) mod 33 + 1) ((sint (now s) + 32) div 33) ls"
    by (auto simp: loop_inv_def)
  have "world_inv ((world s)\<lparr>intr_on := True\<rparr>) ((sint (now s) - 1) mod 33 + 1) ((sint (now s) + 32) div 33) ls"
    by (rule world_inv_cong [OF ls]) (use ls in \<open>simp_all add: world_inv_def\<close>)
  moreover have "now s \<noteq> tick (world s) \<Longrightarrow> sint (now s) < sint (tick (world s))"
    using time Waiting by (simp add: in_time_def less_le sint_eq)
  ultimately show ?thesis using Waiting inv by (auto simp: main_step_def loop_inv_def)
next
  case Pressing
  from inv obtain ls where ls: "world_inv (world s) ((sint (now s) - 1) mod 33 + 1) ((sint (now s) + 32) div 33) ls"
    by (auto simp: loop_inv_def)
  from world_inv_keys [OF ls] Pressing inv show ?thesis by (auto simp: main_step_def loop_inv_def)
next
  case Catching
  with logic_tick_inv [OF inv Catching _ rand] inv show ?thesis
    by (cases "sint (now s) < sint (target s)") (auto simp: main_step_def loop_inv_def)
next
  case Drawing
  from inv obtain ls where ls: "world_inv (world s) ((sint (now s) - 1) mod 33 + 1) ((sint (now s) + 32) div 33) ls"
    by (auto simp: loop_inv_def)
  then obtain xs where sh: "shows_at (world s) xs ls" and ok: "list_all letter_ok ls"
    by (auto simp: world_inv_def on_screen_list_def)
  note fields = but_video_fields [OF picture_but_video [of ls "world s"]]
  have "world_inv (picture ls (world s)) ((sint (now s) - 1) mod 33 + 1) ((sint (now s) + 32) div 33) ls"
    by (rule world_inv_cong [OF ls]) (use ls in \<open>simp_all add: fields world_inv_def\<close>)
  with Drawing inv redraw_screen_list [OF sh ok] fields show ?thesis
    by (auto simp: main_step_def loop_inv_def)
qed

text \<open>A step that succeeds was in time.\<close>

lemma main_step_in_time: "main_step rand s = Inr s' \<Longrightarrow> in_time s"
  by (cases "pc s") (auto simp: main_step_def in_time_def assertE_def split: if_splits)

lemma loop_inv_interrupt:
  assumes inv: "loop_inv s" and g: "fly_pool g = fly_pool (world s)" "head g = head (world s)"
    "hit g = hit (world s)" "miss g = miss (world s)" "length (letter_pressed g) = 26" "intr_on g"
  shows "loop_inv (s\<lparr>world := g\<rparr>)"
proof -
  from inv obtain ls where "world_inv (world s) ((sint (now s) - 1) mod 33 + 1) ((sint (now s) + 32) div 33) ls"
    by (auto simp: loop_inv_def)
  from world_inv_cong [OF this g] inv show ?thesis by (auto simp: loop_inv_def)
qed

lemma init_loop_inv: "loop_inv init_loop"
proof -
  have "shows_at init_game [] []"
    by (simp add: shows_at_def init_game_def init_pool_items)
  then have "world_inv init_game 33 0 []"
    by (auto simp: world_inv_def on_screen_list_def init_game_def)
  then show ?thesis by (auto simp: loop_inv_def init_loop_def)
qed

lemma loop_inv_world: "loop_inv s \<Longrightarrow> length (letter_pressed (world s)) = 26 \<and> intr_on (world s)"
  by (auto simp: loop_inv_def world_inv_def)

lemma loop_inv_timer: "loop_inv s \<Longrightarrow> loop_inv (s\<lparr>world := timer_event (world s)\<rparr>)"
  and loop_inv_key: "loop_inv s \<Longrightarrow> loop_inv (s\<lparr>world := keyboard_event code (world s)\<rparr>)"
  using loop_inv_world [of s]
  by (auto simp: timer_event_def keyboard_event_def press_key_def intro!: loop_inv_interrupt)

lemma reachable_inv: "reachable rand s \<Longrightarrow> rand_ok rand \<Longrightarrow> loop_inv s"
proof (induction rule: reachable.induct)
  case Start
  show ?case by (rule init_loop_inv)
next
  case (Step s s')
  then have inv: "loop_inv s" by simp
  from Step.hyps(2) show ?case
  proof (cases rule: game_step.cases)
    case Main
    with main_step_inv [OF inv Step.prems main_step_in_time] show ?thesis by auto
  qed (use inv loop_inv_timer loop_inv_key in auto)
qed

section \<open>The first \<open>2\<^sup>3\<^sup>1 - 1\<close> ticks\<close>

text \<open>Until \<open>tick\<close> overflows it counts the interrupts and the loop stays behind it.\<close>

definition on_time :: "nat \<Rightarrow> loop \<Rightarrow> bool" where
  "on_time n s \<longleftrightarrow> sint (tick (world s)) = int n \<and> sint (now s) \<le> int n \<and>
     (pc s = Pressing \<or> pc s = Catching \<longrightarrow> sint (target s) \<le> int n)"

lemma on_time_in_time: "on_time n s \<Longrightarrow> in_time s"
  by (simp add: on_time_def in_time_def)

lemma on_time_step:
  assumes "on_time n s" and "loop_inv s" and "rand_ok rand" and "main_step rand s = Inr s'"
  shows "on_time n s'"
  using main_step_inv [OF assms(2,3) on_time_in_time [OF assms(1)]] assms(1,2,4)
  by (cases "pc s") (auto simp: on_time_def loop_inv_def split: if_splits)

lemma after_ticks_on_time: "after_ticks rand n s \<Longrightarrow> rand_ok rand \<Longrightarrow> n < 2 ^ 31 \<Longrightarrow> on_time n s"
proof (induction rule: after_ticks.induct)
  case Start_0
  show ?case by (simp add: on_time_def init_loop_def init_game_def)
next
  case (Main_n n s s')
  then show ?case using on_time_step reachable_inv [OF after_ticks_reachable] by blast
next
  case (Timer_n n s)
  then have "on_time n s" by simp
  then show ?case
    using Timer_n.prems(2) sint_add_small [of "tick (world s)" 1]
    by (auto simp: on_time_def timer_event_def)
next
  case (Key_n n s code)
  then show ?case by (simp add: on_time_def keyboard_event_def press_key_def)
qed

text \<open>\<open>tick\<close> counts the interrupts modulo \<open>2\<^sup>3\<^sup>2\<close>.\<close>

lemma after_ticks_tick: "after_ticks rand n s \<Longrightarrow> rand_ok rand \<Longrightarrow> tick (world s) = of_nat n"
proof (induction rule: after_ticks.induct)
  case Start_0
  show ?case by (simp add: init_loop_def init_game_def)
next
  case (Main_n n s s')
  then show ?case
    using main_step_inv [OF reachable_inv [OF after_ticks_reachable [OF Main_n.hyps(1)]]] main_step_in_time by fastforce
qed (simp_all add: timer_event_def keyboard_event_def press_key_def add.commute)

section \<open>What holds in every reachable state\<close>

fun main_steps :: "(nat \<Rightarrow> int) \<Rightarrow> nat \<Rightarrow> loop \<Rightarrow> loop res" where
  "main_steps rand 0 s = Inr s"
| "main_steps rand (Suc n) s = bindE (main_step rand s) (main_steps rand n)"

definition leads :: "(nat \<Rightarrow> int) \<Rightarrow> loop \<Rightarrow> loop \<Rightarrow> bool" where
  "leads rand s s' \<longleftrightarrow> (\<exists>n. main_steps rand n s = Inr s')"

lemma main_steps_append:
  "main_steps rand m s = Inr s' \<Longrightarrow> main_steps rand n s' = Inr s'' \<Longrightarrow> main_steps rand (m + n) s = Inr s''"
  by (induction m arbitrary: s) (auto simp: bindE_eq_Inr)

lemma leads_trans: "leads rand s s' \<Longrightarrow> leads rand s' s'' \<Longrightarrow> leads rand s s''"
  unfolding leads_def using main_steps_append by blast

lemma leads_step: "main_step rand s = Inr s' \<Longrightarrow> leads rand s s'"
  unfolding leads_def by (intro exI [of _ 1]) simp

lemma leads_refl: "leads rand s s"
  unfolding leads_def by (intro exI [of _ 0]) simp

lemma leads_after_ticks: "leads rand s s' \<Longrightarrow> after_ticks rand n s \<Longrightarrow> after_ticks rand n s'"
proof -
  have "main_steps rand m s = Inr s' \<Longrightarrow> after_ticks rand n s \<Longrightarrow> after_ticks rand n s'" for m
    by (induction m arbitrary: s) (auto simp: bindE_eq_Inr intro: Main_n)
  then show "leads rand s s' \<Longrightarrow> after_ticks rand n s \<Longrightarrow> after_ticks rand n s'"
    by (auto simp: leads_def)
qed

lemma busy_in_time: "pc s \<noteq> Waiting \<Longrightarrow> in_time s" by (simp add: in_time_def)

lemma catching_leads:
  assumes "rand_ok rand"
  shows "loop_inv s \<Longrightarrow> pc s = Catching \<Longrightarrow> \<exists>s'. leads rand s s' \<and> loop_inv s' \<and> pc s' = Drawing \<and>
    now s' = target s \<and> tick (world s') = tick (world s)"
proof (induction "nat (sint (target s) - sint (now s))" arbitrary: s rule: less_induct)
  case less
  from main_step_inv [OF less.prems(1) assms busy_in_time] less.prems(2) obtain s1 where
    s1: "main_step rand s = Inr s1" "loop_inv s1" "tick (world s1) = tick (world s)" "target s1 = target s"
      "if sint (now s) < sint (target s) then pc s1 = Catching \<and> sint (now s1) = sint (now s) + 1
       else pc s1 = Drawing \<and> now s1 = now s"
    by auto
  show ?case
  proof (cases "sint (now s) < sint (target s)")
    case True
    with less.hyps [of s1] s1 obtain s' where "leads rand s1 s'" "loop_inv s'" "pc s' = Drawing"
      "now s' = target s" "tick (world s') = tick (world s)" by auto
    with leads_trans [OF leads_step [OF s1(1)]] show ?thesis by blast
  next
    case False
    with less.prems have "sint (now s) = sint (target s)" by (simp add: loop_inv_def)
    then have "now s = target s" by (simp only: sint_eq)
    with False s1 leads_step [OF s1(1)] show ?thesis by auto
  qed
qed

lemma waiting_leads:
  assumes rand: "rand_ok rand"
  shows "loop_inv s \<Longrightarrow> \<exists>s'. leads rand s s' \<and> loop_inv s' \<and> pc s' = Waiting \<and> tick (world s') = tick (world s) \<and>
    now s' = (if pc s = Pressing \<or> pc s = Catching then target s else now s)"
proof -
  have draw: "\<exists>s'. leads rand s s' \<and> loop_inv s' \<and> pc s' = Waiting \<and> tick (world s') = tick (world s) \<and> now s' = now s"
    if "loop_inv s" "pc s = Drawing" for s
    using main_step_inv [OF that(1) rand busy_in_time] that(2) leads_step by auto
  have catch: "\<exists>s'. leads rand s s' \<and> loop_inv s' \<and> pc s' = Waiting \<and> tick (world s') = tick (world s) \<and> now s' = target s"
    if s: "loop_inv s" "pc s = Catching" for s
  proof -
    from catching_leads [OF rand s] obtain s1 where s1: "leads rand s s1" "loop_inv s1" "pc s1 = Drawing"
      "now s1 = target s" "tick (world s1) = tick (world s)" by blast
    from draw [OF s1(2,3)] s1 leads_trans [OF s1(1)] show ?thesis by metis
  qed
  assume inv: "loop_inv s"
  show ?thesis
  proof (cases "pc s")
    case Waiting
    with inv leads_refl show ?thesis by auto
  next
    case Pressing
    with main_step_inv [OF inv rand busy_in_time] obtain s1 where s1: "main_step rand s = Inr s1" "loop_inv s1"
      "tick (world s1) = tick (world s)" "pc s1 = Catching" "target s1 = target s" by auto
    from catch [OF s1(2,4)] s1 Pressing leads_trans [OF leads_step [OF s1(1)]] show ?thesis by metis
  next
    case Catching
    with catch [OF inv Catching] show ?thesis by simp
  next
    case Drawing
    with draw [OF inv Drawing] show ?thesis by simp
  qed
qed

lemma caught_up:
  assumes rand: "rand_ok rand" and inv: "loop_inv s" and time: "on_time n s"
  shows "\<exists>s'. leads rand s s' \<and> loop_inv s' \<and> tick (world s') = tick (world s) \<and> sint (now s') = int n"
proof -
  from waiting_leads [OF rand inv] obtain s1 where s1: "leads rand s s1" "loop_inv s1" "pc s1 = Waiting"
    "tick (world s1) = tick (world s)" "now s1 = (if pc s = Pressing \<or> pc s = Catching then target s else now s)"
    by blast
  have t: "in_time s1" "sint (tick (world s)) = int n" using time s1(3-5) by (auto simp: on_time_def in_time_def)
  show ?thesis
  proof (cases "now s1 = tick (world s1)")
    case True
    with s1 t(2) show ?thesis by auto
  next
    case False
    with main_step_inv [OF s1(2) rand t(1)] s1(3) obtain s2 where s2: "main_step rand s1 = Inr s2" "loop_inv s2"
      "tick (world s2) = tick (world s1)" "pc s2 = Pressing" "target s2 = tick (world s1)" by auto
    from waiting_leads [OF rand s2(2)] s2 obtain s3 where s3: "leads rand s2 s3" "loop_inv s3" "pc s3 = Waiting"
      "tick (world s3) = tick (world s2)" "now s3 = tick (world s1)" by auto
    from leads_trans [OF s1(1) leads_trans [OF leads_step [OF s2(1)] s3(1)]] s1(4) s2(3) s3 t(2) show ?thesis
      by auto
  qed
qed

section \<open>A game with one letter\<close>

text \<open>The concrete states of the witnesses.\<close>

definition one_pool :: "letter \<Rightarrow> letter node_pool" where
  "one_pool l = \<lparr>nodes = (\<lambda>i. \<lparr>payload = l, prev_link = None,
      next_link = if 0 < i \<and> i < fly_size then Some (Suc i) else None\<rparr>), free_nodes = Some 1\<rparr>"

definition one_letter :: "letter \<Rightarrow> bool list \<Rightarrow> game" where
  "one_letter l ps = init_game\<lparr>fly_pool := one_pool l, head := Some 0, letter_pressed := ps\<rparr>"

lemma one_letter_shows: "shows_at (one_letter l ps) [0] [l]"
proof -
  have "link_chain (one_pool l) (Some 1) [1..<Suc fly_size]"
    by (rule chain_upt) (simp_all add: one_pool_def fly_size_def)
  then have "pool_free fly_size (one_pool l) [0]"
    by (auto simp: pool_free_def one_pool_def fly_size_def intro!: exI [of _ "[1..<Suc fly_size]"])
  moreover have "segment (one_pool l) None (Some 0) [0] None" by (simp add: one_pool_def)
  ultimately show ?thesis
    by (simp add: shows_at_def pool_items_def one_letter_def the_letter_def) (simp add: one_pool_def)
qed

definition letter_A :: letter where
  "letter_A = \<lparr>lx = 192, ly = 16, ltext = 0, lv = 1/2\<rparr>"

lemma letter_A_ok: "letter_ok letter_A" "hp letter_A = 384"
proof -
  show "hp letter_A = 384" by (simp add: hp_def letter_A_def)
  then show "letter_ok letter_A" by (simp add: letter_ok_def) (simp add: letter_A_def)
qed

section \<open>Properties\<close>

text \<open>
  \<open>create_new_letter\<close> on the linked pool is \<open>Cons\<close> on the list of letters: the new letter is at
  the top of the screen with a column, a speed and a text in range, the others stay, the pressed
  mark of its key is cleared. It fails exactly when 1000 letters are in flight.
\<close>

lemma create_new_letter_conses:
  assumes "shows_at g xs ls" and "rand_ok rand"
  defines "b \<equiv> newborn rand (rand_calls g)"
  shows "if length ls = fly_size then create_new_letter rand g = Inl (Assert_failed ''new'')
    else \<exists>i p. create_new_letter rand g = Inr (g\<lparr>fly_pool := p, head := Some i,
        rand_calls := rand_calls g + 3, letter_pressed := (letter_pressed g)[nat (ltext b) := False]\<rparr>) \<and>
      shows_at (g\<lparr>fly_pool := p, head := Some i\<rparr>) (i # xs) (b # ls) \<and> letter_ok b"
proof (cases "length ls = fly_size")
  case True
  from assms(1) have items: "pool_items fly_size (fly_pool g) (head g) xs []" and "length xs = length ls"
    by (auto simp: shows_at_def)
  with True list_new_full [OF items] have "list_new fly_size (fly_pool g) = Inl (Assert_failed ''new'')"
    by (simp add: fly_size_def)
  with True show ?thesis by (simp add: create_new_letter_def split: option.split)
next
  case False
  from assms(1) letters_room [of fly_size "fly_pool g" "head g" xs "[]"] False
  have room: "length ls < fly_size" by (auto simp: shows_at_def)
  have "letter_ok b" unfolding b_def by (rule newborn_ok [OF assms(2)])
  with create_new_letter_list [OF assms(1) room assms(2)] False show ?thesis
    unfolding b_def by simp
qed

theorem create_new_letter_conses_witness:
  "\<exists>i p. create_new_letter (\<lambda>n. 77) (one_letter letter_A []) = Inr ((one_letter letter_A [])\<lparr>fly_pool := p,
      head := Some i, rand_calls := 3\<rparr>) \<and>
    shows_at ((one_letter letter_A [])\<lparr>fly_pool := p, head := Some i\<rparr>) [i, 0]
      [\<lparr>lx = 0, ly = 16, ltext = 25, lv = 1/2\<rparr>, letter_A]"
  using create_new_letter_conses [OF one_letter_shows [of letter_A "[]"], of "\<lambda>n. 77"]
  by (auto simp: rand_ok_def fly_size_def newborn_def one_letter_def init_game_def)

text \<open>
  \<open>update_letter_pos\<close> walks the linked list while it removes and frees the letters that leave the
  screen. Its effect is that of moving every letter by its speed and filtering: the survivors keep
  their order, each letter that left is counted once, as a hit above and as a miss below.
\<close>

lemma update_letter_pos_filters:
  assumes "shows_at g xs ls"
  shows "\<exists>ys p h. update_letter_pos g = Inr (g\<lparr>fly_pool := p, head := h,
      hit := hit g + word_of_int (hits ls), miss := miss g + word_of_int (misses ls)\<rparr>) \<and>
    shows_at (g\<lparr>fly_pool := p, head := h\<rparr>) ys (flown ls) \<and>
    hits ls + misses ls + int (length (flown ls)) = int (length ls)"
  using update_letter_pos_list [OF assms] flown_count by blast

theorem update_letter_pos_filters_witness:
  "\<exists>ys p h. update_letter_pos (one_letter letter_A []) =
      Inr ((one_letter letter_A [])\<lparr>fly_pool := p, head := h, hit := 0, miss := 1\<rparr>) \<and>
    shows_at ((one_letter letter_A [])\<lparr>fly_pool := p, head := h\<rparr>) ys []"
  using update_letter_pos_filters [OF one_letter_shows [of letter_A "[]"]]
  by (simp add: off_screen_def SCR_HEIGHT_def letter_A_def one_letter_def init_game_def)

text \<open>
  \<open>update_keypress\<close> strikes the lowest falling letter whose key is pressed: its speed becomes
  \<open>-3\<close>, the key is released and the result is true. Without such a letter nothing changes, interrupts
  are enabled again and the result is false.
\<close>

lemma update_keypress_strikes_lowest:
  assumes "shows_at g xs ls" and "list_all letter_ok ls"
  shows "(\<forall>l \<in> set ls. \<not> wanted (letter_pressed g) l) \<and>
      update_keypress g = Inr (False, g\<lparr>intr_on := True\<rparr>) \<or>
    (\<exists>k < length ls. \<exists>p. wanted (letter_pressed g) (ls ! k) \<and>
      (\<forall>l \<in> set ls. wanted (letter_pressed g) l \<longrightarrow> lx l \<le> lx (ls ! k)) \<and>
      update_keypress g = Inr (True, g\<lparr>fly_pool := p, intr_on := False,
        letter_pressed := (letter_pressed g)[nat (ltext (ls ! k)) := False]\<rparr>) \<and>
      shows_at (g\<lparr>fly_pool := p\<rparr>) xs (ls[k := strike (ls ! k)]))"
  using update_keypress_list [OF assms] .

theorem update_keypress_strikes_lowest_witness:
  "\<exists>p. update_keypress (one_letter letter_A (replicate 26 True)) =
      Inr (True, (one_letter letter_A (replicate 26 True))\<lparr>fly_pool := p, intr_on := False,
        letter_pressed := (replicate 26 True)[0 := False]\<rparr>)"
proof -
  have "wanted (replicate 26 True) letter_A" by (simp add: wanted_def letter_A_def)
  then show ?thesis
    using update_keypress_strikes_lowest [OF one_letter_shows, of letter_A "replicate 26 True"] letter_A_ok
    by (auto simp: one_letter_def letter_A_def)
qed

text \<open>
  \<^bold>\<open>C18\<close> The loop \<open>while (update_keypress());\<close> ends after at most 26 successful rounds, for every set of
  pressed keys: each round releases a key while interrupts are off. Then no falling letter is pressed,
  and the letters differ only in that some falling ones were struck.
\<close>

theorem key_loop_terminates:
  assumes "shows_at g xs ls" and "list_all letter_ok ls" and "length (letter_pressed g) = 26" and "26 \<le> fuel"
  shows "\<exists>p ps ms. key_loop fuel g = Inr (g\<lparr>fly_pool := p, intr_on := True, letter_pressed := ps\<rparr>) \<and>
    shows_at (g\<lparr>fly_pool := p\<rparr>) xs ms \<and> struck ls ms \<and> (\<forall>l \<in> set ms. \<not> wanted ps l)"
proof -
  have "length (filter (\<lambda>b. b) (letter_pressed g)) \<le> fuel"
    using length_filter_le [of "\<lambda>b. b" "letter_pressed g"] assms(3,4) by simp
  from key_loop_list [OF assms(1-3) this] show ?thesis by blast
qed

theorem key_loop_terminates_witness:
  "\<exists>p ps. key_loop 26 (one_letter letter_A (replicate 26 True)) =
     Inr ((one_letter letter_A (replicate 26 True))\<lparr>fly_pool := p, intr_on := True, letter_pressed := ps\<rparr>)"
  using key_loop_terminates [OF one_letter_shows [of letter_A "replicate 26 True"], of 26] letter_A_ok
  by (auto simp: one_letter_def)

text \<open>
  \<open>redraw_screen\<close> never fails an assertion of the drawing functions and shows exactly the letters
  of the list at their positions, the last key, the score and the frame rate, on a cleared buffer.
\<close>

lemma redraw_screen_shows_letters:
  assumes "shows_at g xs ls" and "list_all letter_ok ls"
  shows "redraw_screen g = Inr (picture ls g) \<and>
    (\<forall>k. screen (picture ls g) k = (if k < 64000 then vbuf (picture ls g) k else screen g k))"
proof -
  have paint: "screen (paint str x y c h) = screen h" for str x y c and h :: game
    by (simp add: paint_def fill_def)
  have fold: "screen (fold paint_letter ls h) = screen h" for h :: game
    by (induction ls arbitrary: h) (simp_all add: paint_letter_def paint)
  have "screen (prepare_buffer g) = screen g" by (simp add: prepare_buffer_def)
  then have "screen (picture ls g) k = (if k < 64000 then vbuf (picture ls g) k else screen g k)" for k
    by (simp add: picture_def Let_def display_buffer_def SCR_WIDTH_def SCR_HEIGHT_def paint fold)
  with redraw_screen_list [OF assms] show ?thesis by simp
qed

theorem redraw_screen_shows_letters_witness:
  "redraw_screen (one_letter letter_A []) = Inr (picture [letter_A] (one_letter letter_A []))"
  using redraw_screen_shows_letters [OF one_letter_shows [of letter_A "[]"]] letter_A_ok by simp

text \<open>
  \<^bold>\<open>C17\<close> In every reachable state the pool is well formed: the structures of the letters in flight form
  a doubly linked list from \<open>head\<close>, the others form the free list, none is lost or shared; texts,
  columns, heights and speeds are in range.
\<close>

theorem reachable_pool_well_formed:
  assumes "rand_ok rand" and "reachable rand s"
  shows "\<exists>xs. pool_items fly_size (fly_pool (world s)) (head (world s)) xs [] \<and>
    (\<forall>i \<in> set xs. letter_ok (the_letter i (world s)))"
proof -
  from reachable_inv [OF assms(2,1)] obtain ls xs where "shows_at (world s) xs ls" "list_all letter_ok ls"
    by (auto simp: loop_inv_def world_inv_def on_screen_list_def)
  then show ?thesis by (auto simp: shows_at_def letters_at_def list_all_iff)
qed

theorem reachable_pool_well_formed_witness:
  "\<exists>xs. pool_items fly_size (fly_pool init_game) (head init_game) xs [] \<and>
    (\<forall>i \<in> set xs. letter_ok (the_letter i init_game))"
  using reachable_pool_well_formed [of "\<lambda>n. 0" init_loop] Start
  by (simp add: rand_ok_def init_loop_def)

text \<open>
  \<^bold>\<open>C15\<close> No assertion of the game fails during the first \<open>2\<^sup>3\<^sup>1 - 1\<close> timer ticks (248 days at 100 Hz): the next
  step of the main loop succeeds, because at most 14 of the 1001 structures are in use, however the interrupts
  fall. At tick \<open>2\<^sup>3\<^sup>1\<close> the counter has overflowed to a negative number, and as soon as the loop waits again its
  assertion \<open>now < tick\<close> fails.
\<close>

theorem game_never_fails:
  assumes "rand_ok rand" and "after_ticks rand n s"
  shows "(n < 2 ^ 31 \<longrightarrow> (\<exists>s'. main_step rand s = Inr s')) \<and>
    (\<exists>ls. on_screen_list (world s) ls \<and> length ls \<le> 14) \<and>
    (n = 2 ^ 31 \<and> pc s = Waiting \<longrightarrow> main_step rand s = Inl (Assert_failed ''main_loop''))"
proof (intro conjI impI)
  note inv = reachable_inv [OF after_ticks_reachable [OF assms(2)] assms(1)]
  from inv obtain ls where ls: "world_inv (world s) ((sint (now s) - 1) mod 33 + 1) ((sint (now s) + 32) div 33) ls"
    by (auto simp: loop_inv_def)
  from world_inv_room [OF ls] ls show "\<exists>ls. on_screen_list (world s) ls \<and> length ls \<le> 14"
    by (auto simp: world_inv_def)
  show "\<exists>s'. main_step rand s = Inr s'" if "n < 2 ^ 31"
    using main_step_inv [OF inv assms(1) on_time_in_time [OF after_ticks_on_time [OF assms(2,1) that]]] by blast
  show "main_step rand s = Inl (Assert_failed ''main_loop'')" if "n = 2 ^ 31 \<and> pc s = Waiting"
  proof -
    have "tick (world s) = - (2 ^ 31)" using after_ticks_tick [OF assms(2,1)] that by simp
    then have "sint (tick (world s)) < sint (now s)" using inv by (simp add: loop_inv_def)
    then show ?thesis using that by (auto simp: main_step_def)
  qed
qed

definition first_tick :: loop where
  "first_tick = init_loop\<lparr>world := timer_event (world init_loop)\<rparr>"

lemma first_tick_reachable: "after_ticks rand 1 first_tick"
  unfolding first_tick_def One_nat_def
  by (rule Timer_n [OF Start_0]) (simp add: init_loop_def init_game_def)

text \<open>A game whose main loop does not run before the overflow.\<close>

lemma only_ticks: "after_ticks rand n (init_loop\<lparr>world := init_game\<lparr>tick := of_nat n\<rparr>\<rparr>)"
proof (induction n)
  case 0
  have "init_loop\<lparr>world := init_game\<lparr>tick := of_nat 0\<rparr>\<rparr> = init_loop" by (simp add: init_loop_def init_game_def)
  then show ?case using Start_0 by simp
next
  case (Suc n)
  from Timer_n [OF Suc] show ?case by (simp add: timer_event_def init_game_def add.commute)
qed

theorem game_never_fails_witness:
  "(\<exists>s'. main_step (\<lambda>n. 0) first_tick = Inr s') \<and>
   main_step (\<lambda>n. 0) (init_loop\<lparr>world := init_game\<lparr>tick := 0x80000000\<rparr>\<rparr>) = Inl (Assert_failed ''main_loop'')"
  using game_never_fails [OF _ first_tick_reachable, of "\<lambda>n. 0"]
    game_never_fails [OF _ only_ticks, of "\<lambda>n. 0" "2 ^ 31"]
  by (simp add: rand_ok_def) (simp add: init_loop_def)

text \<open>
  \<^bold>\<open>C16\<close> The main loop always catches up with the timer until \<open>tick\<close> overflows, and letters do not stay: after
  \<open>n\<close> ticks, from every state the game can be in, finitely many steps lead to one where all \<open>n\<close> ticks are
  processed, and of the letters made by then, one every 33 ticks, all but at most 14 have been counted as hit
  or miss.
\<close>

theorem letters_get_scored:
  assumes "rand_ok rand" and "after_ticks rand n s" and "n < 2 ^ 31"
  shows "\<exists>m s'. main_steps rand m s = Inr s' \<and> after_ticks rand n s' \<and> sint (now s') = int n \<and>
    tick (world s') = tick (world s) \<and>
    (int n + 32) div 33 - 14 \<le> sint (hit (world s')) + sint (miss (world s'))"
proof -
  note inv = reachable_inv [OF after_ticks_reachable [OF assms(2)] assms(1)]
  from caught_up [OF assms(1) inv after_ticks_on_time [OF assms(2,1,3)]] obtain s' where
    s': "leads rand s s'" "loop_inv s'" "tick (world s') = tick (world s)" "sint (now s') = int n" by blast
  from s'(2) obtain ls where ls: "world_inv (world s') ((sint (now s') - 1) mod 33 + 1) ((sint (now s') + 32) div 33) ls"
    by (auto simp: loop_inv_def)
  from world_inv_room [OF this] ls have "(sint (now s') + 32) div 33 - 14 \<le> sint (hit (world s')) + sint (miss (world s'))"
    by (auto simp: world_inv_def)
  with s' leads_after_ticks [OF s'(1) assms(2)] show ?thesis by (auto simp: leads_def)
qed

theorem letters_get_scored_witness:
  "\<exists>m s'. main_steps (\<lambda>n. 0) m first_tick = Inr s' \<and> sint (now s') = 1"
  using letters_get_scored [OF _ first_tick_reachable, of "\<lambda>n. 0"]
  by (auto simp: rand_ok_def)

end
