(* ===== verification/GameDevice.thy ===== *)
theory GameDevice
  imports KSys
begin

text \<open>
  The guest program's devices and system calls (\<open>game/src/common\<close>): the timer chip, the palette of the
  video card, the wrappers of \<open>lib/syscall.c\<close> and start-up (\<open>main.c\<close>). They run against the emulated
  ports and the kernel's \<open>do_syscall\<close>.
\<close>

section \<open>\<open>device/timer.c\<close>\<close>

definition FREQ_8253 :: int where "FREQ_8253 = 1193182"

definition init_timer :: "irq_handler \<Rightarrow> kdisk \<Rightarrow> kdisk res" where
  "init_timer h k =
     (let counter = FREQ_8253 div 100
      in assertE ''init_timer'' (counter < 65536)
        (bindE (k_out h (0x40 + 3) 1 0x34 k) (\<lambda>k.
         bindE (k_out h (0x40 + 0) 1 (word_of_int (counter mod 256)) k)
           (k_out h (0x40 + 0) 1 (word_of_int (counter div 256))))))"

section \<open>\<open>device/palette.c\<close>\<close>

abbreviation (input) "VGA_DAC_READ_INDEX \<equiv> 0x3C7 :: u16"
abbreviation (input) "VGA_DAC_WRITE_INDEX \<equiv> 0x3C8 :: u16"
abbreviation (input) "VGA_DAC_DATA \<equiv> 0x3C9 :: u16"

text \<open>\<open>colors i c\<close> is \<open>palette[i][c]\<close>, component \<open>c\<close> of colour \<open>i\<close>.\<close>

fun write_colors :: "irq_handler \<Rightarrow> (nat \<Rightarrow> nat \<Rightarrow> u8) \<Rightarrow> nat \<Rightarrow> nat \<Rightarrow> kdisk \<Rightarrow> kdisk res" where
  "write_colors h colors i 0 k = Inr k"
| "write_colors h colors i (Suc n) k =
     bindE (k_out h VGA_DAC_DATA 1 (ucast (drop_bit 2 (colors i 0))) k) (\<lambda>k.
     bindE (k_out h VGA_DAC_DATA 1 (ucast (drop_bit 2 (colors i 1))) k) (\<lambda>k.
     bindE (k_out h VGA_DAC_DATA 1 (ucast (drop_bit 2 (colors i 2))) k)
       (write_colors h colors (Suc i) n)))"

definition write_palette :: "irq_handler \<Rightarrow> (nat \<Rightarrow> nat \<Rightarrow> u8) \<Rightarrow> int \<Rightarrow> kdisk \<Rightarrow> kdisk res" where
  "write_palette h colors nr_color k =
     bindE (k_out h VGA_DAC_WRITE_INDEX 1 0 k) (write_colors h colors 0 (nat nr_color))"

text \<open>\<open>read_palette\<close> prints its triples; the model returns them.\<close>

fun read_colors :: "irq_handler \<Rightarrow> nat \<Rightarrow> kdisk \<Rightarrow> ((u8 \<times> u8 \<times> u8) list \<times> kdisk) res" where
  "read_colors h 0 k = Inr ([], k)"
| "read_colors h (Suc n) k =
     bindE (k_in h VGA_DAC_DATA 1 k) (\<lambda>(r, k).
     bindE (k_in h VGA_DAC_DATA 1 k) (\<lambda>(g, k).
     bindE (k_in h VGA_DAC_DATA 1 k) (\<lambda>(b, k).
     bindE (read_colors h n k) (\<lambda>(cs, k). Inr ((ucast r, ucast g, ucast b) # cs, k)))))"

definition read_palette :: "irq_handler \<Rightarrow> kdisk \<Rightarrow> ((u8 \<times> u8 \<times> u8) list \<times> kdisk) res" where
  "read_palette h k = bindE (k_out h VGA_DAC_READ_INDEX 1 0 k) (read_colors h 256)"

section \<open>\<open>lib/syscall.c\<close>\<close>

text \<open>
  \<open>syscall\<close> loads the registers and enters the kernel by \<open>int $0x80\<close>; \<open>do_syscall\<close> looks only at the
  registers of its call, those without an argument are 0 here.
\<close>

definition syscall :: "irq_handler \<Rightarrow> malloc \<Rightarrow> u32 \<Rightarrow> u32 \<Rightarrow> u32 \<Rightarrow> u32 \<Rightarrow> ksys \<Rightarrow> (u32 \<times> ksys) res" where
  "syscall h mm_malloc i a1 a2 a3 s =
     bindE (do_syscall h mm_malloc \<lparr>tf_eax = i, tf_ebx = a1, tf_ecx = a2, tf_edx = a3\<rparr> s)
       (\<lambda>(tf, s). Inr (tf_eax tf, s))"

definition open_file :: "irq_handler \<Rightarrow> malloc \<Rightarrow> u32 \<Rightarrow> u32 \<Rightarrow> ksys \<Rightarrow> (u32 \<times> ksys) res" where
  "open_file h mm_malloc pathname flags s = syscall h mm_malloc 5 pathname flags 0 s"

definition read_file :: "irq_handler \<Rightarrow> malloc \<Rightarrow> u32 \<Rightarrow> u32 \<Rightarrow> u32 \<Rightarrow> ksys \<Rightarrow> (u32 \<times> ksys) res" where
  "read_file h mm_malloc fd buf len s = syscall h mm_malloc 3 fd buf len s"

definition write_file :: "irq_handler \<Rightarrow> malloc \<Rightarrow> u32 \<Rightarrow> u32 \<Rightarrow> u32 \<Rightarrow> ksys \<Rightarrow> (u32 \<times> ksys) res" where
  "write_file h mm_malloc fd buf len s = syscall h mm_malloc 4 fd buf len s"

definition lseek_file :: "irq_handler \<Rightarrow> malloc \<Rightarrow> u32 \<Rightarrow> u32 \<Rightarrow> u32 \<Rightarrow> ksys \<Rightarrow> (u32 \<times> ksys) res" where
  "lseek_file h mm_malloc fd off whence s = syscall h mm_malloc 19 fd off whence s"

definition close_file :: "irq_handler \<Rightarrow> malloc \<Rightarrow> u32 \<Rightarrow> ksys \<Rightarrow> (u32 \<times> ksys) res" where
  "close_file h mm_malloc fd s = syscall h mm_malloc 6 fd 0 0 s"

text \<open>The heap of the C library: \<open>heap_end\<close> is 0 before the first call, \<open>endp\<close> the linker's \<open>end\<close>.\<close>

definition g_sbrk :: "irq_handler \<Rightarrow> malloc \<Rightarrow> u32 \<Rightarrow> int \<Rightarrow> u32 \<Rightarrow> ksys \<Rightarrow> (u32 \<times> u32 \<times> ksys) res" where
  "g_sbrk h mm_malloc endp incr heap_end s =
     (let heap_end = (if heap_end = 0 then endp else heap_end)
      in bindE (syscall h mm_malloc 45 (heap_end + word_of_int incr) 0 0 s) (\<lambda>(r, s).
         assertE ''sbrk'' (r = 0) (Inr (heap_end, heap_end + word_of_int incr, s))))"

definition isatty :: "int \<Rightarrow> int" where "isatty fd = 0"

section \<open>\<open>main.c\<close>\<close>

definition g_add_irq_handle :: "irq_handler \<Rightarrow> malloc \<Rightarrow> u32 \<Rightarrow> u32 \<Rightarrow> ksys \<Rightarrow> ksys res" where
  "g_add_irq_handle h mm_malloc irq handler s =
     bindE (syscall h mm_malloc 0 irq handler 0 s) (\<lambda>(r, s). Inr s)"

text \<open>\<open>game_init\<close> up to \<open>main_loop\<close>; the addresses of the two handlers are the linker's.\<close>

definition game_init :: "irq_handler \<Rightarrow> malloc \<Rightarrow> u32 \<Rightarrow> u32 \<Rightarrow> ksys \<Rightarrow> ksys res" where
  "game_init h mm_malloc timer_event keyboard_event s =
     bindE (init_timer h (drv s)) (\<lambda>k.
     bindE (g_add_irq_handle h mm_malloc 0 timer_event (s\<lparr>drv := k\<rparr>))
       (g_add_irq_handle h mm_malloc 1 keyboard_event))"

section \<open>The palette on the emulated card\<close>

lemma dac_ports:
  "map_of pio_handler_table 0x3C8 = Some Vga_dac_io_handler"
  "map_of pio_handler_table 0x3C9 = Some Vga_dac_io_handler"
  by (simp_all add: pio_handler_table_def)

definition dac_state :: "nat \<Rightarrow> kdisk \<Rightarrow> bool" where
  "dac_state p k \<longleftrightarrow> quiet k \<and> color_ptr (vga (dev k)) = Some p"

definition pal :: "kdisk \<Rightarrow> nat \<Rightarrow> u8" where "pal k = palette (vga (dev k))"

lemma dac_index:
  "quiet k \<Longrightarrow> \<exists>k'. k_out h 0x3C8 1 0 k = Inr k' \<and> dac_state 0 k' \<and> pal k' = pal k"
  by (simp add: k_out_def pio_write_def write_io_port_def read_io_port_def dac_ports run_handler_def
      vga_dac_io_handler_def upd_vga_def dac_state_def pal_def quiet_def store_byte [unfolded One_nat_def]
      le_read_1 [unfolded One_nat_def])

lemma dac_data:
  fixes c :: u8
  assumes "dac_state p k" and "p < 1024"
  shows "\<exists>k'. k_out h 0x3C9 1 (ucast (drop_bit 2 c)) k = Inr k' \<and>
    dac_state (if (p + 1) mod 4 = 3 then p + 2 else p + 1) k' \<and>
    pal k' = (pal k)(p := c AND 0xFC)"
proof -
  have c: "ucast (push_bit 2 (ucast (ucast (drop_bit 2 c) :: u8) :: u32)) = c AND 0xFC"
  proof (rule bit_word_eqI)
    fix n
    assume n: "n < LENGTH(8)"
    have mask: "(0xFC :: u8) = NOT (mask 2)" by (simp add: mask_eq_exp_minus_1)
    have "Suc (Suc (n - 2)) = n" if "2 \<le> n" using that by simp
    with n show "bit (ucast (push_bit 2 (ucast (ucast (drop_bit 2 c) :: u8) :: u32)) :: u8) n = bit (c AND 0xFC) n"
      unfolding mask by (auto simp: bit_simps)
  qed
  show ?thesis
    using assms c
    by (simp add: k_out_def pio_write_def write_io_port_def read_io_port_def dac_ports run_handler_def
      vga_dac_io_handler_def upd_vga_def dac_state_def pal_def quiet_def store_byte [unfolded One_nat_def]
      le_read_1 [unfolded One_nat_def])
qed

definition with_colors :: "(nat \<Rightarrow> nat \<Rightarrow> u8) \<Rightarrow> nat \<Rightarrow> nat \<Rightarrow> (nat \<Rightarrow> u8) \<Rightarrow> nat \<Rightarrow> u8" where
  "with_colors colors i n f = (\<lambda>p. if 4 * i \<le> p \<and> p < 4 * (i + n) \<and> p mod 4 < 3
     then colors (p div 4) (p mod 4) AND 0xFC else f p)"

lemma with_colors_step:
  "with_colors colors (Suc i) n (f(4 * i := colors i 0 AND 0xFC, 4 * i + 1 := colors i 1 AND 0xFC,
     4 * i + 2 := colors i 2 AND 0xFC)) = with_colors colors i (Suc n) f" (is "?l = ?r")
proof
  fix p
  show "?l p = ?r p"
  proof (cases "p div 4 = i")
    case True
    then have "p = 4 * i + p mod 4" using mult_div_mod_eq [of 4 p] by simp
    then have "p = 4 * i \<longleftrightarrow> p mod 4 = 0" "p = 4 * i + 1 \<longleftrightarrow> p mod 4 = 1" "p = 4 * i + 2 \<longleftrightarrow> p mod 4 = 2"
      "4 * i \<le> p" "p < 4 * i + 4" by linarith+
    moreover have "p mod 4 = 0 \<or> p mod 4 = 1 \<or> p mod 4 = 2 \<or> p mod 4 = 3" by linarith
    ultimately show ?thesis using True by (auto simp: with_colors_def)
  next
    case False
    then have "p < 4 * i \<or> 4 * i + 4 \<le> p" by auto
    then show ?thesis by (auto simp: with_colors_def)
  qed
qed

lemma write_colors_ok:
  "dac_state (4 * i) k \<Longrightarrow> i + n \<le> 256 \<Longrightarrow>
   \<exists>k'. write_colors h colors i n k = Inr k' \<and> dac_state (4 * (i + n)) k' \<and>
     pal k' = with_colors colors i n (pal k)"
proof (induction n arbitrary: i k)
  case 0
  then show ?case by (auto simp: with_colors_def fun_eq_iff)
next
  case (Suc n)
  have m: "(4 * i + 1) mod 4 = 1" "(4 * i + 1 + 1) mod 4 = 2" "(4 * i + 2 + 1) mod 4 = 3" by presburger+
  from dac_data [OF Suc.prems(1), of h "colors i 0"] Suc.prems(2) m obtain k1 where
    k1: "k_out h 0x3C9 1 (ucast (drop_bit 2 (colors i 0))) k = Inr k1" "dac_state (4 * i + 1) k1"
      "pal k1 = (pal k)(4 * i := colors i 0 AND 0xFC)" by auto
  from dac_data [OF k1(2), of h "colors i 1"] Suc.prems(2) m obtain k2 where
    k2: "k_out h 0x3C9 1 (ucast (drop_bit 2 (colors i 1))) k1 = Inr k2" "dac_state (4 * i + 2) k2"
      "pal k2 = (pal k1)(4 * i + 1 := colors i 1 AND 0xFC)" by auto
  from dac_data [OF k2(2), of h "colors i 2"] Suc.prems(2) m obtain k3 where
    k3: "k_out h 0x3C9 1 (ucast (drop_bit 2 (colors i 2))) k2 = Inr k3" "dac_state (4 * i + 2 + 2) k3"
      "pal k3 = (pal k2)(4 * i + 2 := colors i 2 AND 0xFC)" by auto
  have "4 * i + 2 + 2 = 4 * Suc i" by simp
  with k3(2) have d3: "dac_state (4 * Suc i) k3" by (simp only:)
  have "Suc i + n \<le> 256" using Suc.prems(2) by simp
  from Suc.IH [OF d3 this] obtain k' where k': "write_colors h colors (Suc i) n k3 = Inr k'"
    "dac_state (4 * (Suc i + n)) k'" "pal k' = with_colors colors (Suc i) n (pal k3)" by blast
  have "pal k' = with_colors colors i (Suc n) (pal k)"
    unfolding k'(3) k3(3) k2(3) k1(3) with_colors_step ..
  with k' k1(1) k2(1) k3(1) show ?case by simp
qed

text \<open>
  The guest's \<open>write_palette\<close> and the emulated DAC agree on the protocol: after it, every component
  of the first \<open>n\<close> colours of the emulated palette is the guest's with its two low bits cleared, no
  other byte of the palette changes, the unused fourth bytes included.
\<close>

lemma write_palette_loads:
  assumes "quiet k" and "0 \<le> n" "n \<le> 256"
  shows "\<exists>k'. write_palette h colors n k = Inr k' \<and>
    (\<forall>p. palette (vga (dev k')) p =
      (if p < 4 * nat n \<and> p mod 4 < 3 then colors (p div 4) (p mod 4) AND 0xFC else palette (vga (dev k)) p))"
proof -
  from dac_index [OF assms(1), of h] obtain k1 where
    k1: "k_out h 0x3C8 1 0 k = Inr k1" "dac_state (4 * 0) k1" "pal k1 = pal k" by auto
  have "0 + nat n \<le> 256" using assms(3) by simp
  from write_colors_ok [OF k1(2) this, of h colors] k1(1,3) show ?thesis
    by (auto simp: write_palette_def pal_def with_colors_def fun_eq_iff)
qed

theorem write_palette_loads_witness:
  "\<exists>k'. write_palette (\<lambda>_. Inr) (\<lambda>i c. of_nat (i + c)) 256
      \<lparr>dev = boot_mach\<lparr>cpu := (cpu boot_mach)\<lparr>intr := 0\<rparr>\<rparr>, has_ide_intr = False, ticks = []\<rparr> = Inr k' \<and>
    palette (vga (dev k')) 21 = 4"
proof -
  let ?k = "\<lparr>dev = boot_mach\<lparr>cpu := (cpu boot_mach)\<lparr>intr := 0\<rparr>\<rparr>, has_ide_intr = False, ticks = []\<rparr>"
  have "quiet ?k" by (simp add: quiet_def)
  from write_palette_loads [OF this, of 256 "\<lambda>_. Inr" "\<lambda>i c. of_nat (i + c)"] show ?thesis
    by fastforce
qed

section \<open>Start-up\<close>

lemma timer_ports: "map_of pio_handler_table 0x40 = Some Handler_timer" "map_of pio_handler_table 0x43 = Some Handler_timer"
  by (simp_all add: pio_handler_table_def)

lemma timer_out:
  assumes "quiet k" and "port = 0x40 \<or> port = 0x43"
  shows "k_out h port 1 d k = Inr (set_port8 (unat port) d k)"
proof -
  have "pio_write port 1 d (dev k) = Inr ((dev k)\<lparr>io_port := (io_port (dev k))(unat port := ucast d)\<rparr>)"
    using assms(2) by (auto simp: pio_write_def write_io_port_def timer_ports run_handler_def handler_timer_def
        store_byte [unfolded One_nat_def])
  moreover have "quiet (set_port8 (unat port) d k)" using assms(1) by simp
  ultimately show ?thesis by (simp add: k_out_def set_port8_def)
qed

lemma init_timer_ok:
  assumes "quiet k"
  shows "\<exists>k'. init_timer h k = Inr k' \<and> quiet k' \<and> io_port (dev k') 0x40 = 46 \<and> io_port (dev k') 0x43 = 0x34"
  using assms
  by (simp add: init_timer_def FREQ_8253_def timer_out [unfolded One_nat_def] set_port8_def quiet_def)

text \<open>
  After \<open>game_init\<close> the timer is programmed and the kernel calls the game's handlers first:
  \<open>timer_event\<close> for interrupt 0 and \<open>keyboard_event\<close> for interrupt 1, in front of what was there.
\<close>

lemma game_init_registers:
  assumes "quiet (drv s)" and "table_inv (irqs s)" and "handle_count (irqs s) \<le> 30"
  shows "\<exists>s'. game_init h mm_malloc te ke s = Inr s' \<and> table_inv (irqs s') \<and>
    handlers (irqs s') 0 = User_routine te # handlers (irqs s) 0 \<and>
    handlers (irqs s') 1 = User_routine ke # handlers (irqs s) 1 \<and>
    io_port (dev (drv s')) 0x40 = 46 \<and> io_port (dev (drv s')) 0x43 = 0x34"
proof -
  have reg: "\<exists>s'. g_add_irq_handle h mm_malloc irq f s = Inr s' \<and> table_inv (irqs s') \<and>
      handle_count (irqs s') = Suc (handle_count (irqs s)) \<and> io_port (dev (drv s')) = io_port (dev (drv s)) \<and>
      (\<forall>q. handlers (irqs s') q = (if q = unat irq then User_routine f # handlers (irqs s) q else handlers (irqs s) q))"
    if t: "table_inv (irqs s)" "handle_count (irqs s) < 32" "irq = 0 \<or> irq = 1" for s and irq f :: u32
  proof -
    let ?t = "(irqs s)\<lparr>handle_count := Suc (handle_count (irqs s)),
      handle_pool := (handle_pool (irqs s))(handle_count (irqs s) :=
        \<lparr>irq_routine = User_routine f, irq_next = handles (irqs s) (unat irq)\<rparr>),
      handles := (handles (irqs s))(unat irq := Some (handle_count (irqs s)))\<rparr>"
    have "g_add_irq_handle h mm_malloc irq f s =
        Inr (set_IF True ((set_IF False s)\<lparr>irqs := ?t\<rparr>))"
      using t(2,3) by (auto simp: g_add_irq_handle_def syscall_def do_syscall_def add_irq_handle_def Let_def set_IF_def)
    moreover have "handlers ?t q = (if q = unat irq then User_routine f # handlers (irqs s) (unat irq) else handlers (irqs s) q)" for q
      by (rule add_handlers [OF t(1) _ refl]) (use t(2) in simp)
    moreover have "table_inv ?t" by (rule add_inv [OF t(1)]) (use t(2) in simp)
    ultimately show ?thesis by (simp add: set_IF_def set_fl_def)
  qed
  obtain k where k: "init_timer h (drv s) = Inr k" "io_port (dev k) 0x40 = 46" "io_port (dev k) 0x43 = 0x34"
    using init_timer_ok [OF assms(1)] by blast
  from reg [of "s\<lparr>drv := k\<rparr>" 0 te] assms(2,3) obtain s1 where
    s1: "g_add_irq_handle h mm_malloc 0 te (s\<lparr>drv := k\<rparr>) = Inr s1" "table_inv (irqs s1)"
      "handle_count (irqs s1) = Suc (handle_count (irqs s))" "io_port (dev (drv s1)) = io_port (dev k)"
      "\<forall>q. handlers (irqs s1) q = (if q = 0 then User_routine te # handlers (irqs s) q else handlers (irqs s) q)"
    by auto
  from reg [of s1 1 ke] s1(2,3) assms(3) obtain s2 where
    s2: "g_add_irq_handle h mm_malloc 1 ke s1 = Inr s2" "table_inv (irqs s2)" "io_port (dev (drv s2)) = io_port (dev k)"
      "\<forall>q. handlers (irqs s2) q = (if q = 1 then User_routine ke # handlers (irqs s1) q else handlers (irqs s1) q)"
    using s1(4) by auto
  show ?thesis using k s1(1,5) s2 by (simp add: game_init_def)
qed

theorem game_init_registers_witness:
  "\<exists>s'. game_init (\<lambda>_. Inr) (\<lambda>_ _ m. Inr (0, m)) 0x800100 0x800200
      \<lparr>drv = \<lparr>dev = boot_mach\<lparr>cpu := (cpu boot_mach)\<lparr>intr := 0\<rparr>\<rparr>, has_ide_intr = False, ticks = []\<rparr>,
        irqs = empty_table, brk = 0\<rparr> = Inr s' \<and>
    handlers (irqs s') 0 = [User_routine 0x800100]"
proof -
  let ?s = "\<lparr>drv = \<lparr>dev = boot_mach\<lparr>cpu := (cpu boot_mach)\<lparr>intr := 0\<rparr>\<rparr>, has_ide_intr = False, ticks = []\<rparr>,
    irqs = empty_table, brk = 0\<rparr> :: ksys"
  have "quiet (drv ?s)" "table_inv (irqs ?s)" "handle_count (irqs ?s) \<le> 30"
    by (simp_all add: quiet_def table_inv_def)
  from game_init_registers [OF this, of "\<lambda>_. Inr" "\<lambda>_ _ m. Inr (0, m)" "0x800100" "0x800200"]
  show ?thesis by (auto simp: handlers_def)
qed

end
