(* ===== verification/PalCommon.thy ===== *)
theory PalCommon
  imports Prelude "HOL-Library.Signed_Division"
begin

text \<open>
  The data formats of the game nemu-pal, \<open>game/src/nemu-pal/global/palcommon.c\<close>: run-length encoded
  bitmaps, sprites and MKF archives. A buffer behind a pointer is the list of its bytes; a read
  behind its end is undefined. The three RLE routines differ in what they store for a byte only and
  share their loops.
\<close>

section \<open>Positions and surfaces\<close>

definition PAL_XY :: "u16 \<Rightarrow> u16 \<Rightarrow> u32" where
  "PAL_XY x y = push_bit 16 (ucast y) OR ucast x"

definition PAL_X :: "u32 \<Rightarrow> int" where "PAL_X xy = sint (ucast xy :: u16)"

definition PAL_Y :: "u32 \<Rightarrow> int" where "PAL_Y xy = sint (ucast (drop_bit 16 xy) :: u16)"

record SDL_Surface =
  sf_w :: int
  sf_h :: int
  pitch :: nat
  pixels :: "nat \<Rightarrow> u8"

definition put_pixel :: "int \<Rightarrow> int \<Rightarrow> u8 \<Rightarrow> SDL_Surface \<Rightarrow> SDL_Surface" where
  "put_pixel x y c s = s\<lparr>pixels := (pixels s)(nat y * pitch s + nat x := c)\<rparr>"

section \<open>RLE bitmaps\<close>

definition le16 :: "u8 list \<Rightarrow> nat \<Rightarrow> nat" where
  "le16 bs i = unat (bs ! i) + 256 * unat (bs ! (i + 1))"

text \<open>Behind the optional \<open>0x00000002\<close> of the file header.\<close>

definition rle_skip :: "u8 list \<Rightarrow> u8 list" where
  "rle_skip bs = (if take 4 bs = [2, 0, 0, 0] then drop 4 bs else bs)"

text \<open>
  The pixels \<open>j\<close>, \<open>j + 1\<close>, ... below \<open>T\<close> of a run that starts at pixel \<open>i\<close> of a bitmap of width \<open>W\<close>.
  The Boolean says that the bottom of the surface was reached (\<open>goto end\<close>).
\<close>

function rle_run :: "(u8 \<Rightarrow> u8) \<Rightarrow> nat \<Rightarrow> int \<Rightarrow> int \<Rightarrow> nat \<Rightarrow> nat \<Rightarrow> u8 list \<Rightarrow> nat \<Rightarrow> SDL_Surface \<Rightarrow>
    (bool \<times> SDL_Surface) res" where
  "rle_run f W dx dy i T run j s =
     (if j \<ge> T then Inr (False, s)
      else if W = 0 then Inl (Undefined ''division by zero'')
      else
        let y = int ((i + j) div W) + dy; x = int ((i + j) mod W) + dx in
        if x < 0 then rle_run f W dx dy i T run (j + nat (- x)) s
        else if x \<ge> sf_w s then rle_run f W dx dy i T run (j + nat (x - sf_w s) + 1) s
        else if y < 0 then rle_run f W dx dy i T run (j + nat (- y) * W) s
        else if y \<ge> sf_h s then Inr (True, s)
        else if j \<ge> length run then Inl (Undefined ''lpBitmapRLE'')
        else rle_run f W dx dy i T run (j + 1) (put_pixel x y (f (run ! j)) s))"
  by pat_completeness auto
termination by (relation "measure (\<lambda>(f, W, dx, dy, i, T, run, j, s). T - j)") (auto intro: diff_less_mono2)

declare rle_run.simps [simp del]

definition is_gap :: "nat \<Rightarrow> u8 \<Rightarrow> bool" where
  "is_gap W T = (bit T 7 \<and> unat T \<le> 0x80 + W)"

function rle_loop :: "(u8 \<Rightarrow> u8) \<Rightarrow> nat \<Rightarrow> nat \<Rightarrow> int \<Rightarrow> int \<Rightarrow> nat \<Rightarrow> u8 list \<Rightarrow> SDL_Surface \<Rightarrow> SDL_Surface res" where
  "rle_loop f W len dx dy i bs s =
     (if i \<ge> len then Inr s
      else case bs of
        [] \<Rightarrow> Inl (Undefined ''lpBitmapRLE'')
      | T # bs \<Rightarrow>
          if is_gap W T then rle_loop f W len dx dy (i + (unat T - 0x80)) bs s
          else bindE (rle_run f W dx dy i (unat T) bs 0 s) (\<lambda>r.
            if fst r then Inr (snd r)
            else rle_loop f W len dx dy (i + unat T) (drop (unat T) bs) (snd r)))"
  by pat_completeness auto
termination by (relation "measure (\<lambda>(f, W, len, dx, dy, i, bs, s). length bs)") auto

declare rle_loop.simps [simp del]

text \<open>The result code 0 is the only one: the model has no null pointers.\<close>

definition rle_blit :: "(u8 \<Rightarrow> u8) \<Rightarrow> u8 list \<Rightarrow> u32 \<Rightarrow> SDL_Surface \<Rightarrow> SDL_Surface res" where
  "rle_blit f bs pos s =
     (let bs = rle_skip bs in
      definedE ''lpBitmapRLE'' (4 \<le> length bs)
       (rle_loop f (le16 bs 0) (le16 bs 0 * le16 bs 2) (PAL_X pos) (PAL_Y pos) 0 (drop 4 bs) s))"

definition PAL_RLEBlitToSurface :: "u8 list \<Rightarrow> SDL_Surface \<Rightarrow> u32 \<Rightarrow> SDL_Surface res" where
  "PAL_RLEBlitToSurface bs s pos = rle_blit id bs pos s"

definition shift_nibble :: "int \<Rightarrow> u8 \<Rightarrow> u8" where
  "shift_nibble k p =
     (let b = int (unat (p AND 0x0F)) in
      if b + k > 0x0F then 0x0F else if b + k < 0 then 0 else of_int (b + k))"

definition PAL_RLEBlitWithColorShift :: "u8 list \<Rightarrow> SDL_Surface \<Rightarrow> u32 \<Rightarrow> int \<Rightarrow> SDL_Surface res" where
  "PAL_RLEBlitWithColorShift bs s pos k = rle_blit (\<lambda>p. shift_nibble k p OR (p AND 0xF0)) bs pos s"

definition PAL_RLEBlitMonoColor :: "u8 list \<Rightarrow> SDL_Surface \<Rightarrow> u32 \<Rightarrow> u8 \<Rightarrow> int \<Rightarrow> SDL_Surface res" where
  "PAL_RLEBlitMonoColor bs s pos bColor k = rle_blit (\<lambda>p. shift_nibble k p OR (bColor AND 0xF0)) bs pos s"

definition PAL_RLEGetWidth :: "u8 list \<Rightarrow> nat res" where
  "PAL_RLEGetWidth bs = definedE ''lpBitmapRLE'' (4 \<le> length (rle_skip bs)) (Inr (le16 (rle_skip bs) 0))"

definition PAL_RLEGetHeight :: "u8 list \<Rightarrow> nat res" where
  "PAL_RLEGetHeight bs = definedE ''lpBitmapRLE'' (4 \<le> length (rle_skip bs)) (Inr (le16 (rle_skip bs) 2))"

text \<open>An uncompressed picture of 320 by 200; the result is the code.\<close>

definition fbp_row :: "u8 list \<Rightarrow> SDL_Surface \<Rightarrow> nat \<Rightarrow> nat \<Rightarrow> u8" where
  "fbp_row bs s y = (\<lambda>q. if y * pitch s \<le> q \<and> q < y * pitch s + 320 then bs ! (y * 320 + (q - y * pitch s)) else pixels s q)"

definition PAL_FBPBlitToSurface :: "u8 list \<Rightarrow> SDL_Surface \<Rightarrow> (int \<times> SDL_Surface) res" where
  "PAL_FBPBlitToSurface bs s =
     (if sf_w s \<noteq> 320 \<or> sf_h s \<noteq> 200 then Inr (- 1, s)
      else definedE ''lpBitmapFBP'' (64000 \<le> length bs)
        (Inr (0, fold (\<lambda>y s. s\<lparr>pixels := fbp_row bs s y\<rparr>) [0..<200] s)))"

section \<open>Sprites\<close>

definition PAL_SpriteGetNumFrames :: "u8 list \<Rightarrow> u16 res" where
  "PAL_SpriteGetNumFrames sp = definedE ''lpSprite'' (2 \<le> length sp) (Inr (of_nat (le16 sp 0) - 1))"

text \<open>The bytes from the frame on; \<open>None\<close> is the null pointer. The offset is cut to 16 bits.\<close>

definition PAL_SpriteGetFrame :: "u8 list \<Rightarrow> int \<Rightarrow> u8 list option res" where
  "PAL_SpriteGetFrame sp n =
     definedE ''lpSprite'' (2 \<le> length sp)
      (if n < 0 \<or> n \<ge> int (le16 sp 0) then Inr None
       else definedE ''lpSprite'' (2 * nat n + 2 \<le> length sp)
         (Inr (Some (drop (2 * le16 sp (2 * nat n) mod 65536) sp))))"

section \<open>MKF archives\<close>

text \<open>\<open>fseek\<close> and \<open>fread\<close> of one word; a read behind the end leaves the variable undefined.\<close>

definition fread32 :: "u8 list \<Rightarrow> nat \<Rightarrow> u32 res" where
  "fread32 fp off = definedE ''fread'' (off + 4 \<le> length fp) (Inr (le_read (\<lambda>i. fp ! (off + i)) 4))"

definition PAL_MKFGetChunkCount :: "u8 list \<Rightarrow> int res" where
  "PAL_MKFGetChunkCount fp = bindE (fread32 fp 0) (\<lambda>n. Inr ((sint n - 4) sdiv 4))"

text \<open>The offsets of a chunk and of the next one, \<open>None\<close> if there is no such chunk.\<close>

definition chunk_offsets :: "u32 \<Rightarrow> u8 list \<Rightarrow> (u32 \<times> u32) option res" where
  "chunk_offsets num fp =
     bindE (PAL_MKFGetChunkCount fp) (\<lambda>n.
       if num \<ge> of_int n then Inr None
       else bindE (fread32 fp (unat (4 * num))) (\<lambda>off.
            bindE (fread32 fp (unat (4 * num) + 4)) (\<lambda>nxt. Inr (Some (off, nxt)))))"

definition PAL_MKFGetChunkSize :: "u32 \<Rightarrow> u8 list \<Rightarrow> int res" where
  "PAL_MKFGetChunkSize num fp =
     bindE (chunk_offsets num fp) (\<lambda>r. case r of None \<Rightarrow> Inr (- 1) | Some (off, nxt) \<Rightarrow> Inr (sint (nxt - off)))"

text \<open>The result code and the bytes put at the front of the buffer.\<close>

definition PAL_MKFReadChunk :: "u32 \<Rightarrow> u32 \<Rightarrow> u8 list \<Rightarrow> (int \<times> u8 list) res" where
  "PAL_MKFReadChunk cap num fp =
     (if cap = 0 then Inr (- 1, [])
      else bindE (chunk_offsets num fp) (\<lambda>r. case r of
        None \<Rightarrow> Inr (- 1, [])
      | Some (off, nxt) \<Rightarrow>
          let len = nxt - off in
          if len > cap then Inr (- 2, [])
          else if len \<noteq> 0 then Inr (sint len, take (unat len) (drop (unat off) fp))
          else Inr (- 1, [])))"

definition PAL_MKFGetDecompressedSize :: "u32 \<Rightarrow> u8 list \<Rightarrow> int res" where
  "PAL_MKFGetDecompressedSize num fp =
     bindE (PAL_MKFGetChunkCount fp) (\<lambda>n.
       if num \<ge> of_int n then Inr (- 1)
       else bindE (fread32 fp (unat (4 * num))) (\<lambda>off.
            bindE (fread32 fp (unat off)) (\<lambda>signature.
            bindE (fread32 fp (unat off + 4)) (\<lambda>len.
              Inr (if signature \<noteq> 0x315f4a59 then - 1 else sint len)))))"

end
