(* ===== verification/PalYj1.thy ===== *)
theory PalYj1
  imports PalCommon
begin

text \<open>
  The decompressor of the game data, \<open>game/src/nemu-pal/misc/yj1.c\<close>, and the routine of
  \<open>palcommon.c\<close> that reads a compressed chunk of an archive. The source is a list of bytes, the
  destination a memory and the number of bytes written; an access outside either is undefined.
\<close>

section \<open>Reading the source\<close>

definition src8 :: "u8 list \<Rightarrow> nat \<Rightarrow> nat res" where
  "src8 src i = definedE ''Source'' (i < length src) (Inr (unat (src ! i)))"

definition src16 :: "u8 list \<Rightarrow> nat \<Rightarrow> nat res" where
  "src16 src i = definedE ''Source'' (i + 1 < length src) (Inr (le16 src i))"

text \<open>
  \<open>count\<close> bits from bit \<open>p\<close> behind byte \<open>b\<close>, most significant bit first in words of 16 bits; the new
  position is \<open>p + count\<close>. More than a word and a bit is a shift by a negative number.
\<close>

definition get_bits :: "u8 list \<Rightarrow> nat \<Rightarrow> nat \<Rightarrow> nat \<Rightarrow> nat res" where
  "get_bits src b p count =
     (let i = b + p div 16 * 2; bptr = p mod 16 in
      bindE (src16 src i) (\<lambda>w.
        if count > 16 - bptr then
          let c = count + bptr - 16 in
          definedE ''get_bits'' (c \<le> 16)
           (bindE (src16 src (i + 2)) (\<lambda>w'. Inr (w mod 2 ^ (16 - bptr) * 2 ^ c + w' div 2 ^ (16 - c))))
        else Inr (w * 2 ^ bptr mod 65536 div 2 ^ (16 - count))))"

text \<open>The header of a block; the numbers are the offsets of its fields.\<close>

record YJ_1_BLOCKHEADER =
  UncompressedLength :: nat
  CompressedLength :: nat
  LZSSRepeatTable :: "nat list"
  LZSSOffsetCodeLengthTable :: "nat list"
  LZSSRepeatCodeLengthTable :: "nat list"
  CodeCountCodeLengthTable :: "nat list"
  CodeCountTable :: "nat list"

definition read_block_header :: "u8 list \<Rightarrow> nat \<Rightarrow> YJ_1_BLOCKHEADER" where
  "read_block_header src i =
     \<lparr>UncompressedLength = le16 src i, CompressedLength = le16 src (i + 2),
      LZSSRepeatTable = map (\<lambda>k. le16 src (i + 4 + 2 * k)) [0..<4],
      LZSSOffsetCodeLengthTable = map (\<lambda>k. unat (src ! (i + 12 + k))) [0..<4],
      LZSSRepeatCodeLengthTable = map (\<lambda>k. unat (src ! (i + 16 + k))) [0..<3],
      CodeCountCodeLengthTable = map (\<lambda>k. unat (src ! (i + 19 + k))) [0..<3],
      CodeCountTable = map (\<lambda>k. unat (src ! (i + 22 + k))) [0..<2]\<rparr>"

text \<open>The value and the new bit position.\<close>

definition get_loop :: "u8 list \<Rightarrow> nat \<Rightarrow> nat \<Rightarrow> YJ_1_BLOCKHEADER \<Rightarrow> (nat \<times> nat) res" where
  "get_loop src b p h =
     bindE (get_bits src b p 1) (\<lambda>v.
       if v \<noteq> 0 then Inr (CodeCountTable h ! 0, p + 1)
       else bindE (get_bits src b (p + 1) 2) (\<lambda>t.
         if t \<noteq> 0 then
           let n = CodeCountCodeLengthTable h ! (t - 1) in
           bindE (get_bits src b (p + 3) n) (\<lambda>v. Inr (v mod 65536, p + 3 + n))
         else Inr (CodeCountTable h ! 1, p + 3)))"

definition get_count :: "u8 list \<Rightarrow> nat \<Rightarrow> nat \<Rightarrow> YJ_1_BLOCKHEADER \<Rightarrow> (nat \<times> nat) res" where
  "get_count src b p h =
     bindE (get_bits src b p 2) (\<lambda>t.
       if t \<noteq> 0 then
         bindE (get_bits src b (p + 2) 1) (\<lambda>v.
           if v \<noteq> 0 then
             let n = LZSSRepeatCodeLengthTable h ! (t - 1) in
             bindE (get_bits src b (p + 3) n) (\<lambda>v. Inr (v mod 65536, p + 3 + n))
           else Inr (LZSSRepeatTable h ! t, p + 3))
       else Inr (LZSSRepeatTable h ! 0, p + 2))"

section \<open>The Huffman tree\<close>

record TreeNode =
  leaf :: bool
  node_value :: u8
  left :: nat
  right :: nat

text \<open>The nodes are numbered as in the array of the source; node 0 is the root.\<close>

definition tree_node :: "u8 list \<Rightarrow> nat \<Rightarrow> nat \<Rightarrow> TreeNode res" where
  "tree_node src tree_len i =
     bindE (get_bits src (16 + tree_len) (i - 1) 1) (\<lambda>v.
     bindE (src8 src (15 + i)) (\<lambda>w.
       Inr \<lparr>leaf = (v = 0), node_value = of_nat w, left = 2 * w + 1, right = 2 * w + 2\<rparr>))"

fun tree_nodes :: "u8 list \<Rightarrow> nat \<Rightarrow> nat list \<Rightarrow> TreeNode list res" where
  "tree_nodes src tree_len [] = Inr []"
| "tree_nodes src tree_len (i # is) =
     bindE (tree_node src tree_len i) (\<lambda>t. bindE (tree_nodes src tree_len is) (\<lambda>ts. Inr (t # ts)))"

definition build_tree :: "u8 list \<Rightarrow> nat \<Rightarrow> TreeNode list res" where
  "build_tree src tree_len =
     bindE (tree_nodes src tree_len [1..<tree_len + 1]) (\<lambda>ts.
       Inr (\<lparr>leaf = False, node_value = 0, left = 1, right = 2\<rparr> # ts))"

lemma get_bits_bound: "get_bits src b p n = Inr v \<Longrightarrow> p < 8 * length src"
  by (auto simp: get_bits_def Let_def src16_def bindE_eq_Inr definedE_eq_Inr)

text \<open>From a node down to a leaf: its value and the new bit position.\<close>

function walk_tree :: "TreeNode list \<Rightarrow> u8 list \<Rightarrow> nat \<Rightarrow> nat \<Rightarrow> nat \<Rightarrow> (u8 \<times> nat) res" where
  "walk_tree tree src b p i =
     (if i \<ge> length tree then Inl (Undefined ''node'')
      else if leaf (tree ! i) then Inr (node_value (tree ! i), p)
      else case get_bits src b p 1 of
        Inl e \<Rightarrow> Inl e
      | Inr v \<Rightarrow> walk_tree tree src b (p + 1) (if v \<noteq> 0 then right (tree ! i) else left (tree ! i)))"
  by pat_completeness auto
termination
  by (relation "measure (\<lambda>(tree, src, b, p, i). 8 * length src - p)") (auto dest: get_bits_bound)

declare walk_tree.simps [simp del]

section \<open>Writing the destination\<close>

type_synonym dest = "(nat \<Rightarrow> u8) \<times> nat"

definition emit :: "nat \<Rightarrow> u8 \<Rightarrow> dest \<Rightarrow> dest res" where
  "emit cap v d = definedE ''Destination'' (snd d < cap) (Inr ((fst d)(snd d := v), snd d + 1))"

fun emit_all :: "nat \<Rightarrow> u8 list \<Rightarrow> dest \<Rightarrow> dest res" where
  "emit_all cap [] d = Inr d"
| "emit_all cap (v # vs) d = bindE (emit cap v d) (emit_all cap vs)"

text \<open>\<open>loop\<close> bytes through the tree.\<close>

fun literals :: "nat \<Rightarrow> TreeNode list \<Rightarrow> u8 list \<Rightarrow> nat \<Rightarrow> nat \<Rightarrow> nat \<Rightarrow> dest \<Rightarrow> (nat \<times> dest) res" where
  "literals cap tree src b 0 p d = Inr (p, d)"
| "literals cap tree src b (Suc loop) p d =
     bindE (walk_tree tree src b p 0) (\<lambda>(v, p). bindE (emit cap v d) (literals cap tree src b loop p))"

text \<open>\<open>count\<close> bytes from \<open>pos\<close> bytes back.\<close>

fun copy_back :: "nat \<Rightarrow> nat \<Rightarrow> nat \<Rightarrow> dest \<Rightarrow> dest res" where
  "copy_back cap pos 0 d = Inr d"
| "copy_back cap pos (Suc count) d =
     definedE ''Destination'' (pos \<le> snd d \<and> snd d < cap)
       (bindE (emit cap (fst d (snd d - pos)) d) (copy_back cap pos count))"

fun repeats :: "nat \<Rightarrow> YJ_1_BLOCKHEADER \<Rightarrow> u8 list \<Rightarrow> nat \<Rightarrow> nat \<Rightarrow> nat \<Rightarrow> dest \<Rightarrow> (nat \<times> dest) res" where
  "repeats cap h src b 0 p d = Inr (p, d)"
| "repeats cap h src b (Suc loop) p d =
     bindE (get_count src b p h) (\<lambda>(count, p).
     bindE (get_bits src b p 2) (\<lambda>k.
     bindE (get_bits src b (p + 2) (LZSSOffsetCodeLengthTable h ! k)) (\<lambda>pos.
     bindE (copy_back cap pos count d)
       (repeats cap h src b loop (p + 2 + LZSSOffsetCodeLengthTable h ! k)))))"

section \<open>Blocks\<close>

lemma walk_tree_mono: "walk_tree tree src b p i = Inr (v, p') \<Longrightarrow> p \<le> p'"
proof (induction tree src b p i rule: walk_tree.induct)
  case (1 tree src b p i)
  from "1.prems" show ?case
    by (subst (asm) walk_tree.simps) (auto split: if_splits sum.splits dest!: "1.IH")
qed

lemma literals_mono: "literals cap tree src b loop p d = Inr (p', d') \<Longrightarrow> p \<le> p'"
  by (induction loop arbitrary: p d) (fastforce simp: bindE_eq_Inr dest: walk_tree_mono)+

lemma get_loop_mono: "get_loop src b p h = Inr (n, p') \<Longrightarrow> p < p' \<and> p < 8 * length src"
  by (auto simp: get_loop_def Let_def bindE_eq_Inr split: if_splits dest: get_bits_bound)

lemma get_count_mono: "get_count src b p h = Inr (n, p') \<Longrightarrow> p \<le> p'"
  by (auto simp: get_count_def Let_def bindE_eq_Inr split: if_splits)

lemma repeats_mono: "repeats cap h src b loop p d = Inr (p', d') \<Longrightarrow> p \<le> p'"
  by (induction loop arbitrary: p d) (fastforce simp: bindE_eq_Inr dest: get_count_mono)+

text \<open>The literals and the first repeat count of one round; \<open>None\<close> when the round ends the block.\<close>

definition round_head :: "nat \<Rightarrow> TreeNode list \<Rightarrow> YJ_1_BLOCKHEADER \<Rightarrow> u8 list \<Rightarrow> nat \<Rightarrow> nat \<Rightarrow> dest \<Rightarrow>
    ((nat \<times> nat) option \<times> dest) res" where
  "round_head cap tree h src b p d =
     bindE (get_loop src b p h) (\<lambda>(loop, p).
       if loop = 0 then Inr (None, d)
       else bindE (literals cap tree src b loop p d) (\<lambda>(p, d).
            bindE (get_loop src b p h) (\<lambda>(loop, p).
              Inr (if loop = 0 then None else Some (loop, p), d))))"

lemma round_head_mono: "round_head cap tree h src b p d = Inr (Some (n, p'), d') \<Longrightarrow> p < p' \<and> p < 8 * length src"
  by (auto simp: round_head_def bindE_eq_Inr split: if_splits dest!: get_loop_mono literals_mono)

function block_loop :: "nat \<Rightarrow> TreeNode list \<Rightarrow> YJ_1_BLOCKHEADER \<Rightarrow> u8 list \<Rightarrow> nat \<Rightarrow> nat \<Rightarrow> dest \<Rightarrow> dest res" where
  "block_loop cap tree h src b p d =
     (case round_head cap tree h src b p d of
        Inl e \<Rightarrow> Inl e
      | Inr (None, d) \<Rightarrow> Inr d
      | Inr (Some (loop, p), d) \<Rightarrow>
          (case repeats cap h src b loop p d of
             Inl e \<Rightarrow> Inl e
           | Inr (p, d) \<Rightarrow> block_loop cap tree h src b p d))"
  by pat_completeness auto
termination
proof (relation "measure (\<lambda>(cap, tree, h, src, b, p, d). 8 * length src - p)", goal_cases)
  case (2 cap tree h src b p d hd r d1 pr loop p1 pd p2 d2)
  then show ?case using round_head_mono [of cap tree h src b p d loop p1] repeats_mono [of cap h src b loop p1] by fastforce
qed simp

declare block_loop.simps [simp del]

text \<open>
  The blocks from byte \<open>i\<close> on. A block without compressed length holds its bytes as they are.
\<close>

fun blocks :: "nat \<Rightarrow> TreeNode list \<Rightarrow> u8 list \<Rightarrow> nat \<Rightarrow> nat \<Rightarrow> dest \<Rightarrow> dest res" where
  "blocks cap tree src 0 i d = Inr d"
| "blocks cap tree src (Suc n) i d =
     bindE (src16 src i) (\<lambda>hul.
     bindE (src16 src (i + 2)) (\<lambda>len.
       if len = 0 then
         bindE (emit_all cap (take hul (drop (i + 4) src)) d) (\<lambda>d.
           definedE ''Source'' (i + 4 + hul \<le> length src) (blocks cap tree src n (i + 4 + hul) d))
       else definedE ''Source'' (i + 24 \<le> length src)
         (bindE (block_loop cap tree (read_block_header src i) src (i + 24) 0 d) (\<lambda>d.
           blocks cap tree src n (i + len) d))))"

section \<open>\<open>Decompress\<close>\<close>

text \<open>\<open>mem\<close> is the destination buffer and \<open>DestSize\<close> its size; the first result is the code.\<close>

definition Decompress :: "u8 list \<Rightarrow> (nat \<Rightarrow> u8) \<Rightarrow> int \<Rightarrow> (int \<times> (nat \<Rightarrow> u8)) res" where
  "Decompress src mem DestSize =
     bindE (fread32 src 0) (\<lambda>sig.
       if sig \<noteq> 0x315f4a59 then Inr (- 1, mem)
       else bindE (fread32 src 4) (\<lambda>ulen.
         if ulen > word_of_int DestSize then Inr (- 1, mem)
         else bindE (src8 src 15) (\<lambda>hl.
           let tree_len = hl * 2;
               start = 16 + tree_len + (if tree_len mod 16 \<noteq> 0 then tree_len div 16 + 1 else tree_len div 16) * 2 in
           bindE (build_tree src tree_len) (\<lambda>tree.
           bindE (src16 src 12) (\<lambda>n.
           bindE (blocks (unat (word_of_int DestSize :: u32)) tree src n start (mem, 0)) (\<lambda>d.
             Inr (sint ulen, fst d)))))))"

text \<open>Of an archive; the chunk is read into a buffer of its size.\<close>

definition PAL_MKFDecompressChunk :: "(nat \<Rightarrow> u8) \<Rightarrow> u32 \<Rightarrow> u32 \<Rightarrow> u8 list \<Rightarrow> (int \<times> (nat \<Rightarrow> u8)) res" where
  "PAL_MKFDecompressChunk mem cap num fp =
     bindE (PAL_MKFGetChunkSize num fp) (\<lambda>len.
       if len \<le> 0 then Inr (len, mem)
       else bindE (PAL_MKFReadChunk (word_of_int len) num fp) (\<lambda>(_, bytes).
         Decompress bytes mem (sint cap)))"

end
