(* ===== verification/PalBlit.thy ===== *)
theory PalBlit
  imports PalCommon
begin

text \<open>
  The RLE routines against a reference: the pixels a bitmap encodes, drawn one by one where they fall on
  the surface. They agree when every run stays in its row; a run that crosses rows can lose pixels.
\<close>

section \<open>The pixels of a bitmap\<close>

text \<open>Index and byte of every pixel; \<open>None\<close> if the data ends too early.\<close>

function rle_decode :: "nat \<Rightarrow> nat \<Rightarrow> nat \<Rightarrow> u8 list \<Rightarrow> (nat \<times> u8) list option" where
  "rle_decode W len i bs =
     (if i \<ge> len then Some []
      else case bs of
        [] \<Rightarrow> None
      | T # bs \<Rightarrow>
          if is_gap W T then rle_decode W len (i + (unat T - 0x80)) bs
          else if length bs < unat T then None
          else map_option (\<lambda>ps. map (\<lambda>k. (i + k, bs ! k)) [0..<unat T] @ ps)
            (rle_decode W len (i + unat T) (drop (unat T) bs)))"
  by pat_completeness auto
termination by (relation "measure (\<lambda>(W, len, i, bs). length bs)") auto

declare rle_decode.simps [simp del]

function runs_in_rows :: "nat \<Rightarrow> nat \<Rightarrow> nat \<Rightarrow> u8 list \<Rightarrow> bool" where
  "runs_in_rows W len i bs =
     (i \<ge> len \<or> (case bs of
        [] \<Rightarrow> True
      | T # bs \<Rightarrow>
          if is_gap W T then runs_in_rows W len (i + (unat T - 0x80)) bs
          else (\<forall>k < unat T. (i + k) div W = i div W) \<and> runs_in_rows W len (i + unat T) (drop (unat T) bs)))"
  by pat_completeness auto
termination by (relation "measure (\<lambda>(W, len, i, bs). length bs)") auto

declare runs_in_rows.simps [simp del]

definition on_surface :: "nat \<Rightarrow> int \<Rightarrow> int \<Rightarrow> SDL_Surface \<Rightarrow> nat \<Rightarrow> bool" where
  "on_surface W dx dy s p \<longleftrightarrow>
     0 \<le> int (p mod W) + dx \<and> int (p mod W) + dx < sf_w s \<and> 0 \<le> int (p div W) + dy \<and> int (p div W) + dy < sf_h s"

definition draw :: "(u8 \<Rightarrow> u8) \<Rightarrow> nat \<Rightarrow> int \<Rightarrow> int \<Rightarrow> nat \<times> u8 \<Rightarrow> SDL_Surface \<Rightarrow> SDL_Surface" where
  "draw f W dx dy pb s =
     (if on_surface W dx dy s (fst pb)
      then put_pixel (int (fst pb mod W) + dx) (int (fst pb div W) + dy) (f (snd pb)) s else s)"

lemma put_pixel_sel [simp]:
  "sf_w (put_pixel x y c s) = sf_w s" "sf_h (put_pixel x y c s) = sf_h s" "pitch (put_pixel x y c s) = pitch s"
  by (simp_all add: put_pixel_def)

lemma draw_sel [simp]:
  "sf_w (draw f W dx dy pb s) = sf_w s" "sf_h (draw f W dx dy pb s) = sf_h s" "pitch (draw f W dx dy pb s) = pitch s"
  by (simp_all add: draw_def)

lemma fold_draw_sel [simp]:
  "sf_w (fold (draw f W dx dy) ps s) = sf_w s" "sf_h (fold (draw f W dx dy) ps s) = sf_h s"
  "pitch (fold (draw f W dx dy) ps s) = pitch s"
  by (induction ps arbitrary: s) simp_all

lemma on_surface_cong [simp]:
  "on_surface W dx dy (put_pixel x y c s) = on_surface W dx dy s"
  "on_surface W dx dy (fold (draw f W dx dy) ps s) = on_surface W dx dy s"
  by (simp_all add: on_surface_def fun_eq_iff)

lemma fold_draw_hidden: "\<forall>pb \<in> set ps. \<not> on_surface W dx dy s (fst pb) \<Longrightarrow> fold (draw f W dx dy) ps s = s"
  by (induction ps) (auto simp: draw_def)

section \<open>One run\<close>

definition run_pixels :: "nat \<Rightarrow> nat \<Rightarrow> u8 list \<Rightarrow> nat \<Rightarrow> (nat \<times> u8) list" where
  "run_pixels i T run j = map (\<lambda>k. (i + k, run ! k)) [j..<T]"

lemma run_pixels_skip:
  assumes "j \<le> j'" and "\<forall>k. j \<le> k \<and> k < j' \<and> k < T \<longrightarrow> \<not> on_surface W dx dy s (i + k)"
  shows "fold (draw f W dx dy) (run_pixels i T run j) s = fold (draw f W dx dy) (run_pixels i T run j') s"
proof (cases "j' < T")
  case True
  then have "run_pixels i T run j = map (\<lambda>k. (i + k, run ! k)) [j..<j'] @ run_pixels i T run j'"
    using assms(1) upt_add_eq_append [of j j' "T - j'"] by (simp add: run_pixels_def)
  moreover have "fold (draw f W dx dy) (map (\<lambda>k. (i + k, run ! k)) [j..<j']) s = s"
    using assms(2) True by (intro fold_draw_hidden) auto
  ultimately show ?thesis by simp
next
  case False
  then have "fold (draw f W dx dy) (run_pixels i T run j) s = s"
    using assms(2) by (intro fold_draw_hidden) (auto simp: run_pixels_def)
  with False show ?thesis by (simp add: run_pixels_def)
qed

lemma row_mod:
  fixes i j k W :: nat
  assumes "(i + k) div W = (i + j) div W" and "j \<le> k"
  shows "(i + k) mod W = (i + j) mod W + (k - j)"
proof -
  have "i + k = (i + j) div W * W + (i + k) mod W" using div_mult_mod_eq [of "i + k" W] unfolding assms(1) by simp
  moreover have "i + j = (i + j) div W * W + (i + j) mod W" by simp
  ultimately show ?thesis using assms(2) by linarith
qed

text \<open>The five cases of the loop body.\<close>

lemma rle_run_cases:
  fixes i j T W :: nat and dx dy :: int
  defines "x \<equiv> int ((i + j) mod W) + dx" and "y \<equiv> int ((i + j) div W) + dy"
  assumes "j < T" and "W \<noteq> 0"
  shows "x < 0 \<Longrightarrow> rle_run f W dx dy i T run j s = rle_run f W dx dy i T run (j + nat (- x)) s"
    and "0 \<le> x \<Longrightarrow> sf_w s \<le> x \<Longrightarrow> rle_run f W dx dy i T run j s = rle_run f W dx dy i T run (j + nat (x - sf_w s) + 1) s"
    and "0 \<le> x \<Longrightarrow> x < sf_w s \<Longrightarrow> y < 0 \<Longrightarrow> rle_run f W dx dy i T run j s = rle_run f W dx dy i T run (j + nat (- y) * W) s"
    and "0 \<le> x \<Longrightarrow> x < sf_w s \<Longrightarrow> 0 \<le> y \<Longrightarrow> sf_h s \<le> y \<Longrightarrow> rle_run f W dx dy i T run j s = Inr (True, s)"
    and "0 \<le> x \<Longrightarrow> x < sf_w s \<Longrightarrow> 0 \<le> y \<Longrightarrow> y < sf_h s \<Longrightarrow> j < length run \<Longrightarrow>
      rle_run f W dx dy i T run j s = rle_run f W dx dy i T run (j + 1) (put_pixel x y (f (run ! j)) s)"
  using assms(3,4) unfolding rle_run.simps [of f W dx dy i T run j s] Let_def x_def [symmetric] y_def [symmetric]
  by simp_all

lemma rle_run_draws:
  assumes W: "W \<noteq> 0" and row: "\<forall>k < T. (i + k) div W = i div W" and len: "T \<le> length run"
  shows "\<exists>stop. rle_run f W dx dy i T run j s = Inr (stop, fold (draw f W dx dy) (run_pixels i T run j) s) \<and>
    (stop \<longrightarrow> int (i div W) + dy \<ge> sf_h s)"
proof (induction "T - j" arbitrary: j s rule: less_induct)
  case less
  define x where "x = int ((i + j) mod W) + dx"
  define y where "y = int ((i + j) div W) + dy"
  show ?case
  proof (cases "j < T")
    case False
    then show ?thesis
      by (intro exI [of _ False]) (simp add: rle_run.simps [of f W dx dy i T run j s] run_pixels_def)
  next
    case jT: True
    note step = rle_run_cases [OF jT W, where i = i and dx = dx and dy = dy and f = f and run = run and s = s, folded x_def y_def]
    have yi: "int (i div W) + dy = y" using row jT by (simp add: y_def)
    have ky: "int ((i + k) div W) + dy = y" if "k < T" for k using row that yi by simp
    have kx: "int ((i + k) mod W) + dx = x + int (k - j)" if "j \<le> k" "k < T" for k
      using row_mod [of i k W j] row that jT by (simp add: x_def)
    have skip: ?thesis if j': "j < j'" "rle_run f W dx dy i T run j s = rle_run f W dx dy i T run j' s"
      "\<And>k. j \<le> k \<Longrightarrow> k < j' \<Longrightarrow> k < T \<Longrightarrow> \<not> on_surface W dx dy s (i + k)" for j'
    proof -
      have "fold (draw f W dx dy) (run_pixels i T run j) s = fold (draw f W dx dy) (run_pixels i T run j') s"
        using j'(1,3) by (intro run_pixels_skip) auto
      then show ?thesis using less [of j' s] j'(1,2) jT by simp
    qed
    consider "x < 0" | "0 \<le> x" "sf_w s \<le> x" | "0 \<le> x" "x < sf_w s" "y < 0"
      | "0 \<le> x" "x < sf_w s" "0 \<le> y" "sf_h s \<le> y" | "0 \<le> x" "x < sf_w s" "0 \<le> y" "y < sf_h s" by linarith
    then show ?thesis
    proof cases
      case 1
      show ?thesis
        by (rule skip [OF _ step(1) [OF 1]]) (use 1 kx in \<open>auto simp: on_surface_def\<close>)
    next
      case 2
      show ?thesis
        by (rule skip [OF _ step(2) [OF 2]]) (use 2 kx in \<open>auto simp: on_surface_def\<close>)
    next
      case 3
      show ?thesis
        by (rule skip [OF _ step(3) [OF 3]]) (use 3 ky W in \<open>auto simp: on_surface_def\<close>)
    next
      case 4
      have "fold (draw f W dx dy) (run_pixels i T run j) s = s"
        using 4 ky by (intro fold_draw_hidden) (auto simp: on_surface_def run_pixels_def)
      then show ?thesis using step(4) [OF 4] 4 yi by (intro exI [of _ True]) simp
    next
      case 5
      have "run_pixels i T run j = (i + j, run ! j) # run_pixels i T run (j + 1)"
        using jT by (simp add: run_pixels_def upt_rec [of j])
      moreover have "draw f W dx dy (i + j, run ! j) s = put_pixel x y (f (run ! j)) s"
        using 5 by (simp add: draw_def on_surface_def x_def y_def)
      ultimately show ?thesis
        using less [of "j + 1" "put_pixel x y (f (run ! j)) s"] jT len step(5) [OF 5] by auto
    qed
  qed
qed

section \<open>A whole bitmap\<close>

lemma rle_decode_ge:
  "rle_decode W len i bs = Some ps \<Longrightarrow> \<forall>pb \<in> set ps. i \<le> fst pb"
proof (induction W len i bs arbitrary: ps rule: rle_decode.induct)
  case (1 W len i bs)
  show ?case
  proof (cases "i \<ge> len \<or> bs = []")
    case True
    with "1.prems" show ?thesis by (subst (asm) rle_decode.simps) (auto split: if_splits)
  next
    case False
    then obtain T bs' where bs: "bs = T # bs'" by (cases bs) auto
    show ?thesis
    proof (cases "is_gap W T")
      case True
      with "1.prems" False bs have "rle_decode W len (i + (unat T - 0x80)) bs' = Some ps"
        by (subst (asm) rle_decode.simps) simp
      from "1.IH"(1) [OF _ bs True this] False show ?thesis by fastforce
    next
      case False
      with "1.prems" \<open>\<not> (i \<ge> len \<or> bs = [])\<close> bs obtain qs where qs: "length bs' \<ge> unat T"
        "rle_decode W len (i + unat T) (drop (unat T) bs') = Some qs"
        "ps = map (\<lambda>k. (i + k, bs' ! k)) [0..<unat T] @ qs"
        by (subst (asm) rle_decode.simps) (auto split: if_splits)
      from "1.IH"(2) [OF _ bs False _ qs(2)] \<open>\<not> (i \<ge> len \<or> bs = [])\<close> qs(1) show ?thesis
        unfolding qs(3) by fastforce
    qed
  qed
qed

lemma div_mono_int: "i \<le> p \<Longrightarrow> int (i div W) \<le> int (p div W)"
  by (simp add: div_le_mono)

lemma rle_loop_draws:
  "rle_decode W len i bs = Some ps \<Longrightarrow> runs_in_rows W len i bs \<Longrightarrow> W \<noteq> 0 \<Longrightarrow>
   rle_loop f W len dx dy i bs s = Inr (fold (draw f W dx dy) ps s)"
proof (induction W len i bs arbitrary: ps s rule: rle_decode.induct)
  case (1 W len i bs)
  show ?case
  proof (cases "i \<ge> len \<or> bs = []")
    case True
    with "1.prems"(1) show ?thesis
      by (subst (asm) rle_decode.simps, subst rle_loop.simps) (auto split: if_splits)
  next
    case False
    then obtain T bs' where bs: "bs = T # bs'" by (cases bs) auto
    have len: "\<not> i \<ge> len" using False by simp
    show ?thesis
    proof (cases "is_gap W T")
      case True
      with "1.prems"(1) [unfolded rle_decode.simps [of W len i bs]] "1.prems"(2) [unfolded runs_in_rows.simps [of W len i bs]]
        len bs have "rle_decode W len (i + (unat T - 0x80)) bs' = Some ps"
        "runs_in_rows W len (i + (unat T - 0x80)) bs'" by simp_all
      from "1.IH"(1) [OF len bs True this "1.prems"(3)] show ?thesis
        using True len bs by (subst rle_loop.simps) simp
    next
      case gap: False
      from "1.prems"(1) len bs gap obtain qs where qs: "length bs' \<ge> unat T"
        "rle_decode W len (i + unat T) (drop (unat T) bs') = Some qs"
        "ps = map (\<lambda>k. (i + k, bs' ! k)) [0..<unat T] @ qs"
        by (subst (asm) rle_decode.simps) (auto split: if_splits)
      from "1.prems"(2) len bs gap have rows: "\<forall>k < unat T. (i + k) div W = i div W"
        "runs_in_rows W len (i + unat T) (drop (unat T) bs')"
        unfolding runs_in_rows.simps [of W len i bs] by simp_all
      define s1 where "s1 = fold (draw f W dx dy) (run_pixels i (unat T) bs' 0) s"
      from rle_run_draws [OF "1.prems"(3) rows(1) qs(1), of f dx dy 0 s, folded s1_def]
      obtain stop where stop: "rle_run f W dx dy i (unat T) bs' 0 s = Inr (stop, s1)"
        "stop \<longrightarrow> int (i div W) + dy \<ge> sf_h s" by blast
      have ps: "fold (draw f W dx dy) ps s = fold (draw f W dx dy) qs s1"
        by (simp add: qs(3) s1_def run_pixels_def)
      show ?thesis
      proof (cases stop)
        case True
        have "\<forall>pb \<in> set qs. \<not> on_surface W dx dy s1 (fst pb)"
        proof
          fix pb assume "pb \<in> set qs"
          then have "i \<le> fst pb" using rle_decode_ge [OF qs(2)] by fastforce
          then show "\<not> on_surface W dx dy s1 (fst pb)"
            using stop(2) True div_mono_int [of i "fst pb" W] by (auto simp: on_surface_def s1_def)
        qed
        then have "fold (draw f W dx dy) qs s1 = s1" by (rule fold_draw_hidden)
        then show ?thesis using True stop(1) len bs gap ps by (subst rle_loop.simps) simp
      next
        case False
        have "rle_loop f W len dx dy (i + unat T) (drop (unat T) bs') s1 = Inr (fold (draw f W dx dy) qs s1)"
          using "1.IH"(2) [OF len bs gap _ qs(2) rows(2) "1.prems"(3)] qs(1) by simp
        then show ?thesis using False stop(1) len bs gap ps by (subst rle_loop.simps) simp
      qed
    qed
  qed
qed

section \<open>Nothing outside the surface\<close>

definition visible_pixels :: "SDL_Surface \<Rightarrow> nat set" where
  "visible_pixels s = {nat y * pitch s + nat x |x y. 0 \<le> x \<and> x < sf_w s \<and> 0 \<le> y \<and> y < sf_h s}"

definition only_visible :: "SDL_Surface \<Rightarrow> SDL_Surface \<Rightarrow> bool" where
  "only_visible s s' \<longleftrightarrow> sf_w s' = sf_w s \<and> sf_h s' = sf_h s \<and> pitch s' = pitch s \<and>
     (\<forall>q. q \<notin> visible_pixels s \<longrightarrow> pixels s' q = pixels s q)"

lemma only_visible_refl [simp]: "only_visible s s"
  by (simp add: only_visible_def)

lemma only_visible_trans: "only_visible s s1 \<Longrightarrow> only_visible s1 s2 \<Longrightarrow> only_visible s s2"
  by (simp add: only_visible_def visible_pixels_def)

lemma only_visible_put:
  "0 \<le> x \<Longrightarrow> x < sf_w s \<Longrightarrow> 0 \<le> y \<Longrightarrow> y < sf_h s \<Longrightarrow> only_visible s (put_pixel x y c s)"
  by (auto simp: only_visible_def put_pixel_def visible_pixels_def)

lemma rle_run_visible: "rle_run f W dx dy i T run j s = Inr (stop, s') \<Longrightarrow> only_visible s s'"
proof (induction "T - j" arbitrary: j s rule: less_induct)
  case less
  define x where "x = int ((i + j) mod W) + dx"
  define y where "y = int ((i + j) div W) + dy"
  note run = less.prems [unfolded rle_run.simps [of f W dx dy i T run j s] Let_def, folded x_def y_def]
  show ?case
  proof (cases "j < T \<and> W \<noteq> 0")
    case False
    with run show ?thesis by (auto split: if_splits)
  next
    case True
    have ih: "only_visible s s'" if "rle_run f W dx dy i T run j' s1 = Inr (stop, s')" "j < j'" "only_visible s s1" for j' s1
      using less.hyps [OF _ that(1)] that(2,3) True by (auto intro: only_visible_trans)
    consider "x < 0" | "0 \<le> x" "sf_w s \<le> x" | "0 \<le> x" "x < sf_w s" "y < 0"
      | "0 \<le> x" "x < sf_w s" "0 \<le> y" "sf_h s \<le> y" | "0 \<le> x" "x < sf_w s" "0 \<le> y" "y < sf_h s" by linarith
    then show ?thesis
    proof cases
      case 5
      with run True have "rle_run f W dx dy i T run (j + 1) (put_pixel x y (f (run ! j)) s) = Inr (stop, s')"
        by (simp split: if_splits)
      then show ?thesis by (rule ih) (use 5 in \<open>simp_all add: only_visible_put\<close>)
    qed (use run True in \<open>auto split: if_splits intro: ih\<close>)
  qed
qed

lemma rle_loop_visible: "rle_loop f W len dx dy i bs s = Inr s' \<Longrightarrow> only_visible s s'"
proof (induction "length bs" arbitrary: i bs s rule: less_induct)
  case less
  note loop = less.prems [unfolded rle_loop.simps [of f W len dx dy i bs s]]
  show ?case
  proof (cases "i \<ge> len \<or> bs = []")
    case True
    with loop show ?thesis by (auto split: if_splits)
  next
    case False
    then obtain T bs' where bs: "bs = T # bs'" by (cases bs) auto
    show ?thesis
    proof (cases "is_gap W T")
      case True
      with loop False bs show ?thesis by (auto intro: less.hyps)
    next
      case gap: False
      with loop False bs obtain stop s1 where s1: "rle_run f W dx dy i (unat T) bs' 0 s = Inr (stop, s1)"
        "if stop then s' = s1 else rle_loop f W len dx dy (i + unat T) (drop (unat T) bs') s1 = Inr s'"
        by (auto simp: bindE_eq_Inr split: if_splits)
      have "only_visible s1 s'"
        using s1(2) less.hyps [of "drop (unat T) bs'"] bs by (cases stop) auto
      with rle_run_visible [OF s1(1)] show ?thesis by (rule only_visible_trans)
    qed
  qed
qed

section \<open>The properties\<close>

text \<open>
  \<^bold>\<open>C27\<close> Equivalence of the run-length decoder that skips ahead over hidden pixels with the reference that
  draws every pixel of the bitmap where it falls on the surface: for a bitmap whose runs stay in their
  rows, and any position, also partly or wholly off the surface, the three blitting routines leave the
  picture that \<open>fold draw\<close> leaves.
\<close>
theorem rle_blit_equals_reference:
  assumes "4 \<le> length (rle_skip bs)" and "le16 (rle_skip bs) 0 = W" and "le16 (rle_skip bs) 2 = H" and "W \<noteq> 0"
    and "rle_decode W (W * H) 0 (drop 4 (rle_skip bs)) = Some ps"
    and "runs_in_rows W (W * H) 0 (drop 4 (rle_skip bs))"
  shows "PAL_RLEBlitToSurface bs s pos = Inr (fold (draw id W (PAL_X pos) (PAL_Y pos)) ps s) \<and>
    PAL_RLEBlitWithColorShift bs s pos k =
      Inr (fold (draw (\<lambda>p. shift_nibble k p OR (p AND 0xF0)) W (PAL_X pos) (PAL_Y pos)) ps s) \<and>
    PAL_RLEBlitMonoColor bs s pos c k =
      Inr (fold (draw (\<lambda>p. shift_nibble k p OR (c AND 0xF0)) W (PAL_X pos) (PAL_Y pos)) ps s)"
  using rle_loop_draws [OF assms(5,6,4)] assms(1-3)
  by (simp add: PAL_RLEBlitToSurface_def PAL_RLEBlitWithColorShift_def PAL_RLEBlitMonoColor_def rle_blit_def Let_def)

lemma below_23: "(\<forall>k < 2. P k) \<longleftrightarrow> P 0 \<and> P (1 :: nat)" "(\<forall>k < 3. P k) \<longleftrightarrow> P 0 \<and> P 1 \<and> P (2 :: nat)"
  by (auto simp: less_2_cases_iff numeral_3_eq_3 less_Suc_eq numeral_2_eq_2)

definition small_surface :: SDL_Surface where
  "small_surface = \<lparr>sf_w = 2, sf_h = 2, pitch = 2, pixels = \<lambda>_. 0\<rparr>"

theorem rle_blit_equals_reference_witness:
  "PAL_RLEBlitToSurface [3, 0, 2, 0, 0x81, 2, 11, 12, 3, 13, 14, 15] small_surface (PAL_XY 0xFFFF 0) =
    Inr (fold (draw id 3 (- 1) 0) [(1, 11), (2, 12), (3, 13), (4, 14), (5, 15)] small_surface)"
proof -
  let ?bs = "[3, 0, 2, 0, 0x81, 2, 11, 12, 3, 13, 14, 15] :: u8 list"
  have "rle_decode 3 (3 * 2) 0 (drop 4 (rle_skip ?bs)) = Some [(1, 11), (2, 12), (3, 13), (4, 14), (5, 15)]"
    by (simp add: rle_skip_def rle_decode.simps is_gap_def upt_rec bit_iff_odd)
  moreover have "runs_in_rows 3 (3 * 2) 0 (drop 4 (rle_skip ?bs))"
    by (simp add: rle_skip_def runs_in_rows.simps is_gap_def bit_iff_odd below_23)
  moreover have "PAL_X (PAL_XY 0xFFFF 0) = - 1" "PAL_Y (PAL_XY 0xFFFF 0) = 0"
    by (simp_all add: PAL_X_def PAL_Y_def PAL_XY_def)
  ultimately show ?thesis
    using rle_blit_equals_reference [of ?bs 3 2 "[(1, 11), (2, 12), (3, 13), (4, 14), (5, 15)]" small_surface "PAL_XY 0xFFFF 0"]
    by (simp add: rle_skip_def le16_def)
qed

text \<open>
  Bounds of the run-length decoder: whatever the bytes of the bitmap are and wherever it is placed, a
  blit that returns has changed pixels of the surface only, never one in the padding of a row or behind
  the last row.
\<close>
lemma rle_blit_in_bounds:
  assumes "rle_blit f bs pos s = Inr s'" and "sf_w s \<le> int (pitch s)"
  shows "\<forall>q. pixels s' q \<noteq> pixels s q \<longrightarrow> q < pitch s * nat (sf_h s) \<and> int (q mod pitch s) < sf_w s"
proof (intro allI impI)
  fix q assume "pixels s' q \<noteq> pixels s q"
  moreover have "only_visible s s'"
    using assms(1) by (auto simp: rle_blit_def Let_def definedE_eq_Inr intro: rle_loop_visible)
  ultimately obtain x y where q: "q = nat y * pitch s + nat x" "0 \<le> x" "x < sf_w s" "0 \<le> y" "y < sf_h s"
    unfolding only_visible_def visible_pixels_def by blast
  have "nat x < pitch s" using q(2,3) assms(2) by linarith
  moreover have "Suc (nat y) * pitch s \<le> nat (sf_h s) * pitch s" using q(4,5) by (intro mult_right_mono) auto
  ultimately show "q < pitch s * nat (sf_h s) \<and> int (q mod pitch s) < sf_w s"
    using q by (simp add: mult.commute [of "pitch s"])
qed

theorem rle_blit_in_bounds_witness:
  "\<exists>s'. rle_blit id [3, 0, 2, 0, 6, 11, 12, 13, 14, 15, 16] 0 small_surface = Inr s' \<and>
    (\<forall>q. pixels s' q \<noteq> 0 \<longrightarrow> q < 4)"
proof -
  have "\<exists>s'. rle_blit id [3, 0, 2, 0, 6, 11, 12, 13, 14, 15, 16] 0 small_surface = Inr s'"
    by (simp add: rle_blit_def rle_skip_def le16_def PAL_X_def PAL_Y_def rle_loop.simps small_surface_def
      rle_run.simps is_gap_def put_pixel_def bit_iff_odd)
  then obtain s' where s': "rle_blit id [3, 0, 2, 0, 6, 11, 12, 13, 14, 15, 16] 0 small_surface = Inr s'" ..
  from rle_blit_in_bounds [OF this] show ?thesis using s' by (simp add: small_surface_def)
qed

text \<open>
  A run that crosses rows loses visible pixels at the right edge: the decoder skips as many pixels as
  the current one lies behind the edge, not to the end of the row. Of a picture of 4 by 2 pixels in one
  run, blitted on a surface of width 2, the left pixel of the second row is missing.
\<close>
lemma rle_blit_loses_pixel:
  "\<exists>bs ps. rle_decode 4 8 0 (drop 4 bs) = Some ps \<and> (4, 15) \<in> set ps \<and>
    on_surface 4 0 0 \<lparr>sf_w = 2, sf_h = 2, pitch = 2, pixels = \<lambda>_. 0\<rparr> 4 \<and>
    (\<exists>s'. PAL_RLEBlitToSurface bs \<lparr>sf_w = 2, sf_h = 2, pitch = 2, pixels = \<lambda>_. 0\<rparr> 0 = Inr s' \<and>
      map (pixels s') [0..<4] = [11, 12, 0, 16])"
proof -
  let ?bs = "[4, 0, 2, 0, 8, 11, 12, 13, 14, 15, 16, 17, 18] :: u8 list"
  let ?s = "\<lparr>sf_w = 2, sf_h = 2, pitch = 2, pixels = \<lambda>_. 0\<rparr> :: SDL_Surface"
  have "rle_decode 4 8 0 (drop 4 ?bs) = Some (zip [0..<8] [11, 12, 13, 14, 15, 16, 17, 18])"
    by (simp add: rle_decode.simps is_gap_def upt_rec)
  moreover have "\<exists>s'. PAL_RLEBlitToSurface ?bs ?s 0 = Inr s' \<and> map (pixels s') [0..<4] = [11, 12, 0, 16]"
    by (simp add: PAL_RLEBlitToSurface_def rle_blit_def rle_skip_def le16_def PAL_X_def PAL_Y_def rle_loop.simps
      rle_run.simps is_gap_def put_pixel_def upt_rec)
  moreover have "(4, 15) \<in> set (zip [0..<8] [11, 12, 13, 14, 15, 16, 17, 18 :: u8])" by (simp add: upt_rec)
  moreover have "on_surface 4 0 0 ?s 4" by (simp add: on_surface_def)
  ultimately show ?thesis by (intro exI [of _ ?bs] exI [of _ "zip [0..<8] [11, 12, 13, 14, 15, 16, 17, 18]"]) simp
qed

section \<open>MKF archives\<close>

text \<open>The archive of a list of chunks: the table of offsets, one more than chunks, and the chunks.\<close>

definition word_bytes :: "u32 \<Rightarrow> u8 list" where
  "word_bytes w = map (\<lambda>i. byte_of i w) [0..<4]"

definition chunk_start :: "u8 list list \<Rightarrow> nat \<Rightarrow> nat" where
  "chunk_start cs k = 4 * (length cs + 1) + length (concat (take k cs))"

definition mkf_pack :: "u8 list list \<Rightarrow> u8 list" where
  "mkf_pack cs = concat (map (\<lambda>k. word_bytes (of_nat (chunk_start cs k))) [0..<length cs + 1]) @ concat cs"

lemma length_word_bytes [simp]: "length (word_bytes w) = 4"
  by (simp add: word_bytes_def)

lemma nth_concat_words:
  "k < length ws \<Longrightarrow> i < 4 \<Longrightarrow> (concat (map word_bytes ws) @ rest) ! (4 * k + i) = byte_of i (ws ! k)"
proof (induction ws arbitrary: k)
  case (Cons w ws)
  show ?case
  proof (cases k)
    case 0
    with Cons.prems show ?thesis by (simp add: nth_append word_bytes_def)
  next
    case (Suc m)
    have "(concat (map word_bytes (w # ws)) @ rest) ! (4 * k + i) = (concat (map word_bytes ws) @ rest) ! (4 * m + i)"
      by (simp add: Suc nth_append)
    also have "\<dots> = byte_of i (ws ! m)" using Cons.prems Suc by (intro Cons.IH) simp_all
    finally show ?thesis by (simp add: Suc)
  qed
qed simp

lemma length_concat_words [simp]: "length (concat (map word_bytes ws)) = 4 * length ws"
  by (induction ws) simp_all

lemma fread32_words:
  assumes "k < length ws"
  shows "fread32 (concat (map word_bytes ws) @ rest) (4 * k) = Inr (ws ! k)"
proof -
  have "le_read (\<lambda>i. (concat (map word_bytes ws) @ rest) ! (4 * k + i)) 4 = le_read (\<lambda>i. byte_of i (ws ! k)) 4"
    by (rule le_read_cong) (simp add: nth_concat_words [OF assms])
  then show ?thesis using assms by (simp add: fread32_def)
qed

lemma mkf_fread32:
  assumes "k \<le> length cs"
  shows "fread32 (mkf_pack cs) (4 * k) = Inr (of_nat (chunk_start cs k))"
proof -
  have "fread32 (concat (map word_bytes (map (\<lambda>k. of_nat (chunk_start cs k)) [0..<length cs + 1])) @ concat cs) (4 * k) =
      Inr (map (\<lambda>k. of_nat (chunk_start cs k)) [0..<length cs + 1] ! k)"
    using assms by (intro fread32_words) simp
  then show ?thesis using assms by (simp add: mkf_pack_def comp_def del: upt_Suc)
qed

lemma chunk_start_Suc: "i < length cs \<Longrightarrow> chunk_start cs (Suc i) = chunk_start cs i + length (cs ! i)"
  by (simp add: chunk_start_def take_Suc_conv_app_nth)

lemma mkf_pack_split:
  obtains t where "mkf_pack cs = t @ concat cs" "length t = 4 * (length cs + 1)"
  using length_concat_words [of "map (\<lambda>k. of_nat (chunk_start cs k)) [0..<length cs + 1]"]
  by (simp add: mkf_pack_def comp_def del: upt_Suc)

lemma length_mkf_pack [simp]: "length (mkf_pack cs) = 4 * (length cs + 1) + length (concat cs)"
  by (rule mkf_pack_split [of cs]) simp

lemma chunk_start_le: "chunk_start cs k \<le> length (mkf_pack cs)"
proof -
  have "length (concat (take k cs)) \<le> length (concat cs)"
    by (metis append_take_drop_id concat_append length_append le_add1)
  then show ?thesis by (simp add: chunk_start_def)
qed

lemma unat_of_nat_small: "n < 2147483648 \<Longrightarrow> unat (of_nat n :: u32) = n"
  by (simp add: unsigned_of_nat take_bit_nat_eq_self)

lemma sint_of_nat_small: "n < 2147483648 \<Longrightarrow> sint (of_nat n :: u32) = int n"
  by (simp add: signed_of_nat signed_take_bit_int_eq_self)

lemma drop_chunk:
  assumes "i < length cs"
  shows "take (length (cs ! i)) (drop (chunk_start cs i) (mkf_pack cs)) = cs ! i"
proof -
  obtain t where t: "mkf_pack cs = t @ concat cs" "length t = 4 * (length cs + 1)" by (rule mkf_pack_split)
  have "concat cs = concat (take i cs) @ cs ! i @ concat (drop (Suc i) cs)"
    using assms id_take_nth_drop [OF assms] by (metis concat.simps(2) concat_append)
  moreover have "drop (chunk_start cs i) (t @ concat cs) = drop (length (concat (take i cs))) (concat cs)"
    unfolding chunk_start_def t(2) [symmetric] by simp
  ultimately show ?thesis by (simp add: t(1))
qed

lemma mkf_pack_offsets:
  assumes "i < length cs" and "length (mkf_pack cs) < 2147483648"
  shows "chunk_offsets (of_nat i) (mkf_pack cs) = Inr (Some (of_nat (chunk_start cs i), of_nat (chunk_start cs (Suc i))))"
    and "PAL_MKFGetChunkCount (mkf_pack cs) = Inr (int (length cs))"
proof -
  have small: "chunk_start cs k < 2147483648" for k using chunk_start_le [of cs k] assms(2) by simp
  have n: "4 * (length cs + 1) < 2147483648" using small [of 0] by (simp add: chunk_start_def)
  have "sint (of_nat (chunk_start cs 0) :: u32) = 4 * (int (length cs) + 1)"
    using small [of 0] by (simp add: sint_of_nat_small) (simp add: chunk_start_def)
  moreover have "(4 * (int (length cs) + 1) - 4) sdiv 4 = int (length cs)"
    by (simp add: signed_divide_int_def sgn_if)
  ultimately show c: "PAL_MKFGetChunkCount (mkf_pack cs) = Inr (int (length cs))"
    using mkf_fread32 [of 0 cs] by (simp add: PAL_MKFGetChunkCount_def)
  have u: "unat (of_nat k :: u32) = k" if "k \<le> 4 * (length cs + 1)" for k
    using that n by (intro unat_of_nat_small) simp
  have "\<not> (of_nat i :: u32) \<ge> of_nat (length cs)"
    using assms(1) by (simp add: word_le_nat_alt u)
  moreover have "unat (4 * of_nat i :: u32) = 4 * i"
    using u [of "4 * i"] assms(1) by simp
  ultimately show "chunk_offsets (of_nat i) (mkf_pack cs) =
      Inr (Some (of_nat (chunk_start cs i), of_nat (chunk_start cs (Suc i))))"
    using mkf_fread32 [of i cs] mkf_fread32 [of "Suc i" cs] assms(1)
    by (simp add: chunk_offsets_def c add.commute)
qed

text \<open>
  Round trip of the MKF archives: of the archive of any chunks (below 2 GB), \<open>PAL_MKFGetChunkCount\<close>
  counts the chunks, \<open>PAL_MKFGetChunkSize\<close> returns the size of the \<open>i\<close>-th one, and \<open>PAL_MKFReadChunk\<close> fills a
  buffer that is large enough with exactly its bytes, reports a smaller buffer as -2 and an empty chunk as
  -1.
\<close>
lemma mkf_read_pack:
  assumes "i < length cs" and "length (mkf_pack cs) < 2147483648" and "cap \<noteq> 0"
  shows "PAL_MKFGetChunkCount (mkf_pack cs) = Inr (int (length cs)) \<and>
    PAL_MKFGetChunkSize (of_nat i) (mkf_pack cs) = Inr (int (length (cs ! i))) \<and>
    PAL_MKFReadChunk cap (of_nat i) (mkf_pack cs) =
      (if unat cap < length (cs ! i) then Inr (- 2, [])
       else if cs ! i = [] then Inr (- 1, []) else Inr (int (length (cs ! i)), cs ! i))"
proof -
  let ?l = "length (cs ! i)"
  note small = chunk_start_le [of cs i] chunk_start_le [of cs "Suc i"] chunk_start_Suc [OF assms(1)]
  have len: "of_nat (chunk_start cs (Suc i)) - of_nat (chunk_start cs i) = (of_nat ?l :: u32)"
    by (simp add: small(3))
  have l: "?l < 2147483648" and st: "chunk_start cs i < 2147483648" using small assms(2) by simp_all
  note u = unat_of_nat_small [OF l] sint_of_nat_small [OF l] unat_of_nat_small [OF st]
  have big: "(of_nat ?l > cap) = (unat cap < ?l)" by (simp add: word_less_nat_alt u(1))
  have empty: "(of_nat ?l \<noteq> (0 :: u32)) = (cs ! i \<noteq> [])" by (simp add: unat_eq_0 [symmetric] u(1))
  note off = mkf_pack_offsets [OF assms(1,2)]
  have "PAL_MKFGetChunkSize (of_nat i) (mkf_pack cs) = Inr (int ?l)"
    by (simp only: PAL_MKFGetChunkSize_def off bindE_Inr option.case prod.case len u)
  moreover have "PAL_MKFReadChunk cap (of_nat i) (mkf_pack cs) =
      (if unat cap < ?l then Inr (- 2, []) else if cs ! i = [] then Inr (- 1, []) else Inr (int ?l, cs ! i))"
    using assms(3)
    by (simp only: PAL_MKFReadChunk_def off bindE_Inr option.case prod.case len u Let_def big empty
        drop_chunk [OF assms(1)] if_False if_not_P) simp
  ultimately show ?thesis using off(2) by simp
qed

theorem mkf_read_pack_witness:
  "PAL_MKFReadChunk 100 1 (mkf_pack [[1], [2, 3, 4], []]) = Inr (3, [2, 3, 4])"
  using mkf_read_pack [of 1 "[[1], [2, 3, 4], []]" 100] by simp

end
