(* ===== verification/PalYj1Correct.thy ===== *)
theory PalYj1Correct
  imports PalYj1 PalBlit
begin

text \<open>
  The decompressor on archives of stored blocks: what it returns, and what happens when the length in the
  header is smaller than what the blocks hold.
\<close>

section \<open>Stored blocks\<close>

definition half :: "nat \<Rightarrow> u8 list" where
  "half n = [of_nat n, of_nat (n div 256)]"

definition stored_block :: "u8 list \<Rightarrow> u8 list" where
  "stored_block c = half (length c) @ [0, 0] @ c"

text \<open>\<open>u\<close> is the uncompressed length that the header declares.\<close>

definition yj1_store :: "nat \<Rightarrow> u8 list list \<Rightarrow> u8 list" where
  "yj1_store u cs = word_bytes 0x315f4a59 @ word_bytes (of_nat u) @ word_bytes 0 @ half (length cs) @ [0, 0] @
     concat (map stored_block cs)"

lemma length_half [simp]: "length (half n) = 2"
  by (simp add: half_def)

lemma unat_of_nat_8: "unat (of_nat n :: u8) = n mod 256"
  by (simp add: unsigned_of_nat take_bit_eq_mod)

lemma le16_half: "n < 65536 \<Longrightarrow> le16 (pre @ half n @ rest) (length pre) = n"
proof -
  assume "n < 65536"
  then have "n mod 256 + 256 * (n div 256 mod 256) = n" by (simp add: less_mult_imp_div_less)
  then show ?thesis by (simp add: le16_def half_def nth_append unat_of_nat_8)
qed

lemma src16_half: "n < 65536 \<Longrightarrow> src16 (pre @ half n @ rest) (length pre) = Inr n"
  by (simp add: src16_def le16_half)

lemma emit_all_append: "emit_all cap (xs @ ys) d = bindE (emit_all cap xs d) (emit_all cap ys)"
  by (induction xs arbitrary: d) (simp_all add: bindE_def split: sum.split)

lemma blocks_step_stored:
  assumes "length c < 65536"
  shows "blocks cap tree (pre @ stored_block c @ rest) (Suc n) (length pre) d =
    bindE (emit_all cap c d) (blocks cap tree (pre @ stored_block c @ rest) n (length pre + 4 + length c))"
proof -
  let ?src = "pre @ stored_block c @ rest"
  have "src16 ?src (length pre) = Inr (length c)"
    using src16_half [OF assms, of pre "[0, 0] @ c @ rest"] by (simp add: stored_block_def)
  moreover have "src16 ?src (length pre + 2) = Inr 0"
    using src16_half [of 0 "pre @ half (length c)" "c @ rest"] by (simp add: stored_block_def half_def)
  moreover have "take (length c) (drop (length pre + 4) ?src) = c" "length pre + 4 + length c \<le> length ?src"
    by (simp_all add: stored_block_def)
  ultimately show ?thesis by simp
qed

lemma blocks_stored:
  assumes "\<forall>c \<in> set cs. length c < 65536"
  shows "blocks cap tree (pre @ concat (map stored_block cs)) (length cs) (length pre) d = emit_all cap (concat cs) d"
  using assms
proof (induction cs arbitrary: pre d)
  case (Cons c cs)
  let ?pre = "pre @ stored_block c"
  have "blocks cap tree (?pre @ concat (map stored_block cs)) (length cs) (length ?pre) = emit_all cap (concat cs)"
    using Cons.IH [of ?pre] Cons.prems by (intro ext) simp
  moreover have "length ?pre = length pre + 4 + length c" by (simp add: stored_block_def)
  ultimately have "blocks cap tree (pre @ stored_block c @ concat (map stored_block cs)) (length cs) (length pre + 4 + length c) =
      emit_all cap (concat cs)" by (simp add: add.assoc)
  then show ?case
    using blocks_step_stored [of c cap tree pre "concat (map stored_block cs)" "length cs" d] Cons.prems
    by (simp add: emit_all_append del: blocks.simps)
qed simp

text \<open>What \<open>emit_all\<close> does: the bytes behind each other, or the first byte outside the buffer.\<close>

definition written :: "u8 list \<Rightarrow> dest \<Rightarrow> nat \<Rightarrow> u8" where
  "written vs d = (\<lambda>k. if snd d \<le> k \<and> k < snd d + length vs then vs ! (k - snd d) else fst d k)"

lemma written_Nil [simp]: "written [] d = fst d"
  by (rule ext) (auto simp: written_def)

lemma emit_all_eq:
  "emit_all cap vs d = (if vs = [] \<or> snd d + length vs \<le> cap then Inr (written vs d, snd d + length vs)
     else Inl (Undefined ''Destination''))"
proof (induction vs arbitrary: d)
  case Nil
  show ?case by simp
next
  case (Cons v vs)
  have w: "written vs ((fst d)(snd d := v), Suc (snd d)) = written (v # vs) d"
    by (rule ext) (auto simp: written_def nth_Cons')
  have w1: "written [v] d = (fst d)(snd d := v)" by (rule ext) (auto simp: written_def)
  show ?case
  proof (cases "snd d < cap")
    case True
    with Cons.IH [of "((fst d)(snd d := v), Suc (snd d))"] show ?thesis
      by (cases "vs = []") (auto simp: emit_def w w1)
  qed (simp add: emit_def)
qed

lemma yj1_store_header:
  assumes "u < 2147483648" and "length cs < 65536"
  shows "fread32 (yj1_store u cs) 0 = Inr 0x315f4a59" "fread32 (yj1_store u cs) 4 = Inr (of_nat u)"
    "src8 (yj1_store u cs) 15 = Inr 0" "src16 (yj1_store u cs) 12 = Inr (length cs)"
proof -
  let ?rest = "half (length cs) @ [0, 0] @ concat (map stored_block cs)"
  have s: "yj1_store u cs = concat (map word_bytes [0x315f4a59, of_nat u, 0]) @ ?rest" by (simp add: yj1_store_def)
  show "fread32 (yj1_store u cs) 0 = Inr 0x315f4a59" "fread32 (yj1_store u cs) 4 = Inr (of_nat u)"
    unfolding s using fread32_words [of 0 "[0x315f4a59, of_nat u, 0]" ?rest] fread32_words [of 1 "[0x315f4a59, of_nat u, 0]" ?rest]
    by simp_all
  show "src8 (yj1_store u cs) 15 = Inr 0" by (simp add: yj1_store_def src8_def nth_append half_def)
  have "src16 ((word_bytes 0x315f4a59 @ word_bytes (of_nat u) @ word_bytes 0) @ ?rest)
      (length (word_bytes 0x315f4a59 @ word_bytes (of_nat u) @ word_bytes 0)) = Inr (length cs)"
    using assms(2) by (intro src16_half)
  then show "src16 (yj1_store u cs) 12 = Inr (length cs)" by (simp add: yj1_store_def)
qed

lemma decompress_store:
  assumes "u < 2147483648" and "length cs < 65536" and "\<forall>c \<in> set cs. length c < 65536" and "int u \<le> D" "D < 2147483648"
  shows "Decompress (yj1_store u cs) mem D =
    (if int (length (concat cs)) \<le> D then Inr (int u, written (concat cs) (mem, 0)) else Inl (Undefined ''Destination''))"
proof -
  have D: "unat (word_of_int D :: u32) = nat D"
  proof -
    have "unat (of_nat (nat D) :: u32) = nat D" using assms(4,5) by (intro unat_of_nat_small) simp
    then show ?thesis using assms(4) by simp
  qed
  have u: "unat (of_nat u :: u32) = u" "sint (of_nat u :: u32) = int u"
    using assms(1) by (rule unat_of_nat_small, rule sint_of_nat_small)
  have le: "\<not> of_nat u > (word_of_int D :: u32)" using assms(4) by (simp add: word_less_nat_alt u(1) D)
  have "blocks (nat D) tree (yj1_store u cs) (length cs) 16 (mem, 0) = emit_all (nat D) (concat cs) (mem, 0)" for tree
    using blocks_stored [OF assms(3), of "nat D" tree
        "word_bytes 0x315f4a59 @ word_bytes (of_nat u) @ word_bytes 0 @ half (length cs) @ [0, 0]" "(mem, 0)"]
    by (simp add: yj1_store_def)
  moreover have "(concat cs = [] \<or> length (concat cs) \<le> nat D) = (int (length (concat cs)) \<le> D)"
    using assms(4) by (cases "concat cs = []") (simp_all only: le_nat_iff length_0_conv, auto)
  ultimately show ?thesis
    using le
    by (simp add: Decompress_def yj1_store_header [OF assms(1,2)] Let_def build_tree_def D u emit_all_eq
        del: concat_eq_Nil_conv length_concat)
qed

section \<open>The properties\<close>

text \<open>
  \<^bold>\<open>C25\<close> Round trip of the compressed archives through \<open>PAL_MKFDecompressChunk\<close>: of an archive whose chunk
  \<open>i\<close> holds stored blocks with a truthful header, the chunk is found, read and unpacked; the result is the
  length, the front of the buffer holds the original bytes and the rest of the buffer is unchanged.
\<close>
theorem decompress_chunk_round_trip:
  assumes "i < length files" and "length (mkf_pack files) < 2147483648"
    and "files ! i = yj1_store (length (concat cs)) cs"
    and "length cs < 65536" and "\<forall>c \<in> set cs. length c < 65536" and "int (length (concat cs)) \<le> sint cap"
  shows "\<exists>mem'. PAL_MKFDecompressChunk mem cap (of_nat i) (mkf_pack files) = Inr (int (length (concat cs)), mem') \<and>
    map mem' [0..<length (concat cs)] = concat cs \<and> (\<forall>k \<ge> length (concat cs). mem' k = mem k)"
proof -
  let ?n = "length (concat cs)" and ?c = "files ! i"
  have len: "0 < length ?c" by (simp add: assms(3) yj1_store_def)
  have lc: "length ?c < 2147483648"
    using chunk_start_le [of files "Suc i"] chunk_start_Suc [OF assms(1)] assms(2) by simp
  have cap: "sint cap < 2147483648" using sint_less [of cap] by simp
  have n: "?n < 2147483648" using assms(6) cap by linarith
  have "PAL_MKFGetChunkSize (of_nat i) (mkf_pack files) = Inr (int (length ?c))"
    using mkf_pack_offsets [OF assms(1,2)] chunk_start_Suc [OF assms(1)]
    by (simp add: PAL_MKFGetChunkSize_def sint_of_nat_small [OF lc])
  moreover have "PAL_MKFReadChunk (word_of_int (int (length ?c))) (of_nat i) (mkf_pack files) = Inr (int (length ?c), ?c)"
  proof -
    have "of_nat (length ?c) \<noteq> (0 :: u32)" using unat_of_nat_small [OF lc] len by auto
    moreover have "unat (of_nat (length ?c) :: u32) = length ?c" by (rule unat_of_nat_small [OF lc])
    ultimately show ?thesis
      using mkf_pack_offsets [OF assms(1,2)] chunk_start_Suc [OF assms(1)] drop_chunk [OF assms(1)]
        chunk_start_le [of files i] assms(2)
      by (simp add: PAL_MKFReadChunk_def Let_def sint_of_nat_small [OF lc] unat_of_nat_small)
  qed
  moreover have "Decompress ?c mem (sint cap) = Inr (int ?n, written (concat cs) (mem, 0))"
    unfolding assms(3) using decompress_store [OF n assms(4,5) _ cap, of mem] assms(6) by simp
  ultimately have "PAL_MKFDecompressChunk mem cap (of_nat i) (mkf_pack files) = Inr (int ?n, written (concat cs) (mem, 0))"
    using len by (simp add: PAL_MKFDecompressChunk_def)
  moreover have "map (written (concat cs) (mem, 0)) [0..<?n] = concat cs"
    by (rule nth_equalityI) (simp_all add: written_def)
  moreover have "\<forall>k \<ge> ?n. written (concat cs) (mem, 0) k = mem k" by (simp add: written_def)
  ultimately show ?thesis by blast
qed

theorem decompress_chunk_round_trip_witness:
  "\<exists>mem'. PAL_MKFDecompressChunk (\<lambda>_. 9) 8 1 (mkf_pack [[5], yj1_store 3 [[1, 2], [3]]]) = Inr (3, mem') \<and>
    mem' 0 = 1 \<and> mem' 1 = 2 \<and> mem' 2 = 3 \<and> mem' 3 = 9"
  using decompress_chunk_round_trip [of 1 "[[5], yj1_store 3 [[1, 2], [3]]]" "[[1, 2], [3]]" 8 "\<lambda>_. 9"]
  by (auto simp: numeral_2_eq_2 numeral_3_eq_3 yj1_store_def stored_block_def)

text \<open>
  \<^bold>\<open>C26\<close> The size of the destination is compared with the length in the header only, not with what the blocks
  hold: when a header declares \<open>u\<close> bytes, which fit, and the blocks hold more than the buffer, the check
  passes and \<open>Decompress\<close> writes behind the end of the buffer.
\<close>
theorem decompress_overruns:
  assumes "int u \<le> D" and "D < 2147483648" and "D < int (length (concat cs))"
    and "length cs < 65536" and "\<forall>c \<in> set cs. length c < 65536"
  shows "Decompress (yj1_store u cs) mem D = Inl (Undefined ''Destination'')"
  using decompress_store [of u cs D mem] assms by simp

theorem decompress_overruns_witness:
  "Decompress (yj1_store 2 [[1, 2, 3]]) (\<lambda>_. 0) 2 = Inl (Undefined ''Destination'')"
  by (rule decompress_overruns) simp_all

end
