(* ===== verification/PalGlobal.thy ===== *)
theory PalGlobal
  imports PalCommon
begin

text \<open>
  The global data of nemu-pal, \<open>game/src/nemu-pal/include/global.h\<close>, and the operations on it in
  \<open>global/global.c\<close>; the random numbers of \<open>misc/util.c\<close>. Arrays are lists, those of two dimensions laid
  out row by row as in C; an index outside an array is undefined. \<open>PAL_CLASSIC\<close> and \<open>PAL_WIN95\<close> are not
  defined in this port.
\<close>

section \<open>Data\<close>

definition MAX_PLAYER_ROLES :: nat where [simp]: "MAX_PLAYER_ROLES = 6"
definition MAX_PLAYABLE_PLAYER_ROLES :: nat where [simp]: "MAX_PLAYABLE_PLAYER_ROLES = 5"
definition MAX_INVENTORY :: nat where [simp]: "MAX_INVENTORY = 256"
definition MAX_PLAYER_EQUIPMENTS :: nat where [simp]: "MAX_PLAYER_EQUIPMENTS = 6"
definition MAX_PLAYER_MAGICS :: nat where [simp]: "MAX_PLAYER_MAGICS = 32"
definition MAX_SCENES :: nat where [simp]: "MAX_SCENES = 300"
definition MAX_OBJECTS :: nat where [simp]: "MAX_OBJECTS = 600"
definition MAX_EVENT_OBJECTS :: nat where [simp]: "MAX_EVENT_OBJECTS = 5500"
definition MAX_POISONS :: nat where [simp]: "MAX_POISONS = 16"
definition MAX_LEVELS :: nat where [simp]: "MAX_LEVELS = 99"

definition kStatusConfused :: nat where [simp]: "kStatusConfused = 0"
definition kStatusSlow :: nat where [simp]: "kStatusSlow = 1"
definition kStatusSleep :: nat where [simp]: "kStatusSleep = 2"
definition kStatusSilence :: nat where [simp]: "kStatusSilence = 3"
definition kStatusPuppet :: nat where [simp]: "kStatusPuppet = 4"
definition kStatusBravery :: nat where [simp]: "kStatusBravery = 5"
definition kStatusProtect :: nat where [simp]: "kStatusProtect = 6"
definition kStatusHaste :: nat where [simp]: "kStatusHaste = 7"
definition kStatusDualAttack :: nat where [simp]: "kStatusDualAttack = 8"
definition kStatusAll :: nat where [simp]: "kStatusAll = 9"

definition kBodyPartHand :: nat where [simp]: "kBodyPartHand = 3"
definition kBodyPartWear :: nat where [simp]: "kBodyPartWear = 5"
definition kBodyPartExtra :: nat where [simp]: "kBodyPartExtra = 6"

record EVENTOBJECT =
  sVanishTime :: u16
  ox :: u16
  oy :: u16
  sLayer :: u16
  wTriggerScript :: u16
  wAutoScript :: u16
  sState :: u16
  wTriggerMode :: u16
  wSpriteNum :: u16
  nSpriteFrames :: u16
  wDirection :: u16
  wCurrentFrameNum :: u16
  nScriptIdleFrame :: u16
  wSpritePtrOffset :: u16
  nSpriteFramesAuto :: u16
  wScriptIdleFrameCountAuto :: u16

record SCENE =
  wMapNum :: u16
  wScriptOnEnter :: u16
  wScriptOnTeleport :: u16
  wEventObjectIndex :: u16

record SCRIPTENTRY =
  wOperation :: u16
  rgwOperand :: "u16 list"

record INVENTORY =
  wItem :: u16
  nAmount :: u16
  nAmountInUse :: u16

record PARTY =
  wPlayerRole :: u16
  party_x :: u16
  party_y :: u16
  wFrame :: u16
  wImageOffset :: u16

record TRAIL =
  trail_x :: u16
  trail_y :: u16
  trail_dir :: u16

record EXPERIENCE =
  wExp :: u16
  wReserved :: u16
  wLevel :: u16
  wCount :: u16

record POISONSTATUS =
  wPoisonID :: u16
  wPoisonScript :: u16

text \<open>The union \<open>OBJECT\<close>: six words, and the members that the code below uses.\<close>

type_synonym OBJECT = "u16 list"

definition item_wScriptOnEquip :: "OBJECT \<Rightarrow> u16" where "item_wScriptOnEquip ob = ob ! 3"
definition poison_wPoisonLevel :: "OBJECT \<Rightarrow> u16" where "poison_wPoisonLevel ob = ob ! 0"
definition poison_wPlayerScript :: "OBJECT \<Rightarrow> u16" where "poison_wPlayerScript ob = ob ! 2"

text \<open>\<open>PLAYERROLES\<close>: 75 rows of one word for each of the six roles.\<close>

type_synonym PLAYERROLES = "u16 list"

definition rgwSpriteNumInBattle :: nat where [simp]: "rgwSpriteNumInBattle = 1"
definition rgwSpriteNum :: nat where [simp]: "rgwSpriteNum = 2"
definition rgwName :: nat where [simp]: "rgwName = 3"
definition rgwAttackAll :: nat where [simp]: "rgwAttackAll = 4"
definition rgwLevel :: nat where [simp]: "rgwLevel = 6"
definition rgwMaxHP :: nat where [simp]: "rgwMaxHP = 7"
definition rgwMaxMP :: nat where [simp]: "rgwMaxMP = 8"
definition rgwHP :: nat where [simp]: "rgwHP = 9"
definition rgwMP :: nat where [simp]: "rgwMP = 10"
definition rgwEquipment :: nat where [simp]: "rgwEquipment = 11"
definition rgwAttackStrength :: nat where [simp]: "rgwAttackStrength = 17"
definition rgwMagicStrength :: nat where [simp]: "rgwMagicStrength = 18"
definition rgwDefense :: nat where [simp]: "rgwDefense = 19"
definition rgwDexterity :: nat where [simp]: "rgwDexterity = 20"
definition rgwFleeRate :: nat where [simp]: "rgwFleeRate = 21"
definition rgwPoisonResistance :: nat where [simp]: "rgwPoisonResistance = 22"
definition rgwElementalResistance :: nat where [simp]: "rgwElementalResistance = 23"
definition rgwMagic :: nat where [simp]: "rgwMagic = 32"
definition rgwWalkFrames :: nat where [simp]: "rgwWalkFrames = 64"
definition rgwCooperativeMagic :: nat where [simp]: "rgwCooperativeMagic = 65"

definition PLAYERROLES_rows :: nat where [simp]: "PLAYERROLES_rows = 75"

text \<open>\<open>rgPrimaryExp\<close>, \<open>rgHealthExp\<close>, ... are the rows of \<open>ALLEXPERIENCE\<close>.\<close>

type_synonym ALLEXPERIENCE = "EXPERIENCE list"

definition rgPrimaryExp :: nat where [simp]: "rgPrimaryExp = 0"

text \<open>
  \<open>GLOBALVARS\<close> with its member \<open>g\<close>. The data that only battles use are rows of words. \<open>glSeed\<close> is the seed
  in \<open>util.c\<close>. The files that are only opened here are left out.
\<close>

record GLOBALVARS =
  fpDATA :: "u8 list"
  fpSSS :: "u8 list"
  fpMGO :: "u8 list"
  lprgEventObject :: "EVENTOBJECT list"
  rgScene :: "SCENE list"
  rgObject :: "OBJECT list"
  lprgScriptEntry :: "SCRIPTENTRY list"
  lprgStore :: "u16 list list"
  lprgEnemy :: "u16 list list"
  lprgEnemyTeam :: "u16 list list"
  PlayerRoles :: PLAYERROLES
  lprgMagic :: "u16 list list"
  lprgBattleField :: "u16 list list"
  lprgLevelUpMagic :: "u16 list list"
  EnemyPos :: "u16 list"
  rgLevelUpExp :: "u16 list"
  rgwBattleEffectIndex :: "u16 list"
  bCurrentSaveSlot :: u8
  iCurInvMenuItem :: int
  iCurPlayingRNG :: int
  fGameStart :: bool
  fEnteringScene :: bool
  fNeedToFadeIn :: bool
  fInBattle :: bool
  fAutoBattle :: bool
  bBattleSpeed :: u8
  wLastUnequippedItem :: u16
  rgEquipmentEffect :: "PLAYERROLES list"
  rgPlayerStatus :: "u16 list"
  viewport :: u32
  partyoffset :: u32
  wLayer :: u16
  wMaxPartyMemberIndex :: u16
  rgParty :: "PARTY list"
  rgTrail :: "TRAIL list"
  wPartyDirection :: u16
  wNumScene :: u16
  wNumPalette :: u16
  fNightPalette :: bool
  wNumMusic :: u16
  wNumBattleMusic :: u16
  wNumBattleField :: u16
  wCollectValue :: u16
  wScreenWave :: u16
  sWaveProgression :: u16
  wChaseRange :: u16
  wChasespeedChangeCycles :: u16
  nFollower :: u16
  dwCash :: u32
  Exp :: ALLEXPERIENCE
  rgPoisonStatus :: "POISONSTATUS list"
  rgInventory :: "INVENTORY list"
  dwFrameNum :: u32
  glSeed :: u32

text \<open>The cell \<open>a[row][role]\<close> of an array of rows of six, and a cell of the player roles.\<close>

definition role_get :: "nat \<Rightarrow> nat \<Rightarrow> u16 list \<Rightarrow> u16" where
  "role_get row r p = p ! (row * MAX_PLAYER_ROLES + r)"

definition role_set :: "nat \<Rightarrow> nat \<Rightarrow> u16 \<Rightarrow> u16 list \<Rightarrow> u16 list" where
  "role_set row r v p = p[row * MAX_PLAYER_ROLES + r := v]"

definition role_of :: "u16 \<Rightarrow> (nat \<Rightarrow> 'a res) \<Rightarrow> 'a res" where
  "role_of r f = definedE ''role'' (unat r < MAX_PLAYER_ROLES) (f (unat r))"

definition set_role :: "nat \<Rightarrow> nat \<Rightarrow> u16 \<Rightarrow> GLOBALVARS \<Rightarrow> GLOBALVARS" where
  "set_role row r v g = g\<lparr>PlayerRoles := role_set row r v (PlayerRoles g)\<rparr>"

definition the_role :: "nat \<Rightarrow> nat \<Rightarrow> GLOBALVARS \<Rightarrow> u16" where
  "the_role row r g = role_get row r (PlayerRoles g)"

section \<open>Random numbers\<close>

text \<open>The result of \<open>SDL_GetTicks\<close> is an argument; that of this port is a failed assertion.\<close>

definition SDL_GetTicks :: "u32 res" where
  "SDL_GetTicks = Inl (Assert_failed ''SDL_GetTicks'')"

definition lsrand :: "u32 \<Rightarrow> u32" where
  "lsrand iInitialSeed = 1664525 * iInitialSeed + 1013904223"

definition lrand :: "u32 res \<Rightarrow> GLOBALVARS \<Rightarrow> (int \<times> GLOBALVARS) res" where
  "lrand ticks g =
     bindE (if glSeed g = 0 then bindE ticks (\<lambda>t. Inr (lsrand t)) else Inr (glSeed g)) (\<lambda>seed.
       let seed = 1664525 * seed + 1013904223 in
       Inr (sint seed div 2 + 1073741824, g\<lparr>glSeed := seed\<rparr>))"

definition RandomLong :: "u32 res \<Rightarrow> int \<Rightarrow> int \<Rightarrow> GLOBALVARS \<Rightarrow> (int \<times> GLOBALVARS) res" where
  "RandomLong ticks from to' g =
     (if to' \<le> from then Inr (from, g)
      else definedE ''RandomLong'' (0 < to' - from + 1 \<and> to' - from + 1 \<le> 2147483647)
        (bindE (lrand ticks g) (\<lambda>(r, g). Inr (from + r div (2147483647 div (to' - from + 1)), g))))"

end
