(* ===== verification/PalMap.thy ===== *)
theory PalMap
  imports PalGlobal PalYj1
begin

text \<open>
  Maps and loaded resources of nemu-pal: \<open>scene/map.c\<close> and \<open>global/res.c\<close>. A null pointer is \<open>None\<close>; what
  \<open>malloc\<close> leaves in fresh memory is the argument \<open>fresh\<close>.
\<close>

section \<open>Loops that may fail\<close>

fun each :: "('a \<Rightarrow> 's \<Rightarrow> 's res) \<Rightarrow> 'a list \<Rightarrow> 's \<Rightarrow> 's res" where
  "each f [] s = Inr s"
| "each f (x # xs) s = bindE (f x s) (each f xs)"

lemma each_cong [fundef_cong]:
  "xs = ys \<Longrightarrow> s = t \<Longrightarrow> (\<And>x u. x \<in> set ys \<Longrightarrow> f x u = g x u) \<Longrightarrow> each f xs s = each g ys t"
  by (induction ys arbitrary: xs s t) (auto intro!: bindE_cong)

text \<open>Indices from \<open>a\<close> up to but not including \<open>b\<close>.\<close>

definition upto_int :: "int \<Rightarrow> int \<Rightarrow> int list" where
  "upto_int a b = map (\<lambda>k. a + int k) [0..<nat (b - a)]"

section \<open>Maps\<close>

record PALMAP =
  Tiles :: "u32 list"
  pTileSprite :: "u8 list"
  iMapNum :: int

definition tile_at :: "nat \<Rightarrow> nat \<Rightarrow> nat \<Rightarrow> PALMAP \<Rightarrow> u32" where
  "tile_at x y h m = Tiles m ! ((y * 64 + x) * 2 + h)"

definition PAL_LoadMap :: "(nat \<Rightarrow> u8) \<Rightarrow> int \<Rightarrow> u8 list \<Rightarrow> u8 list \<Rightarrow> PALMAP option res" where
  "PAL_LoadMap fresh num fpMapMKF fpGopMKF =
     bindE (PAL_MKFGetChunkCount fpMapMKF) (\<lambda>m.
     bindE (PAL_MKFGetChunkCount fpGopMKF) (\<lambda>n.
       if num \<ge> m \<or> num \<ge> n \<or> num \<le> 0 then Inr None
       else bindE (PAL_MKFGetChunkSize (word_of_int num) fpMapMKF) (\<lambda>size.
         if size < 0 then Inr None
         else bindE (PAL_MKFReadChunk (word_of_int size) (word_of_int num) fpMapMKF) (\<lambda>(code, buf).
           if code < 0 then Inr None
           else bindE (Decompress buf fresh 65536) (\<lambda>(code, mem).
             if code < 0 then Inr None
             else bindE (PAL_MKFGetChunkSize (word_of_int num) fpGopMKF) (\<lambda>size.
               if size \<le> 0 then Inr None
               else bindE (PAL_MKFReadChunk (word_of_int size) (word_of_int num) fpGopMKF) (\<lambda>(code, sprite).
                 if code < 0 then Inr None
                 else Inr (Some \<lparr>Tiles = map (\<lambda>i. le_read (\<lambda>j. mem (4 * i + j)) 4) [0..<16384],
                        pTileSprite = sprite, iMapNum = num\<rparr>))))))))"

definition PAL_MapGetTileBitmap :: "u8 \<Rightarrow> u8 \<Rightarrow> u8 \<Rightarrow> u8 \<Rightarrow> PALMAP option \<Rightarrow> u8 list option res" where
  "PAL_MapGetTileBitmap x y h ucLayer lpMap =
     (case lpMap of None \<Rightarrow> Inr None
      | Some m \<Rightarrow>
          if x \<ge> 64 \<or> y \<ge> 128 \<or> h > 1 then Inr None
          else
            let d = tile_at (unat x) (unat y) (unat h) m in
            if ucLayer = 0 then
              PAL_SpriteGetFrame (pTileSprite m) (uint ((d AND 0xFF) OR (drop_bit 4 d AND 0x100)))
            else
              let d = drop_bit 16 d in
              PAL_SpriteGetFrame (pTileSprite m) (uint ((d AND 0xFF) OR (drop_bit 4 d AND 0x100)) - 1))"

definition PAL_MapTileIsBlocked :: "u8 \<Rightarrow> u8 \<Rightarrow> u8 \<Rightarrow> PALMAP option \<Rightarrow> bool" where
  "PAL_MapTileIsBlocked x y h lpMap =
     (case lpMap of None \<Rightarrow> True
      | Some m \<Rightarrow> if x \<ge> 64 \<or> y \<ge> 128 \<or> h > 1 then True
          else drop_bit 13 (tile_at (unat x) (unat y) (unat h) m AND 0x2000) \<noteq> 0)"

definition PAL_MapGetTileHeight :: "u8 \<Rightarrow> u8 \<Rightarrow> u8 \<Rightarrow> u8 \<Rightarrow> PALMAP option \<Rightarrow> u8" where
  "PAL_MapGetTileHeight x y h ucLayer lpMap =
     (case lpMap of None \<Rightarrow> 0
      | Some m \<Rightarrow> if y \<ge> 128 \<or> x \<ge> 64 \<or> h > 1 then 0
          else let d = tile_at (unat x) (unat y) (unat h) m;
                   d = (if ucLayer \<noteq> 0 then drop_bit 16 d else d)
               in ucast (drop_bit 8 d AND 0xF))"

text \<open>A bitmap that is a null pointer is not drawn.\<close>

definition blit_frame :: "u8 list option \<Rightarrow> u32 \<Rightarrow> SDL_Surface \<Rightarrow> SDL_Surface res" where
  "blit_frame bm pos s = (case bm of None \<Rightarrow> Inr s | Some bs \<Rightarrow> PAL_RLEBlitToSurface bs s pos)"

definition blit_tile :: "u8 \<Rightarrow> PALMAP option \<Rightarrow> int \<times> int \<times> int \<times> int \<times> int \<Rightarrow> SDL_Surface \<Rightarrow> SDL_Surface res" where
  "blit_tile ucLayer lpMap = (\<lambda>(x, y, h, xPos, yPos) s.
     bindE (PAL_MapGetTileBitmap (word_of_int x) (word_of_int y) (word_of_int h) ucLayer lpMap) (\<lambda>bm.
       let pos = PAL_XY (word_of_int xPos) (word_of_int yPos) in
       case bm of
         Some _ \<Rightarrow> blit_frame bm pos s
       | None \<Rightarrow> if ucLayer \<noteq> 0 then Inr s
                 else bindE (PAL_MapGetTileBitmap 0 0 0 ucLayer lpMap) (\<lambda>bm. blit_frame bm pos s)))"

text \<open>The tiles in the order of the loops with their positions; \<open>rx\<close>, \<open>ry\<close>, \<open>rw\<close>, \<open>rh\<close> is the rectangle.\<close>

definition map_tiles :: "int \<Rightarrow> int \<Rightarrow> int \<Rightarrow> int \<Rightarrow> (int \<times> int \<times> int \<times> int \<times> int) list" where
  "map_tiles rx ry rw rh =
     (let sy = ry sdiv 16 - 1; dy = (ry + rh) sdiv 16 + 2; sx = rx sdiv 32 - 1; dx = (rx + rw) sdiv 32 + 2 in
      concat (map (\<lambda>y. concat (map (\<lambda>h. map (\<lambda>x.
          (x, y, h, sx * 32 + h * 16 - 16 - rx + (x - sx) * 32, sy * 16 - 8 - ry + ((y - sy) * 2 + h) * 8))
        (upto_int sx dx)) [0, 1])) (upto_int sy dy)))"

definition PAL_MapBlitToSurface :: "PALMAP option \<Rightarrow> SDL_Surface \<Rightarrow> int \<Rightarrow> int \<Rightarrow> int \<Rightarrow> int \<Rightarrow> u8 \<Rightarrow> SDL_Surface res" where
  "PAL_MapBlitToSurface lpMap s rx ry rw rh ucLayer = each (blit_tile ucLayer lpMap) (map_tiles rx ry rw rh) s"

section \<open>Resources\<close>

record RESOURCES =
  bLoadFlags :: u8
  lpMap :: "PALMAP option"
  lppEventObjectSprites :: "u8 list option list"
  rglpPlayerSprite :: "u8 list option list"

definition kLoadScene :: u8 where [simp]: "kLoadScene = 1"
definition kLoadPlayerSprite :: u8 where [simp]: "kLoadPlayerSprite = 2"

definition PAL_SetLoadFlags :: "u8 \<Rightarrow> RESOURCES \<Rightarrow> RESOURCES" where
  "PAL_SetLoadFlags bFlags r = r\<lparr>bLoadFlags := bLoadFlags r OR bFlags\<rparr>"

text \<open>
  A sprite of the archive, with the result code of the decompression. \<open>UTIL_malloc\<close> ends the program when
  the size is not positive.
\<close>

definition load_sprite :: "(nat \<Rightarrow> u8) \<Rightarrow> u16 \<Rightarrow> u8 list \<Rightarrow> (int \<times> u8 list) res" where
  "load_sprite fresh num fp =
     bindE (PAL_MKFGetDecompressedSize (ucast num) fp) (\<lambda>l.
       assertE ''TerminateOnError'' (0 < l)
        (bindE (PAL_MKFDecompressChunk fresh (word_of_int l) (ucast num) fp) (\<lambda>(code, mem).
          Inr (code, map mem [0..<nat l]))))"

text \<open>The scene with number \<open>wNumScene\<close> and the one behind it, whose index is the end of its event objects.\<close>

definition scene_events :: "GLOBALVARS \<Rightarrow> (nat \<times> nat) res" where
  "scene_events g =
     definedE ''rgScene'' (1 \<le> unat (wNumScene g) \<and> unat (wNumScene g) < length (rgScene g))
      (Inr (unat (wEventObjectIndex (rgScene g ! (unat (wNumScene g) - 1))),
            unat (wEventObjectIndex (rgScene g ! unat (wNumScene g)))))"

definition load_event_sprite :: "(nat \<Rightarrow> u8) \<Rightarrow> nat \<Rightarrow> u8 list option list \<times> GLOBALVARS \<Rightarrow>
    (u8 list option list \<times> GLOBALVARS) res" where
  "load_event_sprite fresh index = (\<lambda>(sps, g).
     definedE ''lprgEventObject'' (index < length (lprgEventObject g))
      (let e = lprgEventObject g ! index in
       if wSpriteNum e = 0 then Inr (sps @ [None], g)
       else bindE (load_sprite fresh (wSpriteNum e) (fpMGO g)) (\<lambda>(code, sp).
         bindE (if code > 0 then bindE (PAL_SpriteGetNumFrames sp) (\<lambda>n. Inr (e\<lparr>nSpriteFramesAuto := n\<rparr>)) else Inr e) (\<lambda>e.
           Inr (sps @ [Some sp], g\<lparr>lprgEventObject := (lprgEventObject g)[index := e]\<rparr>)))))"

definition load_scene :: "(nat \<Rightarrow> u8) \<Rightarrow> u8 list \<Rightarrow> u8 list \<Rightarrow> RESOURCES \<times> GLOBALVARS \<Rightarrow> (RESOURCES \<times> GLOBALVARS) res" where
  "load_scene fresh fpMAP fpGOP = (\<lambda>(r, g).
     let g = (if fEnteringScene g then g\<lparr>wScreenWave := 0, sWaveProgression := 0\<rparr> else g) in
     bindE (scene_events g) (\<lambda>(a, b).
     bindE (PAL_LoadMap fresh (uint (wMapNum (rgScene g ! (unat (wNumScene g) - 1)))) fpMAP fpGOP) (\<lambda>m.
       assertE ''TerminateOnError'' (m \<noteq> None)
        (bindE (each (load_event_sprite fresh) [a..<b] ([], g)) (\<lambda>(sps, g).
          Inr (r\<lparr>lpMap := m, lppEventObjectSprites := sps\<rparr>, g\<lparr>partyoffset := PAL_XY 160 112\<rparr>))))))"

definition load_player_sprite :: "(nat \<Rightarrow> u8) \<Rightarrow> GLOBALVARS \<Rightarrow> nat \<Rightarrow> RESOURCES \<Rightarrow> RESOURCES res" where
  "load_player_sprite fresh g i r =
     definedE ''rgParty'' (i < length (rgParty g) \<and> i < length (rglpPlayerSprite r))
      (assertE ''wPlayerID < MAX_PLAYER_ROLES'' (unat (wPlayerRole (rgParty g ! i)) < MAX_PLAYER_ROLES)
        (bindE (load_sprite fresh (the_role rgwSpriteNum (unat (wPlayerRole (rgParty g ! i))) g) (fpMGO g)) (\<lambda>(_, sp).
          Inr (r\<lparr>rglpPlayerSprite := (rglpPlayerSprite r)[i := Some sp]\<rparr>))))"

text \<open>The number of party members as the loops count it, where the index is read as a \<open>short\<close>.\<close>

definition members :: "GLOBALVARS \<Rightarrow> nat" where
  "members g = nat (sint (wMaxPartyMemberIndex g) + 1)"

definition load_player_sprites :: "(nat \<Rightarrow> u8) \<Rightarrow> RESOURCES \<times> GLOBALVARS \<Rightarrow> (RESOURCES \<times> GLOBALVARS) res" where
  "load_player_sprites fresh = (\<lambda>(r, g).
     let r = r\<lparr>rglpPlayerSprite := replicate 4 None\<rparr>; i = members g in
     bindE (each (load_player_sprite fresh g) [0..<i] r) (\<lambda>r.
     bindE (if nFollower g > 0 then
         definedE ''rgParty'' (i < length (rgParty g) \<and> i < length (rglpPlayerSprite r))
          (bindE (load_sprite fresh (wPlayerRole (rgParty g ! i)) (fpMGO g)) (\<lambda>(_, sp).
            Inr (r\<lparr>rglpPlayerSprite := (rglpPlayerSprite r)[i := Some sp]\<rparr>)))
       else Inr r) (\<lambda>r. Inr (r, g))))"

definition PAL_LoadResources :: "(nat \<Rightarrow> u8) \<Rightarrow> u8 list \<Rightarrow> u8 list \<Rightarrow> RESOURCES \<times> GLOBALVARS \<Rightarrow> (RESOURCES \<times> GLOBALVARS) res" where
  "PAL_LoadResources fresh fpMAP fpGOP = (\<lambda>(r, g).
     if bLoadFlags r = 0 then Inr (r, g)
     else
       bindE (if bLoadFlags r AND kLoadScene \<noteq> 0 then load_scene fresh fpMAP fpGOP (r, g) else Inr (r, g)) (\<lambda>(r, g).
       bindE (if bLoadFlags r AND kLoadPlayerSprite \<noteq> 0 then load_player_sprites fresh (r, g) else Inr (r, g)) (\<lambda>(r, g).
         Inr (r\<lparr>bLoadFlags := 0\<rparr>, g))))"

definition PAL_GetPlayerSprite :: "u8 \<Rightarrow> RESOURCES \<Rightarrow> u8 list option" where
  "PAL_GetPlayerSprite i r = (if unat i > 3 then None else rglpPlayerSprite r ! unat i)"

definition PAL_GetEventObjectSprite :: "u16 \<Rightarrow> RESOURCES \<Rightarrow> GLOBALVARS \<Rightarrow> u8 list option res" where
  "PAL_GetEventObjectSprite wEventObjectID r g =
     bindE (scene_events g) (\<lambda>(a, _).
       let i = unat (wEventObjectID - of_nat a - 1) in
       Inr (if i \<ge> length (lppEventObjectSprites r) then None else lppEventObjectSprites r ! i))"

end
