(* ===== verification/PalScene.thy ===== *)
theory PalScene
  imports PalMap
begin

text \<open>
  The state of the running game and \<open>scene/scene.c\<close>: obstacles, the gestures and moves of the party, the sprites
  of a scene. Calls of functions that are not part of this development (screen effects, sound, dialogs,
  battles) are values of \<open>pal_call\<close>; the member \<open>act\<close> of the environment says what each returns and does.
\<close>

section \<open>State\<close>

definition kDirSouth :: u16 where [simp]: "kDirSouth = 0"
definition kDirWest :: u16 where [simp]: "kDirWest = 1"
definition kDirNorth :: u16 where [simp]: "kDirNorth = 2"
definition kDirEast :: u16 where [simp]: "kDirEast = 3"
definition kDirUnknown :: u16 where [simp]: "kDirUnknown = 4"

definition kObjStateHidden :: int where [simp]: "kObjStateHidden = 0"
definition kObjStateBlocker :: int where [simp]: "kObjStateBlocker = 2"

record BATTLEENEMY =
  wObjectID :: u16
  enemy_e :: "u16 list"
  rgwStatus :: "u16 list"
  flTimeMeter :: int
  rgPoisons :: "POISONSTATUS list"
  enemy_pos :: u32
  posOriginal :: u32
  enemy_wCurrentFrame :: u16
  enemy_state :: nat
  fTurnStart :: bool
  fFirstMoveDone :: bool
  fDualMove :: bool
  wScriptOnTurnStart :: u16
  wScriptOnBattleEnd :: u16
  wScriptOnReady :: u16
  wPrevHP :: u16
  enemy_iColorShift :: int

record BATTLEPLAYER =
  player_iColorShift :: int
  player_wCurrentFrame :: u16
  ActionType :: nat

record BATTLE =
  rgPlayer :: "BATTLEPLAYER list"
  rgEnemy :: "BATTLEENEMY list"
  wMaxEnemyIndex :: u16
  fIsBoss :: bool
  BattleResult :: u16
  fEnemyMoving :: bool
  iHidingTime :: int
  wMovingPlayerIndex :: u16
  iBlow :: int

record PAL =
  gp :: GLOBALVARS
  res :: RESOURCES
  gpScreen :: SDL_Surface
  wave_index :: nat
  s_iThisStepFrame :: nat
  dir :: u16
  dwKeyPress :: u32
  g_Battle :: BATTLE
  g_fScriptSuccess :: bool
  g_iCurEquipPart :: int
  wLastEventObject :: u16

datatype pal_call =
    VIDEO_UpdateScreen | VIDEO_ShakeScreen u16 u16 | VIDEO_BackupScreen | VIDEO_RestoreScreen | VIDEO_FadeScreen u16
  | PAL_FadeOut u16 | PAL_FadeIn u16 bool u16 | PAL_SceneFade u16 bool int | PAL_PaletteFade u16 bool bool
  | PAL_ColorFade u16 u8 bool | PAL_FadeToRed | PAL_SetPalette u16 bool
  | PAL_RNGPlay int u16 u16 u16 | PAL_PlayMUS u16 bool int | SOUND_Play u16 | SOUND_PlayCDA u16
  | PAL_ShowFBP u16 u16 | PAL_ScrollFBP u16 u16 bool | PAL_EndingSetEffectSprite u16 | PAL_EndingAnimation
  | PAL_AdditionalCredits | PAL_WaitForKey u16 | UTIL_Delay int | Wait_frame | PAL_ClearKeyState
  | PAL_DialogSetDelayTime int | PAL_ClearDialog bool | PAL_StartDialog nat u8 u16 bool | PAL_ShowDialogText "u16 list"
  | PAL_EndDialog | PAL_DialogIsPlayingRNG | PAL_ConfirmMenu
  | PAL_StartBattle u16 bool | PAL_BattleSimulateMagic int u16 u16 | PAL_BattleStealFromEnemy u16 u16
  | PAL_BattleEnemyEscape | PAL_BattlePlayerEscape | PAL_BattleShowPlayerPreMagicAnim u16 bool
  | PAL_BattleDelay u16 u16 bool | PAL_BattleBackupScene | PAL_BattleUpdateFighters | PAL_BattleMakeScene
  | PAL_BattleFadeScene | PAL_LoadBattleSprites | Blit_BattleScene
  | PAL_ItemSelectMenu u16 | PAL_ItemUseMenu u16 | PAL_EquipItemMenu u16
  | PAL_InGameMenu | PAL_InGameMagicMenu | PAL_PlayerStatus | PAL_Shutdown

text \<open>
  \<open>run\<close> and \<open>update\<close> are \<open>PAL_RunTriggerScript\<close> and \<open>PAL_GameUpdate\<close>, which call each other. \<open>bought\<close> and
  \<open>sold\<close> are what the player chooses in the menus of the shops, \<open>rounds\<close> is the fuel of loops.
\<close>

record ENV =
  act :: "pal_call \<Rightarrow> PAL \<Rightarrow> (int \<times> PAL) Prelude.res"
  ticks :: "u32 Prelude.res"
  fresh :: "nat \<Rightarrow> u8"
  fpMAP :: "u8 list"
  fpGOP :: "u8 list"
  slot :: "int \<Rightarrow> string"
  files :: "string \<Rightarrow> u8 list option"
  bought :: "PAL \<Rightarrow> (u16 \<times> bool) list"
  sold :: "PAL \<Rightarrow> (u16 \<times> bool) list"
  rounds :: nat
  run :: "u16 \<Rightarrow> u16 \<Rightarrow> PAL \<Rightarrow> (u16 \<times> PAL) Prelude.res"
  update :: "bool \<Rightarrow> PAL \<Rightarrow> PAL Prelude.res"

definition on_gp :: "(GLOBALVARS \<Rightarrow> GLOBALVARS) \<Rightarrow> PAL \<Rightarrow> PAL" where
  "on_gp f s = s\<lparr>gp := f (gp s)\<rparr>"

definition on_gpE :: "(GLOBALVARS \<Rightarrow> GLOBALVARS Prelude.res) \<Rightarrow> PAL \<Rightarrow> PAL Prelude.res" where
  "on_gpE f s = bindE (f (gp s)) (\<lambda>g. Inr (s\<lparr>gp := g\<rparr>))"

definition call :: "ENV \<Rightarrow> pal_call \<Rightarrow> PAL \<Rightarrow> PAL Prelude.res" where
  "call e c s = bindE (act e c s) (\<lambda>(_, s). Inr s)"

text \<open>The coordinates of a position as words, for the arithmetic that is cut to 16 bits anyway.\<close>

definition wx :: "u32 \<Rightarrow> u16" where "wx p = ucast p"
definition wy :: "u32 \<Rightarrow> u16" where "wy p = ucast (drop_bit 16 p)"

text \<open>Where the party stands on the map.\<close>

definition party_px :: "GLOBALVARS \<Rightarrow> int" where "party_px g = PAL_X (viewport g) + PAL_X (partyoffset g)"
definition party_py :: "GLOBALVARS \<Rightarrow> int" where "party_py g = PAL_Y (viewport g) + PAL_Y (partyoffset g)"

definition event_at :: "nat \<Rightarrow> GLOBALVARS \<Rightarrow> EVENTOBJECT Prelude.res" where
  "event_at i g = definedE ''lprgEventObject'' (i < length (lprgEventObject g)) (Inr (lprgEventObject g ! i))"

definition set_event :: "nat \<Rightarrow> EVENTOBJECT \<Rightarrow> GLOBALVARS \<Rightarrow> GLOBALVARS" where
  "set_event i ev g = g\<lparr>lprgEventObject := (lprgEventObject g)[i := ev]\<rparr>"

section \<open>Obstacles\<close>

text \<open>The tile at a position: its column, row and half row.\<close>

definition nearest_tile :: "int \<Rightarrow> int \<Rightarrow> int \<times> int \<times> int" where
  "nearest_tile px py =
     (let x = px div 32; y = py div 16; xr = px mod 32; yr = py mod 16 in
      if xr + yr * 2 \<ge> 16 then
        if xr + yr * 2 \<ge> 48 then (x + 1, y + 1, 0)
        else if 32 - xr + yr * 2 < 16 then (x + 1, y, 0)
        else if 32 - xr + yr * 2 < 48 then (x, y, 1)
        else (x, y + 1, 0)
      else (x, y, 0))"

fun near_event :: "u32 \<Rightarrow> u16 \<Rightarrow> nat list \<Rightarrow> GLOBALVARS \<Rightarrow> bool Prelude.res" where
  "near_event pos wSelfObject [] g = Inr False"
| "near_event pos wSelfObject (i # is) g =
     (if int i = uint wSelfObject - 1 then near_event pos wSelfObject is g
      else bindE (event_at i g) (\<lambda>p.
        if sint (sState p) \<ge> kObjStateBlocker \<and>
           \<bar>uint (ox p) - PAL_X pos\<bar> + \<bar>uint (oy p) - PAL_Y pos\<bar> * 2 < 16 then Inr True
        else near_event pos wSelfObject is g))"

definition PAL_CheckObstacle :: "u32 \<Rightarrow> bool \<Rightarrow> u16 \<Rightarrow> PAL \<Rightarrow> bool Prelude.res" where
  "PAL_CheckObstacle pos fCheckEventObjects wSelfObject s =
     (if PAL_X pos < 0 \<or> PAL_X pos \<ge> 2048 \<or> PAL_Y pos < 0 \<or> PAL_Y pos \<ge> 2048 then Inr True
      else let (x, y, h) = nearest_tile (PAL_X pos) (PAL_Y pos) in
        if PAL_MapTileIsBlocked (word_of_int x) (word_of_int y) (word_of_int h) (lpMap (res s)) then Inr True
        else if fCheckEventObjects then
          bindE (scene_events (gp s)) (\<lambda>(a, b). near_event pos wSelfObject [a..<b] (gp s))
        else Inr False)"

section \<open>The party\<close>

definition walk_frames :: "u16 \<Rightarrow> GLOBALVARS \<Rightarrow> u16 Prelude.res" where
  "walk_frames role g = role_of role (\<lambda>r. Inr (the_role rgwWalkFrames r g))"

definition party_at :: "nat \<Rightarrow> GLOBALVARS \<Rightarrow> PARTY Prelude.res" where
  "party_at i g = definedE ''rgParty'' (i < length (rgParty g)) (Inr (rgParty g ! i))"

definition set_party :: "nat \<Rightarrow> PARTY \<Rightarrow> GLOBALVARS \<Rightarrow> GLOBALVARS" where
  "set_party i p g = g\<lparr>rgParty := (rgParty g)[i := p]\<rparr>"

definition leader_walks :: "nat \<Rightarrow> nat \<Rightarrow> GLOBALVARS \<Rightarrow> GLOBALVARS Prelude.res" where
  "leader_walks step iStepFrameLeader g =
     bindE (party_at 0 g) (\<lambda>p.
     bindE (walk_frames (wPlayerRole p) g) (\<lambda>f.
       Inr (set_party 0 (p\<lparr>party_x := wx (partyoffset g), party_y := wy (partyoffset g),
         wFrame := (if f = 4 then wPartyDirection g * 4 + of_nat step
                    else wPartyDirection g * 3 + of_nat iStepFrameLeader)\<rparr>) g)))"

text \<open>The place of the member \<open>i\<close> behind the leader, unless there is an obstacle.\<close>

definition member_walks :: "nat \<Rightarrow> nat \<Rightarrow> nat \<Rightarrow> PAL \<Rightarrow> PAL Prelude.res" where
  "member_walks step iStepFrameLeader i s =
     (let g = gp s; t1 = rgTrail g ! 1; t2 = rgTrail g ! 2;
          bx = trail_x t1 - wx (viewport g); by' = trail_y t1 - wy (viewport g); d = trail_dir t1;
          x = bx + (if i = 2 then if d = kDirEast \<or> d = kDirWest then - 16 else 16
                    else if d = kDirWest \<or> d = kDirSouth then 16 else - 16);
          y = by' + (if i = 2 then 8 else if d = kDirWest \<or> d = kDirNorth then 8 else - 8) in
      bindE (party_at i g) (\<lambda>p.
      bindE (PAL_CheckObstacle (PAL_XY (x + wx (viewport g)) (y + wy (viewport g))) True 0 s) (\<lambda>obstacle.
      bindE (walk_frames (wPlayerRole p) g) (\<lambda>f.
        Inr (on_gp (set_party i (p\<lparr>party_x := (if obstacle then bx else x), party_y := (if obstacle then by' else y),
          wFrame := (if f = 4 then trail_dir t2 * 4 + of_nat step
                     else trail_dir t2 * 3 + of_nat iStepFrameLeader)\<rparr>)) s)))))"

definition follower_walks :: "nat \<Rightarrow> GLOBALVARS \<Rightarrow> GLOBALVARS Prelude.res" where
  "follower_walks iStepFrameFollower g =
     (if nFollower g > 0 then
        let i = unat (wMaxPartyMemberIndex g) + 1; t = rgTrail g ! 3 in
        bindE (party_at i g) (\<lambda>p.
          Inr (set_party i (p\<lparr>party_x := trail_x t - wx (viewport g), party_y := trail_y t - wy (viewport g),
            wFrame := trail_dir t * 3 + of_nat iStepFrameFollower\<rparr>) g))
      else Inr g)"

definition member_stands :: "nat \<Rightarrow> GLOBALVARS \<Rightarrow> GLOBALVARS Prelude.res" where
  "member_stands i g =
     bindE (party_at i g) (\<lambda>p.
     bindE (walk_frames (wPlayerRole p) g) (\<lambda>f.
       Inr (set_party i (p\<lparr>wFrame :=
         (if i = 0 then wPartyDirection g else trail_dir (rgTrail g ! 2)) * (if f = 0 then 3 else f)\<rparr>) g)))"

definition follower_stands :: "GLOBALVARS \<Rightarrow> GLOBALVARS Prelude.res" where
  "follower_stands g =
     (if nFollower g > 0 then
        let i = unat (wMaxPartyMemberIndex g) + 1 in
        bindE (party_at i g) (\<lambda>p. Inr (set_party i (p\<lparr>wFrame := trail_dir (rgTrail g ! 3) * 3\<rparr>) g))
      else Inr g)"

definition PAL_UpdatePartyGestures :: "bool \<Rightarrow> PAL \<Rightarrow> PAL Prelude.res" where
  "PAL_UpdatePartyGestures fWalking s =
     definedE ''rgTrail'' (length (rgTrail (gp s)) = MAX_PLAYABLE_PLAYER_ROLES)
      (if fWalking then
        let step = (s_iThisStepFrame s + 1) mod 4;
            leader = (if odd step then (step + 1) div 2 else 0);
            follower = (if odd step then 3 - leader else 0) in
        bindE (on_gpE (leader_walks step leader) (s\<lparr>s_iThisStepFrame := step\<rparr>)) (\<lambda>s.
        bindE (each (member_walks step leader) [1..<members (gp s)] s) (\<lambda>s.
          on_gpE (follower_walks follower) s))
      else
        bindE (on_gpE (each member_stands (0 # [1..<members (gp s)])) s) (\<lambda>s.
        bindE (on_gpE follower_stands s) (\<lambda>s.
          Inr (s\<lparr>s_iThisStepFrame := (if s_iThisStepFrame s mod 4 < 2 then 2 else 0)\<rparr>))))"

definition push_trail :: "TRAIL \<Rightarrow> GLOBALVARS \<Rightarrow> GLOBALVARS" where
  "push_trail t g = g\<lparr>rgTrail := t # butlast (rgTrail g)\<rparr>"

definition PAL_UpdateParty :: "PAL \<Rightarrow> PAL Prelude.res" where
  "PAL_UpdateParty s =
     (if dir s \<noteq> kDirUnknown then
        let xOffset = (if dir s = kDirWest \<or> dir s = kDirSouth then - 16 else 16);
            yOffset = (if dir s = kDirWest \<or> dir s = kDirNorth then - 8 else 8);
            xSource = party_px (gp s); ySource = party_py (gp s);
            s = on_gp (\<lambda>g. g\<lparr>wPartyDirection := dir s\<rparr>) s in
        bindE (PAL_CheckObstacle (PAL_XY (word_of_int (xSource + xOffset)) (word_of_int (ySource + yOffset))) True 0 s) (\<lambda>obstacle.
          if \<not> obstacle then
            PAL_UpdatePartyGestures True (on_gp (\<lambda>g.
              (push_trail \<lparr>trail_x = word_of_int xSource, trail_y = word_of_int ySource, trail_dir = dir s\<rparr> g)
                \<lparr>viewport := PAL_XY (word_of_int (PAL_X (viewport g) + xOffset)) (word_of_int (PAL_Y (viewport g) + yOffset))\<rparr>) s)
          else PAL_UpdatePartyGestures False s)
      else PAL_UpdatePartyGestures False s)"

section \<open>Event objects\<close>

definition walk_one_step :: "int \<Rightarrow> EVENTOBJECT \<Rightarrow> EVENTOBJECT" where
  "walk_one_step iSpeed p =
     (let d = wDirection p;
          p = p\<lparr>ox := ox p + word_of_int ((if d = kDirWest \<or> d = kDirSouth then - 2 else 2) * iSpeed),
                oy := oy p + word_of_int ((if d = kDirWest \<or> d = kDirNorth then - 1 else 1) * iSpeed)\<rparr> in
      if nSpriteFrames p > 0 then
        p\<lparr>wCurrentFrameNum := (wCurrentFrameNum p + 1) mod (if nSpriteFrames p = 3 then 4 else nSpriteFrames p)\<rparr>
      else if nSpriteFramesAuto p > 0 then p\<lparr>wCurrentFrameNum := (wCurrentFrameNum p + 1) mod nSpriteFramesAuto p\<rparr>
      else p)"

definition PAL_NPCWalkOneStep :: "u16 \<Rightarrow> int \<Rightarrow> GLOBALVARS \<Rightarrow> GLOBALVARS" where
  "PAL_NPCWalkOneStep wEventObjectID iSpeed g =
     (if wEventObjectID = 0 \<or> unat wEventObjectID > length (lprgEventObject g) then g
      else let i = unat wEventObjectID - 1 in set_event i (walk_one_step iSpeed (lprgEventObject g ! i)) g)"

end
