(* ===== verification/PalDraw.thy ===== *)
theory PalDraw
  imports PalScene
begin

text \<open>Drawing a scene: the second part of \<open>scene/scene.c\<close>. \<open>g_rgSpriteToDraw\<close> is the list of its used entries.\<close>

section \<open>Sprites to draw\<close>

record SPRITE_TO_DRAW =
  lpSpriteFrame :: "u8 list"
  sprite_pos :: u32
  iLayer :: int

definition MAX_SPRITE_TO_DRAW :: nat where [simp]: "MAX_SPRITE_TO_DRAW = 2048"

definition PAL_AddSpriteToDraw :: "u8 list \<Rightarrow> int \<Rightarrow> int \<Rightarrow> int \<Rightarrow> SPRITE_TO_DRAW list \<Rightarrow> SPRITE_TO_DRAW list Prelude.res" where
  "PAL_AddSpriteToDraw frame x y layer sps =
     assertE ''g_nSpriteToDraw < MAX_SPRITE_TO_DRAW'' (length sps < MAX_SPRITE_TO_DRAW)
      (Inr (sps @ [\<lparr>lpSpriteFrame = frame, sprite_pos = PAL_XY (word_of_int x) (word_of_int y), iLayer = layer\<rparr>]))"

text \<open>The tiles around a sprite in the order of the loops; \<open>first\<close> says that the column is the first one.\<close>

definition cover_tiles :: "bool \<Rightarrow> int \<Rightarrow> int \<Rightarrow> int \<Rightarrow> (int \<times> int \<times> int) list" where
  "cover_tiles first sh x y =
     (if first then [(x, y, sh), (x - 1, y, sh), (if sh \<noteq> 0 then x else x - 1, if sh \<noteq> 0 then y + 1 else y, 1 - sh)] else []) @
     [(x + 1, y, sh), (if sh \<noteq> 0 then x + 1 else x, if sh \<noteq> 0 then y + 1 else y, 1 - sh)]"

definition cover_tile :: "PALMAP option \<Rightarrow> u32 \<Rightarrow> int \<Rightarrow> (int \<times> int \<times> int) \<times> u8 \<Rightarrow> SPRITE_TO_DRAW list \<Rightarrow> SPRITE_TO_DRAW list Prelude.res" where
  "cover_tile m vp sy = (\<lambda>((dx, dy, dh), l) sps.
     bindE (PAL_MapGetTileBitmap (word_of_int dx) (word_of_int dy) (word_of_int dh) l m) (\<lambda>lpTile.
       let iTileHeight = uint (PAL_MapGetTileHeight (word_of_int dx) (word_of_int dy) (word_of_int dh) l m) in
       case lpTile of
         Some tile \<Rightarrow>
           if iTileHeight > 0 \<and> (dy + iTileHeight) * 16 + dh * 8 \<ge> sy then
             PAL_AddSpriteToDraw tile (dx * 32 + dh * 16 - 16 - PAL_X vp)
               (dy * 16 + dh * 8 + 7 + uint l + iTileHeight * 8 - PAL_Y vp) (iTileHeight * 8 + uint l) sps
           else Inr sps
       | None \<Rightarrow> Inr sps))"

definition PAL_CalcCoverTiles :: "SPRITE_TO_DRAW \<Rightarrow> PALMAP option \<Rightarrow> u32 \<Rightarrow> SPRITE_TO_DRAW list \<Rightarrow> SPRITE_TO_DRAW list Prelude.res" where
  "PAL_CalcCoverTiles sp m vp sps =
     (let sx = PAL_X vp + PAL_X (sprite_pos sp); sy = PAL_Y vp + PAL_Y (sprite_pos sp);
          sh = (if sx smod 32 \<noteq> 0 then 1 else 0) in
      bindE (PAL_RLEGetWidth (lpSpriteFrame sp)) (\<lambda>w.
      bindE (PAL_RLEGetHeight (lpSpriteFrame sp)) (\<lambda>height.
        let x0 = (sx - int w div 2) sdiv 32 in
        each (cover_tile m vp sy)
          (concat (map (\<lambda>y. concat (map (\<lambda>x. concat (map (\<lambda>t. [(t, 0), (t, 1)]) (cover_tiles (x = x0) sh x y)))
              (upto_int x0 ((sx + int w div 2) sdiv 32 + 1))))
            (upto_int ((sy - int height - 15) sdiv 16) (sy sdiv 16 + 1)))) sps)))"

text \<open>A sprite and, behind it, the tiles that cover it.\<close>

definition add_with_tiles :: "PALMAP option \<Rightarrow> u32 \<Rightarrow> u8 list \<Rightarrow> int \<Rightarrow> int \<Rightarrow> int \<Rightarrow> SPRITE_TO_DRAW list \<Rightarrow> SPRITE_TO_DRAW list Prelude.res" where
  "add_with_tiles m vp frame x y layer sps =
     bindE (PAL_AddSpriteToDraw frame x y layer sps) (\<lambda>sps. PAL_CalcCoverTiles (last sps) m vp sps)"

definition sprite_frame :: "u8 list option \<Rightarrow> int \<Rightarrow> u8 list option Prelude.res" where
  "sprite_frame sp n = (case sp of None \<Rightarrow> Inr None | Some bs \<Rightarrow> PAL_SpriteGetFrame bs n)"

definition add_member :: "PAL \<Rightarrow> nat \<Rightarrow> SPRITE_TO_DRAW list \<Rightarrow> SPRITE_TO_DRAW list Prelude.res" where
  "add_member s i sps =
     (let g = gp s in
      bindE (party_at i g) (\<lambda>p.
      bindE (sprite_frame (PAL_GetPlayerSprite (of_nat i) (res s)) (uint (wFrame p))) (\<lambda>bm. case bm of
        None \<Rightarrow> Inr sps
      | Some frame \<Rightarrow>
          bindE (PAL_RLEGetWidth frame) (\<lambda>w.
            add_with_tiles (lpMap (res s)) (viewport g) frame (sint (party_x p) - int w div 2)
              (sint (party_y p) + uint (wLayer g) + 10) (uint (wLayer g) + 6) sps))))"

definition shown_frame :: "EVENTOBJECT \<Rightarrow> int" where
  "shown_frame p =
     (let f = wCurrentFrameNum p; f = (if nSpriteFrames p = 3 then if f = 2 then 0 else if f = 3 then 2 else f else f) in
      uint (wDirection p) * uint (nSpriteFrames p) + uint f)"

definition add_event :: "PAL \<Rightarrow> nat \<Rightarrow> SPRITE_TO_DRAW list \<Rightarrow> SPRITE_TO_DRAW list Prelude.res" where
  "add_event s i sps =
     (let g = gp s in
      bindE (event_at i g) (\<lambda>p.
        if sint (sState p) = kObjStateHidden \<or> sint (sVanishTime p) > 0 \<or> sint (sState p) < 0 then Inr sps
        else bindE (PAL_GetEventObjectSprite (of_nat i + 1) (res s) g) (\<lambda>sprite.
        bindE (sprite_frame sprite (shown_frame p)) (\<lambda>bm. case bm of
          None \<Rightarrow> Inr sps
        | Some frame \<Rightarrow>
            bindE (PAL_RLEGetWidth frame) (\<lambda>w.
            bindE (PAL_RLEGetHeight frame) (\<lambda>h.
              let x = sint (ox p) - PAL_X (viewport g) - int w div 2;
                  y = sint (oy p) - PAL_Y (viewport g) + sint (sLayer p) * 8 + 9;
                  vy = y - int h - sint (sLayer p) * 8 + 2 in
              if x \<ge> 320 \<or> x < - int w \<or> vy \<ge> 200 \<or> vy < - int h then Inr sps
              else add_with_tiles (lpMap (res s)) (viewport g) frame x y (sint (sLayer p) * 8 + 2) sps))))))"

section \<open>Sorting and drawing them\<close>

text \<open>One pass over the first \<open>n + 1\<close> entries, and whether it swapped any.\<close>

fun bubble_pass :: "nat \<Rightarrow> SPRITE_TO_DRAW list \<Rightarrow> bool \<times> SPRITE_TO_DRAW list" where
  "bubble_pass (Suc n) (a # b # sps) =
     (if PAL_Y (sprite_pos a) > PAL_Y (sprite_pos b)
      then (let (_, r) = bubble_pass n (a # sps) in (True, b # r))
      else (let (swap, r) = bubble_pass n (b # sps) in (swap, a # r)))"
| "bubble_pass n sps = (False, sps)"

text \<open>The passes \<open>x\<close>, \<open>x + 1\<close>, ...; \<open>k\<close> is \<open>g_nSpriteToDraw - 1 - x\<close>.\<close>

fun bubble_sort :: "nat \<Rightarrow> SPRITE_TO_DRAW list \<Rightarrow> SPRITE_TO_DRAW list" where
  "bubble_sort 0 sps = sps"
| "bubble_sort (Suc k) sps =
     (let (fSwap, sps) = bubble_pass (Suc k) sps in if fSwap then bubble_sort k sps else sps)"

definition draw_sprite :: "SPRITE_TO_DRAW \<Rightarrow> SDL_Surface \<Rightarrow> SDL_Surface Prelude.res" where
  "draw_sprite p scr =
     bindE (PAL_RLEGetHeight (lpSpriteFrame p)) (\<lambda>h.
       PAL_RLEBlitToSurface (lpSpriteFrame p) scr
         (PAL_XY (word_of_int (PAL_X (sprite_pos p))) (word_of_int (PAL_Y (sprite_pos p) - int h - iLayer p))))"

definition scene_sprites :: "PAL \<Rightarrow> SPRITE_TO_DRAW list Prelude.res" where
  "scene_sprites s =
     bindE (each (add_member s) [0..<nat (sint (wMaxPartyMemberIndex (gp s)) + uint (nFollower (gp s)) + 1)] []) (\<lambda>sps.
     bindE (scene_events (gp s)) (\<lambda>(a, b). each (add_event s) [a..<b] sps))"

definition PAL_SceneDrawSprites :: "PAL \<Rightarrow> PAL Prelude.res" where
  "PAL_SceneDrawSprites s =
     bindE (scene_sprites s) (\<lambda>sps.
     bindE (each draw_sprite (bubble_sort (length sps - 1) sps) (gpScreen s)) (\<lambda>scr. Inr (s\<lparr>gpScreen := scr\<rparr>)))"

section \<open>The waving screen\<close>

text \<open>\<open>wave\<close>: the offsets of the first 16 rows from \<open>a\<close> and \<open>b\<close> on, then 320 less each of them.\<close>

fun wave_half :: "nat \<Rightarrow> int \<Rightarrow> int \<Rightarrow> int \<Rightarrow> int list" where
  "wave_half 0 a b w = []"
| "wave_half (Suc n) a b w = (let b = b - 8; a = a + b in (a * w) sdiv 256 # wave_half n a b w)"

definition wave_of :: "int \<Rightarrow> int list" where
  "wave_of w = (let h = wave_half 16 0 68 w in h @ map (\<lambda>d. 320 - d) h)"

text \<open>Row \<open>i\<close>: \<open>memcpy\<close> of \<open>b\<close> bytes, \<open>memmove\<close> of the others to the front, and the copy behind them.\<close>

definition rotate_row :: "int \<Rightarrow> nat \<Rightarrow> SDL_Surface \<Rightarrow> SDL_Surface" where
  "rotate_row b i scr =
     (if b > 0 then
        let p = i * pitch scr; row = map (\<lambda>j. pixels scr (p + j)) [0..<320];
            row = drop (nat b) row @ take (nat b) row in
        scr\<lparr>pixels := (\<lambda>q. if p \<le> q \<and> q < p + 320 then row ! (q - p) else pixels scr q)\<rparr>
      else scr)"

definition PAL_ApplyWave :: "PAL \<Rightarrow> PAL" where
  "PAL_ApplyWave s =
     (let s = on_gp (\<lambda>g. g\<lparr>wScreenWave := wScreenWave g + sWaveProgression g\<rparr>) s; w = wScreenWave (gp s) in
      if w = 0 \<or> w \<ge> 256 then on_gp (\<lambda>g. g\<lparr>wScreenWave := 0, sWaveProgression := 0\<rparr>) s
      else s\<lparr>gpScreen := fold (\<lambda>i. rotate_row (wave_of (uint w) ! ((wave_index s + i) mod 32)) i) [0..<200] (gpScreen s),
             wave_index := (wave_index s + 1) mod 32\<rparr>)"

section \<open>The scene\<close>

definition PAL_MakeScene :: "ENV \<Rightarrow> PAL \<Rightarrow> PAL Prelude.res" where
  "PAL_MakeScene e s =
     (let blit = (\<lambda>layer s. bindE (PAL_MapBlitToSurface (lpMap (res s)) (gpScreen s)
                    (PAL_X (viewport (gp s))) (PAL_Y (viewport (gp s))) 320 200 layer) (\<lambda>scr. Inr (s\<lparr>gpScreen := scr\<rparr>))) in
      bindE (blit 0 s) (\<lambda>s.
      bindE (blit 1 s) (\<lambda>s.
      bindE (PAL_SceneDrawSprites (PAL_ApplyWave s)) (\<lambda>s.
        if fNeedToFadeIn (gp s) then
          bindE (call e VIDEO_UpdateScreen s) (\<lambda>s.
          bindE (call e (PAL_FadeIn (wNumPalette (gp s)) (fNightPalette (gp s)) 1) s) (\<lambda>s.
            Inr (on_gp (\<lambda>g. g\<lparr>fNeedToFadeIn := False\<rparr>) s)))
        else Inr s))))"

end
