(* ===== verification/PalPlayer.thy ===== *)
theory PalPlayer
  imports PalGlobal
begin

text \<open>
  The inventory, the hit points, poisons, equipment, magics, statuses and levels of the players:
  the operations of \<open>global.c\<close> from \<open>PAL_AddItemToInventory\<close> on.
\<close>

section \<open>Inventory\<close>

text \<open>Where the search for an item stops, and whether it was found.\<close>

fun search_item :: "u16 \<Rightarrow> nat \<Rightarrow> INVENTORY list \<Rightarrow> nat \<times> bool" where
  "search_item ob index [] = (index, False)"
| "search_item ob index (it # inven) =
     (if wItem it = ob then (index, True)
      else if wItem it = 0 then (index, False)
      else search_item ob (index + 1) inven)"

text \<open>On the inventory alone; \<open>nAmount\<close> has 16 bits.\<close>

definition add_item :: "u16 \<Rightarrow> int \<Rightarrow> INVENTORY list \<Rightarrow> bool \<times> INVENTORY list" where
  "add_item ob iNum inven =
     (if ob = 0 then (False, inven)
      else
        let iNum = (if iNum = 0 then 1 else iNum); (index, fFound) = search_item ob 0 inven in
        if iNum > 0 then
          if index \<ge> length inven then (False, inven)
          else if fFound then
            let n = nAmount (inven ! index) + word_of_int iNum in
            (True, inven[index := (inven ! index)\<lparr>nAmount := if n > 99 then 99 else n\<rparr>])
          else (True, inven[index := (inven ! index)\<lparr>wItem := ob, nAmount := word_of_int (if iNum > 99 then 99 else iNum)\<rparr>])
        else if fFound then
          let iNum = - iNum in
          if uint (nAmount (inven ! index)) < iNum then (False, inven[index := (inven ! index)\<lparr>nAmount := 0\<rparr>])
          else (True, inven[index := (inven ! index)\<lparr>nAmount := nAmount (inven ! index) - word_of_int iNum\<rparr>])
        else (False, inven))"

definition PAL_AddItemToInventory :: "u16 \<Rightarrow> int \<Rightarrow> GLOBALVARS \<Rightarrow> bool \<times> GLOBALVARS" where
  "PAL_AddItemToInventory wObjectID iNum g =
     (let (ok, inven) = add_item wObjectID iNum (rgInventory g) in (ok, g\<lparr>rgInventory := inven\<rparr>))"

fun item_amount :: "u16 \<Rightarrow> INVENTORY list \<Rightarrow> u16" where
  "item_amount ob [] = 0"
| "item_amount ob (it # inven) =
     (if wItem it = 0 then 0 else if wItem it = ob then nAmount it else item_amount ob inven)"

definition PAL_GetItemAmount :: "u16 \<Rightarrow> GLOBALVARS \<Rightarrow> int" where
  "PAL_GetItemAmount ob g = uint (item_amount ob (rgInventory g))"

text \<open>The two loops, in place: entry \<open>i\<close> is moved to \<open>j\<close>.\<close>

function compress_loop :: "nat \<Rightarrow> nat \<Rightarrow> INVENTORY list \<Rightarrow> nat \<times> INVENTORY list" where
  "compress_loop i j inven =
     (if i \<ge> length inven \<or> wItem (inven ! i) = 0 then (j, inven)
      else if nAmount (inven ! i) > 0 then compress_loop (i + 1) (j + 1) (inven[j := inven ! i])
      else compress_loop (i + 1) j inven)"
  by pat_completeness auto
termination by (relation "measure (\<lambda>(i, j, inven). length inven - i)") auto

declare compress_loop.simps [simp del]

definition clear_from :: "nat \<Rightarrow> INVENTORY list \<Rightarrow> INVENTORY list" where
  "clear_from j inven = fold (\<lambda>j inven. inven[j := \<lparr>wItem = 0, nAmount = 0, nAmountInUse = 0\<rparr>]) [j..<length inven] inven"

definition compress :: "INVENTORY list \<Rightarrow> INVENTORY list" where
  "compress inven = (let (j, inven) = compress_loop 0 0 inven in clear_from j inven)"

definition PAL_CompressInventory :: "GLOBALVARS \<Rightarrow> GLOBALVARS" where
  "PAL_CompressInventory g = g\<lparr>rgInventory := compress (rgInventory g)\<rparr>"

section \<open>Hit points and magic points\<close>

text \<open>One of them: the new value, with the comparisons of the source on \<open>SHORT\<close> and \<open>WORD\<close>.\<close>

definition raise_points :: "u16 \<Rightarrow> u16 \<Rightarrow> u16 \<Rightarrow> u16" where
  "raise_points v d mx =
     (let v = v + d in if sint v < 0 then 0 else if v > mx then mx else v)"

definition PAL_IncreaseHPMP :: "u16 \<Rightarrow> u16 \<Rightarrow> u16 \<Rightarrow> GLOBALVARS \<Rightarrow> (bool \<times> GLOBALVARS) res" where
  "PAL_IncreaseHPMP role sHP sMP g =
     role_of role (\<lambda>r.
       if the_role rgwHP r g > 0 then
         let g = set_role rgwHP r (raise_points (the_role rgwHP r g) sHP (the_role rgwMaxHP r g)) g;
             g = set_role rgwMP r (raise_points (the_role rgwMP r g) sMP (the_role rgwMaxMP r g)) g
         in Inr (True, g)
       else Inr (False, g))"

section \<open>Equipment\<close>

text \<open>The member of the party that plays a role.\<close>

fun party_index :: "u16 \<Rightarrow> nat \<Rightarrow> PARTY list \<Rightarrow> nat option" where
  "party_index r i [] = None"
| "party_index r i (m # ms) = (if wPlayerRole m = r then Some i else party_index r (i + 1) ms)"

definition member_index :: "u16 \<Rightarrow> GLOBALVARS \<Rightarrow> nat option res" where
  "member_index r g =
     definedE ''rgParty'' (unat (wMaxPartyMemberIndex g) < length (rgParty g))
      (Inr (party_index r 0 (take (unat (wMaxPartyMemberIndex g) + 1) (rgParty g))))"

definition poison_at :: "nat \<Rightarrow> nat \<Rightarrow> GLOBALVARS \<Rightarrow> POISONSTATUS" where
  "poison_at i index g = rgPoisonStatus g ! (i * MAX_PLAYABLE_PLAYER_ROLES + index)"

definition set_poison :: "nat \<Rightarrow> nat \<Rightarrow> POISONSTATUS \<Rightarrow> GLOBALVARS \<Rightarrow> GLOBALVARS" where
  "set_poison i index v g = g\<lparr>rgPoisonStatus := (rgPoisonStatus g)[i * MAX_PLAYABLE_PLAYER_ROLES + index := v]\<rparr>"

definition no_poison :: POISONSTATUS where
  "no_poison = \<lparr>wPoisonID = 0, wPoisonScript = 0\<rparr>"

definition poison_level :: "u16 \<Rightarrow> GLOBALVARS \<Rightarrow> u16 res" where
  "poison_level w g = definedE ''rgObject'' (unat w < length (rgObject g)) (Inr (poison_wPoisonLevel (rgObject g ! unat w)))"

text \<open>The poisons below level 99 are moved to the front; the result is their number.\<close>

fun keep_poisons :: "nat \<Rightarrow> nat list \<Rightarrow> nat \<Rightarrow> GLOBALVARS \<Rightarrow> (nat \<times> GLOBALVARS) res" where
  "keep_poisons index [] j g = Inr (j, g)"
| "keep_poisons index (i # is) j g =
     (let w = wPoisonID (poison_at i index g) in
      if w = 0 then Inr (j, g)
      else bindE (poison_level w g) (\<lambda>l.
        if l < 99 then keep_poisons index is (j + 1) (set_poison j index (poison_at i index g) g)
        else keep_poisons index is j g))"

definition clear_row :: "nat \<Rightarrow> nat \<Rightarrow> u16 list \<Rightarrow> u16 list" where
  "clear_row r n p = fold (\<lambda>i p. role_set i r 0 p) [0..<n] p"

definition PAL_RemoveEquipmentEffect :: "u16 \<Rightarrow> u16 \<Rightarrow> GLOBALVARS \<Rightarrow> GLOBALVARS res" where
  "PAL_RemoveEquipmentEffect role wEquipPart g =
     role_of role (\<lambda>r.
     definedE ''rgEquipmentEffect'' (unat wEquipPart < length (rgEquipmentEffect g))
      (let part = unat wEquipPart;
           g = g\<lparr>rgEquipmentEffect := (rgEquipmentEffect g)[part := clear_row r PLAYERROLES_rows (rgEquipmentEffect g ! part)]\<rparr>
       in if part = kBodyPartHand then
            Inr (g\<lparr>rgPlayerStatus := (rgPlayerStatus g)[r * kStatusAll + kStatusDualAttack := 0]\<rparr>)
          else if part = kBodyPartWear then
            bindE (member_index role g) (\<lambda>m. case m of
              None \<Rightarrow> Inr g
            | Some index \<Rightarrow> bindE (keep_poisons index [0..<MAX_POISONS] 0 g) (\<lambda>(j, g).
                Inr (fold (\<lambda>j. set_poison j index no_poison) [j..<MAX_POISONS] g)))
          else Inr g))"

section \<open>Poisons\<close>

text \<open>The first free place, \<open>None\<close> if the poison is found before it.\<close>

fun poison_place :: "nat \<Rightarrow> u16 \<Rightarrow> nat list \<Rightarrow> GLOBALVARS \<Rightarrow> nat option" where
  "poison_place index p [] g = None"
| "poison_place index p (i # is) g =
     (let w = wPoisonID (poison_at i index g) in
      if w = 0 then Some i else if w = p then None else poison_place index p is g)"

definition PAL_AddPoisonForPlayer :: "u16 \<Rightarrow> u16 \<Rightarrow> GLOBALVARS \<Rightarrow> GLOBALVARS res" where
  "PAL_AddPoisonForPlayer role p g =
     bindE (member_index role g) (\<lambda>m. case m of
       None \<Rightarrow> Inr g
     | Some index \<Rightarrow>
         (case poison_place index p [0..<MAX_POISONS] g of
            None \<Rightarrow> Inr g
          | Some i \<Rightarrow> definedE ''rgObject'' (unat p < length (rgObject g))
              (Inr (set_poison i index \<lparr>wPoisonID = p, wPoisonScript = poison_wPlayerScript (rgObject g ! unat p)\<rparr> g))))"

definition PAL_CurePoisonByKind :: "u16 \<Rightarrow> u16 \<Rightarrow> GLOBALVARS \<Rightarrow> GLOBALVARS res" where
  "PAL_CurePoisonByKind role p g =
     bindE (member_index role g) (\<lambda>m. case m of
       None \<Rightarrow> Inr g
     | Some index \<Rightarrow>
         Inr (fold (\<lambda>i g. if wPoisonID (poison_at i index g) = p then set_poison i index no_poison g else g) [0..<MAX_POISONS] g))"

fun cure_levels :: "nat \<Rightarrow> u16 \<Rightarrow> nat list \<Rightarrow> GLOBALVARS \<Rightarrow> GLOBALVARS res" where
  "cure_levels index mx [] g = Inr g"
| "cure_levels index mx (i # is) g =
     bindE (poison_level (wPoisonID (poison_at i index g)) g) (\<lambda>l.
       cure_levels index mx is (if l \<le> mx then set_poison i index no_poison g else g))"

definition PAL_CurePoisonByLevel :: "u16 \<Rightarrow> u16 \<Rightarrow> GLOBALVARS \<Rightarrow> GLOBALVARS res" where
  "PAL_CurePoisonByLevel role wMaxLevel g =
     bindE (member_index role g) (\<lambda>m. case m of
       None \<Rightarrow> Inr g
     | Some index \<Rightarrow> cure_levels index wMaxLevel [0..<MAX_POISONS] g)"

fun poisoned_by_level :: "nat \<Rightarrow> u16 \<Rightarrow> nat list \<Rightarrow> GLOBALVARS \<Rightarrow> bool res" where
  "poisoned_by_level index mn [] g = Inr False"
| "poisoned_by_level index mn (i # is) g =
     bindE (poison_level (wPoisonID (poison_at i index g)) g) (\<lambda>w.
       if w \<ge> 99 then poisoned_by_level index mn is g
       else if w \<ge> mn then Inr True else poisoned_by_level index mn is g)"

definition PAL_IsPlayerPoisonedByLevel :: "u16 \<Rightarrow> u16 \<Rightarrow> GLOBALVARS \<Rightarrow> bool res" where
  "PAL_IsPlayerPoisonedByLevel role wMinLevel g =
     bindE (member_index role g) (\<lambda>m. case m of
       None \<Rightarrow> Inr False
     | Some index \<Rightarrow> poisoned_by_level index wMinLevel [0..<MAX_POISONS] g)"

definition PAL_IsPlayerPoisonedByKind :: "u16 \<Rightarrow> u16 \<Rightarrow> GLOBALVARS \<Rightarrow> bool res" where
  "PAL_IsPlayerPoisonedByKind role p g =
     bindE (member_index role g) (\<lambda>m. case m of
       None \<Rightarrow> Inr False
     | Some index \<Rightarrow> Inr (\<exists>i \<in> set [0..<MAX_POISONS]. wPoisonID (poison_at i index g) = p))"

section \<open>What the equipment adds\<close>

definition effect :: "nat \<Rightarrow> nat \<Rightarrow> nat \<Rightarrow> GLOBALVARS \<Rightarrow> u16" where
  "effect i row r g = role_get row r (rgEquipmentEffect g ! i)"

text \<open>The sum of a row over the first \<open>n\<close> parts; it wraps at 16 bits.\<close>

definition with_effects :: "nat \<Rightarrow> nat \<Rightarrow> nat \<Rightarrow> GLOBALVARS \<Rightarrow> u16" where
  "with_effects n row r g = fold (\<lambda>i w. w + effect i row r g) [0..<n] (the_role row r g)"

text \<open>The last part that is not 0 replaces the value of the role.\<close>

definition last_effect :: "nat \<Rightarrow> nat \<Rightarrow> GLOBALVARS \<Rightarrow> u16" where
  "last_effect row r g =
     fold (\<lambda>i w. if effect i row r g \<noteq> 0 then effect i row r g else w) [0..<MAX_PLAYER_EQUIPMENTS + 1] (the_role row r g)"

definition PAL_GetPlayerAttackStrength :: "u16 \<Rightarrow> GLOBALVARS \<Rightarrow> u16 res" where
  "PAL_GetPlayerAttackStrength role g =
     role_of role (\<lambda>r. Inr (with_effects (MAX_PLAYER_EQUIPMENTS + 1) rgwAttackStrength r g))"

definition PAL_GetPlayerMagicStrength :: "u16 \<Rightarrow> GLOBALVARS \<Rightarrow> u16 res" where
  "PAL_GetPlayerMagicStrength role g =
     role_of role (\<lambda>r. Inr (with_effects (MAX_PLAYER_EQUIPMENTS + 1) rgwMagicStrength r g))"

definition PAL_GetPlayerDefense :: "u16 \<Rightarrow> GLOBALVARS \<Rightarrow> u16 res" where
  "PAL_GetPlayerDefense role g =
     role_of role (\<lambda>r. Inr (with_effects (MAX_PLAYER_EQUIPMENTS + 1) rgwDefense r g))"

definition PAL_GetPlayerDexterity :: "u16 \<Rightarrow> GLOBALVARS \<Rightarrow> u16 res" where
  "PAL_GetPlayerDexterity role g =
     role_of role (\<lambda>r. Inr (with_effects MAX_PLAYER_EQUIPMENTS rgwDexterity r g))"

definition PAL_GetPlayerFleeRate :: "u16 \<Rightarrow> GLOBALVARS \<Rightarrow> u16 res" where
  "PAL_GetPlayerFleeRate role g =
     role_of role (\<lambda>r. Inr (with_effects (MAX_PLAYER_EQUIPMENTS + 1) rgwFleeRate r g))"

definition PAL_GetPlayerPoisonResistance :: "u16 \<Rightarrow> GLOBALVARS \<Rightarrow> u16 res" where
  "PAL_GetPlayerPoisonResistance role g =
     role_of role (\<lambda>r.
       let w = with_effects (MAX_PLAYER_EQUIPMENTS + 1) rgwPoisonResistance r g in Inr (if w > 100 then 100 else w))"

definition PAL_GetPlayerElementalResistance :: "u16 \<Rightarrow> int \<Rightarrow> GLOBALVARS \<Rightarrow> u16 res" where
  "PAL_GetPlayerElementalResistance role iAttrib g =
     role_of role (\<lambda>r.
     definedE ''rgwElementalResistance'' (0 \<le> iAttrib \<and> iAttrib < 5)
      (let w = with_effects (MAX_PLAYER_EQUIPMENTS + 1) (rgwElementalResistance + nat iAttrib) r g in
       Inr (if w > 100 then 100 else w)))"

definition PAL_GetPlayerBattleSprite :: "u16 \<Rightarrow> GLOBALVARS \<Rightarrow> u16 res" where
  "PAL_GetPlayerBattleSprite role g = role_of role (\<lambda>r. Inr (last_effect rgwSpriteNumInBattle r g))"

definition PAL_GetPlayerCooperativeMagic :: "u16 \<Rightarrow> GLOBALVARS \<Rightarrow> u16 res" where
  "PAL_GetPlayerCooperativeMagic role g = role_of role (\<lambda>r. Inr (last_effect rgwCooperativeMagic r g))"

definition PAL_PlayerCanAttackAll :: "u16 \<Rightarrow> GLOBALVARS \<Rightarrow> bool res" where
  "PAL_PlayerCanAttackAll role g =
     role_of role (\<lambda>r. Inr (\<exists>i \<in> set [0..<MAX_PLAYER_EQUIPMENTS + 1]. effect i rgwAttackAll r g \<noteq> 0))"

section \<open>Magics\<close>

definition PAL_AddMagic :: "u16 \<Rightarrow> u16 \<Rightarrow> GLOBALVARS \<Rightarrow> (bool \<times> GLOBALVARS) res" where
  "PAL_AddMagic role wMagic g =
     role_of role (\<lambda>r.
       if \<exists>i \<in> set [0..<MAX_PLAYER_MAGICS]. the_role (rgwMagic + i) r g = wMagic then Inr (False, g)
       else case find (\<lambda>i. the_role (rgwMagic + i) r g = 0) [0..<MAX_PLAYER_MAGICS] of
         None \<Rightarrow> Inr (False, g)
       | Some i \<Rightarrow> Inr (True, set_role (rgwMagic + i) r wMagic g))"

definition PAL_RemoveMagic :: "u16 \<Rightarrow> u16 \<Rightarrow> GLOBALVARS \<Rightarrow> GLOBALVARS res" where
  "PAL_RemoveMagic role wMagic g =
     role_of role (\<lambda>r.
       case find (\<lambda>i. the_role (rgwMagic + i) r g = wMagic) [0..<MAX_PLAYER_MAGICS] of
         None \<Rightarrow> Inr g
       | Some i \<Rightarrow> Inr (set_role (rgwMagic + i) r 0 g))"

section \<open>Statuses\<close>

definition status_at :: "nat \<Rightarrow> nat \<Rightarrow> GLOBALVARS \<Rightarrow> u16" where
  "status_at r st g = rgPlayerStatus g ! (r * kStatusAll + st)"

definition set_status :: "nat \<Rightarrow> nat \<Rightarrow> u16 \<Rightarrow> GLOBALVARS \<Rightarrow> GLOBALVARS" where
  "set_status r st v g = g\<lparr>rgPlayerStatus := (rgPlayerStatus g)[r * kStatusAll + st := v]\<rparr>"

definition drop_status :: "nat \<Rightarrow> nat \<Rightarrow> GLOBALVARS \<Rightarrow> GLOBALVARS" where
  "drop_status r st g = (if status_at r st g \<le> 999 then set_status r st 0 g else g)"

definition PAL_RemovePlayerStatus :: "u16 \<Rightarrow> u16 \<Rightarrow> GLOBALVARS \<Rightarrow> GLOBALVARS res" where
  "PAL_RemovePlayerStatus role wStatusID g =
     role_of role (\<lambda>r. definedE ''status'' (unat wStatusID < kStatusAll) (Inr (drop_status r (unat wStatusID) g)))"

definition PAL_SetPlayerStatus :: "u16 \<Rightarrow> u16 \<Rightarrow> u16 \<Rightarrow> GLOBALVARS \<Rightarrow> GLOBALVARS res" where
  "PAL_SetPlayerStatus role wStatusID wNumRound g =
     role_of role (\<lambda>r.
       let st = unat wStatusID; hp = the_role rgwHP r g in
       if st = kStatusSlow \<and> status_at r kStatusHaste g > 0 then Inr (drop_status r kStatusHaste g)
       else if st = kStatusHaste \<and> status_at r kStatusSlow g > 0 then Inr (drop_status r kStatusSlow g)
       else if st \<in> {kStatusConfused, kStatusSleep, kStatusSilence, kStatusSlow} then
         Inr (if hp \<noteq> 0 \<and> status_at r st g = 0 then set_status r st wNumRound g else g)
       else if st = kStatusPuppet then
         Inr (if hp = 0 \<and> status_at r st g < wNumRound then set_status r st wNumRound g else g)
       else if st \<in> {kStatusBravery, kStatusProtect, kStatusDualAttack, kStatusHaste} then
         Inr (if hp \<noteq> 0 \<and> status_at r st g < wNumRound then set_status r st wNumRound g else g)
       else Inl (Assert_failed ''PAL_SetPlayerStatus''))"

definition PAL_ClearAllPlayerStatus :: "GLOBALVARS \<Rightarrow> GLOBALVARS" where
  "PAL_ClearAllPlayerStatus g =
     fold (\<lambda>(i, j). drop_status i j) (concat (map (\<lambda>i. map (Pair i) [0..<kStatusAll]) [0..<MAX_PLAYER_ROLES])) g"

section \<open>Levels\<close>

definition raise_stat :: "u32 res \<Rightarrow> nat \<Rightarrow> nat \<Rightarrow> int \<Rightarrow> int \<Rightarrow> GLOBALVARS \<Rightarrow> GLOBALVARS res" where
  "raise_stat ticks row r base n g =
     bindE (RandomLong ticks 0 n g) (\<lambda>(k, g). Inr (set_role row r (the_role row r g + word_of_int (base + k)) g))"

text \<open>The loop for \<open>wNumLevel\<close> levels.\<close>

fun raise_stats :: "u32 res \<Rightarrow> nat \<Rightarrow> nat \<Rightarrow> GLOBALVARS \<Rightarrow> GLOBALVARS res" where
  "raise_stats ticks r 0 g = Inr g"
| "raise_stats ticks r (Suc n) g =
     bindE (raise_stat ticks rgwMaxHP r 10 8 g) (\<lambda>g.
     bindE (raise_stat ticks rgwMaxMP r 8 6 g) (\<lambda>g.
     bindE (raise_stat ticks rgwAttackStrength r 4 1 g) (\<lambda>g.
     bindE (raise_stat ticks rgwMagicStrength r 4 1 g) (\<lambda>g.
     bindE (raise_stat ticks rgwDefense r 2 1 g) (\<lambda>g.
     bindE (raise_stat ticks rgwDexterity r 2 1 g) (\<lambda>g.
       raise_stats ticks r n (set_role rgwFleeRate r (the_role rgwFleeRate r g + 2) g)))))))"

definition limit_stat :: "nat \<Rightarrow> nat \<Rightarrow> GLOBALVARS \<Rightarrow> GLOBALVARS" where
  "limit_stat r row g = (if the_role row r g > 999 then set_role row r 999 g else g)"

definition PAL_PlayerLevelUp :: "u32 res \<Rightarrow> u16 \<Rightarrow> u16 \<Rightarrow> GLOBALVARS \<Rightarrow> GLOBALVARS res" where
  "PAL_PlayerLevelUp ticks role wNumLevel g =
     role_of role (\<lambda>r.
       let g = set_role rgwLevel r (the_role rgwLevel r g + wNumLevel) g;
           g = (if the_role rgwLevel r g > of_nat MAX_LEVELS then set_role rgwLevel r (of_nat MAX_LEVELS) g else g) in
       bindE (raise_stats ticks r (unat wNumLevel) g) (\<lambda>g.
         let g = fold (limit_stat r)
               [rgwMaxHP, rgwMaxMP, rgwAttackStrength, rgwMagicStrength, rgwDefense, rgwDexterity, rgwFleeRate] g in
         Inr (g\<lparr>Exp := (Exp g)[rgPrimaryExp * MAX_PLAYER_ROLES + r :=
           (Exp g ! (rgPrimaryExp * MAX_PLAYER_ROLES + r))\<lparr>wExp := 0, wLevel := the_role rgwLevel r g\<rparr>]\<rparr>)))"

end
