(* ===== verification/PalPlayerCorrect.thy ===== *)
theory PalPlayerCorrect
  imports PalPlayer
begin

text \<open>
  The properties of random numbers, the inventory, hit points, poisons and levels.
\<close>

section \<open>Random numbers\<close>

lemma lrand_range:
  assumes "lrand ticks g = Inr (r, g')"
  shows "0 \<le> r" "r < 2147483648"
proof -
  from assms obtain seed :: u32 where r: "r = sint seed div 2 + 1073741824"
    by (auto simp: lrand_def Let_def bindE_eq_Inr)
  have "- 2147483648 \<le> sint seed" "sint seed < 2147483648"
    using sint_ge [of seed] sint_lt [of seed] by simp_all
  then show "0 \<le> r" "r < 2147483648" unfolding r by simp_all
qed

lemma div_div_bound:
  fixes n r m :: int
  assumes "0 < n" and "n * n \<le> m" and "0 \<le> r" and "r \<le> m"
  shows "0 \<le> r div (m div n)" "r div (m div n) \<le> n"
proof -
  define q where "q = m div n"
  have "n * n div n \<le> q" unfolding q_def using assms(1,2) by (intro zdiv_mono1) simp_all
  then have q: "n \<le> q" using assms(1) by simp
  have "m = n * q + m mod n" by (simp add: q_def)
  moreover have "m mod n < n" using assms(1) by simp
  ultimately have "r < n * q + q" using q assms(4) by linarith
  then have "r < (n + 1) * q" by (simp add: distrib_right)
  moreover have "r div q * q \<le> r" using minus_mod_eq_div_mult [of r q] q assms(1) pos_mod_sign [of q r] by linarith
  ultimately have "r div q * q < (n + 1) * q" by linarith
  then have "r div q < n + 1" using q assms(1) by (simp add: mult_less_cancel_right)
  then show "r div (m div n) \<le> n" by (simp add: q_def)
  show "0 \<le> r div (m div n)" using q assms(1,3) by (simp add: q_def [symmetric] pos_imp_zdiv_nonneg_iff)
qed

lemma RandomLong_bounds:
  assumes "RandomLong ticks from to' g = Inr (k, g')" and "from \<le> to'" and "to' - from + 1 \<le> 46340"
  shows "from \<le> k" "k \<le> to' + 1"
proof -
  have "from \<le> k \<and> k \<le> to' + 1"
  proof (cases "to' = from")
    case False
    from assms False obtain r where r: "lrand ticks g = Inr (r, g')" "k = from + r div (2147483647 div (to' - from + 1))"
      by (auto simp: RandomLong_def bindE_eq_Inr definedE_eq_Inr split: if_splits)
    have "(to' - from + 1) * (to' - from + 1) \<le> 46340 * 46340" using assms by (intro mult_mono) simp_all
    then show ?thesis using div_div_bound [of "to' - from + 1" 2147483647 r] lrand_range [OF r(1)] assms r(2) by simp
  qed (use assms in \<open>simp add: RandomLong_def\<close>)
  then show "from \<le> k" "k \<le> to' + 1" by simp_all
qed

lemma RandomLong_returns:
  assumes "from \<le> to'" and "to' - from + 1 \<le> 46340"
  obtains k g' where "RandomLong (Inr t) from to' g = Inr (k, g')" "from \<le> k" "k \<le> to' + 1" "g' = g\<lparr>glSeed := glSeed g'\<rparr>"
proof -
  obtain r s where l: "lrand (Inr t) g = Inr (r, g\<lparr>glSeed := s\<rparr>)"
    by (cases "glSeed g = 0") (simp_all add: lrand_def Let_def)
  obtain k s where "RandomLong (Inr t) from to' g = Inr (k, g\<lparr>glSeed := s\<rparr>)"
  proof (cases "to' \<le> from")
    case True
    then show ?thesis using that [of "from" "glSeed g"] by (simp add: RandomLong_def)
  next
    case False
    then show ?thesis using that l assms by (simp add: RandomLong_def)
  qed
  then obtain k g' where r: "RandomLong (Inr t) from to' g = Inr (k, g')" "g' = g\<lparr>glSeed := glSeed g'\<rparr>" by simp
  show thesis by (rule that [OF r(1) _ _ r(2)]) (use RandomLong_bounds [OF r(1) assms] in simp_all)
qed

text \<open>
  Bounds of the random numbers: for a range of at most 46340 values, \<open>RandomLong from to\<close> returns a
  number between \<open>from\<close> and \<open>to + 1\<close>, one more than its comment says; and \<open>to + 1\<close> does occur, because the
  quotient is rounded down.
\<close>
lemma RandomLong_range:
  assumes "from \<le> to'" and "to' - from + 1 \<le> 46340"
  shows "(\<exists>k g'. RandomLong (Inr t) from to' g = Inr (k, g') \<and> from \<le> k \<and> k \<le> to' + 1) \<and>
    RandomLong (Inr t) 1 100 (g\<lparr>glSeed := 2933082557\<rparr>) = Inr (101, g\<lparr>glSeed := 2147483640\<rparr>)"
proof -
  have "RandomLong (Inr t) 1 100 (g\<lparr>glSeed := 2933082557\<rparr>) = Inr (101, g\<lparr>glSeed := 2147483640\<rparr>)"
    by (simp add: RandomLong_def lrand_def Let_def)
  then show ?thesis using RandomLong_returns [OF assms] by metis
qed

theorem RandomLong_range_witness:
  "\<exists>k g g'. RandomLong (Inr 5) 1 9 g = Inr (k, g') \<and> 1 \<le> k \<and> k \<le> 10"
  using RandomLong_range [of 1 9 5] by simp blast

section \<open>The inventory\<close>

definition listed :: "INVENTORY list \<Rightarrow> INVENTORY list" where
  "listed inven = takeWhile (\<lambda>it. wItem it \<noteq> 0) inven"

definition unlisted :: "INVENTORY list \<Rightarrow> INVENTORY list" where
  "unlisted inven = dropWhile (\<lambda>it. wItem it \<noteq> 0) inven"

text \<open>Different items with at most 99 of each, and nothing behind the first free entry.\<close>

definition entries_ok :: "INVENTORY list \<Rightarrow> INVENTORY list \<Rightarrow> bool" where
  "entries_ok its rest \<longleftrightarrow>
     0 \<notin> wItem ` set its \<and> wItem ` set rest \<subseteq> {0} \<and> distinct (map wItem its) \<and> (\<forall>it \<in> set its. nAmount it \<le> 99)"

definition inventory_ok :: "GLOBALVARS \<Rightarrow> bool" where
  "inventory_ok g \<longleftrightarrow>
     length (rgInventory g) = MAX_INVENTORY \<and> entries_ok (listed (rgInventory g)) (unlisted (rgInventory g))"

definition stock :: "GLOBALVARS \<Rightarrow> u16 \<Rightarrow> nat" where
  "stock g ob = unat (item_amount ob (rgInventory g))"

definition room_for :: "u16 \<Rightarrow> GLOBALVARS \<Rightarrow> bool" where
  "room_for ob g \<longleftrightarrow> ob \<in> wItem ` set (listed (rgInventory g)) \<or> length (listed (rgInventory g)) < MAX_INVENTORY"

lemma listed_append:
  assumes "entries_ok its rest"
  shows "listed (its @ rest) = its" "unlisted (its @ rest) = rest"
proof -
  have "\<forall>it \<in> set its. wItem it \<noteq> 0" using assms by (force simp: entries_ok_def)
  moreover have "takeWhile (\<lambda>it. wItem it \<noteq> 0) rest = []" "dropWhile (\<lambda>it. wItem it \<noteq> 0) rest = rest"
    using assms by (cases rest; simp add: entries_ok_def)+
  ultimately show "listed (its @ rest) = its" "unlisted (its @ rest) = rest"
    by (simp_all add: listed_def unlisted_def takeWhile_append2 dropWhile_append2)
qed

lemma listed_unlisted: "listed inven @ unlisted inven = inven"
  by (simp add: listed_def unlisted_def)

lemma inventory_ok_append:
  "entries_ok its rest \<Longrightarrow> rgInventory g = its @ rest \<Longrightarrow> inventory_ok g \<longleftrightarrow> length its + length rest = MAX_INVENTORY"
  by (simp add: inventory_ok_def listed_append)

lemma inventory_ok_split:
  assumes "inventory_ok g"
  obtains its rest where "rgInventory g = its @ rest" "entries_ok its rest" "length its + length rest = MAX_INVENTORY"
  using assms listed_unlisted [of "rgInventory g"] by (metis inventory_ok_def length_append)

lemma search_found:
  "ob \<noteq> 0 \<Longrightarrow> 0 \<notin> wItem ` set a \<Longrightarrow> ob \<notin> wItem ` set a \<Longrightarrow> wItem it = ob \<Longrightarrow>
   search_item ob k (a @ it # b) = (k + length a, True)"
  by (induction a arbitrary: k) auto

lemma search_missing:
  "ob \<noteq> 0 \<Longrightarrow> 0 \<notin> wItem ` set its \<Longrightarrow> ob \<notin> wItem ` set its \<Longrightarrow> wItem ` set rest \<subseteq> {0} \<Longrightarrow>
   search_item ob k (its @ rest) = (k + length its, False)"
proof (induction its arbitrary: k)
  case Nil
  then show ?case by (cases rest) auto
qed auto

lemma amount_found:
  "ob \<noteq> 0 \<Longrightarrow> 0 \<notin> wItem ` set a \<Longrightarrow> ob \<notin> wItem ` set a \<Longrightarrow> wItem it = ob \<Longrightarrow> item_amount ob (a @ it # b) = nAmount it"
  by (induction a) auto

lemma amount_missing:
  "0 \<notin> wItem ` set its \<Longrightarrow> ob \<notin> wItem ` set its \<Longrightarrow> wItem ` set rest \<subseteq> {0} \<Longrightarrow> item_amount ob (its @ rest) = 0"
proof (induction its)
  case Nil
  then show ?case by (cases rest) auto
qed auto

lemma amount_other:
  "wItem it' = wItem it \<Longrightarrow> wItem it \<noteq> ob \<Longrightarrow> item_amount ob (a @ it' # b) = item_amount ob (a @ it # b)"
  by (induction a) auto

lemma amount_append_other:
  "0 \<notin> wItem ` set its \<Longrightarrow> wItem it \<noteq> ob \<Longrightarrow> wItem ` set (z # rest) \<subseteq> {0} \<Longrightarrow>
   item_amount ob (its @ it # rest) = item_amount ob (its @ z # rest)"
proof (induction its)
  case Nil
  then show ?case by (cases rest) auto
qed auto

text \<open>The two cases: an entry of the item, or none.\<close>

lemma entry_cases:
  assumes "inventory_ok g" and "ob \<noteq> 0"
  obtains (found) a it b rest where "rgInventory g = a @ it # b @ rest" "wItem it = ob" "entries_ok (a @ it # b) rest"
      "length a + length b + length rest = 255"
    | (missing) its rest where "rgInventory g = its @ rest" "ob \<notin> wItem ` set its" "entries_ok its rest"
      "length its + length rest = 256"
proof -
  from assms(1) obtain its rest where r: "rgInventory g = its @ rest" "entries_ok its rest" "length its + length rest = 256"
    using inventory_ok_split by (metis MAX_INVENTORY_def)
  show thesis
  proof (cases "ob \<in> wItem ` set its")
    case True
    then obtain it where it: "it \<in> set its" "wItem it = ob" by blast
    then obtain a b where "its = a @ it # b" by (meson split_list)
    with r it show thesis by (intro found [of a it b rest]) simp_all
  next
    case False
    then show thesis using r by (intro missing [of its rest]) simp_all
  qed
qed

lemma entries_ok_mid:
  "entries_ok (a @ it # b) rest \<Longrightarrow> wItem it' = wItem it \<Longrightarrow> nAmount it' \<le> 99 \<Longrightarrow> entries_ok (a @ it' # b) rest"
  by (auto simp: entries_ok_def)

lemma with_entry:
  assumes "rgInventory g = a @ it # b @ rest" "wItem it = ob" "ob \<noteq> 0" "entries_ok (a @ it # b) rest"
    "length a + length b + length rest = 255" "nAmount it' \<le> 99" "wItem it' = ob"
  shows "inventory_ok (g\<lparr>rgInventory := a @ it' # b @ rest\<rparr>)"
    "stock (g\<lparr>rgInventory := a @ it' # b @ rest\<rparr>) = (stock g)(ob := unat (nAmount it'))"
proof -
  have e: "entries_ok (a @ it' # b) rest" using assms(2,4,6,7) entries_ok_mid by metis
  show "inventory_ok (g\<lparr>rgInventory := a @ it' # b @ rest\<rparr>)"
    using inventory_ok_append [OF e, of "g\<lparr>rgInventory := a @ it' # b @ rest\<rparr>"] assms(5) by simp
  show "stock (g\<lparr>rgInventory := a @ it' # b @ rest\<rparr>) = (stock g)(ob := unat (nAmount it'))"
  proof (rule ext)
    fix ob'
    have "item_amount ob (a @ it' # b @ rest) = nAmount it'"
      using assms(3,7) e by (intro amount_found) (auto simp: entries_ok_def)
    then show "stock (g\<lparr>rgInventory := a @ it' # b @ rest\<rparr>) ob' = ((stock g)(ob := unat (nAmount it'))) ob'"
      using assms(1,2,7) by (simp add: stock_def amount_other [of it' it])
  qed
qed

lemma entry_stock:
  assumes "rgInventory g = a @ it # b @ rest" "wItem it = ob" "ob \<noteq> 0" "entries_ok (a @ it # b) rest"
  shows "stock g ob = unat (nAmount it)" "nAmount it \<le> 99" "room_for ob g"
proof -
  show "stock g ob = unat (nAmount it)"
    using assms amount_found [of ob a it "b @ rest"] by (simp add: stock_def entries_ok_def image_iff)
  show "nAmount it \<le> 99" using assms(4) by (simp add: entries_ok_def)
  show "room_for ob g" using listed_append [OF assms(4)] assms(1,2) by (auto simp: room_for_def)
qed

lemma add_found:
  assumes "rgInventory g = a @ it # b @ rest" "wItem it = ob" "ob \<noteq> 0" "entries_ok (a @ it # b) rest" "0 < n"
  shows "PAL_AddItemToInventory ob n g = (True, g\<lparr>rgInventory := a @ it\<lparr>nAmount :=
      if nAmount it + word_of_int n > 99 then 99 else nAmount it + word_of_int n\<rparr> # b @ rest\<rparr>)"
    "PAL_AddItemToInventory ob (- n) g = (n \<le> uint (nAmount it), g\<lparr>rgInventory := a @ it\<lparr>nAmount :=
      if uint (nAmount it) < n then 0 else nAmount it - word_of_int n\<rparr> # b @ rest\<rparr>)"
proof -
  have s: "search_item ob 0 (a @ it # b @ rest) = (length a, True)"
    using assms(2-4) by (subst search_found) (auto simp: entries_ok_def)
  show "PAL_AddItemToInventory ob n g = (True, g\<lparr>rgInventory := a @ it\<lparr>nAmount :=
      if nAmount it + word_of_int n > 99 then 99 else nAmount it + word_of_int n\<rparr> # b @ rest\<rparr>)"
    using assms(3,5) by (simp add: PAL_AddItemToInventory_def add_item_def assms(1) s Let_def)
  show "PAL_AddItemToInventory ob (- n) g = (n \<le> uint (nAmount it), g\<lparr>rgInventory := a @ it\<lparr>nAmount :=
      if uint (nAmount it) < n then 0 else nAmount it - word_of_int n\<rparr> # b @ rest\<rparr>)"
    using assms(3,5) by (simp add: PAL_AddItemToInventory_def add_item_def assms(1) s Let_def)
qed

lemma add_missing:
  assumes "rgInventory g = its @ rest" "ob \<notin> wItem ` set its" "ob \<noteq> 0" "entries_ok its rest" "0 < n"
  shows "PAL_AddItemToInventory ob n g = (case rest of
      [] \<Rightarrow> (False, g)
    | z # rest \<Rightarrow> (True, g\<lparr>rgInventory := its @ z\<lparr>wItem := ob, nAmount := word_of_int (if n > 99 then 99 else n)\<rparr> # rest\<rparr>))"
    "PAL_AddItemToInventory ob (- n) g = (False, g)"
proof -
  have s: "search_item ob 0 (its @ rest) = (length its, False)"
    using assms(2-4) by (subst search_missing) (auto simp: entries_ok_def)
  show "PAL_AddItemToInventory ob n g = (case rest of
      [] \<Rightarrow> (False, g)
    | z # rest \<Rightarrow> (True, g\<lparr>rgInventory := its @ z\<lparr>wItem := ob, nAmount := word_of_int (if n > 99 then 99 else n)\<rparr> # rest\<rparr>))"
    using assms(3,5) s assms(1)
    by (cases rest) (simp_all add: PAL_AddItemToInventory_def add_item_def assms(1) Let_def)
  show "PAL_AddItemToInventory ob (- n) g = (False, g)"
    using assms(3,5) s by (simp add: PAL_AddItemToInventory_def add_item_def assms(1) Let_def)
qed

lemma unat_limit:
  fixes v :: u16
  assumes "v \<le> 99" and "0 < n" and "n \<le> 65436"
  shows "(if v + word_of_int n > 99 then 99 else v + word_of_int n) \<le> (99 :: u16)"
    "unat (if v + word_of_int n > 99 then 99 else v + word_of_int n :: u16) = min 99 (unat v + nat n)"
proof -
  have "unat v \<le> 99" using assms(1) by (simp add: word_le_nat_alt)
  moreover have n: "unat (word_of_int n :: u16) = nat n"
    using assms(2,3) by (simp add: unsigned_of_int take_bit_int_eq_self nat_eq_iff)
  ultimately have "unat (v + word_of_int n) = unat v + nat n"
    using assms(2,3) by (simp add: unat_word_ariths)
  then show "unat (if v + word_of_int n > 99 then 99 else v + word_of_int n :: u16) = min 99 (unat v + nat n)"
    by (auto simp: word_less_nat_alt)
qed (simp add: not_less)

lemma PAL_AddItemToInventory_adds:
  assumes ok: "inventory_ok g" and ob: "ob \<noteq> 0" and n: "0 < n" "n \<le> 65436"
  shows "PAL_AddItemToInventory ob n g = (room_for ob g, snd (PAL_AddItemToInventory ob n g)) \<and>
    inventory_ok (snd (PAL_AddItemToInventory ob n g)) \<and>
    stock (snd (PAL_AddItemToInventory ob n g)) =
      (if room_for ob g then (stock g)(ob := min 99 (stock g ob + nat n)) else stock g)"
  using ok ob
proof (cases rule: entry_cases)
  case (found a it b rest)
  note e = entry_stock [OF found(1,2) ob found(3)] and lim = unat_limit [OF entry_stock(2) [OF found(1,2) ob found(3)] n]
  let ?it = "it\<lparr>nAmount := if nAmount it + word_of_int n > 99 then 99 else nAmount it + word_of_int n\<rparr>"
  have "nAmount ?it \<le> 99" "wItem ?it = ob" using lim(1) found(2) by simp_all
  note w = with_entry [OF found(1,2) ob found(3,4) this]
  show ?thesis
    unfolding add_found(1) [OF found(1,2) ob found(3) n(1)] using w e lim(2) by simp
next
  case (missing its rest)
  note a = add_missing(1) [OF missing(1,2) ob missing(3) n(1)]
  have s0: "stock g ob = 0"
    using amount_missing [of its ob rest] missing by (auto simp: stock_def entries_ok_def)
  have r: "room_for ob g \<longleftrightarrow> rest \<noteq> []"
    using listed_append [OF missing(3)] missing by (cases rest) (auto simp: room_for_def)
  show ?thesis
  proof (cases rest)
    case Nil
    then show ?thesis using a r ok by simp
  next
    case (Cons z rest')
    let ?it = "z\<lparr>wItem := ob, nAmount := word_of_int (if n > 99 then 99 else n)\<rparr>"
    have m: "unat (word_of_int (if n > 99 then 99 else n) :: u16) = min 99 (nat n)"
      using n by (simp add: unsigned_of_int take_bit_int_eq_self nat_eq_iff)
    then have "(word_of_int (if n > 99 then 99 else n) :: u16) \<le> 99" by (simp add: word_le_nat_alt)
    then have e: "entries_ok (its @ [?it]) rest'"
      using missing(2,3) ob Cons by (auto simp: entries_ok_def)
    have "inventory_ok (g\<lparr>rgInventory := its @ ?it # rest'\<rparr>)"
      using inventory_ok_append [OF e, of "g\<lparr>rgInventory := its @ ?it # rest'\<rparr>"] missing(4) Cons by simp
    moreover have "stock (g\<lparr>rgInventory := its @ ?it # rest'\<rparr>) = (stock g)(ob := min 99 (stock g ob + nat n))"
    proof (rule ext)
      fix ob'
      show "stock (g\<lparr>rgInventory := its @ ?it # rest'\<rparr>) ob' = ((stock g)(ob := min 99 (stock g ob + nat n))) ob'"
      proof (cases "ob' = ob")
        case True
        then show ?thesis
          using amount_found [of ob its ?it rest'] ob missing(2,3) m s0 by (simp add: stock_def entries_ok_def image_iff)
      next
        case False
        then show ?thesis
          using amount_append_other [of its ?it ob' z rest'] missing(1,3) Cons by (simp add: stock_def entries_ok_def)
      qed
    qed
    ultimately show ?thesis using a r Cons by simp
  qed
qed

lemma unat_monus:
  fixes v :: u16
  assumes "0 < n"
  shows "unat (if uint v < n then 0 else v - word_of_int n) = unat v - nat n"
proof (cases "uint v < n")
  case True
  then have "nat (uint v) \<le> nat n" by (intro nat_mono) simp
  then show ?thesis using True by simp
next
  case False
  then have "n < 65536" using uint_lt2p [of v] by simp
  then have u: "uint (word_of_int n :: u16) = n" using assms by (simp add: uint_word_of_int)
  then have "word_of_int n \<le> v" using False by (simp add: word_le_def)
  then have "unat (v - word_of_int n) = unat v - unat (word_of_int n :: u16)" by (rule unat_sub)
  moreover have "unat (word_of_int n :: u16) = nat n" using u by (metis nat_uint_eq)
  ultimately show ?thesis using False by simp
qed

lemma PAL_AddItemToInventory_removes:
  assumes ok: "inventory_ok g" and ob: "ob \<noteq> 0" and n: "0 < n"
  shows "PAL_AddItemToInventory ob (- n) g = (n \<le> int (stock g ob), snd (PAL_AddItemToInventory ob (- n) g)) \<and>
    inventory_ok (snd (PAL_AddItemToInventory ob (- n) g)) \<and>
    stock (snd (PAL_AddItemToInventory ob (- n) g)) = (stock g)(ob := stock g ob - nat n)"
  using ok ob
proof (cases rule: entry_cases)
  case (found a it b rest)
  note e = entry_stock [OF found(1,2) ob found(3)]
  let ?v = "if uint (nAmount it) < n then 0 else nAmount it - word_of_int n"
  have v: "unat ?v = unat (nAmount it) - nat n" by (rule unat_monus [OF n])
  then have "?v \<le> 99" using e(2) unfolding word_le_nat_alt by simp
  then have "nAmount (it\<lparr>nAmount := ?v\<rparr>) \<le> 99" "wItem (it\<lparr>nAmount := ?v\<rparr>) = ob" using found(2) by simp_all
  note w = with_entry [OF found(1,2) ob found(3,4) this]
  show ?thesis
    unfolding add_found(2) [OF found(1,2) ob found(3) n] using w e(1) v by simp
next
  case (missing its rest)
  have "stock g ob = 0"
    using amount_missing [of its ob rest] missing by (auto simp: stock_def entries_ok_def)
  then show ?thesis unfolding add_missing(2) [OF missing(1,2) ob missing(3) n] using ok n by (auto simp: fun_eq_iff)
qed

lemma stock_le: "inventory_ok g \<Longrightarrow> stock g ob \<le> 99"
proof (cases "ob = 0")
  case True
  have "item_amount 0 inven = 0" for inven by (induction inven) auto
  then show ?thesis by (simp add: stock_def True)
next
  case False
  assume "inventory_ok g"
  then show ?thesis using False
  proof (cases rule: entry_cases)
    case (found a it b rest)
    then show ?thesis using entry_stock [OF found(1,2) False found(3)] by (simp add: word_le_nat_alt)
  next
    case (missing its rest)
    then show ?thesis using amount_missing [of its ob rest] by (simp add: stock_def entries_ok_def)
  qed
qed

section \<open>Compression\<close>

definition no_item :: INVENTORY where
  "no_item = \<lparr>wItem = 0, nAmount = 0, nAmountInUse = 0\<rparr>"

lemma clear_from_eq: "j \<le> length inven \<Longrightarrow> clear_from j inven = take j inven @ replicate (length inven - j) no_item"
proof (induction "length inven - j" arbitrary: j inven)
  case (Suc n)
  then have "clear_from j inven = clear_from (Suc j) (inven[j := no_item])"
    by (simp add: clear_from_def no_item_def upt_conv_Cons)
  also have "\<dots> = take (Suc j) (inven[j := no_item]) @ replicate n no_item" using Suc by simp
  also have "take (Suc j) (inven[j := no_item]) = take j inven @ [no_item]"
    using Suc by (simp add: take_Suc_conv_app_nth)
  finally show ?case using Suc(2) by (simp add: replicate_app_Cons_same flip: Suc(2))
qed (simp add: clear_from_def)

lemma compress_loop_moves:
  assumes "0 \<notin> wItem ` set its" and "wItem ` set rest \<subseteq> {0}"
  shows "\<exists>junk'. compress_loop (length kept + length junk) (length kept) (kept @ junk @ its @ rest) =
      (length kept + length (filter (\<lambda>it. nAmount it > 0) its), kept @ filter (\<lambda>it. nAmount it > 0) its @ junk') \<and>
    length (filter (\<lambda>it. nAmount it > 0) its) + length junk' = length junk + length its + length rest"
  using assms
proof (induction its arbitrary: kept junk)
  case Nil
  then have "length kept + length junk \<ge> length (kept @ junk @ rest) \<or> wItem ((kept @ junk @ rest) ! (length kept + length junk)) = 0"
    by (cases rest) (auto simp: nth_append)
  then show ?case by (intro exI [of _ "junk @ rest"]) (subst compress_loop.simps, simp)
next
  case (Cons it its)
  let ?l = "kept @ junk @ (it # its) @ rest" and ?i = "length kept + length junk"
  have at: "?l ! ?i = it" "?i < length ?l" "wItem it \<noteq> 0" using Cons.prems by (auto simp: nth_append)
  show ?case
  proof (cases "nAmount it > 0")
    case True
    have step: "compress_loop ?i (length kept) ?l = compress_loop (?i + 1) (length kept + 1) (?l[length kept := it])"
      using at True by (subst compress_loop.simps) simp
    obtain junk1 where j: "?l[length kept := it] = (kept @ [it]) @ junk1 @ its @ rest" "length junk1 = length junk"
    proof (cases junk)
      case Nil
      then show thesis using that [of "[]"] by simp
    next
      case (Cons x junk2)
      then show thesis using that [of "junk2 @ [it]"] by simp
    qed
    then show ?thesis
      unfolding step j(1) using Cons.IH [of "kept @ [it]" junk1] Cons.prems True by (simp add: j(2))
  next
    case False
    have step: "compress_loop ?i (length kept) ?l = compress_loop (?i + 1) (length kept) (kept @ (junk @ [it]) @ its @ rest)"
      using at False by (subst compress_loop.simps) simp
    show ?thesis unfolding step using Cons.IH [of kept "junk @ [it]"] Cons.prems False by simp
  qed
qed

lemma compress_eq:
  assumes "entries_ok its rest"
  shows "compress (its @ rest) = filter (\<lambda>it. nAmount it > 0) its @
    replicate (length its + length rest - length (filter (\<lambda>it. nAmount it > 0) its)) no_item"
proof -
  have "0 \<notin> wItem ` set its" "wItem ` set rest \<subseteq> {0}" using assms by (simp_all add: entries_ok_def)
  from compress_loop_moves [OF this, of "[]" "[]"] obtain junk' where
    "compress_loop 0 0 (its @ rest) = (length (filter (\<lambda>it. nAmount it > 0) its), filter (\<lambda>it. nAmount it > 0) its @ junk')"
    "length (filter (\<lambda>it. nAmount it > 0) its) + length junk' = length its + length rest" by auto
  then show ?thesis by (simp add: compress_def clear_from_eq)
qed

lemma amount_filter:
  "0 \<notin> wItem ` set its \<Longrightarrow> wItem ` set rest \<subseteq> {0} \<Longrightarrow> wItem ` set rest' \<subseteq> {0} \<Longrightarrow> distinct (map wItem its) \<Longrightarrow>
   item_amount ob (filter (\<lambda>it. nAmount it > 0) its @ rest') = item_amount ob (its @ rest)"
proof (induction its)
  case Nil
  then show ?case by (cases rest; cases rest') auto
next
  case (Cons it its)
  show ?case
  proof (cases "wItem it = ob \<and> \<not> nAmount it > 0")
    case True
    then have "item_amount ob (filter (\<lambda>it. nAmount it > 0) its @ rest') = 0"
      using Cons.prems by (intro amount_missing) auto
    with True Cons.prems show ?thesis by (auto simp: word_gt_0)
  next
    case False
    with Cons show ?thesis by auto
  qed
qed

lemma PAL_CompressInventory_keeps:
  assumes "inventory_ok g"
  shows "inventory_ok (PAL_CompressInventory g) \<and> stock (PAL_CompressInventory g) = stock g \<and>
    (\<forall>it \<in> set (listed (rgInventory (PAL_CompressInventory g))). 0 < nAmount it)"
proof -
  from assms obtain its rest where r: "rgInventory g = its @ rest" "entries_ok its rest" "length its + length rest = MAX_INVENTORY"
    by (rule inventory_ok_split)
  let ?its = "filter (\<lambda>it. nAmount it > 0) its" and ?rest = "replicate (length its + length rest - length (filter (\<lambda>it. nAmount it > 0) its)) no_item"
  have inven: "rgInventory (PAL_CompressInventory g) = ?its @ ?rest"
    by (simp add: PAL_CompressInventory_def r(1) compress_eq [OF r(2)])
  have e: "entries_ok ?its ?rest"
    using r(2) by (auto simp: entries_ok_def no_item_def distinct_map_filter)
  have "length ?its + (length its + length rest - length ?its) = length its + length rest"
    by (rule le_add_diff_inverse) (simp add: trans_le_add1)
  then have "inventory_ok (PAL_CompressInventory g)" using inventory_ok_append [OF e inven] r(3) by simp
  moreover have "stock (PAL_CompressInventory g) = stock g"
  proof (rule ext)
    fix ob
    show "stock (PAL_CompressInventory g) ob = stock g ob"
      unfolding stock_def inven r(1) using r(2) e by (subst amount_filter [of its rest]) (auto simp: entries_ok_def)
  qed
  ultimately show ?thesis using listed_append [OF e] inven by simp
qed

end
