(* ===== verification/PalShop.thy ===== *)
theory PalShop
  imports PalPlayerCorrect
begin

text \<open>
  The shops of \<open>ui/uigame.c\<close>. What the player chooses and whether the choice is confirmed are
  arguments; drawing is left out. The inventory is used through the interface \<open>item_store\<close>.
\<close>

section \<open>The menus\<close>

definition item_wPrice :: "OBJECT \<Rightarrow> u16" where "item_wPrice ob = ob ! 1"

definition the_price :: "u16 \<Rightarrow> GLOBALVARS \<Rightarrow> u16 res" where
  "the_price w g = definedE ''rgObject'' (unat w < length (rgObject g)) (Inr (item_wPrice (rgObject g ! unat w)))"

definition buy_one :: "u16 \<Rightarrow> bool \<Rightarrow> GLOBALVARS \<Rightarrow> GLOBALVARS res" where
  "buy_one w confirmed g =
     bindE (the_price w g) (\<lambda>price.
       Inr (if ucast price \<le> dwCash g \<and> confirmed
            then snd (PAL_AddItemToInventory w 1 (g\<lparr>dwCash := dwCash g - ucast price\<rparr>)) else g))"

fun PAL_BuyMenu :: "(u16 \<times> bool) list \<Rightarrow> GLOBALVARS \<Rightarrow> GLOBALVARS res" where
  "PAL_BuyMenu [] g = Inr g"
| "PAL_BuyMenu ((w, confirmed) # cs) g = bindE (buy_one w confirmed g) (PAL_BuyMenu cs)"

definition sell_one :: "u16 \<Rightarrow> bool \<Rightarrow> GLOBALVARS \<Rightarrow> GLOBALVARS res" where
  "sell_one w confirmed g =
     (if \<not> confirmed then Inr g
      else let (ok, g) = PAL_AddItemToInventory w (- 1) g in
        if ok then bindE (the_price w g) (\<lambda>price. Inr (g\<lparr>dwCash := dwCash g + ucast (price div 2)\<rparr>))
        else Inr g)"

fun PAL_SellMenu :: "(u16 \<times> bool) list \<Rightarrow> GLOBALVARS \<Rightarrow> GLOBALVARS res" where
  "PAL_SellMenu [] g = Inr g"
| "PAL_SellMenu ((w, confirmed) # cs) g =
     (if w = 0 then Inr g else bindE (sell_one w confirmed g) (PAL_SellMenu cs))"

section \<open>The interface of the inventory\<close>

locale item_store =
  fixes ok :: "'s \<Rightarrow> bool" and amount :: "'s \<Rightarrow> u16 \<Rightarrow> nat" and room :: "u16 \<Rightarrow> 's \<Rightarrow> bool"
    and add :: "u16 \<Rightarrow> int \<Rightarrow> 's \<Rightarrow> bool \<times> 's"
  assumes adds: "ok s \<Longrightarrow> ob \<noteq> 0 \<Longrightarrow> 0 < n \<Longrightarrow> n \<le> 65436 \<Longrightarrow>
      add ob n s = (room ob s, snd (add ob n s)) \<and> ok (snd (add ob n s)) \<and>
      amount (snd (add ob n s)) = (if room ob s then (amount s)(ob := min 99 (amount s ob + nat n)) else amount s)"
    and removes: "ok s \<Longrightarrow> ob \<noteq> 0 \<Longrightarrow> 0 < n \<Longrightarrow>
      add ob (- n) s = (n \<le> int (amount s ob), snd (add ob (- n) s)) \<and> ok (snd (add ob (- n) s)) \<and>
      amount (snd (add ob (- n) s)) = (amount s)(ob := amount s ob - nat n)"
begin

lemma add_then_remove:
  assumes "ok s" and "ob \<noteq> 0" and "0 < n" and "room ob s" and "amount s ob + nat n \<le> 99"
  shows "fst (add ob n s) \<and> fst (add ob (- n) (snd (add ob n s))) \<and> ok (snd (add ob (- n) (snd (add ob n s)))) \<and>
    amount (snd (add ob (- n) (snd (add ob n s)))) = amount s"
proof -
  have n: "n \<le> 65436" using assms(3,5) by linarith
  note a = adds [OF assms(1-3) n]
  have m: "amount (snd (add ob n s)) = (amount s)(ob := amount s ob + nat n)"
    using a assms(4,5) by simp
  note r = removes [OF conjunct1 [OF conjunct2 [OF a]] assms(2,3)]
  have "n \<le> int (amount (snd (add ob n s)) ob)" using m assms(3) by simp
  then have "fst (add ob (- n) (snd (add ob n s)))" using r by (metis fst_conv)
  moreover have "fst (add ob n s)" using a assms(4) by (metis fst_conv)
  moreover have "amount (snd (add ob (- n) (snd (add ob n s)))) = amount s" using r m by (simp add: fun_eq_iff)
  ultimately show ?thesis using r by blast
qed

lemma add_keeps:
  assumes "ok s" and "n \<noteq> 0" and "n \<le> 65436" and "ob \<noteq> 0"
  shows "ok (snd (add ob n s))"
proof (cases "0 < n")
  case True
  then show ?thesis using adds [OF assms(1,4) _ assms(3)] by blast
next
  case False
  then show ?thesis using removes [OF assms(1,4), of "- n"] assms(2) by simp
qed

lemma add_useless:
  assumes "ok s" and "ob \<noteq> 0" and "amount s ob = 99 \<or> \<not> room ob s"
  shows "amount (snd (add ob 1 s)) = amount s"
  using adds [OF assms(1,2), of 1] assms(3) by (auto simp: fun_eq_iff)

lemma move_one:
  assumes "ok s" and "a \<noteq> 0" and "b \<noteq> 0" and "a \<noteq> b" and "0 < amount s a"
    and "room b (snd (add a (- 1) s))"
  shows "ok (snd (add b 1 (snd (add a (- 1) s)))) \<and>
    amount (snd (add b 1 (snd (add a (- 1) s)))) = (amount s)(a := amount s a - 1, b := min 99 (amount s b + 1))"
proof -
  note r = removes [OF assms(1,2), of 1]
  then have "ok (snd (add a (- 1) s))" by simp
  note p = adds [OF this assms(3), of 1]
  show ?thesis using r p assms(4,6) by (auto simp: fun_eq_iff)
qed

end

interpretation inventory: item_store inventory_ok stock room_for PAL_AddItemToInventory
  by unfold_locales (fact PAL_AddItemToInventory_adds PAL_AddItemToInventory_removes)+

lemma with_cash [simp]:
  "inventory_ok (g\<lparr>dwCash := c\<rparr>) = inventory_ok g" "stock (g\<lparr>dwCash := c\<rparr>) = stock g" "room_for ob (g\<lparr>dwCash := c\<rparr>) = room_for ob g"
  by (simp_all add: inventory_ok_def stock_def room_for_def fun_eq_iff)

lemma add_item_frame [simp]:
  "dwCash (snd (PAL_AddItemToInventory ob n g)) = dwCash g" "rgObject (snd (PAL_AddItemToInventory ob n g)) = rgObject g"
  by (simp_all add: PAL_AddItemToInventory_def split: prod.split)

lemma add_with_cash:
  "PAL_AddItemToInventory ob n (g\<lparr>dwCash := c\<rparr>) =
    (fst (PAL_AddItemToInventory ob n g), (snd (PAL_AddItemToInventory ob n g))\<lparr>dwCash := c\<rparr>)"
  by (simp add: PAL_AddItemToInventory_def split: prod.split)

lemma ucast_less: "ucast (p :: u16) \<le> (c :: u32) \<Longrightarrow> unat (c - ucast p) = unat c - unat p"
proof -
  assume "ucast p \<le> c"
  moreover have "unat (ucast p :: u32) = unat p"
    using unsigned_less [of p, where 'a = nat] by (simp add: unsigned_ucast_eq take_bit_nat_eq_self)
  ultimately show ?thesis by (simp add: unat_sub)
qed

lemma PAL_GetItemAmount_stock: "PAL_GetItemAmount ob g = int (stock g ob)"
  by (simp add: PAL_GetItemAmount_def stock_def)

lemma buy_one_affordable:
  assumes "unat w < length (rgObject g)" and "ucast (item_wPrice (rgObject g ! unat w)) \<le> dwCash g"
  shows "PAL_BuyMenu [(w, True)] g = Inr ((snd (PAL_AddItemToInventory w 1 g))
    \<lparr>dwCash := dwCash g - ucast (item_wPrice (rgObject g ! unat w))\<rparr>)"
  using assms by (simp add: buy_one_def the_price_def add_with_cash)

section \<open>The properties\<close>

text \<open>
  \<^bold>\<open>C36\<close> The inventory of 256 entries refines a map from items to amounts: adding \<open>n\<close> of an item for which
  there is room raises its amount, up to 99, and touches no other item; without room nothing changes and the
  result is false. Removing \<open>n\<close> lowers the amount by \<open>n\<close>, but not below 0, and succeeds exactly when there
  were \<open>n\<close>. Compression changes no amount and leaves no entry of amount 0. All of them keep the entries
  different, together and at most 99.
\<close>
theorem inventory_refines:
  assumes "inventory_ok g" and "ob \<noteq> 0" and "0 < n" and "n \<le> 65436"
  shows "fst (PAL_AddItemToInventory ob n g) = room_for ob g \<and>
    stock (snd (PAL_AddItemToInventory ob n g)) =
      (if room_for ob g then (stock g)(ob := min 99 (stock g ob + nat n)) else stock g) \<and>
    fst (PAL_AddItemToInventory ob (- n) g) = (n \<le> PAL_GetItemAmount ob g) \<and>
    stock (snd (PAL_AddItemToInventory ob (- n) g)) = (stock g)(ob := stock g ob - nat n) \<and>
    stock (PAL_CompressInventory g) = stock g \<and>
    (\<forall>it \<in> set (listed (rgInventory (PAL_CompressInventory g))). 0 < nAmount it) \<and>
    inventory_ok (snd (PAL_AddItemToInventory ob n g)) \<and> inventory_ok (snd (PAL_AddItemToInventory ob (- n) g)) \<and>
    inventory_ok (PAL_CompressInventory g)"
  unfolding PAL_GetItemAmount_stock
  using inventory.adds [OF assms] inventory.removes [OF assms(1-3)] PAL_CompressInventory_keeps [OF assms(1)]
  by (metis fst_conv)

definition two_items :: "GLOBALVARS \<Rightarrow> GLOBALVARS" where
  "two_items g = g\<lparr>rgInventory := [\<lparr>wItem = 5, nAmount = 98, nAmountInUse = 0\<rparr>, \<lparr>wItem = 7, nAmount = 99, nAmountInUse = 0\<rparr>] @
     replicate 254 no_item, rgObject := replicate 600 [0, 300, 0, 0, 0, 0], dwCash := 1000\<rparr>"

lemma two_items_inven: "entries_ok [\<lparr>wItem = 5, nAmount = 98, nAmountInUse = 0\<rparr>, \<lparr>wItem = 7, nAmount = 99, nAmountInUse = 0\<rparr>]
    (replicate 254 no_item)"
  by (simp add: entries_ok_def no_item_def)

lemma two_items_facts:
  "inventory_ok (two_items g)" "stock (two_items g) 5 = 98" "stock (two_items g) 7 = 99" "room_for ob (two_items g)"
proof -
  have i: "rgInventory (two_items g) = [\<lparr>wItem = 5, nAmount = 98, nAmountInUse = 0\<rparr>, \<lparr>wItem = 7, nAmount = 99, nAmountInUse = 0\<rparr>] @
     replicate 254 no_item" by (simp add: two_items_def)
  show "inventory_ok (two_items g)" using inventory_ok_append [OF two_items_inven i] by simp
  show "stock (two_items g) 5 = 98" "stock (two_items g) 7 = 99" by (simp_all add: stock_def i)
  show "room_for ob (two_items g)" using listed_append [OF two_items_inven] by (simp add: room_for_def i)
qed

theorem inventory_refines_witness:
  "\<exists>g. stock (snd (PAL_AddItemToInventory 5 3 g)) 5 = 99 \<and> \<not> fst (PAL_AddItemToInventory 5 (- 99) g) \<and>
    stock (snd (PAL_AddItemToInventory 5 (- 99) g)) 5 = 0"
proof -
  fix g
  show ?thesis
    using inventory_refines [of "two_items g" 5 3] inventory_refines [of "two_items g" 5 99] two_items_facts(1-3) [of g] two_items_facts(4) [of 5 g]
      PAL_GetItemAmount_stock [of 5 "two_items g"]
    by (intro exI [of _ "two_items g"]) simp
qed

text \<open>
  Buying an item and selling it again: the purchase puts one more of it into the inventory and takes
  its price, the sale takes it out and pays half the price rounded down; afterwards the inventory holds the
  same amounts as before.
\<close>
lemma buy_then_sell:
  assumes "inventory_ok g" and "w \<noteq> 0" and "unat w < length (rgObject g)" and "room_for w g" and "stock g w < 99"
    and "ucast (item_wPrice (rgObject g ! unat w)) \<le> dwCash g"
  shows "\<exists>g1 g2. PAL_BuyMenu [(w, True)] g = Inr g1 \<and> stock g1 = (stock g)(w := stock g w + 1) \<and>
    unat (dwCash g1) = unat (dwCash g) - unat (item_wPrice (rgObject g ! unat w)) \<and>
    PAL_SellMenu [(w, True)] g1 = Inr g2 \<and> stock g2 = stock g \<and> inventory_ok g2 \<and>
    dwCash g2 = dwCash g1 + ucast (item_wPrice (rgObject g ! unat w) div 2)"
proof -
  let ?a = "snd (PAL_AddItemToInventory w 1 g)" and ?p = "item_wPrice (rgObject g ! unat w)"
  let ?g1 = "?a\<lparr>dwCash := dwCash g - ucast ?p\<rparr>"
  have buy: "PAL_BuyMenu [(w, True)] g = Inr ?g1" using buy_one_affordable assms(3,6) by simp
  note t = inventory.add_then_remove [OF assms(1,2) zero_less_one assms(4)]
  have s: "stock ?a = (stock g)(w := stock g w + 1)"
    using inventory.adds [OF assms(1,2), of 1] assms(4,5) by simp
  have sell: "PAL_SellMenu [(w, True)] ?g1 = Inr ((snd (PAL_AddItemToInventory w (- 1) ?a))
      \<lparr>dwCash := dwCash ?g1 + ucast (?p div 2)\<rparr>)"
    using t assms(2,3,5) by (simp add: sell_one_def the_price_def add_with_cash case_prod_beta)
  show ?thesis
    using s t assms(5,6)
    by (intro exI [of _ ?g1] exI [of _ "(snd (PAL_AddItemToInventory w (- 1) ?a))\<lparr>dwCash := dwCash ?g1 + ucast (?p div 2)\<rparr>"])
      (simp add: ucast_less buy sell del: PAL_BuyMenu.simps PAL_SellMenu.simps)
qed

theorem buy_then_sell_witness:
  "\<exists>g g1 g2. PAL_BuyMenu [(5, True)] g = Inr g1 \<and> unat (dwCash g1) = 700 \<and> PAL_SellMenu [(5, True)] g1 = Inr g2 \<and>
    stock g2 = stock g \<and> dwCash g2 = dwCash g1 + 150"
proof -
  fix g :: GLOBALVARS
  let ?g = "two_items g"
  have p: "item_wPrice (rgObject ?g ! unat (5 :: u16)) = 300" "dwCash ?g = 1000" "length (rgObject ?g) = 600"
    by (simp_all add: two_items_def item_wPrice_def)
  then show ?thesis
    using buy_then_sell [of ?g 5] two_items_facts(1-3) [of g] two_items_facts(4) [of 5 g] by - (rule exI [of _ ?g], auto simp del: PAL_BuyMenu.simps PAL_SellMenu.simps)
qed

text \<open>
  \<^bold>\<open>C40\<close> The shop takes the money before it looks at the inventory and ignores the answer: whoever buys an
  item of which there are 99 already, or for which there is no room, pays the price and gets nothing.
\<close>
theorem buy_wastes_money:
  assumes "inventory_ok g" and "w \<noteq> 0" and "unat w < length (rgObject g)" and "stock g w = 99 \<or> \<not> room_for w g"
    and "ucast (item_wPrice (rgObject g ! unat w)) \<le> dwCash g"
  shows "\<exists>g1. PAL_BuyMenu [(w, True)] g = Inr g1 \<and> stock g1 = stock g \<and>
    unat (dwCash g1) = unat (dwCash g) - unat (item_wPrice (rgObject g ! unat w))"
  using buy_one_affordable [OF assms(3,5)] inventory.add_useless [OF assms(1,2,4)] assms(5) by (simp add: ucast_less)

theorem buy_wastes_money_witness:
  "\<exists>g g1. PAL_BuyMenu [(7, True)] g = Inr g1 \<and> stock g1 = stock g \<and> unat (dwCash g) = 1000 \<and> unat (dwCash g1) = 700"
proof -
  fix g :: GLOBALVARS
  let ?g = "two_items g"
  have p: "item_wPrice (rgObject ?g ! unat (7 :: u16)) = 300" "dwCash ?g = 1000" "length (rgObject ?g) = 600"
    by (simp_all add: two_items_def item_wPrice_def)
  then show ?thesis
    using buy_wastes_money [of ?g 7] two_items_facts(1-3) [of g] by - (rule exI [of _ ?g], auto simp del: PAL_BuyMenu.simps PAL_SellMenu.simps)
qed

end
