(* ===== verification/PalSave.thy ===== *)
theory PalSave
  imports PalPlayer
begin

text \<open>
  Loading the game data, saving and loading games: the first part of \<open>global.c\<close>. A struct in a file is its
  16-bit words, low byte first; \<open>DO_BYTESWAP\<close> does nothing on this machine. \<open>NULL\<close> is the empty list.
\<close>

section \<open>Words in files\<close>

fun words_of :: "u8 list \<Rightarrow> u16 list" where
  "words_of (a # b # bs) = (ucast a OR push_bit 8 (ucast b)) # words_of bs"
| "words_of bs = []"

definition bytes_of :: "u16 list \<Rightarrow> u8 list" where
  "bytes_of ws = concat (map (\<lambda>w. [ucast w, ucast (drop_bit 8 w)]) ws)"

text \<open>\<open>LOAD_DATA\<close>: what the chunk does not fill keeps its contents.\<close>

definition load_words :: "u16 list \<Rightarrow> u32 \<Rightarrow> u8 list \<Rightarrow> u16 list res" where
  "load_words buf num fp =
     bindE (PAL_MKFReadChunk (of_nat (2 * length buf)) num fp) (\<lambda>(_, bs).
       Inr (words_of (bs @ drop (length bs) (bytes_of buf))))"

fun rows :: "nat \<Rightarrow> nat \<Rightarrow> u16 list \<Rightarrow> u16 list list" where
  "rows n 0 ws = []"
| "rows n (Suc k) ws = take n ws # rows n k (drop n ws)"

definition load_rows :: "nat \<Rightarrow> u16 list list \<Rightarrow> u32 \<Rightarrow> u8 list \<Rightarrow> u16 list list res" where
  "load_rows n buf num fp = bindE (load_words (concat buf) num fp) (\<lambda>ws. Inr (rows n (length buf) ws))"

section \<open>The structs as words\<close>

definition event_words :: "EVENTOBJECT \<Rightarrow> u16 list" where
  "event_words e = [sVanishTime e, ox e, oy e, sLayer e, wTriggerScript e, wAutoScript e, sState e, wTriggerMode e,
     wSpriteNum e, nSpriteFrames e, wDirection e, wCurrentFrameNum e, nScriptIdleFrame e, wSpritePtrOffset e,
     nSpriteFramesAuto e, wScriptIdleFrameCountAuto e]"

definition event_object :: "u16 list \<Rightarrow> EVENTOBJECT" where
  "event_object ws = \<lparr>sVanishTime = ws ! 0, ox = ws ! 1, oy = ws ! 2, sLayer = ws ! 3, wTriggerScript = ws ! 4,
     wAutoScript = ws ! 5, sState = ws ! 6, wTriggerMode = ws ! 7, wSpriteNum = ws ! 8, nSpriteFrames = ws ! 9,
     wDirection = ws ! 10, wCurrentFrameNum = ws ! 11, nScriptIdleFrame = ws ! 12, wSpritePtrOffset = ws ! 13,
     nSpriteFramesAuto = ws ! 14, wScriptIdleFrameCountAuto = ws ! 15\<rparr>"

definition scene_words :: "SCENE \<Rightarrow> u16 list" where
  "scene_words s = [wMapNum s, wScriptOnEnter s, wScriptOnTeleport s, wEventObjectIndex s]"

definition scene :: "u16 list \<Rightarrow> SCENE" where
  "scene ws = \<lparr>wMapNum = ws ! 0, wScriptOnEnter = ws ! 1, wScriptOnTeleport = ws ! 2, wEventObjectIndex = ws ! 3\<rparr>"

definition script_words :: "SCRIPTENTRY \<Rightarrow> u16 list" where
  "script_words e = wOperation e # rgwOperand e"

definition script_entry :: "u16 list \<Rightarrow> SCRIPTENTRY" where
  "script_entry ws = \<lparr>wOperation = ws ! 0, rgwOperand = [ws ! 1, ws ! 2, ws ! 3]\<rparr>"

definition party_words :: "PARTY \<Rightarrow> u16 list" where
  "party_words m = [wPlayerRole m, party_x m, party_y m, wFrame m, wImageOffset m]"

definition party :: "u16 list \<Rightarrow> PARTY" where
  "party ws = \<lparr>wPlayerRole = ws ! 0, party_x = ws ! 1, party_y = ws ! 2, wFrame = ws ! 3, wImageOffset = ws ! 4\<rparr>"

definition trail_words :: "TRAIL \<Rightarrow> u16 list" where
  "trail_words t = [trail_x t, trail_y t, trail_dir t]"

definition trail :: "u16 list \<Rightarrow> TRAIL" where
  "trail ws = \<lparr>trail_x = ws ! 0, trail_y = ws ! 1, trail_dir = ws ! 2\<rparr>"

definition exp_words :: "EXPERIENCE \<Rightarrow> u16 list" where
  "exp_words e = [wExp e, wReserved e, wLevel e, wCount e]"

definition experience :: "u16 list \<Rightarrow> EXPERIENCE" where
  "experience ws = \<lparr>wExp = ws ! 0, wReserved = ws ! 1, wLevel = ws ! 2, wCount = ws ! 3\<rparr>"

definition poison_words :: "POISONSTATUS \<Rightarrow> u16 list" where
  "poison_words p = [wPoisonID p, wPoisonScript p]"

definition item_words :: "INVENTORY \<Rightarrow> u16 list" where
  "item_words it = [wItem it, nAmount it, nAmountInUse it]"

definition inventory_item :: "u16 list \<Rightarrow> INVENTORY" where
  "inventory_item ws = \<lparr>wItem = ws ! 0, nAmount = ws ! 1, nAmountInUse = ws ! 2\<rparr>"

section \<open>Game data\<close>

definition PAL_ReadGlobalGameData :: "GLOBALVARS \<Rightarrow> GLOBALVARS res" where
  "PAL_ReadGlobalGameData g =
     bindE (load_rows 4 (map script_words (lprgScriptEntry g)) 4 (fpSSS g)) (\<lambda>r. let g = g\<lparr>lprgScriptEntry := map script_entry r\<rparr> in
     bindE (load_rows 9 (lprgStore g) 0 (fpDATA g)) (\<lambda>r. let g = g\<lparr>lprgStore := r\<rparr> in
     bindE (load_rows 35 (lprgEnemy g) 1 (fpDATA g)) (\<lambda>r. let g = g\<lparr>lprgEnemy := r\<rparr> in
     bindE (load_rows 5 (lprgEnemyTeam g) 2 (fpDATA g)) (\<lambda>r. let g = g\<lparr>lprgEnemyTeam := r\<rparr> in
     bindE (load_rows 16 (lprgMagic g) 4 (fpDATA g)) (\<lambda>r. let g = g\<lparr>lprgMagic := r\<rparr> in
     bindE (load_rows 6 (lprgBattleField g) 5 (fpDATA g)) (\<lambda>r. let g = g\<lparr>lprgBattleField := r\<rparr> in
     bindE (load_rows 10 (lprgLevelUpMagic g) 6 (fpDATA g)) (\<lambda>r. let g = g\<lparr>lprgLevelUpMagic := r\<rparr> in
     bindE (load_words (rgwBattleEffectIndex g) 11 (fpDATA g)) (\<lambda>r. let g = g\<lparr>rgwBattleEffectIndex := r\<rparr> in
     bindE (load_words (EnemyPos g) 13 (fpDATA g)) (\<lambda>r. let g = g\<lparr>EnemyPos := r\<rparr> in
     bindE (load_words (rgLevelUpExp g) 14 (fpDATA g)) (\<lambda>r. Inr (g\<lparr>rgLevelUpExp := r\<rparr>)))))))))))"

text \<open>
  \<open>PAL_DOALLOCATE\<close> for rows of \<open>n\<close> words. A length that is not positive ends the program; when it is no
  multiple of the size the array is never filled and its contents are undefined.
\<close>

definition allocate :: "nat \<Rightarrow> u32 \<Rightarrow> u8 list \<Rightarrow> u16 list list res" where
  "allocate n num fp =
     bindE (PAL_MKFGetChunkSize num fp) (\<lambda>len.
       assertE ''TerminateOnError'' (0 < len)
        (definedE ''malloc'' (nat len mod (2 * n) = 0) (Inr (replicate (nat len div (2 * n)) (replicate n 0)))))"

definition PAL_InitGlobalGameData :: "GLOBALVARS \<Rightarrow> GLOBALVARS res" where
  "PAL_InitGlobalGameData g =
     (if lprgEventObject g \<noteq> [] then Inr g
      else
        bindE (allocate 16 0 (fpSSS g)) (\<lambda>r. let g = g\<lparr>lprgEventObject := map event_object r\<rparr> in
        bindE (allocate 4 4 (fpSSS g)) (\<lambda>r. let g = g\<lparr>lprgScriptEntry := map script_entry r\<rparr> in
        bindE (allocate 9 0 (fpDATA g)) (\<lambda>r. let g = g\<lparr>lprgStore := r\<rparr> in
        bindE (allocate 35 1 (fpDATA g)) (\<lambda>r. let g = g\<lparr>lprgEnemy := r\<rparr> in
        bindE (allocate 5 2 (fpDATA g)) (\<lambda>r. let g = g\<lparr>lprgEnemyTeam := r\<rparr> in
        bindE (allocate 16 4 (fpDATA g)) (\<lambda>r. let g = g\<lparr>lprgMagic := r\<rparr> in
        bindE (allocate 6 5 (fpDATA g)) (\<lambda>r. let g = g\<lparr>lprgBattleField := r\<rparr> in
        bindE (allocate 10 6 (fpDATA g)) (\<lambda>r. PAL_ReadGlobalGameData (g\<lparr>lprgLevelUpMagic := r\<rparr>))))))))))"

section \<open>The default game\<close>

definition default_exp :: "PLAYERROLES \<Rightarrow> ALLEXPERIENCE" where
  "default_exp p = concat (replicate 8 (map (\<lambda>r. \<lparr>wExp = 0, wReserved = 0, wLevel = role_get rgwLevel r p, wCount = 0\<rparr>) [0..<MAX_PLAYER_ROLES]))"

definition PAL_LoadDefaultGame :: "GLOBALVARS \<Rightarrow> GLOBALVARS res" where
  "PAL_LoadDefaultGame g =
     bindE (load_rows 16 (map event_words (lprgEventObject g)) 0 (fpSSS g)) (\<lambda>r. let g = g\<lparr>lprgEventObject := map event_object r\<rparr> in
     bindE (load_rows 4 (map scene_words (rgScene g)) 1 (fpSSS g)) (\<lambda>r. let g = g\<lparr>rgScene := map scene r\<rparr> in
     bindE (load_rows 6 (rgObject g) 2 (fpSSS g)) (\<lambda>r. let g = g\<lparr>rgObject := r\<rparr> in
     bindE (load_words (PlayerRoles g) 3 (fpDATA g)) (\<lambda>r. let g = g\<lparr>PlayerRoles := r\<rparr> in
       Inr (g\<lparr>dwCash := 0, wNumMusic := 0, wNumPalette := 0, wNumScene := 1, wCollectValue := 0, fNightPalette := False,
         wMaxPartyMemberIndex := 0, viewport := PAL_XY 0 0, wLayer := 0, wChaseRange := 1, bBattleSpeed := 2,
         rgInventory := replicate MAX_INVENTORY (inventory_item [0, 0, 0]),
         rgPoisonStatus := replicate (MAX_POISONS * MAX_PLAYABLE_PLAYER_ROLES) no_poison,
         rgParty := replicate MAX_PLAYABLE_PLAYER_ROLES (party [0, 0, 0, 0, 0]),
         rgTrail := replicate MAX_PLAYABLE_PLAYER_ROLES (trail [0, 0, 0]),
         Exp := default_exp (PlayerRoles g), fEnteringScene := True\<rparr>)))))"

section \<open>Saved games\<close>

text \<open>The words of \<open>SAVEDGAME\<close>; the three unused ones, which the source leaves as they are, are 0 here.\<close>

definition saved_head :: "u16 \<Rightarrow> GLOBALVARS \<Rightarrow> u16 list" where
  "saved_head wSavedTimes g =
     [wSavedTimes, word_of_int (PAL_X (viewport g)), word_of_int (PAL_Y (viewport g)), wMaxPartyMemberIndex g, wNumScene g,
      if fNightPalette g then 0x180 else 0, wPartyDirection g, wNumMusic g, wNumBattleMusic g, wNumBattleField g,
      wScreenWave g, ucast (bBattleSpeed g), wCollectValue g, wLayer g, wChaseRange g, wChasespeedChangeCycles g,
      nFollower g, 0, 0, 0, ucast (dwCash g), ucast (drop_bit 16 (dwCash g))]"

definition saved_words :: "u16 \<Rightarrow> GLOBALVARS \<Rightarrow> u16 list" where
  "saved_words wSavedTimes g =
     saved_head wSavedTimes g @ concat (map party_words (rgParty g)) @ concat (map trail_words (rgTrail g)) @
     concat (map exp_words (Exp g)) @ PlayerRoles g @ concat (map poison_words (rgPoisonStatus g)) @
     concat (map item_words (rgInventory g)) @ concat (map scene_words (rgScene g)) @ concat (rgObject g) @
     concat (map event_words (lprgEventObject g))"

text \<open>Words before the event objects.\<close>

definition saved_fixed :: nat where [simp]: "saved_fixed = 6432"

text \<open>\<open>opened\<close> says whether the file could be opened for writing.\<close>

definition PAL_SaveGame :: "bool \<Rightarrow> string \<Rightarrow> u16 \<Rightarrow> GLOBALVARS \<Rightarrow> (string \<Rightarrow> u8 list option) \<Rightarrow> (string \<Rightarrow> u8 list option) res" where
  "PAL_SaveGame opened szFileName wSavedTimes g files =
     definedE ''SAVEDGAME'' (length (lprgEventObject g) \<le> MAX_EVENT_OBJECTS)
      (if \<not> opened then Inr files
       else bindE (PAL_MKFGetChunkSize 0 (fpSSS g)) (\<lambda>len.
         definedE ''SAVEDGAME'' (0 \<le> len \<and> len \<le> 32 * int (length (lprgEventObject g)))
          (Inr (files(szFileName \<mapsto> take (nat len + 2 * saved_fixed) (bytes_of (saved_words wSavedTimes g)))))))"

definition saved_at :: "nat \<Rightarrow> nat \<Rightarrow> u16 list \<Rightarrow> u16 list" where
  "saved_at i n ws = take n (drop i ws)"

definition speed_or_2 :: "u8 \<Rightarrow> u8" where
  "speed_or_2 s = (if s > 5 \<or> s = 0 then 2 else s)"

definition PAL_LoadGame :: "string \<Rightarrow> (string \<Rightarrow> u8 list option) \<Rightarrow> GLOBALVARS \<Rightarrow> (int \<times> GLOBALVARS) res" where
  "PAL_LoadGame szFileName files g =
     (case files szFileName of
        None \<Rightarrow> Inr (- 1, g)
      | Some bs \<Rightarrow>
          let ws = words_of bs; n = length (lprgEventObject g) in
          definedE ''SAVEDGAME'' (saved_fixed + 16 * n \<le> length ws \<and> n \<le> MAX_EVENT_OBJECTS)
           (Inr (0, PAL_CompressInventory (g\<lparr>
              viewport := PAL_XY (ws ! 1) (ws ! 2), wMaxPartyMemberIndex := ws ! 3, wNumScene := ws ! 4,
              fNightPalette := (ws ! 5 \<noteq> 0), wPartyDirection := ws ! 6, wNumMusic := ws ! 7, wNumBattleMusic := ws ! 8,
              wNumBattleField := ws ! 9, wScreenWave := ws ! 10, sWaveProgression := 0, wCollectValue := ws ! 12,
              wLayer := ws ! 13, wChaseRange := ws ! 14, wChasespeedChangeCycles := ws ! 15, nFollower := ws ! 16,
              dwCash := ucast (ws ! 20) OR push_bit 16 (ucast (ws ! 21)), bBattleSpeed := speed_or_2 (ucast (ws ! 11)),
              rgParty := map party (rows 5 MAX_PLAYABLE_PLAYER_ROLES (saved_at 22 25 ws)),
              rgTrail := map trail (rows 3 MAX_PLAYABLE_PLAYER_ROLES (saved_at 47 15 ws)),
              Exp := map experience (rows 4 (8 * MAX_PLAYER_ROLES) (saved_at 62 192 ws)),
              PlayerRoles := saved_at 254 450 ws,
              rgPoisonStatus := replicate (MAX_POISONS * MAX_PLAYABLE_PLAYER_ROLES) no_poison,
              rgInventory := map inventory_item (rows 3 MAX_INVENTORY (saved_at 864 768 ws)),
              rgScene := map scene (rows 4 MAX_SCENES (saved_at 1632 1200 ws)),
              rgObject := rows 6 MAX_OBJECTS (saved_at 2832 3600 ws),
              lprgEventObject := map event_object (rows 16 n (saved_at saved_fixed (16 * n) ws)),
              fEnteringScene := False\<rparr>))))"

text \<open>
  \<open>PAL_InitGameData\<close> up to the call of \<open>PAL_UpdateEquipments\<close>, which runs scripts; \<open>slot\<close> is the file name that
  \<open>va\<close> makes for a slot.
\<close>

definition init_data :: "(int \<Rightarrow> string) \<Rightarrow> int \<Rightarrow> (string \<Rightarrow> u8 list option) \<Rightarrow> GLOBALVARS \<Rightarrow> GLOBALVARS res" where
  "init_data slot iSaveSlot files g =
     bindE (PAL_InitGlobalGameData g) (\<lambda>g.
       let g = g\<lparr>bCurrentSaveSlot := word_of_int iSaveSlot\<rparr> in
       bindE (if iSaveSlot = 0 then Inr (- 1, g) else PAL_LoadGame (slot iSaveSlot) files g) (\<lambda>(code, g).
       bindE (if code \<noteq> 0 then PAL_LoadDefaultGame g else Inr g) (\<lambda>g.
         Inr (g\<lparr>fGameStart := True, fNeedToFadeIn := False, iCurInvMenuItem := 0, fInBattle := False,
           rgPlayerStatus := replicate (MAX_PLAYER_ROLES * kStatusAll) 0\<rparr>))))"

end
