(* ===== verification/PalWalk.thy ===== *)
theory PalWalk
  imports PalDraw PalShop PalSave
begin

text \<open>
  The static functions of \<open>game/script.c\<close> that move event objects and the party, and what its instructions share:
  their operands and the event objects they refer to. The loops that wait for the next frame are the
  call \<open>Wait_frame\<close>; loops that may not end carry the fuel of the environment.
\<close>

section \<open>Instructions\<close>

record INSTR =
  entry :: u16
  op0 :: u16
  op1 :: u16
  op2 :: u16
  obj :: u16

type_synonym instr_handler = "ENV \<Rightarrow> INSTR \<Rightarrow> PAL \<Rightarrow> (u16 \<times> PAL) Prelude.res"

text \<open>
  The three ways an instruction ends, with the value of \<open>wScriptEntry\<close> before the final addition of 1:
  going on, \<open>wScriptEntry = w - 1\<close> and \<open>wScriptEntry--\<close>.
\<close>

definition go_on :: "INSTR \<Rightarrow> PAL Prelude.res \<Rightarrow> (u16 \<times> PAL) Prelude.res" where
  "go_on i m = bindE m (\<lambda>s. Inr (entry i, s))"

definition jump :: "u16 \<Rightarrow> PAL Prelude.res \<Rightarrow> (u16 \<times> PAL) Prelude.res" where
  "jump w m = bindE m (\<lambda>s. Inr (w - 1, s))"

definition repeat_it :: "INSTR \<Rightarrow> PAL Prelude.res \<Rightarrow> (u16 \<times> PAL) Prelude.res" where
  "repeat_it i m = bindE m (\<lambda>s. Inr (entry i - 1, s))"

definition failed :: "PAL \<Rightarrow> PAL" where "failed s = s\<lparr>g_fScriptSuccess := False\<rparr>"

text \<open>\<open>pEvtObj\<close> and \<open>pCurrent\<close>, as indices; a null pointer is \<open>None\<close>.\<close>

definition evt_index :: "INSTR \<Rightarrow> int option" where
  "evt_index i = (if obj i \<noteq> 0 then Some (uint (obj i) - 1) else None)"

definition cur_index :: "INSTR \<Rightarrow> int option" where
  "cur_index i =
     (if op0 i = 0 \<or> op0 i = 0xFFFF then evt_index i
      else let k = uint (op0 i) - 1 in Some (if k > 0x9000 then k - 0x9000 else k))"

definition wCurEventObjectID :: "INSTR \<Rightarrow> u16" where
  "wCurEventObjectID i = (if op0 i = 0 \<or> op0 i = 0xFFFF then obj i else op0 i)"

definition the_object :: "int option \<Rightarrow> GLOBALVARS \<Rightarrow> EVENTOBJECT Prelude.res" where
  "the_object p g = (case p of None \<Rightarrow> Inl (Undefined ''pEvtObj'') | Some k \<Rightarrow> definedE ''pEvtObj'' (0 \<le> k) (event_at (nat k) g))"

definition on_object :: "int option \<Rightarrow> (EVENTOBJECT \<Rightarrow> EVENTOBJECT) \<Rightarrow> PAL \<Rightarrow> PAL Prelude.res" where
  "on_object p f s = bindE (the_object p (gp s)) (\<lambda>ev. Inr (on_gp (set_event (nat (the p)) (f ev)) s))"

definition iPlayerRole :: "INSTR \<Rightarrow> GLOBALVARS \<Rightarrow> u16 Prelude.res" where
  "iPlayerRole i g = bindE (party_at (if unat (op0 i) < MAX_PLAYABLE_PLAYER_ROLES then unat (op0 i) else 0) g) (\<lambda>p. Inr (wPlayerRole p))"

section \<open>Equipment scripts\<close>

text \<open>
  \<open>PAL_UpdateEquipments\<close> of \<open>global.c\<close>, which runs a script for everything that is worn, and the functions that
  call it. In an assignment of what a script returns, the left side is evaluated after the call.
\<close>

definition equip_script :: "ENV \<Rightarrow> nat \<times> nat \<Rightarrow> PAL \<Rightarrow> PAL Prelude.res" where
  "equip_script e = (\<lambda>(i, j) s.
     let w = unat (the_role (rgwEquipment + j) i (gp s)) in
     if w \<noteq> 0 then
       definedE ''rgObject'' (w < length (rgObject (gp s)))
        (bindE (run e (item_wScriptOnEquip (rgObject (gp s) ! w)) (of_nat i) s) (\<lambda>(r, s).
          Inr (on_gp (\<lambda>g. g\<lparr>rgObject := (rgObject g)[w := (rgObject g ! w)[3 := r]]\<rparr>) s)))
     else Inr s)"

definition PAL_UpdateEquipments :: "ENV \<Rightarrow> PAL \<Rightarrow> PAL Prelude.res" where
  "PAL_UpdateEquipments e s =
     each (equip_script e) (concat (map (\<lambda>i. map (Pair i) [0..<MAX_PLAYER_EQUIPMENTS]) [0..<MAX_PLAYER_ROLES]))
       (on_gp (\<lambda>g. g\<lparr>rgEquipmentEffect :=
         replicate (MAX_PLAYER_EQUIPMENTS + 1) (replicate (PLAYERROLES_rows * MAX_PLAYER_ROLES) 0)\<rparr>) s)"

definition PAL_InitGameData :: "ENV \<Rightarrow> int \<Rightarrow> PAL \<Rightarrow> PAL Prelude.res" where
  "PAL_InitGameData e iSaveSlot s =
     bindE (on_gpE (init_data (slot e) iSaveSlot (files e)) s) (PAL_UpdateEquipments e)"

definition load_resources :: "ENV \<Rightarrow> PAL \<Rightarrow> PAL Prelude.res" where
  "load_resources e s =
     bindE (PAL_LoadResources (fresh e) (fpMAP e) (fpGOP e) (res s, gp s)) (\<lambda>(r, g). Inr (s\<lparr>res := r, gp := g\<rparr>))"

definition set_load_flags :: "u8 \<Rightarrow> PAL \<Rightarrow> PAL" where
  "set_load_flags f s = s\<lparr>res := PAL_SetLoadFlags f (res s)\<rparr>"

section \<open>Event objects that walk\<close>

definition walk_dir :: "int \<Rightarrow> int \<Rightarrow> u16" where
  "walk_dir xOffset yOffset =
     (if yOffset < 0 then if xOffset < 0 then kDirWest else kDirNorth
      else if xOffset < 0 then kDirSouth else kDirEast)"

definition PAL_NPCWalkTo :: "u16 \<Rightarrow> int \<Rightarrow> int \<Rightarrow> int \<Rightarrow> int \<Rightarrow> PAL \<Rightarrow> (bool \<times> PAL) Prelude.res" where
  "PAL_NPCWalkTo wEventObjectID x y h iSpeed s =
     (let p = Some (uint wEventObjectID - 1); tx = x * 32 + h * 16; ty = y * 16 + h * 8 in
      definedE ''lprgEventObject'' (wEventObjectID \<noteq> 0)
       (bindE (the_object p (gp s)) (\<lambda>ev.
        let xOffset = tx - uint (ox ev); yOffset = ty - uint (oy ev) in
        bindE (on_object p (\<lambda>ev. ev\<lparr>wDirection := walk_dir xOffset yOffset\<rparr>) s) (\<lambda>s.
        bindE (if \<bar>xOffset\<bar> < iSpeed * 2 \<or> \<bar>yOffset\<bar> < iSpeed * 2
               then on_object p (\<lambda>ev. ev\<lparr>ox := word_of_int tx, oy := word_of_int ty\<rparr>) s
               else Inr (on_gp (PAL_NPCWalkOneStep wEventObjectID iSpeed) s)) (\<lambda>s.
        bindE (the_object p (gp s)) (\<lambda>ev.
          if uint (ox ev) = tx \<and> uint (oy ev) = ty
          then bindE (on_object p (\<lambda>ev. ev\<lparr>wCurrentFrameNum := 0\<rparr>) s) (\<lambda>s. Inr (True, s))
          else Inr (False, s)))))))"

section \<open>The party\<close>

text \<open>Storing the trail at a position.\<close>

definition store_trail :: "int \<Rightarrow> int \<Rightarrow> GLOBALVARS \<Rightarrow> GLOBALVARS Prelude.res" where
  "store_trail x y g =
     definedE ''rgTrail'' (length (rgTrail g) = MAX_PLAYABLE_PLAYER_ROLES)
      (Inr (push_trail \<lparr>trail_x = word_of_int x, trail_y = word_of_int y, trail_dir = wPartyDirection g\<rparr> g))"

definition pos_of :: "int \<Rightarrow> int \<Rightarrow> u32" where
  "pos_of x y = PAL_XY (word_of_int x) (word_of_int y)"

definition limit_step :: "int \<Rightarrow> int \<Rightarrow> int" where
  "limit_step mx off = (if \<bar>off\<bar> \<le> mx then off else if off < 0 then - mx else mx)"

definition show_scene :: "ENV \<Rightarrow> PAL \<Rightarrow> PAL Prelude.res" where
  "show_scene e s = bindE (PAL_MakeScene e s) (call e VIDEO_UpdateScreen)"

text \<open>One step of the party towards the offset, without what is drawn.\<close>

definition party_step :: "int \<Rightarrow> int \<Rightarrow> int \<Rightarrow> GLOBALVARS \<Rightarrow> GLOBALVARS Prelude.res" where
  "party_step iSpeed xOffset yOffset g =
     bindE (store_trail (party_px g) (party_py g) g) (\<lambda>g.
       Inr (g\<lparr>wPartyDirection := walk_dir xOffset yOffset,
              viewport := pos_of (PAL_X (viewport g) + limit_step (iSpeed * 2) xOffset)
                                 (PAL_Y (viewport g) + limit_step iSpeed yOffset)\<rparr>))"

fun PAL_PartyWalkTo :: "nat \<Rightarrow> ENV \<Rightarrow> int \<Rightarrow> int \<Rightarrow> int \<Rightarrow> PAL \<Rightarrow> PAL Prelude.res" where
  "PAL_PartyWalkTo n e tx ty iSpeed s =
     (let xOffset = tx - party_px (gp s); yOffset = ty - party_py (gp s) in
      if xOffset \<noteq> 0 \<or> yOffset \<noteq> 0 then
        (case n of
           0 \<Rightarrow> Inl Out_of_fuel
         | Suc n \<Rightarrow>
             bindE (call e Wait_frame s) (\<lambda>s.
             bindE (on_gpE (party_step iSpeed xOffset yOffset) s) (\<lambda>s.
             bindE (PAL_UpdatePartyGestures True s) (\<lambda>s.
             bindE (update e False s) (\<lambda>s.
             bindE (show_scene e s) (PAL_PartyWalkTo n e tx ty iSpeed))))))
      else PAL_UpdatePartyGestures False s)"

declare PAL_PartyWalkTo.simps [simp del]

definition ride_step :: "int \<Rightarrow> int \<Rightarrow> int \<Rightarrow> GLOBALVARS \<Rightarrow> GLOBALVARS Prelude.res" where
  "ride_step iSpeed xOffset yOffset g =
     (let dx = limit_step (iSpeed * 2) xOffset; dy = limit_step iSpeed yOffset;
          g = g\<lparr>wPartyDirection := walk_dir xOffset yOffset\<rparr> in
      bindE (store_trail (party_px g + dx) (party_py g + dy) g) (\<lambda>g.
        Inr (g\<lparr>viewport := pos_of (PAL_X (viewport g) + dx) (PAL_Y (viewport g) + dy)\<rparr>)))"

fun PAL_PartyRideEventObject :: "nat \<Rightarrow> ENV \<Rightarrow> u16 \<Rightarrow> int \<Rightarrow> int \<Rightarrow> int \<Rightarrow> PAL \<Rightarrow> PAL Prelude.res" where
  "PAL_PartyRideEventObject n e wEventObjectID tx ty iSpeed s =
     (let xOffset = tx - party_px (gp s); yOffset = ty - party_py (gp s) in
      if xOffset \<noteq> 0 \<or> yOffset \<noteq> 0 then
        (case n of
           0 \<Rightarrow> Inl Out_of_fuel
         | Suc n \<Rightarrow>
             definedE ''lprgEventObject'' (wEventObjectID \<noteq> 0)
             (bindE (call e Wait_frame s) (\<lambda>s.
              bindE (on_gpE (ride_step iSpeed xOffset yOffset) s) (\<lambda>s.
              bindE (on_object (Some (uint wEventObjectID - 1)) (\<lambda>p.
                p\<lparr>ox := ox p + word_of_int (limit_step (iSpeed * 2) xOffset),
                  oy := oy p + word_of_int (limit_step iSpeed yOffset)\<rparr>) s) (\<lambda>s.
              bindE (update e False s) (\<lambda>s.
              bindE (show_scene e s) (PAL_PartyRideEventObject n e wEventObjectID tx ty iSpeed)))))))
      else Inr s)"

declare PAL_PartyRideEventObject.simps [simp del]

section \<open>Monsters that chase the party\<close>

definition rand_sign :: "ENV \<Rightarrow> int \<Rightarrow> GLOBALVARS \<Rightarrow> (int \<times> GLOBALVARS) Prelude.res" where
  "rand_sign e x g =
     (if x = 0 then bindE (RandomLong (ticks e) 0 1 g) (\<lambda>(k, g). Inr (if k \<noteq> 0 then - 1 else 1, g)) else Inr (x, g))"

text \<open>One of the four tries around the monster: back to the tile where it meets an obstacle.\<close>

definition chase_try :: "int option \<Rightarrow> u16 \<Rightarrow> u16 \<Rightarrow> u16 \<times> u16 \<Rightarrow> PAL \<Rightarrow> PAL Prelude.res" where
  "chase_try p prevx prevy = (\<lambda>(dx, dy) s.
     bindE (on_object p (\<lambda>ev. ev\<lparr>ox := ox ev + dx, oy := oy ev + dy\<rparr>) s) (\<lambda>s.
     bindE (the_object p (gp s)) (\<lambda>ev.
     bindE (PAL_CheckObstacle (PAL_XY (ox ev) (oy ev)) False 0 s) (\<lambda>obstacle.
       if obstacle then on_object p (\<lambda>ev. ev\<lparr>ox := prevx, oy := prevy\<rparr>) s else Inr s))))"

definition chase_near :: "u16 \<Rightarrow> u16 \<Rightarrow> bool \<Rightarrow> u16 \<Rightarrow> u16 \<Rightarrow> int \<Rightarrow> int \<Rightarrow> PAL \<Rightarrow> (u16 \<times> PAL) Prelude.res" where
  "chase_near wEventObjectID wSpeed fFloating prevx prevy x y s =
     (let p = Some (uint wEventObjectID - 1) in
      bindE (on_object p (\<lambda>ev. ev\<lparr>wDirection := walk_dir x y\<rparr>) s) (\<lambda>s.
      bindE (the_object p (gp s)) (\<lambda>ev.
        let x = uint (ox ev) + sgn x * 16; y = uint (oy ev) + sgn y * 8 in
        if fFloating then Inr (wSpeed, s)
        else
          bindE (PAL_CheckObstacle (pos_of x y) True wEventObjectID s) (\<lambda>obstacle.
          bindE (if obstacle then on_object p (\<lambda>ev. ev\<lparr>ox := prevx, oy := prevy\<rparr>) s else Inr s) (\<lambda>s.
          bindE (each (chase_try p prevx prevy) [(- 4, 2), (- 4, - 2), (4, - 2), (4, 2)] s) (\<lambda>s.
            Inr (if obstacle then 0 else wSpeed, s)))))))"

text \<open>The tile of the monster is found in the same way as in \<open>PAL_CheckObstacle\<close>.\<close>

definition PAL_MonsterChasePlayer :: "ENV \<Rightarrow> u16 \<Rightarrow> u16 \<Rightarrow> u16 \<Rightarrow> bool \<Rightarrow> PAL \<Rightarrow> PAL Prelude.res" where
  "PAL_MonsterChasePlayer e wEventObjectID wSpeed wRange fFloating s =
     definedE ''lprgEventObject'' (wEventObjectID \<noteq> 0)
     (bindE (if wChaseRange (gp s) \<noteq> 0 then
         bindE (the_object (Some (uint wEventObjectID - 1)) (gp s)) (\<lambda>ev.
         bindE (rand_sign e (party_px (gp s) - uint (ox ev)) (gp s)) (\<lambda>(x, g).
         bindE (rand_sign e (party_py (gp s) - uint (oy ev)) g) (\<lambda>(y, g).
           let s = s\<lparr>gp := g\<rparr>; (tx, ty, l) = nearest_tile (uint (ox ev)) (uint (oy ev));
               prevx = word_of_int (tx * 32 + l * 16); prevy = word_of_int (ty * 16 + l * 8) in
           definedE ''overflow'' (uint wRange * 32 * uint (wChaseRange g) < 2 ^ 31)
            (if \<bar>x\<bar> + \<bar>y\<bar> * 2 < uint wRange * 32 * uint (wChaseRange g)
             then chase_near wEventObjectID wSpeed fFloating prevx prevy x y s
             else Inr (0, s)))))
       else Inr (0, s)) (\<lambda>(wMonsterSpeed, s).
       Inr (on_gp (PAL_NPCWalkOneStep wEventObjectID (uint wMonsterSpeed)) s)))"

end
