(* ===== verification/PalOps.thy ===== *)
theory PalOps
  imports PalWalk
begin

text \<open>
  Instructions of \<open>PAL_InterpretInstruction\<close> for event objects, players and items: \<open>op_XX\<close> is the case \<open>0x00XX\<close> of the
  switch. \<open>e\<close> is the environment, \<open>i\<close> the instruction.
\<close>

section \<open>Event objects\<close>

definition op_0B :: "u16 \<Rightarrow> instr_handler" where
  "op_0B wOp e i s =
     go_on i (bindE (on_object (evt_index i) (\<lambda>ev. ev\<lparr>wDirection := wOp - 0x0B\<rparr>) s) (\<lambda>s.
       Inr (on_gp (PAL_NPCWalkOneStep (obj i) 2) s)))"

definition op_0F :: instr_handler where
  "op_0F e i s =
     go_on i (bindE (if op0 i \<noteq> 0xFFFF then on_object (evt_index i) (\<lambda>ev. ev\<lparr>wDirection := op0 i\<rparr>) s else Inr s) (\<lambda>s.
       if op1 i \<noteq> 0xFFFF then on_object (evt_index i) (\<lambda>ev. ev\<lparr>wCurrentFrameNum := op1 i\<rparr>) s else Inr s))"

text \<open>Walking on: the instruction is repeated until the position is reached.\<close>

definition walk_on :: "int \<Rightarrow> instr_handler" where
  "walk_on iSpeed e i s =
     bindE (PAL_NPCWalkTo (obj i) (uint (op0 i)) (uint (op1 i)) (uint (op2 i)) iSpeed s) (\<lambda>(there, s).
       if there then go_on i (Inr s) else repeat_it i (Inr s))"

definition walk_on_slowly :: "int \<Rightarrow> instr_handler" where
  "walk_on_slowly iSpeed e i s =
     (if (obj i AND 1) \<noteq> ucast (dwFrameNum (gp s) AND 1) then walk_on iSpeed e i s else repeat_it i (Inr s))"

definition op_12 :: instr_handler where
  "op_12 e i s =
     go_on i (on_object (cur_index i) (\<lambda>ev. ev\<lparr>
       ox := op1 i + wx (viewport (gp s)) + wx (partyoffset (gp s)),
       oy := op2 i + wy (viewport (gp s)) + wy (partyoffset (gp s))\<rparr>) s)"

definition op_13 :: instr_handler where
  "op_13 e i s = go_on i (on_object (cur_index i) (\<lambda>ev. ev\<lparr>ox := op1 i, oy := op2 i\<rparr>) s)"

definition op_14 :: instr_handler where
  "op_14 e i s = go_on i (on_object (evt_index i) (\<lambda>ev. ev\<lparr>wCurrentFrameNum := op0 i, wDirection := kDirSouth\<rparr>) s)"

definition op_16 :: instr_handler where
  "op_16 e i s =
     go_on i (if op0 i \<noteq> 0 then on_object (cur_index i) (\<lambda>ev. ev\<lparr>wDirection := op1 i, wCurrentFrameNum := op2 i\<rparr>) s else Inr s)"

definition op_24 :: instr_handler where
  "op_24 e i s = go_on i (if op0 i \<noteq> 0 then on_object (cur_index i) (\<lambda>ev. ev\<lparr>wAutoScript := op1 i\<rparr>) s else Inr s)"

definition op_25 :: instr_handler where
  "op_25 e i s = go_on i (if op0 i \<noteq> 0 then on_object (cur_index i) (\<lambda>ev. ev\<lparr>wTriggerScript := op1 i\<rparr>) s else Inr s)"

definition op_40 :: instr_handler where
  "op_40 e i s = go_on i (if op0 i \<noteq> 0 then on_object (cur_index i) (\<lambda>ev. ev\<lparr>wTriggerMode := op1 i\<rparr>) s else Inr s)"

definition op_49 :: instr_handler where
  "op_49 e i s = go_on i (on_object (cur_index i) (\<lambda>ev. ev\<lparr>sState := op1 i\<rparr>) s)"

definition op_4B :: instr_handler where
  "op_4B e i s = go_on i (on_object (evt_index i) (\<lambda>ev. ev\<lparr>sVanishTime := - 15\<rparr>) s)"

definition op_4C :: instr_handler where
  "op_4C e i s =
     go_on i (PAL_MonsterChasePlayer e (obj i) (if op1 i = 0 then 4 else op1 i) (if op0 i = 0 then 8 else op0 i) (op2 i \<noteq> 0) s)"

definition op_52 :: instr_handler where
  "op_52 e i s =
     go_on i (on_object (evt_index i) (\<lambda>ev. ev\<lparr>sState := - sState ev, sVanishTime := (if op0 i \<noteq> 0 then op0 i else 800)\<rparr>) s)"

definition op_6C :: instr_handler where
  "op_6C e i s =
     go_on i (bindE (on_object (cur_index i) (\<lambda>ev. ev\<lparr>ox := ox ev + op1 i, oy := oy ev + op2 i\<rparr>) s) (\<lambda>s.
       Inr (on_gp (PAL_NPCWalkOneStep (wCurEventObjectID i) 0) s)))"

definition op_6F :: instr_handler where
  "op_6F e i s =
     go_on i (bindE (the_object (cur_index i) (gp s)) (\<lambda>cur.
       if sState cur = op1 i then on_object (evt_index i) (\<lambda>ev. ev\<lparr>sState := op1 i\<rparr>) s else Inr s))"

definition op_7D :: instr_handler where
  "op_7D e i s = go_on i (on_object (cur_index i) (\<lambda>ev. ev\<lparr>ox := ox ev + op1 i, oy := oy ev + op2 i\<rparr>) s)"

definition op_7E :: instr_handler where
  "op_7E e i s = go_on i (on_object (cur_index i) (\<lambda>ev. ev\<lparr>sLayer := op1 i\<rparr>) s)"

definition op_87 :: instr_handler where
  "op_87 e i s = go_on i (Inr (on_gp (PAL_NPCWalkOneStep (wCurEventObjectID i) 0) s))"

definition op_94 :: instr_handler where
  "op_94 e i s =
     bindE (the_object (cur_index i) (gp s)) (\<lambda>cur. if sState cur = op1 i then jump (op2 i) (Inr s) else go_on i (Inr s))"

definition op_9A :: instr_handler where
  "op_9A e i s =
     go_on i (each (\<lambda>k. on_object (Some (int k - 1)) (\<lambda>ev. ev\<lparr>sState := op2 i\<rparr>)) [unat (op0 i)..<unat (op1 i) + 1] s)"

section \<open>Attributes of the players\<close>

definition party_roles :: "GLOBALVARS \<Rightarrow> u16 list Prelude.res" where
  "party_roles g =
     definedE ''rgParty'' (unat (wMaxPartyMemberIndex g) < length (rgParty g))
      (Inr (map wPlayerRole (take (unat (wMaxPartyMemberIndex g) + 1) (rgParty g))))"

definition for_party :: "(u16 \<Rightarrow> PAL \<Rightarrow> PAL Prelude.res) \<Rightarrow> PAL \<Rightarrow> PAL Prelude.res" where
  "for_party f s = bindE (party_roles (gp s)) (\<lambda>ws. each f ws s)"

text \<open>A word of a \<open>PLAYERROLES\<close> by its row and the role, which the source reaches through a pointer to words.\<close>

definition poke :: "u16 \<Rightarrow> int \<Rightarrow> (u16 \<Rightarrow> u16) \<Rightarrow> u16 list \<Rightarrow> u16 list Prelude.res" where
  "poke row role f p =
     (let k = nat (uint row * 6 + role) in definedE ''PLAYERROLES'' (k < length p) (Inr (p[k := f (p ! k)])))"

definition poke_effect :: "int \<Rightarrow> u16 \<Rightarrow> int \<Rightarrow> u16 \<Rightarrow> GLOBALVARS \<Rightarrow> GLOBALVARS Prelude.res" where
  "poke_effect part row role v g =
     definedE ''rgEquipmentEffect'' (0 \<le> part \<and> nat part < length (rgEquipmentEffect g))
      (bindE (poke row role (\<lambda>_. v) (rgEquipmentEffect g ! nat part)) (\<lambda>p.
        Inr (g\<lparr>rgEquipmentEffect := (rgEquipmentEffect g)[nat part := p]\<rparr>)))"

definition poke_roles :: "u16 \<Rightarrow> int \<Rightarrow> (u16 \<Rightarrow> u16) \<Rightarrow> GLOBALVARS \<Rightarrow> GLOBALVARS Prelude.res" where
  "poke_roles row role f g = bindE (poke row role f (PlayerRoles g)) (\<lambda>p. Inr (g\<lparr>PlayerRoles := p\<rparr>))"

definition stat_role :: "INSTR \<Rightarrow> int" where
  "stat_role i = (if op2 i = 0 then uint (obj i) else uint (op2 i) - 1)"

definition op_17 :: instr_handler where
  "op_17 e i s = go_on i (on_gpE (poke_effect (uint (op0 i) - 0x0B) (op1 i) (uint (obj i)) (op2 i)) s)"

definition op_19 :: instr_handler where
  "op_19 e i s = go_on i (on_gpE (poke_roles (op0 i) (stat_role i) (\<lambda>v. v + op1 i)) s)"

definition op_1A :: instr_handler where
  "op_1A e i s =
     go_on i (on_gpE (if g_iCurEquipPart s \<noteq> - 1 then poke_effect (g_iCurEquipPart s) (op0 i) (stat_role i) (op1 i)
                      else poke_roles (op0 i) (stat_role i) (\<lambda>_. op1 i)) s)"

text \<open>The cases \<open>0x001B\<close> to \<open>0x001D\<close>: points for everyone, or for one player.\<close>

definition heal :: "u16 \<Rightarrow> u16 \<Rightarrow> instr_handler" where
  "heal hp mp e i s =
     go_on i (if op0 i \<noteq> 0 then for_party (\<lambda>w s. on_gpE (\<lambda>g. bindE (PAL_IncreaseHPMP w hp mp g) (\<lambda>(_, g). Inr g)) s) s
       else bindE (PAL_IncreaseHPMP (obj i) hp mp (gp s)) (\<lambda>(ok, g).
         let s = s\<lparr>gp := g\<rparr> in Inr (if ok then s else failed s)))"

definition op_1B :: instr_handler where "op_1B e i s = heal (op1 i) 0 e i s"
definition op_1C :: instr_handler where "op_1C e i s = heal 0 (op1 i) e i s"
definition op_1D :: instr_handler where "op_1D e i s = heal (op1 i) (op1 i) e i s"

definition revive :: "u16 \<Rightarrow> u16 \<Rightarrow> GLOBALVARS \<Rightarrow> (bool \<times> GLOBALVARS) Prelude.res" where
  "revive tenths w g =
     role_of w (\<lambda>r.
       if the_role rgwHP r g = 0 then
         let hp = uint (the_role rgwMaxHP r g) * uint tenths in
         definedE ''overflow'' (hp < 2 ^ 31)
          (bindE (PAL_CurePoisonByLevel w 3 (set_role rgwHP r (word_of_int (hp div 10)) g)) (\<lambda>g.
           bindE (each (\<lambda>x. PAL_RemovePlayerStatus w (of_nat x)) [0..<kStatusAll] g) (\<lambda>g. Inr (True, g))))
       else Inr (False, g))"

definition op_22 :: instr_handler where
  "op_22 e i s =
     go_on i (if op0 i \<noteq> 0 then
         for_party (\<lambda>w s. bindE (revive (op1 i) w (gp s)) (\<lambda>(ok, g).
           let s = s\<lparr>gp := g\<rparr> in Inr (if ok then s\<lparr>g_fScriptSuccess := True\<rparr> else s))) (failed s)
       else bindE (revive (op1 i) (obj i) (gp s)) (\<lambda>(ok, g). let s = s\<lparr>gp := g\<rparr> in Inr (if ok then s else failed s)))"

definition op_30 :: instr_handler where
  "op_30 e i s =
     go_on i (on_gpE (\<lambda>g.
       let k = nat (uint (op0 i) * 6 + stat_role i) in
       definedE ''PLAYERROLES'' (k < length (PlayerRoles g))
        (poke_effect (int kBodyPartExtra) (op0 i) (stat_role i)
          (word_of_int ((uint (PlayerRoles g ! k) * sint (op1 i)) sdiv 100)) g)) s)"

definition op_31 :: instr_handler where
  "op_31 e i s = go_on i (role_of (obj i) (\<lambda>r. on_gpE (poke_effect (int kBodyPartExtra) (of_nat rgwSpriteNumInBattle) (int r) (op0 i)) s))"

definition op_55 :: instr_handler where
  "op_55 e i s =
     go_on i (on_gpE (\<lambda>g. bindE (PAL_AddMagic (if op1 i = 0 then obj i else op1 i - 1) (op0 i) g) (\<lambda>(_, g). Inr g)) s)"

definition op_56 :: instr_handler where
  "op_56 e i s = go_on i (on_gpE (PAL_RemoveMagic (if op1 i = 0 then obj i else op1 i - 1) (op0 i)) s)"

definition set_base_damage :: "u16 \<Rightarrow> u16 \<Rightarrow> GLOBALVARS \<Rightarrow> GLOBALVARS Prelude.res" where
  "set_base_damage w v g =
     definedE ''rgObject'' (unat w < length (rgObject g))
      (let j = unat (rgObject g ! unat w ! 0) in
       definedE ''lprgMagic'' (j < length (lprgMagic g)) (Inr (g\<lparr>lprgMagic := (lprgMagic g)[j := (lprgMagic g ! j)[13 := v]]\<rparr>)))"

definition op_57 :: instr_handler where
  "op_57 e i s =
     go_on i (on_gpE (\<lambda>g. role_of (obj i) (\<lambda>r.
       let d = uint (the_role rgwMP r g) * uint (if op1 i = 0 then 8 else op1 i) in
       definedE ''overflow'' (d < 2 ^ 31)
        (bindE (set_base_damage (op0 i) (word_of_int d) g) (\<lambda>g. Inr (set_role rgwMP r 0 g))))) s)"

definition op_5A :: instr_handler where
  "op_5A e i s = go_on i (on_gpE (\<lambda>g. role_of (obj i) (\<lambda>r. Inr (set_role rgwHP r (the_role rgwHP r g div 2) g))) s)"

definition op_5F :: instr_handler where
  "op_5F e i s = go_on i (on_gpE (\<lambda>g. role_of (obj i) (\<lambda>r. Inr (set_role rgwHP r 0 g))) s)"

definition op_8D :: instr_handler where
  "op_8D e i s = go_on i (on_gpE (PAL_PlayerLevelUp (ticks e) (obj i) (op0 i)) s)"

text \<open>Whether the loop over the members finds one, and stops there.\<close>

fun some_role :: "(nat \<Rightarrow> bool) \<Rightarrow> u16 list \<Rightarrow> bool Prelude.res" where
  "some_role P [] = Inr False"
| "some_role P (w # ws) = role_of w (\<lambda>r. if P r then Inr True else some_role P ws)"

definition jump_if_member :: "(nat \<Rightarrow> bool) \<Rightarrow> bool \<Rightarrow> u16 \<Rightarrow> INSTR \<Rightarrow> PAL \<Rightarrow> (u16 \<times> PAL) Prelude.res" where
  "jump_if_member P b w i s =
     bindE (party_roles (gp s)) (\<lambda>ws. bindE (some_role P ws) (\<lambda>found.
       if found = b then jump w (Inr s) else go_on i (Inr s)))"

definition op_74 :: instr_handler where
  "op_74 e i s = jump_if_member (\<lambda>r. the_role rgwHP r (gp s) < the_role rgwMaxHP r (gp s)) True (op0 i) i s"

definition op_79 :: instr_handler where
  "op_79 e i s = jump_if_member (\<lambda>r. the_role rgwName r (gp s) = op0 i) True (op1 i) i s"

section \<open>Poisons and statuses of the players\<close>

definition poison_role :: "ENV \<Rightarrow> u16 \<Rightarrow> u16 \<Rightarrow> GLOBALVARS \<Rightarrow> GLOBALVARS Prelude.res" where
  "poison_role e p w g =
     bindE (RandomLong (ticks e) 1 100 g) (\<lambda>(k, g).
     bindE (PAL_GetPlayerPoisonResistance w g) (\<lambda>r.
       if k > uint r then PAL_AddPoisonForPlayer w p g else Inr g))"

definition all_or_one :: "(u16 \<Rightarrow> GLOBALVARS \<Rightarrow> GLOBALVARS Prelude.res) \<Rightarrow> instr_handler" where
  "all_or_one f e i s = go_on i (if op0 i \<noteq> 0 then for_party (\<lambda>w. on_gpE (f w)) s else on_gpE (f (obj i)) s)"

definition op_29 :: instr_handler where "op_29 e i s = all_or_one (poison_role e (op1 i)) e i s"
definition op_2B :: instr_handler where "op_2B e i s = all_or_one (\<lambda>w. PAL_CurePoisonByKind w (op1 i)) e i s"
definition op_2C :: instr_handler where "op_2C e i s = all_or_one (\<lambda>w. PAL_CurePoisonByLevel w (op1 i)) e i s"
definition op_2D :: instr_handler where "op_2D e i s = go_on i (on_gpE (PAL_SetPlayerStatus (obj i) (op0 i) (op1 i)) s)"
definition op_2F :: instr_handler where "op_2F e i s = go_on i (on_gpE (PAL_RemovePlayerStatus (obj i) (op0 i)) s)"

definition op_5D :: instr_handler where
  "op_5D e i s =
     bindE (PAL_IsPlayerPoisonedByKind (obj i) (op0 i) (gp s)) (\<lambda>b. if b then go_on i (Inr s) else jump (op1 i) (Inr s))"

definition op_61 :: instr_handler where
  "op_61 e i s =
     bindE (PAL_IsPlayerPoisonedByLevel (obj i) 1 (gp s)) (\<lambda>b. if b then go_on i (Inr s) else jump (op0 i) (Inr s))"

section \<open>Items, equipment and cash\<close>

definition add_to_inventory :: "u16 \<Rightarrow> int \<Rightarrow> PAL \<Rightarrow> PAL" where
  "add_to_inventory w n = on_gp (\<lambda>g. snd (PAL_AddItemToInventory w n g))"

definition op_18 :: instr_handler where
  "op_18 e i s =
     (let part = uint (op0 i) - 0x0B; s = s\<lparr>g_iCurEquipPart := part\<rparr> in
      go_on i (bindE (on_gpE (PAL_RemoveEquipmentEffect (obj i) (word_of_int part)) s) (\<lambda>s.
       role_of (obj i) (\<lambda>r.
       definedE ''rgwEquipment'' (0 \<le> part \<and> nat part < MAX_PLAYER_EQUIPMENTS)
        (let w = the_role (rgwEquipment + nat part) r (gp s) in
         if w \<noteq> op1 i then
           let s = on_gp (set_role (rgwEquipment + nat part) r (op1 i)) s;
               s = add_to_inventory (op1 i) (- 1) s;
               s = (if w \<noteq> 0 then add_to_inventory w 1 s else s)
           in Inr (on_gp (\<lambda>g. g\<lparr>wLastUnequippedItem := w\<rparr>) s)
         else Inr s)))))"

definition op_1E :: instr_handler where
  "op_1E e i s =
     (if sint (op0 i) < 0 \<and> dwCash (gp s) < ucast (word_of_int (- sint (op0 i)) :: u16) then jump (op1 i) (Inr s)
      else go_on i (Inr (on_gp (\<lambda>g. g\<lparr>dwCash := dwCash g + word_of_int (sint (op0 i))\<rparr>) s)))"

definition op_1F :: instr_handler where
  "op_1F e i s = go_on i (Inr (add_to_inventory (op0 i) (sint (op1 i)) s))"

text \<open>Taking off \<open>x\<close> pieces of an item that the members wear; the result is how many are left to take.\<close>

fun take_off :: "u16 \<Rightarrow> (u16 \<times> nat) list \<Rightarrow> nat \<Rightarrow> GLOBALVARS \<Rightarrow> (nat \<times> GLOBALVARS) Prelude.res" where
  "take_off ob [] x g = Inr (x, g)"
| "take_off ob ((w, j) # ps) x g =
     role_of w (\<lambda>r.
       if the_role (rgwEquipment + j) r g = ob then
         bindE (PAL_RemoveEquipmentEffect w (of_nat j) g) (\<lambda>g.
           let g = set_role (rgwEquipment + j) r 0 g in
           if x - 1 = 0 then Inr (0, g) else take_off ob ps (x - 1) g)
       else take_off ob ps x g)"

definition worn_places :: "u16 list \<Rightarrow> (u16 \<times> nat) list" where
  "worn_places ws = concat (map (\<lambda>w. map (Pair w) [0..<MAX_PLAYER_EQUIPMENTS]) ws)"

definition op_20 :: instr_handler where
  "op_20 e i s =
     (let n = (if op1 i = 0 then 1 else unat (op1 i)); (ok, g) = PAL_AddItemToInventory (op0 i) (- int n) (gp s) in
      if ok then go_on i (Inr (s\<lparr>gp := g\<rparr>))
      else bindE (party_roles g) (\<lambda>ws. bindE (take_off (op0 i) (worn_places ws) n g) (\<lambda>(x, g).
        if x > 0 \<and> op2 i \<noteq> 0 then jump (op2 i) (Inr (s\<lparr>gp := g\<rparr>)) else go_on i (Inr (s\<lparr>gp := g\<rparr>)))))"

definition unequip_all :: "u16 \<Rightarrow> nat \<Rightarrow> nat \<Rightarrow> PAL \<Rightarrow> PAL Prelude.res" where
  "unequip_all role r k s =
     (let w = the_role (rgwEquipment + k) r (gp s);
          s = (if w \<noteq> 0 then on_gp (set_role (rgwEquipment + k) r 0) (add_to_inventory w 1 s) else s) in
      on_gpE (PAL_RemoveEquipmentEffect role (of_nat k)) s)"

definition unequip_one :: "u16 \<Rightarrow> nat \<Rightarrow> nat \<Rightarrow> PAL \<Rightarrow> PAL Prelude.res" where
  "unequip_one role r k s =
     (let w = the_role (rgwEquipment + k) r (gp s) in
      if w \<noteq> 0 then
        bindE (on_gpE (PAL_RemoveEquipmentEffect role (of_nat k)) s) (\<lambda>s.
          Inr (on_gp (set_role (rgwEquipment + k) r 0) (add_to_inventory w 1 s)))
      else Inr s)"

definition op_23 :: instr_handler where
  "op_23 e i s =
     go_on i (bindE (iPlayerRole i (gp s)) (\<lambda>role. role_of role (\<lambda>r.
       if op1 i = 0 then each (unequip_all role r) [0..<MAX_PLAYER_EQUIPMENTS] s
       else definedE ''rgwEquipment'' (unat (op1 i) \<le> MAX_PLAYER_EQUIPMENTS) (unequip_one role r (unat (op1 i) - 1) s))))"

definition op_26 :: instr_handler where
  "op_26 e i s =
     go_on i (bindE (show_scene e s) (\<lambda>s.
       definedE ''lprgStore'' (unat (op0 i) < length (lprgStore (gp s))) (on_gpE (PAL_BuyMenu (bought e s)) s)))"

definition op_27 :: instr_handler where
  "op_27 e i s = go_on i (bindE (show_scene e s) (\<lambda>s. on_gpE (PAL_SellMenu (sold e s)) s))"

text \<open>The random number is used as an index into the nine items of the first store.\<close>

definition op_34 :: instr_handler where
  "op_34 e i s =
     (if wCollectValue (gp s) > 0 then
        go_on i (bindE (RandomLong (ticks e) 1 9 (gp s)) (\<lambda>(k, g).
          let k = (if k > uint (wCollectValue g) then uint (wCollectValue g) else k);
              g = g\<lparr>wCollectValue := wCollectValue g - word_of_int k\<rparr>; j = nat (k - 1) in
          definedE ''rgwItems'' (lprgStore g \<noteq> [] \<and> j < length (lprgStore g ! 0))
           (let w = lprgStore g ! 0 ! j; s = add_to_inventory w 1 (s\<lparr>gp := g\<rparr>) in
            bindE (call e (PAL_StartDialog 3 0 0 False) s) (call e (PAL_ShowDialogText [42, w])))))
      else jump (op0 i) (Inr s))"

definition op_58 :: instr_handler where
  "op_58 e i s =
     (if PAL_GetItemAmount (op0 i) (gp s) < sint (op1 i) then jump (op2 i) (Inr s) else go_on i (Inr s))"

definition op_86 :: instr_handler where
  "op_86 e i s =
     jump_if_member (\<lambda>r. \<exists>x \<in> set [0..<MAX_PLAYER_EQUIPMENTS]. the_role (rgwEquipment + x) r (gp s) = op0 i) False (op2 i) i s"

definition op_88 :: instr_handler where
  "op_88 e i s =
     go_on i (on_gpE (\<lambda>g. let k = (if dwCash g > 5000 then 5000 else dwCash g); g = g\<lparr>dwCash := dwCash g - k\<rparr> in
       set_base_damage (op0 i) (ucast (k * 2 div 5)) g) s)"

definition op_8F :: instr_handler where
  "op_8F e i s = go_on i (Inr (on_gp (\<lambda>g. g\<lparr>dwCash := dwCash g div 2\<rparr>) s))"

definition op_90 :: instr_handler where
  "op_90 e i s =
     go_on i (on_gpE (\<lambda>g. definedE ''rgObject'' (unat (op0 i) < length (rgObject g) \<and> 2 + unat (op2 i) < 6)
       (Inr (g\<lparr>rgObject := (rgObject g)[unat (op0 i) := (rgObject g ! unat (op0 i))[2 + unat (op2 i) := op1 i]]\<rparr>))) s)"

end
