(* ===== verification/PalOps2.thy ===== *)
theory PalOps2
  imports PalOps
begin

text \<open>
  Instructions of \<open>PAL_InterpretInstruction\<close> for battles, scenes and the screen; \<open>op_XX\<close> is the case \<open>0x00XX\<close>.
\<close>

section \<open>Enemies\<close>

text \<open>Members of \<open>ENEMY\<close> by their word.\<close>

definition wHealth :: nat where [simp]: "wHealth = 11"
definition wMagic :: nat where [simp]: "wMagic = 15"
definition wMagicRate :: nat where [simp]: "wMagicRate = 16"
definition enemy_wCollectValue :: nat where [simp]: "enemy_wCollectValue = 34"

definition enemy_at :: "nat \<Rightarrow> PAL \<Rightarrow> BATTLEENEMY Prelude.res" where
  "enemy_at k s = definedE ''rgEnemy'' (k < length (rgEnemy (g_Battle s))) (Inr (rgEnemy (g_Battle s) ! k))"

definition on_battle :: "(BATTLE \<Rightarrow> BATTLE) \<Rightarrow> PAL \<Rightarrow> PAL" where
  "on_battle f s = s\<lparr>g_Battle := f (g_Battle s)\<rparr>"

definition on_enemy :: "nat \<Rightarrow> (BATTLEENEMY \<Rightarrow> BATTLEENEMY) \<Rightarrow> PAL \<Rightarrow> PAL Prelude.res" where
  "on_enemy k f s = bindE (enemy_at k s) (\<lambda>b. Inr (on_battle (\<lambda>bt. bt\<lparr>rgEnemy := (rgEnemy bt)[k := f b]\<rparr>) s))"

definition enemies :: "PAL \<Rightarrow> nat list" where
  "enemies s = [0..<unat (wMaxEnemyIndex (g_Battle s)) + 1]"

definition health :: "BATTLEENEMY \<Rightarrow> u16" where "health b = enemy_e b ! wHealth"

definition set_e :: "nat \<Rightarrow> u16 \<Rightarrow> BATTLEENEMY \<Rightarrow> BATTLEENEMY" where
  "set_e k v b = b\<lparr>enemy_e := (enemy_e b)[k := v]\<rparr>"

definition hurt :: "u16 \<Rightarrow> BATTLEENEMY \<Rightarrow> BATTLEENEMY" where "hurt d b = set_e wHealth (health b - d) b"

definition the_enemy :: "INSTR \<Rightarrow> nat" where "the_enemy i = unat (obj i)"

definition op_21 :: instr_handler where
  "op_21 e i s =
     go_on i (if op0 i \<noteq> 0 then each (\<lambda>k. on_enemy k (\<lambda>b. if wObjectID b \<noteq> 0 then hurt (op1 i) b else b)) (enemies s) s
              else on_enemy (the_enemy i) (hurt (op1 i)) s)"

definition resistance :: "u16 \<Rightarrow> GLOBALVARS \<Rightarrow> int Prelude.res" where
  "resistance w g = definedE ''rgObject'' (unat w < length (rgObject g)) (Inr (uint (rgObject g ! unat w ! 1)))"

text \<open>The poison \<open>p\<close> for enemy \<open>k\<close>, unless it resists, has it already or has no place left.\<close>

definition poison_enemy :: "ENV \<Rightarrow> INSTR \<Rightarrow> nat \<Rightarrow> PAL \<Rightarrow> PAL Prelude.res" where
  "poison_enemy e i k s =
     bindE (enemy_at k s) (\<lambda>b.
     bindE (RandomLong (ticks e) 0 9 (gp s)) (\<lambda>(n, g). let s = s\<lparr>gp := g\<rparr> in
     bindE (resistance (wObjectID b) g) (\<lambda>r.
       if n \<ge> r \<and> (\<forall>q \<in> set (rgPoisons b). wPoisonID q \<noteq> op1 i) then
         case find (\<lambda>j. wPoisonID (rgPoisons b ! j) = 0) [0..<length (rgPoisons b)] of
           None \<Rightarrow> Inr s
         | Some j \<Rightarrow>
             definedE ''rgObject'' (unat (op1 i) < length (rgObject g))
              (bindE (on_enemy k (\<lambda>b. b\<lparr>rgPoisons := (rgPoisons b)[j := (rgPoisons b ! j)\<lparr>wPoisonID := op1 i\<rparr>]\<rparr>) s) (\<lambda>s.
               bindE (run e (rgObject g ! unat (op1 i) ! 4) (obj i) s) (\<lambda>(r, s).
                 on_enemy k (\<lambda>b. b\<lparr>rgPoisons := (rgPoisons b)[j := (rgPoisons b ! j)\<lparr>wPoisonScript := r\<rparr>]\<rparr>) s)))
       else Inr s)))"

definition op_28 :: instr_handler where
  "op_28 e i s =
     go_on i (if op0 i \<noteq> 0 then
         each (\<lambda>k s. bindE (enemy_at k s) (\<lambda>b. if wObjectID b = 0 then Inr s else poison_enemy e i k s)) (enemies s) s
       else poison_enemy e i (the_enemy i) s)"

definition cure_enemy :: "u16 \<Rightarrow> BATTLEENEMY \<Rightarrow> BATTLEENEMY" where
  "cure_enemy p b =
     (case find (\<lambda>j. wPoisonID (rgPoisons b ! j) = p) [0..<length (rgPoisons b)] of
        None \<Rightarrow> b | Some j \<Rightarrow> b\<lparr>rgPoisons := (rgPoisons b)[j := no_poison]\<rparr>)"

definition op_2A :: instr_handler where
  "op_2A e i s =
     go_on i (if op0 i \<noteq> 0 then each (\<lambda>k. on_enemy k (\<lambda>b. if wObjectID b = 0 then b else cure_enemy (op1 i) b)) (enemies s) s
              else on_enemy (the_enemy i) (cure_enemy (op1 i)) s)"

definition op_2E :: instr_handler where
  "op_2E e i s =
     bindE (enemy_at (the_enemy i) s) (\<lambda>b.
     bindE (RandomLong (ticks e) 0 (if unat (op0 i) = kStatusSlow then 14 else 9) (gp s)) (\<lambda>(n, g). let s = s\<lparr>gp := g\<rparr> in
     bindE (resistance (wObjectID b) g) (\<lambda>r.
       if n \<ge> r then
         definedE ''rgwStatus'' (unat (op0 i) < length (rgwStatus b))
          (if rgwStatus b ! unat (op0 i) = 0
           then go_on i (on_enemy (the_enemy i) (\<lambda>b. b\<lparr>rgwStatus := (rgwStatus b)[unat (op0 i) := op1 i]\<rparr>) s)
           else jump (op2 i) (Inr s))
       else jump (op2 i) (Inr s))))"

definition op_33 :: instr_handler where
  "op_33 e i s =
     bindE (enemy_at (the_enemy i) s) (\<lambda>b.
       if enemy_e b ! enemy_wCollectValue \<noteq> 0
       then go_on i (Inr (on_gp (\<lambda>g. g\<lparr>wCollectValue := wCollectValue g + enemy_e b ! enemy_wCollectValue\<rparr>) s))
       else jump (op0 i) (Inr s))"

definition moving_role :: "PAL \<Rightarrow> u16 Prelude.res" where
  "moving_role s = bindE (party_at (unat (wMovingPlayerIndex (g_Battle s))) (gp s)) (\<lambda>p. Inr (wPlayerRole p))"

definition op_39 :: instr_handler where
  "op_39 e i s =
     go_on i (bindE (moving_role s) (\<lambda>w. bindE (on_enemy (the_enemy i) (hurt (op0 i)) s) (on_gpE (\<lambda>g. role_of w (\<lambda>r.
       let hp = the_role rgwHP r g + op0 i in
       Inr (set_role rgwHP r (if hp > the_role rgwMaxHP r g then the_role rgwMaxHP r g else hp) g))))))"

definition op_3A :: instr_handler where
  "op_3A e i s = (if fIsBoss (g_Battle s) then jump (op0 i) (Inr s) else go_on i (call e PAL_BattlePlayerEscape s))"

definition op_42 :: instr_handler where
  "op_42 e i s =
     go_on i (call e (PAL_BattleSimulateMagic (if sint (op2 i) - 1 < 0 then sint (obj i) else sint (op2 i) - 1) (op0 i) (op1 i)) s)"

definition op_5B :: instr_handler where
  "op_5B e i s =
     go_on i (on_enemy (the_enemy i) (\<lambda>b. let w = health b div 2 + 1 in hurt (if w > op0 i then op0 i else w) b) s)"

definition op_5C :: instr_handler where
  "op_5C e i s = go_on i (Inr (on_battle (\<lambda>bt. bt\<lparr>iHidingTime := - uint (op0 i)\<rparr>) s))"

definition op_5E :: instr_handler where
  "op_5E e i s =
     bindE (enemy_at (the_enemy i) s) (\<lambda>b.
       if \<exists>q \<in> set (rgPoisons b). wPoisonID q = op0 i then go_on i (Inr s) else jump (op1 i) (Inr s))"

definition op_60 :: instr_handler where
  "op_60 e i s = go_on i (on_enemy (the_enemy i) (set_e wHealth 0) s)"

text \<open>The data of the enemy that an object stands for.\<close>

definition enemy_of :: "u16 \<Rightarrow> GLOBALVARS \<Rightarrow> u16 list Prelude.res" where
  "enemy_of w g =
     definedE ''rgObject'' (unat w < length (rgObject g))
      (let j = unat (rgObject g ! unat w ! 0) in definedE ''lprgEnemy'' (j < length (lprgEnemy g)) (Inr (lprgEnemy g ! j)))"

definition op_64 :: instr_handler where
  "op_64 e i s =
     bindE (enemy_at (the_enemy i) s) (\<lambda>b. bindE (enemy_of (wObjectID b) (gp s)) (\<lambda>en.
       definedE ''overflow'' (uint (en ! wHealth) * uint (op0 i) < 2 ^ 31)
        (if uint (health b) * 100 > uint (en ! wHealth) * uint (op0 i) then jump (op1 i) (Inr s) else go_on i (Inr s))))"

definition op_66 :: instr_handler where
  "op_66 e i s =
     go_on i (bindE (moving_role s) (\<lambda>w. role_of w (\<lambda>r.
       bindE (RandomLong (ticks e) 0 4 (gp s)) (\<lambda>(k, g).
         call e (PAL_BattleSimulateMagic (sint (obj i)) (op0 i)
           (op1 i * 5 + the_role rgwAttackStrength r (gp s) + word_of_int k)) (s\<lparr>gp := g\<rparr>)))))"

definition op_67 :: instr_handler where
  "op_67 e i s =
     go_on i (on_enemy (the_enemy i) (\<lambda>b. set_e wMagicRate (if op1 i = 0 then 10 else op1 i) (set_e wMagic (op0 i) b)) s)"

definition op_68 :: instr_handler where
  "op_68 e i s = (if fEnemyMoving (g_Battle s) then jump (op0 i) (Inr s) else go_on i (Inr s))"

definition op_69 :: instr_handler where "op_69 e i s = go_on i (call e PAL_BattleEnemyEscape s)"
definition op_6A :: instr_handler where "op_6A e i s = go_on i (call e (PAL_BattleStealFromEnemy (obj i) (op0 i)) s)"
definition op_6B :: instr_handler where "op_6B e i s = go_on i (Inr (on_battle (\<lambda>bt. bt\<lparr>iBlow := sint (op0 i)\<rparr>) s))"
definition op_89 :: instr_handler where "op_89 e i s = go_on i (Inr (on_battle (\<lambda>bt. bt\<lparr>BattleResult := op0 i\<rparr>) s))"

definition op_91 :: instr_handler where
  "op_91 e i s =
     (if fInBattle (gp s) then
        bindE (enemy_at (the_enemy i) s) (\<lambda>b.
        definedE ''rgEnemy'' (unat (wMaxEnemyIndex (g_Battle s)) < length (rgEnemy (g_Battle s)))
         (if \<exists>k \<in> set (enemies s). k \<noteq> the_enemy i \<and> wObjectID (rgEnemy (g_Battle s) ! k) = wObjectID b
          then jump (op0 i) (Inr s) else go_on i (Inr s)))
      else go_on i (Inr s))"

definition on_player :: "nat \<Rightarrow> (BATTLEPLAYER \<Rightarrow> BATTLEPLAYER) \<Rightarrow> PAL \<Rightarrow> PAL Prelude.res" where
  "on_player k f s =
     definedE ''rgPlayer'' (k < length (rgPlayer (g_Battle s)))
      (Inr (on_battle (\<lambda>bt. bt\<lparr>rgPlayer := (rgPlayer bt)[k := f (rgPlayer bt ! k)]\<rparr>) s))"

definition calls :: "ENV \<Rightarrow> pal_call list \<Rightarrow> PAL \<Rightarrow> PAL Prelude.res" where
  "calls e = each (call e)"

definition op_92 :: instr_handler where
  "op_92 e i s =
     go_on i (if fInBattle (gp s) then
         bindE (if op0 i \<noteq> 0 then
             bindE (call e (PAL_BattleShowPlayerPreMagicAnim (op0 i - 1) False) s)
               (on_player (unat (op0 i) - 1) (\<lambda>p. p\<lparr>player_wCurrentFrame := 6\<rparr>))
           else Inr s) (\<lambda>s.
         bindE (each (\<lambda>n s.
             bindE (each (\<lambda>j. on_player j (\<lambda>p. p\<lparr>player_iColorShift := n * 2\<rparr>)) [0..<unat (wMaxPartyMemberIndex (gp s)) + 1] s)
               (call e (PAL_BattleDelay 1 0 True))) [0, 1, 2, 3, 4] s) (\<lambda>s.
         calls e [PAL_BattleBackupScene, PAL_BattleUpdateFighters, PAL_BattleMakeScene, PAL_BattleFadeScene] s))
       else Inr s)"

text \<open>A \<open>BATTLEENEMY\<close> after \<open>memset\<close>.\<close>

definition no_enemy :: BATTLEENEMY where
  "no_enemy = \<lparr>wObjectID = 0, enemy_e = replicate 35 0, rgwStatus = replicate kStatusAll 0, flTimeMeter = 0,
     rgPoisons = replicate MAX_POISONS no_poison, enemy_pos = 0, posOriginal = 0, enemy_wCurrentFrame = 0, enemy_state = 0,
     fTurnStart = False, fFirstMoveDone = False, fDualMove = False, wScriptOnTurnStart = 0, wScriptOnBattleEnd = 0,
     wScriptOnReady = 0, wPrevHP = 0, enemy_iColorShift = 0\<rparr>"

text \<open>\<open>0x009C\<close>: copies of the enemy \<open>me\<close> in at most \<open>w\<close> free places.\<close>

fun duplicate_enemy :: "nat \<Rightarrow> nat list \<Rightarrow> u16 \<Rightarrow> PAL \<Rightarrow> PAL Prelude.res" where
  "duplicate_enemy me [] w s = Inr s"
| "duplicate_enemy me (k # ks) w s =
     bindE (enemy_at k s) (\<lambda>b.
       if w > 0 \<and> wObjectID b = 0 then
         bindE (on_enemy k (\<lambda>_. no_enemy) s) (\<lambda>s.
         bindE (enemy_at me s) (\<lambda>m.
         bindE (on_enemy k (\<lambda>b. b\<lparr>wObjectID := wObjectID m, enemy_e := enemy_e m, wScriptOnTurnStart := wScriptOnTurnStart m,
             wScriptOnBattleEnd := wScriptOnBattleEnd m, wScriptOnReady := wScriptOnReady m, enemy_state := 0,
             flTimeMeter := 50, enemy_iColorShift := 0\<rparr>) s) (duplicate_enemy me ks (w - 1))))
       else duplicate_enemy me ks w s)"

definition step_apart :: "nat \<Rightarrow> PAL \<Rightarrow> PAL Prelude.res" where
  "step_apart j = on_enemy j (\<lambda>b. b\<lparr>enemy_pos := pos_of ((PAL_X (enemy_pos b) + PAL_X (posOriginal b)) sdiv 2)
     ((PAL_Y (enemy_pos b) + PAL_Y (posOriginal b)) sdiv 2)\<rparr>)"

definition op_9C :: instr_handler where
  "op_9C e i s =
     definedE ''rgEnemy'' (unat (wMaxEnemyIndex (g_Battle s)) < length (rgEnemy (g_Battle s)))
      (if length (filter (\<lambda>k. wObjectID (rgEnemy (g_Battle s) ! k) \<noteq> 0) (enemies s)) \<noteq> 1 then
         if op1 i \<noteq> 0 then jump (op1 i) (Inr s) else go_on i (Inr s)
       else go_on i (
         bindE (duplicate_enemy (the_enemy i) (enemies s) (if op0 i = 0 then 1 else op0 i) s) (\<lambda>s.
         bindE (call e PAL_LoadBattleSprites s) (\<lambda>s.
         bindE (each (\<lambda>k s. bindE (enemy_at (the_enemy i) s) (\<lambda>m.
             on_enemy k (\<lambda>b. if wObjectID b = 0 then b else b\<lparr>enemy_pos := enemy_pos m\<rparr>) s)) (enemies s) s) (\<lambda>s.
         bindE (each (\<lambda>_ s. bindE (each step_apart (enemies s) s) (call e (PAL_BattleDelay 1 0 True))) [0..<10] s) (\<lambda>s.
           calls e [PAL_BattleUpdateFighters, PAL_BattleDelay 1 0 True] s))))))"

definition able :: "INSTR \<Rightarrow> PAL \<Rightarrow> bool Prelude.res" where
  "able i s =
     (if iHidingTime (g_Battle s) > 0 then Inr False
      else bindE (enemy_at (the_enemy i) s) (\<lambda>b.
        definedE ''rgwStatus'' (length (rgwStatus b) = kStatusAll)
         (Inr (rgwStatus b ! kStatusSleep = 0 \<and> rgwStatus b ! kStatusConfused = 0))))"

text \<open>\<open>0x009E\<close>: the monster \<open>w\<close> in the first \<open>y\<close> free places.\<close>

fun summon_enemy :: "u16 \<Rightarrow> nat list \<Rightarrow> int \<Rightarrow> PAL \<Rightarrow> PAL Prelude.res" where
  "summon_enemy w [] y s = Inr s"
| "summon_enemy w (k # ks) y s =
     bindE (enemy_at k s) (\<lambda>b.
       if wObjectID b = 0 then
         bindE (enemy_of w (gp s)) (\<lambda>en.
         bindE (on_enemy k (\<lambda>_. no_enemy\<lparr>wObjectID := w, enemy_e := en, enemy_state := 0,
             wScriptOnTurnStart := rgObject (gp s) ! unat w ! 2, wScriptOnBattleEnd := rgObject (gp s) ! unat w ! 3,
             wScriptOnReady := rgObject (gp s) ! unat w ! 4, flTimeMeter := 50, enemy_iColorShift := 8\<rparr>) s) (\<lambda>s.
           if y - 1 \<le> 0 then Inr s else summon_enemy w ks (y - 1) s))
       else summon_enemy w ks y s)"

definition op_9E :: instr_handler where
  "op_9E e i s =
     bindE (enemy_at (the_enemy i) s) (\<lambda>me.
     definedE ''rgEnemy'' (unat (wMaxEnemyIndex (g_Battle s)) < length (rgEnemy (g_Battle s)))
      (let y = (if sint (op1 i) \<le> 0 then 1 else sint (op1 i));
           w = (if op0 i = 0 \<or> op0 i = 0xFFFF then wObjectID me else op0 i);
           x = int (length (filter (\<lambda>k. wObjectID (rgEnemy (g_Battle s) ! k) = 0) (enemies s))) in
       bindE (if x < y then Inr False else able i s) (\<lambda>ok.
         if \<not> ok then if op2 i \<noteq> 0 then jump (op2 i) (Inr s) else go_on i (Inr s)
         else go_on i (
           bindE (summon_enemy w (enemies s) y s) (\<lambda>s.
           bindE (calls e [PAL_BattleDelay 2 0 True, PAL_BattleBackupScene, PAL_LoadBattleSprites, PAL_BattleMakeScene,
               SOUND_Play 212, PAL_BattleFadeScene] s) (\<lambda>s.
           bindE (each (\<lambda>k. on_enemy k (\<lambda>b. b\<lparr>enemy_iColorShift := 0\<rparr>)) (enemies s) s) (\<lambda>s.
             calls e [PAL_BattleBackupScene, PAL_BattleMakeScene, PAL_BattleFadeScene] s)))))))"

definition op_9F :: instr_handler where
  "op_9F e i s =
     go_on i (bindE (able i s) (\<lambda>ok. if ok then
         bindE (enemy_of (op0 i) (gp s)) (\<lambda>en.
         bindE (on_enemy (the_enemy i) (\<lambda>b. b\<lparr>wObjectID := op0 i, enemy_e := en[wHealth := health b], enemy_wCurrentFrame := 0\<rparr>) s) (\<lambda>s.
         bindE (each (\<lambda>n s. bindE (on_enemy (the_enemy i) (\<lambda>b. b\<lparr>enemy_iColorShift := n\<rparr>) s) (call e (PAL_BattleDelay 1 0 False)))
             [0, 1, 2, 3, 4, 5] s) (\<lambda>s.
         bindE (on_enemy (the_enemy i) (\<lambda>b. b\<lparr>enemy_iColorShift := 0\<rparr>) s)
           (calls e [PAL_BattleBackupScene, PAL_LoadBattleSprites, PAL_BattleMakeScene, PAL_BattleFadeScene]))))
       else Inr s))"

end
