(* ===== verification/PalOps3.thy ===== *)
theory PalOps3
  imports PalOps2
begin

text \<open>
  Instructions of \<open>PAL_InterpretInstruction\<close> for the party on the map, scenes, the screen and music; \<open>op_XX\<close> is the
  case \<open>0x00XX\<close>. A fade time in seconds is a whole number.
\<close>

section \<open>The party on the map\<close>

definition op_15 :: instr_handler where
  "op_15 e i s =
     go_on i (let s = on_gp (\<lambda>g. g\<lparr>wPartyDirection := op0 i\<rparr>) s in
       bindE (party_at (unat (op2 i)) (gp s)) (\<lambda>p.
         Inr (on_gp (set_party (unat (op2 i)) (p\<lparr>wFrame := op0 i * 3 + op1 i\<rparr>)) s)))"

text \<open>The position that three operands stand for.\<close>

definition target_x :: "INSTR \<Rightarrow> int" where "target_x i = uint (op0 i) * 32 + uint (op2 i) * 16"
definition target_y :: "INSTR \<Rightarrow> int" where "target_y i = uint (op1 i) * 16 + uint (op2 i) * 8"

definition ride :: "int \<Rightarrow> instr_handler" where
  "ride iSpeed e i s = go_on i (PAL_PartyRideEventObject (rounds e) e (obj i) (target_x i) (target_y i) iSpeed s)"

definition party_walk :: "int \<Rightarrow> instr_handler" where
  "party_walk iSpeed e i s = go_on i (PAL_PartyWalkTo (rounds e) e (target_x i) (target_y i) iSpeed s)"

text \<open>The members and their trail in a row behind the leader.\<close>

definition line_up :: "GLOBALVARS \<Rightarrow> GLOBALVARS Prelude.res" where
  "line_up g =
     definedE ''rgParty'' (length (rgParty g) = MAX_PLAYABLE_PLAYER_ROLES \<and> length (rgTrail g) = MAX_PLAYABLE_PLAYER_ROLES)
      (let d = wPartyDirection g;
           xOffset = (if d = kDirWest \<or> d = kDirSouth then 16 else - 16);
           yOffset = (if d = kDirWest \<or> d = kDirNorth then 8 else - 8);
           x = (\<lambda>k. wx (partyoffset g) + of_nat k * xOffset); y = (\<lambda>k. wy (partyoffset g) + of_nat k * yOffset) in
       Inr (g\<lparr>rgParty := map (\<lambda>k. (rgParty g ! k)\<lparr>party_x := x k, party_y := y k\<rparr>) [0..<MAX_PLAYABLE_PLAYER_ROLES],
              rgTrail := map (\<lambda>k. \<lparr>trail_x = x k + wx (viewport g), trail_y = y k + wy (viewport g), trail_dir = d\<rparr>)
                [0..<MAX_PLAYABLE_PLAYER_ROLES]\<rparr>))"

definition op_46 :: instr_handler where
  "op_46 e i s =
     go_on i (on_gpE (\<lambda>g. line_up (g\<lparr>viewport := pos_of (target_x i - PAL_X (partyoffset g)) (target_y i - PAL_Y (partyoffset g))\<rparr>)) s)"

definition op_6E :: instr_handler where
  "op_6E e i s =
     go_on i (bindE (on_gpE (\<lambda>g. store_trail (party_px g) (party_py g) g) s) (\<lambda>s.
       let s = on_gp (\<lambda>g. g\<lparr>viewport := pos_of (PAL_X (viewport g) + sint (op0 i)) (PAL_Y (viewport g) + sint (op1 i)),
                 wLayer := op2 i * 8\<rparr>) s in
       if op0 i \<noteq> 0 \<or> op1 i \<noteq> 0 then PAL_UpdatePartyGestures True s else Inr s))"

definition op_75 :: instr_handler where
  "op_75 e i s =
     (let ws = map (\<lambda>w. w - 1) (filter (\<lambda>w. w \<noteq> 0) [op0 i, op1 i, op2 i]); ws' = (if ws = [] then [0] else ws) in
      go_on i (bindE (each (\<lambda>(k, w) s. bindE (party_at k (gp s)) (\<lambda>p.
          Inr (on_gp (set_party k (p\<lparr>wPlayerRole := w\<rparr>)) s))) (zip [0..<length ws'] ws') s) (\<lambda>s.
        let s = s\<lparr>g_Battle := (g_Battle s)\<lparr>rgPlayer := map (\<lambda>k.
                  if k < length ws then (rgPlayer (g_Battle s) ! k)\<lparr>ActionType := 2\<rparr> else rgPlayer (g_Battle s) ! k)
                  [0..<length (rgPlayer (g_Battle s))]\<rparr>\<rparr>;
            s = on_gp (\<lambda>g. g\<lparr>wMaxPartyMemberIndex := of_nat (length ws') - 1\<rparr>) s in
        bindE (load_resources e (set_load_flags kLoadPlayerSprite s)) (\<lambda>s.
          PAL_UpdateEquipments e
           (on_gp (\<lambda>g. g\<lparr>rgPoisonStatus := replicate (MAX_POISONS * MAX_PLAYABLE_PLAYER_ROLES) no_poison\<rparr>) s)))))"

text \<open>Members \<open>0\<close> to \<open>wMaxPartyMemberIndex\<close> moved on the screen.\<close>

definition shift_members :: "u16 \<Rightarrow> u16 \<Rightarrow> GLOBALVARS \<Rightarrow> GLOBALVARS Prelude.res" where
  "shift_members x y g =
     definedE ''rgParty'' (unat (wMaxPartyMemberIndex g) < length (rgParty g))
      (Inr (g\<lparr>rgParty := map (\<lambda>k. let p = rgParty g ! k in
         if k \<le> unat (wMaxPartyMemberIndex g) then p\<lparr>party_x := party_x p + x, party_y := party_y p + y\<rparr> else p)
         [0..<length (rgParty g)]\<rparr>))"

definition viewport_back :: "GLOBALVARS \<Rightarrow> GLOBALVARS Prelude.res" where
  "viewport_back g =
     bindE (party_at 0 g) (\<lambda>p.
       let x = party_x p - 160; y = party_y p - 112 in
       shift_members (- x) (- y) (g\<lparr>viewport := PAL_XY (wx (viewport g) + x) (wy (viewport g) + y), partyoffset := PAL_XY 160 112\<rparr>))"

definition viewport_step :: "INSTR \<Rightarrow> GLOBALVARS \<Rightarrow> GLOBALVARS Prelude.res" where
  "viewport_step i g =
     (if op2 i = 0xFFFF then
        let v = PAL_XY (op0 i * 32 - 160) (op1 i * 16 - 112) in
        shift_members (wx (viewport g) - wx v) (wy (viewport g) - wy v) (g\<lparr>viewport := v\<rparr>)
      else shift_members (- op0 i) (- op1 i)
        (g\<lparr>viewport := PAL_XY (wx (viewport g) + op0 i) (wy (viewport g) + op1 i),
           partyoffset := PAL_XY (wx (partyoffset g) - op0 i) (wy (partyoffset g) - op1 i)\<rparr>))"

definition viewport_frame :: "ENV \<Rightarrow> INSTR \<Rightarrow> PAL \<Rightarrow> PAL Prelude.res" where
  "viewport_frame e i s =
     bindE (on_gpE (viewport_step i) s) (\<lambda>s.
     bindE (if op2 i \<noteq> 0xFFFF then update e False s else Inr s) (\<lambda>s.
     bindE (show_scene e s) (call e Wait_frame)))"

definition op_7F :: instr_handler where
  "op_7F e i s =
     go_on i (if op0 i = 0 \<and> op1 i = 0 then
         bindE (on_gpE viewport_back s) (\<lambda>s. if op2 i \<noteq> 0xFFFF then show_scene e s else Inr s)
       else each (\<lambda>_. viewport_frame e i) [0..<nat (max 1 (sint (op2 i)))] s)"

definition op_98 :: instr_handler where
  "op_98 e i s =
     go_on i (if op0 i > 0 then
         let k = unat (wMaxPartyMemberIndex (gp s)) + 1; s = on_gp (\<lambda>g. g\<lparr>nFollower := 1\<rparr>) s in
         bindE (party_at k (gp s)) (\<lambda>p.
         bindE (load_resources e (set_load_flags kLoadPlayerSprite (on_gp (set_party k (p\<lparr>wPlayerRole := op0 i\<rparr>)) s))) (\<lambda>s.
         let k = unat (wMaxPartyMemberIndex (gp s)) + 1; t = rgTrail (gp s) ! 3 in
         definedE ''rgTrail'' (3 < length (rgTrail (gp s)))
          (bindE (party_at k (gp s)) (\<lambda>p.
            Inr (on_gp (\<lambda>g. set_party k (p\<lparr>party_x := trail_x t - wx (viewport g), party_y := trail_y t - wy (viewport g),
              wFrame := trail_dir t * 3\<rparr>) g) s)))))
       else Inr (on_gp (\<lambda>g. g\<lparr>nFollower := 0\<rparr>) s))"

definition gather :: "GLOBALVARS \<Rightarrow> GLOBALVARS Prelude.res" where
  "gather g =
     bindE (party_at 0 g) (\<lambda>p.
     definedE ''rgParty'' (unat (wMaxPartyMemberIndex g) < length (rgParty g))
      (Inr (g\<lparr>rgTrail := replicate MAX_PLAYABLE_PLAYER_ROLES
             \<lparr>trail_x = party_x p + wx (viewport g), trail_y = party_y p + wy (viewport g), trail_dir = wPartyDirection g\<rparr>,
           rgParty := map (\<lambda>k. if 1 \<le> k \<and> k \<le> unat (wMaxPartyMemberIndex g)
             then (rgParty g ! k)\<lparr>party_x := party_x p, party_y := party_y p - 1\<rparr> else rgParty g ! k) [0..<length (rgParty g)]\<rparr>)))"

definition op_A1 :: instr_handler where
  "op_A1 e i s = go_on i (bindE (on_gpE gather s) (PAL_UpdatePartyGestures False))"

section \<open>Scenes\<close>

definition on_scene :: "int \<Rightarrow> (SCENE \<Rightarrow> SCENE) \<Rightarrow> GLOBALVARS \<Rightarrow> GLOBALVARS Prelude.res" where
  "on_scene k f g =
     definedE ''rgScene'' (0 \<le> k \<and> nat k < length (rgScene g)) (Inr (g\<lparr>rgScene := (rgScene g)[nat k := f (rgScene g ! nat k)]\<rparr>))"

definition op_38 :: instr_handler where
  "op_38 e i s =
     (if fInBattle (gp s) then jump (op0 i) (Inr (failed s))
      else let k = uint (wNumScene (gp s)) - 1 in
        definedE ''rgScene'' (0 \<le> k \<and> nat k < length (rgScene (gp s)))
         (let w = wScriptOnTeleport (rgScene (gp s) ! nat k) in
          if w \<noteq> 0 then
            go_on i (bindE (run e w 0xFFFF s) (\<lambda>(r, s).
              on_gpE (\<lambda>g. on_scene (uint (wNumScene g) - 1) (\<lambda>sc. sc\<lparr>wScriptOnTeleport := r\<rparr>) g) s))
          else jump (op0 i) (Inr (failed s))))"

definition op_59 :: instr_handler where
  "op_59 e i s =
     go_on i (Inr (if op0 i > 0 \<and> op0 i \<le> of_nat MAX_SCENES \<and> wNumScene (gp s) \<noteq> op0 i
       then set_load_flags kLoadScene (on_gp (\<lambda>g. g\<lparr>wNumScene := op0 i, fEnteringScene := True, wLayer := 0\<rparr>) s) else s))"

definition op_6D :: instr_handler where
  "op_6D e i s =
     go_on i (if op0 i \<noteq> 0 then on_gpE (on_scene (uint (op0 i) - 1) (\<lambda>sc.
         if op1 i = 0 \<and> op2 i = 0 then sc\<lparr>wScriptOnEnter := 0, wScriptOnTeleport := 0\<rparr>
         else sc\<lparr>wScriptOnEnter := (if op1 i \<noteq> 0 then op1 i else wScriptOnEnter sc),
                 wScriptOnTeleport := (if op2 i \<noteq> 0 then op2 i else wScriptOnTeleport sc)\<rparr>)) s
       else Inr s)"

definition op_99 :: instr_handler where
  "op_99 e i s =
     go_on i (if op0 i = 0xFFFF then
         bindE (on_gpE (\<lambda>g. on_scene (uint (wNumScene g) - 1) (\<lambda>sc. sc\<lparr>wMapNum := op1 i\<rparr>) g) s) (\<lambda>s.
           load_resources e (set_load_flags kLoadScene s))
       else on_gpE (on_scene (uint (op0 i) - 1) (\<lambda>sc. sc\<lparr>wMapNum := op1 i\<rparr>)) s)"

definition op_95 :: instr_handler where
  "op_95 e i s = (if wNumScene (gp s) = op0 i then jump (op1 i) (Inr s) else go_on i (Inr s))"

text \<open>Whether the event object is in the current scene.\<close>

definition in_scene :: "INSTR \<Rightarrow> PAL \<Rightarrow> bool Prelude.res" where
  "in_scene i s = bindE (scene_events (gp s)) (\<lambda>(a, b). Inr (a < unat (op0 i) \<and> unat (op0 i) \<le> b))"

definition op_81 :: instr_handler where
  "op_81 e i s =
     bindE (in_scene i s) (\<lambda>here. if \<not> here then jump (op2 i) (Inr (failed s)) else
     bindE (the_object (cur_index i) (gp s)) (\<lambda>cur.
       let d = wPartyDirection (gp s);
           x = uint (ox cur) + (if d = kDirWest \<or> d = kDirSouth then 16 else - 16) - party_px (gp s);
           y = uint (oy cur) + (if d = kDirWest \<or> d = kDirNorth then 8 else - 8) - party_py (gp s) in
       if \<bar>x\<bar> + \<bar>y * 2\<bar> < uint (op1 i) * 32 + 16 then
         go_on i (if op1 i > 0 then on_object (cur_index i) (\<lambda>ev. ev\<lparr>wTriggerMode := 5 + op1 i\<rparr>) s else Inr s)
       else jump (op2 i) (Inr (failed s))))"

definition op_83 :: instr_handler where
  "op_83 e i s =
     bindE (in_scene i s) (\<lambda>here. if \<not> here then jump (op2 i) (Inr (failed s)) else
     bindE (the_object (evt_index i) (gp s)) (\<lambda>ev.
     bindE (the_object (cur_index i) (gp s)) (\<lambda>cur.
       let x = uint (ox ev) - uint (ox cur); y = uint (oy ev) - uint (oy cur) in
       if \<bar>x\<bar> + \<bar>y * 2\<bar> \<ge> uint (op1 i) * 32 + 16 then jump (op2 i) (Inr (failed s)) else go_on i (Inr s))))"

definition op_84 :: instr_handler where
  "op_84 e i s =
     bindE (in_scene i s) (\<lambda>here. if \<not> here then jump (op2 i) (Inr (failed s)) else
     (let d = wPartyDirection (gp s);
          x = party_px (gp s) + (if d = kDirWest \<or> d = kDirSouth then - 16 else 16);
          y = party_py (gp s) + (if d = kDirWest \<or> d = kDirNorth then - 8 else 8) in
      bindE (PAL_CheckObstacle (pos_of x y) False 0 s) (\<lambda>obstacle.
        if obstacle then jump (op2 i) (Inr (failed s))
        else go_on i (on_object (cur_index i) (\<lambda>ev. ev\<lparr>ox := word_of_int x, oy := word_of_int y, sState := op1 i\<rparr>) s))))"

section \<open>Screen and music\<close>

definition op_35 :: instr_handler where
  "op_35 e i s =
     go_on i (bindE (call e (VIDEO_ShakeScreen (op0 i) (if op1 i = 0 then 4 else op1 i)) s) (\<lambda>s.
       if op0 i = 0 then call e VIDEO_UpdateScreen s else Inr s))"

definition op_36 :: instr_handler where "op_36 e i s = go_on i (Inr (on_gp (\<lambda>g. g\<lparr>iCurPlayingRNG := uint (op0 i)\<rparr>) s))"

definition op_37 :: instr_handler where
  "op_37 e i s =
     go_on i (call e (PAL_RNGPlay (iCurPlayingRNG (gp s)) (op0 i) (if op1 i > 0 then op1 i else 999) (if op2 i > 0 then op2 i else 16)) s)"

definition op_41 :: instr_handler where "op_41 e i s = go_on i (Inr (failed s))"

definition op_43 :: instr_handler where
  "op_43 e i s =
     go_on i (call e (PAL_PlayMUS (op0 i) (op0 i \<noteq> 0x3D) (uint (op1 i))) (on_gp (\<lambda>g. g\<lparr>wNumMusic := op0 i\<rparr>) s))"

definition op_45 :: instr_handler where "op_45 e i s = go_on i (Inr (on_gp (\<lambda>g. g\<lparr>wNumBattleMusic := op0 i\<rparr>) s))"
definition op_47 :: instr_handler where "op_47 e i s = go_on i (call e (SOUND_Play (op0 i)) s)"
definition op_4A :: instr_handler where "op_4A e i s = go_on i (Inr (on_gp (\<lambda>g. g\<lparr>wNumBattleField := op0 i\<rparr>) s))"
definition op_4D :: instr_handler where "op_4D e i s = go_on i (call e (PAL_WaitForKey 0) s)"

text \<open>The entry that is returned is 0.\<close>

definition op_4E :: instr_handler where
  "op_4E e i s =
     jump 0 (bindE (call e (PAL_FadeOut 1) s) (\<lambda>s. PAL_InitGameData e (uint (bCurrentSaveSlot (gp s))) s))"

definition op_4F :: instr_handler where "op_4F e i s = go_on i (call e PAL_FadeToRed s)"

definition op_50 :: instr_handler where
  "op_50 e i s =
     go_on i (bindE (call e VIDEO_UpdateScreen s) (\<lambda>s.
       bindE (call e (PAL_FadeOut (if op0 i \<noteq> 0 then op0 i else 1)) s) (\<lambda>s. Inr (on_gp (\<lambda>g. g\<lparr>fNeedToFadeIn := True\<rparr>) s))))"

definition op_51 :: instr_handler where
  "op_51 e i s =
     go_on i (bindE (call e VIDEO_UpdateScreen s) (\<lambda>s.
       bindE (call e (PAL_FadeIn (wNumPalette (gp s)) (fNightPalette (gp s)) (if sint (op0 i) > 0 then op0 i else 1)) s) (\<lambda>s.
         Inr (on_gp (\<lambda>g. g\<lparr>fNeedToFadeIn := False\<rparr>) s))))"

definition op_53 :: instr_handler where "op_53 e i s = go_on i (Inr (on_gp (\<lambda>g. g\<lparr>fNightPalette := False\<rparr>) s))"
definition op_54 :: instr_handler where "op_54 e i s = go_on i (Inr (on_gp (\<lambda>g. g\<lparr>fNightPalette := True\<rparr>) s))"

definition op_62 :: instr_handler where
  "op_62 e i s = go_on i (Inr (on_gp (\<lambda>g. g\<lparr>wChasespeedChangeCycles := op0 i, wChaseRange := 0\<rparr>) s))"

definition op_63 :: instr_handler where
  "op_63 e i s = go_on i (Inr (on_gp (\<lambda>g. g\<lparr>wChasespeedChangeCycles := op0 i, wChaseRange := 3\<rparr>) s))"

definition op_65 :: instr_handler where
  "op_65 e i s =
     go_on i (bindE (on_gpE (\<lambda>g. role_of (op0 i) (\<lambda>r. Inr (set_role rgwSpriteNum r (op1 i) g))) s) (\<lambda>s.
       if \<not> fInBattle (gp s) \<and> op2 i \<noteq> 0 then load_resources e (set_load_flags kLoadPlayerSprite s) else Inr s))"

definition op_71 :: instr_handler where
  "op_71 e i s = go_on i (Inr (on_gp (\<lambda>g. g\<lparr>wScreenWave := op0 i, sWaveProgression := op1 i\<rparr>) s))"

definition fade_scene :: "u16 \<Rightarrow> ENV \<Rightarrow> PAL \<Rightarrow> PAL Prelude.res" where
  "fade_scene speed e s =
     bindE (call e VIDEO_BackupScreen s) (\<lambda>s. bindE (PAL_MakeScene e s) (call e (VIDEO_FadeScreen speed)))"

definition op_73 :: instr_handler where "op_73 e i s = go_on i (fade_scene (op0 i) e s)"

definition op_76 :: instr_handler where
  "op_76 e i s = go_on i (bindE (call e (PAL_EndingSetEffectSprite 0) s) (call e (PAL_ShowFBP (op0 i) (op1 i))))"

definition op_77 :: instr_handler where
  "op_77 e i s =
     go_on i (bindE (call e (PAL_PlayMUS 0 False (if op0 i = 0 then 2 else uint (op0 i) * 2)) s) (\<lambda>s.
       Inr (on_gp (\<lambda>g. g\<lparr>wNumMusic := 0\<rparr>) s)))"

definition op_78 :: instr_handler where "op_78 e i s = go_on i (Inr s)"

definition op_80 :: instr_handler where
  "op_80 e i s =
     (let s = on_gp (\<lambda>g. g\<lparr>fNightPalette := \<not> fNightPalette g\<rparr>) s in
      go_on i (call e (PAL_PaletteFade (wNumPalette (gp s)) (fNightPalette (gp s)) (op0 i = 0)) s))"

definition op_85 :: instr_handler where "op_85 e i s = go_on i (call e (UTIL_Delay (uint (op0 i) * 80)) s)"
definition op_8A :: instr_handler where "op_8A e i s = go_on i (Inr (on_gp (\<lambda>g. g\<lparr>fAutoBattle := True\<rparr>) s))"

definition op_8B :: instr_handler where
  "op_8B e i s =
     (let s = on_gp (\<lambda>g. g\<lparr>wNumPalette := op0 i\<rparr>) s in
      go_on i (if \<not> fNeedToFadeIn (gp s) then call e (PAL_SetPalette (op0 i) False) s else Inr s))"

definition op_8C :: instr_handler where
  "op_8C e i s =
     go_on i (bindE (call e (PAL_ColorFade (op1 i) (ucast (op0 i)) (op2 i \<noteq> 0)) s) (\<lambda>s.
       Inr (on_gp (\<lambda>g. g\<lparr>fNeedToFadeIn := False\<rparr>) s)))"

definition op_93 :: instr_handler where
  "op_93 e i s =
     go_on i (bindE (call e (PAL_SceneFade (wNumPalette (gp s)) (fNightPalette (gp s)) (sint (op0 i))) s) (\<lambda>s.
       Inr (on_gp (\<lambda>g. g\<lparr>fNeedToFadeIn := sint (op0 i) < 0\<rparr>) s)))"

definition op_96 :: instr_handler where "op_96 e i s = go_on i (call e PAL_EndingAnimation s)"
definition op_9B :: instr_handler where "op_9B e i s = go_on i (fade_scene 2 e s)"

text \<open>\<open>exit(0)\<close>: nothing follows.\<close>

definition op_A0 :: instr_handler where
  "op_A0 e i s = go_on i (bindE (calls e [PAL_AdditionalCredits, PAL_Shutdown] s) (\<lambda>s. Inl (Blocked ''exit'')))"

definition op_A2 :: instr_handler where
  "op_A2 e i s =
     bindE (RandomLong (ticks e) 0 (uint (op0 i) - 1) (gp s)) (\<lambda>(k, g). Inr (entry i + word_of_int k, s\<lparr>gp := g\<rparr>))"

definition op_A3 :: instr_handler where
  "op_A3 e i s =
     go_on i (bindE (act e (SOUND_PlayCDA (op0 i)) s) (\<lambda>(ok, s). if ok = 0 then call e (PAL_PlayMUS (op1 i) True 0) s else Inr s))"

definition op_A4 :: instr_handler where
  "op_A4 e i s =
     go_on i (if op0 i = 68 then bindE (call e (PAL_ShowFBP 69 0) s) (call e (PAL_ScrollFBP (op0 i) (op2 i) True))
              else call e (PAL_ScrollFBP (op0 i) (op2 i) (op1 i \<noteq> 0)) s)"

definition op_A5 :: instr_handler where
  "op_A5 e i s =
     go_on i (bindE (if op1 i \<noteq> 0xFFFF then call e (PAL_EndingSetEffectSprite (op1 i)) s else Inr s)
       (call e (PAL_ShowFBP (op0 i) (op2 i))))"

definition op_A6 :: instr_handler where "op_A6 e i s = go_on i (call e VIDEO_BackupScreen s)"

end
