(* ===== verification/PalScript.thy ===== *)
theory PalScript
  imports PalOps3
begin

text \<open>
  The script interpreter, \<open>game/script.c\<close>, and what runs it in every frame, \<open>game/play.c\<close>. The switch of
  \<open>PAL_InterpretInstruction\<close> is a table. \<open>PAL_RunTriggerScript\<close> and \<open>PAL_GameUpdate\<close> call each other: \<open>engine n\<close>
  is the environment in which calls may be nested \<open>n\<close> deep and a script may run \<open>n\<close> instructions.
\<close>

section \<open>Instructions\<close>

definition instr_table :: "(u16 \<times> instr_handler) list" where
  "instr_table =
    [(0x0B, op_0B 0x0B), (0x0C, op_0B 0x0C), (0x0D, op_0B 0x0D), (0x0E, op_0B 0x0E), (0x0F, op_0F), (0x10, walk_on 3),
     (0x11, walk_on_slowly 2), (0x12, op_12), (0x13, op_13), (0x14, op_14), (0x15, op_15), (0x16, op_16), (0x17, op_17),
     (0x18, op_18), (0x19, op_19), (0x1A, op_1A), (0x1B, op_1B), (0x1C, op_1C), (0x1D, op_1D), (0x1E, op_1E), (0x1F, op_1F),
     (0x20, op_20), (0x21, op_21), (0x22, op_22), (0x23, op_23), (0x24, op_24), (0x25, op_25), (0x26, op_26), (0x27, op_27),
     (0x28, op_28), (0x29, op_29), (0x2A, op_2A), (0x2B, op_2B), (0x2C, op_2C), (0x2D, op_2D), (0x2E, op_2E), (0x2F, op_2F),
     (0x30, op_30), (0x31, op_31), (0x33, op_33), (0x34, op_34), (0x35, op_35), (0x36, op_36), (0x37, op_37), (0x38, op_38),
     (0x39, op_39), (0x3A, op_3A), (0x3F, ride 2), (0x40, op_40), (0x41, op_41), (0x42, op_42), (0x43, op_43), (0x44, ride 4),
     (0x45, op_45), (0x46, op_46), (0x47, op_47), (0x49, op_49), (0x4A, op_4A), (0x4B, op_4B), (0x4C, op_4C), (0x4D, op_4D),
     (0x4E, op_4E), (0x4F, op_4F), (0x50, op_50), (0x51, op_51), (0x52, op_52), (0x53, op_53), (0x54, op_54), (0x55, op_55),
     (0x56, op_56), (0x57, op_57), (0x58, op_58), (0x59, op_59), (0x5A, op_5A), (0x5B, op_5B), (0x5C, op_5C), (0x5D, op_5D),
     (0x5E, op_5E), (0x5F, op_5F), (0x60, op_60), (0x61, op_61), (0x62, op_62), (0x63, op_63), (0x64, op_64), (0x65, op_65),
     (0x66, op_66), (0x67, op_67), (0x68, op_68), (0x69, op_69), (0x6A, op_6A), (0x6B, op_6B), (0x6C, op_6C), (0x6D, op_6D),
     (0x6E, op_6E), (0x6F, op_6F), (0x70, party_walk 2), (0x71, op_71), (0x73, op_73), (0x74, op_74), (0x75, op_75), (0x76, op_76),
     (0x77, op_77), (0x78, op_78), (0x79, op_79), (0x7A, party_walk 4), (0x7B, party_walk 8), (0x7C, walk_on_slowly 4),
     (0x7D, op_7D), (0x7E, op_7E), (0x7F, op_7F), (0x80, op_80), (0x81, op_81), (0x82, walk_on 8), (0x83, op_83), (0x84, op_84),
     (0x85, op_85), (0x86, op_86), (0x87, op_87), (0x88, op_88), (0x89, op_89), (0x8A, op_8A), (0x8B, op_8B), (0x8C, op_8C),
     (0x8D, op_8D), (0x8F, op_8F), (0x90, op_90), (0x91, op_91), (0x92, op_92), (0x93, op_93), (0x94, op_94), (0x95, op_95),
     (0x96, op_96), (0x97, ride 8), (0x98, op_98), (0x99, op_99), (0x9A, op_9A), (0x9B, op_9B), (0x9C, op_9C), (0x9E, op_9E),
     (0x9F, op_9F), (0xA0, op_A0), (0xA1, op_A1), (0xA2, op_A2), (0xA3, op_A3), (0xA4, op_A4), (0xA5, op_A5), (0xA6, op_A6)]"

definition script_at :: "u16 \<Rightarrow> PAL \<Rightarrow> SCRIPTENTRY Prelude.res" where
  "script_at w s =
     definedE ''lprgScriptEntry'' (unat w < length (lprgScriptEntry (gp s))) (Inr (lprgScriptEntry (gp s) ! unat w))"

definition script_operand :: "SCRIPTENTRY \<Rightarrow> nat \<Rightarrow> u16" where "script_operand p k = rgwOperand p ! k"

definition instruction :: "u16 \<Rightarrow> SCRIPTENTRY \<Rightarrow> u16 \<Rightarrow> INSTR" where
  "instruction wScriptEntry p wEventObjectID =
     \<lparr>entry = wScriptEntry, op0 = script_operand p 0, op1 = script_operand p 1, op2 = script_operand p 2, obj = wEventObjectID\<rparr>"

definition PAL_InterpretInstruction :: "ENV \<Rightarrow> u16 \<Rightarrow> u16 \<Rightarrow> PAL \<Rightarrow> (u16 \<times> PAL) Prelude.res" where
  "PAL_InterpretInstruction e wScriptEntry wEventObjectID s =
     bindE (script_at wScriptEntry s) (\<lambda>p.
       case map_of instr_table (wOperation p) of
         None \<Rightarrow> Inl (Assert_failed ''TerminateOnError'')
       | Some h \<Rightarrow> bindE (h e (instruction wScriptEntry p wEventObjectID) s) (\<lambda>(w, s). Inr (w + 1, s)))"

section \<open>Trigger scripts\<close>

text \<open>The state of the loop: the entry to run, \<open>wNextScriptEntry\<close> and \<open>fEnded\<close>.\<close>

record LOOP =
  at :: u16
  nxt :: u16
  ended :: bool

definition idle_frames :: "u16 \<Rightarrow> SCRIPTENTRY \<Rightarrow> PAL \<Rightarrow> (bool \<times> PAL) Prelude.res" where
  "idle_frames wEventObjectID p s =
     (let ob = (if wEventObjectID \<noteq> 0 then Some (uint wEventObjectID - 1) else None) in
      if script_operand p 1 = 0 then Inr (True, s)
      else bindE (the_object ob (gp s)) (\<lambda>ev.
        let again = nScriptIdleFrame ev + 1 < script_operand p 1 in
        bindE (on_object ob (\<lambda>ev. ev\<lparr>nScriptIdleFrame := (if again then nScriptIdleFrame ev + 1 else 0)\<rparr>) s) (\<lambda>s.
          Inr (again, s))))"

definition redraw :: "ENV \<Rightarrow> SCRIPTENTRY \<Rightarrow> PAL \<Rightarrow> PAL Prelude.res" where
  "redraw e p s =
     bindE (call e (PAL_ClearDialog True) s) (\<lambda>s.
     bindE (act e PAL_DialogIsPlayingRNG s) (\<lambda>(playing, s).
       if playing \<noteq> 0 then call e VIDEO_RestoreScreen s
       else if fInBattle (gp s) then calls e [PAL_BattleMakeScene, Blit_BattleScene, VIDEO_UpdateScreen] s
       else bindE (if script_operand p 2 \<noteq> 0 then PAL_UpdatePartyGestures False s else Inr s) (\<lambda>s.
         bindE (show_scene e s) (call e (UTIL_Delay (if script_operand p 1 = 0 then 60 else uint (script_operand p 1) * 60))))))"

definition wait_frame :: "ENV \<Rightarrow> SCRIPTENTRY \<Rightarrow> PAL \<Rightarrow> PAL Prelude.res" where
  "wait_frame e p s =
     bindE (call e Wait_frame s) (\<lambda>s.
     bindE (if script_operand p 2 \<noteq> 0 then PAL_UpdatePartyGestures False s else Inr s) (\<lambda>s.
     bindE (update e (script_operand p 1 \<noteq> 0) s) (show_scene e)))"

definition start_dialog :: "ENV \<Rightarrow> nat \<Rightarrow> u16 \<Rightarrow> u16 \<Rightarrow> bool \<Rightarrow> PAL \<Rightarrow> PAL Prelude.res" where
  "start_dialog e place color face rng = calls e [PAL_ClearDialog True, PAL_StartDialog place (ucast color) face rng]"

definition battle_step :: "ENV \<Rightarrow> SCRIPTENTRY \<Rightarrow> LOOP \<Rightarrow> PAL \<Rightarrow> (LOOP \<times> PAL) Prelude.res" where
  "battle_step e p l s =
     bindE (act e (PAL_StartBattle (script_operand p 0) (script_operand p 2 = 0)) s) (\<lambda>(r, s).
       let w = (if r = 1 \<and> script_operand p 1 \<noteq> 0 then script_operand p 1
                else if r = 0xFFFF \<and> script_operand p 2 \<noteq> 0 then script_operand p 2 else at l + 1) in
       Inr (l\<lparr>at := w\<rparr>, on_gp (\<lambda>g. g\<lparr>fAutoBattle := False\<rparr>) s))"

definition then_next :: "LOOP \<Rightarrow> PAL Prelude.res \<Rightarrow> (LOOP \<times> PAL) Prelude.res" where
  "then_next l m = bindE m (\<lambda>s. Inr (l\<lparr>at := at l + 1\<rparr>, s))"

text \<open>One round of the loop.\<close>

definition script_step :: "ENV \<Rightarrow> u16 \<Rightarrow> LOOP \<Rightarrow> PAL \<Rightarrow> (LOOP \<times> PAL) Prelude.res" where
  "script_step e ob l s =
     bindE (script_at (at l) s) (\<lambda>p. let a = script_operand p 0; b = script_operand p 1; c = script_operand p 2; f = wOperation p in
       if f = 0x0000 then Inr (l\<lparr>ended := True\<rparr>, s)
       else if f = 0x0001 then Inr (l\<lparr>ended := True, nxt := at l + 1\<rparr>, s)
       else if f = 0x0002 then bindE (idle_frames ob p s) (\<lambda>(again, s).
         Inr (if again then l\<lparr>ended := True, nxt := a\<rparr> else l\<lparr>at := at l + 1\<rparr>, s))
       else if f = 0x0003 then bindE (idle_frames ob p s) (\<lambda>(again, s).
         Inr (l\<lparr>at := (if again then a else at l + 1)\<rparr>, s))
       else if f = 0x0004 then then_next l (bindE (run e a (if b = 0 then ob else b) s) (\<lambda>(_, s). Inr s))
       else if f = 0x0005 then then_next l (redraw e p s)
       else if f = 0x0006 then bindE (RandomLong (ticks e) 1 100 (gp s)) (\<lambda>(k, g).
         Inr (l\<lparr>at := (if k \<ge> uint a then b else at l + 1)\<rparr>, s\<lparr>gp := g\<rparr>))
       else if f = 0x0007 then battle_step e p l s
       else if f = 0x0008 then Inr (l\<lparr>at := at l + 1, nxt := at l + 1\<rparr>, s)
       else if f = 0x0009 then then_next l (bindE (call e (PAL_ClearDialog True) s)
         (each (\<lambda>_. wait_frame e p) [0..<(if a \<noteq> 0 then unat a else 1)]))
       else if f = 0x000A then bindE (call e (PAL_ClearDialog False) s) (\<lambda>s. bindE (act e PAL_ConfirmMenu s) (\<lambda>(yes, s).
         Inr (l\<lparr>at := (if yes = 0 then a else at l + 1)\<rparr>, s)))
       else if f = 0x003B then then_next l (start_dialog e 1 a 0 (c \<noteq> 0) s)
       else if f = 0x003C then then_next l (start_dialog e 0 b a (c \<noteq> 0) s)
       else if f = 0x003D then then_next l (start_dialog e 2 b a (c \<noteq> 0) s)
       else if f = 0x003E then then_next l (start_dialog e 3 a 0 False s)
       else if f = 0x008E then then_next l (calls e [PAL_ClearDialog True, VIDEO_RestoreScreen, VIDEO_UpdateScreen] s)
       else if f = 0xFFFF then then_next l (call e (PAL_ShowDialogText [a]) s)
       else bindE (call e (PAL_ClearDialog True) s) (\<lambda>s.
         bindE (PAL_InterpretInstruction e (at l) ob s) (\<lambda>(w, s). Inr (l\<lparr>at := w\<rparr>, s))))"

fun script_loop :: "nat \<Rightarrow> ENV \<Rightarrow> u16 \<Rightarrow> LOOP \<Rightarrow> PAL \<Rightarrow> (u16 \<times> PAL) Prelude.res" where
  "script_loop n e ob l s =
     (if at l \<noteq> 0 \<and> \<not> ended l then
        (case n of
           0 \<Rightarrow> Inl Out_of_fuel
         | Suc n \<Rightarrow> bindE (script_step e ob l s) (\<lambda>(l, s). script_loop n e ob l s))
      else Inr (nxt l, s))"

declare script_loop.simps [simp del]

definition PAL_RunTriggerScript :: "nat \<Rightarrow> ENV \<Rightarrow> u16 \<Rightarrow> u16 \<Rightarrow> PAL \<Rightarrow> (u16 \<times> PAL) Prelude.res" where
  "PAL_RunTriggerScript n e wScriptEntry wEventObjectID s =
     (let ob = (if wEventObjectID = 0xFFFF then wLastEventObject s else wEventObjectID);
          s = s\<lparr>wLastEventObject := ob, g_fScriptSuccess := True\<rparr> in
      bindE (call e (PAL_DialogSetDelayTime 3) s) (\<lambda>s.
      bindE (script_loop n e ob \<lparr>at = wScriptEntry, nxt = wScriptEntry, ended = False\<rparr> s) (\<lambda>(w, s).
      bindE (call e PAL_EndDialog s) (\<lambda>s. Inr (w, s\<lparr>g_iCurEquipPart := - 1\<rparr>)))))"

section \<open>Auto scripts\<close>

definition auto_frames :: "int option \<Rightarrow> SCRIPTENTRY \<Rightarrow> PAL \<Rightarrow> (bool \<times> PAL) Prelude.res" where
  "auto_frames ob p s =
     (if script_operand p 1 = 0 then Inr (True, s)
      else bindE (the_object ob (gp s)) (\<lambda>ev.
        let again = wScriptIdleFrameCountAuto ev + 1 < script_operand p 1 in
        bindE (on_object ob (\<lambda>ev. ev\<lparr>wScriptIdleFrameCountAuto := (if again then wScriptIdleFrameCountAuto ev + 1 else 0)\<rparr>) s)
          (\<lambda>s. Inr (again, s))))"

text \<open>\<open>goto begin\<close> is the recursive call.\<close>

fun PAL_RunAutoScript :: "nat \<Rightarrow> ENV \<Rightarrow> u16 \<Rightarrow> u16 \<Rightarrow> PAL \<Rightarrow> (u16 \<times> PAL) Prelude.res" where
  "PAL_RunAutoScript 0 e w ob s = Inl Out_of_fuel"
| "PAL_RunAutoScript (Suc n) e w ob s =
     bindE (script_at w s) (\<lambda>p. let a = script_operand p 0; b = script_operand p 1; f = wOperation p; o' = Some (uint ob - 1) in
       if f = 0x0000 then Inr (w, s)
       else if f = 0x0001 then Inr (w + 1, s)
       else if f = 0x0002 then bindE (auto_frames o' p s) (\<lambda>(again, s). Inr (if again then a else w + 1, s))
       else if f = 0x0003 then bindE (auto_frames o' p s) (\<lambda>(again, s).
         if again then PAL_RunAutoScript n e a ob s else Inr (w + 1, s))
       else if f = 0x0004 then bindE (run e a (if b \<noteq> 0 then b else ob) s) (\<lambda>(_, s). Inr (w + 1, s))
       else if f = 0x0006 then bindE (RandomLong (ticks e) 1 100 (gp s)) (\<lambda>(k, g).
         if k \<ge> uint a \<and> b \<noteq> 0 then PAL_RunAutoScript n e b ob (s\<lparr>gp := g\<rparr>) else Inr (w + 1, s\<lparr>gp := g\<rparr>))
       else if f = 0x0009 then bindE (the_object o' (gp s)) (\<lambda>ev.
         let over = wScriptIdleFrameCountAuto ev + 1 \<ge> a in
         bindE (on_object o' (\<lambda>ev. ev\<lparr>wScriptIdleFrameCountAuto := (if over then 0 else wScriptIdleFrameCountAuto ev + 1)\<rparr>) s)
           (\<lambda>s. Inr (if over then w + 1 else w, s)))
       else if f = 0xFFFF then Inr (w + 1, s)
       else PAL_InterpretInstruction e w ob s)"

section \<open>Every frame\<close>

text \<open>\<open>PAL_GameUpdate\<close>. A loop stops early (\<open>return\<close>) when the scene changes: the result is then true.\<close>

definition new_scene :: "GLOBALVARS \<Rightarrow> bool" where
  "new_scene g = (fEnteringScene g \<or> fGameStart g)"

definition enter_scene :: "ENV \<Rightarrow> PAL \<Rightarrow> (bool \<times> PAL) Prelude.res" where
  "enter_scene e s =
     (if fEnteringScene (gp s) then
        let s = on_gp (\<lambda>g. g\<lparr>fEnteringScene := False\<rparr>) s; k = uint (wNumScene (gp s)) - 1 in
        definedE ''rgScene'' (0 \<le> k \<and> nat k < length (rgScene (gp s)))
         (bindE (run e (wScriptOnEnter (rgScene (gp s) ! nat k)) 0xFFFF s) (\<lambda>(r, s).
          bindE (on_gpE (on_scene k (\<lambda>sc. sc\<lparr>wScriptOnEnter := r\<rparr>)) s) (\<lambda>s.
            if new_scene (gp s) then Inr (True, s)
            else bindE (call e PAL_ClearKeyState s) (\<lambda>s. bindE (PAL_MakeScene e s) (\<lambda>s. Inr (False, s))))))
      else Inr (False, s))"

definition vanish :: "EVENTOBJECT \<Rightarrow> EVENTOBJECT" where
  "vanish p = (if sVanishTime p \<noteq> 0 then p\<lparr>sVanishTime := sVanishTime p + (if sint (sVanishTime p) < 0 then 1 else - 1)\<rparr> else p)"

definition vanish_all :: "GLOBALVARS \<Rightarrow> GLOBALVARS" where
  "vanish_all g = g\<lparr>lprgEventObject := map vanish (lprgEventObject g)\<rparr>"

text \<open>Event object \<open>wEventObjectID\<close>, with its index \<open>k\<close>, may come back or be touched by the party.\<close>

definition touch :: "ENV \<Rightarrow> nat \<Rightarrow> PAL \<Rightarrow> (bool \<times> PAL) Prelude.res" where
  "touch e k s =
     bindE (event_at k (gp s)) (\<lambda>p. let g = gp s; x = party_px g - uint (ox p); y = party_py g - uint (oy p) in
       if sVanishTime p \<noteq> 0 then Inr (False, s)
       else if sint (sState p) < 0 then
         Inr (False, if uint (ox p) < PAL_X (viewport g) \<or> uint (ox p) > PAL_X (viewport g) + 320 \<or>
                        uint (oy p) < PAL_Y (viewport g) \<or> uint (oy p) > PAL_Y (viewport g) + 320
                     then on_gp (set_event k (p\<lparr>sState := word_of_int \<bar>sint (sState p)\<bar>, wCurrentFrameNum := 0\<rparr>)) s else s)
       else if sint (sState p) > 0 \<and> wTriggerMode p \<ge> 4 \<and> \<bar>x\<bar> + \<bar>y\<bar> * 2 < (uint (wTriggerMode p) - 4) * 32 + 16 then
         bindE (if nSpriteFrames p \<noteq> 0 then
             let d = (if x > 0 then if y > 0 then kDirEast else kDirNorth else if y > 0 then kDirSouth else kDirWest) in
             bindE (PAL_UpdatePartyGestures False (on_gp (set_event k (p\<lparr>wCurrentFrameNum := 0, wDirection := d\<rparr>)) s)) (show_scene e)
           else Inr s) (\<lambda>s.
         bindE (event_at k (gp s)) (\<lambda>p.
         bindE (run e (wTriggerScript p) (of_nat k + 1) s) (\<lambda>(r, s).
         bindE (on_object (Some (int k)) (\<lambda>p. p\<lparr>wTriggerScript := r\<rparr>) s) (\<lambda>s.
         bindE (call e PAL_ClearKeyState s) (\<lambda>s. Inr (new_scene (gp s), s))))))
       else Inr (False, s))"

text \<open>The party is pushed off an object that blocks it, to the first of four sides that is free.\<close>

fun push_off :: "nat \<Rightarrow> u16 \<Rightarrow> PAL \<Rightarrow> PAL Prelude.res" where
  "push_off 0 wDir s = Inr s"
| "push_off (Suc n) wDir s =
     (let pos = pos_of (party_px (gp s) + (if wDir = kDirWest \<or> wDir = kDirSouth then - 16 else 16))
                       (party_py (gp s) + (if wDir = kDirWest \<or> wDir = kDirNorth then - 8 else 8)) in
      bindE (PAL_CheckObstacle pos True 0 s) (\<lambda>obstacle.
        if obstacle then push_off n ((wDir + 1) mod 4) s
        else Inr (on_gp (\<lambda>g. g\<lparr>viewport := pos_of (PAL_X pos - PAL_X (partyoffset g)) (PAL_Y pos - PAL_Y (partyoffset g))\<rparr>) s)))"

definition auto :: "nat \<Rightarrow> ENV \<Rightarrow> bool \<Rightarrow> nat \<Rightarrow> PAL \<Rightarrow> (bool \<times> PAL) Prelude.res" where
  "auto n e fTrigger k s =
     bindE (event_at k (gp s)) (\<lambda>p.
     bindE (if sint (sState p) > 0 \<and> sVanishTime p = 0 \<and> wAutoScript p \<noteq> 0 then
         bindE (PAL_RunAutoScript n e (wAutoScript p) (of_nat k + 1) s) (\<lambda>(r, s).
         bindE (on_object (Some (int k)) (\<lambda>p. p\<lparr>wAutoScript := r\<rparr>) s) (\<lambda>s. Inr (new_scene (gp s), s)))
       else Inr (False, s)) (\<lambda>(stop, s).
       if stop then Inr (True, s)
       else bindE (event_at k (gp s)) (\<lambda>p.
         if fTrigger \<and> sint (sState p) \<ge> kObjStateBlocker \<and> wSpriteNum p \<noteq> 0 \<and>
            \<bar>uint (ox p) - party_px (gp s)\<bar> + \<bar>uint (oy p) - party_py (gp s)\<bar> * 2 \<le> 12
         then bindE (push_off 4 ((wDirection p + 1) mod 4) s) (\<lambda>s. Inr (False, s))
         else Inr (False, s))))"

text \<open>A loop over the event objects of the scene; its end is looked up in every round.\<close>

fun scene_loop :: "(nat \<Rightarrow> PAL \<Rightarrow> (bool \<times> PAL) Prelude.res) \<Rightarrow> nat \<Rightarrow> nat \<Rightarrow> PAL \<Rightarrow> (bool \<times> PAL) Prelude.res" where
  "scene_loop f 0 k s = Inl Out_of_fuel"
| "scene_loop f (Suc n) k s =
     bindE (scene_events (gp s)) (\<lambda>(_, b).
       if k < b then bindE (f k s) (\<lambda>(stop, s). if stop then Inr (True, s) else scene_loop f n (k + 1) s)
       else Inr (False, s))"

definition scene_objects :: "(nat \<Rightarrow> PAL \<Rightarrow> (bool \<times> PAL) Prelude.res) \<Rightarrow> PAL \<Rightarrow> (bool \<times> PAL) Prelude.res" where
  "scene_objects f s = bindE (scene_events (gp s)) (\<lambda>(a, _). scene_loop f 65537 a s)"

definition unless :: "bool \<times> PAL \<Rightarrow> (PAL \<Rightarrow> PAL Prelude.res) \<Rightarrow> PAL Prelude.res" where
  "unless r f = (if fst r then Inr (snd r) else f (snd r))"

definition PAL_GameUpdate :: "nat \<Rightarrow> ENV \<Rightarrow> bool \<Rightarrow> PAL \<Rightarrow> PAL Prelude.res" where
  "PAL_GameUpdate n e fTrigger s =
     bindE (if fTrigger then enter_scene e s else Inr (False, s)) (\<lambda>r. unless r (\<lambda>s.
     bindE (if fTrigger then scene_objects (touch e) (on_gp vanish_all s) else Inr (False, s)) (\<lambda>r. unless r (\<lambda>s.
     bindE (scene_objects (auto n e fTrigger) s) (\<lambda>r. unless r (\<lambda>s.
       Inr (on_gp (\<lambda>g. g\<lparr>dwFrameNum := dwFrameNum g + 1\<rparr>) s)))))))"

fun engine :: "ENV \<Rightarrow> nat \<Rightarrow> ENV" where
  "engine e 0 = e\<lparr>run := (\<lambda>_ _ _. Inl Out_of_fuel), update := (\<lambda>_ _. Inl Out_of_fuel)\<rparr>"
| "engine e (Suc n) =
     e\<lparr>run := PAL_RunTriggerScript n (engine e n), update := PAL_GameUpdate n (engine e n)\<rparr>"

end
