(* ===== verification/PalPlay.thy ===== *)
theory PalPlay
  imports PalScript
begin

text \<open>
  The rest of \<open>game/play.c\<close> and \<open>game/game.c\<close>: using items, searching, one frame and the main loop. What the player
  chooses in a menu is the result of the call. Keys are bits of \<open>dwKeyPress\<close>.
\<close>

section \<open>Items\<close>

definition kItemFlagUsable :: u16 where [simp]: "kItemFlagUsable = 1"
definition kItemFlagEquipable :: u16 where [simp]: "kItemFlagEquipable = 2"
definition kItemFlagConsuming :: u16 where [simp]: "kItemFlagConsuming = 8"
definition kItemFlagApplyToAll :: u16 where [simp]: "kItemFlagApplyToAll = 16"

definition item_wFlags :: "OBJECT \<Rightarrow> u16" where "item_wFlags ob = ob ! 5"
definition item_wScriptOnUse :: "OBJECT \<Rightarrow> u16" where "item_wScriptOnUse ob = ob ! 2"

definition object_at :: "u16 \<Rightarrow> PAL \<Rightarrow> OBJECT Prelude.res" where
  "object_at w s = definedE ''rgObject'' (unat w < length (rgObject (gp s))) (Inr (rgObject (gp s) ! unat w))"

text \<open>Running the script of an item, and using it up.\<close>

definition use_item :: "ENV \<Rightarrow> u16 \<Rightarrow> u16 \<Rightarrow> PAL \<Rightarrow> PAL Prelude.res" where
  "use_item e w wPlayer s =
     bindE (object_at w s) (\<lambda>ob.
     bindE (run e (item_wScriptOnUse ob) wPlayer s) (\<lambda>(r, s).
     bindE (object_at w s) (\<lambda>ob.
       let s = on_gp (\<lambda>g. g\<lparr>rgObject := (rgObject g)[unat w := ob[2 := r]]\<rparr>) s in
       Inr (if item_wFlags ob AND kItemFlagConsuming \<noteq> 0 \<and> g_fScriptSuccess s then add_to_inventory w (- 1) s else s))))"

fun use_on_players :: "nat \<Rightarrow> ENV \<Rightarrow> u16 \<Rightarrow> PAL \<Rightarrow> PAL Prelude.res" where
  "use_on_players 0 e w s = Inl Out_of_fuel"
| "use_on_players (Suc n) e w s =
     bindE (act e (PAL_ItemUseMenu w) s) (\<lambda>(p, s).
       if p = 0xFFFF then Inr s else bindE (use_item e w (word_of_int p) s) (use_on_players n e w))"

fun PAL_GameUseItem :: "nat \<Rightarrow> ENV \<Rightarrow> PAL \<Rightarrow> PAL Prelude.res" where
  "PAL_GameUseItem 0 e s = Inl Out_of_fuel"
| "PAL_GameUseItem (Suc n) e s =
     bindE (act e (PAL_ItemSelectMenu kItemFlagUsable) s) (\<lambda>(w, s). let w = word_of_int w in
       if w = 0 then Inr s
       else bindE (object_at w s) (\<lambda>ob.
         if item_wFlags ob AND kItemFlagApplyToAll = 0 then bindE (use_on_players n e w s) (PAL_GameUseItem n e)
         else use_item e w 0xFFFF s))"

fun PAL_GameEquipItem :: "nat \<Rightarrow> ENV \<Rightarrow> PAL \<Rightarrow> PAL Prelude.res" where
  "PAL_GameEquipItem 0 e s = Inl Out_of_fuel"
| "PAL_GameEquipItem (Suc n) e s =
     bindE (act e (PAL_ItemSelectMenu kItemFlagEquipable) s) (\<lambda>(w, s).
       if (word_of_int w :: u16) = 0 then Inr s
       else bindE (call e (PAL_EquipItemMenu (word_of_int w)) s) (PAL_GameEquipItem n e))"

section \<open>Searching\<close>

text \<open>The 13 positions in front of the party; \<open>x\<close>, \<open>y\<close> is where it stands.\<close>

definition search_positions :: "u16 \<Rightarrow> int \<Rightarrow> int \<Rightarrow> u32 list" where
  "search_positions d x y =
     (let xOffset = (if d = kDirNorth \<or> d = kDirEast then 16 else - 16); yOffset = (if d = kDirEast \<or> d = kDirSouth then 8 else - 8) in
      pos_of x y # concat (map (\<lambda>k. let x = x + k * xOffset; y = y + k * yOffset in
        [pos_of (x + xOffset) (y + yOffset), pos_of x (y + yOffset * 2), pos_of (x + xOffset) y]) [0, 1, 2, 3]))"

text \<open>Whether the object is on the tile of the \<open>i\<close>th position and can be searched from there.\<close>

definition searchable :: "nat \<Rightarrow> u32 \<Rightarrow> EVENTOBJECT \<Rightarrow> bool" where
  "searchable i pos p =
     (0 < sint (sState p) \<and> wTriggerMode p < 4 \<and> int i \<le> uint (wTriggerMode p) * 6 - 4 \<and>
      PAL_X pos sdiv 32 = uint (ox p) div 32 \<and> PAL_Y pos sdiv 16 = uint (oy p) div 16 \<and>
      (PAL_X pos smod 32 \<noteq> 0) = (uint (ox p) mod 32 \<noteq> 0))"

definition face_party :: "nat \<Rightarrow> PAL \<Rightarrow> PAL Prelude.res" where
  "face_party k s =
     bindE (on_object (Some (int k)) (\<lambda>p. p\<lparr>wCurrentFrameNum := 0, wDirection := (wPartyDirection (gp s) + 2) mod 4\<rparr>) s) (\<lambda>s.
       let g = gp s in
       definedE ''rgParty'' (unat (wMaxPartyMemberIndex g) < length (rgParty g))
        (Inr (on_gp (\<lambda>g. g\<lparr>rgParty := map (\<lambda>l. if l \<le> unat (wMaxPartyMemberIndex g)
            then (rgParty g ! l)\<lparr>wFrame := wPartyDirection g * 3\<rparr> else rgParty g ! l) [0..<length (rgParty g)]\<rparr>) s)))"

definition search_object :: "ENV \<Rightarrow> nat \<Rightarrow> PAL \<Rightarrow> PAL Prelude.res" where
  "search_object e k s =
     bindE (event_at k (gp s)) (\<lambda>p.
     bindE (if uint (nSpriteFrames p) * 4 > uint (wCurrentFrameNum p) then bindE (face_party k s) (show_scene e) else Inr s) (\<lambda>s.
     bindE (event_at k (gp s)) (\<lambda>p.
     bindE (run e (wTriggerScript p) (of_nat k + 1) s) (\<lambda>(r, s).
     bindE (on_object (Some (int k)) (\<lambda>p. p\<lparr>wTriggerScript := r\<rparr>) s) (calls e [UTIL_Delay 50, PAL_ClearKeyState])))))"

text \<open>The first pair of a position and an object in the order of the two loops.\<close>

fun search_each :: "GLOBALVARS \<Rightarrow> (nat \<times> u32 \<times> nat) list \<Rightarrow> nat option Prelude.res" where
  "search_each g [] = Inr None"
| "search_each g ((i, pos, k) # ps) =
     bindE (event_at k g) (\<lambda>p. if searchable i pos p then Inr (Some k) else search_each g ps)"

definition PAL_Search :: "ENV \<Rightarrow> PAL \<Rightarrow> PAL Prelude.res" where
  "PAL_Search e s =
     (let g = gp s; ps = search_positions (wPartyDirection g) (party_px g) (party_py g) in
      bindE (scene_events g) (\<lambda>(a, b).
      bindE (search_each g (concat (map (\<lambda>i. map (\<lambda>k. (i, ps ! i, k)) [a..<b]) [0..<13]))) (\<lambda>found. case found of
        None \<Rightarrow> Inr s
      | Some k \<Rightarrow> search_object e k s)))"

section \<open>Frames\<close>

definition kKeyMenu :: u32 where [simp]: "kKeyMenu = 1"
definition kKeySearch :: u32 where [simp]: "kKeySearch = 2"
definition kKeyUseItem :: u32 where [simp]: "kKeyUseItem = 0x800"
definition kKeyThrowItem :: u32 where [simp]: "kKeyThrowItem = 0x1000"
definition kKeyFlee :: u32 where [simp]: "kKeyFlee = 0x2000"
definition kKeyStatus :: u32 where [simp]: "kKeyStatus = 0x4000"
definition kKeyForce :: u32 where [simp]: "kKeyForce = 0x8000"

definition handle_key :: "ENV \<Rightarrow> PAL \<Rightarrow> PAL Prelude.res" where
  "handle_key e s =
     (let k = dwKeyPress s in
      if k AND kKeyMenu \<noteq> 0 then call e PAL_InGameMenu s
      else if k AND kKeyUseItem \<noteq> 0 then PAL_GameUseItem (rounds e) e s
      else if k AND kKeyThrowItem \<noteq> 0 then PAL_GameEquipItem (rounds e) e s
      else if k AND kKeyForce \<noteq> 0 then call e PAL_InGameMagicMenu s
      else if k AND kKeyStatus \<noteq> 0 then call e PAL_PlayerStatus s
      else if k AND kKeySearch \<noteq> 0 then PAL_Search e s
      else if k AND kKeyFlee \<noteq> 0 then
        bindE (act e PAL_ConfirmMenu s) (\<lambda>(yes, s).
          if yes \<noteq> 0 then bindE (calls e [PAL_PlayMUS 0 False 2, PAL_FadeOut 2, PAL_Shutdown] s) (\<lambda>s. Inl (Blocked ''exit''))
          else Inr s)
      else Inr s)"

definition PAL_StartFrame :: "ENV \<Rightarrow> PAL \<Rightarrow> PAL Prelude.res" where
  "PAL_StartFrame e s =
     bindE (update e True s) (\<lambda>s.
       if fEnteringScene (gp s) then Inr s
       else
         bindE (PAL_UpdateParty s) (\<lambda>s.
         bindE (show_scene e s) (\<lambda>s.
         bindE (handle_key e s) (\<lambda>s.
           Inr (on_gp (\<lambda>g. let g = g\<lparr>wChasespeedChangeCycles := wChasespeedChangeCycles g - 1\<rparr> in
             if wChasespeedChangeCycles g = 0 then g\<lparr>wChaseRange := 1\<rparr> else g) s)))))"

definition PAL_GameStart :: "ENV \<Rightarrow> PAL \<Rightarrow> PAL Prelude.res" where
  "PAL_GameStart e s =
     (let s = set_load_flags (kLoadScene OR kLoadPlayerSprite) s in
      bindE (if \<not> fEnteringScene (gp s) then call e (PAL_PlayMUS (wNumMusic (gp s)) True 1) s else Inr s) (\<lambda>s.
        Inr (on_gp (\<lambda>g. g\<lparr>fNeedToFadeIn := True, dwFrameNum := 0\<rparr>) s)))"

text \<open>One round of the loop of \<open>PAL_GameMain\<close>.\<close>

definition main_round :: "ENV \<Rightarrow> PAL \<Rightarrow> PAL Prelude.res" where
  "main_round e s =
     bindE (if fGameStart (gp s) then
         bindE (PAL_GameStart e s) (\<lambda>s. Inr (on_gp (\<lambda>g. g\<lparr>fGameStart := False\<rparr>) s)) else Inr s) (\<lambda>s.
     bindE (load_resources e s) (\<lambda>s.
     bindE (calls e [PAL_ClearKeyState, Wait_frame] s) (PAL_StartFrame e)))"

end
