(* ===== verification/PalSceneCorrect.thy ===== *)
theory PalSceneCorrect
  imports PalDraw "HOL-Library.Multiset"
begin

text \<open>
  Properties of scenes: \<open>PAL_CheckObstacle\<close> looks at the nearest tile, the party does not walk into
  obstacles, and the sprites are drawn from the back to the front.
\<close>

section \<open>The nearest tile\<close>

text \<open>Tiles are diamonds of 32 by 16: the distance that is 16 on the border of a tile.\<close>

definition diamond_dist :: "int \<Rightarrow> int \<Rightarrow> int \<times> int \<Rightarrow> int" where
  "diamond_dist px py = (\<lambda>(cx, cy). \<bar>px - cx\<bar> + 2 * \<bar>py - cy\<bar>)"

definition tile_centre :: "int \<times> int \<times> int \<Rightarrow> int \<times> int" where
  "tile_centre = (\<lambda>(x, y, h). (32 * x + 16 * h, 16 * y + 8 * h))"

lemma nearest_tile_parts:
  fixes x y a b :: int
  assumes "0 \<le> a" "a < 32" "0 \<le> b" "b < 16"
  shows "nearest_tile (32 * x + a) (16 * y + b) =
    (if a + b * 2 \<ge> 48 then (x + 1, y + 1, 0) else if a + b * 2 < 16 then (x, y, 0)
     else if 16 < a - b * 2 then (x + 1, y, 0) else if - 16 < a - b * 2 then (x, y, 1) else (x, y + 1, 0))"
  using assms by (auto simp: nearest_tile_def Let_def div_mult_self4 mod_mult_self4)

lemma nearest_tile_close:
  "\<exists>x y h. nearest_tile px py = (x, y, h) \<and> h \<in> {0, 1} \<and> diamond_dist px py (tile_centre (x, y, h)) \<le> 16"
proof -
  obtain x y a b where p: "px = 32 * x + a" "py = 16 * y + b" and ab: "0 \<le> a" "a < 32" "0 \<le> b" "b < 16"
    using that [of "px div 32" "px mod 32" "py div 16" "py mod 16"] by simp
  show ?thesis
    unfolding p nearest_tile_parts [OF ab] diamond_dist_def tile_centre_def using ab by (simp add: abs_if)
qed

lemma centres_apart:
  fixes x y h x' y' h' :: int
  assumes "(x, y, h) \<noteq> (x', y', h')" and "h \<in> {0, 1}" and "h' \<in> {0, 1}"
  shows "32 \<le> \<bar>(32 * x + 16 * h) - (32 * x' + 16 * h')\<bar> + 2 * \<bar>(16 * y + 8 * h) - (16 * y' + 8 * h')\<bar>"
proof -
  define i j where "i = 2 * (x - x') + (h - h')" and "j = 2 * (y - y') + (h - h')"
  have "(32 * x + 16 * h) - (32 * x' + 16 * h') = 16 * i" "(16 * y + 8 * h) - (16 * y' + 8 * h') = 8 * j"
    by (simp_all add: i_def j_def)
  moreover have "2 \<le> \<bar>i\<bar> + \<bar>j\<bar>" using assms unfolding i_def j_def by auto presburger+
  ultimately show ?thesis by (simp add: abs_mult)
qed

lemma nearest_tile_nearest:
  assumes "nearest_tile px py = t" and "h' \<in> {0, 1}"
  shows "diamond_dist px py (tile_centre t) \<le> diamond_dist px py (tile_centre (x', y', h'))"
proof -
  obtain x y h where t: "t = (x, y, h)" "h \<in> {0, 1}" "diamond_dist px py (tile_centre t) \<le> 16"
    using nearest_tile_close [of px py] assms(1) by auto
  show ?thesis
  proof (cases "(x, y, h) = (x', y', h')")
    case False
    then show ?thesis
      using centres_apart [OF False t(2) assms(2)] t(3) unfolding t(1) diamond_dist_def tile_centre_def by (simp add: abs_if split: if_splits)
  qed (simp add: t(1))
qed

section \<open>Obstacles\<close>

definition on_map :: "u32 \<Rightarrow> bool" where
  "on_map pos = (0 \<le> PAL_X pos \<and> PAL_X pos < 2048 \<and> 0 \<le> PAL_Y pos \<and> PAL_Y pos < 2048)"

definition blocks_at :: "u32 \<Rightarrow> EVENTOBJECT \<Rightarrow> bool" where
  "blocks_at pos p = (2 \<le> sint (sState p) \<and> diamond_dist (uint (ox p)) (uint (oy p)) (PAL_X pos, PAL_Y pos) < 16)"

definition blocked_tile :: "int \<times> int \<times> int \<Rightarrow> PAL \<Rightarrow> bool" where
  "blocked_tile = (\<lambda>(x, y, h) s. PAL_MapTileIsBlocked (word_of_int x) (word_of_int y) (word_of_int h) (lpMap (res s)))"

definition objects_ok :: "nat \<Rightarrow> nat \<Rightarrow> GLOBALVARS \<Rightarrow> bool" where
  "objects_ok a b g = (scene_events g = Inr (a, b) \<and> b \<le> length (lprgEventObject g))"

lemma near_event_eq:
  assumes "\<forall>i \<in> set is. i < length (lprgEventObject g)"
  shows "near_event pos self is g = Inr (\<exists>i \<in> set is. int i \<noteq> uint self - 1 \<and> blocks_at pos (lprgEventObject g ! i))"
  using assms by (induction "is") (auto simp: event_at_def blocks_at_def diamond_dist_def mult.commute)

lemma check_obstacle_eq:
  assumes "objects_ok a b (gp s)"
  shows "PAL_CheckObstacle pos True self s = Inr (\<not> on_map pos \<or> blocked_tile (nearest_tile (PAL_X pos) (PAL_Y pos)) s \<or>
    (\<exists>i \<in> {a..<b}. int i \<noteq> uint self - 1 \<and> blocks_at pos (lprgEventObject (gp s) ! i)))"
  using assms by (auto simp: PAL_CheckObstacle_def on_map_def blocked_tile_def objects_ok_def near_event_eq split: prod.split)

text \<open>
  \<^bold>\<open>C30\<close> \<open>PAL_CheckObstacle\<close> against the geometry of the map: a position is an obstacle exactly when it is outside
  the map, or the tile whose centre is nearest to it (in the distance that makes tiles diamonds) is blocked, or
  another event object of the scene that blocks is less than half a tile away. The case distinction on the
  position within a rectangle finds that nearest tile everywhere.
\<close>
theorem check_obstacle_nearest:
  assumes "objects_ok a b (gp s)"
  shows "\<exists>t. snd (snd t) \<in> {0, 1} \<and>
    (\<forall>x y. \<forall>h \<in> {0, 1}. diamond_dist (PAL_X pos) (PAL_Y pos) (tile_centre t) \<le>
       diamond_dist (PAL_X pos) (PAL_Y pos) (tile_centre (x, y, h))) \<and>
    PAL_CheckObstacle pos True self s = Inr (\<not> on_map pos \<or> blocked_tile t s \<or>
      (\<exists>i \<in> {a..<b}. int i \<noteq> uint self - 1 \<and> blocks_at pos (lprgEventObject (gp s) ! i)))"
  using nearest_tile_close [of "PAL_X pos" "PAL_Y pos"] nearest_tile_nearest [OF refl, of _ "PAL_X pos" "PAL_Y pos"]
    check_obstacle_eq [OF assms] by (intro exI [of _ "nearest_tile (PAL_X pos) (PAL_Y pos)"]) auto

section \<open>The party\<close>

definition party_ok :: "GLOBALVARS \<Rightarrow> bool" where
  "party_ok g = (length (rgParty g) = 5 \<and> length (rgTrail g) = 5 \<and> (\<forall>p \<in> set (rgParty g). unat (wPlayerRole p) < 6) \<and>
     members g \<le> 5 \<and> (0 < nFollower g \<longrightarrow> unat (wMaxPartyMemberIndex g) < 4))"

text \<open>What the gestures leave as it is.\<close>

definition placed :: "PAL \<Rightarrow> PAL \<Rightarrow> bool" where
  "placed s s' = (party_ok (gp s') \<and> viewport (gp s') = viewport (gp s) \<and> partyoffset (gp s') = partyoffset (gp s) \<and>
     lprgEventObject (gp s') = lprgEventObject (gp s) \<and> rgScene (gp s') = rgScene (gp s) \<and>
     wNumScene (gp s') = wNumScene (gp s) \<and> res s' = res s)"

definition returns_placed :: "PAL \<Rightarrow> PAL Prelude.res \<Rightarrow> bool" where
  "returns_placed s m = (\<exists>s'. m = Inr s' \<and> placed s s')"

lemma returns_bind:
  "returns_placed s m \<Longrightarrow> (\<And>t. placed s t \<Longrightarrow> returns_placed s (f t)) \<Longrightarrow> returns_placed s (bindE m f)"
  by (auto simp: returns_placed_def)

lemma returns_each:
  "placed s t \<Longrightarrow> (\<And>x u. x \<in> set xs \<Longrightarrow> placed s u \<Longrightarrow> returns_placed s (f x u)) \<Longrightarrow> returns_placed s (each f xs t)"
proof (induction xs arbitrary: t)
  case (Cons x xs)
  show ?case unfolding each.simps by (rule returns_bind) (use Cons in auto)
qed (simp add: returns_placed_def)

lemma returns_Inr: "placed s t \<Longrightarrow> returns_placed s (Inr t)" by (simp add: returns_placed_def)

lemma party_ok_set_party:
  "party_ok g \<Longrightarrow> wPlayerRole p = wPlayerRole (rgParty g ! i) \<Longrightarrow> i < 5 \<Longrightarrow> party_ok (set_party i p g)"
  by (auto simp: party_ok_def set_party_def members_def all_set_conv_all_nth nth_list_update)

lemma placed_set_party:
  "placed s t \<Longrightarrow> wPlayerRole p = wPlayerRole (rgParty (gp t) ! i) \<Longrightarrow> i < 5 \<Longrightarrow> placed s (t\<lparr>gp := set_party i p (gp t)\<rparr>)"
  using party_ok_set_party [of "gp t" p i] by (auto simp: placed_def set_party_def)

lemma party_ok_at:
  "party_ok g \<Longrightarrow> i < 5 \<Longrightarrow> party_at i g = Inr (rgParty g ! i) \<and> (\<exists>f. walk_frames (wPlayerRole (rgParty g ! i)) g = Inr f)"
  by (simp add: party_ok_def party_at_def walk_frames_def role_of_def)

lemma placed_step [simp]: "placed s (t\<lparr>s_iThisStepFrame := k\<rparr>) = placed s t"
  by (simp add: placed_def)

lemma leader_placed:
  assumes "placed s t" shows "returns_placed s (on_gpE (leader_walks k l) t)"
proof -
  have p: "party_ok (gp t)" using assms by (simp add: placed_def)
  obtain f where f: "walk_frames (wPlayerRole (rgParty (gp t) ! 0)) (gp t) = Inr f" using party_ok_at [OF p, of 0] by auto
  show ?thesis
    using party_ok_at [OF p, of 0] assms
    by (auto simp: on_gpE_def leader_walks_def f intro!: returns_Inr placed_set_party)
qed

lemma member_placed:
  assumes "placed s t" and "objects_ok a b (gp s)" and "i < 5" shows "returns_placed s (member_walks k l i t)"
proof -
  have p: "party_ok (gp t)" and o': "objects_ok a b (gp t)"
    using assms by (simp_all add: placed_def objects_ok_def scene_events_def)
  obtain f where f: "walk_frames (wPlayerRole (rgParty (gp t) ! i)) (gp t) = Inr f" using party_ok_at [OF p assms(3)] by auto
  show ?thesis
    using party_ok_at [OF p assms(3)] assms(1,3)
    by (auto simp: member_walks_def Let_def f check_obstacle_eq [OF o'] on_gp_def intro!: returns_Inr placed_set_party)
qed

lemma follower_placed:
  assumes "placed s t" shows "returns_placed s (on_gpE (follower_walks k) t)"
proof -
  have p: "party_ok (gp t)" using assms by (simp add: placed_def)
  show ?thesis
  proof (cases "0 < nFollower (gp t)")
    case True
    then have i: "unat (wMaxPartyMemberIndex (gp t)) + 1 < 5" using p by (simp add: party_ok_def)
    then show ?thesis
      using party_ok_at [OF p i] assms True
      by (auto simp: on_gpE_def follower_walks_def Let_def intro!: returns_Inr placed_set_party)
  qed (use assms in \<open>simp add: on_gpE_def follower_walks_def returns_Inr\<close>)
qed

lemma stands_placed:
  assumes "placed s t" and "i < 5" shows "returns_placed s (on_gpE (member_stands i) t)"
proof -
  have p: "party_ok (gp t)" using assms by (simp add: placed_def)
  obtain f where f: "walk_frames (wPlayerRole (rgParty (gp t) ! i)) (gp t) = Inr f" using party_ok_at [OF p assms(2)] by auto
  show ?thesis
    using party_ok_at [OF p assms(2)] assms
    by (auto simp: on_gpE_def member_stands_def f intro!: returns_Inr placed_set_party)
qed

lemma follower_stands_placed:
  assumes "placed s t" shows "returns_placed s (on_gpE follower_stands t)"
proof -
  have p: "party_ok (gp t)" using assms by (simp add: placed_def)
  show ?thesis
  proof (cases "0 < nFollower (gp t)")
    case True
    then have i: "unat (wMaxPartyMemberIndex (gp t)) + 1 < 5" using p by (simp add: party_ok_def)
    then show ?thesis
      using party_ok_at [OF p i] assms True
      by (auto simp: on_gpE_def follower_stands_def Let_def intro!: returns_Inr placed_set_party)
  qed (use assms in \<open>simp add: on_gpE_def follower_stands_def returns_Inr\<close>)
qed

lemma on_gpE_each: "on_gpE (each f xs) s = each (\<lambda>x. on_gpE (f x)) xs s"
proof (induction xs arbitrary: s)
  case (Cons x xs)
  have "on_gpE (each f (x # xs)) s = bindE (on_gpE (f x) s) (on_gpE (each f xs))"
    by (cases "f x (gp s)") (simp_all add: on_gpE_def)
  also have "on_gpE (each f xs) = each (\<lambda>x. on_gpE (f x)) xs" using Cons.IH by (rule ext)
  finally show ?case by (rule trans) (rule each.simps(2) [symmetric])
qed (simp add: on_gpE_def)

lemma gestures_placed:
  assumes "placed s t" and "objects_ok a b (gp s)" shows "returns_placed s (PAL_UpdatePartyGestures w t)"
proof -
  have p: "party_ok (gp t)" and l: "length (rgTrail (gp t)) = 5" using assms by (simp_all add: placed_def party_ok_def)
  have m: "k < 5" if "placed s u" and "k < members (gp u)" for k u using that by (simp add: placed_def party_ok_def)
  show ?thesis
  proof (cases w)
    case True
    then show ?thesis
      using assms m l by (auto simp: PAL_UpdatePartyGestures_def Let_def
        intro!: returns_bind returns_each leader_placed member_placed follower_placed elim: m)
  next
    case False
    then show ?thesis
      using assms m l p by (auto simp: PAL_UpdatePartyGestures_def Let_def on_gpE_each
        intro!: returns_bind returns_each stands_placed follower_stands_placed returns_Inr simp del: each.simps elim: m)
  qed
qed

lemma PAL_XY_parts [simp]: "PAL_X (PAL_XY a b) = sint a" "PAL_Y (PAL_XY a b) = sint b"
proof -
  have "ucast (PAL_XY a b) = a" "ucast (drop_bit 16 (PAL_XY a b)) = b"
    by (auto simp: PAL_XY_def bit_eq_iff bit_simps dest: bit_imp_le_length)
  then show "PAL_X (PAL_XY a b) = sint a" "PAL_Y (PAL_XY a b) = sint b" by (simp_all add: PAL_X_def PAL_Y_def)
qed

text \<open>Where the party stands, and its step in a direction.\<close>

definition here :: "GLOBALVARS \<Rightarrow> u32" where
  "here g = PAL_XY (word_of_int (party_px g)) (word_of_int (party_py g))"

definition step_of :: "u16 \<Rightarrow> int \<times> int" where
  "step_of d = (if d = kDirUnknown then (0, 0)
     else (if d = kDirWest \<or> d = kDirSouth then - 16 else 16, if d = kDirWest \<or> d = kDirNorth then - 8 else 8))"

definition moved :: "GLOBALVARS \<Rightarrow> int \<times> int \<Rightarrow> u32" where
  "moved g = (\<lambda>(dx, dy). PAL_XY (word_of_int (party_px g + dx)) (word_of_int (party_py g + dy)))"

lemma word_of_sint_add: "(word_of_int (sint (word_of_int a :: u16) + b) :: u16) = word_of_int (a + b)"
  by (simp add: of_int_add)

lemma here_moved:
  assumes "viewport g' = PAL_XY (word_of_int (PAL_X (viewport g) + dx)) (word_of_int (PAL_Y (viewport g) + dy))"
    and "partyoffset g' = partyoffset g"
  shows "here g' = moved g (dx, dy)"
  using assms by (simp add: here_def moved_def party_px_def party_py_def word_of_sint_add algebra_simps)

lemma obstacle_placed:
  assumes "placed s s'" and "objects_ok a b (gp s)"
  shows "PAL_CheckObstacle pos True self s' = PAL_CheckObstacle pos True self s"
proof -
  have o': "objects_ok a b (gp s')" using assms by (simp add: placed_def objects_ok_def scene_events_def)
  show ?thesis using assms(1) unfolding check_obstacle_eq [OF o'] check_obstacle_eq [OF assms(2)]
    by (simp add: placed_def blocked_tile_def split: prod.split)
qed

definition walk :: "PAL \<Rightarrow> PAL" where
  "walk s = on_gp (\<lambda>g. (push_trail \<lparr>trail_x = word_of_int (party_px g), trail_y = word_of_int (party_py g), trail_dir = dir s\<rparr>
     (g\<lparr>wPartyDirection := dir s\<rparr>))\<lparr>viewport := PAL_XY (word_of_int (PAL_X (viewport g) + fst (step_of (dir s))))
       (word_of_int (PAL_Y (viewport g) + snd (step_of (dir s))))\<rparr>) s"

lemma update_party_eq:
  assumes "dir s \<noteq> kDirUnknown"
  shows "PAL_UpdateParty s = bindE (PAL_CheckObstacle (moved (gp s) (step_of (dir s))) True 0 (on_gp (\<lambda>g. g\<lparr>wPartyDirection := dir s\<rparr>) s))
    (\<lambda>ob. if \<not> ob then PAL_UpdatePartyGestures True (walk s)
          else PAL_UpdatePartyGestures False (on_gp (\<lambda>g. g\<lparr>wPartyDirection := dir s\<rparr>) s))"
  using assms by (simp add: PAL_UpdateParty_def Let_def step_of_def moved_def walk_def on_gp_def push_trail_def cong: if_cong)

lemma placed_self: "party_ok (gp s) \<Longrightarrow> placed s s"
  by (simp add: placed_def)

lemma walk_parts [simp]:
  "viewport (gp (walk s)) = PAL_XY (word_of_int (PAL_X (viewport (gp s)) + fst (step_of (dir s))))
     (word_of_int (PAL_Y (viewport (gp s)) + snd (step_of (dir s))))"
  "partyoffset (gp (walk s)) = partyoffset (gp s)" "lprgEventObject (gp (walk s)) = lprgEventObject (gp s)"
  "rgScene (gp (walk s)) = rgScene (gp s)" "wNumScene (gp (walk s)) = wNumScene (gp s)" "res (walk s) = res s"
  by (simp_all add: walk_def on_gp_def push_trail_def)

lemma party_ok_walk: "party_ok (gp s) \<Longrightarrow> party_ok (gp (walk s))"
  by (simp add: party_ok_def walk_def on_gp_def push_trail_def members_def)

lemma obstacle_same:
  assumes "objects_ok a b (gp s)" "lprgEventObject (gp s') = lprgEventObject (gp s)" "rgScene (gp s') = rgScene (gp s)"
    "wNumScene (gp s') = wNumScene (gp s)" "res s' = res s"
  shows "PAL_CheckObstacle pos True self s' = PAL_CheckObstacle pos True self s" "objects_ok a b (gp s')"
proof -
  show o': "objects_ok a b (gp s')" using assms by (simp add: objects_ok_def scene_events_def)
  show "PAL_CheckObstacle pos True self s' = PAL_CheckObstacle pos True self s"
    unfolding check_obstacle_eq [OF o'] check_obstacle_eq [OF assms(1)] using assms by (simp add: blocked_tile_def split: prod.split)
qed

text \<open>
  \<^bold>\<open>C31\<close> Safety of the player's moves: in every well-formed scene \<open>PAL_UpdateParty\<close> returns, and afterwards the party
  stands either where it stood, or exactly one step further in the direction of the key, and then on a position
  that is no obstacle; what is an obstacle does not change. So a party that stands free of obstacles never gets into one by walking.
\<close>
theorem party_avoids_obstacles:
  assumes "party_ok (gp s)" and "objects_ok a b (gp s)"
  shows "\<exists>s'. PAL_UpdateParty s = Inr s' \<and> party_ok (gp s') \<and>
    (\<forall>pos. PAL_CheckObstacle pos True 0 s' = PAL_CheckObstacle pos True 0 s) \<and>
    (here (gp s') = here (gp s) \<or>
     dir s \<noteq> kDirUnknown \<and> here (gp s') = moved (gp s) (step_of (dir s)) \<and> PAL_CheckObstacle (here (gp s')) True 0 s' = Inr False) \<and>
    (PAL_CheckObstacle (here (gp s)) True 0 s = Inr False \<longrightarrow> PAL_CheckObstacle (here (gp s')) True 0 s' = Inr False)"
proof (cases "dir s = kDirUnknown")
  case True
  obtain s' where s': "PAL_UpdatePartyGestures False s = Inr s'" "placed s s'"
    using gestures_placed [OF placed_self [OF assms(1)] assms(2)] by (auto simp: returns_placed_def)
  then have "here (gp s') = here (gp s)" by (simp add: placed_def here_def party_px_def party_py_def)
  then show ?thesis using s' True obstacle_placed [OF s'(2) assms(2)] by (simp add: PAL_UpdateParty_def placed_def)
next
  case False
  let ?t = "on_gp (\<lambda>g. g\<lparr>wPartyDirection := dir s\<rparr>) s" and ?p = "moved (gp s) (step_of (dir s))"
  have t: "placed s ?t" "party_ok (gp ?t)" "objects_ok a b (gp ?t)" "here (gp ?t) = here (gp s)"
    using assms by (simp_all add: placed_def on_gp_def party_ok_def members_def objects_ok_def scene_events_def here_def party_px_def party_py_def)
  obtain ob where ob: "PAL_CheckObstacle ?p True 0 ?t = Inr ob" using check_obstacle_eq [OF t(3)] by blast
  note w = obstacle_same [OF assms(2), of "walk s"]
  show ?thesis
  proof (cases ob)
    case True
    obtain s' where s': "PAL_UpdatePartyGestures False ?t = Inr s'" "placed ?t s'"
      using gestures_placed [OF placed_self [OF t(2)] t(3)] by (auto simp: returns_placed_def)
    then have h: "here (gp s') = here (gp s)" using t(4) by (simp add: placed_def here_def party_px_def party_py_def)
    have "PAL_CheckObstacle q True 0 s' = PAL_CheckObstacle q True 0 s" for q
      using obstacle_placed [OF s'(2) t(3)] obstacle_placed [OF t(1) assms(2)] by simp
    then show ?thesis using s' h True ob by (simp add: update_party_eq [OF False] placed_def)
  next
    case False
    have "returns_placed (walk s) (PAL_UpdatePartyGestures True (walk s))"
      by (rule gestures_placed [OF placed_self [OF party_ok_walk [OF assms(1)]]]) (rule w(2), simp_all)
    then obtain s' where s': "PAL_UpdatePartyGestures True (walk s) = Inr s'" "placed (walk s) s'"
      by (auto simp: returns_placed_def)
    have "here (gp s') = moved (gp s) (fst (step_of (dir s)), snd (step_of (dir s)))"
      using s'(2) by (intro here_moved) (simp_all add: placed_def)
    then have h: "here (gp s') = ?p" by simp
    have "PAL_CheckObstacle q True 0 s' = PAL_CheckObstacle q True 0 ?t" "PAL_CheckObstacle q True 0 ?t = PAL_CheckObstacle q True 0 s" for q
      using obstacle_placed [OF s'(2)] w obstacle_placed [OF t(1) assms(2)] by simp_all
    then show ?thesis using s' h False ob \<open>dir s \<noteq> kDirUnknown\<close> by (simp add: update_party_eq [OF \<open>dir s \<noteq> kDirUnknown\<close>] placed_def)
  qed
qed

text \<open>A scene with one event object that blocks, one step east of the party.\<close>

definition small_scene :: "PAL \<Rightarrow> PAL" where
  "small_scene s = s\<lparr>gp := (gp s)\<lparr>
     rgParty := replicate 5 \<lparr>wPlayerRole = 0, party_x = 160, party_y = 112, wFrame = 0, wImageOffset = 0\<rparr>,
     rgTrail := replicate 5 \<lparr>trail_x = 160, trail_y = 112, trail_dir = 0\<rparr>, wMaxPartyMemberIndex := 0, nFollower := 0,
     rgScene := [\<lparr>wMapNum = 1, wScriptOnEnter = 0, wScriptOnTeleport = 0, wEventObjectIndex = 0\<rparr>,
                 \<lparr>wMapNum = 1, wScriptOnEnter = 0, wScriptOnTeleport = 0, wEventObjectIndex = 1\<rparr>],
     wNumScene := 1, viewport := PAL_XY 0 0, partyoffset := PAL_XY 160 112,
     lprgEventObject := [\<lparr>sVanishTime = 0, ox = 176, oy = 120, sLayer = 0, wTriggerScript = 0, wAutoScript = 0, sState = 2,
       wTriggerMode = 0, wSpriteNum = 0, nSpriteFrames = 0, wDirection = 0, wCurrentFrameNum = 0, nScriptIdleFrame = 0,
       wSpritePtrOffset = 0, nSpriteFramesAuto = 0, wScriptIdleFrameCountAuto = 0\<rparr>]\<rparr>,
     res := (res s)\<lparr>lpMap := Some \<lparr>Tiles = replicate 16384 0, pTileSprite = [], iMapNum = 1\<rparr>\<rparr>, dir := kDirEast\<rparr>"

lemma small_scene_ok: "party_ok (gp (small_scene s))" "objects_ok 0 1 (gp (small_scene s))"
  by (simp_all add: small_scene_def party_ok_def members_def objects_ok_def scene_events_def)

lemma small_scene_blocks: "blocks_at (PAL_XY 176 120) (lprgEventObject (gp (small_scene s)) ! 0)"
  by (simp add: small_scene_def blocks_at_def diamond_dist_def)

theorem check_obstacle_nearest_witness: "\<exists>s. PAL_CheckObstacle (PAL_XY 176 120) True 0 s = Inr True"
proof -
  fix s
  show ?thesis
    using check_obstacle_nearest [OF small_scene_ok(2), of "PAL_XY 176 120" 0 s] small_scene_blocks [of s]
    by (intro exI [of _ "small_scene s"]) auto
qed

theorem party_avoids_obstacles_witness:
  "\<exists>s s'. dir s = kDirEast \<and> PAL_UpdateParty s = Inr s' \<and> here (gp s) = PAL_XY 160 112 \<and> here (gp s') = PAL_XY 160 112"
proof -
  fix s
  let ?s = "small_scene s"
  have d: "dir ?s = kDirEast" "here (gp ?s) = PAL_XY 160 112" "moved (gp ?s) (step_of (dir ?s)) = PAL_XY 176 120"
    by (simp_all add: small_scene_def here_def party_px_def party_py_def moved_def step_of_def)
  have "PAL_CheckObstacle (PAL_XY 176 120) True 0 ?s = Inr True"
    unfolding check_obstacle_eq [OF small_scene_ok(2)] using small_scene_blocks [of s] by auto
  then show ?thesis
    using party_avoids_obstacles [OF small_scene_ok, of s] unfolding d(3) using d(1,2)
    by - (rule exI [of _ ?s], auto)
qed

section \<open>The order of the sprites\<close>

abbreviation depth :: "SPRITE_TO_DRAW \<Rightarrow> int" where "depth p \<equiv> PAL_Y (sprite_pos p)"

lemma bubble_pass_mset:
  "mset (snd (bubble_pass n sps)) = mset sps" "length (snd (bubble_pass n sps)) = length sps"
  by (induction n sps rule: bubble_pass.induct) (auto split: prod.splits)

lemma bubble_pass_stable: "filter (\<lambda>x. k = depth x) (snd (bubble_pass n sps)) = filter (\<lambda>x. k = depth x) sps"
  by (induction n sps rule: bubble_pass.induct) (auto split: prod.splits)

lemma bubble_pass_rest: "n < length sps \<Longrightarrow> drop (n + 1) (snd (bubble_pass n sps)) = drop (n + 1) sps"
  by (induction n sps rule: bubble_pass.induct) (auto split: prod.splits)

lemma bubble_pass_take: "n < length sps \<Longrightarrow> set (take (n + 1) (snd (bubble_pass n sps))) = set (take (n + 1) sps)"
proof -
  assume n: "n < length sps"
  have "mset (take (n + 1) xs) + mset (drop (n + 1) xs) = mset xs" for xs :: "SPRITE_TO_DRAW list"
    by (simp flip: mset_append del: add_Suc_right)
  from this [of sps] this [of "snd (bubble_pass n sps)"]
  have "mset (take (n + 1) (snd (bubble_pass n sps))) = mset (take (n + 1) sps)"
    using bubble_pass_mset(1) [of n sps] bubble_pass_rest [OF n] by (metis add_right_cancel)
  then show ?thesis by (metis set_mset_mset)
qed

text \<open>After a pass the last of the compared entries is the largest; a pass without a swap had nothing to do.\<close>

lemma bubble_pass_last: "n < length sps \<Longrightarrow> \<forall>x \<in> set (take (n + 1) sps). depth x \<le> depth (snd (bubble_pass n sps) ! n)"
proof (induction n sps rule: bubble_pass.induct)
  case (1 n a b sps)
  show ?case
  proof (cases "depth b < depth a")
    case True
    then show ?thesis using 1 by (auto split: prod.splits)
  next
    case False
    then show ?thesis using 1 by (auto split: prod.splits)
  qed
qed (auto simp: take_Suc neq_Nil_conv)

lemma bubble_pass_done:
  "n < length sps \<Longrightarrow> \<not> fst (bubble_pass n sps) \<Longrightarrow> snd (bubble_pass n sps) = sps \<and> sorted (map depth (take (n + 1) sps))"
proof (induction n sps rule: bubble_pass.induct)
  case (1 n a b sps)
  then show ?case by (auto split: prod.splits if_splits simp: take_Cons' less_imp_le)
qed (auto simp: take_Suc neq_Nil_conv)

lemma bubble_sort_mset: "mset (bubble_sort k sps) = mset sps"
proof (induction k sps rule: bubble_sort.induct)
  case (2 k sps)
  then show ?case using bubble_pass_mset(1) [of "Suc k" sps] by (auto split: prod.splits)
qed simp

lemma bubble_sort_stable: "filter (\<lambda>x. d = depth x) (bubble_sort k sps) = filter (\<lambda>x. d = depth x) sps"
proof (induction k sps rule: bubble_sort.induct)
  case (2 k sps)
  then show ?case using bubble_pass_stable [of d "Suc k" sps] by (auto split: prod.splits)
qed simp

definition tail_sorted :: "nat \<Rightarrow> SPRITE_TO_DRAW list \<Rightarrow> bool" where
  "tail_sorted k sps = (sorted (map depth (drop (k + 1) sps)) \<and>
     (\<forall>x \<in> set (take (k + 1) sps). \<forall>y \<in> set (drop (k + 1) sps). depth x \<le> depth y))"

lemma tail_sorted_append:
  assumes "tail_sorted k sps" and "sorted (map depth (take (k + 1) sps))" shows "sorted (map depth sps)"
proof -
  have "sorted (map depth (take (k + 1) sps) @ map depth (drop (k + 1) sps))"
    using assms by (auto simp: sorted_append tail_sorted_def)
  then show ?thesis by (simp flip: map_append del: add_Suc_right)
qed

lemma bubble_pass_tail:
  assumes "tail_sorted (Suc k) sps" and "Suc k < length sps" shows "tail_sorted k (snd (bubble_pass (Suc k) sps))"
proof -
  let ?r = "snd (bubble_pass (Suc k) sps)"
  have l: "Suc k < length ?r" using assms(2) bubble_pass_mset(2) by simp
  have d: "drop (k + 1) ?r = ?r ! Suc k # drop (Suc k + 1) ?r" using l by (simp add: Cons_nth_drop_Suc)
  have t: "set (take (k + 1) ?r) \<subseteq> set (take (Suc k + 1) sps)" "?r ! Suc k \<in> set (take (Suc k + 1) sps)"
    using bubble_pass_take [OF assms(2)] l set_take_subset_set_take [of "k + 1" "Suc k + 1" ?r]
    by (auto simp: take_Suc_conv_app_nth)
  show ?thesis
    unfolding tail_sorted_def d bubble_pass_rest [OF assms(2)]
    using assms(1) t bubble_pass_last [OF assms(2)] by (auto simp: tail_sorted_def)
qed

lemma bubble_sort_sorted: "k < length sps \<Longrightarrow> tail_sorted k sps \<Longrightarrow> sorted (map depth (bubble_sort k sps))"
proof (induction k sps rule: bubble_sort.induct)
  case (1 sps)
  then show ?case using tail_sorted_append [of 0 sps] by (auto simp: take_Suc neq_Nil_conv)
next
  case (2 k sps)
  obtain sw r where r: "bubble_pass (Suc k) sps = (sw, r)" by (cases "bubble_pass (Suc k) sps")
  show ?case
  proof (cases sw)
    case True
    have "k < length r" "tail_sorted k r" using 2 bubble_pass_mset(2) [of "Suc k" sps] bubble_pass_tail [of k sps] r by auto
    then show ?thesis using 2(1) [OF r [symmetric] refl] True r by simp
  next
    case False
    then show ?thesis using bubble_pass_done [OF 2(2)] tail_sorted_append [OF 2(3)] r by simp
  qed
qed

lemma bubble_sort_sort_key: "bubble_sort (length sps - 1) sps = sort_key depth sps"
proof (rule properties_for_sort_key [symmetric])
  show "sorted (map depth (bubble_sort (length sps - 1) sps))"
    by (cases sps) (auto intro!: bubble_sort_sorted simp: tail_sorted_def)
qed (simp_all add: bubble_sort_mset bubble_sort_stable)

text \<open>
  \<^bold>\<open>C32\<close> The bubble sort of \<open>PAL_SceneDrawSprites\<close>, with its early exit, is a stable sort: the sprites of a scene and
  the tiles in front of them are drawn from the smallest \<open>y\<close> to the largest, those with the same \<open>y\<close> in the order
  in which they were collected, and none is lost or drawn twice.
\<close>
theorem sprites_drawn_in_order:
  "PAL_SceneDrawSprites s = bindE (scene_sprites s) (\<lambda>sps.
     bindE (each draw_sprite (sort_key (\<lambda>p. PAL_Y (sprite_pos p)) sps) (gpScreen s)) (\<lambda>scr. Inr (s\<lparr>gpScreen := scr\<rparr>)))"
  unfolding PAL_SceneDrawSprites_def bubble_sort_sort_key ..

end
