(* ===== verification/PalLevels.thy ===== *)
theory PalLevels
  imports PalPlayerCorrect
begin

text \<open>
  Hit points, poisons and levels of the players: bounds, and what goes wrong.
\<close>

section \<open>Cells\<close>

lemma cell_eq: "r < 6 \<Longrightarrow> r' < 6 \<Longrightarrow> row * 6 + r = row' * 6 + r' \<longleftrightarrow> row = row' \<and> r = (r' :: nat)"
  by presburger

lemma role_get_set:
  "r < 6 \<Longrightarrow> r' < 6 \<Longrightarrow> row' * 6 + r' < length p \<Longrightarrow>
   role_get row r (role_set row' r' v p) = (if row = row' \<and> r = r' then v else role_get row r p)"
  by (simp add: role_get_def role_set_def nth_list_update cell_eq eq_commute [of "row' * 6 + r'"])

definition roles_ok :: "GLOBALVARS \<Rightarrow> bool" where
  "roles_ok g \<longleftrightarrow> length (PlayerRoles g) = PLAYERROLES_rows * MAX_PLAYER_ROLES"

lemma the_role_set_role:
  "roles_ok g \<Longrightarrow> r < 6 \<Longrightarrow> r' < 6 \<Longrightarrow> row' < 75 \<Longrightarrow>
   the_role row r (set_role row' r' v g) = (if row = row' \<and> r = r' then v else the_role row r g)"
  by (simp add: the_role_def set_role_def role_get_set roles_ok_def)

lemma length_role_set [simp]: "length (role_set row r v p) = length p"
  by (simp add: role_set_def)

lemma roles_ok_set_role [simp]: "roles_ok (set_role row r v g) = roles_ok g"
  by (simp add: roles_ok_def set_role_def role_set_def)

lemma the_role_seed [simp]: "the_role row r (g\<lparr>glSeed := s\<rparr>) = the_role row r g" "roles_ok (g\<lparr>glSeed := s\<rparr>) = roles_ok g"
  by (simp_all add: the_role_def roles_ok_def)

section \<open>Hit points\<close>

lemma sint16_if: "sint (v :: u16) = (if uint v < 32768 then uint v else uint v - 65536)"
proof -
  have *: "sint v = (uint v + 32768) mod 65536 - 32768"
    by (simp only: sint_uint signed_take_bit_eq_take_bit_shift take_bit_eq_mod) simp
  have v: "0 \<le> uint v" "uint v < 65536" using uint_lt2p [of v] by simp_all
  show ?thesis
  proof (cases "uint v < 32768")
    case False
    have "(uint v + 32768) mod 65536 = (uint v - 32768) mod 65536"
      using mod_add_self2 [of "uint v - 32768" 65536] by (simp add: algebra_simps)
    also have "\<dots> = uint v - 32768" using False v by (intro mod_pos_pos_trivial) simp_all
    finally show ?thesis using False * by simp
  qed (use * v in simp)
qed

lemma uint_add16: "uint (v + d :: u16) = (if uint v + uint d < 65536 then uint v + uint d else uint v + uint d - 65536)"
proof -
  have b: "uint v < 65536" "uint d < 65536" "0 \<le> uint v" "0 \<le> uint d" using uint_lt2p [of v] uint_lt2p [of d] by simp_all
  have "(uint v + uint d) mod 65536 = uint v + uint d - 65536" if "\<not> uint v + uint d < 65536"
  proof -
    have "(uint v + uint d - 65536) mod 65536 = uint v + uint d - 65536"
      using b that by (intro mod_pos_pos_trivial) linarith+
    then show ?thesis by (simp only: minus_mod_self2)
  qed
  then show ?thesis using b by (simp add: uint_word_ariths)
qed

lemma clamp_cases:
  fixes a b m s :: int
  assumes "0 \<le> a" "a < 32768" "0 \<le> b" "b < 65536" "0 \<le> m" "s = (if a + b < 65536 then a + b else a + b - 65536)"
  shows "(if s < 32768 then if m < s then m else s else 0) =
    (if 32768 \<le> a + (if b < 32768 then b else b - 65536) then 0 else max 0 (min m (a + (if b < 32768 then b else b - 65536))))"
  using assms by (cases "b < 32768"; cases "a + b < 65536") (auto simp: max_def min_def)

lemma raise_points_eq:
  fixes v d mx :: u16
  assumes "uint v < 32768"
  shows "uint (raise_points v d mx) =
    (if 32768 \<le> uint v + sint d then 0 else max 0 (min (uint mx) (uint v + sint d)))"
proof -
  define s where "s = v + d"
  have b: "0 \<le> uint d" "uint d < 65536" "0 \<le> uint v" "0 \<le> uint mx" "0 \<le> uint s" "uint s < 65536"
    using uint_lt2p [of d] uint_lt2p [of s] by simp_all
  have s: "uint s = (if uint v + uint d < 65536 then uint v + uint d else uint v + uint d - 65536)"
    unfolding s_def by (rule uint_add16)
  have r: "uint (raise_points v d mx) = (if uint s < 32768 then if uint mx < uint s then uint mx else uint s else 0)"
    unfolding raise_points_def Let_def s_def [symmetric] sint16_if [of s] word_less_def using b by simp
  show ?thesis unfolding r sint16_if [of d] by (rule clamp_cases) (use assms b s in auto)
qed

text \<open>
  \<^bold>\<open>C39\<close> \<open>PAL_IncreaseHPMP\<close> on a living player with less than 32768 points: the hit points and the magic points
  change by the given amounts and are cut to the range from 0 to their maximum, and nothing else changes; but
  when the sum reaches 32768 it is taken for a negative number, and the healed player is dead.
\<close>
theorem IncreaseHPMP_clamps:
  assumes "roles_ok g" and "unat role < 6" and "0 < uint (the_role rgwHP (unat role) g)"
    and "uint (the_role rgwHP (unat role) g) < 32768" and "uint (the_role rgwMP (unat role) g) < 32768"
  shows "\<exists>g'. PAL_IncreaseHPMP role sHP sMP g = Inr (True, g') \<and>
    uint (the_role rgwHP (unat role) g') =
      (if 32768 \<le> uint (the_role rgwHP (unat role) g) + sint sHP then 0
       else max 0 (min (uint (the_role rgwMaxHP (unat role) g)) (uint (the_role rgwHP (unat role) g) + sint sHP))) \<and>
    uint (the_role rgwMP (unat role) g') =
      (if 32768 \<le> uint (the_role rgwMP (unat role) g) + sint sMP then 0
       else max 0 (min (uint (the_role rgwMaxMP (unat role) g)) (uint (the_role rgwMP (unat role) g) + sint sMP))) \<and>
    (\<forall>row r. r < 6 \<and> (row, r) \<noteq> (rgwHP, unat role) \<and> (row, r) \<noteq> (rgwMP, unat role) \<longrightarrow> the_role row r g' = the_role row r g)"
proof -
  let ?r = "unat role"
  let ?g = "set_role rgwHP ?r (raise_points (the_role rgwHP ?r g) sHP (the_role rgwMaxHP ?r g)) g"
  let ?g' = "set_role rgwMP ?r (raise_points (the_role rgwMP ?r g) sMP (the_role rgwMaxMP ?r g)) ?g"
  have "PAL_IncreaseHPMP role sHP sMP g = Inr (True, ?g')"
    using assms by (simp add: PAL_IncreaseHPMP_def role_of_def word_less_def Let_def the_role_set_role)
  then show ?thesis
    using assms(1,2) raise_points_eq [OF assms(4), of sHP "the_role rgwMaxHP ?r g"]
      raise_points_eq [OF assms(5), of sMP "the_role rgwMaxMP ?r g"]
    by (intro exI [of _ ?g']) (auto simp: the_role_set_role)
qed

definition all_500 :: "GLOBALVARS \<Rightarrow> GLOBALVARS" where
  "all_500 g = g\<lparr>PlayerRoles := replicate 450 500\<rparr>"

lemma all_500_facts: "roles_ok (all_500 g)" "row < 75 \<Longrightarrow> r < 6 \<Longrightarrow> the_role row r (all_500 g) = 500"
  by (simp_all add: all_500_def roles_ok_def the_role_def role_get_def)

theorem IncreaseHPMP_clamps_witness:
  "\<exists>g g'. PAL_IncreaseHPMP 2 0xFF9C 0x7FFF g = Inr (True, g') \<and> uint (the_role rgwHP 2 g') = 400 \<and> uint (the_role rgwMP 2 g') = 0"
proof -
  fix g
  show ?thesis
    using IncreaseHPMP_clamps [of "all_500 g" 2 "0xFF9C" "0x7FFF"] all_500_facts(1) [of g] all_500_facts(2) [of _ _ g]
    by - (rule exI [of _ "all_500 g"], auto)
qed

section \<open>Levels\<close>

text \<open>The rows that grow, the least growth for a level and the range of the random part.\<close>

definition growths :: "(nat \<times> int \<times> int) list" where
  "growths = [(rgwMaxHP, 10, 8), (rgwMaxMP, 8, 6), (rgwAttackStrength, 4, 1), (rgwMagicStrength, 4, 1), (rgwDefense, 2, 1),
     (rgwDexterity, 2, 1)]"

lemma raise_stats_fold:
  "raise_stats ticks r (Suc n) g =
     bindE (foldr (\<lambda>(row, base, m) k g. bindE (raise_stat ticks row r base m g) k) growths Inr g)
       (\<lambda>g. raise_stats ticks r n (set_role rgwFleeRate r (the_role rgwFleeRate r g + 2) g))"
  by (simp add: growths_def bindE_assoc)

text \<open>Nothing but the seed and the player roles changes.\<close>

definition only_roles :: "GLOBALVARS \<Rightarrow> GLOBALVARS \<Rightarrow> bool" where
  "only_roles g g' \<longleftrightarrow> g' = g\<lparr>PlayerRoles := PlayerRoles g', glSeed := glSeed g'\<rparr> \<and> (roles_ok g \<longrightarrow> roles_ok g')"

lemma only_roles_refl: "only_roles g g" by (simp add: only_roles_def)

lemma only_roles_trans: "only_roles g g1 \<Longrightarrow> only_roles g1 g2 \<Longrightarrow> only_roles g g2"
  by (cases g; cases g1; cases g2) (auto simp: only_roles_def roles_ok_def)

lemma only_roles_set: "only_roles g (set_role row r v g)"
  by (simp add: only_roles_def set_role_def roles_ok_def role_set_def)

lemma only_roles_seed: "g' = g\<lparr>glSeed := glSeed g'\<rparr> \<Longrightarrow> only_roles g g'"
  by (cases g; cases g') (simp add: only_roles_def roles_ok_def)

lemma raise_stat_ok:
  assumes "roles_ok g" and "r < 6" and "row < 75" and "0 \<le> base" and "0 \<le> m" "m \<le> 99"
    and "uint (the_role row r g) + base + m + 1 < 65536"
  obtains g' where "raise_stat (Inr t) row r base m g = Inr g'" "only_roles g g'"
    "uint (the_role row r g) + base \<le> uint (the_role row r g')"
    "uint (the_role row r g') \<le> uint (the_role row r g) + base + m + 1"
    "\<And>row' r'. r' < 6 \<Longrightarrow> (row', r') \<noteq> (row, r) \<Longrightarrow> the_role row' r' g' = the_role row' r' g"
proof -
  obtain k g1 where k: "RandomLong (Inr t) 0 m g = Inr (k, g1)" "0 \<le> k" "k \<le> m + 1" "g1 = g\<lparr>glSeed := glSeed g1\<rparr>"
    using RandomLong_returns [of 0 m t g] assms(5,6) by auto
  define j where "j = base + k"
  let ?v = "the_role row r g + word_of_int j"
  have g1: "the_role row' r' g1 = the_role row' r' g" "roles_ok g1" for row' r'
    using arg_cong [OF k(4), of "the_role row' r'"] arg_cong [OF k(4), of roles_ok] assms(1) by simp_all
  have j: "base \<le> j" "j \<le> base + m + 1" using k(2,3) by (simp_all add: j_def)
  then have "0 \<le> j" "j < 65536" using assms(4,7) uint_ge_0 [of "the_role row r g"] by linarith+
  then have "uint (word_of_int j :: u16) = j" by (simp add: uint_word_of_int)
  then have v: "uint ?v = uint (the_role row r g) + j" using j(2) assms(7) by (simp add: uint_add16)
  show thesis
  proof (rule that [of "set_role row r ?v g1"])
    show "raise_stat (Inr t) row r base m g = Inr (set_role row r ?v g1)"
      by (simp add: raise_stat_def k(1) g1 j_def)
    show "only_roles g (set_role row r ?v g1)"
      using only_roles_trans [OF only_roles_seed [OF k(4)] only_roles_set] .
  qed (use assms(2,3) v j in \<open>auto simp: the_role_set_role g1\<close>)
qed

definition raise_all :: "u32 res \<Rightarrow> nat \<Rightarrow> (nat \<times> int \<times> int) list \<Rightarrow> GLOBALVARS \<Rightarrow> GLOBALVARS res" where
  "raise_all ticks r l = foldr (\<lambda>(row, base, m) k g. bindE (raise_stat ticks row r base m g) k) l Inr"

definition grown :: "nat \<Rightarrow> nat \<Rightarrow> GLOBALVARS \<Rightarrow> GLOBALVARS \<Rightarrow> nat \<times> int \<times> int \<Rightarrow> bool" where
  "grown r n g g' = (\<lambda>(row, base, m). uint (the_role row r g) + int n * base \<le> uint (the_role row r g') \<and>
     uint (the_role row r g') \<le> uint (the_role row r g) + int n * (base + m + 1))"

definition growable :: "nat \<Rightarrow> nat \<Rightarrow> GLOBALVARS \<Rightarrow> nat \<times> int \<times> int \<Rightarrow> bool" where
  "growable r n g = (\<lambda>(row, base, m). row < 75 \<and> 0 \<le> base \<and> - 1 \<le> m \<and> m \<le> 99 \<and>
     uint (the_role row r g) + int n * (base + m + 1) < 65536)"

lemma grown_cong: "the_role (fst x) r g1 = the_role (fst x) r g \<Longrightarrow> grown r n g1 g2 x = grown r n g g2 x"
  "the_role (fst x) r g1 = the_role (fst x) r g \<Longrightarrow> growable r n g1 x = growable r n g x"
  by (cases x; simp add: grown_def growable_def)+

definition grows :: "nat \<Rightarrow> nat \<Rightarrow> (nat \<times> int \<times> int) list \<Rightarrow> GLOBALVARS \<Rightarrow> GLOBALVARS \<Rightarrow> bool" where
  "grows r n l g g' \<longleftrightarrow> only_roles g g' \<and> (\<forall>x \<in> set l. grown r n g g' x) \<and>
     (\<forall>row' r'. r' < 6 \<and> (r' \<noteq> r \<or> row' \<notin> fst ` set l) \<longrightarrow> the_role row' r' g' = the_role row' r' g)"

lemma raise_all_grows:
  "roles_ok g \<Longrightarrow> r < 6 \<Longrightarrow> distinct (map fst l) \<Longrightarrow> \<forall>x \<in> set l. growable r 1 g x \<and> 0 \<le> snd (snd x) \<Longrightarrow>
   \<exists>g'. raise_all (Inr t) r l g = Inr g' \<and> grows r 1 l g g'"
proof (induction l arbitrary: g)
  case Nil
  then show ?case by (simp add: raise_all_def grows_def only_roles_refl)
next
  case (Cons x l)
  obtain row base m where x: "x = (row, base, m)" by (cases x) auto
  from Cons.prems(3,4) x have p: "row < 75" "0 \<le> base" "0 \<le> m" "m \<le> 99" "uint (the_role row r g) + base + m + 1 < 65536"
    "row \<notin> fst ` set l" "distinct (map fst l)" "\<forall>x \<in> set l. growable r 1 g x \<and> 0 \<le> snd (snd x)" by (auto simp: growable_def)
  obtain g1 where g1: "raise_stat (Inr t) row r base m g = Inr g1" "only_roles g g1"
    "uint (the_role row r g) + base \<le> uint (the_role row r g1)"
    "uint (the_role row r g1) \<le> uint (the_role row r g) + base + m + 1"
    "\<And>row' r'. r' < 6 \<Longrightarrow> (row', r') \<noteq> (row, r) \<Longrightarrow> the_role row' r' g1 = the_role row' r' g"
    using raise_stat_ok [OF Cons.prems(1,2) p(1-5)] by blast
  have ok: "roles_ok g1" using g1(2) Cons.prems(1) by (simp add: only_roles_def)
  have same: "the_role (fst y) r g1 = the_role (fst y) r g" if "y \<in> set l" for y
    using g1(5) [OF Cons.prems(2), of "fst y"] that p(6) by force
  have "\<forall>y \<in> set l. growable r 1 g1 y \<and> 0 \<le> snd (snd y)" using p(8) same by (simp add: grown_cong(2) [OF same])
  from Cons.IH [OF ok Cons.prems(2) p(7) this] obtain g2 where g2: "raise_all (Inr t) r l g1 = Inr g2" "grows r 1 l g1 g2" by blast
  have "the_role row r g2 = the_role row r g1" using g2(2) p(6) Cons.prems(2) by (simp add: grows_def)
  then have "grown r 1 g g2 x" using g1(3,4) x by (simp add: grown_def)
  moreover have "\<forall>y \<in> set l. grown r 1 g g2 y" using g2(2) by (simp add: grows_def grown_cong(1) [OF same])
  moreover have "the_role row' r' g2 = the_role row' r' g" if "r' < 6" "r' \<noteq> r \<or> row' \<notin> fst ` set (x # l)" for row' r'
  proof -
    have "the_role row' r' g2 = the_role row' r' g1" using g2(2) that by (auto simp: grows_def)
    also have "\<dots> = the_role row' r' g" using that x by (intro g1(5)) auto
    finally show ?thesis .
  qed
  ultimately have "grows r 1 (x # l) g g2"
    using g2(2) only_roles_trans [OF g1(2)] by (simp add: grows_def)
  then show ?case using g1(1) g2(1) x by (simp add: raise_all_def)
qed

abbreviation "level_growths \<equiv> (rgwFleeRate, 2, - 1) # growths"

lemma grows_add:
  assumes "grows r 1 l g g1" and "grows r n l g1 g2"
  shows "grows r (Suc n) l g g2"
proof -
  have "grown r (Suc n) g g2 x" if "x \<in> set l" for x
  proof -
    from assms that have "grown r 1 g g1 x" "grown r n g1 g2 x" by (simp_all add: grows_def)
    then show ?thesis by (simp add: grown_def algebra_simps split: prod.splits)
  qed
  then show ?thesis using assms only_roles_trans [of g g1 g2] by (simp add: grows_def)
qed

lemma growable_step:
  "growable r (Suc n) g x \<Longrightarrow> grown r 1 g g1 x \<Longrightarrow> growable r n g1 x"
  by (simp add: growable_def grown_def algebra_simps split: prod.splits)

lemma growable_less:
  assumes "growable r (Suc n) g x"
  shows "growable r 1 g x"
proof (cases x)
  case (fields row base m)
  from assms fields have p: "row < 75" "0 \<le> base" "- 1 \<le> m" "m \<le> 99"
    "uint (the_role row r g) + int (Suc n) * (base + m + 1) < 65536" by (simp_all add: growable_def)
  have "base + m + 1 \<le> int (Suc n) * (base + m + 1)" using p(2,3) mult_nonneg_nonneg [of "int n" "base + m + 1"]
    by (simp add: distrib_right)
  then show ?thesis using p fields by (simp add: growable_def)
qed

lemma raise_stats_grows:
  "roles_ok g \<Longrightarrow> r < 6 \<Longrightarrow> \<forall>x \<in> set level_growths. growable r n g x \<Longrightarrow>
   \<exists>g'. raise_stats (Inr t) r n g = Inr g' \<and> grows r n level_growths g g'"
proof (induction n arbitrary: g)
  case 0
  have "grown r 0 g g x" for x by (simp add: grown_def split: prod.split)
  then show ?case by (simp add: grows_def only_roles_refl)
next
  case (Suc n)
  have one: "\<forall>x \<in> set level_growths. growable r 1 g x" using Suc.prems(3) growable_less by blast
  have d: "distinct (map fst growths)" and "\<forall>x \<in> set growths. 0 \<le> snd (snd x)" by (simp_all add: growths_def)
  with one have "\<forall>x \<in> set growths. growable r 1 g x \<and> 0 \<le> snd (snd x)" by simp
  from raise_all_grows [OF Suc.prems(1,2) d this]
  obtain g1 where g1: "raise_all (Inr t) r growths g = Inr g1" "grows r 1 growths g g1" by blast
  let ?g2 = "set_role rgwFleeRate r (the_role rgwFleeRate r g1 + 2) g1"
  have ok: "roles_ok g1" using g1(2) Suc.prems(1) by (simp add: grows_def only_roles_def)
  have flee: "rgwFleeRate \<notin> fst ` set growths" by (simp add: growths_def)
  then have f: "the_role rgwFleeRate r g1 = the_role rgwFleeRate r g" using g1(2) Suc.prems(2) by (simp add: grows_def)
  have "uint (the_role rgwFleeRate r g) + 2 < 65536" using one by (simp add: growable_def)
  then have "uint (the_role rgwFleeRate r g + 2) = uint (the_role rgwFleeRate r g) + 2" by (simp add: uint_add16)
  then have "grown r 1 g ?g2 (rgwFleeRate, 2, - 1)"
    using the_role_set_role [OF ok Suc.prems(2,2), of 21] f by (simp add: grown_def)
  moreover have "grown r 1 g ?g2 x" if "x \<in> set growths" for x
  proof -
    have "fst x \<noteq> rgwFleeRate" using that flee by force
    then have "the_role (fst x) r ?g2 = the_role (fst x) r g1" using the_role_set_role [OF ok Suc.prems(2,2), of 21] by simp
    moreover have "grown r 1 g g1 x" using g1(2) that by (simp only: grows_def)
    ultimately show ?thesis by (cases x) (simp add: grown_def)
  qed
  ultimately have step: "grows r 1 level_growths g ?g2"
    using g1(2) only_roles_trans [OF _ only_roles_set] the_role_set_role [OF ok _ Suc.prems(2), of _ 21]
    by (simp add: grows_def)
  have ok2: "roles_ok ?g2" using ok by simp
  have "\<forall>x \<in> set level_growths. growable r n ?g2 x"
    using Suc.prems(3) step growable_step unfolding grows_def by blast
  from Suc.IH [OF ok2 Suc.prems(2) this] obtain g' where g': "raise_stats (Inr t) r n ?g2 = Inr g'"
    "grows r n level_growths ?g2 g'" by blast
  have "raise_stats (Inr t) r (Suc n) g = Inr g'"
    using g1(1) g'(1) by (simp add: raise_stats_fold raise_all_def del: raise_stats.simps)
  then show ?case using grows_add [OF step g'(2)] by blast
qed

lemma limit_stat_fold:
  "roles_ok g \<Longrightarrow> r < 6 \<Longrightarrow> \<forall>row \<in> set rows. row < 75 \<Longrightarrow>
   roles_ok (fold (limit_stat r) rows g) \<and> only_roles g (fold (limit_stat r) rows g) \<and>
   (\<forall>row' r'. r' < 6 \<longrightarrow> the_role row' r' (fold (limit_stat r) rows g) =
     (if r' = r \<and> row' \<in> set rows \<and> the_role row' r' g > 999 then 999 else the_role row' r' g))"
proof (induction rows arbitrary: g)
  case (Cons row rows)
  have "roles_ok (limit_stat r row g)" "only_roles g (limit_stat r row g)"
    using Cons.prems(1) by (simp_all add: limit_stat_def only_roles_set only_roles_refl)
  moreover have "the_role row' r' (limit_stat r row g) =
      (if r' = r \<and> row' = row \<and> the_role row' r' g > 999 then 999 else the_role row' r' g)" if "r' < 6" for row' r'
    using that Cons.prems by (auto simp: limit_stat_def the_role_set_role)
  ultimately show ?case
    using Cons.IH [of "limit_stat r row g"] Cons.prems only_roles_trans [of g "limit_stat r row g"] by auto
qed (simp add: only_roles_refl)

definition new_level :: "u16 \<Rightarrow> u16 \<Rightarrow> u16" where
  "new_level l n = (if l + n > 99 then 99 else l + n)"

lemma new_level_eq: "unat l \<le> 99 \<Longrightarrow> unat n \<le> 99 \<Longrightarrow> unat (new_level l n) = min 99 (unat l + unat n)"
  by (simp add: new_level_def word_less_nat_alt unat_word_ariths min_def)

lemma set_role_twice: "set_role row r v (set_role row r w g) = set_role row r v g"
  by (simp add: set_role_def role_set_def)

lemma PAL_PlayerLevelUp_eq:
  assumes "roles_ok g" and "unat role < 6"
  shows "PAL_PlayerLevelUp ticks role n g =
    bindE (raise_stats ticks (unat role) (unat n) (set_role rgwLevel (unat role) (new_level (the_role rgwLevel (unat role) g) n) g)) (\<lambda>g.
      let g = fold (limit_stat (unat role)) (map fst (growths @ [(rgwFleeRate, 2, - 1)])) g in
      Inr (g\<lparr>Exp := (Exp g)[unat role := (Exp g ! unat role)\<lparr>wExp := 0, wLevel := the_role rgwLevel (unat role) g\<rparr>]\<rparr>))"
  using assms
  by (simp add: PAL_PlayerLevelUp_def role_of_def Let_def new_level_def the_role_set_role set_role_twice growths_def cong: if_cong)

lemma growth_rows:
  "x \<in> set level_growths \<Longrightarrow>
   fst x \<noteq> 6 \<and> fst x < 75 \<and> 0 \<le> fst (snd x) \<and> fst (snd x) + snd (snd x) \<le> 18 \<and> - 1 \<le> snd (snd x)"
  by (auto simp: growths_def)

text \<open>The loop from the state with the new level on.\<close>

lemma level_up_raises:
  assumes "roles_ok g" and "r < 6" and "unat n \<le> 99"
    and "\<forall>(row, base, m) \<in> set level_growths. uint (the_role row r g) \<le> 999"
  obtains g2 where "raise_stats (Inr t) r (unat n) (set_role rgwLevel r l g) = Inr g2"
    "grows r (unat n) level_growths (set_role rgwLevel r l g) g2" "\<forall>x \<in> set level_growths. grown r (unat n) g g2 x"
proof -
  let ?g1 = "set_role rgwLevel r l g"
  have ok1: "roles_ok ?g1" using assms(1) by simp
  have same: "the_role (fst x) r ?g1 = the_role (fst x) r g" if "x \<in> set level_growths" for x
    using growth_rows [OF that] assms(1,2) by (simp add: the_role_set_role)
  have "growable r (unat n) ?g1 x" if x: "x \<in> set level_growths" for x
  proof -
    obtain row base m where [simp]: "x = (row, base, m)" by (cases x)
    have "int (unat n) \<le> 99" using assms(3) by linarith
    then have "int (unat n) * (base + m + 1) \<le> 99 * 19" using growth_rows [OF x] by (intro mult_mono) simp_all
    moreover have "uint (the_role row r g) \<le> 999" using assms(4) x by auto
    ultimately have "uint (the_role row r g) + int (unat n) * (base + m + 1) < 65536" by linarith
    then show ?thesis using growth_rows [OF x] same [OF x] by (simp add: growable_def)
  qed
  then obtain g2 where g2: "raise_stats (Inr t) r (unat n) ?g1 = Inr g2" "grows r (unat n) level_growths ?g1 g2"
    using raise_stats_grows [OF ok1 assms(2)] by blast
  then have "\<forall>x \<in> set level_growths. grown r (unat n) g g2 x"
    using grown_cong(1) [OF same] by (simp only: grows_def) blast
  then show thesis using that g2 by blast
qed

text \<open>
  \<^bold>\<open>C38\<close> \<open>PAL_PlayerLevelUp\<close> by at most 99 levels, on a player whose level is at most 99 and whose values are at
  most 999: it returns; the level is the sum, at most 99; every value grows for each level by its base amount
  and at most one more than the range of the random part, cut to 999, the flee rate by exactly 2; no other
  value of this player and none of another changes; and the primary experience starts again at 0.
\<close>
theorem level_up_bounds:
  assumes "roles_ok g" and "unat role < 6" and "unat (the_role rgwLevel (unat role) g) \<le> 99" and "unat n \<le> 99"
    and "\<forall>(row, base, m) \<in> set level_growths. uint (the_role row (unat role) g) \<le> 999" and "length (Exp g) = 48"
  shows "\<exists>g'. PAL_PlayerLevelUp (Inr t) role n g = Inr g' \<and>
    unat (the_role rgwLevel (unat role) g') = min 99 (unat (the_role rgwLevel (unat role) g) + unat n) \<and>
    (\<forall>(row, base, m) \<in> set level_growths.
       min 999 (uint (the_role row (unat role) g) + int (unat n) * base) \<le> uint (the_role row (unat role) g') \<and>
       uint (the_role row (unat role) g') \<le> min 999 (uint (the_role row (unat role) g) + int (unat n) * (base + m + 1))) \<and>
    (\<forall>row r. r < 6 \<and> (r \<noteq> unat role \<or> row \<notin> insert rgwLevel (fst ` set level_growths)) \<longrightarrow> the_role row r g' = the_role row r g) \<and>
    wExp (Exp g' ! unat role) = 0 \<and> wLevel (Exp g' ! unat role) = the_role rgwLevel (unat role) g'"
proof -
  let ?r = "unat role" and ?rows = "map fst (growths @ [(rgwFleeRate, 2, - 1)])"
  let ?g1 = "set_role rgwLevel ?r (new_level (the_role rgwLevel ?r g) n) g"
  obtain g2 where g2: "raise_stats (Inr t) ?r (unat n) ?g1 = Inr g2" "grows ?r (unat n) level_growths ?g1 g2"
    "\<forall>x \<in> set level_growths. grown ?r (unat n) g g2 x"
    using level_up_raises [OF assms(1,2,4,5)] by blast
  define g3 where "g3 = fold (limit_stat ?r) ?rows g2"
  have rs: "set ?rows = fst ` set level_growths" by auto
  have six: "6 \<notin> fst ` set level_growths" and rows: "\<forall>row \<in> set ?rows. row < 75" unfolding rs using growth_rows by force+
  have "roles_ok g2" using g2(2) assms(1) by (simp add: grows_def only_roles_def)
  from limit_stat_fold [OF this assms(2) rows] have g3: "only_roles g2 g3"
    "\<And>row r. r < 6 \<Longrightarrow> the_role row r g3 = (if r = ?r \<and> row \<in> fst ` set level_growths \<and> the_role row r g2 > 999 then 999 else the_role row r g2)"
    unfolding g3_def rs [symmetric] by blast+
  define g' where "g' = g3\<lparr>Exp := (Exp g3)[?r := (Exp g3 ! ?r)\<lparr>wExp := 0, wLevel := the_role rgwLevel ?r g3\<rparr>]\<rparr>"
  have g': "the_role row r g' = the_role row r g3" for row r by (simp add: g'_def the_role_def)
  have res: "PAL_PlayerLevelUp (Inr t) role n g = Inr g'"
    using PAL_PlayerLevelUp_eq [OF assms(1,2)] g2(1) by (simp add: g'_def g3_def Let_def)
  have other: "the_role row r g' = (if row = 6 \<and> r = ?r then new_level (the_role rgwLevel ?r g) n else the_role row r g)"
    if "r < 6" "r \<noteq> ?r \<or> row \<notin> fst ` set level_growths" for row r
    using g' g3(2) [OF that(1)] g2(2) that assms(1,2) by (auto simp: grows_def the_role_set_role)
  have lev: "the_role rgwLevel ?r g' = new_level (the_role rgwLevel ?r g) n"
    using other [OF assms(2)] six by simp
  have "Exp g3 = Exp g" using g3(1) g2(2) by (cases g; cases g2; cases g3) (simp add: only_roles_def grows_def set_role_def)
  then have e: "wExp (Exp g' ! ?r) = 0" "wLevel (Exp g' ! ?r) = the_role rgwLevel ?r g'"
    using assms(2,6) by (simp_all add: g'_def the_role_def)
  have b: "case x of (row, base, m) \<Rightarrow> min 999 (uint (the_role row ?r g) + int (unat n) * base) \<le> uint (the_role row ?r g') \<and>
      uint (the_role row ?r g') \<le> min 999 (uint (the_role row ?r g) + int (unat n) * (base + m + 1))" if x: "x \<in> set level_growths" for x
  proof -
    obtain row base m where [simp]: "x = (row, base, m)" by (cases x)
    have "row \<in> fst ` set level_growths" using x by force
    then have "the_role row ?r g' = (if the_role row ?r g2 > 999 then 999 else the_role row ?r g2)"
      using g' g3(2) [OF assms(2)] by simp
    then show ?thesis using g2(3) x by (auto simp: grown_def word_less_def)
  qed
  show ?thesis
    using res lev new_level_eq [OF assms(3,4)] b other e by (intro exI [of _ g']) auto
qed

theorem level_up_bounds_witness:
  "\<exists>g g'. PAL_PlayerLevelUp (Inr 7) 1 3 g = Inr g' \<and> unat (the_role rgwLevel 1 g') = 23 \<and> uint (the_role rgwFleeRate 1 g') = 506 \<and>
    530 \<le> uint (the_role rgwMaxHP 1 g') \<and> uint (the_role rgwMaxHP 1 g') \<le> 557"
proof -
  fix g :: GLOBALVARS
  define e :: EXPERIENCE where "e = \<lparr>wExp = 9, wReserved = 0, wLevel = 20, wCount = 0\<rparr>"
  define h where "h = set_role rgwLevel 1 20 (all_500 g)\<lparr>Exp := replicate 48 e\<rparr>"
  have h: "roles_ok h" "the_role rgwLevel 1 h = 20" "\<And>row. row < 75 \<Longrightarrow> row \<noteq> 6 \<Longrightarrow> the_role row 1 h = 500" "length (Exp h) = 48"
    using all_500_facts(1) [of g] all_500_facts(2) [of _ 1 g]
    by (simp_all add: h_def the_role_def roles_ok_def set_role_def role_get_set)
  show ?thesis
    using level_up_bounds [of h 1 3 7] h by - (rule exI [of _ h], auto simp: growths_def)
qed

section \<open>Poisons\<close>

lemma poison_at_set:
  "index < 5 \<Longrightarrow> index' < 5 \<Longrightarrow> i' < 16 \<Longrightarrow> length (rgPoisonStatus g) = 80 \<Longrightarrow>
   poison_at i index (set_poison i' index' v g) = (if i = i' \<and> index = index' then v else poison_at i index g)"
proof -
  assume "index < 5" "index' < 5" "i' < 16" "length (rgPoisonStatus g) = 80"
  moreover from this have "i * 5 + index = i' * 5 + index' \<longleftrightarrow> i = i' \<and> index = index'" by presburger
  ultimately show ?thesis by (simp add: poison_at_def set_poison_def nth_list_update eq_commute [of "i' * 5 + index'"])
qed

definition poison_ids :: "nat \<Rightarrow> GLOBALVARS \<Rightarrow> u16 list" where
  "poison_ids index g = map (\<lambda>i. wPoisonID (poison_at i index g)) [0..<MAX_POISONS]"

definition poisons_ok :: "nat \<Rightarrow> GLOBALVARS \<Rightarrow> bool" where
  "poisons_ok index g \<longleftrightarrow> index < 5 \<and> length (rgPoisonStatus g) = 80"

lemma poison_ids_set:
  "poisons_ok index g \<Longrightarrow> i < 16 \<Longrightarrow> poison_ids index (set_poison i index v g) = (poison_ids index g)[i := wPoisonID v]"
  by (rule nth_equalityI) (auto simp: poison_ids_def poisons_ok_def poison_at_set nth_list_update)

lemma poisons_ok_set [simp]: "poisons_ok index (set_poison i index' v g) = poisons_ok index g"
  by (simp add: poisons_ok_def set_poison_def)

lemma set_poison_frame [simp]:
  "member_index r (set_poison i index v g) = member_index r g" "rgObject (set_poison i index v g) = rgObject g"
  "length (rgPoisonStatus (set_poison i index v g)) = length (rgPoisonStatus g)"
  by (simp_all add: member_index_def set_poison_def)

fun first_place :: "u16 \<Rightarrow> nat \<Rightarrow> u16 list \<Rightarrow> nat option" where
  "first_place p i [] = None"
| "first_place p i (w # ws) = (if w = 0 then Some i else if w = p then None else first_place p (i + 1) ws)"

lemma poison_place_upt:
  "poison_place index p [i..<j] g = first_place p i (map (\<lambda>i. wPoisonID (poison_at i index g)) [i..<j])"
proof (induction "j - i" arbitrary: i)
  case (Suc n)
  then have "[i..<j] = i # [i + 1..<j]" by (simp add: upt_conv_Cons)
  then show ?case using Suc(1) [of "i + 1"] Suc(2) by (simp add: Let_def)
qed simp

lemma add_poison_ids:
  assumes "member_index r g = Inr (Some index)" and "poisons_ok index g" and "unat p < length (rgObject g)"
  shows "\<exists>g'. PAL_AddPoisonForPlayer r p g = Inr g' \<and> poisons_ok index g' \<and> member_index r g' = Inr (Some index) \<and>
    rgObject g' = rgObject g \<and>
    poison_ids index g' = (case first_place p 0 (poison_ids index g) of None \<Rightarrow> poison_ids index g | Some i \<Rightarrow> (poison_ids index g)[i := p])"
proof -
  have place: "poison_place index p [0..<16] g = first_place p 0 (poison_ids index g)"
    by (simp add: poison_place_upt poison_ids_def)
  have bound: "first_place p k ws = Some i \<Longrightarrow> i < k + length ws" for k ws i
    by (induction ws arbitrary: k) (auto split: if_splits, fastforce)
  have sixteen: "length (poison_ids index g) = 16" by (simp add: poison_ids_def)
  show ?thesis
    using assms bound [of 0 "poison_ids index g"] sixteen
    by (auto simp: PAL_AddPoisonForPlayer_def place poison_ids_set split: option.split)
qed

lemma cure_poison_ids:
  assumes "member_index r g = Inr (Some index)" and "poisons_ok index g"
  shows "\<exists>g'. PAL_CurePoisonByKind r p g = Inr g' \<and> poisons_ok index g' \<and> member_index r g' = Inr (Some index) \<and>
    rgObject g' = rgObject g \<and> poison_ids index g' = map (\<lambda>w. if w = p then 0 else w) (poison_ids index g)"
proof -
  let ?f = "\<lambda>i g. if wPoisonID (poison_at i index g) = p then set_poison i index no_poison g else g"
  have "poisons_ok index (fold ?f [0..<n] g) \<and> member_index r (fold ?f [0..<n] g) = Inr (Some index) \<and>
      rgObject (fold ?f [0..<n] g) = rgObject g \<and>
      (\<forall>i < 16. wPoisonID (poison_at i index (fold ?f [0..<n] g)) =
        (if i < n \<and> wPoisonID (poison_at i index g) = p then 0 else wPoisonID (poison_at i index g)))" if "n \<le> 16" for n
    using that
  proof (induction n)
    case (Suc n)
    then show ?case by (auto simp: poisons_ok_def poison_at_set no_poison_def less_Suc_eq)
  qed (use assms in simp)
  from this [of 16] show ?thesis
    using assms(1) by (auto simp: PAL_CurePoisonByKind_def poison_ids_def)
qed

text \<open>
  A cured poison leaves a hole in the list, and the search for a free place stops at the first hole: a
  member without poisons who gets poison \<open>a\<close> and poison \<open>p\<close>, is cured of \<open>a\<close> and gets \<open>p\<close> again has \<open>p\<close>
  twice, although the check for it is there; its script would run twice a round.
\<close>
lemma poison_listed_twice:
  assumes "member_index role g = Inr (Some index)" and "poisons_ok index g" and "poison_ids index g = replicate 16 0"
    and "unat a < length (rgObject g)" and "unat p < length (rgObject g)" and "a \<noteq> 0" "p \<noteq> 0" "a \<noteq> p"
  shows "\<exists>g1 g2 g3 g4. PAL_AddPoisonForPlayer role a g = Inr g1 \<and> PAL_AddPoisonForPlayer role p g1 = Inr g2 \<and>
    PAL_CurePoisonByKind role a g2 = Inr g3 \<and> PAL_AddPoisonForPlayer role p g3 = Inr g4 \<and>
    poison_ids index g2 = a # p # replicate 14 0 \<and> poison_ids index g4 = p # p # replicate 14 0"
proof -
  have r: "replicate 16 0 = 0 # 0 # replicate 14 (0 :: u16)" by (simp add: numeral_eq_Suc)
  obtain g1 where g1: "PAL_AddPoisonForPlayer role a g = Inr g1" "poisons_ok index g1"
    "member_index role g1 = Inr (Some index)" "rgObject g1 = rgObject g" "poison_ids index g1 = a # 0 # replicate 14 0"
    using add_poison_ids [OF assms(1,2,4)] assms(3) by (auto simp: r)
  obtain g2 where g2: "PAL_AddPoisonForPlayer role p g1 = Inr g2" "poisons_ok index g2"
    "member_index role g2 = Inr (Some index)" "rgObject g2 = rgObject g" "poison_ids index g2 = a # p # replicate 14 0"
    using add_poison_ids [OF g1(3,2), of p] g1(4,5) assms(5,6,8) by auto
  obtain g3 where g3: "PAL_CurePoisonByKind role a g2 = Inr g3" "poisons_ok index g3"
    "member_index role g3 = Inr (Some index)" "rgObject g3 = rgObject g" "poison_ids index g3 = 0 # p # replicate 14 0"
    using cure_poison_ids [OF g2(3,2), of a] g2(4,5) assms(6,8) by (auto simp: map_replicate)
  obtain g4 where "PAL_AddPoisonForPlayer role p g3 = Inr g4" "poison_ids index g4 = p # p # replicate 14 0"
    using add_poison_ids [OF g3(3,2), of p] g3(4,5) assms(5) by auto
  then show ?thesis using g1(1) g2(1,5) g3(1) by blast
qed

definition healthy :: "GLOBALVARS \<Rightarrow> GLOBALVARS" where
  "healthy g = g\<lparr>rgParty := replicate 5 \<lparr>wPlayerRole = 3, party_x = 0, party_y = 0, wFrame = 0, wImageOffset = 0\<rparr>,
     wMaxPartyMemberIndex := 0, rgPoisonStatus := replicate 80 no_poison, rgObject := replicate 600 (replicate 6 0)\<rparr>"

theorem poison_listed_twice_witness:
  "\<exists>g g2 g4. PAL_CurePoisonByKind 3 551 g2 = Inr g \<and> PAL_AddPoisonForPlayer 3 552 g = Inr g4 \<and>
    poison_ids 0 g2 = 551 # 552 # replicate 14 0 \<and> poison_ids 0 g4 = 552 # 552 # replicate 14 0"
proof -
  fix g
  have "member_index 3 (healthy g) = Inr (Some 0)" "poisons_ok 0 (healthy g)" "length (rgObject (healthy g)) = 600"
    by (simp_all add: healthy_def member_index_def poisons_ok_def)
  moreover have "poison_ids 0 (healthy g) = replicate 16 0"
    by (rule nth_equalityI) (simp_all add: healthy_def poison_ids_def poison_at_def no_poison_def)
  ultimately show ?thesis using poison_listed_twice [of 3 "healthy g" 0 551 552] by auto
qed

end
