(* ===== verification/PalSaveCorrect.thy ===== *)
theory PalSaveCorrect
  imports PalSave PalShop PalLevels PalBlit
begin

text \<open>Saving a game and loading it again.\<close>

section \<open>Words\<close>

lemma bytes_of_simps [simp]: "bytes_of [] = []" "bytes_of (w # ws) = ucast w # ucast (drop_bit 8 w) # bytes_of ws"
  by (simp_all add: bytes_of_def)

lemma length_bytes_of [simp]: "length (bytes_of ws) = 2 * length ws"
  by (induction ws) simp_all

lemma two_bytes: "ucast (ucast w :: u8) OR push_bit 8 (ucast (ucast (drop_bit 8 w) :: u8)) = (w :: u16)"
proof (rule bit_word_eqI)
  fix n assume "n < LENGTH(16)"
  then show "bit (ucast (ucast w :: u8) OR push_bit 8 (ucast (ucast (drop_bit 8 w) :: u8)) :: u16) n \<longleftrightarrow> bit w n"
    by (cases "n < 8") (auto simp: bit_simps)
qed

lemma words_bytes [simp]: "words_of (bytes_of ws) = ws"
  by (induction ws) (simp_all add: two_bytes)

lemma two_words: "ucast (ucast c :: u16) OR push_bit 16 (ucast (ucast (drop_bit 16 c) :: u16)) = (c :: u32)"
proof (rule bit_word_eqI)
  fix n assume "n < LENGTH(32)"
  then show "bit (ucast (ucast c :: u16) OR push_bit 16 (ucast (ucast (drop_bit 16 c) :: u16)) :: u32) n \<longleftrightarrow> bit c n"
    by (cases "n < 16") (auto simp: bit_simps)
qed

lemma ucast_8_16_8: "ucast (ucast b :: u16) = (b :: u8)"
  by (rule bit_word_eqI) (auto simp: bit_simps)

lemma PAL_XY_X_Y: "PAL_XY (word_of_int (PAL_X p)) (word_of_int (PAL_Y p)) = p"
  using two_words [of p] by (simp add: PAL_XY_def PAL_X_def PAL_Y_def or.commute)

lemma rows_concat: "\<forall>x \<in> set xs. length (f x) = n \<Longrightarrow> rows n (length xs) (concat (map f xs)) = map f xs"
  by (induction xs) simp_all

lemma rows_concat': "\<forall>x \<in> set xs. length (f x) = n \<Longrightarrow> length xs = k \<Longrightarrow> rows n k (concat (map f xs)) = map f xs"
  using rows_concat by blast

lemma length_concat_map: "\<forall>x \<in> set xs. length (f x) = n \<Longrightarrow> length (concat (map f xs)) = n * length xs"
  by (induction xs) simp_all

lemma struct_words [simp]:
  "event_object (event_words e) = e" "scene (scene_words s) = s" "party (party_words m) = m" "trail (trail_words t) = t"
  "experience (exp_words x) = x" "inventory_item (item_words it) = it"
  by (simp_all add: event_object_def event_words_def scene_def scene_words_def party_def party_words_def trail_def trail_words_def
      experience_def exp_words_def inventory_item_def item_words_def)

lemma length_struct [simp]:
  "length (event_words e) = 16" "length (scene_words s) = 4" "length (party_words m) = 5" "length (trail_words t) = 3"
  "length (exp_words x) = 4" "length (item_words it) = 3" "length (poison_words p) = 2" "length (saved_head k g) = 22"
  by (simp_all add: event_words_def scene_words_def party_words_def trail_words_def exp_words_def item_words_def poison_words_def
      saved_head_def)

section \<open>Saved games\<close>

definition shapes_ok :: "GLOBALVARS \<Rightarrow> bool" where
  "shapes_ok g \<longleftrightarrow> length (rgParty g) = 5 \<and> length (rgTrail g) = 5 \<and> length (Exp g) = 48 \<and> length (PlayerRoles g) = 450 \<and>
     length (rgPoisonStatus g) = 80 \<and> length (rgInventory g) = 256 \<and> length (rgScene g) = 300 \<and> length (rgObject g) = 600 \<and>
     (\<forall>ob \<in> set (rgObject g). length ob = 6) \<and> length (lprgEventObject g) \<le> 5500"

lemma saved_at_append:
  "length a \<le> i \<Longrightarrow> saved_at i n (a @ b) = saved_at (i - length a) n b"
  "i + n \<le> length a \<Longrightarrow> saved_at i n (a @ b) = saved_at i n a"
  "n = length a \<Longrightarrow> saved_at 0 n (a @ b) = a"
  by (simp_all add: saved_at_def)

lemma saved_parts:
  fixes k :: u16
  assumes "shapes_ok g"
    and ws_def: "ws = saved_words k g"
  shows "i < 22 \<Longrightarrow> ws ! i = saved_head k g ! i"
    "saved_at 22 25 ws = concat (map party_words (rgParty g))" "saved_at 47 15 ws = concat (map trail_words (rgTrail g))"
    "saved_at 62 192 ws = concat (map exp_words (Exp g))" "saved_at 254 450 ws = PlayerRoles g"
    "saved_at 864 768 ws = concat (map item_words (rgInventory g))" "saved_at 1632 1200 ws = concat (map scene_words (rgScene g))"
    "saved_at 2832 3600 ws = concat (rgObject g)"
    "saved_at 6432 (16 * length (lprgEventObject g)) ws = concat (map event_words (lprgEventObject g))"
    "length ws = 6432 + 16 * length (lprgEventObject g)"
proof -
  have l: "length (concat (map party_words (rgParty g))) = 25" "length (concat (map trail_words (rgTrail g))) = 15"
    "length (concat (map exp_words (Exp g))) = 192" "length (PlayerRoles g) = 450"
    "length (concat (map poison_words (rgPoisonStatus g))) = 160" "length (concat (map item_words (rgInventory g))) = 768"
    "length (concat (map scene_words (rgScene g))) = 1200"
    "length (concat (map event_words (lprgEventObject g))) = 16 * length (lprgEventObject g)"
    using assms(1)
      length_concat_map [of "rgParty g" party_words 5] length_concat_map [of "rgTrail g" trail_words 3]
      length_concat_map [of "Exp g" exp_words 4] length_concat_map [of "rgPoisonStatus g" poison_words 2]
      length_concat_map [of "rgInventory g" item_words 3] length_concat_map [of "rgScene g" scene_words 4]
      length_concat_map [of "lprgEventObject g" event_words 16]
    by (simp_all only: shapes_ok_def length_struct) simp_all
  have ob: "length (concat (rgObject g)) = 3600"
    using assms(1) length_concat_map [of "rgObject g" id 6] by (simp add: shapes_ok_def)
  note l = l ob
  show "i < 22 \<Longrightarrow> ws ! i = saved_head k g ! i" by (simp add: ws_def saved_words_def nth_append)
  show "saved_at 22 25 ws = concat (map party_words (rgParty g))" "saved_at 47 15 ws = concat (map trail_words (rgTrail g))"
    "saved_at 62 192 ws = concat (map exp_words (Exp g))" "saved_at 254 450 ws = PlayerRoles g"
    "saved_at 864 768 ws = concat (map item_words (rgInventory g))" "saved_at 1632 1200 ws = concat (map scene_words (rgScene g))"
    "saved_at 2832 3600 ws = concat (rgObject g)"
    unfolding ws_def saved_words_def by (simp_all only: saved_at_append l length_struct numeral_le_one_iff diff_self_eq_0 le_numeral_extra
        rel_simps arith_simps diff_numeral_simps) (simp_all add: saved_at_def l del: length_concat)
  show "saved_at 6432 (16 * length (lprgEventObject g)) ws = concat (map event_words (lprgEventObject g))"
    unfolding ws_def saved_words_def saved_at_def by (simp add: l del: length_concat)
  show "length ws = 6432 + 16 * length (lprgEventObject g)"
    unfolding ws_def saved_words_def by (simp add: l del: length_concat)
qed

text \<open>What loading leaves of a game that was saved.\<close>

definition reloaded :: "GLOBALVARS \<Rightarrow> GLOBALVARS \<Rightarrow> GLOBALVARS" where
  "reloaded g g0 = PAL_CompressInventory (g0\<lparr>
     viewport := viewport g, wMaxPartyMemberIndex := wMaxPartyMemberIndex g, wNumScene := wNumScene g,
     fNightPalette := fNightPalette g, wPartyDirection := wPartyDirection g, wNumMusic := wNumMusic g,
     wNumBattleMusic := wNumBattleMusic g, wNumBattleField := wNumBattleField g, wScreenWave := wScreenWave g,
     sWaveProgression := 0, wCollectValue := wCollectValue g, wLayer := wLayer g, wChaseRange := wChaseRange g,
     wChasespeedChangeCycles := wChasespeedChangeCycles g, nFollower := nFollower g, dwCash := dwCash g,
     bBattleSpeed := speed_or_2 (bBattleSpeed g), rgParty := rgParty g, rgTrail := rgTrail g, Exp := Exp g,
     PlayerRoles := PlayerRoles g, rgPoisonStatus := replicate 80 no_poison, rgInventory := rgInventory g,
     rgScene := rgScene g, rgObject := rgObject g, lprgEventObject := lprgEventObject g, fEnteringScene := False\<rparr>)"

lemma saved_file:
  assumes "shapes_ok g" and "PAL_MKFGetChunkSize 0 (fpSSS g) = Inr (32 * int (length (lprgEventObject g)))"
  shows "PAL_SaveGame True name k g files = Inr (files(name \<mapsto> bytes_of (saved_words k g)))"
proof -
  have "length (saved_words k g) = 6432 + 16 * length (lprgEventObject g)" by (rule saved_parts(10) [OF assms(1) refl])
  moreover have "nat (32 * int (length (lprgEventObject g))) = 32 * length (lprgEventObject g)" by simp
  ultimately show ?thesis using assms by (simp add: PAL_SaveGame_def shapes_ok_def)
qed

lemma load_saved:
  assumes g: "shapes_ok g" and n: "length (lprgEventObject g0) = length (lprgEventObject g)" and f: "files name = Some (bytes_of (saved_words k g))"
  shows "PAL_LoadGame name files g0 = Inr (0, reloaded g g0)"
proof -
  let ?ws = "saved_words k g" and ?n = "length (lprgEventObject g)"
  note p = saved_parts [OF g refl, where k = k]
  have h: "?ws ! i = saved_head k g ! i" if "i < 22" for i using p(1) that by blast
  have r: "map party (rows 5 5 (saved_at 22 25 ?ws)) = rgParty g" "map trail (rows 3 5 (saved_at 47 15 ?ws)) = rgTrail g"
    "map experience (rows 4 48 (saved_at 62 192 ?ws)) = Exp g"
    "map inventory_item (rows 3 256 (saved_at 864 768 ?ws)) = rgInventory g"
    "map scene (rows 4 300 (saved_at 1632 1200 ?ws)) = rgScene g"
    "map event_object (rows 16 ?n (saved_at 6432 (16 * ?n) ?ws)) = lprgEventObject g"
    using g unfolding p shapes_ok_def by (simp_all add: rows_concat' o_def)
  have ob: "rows 6 600 (saved_at 2832 3600 ?ws) = rgObject g"
    using g rows_concat' [of "rgObject g" id 6 600] unfolding p shapes_ok_def by simp
  have x: "PAL_XY (?ws ! 1) (?ws ! 2) = viewport g" "ucast (?ws ! 20) OR push_bit 16 (ucast (?ws ! 21)) = dwCash g"
    "ucast (?ws ! 11) = bBattleSpeed g"
    using PAL_XY_X_Y [of "viewport g"] two_words [of "dwCash g"] by (simp_all add: h saved_head_def ucast_8_16_8)
  have "6432 + 16 * ?n \<le> length ?ws \<and> ?n \<le> 5500" using p(10) g by (simp add: shapes_ok_def)
  then show ?thesis
    by (simp add: PAL_LoadGame_def Let_def f n reloaded_def r ob x p(5)) (simp add: h saved_head_def PAL_XY_X_Y two_words ucast_8_16_8)
qed

text \<open>
  \<^bold>\<open>C37\<close> Round trip of \<open>PAL_SaveGame\<close> and \<open>PAL_LoadGame\<close> through the bytes of the file, into any program state
  with as many event objects: the players, their experience, the party, its trail and position, the cash, the
  scenes, objects and event objects come back as they were, the inventory with the same amounts; no other file
  is touched. What does not come back are the poisons: they are written to the file, but loading clears them.
\<close>
theorem save_load_round_trip:
  assumes "shapes_ok g" and "inventory_ok g" and "length (lprgEventObject g0) = length (lprgEventObject g)"
    and "PAL_MKFGetChunkSize 0 (fpSSS g) = Inr (32 * int (length (lprgEventObject g)))"
  shows "\<exists>bs g'. PAL_SaveGame True name k g files = Inr (files(name \<mapsto> bs)) \<and>
    PAL_LoadGame name (files(name \<mapsto> bs)) g0 = Inr (0, g') \<and>
    PlayerRoles g' = PlayerRoles g \<and> Exp g' = Exp g \<and> rgParty g' = rgParty g \<and> rgTrail g' = rgTrail g \<and>
    wMaxPartyMemberIndex g' = wMaxPartyMemberIndex g \<and> viewport g' = viewport g \<and> wNumScene g' = wNumScene g \<and>
    fNightPalette g' = fNightPalette g \<and> dwCash g' = dwCash g \<and> wCollectValue g' = wCollectValue g \<and>
    rgScene g' = rgScene g \<and> rgObject g' = rgObject g \<and> lprgEventObject g' = lprgEventObject g \<and>
    stock g' = stock g \<and> inventory_ok g' \<and> rgPoisonStatus g' = replicate 80 no_poison"
proof -
  let ?bs = "bytes_of (saved_words k g)" and ?h = "g0\<lparr>rgInventory := rgInventory g\<rparr>"
  have load: "PAL_LoadGame name (files(name \<mapsto> ?bs)) g0 = Inr (0, reloaded g g0)"
    using load_saved [OF assms(1,3)] by simp
  have "inventory_ok ?h" "stock ?h = stock g" using assms(2) by (simp_all add: inventory_ok_def stock_def fun_eq_iff)
  with PAL_CompressInventory_keeps [of ?h] have "inventory_ok (PAL_CompressInventory ?h)" "stock (PAL_CompressInventory ?h) = stock g"
    by simp_all
  then have "inventory_ok (reloaded g g0)" "stock (reloaded g g0) = stock g"
    by (simp_all add: reloaded_def PAL_CompressInventory_def inventory_ok_def stock_def fun_eq_iff)
  then show ?thesis
    using saved_file [OF assms(1,4), of name k files] load
    by (intro exI [of _ ?bs] exI [of _ "reloaded g g0"]) (simp add: reloaded_def PAL_CompressInventory_def)
qed

definition new_game :: "GLOBALVARS \<Rightarrow> GLOBALVARS" where
  "new_game g = g\<lparr>rgParty := replicate 5 (party [1, 2, 3, 4, 5]), rgTrail := replicate 5 (trail [1, 2, 3]),
     Exp := replicate 48 (experience [1, 2, 3, 4]), PlayerRoles := replicate 450 9, rgPoisonStatus := replicate 80 \<lparr>wPoisonID = 5, wPoisonScript = 6\<rparr>,
     rgInventory := [\<lparr>wItem = 5, nAmount = 98, nAmountInUse = 0\<rparr>, \<lparr>wItem = 7, nAmount = 99, nAmountInUse = 0\<rparr>] @ replicate 254 no_item,
     rgScene := replicate 300 (scene [1, 2, 3, 4]), rgObject := replicate 600 (replicate 6 8),
     lprgEventObject := [event_object (replicate 16 7)], fpSSS := mkf_pack [replicate 32 7], dwCash := 123456\<rparr>"

theorem save_load_round_trip_witness:
  "\<exists>g bs g'. PAL_SaveGame True ''1.rpg'' 1 g Map.empty = Inr [''1.rpg'' \<mapsto> bs] \<and>
    PAL_LoadGame ''1.rpg'' [''1.rpg'' \<mapsto> bs] g = Inr (0, g') \<and> dwCash g' = 123456 \<and> stock g' 7 = 99 \<and>
    wPoisonID (rgPoisonStatus g ! 0) = 5 \<and> wPoisonID (rgPoisonStatus g' ! 0) = 0"
proof -
  fix g0
  let ?g = "new_game g0"
  have i: "rgInventory ?g = [\<lparr>wItem = 5, nAmount = 98, nAmountInUse = 0\<rparr>, \<lparr>wItem = 7, nAmount = 99, nAmountInUse = 0\<rparr>] @ replicate 254 no_item"
    by (simp add: new_game_def)
  have "inventory_ok ?g" using inventory_ok_append [OF two_items_inven i] by simp
  moreover have "stock ?g 7 = 99" by (simp add: stock_def i)
  moreover have "shapes_ok ?g" by (simp add: shapes_ok_def new_game_def)
  moreover have "PAL_MKFGetChunkSize 0 (fpSSS ?g) = Inr (32 * int (length (lprgEventObject ?g)))"
    using mkf_read_pack [of 0 "[replicate 32 7]" 32] by (simp add: new_game_def)
  ultimately show ?thesis
    using save_load_round_trip [of ?g ?g "''1.rpg''" 1 Map.empty]
    by - (rule exI [of _ ?g], auto simp: new_game_def no_poison_def)
qed

end
