(* ===== verification/PalKeep.thy ===== *)
theory PalKeep
  imports PalPlay PalSceneCorrect PalSaveCorrect
begin

text \<open>
  What keeps the global data well-formed: the inventory has its invariant, and the arrays, whose lengths are facts of
  their C types, keep them in the lists of the model. The rules in \<open>keep\<close> follow the structure of the definitions.
\<close>

named_theorems keep \<open>rules for what a computation keeps\<close>

section \<open>What a result satisfies\<close>

definition ensures :: "('a \<Rightarrow> bool) \<Rightarrow> 'a Prelude.res \<Rightarrow> bool" where
  "ensures P m \<longleftrightarrow> (\<forall>x. m = Inr x \<longrightarrow> P x)"

lemma ensures_simps [simp]: "ensures P (Inl e)" "ensures P (Inr x) = P x"
  by (simp_all add: ensures_def)

lemma ensures_if [keep]: "(b \<Longrightarrow> ensures P x) \<Longrightarrow> (\<not> b \<Longrightarrow> ensures P y) \<Longrightarrow> ensures P (if b then x else y)"
  by simp

lemma ensures_definedE [keep]: "(b \<Longrightarrow> ensures P m) \<Longrightarrow> ensures P (definedE t b m)"
  by (simp add: definedE_def)

lemma ensures_assertE [keep]: "(b \<Longrightarrow> ensures P m) \<Longrightarrow> ensures P (assertE t b m)"
  by (simp add: assertE_def)

lemma ensures_role_of [keep]: "(\<And>r. r < 6 \<Longrightarrow> ensures P (f r)) \<Longrightarrow> ensures P (role_of w f)"
  by (simp add: role_of_def definedE_def)

lemma ensures_prod [keep]: "(\<And>a b. x = (a, b) \<Longrightarrow> ensures P (f a b)) \<Longrightarrow> ensures P (case x of (a, b) \<Rightarrow> f a b)"
  by (cases x) simp

lemma ensures_option [keep]:
  "(x = None \<Longrightarrow> ensures P a) \<Longrightarrow> (\<And>y. x = Some y \<Longrightarrow> ensures P (f y)) \<Longrightarrow> ensures P (case x of None \<Rightarrow> a | Some y \<Rightarrow> f y)"
  by (cases x) simp_all

lemma ensures_bind: "ensures Q m \<Longrightarrow> (\<And>x. Q x \<Longrightarrow> ensures P (f x)) \<Longrightarrow> ensures P (bindE m f)"
  by (auto simp: ensures_def bindE_def split: sum.splits)

lemma ensures_each: "P s \<Longrightarrow> (\<And>x t. x \<in> set xs \<Longrightarrow> P t \<Longrightarrow> ensures P (f x t)) \<Longrightarrow> ensures P (each f xs s)"
proof (induction xs arbitrary: s)
  case (Cons x xs)
  show ?case unfolding each.simps by (rule ensures_bind [of P]) (use Cons in auto)
qed simp

section \<open>Well-formed data\<close>

definition rows_ok :: "GLOBALVARS \<Rightarrow> bool" where
  "rows_ok g \<longleftrightarrow> length (PlayerRoles g) = 450 \<and> length (rgEquipmentEffect g) = 7 \<and>
     (\<forall>p \<in> set (rgEquipmentEffect g). length p = 450) \<and> length (rgPlayerStatus g) = 54 \<and> length (rgPoisonStatus g) = 80 \<and>
     length (Exp g) = 48"

definition tables_ok :: "GLOBALVARS \<Rightarrow> bool" where
  "tables_ok g \<longleftrightarrow> length (rgParty g) = 5 \<and> length (rgTrail g) = 5 \<and> length (rgScene g) = 300 \<and>
     length (rgObject g) = 600 \<and> (\<forall>ob \<in> set (rgObject g). length ob = 6)"

definition game_ok :: "GLOBALVARS \<Rightarrow> bool" where
  "game_ok g \<longleftrightarrow> inventory_ok g \<and> rows_ok g \<and> tables_ok g"

definition pal_ok :: "PAL \<Rightarrow> bool" where
  "pal_ok s \<longleftrightarrow> game_ok (gp s)"

lemmas bind_pal [keep] = ensures_bind [of pal_ok]
lemmas bind_val_pal [keep] = ensures_bind [of "\<lambda>(_, s). pal_ok s"]
lemmas bind_game [keep] = ensures_bind [of game_ok]
lemmas bind_val_game [keep] = ensures_bind [of "\<lambda>(_, g). game_ok g"]

lemma bind_any: "(\<And>x. m = Inr x \<Longrightarrow> ensures P (f x)) \<Longrightarrow> ensures P (bindE m f)"
  by (auto simp: ensures_def bindE_def split: sum.splits)

lemmas each_pal [keep] = ensures_each [of pal_ok]
lemmas each_game [keep] = ensures_each [of game_ok]

lemma keep_on_gp [keep]: "(game_ok (gp s) \<Longrightarrow> game_ok (f (gp s))) \<Longrightarrow> pal_ok s \<Longrightarrow> pal_ok (on_gp f s)"
  by (simp add: pal_ok_def on_gp_def)

lemma keep_on_gpE [keep]: "(game_ok (gp s) \<Longrightarrow> ensures game_ok (f (gp s))) \<Longrightarrow> pal_ok s \<Longrightarrow> ensures pal_ok (on_gpE f s)"
  by (auto simp: pal_ok_def on_gpE_def ensures_def bindE_def split: sum.splits)

lemma keep_set_gp [keep]: "game_ok g \<Longrightarrow> pal_ok (s\<lparr>gp := g\<rparr>)"
  by (simp add: pal_ok_def)

lemma game_of_pal: "pal_ok s \<Longrightarrow> game_ok (gp s)"
  by (simp add: pal_ok_def)

section \<open>The global data\<close>

lemma game_ok_update [simp]:
  "game_ok (g\<lparr>lprgEventObject := a\<rparr>) = game_ok g" "game_ok (g\<lparr>lprgScriptEntry := b\<rparr>) = game_ok g"
  "game_ok (g\<lparr>lprgStore := c\<rparr>) = game_ok g" "game_ok (g\<lparr>lprgMagic := c\<rparr>) = game_ok g" "game_ok (g\<lparr>lprgEnemy := c\<rparr>) = game_ok g"
  "game_ok (g\<lparr>lprgEnemyTeam := c\<rparr>) = game_ok g" "game_ok (g\<lparr>lprgBattleField := c\<rparr>) = game_ok g"
  "game_ok (g\<lparr>lprgLevelUpMagic := c\<rparr>) = game_ok g" "game_ok (g\<lparr>rgwBattleEffectIndex := d\<rparr>) = game_ok g"
  "game_ok (g\<lparr>EnemyPos := d\<rparr>) = game_ok g" "game_ok (g\<lparr>rgLevelUpExp := d\<rparr>) = game_ok g"
  "game_ok (g\<lparr>bCurrentSaveSlot := v8\<rparr>) = game_ok g" "game_ok (g\<lparr>bBattleSpeed := v8\<rparr>) = game_ok g"
  "game_ok (g\<lparr>iCurInvMenuItem := k\<rparr>) = game_ok g" "game_ok (g\<lparr>iCurPlayingRNG := k\<rparr>) = game_ok g"
  "game_ok (g\<lparr>fGameStart := f\<rparr>) = game_ok g" "game_ok (g\<lparr>fEnteringScene := f\<rparr>) = game_ok g"
  "game_ok (g\<lparr>fNeedToFadeIn := f\<rparr>) = game_ok g" "game_ok (g\<lparr>fInBattle := f\<rparr>) = game_ok g"
  "game_ok (g\<lparr>fAutoBattle := f\<rparr>) = game_ok g" "game_ok (g\<lparr>fNightPalette := f\<rparr>) = game_ok g"
  "game_ok (g\<lparr>viewport := v\<rparr>) = game_ok g" "game_ok (g\<lparr>partyoffset := v\<rparr>) = game_ok g" "game_ok (g\<lparr>dwCash := v\<rparr>) = game_ok g"
  "game_ok (g\<lparr>dwFrameNum := v\<rparr>) = game_ok g" "game_ok (g\<lparr>glSeed := v\<rparr>) = game_ok g"
  "game_ok (g\<lparr>wLastUnequippedItem := w\<rparr>) = game_ok g" "game_ok (g\<lparr>wLayer := w\<rparr>) = game_ok g"
  "game_ok (g\<lparr>wMaxPartyMemberIndex := w\<rparr>) = game_ok g" "game_ok (g\<lparr>wPartyDirection := w\<rparr>) = game_ok g"
  "game_ok (g\<lparr>wNumScene := w\<rparr>) = game_ok g" "game_ok (g\<lparr>wNumPalette := w\<rparr>) = game_ok g" "game_ok (g\<lparr>wNumMusic := w\<rparr>) = game_ok g"
  "game_ok (g\<lparr>wNumBattleMusic := w\<rparr>) = game_ok g" "game_ok (g\<lparr>wNumBattleField := w\<rparr>) = game_ok g"
  "game_ok (g\<lparr>wCollectValue := w\<rparr>) = game_ok g" "game_ok (g\<lparr>wScreenWave := w\<rparr>) = game_ok g"
  "game_ok (g\<lparr>sWaveProgression := w\<rparr>) = game_ok g" "game_ok (g\<lparr>wChaseRange := w\<rparr>) = game_ok g"
  "game_ok (g\<lparr>wChasespeedChangeCycles := w\<rparr>) = game_ok g" "game_ok (g\<lparr>nFollower := w\<rparr>) = game_ok g"
  by (simp_all add: game_ok_def inventory_ok_def rows_ok_def tables_ok_def)

lemma rows_change [keep]:
  "game_ok g \<Longrightarrow> length p = 450 \<Longrightarrow> game_ok (g\<lparr>PlayerRoles := p\<rparr>)"
  "game_ok g \<Longrightarrow> length st = 54 \<Longrightarrow> game_ok (g\<lparr>rgPlayerStatus := st\<rparr>)"
  "game_ok g \<Longrightarrow> length ps = 80 \<Longrightarrow> game_ok (g\<lparr>rgPoisonStatus := ps\<rparr>)"
  "game_ok g \<Longrightarrow> length ex = 48 \<Longrightarrow> game_ok (g\<lparr>Exp := ex\<rparr>)"
  "game_ok g \<Longrightarrow> length eff = 7 \<and> (\<forall>p \<in> set eff. length p = 450) \<Longrightarrow> game_ok (g\<lparr>rgEquipmentEffect := eff\<rparr>)"
  "game_ok g \<Longrightarrow> length ms = 5 \<Longrightarrow> game_ok (g\<lparr>rgParty := ms\<rparr>)"
  "game_ok g \<Longrightarrow> length ts = 5 \<Longrightarrow> game_ok (g\<lparr>rgTrail := ts\<rparr>)"
  "game_ok g \<Longrightarrow> length scs = 300 \<Longrightarrow> game_ok (g\<lparr>rgScene := scs\<rparr>)"
  "game_ok g \<Longrightarrow> length obs = 600 \<and> (\<forall>ob \<in> set obs. length ob = 6) \<Longrightarrow> game_ok (g\<lparr>rgObject := obs\<rparr>)"
  by (simp_all add: game_ok_def inventory_ok_def rows_ok_def tables_ok_def)

lemma game_lengths:
  assumes "game_ok g"
  shows "length (PlayerRoles g) = 450" "length (rgPlayerStatus g) = 54" "length (rgPoisonStatus g) = 80" "length (Exp g) = 48"
    "length (rgEquipmentEffect g) = 7" "length (rgParty g) = 5" "length (rgTrail g) = 5" "length (rgScene g) = 300"
    "length (rgObject g) = 600"
  using assms by (simp_all add: game_ok_def rows_ok_def tables_ok_def)

lemma effect_row: "game_ok g \<Longrightarrow> k < 7 \<Longrightarrow> length (rgEquipmentEffect g ! k) = 450"
  by (simp add: game_ok_def rows_ok_def)

lemma object_row: "game_ok g \<Longrightarrow> k < 600 \<Longrightarrow> length (rgObject g ! k) = 6"
  by (simp add: game_ok_def tables_ok_def)

lemma effects_change:
  assumes "game_ok g" and "length p = 450"
  shows "game_ok (g\<lparr>rgEquipmentEffect := (rgEquipmentEffect g)[k := p]\<rparr>)"
proof -
  have "\<forall>q \<in> set ((rgEquipmentEffect g)[k := p]). length q = 450"
    using assms set_update_subset_insert [of "rgEquipmentEffect g" k p] by (auto simp: game_ok_def rows_ok_def)
  then show ?thesis using assms by (intro rows_change) (simp_all add: game_lengths)
qed

lemma objects_change:
  assumes "game_ok g" and "length ob = 6"
  shows "game_ok (g\<lparr>rgObject := (rgObject g)[k := ob]\<rparr>)"
proof -
  have "\<forall>q \<in> set ((rgObject g)[k := ob]). length q = 6"
    using assms set_update_subset_insert [of "rgObject g" k ob] by (auto simp: game_ok_def tables_ok_def)
  then show ?thesis using assms by (intro rows_change) (simp_all add: game_lengths)
qed

lemma keep_set_role [keep]: "game_ok g \<Longrightarrow> game_ok (set_role row r v g)"
  by (simp add: set_role_def rows_change game_lengths)

lemma keep_set_poison [keep]: "game_ok g \<Longrightarrow> game_ok (set_poison i k v g)"
  by (simp add: set_poison_def rows_change game_lengths)

lemma keep_set_status [keep]: "game_ok g \<Longrightarrow> game_ok (set_status r st v g)"
  by (simp add: set_status_def rows_change game_lengths)

lemma keep_drop_status [keep]: "game_ok g \<Longrightarrow> game_ok (drop_status r st g)"
  by (simp add: drop_status_def keep_set_status)

lemma keep_set_party [keep]: "game_ok g \<Longrightarrow> game_ok (set_party k p g)"
  by (simp add: set_party_def rows_change game_lengths)

lemma keep_set_event [simp]: "game_ok (set_event k ev g) = game_ok g"
  by (simp add: set_event_def)

lemma keep_push_trail [keep]: "game_ok g \<Longrightarrow> game_ok (push_trail t g)"
  by (simp add: push_trail_def rows_change game_lengths)

lemma keep_add_item:
  assumes "game_ok g" and "n \<le> 65436"
  shows "game_ok (snd (PAL_AddItemToInventory w n g))"
proof -
  let ?g = "snd (PAL_AddItemToInventory w n g)"
  have ok: "inventory_ok g" using assms by (simp add: game_ok_def)
  have "inventory_ok ?g"
  proof (cases "w = 0")
    case False
    consider "n = 0" | "0 < n" | "n < 0" by linarith
    then show ?thesis
    proof cases
      case 1
      then have "PAL_AddItemToInventory w n g = PAL_AddItemToInventory w 1 g"
        by (simp add: PAL_AddItemToInventory_def add_item_def)
      then show ?thesis using PAL_AddItemToInventory_adds [OF ok False, of 1] by simp
    next
      case 2
      then show ?thesis using PAL_AddItemToInventory_adds [OF ok False, of n] assms by simp
    next
      case 3
      then show ?thesis using PAL_AddItemToInventory_removes [OF ok False, of "- n"] by simp
    qed
  qed (use ok in \<open>simp add: PAL_AddItemToInventory_def add_item_def\<close>)
  moreover obtain inven where "?g = g\<lparr>rgInventory := inven\<rparr>"
    by (cases "add_item w n (rgInventory g)") (simp add: PAL_AddItemToInventory_def)
  then have "rows_ok ?g" "tables_ok ?g" using assms by (simp_all add: game_ok_def rows_ok_def tables_ok_def)
  ultimately show ?thesis using assms by (simp add: game_ok_def)
qed

end
