(* ===== verification/PalKeepGame.thy ===== *)
theory PalKeepGame
  imports PalKeep
begin

text \<open>The operations of \<open>global.c\<close> keep the global data well-formed.\<close>

lemmas bind_values [keep] =
  bind_any [of "m :: (bool) Prelude.res" for m]
  bind_any [of "m :: (u16) Prelude.res" for m]
  bind_any [of "m :: (int) Prelude.res" for m]
  bind_any [of "m :: (nat) Prelude.res" for m]
  bind_any [of "m :: (nat option) Prelude.res" for m]
  bind_any [of "m :: (u16 list) Prelude.res" for m]
  bind_any [of "m :: (PARTY) Prelude.res" for m]
  bind_any [of "m :: (EVENTOBJECT) Prelude.res" for m]
  bind_any [of "m :: (int \<times> u8 list) Prelude.res" for m]
  bind_any [of "m :: (nat \<times> nat) Prelude.res" for m]
  bind_any [of "m :: (u32) Prelude.res" for m]

lemma keep_fold: "game_ok g \<Longrightarrow> (\<And>x g. game_ok g \<Longrightarrow> game_ok (f x g)) \<Longrightarrow> game_ok (fold f xs g)"
  by (induction xs arbitrary: g) simp_all

lemma keep_if [keep]: "(b \<Longrightarrow> game_ok g) \<Longrightarrow> (\<not> b \<Longrightarrow> game_ok h) \<Longrightarrow> game_ok (if b then g else h)"
  by simp

lemma keep_RandomLong [keep]: "game_ok g \<Longrightarrow> ensures (\<lambda>(_, g). game_ok g) (RandomLong t a b g)"
  by (auto simp: ensures_def RandomLong_def lrand_def Let_def res_eq_Inr split: if_splits)

lemma keep_IncreaseHPMP [keep]: "game_ok g \<Longrightarrow> ensures (\<lambda>(_, g). game_ok g) (PAL_IncreaseHPMP w hp mp g)"
  by (auto simp: PAL_IncreaseHPMP_def Let_def intro!: keep)

lemma keep_poisons_keep: "game_ok g \<Longrightarrow> ensures (\<lambda>(_, g). game_ok g) (keep_poisons k is j g)"
  by (induction "is" arbitrary: j g) (auto simp: Let_def keep_set_poison intro!: keep)

lemma length_clear_row [simp]: "length (clear_row r n p) = length p"
proof -
  have "length (fold (\<lambda>i p. role_set i r 0 p) xs p) = length p" for xs by (induction xs arbitrary: p) simp_all
  then show ?thesis by (simp add: clear_row_def)
qed

lemma keep_RemoveEquipmentEffect [keep]: "game_ok g \<Longrightarrow> ensures game_ok (PAL_RemoveEquipmentEffect w part g)"
  unfolding PAL_RemoveEquipmentEffect_def
  by (auto simp: Let_def game_lengths effect_row intro!: keep effects_change keep_poisons_keep keep_fold)

lemma keep_AddPoison [keep]: "game_ok g \<Longrightarrow> ensures game_ok (PAL_AddPoisonForPlayer w p g)"
  by (auto simp: PAL_AddPoisonForPlayer_def intro!: keep)

lemma keep_CureKind [keep]: "game_ok g \<Longrightarrow> ensures game_ok (PAL_CurePoisonByKind w p g)"
  by (auto simp: PAL_CurePoisonByKind_def intro!: keep keep_fold)

lemma keep_cure_levels: "game_ok g \<Longrightarrow> ensures game_ok (cure_levels k mx is g)"
  by (induction "is" arbitrary: g) (auto simp: keep_set_poison intro!: keep)

lemma keep_CureLevel [keep]: "game_ok g \<Longrightarrow> ensures game_ok (PAL_CurePoisonByLevel w p g)"
  by (auto simp: PAL_CurePoisonByLevel_def intro!: keep keep_cure_levels)

lemma keep_Magic [keep]:
  "game_ok g \<Longrightarrow> ensures (\<lambda>(_, g). game_ok g) (PAL_AddMagic w m g)"
  "game_ok g \<Longrightarrow> ensures game_ok (PAL_RemoveMagic w m g)"
  by (auto simp: PAL_AddMagic_def PAL_RemoveMagic_def intro!: keep)

lemma keep_Status [keep]:
  "game_ok g \<Longrightarrow> ensures game_ok (PAL_SetPlayerStatus w st n g)"
  "game_ok g \<Longrightarrow> ensures game_ok (PAL_RemovePlayerStatus w st g)"
  by (auto simp: PAL_SetPlayerStatus_def PAL_RemovePlayerStatus_def Let_def intro!: keep)

lemma keep_raise_stat [keep]: "game_ok g \<Longrightarrow> ensures game_ok (raise_stat t row r b n g)"
  by (auto simp: raise_stat_def intro!: keep)

lemma keep_raise_stats [keep]: "game_ok g \<Longrightarrow> ensures game_ok (raise_stats t r n g)"
  by (induction n arbitrary: g) (auto simp del: rgwMaxHP_def intro!: keep)

lemma keep_limits [keep]: "game_ok g \<Longrightarrow> game_ok (fold (limit_stat r) xs g)"
  by (rule keep_fold) (auto simp: limit_stat_def intro!: keep)

lemma keep_LevelUp [keep]: "game_ok g \<Longrightarrow> ensures game_ok (PAL_PlayerLevelUp t w n g)"
  unfolding PAL_PlayerLevelUp_def Let_def
  by (auto simp: game_lengths(4) [OF keep_limits] simp del: fold.simps intro!: keep)

end
