(* ===== verification/PalKeepLoad.thy ===== *)
theory PalKeepLoad
  imports PalKeepGame
begin

text \<open>Loading the default game makes well-formed global data.\<close>

lemma length_words_of [simp]: "length (words_of bs) = length bs div 2"
  by (induction bs rule: words_of.induct) simp_all

lemma read_chunk_length: "PAL_MKFReadChunk cap num fp = Inr (c, bs) \<Longrightarrow> length bs \<le> unat cap"
  by (cases "chunk_offsets num fp") (auto simp: PAL_MKFReadChunk_def Let_def word_le_nat_alt not_less split: if_splits option.splits)

lemma load_words_length:
  assumes "load_words buf num fp = Inr ws" and "length buf < 2 ^ 30"
  shows "length ws = length buf"
proof -
  from assms(1) obtain c bs where r: "PAL_MKFReadChunk (of_nat (2 * length buf)) num fp = Inr (c, bs)"
    "ws = words_of (bs @ drop (length bs) (bytes_of buf))"
    by (auto simp: load_words_def bindE_eq_Inr)
  have "unat (of_nat (2 * length buf) :: u32) = 2 * length buf" 
    using assms(2) by (subst unat_of_nat) (simp add: take_bit_eq_mod)
  then have "length bs \<le> 2 * length buf" using read_chunk_length [OF r(1)] by simp
  then show ?thesis by (simp add: r(2))
qed

lemma length_rows [simp]: "length (rows n k ws) = k"
  by (induction k arbitrary: ws) simp_all

lemma rows_lengths: "n * k \<le> length ws \<Longrightarrow> \<forall>r \<in> set (rows n k ws). length r = n"
proof (induction k arbitrary: ws)
  case (Suc k)
  from Suc.prems have l: "n + n * k \<le> length ws" by (simp only: mult_Suc_right)
  then have "length (take n ws) = n" by simp
  moreover have "n * k \<le> length (drop n ws)" using l by simp
  then have "\<forall>r \<in> set (rows n k (drop n ws)). length r = n" by (rule Suc.IH)
  ultimately show ?case by (simp only: rows.simps list.set(2) ball_simps simp_thms)
qed simp

lemma length_concat_rows: "\<forall>r \<in> set xs. length r = n \<Longrightarrow> length (concat xs) = n * length xs"
  by (induction xs) simp_all

lemma load_objects:
  assumes "load_rows 6 (rgObject g) num fp = Inr r" and "tables_ok g"
  shows "length r = 600 \<and> (\<forall>ob \<in> set r. length ob = 6)"
proof -
  from assms(1) obtain ws where ws: "load_words (concat (rgObject g)) num fp = Inr ws" "r = rows 6 (length (rgObject g)) ws"
    by (auto simp: load_rows_def bindE_eq_Inr)
  have "length (concat (rgObject g)) = 3600"
    using length_concat_rows [of "rgObject g" 6] assms(2) by (simp add: tables_ok_def)
  then have "length ws = 3600" using load_words_length [OF ws(1)] by simp
  then have "\<forall>ob \<in> set (rows 6 (length (rgObject g)) ws). length ob = 6"
    using assms(2) by (intro rows_lengths) (simp add: tables_ok_def)
  then show ?thesis unfolding ws(2) using assms(2) by (simp add: tables_ok_def)
qed

lemma load_rows_length: "load_rows n buf num fp = Inr r \<Longrightarrow> length r = length buf"
  by (auto simp: load_rows_def bindE_eq_Inr)

lemma no_items: "inventory_ok (g\<lparr>rgInventory := replicate MAX_INVENTORY (inventory_item [0, 0, 0])\<rparr>)"
proof -
  have "entries_ok [] (replicate MAX_INVENTORY (inventory_item [0, 0, 0]))"
    by (auto simp: entries_ok_def inventory_item_def)
  from inventory_ok_append [OF this] show ?thesis by simp
qed

lemma game_okI:
  "entries_ok (listed (rgInventory g)) (unlisted (rgInventory g)) \<Longrightarrow> length (rgInventory g) = 256 \<Longrightarrow>
   rows_ok g \<Longrightarrow> tables_ok g \<Longrightarrow> game_ok g"
  by (simp add: game_ok_def inventory_ok_def)

lemma length_default_exp: "length (default_exp p) = 48"
  by (simp add: default_exp_def numeral_eq_Suc)

lemma LoadDefaultGame_ok:
  assumes "rows_ok g" and "tables_ok g"
  shows "ensures game_ok (PAL_LoadDefaultGame g)"
proof -
  have "game_ok h" if h: "PAL_LoadDefaultGame g = Inr h" for h
  proof -
    from h obtain ev sc ob p where
      "load_rows 4 (map scene_words (rgScene g)) 1 (fpSSS g) = Inr sc" "load_rows 6 (rgObject g) 2 (fpSSS g) = Inr ob"
      "load_words (PlayerRoles g) 3 (fpDATA g) = Inr p"
      and e: "rgScene h = map scene sc" "rgObject h = ob" "PlayerRoles h = p" "Exp h = default_exp p"
        "rgInventory h = replicate MAX_INVENTORY (inventory_item [0, 0, 0])"
        "rgPoisonStatus h = replicate (MAX_POISONS * MAX_PLAYABLE_PLAYER_ROLES) no_poison"
        "rgParty h = replicate MAX_PLAYABLE_PLAYER_ROLES (party [0, 0, 0, 0, 0])"
        "rgTrail h = replicate MAX_PLAYABLE_PLAYER_ROLES (trail [0, 0, 0])"
        "rgEquipmentEffect h = rgEquipmentEffect g" "rgPlayerStatus h = rgPlayerStatus g"
      by (auto simp: PAL_LoadDefaultGame_def Let_def bindE_eq_Inr)
    then have "length sc = 300" "length ob = 600 \<and> (\<forall>x \<in> set ob. length x = 6)" "length p = 450"
      using load_rows_length load_objects load_words_length assms by (fastforce simp: tables_ok_def rows_ok_def)+
    moreover have "entries_ok (listed (rgInventory h)) (unlisted (rgInventory h))"
      using no_items [of h] by (simp add: inventory_ok_def e)
    ultimately show ?thesis
      using assms by (intro game_okI) (simp_all add: e rows_ok_def tables_ok_def length_default_exp)
  qed
  then show ?thesis by (simp add: ensures_def)
qed

end
