(* ===== verification/PalKeepScene.thy ===== *)
theory PalKeepScene
  imports PalKeepLoad
begin

text \<open>Loading resources and walking keep the global data well-formed.\<close>

lemmas bind_values2 [keep] =
  bind_any [of "m :: RESOURCES Prelude.res" for m]
  bind_any [of "m :: (PALMAP option) Prelude.res" for m] bind_any [of "m :: (int \<times> u8 list) Prelude.res" for m]

lemmas each_val_game [keep] = ensures_each [of "\<lambda>(_, g). game_ok g"]

lemma pal_ok_update [simp]:
  "pal_ok (s\<lparr>res := r\<rparr>) = pal_ok s" "pal_ok (s\<lparr>gpScreen := scr\<rparr>) = pal_ok s" "pal_ok (s\<lparr>wave_index := n\<rparr>) = pal_ok s"
  "pal_ok (s\<lparr>s_iThisStepFrame := n\<rparr>) = pal_ok s" "pal_ok (s\<lparr>g_Battle := b\<rparr>) = pal_ok s"
  "pal_ok (s\<lparr>g_fScriptSuccess := f\<rparr>) = pal_ok s" "pal_ok (s\<lparr>g_iCurEquipPart := k\<rparr>) = pal_ok s"
  "pal_ok (s\<lparr>wLastEventObject := w\<rparr>) = pal_ok s"
  by (simp_all add: pal_ok_def)

lemma keep_failed [simp]: "pal_ok (failed s) = pal_ok s" by (simp add: failed_def)

lemma keep_flags [simp]: "pal_ok (set_load_flags f s) = pal_ok s" by (simp add: set_load_flags_def)

section \<open>Resources\<close>

lemma keep_load_event_sprite: "game_ok (snd p) \<Longrightarrow> ensures (\<lambda>(_, g). game_ok g) (load_event_sprite fr k p)"
  unfolding load_event_sprite_def Let_def by (cases p) (auto intro!: keep)

lemma keep_load_scene: "game_ok (snd p) \<Longrightarrow> ensures (\<lambda>(_, g). game_ok g) (load_scene fr a b p)"
  unfolding load_scene_def Let_def by (cases p) (auto simp: split_beta intro!: keep keep_load_event_sprite)

lemma keep_load_players: "game_ok (snd p) \<Longrightarrow> ensures (\<lambda>(_, g). game_ok g) (load_player_sprites fr p)"
  unfolding load_player_sprites_def Let_def by (cases p) (auto intro!: keep)

lemma keep_LoadResources: "game_ok g \<Longrightarrow> ensures (\<lambda>(_, g). game_ok g) (PAL_LoadResources fr a b (r, g))"
  unfolding PAL_LoadResources_def by (auto intro!: keep keep_load_scene keep_load_players)

lemma keep_load_resources [keep]: "pal_ok s \<Longrightarrow> ensures pal_ok (load_resources e s)"
  unfolding load_resources_def
  by (rule bind_val_game) (auto simp: pal_ok_def intro!: keep_LoadResources)

section \<open>The party and the scene\<close>

lemma keep_leader [keep]: "game_ok g \<Longrightarrow> ensures game_ok (leader_walks n k g)"
  by (auto simp: leader_walks_def intro!: keep)

lemma keep_member [keep]: "pal_ok s \<Longrightarrow> ensures pal_ok (member_walks n k i s)"
  by (auto simp: member_walks_def Let_def intro!: keep)

lemma keep_follower [keep]: "game_ok g \<Longrightarrow> ensures game_ok (follower_walks k g)"
  by (auto simp: follower_walks_def Let_def intro!: keep)

lemma keep_stands [keep]: "game_ok g \<Longrightarrow> ensures game_ok (member_stands i g)" "game_ok g \<Longrightarrow> ensures game_ok (follower_stands g)"
  by (auto simp: member_stands_def follower_stands_def Let_def intro!: keep)

lemma keep_gestures [keep]: "pal_ok s \<Longrightarrow> ensures pal_ok (PAL_UpdatePartyGestures b s)"
  unfolding PAL_UpdatePartyGestures_def Let_def by (auto intro!: keep)

lemma keep_NPCWalkOneStep [keep]: "game_ok g \<Longrightarrow> game_ok (PAL_NPCWalkOneStep w k g)"
  by (simp add: PAL_NPCWalkOneStep_def Let_def)

section \<open>Walking\<close>

lemma keep_on_object [keep]: "pal_ok s \<Longrightarrow> ensures pal_ok (on_object p f s)"
  unfolding on_object_def by (auto intro!: keep)

lemma keep_store_trail [keep]: "game_ok g \<Longrightarrow> ensures game_ok (store_trail x y g)"
  unfolding store_trail_def by (auto intro!: keep)

lemma keep_NPCWalkTo [keep]: "pal_ok s \<Longrightarrow> ensures (\<lambda>(_, s). pal_ok s) (PAL_NPCWalkTo w x y h k s)"
  unfolding PAL_NPCWalkTo_def Let_def by (auto intro!: keep)

lemma keep_rand_sign [keep]: "game_ok g \<Longrightarrow> ensures (\<lambda>(_, g). game_ok g) (rand_sign e x g)"
  unfolding rand_sign_def by (auto intro!: keep)

lemma keep_chase_try: "pal_ok s \<Longrightarrow> ensures pal_ok (chase_try p a b d s)"
  unfolding chase_try_def by (cases d) (auto intro!: keep)

lemma keep_chase_near [keep]: "pal_ok s \<Longrightarrow> ensures (\<lambda>(_, s). pal_ok s) (chase_near w v f a b x y s)"
  unfolding chase_near_def Let_def by (auto intro!: keep keep_chase_try)

lemma keep_MonsterChase [keep]: "pal_ok s \<Longrightarrow> ensures pal_ok (PAL_MonsterChasePlayer e w v r f s)"
  unfolding PAL_MonsterChasePlayer_def Let_def by (auto dest: game_of_pal intro!: keep)

end
