(* ===== verification/PalKeepOps.thy ===== *)
theory PalKeepOps
  imports PalKeepScene
begin

text \<open>
  The instructions for event objects, players and items keep the global data well-formed, in any environment: none of
  these calls a function of the environment.
\<close>

named_theorems keep_op \<open>instructions that keep the data well-formed\<close>

definition keeps :: "instr_handler \<Rightarrow> bool" where
  "keeps h \<longleftrightarrow> (\<forall>e i s. pal_ok s \<longrightarrow> ensures (\<lambda>(_, s). pal_ok s) (h e i s))"

lemma keep_ends [keep]:
  "ensures pal_ok m \<Longrightarrow> ensures (\<lambda>(_, s). pal_ok s) (go_on i m)"
  "ensures pal_ok m \<Longrightarrow> ensures (\<lambda>(_, s). pal_ok s) (jump w m)"
  "ensures pal_ok m \<Longrightarrow> ensures (\<lambda>(_, s). pal_ok s) (repeat_it i m)"
  by (auto simp: go_on_def jump_def repeat_it_def intro!: keep)

lemma keep_if_val [keep]: "(b \<Longrightarrow> pal_ok s) \<Longrightarrow> (\<not> b \<Longrightarrow> pal_ok t) \<Longrightarrow> pal_ok (if b then s else t)"
  by simp

section \<open>Event objects\<close>

lemma keep_walks [keep_op]: "keeps (op_0B w)" "keeps (walk_on k)" "keeps (walk_on_slowly k)"
  by (auto simp: keeps_def op_0B_def walk_on_def walk_on_slowly_def intro!: keep)

lemma keep_objects [keep_op]:
  "keeps op_0F"
  "keeps op_12"
  "keeps op_13"
  "keeps op_14"
  "keeps op_16"
  "keeps op_24"
  "keeps op_25"
  "keeps op_40"
  "keeps op_49"
  "keeps op_4B"
  by (auto simp: keeps_def op_0F_def op_12_def op_13_def op_14_def op_16_def op_24_def op_25_def op_40_def op_49_def op_4B_def Let_def  intro!: keep)

lemma keep_objects2 [keep_op]:
  "keeps op_4C"
  "keeps op_52"
  "keeps op_6C"
  "keeps op_6F"
  "keeps op_7D"
  "keeps op_7E"
  "keeps op_87"
  "keeps op_94"
  by (auto simp: keeps_def op_4C_def op_52_def op_6C_def op_6F_def op_7D_def op_7E_def op_87_def op_94_def Let_def  intro!: keep)

lemma keep_9A [keep_op]: "keeps op_9A"
  by (auto simp: keeps_def op_9A_def intro!: keep)

section \<open>Players\<close>

lemma keep_for_party [keep]: "(\<And>w t. pal_ok t \<Longrightarrow> ensures pal_ok (f w t)) \<Longrightarrow> pal_ok s \<Longrightarrow> ensures pal_ok (for_party f s)"
  unfolding for_party_def by (auto intro!: keep)

lemma poke_length: "poke row role f p = Inr q \<Longrightarrow> length q = length p"
  by (auto simp: poke_def Let_def res_eq_Inr)

lemma keep_poke_effect [keep]: "game_ok g \<Longrightarrow> ensures game_ok (poke_effect part row role v g)"
  unfolding poke_effect_def
  by (auto simp: game_lengths effect_row intro!: keep bind_any effects_change dest!: poke_length)

lemma keep_poke_roles [keep]: "game_ok g \<Longrightarrow> ensures game_ok (poke_roles row role f g)"
  unfolding poke_roles_def by (auto simp: game_lengths intro!: keep dest!: poke_length)

lemma keep_heal: "keeps (heal hp mp)"
  unfolding keeps_def heal_def Let_def by (auto dest: game_of_pal intro!: keep)

lemma keep_heals [keep_op]: "keeps op_1B" "keeps op_1C" "keeps op_1D"
  using keep_heal by (simp_all add: keeps_def op_1B_def op_1C_def op_1D_def)

lemma keep_revive [keep]: "game_ok g \<Longrightarrow> ensures (\<lambda>(_, g). game_ok g) (revive t w g)"
  unfolding revive_def Let_def by (auto intro!: keep)

lemma keep_22 [keep_op]: "keeps op_22"
  unfolding keeps_def op_22_def Let_def by (auto dest: game_of_pal intro!: keep)

lemma keep_set_base_damage [keep]: "game_ok g \<Longrightarrow> ensures game_ok (set_base_damage w v g)"
  unfolding set_base_damage_def Let_def by (auto intro!: keep)

lemma keep_jump_if_member [keep]: "pal_ok s \<Longrightarrow> ensures (\<lambda>(_, s). pal_ok s) (jump_if_member P b w i s)"
  unfolding jump_if_member_def by (auto intro!: keep)

lemma keep_attributes [keep_op]:
  "keeps op_17"
  "keeps op_19"
  "keeps op_1A"
  "keeps op_30"
  "keeps op_31"
  by (auto simp: keeps_def op_17_def op_19_def op_1A_def op_30_def op_31_def Let_def  intro!: keep)

lemma keep_attributes2 [keep_op]:
  "keeps op_55"
  "keeps op_56"
  "keeps op_57"
  "keeps op_5A"
  "keeps op_5F"
  "keeps op_8D"
  "keeps op_74"
  "keeps op_79"
  by (auto simp: keeps_def op_55_def op_56_def op_57_def op_5A_def op_5F_def op_8D_def op_74_def op_79_def Let_def  intro!: keep)

lemma keep_poison_role [keep]: "game_ok g \<Longrightarrow> ensures game_ok (poison_role e p w g)"
  unfolding poison_role_def by (auto intro!: keep)

lemma keep_all_or_one [keep]:
  "(\<And>w g. game_ok g \<Longrightarrow> ensures game_ok (f w g)) \<Longrightarrow> pal_ok s \<Longrightarrow> ensures (\<lambda>(_, s). pal_ok s) (all_or_one f e i s)"
  unfolding all_or_one_def by (auto intro!: keep)

lemma keep_poison_ops [keep_op]:
  "keeps op_29"
  "keeps op_2B"
  "keeps op_2C"
  "keeps op_2D"
  "keeps op_2F"
  "keeps op_5D"
  "keeps op_61"
  by (auto simp: keeps_def op_29_def op_2B_def op_2C_def op_2D_def op_2F_def op_5D_def op_61_def Let_def  intro!: keep)

section \<open>Items\<close>

lemma keep_add_to_inventory [keep]: "pal_ok s \<Longrightarrow> n \<le> 65436 \<Longrightarrow> pal_ok (add_to_inventory w n s)"
  by (auto simp: add_to_inventory_def intro!: keep keep_add_item)

lemma keep_take_off: "game_ok g \<Longrightarrow> ensures (\<lambda>(_, g). game_ok g) (take_off w ps x g)"
proof (induction ps arbitrary: x g)
  case (Cons p ps)
  then show ?case by (cases p) (auto simp: Let_def keep_set_role intro!: keep)
qed simp

lemma keep_add_pair: "PAL_AddItemToInventory w n g = (ok, h) \<Longrightarrow> game_ok g \<Longrightarrow> n \<le> 65436 \<Longrightarrow> game_ok h"
  using keep_add_item [of g n w] by simp

lemma sint16_bound: "sint (w :: u16) \<le> 65436"
  using sint_lt [of w] by simp

lemma keep_items [keep_op]:
  "keeps op_18"
  "keeps op_1E"
  "keeps op_1F"
  "keeps op_23"
  by (auto simp: keeps_def op_18_def op_1E_def op_1F_def op_23_def Let_def unequip_all_def unequip_one_def sint16_bound intro!: keep)

lemma keep_items2 [keep_op]:
  "keeps op_58"
  "keeps op_86"
  "keeps op_88"
  "keeps op_8F"
  by (auto simp: keeps_def op_58_def op_86_def op_88_def op_8F_def Let_def game_of_pal intro!: keep)

lemma keep_90 [keep_op]: "keeps op_90"
  unfolding keeps_def op_90_def by (auto simp: game_lengths object_row intro!: keep objects_change)

lemma keep_20 [keep_op]: "keeps op_20"
proof -
  have "ensures (\<lambda>(_, s). pal_ok s) (op_20 e i s)" if s: "pal_ok s" for e i s
  proof -
    define n where "n = (if op1 i = 0 then 1 else unat (op1 i))"
    obtain ok g where r: "PAL_AddItemToInventory (op0 i) (- int n) (gp s) = (ok, g)" by fastforce
    have "game_ok g" using keep_add_pair [OF r] s by (simp add: game_of_pal)
    then show ?thesis unfolding op_20_def n_def [symmetric] Let_def r by (auto intro!: keep keep_take_off)
  qed
  then show ?thesis by (simp add: keeps_def)
qed

end
