(* ===== verification/PalKeepScript.thy ===== *)
theory PalKeepScript
  imports PalKeepOps
begin

text \<open>
  The other instructions that call nothing outside \<open>PAL_InterpretInstruction\<close>'s own code, and the auto scripts made
  of them, keep the global data well-formed.
\<close>

section \<open>Battles\<close>

lemmas bind_values3 [keep] = bind_any [of "m :: BATTLEENEMY Prelude.res" for m]

lemma keep_on_battle [simp]: "pal_ok (on_battle f s) = pal_ok s" by (simp add: on_battle_def)

lemma keep_on_enemy [keep]: "pal_ok s \<Longrightarrow> ensures pal_ok (on_enemy k f s)"
  unfolding on_enemy_def by (auto intro!: keep)

lemma keep_on_player [keep]: "pal_ok s \<Longrightarrow> ensures pal_ok (on_player k f s)"
  unfolding on_player_def by (auto intro!: keep)

lemma keep_duplicate [keep]: "pal_ok s \<Longrightarrow> ensures pal_ok (duplicate_enemy me ks w s)"
  by (induction ks arbitrary: w s) (auto intro!: keep)

lemma keep_summon [keep]: "pal_ok s \<Longrightarrow> ensures pal_ok (summon_enemy w ks y s)"
  by (induction ks arbitrary: y s) (auto intro!: keep)

lemma keep_step_apart [keep]: "pal_ok s \<Longrightarrow> ensures pal_ok (step_apart j s)"
  by (auto simp: step_apart_def intro!: keep)

lemma keep_enemy [keep_op]:
  "keeps op_21"
  "keeps op_2A"
  "keeps op_2E"
  "keeps op_33"
  "keeps op_39"
  by (auto simp: keeps_def op_21_def op_2A_def op_2E_def op_33_def op_39_def Let_def game_of_pal intro!: keep)

lemma keep_enemy2 [keep_op]:
  "keeps op_5B"
  "keeps op_5C"
  "keeps op_5E"
  "keeps op_60"
  "keeps op_64"
  "keeps op_67"
  "keeps op_68"
  by (auto simp: keeps_def op_5B_def op_5C_def op_5E_def op_60_def op_64_def op_67_def op_68_def Let_def game_of_pal intro!: keep)

lemma keep_enemy3 [keep_op]:
  "keeps op_6B"
  "keeps op_89"
  "keeps op_91"
  by (auto simp: keeps_def op_6B_def op_89_def op_91_def Let_def intro!: keep)

section \<open>The party on the map\<close>

lemma keep_line_up [keep]: "game_ok g \<Longrightarrow> ensures game_ok (line_up g)"
  unfolding line_up_def Let_def by (auto intro!: keep)

lemma keep_gather [keep]: "game_ok g \<Longrightarrow> ensures game_ok (gather g)"
  unfolding gather_def by (auto simp: game_lengths intro!: keep)

lemma keep_on_scene [keep]: "game_ok g \<Longrightarrow> ensures game_ok (on_scene k f g)"
  unfolding on_scene_def by (auto simp: game_lengths intro!: keep)

lemma keep_map [keep_op]:
  "keeps op_46"
  "keeps op_6E"
  "keeps op_98"
  "keeps op_A1"
  "keeps op_15"
  by (auto simp: keeps_def op_46_def op_6E_def op_98_def op_A1_def op_15_def Let_def intro!: keep)

lemma keep_scenes [keep_op]:
  "keeps op_59"
  "keeps op_6D"
  "keeps op_99"
  "keeps op_95"
  "keeps op_81"
  "keeps op_83"
  "keeps op_84"
  by (auto simp: keeps_def op_59_def op_6D_def op_99_def op_95_def op_81_def op_83_def op_84_def Let_def intro!: keep)

section \<open>Screen and music\<close>

lemma keep_screen [keep_op]:
  "keeps op_36"
  "keeps op_41"
  "keeps op_45"
  "keeps op_4A"
  "keeps op_53"
  "keeps op_54"
  "keeps op_62"
  "keeps op_63"
  "keeps op_65"
  by (auto simp: keeps_def op_36_def op_41_def op_45_def op_4A_def op_53_def op_54_def op_62_def op_63_def op_65_def Let_def intro!: keep)

lemma keep_screen2 [keep_op]:
  "keeps op_71"
  "keeps op_78"
  "keeps op_8A"
  "keeps op_A2"
  by (auto simp: keeps_def op_71_def op_78_def op_8A_def op_A2_def Let_def game_of_pal intro!: keep)

section \<open>Scripts\<close>

text \<open>
  The instructions that change data without calling battles, menus, dialogs, the screen, other scripts or files, and
  the entries by which an auto script waits, jumps or ends.
\<close>

definition data_ops :: "u16 list" where
  "data_ops =
    [0x0B, 0x0C, 0x0D, 0x0E, 0x0F, 0x10, 0x11, 0x12, 0x13, 0x14, 0x15, 0x16, 0x17, 0x18, 0x19, 0x1A, 0x1B,
     0x1C, 0x1D, 0x1E, 0x1F, 0x20, 0x21, 0x22, 0x23, 0x24, 0x25, 0x29, 0x2A, 0x2B, 0x2C, 0x2D, 0x2E, 0x2F,
     0x30, 0x31, 0x33, 0x36, 0x39, 0x40, 0x41, 0x45, 0x46, 0x49, 0x4A, 0x4B, 0x4C, 0x52, 0x53, 0x54, 0x55,
     0x56, 0x57, 0x58, 0x59, 0x5A, 0x5B, 0x5C, 0x5D, 0x5E, 0x5F, 0x60, 0x61, 0x62, 0x63, 0x64, 0x65, 0x67,
     0x68, 0x6B, 0x6C, 0x6D, 0x6E, 0x6F, 0x71, 0x74, 0x78, 0x79, 0x7C, 0x7D, 0x7E, 0x81, 0x82, 0x83, 0x84,
     0x86, 0x87, 0x88, 0x89, 0x8A, 0x8D, 0x8F, 0x90, 0x91, 0x94, 0x95, 0x98, 0x99, 0x9A, 0xA1, 0xA2]"

definition auto_ops :: "u16 list" where
  "auto_ops = [0, 1, 2, 3, 6, 9, 0xFFFF]"

lemma data_op_keeps: "\<forall>(w, h) \<in> set instr_table. w \<in> set data_ops \<longrightarrow> keeps h"
  unfolding instr_table_def data_ops_def by (simp add: keep_op)

lemma data_instruction:
  assumes "pal_ok s" and "script_at w s = Inr p" and "wOperation p \<in> set data_ops"
  shows "ensures (\<lambda>(_, s). pal_ok s) (PAL_InterpretInstruction e w ob s)"
proof (cases "map_of instr_table (wOperation p)")
  case (Some h)
  then have "keeps h" using data_op_keeps assms(3) by (auto dest!: map_of_SomeD)
  then show ?thesis
    using assms(1,2) Some by (auto simp: PAL_InterpretInstruction_def keeps_def intro!: keep)
qed (use assms in \<open>simp add: PAL_InterpretInstruction_def\<close>)

lemma keep_auto_frames [keep]: "pal_ok s \<Longrightarrow> ensures (\<lambda>(_, s). pal_ok s) (auto_frames ob p s)"
  unfolding auto_frames_def Let_def by (auto intro!: keep)

text \<open>The control entries change neither the script nor anything that matters.\<close>

lemma script_random: "RandomLong t a b g = Inr (k, h) \<Longrightarrow> lprgScriptEntry h = lprgScriptEntry g"
  by (auto simp: RandomLong_def lrand_def Let_def res_eq_Inr split: if_splits)

lemma script_frames: "auto_frames ob p s = Inr (b, t) \<Longrightarrow> lprgScriptEntry (gp t) = lprgScriptEntry (gp s)"
  by (auto simp: auto_frames_def on_object_def on_gp_def set_event_def Let_def res_eq_Inr bindE_eq_Inr
      split: if_splits option.splits)

lemma data_script:
  assumes "pal_ok s" and "\<forall>p \<in> set (lprgScriptEntry (gp s)). wOperation p \<in> set (auto_ops @ data_ops)"
  shows "ensures (\<lambda>(_, s). pal_ok s) (PAL_RunAutoScript n e w ob s)"
  using assms
proof (induction n arbitrary: w s)
  case (Suc n)
  have again: "ensures (\<lambda>(_, s). pal_ok s) (PAL_RunAutoScript n e v ob t)"
    if "pal_ok t" "lprgScriptEntry (gp t) = lprgScriptEntry (gp s)" for v t
    using Suc that by simp
  show ?case
  proof (cases "script_at w s")
    case (Inr p)
    then have "wOperation p \<in> set (auto_ops @ data_ops)"
      using Suc.prems(2) by (auto simp: script_at_def res_eq_Inr)
    then consider "wOperation p \<in> {0, 1, 0xFFFF}" | "wOperation p \<in> {2, 3}" | "wOperation p = 6" | "wOperation p = 9"
      | "wOperation p \<in> set data_ops" by (auto simp: auto_ops_def)
    then show ?thesis
    proof cases
      case 1 then show ?thesis using Inr Suc.prems(1) by (auto simp: Let_def)
    next
      case 2
      have "pal_ok t \<and> lprgScriptEntry (gp t) = lprgScriptEntry (gp s)"
        if "auto_frames (Some (uint ob - 1)) p s = Inr (b, t)" for b t
        using keep_auto_frames [OF Suc.prems(1), of "Some (uint ob - 1)" p] script_frames [OF that] that by simp
      then show ?thesis using 2 Inr again by (auto simp: Let_def intro!: bind_any)
    next
      case 3
      have "game_ok h \<and> lprgScriptEntry h = lprgScriptEntry (gp s)" if "RandomLong (ticks e) 1 100 (gp s) = Inr (k, h)" for k h
        using keep_RandomLong [OF game_of_pal [OF Suc.prems(1)], of "ticks e" 1 100] script_random [OF that] that by simp
      then show ?thesis using 3 Inr again by (auto simp: Let_def pal_ok_def intro!: bind_any)
    next
      case 4 then show ?thesis using Inr Suc.prems(1) by (auto simp: Let_def intro!: keep)
    next
      case 5
      have "wOperation p \<notin> set auto_ops" "wOperation p \<noteq> 4" using 5 by (auto simp: data_ops_def auto_ops_def)
      then show ?thesis using Inr data_instruction [OF Suc.prems(1) Inr 5] by (simp add: Let_def auto_ops_def)
    qed
  qed simp
qed simp

text \<open>
  \<^bold>\<open>C29\<close> The inventory lists different items, at most 99 of each, with nothing behind its first free entry, and
  stays so: the default game starts with it, and each of the 101 instructions that change data on their own, whatever
  its operands, and each auto script made of them, keeps it, together with the lengths of the arrays that the model holds
  as lists. Nothing is assumed about the environment.
\<close>

theorem data_instructions_keep:
  "(\<forall>g h. rows_ok g \<and> tables_ok g \<and> PAL_LoadDefaultGame g = Inr h \<longrightarrow> game_ok h) \<and>
    (\<forall>e w ob s p w' s'. pal_ok s \<and> script_at w s = Inr p \<and> wOperation p \<in> set data_ops \<and>
       PAL_InterpretInstruction e w ob s = Inr (w', s') \<longrightarrow> pal_ok s') \<and>
    (\<forall>n e w ob s w' s'. pal_ok s \<and> (\<forall>p \<in> set (lprgScriptEntry (gp s)). wOperation p \<in> set (auto_ops @ data_ops)) \<and>
       PAL_RunAutoScript n e w ob s = Inr (w', s') \<longrightarrow> pal_ok s')"
proof (intro conjI allI impI; elim conjE)
  show "game_ok h" if "rows_ok g" "tables_ok g" "PAL_LoadDefaultGame g = Inr h" for g h
    using LoadDefaultGame_ok [OF that(1,2)] that(3) by simp
  show "pal_ok s'" if "pal_ok s" "script_at w s = Inr p" "wOperation p \<in> set data_ops"
    "PAL_InterpretInstruction e w ob s = Inr (w', s')" for e w ob s p w' s'
    using data_instruction [OF that(1-3), of e ob] that(4) by simp
  show "pal_ok s'" if "pal_ok s" "\<forall>p \<in> set (lprgScriptEntry (gp s)). wOperation p \<in> set (auto_ops @ data_ops)"
    "PAL_RunAutoScript n e w ob s = Inr (w', s')" for n e w ob s w' s'
    using data_script [OF that(1,2), of n e w ob] that(3) by simp
qed

text \<open>A script with two instructions: it puts three pieces of item 7 into an empty inventory and ends.\<close>

definition gift :: "GLOBALVARS \<Rightarrow> GLOBALVARS" where
  "gift g = g\<lparr>lprgScriptEntry := map script_entry [[0, 0, 0, 0], [0x1F, 7, 3, 0], [0, 0, 0, 0]],
     PlayerRoles := replicate 450 0, rgEquipmentEffect := replicate 7 (replicate 450 0), rgPlayerStatus := replicate 54 0,
     rgPoisonStatus := replicate 80 no_poison, Exp := default_exp (replicate 450 0), rgParty := replicate 5 (party [0, 0, 0, 0, 0]),
     rgTrail := replicate 5 (trail [0, 0, 0]), rgScene := replicate 300 (scene [0, 0, 0, 0]),
     rgObject := replicate 600 [0, 0, 0, 0, 0, 0], rgInventory := replicate MAX_INVENTORY (inventory_item [0, 0, 0])\<rparr>"

lemma gift_ok: "game_ok (gift g)"
proof (rule game_okI)
  show "entries_ok (listed (rgInventory (gift g))) (unlisted (rgInventory (gift g)))"
    using no_items [of "gift g"] by (simp add: inventory_ok_def gift_def)
qed (simp_all add: gift_def rows_ok_def tables_ok_def length_default_exp)

lemma gift_entries:
  "lprgScriptEntry (gp s) = lprgScriptEntry (gift g) \<Longrightarrow> script_at 1 s = Inr \<lparr>wOperation = 0x1F, rgwOperand = [7, 3, 0]\<rparr>"
  "lprgScriptEntry (gp s) = lprgScriptEntry (gift g) \<Longrightarrow> script_at 2 s = Inr \<lparr>wOperation = 0, rgwOperand = [0, 0, 0]\<rparr>"
  by (simp_all add: script_at_def gift_def script_entry_def)

lemma gift_item: "add_item 7 3 (rgInventory (gift g)) =
    (True, \<lparr>wItem = 7, nAmount = 3, nAmountInUse = 0\<rparr> # replicate 255 (inventory_item [0, 0, 0]))"
proof -
  have "rgInventory (gift g) = inventory_item [0, 0, 0] # replicate 255 (inventory_item [0, 0, 0])"
    by (simp add: gift_def replicate_Suc [symmetric] del: replicate_Suc)
  then show ?thesis by (simp add: add_item_def inventory_item_def)
qed

theorem data_instructions_keep_witness:
  "\<exists>(e :: ENV) s s'. PAL_InterpretInstruction e 1 0 s = Inr (2, s') \<and> pal_ok s' \<and> stock (gp s') 7 = 3"
proof -
  fix e :: ENV and t :: PAL
  define s where "s = t\<lparr>gp := gift (gp t)\<rparr>"
  let ?r = "add_to_inventory 7 3 s"
  have ok: "pal_ok s" using gift_ok by (simp add: pal_ok_def s_def)
  have r: "gp ?r = gift (gp t)\<lparr>rgInventory := \<lparr>wItem = 7, nAmount = 3, nAmountInUse = 0\<rparr> # replicate 255 (inventory_item [0, 0, 0])\<rparr>"
    by (simp add: add_to_inventory_def on_gp_def PAL_AddItemToInventory_def s_def gift_item)
  have "lprgScriptEntry (gp s) = lprgScriptEntry (gift (gp t))" by (simp add: s_def)
  note first = gift_entries(1) [OF this]
  have run: "PAL_InterpretInstruction e 1 0 s = Inr (2, ?r)"
    unfolding PAL_InterpretInstruction_def first
    by (simp add: instr_table_def instruction_def script_operand_def op_1F_def go_on_def)
  have "wOperation \<lparr>wOperation = 0x1F, rgwOperand = [7, 3, 0]\<rparr> \<in> set data_ops" by (simp add: data_ops_def)
  then have "pal_ok ?r"
    using data_instructions_keep [THEN conjunct2, THEN conjunct1, rule_format, OF conjI, OF ok conjI, OF first conjI] run
    by blast
  moreover have "stock (gp ?r) 7 = 3" by (simp add: r stock_def)
  ultimately show ?thesis using run by blast
qed

end
