(* ===== verification/PalScriptCorrect.thy ===== *)
theory PalScriptCorrect
  imports PalKeepScript
begin

text \<open>What single instructions do: equipping an item, taking items away, walking to a place.\<close>

section \<open>Removing what equipment adds\<close>

definition usable :: "GLOBALVARS \<Rightarrow> bool" where
  "usable g \<longleftrightarrow> game_ok g \<and> (\<forall>p \<in> set (rgPoisonStatus g). unat (wPoisonID p) < 600) \<and> unat (wMaxPartyMemberIndex g) < 5"

text \<open>The data that does not depend on what is worn.\<close>

definition alike :: "GLOBALVARS \<Rightarrow> GLOBALVARS \<Rightarrow> bool" where
  "alike g h \<longleftrightarrow> PlayerRoles h = PlayerRoles g \<and> rgInventory h = rgInventory g \<and> rgParty h = rgParty g \<and>
     wMaxPartyMemberIndex h = wMaxPartyMemberIndex g"

definition keeps_alike :: "GLOBALVARS \<Rightarrow> GLOBALVARS \<Rightarrow> bool" where
  "keeps_alike g h \<longleftrightarrow> usable h \<and> alike g h"

lemma keeps_alike_trans: "keeps_alike g h \<Longrightarrow> keeps_alike h k \<Longrightarrow> keeps_alike g k"
  by (simp add: keeps_alike_def alike_def)

lemma usable_set_poison:
  assumes "usable g" and "unat (wPoisonID p) < 600"
  shows "keeps_alike g (set_poison i k p g)"
proof -
  have "\<forall>q \<in> set ((rgPoisonStatus g)[i * 5 + k := p]). unat (wPoisonID q) < 600"
    using assms set_update_subset_insert [of "rgPoisonStatus g" "i * 5 + k" p] by (auto simp: usable_def)
  moreover have "game_ok (set_poison i k p g)" using assms by (simp add: usable_def keep_set_poison)
  ultimately show ?thesis using assms by (simp add: keeps_alike_def alike_def usable_def set_poison_def)
qed

lemma poison_known: "usable g \<Longrightarrow> i < 16 \<Longrightarrow> k < 5 \<Longrightarrow> unat (wPoisonID (poison_at i k g)) < 600"
  by (auto simp: usable_def poison_at_def game_ok_def rows_ok_def)

lemma keep_poisons_returns:
  "usable g \<Longrightarrow> k < 5 \<Longrightarrow> set is \<subseteq> {..<16} \<Longrightarrow> \<exists>j' h. keep_poisons k is j g = Inr (j', h) \<and> keeps_alike g h"
proof (induction "is" arbitrary: j g)
  case Nil
  then show ?case by (simp add: keeps_alike_def alike_def)
next
  case (Cons i "is")
  let ?w = "wPoisonID (poison_at i k g)" and ?h = "set_poison j k (poison_at i k g) g"
  have w: "unat ?w < 600" using Cons.prems by (intro poison_known) auto
  then have l: "poison_level ?w g = Inr (poison_wPoisonLevel (rgObject g ! unat ?w))"
    using Cons.prems(1) by (simp add: poison_level_def usable_def game_lengths)
  have h: "keeps_alike g ?h" using Cons.prems(1) w by (rule usable_set_poison)
  then have "\<exists>j' h'. keep_poisons k is (j + 1) ?h = Inr (j', h') \<and> keeps_alike g h'"
    using Cons.IH [of ?h "j + 1"] Cons.prems keeps_alike_trans [OF h] by (auto simp: keeps_alike_def)
  moreover have "\<exists>j' h'. keep_poisons k is j g = Inr (j', h') \<and> keeps_alike g h'" using Cons.IH [of g j] Cons.prems by simp
  moreover have "keeps_alike g g" using Cons.prems(1) by (simp add: keeps_alike_def alike_def)
  ultimately show ?case by (simp add: Let_def l)
qed

lemma no_poisons_fold: "usable g \<Longrightarrow> keeps_alike g (fold (\<lambda>j. set_poison j k no_poison) is g)"
proof (induction "is" arbitrary: g)
  case Nil
  then show ?case by (simp add: keeps_alike_def alike_def)
next
  case (Cons i "is")
  have "keeps_alike g (set_poison i k no_poison g)" using Cons.prems by (rule usable_set_poison) (simp add: no_poison_def)
  with Cons.IH [of "set_poison i k no_poison g"] show ?case
    using keeps_alike_trans by (fastforce simp: keeps_alike_def)
qed

lemma party_index_less: "party_index r i ms = Some k \<Longrightarrow> i \<le> k \<and> k < i + length ms"
  by (induction r i ms rule: party_index.induct) (fastforce split: if_splits)+

lemma RemoveEquipmentEffect_returns:
  assumes "usable g" and "unat w < 6" and "unat part < 7"
  obtains h where "PAL_RemoveEquipmentEffect w part g = Inr h" "keeps_alike g h"
proof -
  let ?e = "(rgEquipmentEffect g)[unat part := clear_row (unat w) PLAYERROLES_rows (rgEquipmentEffect g ! unat part)]"
  define g1 where "g1 = g\<lparr>rgEquipmentEffect := ?e\<rparr>"
  have ok: "game_ok g" using assms(1) by (simp add: usable_def)
  then have "game_ok g1" unfolding g1_def using assms(3) by (intro effects_change) (simp_all add: effect_row)
  then have u: "usable g1" and a: "alike g g1" using assms(1) by (simp_all add: usable_def alike_def g1_def)
  have "keeps_alike g (g1\<lparr>rgPlayerStatus := (rgPlayerStatus g1)[x := 0]\<rparr>)" for x
    using u a rows_change(2) [of g1 "(rgPlayerStatus g1)[x := 0]"] by (simp add: keeps_alike_def alike_def usable_def game_lengths)
  moreover have "\<exists>h. bindE (member_index w g1) (\<lambda>m. case m of None \<Rightarrow> Inr g1
       | Some index \<Rightarrow> bindE (keep_poisons index [0..<MAX_POISONS] 0 g1) (\<lambda>(j, g).
           Inr (fold (\<lambda>j. set_poison j index no_poison) [j..<MAX_POISONS] g))) = Inr h \<and> keeps_alike g h"
  proof (cases "party_index w 0 (take (unat (wMaxPartyMemberIndex g1) + 1) (rgParty g1))")
    case None
    then show ?thesis using u a by (auto simp: member_index_def keeps_alike_def usable_def game_lengths)
  next
    case (Some k)
    then have "k < 5" using party_index_less [OF Some] u by (simp add: usable_def game_lengths)
    then obtain j h where k: "keep_poisons k [0..<MAX_POISONS] 0 g1 = Inr (j, h)" "keeps_alike g1 h"
      using keep_poisons_returns [OF u, of k "[0..<MAX_POISONS]" 0] by (auto simp: atLeast0LessThan)
    have "keeps_alike g1 (fold (\<lambda>j. set_poison j k no_poison) [j..<MAX_POISONS] h)"
      using keeps_alike_trans [OF k(2)] no_poisons_fold k(2) by (simp add: keeps_alike_def)
    moreover have "member_index w g1 = Inr (Some k)" using Some u by (simp add: member_index_def usable_def game_lengths)
    ultimately show ?thesis using k(1) a by (auto simp: keeps_alike_def alike_def)
  qed
  ultimately have "\<exists>h. PAL_RemoveEquipmentEffect w part g = Inr h \<and> keeps_alike g h"
    using assms ok u a unfolding PAL_RemoveEquipmentEffect_def role_of_def Let_def g1_def [symmetric]
    by (auto simp: game_lengths keeps_alike_def simp del: kBodyPartHand_def kBodyPartWear_def MAX_POISONS_def)
  then show thesis using that by blast
qed

section \<open>Equipping an item\<close>

lemma usable_set_role [simp]: "usable (set_role row r v g) = usable g"
  by (auto simp: usable_def set_role_def game_ok_def rows_ok_def tables_ok_def inventory_ok_def role_set_def)

lemma the_role_alike: "alike g h \<Longrightarrow> the_role row r h = the_role row r g"
  by (simp add: alike_def the_role_def)

lemma stock_alike: "alike g h \<Longrightarrow> stock h = stock g"
  by (simp add: alike_def stock_def fun_eq_iff)

lemma stock_set_role [simp]: "stock (set_role row r v g) = stock g" "inventory_ok (set_role row r v g) = inventory_ok g"
  "room_for ob (set_role row r v g) = room_for ob g"
  by (simp_all add: stock_def set_role_def inventory_ok_def room_for_def fun_eq_iff)

lemma the_role_add [simp]: "the_role row r (snd (PAL_AddItemToInventory w n g)) = the_role row r g"
  by (simp add: PAL_AddItemToInventory_def the_role_def split: prod.split)

lemma PlayerRoles_length: "usable g \<Longrightarrow> roles_ok g"
  by (simp add: usable_def roles_ok_def game_lengths)

lemma worn_set: "usable g \<Longrightarrow> r < 6 \<Longrightarrow> part < 6 \<Longrightarrow> the_role (11 + part) r (set_role (11 + part) r v g) = v"
  using the_role_set_role [OF PlayerRoles_length, of g r r "11 + part" "11 + part" v] by simp

lemma usable_add: "usable g \<Longrightarrow> n \<le> 65436 \<Longrightarrow> usable (snd (PAL_AddItemToInventory w n g))"
  using keep_add_item [of g n w] by (simp add: usable_def) (simp add: PAL_AddItemToInventory_def split: prod.split)

lemma last_frame [simp]: "usable (g\<lparr>wLastUnequippedItem := w\<rparr>) = usable g" "stock (g\<lparr>wLastUnequippedItem := w\<rparr>) = stock g"
  "the_role row r (g\<lparr>wLastUnequippedItem := w\<rparr>) = the_role row r g"
  by (simp_all add: usable_def stock_def the_role_def fun_eq_iff)

text \<open>
  \<^bold>\<open>C33\<close> Equipping an item that is in the inventory (instruction \<open>0x0018\<close>) exchanges it for what was worn there: the
  item is worn, the inventory has one less of it and one more of the old item (but not more than 99), every other
  amount is as it was, and the script goes on. The old item needs room in the inventory.
\<close>
theorem equip_exchanges:
  assumes "usable (gp s)" and "unat (obj i) < 6" and "11 \<le> unat (op0 i)" and "unat (op0 i) < 17"
    and "old = the_role (unat (op0 i)) (unat (obj i)) (gp s)" and "op1 i \<noteq> old" and "op1 i \<noteq> 0" and "old \<noteq> 0"
    and "0 < stock (gp s) (op1 i)" and "room_for old (snd (PAL_AddItemToInventory (op1 i) (- 1) (gp s)))"
  shows "\<exists>s'. op_18 e i s = Inr (entry i, s') \<and> usable (gp s') \<and>
    the_role (unat (op0 i)) (unat (obj i)) (gp s') = op1 i \<and> wLastUnequippedItem (gp s') = old \<and>
    stock (gp s') = (stock (gp s))(op1 i := stock (gp s) (op1 i) - 1, old := min 99 (stock (gp s) old + 1))"
proof -
  define part where "part = unat (op0 i) - 11"
  have p6: "part < 6" "unat (op0 i) = 11 + part" using assms(3,4) by (simp_all add: part_def)
  then have "uint (op0 i) - 11 = int part" "unat (of_nat part :: u16) = part"
    by (simp_all add: unat_of_nat take_bit_eq_mod) (metis add_diff_cancel_left' of_nat_add of_nat_numeral uint_nat)
  note part = this(1) p6 this(2)
  let ?r = "unat (obj i)"
  obtain h where h: "PAL_RemoveEquipmentEffect (obj i) (of_nat part) (gp s) = Inr h" "keeps_alike (gp s) h"
    using RemoveEquipmentEffect_returns [OF assms(1,2), of "of_nat part"] part by (metis less_SucI eval_nat_numeral(3))
  let ?h = "set_role (11 + part) ?r (op1 i) h"
  let ?k = "snd (PAL_AddItemToInventory old 1 (snd (PAL_AddItemToInventory (op1 i) (- 1) ?h)))"
  have a: "alike (gp s) h" "usable h" using h(2) by (simp_all add: keeps_alike_def)
  have w: "the_role (11 + part) ?r h = old" using the_role_alike [OF a(1)] assms(5) part(3) by simp
  have inv: "rgInventory h = rgInventory (gp s)" using a(1) by (simp add: alike_def)
  have "op_18 e i s = Inr (entry i, s\<lparr>g_iCurEquipPart := int part, gp := ?k\<lparr>wLastUnequippedItem := old\<rparr>\<rparr>)"
    unfolding op_18_def Let_def
    by (simp add: part(1,2) role_of_def assms(2) on_gpE_def h(1) w go_on_def add_to_inventory_def on_gp_def)
      (use assms(6,8) w part(2) in auto)
  moreover have "stock ?k = (stock (gp s))(op1 i := stock (gp s) (op1 i) - 1, old := min 99 (stock (gp s) old + 1)) \<and> inventory_ok ?k"
  proof -
    have same: "inventory_ok ?h = inventory_ok (gp s)" "stock ?h = stock (gp s)"
      "room_for old (snd (PAL_AddItemToInventory (op1 i) (- 1) ?h)) = room_for old (snd (PAL_AddItemToInventory (op1 i) (- 1) (gp s)))"
      by (simp_all add: inv inventory_ok_def stock_def fun_eq_iff room_for_def set_role_def PAL_AddItemToInventory_def split: prod.split)
    have "inventory_ok (gp s)" using assms(1) by (simp add: usable_def game_ok_def)
    then show ?thesis using inventory.move_one [of ?h "op1 i" old] assms(6-10) same by simp
  qed
  moreover have "usable ?k" using a(2) by (intro usable_add) simp_all
  moreover have "the_role (11 + part) ?r ?k = op1 i" using worn_set [OF a(2) assms(2) part(2)] by simp
  ultimately show ?thesis by (intro exI [of _ "s\<lparr>g_iCurEquipPart := int part, gp := ?k\<lparr>wLastUnequippedItem := old\<rparr>\<rparr>"])
      (simp add: part(3))
qed

section \<open>Taking items away\<close>

definition worn :: "u16 \<Rightarrow> (u16 \<times> nat) list \<Rightarrow> GLOBALVARS \<Rightarrow> nat" where
  "worn ob ps g = length (filter (\<lambda>(w, j). the_role (11 + j) (unat w) g = ob) ps)"

definition cleared :: "GLOBALVARS \<Rightarrow> GLOBALVARS \<Rightarrow> bool" where
  "cleared g h \<longleftrightarrow> usable h \<and> rgInventory h = rgInventory g \<and> rgParty h = rgParty g \<and>
     wMaxPartyMemberIndex h = wMaxPartyMemberIndex g \<and>
     (\<forall>j r. j < 6 \<and> r < 6 \<longrightarrow> the_role (11 + j) r h = the_role (11 + j) r g \<or> the_role (11 + j) r h = 0)"

lemma clearedD: "cleared g h \<Longrightarrow> j < 6 \<Longrightarrow> r < 6 \<Longrightarrow>
    the_role (11 + j) r h = the_role (11 + j) r g \<or> the_role (11 + j) r h = 0"
  by (simp add: cleared_def)

lemma cleared_trans:
  assumes "cleared g h" and "cleared h k"
  shows "cleared g k"
proof -
  have "the_role (11 + j) r k = the_role (11 + j) r g \<or> the_role (11 + j) r k = 0" if "j < 6" "r < 6" for j r
    using clearedD [OF assms(1) that] clearedD [OF assms(2) that] by auto
  then show ?thesis using assms by (simp add: cleared_def)
qed

lemma set_role_frame [simp]: "rgInventory (set_role row r v g) = rgInventory g" "rgParty (set_role row r v g) = rgParty g"
  "wMaxPartyMemberIndex (set_role row r v g) = wMaxPartyMemberIndex g"
  by (simp_all add: set_role_def)

definition places_ok :: "(u16 \<times> nat) list \<Rightarrow> bool" where
  "places_ok ps \<longleftrightarrow> distinct ps \<and> (\<forall>(w, j) \<in> set ps. unat w < 6 \<and> j < 6)"

lemma take_off_takes:
  "usable g \<Longrightarrow> places_ok ps \<Longrightarrow> ob \<noteq> 0 \<Longrightarrow> 0 < x \<Longrightarrow>
   \<exists>h. take_off ob ps x g = Inr (x - worn ob ps g, h) \<and> cleared g h \<and> worn ob ps h = worn ob ps g - x"
proof (induction ps arbitrary: x g)
  case Nil
  then show ?case by (simp add: worn_def cleared_def)
next
  case (Cons p ps)
  obtain w j where p: "p = (w, j)" by fastforce
  have ps: "unat w < 6" "j < 6" "places_ok ps" "(w, j) \<notin> set ps" using Cons.prems(2) by (simp_all add: places_ok_def p)
  show ?case
  proof (cases "the_role (11 + j) (unat w) g = ob")
    case False
    then obtain h where h: "take_off ob ps x g = Inr (x - worn ob ps g, h)" "cleared g h" "worn ob ps h = worn ob ps g - x"
      using Cons.IH [OF Cons.prems(1) ps(3) Cons.prems(3,4)] by blast
    have "the_role (11 + j) (unat w) h \<noteq> ob" using clearedD [OF h(2) ps(2,1)] False Cons.prems(3) by auto
    with h False ps show ?thesis by (simp add: p worn_def role_of_def)
  next
    case True
    have j: "unat (of_nat j :: u16) < 7" using ps(2) by (simp add: unat_of_nat take_bit_eq_mod)
    obtain h0 where h0: "PAL_RemoveEquipmentEffect w (of_nat j) g = Inr h0" "keeps_alike g h0"
      using RemoveEquipmentEffect_returns [OF Cons.prems(1) ps(1) j] by blast
    define h where "h = set_role (11 + j) (unat w) 0 h0"
    have u: "usable h" and a: "alike g h0" using h0(2) by (simp_all add: keeps_alike_def h_def)
    have r: "the_role (11 + j') r' h = (if j' = j \<and> r' = unat w then 0 else the_role (11 + j') r' g)" if "j' < 6" "r' < 6" for j' r'
    proof -
      have "roles_ok h0" using h0(2) PlayerRoles_length by (simp add: keeps_alike_def)
      then show ?thesis using that ps the_role_set_role [of h0 r' "unat w" "11 + j" "11 + j'" 0]
        the_role_alike [OF a] by (simp add: h_def)
    qed
    have c: "cleared g h" using u a r by (simp add: cleared_def h_def alike_def)
    have "worn ob ps h = worn ob ps g" unfolding worn_def
    proof (rule arg_cong [of _ _ length], rule filter_cong [OF refl], clarsimp)
      fix w' j' assume m: "(w', j') \<in> set ps"
      then have "unat w' < 6" "j' < 6" "(w', j') \<noteq> (w, j)" using ps(3,4) by (auto simp: places_ok_def)
      then show "(the_role (11 + j') (unat w') h = ob) = (the_role (11 + j') (unat w') g = ob)" using r by (auto simp: word_unat_eq_iff)
    qed
    then have n: "worn ob (p # ps) g = Suc (worn ob ps h)" "the_role (11 + j) (unat w) h = 0"
      using True r ps by (simp_all add: worn_def p)
    have step: "take_off ob (p # ps) x g = (if x - 1 = 0 then Inr (0, h) else take_off ob ps (x - 1) h)"
      using True ps by (simp add: p role_of_def h0(1) h_def)
    show ?thesis
    proof (cases "x = 1")
      case True
      have "worn ob (p # ps) h = worn ob ps h" using n(2) Cons.prems(3) by (simp add: worn_def p)
      then show ?thesis using step n True c by auto
    next
      case False
      then obtain k where k: "take_off ob ps (x - 1) h = Inr (x - 1 - worn ob ps h, k)" "cleared h k" "worn ob ps k = worn ob ps h - (x - 1)"
        using Cons.IH [OF u ps(3) Cons.prems(3), of "x - 1"] Cons.prems(4) by auto
      have "the_role (11 + j) (unat w) k = 0" using clearedD [OF k(2) ps(2,1)] n(2) by simp
      then have "worn ob (p # ps) k = worn ob ps k" using Cons.prems(3) by (simp add: worn_def p)
      then show ?thesis using step n(1) k(1,3) False Cons.prems(4) cleared_trans [OF c k(2)] by auto
    qed
  qed
qed

definition party_places :: "GLOBALVARS \<Rightarrow> (u16 \<times> nat) list" where
  "party_places g = worn_places (map wPlayerRole (take (unat (wMaxPartyMemberIndex g) + 1) (rgParty g)))"

lemma places_ok_party:
  assumes "distinct (map wPlayerRole (take (unat (wMaxPartyMemberIndex g) + 1) (rgParty g)))"
    and "\<forall>m \<in> set (take (unat (wMaxPartyMemberIndex g) + 1) (rgParty g)). unat (wPlayerRole m) < 6"
  shows "places_ok (party_places g)"
proof -
  have d: "distinct (worn_places ws)" if "distinct ws" for ws
    using that by (induction ws) (auto simp: worn_places_def distinct_map inj_on_def)
  have "distinct (party_places g)" unfolding party_places_def by (rule d) (rule assms(1))
  then show ?thesis using assms(2) by (auto simp: places_ok_def party_places_def worn_places_def)
qed

text \<open>
  \<^bold>\<open>C35\<close> An instruction to take \<open>n\<close> pieces of an item (\<open>0x0020\<close>), when the inventory has \<open>m < n\<close> of them and the party wears
  \<open>k\<close>: it takes all \<open>m\<close> and then up to \<open>n\<close>, not \<open>n - m\<close>, of those that are worn, that is \<open>m + min n k\<close> in all; and the script
  takes the branch for failure whenever \<open>k < n\<close>, even if \<open>m + k\<close> would have been enough.
\<close>
theorem removal_takes_too_many:
  assumes "usable (gp s)" and "op0 i \<noteq> 0" and "n = (if op1 i = 0 then 1 else unat (op1 i))" and "stock (gp s) (op0 i) < n"
    and "distinct (map wPlayerRole (take (unat (wMaxPartyMemberIndex (gp s)) + 1) (rgParty (gp s))))"
    and "\<forall>m \<in> set (take (unat (wMaxPartyMemberIndex (gp s)) + 1) (rgParty (gp s))). unat (wPlayerRole m) < 6"
  shows "\<exists>s'. op_20 e i s =
      Inr (if worn (op0 i) (party_places (gp s)) (gp s) < n \<and> op2 i \<noteq> 0 then op2 i - 1 else entry i, s') \<and>
    stock (gp s') = (stock (gp s))(op0 i := 0) \<and>
    worn (op0 i) (party_places (gp s)) (gp s') = worn (op0 i) (party_places (gp s)) (gp s) - n"
proof -
  let ?ps = "party_places (gp s)"
  have n: "0 < n" using assms(3) by (auto simp: unat_gt_0)
  have ok: "inventory_ok (gp s)" using assms(1) by (simp add: usable_def game_ok_def)
  define g where "g = snd (PAL_AddItemToInventory (op0 i) (- int n) (gp s))"
  have i: "PAL_AddItemToInventory (op0 i) (- int n) (gp s) = (False, g)" "stock g = (stock (gp s))(op0 i := 0)"
    using inventory.removes [OF ok assms(2), of "int n"] n assms(4) by (simp_all add: g_def)
  have u: "usable g" unfolding g_def using usable_add [OF assms(1)] by simp
  have w: "worn (op0 i) ?ps g = worn (op0 i) ?ps (gp s)" by (simp add: worn_def g_def)
  have same: "rgParty g = rgParty (gp s)" "wMaxPartyMemberIndex g = wMaxPartyMemberIndex (gp s)"
    by (simp_all add: g_def PAL_AddItemToInventory_def split: prod.split)
  obtain h where h: "take_off (op0 i) ?ps n g = Inr (n - worn (op0 i) ?ps (gp s), h)" "cleared g h"
      "worn (op0 i) ?ps h = worn (op0 i) ?ps (gp s) - n"
    using take_off_takes [OF u places_ok_party [OF assms(5,6)] assms(2) n] w by auto
  have roles: "bindE (party_roles g) (\<lambda>ws. f (worn_places ws)) = f ?ps" for f :: "(u16 \<times> nat) list \<Rightarrow> (u16 \<times> PAL) Prelude.res"
    using assms(1) by (simp add: party_roles_def party_places_def same usable_def game_lengths)
  have "stock h = stock g" using h(2) by (simp add: cleared_def stock_def fun_eq_iff)
  moreover have "op_20 e i s = Inr (if worn (op0 i) ?ps (gp s) < n \<and> op2 i \<noteq> 0 then op2 i - 1 else entry i, s\<lparr>gp := h\<rparr>)"
    unfolding op_20_def Let_def assms(3) [symmetric] i(1) prod.case
    using h(1) roles [of "\<lambda>ps. bindE (take_off (op0 i) ps n g) (\<lambda>(x, g).
        if x > 0 \<and> op2 i \<noteq> 0 then jump (op2 i) (Inr (s\<lparr>gp := g\<rparr>)) else go_on i (Inr (s\<lparr>gp := g\<rparr>)))"]
    by (simp add: jump_def go_on_def)
  ultimately show ?thesis using i(2) h(3) by (intro exI [of _ "s\<lparr>gp := h\<rparr>"]) simp
qed

section \<open>Walking to a place\<close>

definition toward :: "int \<Rightarrow> int \<Rightarrow> int \<Rightarrow> EVENTOBJECT \<Rightarrow> EVENTOBJECT" where
  "toward tx ty v ev =
     (let xOffset = tx - uint (ox ev); yOffset = ty - uint (oy ev); ev = ev\<lparr>wDirection := walk_dir xOffset yOffset\<rparr> in
      if \<bar>xOffset\<bar> < v * 2 \<or> \<bar>yOffset\<bar> < v * 2 then ev\<lparr>ox := word_of_int tx, oy := word_of_int ty\<rparr>
      else walk_one_step v ev)"

definition arrived :: "int \<Rightarrow> int \<Rightarrow> EVENTOBJECT \<Rightarrow> bool" where
  "arrived tx ty ev \<longleftrightarrow> uint (ox ev) = tx \<and> uint (oy ev) = ty"

definition place_event :: "nat \<Rightarrow> EVENTOBJECT \<Rightarrow> PAL \<Rightarrow> PAL" where
  "place_event k ev = on_gp (set_event k ev)"

lemma place_event_simps [simp]:
  "lprgEventObject (gp (place_event k ev s)) = (lprgEventObject (gp s))[k := ev]"
  "place_event k ev' (place_event k ev s) = place_event k ev' s"
  by (simp_all add: place_event_def on_gp_def set_event_def)

lemma on_object_at:
  assumes "k < length (lprgEventObject (gp s))"
  shows "the_object (Some (int k)) (gp s) = Inr (lprgEventObject (gp s) ! k)"
    "on_object (Some (int k)) f s = Inr (place_event k (f (lprgEventObject (gp s) ! k)) s)"
  using assms by (simp_all add: on_object_def the_object_def event_at_def place_event_def)

lemma NPCWalkTo_eq:
  assumes "w \<noteq> 0" and "unat w \<le> length (lprgEventObject (gp s))"
    and "k = unat w - 1" and "tx = x * 32 + h * 16" and "ty = y * 16 + h * 8"
    and "ev = toward tx ty v (lprgEventObject (gp s) ! k)"
  shows "PAL_NPCWalkTo w x y h v s = Inr (if arrived tx ty ev then (True, place_event k (ev\<lparr>wCurrentFrameNum := 0\<rparr>) s)
    else (False, place_event k ev s))"
proof -
  have "0 < unat w" using assms(1) by (simp add: unat_gt_0)
  then have k: "uint w - 1 = int k" "k < length (lprgEventObject (gp s))"
    using assms(2,3) by (simp_all add: of_nat_diff)
  have step: "on_gp (PAL_NPCWalkOneStep w v) u = place_event k (walk_one_step v (lprgEventObject (gp u) ! k)) u"
    if "length (lprgEventObject (gp u)) = length (lprgEventObject (gp s))" for u
    using that assms(1,2) by (simp add: PAL_NPCWalkOneStep_def place_event_def on_gp_def assms(3) Let_def)
  show ?thesis
    unfolding PAL_NPCWalkTo_def Let_def k(1) assms(4,5) [symmetric]
    using assms(1) k(2) by (simp add: on_object_at step assms(6) toward_def Let_def arrived_def)
qed

text \<open>Walking until the place is reached, at most \<open>n\<close> times.\<close>

fun walk_until :: "nat \<Rightarrow> u16 \<Rightarrow> int \<Rightarrow> int \<Rightarrow> int \<Rightarrow> int \<Rightarrow> PAL \<Rightarrow> (bool \<times> PAL) Prelude.res" where
  "walk_until 0 w x y h v s = Inr (False, s)"
| "walk_until (Suc n) w x y h v s =
     bindE (PAL_NPCWalkTo w x y h v s) (\<lambda>(there, s). if there then Inr (True, s) else walk_until n w x y h v s)"

lemma uint_add_int: "uint (a + word_of_int z :: u16) = take_bit 16 (uint a + z)"
proof -
  have "a + word_of_int z = (word_of_int (uint a + z) :: u16)" by simp
  then show ?thesis by (simp only: unsigned_of_int) simp
qed

lemma toward_far:
  assumes "0 \<le> ty" "ty < 65536" "1 \<le> v" "\<not> arrived tx ty (toward tx ty v ev)" "0 \<le> tx" "tx < 65536"
  shows "nat \<bar>ty - uint (oy (toward tx ty v ev))\<bar> < nat \<bar>ty - uint (oy ev)\<bar>"
proof -
  let ?y = "uint (oy ev)" let ?d = "ty - ?y"
  have b: "0 \<le> ?y" "?y < 65536" using uint_lt2p [of "oy ev"] by simp_all
  have "uint (word_of_int tx :: u16) = tx" "uint (word_of_int ty :: u16) = ty"
    using assms(1,2,5,6) by (simp_all add: unsigned_of_int take_bit_int_eq_self)
  then have far: "\<not> (\<bar>tx - uint (ox ev)\<bar> < v * 2 \<or> \<bar>?d\<bar> < v * 2)"
    using assms(4) by (auto simp: toward_def arrived_def Let_def)
  have o: "oy (toward tx ty v ev) = oy ev + word_of_int ((if ?d < 0 then - 1 else 1) * v)"
    using far by (auto simp: toward_def walk_one_step_def walk_dir_def Let_def)
  let ?n = "?y + (if ?d < 0 then - 1 else 1) * v"
  have "0 \<le> ?n" "?n < 65536" using far b assms(1-3) by (auto split: if_splits)
  moreover have "uint (oy (toward tx ty v ev)) = take_bit 16 ?n" unfolding o by (rule uint_add_int)
  ultimately have "uint (oy (toward tx ty v ev)) = ?n" by (simp add: take_bit_int_eq_self)
  then show ?thesis using far assms(3) by (auto split: if_splits)
qed

text \<open>
  \<^bold>\<open>C34\<close> Walking on ends: an event object that is told again and again to walk to a place inside the map arrives there, after
  at most as many steps as it is rows of pixels away, and one more; it then stands exactly at the place, in its
  first frame, and no other event object has changed.
\<close>
theorem walk_arrives:
  assumes "w \<noteq> 0" and "unat w \<le> length (lprgEventObject (gp s))" and "1 \<le> v"
    and "0 \<le> x * 32 + h * 16" and "x * 32 + h * 16 < 65536" and "0 \<le> y * 16 + h * 8" and "y * 16 + h * 8 < 65536"
  shows "\<exists>n s' ev. n \<le> nat \<bar>y * 16 + h * 8 - uint (oy (lprgEventObject (gp s) ! (unat w - 1)))\<bar> + 1 \<and>
    walk_until n w x y h v s = Inr (True, s') \<and> lprgEventObject (gp s') = (lprgEventObject (gp s))[unat w - 1 := ev] \<and>
    uint (ox ev) = x * 32 + h * 16 \<and> uint (oy ev) = y * 16 + h * 8 \<and> wCurrentFrameNum ev = 0"
  using assms(2)
proof (induction "nat \<bar>y * 16 + h * 8 - uint (oy (lprgEventObject (gp s) ! (unat w - 1)))\<bar>" arbitrary: s rule: less_induct)
  case less
  let ?tx = "x * 32 + h * 16" and ?ty = "y * 16 + h * 8" and ?k = "unat w - 1"
  let ?ev = "toward ?tx ?ty v (lprgEventObject (gp s) ! ?k)"
  have "0 < unat w" using assms(1) by (simp add: unat_gt_0)
  then have k: "?k < length (lprgEventObject (gp s))" using less.prems by linarith
  note eq = NPCWalkTo_eq [OF assms(1) less.prems refl refl refl refl, of x y h v]
  show ?case
  proof (cases "arrived ?tx ?ty ?ev")
    case True
    then have "walk_until (Suc 0) w x y h v s = Inr (True, place_event ?k (?ev\<lparr>wCurrentFrameNum := 0\<rparr>) s)" using eq by simp
    then show ?thesis using True by (intro exI [of _ "Suc 0"] exI) (auto simp: arrived_def)
  next
    case False
    let ?s = "place_event ?k ?ev s"
    have at: "lprgEventObject (gp ?s) ! ?k = ?ev" using k by simp
    have far: "nat \<bar>?ty - uint (oy ?ev)\<bar> < nat \<bar>?ty - uint (oy (lprgEventObject (gp s) ! ?k))\<bar>"
      using toward_far [OF assms(6,7,3) False assms(4,5)] .
    have "unat w \<le> length (lprgEventObject (gp ?s))" using less.prems by simp
    then obtain n s' ev where r: "n \<le> nat \<bar>?ty - uint (oy ?ev)\<bar> + 1" "walk_until n w x y h v ?s = Inr (True, s')"
      "lprgEventObject (gp s') = (lprgEventObject (gp ?s))[?k := ev]"
      "uint (ox ev) = ?tx" "uint (oy ev) = ?ty" "wCurrentFrameNum ev = 0"
      using less.hyps [of ?s] far at by auto
    have "walk_until (Suc n) w x y h v s = walk_until n w x y h v ?s" using eq False by simp
    moreover have "Suc n \<le> nat \<bar>?ty - uint (oy (lprgEventObject (gp s) ! ?k))\<bar> + 1" using r(1) far by linarith
    ultimately show ?thesis using r(2-6) by (intro exI [of _ "Suc n"] exI [of _ s'] exI [of _ ev]) (simp only: place_event_simps list_update_overwrite simp_thms)
  qed
qed

theorem walk_arrives_witness:
  "\<exists>s n s'. walk_until n 1 2 3 1 2 s = Inr (True, s') \<and> n \<le> 47 \<and> uint (ox (lprgEventObject (gp s') ! 0)) = 80"
proof -
  fix t :: PAL and p :: EVENTOBJECT
  let ?s = "on_gp (\<lambda>g. g\<lparr>lprgEventObject := [p\<lparr>ox := 10, oy := 10\<rparr>]\<rparr>) t"
  have "lprgEventObject (gp ?s) = [p\<lparr>ox := 10, oy := 10\<rparr>]" by (simp add: on_gp_def)
  then obtain n s' ev where "n \<le> 47" "walk_until n 1 2 3 1 2 ?s = Inr (True, s')" "lprgEventObject (gp s') = [ev]" "uint (ox ev) = 80"
    using walk_arrives [of 1 ?s 2 2 1 3] by auto
  then show ?thesis by (intro exI [of _ ?s] exI [of _ n] exI [of _ s']) simp
qed

text \<open>The data of a party of one that wears two pieces of item 5 and has items 5 and 7.\<close>

definition armed :: "GLOBALVARS \<Rightarrow> GLOBALVARS" where
  "armed g = set_role 11 0 5 (set_role 12 0 5 ((gift g)\<lparr>rgInventory := rgInventory (two_items g), wMaxPartyMemberIndex := 0\<rparr>))"

lemma armed_ok: "usable (armed g)" "stock (armed g) = stock (two_items g)" "rgParty (armed g) = replicate 5 (party [0, 0, 0, 0, 0])"
  "wMaxPartyMemberIndex (armed g) = 0"
proof -
  have "inventory_ok ((gift g)\<lparr>rgInventory := rgInventory (two_items g)\<rparr>)"
    using two_items_facts(1) [of g] by (simp add: inventory_ok_def)
  moreover have "rows_ok (gift g)" "tables_ok (gift g)" using gift_ok by (simp_all add: game_ok_def)
  ultimately have "game_ok ((gift g)\<lparr>rgInventory := rgInventory (two_items g)\<rparr>)"
    by (simp add: game_ok_def rows_ok_def tables_ok_def)
  then have "usable ((gift g)\<lparr>rgInventory := rgInventory (two_items g), wMaxPartyMemberIndex := 0\<rparr>)"
    by (simp add: usable_def) (simp add: gift_def no_poison_def)
  then show "usable (armed g)" by (simp add: armed_def)
  show "stock (armed g) = stock (two_items g)" by (simp add: armed_def) (simp add: stock_def fun_eq_iff)
  show "rgParty (armed g) = replicate 5 (party [0, 0, 0, 0, 0])" "wMaxPartyMemberIndex (armed g) = 0"
    by (simp_all add: armed_def gift_def)
qed

lemma armed_roles: "the_role 11 0 (armed g) = 5" "the_role 12 0 (armed g) = 5" "2 \<le> j \<Longrightarrow> j < 6 \<Longrightarrow> the_role (11 + j) 0 (armed g) = 0"
proof -
  have "roles_ok ((gift g)\<lparr>rgInventory := rgInventory (two_items g), wMaxPartyMemberIndex := 0\<rparr>)"
    by (simp add: roles_ok_def gift_def)
  note r = the_role_set_role [OF this] the_role_set_role [of "set_role 12 0 5 _", simplified, OF this]
  show "the_role 11 0 (armed g) = 5" "the_role 12 0 (armed g) = 5" by (simp_all add: armed_def r)
  show "the_role (11 + j) 0 (armed g) = 0" if "2 \<le> j" "j < 6"
    using that by (simp add: armed_def r) (simp add: the_role_def gift_def role_get_def)
qed

theorem equip_exchanges_witness:
  "\<exists>e i s s'. op_18 e i s = Inr (entry i, s') \<and> the_role 11 0 (gp s') = 7 \<and> stock (gp s') 7 = 98 \<and> stock (gp s') 5 = 99"
proof -
  fix e :: ENV and t :: PAL
  let ?s = "t\<lparr>gp := armed (gp t)\<rparr>" and ?i = "\<lparr>entry = 1, op0 = 11, op1 = 7, op2 = 0, obj = 0\<rparr>"
  have "rgInventory (gp ?s) = [\<lparr>wItem = 5, nAmount = 98, nAmountInUse = 0\<rparr>, \<lparr>wItem = 7, nAmount = 99, nAmountInUse = 0\<rparr>] @ replicate 254 no_item"
    by (simp add: armed_def two_items_def)
  then have "room_for 5 (snd (PAL_AddItemToInventory 7 (- 1) (gp ?s)))"
    by (simp add: room_for_def PAL_AddItemToInventory_def add_item_def listed_def)
  then obtain s' where "op_18 e ?i ?s = Inr (entry ?i, s') \<and> the_role 11 0 (gp s') = 7 \<and> stock (gp s') 7 = 98 \<and> stock (gp s') 5 = 99"
    using equip_exchanges [of ?s ?i 5 e] armed_ok(1,2) [of "gp t"] armed_roles(1) [of "gp t"] two_items_facts(2,3) [of "gp t"] by auto
  then show ?thesis by blast
qed

theorem removal_takes_too_many_witness:
  "\<exists>e i s s'. op_20 e i s = Inr (op2 i - 1, s') \<and> stock (gp s) 5 = 98 \<and> stock (gp s') 5 = 0 \<and>
     worn 5 (party_places (gp s)) (gp s) = 2 \<and> worn 5 (party_places (gp s)) (gp s') = 0 \<and> unat (op1 i) = 99"
proof -
  fix e :: ENV and t :: PAL
  let ?s = "t\<lparr>gp := armed (gp t)\<rparr>" and ?i = "\<lparr>entry = 1, op0 = 5, op1 = 99, op2 = 40, obj = 0\<rparr>"
  have places: "party_places (armed (gp t)) = map (Pair 0) [0..<6]"
    by (simp add: party_places_def worn_places_def armed_ok party_def numeral_eq_Suc)
  have "worn 5 (party_places (gp ?s)) (gp ?s) = 2"
    using armed_roles(1,2) [of "gp t"] armed_roles(3) [of 2 "gp t"] armed_roles(3) [of 3 "gp t"] armed_roles(3) [of 4 "gp t"]
      armed_roles(3) [of 5 "gp t"] by (simp add: worn_def places upt_rec)
  then obtain s' where "op_20 e ?i ?s = Inr (op2 ?i - 1, s') \<and> stock (gp ?s) 5 = 98 \<and> stock (gp s') 5 = 0 \<and>
     worn 5 (party_places (gp ?s)) (gp ?s) = 2 \<and> worn 5 (party_places (gp ?s)) (gp s') = 0 \<and> unat (op1 ?i) = 99"
    using removal_takes_too_many [of ?s ?i 99 e] armed_ok [of "gp t"] two_items_facts(2) [of "gp t"] by (auto simp: party_def)
  then show ?thesis by blast
qed

end
