(* ===== verification/Spec2Isabelle.thy ===== *)
theory Spec2Isabelle
  imports AluCorrect FpuCorrect RepCorrect KLoad DebugCorrect GameLoop GameDevice PalYj1Correct PalScriptCorrect
begin

text \<open>
  NEMU, the teaching emulator of ics2017: an 80386 with an x87 FPU, an L1 data cache, a
  TLB, port and memory-mapped devices and a debugger. This development is a shallow
  embedding of its C code, one theory per component, with the theorems that make the
  components correct. The guest kernel that runs on it, the typing game and the data,
  the maps and the script interpreter of the role-playing game in the repository are modelled as well.

  \<^bold>\<open>How the program is put together.\<close> \<open>nemu/src/main.c\<close> restarts the machine, loads an
  image and enters the debugger; \<open>exec\<close> of \<open>cpu/cpu.c\<close> fetches, decodes and runs one
  instruction per round, looks at breakpoints and watchpoints, and takes a pending
  interrupt. A handler reads and writes operands through segmentation, paging (TLB and
  page tables) and the data cache, or, for an address in a mapped range, through a device.
  A second thread of SDL raises timer and keyboard interrupts and redraws the screen.

  \<^bold>\<open>Theories.\<close>
  \<^item> \<open>Prelude\<close>: C integers as words, the result type \<open>abort + 'a\<close>, bit fields, byte strings.
  \<^item> \<open>Reg\<close>, \<open>Machine\<close>: the register unions of \<open>cpu/reg.h\<close> and all global state of the emulator
    as the record \<open>mach\<close>. The views of a register are functions on its 32-bit value.
  \<^item> \<open>Alu\<close> (\<open>cpu/alu.c\<close>) with \<open>AluCorrect\<close>: results and flags against integer arithmetic.
  \<^item> \<open>Cache\<close> (\<open>memory/cache.c\<close>, \<open>memory/memory.c\<close>) with \<open>CacheCorrect\<close>: the cache refines flat
    memory as long as no access crosses a line.
  \<^item> \<open>Mmio\<close> (\<open>device/io/mm_io.c\<close>): the range table, its allocation invariant, its callbacks.
  \<^item> \<open>Memory\<close> (\<open>memory/mmu/*.c\<close>, \<open>memory/memory.c\<close>): paging, TLB, segmentation and the four
    address spaces. \<open>ByteMem\<close> states the interface of a byte-addressed memory as the locale
    \<open>byte_memory\<close> and interprets it on the cache (\<open>cm\<close>), on physical accesses (\<open>pm\<close>) and on
    virtual accesses (\<open>vm\<close>); \<open>MmuCorrect\<close> proves translation against the page tables.
  \<^item> \<open>Decode\<close> (\<open>cpu/decode/operand.c\<close>, \<open>modrm.c\<close>), \<open>InstrHelper\<close> (\<open>cpu/instr_helper.h\<close>: each macro is
    a function from its execution body to a handler), \<open>InstrArith\<close>, \<open>InstrMulDiv\<close>, \<open>InstrMov\<close>,
    \<open>InstrControl\<close> (\<open>cpu/instr/*.c\<close>), \<open>Intr\<close> (\<open>cpu/intr.c\<close>). \<open>StackSpace\<close> states what the stack instructions
    and interrupt entry ask of the memory as the locale \<open>stack_space\<close> and proves their behaviour once;
    \<open>StackCorrect\<close> interprets it on flat memory (\<open>fs\<close>), \<open>KIrq\<close> on kernel space under paging (\<open>ks\<close>).
  \<^item> \<open>Fpu\<close> (\<open>cpu/fpu.c\<close>), \<open>X87\<close> (\<open>cpu/instr/x87.c\<close>): the FPU. Its data paths are integer
    operations on the bit patterns of single precision numbers; the C operations on \<open>float\<close>
    and \<open>double\<close> that it uses itself are IEEE operations written out with \<open>round_float\<close>.
    \<open>FpuRound\<close> relates the guard, round and sticky bits to rounding to odd; \<open>FpuCorrect\<close> shows
    that sums, differences and products are the correctly rounded real results.
  \<^item> \<open>Opcode\<close> (\<open>cpu/decode/opcode.c\<close>): the opcode tables as functions from the opcode to the
    handler, the prefixes and \<open>rep\<close>.
  \<^item> \<open>Devices\<close> (\<open>device/*.c\<close>): the interrupt controller, ports, timer, keyboard, serial line, IDE
    disk and VGA.
  \<^item> \<open>Symtab\<close> (\<open>monitor/elf.c\<close>), \<open>Expr\<close> (\<open>monitor/expr.c\<close>), \<open>Breakpoint\<close> (\<open>monitor/breakpoint.c\<close>): the
    debugger's tables and expressions.
  \<^item> \<open>Exec\<close>: the CPU loop, start-up and the interleaving of the CPU with the SDL thread.
  \<^item> \<open>KDisk\<close> (\<open>kernel/src/driver/ide/disk.c\<close>): the guest kernel's disk driver as it runs against the
    emulated ports, with a timer tick possible after every port access. Reading works with ticks, except that a tick
    in the instant of the read command loses the disk's interrupt; writing stops at \<open>out_long\<close>, whose opcode the
    emulator does not have. \<open>KIde\<close> (\<open>cache.c\<close>, \<open>ide.c\<close>): the sector cache over the interface \<open>sector_source\<close> of a
    disk that can be read, interpreted on the driver (\<open>kd\<close>).
  \<^item> \<open>KIrq\<close> (\<open>kernel/src/irq\<close>): the descriptor table, which the emulator's gate decoding reads
    back, the stub of each vector, the frame it builds on a kernel stack and the way back, the lists of handlers.
  \<^item> \<open>KMem\<close> (\<open>kernel/src/memory/kvm.c\<close>): \<open>init_page\<close> on the emulated memory, with the laws of \<open>memset\<close> and
    \<open>memcpy\<close> over \<open>byte_memory\<close>. \<open>KSpace\<close> interprets \<open>byte_memory\<close> on the kernel's address space under
    paging (\<open>kv\<close>) and runs \<open>init_segment\<close> on it; \<open>KUser\<close> (\<open>mm.c\<close>, \<open>vmem.c\<close>) builds the user's directory.
    \<open>KSys\<close> (\<open>serial.c\<close>, \<open>fs.c\<close>, \<open>do_syscall.c\<close>) and \<open>KLoad\<close> (\<open>elf.c\<close>, \<open>main.c\<close>): services, loader, start-up.

  \<^item> \<open>RepCorrect\<close>: whole \<open>rep\<close> string instructions through dispatch and prefix loop are block operations.
  \<^item> \<open>Ui\<close> (\<open>monitor/ui.c\<close>, \<open>main.c\<close>): the commands of the debugger and its command line. \<open>DebugCorrect\<close>: the
    pool of breakpoints implements two lists, an inserted breakpoint is invisible to the program, and the
    whole debugger keeps the pool.
  \<^item> \<open>Linklist\<close>, \<open>Game\<close>, \<open>GameVideo\<close>, \<open>GameDevice\<close> (\<open>game/src/typing\<close>, \<open>game/src/common\<close>): the typing game,
    its pool of letters as linked lists in an array, drawing, keyboard, timer, palette and system calls.
    \<open>GameCorrect\<close> states what the pool promises as a locale and interprets it; \<open>GameLoop\<close> proves the
    invariant of all reachable states of the main loop, that no assertion fails and that it catches up.
  \<^item> \<open>PalCommon\<close>, \<open>PalYj1\<close> (\<open>game/src/nemu-pal/global/palcommon.c\<close>, \<open>misc/yj1.c\<close>): the bitmaps, sprites,
    archives and the decompressor of the role-playing game. \<open>PalBlit\<close>: the decoder that skips against the
    one that draws pixel by pixel; \<open>PalYj1Correct\<close>: chunks unpack to what was packed, and the overrun.
  \<^item> \<open>PalGlobal\<close> (\<open>include/global.h\<close>, \<open>misc/util.c\<close>), \<open>PalPlayer\<close> (\<open>global/global.c\<close>), \<open>PalSave\<close> (its files),
    \<open>PalShop\<close> (\<open>ui/uigame.c\<close>): the global data of that game and the operations on it. \<open>PalPlayerCorrect\<close>:
    the inventory implements a map of amounts; \<open>PalShop\<close> uses it through the locale \<open>item_store\<close>;
    \<open>PalLevels\<close>: bounds of levels and points, the list of poisons; \<open>PalSaveCorrect\<close>: saved games load back.
  \<^item> \<open>PalMap\<close> (\<open>scene/map.c\<close>, \<open>global/res.c\<close>), \<open>PalScene\<close>, \<open>PalDraw\<close> (\<open>scene/scene.c\<close>): maps and loaded sprites,
    the state of the running game as the record \<open>PAL\<close>, obstacles, the moves of the party, the sprites of a scene.
    \<open>PalSceneCorrect\<close>: the obstacle test finds the nearest tile, the party is never moved into an obstacle,
    sprites are drawn from back to front.
  \<^item> \<open>PalWalk\<close>, \<open>PalOps\<close>, \<open>PalOps2\<close>, \<open>PalOps3\<close>, \<open>PalScript\<close> (\<open>game/script.c\<close>, \<open>game/play.c\<close>), \<open>PalPlay\<close> (\<open>game/play.c\<close>,
    \<open>game/game.c\<close>): the instructions of the script interpreter, \<open>op_XX\<close> for the case \<open>0x00XX\<close> and a table for the
    switch, trigger scripts, automatic scripts, and a round of the main loop.
  \<^item> \<open>PalKeep\<close>, \<open>PalKeepGame\<close>, \<open>PalKeepLoad\<close>, \<open>PalKeepScene\<close>, \<open>PalKeepOps\<close>, \<open>PalKeepScript\<close>: one rule for each
    construct and operation, collected in \<open>keep\<close>, for the well-formedness of the global
    data: the default game has it, and the 101 instructions that change data on their own and the automatic scripts
    made of them keep it, whatever the environment does. \<open>PalScriptCorrect\<close>: equipping exchanges items, removing takes too many, walking ends.

  \<^bold>\<open>Modelling decisions.\<close> A failed \<open>assert\<close> and an operation that C leaves undefined (an index out
  of an array, a shift by the width) are the values \<open>Inl\<close> of \<open>abort\<close>, named after the function.
  Loops that end are total functions. \<open>cache_read\<close> calls itself on a miss and
  carries fuel 2: the second call hits. The polling loops of the kernel's driver carry fuel
  1000; the emulated drive is ready at the first poll. The normalising loops of the FPU
  carry fuel 1000, more than the exponents of finite operands need. \<open>rep\<close> and the CPU loop carry fuel
  given by the caller. \<open>rand()\<close> is an arbitrary sequence in the state, SDL events and the IDE disk's
  contents are inputs. The kernel's \<open>mm_malloc\<close>, a binary object, and the addresses the linker gives its
  arrays are arguments.

  The debugger: the lines that \<open>readline\<close> returns and the contents of files are arguments, each \<open>printf\<close> is
  a constructor of the type of messages, and the flag that \<open>expr\<close> sets only on failure starts with the
  value the stack holds, an argument. The typing game: positions and speeds are rationals, which the
  fixed values of the program make exact; \<open>rand()\<close> is an argument that is never negative; walks along the list of
  letters carry fuel 1001, more than the 1000 structures of the pool, and the key loop fuel 26, one for each
  letter; its counters are 32-bit integers, and the theorems say for how many ticks they last; interrupts come between the steps of the main loop. The role-playing
  game: buffers are lists of bytes and an access outside them is undefined, C's 16-bit fields are words,
  files are a map from names to bytes; the result of \<open>SDL_GetTicks\<close>, what the player chooses in a
  menu are arguments.

  Scripts: \<open>PAL_RunTriggerScript\<close> and \<open>PAL_GameUpdate\<close> call each other, so they are members of the environment
  \<open>ENV\<close>, and \<open>engine e n\<close> is the one in which calls nest at most \<open>n\<close> deep and a script runs at most \<open>n\<close>
  instructions. Loops over walks and menus carry the fuel \<open>rounds\<close> of the
  environment. A call of a function outside these files is a value of \<open>pal_call\<close>, and the member \<open>act\<close> says what it
  returns and how it changes the state; waiting for the next frame is the call \<open>Wait_frame\<close>. In an assignment of
  what a script returns, the left side is evaluated after the call. A null pointer is \<open>None\<close>, and what
  \<open>malloc\<close> leaves in fresh memory is the member \<open>fresh\<close>.

  \<^bold>\<open>Not modelled.\<close> The text the disassembler prints, SDL's drawing, the emulator's unit tests, the
  kernel's DMA path (compiled out) and the formatting in \<open>printk\<close>. Of the role-playing game, a port of a
  third-party engine: its battles, menus, dialogs, endings and music, the fonts, which are tables of data, and the
  layer below them, which is a set of unfinished stubs. newlib's headers are third-party and the guest
  programs are inputs of the emulator.
\<close>

end
